(* ===== verification/Ext2_Prelude.thy ===== *)
theory Ext2_Prelude
  imports Main "HOL-Library.Word"
begin

text \<open>
  What every component of the library shares: the machine integers of the 32-bit big-endian
  target (\<open>SIZEOF_INT = 4\<close>, \<open>SIZEOF_LONG = 4\<close>, \<open>WORDS_BIGENDIAN\<close> in
  \<open>source/config.h\<close>), the error codes of \<open>source/ext2_err.h\<close>, the memory
  allocator of \<open>source/functions.c\<close> with an explicit oracle for what \<open>malloc\<close>
  grants, and the list, word and option lemmas the component proofs use.
\<close>

section \<open>Machine integers\<close>

type_synonym u8 = "8 word"
type_synonym u16 = "16 word"
type_synonym u32 = "32 word"
type_synonym u64 = "64 word"

text \<open>
  A C \<open>int\<close> argument that the code converts to \<open>unsigned long\<close> (32 bits on the
  target) is its two's complement bit pattern, a \<open>u32\<close>: \<open>sint\<close> reads it as the
  \<open>int\<close>, \<open>unat\<close> as the converted value.
\<close>

section \<open>Error codes\<close>

text \<open>
  \<open>errcode_t\<close>: the codes of \<open>ext2_err.h\<close> the modelled functions return or compare
  magic numbers with, and the \<open>errno\<close> values they use. \<open>ERR_OTHER\<close> stands for
  every other long value a magic field may hold. A function that returns 0 on success
  returns \<open>Inr\<close> of its result, one that returns a non-zero code returns \<open>Inl\<close>.
\<close>

datatype errcode =
    EXT2_ET_MAGIC_EXT2FS_FILSYS
  | EXT2_ET_MAGIC_BADBLOCKS_LIST
  | EXT2_ET_MAGIC_BADBLOCKS_ITERATE
  | EXT2_ET_MAGIC_BLOCK_BITMAP
  | EXT2_ET_MAGIC_INODE_BITMAP
  | EXT2_ET_MAGIC_GENERIC_BITMAP
  | EXT2_ET_MAGIC_GENERIC_BITMAP64
  | EXT2_ET_MAGIC_BLOCK_BITMAP64
  | EXT2_ET_MAGIC_INODE_BITMAP64
  | EXT2_ET_MAGIC_DBLIST
  | EXT2_ET_MAGIC_ICOUNT
  | EXT2_ET_BAD_BLOCK_MARK
  | EXT2_ET_BAD_INODE_MARK
  | EXT2_ET_BAD_GENERIC_MARK
  | EXT2_ET_FUDGE_BLOCK_BITMAP_END
  | EXT2_ET_FUDGE_INODE_BITMAP_END
  | EXT2_ET_NEQ_BLOCK_BITMAP
  | EXT2_ET_NEQ_INODE_BITMAP
  | EXT2_ET_CANT_USE_LEGACY_BITMAPS
  | EXT2_ET_NO_INODE_BITMAP
  | EXT2_ET_NO_BLOCK_BITMAP
  | EXT2_ET_NO_MEMORY
  | EXT2_ET_INVALID_ARGUMENT
  | EXT2_ET_TOO_MANY_REFS
  | EXT2_ET_DB_NOT_FOUND
  | EXT2_ET_DBLIST_EMPTY
  | EXT2_ET_DIRHASH_UNSUPP
  | EXT2_ET_MAGIC_IO_CHANNEL
  | EXT2_ET_IO_CHANNEL_NO_SUPPORT_64
  | EXT2_ET_UNIMPLEMENTED
  | EXT2_ET_SHORT_READ
  | EXT2_ET_SHORT_WRITE
  | EXT2_ET_RO_FILSYS
  | EXT2_ET_DIR_CORRUPTED
  | EXT2_ET_DIR_NO_SPACE
  | EXT2_ET_FILE_NOT_FOUND
  | EXT2_ET_NO_DIRECTORY
  | EXT2_ET_BAD_INODE_NUM
  | EXT2_ET_BLOCK_BITMAP_READ
  | EXT2_ET_BLOCK_BITMAP_WRITE
  | EXT2_ET_BLOCK_ALLOC_FAIL
  | EXT2_ET_INODE_ALLOC_FAIL
  | EXT2_ET_BAD_DESC_CHECKSUM
  | EXT2_ET_GDESC_BAD_BLOCK_MAP
  | EXT2_ET_GDESC_BAD_INODE_MAP
  | EXT2_ET_GDESC_BAD_INODE_TABLE
  | EINVAL
  | ENOENT
  | EOVERFLOW
  | ERR_OTHER int

type_synonym 'a result = "errcode + 'a"

section \<open>Memory\<close>

text \<open>
  The state of the C heap as one call sees it: which request sizes (in bytes) \<open>malloc\<close>
  and \<open>realloc\<close> grant, and the indeterminate contents of fresh memory, read as
  array elements. A property that holds for every \<open>heap\<close> holds whatever fails and whatever
  the fresh memory contains. An object of 4 GiB or more does not fit in the 32-bit address
  space, so it is never granted.
\<close>

record 'a heap =
  grants :: "nat \<Rightarrow> bool"
  fresh :: "nat \<Rightarrow> 'a"

definition granted :: "'a heap \<Rightarrow> nat \<Rightarrow> bool" where
  "granted h bytes \<longleftrightarrow> bytes < 2 ^ 32 \<and> grants h bytes"

text \<open>A heap with plenty of memory, every fresh cell holding the same contents.\<close>

definition roomy :: "'a \<Rightarrow> 'a heap" where
  "roomy x = \<lparr>grants = \<lambda>_. True, fresh = \<lambda>_. x\<rparr>"

definition ext2fs_get_mem :: "'a heap \<Rightarrow> nat \<Rightarrow> unit result" where
  "ext2fs_get_mem h bytes = (if granted h bytes then Inr () else Inl EXT2_ET_NO_MEMORY)"

definition ext2fs_get_array :: "'a heap \<Rightarrow> nat \<Rightarrow> nat \<Rightarrow> 'a list result" where
  "ext2fs_get_array h count esize =
     (if count \<noteq> 0 \<and> (2 ^ 32 - 1) div count < esize then Inl EXT2_ET_NO_MEMORY
      else case ext2fs_get_mem h (count * esize) of
             Inl e \<Rightarrow> Inl e
           | Inr _ \<Rightarrow> Inr (map (fresh h) [0..<count]))"

text \<open>
  Evaluation compares the large limits as integers, the unary numerals of \<open>nat\<close> would
  not do.
\<close>

lemma granted_code [code]: "granted h bytes \<longleftrightarrow> int bytes < 4294967296 \<and> grants h bytes"
  by (auto simp: granted_def)

lemma ext2fs_get_array_code [code]:
  "ext2fs_get_array h count esize =
     (if count \<noteq> 0 \<and> 4294967295 div int count < int esize then Inl EXT2_ET_NO_MEMORY
      else case ext2fs_get_mem h (count * esize) of
             Inl e \<Rightarrow> Inl e
           | Inr _ \<Rightarrow> Inr (map (fresh h) [0..<count]))"
proof -
  have "4294967295 div int count = int ((2 ^ 32 - 1) div count)"
    by (simp add: zdiv_int)
  then show ?thesis by (simp add: ext2fs_get_array_def)
qed

text \<open>
  \<open>realloc\<close> of an array of elements of \<open>esize\<close> bytes to \<open>n\<close> elements: the
  common prefix is kept, the rest is indeterminate. The product of the two is taken exactly, so a
  size that wraps around in 32 bits is left out; the callers that may reach it bound their sizes.
\<close>

definition ext2fs_resize_mem :: "'a heap \<Rightarrow> nat \<Rightarrow> nat \<Rightarrow> 'a list \<Rightarrow> 'a list result" where
  "ext2fs_resize_mem h n esize xs =
     (if granted h (n * esize) then Inr (take n xs @ map (fresh h) [length xs..<n])
      else Inl EXT2_ET_NO_MEMORY)"

text \<open>\<open>memcpy\<close> of the first \<open>n\<close> elements of \<open>src\<close> to the start of \<open>dst\<close>.\<close>

definition memcpy :: "'a list \<Rightarrow> 'a list \<Rightarrow> nat \<Rightarrow> 'a list" where
  "memcpy dst src n = take n src @ drop n dst"

text \<open>\<open>memset\<close> of \<open>n\<close> elements from index \<open>i\<close> on.\<close>

definition memset_at :: "'a list \<Rightarrow> nat \<Rightarrow> 'a \<Rightarrow> nat \<Rightarrow> 'a list" where
  "memset_at xs i v n = take i xs @ replicate n v @ drop (i + n) xs"

named_theorems mem_defs \<open>the allocator's definitions\<close>

declare ext2fs_get_mem_def [mem_defs] ext2fs_get_array_def [mem_defs]
  ext2fs_resize_mem_def [mem_defs]

lemma ext2fs_get_array_Inr:
  "ext2fs_get_array h count esize = Inr xs \<Longrightarrow> xs = map (fresh h) [0..<count]"
  by (auto simp: mem_defs split: if_splits sum.splits)

lemma ext2fs_get_array_Inl:
  "ext2fs_get_array h count esize = Inl e \<Longrightarrow> e = EXT2_ET_NO_MEMORY"
  by (auto simp: mem_defs split: if_splits sum.splits)

lemma ext2fs_resize_mem_Inr:
  "ext2fs_resize_mem h n esize xs = Inr ys \<Longrightarrow>
     ys = take n xs @ map (fresh h) [length xs..<n]"
  by (auto simp: mem_defs split: if_splits)

lemma ext2fs_resize_mem_length:
  "ext2fs_resize_mem h n esize xs = Inr ys \<Longrightarrow> length ys = n"
  by (auto dest: ext2fs_resize_mem_Inr)

lemma ext2fs_resize_mem_nth:
  "ext2fs_resize_mem h n esize xs = Inr ys \<Longrightarrow> i < length xs \<Longrightarrow> i < n \<Longrightarrow> ys ! i = xs ! i"
  by (auto dest: ext2fs_resize_mem_Inr simp: nth_append)

lemma ext2fs_resize_mem_take:
  "ext2fs_resize_mem h n esize xs = Inr ys \<Longrightarrow> k \<le> length xs \<Longrightarrow> k \<le> n \<Longrightarrow>
     take k ys = take k xs"
  by (auto dest: ext2fs_resize_mem_Inr)

lemma length_memcpy [simp]: "n \<le> length src \<Longrightarrow> n \<le> length dst \<Longrightarrow> length (memcpy dst src n) = length dst"
  by (simp add: memcpy_def)

lemma memcpy_all: "length src = n \<Longrightarrow> length dst = n \<Longrightarrow> memcpy dst src n = src"
  by (simp add: memcpy_def)

section \<open>Words\<close>

lemma unat_of_nat_small: "n < 2 ^ LENGTH('a) \<Longrightarrow> unat (of_nat n :: 'a::len word) = n"
  by (simp add: unat_of_nat take_bit_nat_eq_self)

lemma unat_u32_bound: "unat (x :: u32) < 2 ^ 32"
  using unsigned_less [of x, where ?'a = nat] by simp

lemma unat_u64_bound: "unat (x :: u64) < 2 ^ 64"
  using unsigned_less [of x, where ?'a = nat] by simp

lemma unat_u16_bound: "unat (x :: u16) < 2 ^ 16"
  using unsigned_less [of x, where ?'a = nat] by simp

lemma unat_pos_iff: "0 < unat (x :: 'a::len word) \<longleftrightarrow> x \<noteq> 0"
  by (simp add: unat_gt_0)

lemma unat_diff: "(a :: 'a::len word) \<le> b \<Longrightarrow> unat (b - a) = unat b - unat a"
  by (simp add: unat_sub word_le_nat_alt)

lemma unat_plus_one: "(n :: 'a::len word) + 1 \<noteq> 0 \<Longrightarrow> unat (n + 1) = Suc (unat n)"
  using unatSuc [of n] by (simp add: add.commute)

lemma unat_minus_one: "(n :: 'a::len word) \<noteq> 0 \<Longrightarrow> unat (n - 1) = unat n - 1"
  by (simp add: unat_minus_one)

lemma unat_plus_of_nat:
  "unat (k :: 'a::len word) + i < 2 ^ LENGTH('a) \<Longrightarrow> unat (k + of_nat i) = unat k + i"
  by (metis add_lessD1 add.commute unat_add_lem unat_of_nat_small)

lemma unat_add_small:
  "unat (a :: 'a::len word) + unat b < 2 ^ LENGTH('a) \<Longrightarrow> unat (a + b) = unat a + unat b"
  by (metis unat_add_lem)

lemma sint_of_nat_small:
  assumes "n < 2 ^ (LENGTH('a) - 1)"
  shows "sint (of_nat n :: 'a::len word) = int n"
proof -
  have "int n < 2 ^ (LENGTH('a) - 1)"
    using assms by (metis of_nat_less_iff of_nat_numeral of_nat_power)
  moreover have "- (2 ^ (LENGTH('a) - 1)) \<le> int n"
    by (meson neg_le_0_iff_le of_nat_0_le_iff order_trans zero_le_numeral zero_le_power)
  ultimately show ?thesis
    unfolding signed_of_nat using signed_take_bit_int_eq_self [of "LENGTH('a) - 1" "int n"]
    by (simp only: of_int_eq_id id_apply One_nat_def)
qed

lemma unat_div8_plus_one: "unat ((d :: 'a::len word) div 8 + 1) = unat d div 8 + 1"
  if "4 \<le> LENGTH('a)"
proof -
  have "(2 :: nat) ^ 4 \<le> 2 ^ LENGTH('a)" using that by (intro power_increasing) auto
  then have big: "(8 :: nat) < 2 ^ LENGTH('a)" by simp
  then have e: "unat (8 :: 'a word) = 8" using unat_of_nat_small [of 8, where ?'a = 'a] by simp
  have d: "unat d < 2 ^ LENGTH('a)" by (rule unsigned_less)
  have q: "unat (d div 8) = unat d div 8" unfolding unat_div_distrib e ..
  have "unat d div 8 + 1 < 2 ^ LENGTH('a)"
    using d big by linarith
  then show ?thesis
    using unat_plus_of_nat [of "d div 8" 1] q by simp
qed

section \<open>Lists\<close>

lemma sorted_distinct_strict: "sorted_wrt (<) xs \<longleftrightarrow> sorted xs \<and> distinct (xs :: 'a::linorder list)"
  by (rule strict_sorted_iff)

lemma strict_sorted_nth_less:
  "sorted_wrt (<) (xs :: 'a::linorder list) \<Longrightarrow> i < j \<Longrightarrow> j < length xs \<Longrightarrow> xs ! i < xs ! j"
  by (rule sorted_wrt_nth_less)

lemma strict_sorted_nth_iff:
  assumes "sorted_wrt (<) (xs :: 'a::linorder list)" "i < length xs" "j < length xs"
  shows "xs ! i < xs ! j \<longleftrightarrow> i < j"
  using assms by (metis linorder_neqE_nat order_less_asym strict_sorted_nth_less)

text \<open>A strictly sorted list is determined by its elements.\<close>

lemma strict_sorted_eq_sorted_list_of_set:
  "sorted_wrt (<) (xs :: 'a::linorder list) \<Longrightarrow> xs = sorted_list_of_set (set xs)"
  by (simp add: sorted_distinct_strict sorted_list_of_set.idem_if_sorted_distinct)

text \<open>The two halves of a strictly sorted list around a position.\<close>

lemma strict_sorted_insert_at:
  assumes "sorted_wrt (<) (xs :: 'a::linorder list)" "j \<le> length xs"
    and "\<forall>i < j. xs ! i < x" and "j < length xs \<longrightarrow> x < xs ! j"
  shows "sorted_wrt (<) (take j xs @ x # drop j xs)"
proof -
  have below: "\<forall>y \<in> set (take j xs). y < x"
    using assms(3) by (auto simp: in_set_conv_nth)
  have above: "\<forall>y \<in> set (drop j xs). x < y"
  proof
    fix y assume "y \<in> set (drop j xs)"
    then obtain i where i: "i < length (drop j xs)" and y: "y = drop j xs ! i"
      by (metis in_set_conv_nth)
    then have "j + i < length xs" and y': "y = xs ! (j + i)" by auto
    moreover have "x < xs ! j" using assms(4) calculation by simp
    moreover have "xs ! j \<le> xs ! (j + i)"
      using assms(1) calculation(1)
      by (cases "i = 0") (auto intro!: less_imp_le sorted_wrt_nth_less [of "(<)"])
    ultimately show "x < y" by (simp add: y')
  qed
  have "sorted_wrt (<) (take j xs @ drop j xs)"
    using assms(1) by simp
  then have "\<forall>y \<in> set (take j xs). \<forall>z \<in> set (drop j xs). y < z"
    "sorted_wrt (<) (take j xs)" "sorted_wrt (<) (drop j xs)"
    unfolding sorted_wrt_append by blast+
  then show ?thesis
    using below above by (auto simp: sorted_wrt_append)
qed

lemma set_insert_at: "set (take j xs @ x # drop j xs) = insert x (set xs)"
proof -
  have "set (take j xs) \<union> set (drop j xs) = set xs"
    by (metis append_take_drop_id set_append)
  then show ?thesis by auto
qed

lemma strict_sorted_remove_at:
  assumes "sorted_wrt (<) (xs :: 'a::linorder list)" "i < length xs"
  shows "sorted_wrt (<) (take i xs @ drop (Suc i) xs)"
    and "set (take i xs @ drop (Suc i) xs) = set xs - {xs ! i}"
proof -
  have split: "xs = take i xs @ xs ! i # drop (Suc i) xs"
    using assms(2) by (simp add: id_take_nth_drop)
  have s: "sorted_wrt (<) (take i xs @ xs ! i # drop (Suc i) xs)"
    using assms(1) split by simp
  then show "sorted_wrt (<) (take i xs @ drop (Suc i) xs)"
    by (auto simp: sorted_wrt_append)
  have "xs ! i \<notin> set (take i xs @ drop (Suc i) xs)"
    using s by (auto simp: sorted_wrt_append)
  moreover have "set xs = insert (xs ! i) (set (take i xs @ drop (Suc i) xs))"
    by (subst split) auto
  ultimately show "set (take i xs @ drop (Suc i) xs) = set xs - {xs ! i}"
    by auto
qed

end
