(* ===== verification/Block_Set.thy ===== *)
theory Block_Set
  imports Ext2_Prelude
begin

text \<open>
  The contract that the containers of block and inode numbers share (the sorted bad-block
  list, the 32-bit and 64-bit bitmaps): a state denotes a set of keys inside a fixed range,
  insertion may fail for lack of memory, a key out of range is refused without effect.
  Everything that holds of a whole run of insertions and deletions is proved here once.
\<close>

datatype ('h, 'k) set_op = Ins 'h 'k | Del 'k

text \<open>What one operation does to the abstract set, for the keys \<open>V\<close> in range.\<close>

fun set_step :: "('k \<Rightarrow> bool) \<Rightarrow> 'k set \<Rightarrow> ('h, 'k) set_op \<Rightarrow> 'k set" where
  "set_step V A (Ins h k) = (if V k then insert k A else A)"
| "set_step V A (Del k) = A - {k}"

fun set_run :: "('h \<Rightarrow> 'k \<Rightarrow> 's \<Rightarrow> 's result) \<Rightarrow> ('k \<Rightarrow> 's \<Rightarrow> 's) \<Rightarrow> ('h, 'k) set_op list \<Rightarrow> 's \<Rightarrow> 's result"
  where
  "set_run ins del [] s = Inr s"
| "set_run ins del (Ins h k # ops) s =
     (case ins h k s of Inl e \<Rightarrow> Inl e | Inr s' \<Rightarrow> set_run ins del ops s')"
| "set_run ins del (Del k # ops) s = set_run ins del ops (del k s)"

text \<open>Where insertion cannot fail, neither can a run.\<close>

lemma set_run_total:
  assumes "\<And>h k s. \<exists>s'. ins h k s = Inr s'"
  shows "\<exists>s'. set_run ins del ops s = Inr s'"
proof (induction ops arbitrary: s)
  case (Cons op ops)
  show ?case
  proof (cases op)
    case (Ins h k)
    obtain s' where "ins h k s = Inr s'" using assms by blast
    then show ?thesis using Cons by (simp add: Ins)
  qed (use Cons in simp)
qed simp

locale block_set =
  fixes inv :: "'s \<Rightarrow> bool" and elems :: "'s \<Rightarrow> 'k set" and valid :: "'s \<Rightarrow> 'k \<Rightarrow> bool"
    and ins :: "'h \<Rightarrow> 'k \<Rightarrow> 's \<Rightarrow> 's result" and del :: "'k \<Rightarrow> 's \<Rightarrow> 's"
    and mem :: "'s \<Rightarrow> 'k \<Rightarrow> bool"
  assumes ins: "inv s \<Longrightarrow> ins h k s = Inr s' \<Longrightarrow>
      inv s' \<and> elems s' = (if valid s k then insert k (elems s) else elems s) \<and> valid s' = valid s"
    and del: "inv s \<Longrightarrow>
      inv (del k s) \<and> elems (del k s) = elems s - {k} \<and> valid (del k s) = valid s"
    and mem: "inv s \<Longrightarrow> mem s k = (k \<in> elems s)"
    and elems_valid: "inv s \<Longrightarrow> k \<in> elems s \<Longrightarrow> valid s k"
begin

lemma run:
  "inv s \<Longrightarrow> set_run ins del ops s = Inr s' \<Longrightarrow>
     inv s' \<and> elems s' = foldl (set_step (valid s)) (elems s) ops \<and> valid s' = valid s"
proof (induction ops arbitrary: s)
  case Nil
  then show ?case by simp
next
  case (Cons op ops)
  show ?case
  proof (cases op)
    case (Ins h k)
    then obtain t where t: "ins h k s = Inr t" and r: "set_run ins del ops t = Inr s'"
      using Cons.prems(2) by (auto split: sum.splits)
    show ?thesis
      using ins [OF Cons.prems(1) t] Cons.IH [OF _ r] by (simp add: Ins)
  next
    case (Del k)
    then show ?thesis
      using del [OF Cons.prems(1), of k] Cons.IH [of "del k s"] Cons.prems(2) by simp
  qed
qed

lemma run_mem:
  assumes "inv s" "set_run ins del ops s = Inr s'"
  shows "mem s' k \<longleftrightarrow> k \<in> foldl (set_step (valid s)) (elems s) ops"
  using run [OF assms] mem [of s'] by simp

text \<open>Insertion then membership, and the frame: other keys are not touched.\<close>

lemma mem_ins:
  "inv s \<Longrightarrow> ins h k s = Inr s' \<Longrightarrow> mem s' k' \<longleftrightarrow> (k' = k \<and> valid s k) \<or> mem s k'"
  using ins [of s h k s'] mem [of s] mem [of s'] by auto

lemma mem_del: "inv s \<Longrightarrow> mem (del k s) k' \<longleftrightarrow> k' \<noteq> k \<and> mem s k'"
  using del [of s k] mem [of s] mem [of "del k s"] by auto

lemma del_ins:
  assumes "inv s" "ins h k s = Inr s'" "\<not> mem s k"
  shows "elems (del k s') = elems s"
  using ins [OF assms(1,2)] del [of s' k] mem [OF assms(1)] assms(3) by auto

end

end
