(* ===== verification/Badblocks.thy ===== *)
theory Badblocks
  imports Block_Set
begin

text \<open>
  The sorted list of 32-bit block numbers of \<open>source/badblocks.c\<close>
  (\<open>ext2_u32_list\<close>, used for the bad-blocks inode): creation, copy, insertion,
  binary search, deletion, iteration and comparison. The lemmas show that the array
  always holds a strictly increasing sequence and that the operations implement a set.
\<close>

section \<open>State\<close>

text \<open>
  The numbers are \<open>int\<close> and the sizes in bytes 32-bit in C; they are natural numbers here, which differs
  only for a list that does not fit the address space. A failed insertion returns the error alone: the
  list is then as it was, as the C code resets the size it had enlarged.
\<close>

record u32_list =
  bb_magic :: errcode
  bb_num :: nat
  bb_size :: nat
  bb_list :: "u32 list"
  badblocks_flags :: int

record u32_iterate =
  it_magic :: errcode
  it_ptr :: nat

section \<open>Creation and copy\<close>

definition make_u32_list :: "u32 heap \<Rightarrow> u32 \<Rightarrow> nat \<Rightarrow> u32 list option \<Rightarrow> u32_list result" where
  "make_u32_list h sz0 num list =
     (case ext2fs_get_mem h 20 of
        Inl e \<Rightarrow> Inl e
      | Inr _ \<Rightarrow>
          let sz = (if sz0 \<noteq> 0 then sz0 else 10) in
          (case ext2fs_get_array h (unat sz) 4 of
             Inl e \<Rightarrow> Inl e
           | Inr arr \<Rightarrow>
               Inr \<lparr>bb_magic = EXT2_ET_MAGIC_BADBLOCKS_LIST, bb_num = num,
                    bb_size = unat sz,
                    bb_list = (case list of
                                 Some l \<Rightarrow> memcpy arr l (unat sz)
                               | None \<Rightarrow> replicate (unat sz) 0),
                    badblocks_flags = 0\<rparr>))"

definition ext2fs_u32_list_create :: "u32 heap \<Rightarrow> u32 \<Rightarrow> u32_list result" where
  "ext2fs_u32_list_create h sz0 = make_u32_list h sz0 0 None"

definition ext2fs_u32_copy :: "u32 heap \<Rightarrow> u32_list \<Rightarrow> u32_list result" where
  "ext2fs_u32_copy h src =
     (case make_u32_list h (of_nat (bb_size src)) (bb_num src) (Some (bb_list src)) of
        Inl e \<Rightarrow> Inl e
      | Inr dest \<Rightarrow> Inr (dest\<lparr>badblocks_flags := badblocks_flags src\<rparr>))"

section \<open>Insertion\<close>

text \<open>
  The scan for the insertion point: \<open>None\<close> when the block is already there (the
  \<open>return 0\<close> inside the loop), otherwise the index \<open>j\<close>.
\<close>

function add_scan :: "u32 list \<Rightarrow> nat \<Rightarrow> u32 \<Rightarrow> nat \<Rightarrow> nat option" where
  "add_scan l num blk i =
     (if i < num then
        (if l ! i = blk then None
         else if l ! i > blk then Some i
         else add_scan l num blk (Suc i))
      else Some num)"
  by pat_completeness auto
termination
  by (relation "measure (\<lambda>(l, num, blk, i). num - i)") auto

text \<open>The loop \<open>for (i = num; i > j; i--) list[i] = list[i-1]\<close>.\<close>

fun shift_up :: "'a list \<Rightarrow> nat \<Rightarrow> nat \<Rightarrow> 'a list" where
  "shift_up l 0 j = l"
| "shift_up l (Suc i) j = (if Suc i > j then shift_up (l[Suc i := l ! i]) i j else l)"

definition ext2fs_u32_list_add :: "u32 heap \<Rightarrow> u32_list \<Rightarrow> u32 \<Rightarrow> u32_list result" where
  "ext2fs_u32_list_add h bb blk =
     (if bb_magic bb \<noteq> EXT2_ET_MAGIC_BADBLOCKS_LIST then Inl EXT2_ET_MAGIC_BADBLOCKS_LIST
      else
        case (if bb_num bb \<ge> bb_size bb then
                (case ext2fs_resize_mem h (bb_size bb + 100) 4 (bb_list bb) of
                   Inl e \<Rightarrow> Inl e
                 | Inr l \<Rightarrow> Inr (bb\<lparr>bb_size := bb_size bb + 100, bb_list := l\<rparr>))
              else Inr bb) of
          Inl e \<Rightarrow> Inl e
        | Inr bb \<Rightarrow>
            let num = bb_num bb; l = bb_list bb in
            if num \<noteq> 0 \<and> l ! (num - 1) = blk then Inr bb
            else if num = 0 \<or> l ! (num - 1) < blk then
              Inr (bb\<lparr>bb_list := l[num := blk], bb_num := num + 1\<rparr>)
            else
              (case add_scan l num blk 0 of
                 None \<Rightarrow> Inr bb
               | Some j \<Rightarrow>
                   Inr (bb\<lparr>bb_list := (shift_up l num j)[j := blk], bb_num := num + 1\<rparr>)))"

section \<open>Search\<close>

function find_loop :: "u32 list \<Rightarrow> u32 \<Rightarrow> nat \<Rightarrow> nat \<Rightarrow> int" where
  "find_loop l blk low high =
     (if low < high then
        (let mid = (low + high) div 2 in
         if mid = low \<or> mid = high then -1
         else if blk = l ! mid then int mid
         else if blk < l ! mid then find_loop l blk low mid
         else find_loop l blk mid high)
      else -1)"
  by pat_completeness auto
termination
  by (relation "measure (\<lambda>(l, blk, low, high). high - low)") auto

definition ext2fs_u32_list_find :: "u32_list \<Rightarrow> u32 \<Rightarrow> int" where
  "ext2fs_u32_list_find bb blk =
     (if bb_magic bb \<noteq> EXT2_ET_MAGIC_BADBLOCKS_LIST then -1
      else if bb_num bb = 0 then -1
      else
        let low = 0; high = bb_num bb - 1 in
        if blk = bb_list bb ! low then int low
        else if blk = bb_list bb ! high then int high
        else find_loop (bb_list bb) blk low high)"

definition ext2fs_u32_list_test :: "u32_list \<Rightarrow> u32 \<Rightarrow> bool" where
  "ext2fs_u32_list_test bb blk = (if ext2fs_u32_list_find bb blk < 0 then False else True)"

section \<open>Deletion\<close>

text \<open>The loop \<open>for (i = remloc; i < num-1; i++) list[i] = list[i+1]\<close>.\<close>

function shift_down :: "'a list \<Rightarrow> nat \<Rightarrow> nat \<Rightarrow> 'a list" where
  "shift_down l i num =
     (if i < num - 1 then shift_down (l[i := l ! Suc i]) (Suc i) num else l)"
  by pat_completeness auto
termination
  by (relation "measure (\<lambda>(l, i, num). num - 1 - i)") auto

text \<open>Returns the C return value (0 or -1) and the list.\<close>

definition ext2fs_u32_list_del :: "u32_list \<Rightarrow> u32 \<Rightarrow> int \<times> u32_list" where
  "ext2fs_u32_list_del bb blk =
     (if bb_num bb = 0 then (-1, bb)
      else
        let remloc = ext2fs_u32_list_find bb blk in
        if remloc < 0 then (-1, bb)
        else (0, bb\<lparr>bb_list := shift_down (bb_list bb) (nat remloc) (bb_num bb),
                     bb_num := bb_num bb - 1\<rparr>))"

section \<open>Iteration and comparison\<close>

definition ext2fs_u32_list_iterate_begin :: "'a heap \<Rightarrow> u32_list \<Rightarrow> u32_iterate result" where
  "ext2fs_u32_list_iterate_begin h bb =
     (if bb_magic bb \<noteq> EXT2_ET_MAGIC_BADBLOCKS_LIST then Inl EXT2_ET_MAGIC_BADBLOCKS_LIST
      else case ext2fs_get_mem h 12 of
             Inl e \<Rightarrow> Inl e
           | Inr _ \<Rightarrow> Inr \<lparr>it_magic = EXT2_ET_MAGIC_BADBLOCKS_ITERATE, it_ptr = 0\<rparr>)"

text \<open>
  One call of the iterator. The list it points to is an argument of its own, since it may
  change between calls. \<open>Some blk\<close> is the return value 1 with the block stored,
  \<open>None\<close> the return value 0.
\<close>

definition ext2fs_u32_list_iterate :: "u32_iterate \<Rightarrow> u32_list \<Rightarrow> u32 option \<times> u32_iterate" where
  "ext2fs_u32_list_iterate iter bb =
     (if it_magic iter \<noteq> EXT2_ET_MAGIC_BADBLOCKS_ITERATE then (None, iter)
      else if bb_magic bb \<noteq> EXT2_ET_MAGIC_BADBLOCKS_LIST then (None, iter)
      else if it_ptr iter < bb_num bb then
        (Some (bb_list bb ! it_ptr iter), iter\<lparr>it_ptr := it_ptr iter + 1\<rparr>)
      else (None, iter))"

text \<open>The callers' loop \<open>while (iterate(iter, &blk)) \<dots>\<close>, at most \<open>n\<close> calls.\<close>

fun iterate_while :: "nat \<Rightarrow> u32_iterate \<Rightarrow> u32_list \<Rightarrow> u32 list" where
  "iterate_while 0 iter bb = []"
| "iterate_while (Suc n) iter bb =
     (case ext2fs_u32_list_iterate iter bb of
        (None, _) \<Rightarrow> []
      | (Some blk, iter') \<Rightarrow> blk # iterate_while n iter' bb)"

text \<open>\<open>EXT2_CHECK_MAGIC\<close> returns the (non-zero) error code through the \<open>int\<close> result.\<close>

definition ext2fs_u32_list_equal :: "u32_list \<Rightarrow> u32_list \<Rightarrow> bool result" where
  "ext2fs_u32_list_equal bb1 bb2 =
     (if bb_magic bb1 \<noteq> EXT2_ET_MAGIC_BADBLOCKS_LIST then Inl EXT2_ET_MAGIC_BADBLOCKS_LIST
      else if bb_magic bb2 \<noteq> EXT2_ET_MAGIC_BADBLOCKS_LIST then Inl EXT2_ET_MAGIC_BADBLOCKS_LIST
      else if bb_num bb1 \<noteq> bb_num bb2 then Inr False
      else if take (bb_num bb1) (bb_list bb1) \<noteq> take (bb_num bb1) (bb_list bb2) then Inr False
      else Inr True)"

definition ext2fs_u32_list_count :: "u32_list \<Rightarrow> nat" where
  "ext2fs_u32_list_count bb = bb_num bb"

section \<open>The abstract set and the representation invariant\<close>

definition bb_elems :: "u32_list \<Rightarrow> u32 list" where
  "bb_elems bb = take (bb_num bb) (bb_list bb)"

definition bb_set :: "u32_list \<Rightarrow> u32 set" where
  "bb_set bb = set (bb_elems bb)"

definition bb_inv :: "u32_list \<Rightarrow> bool" where
  "bb_inv bb \<longleftrightarrow> bb_magic bb = EXT2_ET_MAGIC_BADBLOCKS_LIST \<and>
     bb_num bb \<le> bb_size bb \<and> length (bb_list bb) = bb_size bb \<and> 0 < bb_size bb \<and>
     bb_size bb < 2 ^ 32 \<and>
     sorted_wrt (<) (bb_elems bb)"


section \<open>Creation\<close>

lemma make_u32_list_Inr:
  assumes "make_u32_list h sz0 num list = Inr bb"
  shows "bb_magic bb = EXT2_ET_MAGIC_BADBLOCKS_LIST" "bb_num bb = num"
    "bb_size bb = unat (if sz0 \<noteq> 0 then sz0 else 10)" "badblocks_flags bb = 0"
    "bb_list bb = (case list of None \<Rightarrow> replicate (bb_size bb) 0 | Some l \<Rightarrow> take (bb_size bb) l)"
  using assms
  by (auto simp: make_u32_list_def Let_def memcpy_def
      split: sum.splits option.splits dest!: ext2fs_get_array_Inr)

lemma make_u32_list_size:
  assumes "make_u32_list h sz0 num list = Inr bb"
  shows "0 < bb_size bb" "bb_size bb < 2 ^ 32"
proof -
  show "0 < bb_size bb"
    using make_u32_list_Inr(3) [OF assms] by (auto simp: unat_pos_iff)
  show "bb_size bb < 2 ^ 32"
    unfolding make_u32_list_Inr(3) [OF assms] by (rule unat_u32_bound)
qed

lemma bb_inv_create:
  assumes "ext2fs_u32_list_create h sz0 = Inr bb"
  shows "bb_inv bb" "bb_set bb = {}"
proof -
  have m: "make_u32_list h sz0 0 None = Inr bb"
    using assms by (simp add: ext2fs_u32_list_create_def)
  show "bb_inv bb" "bb_set bb = {}"
    using make_u32_list_Inr [OF m] make_u32_list_size [OF m]
    by (auto simp: bb_inv_def bb_set_def bb_elems_def)
qed

lemma ext2fs_u32_copy_eq:
  assumes "bb_inv src" "ext2fs_u32_copy h src = Inr dest"
  shows "dest = src"
proof -
  obtain d where m: "make_u32_list h (of_nat (bb_size src)) (bb_num src) (Some (bb_list src)) = Inr d"
    and dest: "dest = d\<lparr>badblocks_flags := badblocks_flags src\<rparr>"
    using assms(2) by (auto simp: ext2fs_u32_copy_def split: sum.splits)
  have sz: "unat (of_nat (bb_size src) :: u32) = bb_size src"
    using assms(1) by (simp add: bb_inv_def unat_of_nat_small)
  moreover from this have "(of_nat (bb_size src) :: u32) \<noteq> 0"
    using assms(1) by (metis bb_inv_def less_irrefl unat_0)
  ultimately show ?thesis
    using make_u32_list_Inr [OF m] assms(1) by (simp add: dest bb_inv_def)
qed

section \<open>Search\<close>

declare find_loop.simps [simp del] add_scan.simps [simp del] shift_down.simps [simp del]

lemma find_loop_correct:
  assumes "\<And>i j. i < j \<Longrightarrow> j < n \<Longrightarrow> l ! i < l ! j"
    and "low \<le> high" "high < n" "l ! low \<noteq> blk" "l ! high \<noteq> blk"
  shows "(\<exists>k. low < k \<and> k < high \<and> l ! k = blk \<and> find_loop l blk low high = int k) \<or>
    ((\<forall>k. low \<le> k \<and> k \<le> high \<longrightarrow> l ! k \<noteq> blk) \<and> find_loop l blk low high = -1)"
  using assms
proof (induction l blk low high rule: find_loop.induct)
  case (1 l blk low high)
  note mono = "1.prems"(1)
  define mid where "mid = (low + high) div 2"
  note unfold = find_loop.simps [of l blk low high]
  show ?case
  proof (cases "low < high \<and> mid \<noteq> low \<and> mid \<noteq> high")
    case False
    then have "find_loop l blk low high = -1"
      by (auto simp: unfold mid_def Let_def)
    moreover have "high \<le> Suc low"
      using False "1.prems"(2) by (auto simp: mid_def)
    then have "\<forall>k. low \<le> k \<and> k \<le> high \<longrightarrow> k = low \<or> k = high" by auto
    ultimately show ?thesis using "1.prems"(4,5) by auto
  next
    case True
    then have b: "low < mid" "mid < high" by (auto simp: mid_def)
    consider (eq) "blk = l ! mid" | (lt) "blk < l ! mid" | (gt) "l ! mid < blk"
      by (meson linorder_neqE)
    then show ?thesis
    proof cases
      case eq
      have "find_loop l blk low high = int mid"
        using True eq by (subst unfold) (simp add: mid_def [symmetric] Let_def)
      then show ?thesis using b eq by auto
    next
      case lt
      then have r: "find_loop l blk low high = find_loop l blk low mid"
        using True by (subst unfold) (auto simp: mid_def [symmetric] Let_def)
      have up: "l ! k \<noteq> blk" if "mid \<le> k" "k \<le> high" for k
        using that lt mono [of mid k] "1.prems"(3) by (cases "k = mid") auto
      have "(\<exists>k. low < k \<and> k < mid \<and> l ! k = blk \<and> find_loop l blk low mid = int k) \<or>
        ((\<forall>k. low \<le> k \<and> k \<le> mid \<longrightarrow> l ! k \<noteq> blk) \<and> find_loop l blk low mid = -1)"
        using "1.IH"(1) [OF _ mid_def] True lt b "1.prems" by auto
      then show ?thesis
      proof (elim disjE)
        assume "\<exists>k. low < k \<and> k < mid \<and> l ! k = blk \<and> find_loop l blk low mid = int k"
        then show ?thesis using b by (auto simp: r)
      next
        assume "(\<forall>k. low \<le> k \<and> k \<le> mid \<longrightarrow> l ! k \<noteq> blk) \<and> find_loop l blk low mid = -1"
        then show ?thesis using up nat_le_linear unfolding r by blast
      qed
    next
      case gt
      then have r: "find_loop l blk low high = find_loop l blk mid high"
        using True by (subst unfold) (auto simp: mid_def [symmetric] Let_def)
      have down: "l ! k \<noteq> blk" if "low \<le> k" "k \<le> mid" for k
        using that gt mono [of k mid] b "1.prems"(3) by (cases "k = mid") auto
      have "(\<exists>k. mid < k \<and> k < high \<and> l ! k = blk \<and> find_loop l blk mid high = int k) \<or>
        ((\<forall>k. mid \<le> k \<and> k \<le> high \<longrightarrow> l ! k \<noteq> blk) \<and> find_loop l blk mid high = -1)"
        using "1.IH"(2) [OF _ mid_def] True gt b "1.prems" by auto
      then show ?thesis
      proof (elim disjE)
        assume "\<exists>k. mid < k \<and> k < high \<and> l ! k = blk \<and> find_loop l blk mid high = int k"
        then show ?thesis using b by (auto simp: r)
      next
        assume "(\<forall>k. mid \<le> k \<and> k \<le> high \<longrightarrow> l ! k \<noteq> blk) \<and> find_loop l blk mid high = -1"
        then show ?thesis using down nat_le_linear unfolding r by blast
      qed
    qed
  qed
qed

lemma bb_nth_less:
  assumes "bb_inv bb" "i < j" "j < bb_num bb"
  shows "bb_list bb ! i < bb_list bb ! j"
proof -
  have "bb_elems bb ! i < bb_elems bb ! j"
    using assms by (intro sorted_wrt_nth_less [of "(<)"]) (auto simp: bb_inv_def bb_elems_def)
  then show ?thesis using assms by (simp add: bb_elems_def)
qed

lemma bb_set_nth: "bb_inv bb \<Longrightarrow> x \<in> bb_set bb \<longleftrightarrow> (\<exists>k < bb_num bb. bb_list bb ! k = x)"
  by (auto simp: bb_set_def bb_elems_def bb_inv_def in_set_conv_nth)

text \<open>The search returns the index of the block, and -1 exactly when it is not a member.\<close>

lemma find_cases:
  assumes inv: "bb_inv bb"
  shows "(\<exists>k < bb_num bb. bb_list bb ! k = blk \<and> ext2fs_u32_list_find bb blk = int k) \<or>
    blk \<notin> bb_set bb \<and> ext2fs_u32_list_find bb blk = -1"
proof (cases "bb_num bb = 0")
  case True
  then show ?thesis using inv by (simp add: ext2fs_u32_list_find_def bb_set_nth)
next
  case False
  let ?l = "bb_list bb" and ?high = "bb_num bb - 1"
  have m: "bb_magic bb = EXT2_ET_MAGIC_BADBLOCKS_LIST" using inv by (simp add: bb_inv_def)
  consider (lo) "blk = ?l ! 0" | (hi) "blk = ?l ! ?high" "blk \<noteq> ?l ! 0"
    | (mid) "blk \<noteq> ?l ! ?high" "blk \<noteq> ?l ! 0" by blast
  then show ?thesis
  proof cases
    case lo
    then show ?thesis using False m by (auto simp: ext2fs_u32_list_find_def intro!: disjI1 exI [of _ 0])
  next
    case hi
    then show ?thesis using False m
      by (auto simp: ext2fs_u32_list_find_def intro!: disjI1 exI [of _ ?high])
  next
    case mid
    then have "ext2fs_u32_list_find bb blk = find_loop ?l blk 0 ?high"
      using False m by (simp add: ext2fs_u32_list_find_def)
    moreover have "(\<exists>k. 0 < k \<and> k < ?high \<and> ?l ! k = blk \<and> find_loop ?l blk 0 ?high = int k) \<or>
      ((\<forall>k. 0 \<le> k \<and> k \<le> ?high \<longrightarrow> ?l ! k \<noteq> blk) \<and> find_loop ?l blk 0 ?high = -1)"
      using mid False bb_nth_less [OF inv] by (intro find_loop_correct [where n = "bb_num bb"]) auto
    ultimately show ?thesis
      using inv by (auto simp: bb_set_nth) (metis Suc_pred less_Suc_eq_le neq0_conv False)
  qed
qed

lemma find_nonneg_iff: "bb_inv bb \<Longrightarrow> 0 \<le> ext2fs_u32_list_find bb blk \<longleftrightarrow> blk \<in> bb_set bb"
  using find_cases [of bb blk] by (auto simp: bb_set_nth)

lemma test_iff: "bb_inv bb \<Longrightarrow> ext2fs_u32_list_test bb blk \<longleftrightarrow> blk \<in> bb_set bb"
  using find_nonneg_iff [of bb blk] by (auto simp: ext2fs_u32_list_test_def)

section \<open>Insertion\<close>

lemma length_shift_up [simp]: "length (shift_up l i j) = length l"
  by (induction l i j rule: shift_up.induct) auto

lemma shift_up_nth:
  "i < length l \<Longrightarrow> j \<le> i \<Longrightarrow> k < length l \<Longrightarrow>
     shift_up l i j ! k = (if j < k \<and> k \<le> i then l ! (k - 1) else l ! k)"
proof (induction l i j rule: shift_up.induct)
  case (1 l j)
  then show ?case by simp
next
  case (2 l i j)
  show ?case
  proof (cases "Suc i > j")
    case True
    with 2 show ?thesis by (auto simp: nth_list_update not_less le_Suc_eq)
  next
    case False
    with 2 show ?thesis by auto
  qed
qed

lemma shift_up_insert:
  assumes "num < length l" "j \<le> num"
  shows "take (Suc num) ((shift_up l num j)[j := x]) = take j (take num l) @ x # drop j (take num l)"
proof (rule nth_equalityI)
  show "length (take (Suc num) ((shift_up l num j)[j := x])) =
    length (take j (take num l) @ x # drop j (take num l))"
    using assms by simp
next
  fix k assume "k < length (take (Suc num) ((shift_up l num j)[j := x]))"
  then have k: "k \<le> num" "k < length l" using assms by auto
  consider "k < j" | "k = j" | "j < k" by linarith
  then show "take (Suc num) ((shift_up l num j)[j := x]) ! k =
    (take j (take num l) @ x # drop j (take num l)) ! k"
    by cases (use assms k in \<open>auto simp: shift_up_nth nth_append nth_Cons'\<close>)
qed

lemma add_scan_None:
  "add_scan l num blk i = None \<Longrightarrow> \<exists>k < num. l ! k = blk"
proof (induction l num blk i rule: add_scan.induct)
  case (1 l num blk i)
  then show ?case
    by (subst (asm) (2) add_scan.simps) (auto split: if_splits)
qed

lemma add_scan_Some:
  "add_scan l num blk i = Some j \<Longrightarrow> i \<le> num \<Longrightarrow> \<forall>k < i. l ! k < blk \<Longrightarrow>
     i \<le> j \<and> j \<le> num \<and> (\<forall>k < j. l ! k < blk) \<and> (j < num \<longrightarrow> blk < l ! j)"
proof (induction l num blk i rule: add_scan.induct)
  case (1 l num blk i)
  show ?case
  proof (cases "i < num \<and> l ! i < blk")
    case True
    then have "add_scan l num blk (Suc i) = Some j"
      using "1.prems"(1) by (subst (asm) add_scan.simps) (auto split: if_splits)
    moreover have "\<forall>k < Suc i. l ! k < blk"
      using True "1.prems"(3) by (auto simp: less_Suc_eq)
    ultimately show ?thesis using "1.IH" True by fastforce
  next
    case False
    then show ?thesis
      using "1.prems" by (subst (asm) add_scan.simps) (auto split: if_splits)
  qed
qed

text \<open>
  What one insertion does to the abstract contents, on every path: the block is inserted
  at its place, and only the two allocation outcomes differ.
\<close>

definition bb_grown :: "u32 heap \<Rightarrow> u32_list \<Rightarrow> u32_list result" where
  "bb_grown h bb =
     (if bb_num bb \<ge> bb_size bb then
        (case ext2fs_resize_mem h (bb_size bb + 100) 4 (bb_list bb) of
           Inl e \<Rightarrow> Inl e
         | Inr l \<Rightarrow> Inr (bb\<lparr>bb_size := bb_size bb + 100, bb_list := l\<rparr>))
      else Inr bb)"

definition bb_place :: "u32_list \<Rightarrow> u32 \<Rightarrow> u32_list" where
  "bb_place bb blk =
     (let num = bb_num bb; l = bb_list bb in
      if num \<noteq> 0 \<and> l ! (num - 1) = blk then bb
      else if num = 0 \<or> l ! (num - 1) < blk then
        bb\<lparr>bb_list := l[num := blk], bb_num := num + 1\<rparr>
      else
        (case add_scan l num blk 0 of
           None \<Rightarrow> bb
         | Some j \<Rightarrow> bb\<lparr>bb_list := (shift_up l num j)[j := blk], bb_num := num + 1\<rparr>))"

lemma add_split:
  "bb_inv bb \<Longrightarrow> ext2fs_u32_list_add h bb blk =
     (case bb_grown h bb of Inl e \<Rightarrow> Inl e | Inr bb' \<Rightarrow> Inr (bb_place bb' blk))"
  by (auto simp: ext2fs_u32_list_add_def bb_grown_def bb_place_def bb_inv_def Let_def
      split: sum.split option.split)

lemma bb_grown_Inr:
  assumes "bb_inv bb" "bb_grown h bb = Inr bb'"
  shows "bb_inv bb'" "bb_elems bb' = bb_elems bb" "bb_num bb' = bb_num bb"
    "bb_num bb' < bb_size bb'"
  using assms
  by (auto simp: bb_grown_def bb_inv_def bb_elems_def ext2fs_resize_mem_def granted_def
      split: if_splits sum.splits)

lemma bb_place_elems:
  assumes inv: "bb_inv bb" and room: "bb_num bb < bb_size bb"
  shows "bb_inv (bb_place bb blk)" "bb_set (bb_place bb blk) = insert blk (bb_set bb)"
    "bb_size (bb_place bb blk) = bb_size bb"
proof -
  let ?l = "bb_list bb" and ?num = "bb_num bb"
  have len: "?num < length ?l" using inv room by (simp add: bb_inv_def)
  have el: "bb_elems bb ! k = ?l ! k" if "k < ?num" for k using that by (simp add: bb_elems_def)
  have lel: "length (bb_elems bb) = ?num" using len by (simp add: bb_elems_def)
  have srt: "sorted_wrt (<) (bb_elems bb)" using inv by (simp add: bb_inv_def)
  have *: "bb_inv (bb_place bb blk) \<and> bb_set (bb_place bb blk) = insert blk (bb_set bb) \<and>
    bb_size (bb_place bb blk) = bb_size bb"
  proof -
    consider (last) "?num \<noteq> 0 \<and> ?l ! (?num - 1) = blk"
      | (app) "?num = 0 \<or> ?l ! (?num - 1) < blk" "\<not> (?num \<noteq> 0 \<and> ?l ! (?num - 1) = blk)"
      | (mid) "?num \<noteq> 0" "blk < ?l ! (?num - 1)"
      by (metis linorder_neqE)
    then show ?thesis
    proof cases
      case last
      then have "blk \<in> bb_set bb" using inv by (auto simp: bb_set_nth intro!: exI [of _ "?num - 1"])
      then show ?thesis using last inv by (simp add: bb_place_def insert_absorb)
    next
      case app
      then have p: "bb_place bb blk = bb\<lparr>bb_list := ?l[?num := blk], bb_num := ?num + 1\<rparr>"
        unfolding bb_place_def Let_def by (auto simp del: One_nat_def)
      have e: "bb_elems (bb_place bb blk) = bb_elems bb @ [blk]"
        using len by (simp add: p bb_elems_def take_Suc_conv_app_nth)
      have "\<forall>y \<in> set (bb_elems bb). y < blk"
      proof
        fix y assume "y \<in> set (bb_elems bb)"
        then obtain k where k: "k < ?num" "y = ?l ! k" by (metis el in_set_conv_nth lel)
        then have "y \<le> ?l ! (?num - 1)"
          using bb_nth_less [OF inv, of k "?num - 1"] by (cases "k = ?num - 1") (simp_all add: less_imp_le)
        then show "y < blk" using app(1) k by auto
      qed
      then have "sorted_wrt (<) (bb_elems (bb_place bb blk))"
        using srt by (simp add: e sorted_wrt_append)
      then show ?thesis
        using inv room e by (auto simp: p bb_inv_def bb_set_def)
    next
      case mid
      show ?thesis
      proof (cases "add_scan ?l ?num blk 0")
        case None
        then have "blk \<in> bb_set bb" using add_scan_None inv by (simp add: bb_set_nth)
        moreover have "bb_place bb blk = bb"
          using None mid unfolding bb_place_def Let_def by auto
        ultimately show ?thesis using inv by (simp add: insert_absorb)
      next
        case (Some j)
        have j: "j \<le> ?num" "\<forall>k < j. ?l ! k < blk" "j < ?num \<longrightarrow> blk < ?l ! j"
          using add_scan_Some [OF Some] by auto
        have p: "bb_place bb blk =
          bb\<lparr>bb_list := (shift_up ?l ?num j)[j := blk], bb_num := ?num + 1\<rparr>"
          using Some mid by (auto simp: bb_place_def Let_def)
        have e: "bb_elems (bb_place bb blk) = take j (bb_elems bb) @ blk # drop j (bb_elems bb)"
          using shift_up_insert [OF len j(1)] by (simp add: p bb_elems_def)
        have "sorted_wrt (<) (bb_elems (bb_place bb blk))"
          unfolding e using srt j el by (intro strict_sorted_insert_at) (auto simp: lel)
        then show ?thesis
          using inv room e by (auto simp: p bb_inv_def bb_set_def simp del: set_append
              simp: set_insert_at)
      qed
    qed
  qed
  then show "bb_inv (bb_place bb blk)" "bb_set (bb_place bb blk) = insert blk (bb_set bb)"
    "bb_size (bb_place bb blk) = bb_size bb"
    by blast+
qed

lemma add_Inr:
  assumes "bb_inv bb" "ext2fs_u32_list_add h bb blk = Inr bb'"
  shows "bb_inv bb'" "bb_set bb' = insert blk (bb_set bb)"
proof -
  obtain b where g: "bb_grown h bb = Inr b" and bb': "bb' = bb_place b blk"
    using assms(2) by (auto simp: add_split [OF assms(1)] split: sum.splits)
  note gr = bb_grown_Inr [OF assms(1) g]
  show "bb_inv bb'" "bb_set bb' = insert blk (bb_set bb)"
    using bb_place_elems [OF gr(1,4)] gr(2) by (auto simp: bb' bb_set_def)
qed

lemma add_Inl:
  assumes "bb_inv bb"
  shows "ext2fs_u32_list_add h bb blk = Inl e \<longleftrightarrow>
    e = EXT2_ET_NO_MEMORY \<and> bb_num bb = bb_size bb \<and> \<not> granted h ((bb_size bb + 100) * 4)"
  using assms
  by (auto simp: add_split bb_grown_def ext2fs_resize_mem_def bb_inv_def split: sum.splits if_splits)

section \<open>Deletion\<close>

lemma length_shift_down [simp]: "length (shift_down l i num) = length l"
proof (induction l i num rule: shift_down.induct)
  case (1 l i num)
  then show ?case by (subst shift_down.simps) simp
qed

lemma shift_down_nth:
  "num \<le> length l \<Longrightarrow> k < length l \<Longrightarrow>
     shift_down l i num ! k = (if i \<le> k \<and> k < num - 1 then l ! Suc k else l ! k)"
proof (induction l i num rule: shift_down.induct)
  case (1 l i num)
  show ?case
  proof (cases "i < num - 1")
    case True
    then show ?thesis
      using 1 by (subst shift_down.simps) (auto simp: nth_list_update Suc_le_eq)
  next
    case False
    then show ?thesis by (subst shift_down.simps) auto
  qed
qed

lemma shift_down_remove:
  assumes "num \<le> length l" "i < num"
  shows "take (num - 1) (shift_down l i num) = take i (take num l) @ drop (Suc i) (take num l)"
proof (rule nth_equalityI)
  show "length (take (num - 1) (shift_down l i num)) =
    length (take i (take num l) @ drop (Suc i) (take num l))"
    using assms by simp
next
  fix k assume "k < length (take (num - 1) (shift_down l i num))"
  then have k: "k < num - 1" "k < length l" using assms by auto
  then show "take (num - 1) (shift_down l i num) ! k =
    (take i (take num l) @ drop (Suc i) (take num l)) ! k"
    using assms by (auto simp: shift_down_nth nth_append)
qed

lemma del_elems:
  assumes inv: "bb_inv bb" and mem: "blk \<in> bb_set bb"
  shows "fst (ext2fs_u32_list_del bb blk) = 0" "bb_inv (snd (ext2fs_u32_list_del bb blk))"
    "bb_set (snd (ext2fs_u32_list_del bb blk)) = bb_set bb - {blk}"
proof -
  obtain k where k: "k < bb_num bb" "bb_list bb ! k = blk" "ext2fs_u32_list_find bb blk = int k"
    using find_cases [OF inv, of blk] mem by auto
  have len: "bb_num bb \<le> length (bb_list bb)" using inv by (simp add: bb_inv_def)
  have d: "ext2fs_u32_list_del bb blk =
    (0, bb\<lparr>bb_list := shift_down (bb_list bb) k (bb_num bb), bb_num := bb_num bb - 1\<rparr>)"
    using k by (simp add: ext2fs_u32_list_del_def)
  have e: "bb_elems (snd (ext2fs_u32_list_del bb blk)) =
    take k (bb_elems bb) @ drop (Suc k) (bb_elems bb)"
    using shift_down_remove [OF len k(1)] by (simp add: d bb_elems_def)
  have srt: "sorted_wrt (<) (bb_elems bb)" "k < length (bb_elems bb)" "bb_elems bb ! k = blk"
    using inv k len by (auto simp: bb_inv_def bb_elems_def)
  show "fst (ext2fs_u32_list_del bb blk) = 0" by (simp add: d)
  show "bb_set (snd (ext2fs_u32_list_del bb blk)) = bb_set bb - {blk}"
    unfolding bb_set_def e using strict_sorted_remove_at(2) [OF srt(1,2)] srt(3) by simp
  have "sorted_wrt (<) (bb_elems (snd (ext2fs_u32_list_del bb blk)))"
    unfolding e by (rule strict_sorted_remove_at(1) [OF srt(1,2)])
  then show "bb_inv (snd (ext2fs_u32_list_del bb blk))"
    using inv by (auto simp: d bb_inv_def)
qed

lemma del_absent:
  assumes "bb_inv bb" "blk \<notin> bb_set bb"
  shows "ext2fs_u32_list_del bb blk = (-1, bb)"
  using find_cases [OF assms(1), of blk] assms by (auto simp: ext2fs_u32_list_del_def bb_set_nth)

section \<open>Iteration and comparison\<close>

lemma iterate_while_from:
  "bb_inv bb \<Longrightarrow> bb_num bb \<le> p + n \<Longrightarrow>
     iterate_while n \<lparr>it_magic = EXT2_ET_MAGIC_BADBLOCKS_ITERATE, it_ptr = p\<rparr> bb = drop p (bb_elems bb)"
proof (induction n arbitrary: p)
  case 0
  then show ?case by (simp add: bb_elems_def)
next
  case (Suc n)
  show ?case
  proof (cases "p < bb_num bb")
    case True
    then have "p < length (bb_elems bb)" "bb_elems bb ! p = bb_list bb ! p"
      using Suc.prems by (auto simp: bb_elems_def bb_inv_def)
    then have "drop p (bb_elems bb) = bb_list bb ! p # drop (Suc p) (bb_elems bb)"
      by (metis Cons_nth_drop_Suc)
    then show ?thesis
      using True Suc by (simp add: ext2fs_u32_list_iterate_def bb_inv_def)
  next
    case False
    then show ?thesis
      using Suc.prems by (simp add: ext2fs_u32_list_iterate_def bb_elems_def)
  qed
qed

lemma bb_elems_sorted_list_of_set: "bb_inv bb \<Longrightarrow> bb_elems bb = sorted_list_of_set (bb_set bb)"
  unfolding bb_set_def by (rule strict_sorted_eq_sorted_list_of_set) (simp add: bb_inv_def)

lemma bb_num_card: "bb_inv bb \<Longrightarrow> bb_num bb = card (bb_set bb)"
proof -
  assume inv: "bb_inv bb"
  then have "length (bb_elems bb) = card (set (bb_elems bb))"
    by (simp add: bb_inv_def sorted_distinct_strict distinct_card)
  then show ?thesis using inv by (simp add: bb_set_def bb_elems_def bb_inv_def)
qed

lemma equal_iff:
  assumes "bb_inv bb1" "bb_inv bb2"
  shows "ext2fs_u32_list_equal bb1 bb2 = Inr (bb_set bb1 = bb_set bb2)"
proof -
  have "bb_set bb1 = bb_set bb2 \<longleftrightarrow> bb_elems bb1 = bb_elems bb2"
    by (metis assms bb_elems_sorted_list_of_set bb_set_def)
  moreover have "length (bb_elems bb1) = bb_num bb1" "length (bb_elems bb2) = bb_num bb2"
    using assms by (simp_all add: bb_elems_def bb_inv_def)
  then have "bb_elems bb1 = bb_elems bb2 \<longleftrightarrow>
    bb_num bb1 = bb_num bb2 \<and> take (bb_num bb1) (bb_list bb1) = take (bb_num bb1) (bb_list bb2)"
    by (metis bb_elems_def)
  ultimately show ?thesis
    using assms by (auto simp: ext2fs_u32_list_equal_def bb_inv_def)
qed

section \<open>The list as a set of block numbers\<close>

interpretation bb: block_set
  where inv = bb_inv and elems = bb_set and valid = "\<lambda>bb blk. True"
    and ins = "\<lambda>h blk bb. ext2fs_u32_list_add h bb blk"
    and del = "\<lambda>blk bb. snd (ext2fs_u32_list_del bb blk)" and mem = ext2fs_u32_list_test
proof
  fix bb bb' :: u32_list and h blk
  assume inv: "bb_inv bb"
  show "ext2fs_u32_list_test bb blk = (blk \<in> bb_set bb)"
    by (rule test_iff [OF inv])
  show "bb_inv (snd (ext2fs_u32_list_del bb blk)) \<and>
    bb_set (snd (ext2fs_u32_list_del bb blk)) = bb_set bb - {blk} \<and> (\<lambda>b. True) = (\<lambda>b. True)"
    using del_elems [OF inv] del_absent [OF inv] inv by (cases "blk \<in> bb_set bb") auto
  assume "ext2fs_u32_list_add h bb blk = Inr bb'"
  then show "bb_inv bb' \<and> bb_set bb' = (if True then insert blk (bb_set bb) else bb_set bb) \<and>
    (\<lambda>b. True) = (\<lambda>b. True)"
    using add_Inr [OF inv] by simp
qed auto

section \<open>Properties\<close>

text \<open>
  C1. Whatever insertions and deletions are applied to a list fresh from
  \<open>ext2fs_u32_list_create\<close>, as long as memory lasts the array holds exactly the
  blocks of the abstract set, strictly increasing and without duplicates, the count is its
  cardinality and the membership test decides it.
\<close>

theorem u32_list_run_refines_set:
  fixes ops :: "(u32 heap, u32) set_op list"
  assumes "ext2fs_u32_list_create h sz0 = Inr bb0"
    and "set_run (\<lambda>h blk bb. ext2fs_u32_list_add h bb blk)
          (\<lambda>blk bb. snd (ext2fs_u32_list_del bb blk)) ops bb0 = Inr bb"
  shows "bb_elems bb = sorted_list_of_set (foldl (set_step (\<lambda>_. True)) {} ops) \<and>
    ext2fs_u32_list_count bb = card (foldl (set_step (\<lambda>_. True)) {} ops) \<and>
    (ext2fs_u32_list_test bb blk \<longleftrightarrow> blk \<in> foldl (set_step (\<lambda>_. True)) {} ops)"
proof -
  have "bb_inv bb \<and> bb_set bb = foldl (set_step (\<lambda>_. True)) {} ops"
    using bb.run [OF bb_inv_create(1) [OF assms(1)] assms(2)] bb_inv_create(2) [OF assms(1)] by simp
  then show ?thesis
    using bb_elems_sorted_list_of_set bb_num_card test_iff
    by (metis ext2fs_u32_list_count_def)
qed

definition u32_list_demo :: "u32_list result" where
  "u32_list_demo =
     (case ext2fs_u32_list_create (roomy 7) 2 of Inl e \<Rightarrow> Inl e
      | Inr bb \<Rightarrow> set_run (\<lambda>h blk bb. ext2fs_u32_list_add h bb blk)
          (\<lambda>blk bb. snd (ext2fs_u32_list_del bb blk))
          [Ins (roomy 7) 9, Ins (roomy 7) 4, Ins (roomy 8) 6, Del 9, Ins (roomy 8) 6] bb)"

lemma u32_list_run_refines_set_witness:
  "\<exists>bb. u32_list_demo = Inr bb \<and> bb_elems bb = sorted_list_of_set {4, 6}"
proof -
  have create: "ext2fs_u32_list_create (roomy 7) 2 = Inr (projr (ext2fs_u32_list_create (roomy 7) 2))"
    by code_simp
  have run: "u32_list_demo = Inr (projr u32_list_demo)"
    by code_simp
  have "foldl (set_step (\<lambda>_. True)) {}
    [Ins (roomy 7) 9, Ins (roomy 7) 4, Ins (roomy 8) 6, Del 9, Ins (roomy 8) (6 :: u32)] = {4, 6}"
    by auto
  then show ?thesis
    using u32_list_run_refines_set [OF create, of _ "projr u32_list_demo"] run create
    unfolding u32_list_demo_def by (metis sum.case(2))
qed

text \<open>
  C2. Insertion is total up to memory: it fails exactly when the array is full and the
  allocator refuses the larger array, the only error is \<open>EXT2_ET_NO_MEMORY\<close>, and
  otherwise the block is added to the set and nothing else changes.
\<close>

theorem u32_list_add_result:
  assumes "bb_inv bb"
  shows "case ext2fs_u32_list_add h bb blk of
      Inl e \<Rightarrow> e = EXT2_ET_NO_MEMORY \<and> bb_num bb = bb_size bb \<and>
        \<not> granted h ((bb_size bb + 100) * 4)
    | Inr bb' \<Rightarrow> bb_inv bb' \<and> bb_set bb' = insert blk (bb_set bb) \<and>
        \<not> (bb_num bb = bb_size bb \<and> \<not> granted h ((bb_size bb + 100) * 4))"
proof (cases "ext2fs_u32_list_add h bb blk")
  case (Inl e)
  then show ?thesis using add_Inl [OF assms, of h blk e] by simp
next
  case (Inr bb')
  then show ?thesis
    using add_Inr [OF assms Inr] add_Inl [OF assms, of h blk EXT2_ET_NO_MEMORY] by simp
qed

definition u32_list_sample :: u32_list where
  "u32_list_sample = \<lparr>bb_magic = EXT2_ET_MAGIC_BADBLOCKS_LIST, bb_num = 3, bb_size = 4,
     bb_list = [2, 5, 11, 0], badblocks_flags = 0\<rparr>"

lemma u32_list_sample_inv: "bb_inv u32_list_sample"
  by (simp add: bb_inv_def bb_elems_def u32_list_sample_def)

lemma u32_list_add_result_witness:
  "\<exists>bb'. ext2fs_u32_list_add (roomy 0) u32_list_sample 7 = Inr bb' \<and> bb_inv bb' \<and>
     bb_set bb' = insert 7 (bb_set u32_list_sample)"
proof -
  have "\<not> isl (ext2fs_u32_list_add (roomy 0) u32_list_sample 7)"
    by code_simp
  then show ?thesis
    using u32_list_add_result [OF u32_list_sample_inv, of "roomy 0" 7]
    by (cases "ext2fs_u32_list_add (roomy 0) u32_list_sample 7") simp_all
qed

text \<open>
  C3. The binary search finds every member: it returns an index below the count whose
  entry is the block, or -1 exactly when the block is not in the list.
\<close>

theorem u32_list_find_correct:
  assumes "bb_inv bb"
  shows "if blk \<in> bb_set bb
    then 0 \<le> ext2fs_u32_list_find bb blk \<and> nat (ext2fs_u32_list_find bb blk) < bb_num bb \<and>
      bb_list bb ! nat (ext2fs_u32_list_find bb blk) = blk
    else ext2fs_u32_list_find bb blk = -1"
  using find_cases [OF assms, of blk] assms by (auto simp: bb_set_nth)

lemma u32_list_find_correct_witness:
  "ext2fs_u32_list_find u32_list_sample 5 = 1 \<and> ext2fs_u32_list_find u32_list_sample 6 = -1"
proof -
  have "5 \<in> bb_set u32_list_sample" "6 \<notin> bb_set u32_list_sample"
    by (simp_all add: bb_set_def bb_elems_def u32_list_sample_def)
  moreover have "ext2fs_u32_list_find u32_list_sample 5 = 1" by code_simp
  ultimately show ?thesis
    using u32_list_find_correct [OF u32_list_sample_inv, of 5]
      u32_list_find_correct [OF u32_list_sample_inv, of 6] by simp
qed

text \<open>
  C4. The iterator yields every block of the list once, in increasing order, and then
  stops; two lists compare equal exactly when they hold the same blocks, whatever their
  capacities.
\<close>

theorem u32_list_iterate_equal:
  assumes "bb_inv bb1" "bb_inv bb2"
  shows "(\<forall>it. ext2fs_u32_list_iterate_begin h bb1 = Inr it \<longrightarrow>
      iterate_while (Suc (bb_num bb1)) it bb1 = sorted_list_of_set (bb_set bb1)) \<and>
    ext2fs_u32_list_equal bb1 bb2 = Inr (bb_set bb1 = bb_set bb2)"
proof -
  have "iterate_while (Suc (bb_num bb1)) it bb1 = sorted_list_of_set (bb_set bb1)"
    if "ext2fs_u32_list_iterate_begin h bb1 = Inr it" for it
    using that assms(1) iterate_while_from [OF assms(1), of 0 "Suc (bb_num bb1)"]
      bb_elems_sorted_list_of_set [OF assms(1)]
    by (simp add: ext2fs_u32_list_iterate_begin_def bb_inv_def del: iterate_while.simps
        split: sum.splits)
  then show ?thesis using equal_iff [OF assms] by blast
qed

lemma u32_list_iterate_equal_witness:
  "iterate_while 4 (projr (ext2fs_u32_list_iterate_begin (roomy ()) u32_list_sample)) u32_list_sample
     = sorted_list_of_set (bb_set u32_list_sample) \<and>
   ext2fs_u32_list_equal u32_list_sample u32_list_sample = Inr True"
proof -
  have "ext2fs_u32_list_iterate_begin (roomy ()) u32_list_sample =
    Inr (projr (ext2fs_u32_list_iterate_begin (roomy ()) u32_list_sample))" by code_simp
  moreover have "Suc (bb_num u32_list_sample) = 4" by (simp add: u32_list_sample_def)
  ultimately show ?thesis
    using u32_list_iterate_equal [OF u32_list_sample_inv u32_list_sample_inv, of "roomy ()"]
    by metis
qed

end
