(* ===== verification/Bitops.thy ===== *)
theory Bitops
  imports Ext2_Prelude
begin

text \<open>
  \<open>source/bitops.c\<close>, \<open>source/bitops_functions.c\<close> and \<open>source/bit_ops.h\<close>:
  the portable C versions of the bit operations on byte arrays (bit 0 is the least
  significant bit of the first byte), the byte swaps, and the little-endian loads and
  stores. The lemmas reduce every bit operation to an array of bits indexed by \<open>nat\<close>.
\<close>

unbundle bit_operations_syntax

section \<open>Bits of a byte array\<close>

text \<open>Return values are the C \<open>int\<close> \<open>mask & *ADDR\<close>, which fits in a byte.\<close>

definition ext2fs_set_bit :: "u32 \<Rightarrow> u8 list \<Rightarrow> u8 \<times> u8 list" where
  "ext2fs_set_bit nr addr =
     (let i = unat (drop_bit 3 nr); mask = push_bit (unat (nr AND 7)) 1;
          retval = mask AND addr ! i
      in (retval, addr[i := addr ! i OR mask]))"

definition ext2fs_clear_bit :: "u32 \<Rightarrow> u8 list \<Rightarrow> u8 \<times> u8 list" where
  "ext2fs_clear_bit nr addr =
     (let i = unat (drop_bit 3 nr); mask = push_bit (unat (nr AND 7)) 1;
          retval = mask AND addr ! i
      in (retval, addr[i := addr ! i AND NOT mask]))"

definition ext2fs_test_bit :: "u32 \<Rightarrow> u8 list \<Rightarrow> u8" where
  "ext2fs_test_bit nr addr =
     (let i = unat (drop_bit 3 nr); mask = push_bit (unat (nr AND 7)) 1 in mask AND addr ! i)"

definition ext2fs_fast_set_bit :: "u32 \<Rightarrow> u8 list \<Rightarrow> u8 list" where
  "ext2fs_fast_set_bit nr addr =
     (let i = unat (drop_bit 3 nr) in addr[i := addr ! i OR push_bit (unat (nr AND 7)) 1])"

definition ext2fs_fast_clear_bit :: "u32 \<Rightarrow> u8 list \<Rightarrow> u8 list" where
  "ext2fs_fast_clear_bit nr addr =
     (let i = unat (drop_bit 3 nr) in addr[i := addr ! i AND NOT (push_bit (unat (nr AND 7)) 1)])"

definition ext2fs_set_bit64 :: "u64 \<Rightarrow> u8 list \<Rightarrow> u8 \<times> u8 list" where
  "ext2fs_set_bit64 nr addr =
     (let i = unat (drop_bit 3 nr); mask = push_bit (unat (nr AND 7)) 1;
          retval = mask AND addr ! i
      in (retval, addr[i := addr ! i OR mask]))"

definition ext2fs_clear_bit64 :: "u64 \<Rightarrow> u8 list \<Rightarrow> u8 \<times> u8 list" where
  "ext2fs_clear_bit64 nr addr =
     (let i = unat (drop_bit 3 nr); mask = push_bit (unat (nr AND 7)) 1;
          retval = mask AND addr ! i
      in (retval, addr[i := addr ! i AND NOT mask]))"

definition ext2fs_test_bit64 :: "u64 \<Rightarrow> u8 list \<Rightarrow> u8" where
  "ext2fs_test_bit64 nr addr =
     (let i = unat (drop_bit 3 nr); mask = push_bit (unat (nr AND 7)) 1 in mask AND addr ! i)"

definition ext2fs_fast_set_bit64 :: "u64 \<Rightarrow> u8 list \<Rightarrow> u8 list" where
  "ext2fs_fast_set_bit64 nr addr =
     (let i = unat (drop_bit 3 nr) in addr[i := addr ! i OR push_bit (unat (nr AND 7)) 1])"

definition ext2fs_fast_clear_bit64 :: "u64 \<Rightarrow> u8 list \<Rightarrow> u8 list" where
  "ext2fs_fast_clear_bit64 nr addr =
     (let i = unat (drop_bit 3 nr) in addr[i := addr ! i AND NOT (push_bit (unat (nr AND 7)) 1)])"

text \<open>The abstract view: bit \<open>n\<close> of an array, and writing one bit.\<close>

definition bit_at :: "u8 list \<Rightarrow> nat \<Rightarrow> bool" where
  "bit_at A n = bit (A ! (n div 8)) (n mod 8)"

definition put_bit :: "bool \<Rightarrow> nat \<Rightarrow> u8 list \<Rightarrow> u8 list" where
  "put_bit b n A =
     A[n div 8 := (if b then A ! (n div 8) OR push_bit (n mod 8) 1
                   else A ! (n div 8) AND NOT (push_bit (n mod 8) 1))]"

lemma unat_drop_bit3: "unat (drop_bit 3 (nr :: 'a::len word)) = unat nr div 8"
proof -
  have "unat nr < 2 ^ LENGTH('a)" by (rule unsigned_less)
  then have "take_bit LENGTH('a) (unat nr) = unat nr" by (simp add: take_bit_nat_eq_self)
  then have "unat (drop_bit 3 nr) = drop_bit 3 (unat nr)"
    by (simp only: unsigned_drop_bit_eq)
  then show ?thesis by (simp only: drop_bit_eq_div) simp
qed

lemma unat_and7: "8 \<le> LENGTH('a) \<Longrightarrow> unat ((nr :: 'a::len word) AND 7) = unat nr mod 8"
proof -
  have "nr AND 7 = take_bit 3 nr"
    by (simp add: take_bit_eq_mask mask_eq_exp_minus_1)
  then have "unat (nr AND 7) = take_bit 3 (unat nr)"
    by (simp only: unsigned_take_bit_eq)
  then show ?thesis by (simp only: take_bit_eq_mod) simp
qed

lemma unat_and7_32: "unat ((nr :: u32) AND 7) = unat nr mod 8"
  by (rule unat_and7) simp

lemma unat_and7_64: "unat ((nr :: u64) AND 7) = unat nr mod 8"
  by (rule unat_and7) simp

lemma mask_and_iff: "n < 8 \<Longrightarrow> (push_bit n 1 AND (x :: u8)) \<noteq> 0 \<longleftrightarrow> bit x n"
proof -
  assume n: "n < 8"
  have "bit (push_bit n 1 AND x) k \<longleftrightarrow> k = n \<and> bit x n" for k
    using n by (auto simp only: bit_and_iff bit_push_bit_iff bit_1_iff possible_bit_word)
      (auto dest: bit_imp_le_length)
  note bit_k = this
  show ?thesis
  proof
    assume "push_bit n 1 AND x \<noteq> 0"
    then obtain k where "bit (push_bit n 1 AND x) k" by (metis bit_eqI bit_0_eq bot_apply bot_bool_def)
    then show "bit x n" using bit_k by blast
  next
    assume "bit x n"
    then have "bit (push_bit n 1 AND x) n" using bit_k by blast
    then show "push_bit n 1 AND x \<noteq> 0" by (metis bit_0_eq bot_apply bot_bool_def)
  qed
qed

lemma mask_and_iff': "n < 8 \<Longrightarrow> (2 ^ n AND (x :: u8)) \<noteq> 0 \<longleftrightarrow> bit x n"
  using mask_and_iff [of n x] by simp

lemmas bit_fun_defs =
  ext2fs_set_bit_def ext2fs_clear_bit_def ext2fs_test_bit_def ext2fs_fast_set_bit_def
  ext2fs_fast_clear_bit_def ext2fs_set_bit64_def ext2fs_clear_bit64_def ext2fs_test_bit64_def
  ext2fs_fast_set_bit64_def ext2fs_fast_clear_bit64_def

text \<open>All ten operations as operations on the bit array.\<close>

lemma bit_fun_at [simp]:
  "fst (ext2fs_set_bit nr A) \<noteq> 0 \<longleftrightarrow> bit_at A (unat nr)"
  "snd (ext2fs_set_bit nr A) = put_bit True (unat nr) A"
  "fst (ext2fs_clear_bit nr A) \<noteq> 0 \<longleftrightarrow> bit_at A (unat nr)"
  "snd (ext2fs_clear_bit nr A) = put_bit False (unat nr) A"
  "ext2fs_test_bit nr A \<noteq> 0 \<longleftrightarrow> bit_at A (unat nr)"
  "ext2fs_fast_set_bit nr A = put_bit True (unat nr) A"
  "ext2fs_fast_clear_bit nr A = put_bit False (unat nr) A"
  "fst (ext2fs_set_bit64 nr' A) \<noteq> 0 \<longleftrightarrow> bit_at A (unat nr')"
  "snd (ext2fs_set_bit64 nr' A) = put_bit True (unat nr') A"
  "fst (ext2fs_clear_bit64 nr' A) \<noteq> 0 \<longleftrightarrow> bit_at A (unat nr')"
  "snd (ext2fs_clear_bit64 nr' A) = put_bit False (unat nr') A"
  "ext2fs_test_bit64 nr' A \<noteq> 0 \<longleftrightarrow> bit_at A (unat nr')"
  "ext2fs_fast_set_bit64 nr' A = put_bit True (unat nr') A"
  "ext2fs_fast_clear_bit64 nr' A = put_bit False (unat nr') A"
  by (simp_all add: bit_fun_defs Let_def unat_drop_bit3 unat_and7 bit_at_def put_bit_def
      mask_and_iff')

lemma length_put_bit [simp]: "length (put_bit b n A) = length A"
  by (simp add: put_bit_def)

lemma bit_at_put_bit [simp]:
  assumes "n div 8 < length A"
  shows "bit_at (put_bit b n A) m = (if m = n then b else bit_at A m)"
proof -
  have "m = n \<longleftrightarrow> m div 8 = n div 8 \<and> m mod 8 = n mod 8"
    by (metis div_mult_mod_eq)
  then show ?thesis
    using assms by (auto simp: bit_at_def put_bit_def nth_list_update bit_simps)
qed

lemma bit_at_ext:
  assumes "length A = length B" "\<And>n. n < 8 * length A \<Longrightarrow> bit_at A n = bit_at B n"
  shows "A = B"
proof (rule nth_equalityI [OF assms(1)])
  fix i assume i: "i < length A"
  show "A ! i = B ! i"
  proof (rule bit_word_eqI)
    fix n assume n: "n < LENGTH(8)"
    have "(8 * i + n) div 8 = i" "(8 * i + n) mod 8 = n" using n by auto
    moreover have "8 * i + n < 8 * length A" using i n by simp
    ultimately show "bit (A ! i) n = bit (B ! i) n"
      using assms(2) [of "8 * i + n"] by (simp add: bit_at_def)
  qed
qed

lemma bit_at_zero: "n div 8 < length A \<Longrightarrow> A ! (n div 8) = 0 \<Longrightarrow> \<not> bit_at A n"
  by (simp add: bit_at_def)

lemma test_bit_value:
  "ext2fs_test_bit nr A = (if bit_at A (unat nr) then push_bit (unat nr mod 8) 1 else 0)"
  "ext2fs_test_bit64 nr' A = (if bit_at A (unat nr') then push_bit (unat nr' mod 8) 1 else 0)"
proof -
  have "push_bit n 1 AND (x :: u8) = (if bit x n then push_bit n 1 else 0)" for n x
    by (rule bit_word_eqI) (auto simp: bit_and_iff bit_push_bit_iff bit_1_iff simp del: push_bit_of_1)
  then show "ext2fs_test_bit nr A = (if bit_at A (unat nr) then push_bit (unat nr mod 8) 1 else 0)"
    "ext2fs_test_bit64 nr' A = (if bit_at A (unat nr') then push_bit (unat nr' mod 8) 1 else 0)"
    by (simp_all only: bit_fun_defs Let_def unat_drop_bit3 bit_at_def unat_and7_32 unat_and7_64)
qed

lemma test_bit_eq_iff:
  "ext2fs_test_bit nr A = ext2fs_test_bit nr B \<longleftrightarrow> bit_at A (unat nr) = bit_at B (unat nr)"
  "ext2fs_test_bit64 nr' A = ext2fs_test_bit64 nr' B \<longleftrightarrow> bit_at A (unat nr') = bit_at B (unat nr')"
proof -
  have nz: "push_bit (n mod 8) (1 :: u8) \<noteq> 0" for n :: nat
  proof
    assume "push_bit (n mod 8) (1 :: u8) = 0"
    moreover have "bit (push_bit (n mod 8) (1 :: u8)) (n mod 8)"
      by (simp add: bit_push_bit_iff del: push_bit_of_1)
    ultimately show False by (metis bit_0_eq bot_apply bot_bool_def)
  qed
  show "ext2fs_test_bit nr A = ext2fs_test_bit nr B \<longleftrightarrow> bit_at A (unat nr) = bit_at B (unat nr)"
    "ext2fs_test_bit64 nr' A = ext2fs_test_bit64 nr' B \<longleftrightarrow> bit_at A (unat nr') = bit_at B (unat nr')"
    unfolding test_bit_value by (metis nz)+
qed

lemma byte_zero_iff: "(x :: u8) = 0 \<longleftrightarrow> (\<forall>n < 8. \<not> bit x n)"
  by (auto simp: bit_eq_iff)

section \<open>Byte swaps\<close>

definition ext2fs_swab16 :: "u16 \<Rightarrow> u16" where
  "ext2fs_swab16 val = drop_bit 8 val OR push_bit 8 val"

definition ext2fs_swab32 :: "u32 \<Rightarrow> u32" where
  "ext2fs_swab32 val =
     (drop_bit 24 val OR (drop_bit 8 val AND 0xFF00) OR
      (push_bit 8 val AND 0xFF0000) OR push_bit 24 val)"

definition ext2fs_swab64 :: "u64 \<Rightarrow> u64" where
  "ext2fs_swab64 val =
     (ucast (ext2fs_swab32 (ucast (drop_bit 32 val))) OR
      push_bit 32 (ucast (ext2fs_swab32 (ucast (val AND 0xFFFFFFFF)))))"

text \<open>\<open>WORDS_BIGENDIAN\<close> is defined, so both directions of the conversions swap.\<close>

definition ext2fs_cpu_to_le16 :: "u16 \<Rightarrow> u16" where
  "ext2fs_cpu_to_le16 x = ext2fs_swab16 x"

definition ext2fs_le16_to_cpu :: "u16 \<Rightarrow> u16" where
  "ext2fs_le16_to_cpu x = ext2fs_swab16 x"

definition ext2fs_cpu_to_le32 :: "u32 \<Rightarrow> u32" where
  "ext2fs_cpu_to_le32 x = ext2fs_swab32 x"

definition ext2fs_le32_to_cpu :: "u32 \<Rightarrow> u32" where
  "ext2fs_le32_to_cpu x = ext2fs_swab32 x"

definition ext2fs_cpu_to_le64 :: "u64 \<Rightarrow> u64" where
  "ext2fs_cpu_to_le64 x = ext2fs_swab64 x"

definition ext2fs_le64_to_cpu :: "u64 \<Rightarrow> u64" where
  "ext2fs_le64_to_cpu x = ext2fs_swab64 x"

section \<open>Loads and stores\<close>

definition u8array_to_u16 :: "u8 list \<Rightarrow> nat \<Rightarrow> u16" where
  "u8array_to_u16 item off = ucast (item ! off) OR push_bit 8 (ucast (item ! (off + 1)))"

definition u8array_to_u32 :: "u8 list \<Rightarrow> nat \<Rightarrow> u32" where
  "u8array_to_u32 item off =
     (ucast (item ! off) OR push_bit 8 (ucast (item ! (off + 1))) OR
      push_bit 16 (ucast (item ! (off + 2))) OR push_bit 24 (ucast (item ! (off + 3))))"

definition u16_to_u8array :: "u8 list \<Rightarrow> nat \<Rightarrow> u16 \<Rightarrow> u8 list" where
  "u16_to_u8array item off val =
     item[off := ucast val, off + 1 := ucast (drop_bit 8 val)]"

definition u32_to_u8array :: "u8 list \<Rightarrow> nat \<Rightarrow> u32 \<Rightarrow> u8 list" where
  "u32_to_u8array item off val =
     item[off := ucast val, off + 1 := ucast (drop_bit 8 val),
          off + 2 := ucast (drop_bit 16 val), off + 3 := ucast (drop_bit 24 val)]"

text \<open>The bytes of an integer in the memory of the big-endian target.\<close>

definition mem_be16 :: "u16 \<Rightarrow> u8 list" where
  "mem_be16 v = [ucast (drop_bit 8 v), ucast v]"

definition mem_be32 :: "u32 \<Rightarrow> u8 list" where
  "mem_be32 v = [ucast (drop_bit 24 v), ucast (drop_bit 16 v), ucast (drop_bit 8 v), ucast v]"

text \<open>Both swaps reverse the bytes: the bit numbers below are bit \<open>r\<close> of byte \<open>q\<close>.\<close>

lemma byte_bit_cases:
  fixes n :: nat
  assumes "n < 8 * k"
  obtains q r where "n = 8 * q + r" "q < k" "r < 8"
  using assms that [of "n div 8" "n mod 8"] by (simp add: less_mult_imp_div_less mult.commute)

lemma swab16_swab16: "ext2fs_swab16 (ext2fs_swab16 v) = v"
proof (rule bit_word_eqI)
  fix n assume "n < LENGTH(16)"
  then have "n < 8 \<or> 8 \<le> n \<and> n < 16" by auto
  then show "bit (ext2fs_swab16 (ext2fs_swab16 v)) n = bit v n"
    by (auto simp: ext2fs_swab16_def bit_simps dest: bit_imp_le_length)
qed

lemma bit_FF00: "bit (0xFF00 :: u32) n \<longleftrightarrow> 8 \<le> n \<and> n < 16"
proof -
  have eq: "(0xFF00 :: u32) = push_bit 8 (mask 8)" by (simp add: mask_eq_exp_minus_1)
  show ?thesis unfolding eq bit_push_bit_iff bit_mask_iff by auto
qed

lemma bit_FF0000: "bit (0xFF0000 :: u32) n \<longleftrightarrow> 16 \<le> n \<and> n < 24"
proof -
  have eq: "(0xFF0000 :: u32) = push_bit 16 (mask 8)" by (simp add: mask_eq_exp_minus_1)
  show ?thesis unfolding eq bit_push_bit_iff bit_mask_iff by auto
qed

lemma bit_FFFFFFFF: "bit (0xFFFFFFFF :: u64) n \<longleftrightarrow> n < 32"
proof -
  have eq: "(0xFFFFFFFF :: u64) = mask 32" by (simp add: mask_eq_exp_minus_1)
  show ?thesis unfolding eq bit_mask_iff by auto
qed

lemma bit_swab32:
  assumes "q < 4" "r < 8"
  shows "bit (ext2fs_swab32 v) (8 * q + r) \<longleftrightarrow> bit v (8 * (3 - q) + r)"
proof -
  have *: "bit (ext2fs_swab32 v) n \<longleftrightarrow> bit v (24 + n) \<or> bit v (8 + n) \<and> 8 \<le> n \<and> n < 16 \<or>
    8 \<le> n \<and> bit v (n - 8) \<and> 16 \<le> n \<and> n < 24 \<or> 24 \<le> n \<and> n < 32 \<and> bit v (n - 24)" for n
    unfolding ext2fs_swab32_def
    by (auto simp only: bit_or_iff bit_and_iff bit_drop_bit_eq bit_push_bit_iff bit_FF00
        bit_FF0000 comp_def possible_bit_word) auto
  have out: "\<not> bit v k" if "32 \<le> k" for k using that bit_imp_le_length [of v k] by auto
  have "q = 0 \<or> q = 1 \<or> q = 2 \<or> q = 3" using assms(1) by auto
  then show ?thesis using assms(2) by (elim disjE) (simp_all add: * out)
qed

lemma swab32_swab32: "ext2fs_swab32 (ext2fs_swab32 v) = v"
proof (rule bit_word_eqI)
  fix n assume "n < LENGTH(32)"
  then obtain q r where n: "n = 8 * q + r" "q < 4" "r < 8"
    using byte_bit_cases [of n 4] by auto
  show "bit (ext2fs_swab32 (ext2fs_swab32 v)) n = bit v n"
    using bit_swab32 [OF n(2,3)] bit_swab32 [of "3 - q" r v] n by simp
qed

lemma bit_swab64:
  assumes "q < 8" "r < 8"
  shows "bit (ext2fs_swab64 v) (8 * q + r) \<longleftrightarrow> bit v (8 * (7 - q) + r)"
proof -
  have *: "bit (ext2fs_swab64 v) n \<longleftrightarrow>
    (if n < 32 then bit (ext2fs_swab32 (ucast (drop_bit 32 v))) n
     else n < 64 \<and> bit (ext2fs_swab32 (ucast v)) (n - 32))" for n
  proof -
    have "ucast (v AND 0xFFFFFFFF) = (ucast v :: u32)"
      by (rule bit_word_eqI) (auto simp only: bit_ucast_iff bit_and_iff bit_FFFFFFFF, simp)
    then show ?thesis
      unfolding ext2fs_swab64_def
      by (auto simp: bit_or_iff bit_push_bit_iff bit_ucast_iff dest: bit_imp_le_length)
  qed
  show ?thesis
  proof (cases "q < 4")
    case True
    then have "32 + (8 * (3 - q) + r) = 8 * (7 - q) + r" by simp
    then have e: "bit v (32 + (8 * (3 - q) + r)) = bit v (8 * (7 - q) + r)" by (rule arg_cong)
    show ?thesis
      using assms True bit_swab32 [OF True assms(2)] by (auto simp: * bit_simps e)
  next
    case False
    then have "bit (ext2fs_swab32 (ucast v)) (8 * (q - 4) + r) \<longleftrightarrow> bit (ucast v :: u32) (8 * (3 - (q - 4)) + r)"
      using assms by (intro bit_swab32) auto
    moreover have "8 * q + r - 32 = 8 * (q - 4) + r" "3 - (q - 4) = 7 - q" "8 * q + r < 64"
      "8 * (7 - q) + r < 32"
      using False assms by auto
    ultimately show ?thesis
      using False assms by (simp add: * bit_simps)
  qed
qed

lemma swab64_swab64: "ext2fs_swab64 (ext2fs_swab64 v) = v"
proof (rule bit_word_eqI)
  fix n assume "n < LENGTH(64)"
  then obtain q r where n: "n = 8 * q + r" "q < 8" "r < 8"
    using byte_bit_cases [of n 8] by auto
  show "bit (ext2fs_swab64 (ext2fs_swab64 v)) n = bit v n"
    using bit_swab64 [OF n(2,3)] bit_swab64 [of "7 - q" r v] n by simp
qed

lemma load_store_u16:
  "off + 1 < length item \<Longrightarrow> u8array_to_u16 (u16_to_u8array item off v) off = v"
  by (rule bit_word_eqI) (auto simp: u8array_to_u16_def u16_to_u8array_def bit_simps)

lemma load_store_u32:
  assumes "off + 3 < length item"
  shows "u8array_to_u32 (u32_to_u8array item off v) off = v"
proof (rule bit_word_eqI)
  fix n assume "n < LENGTH(32)"
  then obtain q r where n: "n = 8 * q + r" "q < 4" "r < 8"
    using byte_bit_cases [of n 4] by auto
  then have "q = 0 \<or> q = 1 \<or> q = 2 \<or> q = 3" by auto
  then show "bit (u8array_to_u32 (u32_to_u8array item off v) off) n = bit v n"
    using assms n
    by (elim disjE) (simp_all add: u8array_to_u32_def u32_to_u8array_def bit_simps)
qed

lemma mem_be16_swab: "mem_be16 (ext2fs_swab16 v) = [ucast v, ucast (drop_bit 8 v)]"
  unfolding mem_be16_def
  by (auto intro!: bit_word_eqI simp: ext2fs_swab16_def bit_simps dest: bit_imp_le_length)

lemma mem_be32_swab:
  "mem_be32 (ext2fs_swab32 v) =
     [ucast v, ucast (drop_bit 8 v), ucast (drop_bit 16 v), ucast (drop_bit 24 v)]"
proof -
  have "ucast (drop_bit (8 * q) (ext2fs_swab32 v)) = (ucast (drop_bit (8 * (3 - q)) v) :: u8)"
    if "q < 4" for q
  proof (rule bit_word_eqI)
    fix n assume n: "n < LENGTH(8)"
    then show "bit (ucast (drop_bit (8 * q) (ext2fs_swab32 v)) :: u8) n =
      bit (ucast (drop_bit (8 * (3 - q)) v) :: u8) n"
      using bit_swab32 [OF that, of n v] by (simp add: bit_ucast_iff bit_drop_bit_eq add.commute)
  qed
  from this [of 0] this [of 1] this [of 2] this [of 3] show ?thesis
    by (simp add: mem_be32_def)
qed

section \<open>Properties\<close>

text \<open>
  C5. Setting or clearing bit \<open>nr\<close> of a large enough array returns the old value of
  the bit, changes that bit and no other, and keeps the array's length. The 64-bit versions give
  the same results and the same arrays as the 32-bit ones, the 64-bit test the same answer; the
  \<open>fast\<close> versions leave the same array.
\<close>

theorem bitops_correct:
  fixes nr :: u32 and nr64 :: u64
  assumes "unat nr div 8 < length A" "unat nr64 = unat nr"
  shows "(fst (ext2fs_set_bit nr A) \<noteq> 0 \<longleftrightarrow> ext2fs_test_bit nr A \<noteq> 0) \<and>
    (fst (ext2fs_clear_bit nr A) \<noteq> 0 \<longleftrightarrow> ext2fs_test_bit nr A \<noteq> 0) \<and>
    (\<forall>m :: u32. ext2fs_test_bit m (snd (ext2fs_set_bit nr A)) \<noteq> 0 \<longleftrightarrow>
       m = nr \<or> ext2fs_test_bit m A \<noteq> 0) \<and>
    (\<forall>m :: u32. ext2fs_test_bit m (snd (ext2fs_clear_bit nr A)) \<noteq> 0 \<longleftrightarrow>
       m \<noteq> nr \<and> ext2fs_test_bit m A \<noteq> 0) \<and>
    length (snd (ext2fs_set_bit nr A)) = length A \<and>
    length (snd (ext2fs_clear_bit nr A)) = length A \<and>
    ext2fs_set_bit64 nr64 A = ext2fs_set_bit nr A \<and>
    ext2fs_clear_bit64 nr64 A = ext2fs_clear_bit nr A \<and>
    ext2fs_test_bit64 nr64 A = ext2fs_test_bit nr A \<and>
    ext2fs_fast_set_bit nr A = snd (ext2fs_set_bit nr A) \<and>
    ext2fs_fast_clear_bit nr A = snd (ext2fs_clear_bit nr A) \<and>
    ext2fs_fast_set_bit64 nr64 A = snd (ext2fs_set_bit nr A) \<and>
    ext2fs_fast_clear_bit64 nr64 A = snd (ext2fs_clear_bit nr A)"
proof -
  have eq: "unat m = unat nr \<longleftrightarrow> m = nr" for m by (simp add: word_unat_eq_iff)
  have wide: "ext2fs_set_bit64 nr64 A = ext2fs_set_bit nr A" "ext2fs_clear_bit64 nr64 A = ext2fs_clear_bit nr A"
    "ext2fs_test_bit64 nr64 A = ext2fs_test_bit nr A"
    using assms(2) by (simp_all add: bit_fun_defs Let_def unat_drop_bit3 unat_and7)
  show ?thesis using assms by (auto simp: eq wide)
qed

lemma bitops_correct_witness:
  "\<forall>m :: u32. ext2fs_test_bit m (snd (ext2fs_set_bit 9 [1, 0])) \<noteq> 0 \<longleftrightarrow>
     m = 9 \<or> ext2fs_test_bit m [1, 0] \<noteq> 0"
  using bitops_correct [of 9 "[1, 0]" 9] by simp

text \<open>
  C6. The byte swaps are involutions, so \<open>le_to_cpu\<close> undoes \<open>cpu_to_le\<close> at every
  width, and a swapped value stored by the big-endian target lies in memory least
  significant byte first, exactly as the explicit byte stores of \<open>bit_ops.h\<close> write it;
  reading it back with the explicit loads gives the value.
\<close>

theorem little_endian_roundtrip:
  "ext2fs_le16_to_cpu (ext2fs_cpu_to_le16 v16) = v16 \<and>
   ext2fs_le32_to_cpu (ext2fs_cpu_to_le32 v32) = v32 \<and>
   ext2fs_le64_to_cpu (ext2fs_cpu_to_le64 v64) = v64 \<and>
   mem_be16 (ext2fs_cpu_to_le16 v16) = u16_to_u8array [0, 0] 0 v16 \<and>
   mem_be32 (ext2fs_cpu_to_le32 v32) = u32_to_u8array [0, 0, 0, 0] 0 v32 \<and>
   u8array_to_u16 (mem_be16 (ext2fs_cpu_to_le16 v16)) 0 = v16 \<and>
   u8array_to_u32 (mem_be32 (ext2fs_cpu_to_le32 v32)) 0 = v32"
proof -
  have m16: "mem_be16 (ext2fs_cpu_to_le16 v16) = u16_to_u8array [0, 0] 0 v16"
    by (simp add: ext2fs_cpu_to_le16_def mem_be16_swab u16_to_u8array_def)
  have m32: "mem_be32 (ext2fs_cpu_to_le32 v32) = u32_to_u8array [0, 0, 0, 0] 0 v32"
    by (simp add: ext2fs_cpu_to_le32_def mem_be32_swab u32_to_u8array_def)
  show ?thesis
    unfolding m16 m32
    by (simp add: ext2fs_le16_to_cpu_def ext2fs_cpu_to_le16_def ext2fs_le32_to_cpu_def
        ext2fs_cpu_to_le32_def ext2fs_le64_to_cpu_def ext2fs_cpu_to_le64_def
        swab16_swab16 swab32_swab32 swab64_swab64 load_store_u16 load_store_u32)
qed

end
