(* ===== verification/Bitmap_Bits.thy ===== *)
theory Bitmap_Bits
  imports Bitops Block_Set
begin

text \<open>
  What the two bitmap implementations share: the test that a run of bits is clear
  (\<open>ext2fs_test_clear_generic_bitmap_range\<close> of \<open>source/gen_bitmap.c\<close> and
  \<open>ba_test_clear_bmap_extent\<close> of \<open>source/blkmap64_ba.c\<close>, the same code at two
  integer widths), loops that write a run of bits, and the contract of
  \<open>struct ext2_bitmap_ops\<close> (\<open>source/bmap64.h\<close>).
\<close>

section \<open>Definitions\<close>

text \<open>\<open>ext2fs_mem_is_zero\<close>: 256 bytes at a time, then the leftover bytes.\<close>

function ext2fs_mem_is_zero :: "u8 list \<Rightarrow> nat \<Rightarrow> bool" where
  "ext2fs_mem_is_zero mem len =
     (if len \<ge> 256 then
        (if take 256 mem \<noteq> replicate 256 0 then False
         else ext2fs_mem_is_zero (drop 256 mem) (len - 256))
      else if len \<noteq> 0 then take len mem = replicate len 0
      else True)"
  by pat_completeness auto
termination
  by (relation "measure snd") auto

text \<open>
  The two mask loops. The masks have no bit above bit 7, so a byte holds them.
\<close>

fun or_bits_down :: "nat \<Rightarrow> nat \<Rightarrow> u8 \<Rightarrow> u8" where
  "or_bits_down 0 mark_bit acc = acc"
| "or_bits_down (Suc i) mark_bit acc = or_bits_down i (mark_bit - 1) (acc OR push_bit mark_bit 1)"

fun or_low_bits :: "nat \<Rightarrow> u8 \<Rightarrow> u8" where
  "or_low_bits 0 acc = acc"
| "or_low_bits (Suc m) acc = or_low_bits m (acc OR push_bit m 1)"

text \<open>
  The body of both functions, after \<open>start -= bitmap->start\<close>. No intermediate value
  exceeds \<open>start + len\<close>, so the unsigned arithmetic of either width is that of \<open>nat\<close>.
\<close>

definition test_clear_bits :: "u8 list \<Rightarrow> nat \<Rightarrow> nat \<Rightarrow> bool" where
  "test_clear_bits ADDR start len =
     (let start_byte = start div 8; start_bit = start mod 8;
          len_byte = len div 8; len_bit = len mod 8;
          tail = (\<lambda>start_byte len_byte len_bit.
            if len_bit \<noteq> 0 then
              (if or_low_bits len_bit 0 AND ADDR ! (start_byte + len_byte) \<noteq> 0 then False
               else if len_byte = 0 then True
               else ext2fs_mem_is_zero (drop start_byte ADDR) len_byte)
            else ext2fs_mem_is_zero (drop start_byte ADDR) len_byte)
      in
      if start_bit \<noteq> 0 then
        (let mark_count = (if len < 8 - start_bit then len else 8 - start_bit);
             mark_bit = (if len < 8 - start_bit then len + start_bit - 1 else 7)
         in
         if or_bits_down mark_count mark_bit 0 AND ADDR ! start_byte \<noteq> 0 then False
         else if len \<le> 8 - start_bit then True
         else tail (start_byte + 1) ((len - mark_count) div 8) ((len - mark_count) mod 8))
      else tail start_byte len_byte len_bit)"

section \<open>Runs of bits\<close>

declare ext2fs_mem_is_zero.simps [simp del]

lemma take_replicate_iff:
  "n \<le> length xs \<Longrightarrow> take n xs = replicate n x \<longleftrightarrow> (\<forall>i < n. xs ! i = x)"
  by (simp add: list_eq_iff_nth_eq)

lemma mem_is_zero_iff:
  "len \<le> length mem \<Longrightarrow> ext2fs_mem_is_zero mem len \<longleftrightarrow> (\<forall>i < len. mem ! i = 0)"
proof (induction mem len rule: ext2fs_mem_is_zero.induct)
  case (1 mem len)
  show ?case
  proof (cases "len \<ge> 256")
    case True
    let ?z = "\<forall>i < 256. mem ! i = 0"
    have "ext2fs_mem_is_zero mem len \<longleftrightarrow> ?z \<and> ext2fs_mem_is_zero (drop 256 mem) (len - 256)"
      using True "1.prems" by (subst ext2fs_mem_is_zero.simps) (auto simp: take_replicate_iff)
    also have "\<dots> \<longleftrightarrow> ?z \<and> (\<forall>i < len - 256. mem ! (256 + i) = 0)"
    proof (cases ?z)
      case z: True
      have "ext2fs_mem_is_zero (drop 256 mem) (len - 256) \<longleftrightarrow>
        (\<forall>i < len - 256. drop 256 mem ! i = 0)"
      proof (rule "1.IH")
        show "256 \<le> len" by (rule True)
        show "\<not> take 256 mem \<noteq> replicate 256 0"
          using z True "1.prems" by (simp add: take_replicate_iff)
        show "len - 256 \<le> length (drop 256 mem)" using "1.prems" by simp
      qed
      then show ?thesis using True "1.prems" by simp
    qed blast
    also have "\<dots> \<longleftrightarrow> (\<forall>i < len. mem ! i = 0)"
    proof -
      have "(\<exists>j < len - 256. i = 256 + j) \<or> i < 256" if "i < len" for i
        using that by (cases "i < 256") (auto intro!: exI [of _ "i - 256"])
      then show ?thesis using True by auto
    qed
    finally show ?thesis .
  next
    case False
    then show ?thesis
      using "1.prems" by (subst ext2fs_mem_is_zero.simps) (auto simp: take_replicate_iff)
  qed
qed

lemma bit_or_bits_down:
  "k \<le> Suc m \<Longrightarrow> m < 8 \<Longrightarrow> bit (or_bits_down k m acc) n \<longleftrightarrow> bit acc n \<or> (n \<le> m \<and> m < n + k)"
proof (induction k m acc rule: or_bits_down.induct)
  case (1 m acc)
  then show ?case by auto
next
  case (2 i m acc)
  show ?case
  proof (cases m)
    case 0
    then show ?thesis using 2 by (auto simp: bit_simps)
  next
    case (Suc m')
    then show ?thesis using 2 by (auto simp: bit_simps)
  qed
qed

lemma bit_or_low_bits: "m \<le> 8 \<Longrightarrow> bit (or_low_bits m acc) n \<longleftrightarrow> bit acc n \<or> n < m"
  by (induction m acc rule: or_low_bits.induct) (auto simp: bit_simps less_Suc_eq)

lemma and_byte_zero_iff: "((x :: u8) AND y) = 0 \<longleftrightarrow> (\<forall>n < 8. bit x n \<longrightarrow> \<not> bit y n)"
  unfolding byte_zero_iff by (auto simp: bit_and_iff)

lemma bytes_zero_iff:
  "(\<forall>i < n. A ! (s + i) = (0 :: u8)) \<longleftrightarrow> (\<forall>k < 8 * n. \<not> bit_at A (8 * s + k))"
proof
  assume z: "\<forall>i < n. A ! (s + i) = 0"
  show "\<forall>k < 8 * n. \<not> bit_at A (8 * s + k)"
  proof (intro allI impI)
    fix k assume "k < 8 * n"
    then have "k div 8 < n" by (simp add: less_mult_imp_div_less mult.commute)
    moreover have "(8 * s + k) div 8 = s + k div 8" by simp
    ultimately show "\<not> bit_at A (8 * s + k)" using z by (simp add: bit_at_def)
  qed
next
  assume c: "\<forall>k < 8 * n. \<not> bit_at A (8 * s + k)"
  show "\<forall>i < n. A ! (s + i) = 0"
  proof (intro allI impI)
    fix i assume i: "i < n"
    show "A ! (s + i) = 0"
      unfolding byte_zero_iff
    proof (intro allI impI)
      fix r :: nat assume r: "r < 8"
      then have "8 * i + r < 8 * n" using i by simp
      then have "\<not> bit_at A (8 * s + (8 * i + r))" using c by blast
      moreover have "(8 * s + (8 * i + r)) div 8 = s + i" "(8 * s + (8 * i + r)) mod 8 = r"
        using r by auto
      ultimately show "\<not> bit (A ! (s + i)) r" unfolding bit_at_def by (simp only: not_False_eq_True)
    qed
  qed
qed

lemma low_bits_clear:
  assumes "m \<le> 8"
  shows "or_low_bits m 0 AND A ! s = 0 \<longleftrightarrow> (\<forall>k < m. \<not> bit_at A (8 * s + k))"
proof -
  have "bit_at A (8 * s + k) = bit (A ! s) k" if "k < 8" for k
    using that by (simp add: bit_at_def)
  then show ?thesis
    using assms by (auto simp: and_byte_zero_iff bit_or_low_bits)
qed

lemma split_all_add:
  "(\<forall>k < a + b. P k) \<longleftrightarrow> (\<forall>k < a. P k) \<and> (\<forall>k < (b :: nat). P (a + k))"
  by (metis add_less_cancel_left le_add1 less_le_trans linorder_not_less le_Suc_ex)

text \<open>The part after the first partial byte: whole bytes, then the last partial byte.\<close>

lemma tail_clear:
  assumes "8 * s + 8 * n + m \<le> 8 * length A" "m < 8"
  shows "(if m \<noteq> 0 then
      (if or_low_bits m 0 AND A ! (s + n) \<noteq> 0 then False
       else if n = 0 then True else ext2fs_mem_is_zero (drop s A) n)
     else ext2fs_mem_is_zero (drop s A) n) \<longleftrightarrow> (\<forall>k < 8 * n + m. \<not> bit_at A (8 * s + k))"
proof -
  have "n \<le> length (drop s A)" using assms by simp
  then have z: "ext2fs_mem_is_zero (drop s A) n \<longleftrightarrow> (\<forall>k < 8 * n. \<not> bit_at A (8 * s + k))"
    using assms by (simp add: mem_is_zero_iff bytes_zero_iff [symmetric])
  have l: "or_low_bits m 0 AND A ! (s + n) = 0 \<longleftrightarrow> (\<forall>k < m. \<not> bit_at A (8 * s + (8 * n + k)))"
    using low_bits_clear [of m A "s + n"] assms by (simp add: add.assoc distrib_left)
  show ?thesis
    unfolding split_all_add z l by auto
qed

lemma test_clear_bits_iff:
  assumes "start + len \<le> 8 * length A"
  shows "test_clear_bits A start len \<longleftrightarrow> (\<forall>k < len. \<not> bit_at A (start + k))"
proof -
  define s b where "s = start div 8" and "b = start mod 8"
  have st: "start = 8 * s + b" and b8: "b < 8" by (auto simp: s_def b_def)
  show ?thesis
  proof (cases "b = 0")
    case True
    have "8 * s + 8 * (len div 8) + len mod 8 \<le> 8 * length A"
      using assms st True by simp
    from tail_clear [OF this] show ?thesis
      using True st by (simp add: test_clear_bits_def Let_def s_def [symmetric] b_def [symmetric])
  next
    case False
    define c where "c = min len (8 - b)"
    have c: "c \<le> len" "c \<le> 8 - b" by (auto simp: c_def)
    have first: "or_bits_down (if len < 8 - b then len else 8 - b)
        (if len < 8 - b then len + b - 1 else 7) 0 AND A ! s = 0 \<longleftrightarrow>
      (\<forall>k < c. \<not> bit_at A (start + k))"
    proof -
      have at: "bit_at A (start + k) = bit (A ! s) (b + k)" if "b + k < 8" for k
      proof -
        have "(8 * s + (b + k)) div 8 = s" "(8 * s + (b + k)) mod 8 = b + k" using that by auto
        then show ?thesis unfolding bit_at_def st by (simp add: add.assoc)
      qed
      have m: "bit (or_bits_down (if len < 8 - b then len else 8 - b)
          (if len < 8 - b then len + b - 1 else 7) 0) n \<longleftrightarrow> b \<le> n \<and> n < b + c" for n
        using False b8 by (subst bit_or_bits_down) (auto simp: c_def)
      show ?thesis
      proof
        assume "or_bits_down (if len < 8 - b then len else 8 - b)
          (if len < 8 - b then len + b - 1 else 7) 0 AND A ! s = 0"
        then have "\<not> bit (A ! s) (b + k)" if "k < c" for k
          using that c b8 unfolding and_byte_zero_iff m by auto
        then show "\<forall>k < c. \<not> bit_at A (start + k)" using at c b8 by auto
      next
        assume r: "\<forall>k < c. \<not> bit_at A (start + k)"
        show "or_bits_down (if len < 8 - b then len else 8 - b)
          (if len < 8 - b then len + b - 1 else 7) 0 AND A ! s = 0"
          unfolding and_byte_zero_iff m
        proof (intro allI impI)
          fix n assume n: "n < 8" "b \<le> n \<and> n < b + c"
          then obtain k where "n = b + k" "k < c"
            by (metis add_less_cancel_left le_add_diff_inverse)
          then show "\<not> bit (A ! s) n" using r at [of k] n by auto
        qed
      qed
    qed
    show ?thesis
    proof (cases "len \<le> 8 - b")
      case True
      then have "c = len" by (simp add: c_def)
      then show ?thesis
        using True False first
        by (simp add: test_clear_bits_def Let_def s_def [symmetric] b_def [symmetric])
    next
      case long: False
      then have c': "c = 8 - b" "start + c = 8 * (s + 1)" using b8 by (auto simp: c_def st)
      have "8 * (s + 1) + 8 * ((len - c) div 8) + (len - c) mod 8 \<le> 8 * length A"
        using assms c' c(1) by simp
      note tl = tail_clear [OF this]
      have "(\<forall>k < len. \<not> bit_at A (start + k)) \<longleftrightarrow>
        (\<forall>k < c. \<not> bit_at A (start + k)) \<and> (\<forall>k < len - c. \<not> bit_at A (8 * (s + 1) + k))"
        using split_all_add [of c "len - c" "\<lambda>k. \<not> bit_at A (start + k)"] c(1)
        by (simp add: c'(2) add.assoc [symmetric])
      moreover have "(if len < 8 - b then len else 8 - b) = c" using long by (simp add: c')
      ultimately show ?thesis
        using long False first tl
        by (simp add: test_clear_bits_def Let_def s_def [symmetric] b_def [symmetric])
    qed
  qed
qed

text \<open>Loops that write bits.\<close>

lemma length_foldl_put_bit [simp]:
  "length (foldl (\<lambda>A i. put_bit b (f i) A) A xs) = length A"
  by (induction xs arbitrary: A) auto

lemma bit_at_foldl_put_bit:
  "\<forall>i \<in> set xs. f i div 8 < length A \<Longrightarrow>
     bit_at (foldl (\<lambda>A i. put_bit b (f i) A) A xs) m = (if m \<in> f ` set xs then b else bit_at A m)"
  by (induction xs arbitrary: A) auto

section \<open>Windows of numbers over a byte array\<close>

text \<open>
  Both bitmap structs keep a window \<open>start..end\<close> of numbers, of 32 or 64 bits, over
  an array with room for \<open>start..real_end\<close>; bit \<open>n - start\<close> stands for \<open>n\<close>.
\<close>

definition in_window :: "'a::len word \<Rightarrow> 'a word \<Rightarrow> 'a word \<Rightarrow> bool" where
  "in_window s e n \<longleftrightarrow> s \<le> n \<and> n \<le> e"

definition window_set :: "'a::len word \<Rightarrow> 'a word \<Rightarrow> u8 list \<Rightarrow> 'a word set" where
  "window_set s e A = {n. in_window s e n \<and> bit_at A (unat (n - s))}"

definition window_ok :: "'a::len word \<Rightarrow> 'a word \<Rightarrow> 'a word \<Rightarrow> u8 list \<Rightarrow> bool" where
  "window_ok s e r A \<longleftrightarrow> s \<le> e \<and> e \<le> r \<and> unat (r - s) div 8 < length A"

definition extent_in :: "'a::len word \<Rightarrow> 'a word \<Rightarrow> 'a word \<Rightarrow> nat \<Rightarrow> bool" where
  "extent_in s e k n \<longleftrightarrow> 0 < n \<and> s \<le> k \<and> unat k + n \<le> unat e + 1"

definition extent_set :: "'a::len word \<Rightarrow> nat \<Rightarrow> 'a word set" where
  "extent_set k n = {x. unat k \<le> unat x \<and> unat x < unat k + n}"

lemma window_ok_length: "window_ok s e r A \<Longrightarrow> length B = length A \<Longrightarrow> window_ok s e r B"
  by (simp add: window_ok_def)

lemma window_index:
  assumes "window_ok s e r A" "in_window s e n"
  shows "unat (n - s) = unat n - unat s" "unat (n - s) div 8 < length A"
    "unat (n - s) \<le> unat (r - s)"
proof -
  show *: "unat (n - s) = unat n - unat s"
    using assms by (simp add: in_window_def unat_diff)
  show le: "unat (n - s) \<le> unat (r - s)"
    using assms * unat_diff [of s r]
    by (auto simp: window_ok_def in_window_def word_le_nat_alt)
  then show "unat (n - s) div 8 < length A"
    using assms(1) div_le_mono unfolding window_ok_def by (meson le_less_trans)
qed

lemma window_index_inj: "unat (m - s) = unat (n - s) \<longleftrightarrow> m = (n :: 'a::len word)"
  by (metis word_unat_eq_iff diff_eq_eq diff_add_cancel)

lemma window_put_bit:
  assumes "window_ok s e r A" "in_window s e n"
  shows "window_set s e (put_bit v (unat (n - s)) A) =
    (if v then insert n (window_set s e A) else window_set s e A - {n})"
  using window_index(2) [OF assms] assms(2) window_index_inj [of _ s n]
  by (auto simp: window_set_def)

lemma extent_index:
  assumes "extent_in s e k n" "i < n"
  shows "unat (k + of_nat i) = unat k + i" "in_window s e (k + of_nat i)"
proof -
  have n: "s \<le> k" "unat k + n \<le> unat e + 1" using assms by (auto simp: extent_in_def)
  show u: "unat (k + of_nat i) = unat k + i"
    using n assms(2) unsigned_less [of e, where ?'a = nat] by (intro unat_plus_of_nat) linarith
  show "in_window s e (k + of_nat i)"
    using n assms(2) u by (auto simp: in_window_def word_le_nat_alt)
qed

lemma extent_mem:
  assumes "extent_in s e k n"
  shows "x \<in> extent_set k n \<longleftrightarrow> (\<exists>i < n. x = k + of_nat i)"
proof
  assume "x \<in> extent_set k n"
  then obtain i where i: "i < n" "unat x = unat k + i"
    by (auto simp: extent_set_def) (metis add_less_cancel_left le_Suc_ex)
  then have "x = k + of_nat i"
    using extent_index(1) [OF assms i(1)] by (simp add: word_unat_eq_iff)
  then show "\<exists>i < n. x = k + of_nat i" using i by auto
next
  assume "\<exists>i < n. x = k + of_nat i"
  then show "x \<in> extent_set k n"
    using extent_index(1) [OF assms] by (auto simp: extent_set_def)
qed

text \<open>Writing a run of bits, for both values.\<close>

lemma window_write_run:
  assumes ok: "window_ok s e r A" and rng: "extent_in s e k n"
    and B: "B = foldl (\<lambda>A i. put_bit v (unat (k + of_nat i - s)) A) A [0..<n]"
  shows "length B = length A"
    "window_set s e B =
       (if v then window_set s e A \<union> extent_set k n else window_set s e A - extent_set k n)"
proof -
  let ?f = "\<lambda>i. unat (k + of_nat i - s)"
  have idx: "\<forall>i \<in> set [0..<n]. ?f i div 8 < length A"
    using window_index(2) [OF ok] extent_index(2) [OF rng] by auto
  have at: "bit_at B m = (if m \<in> ?f ` set [0..<n] then v else bit_at A m)" for m
    unfolding B by (rule bit_at_foldl_put_bit [OF idx])
  have mem: "unat (x - s) \<in> ?f ` set [0..<n] \<longleftrightarrow> x \<in> extent_set k n" for x
  proof -
    have "unat (x - s) \<in> ?f ` set [0..<n] \<longleftrightarrow> (\<exists>i < n. unat (x - s) = ?f i)" by auto
    then show ?thesis by (metis extent_mem [OF rng] window_index_inj)
  qed
  show "length B = length A" by (simp add: B)
  have at_mem: "bit_at B (unat (x - s)) = (if x \<in> extent_set k n then v else bit_at A (unat (x - s)))" for x
    by (simp only: at mem)
  have "x \<in> extent_set k n \<Longrightarrow> in_window s e x" for x
    using extent_index(2) [OF rng] by (auto simp: extent_mem [OF rng])
  then show "window_set s e B =
       (if v then window_set s e A \<union> extent_set k n else window_set s e A - extent_set k n)"
    using at_mem by (auto simp: window_set_def)
qed

lemma window_test_clear:
  assumes ok: "window_ok s e r A" and rng: "extent_in s e k n"
  shows "test_clear_bits A (unat (k - s)) n \<longleftrightarrow> window_set s e A \<inter> extent_set k n = {}"
proof -
  have n: "0 < n" "s \<le> k" using rng by (auto simp: extent_in_def)
  have st: "unat (k - s) + i = unat (k + of_nat i - s)" if "i < n" for i
    using window_index(1) [OF ok extent_index(2) [OF rng that]] extent_index(1) [OF rng that] n
    by (simp add: unat_diff word_le_nat_alt)
  have "(unat (k - s) + (n - 1)) div 8 < length A"
    using st [of "n - 1"] window_index(2) [OF ok extent_index(2) [OF rng, of "n - 1"]] n by simp
  then have "unat (k - s) + n \<le> 8 * length A"
    using n by (simp add: div_less_iff_less_mult mult.commute)
  then have "test_clear_bits A (unat (k - s)) n \<longleftrightarrow> (\<forall>i < n. \<not> bit_at A (unat (k - s) + i))"
    by (rule test_clear_bits_iff)
  also have "\<dots> \<longleftrightarrow> window_set s e A \<inter> extent_set k n = {}"
    using st extent_index(2) [OF rng] by (auto simp: extent_mem [OF rng] window_set_def disjoint_iff)
  finally show ?thesis .
qed

text \<open>Clearing all bytes of \<open>start..real_end\<close>.\<close>

lemma window_clear:
  assumes "window_ok s e r A"
  shows "window_set s e (memset_at A 0 0 (unat (r - s) div 8 + 1)) = {}"
    "length (memset_at A 0 0 (unat (r - s) div 8 + 1)) = length A"
proof -
  let ?n = "unat (r - s) div 8 + 1"
  have len: "?n \<le> length A" using assms by (simp add: window_ok_def)
  then show "length (memset_at A 0 0 ?n) = length A" by (simp add: memset_at_def)
  have "\<not> bit_at (memset_at A 0 0 ?n) (unat (n - s))" if "in_window s e n" for n
  proof -
    have "unat (n - s) div 8 \<le> unat (r - s) div 8"
      using window_index(3) [OF assms that] div_le_mono by blast
    then have "unat (n - s) div 8 < ?n" by simp
    then show ?thesis
      using len unfolding bit_at_def memset_at_def by (simp add: nth_append del: replicate.simps)
  qed
  then show "window_set s e (memset_at A 0 0 ?n) = {}" by (auto simp: window_set_def)
qed

text \<open>
  Resizing: the bits behind the old end are cleared up to the old or the new limit, the
  array changes length, new bytes are zero. When the unused bits behind \<open>real_end\<close> in the
  last byte are clear, the new contents are the old ones up to the new end.
\<close>

definition slack_clear :: "nat \<Rightarrow> u8 list \<Rightarrow> bool" where
  "slack_clear D A \<longleftrightarrow> (\<forall>k. D < k \<and> k div 8 = D div 8 \<longrightarrow> \<not> bit_at A k)"

lemma resize_bits:
  assumes A: "D div 8 < length A" "slack_clear D A" and d: "d \<le> D" and d': "d' \<le> D'"
    and B: "length B = length A"
      "\<And>k. bit_at B k \<longleftrightarrow> bit_at A k \<and> \<not> (d < k \<and> k \<le> min D d')"
    and C: "if D div 8 = D' div 8 then C = B
      else length C = D' div 8 + 1 \<and> (\<forall>i < min (length B) (length C). C ! i = B ! i)"
    and E: "E = (if D' div 8 > D div 8 then memset_at C (D div 8 + 1) 0 (D' div 8 - D div 8) else C)"
    and k: "k \<le> d'"
  shows "bit_at E k \<longleftrightarrow> k \<le> d \<and> bit_at A k" "D' div 8 < length E"
proof -
  have kd: "k div 8 \<le> D' div 8" using k d' div_le_mono le_trans by blast
  have old: "bit_at B k \<longleftrightarrow> k \<le> d \<and> bit_at A k" if "k div 8 \<le> D div 8"
  proof (cases "k \<le> D")
    case True
    then show ?thesis using B(2) [of k] k d by auto
  next
    case False
    then have "k div 8 = D div 8" using that div_le_mono by (metis le_antisym nat_le_linear)
    then have "\<not> bit_at A k" using A(2) False by (auto simp: slack_clear_def)
    then show ?thesis using B(2) [of k] by auto
  qed
  have "bit_at E k = (k \<le> d \<and> bit_at A k) \<and> D' div 8 < length E"
  proof (cases "D' div 8 > D div 8")
    case False
    then have E': "E = C" using E by simp
    then show ?thesis
      using C old kd A(1) B(1) False by (auto simp: bit_at_def split: if_splits)
  next
    case True
    then have len: "length C = D' div 8 + 1" and C': "\<forall>i < min (length B) (length C). C ! i = B ! i"
      using C by auto
    have E': "E = take (D div 8 + 1) C @ replicate (D' div 8 - D div 8) 0"
      using True len by (simp add: E memset_at_def)
    show ?thesis
    proof (cases "k div 8 \<le> D div 8")
      case le: True
      then have "E ! (k div 8) = B ! (k div 8)"
        using True len C' A(1) B(1) by (simp add: E' nth_append)
      then show ?thesis using old [OF le] True len by (simp add: bit_at_def E')
    next
      case gt: False
      then have "k div 8 - Suc (D div 8) < D' div 8 - D div 8" using kd by linarith
      then have "E ! (k div 8) = 0" using gt kd len True by (simp add: E' nth_append)
      moreover have "\<not> k \<le> d" using gt d div_le_mono le_trans by blast
      ultimately show ?thesis using True len by (simp add: bit_at_def E')
    qed
  qed
  then show "bit_at E k \<longleftrightarrow> k \<le> d \<and> bit_at A k" "D' div 8 < length E" by auto
qed

section \<open>The bitmap operations\<close>

text \<open>
  The contract of \<open>struct ext2_bitmap_ops\<close>: besides single bits, whole extents inside
  the range of the map are marked, unmarked and tested, and the map is cleared.
\<close>

locale bitmap_ops = block_set inv elems valid ins del mem
  for inv :: "'s \<Rightarrow> bool" and elems :: "'s \<Rightarrow> 'a::len word set" and valid
    and ins :: "'h \<Rightarrow> 'a word \<Rightarrow> 's \<Rightarrow> 's result" and del and mem +
  fixes mark_extent :: "'a word \<Rightarrow> nat \<Rightarrow> 's \<Rightarrow> 's"
    and unmark_extent :: "'a word \<Rightarrow> nat \<Rightarrow> 's \<Rightarrow> 's"
    and test_clear_extent :: "'a word \<Rightarrow> nat \<Rightarrow> 's \<Rightarrow> bool"
    and clear :: "'s \<Rightarrow> 's" and in_range :: "'s \<Rightarrow> 'a word \<Rightarrow> nat \<Rightarrow> bool"
  assumes mark_extent: "inv s \<Longrightarrow> in_range s k n \<Longrightarrow>
      inv (mark_extent k n s) \<and> elems (mark_extent k n s) = elems s \<union> extent_set k n \<and>
      in_range (mark_extent k n s) = in_range s"
    and unmark_extent: "inv s \<Longrightarrow> in_range s k n \<Longrightarrow>
      inv (unmark_extent k n s) \<and> elems (unmark_extent k n s) = elems s - extent_set k n \<and>
      in_range (unmark_extent k n s) = in_range s"
    and test_clear_extent: "inv s \<Longrightarrow> in_range s k n \<Longrightarrow>
      test_clear_extent k n s = (elems s \<inter> extent_set k n = {})"
    and clear: "inv s \<Longrightarrow> inv (clear s) \<and> elems (clear s) = {} \<and> in_range (clear s) = in_range s"
begin

lemma allocate_extent:
  assumes "inv s" "in_range s k n" "in_range s k' n'"
  shows "test_clear_extent k' n' (mark_extent k n s) \<longleftrightarrow>
    test_clear_extent k' n' s \<and> extent_set k n \<inter> extent_set k' n' = {}"
  using mark_extent [OF assms(1,2)] test_clear_extent [OF assms(1,3)]
    test_clear_extent [of "mark_extent k n s" k' n'] assms(3) by auto

lemma free_extent:
  assumes "inv s" "in_range s k n" "test_clear_extent k n s"
  shows "elems (unmark_extent k n (mark_extent k n s)) = elems s"
  using mark_extent [OF assms(1,2)] unmark_extent [of "mark_extent k n s" k n]
    test_clear_extent [OF assms(1,2)] assms by auto

lemma unmark_test:
  assumes "inv s" "in_range s k n"
  shows "test_clear_extent k n (unmark_extent k n s)"
  using unmark_extent [OF assms] test_clear_extent [of "unmark_extent k n s" k n] assms by auto

end

end
