(* ===== verification/Bitmap32.thy ===== *)
theory Bitmap32
  imports Bitmap_Bits
begin

text \<open>
  The 32-bit generic bitmaps of \<open>source/gen_bitmap.c\<close>, on the struct that carries one
  of the three 32-bit magic numbers. The bodies of the functions that dispatch on the magic
  are the \<open>\<dots>32\<close> definitions; the dispatch itself is in \<open>Bitmap64\<close>. The
  \<open>com_err\<close> warnings of the range checks write to stderr only and are not modelled.
\<close>

section \<open>State\<close>

record gen_bitmap32 =
  b32_magic :: errcode
  b32_fs :: "nat option"
  b32_start :: u32
  b32_end :: u32
  b32_real_end :: u32
  b32_description :: "string option"
  b32_bitmap :: "u8 list"
  b32_base_error_code :: errcode

definition EXT2FS_IS_32_BITMAP :: "errcode \<Rightarrow> bool" where
  "EXT2FS_IS_32_BITMAP magic \<longleftrightarrow>
     magic = EXT2_ET_MAGIC_GENERIC_BITMAP \<or> magic = EXT2_ET_MAGIC_BLOCK_BITMAP \<or>
     magic = EXT2_ET_MAGIC_INODE_BITMAP"

definition EXT2FS_IS_64_BITMAP :: "errcode \<Rightarrow> bool" where
  "EXT2FS_IS_64_BITMAP magic \<longleftrightarrow>
     magic = EXT2_ET_MAGIC_GENERIC_BITMAP64 \<or> magic = EXT2_ET_MAGIC_BLOCK_BITMAP64 \<or>
     magic = EXT2_ET_MAGIC_INODE_BITMAP64"

text \<open>\<open>None\<close> is the null pointer; the result 0 is \<open>None\<close>.\<close>

definition check_magic :: "gen_bitmap32 option \<Rightarrow> errcode option" where
  "check_magic bitmap =
     (case bitmap of
        None \<Rightarrow> Some EXT2_ET_MAGIC_GENERIC_BITMAP
      | Some b \<Rightarrow>
          if \<not> (b32_magic b = EXT2_ET_MAGIC_GENERIC_BITMAP \<or>
                b32_magic b = EXT2_ET_MAGIC_INODE_BITMAP \<or>
                b32_magic b = EXT2_ET_MAGIC_BLOCK_BITMAP)
          then Some EXT2_ET_MAGIC_GENERIC_BITMAP else None)"

section \<open>Creation, copy and release\<close>

definition alloc_bytes :: "u8 heap \<Rightarrow> nat \<Rightarrow> u8 list result" where
  "alloc_bytes h n = (case ext2fs_get_mem h n of Inl e \<Rightarrow> Inl e | Inr _ \<Rightarrow> Inr (map (fresh h) [0..<n]))"

definition bitmap_size32 :: "u32 \<Rightarrow> u32 \<Rightarrow> u32" where
  "bitmap_size32 start real_end = ((real_end - start) div 8 + 1 + 7) AND NOT 3"

text \<open>
  \<open>memcpy\<close> of \<open>size\<close> bytes from an initial map: what is read beyond the end of the
  source array is indeterminate, here what the fresh array held.
\<close>

definition ext2fs_make_generic_bitmap ::
  "u8 heap \<Rightarrow> errcode \<Rightarrow> nat option \<Rightarrow> u32 \<Rightarrow> u32 \<Rightarrow> u32 \<Rightarrow> string option \<Rightarrow> u8 list option \<Rightarrow>
     gen_bitmap32 result" where
  "ext2fs_make_generic_bitmap h magic fs start end1 real_end descr init_map =
     (case ext2fs_get_mem h 64 of
        Inl e \<Rightarrow> Inl e
      | Inr _ \<Rightarrow>
          (case (case descr of None \<Rightarrow> Inr ()
                 | Some d \<Rightarrow> ext2fs_get_mem h (length d + 1)) of
             Inl e \<Rightarrow> Inl e
           | Inr _ \<Rightarrow>
               let sz = unat (bitmap_size32 start real_end) in
               (case alloc_bytes h sz of
                  Inl e \<Rightarrow> Inl e
                | Inr arr \<Rightarrow>
                    Inr \<lparr>b32_magic = magic, b32_fs = fs, b32_start = start, b32_end = end1,
                         b32_real_end = real_end, b32_description = descr,
                         b32_bitmap = (case init_map of
                             Some im \<Rightarrow> memcpy arr im (min sz (length im))
                           | None \<Rightarrow> replicate sz 0),
                         b32_base_error_code =
                           (if magic = EXT2_ET_MAGIC_INODE_BITMAP then EXT2_ET_BAD_INODE_MARK
                            else if magic = EXT2_ET_MAGIC_BLOCK_BITMAP then EXT2_ET_BAD_BLOCK_MARK
                            else EXT2_ET_BAD_GENERIC_MARK)\<rparr>)))"

definition ext2fs_allocate_generic_bitmap ::
  "u8 heap \<Rightarrow> u32 \<Rightarrow> u32 \<Rightarrow> u32 \<Rightarrow> string option \<Rightarrow> gen_bitmap32 result" where
  "ext2fs_allocate_generic_bitmap h start end1 real_end descr =
     ext2fs_make_generic_bitmap h EXT2_ET_MAGIC_GENERIC_BITMAP None start end1 real_end descr None"

definition ext2fs_copy_generic_bitmap :: "u8 heap \<Rightarrow> gen_bitmap32 \<Rightarrow> gen_bitmap32 result" where
  "ext2fs_copy_generic_bitmap h src =
     ext2fs_make_generic_bitmap h (b32_magic src) (b32_fs src) (b32_start src) (b32_end src)
       (b32_real_end src) (b32_description src) (Some (b32_bitmap src))"

text \<open>The object after \<open>ext2fs_free_generic_bitmap\<close>, \<open>None\<close> once it is released.\<close>

definition ext2fs_free_generic_bitmap :: "gen_bitmap32 option \<Rightarrow> gen_bitmap32 option" where
  "ext2fs_free_generic_bitmap bitmap = (if check_magic bitmap \<noteq> None then bitmap else None)"

section \<open>Single bits\<close>

definition test_generic_bitmap32 :: "gen_bitmap32 \<Rightarrow> u32 \<Rightarrow> u8" where
  "test_generic_bitmap32 bitmap bitno =
     (if bitno < b32_start bitmap \<or> bitno > b32_end bitmap then 0
      else ext2fs_test_bit (bitno - b32_start bitmap) (b32_bitmap bitmap))"

definition mark_generic_bitmap32 :: "gen_bitmap32 \<Rightarrow> u32 \<Rightarrow> u8 \<times> gen_bitmap32" where
  "mark_generic_bitmap32 bitmap bitno =
     (if bitno < b32_start bitmap \<or> bitno > b32_end bitmap then (0, bitmap)
      else
        (case ext2fs_set_bit (bitno - b32_start bitmap) (b32_bitmap bitmap) of
           (r, A) \<Rightarrow> (r, bitmap\<lparr>b32_bitmap := A\<rparr>)))"

definition unmark_generic_bitmap32 :: "gen_bitmap32 \<Rightarrow> u32 \<Rightarrow> u8 \<times> gen_bitmap32" where
  "unmark_generic_bitmap32 bitmap bitno =
     (if bitno < b32_start bitmap \<or> bitno > b32_end bitmap then (0, bitmap)
      else
        (case ext2fs_clear_bit (bitno - b32_start bitmap) (b32_bitmap bitmap) of
           (r, A) \<Rightarrow> (r, bitmap\<lparr>b32_bitmap := A\<rparr>)))"

definition clear_generic_bitmap32 :: "gen_bitmap32 \<Rightarrow> gen_bitmap32" where
  "clear_generic_bitmap32 bitmap =
     bitmap\<lparr>b32_bitmap :=
       memset_at (b32_bitmap bitmap) 0 0
         (unat ((b32_real_end bitmap - b32_start bitmap) div 8 + 1))\<rparr>"

section \<open>End, size, comparison and padding\<close>

text \<open>Returns the old end with the new map; the error returns leave the map alone.\<close>

definition ext2fs_fudge_generic_bitmap_end ::
  "gen_bitmap32 \<Rightarrow> errcode \<Rightarrow> errcode \<Rightarrow> u32 \<Rightarrow> (u32 \<times> gen_bitmap32) result" where
  "ext2fs_fudge_generic_bitmap_end bitmap magic neq end1 =
     (if b32_magic bitmap \<noteq> magic then Inl magic
      else if end1 > b32_real_end bitmap then Inl neq
      else Inr (b32_end bitmap, bitmap\<lparr>b32_end := end1\<rparr>))"

text \<open>The loop \<open>for (; bitno > bmap->end; bitno--)\<close> of the resize functions.\<close>

function clear_down32 :: "u32 \<Rightarrow> u32 \<Rightarrow> u32 \<Rightarrow> u8 list \<Rightarrow> u8 list" where
  "clear_down32 bitno end1 start A =
     (if bitno > end1 then
        clear_down32 (bitno - 1) end1 start (snd (ext2fs_clear_bit (bitno - start) A))
      else A)"
  by pat_completeness auto
termination
proof (relation "measure (\<lambda>(bitno, end1, start, A). unat bitno)", goal_cases)
  case (2 bitno end1 start A)
  then have "bitno \<noteq> 0" by auto
  then show ?case by (simp add: measure_unat)
qed simp

definition ext2fs_resize_generic_bitmap ::
  "u8 heap \<Rightarrow> errcode \<Rightarrow> u32 \<Rightarrow> u32 \<Rightarrow> gen_bitmap32 option \<Rightarrow> gen_bitmap32 result" where
  "ext2fs_resize_generic_bitmap h magic new_end new_real_end bmap =
     (case bmap of
        None \<Rightarrow> Inl magic
      | Some bmap \<Rightarrow>
          if b32_magic bmap \<noteq> magic then Inl magic
          else
            let bmap =
              (if new_end > b32_end bmap then
                 bmap\<lparr>b32_bitmap :=
                   clear_down32 (if b32_real_end bmap > new_end then new_end else b32_real_end bmap)
                     (b32_end bmap) (b32_start bmap) (b32_bitmap bmap)\<rparr>
               else bmap)
            in
            if new_real_end = b32_real_end bmap then Inr (bmap\<lparr>b32_end := new_end\<rparr>)
            else
              let sz = unat ((b32_real_end bmap - b32_start bmap) div 8 + 1);
                  new_size = unat ((new_real_end - b32_start bmap) div 8 + 1)
              in
              (case (if sz \<noteq> new_size then ext2fs_resize_mem h new_size 1 (b32_bitmap bmap)
                     else Inr (b32_bitmap bmap)) of
                 Inl e \<Rightarrow> Inl e
               | Inr A \<Rightarrow>
                   Inr (bmap\<lparr>b32_bitmap :=
                               (if new_size > sz then memset_at A sz 0 (new_size - sz) else A),
                             b32_end := new_end, b32_real_end := new_real_end\<rparr>)))"

text \<open>
  The last loop of the comparison, \<open>for (\<dots>; i <= bm1->end; i++)\<close>: the counter wraps when
  the end is the largest block number, so that the loop need not stop. \<open>None\<close> is not
  returning.
\<close>

partial_function (option) compare_tail32 ::
  "gen_bitmap32 \<Rightarrow> gen_bitmap32 \<Rightarrow> u32 \<Rightarrow> bool option" where
  "compare_tail32 bm1 bm2 i =
     (if i \<le> b32_end bm1 then
        (if test_generic_bitmap32 bm1 i \<noteq> test_generic_bitmap32 bm2 i then Some False
         else compare_tail32 bm1 bm2 (i + 1))
      else Some True)"

declare compare_tail32.simps [code]

definition ext2fs_compare_generic_bitmap ::
  "errcode \<Rightarrow> errcode \<Rightarrow> gen_bitmap32 option \<Rightarrow> gen_bitmap32 option \<Rightarrow> unit result option" where
  "ext2fs_compare_generic_bitmap magic neq bm1 bm2 =
     (case bm1 of
        None \<Rightarrow> Some (Inl magic)
      | Some bm1 \<Rightarrow>
          if b32_magic bm1 \<noteq> magic then Some (Inl magic)
          else
            (case bm2 of
               None \<Rightarrow> Some (Inl magic)
             | Some bm2 \<Rightarrow>
                 if b32_magic bm2 \<noteq> magic then Some (Inl magic)
                 else
                   let n = unat (b32_end bm1 - b32_start bm1) div 8 in
                   if b32_start bm1 \<noteq> b32_start bm2 \<or> b32_end bm1 \<noteq> b32_end bm2 \<or>
                      take n (b32_bitmap bm1) \<noteq> take n (b32_bitmap bm2)
                   then Some (Inl neq)
                   else
                     map_option (\<lambda>same. if same then Inr () else Inl neq)
                       (compare_tail32 bm1 bm2
                          (b32_end bm1 - (b32_end bm1 - b32_start bm1) mod 8))))"

function pad_loop32 :: "u32 \<Rightarrow> u32 \<Rightarrow> gen_bitmap32 \<Rightarrow> gen_bitmap32" where
  "pad_loop32 i j bmap =
     (if i \<le> b32_real_end bmap \<and> i > b32_end bmap then
        pad_loop32 (i + 1) (j + 1)
          (bmap\<lparr>b32_bitmap := snd (ext2fs_set_bit j (b32_bitmap bmap))\<rparr>)
      else bmap)"
  by pat_completeness auto
termination
proof (relation "measure (\<lambda>(i, j, bmap). if i > b32_end bmap then 2 ^ 32 - unat i else 0)", goal_cases)
  case (2 i j bmap)
  show ?case
  proof (cases "i + 1 = 0")
    case True
    then show ?thesis using 2 unat_u32_bound [of i] by simp
  next
    case False
    then have "unat (i + 1) = unat i + 1" by (simp add: unat_plus_one)
    then show ?thesis using 2 unat_u32_bound [of i] by auto
  qed
qed simp

definition ext2fs_set_generic_bitmap_padding :: "gen_bitmap32 \<Rightarrow> gen_bitmap32" where
  "ext2fs_set_generic_bitmap_padding bmap =
     pad_loop32 (b32_end bmap + 1) (b32_end bmap + 1 - b32_start bmap) bmap"

section \<open>Ranges\<close>

definition ext2fs_get_generic_bitmap_range ::
  "gen_bitmap32 option \<Rightarrow> errcode \<Rightarrow> u32 \<Rightarrow> u32 \<Rightarrow> u8 list result" where
  "ext2fs_get_generic_bitmap_range bmap magic start num =
     (case bmap of
        None \<Rightarrow> Inl magic
      | Some b \<Rightarrow>
          if b32_magic b \<noteq> magic then Inl magic
          else if start < b32_start b \<or> start + num - 1 > b32_real_end b
          then Inl EXT2_ET_INVALID_ARGUMENT
          else Inr (take (unat (drop_bit 3 (num + 7))) (drop (unat (drop_bit 3 start)) (b32_bitmap b))))"

definition ext2fs_set_generic_bitmap_range ::
  "gen_bitmap32 option \<Rightarrow> errcode \<Rightarrow> u32 \<Rightarrow> u32 \<Rightarrow> u8 list \<Rightarrow> gen_bitmap32 result" where
  "ext2fs_set_generic_bitmap_range bmap magic start num inp =
     (case bmap of
        None \<Rightarrow> Inl magic
      | Some b \<Rightarrow>
          if b32_magic b \<noteq> magic then Inl magic
          else if start < b32_start b \<or> start + num - 1 > b32_real_end b
          then Inl EXT2_ET_INVALID_ARGUMENT
          else
            let off = unat (drop_bit 3 start); n = unat (drop_bit 3 (num + 7)) in
            Inr (b\<lparr>b32_bitmap := take off (b32_bitmap b) @ take n inp @ drop (off + n) (b32_bitmap b)\<rparr>))"

definition ext2fs_test_clear_generic_bitmap_range :: "gen_bitmap32 \<Rightarrow> u32 \<Rightarrow> u32 \<Rightarrow> bool" where
  "ext2fs_test_clear_generic_bitmap_range bitmap start len =
     test_clear_bits (b32_bitmap bitmap) (unat (start - b32_start bitmap)) (unat len)"

text \<open>
  \<open>num\<close> is a C \<open>int\<close>; in \<open>block+num-1\<close> it counts as its bit pattern. The magic
  check returns the non-zero error code through the \<open>int\<close> result.
\<close>

definition ext2fs_test_block_bitmap_range :: "gen_bitmap32 \<Rightarrow> u32 \<Rightarrow> u32 \<Rightarrow> bool result" where
  "ext2fs_test_block_bitmap_range bitmap block num =
     (if b32_magic bitmap \<noteq> EXT2_ET_MAGIC_BLOCK_BITMAP then Inl EXT2_ET_MAGIC_BLOCK_BITMAP
      else if block < b32_start bitmap \<or> block + num - 1 > b32_real_end bitmap then Inr False
      else Inr (ext2fs_test_clear_generic_bitmap_range bitmap block num))"

definition ext2fs_test_inode_bitmap_range :: "gen_bitmap32 \<Rightarrow> u32 \<Rightarrow> u32 \<Rightarrow> bool result" where
  "ext2fs_test_inode_bitmap_range bitmap inode num =
     (if b32_magic bitmap \<noteq> EXT2_ET_MAGIC_INODE_BITMAP then Inl EXT2_ET_MAGIC_INODE_BITMAP
      else if inode < b32_start bitmap \<or> inode + num - 1 > b32_real_end bitmap then Inr False
      else Inr (ext2fs_test_clear_generic_bitmap_range bitmap inode num))"

definition ext2fs_mark_block_bitmap_range :: "gen_bitmap32 \<Rightarrow> u32 \<Rightarrow> u32 \<Rightarrow> gen_bitmap32" where
  "ext2fs_mark_block_bitmap_range bitmap block num =
     (if block < b32_start bitmap \<or> block + num - 1 > b32_end bitmap then bitmap
      else bitmap\<lparr>b32_bitmap :=
        foldl (\<lambda>A i. ext2fs_fast_set_bit (block + of_nat i - b32_start bitmap) A)
          (b32_bitmap bitmap) [0..<nat (sint num)]\<rparr>)"

definition ext2fs_unmark_block_bitmap_range :: "gen_bitmap32 \<Rightarrow> u32 \<Rightarrow> u32 \<Rightarrow> gen_bitmap32" where
  "ext2fs_unmark_block_bitmap_range bitmap block num =
     (if block < b32_start bitmap \<or> block + num - 1 > b32_end bitmap then bitmap
      else bitmap\<lparr>b32_bitmap :=
        foldl (\<lambda>A i. ext2fs_fast_clear_bit (block + of_nat i - b32_start bitmap) A)
          (b32_bitmap bitmap) [0..<nat (sint num)]\<rparr>)"


section \<open>Invariant and contents\<close>

declare clear_down32.simps [simp del] pad_loop32.simps [simp del]

definition b32_inv :: "gen_bitmap32 \<Rightarrow> bool" where
  "b32_inv b \<longleftrightarrow> EXT2FS_IS_32_BITMAP (b32_magic b) \<and>
     window_ok (b32_start b) (b32_end b) (b32_real_end b) (b32_bitmap b)"

definition b32_valid :: "gen_bitmap32 \<Rightarrow> u32 \<Rightarrow> bool" where
  "b32_valid b = in_window (b32_start b) (b32_end b)"

definition b32_elems :: "gen_bitmap32 \<Rightarrow> u32 set" where
  "b32_elems b = window_set (b32_start b) (b32_end b) (b32_bitmap b)"

lemmas b32_defs = b32_inv_def b32_valid_def b32_elems_def

lemma b32_window: "b32_inv b \<Longrightarrow> window_ok (b32_start b) (b32_end b) (b32_real_end b) (b32_bitmap b)"
  by (simp add: b32_inv_def)

lemma b32_index:
  assumes "b32_inv b" "b32_valid b n"
  shows "unat (n - b32_start b) = unat n - unat (b32_start b)"
    "unat (n - b32_start b) div 8 < length (b32_bitmap b)"
  using window_index [OF b32_window] assms by (auto simp: b32_valid_def)

lemma test32_iff:
  "b32_inv b \<Longrightarrow> test_generic_bitmap32 b n \<noteq> 0 \<longleftrightarrow> n \<in> b32_elems b"
  by (auto simp: test_generic_bitmap32_def b32_defs window_set_def in_window_def not_less)

text \<open>Writing one bit, for both values.\<close>

lemma b32_put:
  assumes "b32_inv b" "b32_valid b n"
  shows "b32_inv (b\<lparr>b32_bitmap := put_bit v (unat (n - b32_start b)) (b32_bitmap b)\<rparr>)"
    "b32_elems (b\<lparr>b32_bitmap := put_bit v (unat (n - b32_start b)) (b32_bitmap b)\<rparr>) =
       (if v then insert n (b32_elems b) else b32_elems b - {n})"
  using assms window_put_bit [OF b32_window, of b n v]
  by (auto simp: b32_defs intro: window_ok_length)

lemma mark32:
  assumes "b32_inv b"
  shows "b32_inv (snd (mark_generic_bitmap32 b n))"
    "b32_elems (snd (mark_generic_bitmap32 b n)) =
       (if b32_valid b n then insert n (b32_elems b) else b32_elems b)"
    "b32_valid (snd (mark_generic_bitmap32 b n)) = b32_valid b"
    "fst (mark_generic_bitmap32 b n) \<noteq> 0 \<longleftrightarrow> n \<in> b32_elems b"
proof -
  have m: "snd (mark_generic_bitmap32 b n) =
    (if b32_valid b n
     then b\<lparr>b32_bitmap := put_bit True (unat (n - b32_start b)) (b32_bitmap b)\<rparr> else b)"
    by (auto simp: mark_generic_bitmap32_def b32_valid_def in_window_def not_less case_prod_beta)
  show "b32_inv (snd (mark_generic_bitmap32 b n))"
    "b32_elems (snd (mark_generic_bitmap32 b n)) =
       (if b32_valid b n then insert n (b32_elems b) else b32_elems b)"
    using assms b32_put [OF assms, of n True] by (simp_all add: m)
  show "b32_valid (snd (mark_generic_bitmap32 b n)) = b32_valid b"
    by (simp add: m b32_valid_def)
  show "fst (mark_generic_bitmap32 b n) \<noteq> 0 \<longleftrightarrow> n \<in> b32_elems b"
    using bit_fun_at(1) [of "n - b32_start b" "b32_bitmap b"]
    by (auto simp: mark_generic_bitmap32_def b32_defs window_set_def in_window_def not_less case_prod_beta)
qed

lemma unmark32:
  assumes "b32_inv b"
  shows "b32_inv (snd (unmark_generic_bitmap32 b n))"
    "b32_elems (snd (unmark_generic_bitmap32 b n)) = b32_elems b - {n}"
    "b32_valid (snd (unmark_generic_bitmap32 b n)) = b32_valid b"
    "fst (unmark_generic_bitmap32 b n) \<noteq> 0 \<longleftrightarrow> n \<in> b32_elems b"
proof -
  have m: "snd (unmark_generic_bitmap32 b n) =
    (if b32_valid b n
     then b\<lparr>b32_bitmap := put_bit False (unat (n - b32_start b)) (b32_bitmap b)\<rparr> else b)"
    by (auto simp: unmark_generic_bitmap32_def b32_valid_def in_window_def not_less case_prod_beta)
  show "b32_inv (snd (unmark_generic_bitmap32 b n))"
    using assms b32_put(1) [OF assms, of n False] by (simp add: m)
  show "b32_elems (snd (unmark_generic_bitmap32 b n)) = b32_elems b - {n}"
    using b32_put(2) [OF assms, of n False] by (auto simp: m b32_defs window_set_def)
  show "b32_valid (snd (unmark_generic_bitmap32 b n)) = b32_valid b"
    by (simp add: m b32_valid_def)
  show "fst (unmark_generic_bitmap32 b n) \<noteq> 0 \<longleftrightarrow> n \<in> b32_elems b"
    using bit_fun_at(3) [of "n - b32_start b" "b32_bitmap b"]
    by (auto simp: unmark_generic_bitmap32_def b32_defs window_set_def in_window_def not_less case_prod_beta)
qed

text \<open>Extents: the \<open>int\<close> count of the callers is positive.\<close>

definition b32_in_range :: "gen_bitmap32 \<Rightarrow> u32 \<Rightarrow> nat \<Rightarrow> bool" where
  "b32_in_range b k n \<longleftrightarrow> extent_in (b32_start b) (b32_end b) k n \<and> n < 2 ^ 31"

lemma b32_in_range_word:
  assumes "b32_in_range b k n"
  shows "nat (sint (of_nat n :: u32)) = n" "unat (of_nat n :: u32) = n"
    "\<not> (k < b32_start b \<or> k + of_nat n - 1 > b32_end b)"
proof -
  have n: "0 < n" "n < 2 ^ 31" "unat k + n \<le> unat (b32_end b) + 1" "b32_start b \<le> k"
    using assms by (auto simp: b32_in_range_def extent_in_def)
  show u: "unat (of_nat n :: u32) = n"
    using n by (intro unat_of_nat_small) simp
  have "sint (of_nat n :: u32) = int n"
    using n by (intro sint_of_nat_small) simp
  then show "nat (sint (of_nat n :: u32)) = n" by simp
  have "k + of_nat n - 1 = k + of_nat (n - 1)" using n by (simp add: of_nat_diff)
  moreover have "unat (k + of_nat (n - 1)) = unat k + (n - 1)"
    using n unat_u32_bound [of "b32_end b"] by (intro unat_plus_of_nat) simp
  ultimately have "unat (k + of_nat n - 1) = unat k + (n - 1)" by (simp only:)
  then show "\<not> (k < b32_start b \<or> k + of_nat n - 1 > b32_end b)"
    using n by (simp add: not_less word_le_nat_alt)
qed

lemma b32_write:
  assumes "b32_inv b" "b32_in_range b k n"
    and A: "A = foldl (\<lambda>A i. put_bit v (unat (k + of_nat i - b32_start b)) A) (b32_bitmap b) [0..<n]"
  shows "b32_inv (b\<lparr>b32_bitmap := A\<rparr>)"
    "b32_elems (b\<lparr>b32_bitmap := A\<rparr>) =
       (if v then b32_elems b \<union> extent_set k n else b32_elems b - extent_set k n)"
    "b32_in_range (b\<lparr>b32_bitmap := A\<rparr>) = b32_in_range b"
proof -
  have rng: "extent_in (b32_start b) (b32_end b) k n" using assms(2) by (simp add: b32_in_range_def)
  note w = window_write_run [OF b32_window [OF assms(1)] rng A]
  show "b32_inv (b\<lparr>b32_bitmap := A\<rparr>)"
    using assms(1) window_ok_length [OF b32_window [OF assms(1)] w(1)] by (simp add: b32_inv_def)
  show "b32_elems (b\<lparr>b32_bitmap := A\<rparr>) =
       (if v then b32_elems b \<union> extent_set k n else b32_elems b - extent_set k n)"
    using w(2) by (simp add: b32_elems_def)
  show "b32_in_range (b\<lparr>b32_bitmap := A\<rparr>) = b32_in_range b"
    by (auto simp: b32_in_range_def fun_eq_iff)
qed

lemma mark_range32:
  assumes "b32_inv b" "b32_in_range b k n"
  shows "b32_inv (ext2fs_mark_block_bitmap_range b k (of_nat n))"
    "b32_elems (ext2fs_mark_block_bitmap_range b k (of_nat n)) = b32_elems b \<union> extent_set k n"
    "b32_in_range (ext2fs_mark_block_bitmap_range b k (of_nat n)) = b32_in_range b"
  using b32_write [OF assms refl, of True] b32_in_range_word [OF assms(2)]
  unfolding ext2fs_mark_block_bitmap_range_def by simp_all

lemma unmark_range32:
  assumes "b32_inv b" "b32_in_range b k n"
  shows "b32_inv (ext2fs_unmark_block_bitmap_range b k (of_nat n))"
    "b32_elems (ext2fs_unmark_block_bitmap_range b k (of_nat n)) = b32_elems b - extent_set k n"
    "b32_in_range (ext2fs_unmark_block_bitmap_range b k (of_nat n)) = b32_in_range b"
  using b32_write [OF assms refl, of False] b32_in_range_word [OF assms(2)]
  unfolding ext2fs_unmark_block_bitmap_range_def by simp_all

lemma test_clear_range32:
  assumes "b32_inv b" "b32_in_range b k n"
  shows "ext2fs_test_clear_generic_bitmap_range b k (of_nat n) \<longleftrightarrow> b32_elems b \<inter> extent_set k n = {}"
  using window_test_clear [OF b32_window [OF assms(1)], of k n] assms(2)
  by (simp add: ext2fs_test_clear_generic_bitmap_range_def b32_in_range_word(2) [OF assms(2)]
      b32_elems_def b32_in_range_def)

lemma clear32:
  assumes "b32_inv b"
  shows "b32_inv (clear_generic_bitmap32 b)" "b32_elems (clear_generic_bitmap32 b) = {}"
    "b32_in_range (clear_generic_bitmap32 b) = b32_in_range b"
proof -
  have sz: "unat ((b32_real_end b - b32_start b) div 8 + 1) = unat (b32_real_end b - b32_start b) div 8 + 1"
    by (rule unat_div8_plus_one) simp
  note c = window_clear [OF b32_window [OF assms]]
  show "b32_inv (clear_generic_bitmap32 b)"
    using assms window_ok_length [OF b32_window [OF assms] c(2)]
    by (simp add: b32_inv_def clear_generic_bitmap32_def sz)
  show "b32_elems (clear_generic_bitmap32 b) = {}"
    using c(1) by (simp add: b32_elems_def clear_generic_bitmap32_def sz)
  show "b32_in_range (clear_generic_bitmap32 b) = b32_in_range b"
    by (auto simp: b32_in_range_def fun_eq_iff clear_generic_bitmap32_def)
qed

interpretation b32: bitmap_ops
  where inv = b32_inv and elems = b32_elems and valid = b32_valid
    and ins = "\<lambda>(h :: unit) n b. Inr (snd (mark_generic_bitmap32 b n))"
    and del = "\<lambda>n b. snd (unmark_generic_bitmap32 b n)"
    and mem = "\<lambda>b n. test_generic_bitmap32 b n \<noteq> 0"
    and mark_extent = "\<lambda>k n b. ext2fs_mark_block_bitmap_range b k (of_nat n)"
    and unmark_extent = "\<lambda>k n b. ext2fs_unmark_block_bitmap_range b k (of_nat n)"
    and test_clear_extent = "\<lambda>k n b. ext2fs_test_clear_generic_bitmap_range b k (of_nat n)"
    and clear = clear_generic_bitmap32 and in_range = b32_in_range
  by unfold_locales
    (auto simp: mark32 unmark32 test32_iff mark_range32 unmark_range32 test_clear_range32 clear32,
     auto simp: b32_defs window_set_def)


section \<open>Creation and copy\<close>

lemma unat_and_not3: "unat ((x :: u32) AND NOT 3) = unat x - unat x mod 4"
proof -
  have "x AND NOT 3 = push_bit 2 (drop_bit 2 x)"
  proof (rule bit_word_eqI)
    fix n
    have "bit (3 :: u32) n \<longleftrightarrow> n < 2"
    proof -
      have eq: "(3 :: u32) = mask 2" by (simp add: mask_eq_exp_minus_1)
      show ?thesis unfolding eq bit_mask_iff by auto
    qed
    moreover assume "n < LENGTH(32)"
    ultimately show "bit (x AND NOT 3) n \<longleftrightarrow> bit (push_bit 2 (drop_bit 2 x)) n"
      unfolding bit_and_iff bit_not_iff bit_push_bit_iff bit_drop_bit_eq comp_def
      by (cases "n < 2") (auto simp: not_less simp del: Suc_diff_le simp flip: One_nat_def dest!: le_Suc_ex)
  qed
  moreover have "push_bit 2 (drop_bit 2 x) + take_bit 2 x = x" by (rule bits_ident)
  ultimately have e: "x AND NOT 3 = x - take_bit 2 x" by (simp add: eq_diff_eq)
  have t: "unat (take_bit 2 x) = unat x mod 4"
  proof -
    have "unat (take_bit 2 x) = take_bit 2 (unat x)" by (rule unsigned_take_bit_eq)
    then show ?thesis by (simp only: take_bit_eq_mod) simp
  qed
  have "take_bit 2 x \<le> x" by (simp add: word_le_nat_alt t)
  then show ?thesis unfolding e by (simp only: unat_diff t)
qed

lemma bitmap_size32_bounds:
  "unat (real_end - start) div 8 < unat (bitmap_size32 start real_end)"
proof -
  let ?d = "real_end - start"
  have "?d div 8 + 1 + 7 = ?d div 8 + of_nat 8" by simp
  moreover have "unat (?d div 8) = unat ?d div 8" by (simp add: unat_div_distrib)
  moreover have "unat (?d div 8) + 8 < 2 ^ LENGTH(32)"
    using unat_u32_bound [of ?d] by (simp add: unat_div_distrib)
  ultimately have "unat (?d div 8 + 1 + 7) = unat ?d div 8 + 8"
    using unat_plus_of_nat [of "?d div 8" 8] by (simp only:)
  moreover have "(unat ?d div 8 + 8) mod 4 < 4" by simp
  ultimately show ?thesis by (simp only: bitmap_size32_def unat_and_not3)
qed

lemma make_generic_bitmap_Inr:
  assumes "ext2fs_make_generic_bitmap h magic fs start end1 real_end descr im = Inr b"
  shows "b32_magic b = magic" "b32_start b = start" "b32_end b = end1" "b32_real_end b = real_end"
    "length (b32_bitmap b) = unat (bitmap_size32 start real_end)"
    "b32_description b = descr" "b32_fs b = fs"
    "im = None \<Longrightarrow> b32_bitmap b = replicate (unat (bitmap_size32 start real_end)) 0"
    "im = Some A \<Longrightarrow> i < length A \<Longrightarrow> i < length (b32_bitmap b) \<Longrightarrow> b32_bitmap b ! i = A ! i"
  using assms
  by (auto simp: ext2fs_make_generic_bitmap_def alloc_bytes_def Let_def memcpy_def nth_append
      split: sum.splits option.splits)

lemma make_generic_bitmap_inv:
  assumes "ext2fs_make_generic_bitmap h magic fs start end1 real_end descr im = Inr b"
    and "EXT2FS_IS_32_BITMAP magic" "start \<le> end1" "end1 \<le> real_end"
  shows "b32_inv b"
  using make_generic_bitmap_Inr [OF assms(1)] assms(2-) bitmap_size32_bounds
  by (simp add: b32_inv_def window_ok_def)

lemma make_generic_bitmap_empty:
  assumes "ext2fs_make_generic_bitmap h magic fs start end1 real_end descr None = Inr b"
    and "EXT2FS_IS_32_BITMAP magic" "start \<le> end1" "end1 \<le> real_end"
  shows "b32_elems b = {}"
proof -
  have inv: "b32_inv b" by (rule make_generic_bitmap_inv [OF assms])
  have "\<not> bit_at (b32_bitmap b) (unat (n - b32_start b))" if "b32_valid b n" for n
    using b32_index(2) [OF inv that] make_generic_bitmap_Inr(8) [OF assms(1)]
    by (simp add: bit_at_def)
  then show ?thesis by (auto simp: b32_elems_def window_set_def b32_valid_def)
qed

lemma copy_generic_bitmap:
  assumes "b32_inv src" "ext2fs_copy_generic_bitmap h src = Inr b"
  shows "b32_inv b" "b32_elems b = b32_elems src" "b32_valid b = b32_valid src"
proof -
  have m: "ext2fs_make_generic_bitmap h (b32_magic src) (b32_fs src) (b32_start src) (b32_end src)
      (b32_real_end src) (b32_description src) (Some (b32_bitmap src)) = Inr b"
    using assms(2) by (simp add: ext2fs_copy_generic_bitmap_def)
  note f = make_generic_bitmap_Inr [OF m]
  show inv: "b32_inv b"
    using make_generic_bitmap_inv [OF m] assms(1) by (simp add: b32_inv_def window_ok_def)
  show v: "b32_valid b = b32_valid src" by (auto simp: b32_valid_def in_window_def f fun_eq_iff)
  have "bit_at (b32_bitmap b) (unat (n - b32_start b)) =
    bit_at (b32_bitmap src) (unat (n - b32_start src))" if "b32_valid b n" for n
    using b32_index(2) [OF inv that] b32_index(2) [OF assms(1), of n] that
      f(9) [OF refl, of "unat (n - b32_start b) div 8"]
    by (simp add: bit_at_def v f(2))
  then show "b32_elems b = b32_elems src"
    using v by (auto simp: b32_elems_def window_set_def b32_valid_def)
qed

section \<open>Comparison\<close>

lemma compare_tail32_correct:
  assumes "b32_end b1 \<noteq> -1"
  shows "compare_tail32 b1 b2 i =
    Some (\<forall>j. i \<le> j \<and> j \<le> b32_end b1 \<longrightarrow> test_generic_bitmap32 b1 j = test_generic_bitmap32 b2 j)"
proof (induction "unat (b32_end b1) + 1 - unat i" arbitrary: i rule: less_induct)
  case less
  show ?case
  proof (cases "i \<le> b32_end b1")
    case False
    then have "\<not> (i \<le> j \<and> j \<le> b32_end b1)" for j by auto
    then show ?thesis using False by (subst compare_tail32.simps) auto
  next
    case True
    have "i \<noteq> -1" using True assms by (metis word_order.extremum_unique)
    then have "i + 1 \<noteq> 0" by (metis add_eq_0_iff2 add.inverse_inverse minus_equation_iff)
    then have u: "unat (i + 1) = Suc (unat i)" by (rule unat_plus_one)
    then have step: "i \<le> j \<longleftrightarrow> j = i \<or> i + 1 \<le> j" for j
      by (auto simp: word_le_nat_alt word_unat_eq_iff)
    have lt: "unat (b32_end b1) + 1 - unat (i + 1) < unat (b32_end b1) + 1 - unat i"
      using True u by (simp add: word_le_nat_alt)
    show ?thesis
      using True less.hyps [OF lt] by (subst compare_tail32.simps) (auto simp: step)
  qed
qed

lemma test32_eq_iff:
  "b32_start b1 = b32_start b2 \<Longrightarrow> b32_end b1 = b32_end b2 \<Longrightarrow>
     test_generic_bitmap32 b1 j = test_generic_bitmap32 b2 j \<longleftrightarrow>
     (b32_valid b1 j \<longrightarrow> bit_at (b32_bitmap b1) (unat (j - b32_start b1)) =
                          bit_at (b32_bitmap b2) (unat (j - b32_start b1)))"
  by (auto simp: test_generic_bitmap32_def b32_valid_def in_window_def test_bit_eq_iff not_less)

lemma take_eq_bits:
  assumes "n \<le> length A" "n \<le> length B"
  shows "take n A = take n B \<longleftrightarrow> (\<forall>k < 8 * n. bit_at A k = bit_at B k)"
proof
  assume e: "take n A = take n B"
  show "\<forall>k < 8 * n. bit_at A k = bit_at B k"
  proof (intro allI impI)
    fix k assume "k < 8 * n"
    then have "k div 8 < n" by (simp add: less_mult_imp_div_less mult.commute)
    then have "A ! (k div 8) = B ! (k div 8)" using e by (metis nth_take)
    then show "bit_at A k = bit_at B k" by (simp add: bit_at_def)
  qed
next
  assume b: "\<forall>k < 8 * n. bit_at A k = bit_at B k"
  have at: "bit_at (take n X) k = bit_at X k" if "k < 8 * n" for X k
    using that by (simp add: bit_at_def less_mult_imp_div_less mult.commute)
  show "take n A = take n B"
    using assms b at by (intro bit_at_ext) auto
qed

lemma compare32:
  assumes inv: "b32_inv b1" "b32_inv b2" and m: "b32_magic b1 = magic" "b32_magic b2 = magic"
    and fin: "b32_end b1 \<noteq> -1"
  shows "ext2fs_compare_generic_bitmap magic neq (Some b1) (Some b2) =
    Some (if b32_start b1 = b32_start b2 \<and> b32_end b1 = b32_end b2 \<and>
             b32_elems b1 = b32_elems b2 then Inr () else Inl neq)"
proof (cases "b32_start b1 = b32_start b2 \<and> b32_end b1 = b32_end b2")
  case False
  then show ?thesis using m by (auto simp: ext2fs_compare_generic_bitmap_def Let_def)
next
  case True
  define s e where "s = b32_start b1" and "e = b32_end b1"
  define D where "D = unat (e - s)"
  define n where "n = D div 8"
  let ?P = "\<lambda>k. bit_at (b32_bitmap b1) k = bit_at (b32_bitmap b2) k"
  have se: "b32_start b1 = s" "b32_start b2 = s" "b32_end b1 = e" "b32_end b2 = e" "s \<le> e"
    using True inv(1) by (auto simp: s_def e_def b32_inv_def window_ok_def)
  have D: "D = unat e - unat s" "unat s + D = unat e"
    using se(5) by (auto simp: D_def unat_diff word_le_nat_alt)
  have idx: "unat (j - s) = unat j - unat s" if "s \<le> j" for j using that by (rule unat_diff)
  have "b32_valid b1 e" "b32_valid b2 e" using se by (auto simp: b32_valid_def in_window_def)
  then have "n < length (b32_bitmap b1)" "n < length (b32_bitmap b2)"
    using b32_index(2) [OF inv(1), of e] b32_index(2) [OF inv(2), of e] by (auto simp: n_def D_def se)
  then have pre: "take n (b32_bitmap b1) = take n (b32_bitmap b2) \<longleftrightarrow> (\<forall>k < 8 * n. ?P k)"
    by (intro take_eq_bits) auto
  define i where "i = e - (e - s) mod 8"
  have mod8: "unat ((e - s) mod 8) = D mod 8" by (simp add: D_def unat_mod_distrib)
  have i: "unat i = unat s + 8 * n"
  proof -
    have "(e - s) mod 8 \<le> e" using mod8 D by (simp add: word_le_nat_alt)
    then have "unat i = unat e - D mod 8" using mod8 by (simp add: i_def unat_diff)
    then show ?thesis using D by (simp add: n_def) (metis add_diff_assoc mod_less_eq_dividend minus_mod_eq_mult_div)
  qed
  have word_of: "\<exists>j. unat j = unat s + k \<and> s \<le> j \<and> j \<le> e" if "k \<le> D" for k
    using that D unat_u32_bound [of e]
    by (intro exI [of _ "s + of_nat k"]) (simp add: unat_plus_of_nat word_le_nat_alt)
  have tail: "compare_tail32 b1 b2 i = Some (\<forall>k. 8 * n \<le> k \<and> k \<le> D \<longrightarrow> ?P k)"
  proof -
    have "(\<forall>j. i \<le> j \<and> j \<le> e \<longrightarrow> test_generic_bitmap32 b1 j = test_generic_bitmap32 b2 j) \<longleftrightarrow>
      (\<forall>k. 8 * n \<le> k \<and> k \<le> D \<longrightarrow> ?P k)" (is "?L \<longleftrightarrow> ?R")
    proof
      assume L: ?L
      show ?R
      proof (intro allI impI)
        fix k assume k: "8 * n \<le> k \<and> k \<le> D"
        then obtain j where j: "unat j = unat s + k" "s \<le> j" "j \<le> e" using word_of by blast
        then have "i \<le> j" using k i by (simp add: word_le_nat_alt)
        then show "?P k"
          using L j test32_eq_iff [of b1 b2 j] se idx [OF j(2)] by (simp add: b32_valid_def in_window_def)
      qed
    next
      assume R: ?R
      show ?L
      proof (intro allI impI)
        fix j assume j: "i \<le> j \<and> j \<le> e"
        then have "s \<le> j" "8 * n \<le> unat j - unat s" "unat j - unat s \<le> D"
          using i D by (auto simp: word_le_nat_alt)
        then show "test_generic_bitmap32 b1 j = test_generic_bitmap32 b2 j"
          using R test32_eq_iff [of b1 b2 j] se idx [of j] by (simp add: b32_valid_def in_window_def)
      qed
    qed
    then show ?thesis
      using compare_tail32_correct [OF fin, of b2 i] by (simp add: se)
  qed
  have all: "b32_elems b1 = b32_elems b2 \<longleftrightarrow> (\<forall>k \<le> D. ?P k)"
  proof
    assume eq: "b32_elems b1 = b32_elems b2"
    show "\<forall>k \<le> D. ?P k"
    proof (intro allI impI)
      fix k assume "k \<le> D"
      then obtain j where j: "unat j = unat s + k" "s \<le> j" "j \<le> e" using word_of by blast
      have "j \<in> b32_elems b1 \<longleftrightarrow> j \<in> b32_elems b2" by (simp add: eq)
      then show "?P k" using j idx [OF j(2)] by (simp add: b32_elems_def window_set_def b32_valid_def in_window_def se)
    qed
  next
    assume "\<forall>k \<le> D. ?P k"
    then show "b32_elems b1 = b32_elems b2"
      using idx D by (auto simp: b32_elems_def window_set_def b32_valid_def in_window_def se word_le_nat_alt)
  qed
  have split: "(\<forall>k \<le> D. ?P k) \<longleftrightarrow> (\<forall>k < 8 * n. ?P k) \<and> (\<forall>k. 8 * n \<le> k \<and> k \<le> D \<longrightarrow> ?P k)"
  proof -
    have "8 * n \<le> D" by (simp add: n_def)
    then show ?thesis by (meson le_less_linear less_le_trans less_imp_le)
  qed
  have "unat (b32_end b1 - b32_start b1) div 8 = n" by (simp add: se n_def D_def)
  then show ?thesis
    using m True pre tail all split
    by (simp add: ext2fs_compare_generic_bitmap_def Let_def se i_def [symmetric])
qed

section \<open>Padding\<close>

lemma pad_loop32_bits:
  assumes "b32_start b \<le> b32_end b" "b32_end b < i" "unat (b32_real_end b - b32_start b) div 8 < length (b32_bitmap b)"
    and "b32_end b \<le> b32_real_end b"
  shows "\<exists>A. pad_loop32 i (i - b32_start b) b = b\<lparr>b32_bitmap := A\<rparr> \<and> length A = length (b32_bitmap b) \<and>
    (\<forall>k. bit_at A k \<longleftrightarrow> bit_at (b32_bitmap b) k \<or>
       (unat i - unat (b32_start b) \<le> k \<and> k \<le> unat (b32_real_end b) - unat (b32_start b)))"
  using assms
proof (induction "2 ^ 32 - unat i" arbitrary: i b rule: less_induct)
  case less
  note st = less.prems
  have si: "b32_start b \<le> i" using st by auto
  show ?case
  proof (cases "i \<le> b32_real_end b")
    case False
    then have p: "pad_loop32 i (i - b32_start b) b = b" by (subst pad_loop32.simps) auto
    have "\<not> (unat i - unat (b32_start b) \<le> k \<and> k \<le> unat (b32_real_end b) - unat (b32_start b))" for k
      using False si st(1,4) by (auto simp: word_le_nat_alt)
    then show ?thesis by (intro exI [of _ "b32_bitmap b"]) (auto simp: p)
  next
    case True
    define b' where "b' = b\<lparr>b32_bitmap := put_bit True (unat (i - b32_start b)) (b32_bitmap b)\<rparr>"
    have ix: "unat (i - b32_start b) = unat i - unat (b32_start b)" using si by (rule unat_diff)
    have "unat (i - b32_start b) \<le> unat (b32_real_end b - b32_start b)"
      using True si st by (simp add: unat_diff word_le_nat_alt)
    then have len: "unat (i - b32_start b) div 8 < length (b32_bitmap b)"
      using st(3) div_le_mono by (meson le_less_trans)
    have p: "pad_loop32 i (i - b32_start b) b = pad_loop32 (i + 1) (i + 1 - b32_start b) b'"
      using True st(2) by (subst pad_loop32.simps) (simp add: b'_def algebra_simps)
    have at: "bit_at (b32_bitmap b') k \<longleftrightarrow> k = unat i - unat (b32_start b) \<or> bit_at (b32_bitmap b) k" for k
      using len by (simp add: b'_def ix)
    show ?thesis
    proof (cases "i + 1 = 0")
      case wrap: True
      then have "i = -1" by (simp add: eq_neg_iff_add_eq_0)
      then have "b32_real_end b = i" using True by (metis word_order.extremum_unique)
      moreover have "pad_loop32 (i + 1) (i + 1 - b32_start b) b' = b'"
        unfolding wrap by (subst pad_loop32.simps) simp
      ultimately have e: "b32_real_end b = i" "pad_loop32 (i + 1) (i + 1 - b32_start b) b' = b'"
        by blast+
      show ?thesis
      proof (intro exI [of _ "b32_bitmap b'"] conjI allI)
        show "pad_loop32 i (i - b32_start b) b = b\<lparr>b32_bitmap := b32_bitmap b'\<rparr>"
          unfolding p e(2) by (simp add: b'_def)
        show "length (b32_bitmap b') = length (b32_bitmap b)" by (simp add: b'_def)
        show "bit_at (b32_bitmap b') k \<longleftrightarrow> bit_at (b32_bitmap b) k \<or>
          (unat i - unat (b32_start b) \<le> k \<and> k \<le> unat (b32_real_end b) - unat (b32_start b))" for k
          unfolding at e(1) by (metis order_antisym order_refl)
      qed
    next
      case False
      then have u: "unat (i + 1) = Suc (unat i)" by (rule unat_plus_one)
      have "2 ^ 32 - unat (i + 1) < 2 ^ 32 - unat i" using u unat_u32_bound [of i] by simp
      moreover have "b32_start b' \<le> b32_end b'" "b32_end b' < i + 1" "b32_end b' \<le> b32_real_end b'"
        "unat (b32_real_end b' - b32_start b') div 8 < length (b32_bitmap b')"
        using st u by (simp_all add: b'_def word_less_nat_alt)
      ultimately obtain A where
        A: "pad_loop32 (i + 1) (i + 1 - b32_start b') b' = b'\<lparr>b32_bitmap := A\<rparr>"
          "length A = length (b32_bitmap b')"
          "\<forall>k. bit_at A k \<longleftrightarrow> bit_at (b32_bitmap b') k \<or>
            (unat (i + 1) - unat (b32_start b') \<le> k \<and> k \<le> unat (b32_real_end b') - unat (b32_start b'))"
        using less.hyps [of "i + 1" b'] by blast
      have "unat (b32_start b) \<le> unat i" "unat i \<le> unat (b32_real_end b)"
        using si True by (auto simp: word_le_nat_alt)
      then have rng: "(unat (i + 1) - unat (b32_start b) \<le> k \<or> k = unat i - unat (b32_start b)) \<longleftrightarrow>
          unat i - unat (b32_start b) \<le> k"
        and at_end: "unat i - unat (b32_start b) \<le> unat (b32_real_end b) - unat (b32_start b)" for k
        using u by auto
      show ?thesis
      proof (intro exI [of _ A] conjI allI)
        show "pad_loop32 i (i - b32_start b) b = b\<lparr>b32_bitmap := A\<rparr>"
          using A(1) by (simp add: p b'_def)
        show "length A = length (b32_bitmap b)" using A(2) by (simp add: b'_def)
        show "bit_at A k \<longleftrightarrow> bit_at (b32_bitmap b) k \<or>
          (unat i - unat (b32_start b) \<le> k \<and> k \<le> unat (b32_real_end b) - unat (b32_start b))" for k
        proof -
          have "bit_at A k \<longleftrightarrow> (k = unat i - unat (b32_start b) \<or> bit_at (b32_bitmap b) k) \<or>
            (unat (i + 1) - unat (b32_start b) \<le> k \<and> k \<le> unat (b32_real_end b) - unat (b32_start b))"
            using A(3) at by (simp add: b'_def)
          then show ?thesis using rng [of k] at_end by blast
        qed
      qed
    qed
  qed
qed

text \<open>The padding marks the bits behind the end and leaves the contents alone.\<close>

lemma padding32:
  assumes inv: "b32_inv b"
  shows "b32_inv (ext2fs_set_generic_bitmap_padding b)"
    "b32_elems (ext2fs_set_generic_bitmap_padding b) = b32_elems b"
    "unat (b32_end b - b32_start b) < k \<Longrightarrow> k \<le> unat (b32_real_end b - b32_start b) \<Longrightarrow>
       bit_at (b32_bitmap (ext2fs_set_generic_bitmap_padding b)) k"
proof -
  have se: "b32_start b \<le> b32_end b" "b32_end b \<le> b32_real_end b"
    using inv by (auto simp: b32_inv_def window_ok_def)
  obtain A where A: "ext2fs_set_generic_bitmap_padding b = b\<lparr>b32_bitmap := A\<rparr>"
      "length A = length (b32_bitmap b)"
      "\<forall>k. bit_at A k \<longleftrightarrow> bit_at (b32_bitmap b) k \<or>
        (unat (b32_end b - b32_start b) < k \<and> k \<le> unat (b32_real_end b - b32_start b))"
  proof (cases "b32_end b + 1 = 0")
    case True
    then have "b32_end b = -1" by (simp add: eq_neg_iff_add_eq_0)
    then have "b32_real_end b = b32_end b" using se(2) by (metis word_order.extremum_unique)
    moreover have "ext2fs_set_generic_bitmap_padding b = b"
      unfolding ext2fs_set_generic_bitmap_padding_def True by (subst pad_loop32.simps) simp
    ultimately show ?thesis by (intro that [of "b32_bitmap b"]) auto
  next
    case False
    then have u: "unat (b32_end b + 1) = Suc (unat (b32_end b))" by (rule unat_plus_one)
    have d: "unat (b32_end b - b32_start b) = unat (b32_end b) - unat (b32_start b)"
      "unat (b32_real_end b - b32_start b) = unat (b32_real_end b) - unat (b32_start b)"
      using se by (auto intro!: unat_diff)
    have ge: "unat (b32_start b) \<le> unat (b32_end b)" using se by (simp add: word_le_nat_alt)
    have "b32_end b < b32_end b + 1" by (simp add: word_less_nat_alt u)
    from pad_loop32_bits [OF se(1) this _ se(2)] inv obtain A where
      "pad_loop32 (b32_end b + 1) (b32_end b + 1 - b32_start b) b = b\<lparr>b32_bitmap := A\<rparr>"
      "length A = length (b32_bitmap b)"
      "\<forall>k. bit_at A k \<longleftrightarrow> bit_at (b32_bitmap b) k \<or>
        (unat (b32_end b + 1) - unat (b32_start b) \<le> k \<and> k \<le> unat (b32_real_end b) - unat (b32_start b))"
      by (auto simp: b32_inv_def window_ok_def)
    moreover have "(unat (b32_end b + 1) - unat (b32_start b) \<le> k \<and> k \<le> unat (b32_real_end b) - unat (b32_start b))
      \<longleftrightarrow> (unat (b32_end b - b32_start b) < k \<and> k \<le> unat (b32_real_end b - b32_start b))" for k
      unfolding d u using ge by linarith
    ultimately show ?thesis
      by (intro that [of A]) (simp_all only: ext2fs_set_generic_bitmap_padding_def simp_thms)
  qed
  have "bit_at A (unat (n - b32_start b)) = bit_at (b32_bitmap b) (unat (n - b32_start b))"
    if "b32_valid b n" for n
  proof -
    have "unat (n - b32_start b) \<le> unat (b32_end b - b32_start b)"
      using that se(1) unfolding b32_valid_def in_window_def by (simp add: unat_diff) (simp add: word_le_nat_alt diff_le_mono)
    then show ?thesis using A(3) by auto
  qed
  then show "b32_elems (ext2fs_set_generic_bitmap_padding b) = b32_elems b"
    by (auto simp: A(1) b32_elems_def window_set_def b32_valid_def in_window_def)
  show "b32_inv (ext2fs_set_generic_bitmap_padding b)"
    using inv by (simp add: A(1,2) b32_inv_def window_ok_def)
  show "unat (b32_end b - b32_start b) < k \<Longrightarrow> k \<le> unat (b32_real_end b - b32_start b) \<Longrightarrow>
       bit_at (b32_bitmap (ext2fs_set_generic_bitmap_padding b)) k"
    using A(3) by (simp add: A(1))
qed

text \<open>A map that ends at the largest block number and equals the other one: no return.\<close>

lemma compare_tail32_diverges:
  assumes "b32_end b1 = -1"
    and "\<forall>j. test_generic_bitmap32 b1 j = test_generic_bitmap32 b2 j"
  shows "compare_tail32 b1 b2 i = None"
proof (rule ccontr)
  assume "compare_tail32 b1 b2 i \<noteq> None"
  then obtain y where "compare_tail32 b1 b2 i = Some y" by auto
  moreover have "b32_end b1 = -1 \<and> (\<forall>j. test_generic_bitmap32 b1 j = test_generic_bitmap32 b2 j) \<longrightarrow> False"
    if "compare_tail32 b1 b2 i = Some y" for y
  proof (rule compare_tail32.raw_induct [OF _ that, where P = "\<lambda>bm1 bm2 i y. b32_end bm1 = -1 \<and>
      (\<forall>j. test_generic_bitmap32 bm1 j = test_generic_bitmap32 bm2 j) \<longrightarrow> False"], intro impI)
    fix f bm1 bm2 k z
    assume IH: "\<And>bm1 bm2 k z. f bm1 bm2 k = Some z \<Longrightarrow> b32_end bm1 = -1 \<and>
        (\<forall>j. test_generic_bitmap32 bm1 j = test_generic_bitmap32 bm2 j) \<longrightarrow> False"
      and step: "(if k \<le> b32_end bm1
        then if test_generic_bitmap32 bm1 k \<noteq> test_generic_bitmap32 bm2 k then Some False
          else f bm1 bm2 (k + 1)
        else Some True) = Some z"
      and a: "b32_end bm1 = -1 \<and> (\<forall>j. test_generic_bitmap32 bm1 j = test_generic_bitmap32 bm2 j)"
    have "f bm1 bm2 (k + 1) = Some z" using step a by simp
    then show False using IH a by blast
  qed
  ultimately show False using assms by blast
qed

section \<open>Properties\<close>

definition b32_sample :: gen_bitmap32 where
  "b32_sample = \<lparr>b32_magic = EXT2_ET_MAGIC_BLOCK_BITMAP, b32_fs = None, b32_start = 1, b32_end = 20,
     b32_real_end = 24, b32_description = None, b32_bitmap = [5, 0, 8, 0],
     b32_base_error_code = EXT2_ET_BAD_BLOCK_MARK\<rparr>"

lemma b32_sample_inv: "b32_inv b32_sample"
  by (simp add: b32_inv_def window_ok_def b32_sample_def EXT2FS_IS_32_BITMAP_def)

text \<open>
  C7. A fresh 32-bit bitmap is empty, and after any sequence of marks and unmarks, in range or
  not, the test of a number answers exactly whether it is in the abstract set: the sequence
  never fails, numbers outside \<open>start..end\<close> are ignored.
\<close>

theorem bitmap32_run_refines_set:
  fixes ops :: "(unit, u32) set_op list"
  assumes "ext2fs_make_generic_bitmap h magic fs start end1 real_end descr None = Inr b0"
    and "EXT2FS_IS_32_BITMAP magic" "start \<le> end1" "end1 \<le> real_end"
  shows "case set_run (\<lambda>h n b. Inr (snd (mark_generic_bitmap32 b n)))
      (\<lambda>n b. snd (unmark_generic_bitmap32 b n)) ops b0 of
    Inl e \<Rightarrow> False
  | Inr b \<Rightarrow> test_generic_bitmap32 b n \<noteq> 0 \<longleftrightarrow>
      n \<in> foldl (set_step (\<lambda>k. start \<le> k \<and> k \<le> end1)) {} ops"
proof -
  have inv: "b32_inv b0" by (rule make_generic_bitmap_inv [OF assms])
  have e: "b32_elems b0 = {}" by (rule make_generic_bitmap_empty [OF assms])
  have v: "b32_valid b0 = (\<lambda>k. start \<le> k \<and> k \<le> end1)"
    using make_generic_bitmap_Inr [OF assms(1)] by (auto simp: b32_valid_def in_window_def)
  obtain b where r: "set_run (\<lambda>(h :: unit) n b. Inr (snd (mark_generic_bitmap32 b n)))
      (\<lambda>n b. snd (unmark_generic_bitmap32 b n)) ops b0 = Inr b"
    using set_run_total [of "\<lambda>(h :: unit) n b. Inr (snd (mark_generic_bitmap32 b n))"] by blast
  show ?thesis
    unfolding r using b32.run_mem [OF inv r, of n] by (simp add: e v)
qed

lemma bitmap32_run_refines_set_witness:
  "\<exists>b. set_run (\<lambda>(h :: unit) n b. Inr (snd (mark_generic_bitmap32 b n)))
      (\<lambda>n b. snd (unmark_generic_bitmap32 b n)) [Ins () 9, Ins () 99, Ins () 12, Del 9]
      (projr (ext2fs_make_generic_bitmap (roomy 7) EXT2_ET_MAGIC_BLOCK_BITMAP None 1 20 24 None None)) = Inr b \<and>
    test_generic_bitmap32 b 12 \<noteq> 0"
proof -
  have m: "ext2fs_make_generic_bitmap (roomy 7) EXT2_ET_MAGIC_BLOCK_BITMAP None 1 20 24 None None =
    Inr (projr (ext2fs_make_generic_bitmap (roomy 7) EXT2_ET_MAGIC_BLOCK_BITMAP None 1 20 24 None None))"
    by code_simp
  show ?thesis
    using bitmap32_run_refines_set [OF m, of 12 "[Ins () 9, Ins () 99, Ins () 12, Del 9]"]
    by (simp add: EXT2FS_IS_32_BITMAP_def)
qed

text \<open>
  C8. \<open>ext2fs_test_block_bitmap_range\<close> on blocks inside the map answers whether every
  one of them is clear, and after another extent was marked, whether they were clear and
  disjoint from it.
\<close>

theorem block_bitmap_range_test:
  assumes "b32_inv b" "b32_magic b = EXT2_ET_MAGIC_BLOCK_BITMAP"
    and "b32_in_range b block num" "b32_in_range b block' num'"
  shows "ext2fs_test_block_bitmap_range b block (of_nat num) =
      Inr (\<forall>n. unat block \<le> unat n \<and> unat n < unat block + num \<longrightarrow> test_generic_bitmap32 b n = 0) \<and>
    ext2fs_test_block_bitmap_range (ext2fs_mark_block_bitmap_range b block' (of_nat num')) block (of_nat num) =
      Inr (ext2fs_test_block_bitmap_range b block (of_nat num) = Inr True \<and>
           (unat block + num \<le> unat block' \<or> unat block' + num' \<le> unat block))"
proof -
  let ?b' = "ext2fs_mark_block_bitmap_range b block' (of_nat num')"
  have range: "ext2fs_test_block_bitmap_range c block (of_nat num) =
      Inr (ext2fs_test_clear_generic_bitmap_range c block (of_nat num))"
    if "b32_magic c = EXT2_ET_MAGIC_BLOCK_BITMAP" "b32_inv c" "b32_in_range c block num" for c
  proof -
    have "\<not> block + of_nat num - 1 > b32_end c" "b32_start c \<le> block"
      using that(3) b32_in_range_word(3) by (auto simp: b32_in_range_def extent_in_def)
    moreover have "b32_end c \<le> b32_real_end c" using that(2) by (simp add: b32_inv_def window_ok_def)
    ultimately show ?thesis
      using that(1) by (simp add: ext2fs_test_block_bitmap_range_def not_less) (meson leD order_trans)
  qed
  have m': "b32_magic ?b' = EXT2_ET_MAGIC_BLOCK_BITMAP"
    using assms(2) by (simp add: ext2fs_mark_block_bitmap_range_def)
  have i': "b32_inv ?b'" "b32_in_range ?b' block num"
    using mark_range32 [OF assms(1,4)] assms(3) by auto
  have dis: "extent_set block' num' \<inter> extent_set block num = {} \<longleftrightarrow>
    unat block + num \<le> unat block' \<or> unat block' + num' \<le> unat block"
  proof
    assume d: "extent_set block' num' \<inter> extent_set block num = {}"
    have n0: "0 < num" "0 < num'" using assms(3,4) by (auto simp: b32_in_range_def extent_in_def)
    show "unat block + num \<le> unat block' \<or> unat block' + num' \<le> unat block"
    proof (rule ccontr)
      assume c: "\<not> ?thesis"
      then have "(if unat block \<le> unat block' then block' else block)
        \<in> extent_set block' num' \<inter> extent_set block num"
        using n0 by (auto simp: extent_set_def)
      then show False using d by auto
    qed
  qed (auto simp: extent_set_def)
  have "b32_elems b \<inter> extent_set block num = {} \<longleftrightarrow>
    (\<forall>n. unat block \<le> unat n \<and> unat n < unat block + num \<longrightarrow> test_generic_bitmap32 b n = 0)"
    using test32_iff [OF assms(1)] by (auto simp: extent_set_def disjoint_iff)
  then show ?thesis
    using range [OF assms(2,1,3)] range [OF m' i'] dis
      test_clear_range32 [OF assms(1,3)] b32.allocate_extent [OF assms(1,4,3)]
    by simp
qed

lemma block_bitmap_range_test_witness:
  "ext2fs_test_block_bitmap_range b32_sample 4 (of_nat 15) =
     Inr (\<forall>n. unat (4 :: u32) \<le> unat n \<and> unat n < unat (4 :: u32) + 15 \<longrightarrow> test_generic_bitmap32 b32_sample n = 0)"
proof -
  have "b32_in_range b32_sample 4 15" by (simp add: b32_in_range_def extent_in_def b32_sample_def)
  then show ?thesis
    using block_bitmap_range_test [OF b32_sample_inv, of 4 15 4 15] by (simp add: b32_sample_def)
qed

text \<open>
  C9. The comparison of two 32-bit maps that do not end at the largest block number always
  returns, with success exactly when they have the same range and the same contents (whatever
  their padding); of two equal maps that end there it never returns.
\<close>

theorem compare_generic_bitmap_correct:
  assumes "b32_inv b1" "b32_inv b2" "b32_magic b1 = magic" "b32_magic b2 = magic"
  shows "(b32_end b1 \<noteq> -1 \<longrightarrow>
      ext2fs_compare_generic_bitmap magic neq (Some b1) (Some b2) =
        Some (if b32_start b1 = b32_start b2 \<and> b32_end b1 = b32_end b2 \<and>
                 b32_elems b1 = b32_elems b2 then Inr () else Inl neq)) \<and>
    (b32_end b1 = -1 \<longrightarrow>
      ext2fs_compare_generic_bitmap magic neq (Some b1) (Some b1) = None)"
  using compare32 [OF assms] compare_tail32_diverges [of b1 b1] assms(3)
  by (auto simp: ext2fs_compare_generic_bitmap_def Let_def)

lemma compare_generic_bitmap_correct_witness:
  "ext2fs_compare_generic_bitmap EXT2_ET_MAGIC_BLOCK_BITMAP EXT2_ET_NEQ_BLOCK_BITMAP
     (Some b32_sample) (Some b32_sample) = Some (Inr ())"
  using compare_generic_bitmap_correct [OF b32_sample_inv b32_sample_inv refl refl,
      of EXT2_ET_NEQ_BLOCK_BITMAP] by (simp add: b32_sample_def)

end
