(* ===== verification/Bitmap64.thy ===== *)
theory Bitmap64
  imports Bitmap32
begin

text \<open>
  The 64-bit bitmaps: the bit-array backend \<open>source/blkmap64_ba.c\<close> and the generic layer
  \<open>source/gen_bitmap64.c\<close>, which looks at the magic number, passes 32-bit maps to
  \<open>gen_bitmap.c\<close> and 64-bit maps to the backend. A pointer to a generic bitmap is a
  \<open>gbitmap option\<close>: the constructor says which of the two struct layouts is in memory.
  The creation functions give a layout a magic number of its own kind only, so a struct of
  one layout with a magic of the other kind does not arise. There is a single backend
  (\<open>EXT2FS_BMAP64_BITARRAY\<close>), so the calls through \<open>bitmap_ops\<close> are calls of the
  \<open>ba_\<close> functions.
\<close>

section \<open>State\<close>

record gen_bitmap64 =
  b64_magic :: errcode
  b64_fs :: "nat option"
  b64_start :: u64
  b64_end :: u64
  b64_real_end :: u64
  b64_cluster_bits :: nat
  b64_description :: "string option"
  b64_bitarray :: "u8 list"
  b64_base_error_code :: errcode

datatype gbitmap = B32 gen_bitmap32 | B64 gen_bitmap64

section \<open>The bit-array backend\<close>

text \<open>\<open>size_t\<close> has 32 bits: the byte count is truncated.\<close>

definition ba_size :: "u64 \<Rightarrow> u64 \<Rightarrow> nat" where
  "ba_size start real_end = unat (ucast ((real_end - start) div 8 + 1) :: u32)"

definition ba_alloc_private_data :: "u8 heap \<Rightarrow> gen_bitmap64 \<Rightarrow> gen_bitmap64 result" where
  "ba_alloc_private_data h bitmap =
     (case ext2fs_get_mem h 4 of
        Inl e \<Rightarrow> Inl e
      | Inr _ \<Rightarrow>
          (case alloc_bytes h (ba_size (b64_start bitmap) (b64_real_end bitmap)) of
             Inl e \<Rightarrow> Inl e
           | Inr A \<Rightarrow> Inr (bitmap\<lparr>b64_bitarray := A\<rparr>)))"

definition ba_new_bmap :: "u8 heap \<Rightarrow> gen_bitmap64 \<Rightarrow> gen_bitmap64 result" where
  "ba_new_bmap h bitmap =
     (case ba_alloc_private_data h bitmap of
        Inl e \<Rightarrow> Inl e
      | Inr b \<Rightarrow>
          Inr (b\<lparr>b64_bitarray :=
            memset_at (b64_bitarray b) 0 0 (ba_size (b64_start b) (b64_real_end b))\<rparr>))"

definition ba_copy_bmap :: "u8 heap \<Rightarrow> gen_bitmap64 \<Rightarrow> gen_bitmap64 \<Rightarrow> gen_bitmap64 result" where
  "ba_copy_bmap h src dest =
     (case ba_alloc_private_data h dest of
        Inl e \<Rightarrow> Inl e
      | Inr d \<Rightarrow>
          Inr (d\<lparr>b64_bitarray :=
            memcpy (b64_bitarray d) (b64_bitarray src) (ba_size (b64_start src) (b64_real_end src))\<rparr>))"

function clear_down64 :: "u64 \<Rightarrow> u64 \<Rightarrow> u64 \<Rightarrow> u8 list \<Rightarrow> u8 list" where
  "clear_down64 bitno end1 start A =
     (if bitno > end1 then
        clear_down64 (bitno - 1) end1 start (snd (ext2fs_clear_bit64 (bitno - start) A))
      else A)"
  by pat_completeness auto
termination
proof (relation "measure (\<lambda>(bitno, end1, start, A). unat bitno)", goal_cases)
  case (2 bitno end1 start A)
  then have "bitno \<noteq> 0" by auto
  then show ?case by (simp add: measure_unat)
qed simp

definition ba_resize_bmap :: "u8 heap \<Rightarrow> gen_bitmap64 \<Rightarrow> u64 \<Rightarrow> u64 \<Rightarrow> gen_bitmap64 result" where
  "ba_resize_bmap h bmap new_end new_real_end =
     (let bmap =
        (if new_end > b64_end bmap then
           bmap\<lparr>b64_bitarray :=
             clear_down64 (if b64_real_end bmap > new_end then new_end else b64_real_end bmap)
               (b64_end bmap) (b64_start bmap) (b64_bitarray bmap)\<rparr>
         else bmap)
      in
      if new_real_end = b64_real_end bmap then Inr (bmap\<lparr>b64_end := new_end\<rparr>)
      else
        let sz = ba_size (b64_start bmap) (b64_real_end bmap);
            new_size = ba_size (b64_start bmap) new_real_end
        in
        (case (if sz \<noteq> new_size then ext2fs_resize_mem h new_size 1 (b64_bitarray bmap)
               else Inr (b64_bitarray bmap)) of
           Inl e \<Rightarrow> Inl e
         | Inr A \<Rightarrow>
             Inr (bmap\<lparr>b64_bitarray :=
                         (if new_size > sz then memset_at A sz 0 (new_size - sz) else A),
                       b64_end := new_end, b64_real_end := new_real_end\<rparr>)))"

definition ba_mark_bmap :: "gen_bitmap64 \<Rightarrow> u64 \<Rightarrow> u8 \<times> gen_bitmap64" where
  "ba_mark_bmap bitmap arg =
     (case ext2fs_set_bit64 (arg - b64_start bitmap) (b64_bitarray bitmap) of
        (r, A) \<Rightarrow> (r, bitmap\<lparr>b64_bitarray := A\<rparr>))"

definition ba_unmark_bmap :: "gen_bitmap64 \<Rightarrow> u64 \<Rightarrow> u8 \<times> gen_bitmap64" where
  "ba_unmark_bmap bitmap arg =
     (case ext2fs_clear_bit64 (arg - b64_start bitmap) (b64_bitarray bitmap) of
        (r, A) \<Rightarrow> (r, bitmap\<lparr>b64_bitarray := A\<rparr>))"

definition ba_test_bmap :: "gen_bitmap64 \<Rightarrow> u64 \<Rightarrow> u8" where
  "ba_test_bmap bitmap arg = ext2fs_test_bit64 (arg - b64_start bitmap) (b64_bitarray bitmap)"

definition ba_mark_bmap_extent :: "gen_bitmap64 \<Rightarrow> u64 \<Rightarrow> u32 \<Rightarrow> gen_bitmap64" where
  "ba_mark_bmap_extent bitmap arg num =
     bitmap\<lparr>b64_bitarray :=
       foldl (\<lambda>A i. ext2fs_fast_set_bit64 (arg + of_nat i - b64_start bitmap) A)
         (b64_bitarray bitmap) [0..<unat num]\<rparr>"

definition ba_unmark_bmap_extent :: "gen_bitmap64 \<Rightarrow> u64 \<Rightarrow> u32 \<Rightarrow> gen_bitmap64" where
  "ba_unmark_bmap_extent bitmap arg num =
     bitmap\<lparr>b64_bitarray :=
       foldl (\<lambda>A i. ext2fs_fast_clear_bit64 (arg + of_nat i - b64_start bitmap) A)
         (b64_bitarray bitmap) [0..<unat num]\<rparr>"

definition ba_test_clear_bmap_extent :: "gen_bitmap64 \<Rightarrow> u64 \<Rightarrow> u32 \<Rightarrow> bool" where
  "ba_test_clear_bmap_extent bitmap start len =
     test_clear_bits (b64_bitarray bitmap) (unat (start - b64_start bitmap)) (unat len)"

definition ba_set_bmap_range :: "gen_bitmap64 \<Rightarrow> u64 \<Rightarrow> u32 \<Rightarrow> u8 list \<Rightarrow> gen_bitmap64" where
  "ba_set_bmap_range bitmap start num inp =
     (let off = unat (drop_bit 3 start); n = unat (drop_bit 3 (num + 7)) in
      bitmap\<lparr>b64_bitarray := take off (b64_bitarray bitmap) @ take n inp @ drop (off + n) (b64_bitarray bitmap)\<rparr>)"

definition ba_get_bmap_range :: "gen_bitmap64 \<Rightarrow> u64 \<Rightarrow> u32 \<Rightarrow> u8 list" where
  "ba_get_bmap_range bitmap start num =
     take (unat (drop_bit 3 (num + 7))) (drop (unat (drop_bit 3 start)) (b64_bitarray bitmap))"

definition ba_clear_bmap :: "gen_bitmap64 \<Rightarrow> gen_bitmap64" where
  "ba_clear_bmap bitmap =
     bitmap\<lparr>b64_bitarray :=
       memset_at (b64_bitarray bitmap) 0 0 (ba_size (b64_start bitmap) (b64_real_end bitmap))\<rparr>"

section \<open>The generic layer: creation, copy, release, size\<close>

text \<open>
  \<open>fs_cluster_ratio_bits\<close> is \<open>fs->cluster_ratio_bits\<close>. The type 1 is
  \<open>EXT2FS_BMAP64_BITARRAY\<close>.
\<close>

definition ext2fs_alloc_generic_bmap ::
  "u8 heap \<Rightarrow> nat option \<Rightarrow> nat \<Rightarrow> errcode \<Rightarrow> nat \<Rightarrow> u64 \<Rightarrow> u64 \<Rightarrow> u64 \<Rightarrow> string option \<Rightarrow> gbitmap result"
  where
  "ext2fs_alloc_generic_bmap h fs fs_cluster_ratio_bits magic typ start end1 real_end descr =
     (if typ \<noteq> 1 then Inl EINVAL
      else
        (case ext2fs_get_mem h 72 of
           Inl e \<Rightarrow> Inl e
         | Inr _ \<Rightarrow>
             (case (case descr of None \<Rightarrow> Inr ()
                    | Some d \<Rightarrow> ext2fs_get_mem h (length d + 1)) of
                Inl e \<Rightarrow> Inl e
              | Inr _ \<Rightarrow>
                  (case ba_new_bmap h
                     \<lparr>b64_magic = magic, b64_fs = fs, b64_start = start, b64_end = end1,
                      b64_real_end = real_end,
                      b64_cluster_bits =
                        (if magic = EXT2_ET_MAGIC_BLOCK_BITMAP64 then fs_cluster_ratio_bits else 0),
                      b64_description = descr, b64_bitarray = [],
                      b64_base_error_code =
                        (if magic = EXT2_ET_MAGIC_INODE_BITMAP64 then EXT2_ET_BAD_INODE_MARK
                         else if magic = EXT2_ET_MAGIC_BLOCK_BITMAP64 then EXT2_ET_BAD_BLOCK_MARK
                         else EXT2_ET_BAD_GENERIC_MARK)\<rparr> of
                     Inl e \<Rightarrow> Inl e
                   | Inr b \<Rightarrow> Inr (B64 b)))))"

definition ext2fs_free_generic_bmap :: "gbitmap option \<Rightarrow> gbitmap option" where
  "ext2fs_free_generic_bmap bmap =
     (case bmap of
        None \<Rightarrow> None
      | Some (B32 b) \<Rightarrow>
          if EXT2FS_IS_32_BITMAP (b32_magic b)
          then map_option B32 (ext2fs_free_generic_bitmap (Some b)) else bmap
      | Some (B64 b) \<Rightarrow> if \<not> EXT2FS_IS_64_BITMAP (b64_magic b) then bmap else None)"

text \<open>
  The description of the copy is not initialised when the source has none; it is modelled
  as the (wrong) absence of one, the rest of the copy does not depend on it.
\<close>

definition ext2fs_copy_generic_bmap :: "u8 heap \<Rightarrow> gbitmap option \<Rightarrow> gbitmap result" where
  "ext2fs_copy_generic_bmap h src =
     (case src of
        None \<Rightarrow> Inl EINVAL
      | Some (B32 b) \<Rightarrow>
          if EXT2FS_IS_32_BITMAP (b32_magic b)
          then (case ext2fs_copy_generic_bitmap h b of Inl e \<Rightarrow> Inl e | Inr d \<Rightarrow> Inr (B32 d))
          else Inl EINVAL
      | Some (B64 b) \<Rightarrow>
          if \<not> EXT2FS_IS_64_BITMAP (b64_magic b) then Inl EINVAL
          else
            (case ext2fs_get_mem h 72 of
               Inl e \<Rightarrow> Inl e
             | Inr _ \<Rightarrow>
                 (case (case b64_description b of None \<Rightarrow> Inr ()
                        | Some d \<Rightarrow> ext2fs_get_mem h (length d + 1)) of
                    Inl e \<Rightarrow> Inl e
                  | Inr _ \<Rightarrow>
                      (case ba_copy_bmap h b (b\<lparr>b64_bitarray := []\<rparr>) of
                         Inl e \<Rightarrow> Inl e
                       | Inr d \<Rightarrow> Inr (B64 d)))))"

definition ext2fs_resize_generic_bmap :: "u8 heap \<Rightarrow> gbitmap option \<Rightarrow> u64 \<Rightarrow> u64 \<Rightarrow> gbitmap result" where
  "ext2fs_resize_generic_bmap h bmap new_end new_real_end =
     (case bmap of
        None \<Rightarrow> Inl EINVAL
      | Some (B32 b) \<Rightarrow>
          if EXT2FS_IS_32_BITMAP (b32_magic b)
          then (case ext2fs_resize_generic_bitmap h (b32_magic b) (ucast new_end) (ucast new_real_end) (Some b) of
                  Inl e \<Rightarrow> Inl e | Inr b' \<Rightarrow> Inr (B32 b'))
          else Inl EINVAL
      | Some (B64 b) \<Rightarrow>
          if \<not> EXT2FS_IS_64_BITMAP (b64_magic b) then Inl EINVAL
          else (case ba_resize_bmap h b new_end new_real_end of
                  Inl e \<Rightarrow> Inl e | Inr b' \<Rightarrow> Inr (B64 b')))"

text \<open>Returns the old end with the new map.\<close>

definition ext2fs_fudge_generic_bmap_end ::
  "gbitmap option \<Rightarrow> errcode \<Rightarrow> u64 \<Rightarrow> (u64 \<times> gbitmap) result" where
  "ext2fs_fudge_generic_bmap_end bitmap neq end1 =
     (case bitmap of
        None \<Rightarrow> Inl EINVAL
      | Some (B32 b) \<Rightarrow>
          if EXT2FS_IS_32_BITMAP (b32_magic b)
          then (case ext2fs_fudge_generic_bitmap_end b (b32_magic b) neq (ucast end1) of
                  Inl e \<Rightarrow> Inl e | Inr (oend, b') \<Rightarrow> Inr (ucast oend, B32 b'))
          else Inl EINVAL
      | Some (B64 b) \<Rightarrow>
          if \<not> EXT2FS_IS_64_BITMAP (b64_magic b) then Inl EINVAL
          else if end1 > b64_real_end b then Inl neq
          else Inr (b64_end b, B64 (b\<lparr>b64_end := end1\<rparr>)))"

text \<open>An error code is returned through the \<open>__u64\<close> result.\<close>

definition ext2fs_get_generic_bmap_start :: "gbitmap option \<Rightarrow> u64 result" where
  "ext2fs_get_generic_bmap_start bitmap =
     (case bitmap of
        None \<Rightarrow> Inl EINVAL
      | Some (B32 b) \<Rightarrow> if EXT2FS_IS_32_BITMAP (b32_magic b) then Inr (ucast (b32_start b)) else Inl EINVAL
      | Some (B64 b) \<Rightarrow> if \<not> EXT2FS_IS_64_BITMAP (b64_magic b) then Inl EINVAL else Inr (b64_start b))"

definition ext2fs_get_generic_bmap_end :: "gbitmap option \<Rightarrow> u64 result" where
  "ext2fs_get_generic_bmap_end bitmap =
     (case bitmap of
        None \<Rightarrow> Inl EINVAL
      | Some (B32 b) \<Rightarrow> if EXT2FS_IS_32_BITMAP (b32_magic b) then Inr (ucast (b32_end b)) else Inl EINVAL
      | Some (B64 b) \<Rightarrow> if \<not> EXT2FS_IS_64_BITMAP (b64_magic b) then Inl EINVAL else Inr (b64_end b))"

text \<open>
  For a 32-bit map the code clears it and then still calls through the \<open>bitmap_ops\<close>
  member, which the 32-bit struct does not have: \<open>None\<close> is that undefined behaviour. For
  a struct of neither kind the call is undefined as well.
\<close>

definition ext2fs_clear_generic_bmap :: "gbitmap \<Rightarrow> gbitmap option" where
  "ext2fs_clear_generic_bmap bitmap =
     (case bitmap of
        B32 b \<Rightarrow> None
      | B64 b \<Rightarrow> Some (B64 (ba_clear_bmap b)))"

section \<open>The generic layer: bits and ranges\<close>

definition ext2fs_mark_generic_bmap :: "gbitmap option \<Rightarrow> u64 \<Rightarrow> u8 \<times> gbitmap option" where
  "ext2fs_mark_generic_bmap bitmap arg =
     (case bitmap of
        None \<Rightarrow> (0, None)
      | Some (B32 b) \<Rightarrow>
          if EXT2FS_IS_32_BITMAP (b32_magic b)
          then (if arg AND NOT 0xFFFFFFFF \<noteq> 0 then (0, bitmap)
                else (case mark_generic_bitmap32 b (ucast arg) of (r, b') \<Rightarrow> (r, Some (B32 b'))))
          else (0, bitmap)
      | Some (B64 b) \<Rightarrow>
          if \<not> EXT2FS_IS_64_BITMAP (b64_magic b) then (0, bitmap)
          else
            let arg = drop_bit (b64_cluster_bits b) arg in
            if arg < b64_start b \<or> arg > b64_end b then (0, bitmap)
            else (case ba_mark_bmap b arg of (r, b') \<Rightarrow> (r, Some (B64 b'))))"

definition ext2fs_unmark_generic_bmap :: "gbitmap option \<Rightarrow> u64 \<Rightarrow> u8 \<times> gbitmap option" where
  "ext2fs_unmark_generic_bmap bitmap arg =
     (case bitmap of
        None \<Rightarrow> (0, None)
      | Some (B32 b) \<Rightarrow>
          if EXT2FS_IS_32_BITMAP (b32_magic b)
          then (if arg AND NOT 0xFFFFFFFF \<noteq> 0 then (0, bitmap)
                else (case unmark_generic_bitmap32 b (ucast arg) of (r, b') \<Rightarrow> (r, Some (B32 b'))))
          else (0, bitmap)
      | Some (B64 b) \<Rightarrow>
          if \<not> EXT2FS_IS_64_BITMAP (b64_magic b) then (0, bitmap)
          else
            let arg = drop_bit (b64_cluster_bits b) arg in
            if arg < b64_start b \<or> arg > b64_end b then (0, bitmap)
            else (case ba_unmark_bmap b arg of (r, b') \<Rightarrow> (r, Some (B64 b'))))"

definition ext2fs_test_generic_bmap :: "gbitmap option \<Rightarrow> u64 \<Rightarrow> u8" where
  "ext2fs_test_generic_bmap bitmap arg =
     (case bitmap of
        None \<Rightarrow> 0
      | Some (B32 b) \<Rightarrow>
          if EXT2FS_IS_32_BITMAP (b32_magic b)
          then (if arg AND NOT 0xFFFFFFFF \<noteq> 0 then 0 else test_generic_bitmap32 b (ucast arg))
          else 0
      | Some (B64 b) \<Rightarrow>
          if \<not> EXT2FS_IS_64_BITMAP (b64_magic b) then 0
          else
            let arg = drop_bit (b64_cluster_bits b) arg in
            if arg < b64_start b \<or> arg > b64_end b then 0 else ba_test_bmap b arg)"

definition ext2fs_set_generic_bmap_range ::
  "gbitmap option \<Rightarrow> u64 \<Rightarrow> u32 \<Rightarrow> u8 list \<Rightarrow> gbitmap result" where
  "ext2fs_set_generic_bmap_range bmap start num inp =
     (case bmap of
        None \<Rightarrow> Inl EINVAL
      | Some (B32 b) \<Rightarrow>
          if EXT2FS_IS_32_BITMAP (b32_magic b)
          then (if (start + ucast num - 1) AND NOT 0xFFFFFFFF \<noteq> 0 then Inl EINVAL
                else (case ext2fs_set_generic_bitmap_range (Some b) (b32_magic b) (ucast start) num inp of
                        Inl e \<Rightarrow> Inl e | Inr b' \<Rightarrow> Inr (B32 b')))
          else Inl EINVAL
      | Some (B64 b) \<Rightarrow>
          if \<not> EXT2FS_IS_64_BITMAP (b64_magic b) then Inl EINVAL
          else Inr (B64 (ba_set_bmap_range b start num inp)))"

definition ext2fs_get_generic_bmap_range :: "gbitmap option \<Rightarrow> u64 \<Rightarrow> u32 \<Rightarrow> u8 list result" where
  "ext2fs_get_generic_bmap_range bmap start num =
     (case bmap of
        None \<Rightarrow> Inl EINVAL
      | Some (B32 b) \<Rightarrow>
          if EXT2FS_IS_32_BITMAP (b32_magic b)
          then (if (start + ucast num - 1) AND NOT 0xFFFFFFFF \<noteq> 0 then Inl EINVAL
                else ext2fs_get_generic_bitmap_range (Some b) (b32_magic b) (ucast start) num)
          else Inl EINVAL
      | Some (B64 b) \<Rightarrow>
          if \<not> EXT2FS_IS_64_BITMAP (b64_magic b) then Inl EINVAL
          else Inr (ba_get_bmap_range b start num))"

text \<open>\<open>bm1->magic != bm2->magic\<close>: structs of different layouts never have the same magic.\<close>

definition gb_magic :: "gbitmap \<Rightarrow> errcode" where
  "gb_magic bm = (case bm of B32 b \<Rightarrow> b32_magic b | B64 b \<Rightarrow> b64_magic b)"

partial_function (option) compare_tail64 :: "gen_bitmap64 \<Rightarrow> gen_bitmap64 \<Rightarrow> u64 \<Rightarrow> bool option" where
  "compare_tail64 bm1 bm2 i =
     (if i \<le> b64_end bm1 then
        (if ext2fs_test_generic_bmap (Some (B64 bm1)) i \<noteq> ext2fs_test_generic_bmap (Some (B64 bm2)) i
         then Some False
         else compare_tail64 bm1 bm2 (i + 1))
      else Some True)"

declare compare_tail64.simps [code]

definition ext2fs_compare_generic_bmap ::
  "errcode \<Rightarrow> gbitmap option \<Rightarrow> gbitmap option \<Rightarrow> unit result option" where
  "ext2fs_compare_generic_bmap neq bm1 bm2 =
     (case (bm1, bm2) of
        (Some bm1, Some bm2) \<Rightarrow>
          if gb_magic bm1 \<noteq> gb_magic bm2 then Some (Inl EINVAL)
          else
            (case (bm1, bm2) of
               (B32 b1, B32 b2) \<Rightarrow>
                 if EXT2FS_IS_32_BITMAP (b32_magic b1)
                 then ext2fs_compare_generic_bitmap (b32_magic b1) neq (Some b1) (Some b2)
                 else Some (Inl EINVAL)
             | (B64 b1, B64 b2) \<Rightarrow>
                 if \<not> EXT2FS_IS_64_BITMAP (b64_magic b1) then Some (Inl EINVAL)
                 else if b64_start b1 \<noteq> b64_start b2 \<or> b64_end b1 \<noteq> b64_end b2 then Some (Inl neq)
                 else
                   map_option (\<lambda>same. if same then Inr () else Inl neq)
                     (compare_tail64 b1 b2 (b64_end b1 - (b64_end b1 - b64_start b1) mod 8))
             | _ \<Rightarrow> Some (Inl EINVAL))
      | _ \<Rightarrow> Some (Inl EINVAL))"

definition ext2fs_set_generic_bmap_padding :: "gbitmap \<Rightarrow> gbitmap" where
  "ext2fs_set_generic_bmap_padding bmap =
     (case bmap of
        B32 b \<Rightarrow> B32 (ext2fs_set_generic_bitmap_padding b)
      | B64 b \<Rightarrow> B64 (ba_mark_bmap_extent b (b64_end b + 1) (ucast (b64_real_end b - b64_end b))))"

definition ext2fs_test_block_bitmap_range2 :: "gbitmap option \<Rightarrow> u64 \<Rightarrow> u32 \<Rightarrow> bool result" where
  "ext2fs_test_block_bitmap_range2 bmap block num =
     (case bmap of
        None \<Rightarrow> Inl EINVAL
      | Some bm \<Rightarrow>
          if num = 1 then Inr (ext2fs_test_generic_bmap bmap block = 0)
          else
            (case bm of
               B32 b \<Rightarrow>
                 if EXT2FS_IS_32_BITMAP (b32_magic b)
                 then (if (block + ucast num - 1) AND NOT 0xFFFFFFFF \<noteq> 0 then Inl EINVAL
                       else ext2fs_test_block_bitmap_range b (ucast block) num)
                 else Inl EINVAL
             | B64 b \<Rightarrow>
                 if \<not> EXT2FS_IS_64_BITMAP (b64_magic b) then Inl EINVAL
                 else Inr (ba_test_clear_bmap_extent b block num)))"

text \<open>After the 32-bit case the code falls through to the test for a 64-bit map and returns there.\<close>

definition ext2fs_mark_block_bitmap_range2 :: "gbitmap option \<Rightarrow> u64 \<Rightarrow> u32 \<Rightarrow> gbitmap option" where
  "ext2fs_mark_block_bitmap_range2 bmap block num =
     (case bmap of
        None \<Rightarrow> None
      | Some (B32 b) \<Rightarrow>
          if EXT2FS_IS_32_BITMAP (b32_magic b)
          then (if (block + ucast num - 1) AND NOT 0xFFFFFFFF \<noteq> 0 then bmap
                else Some (B32 (ext2fs_mark_block_bitmap_range b (ucast block) num)))
          else bmap
      | Some (B64 b) \<Rightarrow>
          if \<not> EXT2FS_IS_64_BITMAP (b64_magic b) then bmap
          else if block < b64_start b \<or> block + ucast num - 1 > b64_end b then bmap
          else Some (B64 (ba_mark_bmap_extent b block num)))"

definition ext2fs_unmark_block_bitmap_range2 :: "gbitmap option \<Rightarrow> u64 \<Rightarrow> u32 \<Rightarrow> gbitmap option" where
  "ext2fs_unmark_block_bitmap_range2 bmap block num =
     (case bmap of
        None \<Rightarrow> None
      | Some (B32 b) \<Rightarrow>
          if EXT2FS_IS_32_BITMAP (b32_magic b)
          then (if (block + ucast num - 1) AND NOT 0xFFFFFFFF \<noteq> 0 then bmap
                else Some (B32 (ext2fs_unmark_block_bitmap_range b (ucast block) num)))
          else bmap
      | Some (B64 b) \<Rightarrow>
          if \<not> EXT2FS_IS_64_BITMAP (b64_magic b) then bmap
          else if block < b64_start b \<or> block + ucast num - 1 > b64_end b then bmap
          else Some (B64 (ba_unmark_bmap_extent b block num)))"

section \<open>The 32-bit entry points on either kind of map\<close>

definition ext2fs_test_generic_bitmap :: "gbitmap \<Rightarrow> u32 \<Rightarrow> u8" where
  "ext2fs_test_generic_bitmap bitmap bitno =
     (case bitmap of
        B32 b \<Rightarrow> if EXT2FS_IS_32_BITMAP (b32_magic b) then test_generic_bitmap32 b bitno else 0
      | B64 b \<Rightarrow> if EXT2FS_IS_64_BITMAP (b64_magic b)
                then ext2fs_test_generic_bmap (Some bitmap) (ucast bitno) else 0)"

definition ext2fs_mark_generic_bitmap :: "gbitmap \<Rightarrow> u32 \<Rightarrow> u8 \<times> gbitmap" where
  "ext2fs_mark_generic_bitmap bitmap bitno =
     (case bitmap of
        B32 b \<Rightarrow> if EXT2FS_IS_32_BITMAP (b32_magic b)
                then (case mark_generic_bitmap32 b bitno of (r, b') \<Rightarrow> (r, B32 b')) else (0, bitmap)
      | B64 b \<Rightarrow> if EXT2FS_IS_64_BITMAP (b64_magic b)
                then (case ext2fs_mark_generic_bmap (Some bitmap) (ucast bitno) of
                        (r, b') \<Rightarrow> (r, the b')) else (0, bitmap))"

definition ext2fs_unmark_generic_bitmap :: "gbitmap \<Rightarrow> u32 \<Rightarrow> u8 \<times> gbitmap" where
  "ext2fs_unmark_generic_bitmap bitmap bitno =
     (case bitmap of
        B32 b \<Rightarrow> if EXT2FS_IS_32_BITMAP (b32_magic b)
                then (case unmark_generic_bitmap32 b bitno of (r, b') \<Rightarrow> (r, B32 b')) else (0, bitmap)
      | B64 b \<Rightarrow> if EXT2FS_IS_64_BITMAP (b64_magic b)
                then (case ext2fs_unmark_generic_bmap (Some bitmap) (ucast bitno) of
                        (r, b') \<Rightarrow> (r, the b')) else (0, bitmap))"

definition ext2fs_clear_generic_bitmap :: "gbitmap \<Rightarrow> gbitmap option" where
  "ext2fs_clear_generic_bitmap bitmap =
     (case bitmap of
        B32 b \<Rightarrow> Some (if EXT2FS_IS_32_BITMAP (b32_magic b) then B32 (clear_generic_bitmap32 b) else bitmap)
      | B64 b \<Rightarrow> if EXT2FS_IS_64_BITMAP (b64_magic b) then ext2fs_clear_generic_bmap bitmap else Some bitmap)"

definition ext2fs_get_generic_bitmap_start :: "gbitmap \<Rightarrow> u32" where
  "ext2fs_get_generic_bitmap_start bitmap =
     (case bitmap of
        B32 b \<Rightarrow> if EXT2FS_IS_32_BITMAP (b32_magic b) then b32_start b else 0
      | B64 b \<Rightarrow> if EXT2FS_IS_64_BITMAP (b64_magic b) then ucast (b64_start b) else 0)"

definition ext2fs_get_generic_bitmap_end :: "gbitmap \<Rightarrow> u32" where
  "ext2fs_get_generic_bitmap_end bitmap =
     (case bitmap of
        B32 b \<Rightarrow> if EXT2FS_IS_32_BITMAP (b32_magic b) then b32_end b else 0
      | B64 b \<Rightarrow> if EXT2FS_IS_64_BITMAP (b64_magic b) then ucast (b64_end b) else 0)"

declare clear_down64.simps [simp del]

section \<open>64-bit numbers that fit in 32 bits\<close>

lemma high_bits_zero: "(x :: u64) AND NOT 0xFFFFFFFF = 0 \<longleftrightarrow> unat x < 2 ^ 32"
proof -
  have "x AND NOT 0xFFFFFFFF = 0 \<longleftrightarrow> (\<forall>n. bit x n \<longrightarrow> n < 32)"
  proof
    assume z: "x AND NOT 0xFFFFFFFF = 0"
    show "\<forall>n. bit x n \<longrightarrow> n < 32"
    proof (intro allI impI)
      fix n assume b: "bit x n"
      have "\<not> bit (x AND NOT 0xFFFFFFFF) n" unfolding z by simp
      then show "n < 32"
        using b bit_imp_le_length [OF b] by (simp only: bit_and_iff bit_not_iff bit_FFFFFFFF) simp
    qed
  next
    assume a: "\<forall>n. bit x n \<longrightarrow> n < 32"
    show "x AND NOT 0xFFFFFFFF = 0"
      by (rule bit_word_eqI) (use a in \<open>simp only: bit_and_iff bit_not_iff bit_FFFFFFFF bit_0_eq\<close>, auto)
  qed
  also have "\<dots> \<longleftrightarrow> take_bit 32 x = x"
  proof
    assume "\<forall>n. bit x n \<longrightarrow> n < 32"
    then show "take_bit 32 x = x" by (intro bit_word_eqI) (auto simp: bit_take_bit_iff)
  next
    assume "take_bit 32 x = x"
    then show "\<forall>n. bit x n \<longrightarrow> n < 32" by (metis bit_take_bit_iff)
  qed
  also have "\<dots> \<longleftrightarrow> take_bit 32 (unat x) = unat x"
    by (metis unsigned_take_bit_eq word_unat_eq_iff)
  also have "\<dots> \<longleftrightarrow> unat x < 2 ^ 32"
    by (rule take_bit_nat_eq_self_iff)
  finally show ?thesis .
qed

lemma unat_ucast_u32: "unat (x :: u64) < 2 ^ 32 \<Longrightarrow> unat (ucast x :: u32) = unat x"
  by (simp add: unsigned_ucast_eq take_bit_nat_eq_self)

lemma unat_ucast_u64 [simp]: "unat (ucast (x :: u32) :: u64) = unat x"
proof -
  have "take_bit 64 (unat x) = unat x"
    using unat_u32_bound [of x] by (intro take_bit_nat_eq_self) simp
  then show ?thesis by (simp add: unsigned_ucast_eq)
qed

lemma ucast_u32_u64: "unat (x :: u64) < 2 ^ 32 \<Longrightarrow> ucast (ucast x :: u32) = x"
  by (simp add: word_unat_eq_iff unat_ucast_u32)

lemma ba_size_eq:
  assumes "unat (real_end - start) div 8 + 1 < 2 ^ 32"
  shows "ba_size start real_end = unat (real_end - start) div 8 + 1"
proof -
  have "unat ((real_end - start) div 8 + 1) = unat (real_end - start) div 8 + 1"
    by (rule unat_div8_plus_one) simp
  then show ?thesis using assms unat_ucast_u32 by (simp add: ba_size_def)
qed

section \<open>The backend on a window of cluster numbers\<close>

definition b64_inv :: "gen_bitmap64 \<Rightarrow> bool" where
  "b64_inv b \<longleftrightarrow> EXT2FS_IS_64_BITMAP (b64_magic b) \<and> length (b64_bitarray b) < 2 ^ 32 \<and>
     window_ok (b64_start b) (b64_end b) (b64_real_end b) (b64_bitarray b)"

definition b64_elems :: "gen_bitmap64 \<Rightarrow> u64 set" where
  "b64_elems b = window_set (b64_start b) (b64_end b) (b64_bitarray b)"

lemma b64_window: "b64_inv b \<Longrightarrow> window_ok (b64_start b) (b64_end b) (b64_real_end b) (b64_bitarray b)"
  by (simp add: b64_inv_def)

lemma b64_size:
  assumes "b64_inv b"
  shows "ba_size (b64_start b) (b64_real_end b) = unat (b64_real_end b - b64_start b) div 8 + 1"
  using assms by (intro ba_size_eq) (auto simp: b64_inv_def window_ok_def)

lemma ba_bits:
  assumes "b64_inv b" "in_window (b64_start b) (b64_end b) c"
  shows "ba_test_bmap b c \<noteq> 0 \<longleftrightarrow> c \<in> b64_elems b"
    "fst (ba_mark_bmap b c) \<noteq> 0 \<longleftrightarrow> c \<in> b64_elems b"
    "fst (ba_unmark_bmap b c) \<noteq> 0 \<longleftrightarrow> c \<in> b64_elems b"
    "snd (ba_mark_bmap b c) = b\<lparr>b64_bitarray := put_bit True (unat (c - b64_start b)) (b64_bitarray b)\<rparr>"
    "snd (ba_unmark_bmap b c) = b\<lparr>b64_bitarray := put_bit False (unat (c - b64_start b)) (b64_bitarray b)\<rparr>"
  using assms(2)
  by (simp_all add: ba_test_bmap_def ba_mark_bmap_def ba_unmark_bmap_def b64_elems_def window_set_def
      case_prod_beta)

lemma b64_update:
  assumes "b64_inv b" "length A = length (b64_bitarray b)"
  shows "b64_inv (b\<lparr>b64_bitarray := A\<rparr>)"
  using assms window_ok_length [OF b64_window [OF assms(1)] assms(2)] by (simp add: b64_inv_def)

lemma ba_put:
  assumes "b64_inv b" "in_window (b64_start b) (b64_end b) c"
  shows "b64_inv (snd (ba_mark_bmap b c))" "b64_elems (snd (ba_mark_bmap b c)) = insert c (b64_elems b)"
    "b64_inv (snd (ba_unmark_bmap b c))" "b64_elems (snd (ba_unmark_bmap b c)) = b64_elems b - {c}"
  using b64_update [OF assms(1)] window_put_bit [OF b64_window [OF assms(1)] assms(2)]
  by (simp_all add: ba_bits(4,5) [OF assms] b64_elems_def)

lemma ba_extents:
  assumes "b64_inv b" "extent_in (b64_start b) (b64_end b) k (unat num)"
  shows "b64_inv (ba_mark_bmap_extent b k num)"
    "b64_elems (ba_mark_bmap_extent b k num) = b64_elems b \<union> extent_set k (unat num)"
    "b64_inv (ba_unmark_bmap_extent b k num)"
    "b64_elems (ba_unmark_bmap_extent b k num) = b64_elems b - extent_set k (unat num)"
    "ba_test_clear_bmap_extent b k num \<longleftrightarrow> b64_elems b \<inter> extent_set k (unat num) = {}"
proof -
  note w = window_write_run [OF b64_window [OF assms(1)] assms(2) refl, of True]
    and w' = window_write_run [OF b64_window [OF assms(1)] assms(2) refl, of False]
  show "b64_inv (ba_mark_bmap_extent b k num)"
    "b64_elems (ba_mark_bmap_extent b k num) = b64_elems b \<union> extent_set k (unat num)"
    using b64_update [OF assms(1) w(1)] w(2)
    by (simp_all add: ba_mark_bmap_extent_def b64_elems_def)
  show "b64_inv (ba_unmark_bmap_extent b k num)"
    "b64_elems (ba_unmark_bmap_extent b k num) = b64_elems b - extent_set k (unat num)"
    using b64_update [OF assms(1) w'(1)] w'(2)
    by (simp_all add: ba_unmark_bmap_extent_def b64_elems_def)
  show "ba_test_clear_bmap_extent b k num \<longleftrightarrow> b64_elems b \<inter> extent_set k (unat num) = {}"
    using window_test_clear [OF b64_window [OF assms(1)] assms(2)]
    by (simp add: ba_test_clear_bmap_extent_def b64_elems_def)
qed

lemma ba_clear:
  assumes "b64_inv b"
  shows "b64_inv (ba_clear_bmap b)" "b64_elems (ba_clear_bmap b) = {}"
  using window_clear [OF b64_window [OF assms]] b64_update [OF assms]
  by (simp_all add: ba_clear_bmap_def b64_size [OF assms] b64_elems_def)

lemma ba_new:
  assumes "ba_new_bmap h b = Inr b'" "b64_start b \<le> b64_end b" "b64_end b \<le> b64_real_end b"
    and "EXT2FS_IS_64_BITMAP (b64_magic b)"
    and "unat (b64_real_end b - b64_start b) div 8 + 1 < 2 ^ 32"
  shows "b64_inv b'" "b64_elems b' = {}" "b64_start b' = b64_start b" "b64_end b' = b64_end b"
    "b64_real_end b' = b64_real_end b" "b64_cluster_bits b' = b64_cluster_bits b"
    "slack_clear (unat (b64_real_end b' - b64_start b')) (b64_bitarray b')"
proof -
  let ?n = "unat (b64_real_end b - b64_start b) div 8 + 1"
  have b': "b' = b\<lparr>b64_bitarray := replicate ?n 0\<rparr>"
    using assms(1) ba_size_eq [OF assms(5)]
    by (auto simp: ba_new_bmap_def ba_alloc_private_data_def alloc_bytes_def memset_at_def
        split: sum.splits)
  have z: "\<not> bit_at (replicate ?n 0) k" if "k div 8 < ?n" for k
    unfolding bit_at_def using that by (simp del: replicate.simps)
  have ok: "window_ok (b64_start b) (b64_end b) (b64_real_end b) (replicate ?n 0)"
    using assms(2,3) by (simp add: window_ok_def)
  show "b64_inv b'" using assms(4,5) ok by (simp add: b' b64_inv_def)
  have "\<not> bit_at (replicate ?n 0) (unat (c - b64_start b))" if "in_window (b64_start b) (b64_end b) c" for c
    using z window_index(2) [OF ok that] by simp
  then show "b64_elems b' = {}" by (auto simp: b' b64_elems_def window_set_def)
  show "slack_clear (unat (b64_real_end b' - b64_start b')) (b64_bitarray b')"
    using z by (auto simp: slack_clear_def b')
qed (use assms(1) in \<open>auto simp: ba_new_bmap_def ba_alloc_private_data_def split: sum.splits\<close>)

section \<open>The generic layer as a set of numbers\<close>

text \<open>
  Either layout denotes a set of 64-bit numbers. Maps of clusters (\<open>cluster_bits > 0\<close>) are
  treated apart: there a mark of one block is a mark of its whole cluster.
\<close>

definition gb_inv :: "gbitmap \<Rightarrow> bool" where
  "gb_inv gb = (case gb of B32 b \<Rightarrow> b32_inv b | B64 b \<Rightarrow> b64_inv b \<and> b64_cluster_bits b = 0)"

definition gb_elems :: "gbitmap \<Rightarrow> u64 set" where
  "gb_elems gb = (case gb of B32 b \<Rightarrow> {n. unat n < 2 ^ 32 \<and> ucast n \<in> b32_elems b} | B64 b \<Rightarrow> b64_elems b)"

definition gb_valid :: "gbitmap \<Rightarrow> u64 \<Rightarrow> bool" where
  "gb_valid gb = (case gb of B32 b \<Rightarrow> (\<lambda>n. unat n < 2 ^ 32 \<and> b32_valid b (ucast n))
     | B64 b \<Rightarrow> in_window (b64_start b) (b64_end b))"

definition gb_in_range :: "gbitmap \<Rightarrow> u64 \<Rightarrow> nat \<Rightarrow> bool" where
  "gb_in_range gb k n =
     (case gb of
        B32 b \<Rightarrow> b32_magic b = EXT2_ET_MAGIC_BLOCK_BITMAP \<and> unat k < 2 ^ 32 \<and> b32_in_range b (ucast k) n
      | B64 b \<Rightarrow> n < 2 ^ 32 \<and> extent_in (b64_start b) (b64_end b) k n)"

definition gb_mark :: "u64 \<Rightarrow> gbitmap \<Rightarrow> gbitmap" where
  "gb_mark n gb = the (snd (ext2fs_mark_generic_bmap (Some gb) n))"

definition gb_unmark :: "u64 \<Rightarrow> gbitmap \<Rightarrow> gbitmap" where
  "gb_unmark n gb = the (snd (ext2fs_unmark_generic_bmap (Some gb) n))"

definition gb_mark_range :: "u64 \<Rightarrow> nat \<Rightarrow> gbitmap \<Rightarrow> gbitmap" where
  "gb_mark_range k n gb = the (ext2fs_mark_block_bitmap_range2 (Some gb) k (of_nat n))"

definition gb_unmark_range :: "u64 \<Rightarrow> nat \<Rightarrow> gbitmap \<Rightarrow> gbitmap" where
  "gb_unmark_range k n gb = the (ext2fs_unmark_block_bitmap_range2 (Some gb) k (of_nat n))"

definition gb_test_range :: "u64 \<Rightarrow> nat \<Rightarrow> gbitmap \<Rightarrow> bool" where
  "gb_test_range k n gb = (ext2fs_test_block_bitmap_range2 (Some gb) k (of_nat n) = Inr True)"

lemmas gb_defs = gb_inv_def gb_elems_def gb_valid_def gb_in_range_def

text \<open>32-bit maps.\<close>

lemma gb_bits32:
  assumes "b32_inv b"
  shows "gb_mark n (B32 b) =
      (if unat n < 2 ^ 32 then B32 (snd (mark_generic_bitmap32 b (ucast n))) else B32 b)"
    "gb_unmark n (B32 b) =
      (if unat n < 2 ^ 32 then B32 (snd (unmark_generic_bitmap32 b (ucast n))) else B32 b)"
    "ext2fs_test_generic_bmap (Some (B32 b)) n \<noteq> 0 \<longleftrightarrow> n \<in> gb_elems (B32 b)"
  using assms high_bits_zero [of n] test32_iff [OF assms, of "ucast n"]
  by (auto simp: gb_mark_def gb_unmark_def ext2fs_mark_generic_bmap_def ext2fs_unmark_generic_bmap_def
      ext2fs_test_generic_bmap_def gb_elems_def b32_inv_def case_prod_beta)

lemma extent_set_ucast:
  fixes k x :: u64
  assumes "unat k < 2 ^ 32" "unat k + n \<le> 2 ^ 32"
  shows "x \<in> extent_set k n \<longleftrightarrow> unat x < 2 ^ 32 \<and> ucast x \<in> extent_set (ucast k :: u32) n"
  using assms unat_ucast_u32 [of k] unat_ucast_u32 [of x] by (auto simp: extent_set_def)

lemma gb_range32:
  assumes "gb_inv (B32 b)" "gb_in_range (B32 b) k n"
  shows "unat k + n \<le> 2 ^ 32"
    "ext2fs_mark_block_bitmap_range2 (Some (B32 b)) k (of_nat n) =
       Some (B32 (ext2fs_mark_block_bitmap_range b (ucast k) (of_nat n)))"
    "ext2fs_unmark_block_bitmap_range2 (Some (B32 b)) k (of_nat n) =
       Some (B32 (ext2fs_unmark_block_bitmap_range b (ucast k) (of_nat n)))"
    "ext2fs_test_block_bitmap_range2 (Some (B32 b)) k (of_nat n) =
       Inr (ext2fs_test_clear_generic_bitmap_range b (ucast k) (of_nat n))"
proof -
  have a: "b32_inv b" "b32_magic b = EXT2_ET_MAGIC_BLOCK_BITMAP" "unat k < 2 ^ 32"
    "b32_in_range b (ucast k) n"
    using assms by (auto simp: gb_defs)
  have n: "0 < n" "n < 2 ^ 31" "unat k + n \<le> unat (b32_end b) + 1"
    using a unat_ucast_u32 [OF a(3)] by (auto simp: b32_in_range_def extent_in_def)
  show le: "unat k + n \<le> 2 ^ 32" using n(3) unat_u32_bound [of "b32_end b"] by linarith
  have "ucast (of_nat n :: u32) = (of_nat n :: u64)"
    using n by (simp add: word_unat_eq_iff unat_of_nat_small)
  moreover have "k + of_nat n - 1 = k + of_nat (n - 1)" using n by (simp add: of_nat_diff)
  moreover have "unat (k + of_nat (n - 1)) = unat k + (n - 1)"
    using n le by (intro unat_plus_of_nat) simp
  ultimately have "unat (k + ucast (of_nat n :: u32) - 1) = unat k + (n - 1)" by (simp only:)
  then have hi: "(k + ucast (of_nat n :: u32) - 1) AND NOT 0xFFFFFFFF = 0"
    unfolding high_bits_zero using le n by simp
  have is32: "EXT2FS_IS_32_BITMAP (b32_magic b)" using a(1) by (simp add: b32_inv_def)
  show "ext2fs_mark_block_bitmap_range2 (Some (B32 b)) k (of_nat n) =
       Some (B32 (ext2fs_mark_block_bitmap_range b (ucast k) (of_nat n)))"
    "ext2fs_unmark_block_bitmap_range2 (Some (B32 b)) k (of_nat n) =
       Some (B32 (ext2fs_unmark_block_bitmap_range b (ucast k) (of_nat n)))"
    using hi is32 by (simp_all add: ext2fs_mark_block_bitmap_range2_def ext2fs_unmark_block_bitmap_range2_def)
  show "ext2fs_test_block_bitmap_range2 (Some (B32 b)) k (of_nat n) =
       Inr (ext2fs_test_clear_generic_bitmap_range b (ucast k) (of_nat n))"
  proof (cases "of_nat n = (1 :: u32)")
    case True
    then have "n = 1" using n unat_of_nat_small [of n, where ?'a = 32] by simp
    have "ext2fs_test_generic_bmap (Some (B32 b)) k = 0 \<longleftrightarrow> ucast k \<notin> b32_elems b"
      using gb_bits32(3) [OF a(1), of k] a(3) by (auto simp: gb_elems_def)
    also have "\<dots> \<longleftrightarrow> b32_elems b \<inter> extent_set (ucast k) n = {}"
    proof -
      have "extent_set (ucast k :: u32) 1 = {ucast k}"
        by (auto simp: extent_set_def word_unat_eq_iff)
      then show ?thesis using \<open>n = 1\<close> by simp
    qed
    finally show ?thesis
      using test_clear_range32 [OF a(1,4)] True by (simp add: ext2fs_test_block_bitmap_range2_def)
  next
    case False
    have "\<not> (ucast k < b32_start b \<or> ucast k + of_nat n - 1 > b32_real_end b)"
      using b32_in_range_word(3) [OF a(4)] a(1) by (auto simp: b32_inv_def window_ok_def)
    then show ?thesis
      using False hi is32 a(2) by (simp add: ext2fs_test_block_bitmap_range2_def ext2fs_test_block_bitmap_range_def)
  qed
qed

text \<open>64-bit maps of blocks.\<close>

lemma gb_bits64:
  assumes "b64_inv b" "b64_cluster_bits b = 0"
  shows "gb_mark n (B64 b) =
      (if in_window (b64_start b) (b64_end b) n then B64 (snd (ba_mark_bmap b n)) else B64 b)"
    "gb_unmark n (B64 b) =
      (if in_window (b64_start b) (b64_end b) n then B64 (snd (ba_unmark_bmap b n)) else B64 b)"
    "ext2fs_test_generic_bmap (Some (B64 b)) n \<noteq> 0 \<longleftrightarrow> n \<in> gb_elems (B64 b)"
proof -
  have w: "in_window (b64_start b) (b64_end b) n \<longleftrightarrow> \<not> (n < b64_start b \<or> n > b64_end b)"
    by (auto simp: in_window_def)
  have m: "EXT2FS_IS_64_BITMAP (b64_magic b)" using assms by (simp add: b64_inv_def)
  show "gb_mark n (B64 b) =
      (if in_window (b64_start b) (b64_end b) n then B64 (snd (ba_mark_bmap b n)) else B64 b)"
    "gb_unmark n (B64 b) =
      (if in_window (b64_start b) (b64_end b) n then B64 (snd (ba_unmark_bmap b n)) else B64 b)"
    using m assms(2) unfolding w
    by (simp_all add: gb_mark_def gb_unmark_def ext2fs_mark_generic_bmap_def
        ext2fs_unmark_generic_bmap_def case_prod_beta)
  have "n \<in> gb_elems (B64 b) \<Longrightarrow> in_window (b64_start b) (b64_end b) n"
    by (simp add: gb_elems_def b64_elems_def window_set_def)
  then show "ext2fs_test_generic_bmap (Some (B64 b)) n \<noteq> 0 \<longleftrightarrow> n \<in> gb_elems (B64 b)"
    using m assms(2) ba_bits(1) [OF assms(1)] w
    by (auto simp: ext2fs_test_generic_bmap_def gb_elems_def)
qed

lemma gb_range64:
  assumes "gb_inv (B64 b)" "gb_in_range (B64 b) k n"
  shows "unat (of_nat n :: u32) = n"
    "ext2fs_mark_block_bitmap_range2 (Some (B64 b)) k (of_nat n) = Some (B64 (ba_mark_bmap_extent b k (of_nat n)))"
    "ext2fs_unmark_block_bitmap_range2 (Some (B64 b)) k (of_nat n) = Some (B64 (ba_unmark_bmap_extent b k (of_nat n)))"
    "ext2fs_test_block_bitmap_range2 (Some (B64 b)) k (of_nat n) = Inr (b64_elems b \<inter> extent_set k n = {})"
proof -
  have a: "b64_inv b" "b64_cluster_bits b = 0" "n < 2 ^ 32" "extent_in (b64_start b) (b64_end b) k n"
    using assms by (auto simp: gb_defs)
  have n: "0 < n" "unat k + n \<le> unat (b64_end b) + 1" "b64_start b \<le> k"
    using a(4) by (auto simp: extent_in_def)
  show u: "unat (of_nat n :: u32) = n" using a(3) by (intro unat_of_nat_small) simp
  have m: "EXT2FS_IS_64_BITMAP (b64_magic b)" using a by (simp add: b64_inv_def)
  have "ucast (of_nat n :: u32) = (of_nat n :: u64)"
    using a(3) u by (simp add: word_unat_eq_iff unat_of_nat_small)
  moreover have "k + of_nat n - 1 = k + of_nat (n - 1)" using n by (simp add: of_nat_diff)
  moreover have "unat (k + of_nat (n - 1)) = unat k + (n - 1)"
    using n unat_u64_bound [of "b64_end b"] by (intro unat_plus_of_nat) simp
  ultimately have "unat (k + ucast (of_nat n :: u32) - 1) = unat k + (n - 1)" by (simp only:)
  then have c: "\<not> (k < b64_start b \<or> k + ucast (of_nat n :: u32) - 1 > b64_end b)"
    using n by (simp add: not_less word_le_nat_alt)
  show "ext2fs_mark_block_bitmap_range2 (Some (B64 b)) k (of_nat n) = Some (B64 (ba_mark_bmap_extent b k (of_nat n)))"
    "ext2fs_unmark_block_bitmap_range2 (Some (B64 b)) k (of_nat n) = Some (B64 (ba_unmark_bmap_extent b k (of_nat n)))"
    using m c by (simp_all add: ext2fs_mark_block_bitmap_range2_def ext2fs_unmark_block_bitmap_range2_def)
  have ext: "ba_test_clear_bmap_extent b k (of_nat n) \<longleftrightarrow> b64_elems b \<inter> extent_set k n = {}"
    using ba_extents(5) [OF a(1), of k "of_nat n"] a(4) by (simp only: u)
  show "ext2fs_test_block_bitmap_range2 (Some (B64 b)) k (of_nat n) = Inr (b64_elems b \<inter> extent_set k n = {})"
  proof (cases "of_nat n = (1 :: u32)")
    case True
    then have "n = 1" using u by simp
    have "extent_set k 1 = {k}" by (auto simp: extent_set_def word_unat_eq_iff)
    then have "(ext2fs_test_generic_bmap (Some (B64 b)) k = 0) = (b64_elems b \<inter> extent_set k n = {})"
      using gb_bits64(3) [OF a(1,2), of k] \<open>n = 1\<close> by (auto simp: gb_elems_def)
    then show ?thesis using True by (simp add: ext2fs_test_block_bitmap_range2_def)
  next
    case False
    then show ?thesis using m ext by (simp add: ext2fs_test_block_bitmap_range2_def)
  qed
qed

text \<open>Both layouts together.\<close>

lemma gb_marks:
  assumes "gb_inv gb"
  shows "(gb_inv (gb_mark n gb) \<and>
      gb_elems (gb_mark n gb) = (if gb_valid gb n then insert n (gb_elems gb) else gb_elems gb) \<and>
      gb_valid (gb_mark n gb) = gb_valid gb) \<and>
    (gb_inv (gb_unmark n gb) \<and> gb_elems (gb_unmark n gb) = gb_elems gb - {n} \<and>
      gb_valid (gb_unmark n gb) = gb_valid gb) \<and>
    (ext2fs_test_generic_bmap (Some gb) n \<noteq> 0 \<longleftrightarrow> n \<in> gb_elems gb) \<and>
    (n \<in> gb_elems gb \<longrightarrow> gb_valid gb n)"
proof (cases gb)
  case (B32 b)
  have inv: "b32_inv b" using assms by (simp add: gb_inv_def B32)
  have inj: "unat x < 2 ^ 32 \<Longrightarrow> unat n < 2 ^ 32 \<Longrightarrow> (ucast x :: u32) = ucast n \<longleftrightarrow> x = n" for x
    by (metis ucast_u32_u64)
  show ?thesis
    unfolding B32 gb_bits32(3) [OF inv]
    using mark32(1-3) [OF inv, of "ucast n"] unmark32(1-3) [OF inv, of "ucast n"] inv inj
    by (auto simp: gb_bits32(1,2) [OF inv] gb_defs b32_elems_def b32_valid_def window_set_def)
next
  case (B64 b)
  have inv: "b64_inv b" "b64_cluster_bits b = 0" using assms by (auto simp: gb_inv_def B64)
  have same: "b64_start (snd (ba_mark_bmap b n)) = b64_start b" "b64_end (snd (ba_mark_bmap b n)) = b64_end b"
    "b64_cluster_bits (snd (ba_mark_bmap b n)) = b64_cluster_bits b"
    "b64_start (snd (ba_unmark_bmap b n)) = b64_start b" "b64_end (snd (ba_unmark_bmap b n)) = b64_end b"
    "b64_cluster_bits (snd (ba_unmark_bmap b n)) = b64_cluster_bits b"
    by (simp_all add: ba_mark_bmap_def ba_unmark_bmap_def case_prod_beta)
  show ?thesis
    unfolding B64 gb_bits64(3) [OF inv]
    using ba_put [OF inv(1), of n] inv
    by (auto simp: gb_bits64(1,2) [OF inv] gb_defs same b64_elems_def window_set_def)
qed

lemma gb_in_range_upd:
  "b32_magic b' = b32_magic b \<Longrightarrow> b32_in_range b' = b32_in_range b \<Longrightarrow>
     gb_in_range (B32 b') = gb_in_range (B32 b)"
  "b64_start c' = b64_start c \<Longrightarrow> b64_end c' = b64_end c \<Longrightarrow> gb_in_range (B64 c') = gb_in_range (B64 c)"
  by (auto simp: gb_in_range_def fun_eq_iff)

lemma gb_extents:
  assumes "gb_inv gb" "gb_in_range gb k n"
  shows "(gb_inv (gb_mark_range k n gb) \<and>
      gb_elems (gb_mark_range k n gb) = gb_elems gb \<union> extent_set k n \<and>
      gb_in_range (gb_mark_range k n gb) = gb_in_range gb) \<and>
    (gb_inv (gb_unmark_range k n gb) \<and>
      gb_elems (gb_unmark_range k n gb) = gb_elems gb - extent_set k n \<and>
      gb_in_range (gb_unmark_range k n gb) = gb_in_range gb) \<and>
    (gb_test_range k n gb \<longleftrightarrow> gb_elems gb \<inter> extent_set k n = {})"
proof (cases gb)
  case (B32 b)
  note g = gb_range32 [OF assms [unfolded B32]]
  have a: "b32_inv b" "unat k < 2 ^ 32" "b32_in_range b (ucast k) n"
    using assms by (auto simp: gb_defs B32)
  have x: "x \<in> extent_set k n \<longleftrightarrow> unat x < 2 ^ 32 \<and> ucast x \<in> extent_set (ucast k :: u32) n" for x
    by (rule extent_set_ucast [OF a(2) g(1)])
  have mg: "b32_magic (ext2fs_mark_block_bitmap_range b (ucast k) (of_nat n)) = b32_magic b"
    "b32_magic (ext2fs_unmark_block_bitmap_range b (ucast k) (of_nat n)) = b32_magic b"
    by (simp_all add: ext2fs_mark_block_bitmap_range_def ext2fs_unmark_block_bitmap_range_def)
  have dis: "gb_elems gb \<inter> extent_set k n = {} \<longleftrightarrow> b32_elems b \<inter> extent_set (ucast k) n = {}"
  proof -
    have "\<exists>x :: u64. unat x < 2 ^ 32 \<and> ucast x = y" for y :: u32
      by (intro exI [of _ "ucast y"]) (use unat_u32_bound [of y] in \<open>simp add: word_unat_eq_iff unat_ucast_u32\<close>)
    then have "(\<forall>x :: u64. unat x < 2 ^ 32 \<longrightarrow> ucast x \<notin> b32_elems b \<inter> extent_set (ucast k) n) \<longleftrightarrow>
      (\<forall>y. y \<notin> b32_elems b \<inter> extent_set (ucast k) n)" by metis
    then show ?thesis unfolding B32 gb_elems_def by (auto simp: x)
  qed
  note m = mark_range32 [OF a(1,3)] and u = unmark_range32 [OF a(1,3)]
  have e: "gb_mark_range k n gb = B32 (ext2fs_mark_block_bitmap_range b (ucast k) (of_nat n))"
    "gb_unmark_range k n gb = B32 (ext2fs_unmark_block_bitmap_range b (ucast k) (of_nat n))"
    "gb_test_range k n gb = ext2fs_test_clear_generic_bitmap_range b (ucast k) (of_nat n)"
    by (simp_all add: gb_mark_range_def gb_unmark_range_def gb_test_range_def B32 g)
  have "gb_elems (B32 (ext2fs_mark_block_bitmap_range b (ucast k) (of_nat n))) = gb_elems gb \<union> extent_set k n"
    "gb_elems (B32 (ext2fs_unmark_block_bitmap_range b (ucast k) (of_nat n))) = gb_elems gb - extent_set k n"
    by (auto simp: B32 gb_elems_def m(2) u(2) x)
  then show ?thesis
    unfolding dis e using test_clear_range32 [OF a(1,3)] m(1) u(1)
      gb_in_range_upd(1) [OF mg(1) m(3)] gb_in_range_upd(1) [OF mg(2) u(3)]
    by (simp add: gb_inv_def B32)
next
  case (B64 b)
  note g = gb_range64 [OF assms [unfolded B64]]
  have a: "b64_inv b" "b64_cluster_bits b = 0" "extent_in (b64_start b) (b64_end b) k (unat (of_nat n :: u32))"
    using assms g(1) by (auto simp: gb_defs B64)
  note e = ba_extents [OF a(1,3), unfolded g(1)]
  have same: "b64_start (ba_mark_bmap_extent b k m) = b64_start b" "b64_end (ba_mark_bmap_extent b k m) = b64_end b"
    "b64_start (ba_unmark_bmap_extent b k m) = b64_start b" "b64_end (ba_unmark_bmap_extent b k m) = b64_end b"
    "b64_cluster_bits (ba_mark_bmap_extent b k m) = b64_cluster_bits b"
    "b64_cluster_bits (ba_unmark_bmap_extent b k m) = b64_cluster_bits b" for m
    by (simp_all add: ba_mark_bmap_extent_def ba_unmark_bmap_extent_def)
  show ?thesis
    unfolding gb_mark_range_def gb_unmark_range_def gb_test_range_def B64 g(2-4) option.sel
    using e a(2) gb_in_range_upd(2) [OF same(1,2)] gb_in_range_upd(2) [OF same(3,4)]
    by (simp add: gb_inv_def gb_elems_def same)
qed

lemma gb_clear:
  assumes "gb_inv gb"
  shows "gb_inv (the (ext2fs_clear_generic_bitmap gb)) \<and>
    gb_elems (the (ext2fs_clear_generic_bitmap gb)) = {} \<and>
    gb_in_range (the (ext2fs_clear_generic_bitmap gb)) = gb_in_range gb"
proof (cases gb)
  case (B32 b)
  have inv: "b32_inv b" using assms by (simp add: gb_inv_def B32)
  then have c: "the (ext2fs_clear_generic_bitmap gb) = B32 (clear_generic_bitmap32 b)"
    by (simp add: B32 ext2fs_clear_generic_bitmap_def b32_inv_def)
  have mg: "b32_magic (clear_generic_bitmap32 b) = b32_magic b"
    by (simp add: clear_generic_bitmap32_def)
  show ?thesis
    using clear32 [OF inv] gb_in_range_upd(1) [OF mg] unfolding c
    by (simp add: gb_inv_def gb_elems_def B32)
next
  case (B64 b)
  have inv: "b64_inv b" "b64_cluster_bits b = 0" using assms by (auto simp: gb_inv_def B64)
  then have c: "the (ext2fs_clear_generic_bitmap gb) = B64 (ba_clear_bmap b)"
    by (simp add: B64 ext2fs_clear_generic_bitmap_def ext2fs_clear_generic_bmap_def b64_inv_def)
  have same: "b64_start (ba_clear_bmap b) = b64_start b" "b64_end (ba_clear_bmap b) = b64_end b"
    "b64_cluster_bits (ba_clear_bmap b) = b64_cluster_bits b"
    by (simp_all add: ba_clear_bmap_def)
  show ?thesis
    using ba_clear [OF inv(1)] inv(2) same gb_in_range_upd(2) [OF same(1,2)] unfolding c
    by (simp add: gb_inv_def gb_elems_def B64)
qed

interpretation gb: bitmap_ops
  where inv = gb_inv and elems = gb_elems and valid = gb_valid
    and ins = "\<lambda>(h :: unit) n gb. Inr (gb_mark n gb)" and del = gb_unmark
    and mem = "\<lambda>gb n. ext2fs_test_generic_bmap (Some gb) n \<noteq> 0"
    and mark_extent = gb_mark_range and unmark_extent = gb_unmark_range
    and test_clear_extent = gb_test_range
    and clear = "\<lambda>gb. the (ext2fs_clear_generic_bitmap gb)" and in_range = gb_in_range
proof
  fix s s' k and h :: unit and n
  assume inv: "gb_inv s"
  note m = gb_marks [OF inv, of k]
  show "gb_inv (gb_unmark k s) \<and> gb_elems (gb_unmark k s) = gb_elems s - {k} \<and>
      gb_valid (gb_unmark k s) = gb_valid s"
    "(ext2fs_test_generic_bmap (Some s) k \<noteq> 0) = (k \<in> gb_elems s)"
    using m by blast+
  show "k \<in> gb_elems s \<Longrightarrow> gb_valid s k" using m by blast
  show "Inr (gb_mark k s) = Inr s' \<Longrightarrow> gb_inv s' \<and>
      gb_elems s' = (if gb_valid s k then insert k (gb_elems s) else gb_elems s) \<and> gb_valid s' = gb_valid s"
    using m by (simp only: sum.inject)
  show "gb_inv (the (ext2fs_clear_generic_bitmap s)) \<and>
      gb_elems (the (ext2fs_clear_generic_bitmap s)) = {} \<and>
      gb_in_range (the (ext2fs_clear_generic_bitmap s)) = gb_in_range s"
    by (rule gb_clear [OF inv])
  assume "gb_in_range s k n"
  note e = gb_extents [OF inv this]
  show "gb_inv (gb_mark_range k n s) \<and>
      gb_elems (gb_mark_range k n s) = gb_elems s \<union> extent_set k n \<and>
      gb_in_range (gb_mark_range k n s) = gb_in_range s"
    "gb_inv (gb_unmark_range k n s) \<and>
      gb_elems (gb_unmark_range k n s) = gb_elems s - extent_set k n \<and>
      gb_in_range (gb_unmark_range k n s) = gb_in_range s"
    "gb_test_range k n s = (gb_elems s \<inter> extent_set k n = {})"
    using e by blast+
qed

section \<open>Maps of clusters\<close>

text \<open>Marking a block of a cluster map is marking every block of its cluster.\<close>

lemma cluster_mark:
  assumes "b64_inv b" "in_window (b64_start b) (b64_end b) (drop_bit (b64_cluster_bits b) n)"
  shows "\<exists>b'. ext2fs_mark_generic_bmap (Some (B64 b)) n = (fst (ba_mark_bmap b (drop_bit (b64_cluster_bits b) n)), Some (B64 b')) \<and>
    b64_inv b' \<and>
    (\<forall>m. ext2fs_test_generic_bmap (Some (B64 b')) m \<noteq> 0 \<longleftrightarrow>
      drop_bit (b64_cluster_bits b) m = drop_bit (b64_cluster_bits b) n \<or>
      ext2fs_test_generic_bmap (Some (B64 b)) m \<noteq> 0)"
proof -
  let ?c = "b64_cluster_bits b"
  define b' where "b' = snd (ba_mark_bmap b (drop_bit ?c n))"
  have t: "ext2fs_test_generic_bmap (Some (B64 x)) m \<noteq> 0 \<longleftrightarrow> drop_bit (b64_cluster_bits x) m \<in> b64_elems x"
    if "b64_inv x" for x m
  proof -
    have "EXT2FS_IS_64_BITMAP (b64_magic x)" using that by (simp add: b64_inv_def)
    then show ?thesis
      using ba_bits(1) [OF that] 
      by (auto simp: ext2fs_test_generic_bmap_def Let_def in_window_def not_less b64_elems_def window_set_def)
  qed
  note p = ba_put(1,2) [OF assms, folded b'_def]
  have cb: "b64_cluster_bits b' = ?c" by (simp add: b'_def ba_mark_bmap_def case_prod_beta)
  have "ext2fs_mark_generic_bmap (Some (B64 b)) n = (fst (ba_mark_bmap b (drop_bit ?c n)), Some (B64 b'))"
    using assms by (auto simp: ext2fs_mark_generic_bmap_def b64_inv_def in_window_def b'_def Let_def
        case_prod_beta not_less)
  then show ?thesis
    using p cb by (intro exI [of _ b']) (simp add: t assms(1))
qed

section \<open>Resizing\<close>

lemma clear_down64_bits:
  assumes "start \<le> end1" "\<forall>k \<le> unat bitno - unat start. k div 8 < length A"
  shows "length (clear_down64 bitno end1 start A) = length A"
    "bit_at (clear_down64 bitno end1 start A) k \<longleftrightarrow>
       bit_at A k \<and> \<not> (unat end1 - unat start < k \<and> k \<le> unat bitno - unat start)"
proof -
  have "length (clear_down64 bitno end1 start A) = length A \<and>
    (\<forall>k. bit_at (clear_down64 bitno end1 start A) k \<longleftrightarrow>
       bit_at A k \<and> \<not> (unat end1 - unat start < k \<and> k \<le> unat bitno - unat start))"
    using assms
  proof (induction bitno end1 start A rule: clear_down64.induct)
    case (1 bitno end1 start A)
    show ?case
    proof (cases "bitno > end1")
      case False
      then have "\<not> (unat end1 - unat start < k \<and> k \<le> unat bitno - unat start)" for k
        by (auto simp: word_less_nat_alt)
      then show ?thesis using False by (subst (1 2) clear_down64.simps) auto
    next
      case True
      define A' where "A' = put_bit False (unat bitno - unat start) A"
      have u: "unat start \<le> unat end1" "unat end1 < unat bitno"
        using True "1.prems"(1) by (auto simp: word_less_nat_alt word_le_nat_alt)
      then have b1: "unat (bitno - 1) = unat bitno - 1" by (intro unat_minus_one) auto
      have d: "unat (bitno - start) = unat bitno - unat start"
        using u by (intro unat_diff) (simp add: word_le_nat_alt)
      have step: "clear_down64 bitno end1 start A = clear_down64 (bitno - 1) end1 start A'"
        using True by (subst clear_down64.simps) (simp add: A'_def d)
      have eq: "snd (ext2fs_clear_bit64 (bitno - start) A) = A'" by (simp add: A'_def d)
      have "\<forall>k \<le> unat (bitno - 1) - unat start. k div 8 < length A'"
        using "1.prems"(2) by (simp add: A'_def b1)
      then have "length (clear_down64 (bitno - 1) end1 start A') = length A' \<and>
        (\<forall>k. bit_at (clear_down64 (bitno - 1) end1 start A') k \<longleftrightarrow>
          bit_at A' k \<and> \<not> (unat end1 - unat start < k \<and> k \<le> unat (bitno - 1) - unat start))"
        using "1.IH" [unfolded eq, OF True "1.prems"(1)] by blast
      moreover have "bit_at A' k \<longleftrightarrow> k \<noteq> unat bitno - unat start \<and> bit_at A k" for k
        using "1.prems"(2) by (simp add: A'_def)
      moreover have "(k \<noteq> n \<and> P) \<and> \<not> (e < k \<and> k \<le> n - 1) \<longleftrightarrow> P \<and> \<not> (e < k \<and> k \<le> n)"
        if "e < n" for e n k :: nat and P using that by auto
      moreover have "unat end1 - unat start < unat bitno - unat start"
        "unat (bitno - 1) - unat start = unat bitno - unat start - 1" "length A' = length A"
        using u b1 by (auto simp: A'_def)
      ultimately show ?thesis
        unfolding step by (simp only:) simp
    qed
  qed
  then show "length (clear_down64 bitno end1 start A) = length A"
    "bit_at (clear_down64 bitno end1 start A) k \<longleftrightarrow>
       bit_at A k \<and> \<not> (unat end1 - unat start < k \<and> k \<le> unat bitno - unat start)" by auto
qed

lemma ba_resize:
  assumes inv: "b64_inv b" and slack: "slack_clear (unat (b64_real_end b - b64_start b)) (b64_bitarray b)"
    and new: "b64_start b \<le> new_end" "new_end \<le> new_real_end"
      "unat (new_real_end - b64_start b) div 8 + 1 < 2 ^ 32"
    and r: "ba_resize_bmap h b new_end new_real_end = Inr b'"
  shows "b64_start b' = b64_start b" "b64_end b' = new_end" "b64_real_end b' = new_real_end"
    "b64_magic b' = b64_magic b"
    "unat (new_real_end - b64_start b) div 8 < length (b64_bitarray b')"
    "k \<le> unat (new_end - b64_start b) \<Longrightarrow>
       bit_at (b64_bitarray b') k \<longleftrightarrow> k \<le> unat (b64_end b - b64_start b) \<and> bit_at (b64_bitarray b) k"
proof -
  define s where "s = b64_start b"
  define A where "A = b64_bitarray b"
  define d D d' D' where "d = unat (b64_end b - s)" and "D = unat (b64_real_end b - s)"
    and "d' = unat (new_end - s)" and "D' = unat (new_real_end - s)"
  define lim where "lim = (if b64_real_end b > new_end then new_end else b64_real_end b)"
  define B where "B = (if new_end > b64_end b then clear_down64 lim (b64_end b) s A else A)"
  have w: "s \<le> b64_end b" "b64_end b \<le> b64_real_end b" "s \<le> new_end" "s \<le> new_real_end"
    and AD: "D div 8 < length A"
    using inv new by (auto simp: b64_inv_def window_ok_def s_def A_def D_def)
  have ds: "d = unat (b64_end b) - unat s" "D = unat (b64_real_end b) - unat s"
    "d' = unat new_end - unat s" "D' = unat new_real_end - unat s"
    using w unfolding d_def D_def d'_def D'_def by (auto intro!: unat_diff)
  have le: "unat s \<le> unat (b64_end b)" "unat (b64_end b) \<le> unat (b64_real_end b)"
    "unat s \<le> unat new_end" "unat new_end \<le> unat new_real_end"
    using w new by (auto simp: word_le_nat_alt s_def)
  have dd: "d \<le> D" "d' \<le> D'" using le by (auto simp: ds)
  have lim: "unat lim - unat s = min D d'"
    by (auto simp: lim_def ds word_less_nat_alt min_def)
  have "length B = length A \<and> (\<forall>k. bit_at B k \<longleftrightarrow> bit_at A k \<and> \<not> (d < k \<and> k \<le> min D d'))"
  proof (cases "new_end > b64_end b")
    case True
    have "\<forall>k \<le> unat lim - unat s. k div 8 < length A"
      unfolding lim using AD div_le_mono by (meson le_less_trans min.boundedE)
    from clear_down64_bits [OF w(1) this] show ?thesis
      using True by (simp add: B_def lim ds)
  next
    case False
    then have "\<not> (d < k \<and> k \<le> min D d')" for k by (auto simp: ds word_less_nat_alt)
    then show ?thesis using False by (auto simp: B_def)
  qed
  then have B: "length B = length A" "\<And>k. bit_at B k \<longleftrightarrow> bit_at A k \<and> \<not> (d < k \<and> k \<le> min D d')"
    by blast+
  have sz: "ba_size s (b64_real_end b) = D div 8 + 1" "ba_size s new_real_end = D' div 8 + 1"
    using b64_size [OF inv] ba_size_eq [OF new(3)] by (simp_all add: s_def D_def D'_def)
  have bm: "(if new_end > b64_end b then b\<lparr>b64_bitarray :=
      clear_down64 (if b64_real_end b > new_end then new_end else b64_real_end b) (b64_end b)
        (b64_start b) (b64_bitarray b)\<rparr> else b) = b\<lparr>b64_bitarray := B\<rparr>"
    by (simp add: B_def lim_def s_def A_def)
  have r': "ba_resize_bmap h b new_end new_real_end =
      (if new_real_end = b64_real_end b then Inr (b\<lparr>b64_bitarray := B, b64_end := new_end\<rparr>)
       else case (if D div 8 \<noteq> D' div 8 then ext2fs_resize_mem h (D' div 8 + 1) 1 B else Inr B) of
              Inl e \<Rightarrow> Inl e
            | Inr C \<Rightarrow> Inr (b\<lparr>b64_bitarray := (if D' div 8 > D div 8
                then memset_at C (D div 8 + 1) 0 (D' div 8 - D div 8) else C),
                b64_end := new_end, b64_real_end := new_real_end\<rparr>))"
    unfolding ba_resize_bmap_def bm Let_def by (simp add: sz [unfolded s_def] split: sum.split)
  obtain C E where
    C: "if D div 8 = D' div 8 then C = B
        else length C = D' div 8 + 1 \<and> (\<forall>i < min (length B) (length C). C ! i = B ! i)"
    and E: "E = (if D' div 8 > D div 8 then memset_at C (D div 8 + 1) 0 (D' div 8 - D div 8) else C)"
    and b': "b64_bitarray b' = E" "b64_start b' = s" "b64_end b' = new_end"
      "b64_real_end b' = new_real_end" "b64_magic b' = b64_magic b"
  proof (cases "new_real_end = b64_real_end b")
    case True
    then have "b64_bitarray b' = B" "b64_start b' = s" "b64_end b' = new_end"
      "b64_real_end b' = new_real_end" "b64_magic b' = b64_magic b" "D' = D"
      using r unfolding r' by (auto simp: s_def D_def D'_def)
    then show ?thesis by (intro that [of B B]) auto
  next
    case False
    then obtain C where c: "(if D div 8 \<noteq> D' div 8 then ext2fs_resize_mem h (D' div 8 + 1) 1 B else Inr B) = Inr C"
      and bb: "b' = b\<lparr>b64_bitarray := (if D' div 8 > D div 8
                then memset_at C (D div 8 + 1) 0 (D' div 8 - D div 8) else C),
                b64_end := new_end, b64_real_end := new_real_end\<rparr>"
      using r unfolding r' by (auto split: sum.splits)
    have "if D div 8 = D' div 8 then C = B
        else length C = D' div 8 + 1 \<and> (\<forall>i < min (length B) (length C). C ! i = B ! i)"
      using c ext2fs_resize_mem_length [of h "D' div 8 + 1" 1 B C]
        ext2fs_resize_mem_nth [of h "D' div 8 + 1" 1 B C] by (auto split: if_splits)
    then show ?thesis
      by (rule that) (auto simp: bb s_def)
  qed
  show "b64_start b' = b64_start b" "b64_end b' = new_end" "b64_real_end b' = new_real_end"
    "b64_magic b' = b64_magic b"
    using b' by (auto simp: s_def)
  note rb = resize_bits [OF AD _ dd B C E]
  have sl: "slack_clear D A" using slack by (simp add: D_def A_def s_def)
  show "unat (new_real_end - b64_start b) div 8 < length (b64_bitarray b')"
    using rb(2) [OF sl, of 0] by (simp add: b'(1) D'_def s_def)
  show "k \<le> unat (new_end - b64_start b) \<Longrightarrow>
       bit_at (b64_bitarray b') k \<longleftrightarrow> k \<le> unat (b64_end b - b64_start b) \<and> bit_at (b64_bitarray b) k"
    using rb(1) [OF sl, of k] by (simp add: b'(1) d'_def d_def s_def A_def)
qed

lemma ba_resize_elems:
  assumes inv: "b64_inv b" and slack: "slack_clear (unat (b64_real_end b - b64_start b)) (b64_bitarray b)"
    and new: "b64_start b \<le> new_end" "new_end \<le> new_real_end"
      "unat (new_real_end - b64_start b) div 8 + 1 < 2 ^ 32"
    and r: "ba_resize_bmap h b new_end new_real_end = Inr b'"
  shows "b64_elems b' = {c \<in> b64_elems b. c \<le> new_end}"
    "window_ok (b64_start b') (b64_end b') (b64_real_end b') (b64_bitarray b')"
proof -
  note f = ba_resize [OF inv slack new r]
  have se: "b64_start b \<le> b64_end b" using inv by (simp add: b64_inv_def window_ok_def)
  have "bit_at (b64_bitarray b') (unat (c - b64_start b)) \<longleftrightarrow>
      c \<le> b64_end b \<and> bit_at (b64_bitarray b) (unat (c - b64_start b))"
    if "b64_start b \<le> c" "c \<le> new_end" for c
  proof -
    have u: "unat (c - b64_start b) = unat c - unat (b64_start b)"
      "unat (new_end - b64_start b) = unat new_end - unat (b64_start b)"
      "unat (b64_end b - b64_start b) = unat (b64_end b) - unat (b64_start b)"
      using that new(1) se by (auto intro!: unat_diff)
    have "unat (c - b64_start b) \<le> unat (new_end - b64_start b)"
      using that unfolding u by (simp add: word_le_nat_alt diff_le_mono)
    moreover have "unat (c - b64_start b) \<le> unat (b64_end b - b64_start b) \<longleftrightarrow> c \<le> b64_end b"
      using that se unfolding u by (auto simp: word_le_nat_alt)
    ultimately show ?thesis using f(6) by blast
  qed
  then show "b64_elems b' = {c \<in> b64_elems b. c \<le> new_end}"
    using new(1) by (auto simp: b64_elems_def window_set_def in_window_def f(1,2))
  show "window_ok (b64_start b') (b64_end b') (b64_real_end b') (b64_bitarray b')"
    using f(5) new by (simp add: window_ok_def f(1-3))
qed

section \<open>Comparison\<close>

lemma compare_tail64_correct:
  assumes "b64_end b1 \<noteq> -1"
  shows "compare_tail64 b1 b2 i =
    Some (\<forall>j. i \<le> j \<and> j \<le> b64_end b1 \<longrightarrow>
      ext2fs_test_generic_bmap (Some (B64 b1)) j = ext2fs_test_generic_bmap (Some (B64 b2)) j)"
proof (induction "unat (b64_end b1) + 1 - unat i" arbitrary: i rule: less_induct)
  case less
  show ?case
  proof (cases "i \<le> b64_end b1")
    case False
    then have "\<not> (i \<le> j \<and> j \<le> b64_end b1)" for j by auto
    then show ?thesis using False by (subst compare_tail64.simps) auto
  next
    case True
    have "i \<noteq> -1" using True assms by (metis word_order.extremum_unique)
    then have "i + 1 \<noteq> 0" by (metis add_eq_0_iff2 add.inverse_inverse minus_equation_iff)
    then have u: "unat (i + 1) = Suc (unat i)" by (rule unat_plus_one)
    then have step: "i \<le> j \<longleftrightarrow> j = i \<or> i + 1 \<le> j" for j
      by (auto simp: word_le_nat_alt word_unat_eq_iff)
    have lt: "unat (b64_end b1) + 1 - unat (i + 1) < unat (b64_end b1) + 1 - unat i"
      using True u by (simp add: word_le_nat_alt)
    show ?thesis
      using True less.hyps [OF lt] by (subst compare_tail64.simps) (auto simp: step)
  qed
qed

lemma test64_eq_iff:
  assumes "b64_inv b1" "b64_inv b2" "b64_cluster_bits b1 = 0" "b64_cluster_bits b2 = 0"
    and "b64_start b1 = b64_start b2" "b64_end b1 = b64_end b2"
  shows "ext2fs_test_generic_bmap (Some (B64 b1)) j = ext2fs_test_generic_bmap (Some (B64 b2)) j \<longleftrightarrow>
    (j \<in> b64_elems b1 \<longleftrightarrow> j \<in> b64_elems b2)"
  using assms
  by (auto simp: ext2fs_test_generic_bmap_def ba_test_bmap_def b64_inv_def b64_elems_def window_set_def
      in_window_def test_bit_eq_iff not_less)

section \<open>Properties\<close>

definition b64_sample :: gen_bitmap64 where
  "b64_sample = \<lparr>b64_magic = EXT2_ET_MAGIC_BLOCK_BITMAP64, b64_fs = None, b64_start = 0, b64_end = 15,
     b64_real_end = 15, b64_cluster_bits = 0, b64_description = None, b64_bitarray = [5, 16],
     b64_base_error_code = EXT2_ET_BAD_BLOCK_MARK\<rparr>"

lemma b64_sample_inv: "b64_inv b64_sample" "gb_inv (B64 b64_sample)"
  by (simp_all add: b64_inv_def window_ok_def b64_sample_def EXT2FS_IS_64_BITMAP_def gb_inv_def)

lemma b32_sample_gb_inv: "gb_inv (B32 b32_sample)"
  by (simp add: gb_inv_def b32_sample_inv)

text \<open>
  A map with clusters: every number is shifted by \<open>gb_shift\<close> before the map is looked up, and
  \<open>gb_flat\<close> is the map of the clusters themselves.
\<close>

definition gb_shift :: "gbitmap \<Rightarrow> nat" where
  "gb_shift gb = (case gb of B32 b \<Rightarrow> 0 | B64 b \<Rightarrow> b64_cluster_bits b)"

definition gb_flat :: "gbitmap \<Rightarrow> gbitmap" where
  "gb_flat gb = (case gb of B32 b \<Rightarrow> B32 b | B64 b \<Rightarrow> B64 (b\<lparr>b64_cluster_bits := 0\<rparr>))"

fun shift_op :: "nat \<Rightarrow> ('h, u64) set_op \<Rightarrow> ('h, u64) set_op" where
  "shift_op k (Ins h n) = Ins h (drop_bit k n)"
| "shift_op k (Del n) = Del (drop_bit k n)"

lemma gb_flat_bits:
  "gb_flat (gb_mark n g) = gb_mark (drop_bit (gb_shift g) n) (gb_flat g)"
  "gb_flat (gb_unmark n g) = gb_unmark (drop_bit (gb_shift g) n) (gb_flat g)"
  "gb_shift (gb_mark n g) = gb_shift g" "gb_shift (gb_unmark n g) = gb_shift g"
  "ext2fs_test_generic_bmap (Some g) n = ext2fs_test_generic_bmap (Some (gb_flat g)) (drop_bit (gb_shift g) n)"
  by (cases g; auto simp: gb_flat_def gb_shift_def gb_mark_def gb_unmark_def ext2fs_mark_generic_bmap_def
      ext2fs_unmark_generic_bmap_def ext2fs_test_generic_bmap_def ba_mark_bmap_def ba_unmark_bmap_def ba_test_bmap_def
      Let_def split: prod.splits)+

lemma gb_flat_run:
  "set_run (\<lambda>h n g. Inr (gb_mark n g)) gb_unmark ops g = Inr r \<Longrightarrow>
     set_run (\<lambda>h n g. Inr (gb_mark n g)) gb_unmark (map (shift_op (gb_shift g)) ops) (gb_flat g) = Inr (gb_flat r) \<and>
     gb_shift r = gb_shift g"
proof (induction ops arbitrary: g)
  case (Cons op ops)
  show ?case
  proof (cases op)
    case (Ins h n)
    then show ?thesis using Cons.prems Cons.IH [of "gb_mark n g"] by (simp add: gb_flat_bits)
  next
    case (Del n)
    then show ?thesis using Cons.prems Cons.IH [of "gb_unmark n g"] by (simp add: gb_flat_bits)
  qed
qed simp

text \<open>
  C10. After any sequence of marks and unmarks, of any 64-bit numbers, a test of a map says whether the
  cluster of the number, which is the number itself in a map without clusters, is in the set
  that the sequence gives for the clusters. So the 64-bit interface behaves the same on a 32-bit and on a
  64-bit map: if two maps have the same range, contents and cluster size (a 32-bit map has none), every
  test gives the same answer on both.
\<close>

theorem generic_bmap_layouts_agree:
  fixes ops :: "(unit, u64) set_op list"
  assumes "gb_inv (gb_flat g1)" "gb_inv (gb_flat g2)" "gb_elems (gb_flat g1) = gb_elems (gb_flat g2)"
    "gb_valid (gb_flat g1) = gb_valid (gb_flat g2)" "gb_shift g1 = gb_shift g2"
    and "set_run (\<lambda>h n g. Inr (gb_mark n g)) gb_unmark ops g1 = Inr r1"
    and "set_run (\<lambda>h n g. Inr (gb_mark n g)) gb_unmark ops g2 = Inr r2"
  shows "(ext2fs_test_generic_bmap (Some r1) n \<noteq> 0 \<longleftrightarrow>
      drop_bit (gb_shift g1) n \<in>
        foldl (set_step (gb_valid (gb_flat g1))) (gb_elems (gb_flat g1)) (map (shift_op (gb_shift g1)) ops)) \<and>
    (ext2fs_test_generic_bmap (Some r1) n \<noteq> 0 \<longleftrightarrow> ext2fs_test_generic_bmap (Some r2) n \<noteq> 0)"
proof -
  note r1 = gb_flat_run [OF assms(6)] and r2 = gb_flat_run [OF assms(7)]
  have t1: "ext2fs_test_generic_bmap (Some r1) n = ext2fs_test_generic_bmap (Some (gb_flat r1)) (drop_bit (gb_shift g1) n)"
    "ext2fs_test_generic_bmap (Some r2) n = ext2fs_test_generic_bmap (Some (gb_flat r2)) (drop_bit (gb_shift g1) n)"
    using gb_flat_bits(5) [of r1 n] gb_flat_bits(5) [of r2 n] r1 r2 assms(5) by simp_all
  have m1: "ext2fs_test_generic_bmap (Some (gb_flat r1)) k \<noteq> 0 \<longleftrightarrow>
      k \<in> foldl (set_step (gb_valid (gb_flat g1))) (gb_elems (gb_flat g1)) (map (shift_op (gb_shift g1)) ops)" for k
    by (rule gb.run_mem [OF assms(1) r1 [THEN conjunct1]])
  have m2: "ext2fs_test_generic_bmap (Some (gb_flat r2)) k \<noteq> 0 \<longleftrightarrow>
      k \<in> foldl (set_step (gb_valid (gb_flat g1))) (gb_elems (gb_flat g1)) (map (shift_op (gb_shift g1)) ops)" for k
    unfolding assms(3-5) by (rule gb.run_mem [OF assms(2) r2 [THEN conjunct1]])
  show ?thesis unfolding t1 m1 m2 by simp
qed

lemma generic_bmap_layouts_agree_witness:
  "ext2fs_test_generic_bmap (Some (gb_mark 18 (B64 (b64_sample\<lparr>b64_cluster_bits := 1\<rparr>)))) 19 \<noteq> 0"
proof -
  let ?g = "B64 (b64_sample\<lparr>b64_cluster_bits := 1\<rparr>)"
  have flat: "gb_flat ?g = B64 b64_sample" "gb_shift ?g = 1"
    by (simp_all add: gb_flat_def gb_shift_def b64_sample_def)
  have inv: "gb_inv (gb_flat ?g)" unfolding flat by (rule b64_sample_inv(2))
  have run: "set_run (\<lambda>(h :: unit) n g. Inr (gb_mark n g)) gb_unmark [Ins () 18] ?g = Inr (gb_mark 18 ?g)" by simp
  have "gb_valid (B64 b64_sample) 9" by (simp add: gb_valid_def in_window_def b64_sample_def)
  moreover have "drop_bit 1 (18 :: u64) = 9" "drop_bit 1 (19 :: u64) = 9" by code_simp+
  ultimately have "drop_bit (gb_shift ?g) 19 \<in>
      foldl (set_step (gb_valid (gb_flat ?g))) (gb_elems (gb_flat ?g)) (map (shift_op (gb_shift ?g)) [Ins () 18])"
    unfolding flat by simp
  then show ?thesis
    using generic_bmap_layouts_agree [OF inv inv refl refl refl run run, of 19] by blast
qed

text \<open>
  C11. On a map without clusters, allocation through the range operations is exact in either
  layout: a range that tests clear is not clear once it is marked, ranges disjoint from it test as
  before, and unmarking it gives back the contents from before. (On a map with clusters the
  range operations take cluster numbers while the operations on single blocks take block numbers.)
\<close>

theorem bmap_range_allocate_free:
  assumes "gb_shift g = 0" "gb_inv g" "gb_in_range g block num" "gb_in_range g block' num'"
    and "ext2fs_test_block_bitmap_range2 (Some g) block (of_nat num) = Inr True"
  shows "\<exists>g' g''. ext2fs_mark_block_bitmap_range2 (Some g) block (of_nat num) = Some g' \<and>
      ext2fs_unmark_block_bitmap_range2 (Some g') block (of_nat num) = Some g'' \<and>
      (ext2fs_test_block_bitmap_range2 (Some g') block' (of_nat num') = Inr True \<longleftrightarrow>
        ext2fs_test_block_bitmap_range2 (Some g) block' (of_nat num') = Inr True \<and>
        extent_set block num \<inter> extent_set block' num' = {}) \<and>
      (\<forall>n. ext2fs_test_generic_bmap (Some g'') n \<noteq> 0 \<longleftrightarrow> ext2fs_test_generic_bmap (Some g) n \<noteq> 0)"
proof -
  let ?g' = "gb_mark_range block num g" and ?g'' = "gb_unmark_range block num (gb_mark_range block num g)"
  have some: "ext2fs_mark_block_bitmap_range2 (Some x) block (of_nat num) = Some (gb_mark_range block num x)"
    "ext2fs_unmark_block_bitmap_range2 (Some x) block (of_nat num) = Some (gb_unmark_range block num x)" for x
    by (auto simp: gb_mark_range_def gb_unmark_range_def ext2fs_mark_block_bitmap_range2_def
        ext2fs_unmark_block_bitmap_range2_def split: gbitmap.splits)
  have m: "gb_inv ?g'" "gb_in_range ?g' block num" using gb.mark_extent [OF assms(2,3)] assms(3) by auto
  then have "gb_inv ?g''" using gb.unmark_extent [of ?g' block num] by blast
  moreover have "gb_elems ?g'' = gb_elems g"
    using gb.free_extent [OF assms(2,3)] assms(5) by (simp add: gb_test_range_def)
  ultimately have "\<forall>n. ext2fs_test_generic_bmap (Some ?g'') n \<noteq> 0 \<longleftrightarrow> ext2fs_test_generic_bmap (Some g) n \<noteq> 0"
    using gb.mem [OF assms(2)] gb.mem [of ?g''] by auto
  then show ?thesis
    using some gb.allocate_extent [OF assms(2-4)] unfolding gb_test_range_def by blast
qed

lemma bmap_range_allocate_free_witness:
  "\<exists>g' g''. ext2fs_mark_block_bitmap_range2 (Some (B64 b64_sample)) 4 (of_nat 7) = Some g' \<and>
     ext2fs_unmark_block_bitmap_range2 (Some g') 4 (of_nat 7) = Some g'' \<and>
     (\<forall>n. ext2fs_test_generic_bmap (Some g'') n \<noteq> 0 \<longleftrightarrow>
       ext2fs_test_generic_bmap (Some (B64 b64_sample)) n \<noteq> 0)"
proof -
  have "gb_in_range (B64 b64_sample) 4 7" by (simp add: gb_in_range_def extent_in_def b64_sample_def)
  moreover have "ext2fs_test_block_bitmap_range2 (Some (B64 b64_sample)) 4 (of_nat 7) = Inr True"
    by code_simp
  ultimately show ?thesis
    using bmap_range_allocate_free [OF _ b64_sample_inv(2), of 4 7 4 7] by (auto simp: gb_shift_def b64_sample_def)
qed

text \<open>
  C12. Resizing a 64-bit map whose unused bits are clear keeps exactly the marked numbers up to
  the new end: no mark is lost, and nothing behind the old end appears marked, whatever the
  reallocated memory contained. (The new array has less than \<open>2 ^ 32\<close> bytes, the memory of the target.)
\<close>

theorem resize_generic_bmap_contents:
  assumes "b64_inv b" "slack_clear (unat (b64_real_end b - b64_start b)) (b64_bitarray b)"
    and "b64_start b \<le> new_end" "new_end \<le> new_real_end"
    and "unat (new_real_end - b64_start b) div 8 + 1 < 2 ^ 32"
    and "ext2fs_resize_generic_bmap h (Some (B64 b)) new_end new_real_end = Inr g"
  shows "\<exists>b'. g = B64 b' \<and> b64_start b' = b64_start b \<and> b64_end b' = new_end \<and>
    b64_real_end b' = new_real_end \<and> b64_elems b' = {c \<in> b64_elems b. c \<le> new_end}"
proof -
  have "EXT2FS_IS_64_BITMAP (b64_magic b)" using assms(1) by (simp add: b64_inv_def)
  then obtain b' where "g = B64 b'" "ba_resize_bmap h b new_end new_real_end = Inr b'"
    using assms(6) by (auto simp: ext2fs_resize_generic_bmap_def split: sum.splits)
  then show ?thesis
    using ba_resize(1-3) [OF assms(1-5)] ba_resize_elems(1) [OF assms(1-5)] by blast
qed

lemma resize_generic_bmap_contents_witness:
  "\<exists>b'. ext2fs_resize_generic_bmap (roomy 0xFF) (Some (B64 b64_sample)) 29 40 = Inr (B64 b') \<and>
     b64_elems b' = {c \<in> b64_elems b64_sample. c \<le> 29}"
proof -
  have s: "slack_clear (unat (b64_real_end b64_sample - b64_start b64_sample)) (b64_bitarray b64_sample)"
    unfolding slack_clear_def b64_sample_def by (auto simp: dest: div_le_mono [of 16 _ 8])
  have "\<not> isl (ext2fs_resize_generic_bmap (roomy 0xFF) (Some (B64 b64_sample)) 29 40)" by code_simp
  then obtain g where "ext2fs_resize_generic_bmap (roomy 0xFF) (Some (B64 b64_sample)) 29 40 = Inr g"
    by (cases "ext2fs_resize_generic_bmap (roomy 0xFF) (Some (B64 b64_sample)) 29 40") auto
  then show ?thesis
    using resize_generic_bmap_contents [OF b64_sample_inv(1) s, of 29 40 "roomy 0xFF" g]
    by (auto simp: b64_sample_def)
qed

text \<open>
  C13. The comparison of two 64-bit maps of blocks looks only at the last
  \<open>(end - start) % 8 + 1\<close> numbers: it reports equality of maps of the same range exactly
  when they agree there, whatever they contain before. (The 32-bit comparison first compares
  the whole bytes.)
\<close>

theorem compare_generic_bmap_tail_only:
  assumes "b64_inv b1" "b64_inv b2" "b64_cluster_bits b1 = 0" "b64_cluster_bits b2 = 0"
    and "b64_magic b1 = b64_magic b2" "b64_start b1 = b64_start b2" "b64_end b1 = b64_end b2"
    and "b64_end b1 \<noteq> -1"
  shows "ext2fs_compare_generic_bmap neq (Some (B64 b1)) (Some (B64 b2)) =
    Some (if \<forall>n. b64_end b1 - (b64_end b1 - b64_start b1) mod 8 \<le> n \<and> n \<le> b64_end b1 \<longrightarrow>
               (n \<in> b64_elems b1 \<longleftrightarrow> n \<in> b64_elems b2)
          then Inr () else Inl neq)"
proof -
  have "EXT2FS_IS_64_BITMAP (b64_magic b1)" using assms(1) by (simp add: b64_inv_def)
  then show ?thesis
    using compare_tail64_correct [OF assms(8), of b2] test64_eq_iff [OF assms(1-4,6,7)] assms(5-7)
    by (simp add: ext2fs_compare_generic_bmap_def gb_magic_def)
qed

lemma compare_generic_bmap_tail_only_witness:
  "ext2fs_compare_generic_bmap EXT2_ET_NEQ_BLOCK_BITMAP (Some (B64 b64_sample))
     (Some (B64 (b64_sample\<lparr>b64_bitarray := [0, 16]\<rparr>))) = Some (Inr ()) \<and>
   b64_elems b64_sample \<noteq> b64_elems (b64_sample\<lparr>b64_bitarray := [0, 16]\<rparr>)"
proof -
  let ?b = "b64_sample\<lparr>b64_bitarray := [0, 16]\<rparr>"
  have inv: "b64_inv ?b"
    by (simp add: b64_inv_def window_ok_def b64_sample_def EXT2FS_IS_64_BITMAP_def)
  have "n \<in> b64_elems b64_sample \<longleftrightarrow> n \<in> b64_elems ?b" if "8 \<le> n" "n \<le> 15" for n
  proof -
    have "unat n div 8 = 1" using that by (simp add: word_le_nat_alt)
    then show ?thesis
      by (simp add: b64_elems_def window_set_def bit_at_def b64_sample_def in_window_def)
  qed
  moreover have "0 \<in> b64_elems b64_sample" "0 \<notin> b64_elems ?b"
    by (simp_all add: b64_elems_def window_set_def bit_at_def b64_sample_def in_window_def)
  ultimately show ?thesis
    using compare_generic_bmap_tail_only [OF b64_sample_inv(1) inv, of EXT2_ET_NEQ_BLOCK_BITMAP]
    by (auto simp: b64_sample_def)
qed

text \<open>
  Shrinking a map within a byte and growing it again brings an old mark back, although the
  growing code sets out to make the new part zero: block 12 is marked, the map is cut to end at
  10 and extended to 15, and block 12 is marked again.
\<close>

lemma resize_revives_mark:
  "case ext2fs_resize_generic_bmap h (Some (B64 b64_sample)) 10 10 of
     Inl e \<Rightarrow> False
   | Inr g \<Rightarrow>
       (case ext2fs_resize_generic_bmap h (Some g) 15 15 of
          Inl e \<Rightarrow> False
        | Inr g' \<Rightarrow> ext2fs_test_generic_bmap (Some g) 12 = 0 \<and> ext2fs_test_generic_bmap (Some g') 12 \<noteq> 0)"
  by (simp add: ext2fs_resize_generic_bmap_def b64_sample_def EXT2FS_IS_64_BITMAP_def ba_resize_bmap_def
      ba_size_def Let_def clear_down64.simps ext2fs_test_generic_bmap_def ba_test_bmap_def bit_at_def)

end
