(* ===== verification/Filsys.thy ===== *)
theory Filsys
  imports Bitmap64 Badblocks
begin

text \<open>
  The in-memory file system handle: the superblock, group descriptor and inode fields the
  modelled code uses (\<open>source/ext2_fs.h\<close>), \<open>struct struct_ext2_filsys\<close>
  (\<open>source/ext2fs.h\<close>), the flag helpers of \<open>source/functions.c\<close>, and the accessors
  of \<open>source/blknum.c\<close> for counts and locations that are split in a low and a high half.
  The lemmas show that a split field reads back what was stored, up to the width the
  \<open>64BIT\<close> feature gives it, and that setting one field disturbs no other.
\<close>

section \<open>State\<close>

record super_block =
  s_inodes_count :: u32
  s_blocks_count :: u32
  s_r_blocks_count :: u32
  s_free_blocks_count :: u32
  s_free_inodes_count :: u32
  s_first_data_block :: u32
  s_log_block_size :: u32
  s_log_cluster_size :: u32
  s_blocks_per_group :: u32
  s_clusters_per_group :: u32
  s_inodes_per_group :: u32
  s_mtime :: u32
  s_wtime :: u32
  s_mnt_count :: u16
  s_max_mnt_count :: u16
  s_magic :: u16
  s_state :: u16
  s_errors :: u16
  s_minor_rev_level :: u16
  s_lastcheck :: u32
  s_checkinterval :: u32
  s_creator_os :: u32
  s_rev_level :: u32
  s_def_resuid :: u16
  s_def_resgid :: u16
  s_first_ino :: u32
  s_inode_size :: u16
  s_block_group_nr :: u16
  s_feature_compat :: u32
  s_feature_incompat :: u32
  s_feature_ro_compat :: u32
  s_uuid :: "u8 list"
  s_volume_name :: "u8 list"
  s_last_mounted :: "u8 list"
  s_algorithm_usage_bitmap :: u32
  s_prealloc_blocks :: u8
  s_prealloc_dir_blocks :: u8
  s_reserved_gdt_blocks :: u16
  s_journal_uuid :: "u8 list"
  s_journal_inum :: u32
  s_journal_dev :: u32
  s_last_orphan :: u32
  s_hash_seed :: "u32 list"
  s_def_hash_version :: u8
  s_jnl_backup_type :: u8
  s_desc_size :: u16
  s_default_mount_opts :: u32
  s_first_meta_bg :: u32
  s_mkfs_time :: u32
  s_jnl_blocks :: "u32 list"
  s_blocks_count_hi :: u32
  s_r_blocks_count_hi :: u32
  s_free_blocks_hi :: u32
  s_min_extra_isize :: u16
  s_want_extra_isize :: u16
  s_flags :: u32
  s_raid_stride :: u16
  s_mmp_update_interval :: u16
  s_mmp_block :: u64
  s_raid_stripe_width :: u32
  s_log_groups_per_flex :: u8
  s_reserved_char_pad :: u8
  s_reserved_pad :: u16
  s_kbytes_written :: u64
  s_snapshot_inum :: u32
  s_snapshot_id :: u32
  s_snapshot_r_blocks_count :: u64
  s_snapshot_list :: u32
  s_error_count :: u32
  s_first_error_time :: u32
  s_first_error_ino :: u32
  s_first_error_block :: u64
  s_first_error_func :: "u8 list"
  s_first_error_line :: u32
  s_last_error_time :: u32
  s_last_error_ino :: u32
  s_last_error_line :: u32
  s_last_error_block :: u64
  s_last_error_func :: "u8 list"
  s_mount_opts :: "u8 list"
  s_usr_quota_inum :: u32
  s_grp_quota_inum :: u32
  s_overhead_blocks :: u32
  s_reserved :: "u32 list"
  s_checksum :: u32

text \<open>\<open>struct ext4_group_desc\<close>; a 32-byte descriptor has no \<open>_hi\<close> fields.\<close>

record group_desc =
  bg_block_bitmap :: u32
  bg_inode_bitmap :: u32
  bg_inode_table :: u32
  bg_free_blocks_count :: u16
  bg_free_inodes_count :: u16
  bg_used_dirs_count :: u16
  bg_flags :: u16
  bg_exclude_bitmap_lo :: u32
  bg_block_bitmap_csum_lo :: u16
  bg_inode_bitmap_csum_lo :: u16
  bg_itable_unused :: u16
  bg_checksum :: u16
  bg_block_bitmap_hi :: u32
  bg_inode_bitmap_hi :: u32
  bg_inode_table_hi :: u32
  bg_free_blocks_count_hi :: u16
  bg_free_inodes_count_hi :: u16
  bg_used_dirs_count_hi :: u16
  bg_itable_unused_hi :: u16
  bg_exclude_bitmap_hi :: u32
  bg_block_bitmap_csum_hi :: u16
  bg_inode_bitmap_csum_hi :: u16
  bg_reserved :: u32

text \<open>
  \<open>struct ext2_inode\<close> with the Linux view of the two unions; \<open>i_block\<close> has
  \<open>EXT2_N_BLOCKS = 15\<close> entries.
\<close>

record inode =
  i_mode :: u16
  i_uid :: u16
  i_size :: u32
  i_atime :: u32
  i_ctime :: u32
  i_mtime :: u32
  i_dtime :: u32
  i_gid :: u16
  i_links_count :: u16
  i_blocks :: u32
  i_flags :: u32
  l_i_version :: u32
  i_block :: "u32 list"
  i_generation :: u32
  i_file_acl :: u32
  i_size_high :: u32
  i_faddr :: u32
  l_i_blocks_hi :: u16
  l_i_file_acl_high :: u16
  l_i_uid_high :: u16
  l_i_gid_high :: u16
  l_i_checksum_lo :: u16
  l_i_reserved :: u16

text \<open>
  \<open>struct ext2_inode_cache\<close>: a block of the inode table and the last inodes that were read,
  \<open>cache_last\<close> the slot written last.
\<close>

record inode_cache_ent =
  icent_ino :: u32
  icent_inode :: inode

record inode_cache =
  ica_buffer :: "u8 list"
  ica_buffer_blk :: u32
  ica_cache_last :: int
  ica_cache_size :: nat
  ica_refcount :: int
  ica_cache :: "inode_cache_ent list"

text \<open>The offsets of \<open>struct ext2_image_hdr\<close>.\<close>

record image_hdr =
  offset_super :: u32
  offset_inode :: u32
  offset_inodemap :: u32
  offset_blockmap :: u32

text \<open>
  \<open>struct struct_ext2_filsys\<close>. The callbacks an application may install are null, and the
  image channel is the channel of the file system, as \<open>ext2fs_open2\<close> leaves them; the
  channel itself is passed beside the handle.
\<close>

record filsys =
  fs_magic :: errcode
  fs_flags :: u32
  fs_super :: super_block
  fs_blocksize :: u32
  fs_fragsize :: u32
  fs_group_desc_count :: u32
  fs_desc_blocks :: u32
  fs_group_desc :: "group_desc list"
  fs_inode_blocks_per_group :: u32
  fs_inode_map :: "gbitmap option"
  fs_block_map :: "gbitmap option"
  fs_badblocks :: "u32_list option"
  fs_stride :: u32
  fs_image_header :: "image_hdr option"
  fs_umask :: u32
  fs_now :: u32
  fs_cluster_ratio_bits :: nat
  fs_icache :: "inode_cache option"

definition EXT2_FEATURE_RO_COMPAT_SPARSE_SUPER :: u32 where "EXT2_FEATURE_RO_COMPAT_SPARSE_SUPER = 0x0001"
definition EXT4_FEATURE_RO_COMPAT_HUGE_FILE :: u32 where "EXT4_FEATURE_RO_COMPAT_HUGE_FILE = 0x0008"
definition EXT4_FEATURE_RO_COMPAT_GDT_CSUM :: u32 where "EXT4_FEATURE_RO_COMPAT_GDT_CSUM = 0x0010"
definition EXT2_FEATURE_INCOMPAT_META_BG :: u32 where "EXT2_FEATURE_INCOMPAT_META_BG = 0x0010"
definition EXT4_FEATURE_INCOMPAT_64BIT :: u32 where "EXT4_FEATURE_INCOMPAT_64BIT = 0x0080"

definition has_64bit :: "super_block \<Rightarrow> bool" where
  "has_64bit super \<longleftrightarrow> s_feature_incompat super AND EXT4_FEATURE_INCOMPAT_64BIT \<noteq> 0"

section \<open>Flags of the handle\<close>

definition EXT2_FLAG_CHANGED :: u32 where "EXT2_FLAG_CHANGED = 0x02"
definition EXT2_FLAG_DIRTY :: u32 where "EXT2_FLAG_DIRTY = 0x04"
definition EXT2_FLAG_VALID :: u32 where "EXT2_FLAG_VALID = 0x08"
definition EXT2_FLAG_IB_DIRTY :: u32 where "EXT2_FLAG_IB_DIRTY = 0x10"
definition EXT2_FLAG_BB_DIRTY :: u32 where "EXT2_FLAG_BB_DIRTY = 0x20"
definition EXT2_FLAG_64BITS :: u32 where "EXT2_FLAG_64BITS = 0x20000"

definition ext2fs_mark_super_dirty :: "filsys \<Rightarrow> filsys" where
  "ext2fs_mark_super_dirty fs = fs\<lparr>fs_flags := fs_flags fs OR (EXT2_FLAG_DIRTY OR EXT2_FLAG_CHANGED)\<rparr>"

definition ext2fs_mark_changed :: "filsys \<Rightarrow> filsys" where
  "ext2fs_mark_changed fs = fs\<lparr>fs_flags := fs_flags fs OR EXT2_FLAG_CHANGED\<rparr>"

definition ext2fs_test_changed :: "filsys \<Rightarrow> u32" where
  "ext2fs_test_changed fs = fs_flags fs AND EXT2_FLAG_CHANGED"

definition ext2fs_mark_valid :: "filsys \<Rightarrow> filsys" where
  "ext2fs_mark_valid fs = fs\<lparr>fs_flags := fs_flags fs OR EXT2_FLAG_VALID\<rparr>"

definition ext2fs_unmark_valid :: "filsys \<Rightarrow> filsys" where
  "ext2fs_unmark_valid fs = fs\<lparr>fs_flags := fs_flags fs AND NOT EXT2_FLAG_VALID\<rparr>"

definition ext2fs_test_valid :: "filsys \<Rightarrow> u32" where
  "ext2fs_test_valid fs = fs_flags fs AND EXT2_FLAG_VALID"

definition ext2fs_mark_ib_dirty :: "filsys \<Rightarrow> filsys" where
  "ext2fs_mark_ib_dirty fs = fs\<lparr>fs_flags := fs_flags fs OR (EXT2_FLAG_IB_DIRTY OR EXT2_FLAG_CHANGED)\<rparr>"

definition ext2fs_mark_bb_dirty :: "filsys \<Rightarrow> filsys" where
  "ext2fs_mark_bb_dirty fs = fs\<lparr>fs_flags := fs_flags fs OR (EXT2_FLAG_BB_DIRTY OR EXT2_FLAG_CHANGED)\<rparr>"

definition ext2fs_test_ib_dirty :: "filsys \<Rightarrow> u32" where
  "ext2fs_test_ib_dirty fs = fs_flags fs AND EXT2_FLAG_IB_DIRTY"

definition ext2fs_test_bb_dirty :: "filsys \<Rightarrow> u32" where
  "ext2fs_test_bb_dirty fs = fs_flags fs AND EXT2_FLAG_BB_DIRTY"

section \<open>Block counts of the superblock\<close>

definition ext2fs_blocks_count :: "super_block \<Rightarrow> u64" where
  "ext2fs_blocks_count super =
     ucast (s_blocks_count super) OR
     (if has_64bit super then push_bit 32 (ucast (s_blocks_count_hi super)) else 0)"

definition ext2fs_blocks_count_set :: "super_block \<Rightarrow> u64 \<Rightarrow> super_block" where
  "ext2fs_blocks_count_set super blk =
     (let super = super\<lparr>s_blocks_count := ucast blk\<rparr> in
      if has_64bit super then super\<lparr>s_blocks_count_hi := ucast (drop_bit 32 blk)\<rparr> else super)"

definition ext2fs_blocks_count_add :: "super_block \<Rightarrow> u64 \<Rightarrow> super_block" where
  "ext2fs_blocks_count_add super blk =
     (let tmp = ext2fs_blocks_count super + blk in ext2fs_blocks_count_set super tmp)"

definition ext2fs_r_blocks_count :: "super_block \<Rightarrow> u64" where
  "ext2fs_r_blocks_count super =
     ucast (s_r_blocks_count super) OR
     (if has_64bit super then push_bit 32 (ucast (s_r_blocks_count_hi super)) else 0)"

definition ext2fs_r_blocks_count_set :: "super_block \<Rightarrow> u64 \<Rightarrow> super_block" where
  "ext2fs_r_blocks_count_set super blk =
     (let super = super\<lparr>s_r_blocks_count := ucast blk\<rparr> in
      if has_64bit super then super\<lparr>s_r_blocks_count_hi := ucast (drop_bit 32 blk)\<rparr> else super)"

definition ext2fs_r_blocks_count_add :: "super_block \<Rightarrow> u64 \<Rightarrow> super_block" where
  "ext2fs_r_blocks_count_add super blk =
     (let tmp = ext2fs_r_blocks_count super + blk in ext2fs_r_blocks_count_set super tmp)"

definition ext2fs_free_blocks_count :: "super_block \<Rightarrow> u64" where
  "ext2fs_free_blocks_count super =
     ucast (s_free_blocks_count super) OR
     (if has_64bit super then push_bit 32 (ucast (s_free_blocks_hi super)) else 0)"

definition ext2fs_free_blocks_count_set :: "super_block \<Rightarrow> u64 \<Rightarrow> super_block" where
  "ext2fs_free_blocks_count_set super blk =
     (let super = super\<lparr>s_free_blocks_count := ucast blk\<rparr> in
      if has_64bit super then super\<lparr>s_free_blocks_hi := ucast (drop_bit 32 blk)\<rparr> else super)"

definition ext2fs_free_blocks_count_add :: "super_block \<Rightarrow> u64 \<Rightarrow> super_block" where
  "ext2fs_free_blocks_count_add super blk =
     (let tmp = ext2fs_free_blocks_count super + blk in ext2fs_free_blocks_count_set super tmp)"

section \<open>Group descriptors\<close>

text \<open>
  \<open>ext2fs_group_desc\<close> steps through the table by 64 bytes when \<open>s_desc_size\<close> says so, else by 32,
  and the fields are then read as those of the 64-byte structure. The table is a list of entries; of
  entries of 32 bytes the second half is not part of the table. With the \<open>64BIT\<close> feature and entries of
  32 bytes, which \<open>ext2fs_open2\<close> does not refuse, the second half of the structure lies in the first half
  of the next entry: \<open>with_tail\<close> is the structure that is read, and \<open>put_tail\<close> the next entry after its
  second half was written. Without the feature no field of the second half is used. A group number
  beyond the table is undefined behaviour.
\<close>

definition desc_overlap :: "super_block \<Rightarrow> bool" where
  "desc_overlap s \<longleftrightarrow> has_64bit s \<and> s_desc_size s < 64"

definition with_tail :: "group_desc \<Rightarrow> group_desc \<Rightarrow> group_desc" where
  "with_tail gd nx =
     gd\<lparr>bg_block_bitmap_hi := bg_block_bitmap nx, bg_inode_bitmap_hi := bg_inode_bitmap nx,
        bg_inode_table_hi := bg_inode_table nx, bg_free_blocks_count_hi := bg_free_blocks_count nx,
        bg_free_inodes_count_hi := bg_free_inodes_count nx, bg_used_dirs_count_hi := bg_used_dirs_count nx,
        bg_itable_unused_hi := bg_flags nx, bg_exclude_bitmap_hi := bg_exclude_bitmap_lo nx,
        bg_block_bitmap_csum_hi := bg_block_bitmap_csum_lo nx, bg_inode_bitmap_csum_hi := bg_inode_bitmap_csum_lo nx,
        bg_reserved := push_bit 16 (ucast (bg_itable_unused nx)) OR ucast (bg_checksum nx)\<rparr>"

definition put_tail :: "group_desc \<Rightarrow> group_desc \<Rightarrow> group_desc" where
  "put_tail gd nx =
     nx\<lparr>bg_block_bitmap := bg_block_bitmap_hi gd, bg_inode_bitmap := bg_inode_bitmap_hi gd,
        bg_inode_table := bg_inode_table_hi gd, bg_free_blocks_count := bg_free_blocks_count_hi gd,
        bg_free_inodes_count := bg_free_inodes_count_hi gd, bg_used_dirs_count := bg_used_dirs_count_hi gd,
        bg_flags := bg_itable_unused_hi gd, bg_exclude_bitmap_lo := bg_exclude_bitmap_hi gd,
        bg_block_bitmap_csum_lo := bg_block_bitmap_csum_hi gd, bg_inode_bitmap_csum_lo := bg_inode_bitmap_csum_hi gd,
        bg_itable_unused := ucast (drop_bit 16 (bg_reserved gd)), bg_checksum := ucast (bg_reserved gd)\<rparr>"

definition ext2fs_group_desc :: "filsys \<Rightarrow> u32 \<Rightarrow> group_desc" where
  "ext2fs_group_desc fs grp =
     (let tab = fs_group_desc fs; i = unat grp in
      if desc_overlap (fs_super fs) then with_tail (tab ! i) (tab ! (i + 1)) else tab ! i)"

definition upd_group_desc :: "filsys \<Rightarrow> u32 \<Rightarrow> (group_desc \<Rightarrow> group_desc) \<Rightarrow> filsys" where
  "upd_group_desc fs grp f =
     (let tab = fs_group_desc fs; i = unat grp; gd = f (ext2fs_group_desc fs grp) in
      fs\<lparr>fs_group_desc :=
           (if desc_overlap (fs_super fs) then tab[i := gd, i + 1 := put_tail gd (tab ! (i + 1))] else tab[i := gd])\<rparr>)"

definition ext2fs_block_bitmap_loc :: "filsys \<Rightarrow> u32 \<Rightarrow> u64" where
  "ext2fs_block_bitmap_loc fs grp =
     (let gdp = ext2fs_group_desc fs grp in
      ucast (bg_block_bitmap gdp) OR
      (if has_64bit (fs_super fs) then push_bit 32 (ucast (bg_block_bitmap_hi gdp)) else 0))"

definition ext2fs_block_bitmap_loc_set :: "filsys \<Rightarrow> u32 \<Rightarrow> u64 \<Rightarrow> filsys" where
  "ext2fs_block_bitmap_loc_set fs grp blk =
     upd_group_desc fs grp (\<lambda>gdp.
       let gdp = gdp\<lparr>bg_block_bitmap := ucast blk\<rparr> in
       if has_64bit (fs_super fs) then gdp\<lparr>bg_block_bitmap_hi := ucast (drop_bit 32 blk)\<rparr> else gdp)"

definition ext2fs_inode_bitmap_loc :: "filsys \<Rightarrow> u32 \<Rightarrow> u64" where
  "ext2fs_inode_bitmap_loc fs grp =
     (let gdp = ext2fs_group_desc fs grp in
      ucast (bg_inode_bitmap gdp) OR
      (if has_64bit (fs_super fs) then push_bit 32 (ucast (bg_inode_bitmap_hi gdp)) else 0))"

definition ext2fs_inode_bitmap_loc_set :: "filsys \<Rightarrow> u32 \<Rightarrow> u64 \<Rightarrow> filsys" where
  "ext2fs_inode_bitmap_loc_set fs grp blk =
     upd_group_desc fs grp (\<lambda>gdp.
       let gdp = gdp\<lparr>bg_inode_bitmap := ucast blk\<rparr> in
       if has_64bit (fs_super fs) then gdp\<lparr>bg_inode_bitmap_hi := ucast (drop_bit 32 blk)\<rparr> else gdp)"

definition ext2fs_inode_table_loc :: "filsys \<Rightarrow> u32 \<Rightarrow> u64" where
  "ext2fs_inode_table_loc fs grp =
     (let gdp = ext2fs_group_desc fs grp in
      ucast (bg_inode_table gdp) OR
      (if has_64bit (fs_super fs) then push_bit 32 (ucast (bg_inode_table_hi gdp)) else 0))"

definition ext2fs_inode_table_loc_set :: "filsys \<Rightarrow> u32 \<Rightarrow> u64 \<Rightarrow> filsys" where
  "ext2fs_inode_table_loc_set fs grp blk =
     upd_group_desc fs grp (\<lambda>gdp.
       let gdp = gdp\<lparr>bg_inode_table := ucast blk\<rparr> in
       if has_64bit (fs_super fs) then gdp\<lparr>bg_inode_table_hi := ucast (drop_bit 32 blk)\<rparr> else gdp)"

definition ext2fs_bg_free_blocks_count :: "filsys \<Rightarrow> u32 \<Rightarrow> u32" where
  "ext2fs_bg_free_blocks_count fs grp =
     (let gdp = ext2fs_group_desc fs grp in
      ucast (bg_free_blocks_count gdp) OR
      (if has_64bit (fs_super fs) then push_bit 16 (ucast (bg_free_blocks_count_hi gdp)) else 0))"

definition ext2fs_bg_free_blocks_count_set :: "filsys \<Rightarrow> u32 \<Rightarrow> u32 \<Rightarrow> filsys" where
  "ext2fs_bg_free_blocks_count_set fs grp n =
     upd_group_desc fs grp (\<lambda>gdp.
       let gdp = gdp\<lparr>bg_free_blocks_count := ucast n\<rparr> in
       if has_64bit (fs_super fs) then gdp\<lparr>bg_free_blocks_count_hi := ucast (drop_bit 16 n)\<rparr> else gdp)"

definition ext2fs_bg_free_inodes_count :: "filsys \<Rightarrow> u32 \<Rightarrow> u32" where
  "ext2fs_bg_free_inodes_count fs grp =
     (let gdp = ext2fs_group_desc fs grp in
      ucast (bg_free_inodes_count gdp) OR
      (if has_64bit (fs_super fs) then push_bit 16 (ucast (bg_free_inodes_count_hi gdp)) else 0))"

definition ext2fs_bg_free_inodes_count_set :: "filsys \<Rightarrow> u32 \<Rightarrow> u32 \<Rightarrow> filsys" where
  "ext2fs_bg_free_inodes_count_set fs grp n =
     upd_group_desc fs grp (\<lambda>gdp.
       let gdp = gdp\<lparr>bg_free_inodes_count := ucast n\<rparr> in
       if has_64bit (fs_super fs) then gdp\<lparr>bg_free_inodes_count_hi := ucast (drop_bit 16 n)\<rparr> else gdp)"

definition ext2fs_bg_used_dirs_count :: "filsys \<Rightarrow> u32 \<Rightarrow> u32" where
  "ext2fs_bg_used_dirs_count fs grp =
     (let gdp = ext2fs_group_desc fs grp in
      ucast (bg_used_dirs_count gdp) OR
      (if has_64bit (fs_super fs) then push_bit 16 (ucast (bg_used_dirs_count_hi gdp)) else 0))"

definition ext2fs_bg_used_dirs_count_set :: "filsys \<Rightarrow> u32 \<Rightarrow> u32 \<Rightarrow> filsys" where
  "ext2fs_bg_used_dirs_count_set fs grp n =
     upd_group_desc fs grp (\<lambda>gdp.
       let gdp = gdp\<lparr>bg_used_dirs_count := ucast n\<rparr> in
       if has_64bit (fs_super fs) then gdp\<lparr>bg_used_dirs_count_hi := ucast (drop_bit 16 n)\<rparr> else gdp)"

definition ext2fs_bg_itable_unused :: "filsys \<Rightarrow> u32 \<Rightarrow> u32" where
  "ext2fs_bg_itable_unused fs grp =
     (let gdp = ext2fs_group_desc fs grp in
      ucast (bg_itable_unused gdp) OR
      (if has_64bit (fs_super fs) then push_bit 16 (ucast (bg_itable_unused_hi gdp)) else 0))"

definition ext2fs_bg_itable_unused_set :: "filsys \<Rightarrow> u32 \<Rightarrow> u32 \<Rightarrow> filsys" where
  "ext2fs_bg_itable_unused_set fs grp n =
     upd_group_desc fs grp (\<lambda>gdp.
       let gdp = gdp\<lparr>bg_itable_unused := ucast n\<rparr> in
       if has_64bit (fs_super fs) then gdp\<lparr>bg_itable_unused_hi := ucast (drop_bit 16 n)\<rparr> else gdp)"

definition ext2fs_bg_flags :: "filsys \<Rightarrow> u32 \<Rightarrow> u16" where
  "ext2fs_bg_flags fs grp = bg_flags (ext2fs_group_desc fs grp)"

definition ext2fs_bg_flags_zap :: "filsys \<Rightarrow> u32 \<Rightarrow> filsys" where
  "ext2fs_bg_flags_zap fs grp = upd_group_desc fs grp (\<lambda>gdp. gdp\<lparr>bg_flags := 0\<rparr>)"

definition ext2fs_bg_flags_test :: "filsys \<Rightarrow> u32 \<Rightarrow> u16 \<Rightarrow> u16" where
  "ext2fs_bg_flags_test fs grp bg_flag = bg_flags (ext2fs_group_desc fs grp) AND bg_flag"

definition ext2fs_bg_flags_set :: "filsys \<Rightarrow> u32 \<Rightarrow> u16 \<Rightarrow> filsys" where
  "ext2fs_bg_flags_set fs grp flags =
     upd_group_desc fs grp (\<lambda>gdp. gdp\<lparr>bg_flags := bg_flags gdp OR flags\<rparr>)"

definition ext2fs_bg_flags_clear :: "filsys \<Rightarrow> u32 \<Rightarrow> u16 \<Rightarrow> filsys" where
  "ext2fs_bg_flags_clear fs grp flags =
     upd_group_desc fs grp (\<lambda>gdp. gdp\<lparr>bg_flags := bg_flags gdp AND NOT flags\<rparr>)"

definition ext2fs_bg_checksum :: "filsys \<Rightarrow> u32 \<Rightarrow> u16" where
  "ext2fs_bg_checksum fs grp = bg_checksum (ext2fs_group_desc fs grp)"

definition ext2fs_bg_checksum_set :: "filsys \<Rightarrow> u32 \<Rightarrow> u16 \<Rightarrow> filsys" where
  "ext2fs_bg_checksum_set fs grp checksum =
     upd_group_desc fs grp (\<lambda>gdp. gdp\<lparr>bg_checksum := checksum\<rparr>)"

text \<open>The handle may be a null pointer (\<open>None\<close>) in the two accessors of the ACL block.\<close>

definition ext2fs_file_acl_block :: "filsys option \<Rightarrow> inode \<Rightarrow> u64" where
  "ext2fs_file_acl_block fs inode =
     (let blk = ucast (i_file_acl inode) in
      if (case fs of None \<Rightarrow> False | Some fs \<Rightarrow> has_64bit (fs_super fs))
      then blk OR push_bit 32 (ucast (l_i_file_acl_high inode)) else blk)"

definition ext2fs_file_acl_block_set :: "filsys option \<Rightarrow> inode \<Rightarrow> u64 \<Rightarrow> inode" where
  "ext2fs_file_acl_block_set fs inode blk =
     (let inode = inode\<lparr>i_file_acl := ucast blk\<rparr> in
      if (case fs of None \<Rightarrow> False | Some fs \<Rightarrow> has_64bit (fs_super fs))
      then inode\<lparr>l_i_file_acl_high := ucast (drop_bit 32 blk)\<rparr> else inode)"

section \<open>Split fields\<close>

text \<open>A value read through a narrower field is truncated; two adjacent halves give it back.\<close>

lemma narrow:
  "ucast (ucast x :: u32) = take_bit 32 (x :: u64)"
  "ucast (ucast x :: u16) = take_bit 16 (x :: u64)"
  "ucast (ucast y :: u16) = take_bit 16 (y :: u32)"
  by (rule bit_word_eqI, auto simp: bit_simps)+

lemma two_halves:
  "take_bit 32 x OR push_bit 32 (take_bit 32 (drop_bit 32 x)) = (x :: u64)"
  "take_bit 32 x OR push_bit 32 (take_bit 16 (drop_bit 32 x)) = take_bit 48 (x :: u64)"
  "take_bit 16 y OR push_bit 16 (take_bit 16 (drop_bit 16 y)) = (y :: u32)"
proof -
  show "take_bit 32 x OR push_bit 32 (take_bit 32 (drop_bit 32 x)) = x"
  proof (rule bit_word_eqI)
    fix n assume "n < LENGTH(64)"
    then show "bit (take_bit 32 x OR push_bit 32 (take_bit 32 (drop_bit 32 x))) n = bit x n"
      by (cases "n < 32") (auto simp: bit_simps not_less)
  qed
  show "take_bit 32 x OR push_bit 32 (take_bit 16 (drop_bit 32 x)) = take_bit 48 x"
  proof (rule bit_word_eqI)
    fix n assume "n < LENGTH(64)"
    then show "bit (take_bit 32 x OR push_bit 32 (take_bit 16 (drop_bit 32 x))) n = bit (take_bit 48 x) n"
      by (cases "n < 32") (auto simp: bit_simps not_less)
  qed
  show "take_bit 16 y OR push_bit 16 (take_bit 16 (drop_bit 16 y)) = y"
  proof (rule bit_word_eqI)
    fix n assume "n < LENGTH(32)"
    then show "bit (take_bit 16 y OR push_bit 16 (take_bit 16 (drop_bit 16 y))) n = bit y n"
      by (cases "n < 16") (auto simp: bit_simps not_less)
  qed
qed

lemmas split_field = narrow two_halves

text \<open>The descriptors do not overlap, and none reaches into the next one.\<close>

definition desc_apart :: "super_block \<Rightarrow> bool" where
  "desc_apart s \<longleftrightarrow> 64 \<le> s_desc_size s \<or> \<not> has_64bit s \<and> s_desc_size s \<le> 32"

lemma desc_apart_overlap: "desc_apart s \<Longrightarrow> \<not> desc_overlap s"
  by (auto simp: desc_apart_def desc_overlap_def)

lemma upd_group_desc_same:
  "desc_apart (fs_super fs) \<Longrightarrow> unat grp < length (fs_group_desc fs) \<Longrightarrow>
     ext2fs_group_desc (upd_group_desc fs grp f) grp = f (ext2fs_group_desc fs grp)"
  by (simp add: ext2fs_group_desc_def upd_group_desc_def desc_apart_overlap Let_def)

lemma upd_group_desc_other:
  "desc_apart (fs_super fs) \<Longrightarrow> g \<noteq> grp \<Longrightarrow> ext2fs_group_desc (upd_group_desc fs grp f) g = ext2fs_group_desc fs g"
  by (simp add: ext2fs_group_desc_def upd_group_desc_def word_unat_eq_iff desc_apart_overlap Let_def)

text \<open>Where they overlap, storing a location beyond \<open>2 ^ 32\<close> overwrites a field of the next group.\<close>

lemma overlap_overwrites:
  assumes "desc_overlap (fs_super fs)" "unat grp + 1 < length (fs_group_desc fs)" "unat (grp + 1) = unat grp + 1"
  shows "bg_block_bitmap (ext2fs_group_desc (ext2fs_block_bitmap_loc_set fs grp blk) (grp + 1)) = ucast (drop_bit 32 blk)"
  using assms
  by (simp add: ext2fs_block_bitmap_loc_set_def upd_group_desc_def ext2fs_group_desc_def desc_overlap_def Let_def
      with_tail_def put_tail_def)

lemma upd_group_desc_super [simp]:
  "fs_super (upd_group_desc fs grp f) = fs_super fs"
  "length (fs_group_desc (upd_group_desc fs grp f)) = length (fs_group_desc fs)"
  by (simp_all add: upd_group_desc_def Let_def)

lemma has_64bit_upd [simp]:
  "has_64bit (s\<lparr>s_blocks_count := a\<rparr>) = has_64bit s"
  "has_64bit (s\<lparr>s_blocks_count_hi := a\<rparr>) = has_64bit s"
  "has_64bit (s\<lparr>s_r_blocks_count := a\<rparr>) = has_64bit s"
  "has_64bit (s\<lparr>s_r_blocks_count_hi := a\<rparr>) = has_64bit s"
  "has_64bit (s\<lparr>s_free_blocks_count := a\<rparr>) = has_64bit s"
  "has_64bit (s\<lparr>s_free_blocks_hi := a\<rparr>) = has_64bit s"
  by (simp_all add: has_64bit_def)

definition count64 :: "super_block \<Rightarrow> u64 \<Rightarrow> u64" where
  "count64 s blk = (if has_64bit s then blk else take_bit 32 blk)"

definition count32 :: "super_block \<Rightarrow> u32 \<Rightarrow> u32" where
  "count32 s n = (if has_64bit s then n else take_bit 16 n)"

lemma block_counts_set:
  "ext2fs_blocks_count (ext2fs_blocks_count_set s blk) = count64 s blk"
  "ext2fs_r_blocks_count (ext2fs_r_blocks_count_set s blk) = count64 s blk"
  "ext2fs_free_blocks_count (ext2fs_free_blocks_count_set s blk) = count64 s blk"
  by (simp_all add: ext2fs_blocks_count_def ext2fs_blocks_count_set_def ext2fs_r_blocks_count_def
      ext2fs_r_blocks_count_set_def ext2fs_free_blocks_count_def ext2fs_free_blocks_count_set_def
      Let_def split_field count64_def)

lemmas group_field_defs = Let_def
  ext2fs_block_bitmap_loc_def ext2fs_block_bitmap_loc_set_def ext2fs_inode_bitmap_loc_def
  ext2fs_inode_bitmap_loc_set_def ext2fs_inode_table_loc_def ext2fs_inode_table_loc_set_def
  ext2fs_bg_free_blocks_count_def ext2fs_bg_free_blocks_count_set_def
  ext2fs_bg_free_inodes_count_def ext2fs_bg_free_inodes_count_set_def
  ext2fs_bg_used_dirs_count_def ext2fs_bg_used_dirs_count_set_def
  ext2fs_bg_itable_unused_def ext2fs_bg_itable_unused_set_def ext2fs_bg_flags_def

lemma group_fields_set:
  assumes "desc_apart (fs_super fs)" "unat grp < length (fs_group_desc fs)"
  shows "ext2fs_block_bitmap_loc (ext2fs_block_bitmap_loc_set fs grp blk) grp = count64 (fs_super fs) blk"
    "ext2fs_inode_bitmap_loc (ext2fs_inode_bitmap_loc_set fs grp blk) grp = count64 (fs_super fs) blk"
    "ext2fs_inode_table_loc (ext2fs_inode_table_loc_set fs grp blk) grp = count64 (fs_super fs) blk"
    "ext2fs_bg_free_blocks_count (ext2fs_bg_free_blocks_count_set fs grp n) grp = count32 (fs_super fs) n"
    "ext2fs_bg_free_inodes_count (ext2fs_bg_free_inodes_count_set fs grp n) grp = count32 (fs_super fs) n"
    "ext2fs_bg_used_dirs_count (ext2fs_bg_used_dirs_count_set fs grp n) grp = count32 (fs_super fs) n"
    "ext2fs_bg_itable_unused (ext2fs_bg_itable_unused_set fs grp n) grp = count32 (fs_super fs) n"
  using assms
  by (simp_all add: group_field_defs upd_group_desc_same split_field count64_def count32_def)

section \<open>Properties\<close>

definition sb_sample :: super_block where
  "sb_sample = \<lparr>s_inodes_count = 64, s_blocks_count = 40, s_r_blocks_count = 2,
     s_free_blocks_count = 20, s_free_inodes_count = 30, s_first_data_block = 1, s_log_block_size = 0,
     s_log_cluster_size = 0, s_blocks_per_group = 16, s_clusters_per_group = 16, s_inodes_per_group = 32,
     s_mtime = 0, s_wtime = 0, s_mnt_count = 0, s_max_mnt_count = 0, s_magic = 0xEF53, s_state = 1,
     s_errors = 0, s_minor_rev_level = 0, s_lastcheck = 0, s_checkinterval = 0, s_creator_os = 0,
     s_rev_level = 1, s_def_resuid = 0, s_def_resgid = 0, s_first_ino = 11, s_inode_size = 128,
     s_block_group_nr = 0, s_feature_compat = 0, s_feature_incompat = 0x80, s_feature_ro_compat = 1,
     s_uuid = replicate 16 7, s_volume_name = replicate 16 0, s_last_mounted = replicate 64 0,
     s_algorithm_usage_bitmap = 0, s_prealloc_blocks = 0, s_prealloc_dir_blocks = 0,
     s_reserved_gdt_blocks = 1, s_journal_uuid = replicate 16 0, s_journal_inum = 0, s_journal_dev = 0,
     s_last_orphan = 0, s_hash_seed = replicate 4 0, s_def_hash_version = 0, s_jnl_backup_type = 0,
     s_desc_size = 64, s_default_mount_opts = 0, s_first_meta_bg = 0, s_mkfs_time = 0,
     s_jnl_blocks = replicate 17 0, s_blocks_count_hi = 0, s_r_blocks_count_hi = 0, s_free_blocks_hi = 0,
     s_min_extra_isize = 0, s_want_extra_isize = 0, s_flags = 0, s_raid_stride = 0,
     s_mmp_update_interval = 0, s_mmp_block = 0, s_raid_stripe_width = 0, s_log_groups_per_flex = 0,
     s_reserved_char_pad = 0, s_reserved_pad = 0, s_kbytes_written = 0, s_snapshot_inum = 0,
     s_snapshot_id = 0, s_snapshot_r_blocks_count = 0, s_snapshot_list = 0, s_error_count = 0,
     s_first_error_time = 0, s_first_error_ino = 0, s_first_error_block = 0,
     s_first_error_func = replicate 32 0, s_first_error_line = 0, s_last_error_time = 0,
     s_last_error_ino = 0, s_last_error_line = 0, s_last_error_block = 0, s_last_error_func = replicate 32 0,
     s_mount_opts = replicate 64 0, s_usr_quota_inum = 0, s_grp_quota_inum = 0, s_overhead_blocks = 0,
     s_reserved = replicate 108 0, s_checksum = 0\<rparr>"

definition gd_sample :: group_desc where
  "gd_sample = \<lparr>bg_block_bitmap = 3, bg_inode_bitmap = 4, bg_inode_table = 5, bg_free_blocks_count = 9,
     bg_free_inodes_count = 10, bg_used_dirs_count = 1, bg_flags = 0, bg_exclude_bitmap_lo = 0,
     bg_block_bitmap_csum_lo = 0, bg_inode_bitmap_csum_lo = 0, bg_itable_unused = 0, bg_checksum = 0,
     bg_block_bitmap_hi = 0, bg_inode_bitmap_hi = 0, bg_inode_table_hi = 0, bg_free_blocks_count_hi = 0,
     bg_free_inodes_count_hi = 0, bg_used_dirs_count_hi = 0, bg_itable_unused_hi = 0,
     bg_exclude_bitmap_hi = 0, bg_block_bitmap_csum_hi = 0, bg_inode_bitmap_csum_hi = 0, bg_reserved = 0\<rparr>"

definition fs_sample :: filsys where
  "fs_sample = \<lparr>fs_magic = EXT2_ET_MAGIC_EXT2FS_FILSYS, fs_flags = 0x20000, fs_super = sb_sample,
     fs_blocksize = 1024, fs_fragsize = 1024, fs_group_desc_count = 3, fs_desc_blocks = 1,
     fs_group_desc = [gd_sample, gd_sample, gd_sample], fs_inode_blocks_per_group = 4,
     fs_inode_map = None, fs_block_map = None, fs_badblocks = None, fs_stride = 0, fs_image_header = None,
     fs_umask = 0, fs_now = 0, fs_cluster_ratio_bits = 0, fs_icache = None\<rparr>"

text \<open>
  Every field of a group descriptor that is split in halves reads back what was stored in
  it: in full with the 64BIT feature, else truncated to the low half; the descriptors of the
  other groups are not touched, and storing a count leaves the locations of the group alone.
\<close>

lemma group_desc_fields_roundtrip:
  assumes "desc_apart (fs_super fs)" "unat grp < length (fs_group_desc fs)"
  shows "(\<forall>(get, set) \<in> {(ext2fs_block_bitmap_loc, ext2fs_block_bitmap_loc_set),
        (ext2fs_inode_bitmap_loc, ext2fs_inode_bitmap_loc_set),
        (ext2fs_inode_table_loc, ext2fs_inode_table_loc_set)}.
      get (set fs grp blk) grp = count64 (fs_super fs) blk \<and>
      (\<forall>g. g \<noteq> grp \<longrightarrow> ext2fs_group_desc (set fs grp blk) g = ext2fs_group_desc fs g)) \<and>
    (\<forall>(get, set) \<in> {(ext2fs_bg_free_blocks_count, ext2fs_bg_free_blocks_count_set),
        (ext2fs_bg_free_inodes_count, ext2fs_bg_free_inodes_count_set),
        (ext2fs_bg_used_dirs_count, ext2fs_bg_used_dirs_count_set),
        (ext2fs_bg_itable_unused, ext2fs_bg_itable_unused_set)}.
      get (set fs grp n) grp = count32 (fs_super fs) n \<and>
      ext2fs_block_bitmap_loc (set fs grp n) grp = ext2fs_block_bitmap_loc fs grp \<and>
      ext2fs_inode_bitmap_loc (set fs grp n) grp = ext2fs_inode_bitmap_loc fs grp \<and>
      ext2fs_inode_table_loc (set fs grp n) grp = ext2fs_inode_table_loc fs grp \<and>
      (\<forall>g. g \<noteq> grp \<longrightarrow> ext2fs_group_desc (set fs grp n) g = ext2fs_group_desc fs g))"
  using assms
  by (simp add: group_fields_set) (simp add: group_field_defs upd_group_desc_same upd_group_desc_other)

lemma group_desc_fields_roundtrip_witness:
  "ext2fs_inode_table_loc (ext2fs_inode_table_loc_set fs_sample 1 0x1234567890) 1 = 0x1234567890"
proof -
  have "desc_apart (fs_super fs_sample)" "unat (1 :: u32) < length (fs_group_desc fs_sample)"
    by (simp_all add: fs_sample_def sb_sample_def desc_apart_def)
  note t = group_desc_fields_roundtrip [OF this, of "0x1234567890"]
  have "has_64bit (fs_super fs_sample)"
    by (simp add: has_64bit_def fs_sample_def sb_sample_def EXT4_FEATURE_INCOMPAT_64BIT_def)
  then show ?thesis using t by (simp add: count64_def)
qed

text \<open>
  The block, reserved-block and free-block counts of the superblock: setting a count stores
  it at the width the features allow and leaves the two other counts alone; adding a (possibly
  negative, as two's complement) amount adds modulo that width.
\<close>

lemma superblock_counts_add:
  "ext2fs_blocks_count (ext2fs_blocks_count_add s d) = count64 s (ext2fs_blocks_count s + d) \<and>
   ext2fs_r_blocks_count (ext2fs_blocks_count_add s d) = ext2fs_r_blocks_count s \<and>
   ext2fs_free_blocks_count (ext2fs_blocks_count_add s d) = ext2fs_free_blocks_count s \<and>
   ext2fs_r_blocks_count (ext2fs_r_blocks_count_add s d) = count64 s (ext2fs_r_blocks_count s + d) \<and>
   ext2fs_blocks_count (ext2fs_r_blocks_count_add s d) = ext2fs_blocks_count s \<and>
   ext2fs_free_blocks_count (ext2fs_r_blocks_count_add s d) = ext2fs_free_blocks_count s \<and>
   ext2fs_free_blocks_count (ext2fs_free_blocks_count_add s d) = count64 s (ext2fs_free_blocks_count s + d) \<and>
   ext2fs_blocks_count (ext2fs_free_blocks_count_add s d) = ext2fs_blocks_count s \<and>
   ext2fs_r_blocks_count (ext2fs_free_blocks_count_add s d) = ext2fs_r_blocks_count s"
  by (simp add: ext2fs_blocks_count_add_def ext2fs_r_blocks_count_add_def ext2fs_free_blocks_count_add_def
      block_counts_set)
    (simp add: ext2fs_blocks_count_def ext2fs_blocks_count_set_def ext2fs_r_blocks_count_def
      ext2fs_r_blocks_count_set_def ext2fs_free_blocks_count_def ext2fs_free_blocks_count_set_def Let_def)

end
