(* ===== verification/Groups_Layout.thy ===== *)
theory Groups_Layout
  imports Filsys "HOL-Library.Signed_Division"
begin

text \<open>
  Block group arithmetic: which group a block belongs to and which blocks a group has
  (\<open>source/blknum.c\<close>, \<open>source/functions.c\<close>), which groups hold backup superblocks
  (\<open>source/sparse.c\<close>, \<open>source/closefs.c\<close>), where the superblock and the descriptors of
  a group lie (\<open>source/closefs.c\<close>), and the block count of an inode
  (\<open>source/i_block.c\<close>, \<open>source/blknum.c\<close>).
\<close>

section \<open>Groups and blocks\<close>

definition ext2fs_group_of_blk2 :: "filsys \<Rightarrow> u64 \<Rightarrow> u32" where
  "ext2fs_group_of_blk2 fs blk =
     ucast ((blk - ucast (s_first_data_block (fs_super fs))) div ucast (s_blocks_per_group (fs_super fs)))"

definition ext2fs_group_first_block2 :: "filsys \<Rightarrow> u32 \<Rightarrow> u64" where
  "ext2fs_group_first_block2 fs grp =
     ucast (s_first_data_block (fs_super fs)) + ucast grp * ucast (s_blocks_per_group (fs_super fs))"

definition ext2fs_group_last_block2 :: "filsys \<Rightarrow> u32 \<Rightarrow> u64" where
  "ext2fs_group_last_block2 fs grp =
     (if grp = fs_group_desc_count fs - 1 then ext2fs_blocks_count (fs_super fs) - 1
      else ext2fs_group_first_block2 fs grp + ucast (s_blocks_per_group (fs_super fs) - 1))"

text \<open>The C \<open>int\<close> result as its bit pattern.\<close>

definition ext2fs_group_blocks_count :: "filsys \<Rightarrow> u32 \<Rightarrow> u32" where
  "ext2fs_group_blocks_count fs grp =
     (if grp = fs_group_desc_count fs - 1 then
        (let num_blocks :: u32 =
           ucast ((ext2fs_blocks_count (fs_super fs) - ucast (s_first_data_block (fs_super fs))) mod
                  ucast (s_blocks_per_group (fs_super fs)))
         in if num_blocks = 0 then s_blocks_per_group (fs_super fs) else num_blocks)
      else s_blocks_per_group (fs_super fs))"

definition ext2fs_group_of_ino :: "filsys \<Rightarrow> u32 \<Rightarrow> u32" where
  "ext2fs_group_of_ino fs ino = (ino - 1) div s_inodes_per_group (fs_super fs)"

definition ext2fs_div_ceil :: "u32 \<Rightarrow> u32 \<Rightarrow> u32" where
  "ext2fs_div_ceil a b = (if a = 0 then 0 else (a - 1) div b + 1)"

definition ext2fs_div64_ceil :: "u64 \<Rightarrow> u64 \<Rightarrow> u64" where
  "ext2fs_div64_ceil a b = (if a = 0 then 0 else (a - 1) div b + 1)"

section \<open>Backup superblocks\<close>

text \<open>
  \<open>test_root\<close> on C \<open>int\<close>s, division truncating towards zero. The loop ends for the
  bases it is called with but not for every argument, so not returning is \<open>None\<close>.
\<close>

partial_function (option) test_root_loop :: "int \<Rightarrow> int \<Rightarrow> bool option" where
  "test_root_loop a b =
     (if a = 1 then Some True
      else if a smod b \<noteq> 0 then Some False
      else test_root_loop (a sdiv b) b)"

declare test_root_loop.simps [code]

definition test_root :: "int \<Rightarrow> int \<Rightarrow> bool option" where
  "test_root a b = (if a = 0 then Some True else test_root_loop a b)"

definition ext2fs_bg_has_super :: "filsys \<Rightarrow> u32 \<Rightarrow> bool" where
  "ext2fs_bg_has_super fs group_block =
     (if s_feature_ro_compat (fs_super fs) AND EXT2_FEATURE_RO_COMPAT_SPARSE_SUPER = 0 then True
      else if test_root (sint group_block) 3 = Some True \<or> test_root (sint group_block) 5 = Some True \<or>
              test_root (sint group_block) 7 = Some True then True
      else False)"

record backup_state =
  bk_three :: u32
  bk_five :: u32
  bk_seven :: u32

definition ext2fs_list_backups :: "filsys \<Rightarrow> backup_state \<Rightarrow> u32 \<times> backup_state" where
  "ext2fs_list_backups fs st =
     (if s_feature_ro_compat (fs_super fs) AND EXT2_FEATURE_RO_COMPAT_SPARSE_SUPER = 0
      then (bk_three st, st\<lparr>bk_three := bk_three st + 1\<rparr>)
      else
        let use5 = (bk_five st < bk_three st);
            min = (if use5 then bk_five st else bk_three st);
            use7 = (bk_seven st < min)
        in
        if use7 then (bk_seven st, st\<lparr>bk_seven := bk_seven st * 7\<rparr>)
        else if use5 then (bk_five st, st\<lparr>bk_five := bk_five st * 5\<rparr>)
        else (bk_three st, st\<lparr>bk_three := bk_three st * 3\<rparr>))"

text \<open>
  The callers' loop \<open>while ((grp = ext2fs_list_backups(\<dots>)) < limit)\<close>, the groups visited.
\<close>

partial_function (option) backups_below :: "filsys \<Rightarrow> u32 \<Rightarrow> backup_state \<Rightarrow> u32 list option" where
  "backups_below fs limit st =
     (let r = ext2fs_list_backups fs st in
      if fst r < limit
      then Option.bind (backups_below fs limit (snd r)) (\<lambda>gs. Some (fst r # gs))
      else Some [])"

declare backups_below.simps [code]

section \<open>Superblock and descriptor blocks of a group\<close>

definition EXT2_BLOCK_SIZE :: "super_block \<Rightarrow> u32" where
  "EXT2_BLOCK_SIZE s = push_bit (unat (s_log_block_size s)) 1024"

definition EXT2_DESC_SIZE :: "super_block \<Rightarrow> u32" where
  "EXT2_DESC_SIZE s = (if has_64bit s then ucast (s_desc_size s) else 32)"

definition EXT2_DESC_PER_BLOCK :: "super_block \<Rightarrow> u32" where
  "EXT2_DESC_PER_BLOCK s = EXT2_BLOCK_SIZE s div EXT2_DESC_SIZE s"

text \<open>The results in the order of the four pointer arguments.\<close>

definition ext2fs_super_and_bgd_loc2 :: "filsys \<Rightarrow> u32 \<Rightarrow> u64 \<times> u64 \<times> u64 \<times> u32" where
  "ext2fs_super_and_bgd_loc2 fs grp =
     (let super = fs_super fs;
          meta_bg_feature = s_feature_incompat super AND EXT2_FEATURE_INCOMPAT_META_BG \<noteq> 0;
          group_block0 = ext2fs_group_first_block2 fs grp;
          group_block = (if group_block0 = 0 \<and> fs_blocksize fs = 1024 then 1 else group_block0);
          old_desc_blocks :: u64 =
            (if meta_bg_feature then ucast (s_first_meta_bg super)
             else ucast (fs_desc_blocks fs + ucast (s_reserved_gdt_blocks super)));
          has_super = ext2fs_bg_has_super fs grp;
          super_blk = (if has_super then group_block else 0);
          numblocks :: u32 = (if has_super then 1 else 0);
          meta_bg_size = EXT2_DESC_PER_BLOCK super;
          meta_bg = grp div meta_bg_size
      in
      if \<not> meta_bg_feature \<or> meta_bg < s_first_meta_bg super then
        (if has_super
         then (super_blk, group_block + 1, 0, numblocks + ucast old_desc_blocks)
         else (super_blk, 0, 0, numblocks))
      else if grp mod meta_bg_size = 0 \<or> grp mod meta_bg_size = 1 \<or>
              grp mod meta_bg_size = meta_bg_size - 1
      then (super_blk, 0, group_block + (if has_super then 1 else 0), numblocks + 1)
      else (super_blk, 0, 0, numblocks))"

text \<open>
  The older interface: locations truncated to 32 bits, the meta block group and the number of
  free blocks (an \<open>int\<close>) left in the group.
\<close>

definition ext2fs_super_and_bgd_loc :: "filsys \<Rightarrow> u32 \<Rightarrow> u32 \<times> u32 \<times> u32 \<times> u32 \<times> u32" where
  "ext2fs_super_and_bgd_loc fs grp =
     (case ext2fs_super_and_bgd_loc2 fs grp of
        (ret_super_blk2, ret_old_desc_blk2, ret_new_desc_blk2, ret_used_blks) \<Rightarrow>
          (ucast ret_super_blk2, ucast ret_old_desc_blk2, ucast ret_new_desc_blk2,
           grp div EXT2_DESC_PER_BLOCK (fs_super fs),
           ext2fs_group_blocks_count fs grp - (2 + fs_inode_blocks_per_group fs + ret_used_blks)))"

section \<open>The block count of an inode\<close>

definition EXT4_HUGE_FILE_FL :: u32 where "EXT4_HUGE_FILE_FL = 0x00040000"

definition has_huge_file :: "filsys \<Rightarrow> bool" where
  "has_huge_file fs \<longleftrightarrow> s_feature_ro_compat (fs_super fs) AND EXT4_FEATURE_RO_COMPAT_HUGE_FILE \<noteq> 0"

definition EXT2FS_CLUSTER_RATIO :: "filsys \<Rightarrow> u64" where
  "EXT2FS_CLUSTER_RATIO fs = ucast (push_bit (fs_cluster_ratio_bits fs) 1 :: u32)"

definition ext2fs_inode_i_blocks :: "filsys \<Rightarrow> inode \<Rightarrow> u64" where
  "ext2fs_inode_i_blocks fs inode =
     ucast (i_blocks inode) OR
     (if has_huge_file fs then push_bit 32 (ucast (l_i_blocks_hi inode)) else 0)"

definition ext2fs_inode_data_blocks2 :: "filsys \<Rightarrow> inode \<Rightarrow> u64" where
  "ext2fs_inode_data_blocks2 fs inode =
     (ucast (i_blocks inode) OR
      (if has_huge_file fs then push_bit 32 (ucast (l_i_blocks_hi inode)) else 0)) -
     (if i_file_acl inode \<noteq> 0 then ucast (drop_bit 9 (fs_blocksize fs)) else 0)"

text \<open>The units of \<open>i_blocks\<close> a number of blocks takes.\<close>

definition iblk_units :: "filsys \<Rightarrow> inode \<Rightarrow> u64 \<Rightarrow> u64" where
  "iblk_units fs inode num_blocks =
     (if \<not> has_huge_file fs \<or> i_flags inode AND EXT4_HUGE_FILE_FL = 0
      then num_blocks * ucast (fs_blocksize fs div 512) else num_blocks) * EXT2FS_CLUSTER_RATIO fs"

definition ext2fs_iblk_add_blocks :: "filsys \<Rightarrow> inode \<Rightarrow> u64 \<Rightarrow> inode result" where
  "ext2fs_iblk_add_blocks fs inode num_blocks =
     (let b = ucast (i_blocks inode) +
            (if has_huge_file fs then push_bit 32 (ucast (l_i_blocks_hi inode)) else 0);
          b = b + iblk_units fs inode num_blocks
      in
      if has_huge_file fs then
        Inr (inode\<lparr>l_i_blocks_hi := ucast (drop_bit 32 b), i_blocks := ucast (b AND 0xFFFFFFFF)\<rparr>)
      else if b > 0xFFFFFFFF then Inl EOVERFLOW
      else Inr (inode\<lparr>i_blocks := ucast (b AND 0xFFFFFFFF)\<rparr>))"

definition ext2fs_iblk_sub_blocks :: "filsys \<Rightarrow> inode \<Rightarrow> u64 \<Rightarrow> inode result" where
  "ext2fs_iblk_sub_blocks fs inode num_blocks =
     (let b = ucast (i_blocks inode) +
            (if has_huge_file fs then push_bit 32 (ucast (l_i_blocks_hi inode)) else 0);
          n = iblk_units fs inode num_blocks
      in
      if n > b then Inl EOVERFLOW
      else
        let b = b - n in
        if has_huge_file fs then
          Inr (inode\<lparr>l_i_blocks_hi := ucast (drop_bit 32 b), i_blocks := ucast (b AND 0xFFFFFFFF)\<rparr>)
        else Inr (inode\<lparr>i_blocks := ucast (b AND 0xFFFFFFFF)\<rparr>))"

text \<open>\<open>i_blocks\<close> is stored before the overflow is noticed, so the inode is returned with the error.\<close>

definition ext2fs_iblk_set :: "filsys \<Rightarrow> inode \<Rightarrow> u64 \<Rightarrow> errcode option \<times> inode" where
  "ext2fs_iblk_set fs inode b =
     (let b = iblk_units fs inode b;
          inode = inode\<lparr>i_blocks := ucast (b AND 0xFFFFFFFF)\<rparr>
      in
      if has_huge_file fs then (None, inode\<lparr>l_i_blocks_hi := ucast (drop_bit 32 b)\<rparr>)
      else if drop_bit 32 b \<noteq> 0 then (Some EOVERFLOW, inode)
      else (None, inode))"

section \<open>Groups partition the blocks\<close>

text \<open>
  A geometry as mke2fs makes it: at least one block per group, a first data block inside the
  device, and as many groups as it takes to cover the rest.
\<close>

definition geometry_ok :: "filsys \<Rightarrow> bool" where
  "geometry_ok fs \<longleftrightarrow>
     (let first = unat (s_first_data_block (fs_super fs));
          bpg = unat (s_blocks_per_group (fs_super fs));
          count = unat (ext2fs_blocks_count (fs_super fs));
          groups = unat (fs_group_desc_count fs)
      in 0 < bpg \<and> first < count \<and> 0 < groups \<and> first + (groups - 1) * bpg < count \<and>
         count \<le> first + groups * bpg)"

lemma unat_ucast_mult:
  "unat (ucast (a :: u32) * ucast (b :: u32) :: u64) = unat a * unat b"
proof -
  have "unat a * unat b < 2 ^ 32 * 2 ^ 32"
    using unat_u32_bound [of a] unat_u32_bound [of b] by (intro mult_strict_mono) auto
  then have "unat (ucast a :: u64) * unat (ucast b :: u64) < 2 ^ LENGTH(64)" by simp
  then show ?thesis by (metis unat_mult_lem unat_ucast_u64)
qed

lemma unat_first_block:
  "unat (ext2fs_group_first_block2 fs grp) =
     unat (s_first_data_block (fs_super fs)) + unat grp * unat (s_blocks_per_group (fs_super fs))"
proof -
  let ?f = "s_first_data_block (fs_super fs)" and ?b = "s_blocks_per_group (fs_super fs)"
  have "unat grp * unat ?b \<le> (2 ^ 32 - 1) * (2 ^ 32 - 1)"
    using unat_u32_bound [of grp] unat_u32_bound [of ?b] by (intro mult_mono) auto
  then have "unat (ucast ?f :: u64) + unat (ucast grp * ucast ?b :: u64) < 2 ^ LENGTH(64)"
    using unat_u32_bound [of ?f] by (simp add: unat_ucast_mult)
  then have "unat (ucast ?f + ucast grp * ucast ?b :: u64) =
      unat (ucast ?f :: u64) + unat (ucast grp * ucast ?b :: u64)"
    by (rule unat_add_small)
  then show ?thesis by (simp add: ext2fs_group_first_block2_def unat_ucast_mult)
qed

lemma group_of_blk_nat:
  assumes "geometry_ok fs" "unat (s_first_data_block (fs_super fs)) \<le> unat blk"
    "blk < ext2fs_blocks_count (fs_super fs)"
  shows "unat (ext2fs_group_of_blk2 fs blk) =
      (unat blk - unat (s_first_data_block (fs_super fs))) div unat (s_blocks_per_group (fs_super fs))"
    "unat (ext2fs_group_of_blk2 fs blk) < unat (fs_group_desc_count fs)"
proof -
  let ?f = "s_first_data_block (fs_super fs)" and ?b = "s_blocks_per_group (fs_super fs)"
  let ?q = "(unat blk - unat ?f) div unat ?b"
  have g: "0 < unat ?b" "unat blk < unat ?f + unat (fs_group_desc_count fs) * unat ?b"
    using assms by (auto simp: geometry_ok_def Let_def word_less_nat_alt)
  have "unat (blk - ucast ?f) = unat blk - unat ?f"
    using assms(2) by (subst unat_diff) (simp_all add: word_le_nat_alt)
  then have q: "unat ((blk - ucast ?f) div ucast ?b) = ?q" by (simp add: unat_div_distrib)
  have lt: "?q < unat (fs_group_desc_count fs)"
    using g assms(2) by (simp add: div_less_iff_less_mult)
  then have "unat ((blk - ucast ?f) div ucast ?b) < 2 ^ 32"
    using q unat_u32_bound [of "fs_group_desc_count fs"] by simp
  then show "unat (ext2fs_group_of_blk2 fs blk) = ?q"
    unfolding ext2fs_group_of_blk2_def using q by (simp add: unat_ucast_u32)
  then show "unat (ext2fs_group_of_blk2 fs blk) < unat (fs_group_desc_count fs)" using lt by simp
qed

lemma last_block_nat:
  assumes "geometry_ok fs" "unat grp < unat (fs_group_desc_count fs)"
  shows "unat (ext2fs_group_last_block2 fs grp) =
    min (unat (ext2fs_group_first_block2 fs grp) + unat (s_blocks_per_group (fs_super fs)))
        (unat (ext2fs_blocks_count (fs_super fs))) - 1"
proof -
  let ?f = "unat (s_first_data_block (fs_super fs))" and ?b = "s_blocks_per_group (fs_super fs)"
  let ?n = "fs_group_desc_count fs" and ?c = "ext2fs_blocks_count (fs_super fs)"
  have g: "0 < unat ?b" "?f < unat ?c" "?f + (unat ?n - 1) * unat ?b < unat ?c"
      "unat ?c \<le> ?f + unat ?n * unat ?b" "0 < unat ?n"
    using assms(1) by (auto simp: geometry_ok_def Let_def)
  have n1: "unat (?n - 1) = unat ?n - 1" using g(5) by (intro unat_minus_one) auto
  have c1: "unat (?c - 1) = unat ?c - 1" using g(2) by (intro unat_minus_one) auto
  show ?thesis
  proof (cases "grp = ?n - 1")
    case True
    then have "unat grp = unat ?n - 1" using n1 by simp
    moreover have "unat ?n * unat ?b = (unat ?n - 1) * unat ?b + unat ?b"
      using g(5) by (metis Suc_diff_1 add.commute mult_Suc)
    ultimately have "unat ?c \<le> unat (ext2fs_group_first_block2 fs grp) + unat ?b"
      using g(4) by (simp add: unat_first_block)
    then show ?thesis using True c1 by (simp add: ext2fs_group_last_block2_def)
  next
    case False
    then have lt: "unat grp + 1 \<le> unat ?n - 1"
      using assms(2) n1 by (metis Suc_eq_plus1 Suc_leI g(5) less_Suc_eq Suc_diff_1 word_unat_eq_iff)
    then have "(unat grp + 1) * unat ?b \<le> (unat ?n - 1) * unat ?b" by (rule mult_le_mono1)
    then have le: "unat (ext2fs_group_first_block2 fs grp) + unat ?b < unat ?c"
      using g(3) by (simp add: unat_first_block)
    have b1: "unat (?b - 1) = unat ?b - 1" using g(1) by (intro unat_minus_one) auto
    have "unat (ext2fs_group_first_block2 fs grp) + unat (ucast (?b - 1) :: u64) < 2 ^ LENGTH(64)"
      using le b1 unat_u64_bound [of ?c] by simp
    then have "unat (ext2fs_group_first_block2 fs grp + ucast (?b - 1)) =
        unat (ext2fs_group_first_block2 fs grp) + (unat ?b - 1)"
      using b1 unat_add_small by fastforce
    then show ?thesis using False le g(1) by (simp add: ext2fs_group_last_block2_def)
  qed
qed

lemma blocks_count_nat:
  assumes "geometry_ok fs" "unat grp < unat (fs_group_desc_count fs)"
  shows "unat (ext2fs_group_blocks_count fs grp) =
    unat (ext2fs_group_last_block2 fs grp) + 1 - unat (ext2fs_group_first_block2 fs grp)"
proof -
  let ?f = "unat (s_first_data_block (fs_super fs))" and ?b = "s_blocks_per_group (fs_super fs)"
  let ?n = "fs_group_desc_count fs" and ?c = "ext2fs_blocks_count (fs_super fs)"
  have g: "0 < unat ?b" "?f < unat ?c" "?f + (unat ?n - 1) * unat ?b < unat ?c"
      "unat ?c \<le> ?f + unat ?n * unat ?b" "0 < unat ?n"
    using assms(1) by (auto simp: geometry_ok_def Let_def)
  have n1: "unat (?n - 1) = unat ?n - 1" using g(5) by (intro unat_minus_one) auto
  have nb: "unat ?n * unat ?b = (unat ?n - 1) * unat ?b + unat ?b"
    using g(5) by (metis Suc_diff_1 add.commute mult_Suc)
  show ?thesis
  proof (cases "grp = ?n - 1")
    case True
    define r where "r = unat ?c - ?f - (unat ?n - 1) * unat ?b"
    have r: "0 < r" "r \<le> unat ?b" using g nb by (auto simp: r_def)
    have m: "(unat ?c - ?f) mod unat ?b = (if r = unat ?b then 0 else r)"
    proof -
      have "unat ?c - ?f = r + (unat ?n - 1) * unat ?b" using g(3) by (simp add: r_def)
      then have "(unat ?c - ?f) mod unat ?b = r mod unat ?b" by simp
      then show ?thesis using r by auto
    qed
    have "unat (?c - ucast (s_first_data_block (fs_super fs))) = unat ?c - ?f"
      using g(2) by (subst unat_diff) (simp_all add: word_le_nat_alt)
    then have u: "unat ((?c - ucast (s_first_data_block (fs_super fs))) mod ucast ?b) =
        (if r = unat ?b then 0 else r)"
      using m by (simp add: unat_mod_distrib)
    define w :: u32 where "w = ucast ((?c - ucast (s_first_data_block (fs_super fs))) mod ucast ?b)"
    have "unat w = (if r = unat ?b then 0 else r)"
      unfolding w_def using u r unat_u32_bound [of ?b] by (subst unat_ucast_u32) auto
    then have "unat (ext2fs_group_blocks_count fs grp) = r"
      using True r by (auto simp: ext2fs_group_blocks_count_def Let_def w_def [symmetric] unat_eq_zero)
    moreover have "unat grp = unat ?n - 1" using True n1 by simp
    ultimately show ?thesis
      using last_block_nat [OF assms] g nb by (simp add: unat_first_block r_def)
  next
    case False
    then have "unat grp + 1 \<le> unat ?n - 1"
      using assms(2) n1 by (metis Suc_eq_plus1 Suc_leI g(5) less_Suc_eq Suc_diff_1 word_unat_eq_iff)
    then have "(unat grp + 1) * unat ?b \<le> (unat ?n - 1) * unat ?b" by (rule mult_le_mono1)
    then show ?thesis
      using False last_block_nat [OF assms] g by (simp add: unat_first_block ext2fs_group_blocks_count_def)
  qed
qed

section \<open>Powers\<close>

definition is_pow :: "nat \<Rightarrow> nat \<Rightarrow> bool" where
  "is_pow b n \<longleftrightarrow> (\<exists>k. n = b ^ k)"

lemma test_root_loop_pow:
  "0 < a \<Longrightarrow> 2 \<le> b \<Longrightarrow> test_root_loop (int a) (int b) = Some (is_pow b a)"
proof (induction a rule: less_induct)
  case (less a)
  show ?case
  proof (cases "a = 1")
    case True
    then have "is_pow b a" by (auto simp: is_pow_def intro: exI [of _ 0])
    then show ?thesis using True by (subst test_root_loop.simps) simp
  next
    case False
    have sm: "int a smod int b = int (a mod b)" "int a sdiv int b = int (a div b)"
      by (simp_all add: signed_divide_int_def signed_modulo_int_def zdiv_int zmod_int sgn_if)
    show ?thesis
    proof (cases "a mod b = 0")
      case nz: False
      have "\<not> is_pow b a"
      proof
        assume "is_pow b a"
        then obtain k where "a = b ^ k" by (auto simp: is_pow_def)
        then show False using nz False by (cases k) auto
      qed
      then show ?thesis
        using nz False sm(1) by (subst test_root_loop.simps) simp
    next
      case z: True
      then have e: "a = b * (a div b)" by auto
      have lt: "a div b < a" "0 < a div b"
        using less.prems e by (auto intro: div_less_dividend) (metis gr0I mult_0_right)
      have "is_pow b (a div b) \<longleftrightarrow> is_pow b a"
      proof
        assume "is_pow b (a div b)"
        then obtain k where "a div b = b ^ k" by (auto simp: is_pow_def)
        then have "a = b ^ Suc k" using e by simp
        then show "is_pow b a" unfolding is_pow_def by blast
      next
        assume "is_pow b a"
        then obtain k where k: "a = b ^ k" by (auto simp: is_pow_def)
        then obtain j where "k = Suc j" using False by (cases k) auto
        then have "a div b = b ^ j" using k less.prems(2) by simp
        then show "is_pow b (a div b)" unfolding is_pow_def by blast
      qed
      then show ?thesis
        using False sm z less.IH [OF lt(1) lt(2) less.prems(2)]
        by (subst test_root_loop.simps) simp
    qed
  qed
qed

lemma test_root_pow: "0 < a \<Longrightarrow> 2 \<le> b \<Longrightarrow> test_root (int a) (int b) = Some (is_pow b a)"
  by (simp add: test_root_def test_root_loop_pow)

definition sparse :: "filsys \<Rightarrow> bool" where
  "sparse fs \<longleftrightarrow> s_feature_ro_compat (fs_super fs) AND EXT2_FEATURE_RO_COMPAT_SPARSE_SUPER \<noteq> 0"

lemma sint_unat: "unat (x :: u32) < 2 ^ 31 \<Longrightarrow> sint x = int (unat x)"
  using sint_of_nat_small [of "unat x", where ?'a = 32] by simp

lemma bg_has_super_iff:
  assumes "unat g < 2 ^ 31"
  shows "ext2fs_bg_has_super fs g \<longleftrightarrow>
    \<not> sparse fs \<or> g = 0 \<or> is_pow 3 (unat g) \<or> is_pow 5 (unat g) \<or> is_pow 7 (unat g)"
proof (cases "g = 0")
  case True
  then show ?thesis by (simp add: ext2fs_bg_has_super_def test_root_def)
next
  case False
  then have "0 < unat g" by (simp add: unat_gt_0)
  then have "test_root (sint g) 3 = Some (is_pow 3 (unat g))" "test_root (sint g) 5 = Some (is_pow 5 (unat g))"
    "test_root (sint g) 7 = Some (is_pow 7 (unat g))"
    using test_root_pow [of "unat g" 3] test_root_pow [of "unat g" 5] test_root_pow [of "unat g" 7]
    by (simp_all add: sint_unat [OF assms])
  then show ?thesis using False by (simp add: ext2fs_bg_has_super_def sparse_def)
qed

section \<open>The backup groups in order\<close>

definition pows_from :: "nat \<Rightarrow> nat \<Rightarrow> nat set" where
  "pows_from b m = {g. is_pow b g \<and> m \<le> g}"

lemma pows_from_step:
  assumes "2 \<le> b"
  shows "pows_from b (b ^ a) = insert (b ^ a) (pows_from b (b ^ a * b))" "b ^ a \<notin> pows_from b (b ^ a * b)"
proof -
  have "b ^ a \<le> b ^ k \<longleftrightarrow> k = a \<or> b ^ a * b \<le> b ^ k" for k
  proof -
    have "b ^ a \<le> b ^ k \<longleftrightarrow> a \<le> k" "b ^ a * b \<le> b ^ k \<longleftrightarrow> Suc a \<le> k"
      using assms power_increasing_iff [of b a k] power_increasing_iff [of b "Suc a" k]
      by (auto simp: mult.commute)
    then show ?thesis by auto
  qed
  then show "pows_from b (b ^ a) = insert (b ^ a) (pows_from b (b ^ a * b))"
    by (auto simp: pows_from_def is_pow_def)
  have "b ^ a < b ^ a * b" using assms by (simp add: zero_less_power)
  then show "b ^ a \<notin> pows_from b (b ^ a * b)" by (auto simp: pows_from_def)
qed

lemma pow_neq:
  assumes "coprime p q" "0 < j" "2 \<le> (q :: nat)"
  shows "p ^ i \<noteq> q ^ j"
proof
  assume e: "p ^ i = q ^ j"
  have "coprime (p ^ i) (q ^ j)" using assms(1) by simp
  then have "q ^ j = 1" using e by simp
  then show False using assms(2,3) by (metis nat_power_eq_Suc_0_iff One_nat_def not_numeral_le_zero Suc_1 not_less_eq_eq order_refl less_irrefl)
qed

definition backups_inv :: "backup_state \<Rightarrow> bool" where
  "backups_inv st \<longleftrightarrow> (\<exists>a b c. unat (bk_three st) = 3 ^ a \<and> unat (bk_five st) = 5 ^ Suc b \<and>
     unat (bk_seven st) = 7 ^ Suc c)"

definition backups_left :: "backup_state \<Rightarrow> nat set" where
  "backups_left st = pows_from 3 (unat (bk_three st)) \<union> pows_from 5 (unat (bk_five st)) \<union>
     pows_from 7 (unat (bk_seven st))"

lemma unat_mult_small:
  "unat (x :: u32) * k < 2 ^ 32 \<Longrightarrow> k < 2 ^ 32 \<Longrightarrow> unat (x * of_nat k) = unat x * k"
  using unat_mult_lem [of x "of_nat k"] by (simp add: unat_of_nat_small)

lemma backups_ge: "x \<in> backups_left st \<Longrightarrow>
    unat (bk_three st) \<le> x \<or> unat (bk_five st) \<le> x \<or> unat (bk_seven st) \<le> x"
  by (auto simp: backups_left_def pows_from_def)

text \<open>
  One call: it returns the least group left and leaves the others, as long as the product
  does not wrap.
\<close>

lemma list_backups_step:
  assumes sp: "sparse fs" and inv: "backups_inv st"
    and r: "ext2fs_list_backups fs st = (g, st')" and small: "unat g * 7 < 2 ^ 32"
  shows "backups_inv st' \<and> backups_left st = insert (unat g) (backups_left st') \<and>
    unat g \<notin> backups_left st' \<and> (\<forall>x \<in> backups_left st. unat g \<le> x) \<and>
    (\<forall>L > unat g. (L - unat (bk_three st')) + (L - unat (bk_five st')) + (L - unat (bk_seven st')) <
       (L - unat (bk_three st)) + (L - unat (bk_five st)) + (L - unat (bk_seven st)))"
proof -
  define t f s where "t = unat (bk_three st)" and "f = unat (bk_five st)" and "s = unat (bk_seven st)"
  obtain a b c where p: "t = 3 ^ a" "f = 5 ^ Suc b" "s = 7 ^ Suc c"
    using inv unfolding backups_inv_def t_def f_def s_def by blast
  have cop: "coprime (3 :: nat) 5" "coprime (3 :: nat) 7" "coprime (5 :: nat) 7" "coprime (7 :: nat) 5"
    by (simp_all add: coprime_iff_gcd_eq_1 gcd_non_0_nat del: One_nat_def)
  have ne: "t \<noteq> f" "t \<noteq> s" "f \<noteq> s"
    unfolding p using pow_neq [OF cop(1)] pow_neq [OF cop(2)] pow_neq [OF cop(3)] by (simp_all del: power_Suc)
  have pos: "0 < t" "0 < f" "0 < s" by (simp_all add: p)
  have dec: "L - m * k < L - m" if "m < L" "0 < m" "2 \<le> k" for L m k :: nat
  proof -
    have "m * 1 < m * k" using that by (intro mult_strict_left_mono) auto
    then show ?thesis using that by (intro diff_less_mono2) auto
  qed
  have step3: "pows_from 3 t = insert t (pows_from 3 (t * 3))" "t \<notin> pows_from 3 (t * 3)"
    and step5: "pows_from 5 f = insert f (pows_from 5 (f * 5))" "f \<notin> pows_from 5 (f * 5)"
    and step7: "pows_from 7 s = insert s (pows_from 7 (s * 7))" "s \<notin> pows_from 7 (s * 7)"
    unfolding p by (rule pows_from_step; simp)+
  have ge: "x \<in> pows_from b' m \<Longrightarrow> m \<le> x" for x b' m by (simp add: pows_from_def)
  have left: "backups_left st = pows_from 3 t \<union> pows_from 5 f \<union> pows_from 7 s"
    by (simp add: backups_left_def t_def f_def s_def)
  have feat: "s_feature_ro_compat (fs_super fs) AND EXT2_FEATURE_RO_COMPAT_SPARSE_SUPER \<noteq> 0"
    using sp by (simp add: sparse_def)
  consider (three) "t < f" "t < s" "g = bk_three st" "st' = st\<lparr>bk_three := bk_three st * 3\<rparr>"
    | (five) "f < t" "f < s" "g = bk_five st" "st' = st\<lparr>bk_five := bk_five st * 5\<rparr>"
    | (seven) "s < t" "s < f" "g = bk_seven st" "st' = st\<lparr>bk_seven := bk_seven st * 7\<rparr>"
  proof -
    have lt: "bk_five st < bk_three st \<longleftrightarrow> f < t" "bk_seven st < bk_three st \<longleftrightarrow> s < t"
        "bk_seven st < bk_five st \<longleftrightarrow> s < f"
      by (simp_all add: word_less_nat_alt t_def f_def s_def)
    have "ext2fs_list_backups fs st =
        (if f < t then if s < f then (bk_seven st, st\<lparr>bk_seven := bk_seven st * 7\<rparr>)
                       else (bk_five st, st\<lparr>bk_five := bk_five st * 5\<rparr>)
         else if s < t then (bk_seven st, st\<lparr>bk_seven := bk_seven st * 7\<rparr>)
         else (bk_three st, st\<lparr>bk_three := bk_three st * 3\<rparr>))"
      using feat by (simp add: ext2fs_list_backups_def Let_def lt)
    note e = trans [OF r [symmetric] this]
    show thesis
    proof (cases "f < t")
      case True
      show thesis
      proof (cases "s < f")
        case s: True
        show thesis by (rule that(3)) (use e True s in \<open>simp_all\<close>)
      next
        case s: False
        show thesis by (rule that(2)) (use e True s ne(3) in \<open>simp_all\<close>)
      qed
    next
      case False
      show thesis
      proof (cases "s < t")
        case s: True
        show thesis by (rule that(3)) (use e False s ne(1) in \<open>simp_all\<close>)
      next
        case s: False
        show thesis by (rule that(1)) (use e False s ne(1,2) in \<open>simp_all\<close>)
      qed
    qed
  qed
  then show ?thesis
  proof cases
    case three
    have u: "unat (bk_three st * 3) = t * 3"
      using unat_mult_small [of "bk_three st" 3] small three by (simp add: t_def)
    have left': "backups_left st' = pows_from 3 (t * 3) \<union> pows_from 5 f \<union> pows_from 7 s"
      using three u by (simp add: backups_left_def t_def f_def s_def)
    have "backups_inv st'"
      unfolding backups_inv_def using p three u
      by (intro exI [of _ "Suc a"] exI [of _ b] exI [of _ c]) (simp add: t_def f_def s_def)
    moreover have "t \<notin> backups_left st'" "\<forall>x \<in> backups_left st. t \<le> x"
      unfolding left' left using step3(2) ge three(1,2) by fastforce+
    moreover have "backups_left st = insert t (backups_left st')"
      unfolding left left' step3(1) by auto
    moreover have "\<forall>L > t. (L - t * 3) + (L - f) + (L - s) < (L - t) + (L - f) + (L - s)"
      by (intro allI impI add_strict_right_mono add_strict_left_mono dec) (simp_all add: pos)
    ultimately show ?thesis
      using three u by (simp add: t_def f_def s_def)
  next
    case five
    have u: "unat (bk_five st * 5) = f * 5"
      using unat_mult_small [of "bk_five st" 5] small five by (simp add: f_def)
    have left': "backups_left st' = pows_from 3 t \<union> pows_from 5 (f * 5) \<union> pows_from 7 s"
      using five u by (simp add: backups_left_def t_def f_def s_def)
    have "backups_inv st'"
      unfolding backups_inv_def using p five u
      by (intro exI [of _ a] exI [of _ "Suc b"] exI [of _ c]) (simp add: t_def f_def s_def)
    moreover have "f \<notin> backups_left st'" "\<forall>x \<in> backups_left st. f \<le> x"
      unfolding left' left using step5(2) ge five(1,2) by fastforce+
    moreover have "backups_left st = insert f (backups_left st')"
      unfolding left left' step5(1) by auto
    moreover have "\<forall>L > f. (L - t) + (L - f * 5) + (L - s) < (L - t) + (L - f) + (L - s)"
      by (intro allI impI add_strict_right_mono add_strict_left_mono dec) (simp_all add: pos)
    ultimately show ?thesis
      using five u by (simp add: t_def f_def s_def)
  next
    case seven
    have u: "unat (bk_seven st * 7) = s * 7"
      using unat_mult_small [of "bk_seven st" 7] small seven by (simp add: s_def)
    have left': "backups_left st' = pows_from 3 t \<union> pows_from 5 f \<union> pows_from 7 (s * 7)"
      using seven u by (simp add: backups_left_def t_def f_def s_def)
    have "backups_inv st'"
      unfolding backups_inv_def using p seven u
      by (intro exI [of _ a] exI [of _ b] exI [of _ "Suc c"]) (simp add: t_def f_def s_def)
    moreover have "s \<notin> backups_left st'" "\<forall>x \<in> backups_left st. s \<le> x"
      unfolding left' left using step7(2) ge seven(1,2) by fastforce+
    moreover have "backups_left st = insert s (backups_left st')"
      unfolding left left' step7(1) by auto
    moreover have "\<forall>L > s. (L - t) + (L - f) + (L - s * 7) < (L - t) + (L - f) + (L - s)"
      by (intro allI impI add_strict_right_mono add_strict_left_mono dec) (simp_all add: pos)
    ultimately show ?thesis
      using seven u by (simp add: t_def f_def s_def)
  qed
qed

lemma list_backups_least:
  assumes "sparse fs" "ext2fs_list_backups fs st = (g, st')"
  shows "unat g \<le> unat (bk_three st)" "unat g \<le> unat (bk_five st)" "unat g \<le> unat (bk_seven st)"
  using assms
  by (auto simp: sparse_def ext2fs_list_backups_def Let_def word_less_nat_alt split: if_splits)

lemma backups_below_sparse:
  assumes "sparse fs" "7 * unat limit < 2 ^ 32" "backups_inv st"
  shows "\<exists>gs. backups_below fs limit st = Some gs \<and> sorted_wrt (<) gs \<and>
    unat ` set gs = {x \<in> backups_left st. x < unat limit}"
  using assms(3)
proof (induction "(unat limit - unat (bk_three st)) + (unat limit - unat (bk_five st)) +
    (unat limit - unat (bk_seven st))" arbitrary: st rule: less_induct)
  case less
  obtain g st' where r: "ext2fs_list_backups fs st = (g, st')" by fastforce
  show ?case
  proof (cases "g < limit")
    case False
    have "unat limit \<le> x" if "x \<in> backups_left st" for x
      using list_backups_least [OF assms(1) r] backups_ge [OF that] False
      by (auto simp: word_less_nat_alt not_less)
    then show ?thesis
      using False r by (intro exI [of _ "[]"]) (subst backups_below.simps, fastforce)
  next
    case True
    then have small: "unat g * 7 < 2 ^ 32" "unat g < unat limit"
      using assms(2) by (auto simp: word_less_nat_alt)
    note st = list_backups_step [OF assms(1) less.prems r small(1)]
    obtain gs where gs: "backups_below fs limit st' = Some gs" "sorted_wrt (<) gs"
        "unat ` set gs = {x \<in> backups_left st'. x < unat limit}"
      using less.hyps [of st'] st small(2) by blast
    have "g < h" if "h \<in> set gs" for h
    proof -
      have "unat h \<in> backups_left st'" using gs(3) that by blast
      then have "unat g \<le> unat h" "unat h \<noteq> unat g" using st by auto
      then show ?thesis by (simp add: word_less_nat_alt)
    qed
    moreover have "unat ` set (g # gs) = {x \<in> backups_left st. x < unat limit}"
      using gs(3) st small(2) by auto
    ultimately show ?thesis
      using True r gs by (intro exI [of _ "g # gs"]) (subst backups_below.simps, auto)
  qed
qed

lemma backups_below_dense:
  assumes "\<not> sparse fs" "unat limit < 2 ^ 32 - 1"
  shows "\<exists>gs. backups_below fs limit st = Some gs \<and> sorted_wrt (<) gs \<and>
    unat ` set gs = {x. unat (bk_three st) \<le> x \<and> x < unat limit}"
proof (induction "unat limit - unat (bk_three st)" arbitrary: st rule: less_induct)
  case less
  let ?t = "bk_three st" and ?st = "st\<lparr>bk_three := bk_three st + 1\<rparr>"
  have r: "ext2fs_list_backups fs st = (?t, ?st)"
    using assms(1) by (simp add: ext2fs_list_backups_def sparse_def)
  show ?case
  proof (cases "?t < limit")
    case False
    then show ?thesis using r by (subst backups_below.simps) (auto simp: word_less_nat_alt)
  next
    case True
    then have lt: "unat ?t < unat limit" by (simp add: word_less_nat_alt)
    then have s: "unat (?t + 1) = unat ?t + 1" using assms(2) by (subst unat_add_small) auto
    obtain gs where gs: "backups_below fs limit ?st = Some gs" "sorted_wrt (<) gs"
        "unat ` set gs = {x. unat ?t + 1 \<le> x \<and> x < unat limit}"
      using less.hyps [of ?st] lt s by fastforce
    have "?t < h" if "h \<in> set gs" for h
    proof -
      have "unat h \<in> unat ` set gs" using that by (rule imageI)
      then show ?thesis unfolding gs(3) by (simp add: word_less_nat_alt)
    qed
    moreover have "unat ` set (?t # gs) = {x. unat ?t \<le> x \<and> x < unat limit}"
      using gs(3) lt by auto
    ultimately show ?thesis
      using True r gs by (intro exI [of _ "?t # gs"]) (subst backups_below.simps, auto)
  qed
qed

definition backups_start :: backup_state where
  "backups_start = \<lparr>bk_three = 1, bk_five = 5, bk_seven = 7\<rparr>"

lemma backups_left_start:
  assumes "0 < x"
  shows "x \<in> backups_left backups_start \<longleftrightarrow> is_pow 3 x \<or> is_pow 5 x \<or> is_pow 7 x"
proof -
  have b: "b \<le> x \<or> x = 1" if "is_pow b x" "0 < b" for b
  proof -
    from that(1) obtain k where k: "x = b ^ k" unfolding is_pow_def by blast
    then show ?thesis using that(2) self_le_power [of b k] by (cases "k = 0") auto
  qed
  have "is_pow 3 1" by (auto simp: is_pow_def intro: exI [of _ 0])
  then show ?thesis
    using assms b [of 5] b [of 7]
    by (cases "x = 1") (auto simp: backups_left_def pows_from_def backups_start_def)
qed

text \<open>
  C15. Walking the backups with \<open>ext2fs_list_backups\<close> from the state (1, 5, 7) returns, in strictly
  increasing order and up to the limit, exactly the groups other than group 0 for which
  \<open>ext2fs_bg_has_super\<close> answers that they hold a copy of the superblock, with and without the
  sparse superblock feature; the walk ends. The limit keeps the products from wrapping.
\<close>

theorem list_backups_has_super:
  assumes "7 * unat limit < 2 ^ 32"
  shows "\<exists>gs. backups_below fs limit \<lparr>bk_three = 1, bk_five = 5, bk_seven = 7\<rparr> = Some gs \<and>
    sorted_wrt (<) gs \<and> set gs = {g. 0 < g \<and> g < limit \<and> ext2fs_bg_has_super fs g}"
proof -
  let ?st = backups_start
  have has: "ext2fs_bg_has_super fs g \<longleftrightarrow>
      \<not> sparse fs \<or> g = 0 \<or> is_pow 3 (unat g) \<or> is_pow 5 (unat g) \<or> is_pow 7 (unat g)"
    if "g < limit" for g
    using that assms by (intro bg_has_super_iff) (simp add: word_less_nat_alt)
  have inv: "backups_inv ?st"
    unfolding backups_inv_def backups_start_def
    by (intro exI [of _ 0]) simp
  have "\<exists>gs. backups_below fs limit ?st = Some gs \<and> sorted_wrt (<) gs \<and>
      unat ` set gs = {x. 0 < x \<and> x < unat limit \<and> (\<not> sparse fs \<or> is_pow 3 x \<or> is_pow 5 x \<or> is_pow 7 x)}"
  proof (cases "sparse fs")
    case True
    have "0 < x" if "x \<in> backups_left ?st" for x
      using backups_ge [OF that] by (auto simp: backups_start_def)
    then have "{x \<in> backups_left ?st. x < unat limit} =
        {x. 0 < x \<and> x < unat limit \<and> (\<not> sparse fs \<or> is_pow 3 x \<or> is_pow 5 x \<or> is_pow 7 x)}"
      using True backups_left_start by blast
    then show ?thesis using backups_below_sparse [OF True assms inv] by simp
  next
    case False
    then show ?thesis
      using backups_below_dense [OF False, of limit ?st] assms by (auto simp: backups_start_def Suc_le_eq)
  qed
  then obtain gs where gs: "backups_below fs limit ?st = Some gs" "sorted_wrt (<) gs"
      "unat ` set gs = {x. 0 < x \<and> x < unat limit \<and> (\<not> sparse fs \<or> is_pow 3 x \<or> is_pow 5 x \<or> is_pow 7 x)}"
    by blast
  have "g \<in> set gs \<longleftrightarrow> 0 < g \<and> g < limit \<and> ext2fs_bg_has_super fs g" for g
  proof -
    have "g \<in> set gs \<longleftrightarrow> unat g \<in> unat ` set gs" by (force simp: word_unat_eq_iff [symmetric])
    also have "\<dots> \<longleftrightarrow> 0 < g \<and> g < limit \<and> ext2fs_bg_has_super fs g"
      unfolding gs(3) using has [of g] by (auto simp: word_less_nat_alt word_unat_eq_iff)
    finally show ?thesis .
  qed
  then show ?thesis using gs(1,2) by (auto simp: backups_start_def)
qed

lemma list_backups_has_super_witness:
  "\<exists>gs. backups_below fs_sample 50 \<lparr>bk_three = 1, bk_five = 5, bk_seven = 7\<rparr> = Some gs \<and>
    sorted_wrt (<) gs \<and> 49 \<in> set gs"
proof -
  obtain gs where gs: "backups_below fs_sample 50 \<lparr>bk_three = 1, bk_five = 5, bk_seven = 7\<rparr> = Some gs"
      "sorted_wrt (<) gs" "set gs = {g. 0 < g \<and> g < 50 \<and> ext2fs_bg_has_super fs_sample g}"
    using list_backups_has_super [of 50 fs_sample] by auto
  have "is_pow 7 49" by (auto simp: is_pow_def intro: exI [of _ 2])
  then have "ext2fs_bg_has_super fs_sample 49" by (simp add: bg_has_super_iff)
  then show ?thesis using gs by auto
qed

lemma card_word_between: "card {b. a \<le> b \<and> b \<le> c} = unat c + 1 - unat (a :: 'a::len word)"
proof -
  have "unat ` {b. a \<le> b \<and> b \<le> c} = {unat a .. unat c}"
  proof
    show "unat ` {b. a \<le> b \<and> b \<le> c} \<subseteq> {unat a .. unat c}" by (auto simp: word_le_nat_alt)
    show "{unat a .. unat c} \<subseteq> unat ` {b. a \<le> b \<and> b \<le> c}"
    proof
      fix n assume n: "n \<in> {unat a .. unat c}"
      then have "n < 2 ^ LENGTH('a)" using unsigned_less [of c] by (auto intro: le_less_trans)
      then have u: "unat (of_nat n :: 'a word) = n" by (rule unat_of_nat_small)
      show "n \<in> unat ` {b. a \<le> b \<and> b \<le> c}"
        by (rule image_eqI [of _ _ "of_nat n"]) (use n u in \<open>simp_all add: word_le_nat_alt\<close>)
    qed
  qed
  moreover have "inj_on unat {b. a \<le> b \<and> b \<le> (c :: 'a word)}" by (rule inj_onI) (simp add: word_unat_eq_iff)
  ultimately show ?thesis by (metis card_image card_atLeastAtMost Suc_eq_plus1)
qed

lemma div_eq_between:
  assumes "0 < (b :: nat)"
  shows "x div b = g \<longleftrightarrow> g * b \<le> x \<and> x < g * b + b"
proof
  assume "x div b = g"
  then have "g * b + x mod b = x" by auto
  then show "g * b \<le> x \<and> x < g * b + b" using mod_less_divisor [OF assms, of x] by linarith
next
  assume "g * b \<le> x \<and> x < g * b + b"
  then show "x div b = g" by (intro div_nat_eqI) (simp_all add: mult.commute)
qed

text \<open>
  C14. The groups partition the blocks of the device: every block from the first data block on
  lies in exactly one group, the one \<open>ext2fs_group_of_blk2\<close> computes, which is the group whose
  first and last block enclose it; and \<open>ext2fs_group_blocks_count\<close> is the number of blocks
  between them, the shorter last group included.
\<close>

theorem groups_partition_blocks:
  assumes "geometry_ok fs" "unat (s_first_data_block (fs_super fs)) \<le> unat blk"
    "blk < ext2fs_blocks_count (fs_super fs)" "grp < fs_group_desc_count fs"
  shows "ext2fs_group_of_blk2 fs blk < fs_group_desc_count fs \<and>
    (ext2fs_group_of_blk2 fs blk = grp \<longleftrightarrow>
       ext2fs_group_first_block2 fs grp \<le> blk \<and> blk \<le> ext2fs_group_last_block2 fs grp) \<and>
    unat (ext2fs_group_blocks_count fs grp) =
      card {b. ext2fs_group_first_block2 fs grp \<le> b \<and> b \<le> ext2fs_group_last_block2 fs grp}"
proof -
  let ?f = "unat (s_first_data_block (fs_super fs))" and ?b = "unat (s_blocks_per_group (fs_super fs))"
  note q = group_of_blk_nat [OF assms(1-3)]
  have grp: "unat grp < unat (fs_group_desc_count fs)" using assms(4) by (simp add: word_less_nat_alt)
  note last = last_block_nat [OF assms(1) grp] and count = blocks_count_nat [OF assms(1) grp]
  have b: "0 < ?b" "unat blk < unat (ext2fs_blocks_count (fs_super fs))"
    using assms(1,3) by (auto simp: geometry_ok_def Let_def word_less_nat_alt)
  have "ext2fs_group_of_blk2 fs blk = grp \<longleftrightarrow> (unat blk - ?f) div ?b = unat grp"
    using q(1) by (auto simp: word_unat_eq_iff)
  also have "\<dots> \<longleftrightarrow> unat grp * ?b \<le> unat blk - ?f \<and> unat blk - ?f < unat grp * ?b + ?b"
    using b(1) by (rule div_eq_between)
  also have "\<dots> \<longleftrightarrow> ext2fs_group_first_block2 fs grp \<le> blk \<and> blk \<le> ext2fs_group_last_block2 fs grp"
    using assms(2) b last by (auto simp: word_le_nat_alt unat_first_block)
  finally have iff: "ext2fs_group_of_blk2 fs blk = grp \<longleftrightarrow>
      ext2fs_group_first_block2 fs grp \<le> blk \<and> blk \<le> ext2fs_group_last_block2 fs grp" .
  show ?thesis using q(2) iff count by (simp add: word_less_nat_alt card_word_between)
qed

lemma groups_partition_blocks_witness:
  "ext2fs_group_of_blk2 fs_sample 39 = 2 \<and> ext2fs_group_first_block2 fs_sample 2 \<le> 39 \<and>
   unat (ext2fs_group_blocks_count fs_sample 2) =
     card {b. ext2fs_group_first_block2 fs_sample 2 \<le> b \<and> b \<le> ext2fs_group_last_block2 fs_sample 2}"
proof -
  have "geometry_ok fs_sample" by code_simp
  moreover have "unat (s_first_data_block (fs_super fs_sample)) \<le> unat (39 :: u64)"
    by (simp add: fs_sample_def sb_sample_def)
  moreover have "(39 :: u64) < ext2fs_blocks_count (fs_super fs_sample)" by code_simp
  moreover have "2 < fs_group_desc_count fs_sample" by (simp add: fs_sample_def)
  ultimately have "ext2fs_group_of_blk2 fs_sample 39 < fs_group_desc_count fs_sample \<and>
    (ext2fs_group_of_blk2 fs_sample 39 = 2 \<longleftrightarrow>
       ext2fs_group_first_block2 fs_sample 2 \<le> 39 \<and> 39 \<le> ext2fs_group_last_block2 fs_sample 2) \<and>
    unat (ext2fs_group_blocks_count fs_sample 2) =
      card {b. ext2fs_group_first_block2 fs_sample 2 \<le> b \<and> b \<le> ext2fs_group_last_block2 fs_sample 2}"
    by (rule groups_partition_blocks)
  moreover have "ext2fs_group_of_blk2 fs_sample 39 = 2" by code_simp
  ultimately show ?thesis by blast
qed

section \<open>The block count as one number\<close>

text \<open>What the two halves of the count stand for, and the width it has.\<close>

definition iblk_value :: "filsys \<Rightarrow> inode \<Rightarrow> u64" where
  "iblk_value fs inode =
     ucast (i_blocks inode) + (if has_huge_file fs then push_bit 32 (ucast (l_i_blocks_hi inode)) else 0)"

definition iblk_width :: "filsys \<Rightarrow> nat" where
  "iblk_width fs = (if has_huge_file fs then 48 else 32)"

lemma iblk_halves_or: "ucast (lo :: u32) + push_bit 32 (ucast (hi :: u16)) = (ucast lo OR push_bit 32 (ucast hi) :: u64)"
  by (rule disjunctive_add_eq_or, rule bit_eqI) (auto simp: bit_simps dest: bit_imp_le_length)

lemma iblk_halves:
  "ucast (ucast (b AND 0xFFFFFFFF :: u64) :: u32) + push_bit 32 (ucast (ucast (drop_bit 32 b) :: u16)) =
     take_bit 48 b"
  "ucast (ucast (b AND 0xFFFFFFFF) :: u32) = take_bit 32 b"
  "(ucast ((ucast lo + push_bit 32 (ucast hi) :: u64) AND 0xFFFFFFFF) :: u32) = lo"
  "(ucast (drop_bit 32 (ucast lo + push_bit 32 (ucast hi) :: u64)) :: u16) = hi"
  "(ucast ((ucast lo :: u64) AND 0xFFFFFFFF) :: u32) = lo"
proof -
  have m: "(0xFFFFFFFF :: u64) = mask 32" by (simp add: mask_eq_exp_minus_1)
  show "ucast (ucast (b AND 0xFFFFFFFF) :: u32) + push_bit 32 (ucast (ucast (drop_bit 32 b) :: u16)) = take_bit 48 b"
    unfolding iblk_halves_or m by (rule bit_eqI) (auto simp: bit_simps)
  show "ucast (ucast (b AND 0xFFFFFFFF) :: u32) = take_bit 32 b"
    unfolding m by (rule bit_eqI) (auto simp: bit_simps)
  show "(ucast ((ucast lo + push_bit 32 (ucast hi) :: u64) AND 0xFFFFFFFF) :: u32) = lo"
    unfolding iblk_halves_or m by (rule bit_eqI) (auto simp: bit_simps)
  show "(ucast (drop_bit 32 (ucast lo + push_bit 32 (ucast hi) :: u64)) :: u16) = hi"
    unfolding iblk_halves_or m by (rule bit_eqI) (auto simp: bit_simps dest: bit_imp_le_length)
  show "(ucast ((ucast lo :: u64) AND 0xFFFFFFFF) :: u32) = lo"
    unfolding m by (rule bit_eqI) (auto simp: bit_simps)
qed

lemma iblk_sub_fits:
  assumes "iblk_units fs ino n \<le> iblk_value fs ino" "iblk_value fs ino - iblk_units fs ino n = b"
  shows "ext2fs_iblk_sub_blocks fs ino n =
    (if has_huge_file fs
     then Inr (ino\<lparr>l_i_blocks_hi := ucast (drop_bit 32 b), i_blocks := ucast (b AND 0xFFFFFFFF)\<rparr>)
     else Inr (ino\<lparr>i_blocks := ucast (b AND 0xFFFFFFFF)\<rparr>))"
  using assms(1) unfolding ext2fs_iblk_sub_blocks_def Let_def assms(2) [symmetric]
  by (cases "has_huge_file fs") (simp_all add: iblk_value_def not_less leD)

lemma take_bit_small: "unat (b :: u64) < 2 ^ n \<Longrightarrow> take_bit n b = b"
  by (simp add: word_unat_eq_iff unsigned_take_bit_eq take_bit_nat_eq_self)

text \<open>
  C16. The block count of an inode behaves as one number of 48 bits with the HUGE_FILE feature and
  of 32 bits without. Adding blocks that fit gives the sum, and subtracting the same number
  restores the inode exactly; subtracting more than is there is refused, and so is a sum beyond 32
  bits without the feature. A sum that does not fit 48 bits is not refused: it is stored without
  its high bits.
\<close>

theorem iblk_add_sub_blocks:
  shows "(unat (iblk_value fs ino) + unat (iblk_units fs ino n) < 2 ^ iblk_width fs \<longrightarrow>
      (\<exists>ino'. ext2fs_iblk_add_blocks fs ino n = Inr ino' \<and>
         unat (iblk_value fs ino') = unat (iblk_value fs ino) + unat (iblk_units fs ino n) \<and>
         ext2fs_iblk_sub_blocks fs ino' n = Inr ino)) \<and>
    (iblk_value fs ino < iblk_units fs ino n \<longrightarrow> ext2fs_iblk_sub_blocks fs ino n = Inl EOVERFLOW) \<and>
    (\<not> has_huge_file fs \<longrightarrow> iblk_value fs ino + iblk_units fs ino n > 0xFFFFFFFF \<longrightarrow>
      ext2fs_iblk_add_blocks fs ino n = Inl EOVERFLOW) \<and>
    (has_huge_file fs \<longrightarrow> (\<exists>ino'. ext2fs_iblk_add_blocks fs ino n = Inr ino' \<and>
      iblk_value fs ino' = take_bit 48 (iblk_value fs ino + iblk_units fs ino n)))"
  (is "(?fits \<longrightarrow> ?rt) \<and> ?less \<and> ?over \<and> ?huge")
proof (intro conjI)
  let ?b = "iblk_value fs ino + iblk_units fs ino n"
  show ?less by (simp add: ext2fs_iblk_sub_blocks_def iblk_value_def Let_def)
  show ?over by (simp add: ext2fs_iblk_add_blocks_def iblk_value_def Let_def)
  show ?huge by (simp add: ext2fs_iblk_add_blocks_def iblk_value_def Let_def iblk_halves(1))
  show "?fits \<longrightarrow> ?rt"
  proof
    assume fits: ?fits
    then have u: "unat ?b = unat (iblk_value fs ino) + unat (iblk_units fs ino n)"
      by (intro unat_add_small) (simp add: iblk_width_def split: if_splits)
    have minus: "?b - iblk_units fs ino n = iblk_value fs ino" by simp
    have le: "iblk_units fs ino n \<le> ?b" using u by (simp add: word_le_nat_alt)
    show ?rt
    proof (cases "has_huge_file fs")
      case True
      define ino' where "ino' = ino\<lparr>l_i_blocks_hi := ucast (drop_bit 32 ?b), i_blocks := ucast (?b AND 0xFFFFFFFF)\<rparr>"
      have add: "ext2fs_iblk_add_blocks fs ino n = Inr ino'"
        using True by (simp add: ext2fs_iblk_add_blocks_def iblk_value_def Let_def ino'_def)
      have "take_bit 48 ?b = ?b" using fits u True by (intro take_bit_small) (simp add: iblk_width_def)
      then have v: "iblk_value fs ino' = ?b"
        using True iblk_halves(1) [of ?b] by (subst iblk_value_def) (simp add: ino'_def)
      have un: "iblk_units fs ino' n = iblk_units fs ino n" by (simp add: iblk_units_def ino'_def)
      have "ext2fs_iblk_sub_blocks fs ino' n =
          Inr (ino'\<lparr>l_i_blocks_hi := ucast (drop_bit 32 (iblk_value fs ino)),
            i_blocks := ucast (iblk_value fs ino AND 0xFFFFFFFF)\<rparr>)"
        using le minus True v un by (subst iblk_sub_fits) auto
      also have "\<dots> = Inr ino" using True by (simp add: iblk_value_def iblk_halves ino'_def)
      finally show ?thesis using add v u by auto
    next
      case False
      have b: "\<not> ?b > 0xFFFFFFFF" using fits u False by (simp add: iblk_width_def word_less_nat_alt)
      define ino' where "ino' = ino\<lparr>i_blocks := ucast (?b AND 0xFFFFFFFF)\<rparr>"
      have add: "ext2fs_iblk_add_blocks fs ino n = Inr ino'"
        using False b by (simp add: ext2fs_iblk_add_blocks_def iblk_value_def Let_def ino'_def)
      have "take_bit 32 ?b = ?b" using fits u False by (intro take_bit_small) (simp add: iblk_width_def)
      then have v: "iblk_value fs ino' = ?b"
        using False iblk_halves(2) [of ?b] by (subst iblk_value_def) (simp add: ino'_def)
      have un: "iblk_units fs ino' n = iblk_units fs ino n" by (simp add: iblk_units_def ino'_def)
      have "ext2fs_iblk_sub_blocks fs ino' n = Inr (ino'\<lparr>i_blocks := ucast (iblk_value fs ino AND 0xFFFFFFFF)\<rparr>)"
        using le minus False v un by (subst iblk_sub_fits) auto
      also have "\<dots> = Inr ino" using False by (simp add: iblk_value_def iblk_halves ino'_def)
      finally show ?thesis using add v u by auto
    qed
  qed
qed

definition inode_sample :: inode where
  "inode_sample = \<lparr>i_mode = 0x81A4, i_uid = 0, i_size = 4000, i_atime = 0, i_ctime = 0, i_mtime = 0,
     i_dtime = 0, i_gid = 0, i_links_count = 1, i_blocks = 8, i_flags = 0, l_i_version = 0,
     i_block = [21, 22, 23, 24, 0, 0, 0, 0, 0, 0, 0, 0, 0, 0, 0], i_generation = 0, i_file_acl = 0,
     i_size_high = 0, i_faddr = 0, l_i_blocks_hi = 0, l_i_file_acl_high = 0, l_i_uid_high = 0,
     l_i_gid_high = 0, l_i_checksum_lo = 0, l_i_reserved = 0\<rparr>"

lemma iblk_add_sub_blocks_witness:
  "\<exists>ino'. ext2fs_iblk_add_blocks fs_sample inode_sample 3 = Inr ino' \<and>
     ext2fs_iblk_sub_blocks fs_sample ino' 3 = Inr inode_sample"
proof -
  have "unat (iblk_value fs_sample inode_sample) + unat (iblk_units fs_sample inode_sample 3) < 2 ^ iblk_width fs_sample"
  proof -
    have "iblk_value fs_sample inode_sample = 8" "iblk_units fs_sample inode_sample 3 = 6"
      "iblk_width fs_sample = 32" by code_simp+
    then show ?thesis by simp
  qed
  then show ?thesis using iblk_add_sub_blocks [of fs_sample inode_sample 3] by blast
qed

end
