(* ===== verification/Bitmaps.thy ===== *)
theory Bitmaps
  imports Groups_Layout
begin

text \<open>
  The bitmaps of a file system: their creation from the geometry of the superblock and the
  wrappers with the names the rest of the library uses (\<open>source/bitmaps.c\<close>,
  \<open>source/bitops_functions.c\<close>), and the conversion of a map of blocks to a map of
  clusters (\<open>ext2fs_convert_subcluster_bitmap\<close> of \<open>source/gen_bitmap64.c\<close>). The
  lemmas show that a fresh map is empty and covers the inodes or blocks of the file system in
  either layout, and what a converted map says of each block.
\<close>

section \<open>Creation\<close>

text \<open>
  The handle the maps point back to is number 0. The callback \<open>fs->write_bitmaps\<close>, set by
  each of these functions, is not part of the modelled handle.
\<close>

definition EXT2FS_B2C :: "filsys \<Rightarrow> u64 \<Rightarrow> u64" where
  "EXT2FS_B2C fs blk = drop_bit (fs_cluster_ratio_bits fs) blk"

definition ext2fs_allocate_inode_bitmap :: "u8 heap \<Rightarrow> filsys \<Rightarrow> string option \<Rightarrow> gbitmap result" where
  "ext2fs_allocate_inode_bitmap h fs descr =
     (if fs_magic fs \<noteq> EXT2_ET_MAGIC_EXT2FS_FILSYS then Inl EXT2_ET_MAGIC_EXT2FS_FILSYS
      else
        let start :: u64 = 1;
            end1 :: u64 = ucast (s_inodes_count (fs_super fs));
            real_end :: u64 = ucast (s_inodes_per_group (fs_super fs) * fs_group_desc_count fs)
        in
        if fs_flags fs AND EXT2_FLAG_64BITS \<noteq> 0 then
          ext2fs_alloc_generic_bmap h (Some 0) (fs_cluster_ratio_bits fs) EXT2_ET_MAGIC_INODE_BITMAP64 1
            start end1 real_end descr
        else if end1 > 0xFFFFFFFF \<or> real_end > 0xFFFFFFFF then Inl EXT2_ET_CANT_USE_LEGACY_BITMAPS
        else
          (case ext2fs_make_generic_bitmap h EXT2_ET_MAGIC_INODE_BITMAP (Some 0)
                  (ucast start) (ucast end1) (ucast real_end) descr None of
             Inl e \<Rightarrow> Inl e | Inr b \<Rightarrow> Inr (B32 b)))"

definition ext2fs_allocate_block_bitmap :: "u8 heap \<Rightarrow> filsys \<Rightarrow> string option \<Rightarrow> gbitmap result" where
  "ext2fs_allocate_block_bitmap h fs descr =
     (if fs_magic fs \<noteq> EXT2_ET_MAGIC_EXT2FS_FILSYS then Inl EXT2_ET_MAGIC_EXT2FS_FILSYS
      else
        let start = EXT2FS_B2C fs (ucast (s_first_data_block (fs_super fs)));
            end1 = EXT2FS_B2C fs (ext2fs_blocks_count (fs_super fs) - 1);
            real_end = ucast (s_clusters_per_group (fs_super fs)) * ucast (fs_group_desc_count fs) - 1 + start
        in
        if fs_flags fs AND EXT2_FLAG_64BITS \<noteq> 0 then
          ext2fs_alloc_generic_bmap h (Some 0) (fs_cluster_ratio_bits fs) EXT2_ET_MAGIC_BLOCK_BITMAP64 1
            start end1 real_end descr
        else if end1 > 0xFFFFFFFF \<or> real_end > 0xFFFFFFFF then Inl EXT2_ET_CANT_USE_LEGACY_BITMAPS
        else
          (case ext2fs_make_generic_bitmap h EXT2_ET_MAGIC_BLOCK_BITMAP (Some 0)
                  (ucast start) (ucast end1) (ucast real_end) descr None of
             Inl e \<Rightarrow> Inl e | Inr b \<Rightarrow> Inr (B32 b)))"

definition ext2fs_allocate_subcluster_bitmap :: "u8 heap \<Rightarrow> filsys \<Rightarrow> string option \<Rightarrow> gbitmap result" where
  "ext2fs_allocate_subcluster_bitmap h fs descr =
     (if fs_magic fs \<noteq> EXT2_ET_MAGIC_EXT2FS_FILSYS then Inl EXT2_ET_MAGIC_EXT2FS_FILSYS
      else if fs_cluster_ratio_bits fs = 0 then ext2fs_allocate_block_bitmap h fs descr
      else if fs_flags fs AND EXT2_FLAG_64BITS = 0 then Inl EXT2_ET_CANT_USE_LEGACY_BITMAPS
      else
        let start = ucast (s_first_data_block (fs_super fs));
            end1 = ext2fs_blocks_count (fs_super fs) - 1;
            real_end = ucast (s_blocks_per_group (fs_super fs)) * ucast (fs_group_desc_count fs) - 1 + start
        in
        (case ext2fs_alloc_generic_bmap h (Some 0) (fs_cluster_ratio_bits fs) EXT2_ET_MAGIC_BLOCK_BITMAP64 1
                start end1 real_end descr of
           Inl e \<Rightarrow> Inl e
         | Inr (B64 b) \<Rightarrow> Inr (B64 (b\<lparr>b64_cluster_bits := 0\<rparr>))
         | Inr (B32 b) \<Rightarrow> Inr (B32 b)))"

definition ext2fs_get_bitmap_granularity :: "gbitmap \<Rightarrow> nat" where
  "ext2fs_get_bitmap_granularity bitmap =
     (case bitmap of
        B32 b \<Rightarrow> 0
      | B64 b \<Rightarrow> if \<not> EXT2FS_IS_64_BITMAP (b64_magic b) then 0 else b64_cluster_bits b)"

section \<open>Wrappers of bitmaps.c\<close>

definition ext2fs_free_inode_bitmap :: "gbitmap option \<Rightarrow> gbitmap option" where
  "ext2fs_free_inode_bitmap bitmap = ext2fs_free_generic_bmap bitmap"

definition ext2fs_free_block_bitmap :: "gbitmap option \<Rightarrow> gbitmap option" where
  "ext2fs_free_block_bitmap bitmap = ext2fs_free_generic_bmap bitmap"

definition ext2fs_copy_bitmap :: "u8 heap \<Rightarrow> gbitmap option \<Rightarrow> gbitmap result" where
  "ext2fs_copy_bitmap h src = ext2fs_copy_generic_bmap h src"

definition ext2fs_set_bitmap_padding :: "gbitmap \<Rightarrow> gbitmap" where
  "ext2fs_set_bitmap_padding bmap = ext2fs_set_generic_bmap_padding bmap"

definition ext2fs_fudge_inode_bitmap_end :: "gbitmap option \<Rightarrow> u32 \<Rightarrow> (u32 \<times> gbitmap) result" where
  "ext2fs_fudge_inode_bitmap_end bitmap end1 =
     (case ext2fs_fudge_generic_bmap_end bitmap EXT2_ET_FUDGE_INODE_BITMAP_END (ucast end1) of
        Inl e \<Rightarrow> Inl e | Inr (tmp_oend, b) \<Rightarrow> Inr (ucast tmp_oend, b))"

text \<open>
  The functions for 32-bit maps compare the magic number, which is the first member of both
  structs, and refuse a 64-bit map.
\<close>

definition ext2fs_fudge_block_bitmap_end :: "gbitmap \<Rightarrow> u32 \<Rightarrow> (u32 \<times> gbitmap) result" where
  "ext2fs_fudge_block_bitmap_end bitmap end1 =
     (case bitmap of
        B32 b \<Rightarrow>
          (case ext2fs_fudge_generic_bitmap_end b EXT2_ET_MAGIC_BLOCK_BITMAP EXT2_ET_FUDGE_BLOCK_BITMAP_END end1 of
             Inl e \<Rightarrow> Inl e | Inr (oend, b') \<Rightarrow> Inr (oend, B32 b'))
      | B64 b \<Rightarrow> Inl EXT2_ET_MAGIC_BLOCK_BITMAP)"

definition ext2fs_fudge_block_bitmap_end2 :: "gbitmap option \<Rightarrow> u64 \<Rightarrow> (u64 \<times> gbitmap) result" where
  "ext2fs_fudge_block_bitmap_end2 bitmap end1 =
     ext2fs_fudge_generic_bmap_end bitmap EXT2_ET_FUDGE_BLOCK_BITMAP_END end1"

definition ext2fs_clear_inode_bitmap :: "gbitmap \<Rightarrow> gbitmap option" where
  "ext2fs_clear_inode_bitmap bitmap = ext2fs_clear_generic_bmap bitmap"

definition ext2fs_clear_block_bitmap :: "gbitmap \<Rightarrow> gbitmap option" where
  "ext2fs_clear_block_bitmap bitmap = ext2fs_clear_generic_bmap bitmap"

definition resize_legacy :: "u8 heap \<Rightarrow> errcode \<Rightarrow> u32 \<Rightarrow> u32 \<Rightarrow> gbitmap option \<Rightarrow> gbitmap result" where
  "resize_legacy h magic new_end new_real_end bmap =
     (case bmap of
        Some (B64 b) \<Rightarrow> Inl magic
      | Some (B32 b) \<Rightarrow>
          (case ext2fs_resize_generic_bitmap h magic new_end new_real_end (Some b) of
             Inl e \<Rightarrow> Inl e | Inr b' \<Rightarrow> Inr (B32 b'))
      | None \<Rightarrow>
          (case ext2fs_resize_generic_bitmap h magic new_end new_real_end None of
             Inl e \<Rightarrow> Inl e | Inr b' \<Rightarrow> Inr (B32 b')))"

definition ext2fs_resize_inode_bitmap :: "u8 heap \<Rightarrow> u32 \<Rightarrow> u32 \<Rightarrow> gbitmap option \<Rightarrow> gbitmap result" where
  "ext2fs_resize_inode_bitmap h new_end new_real_end bmap =
     resize_legacy h EXT2_ET_MAGIC_INODE_BITMAP new_end new_real_end bmap"

definition ext2fs_resize_inode_bitmap2 :: "u8 heap \<Rightarrow> u64 \<Rightarrow> u64 \<Rightarrow> gbitmap option \<Rightarrow> gbitmap result" where
  "ext2fs_resize_inode_bitmap2 h new_end new_real_end bmap =
     ext2fs_resize_generic_bmap h bmap new_end new_real_end"

definition ext2fs_resize_block_bitmap :: "u8 heap \<Rightarrow> u32 \<Rightarrow> u32 \<Rightarrow> gbitmap option \<Rightarrow> gbitmap result" where
  "ext2fs_resize_block_bitmap h new_end new_real_end bmap =
     resize_legacy h EXT2_ET_MAGIC_BLOCK_BITMAP new_end new_real_end bmap"

definition ext2fs_resize_block_bitmap2 :: "u8 heap \<Rightarrow> u64 \<Rightarrow> u64 \<Rightarrow> gbitmap option \<Rightarrow> gbitmap result" where
  "ext2fs_resize_block_bitmap2 h new_end new_real_end bmap =
     ext2fs_resize_generic_bmap h bmap new_end new_real_end"

definition ext2fs_compare_block_bitmap :: "gbitmap option \<Rightarrow> gbitmap option \<Rightarrow> unit result option" where
  "ext2fs_compare_block_bitmap bm1 bm2 = ext2fs_compare_generic_bmap EXT2_ET_NEQ_BLOCK_BITMAP bm1 bm2"

definition ext2fs_compare_inode_bitmap :: "gbitmap option \<Rightarrow> gbitmap option \<Rightarrow> unit result option" where
  "ext2fs_compare_inode_bitmap bm1 bm2 = ext2fs_compare_generic_bmap EXT2_ET_NEQ_INODE_BITMAP bm1 bm2"

text \<open>The pointer as the 32-bit functions see it: a 64-bit struct has none of their magic numbers.\<close>

definition as32 :: "gbitmap option \<Rightarrow> gen_bitmap64 + gen_bitmap32 option" where
  "as32 bmap = (case bmap of None \<Rightarrow> Inr None | Some (B32 b) \<Rightarrow> Inr (Some b) | Some (B64 b) \<Rightarrow> Inl b)"

definition ext2fs_set_inode_bitmap_range :: "gbitmap option \<Rightarrow> u32 \<Rightarrow> u32 \<Rightarrow> u8 list \<Rightarrow> gbitmap result" where
  "ext2fs_set_inode_bitmap_range bmap start num inp =
     (case as32 bmap of
        Inl _ \<Rightarrow> Inl EXT2_ET_MAGIC_INODE_BITMAP
      | Inr b \<Rightarrow>
          (case ext2fs_set_generic_bitmap_range b EXT2_ET_MAGIC_INODE_BITMAP start num inp of
             Inl e \<Rightarrow> Inl e | Inr b' \<Rightarrow> Inr (B32 b')))"

definition ext2fs_set_inode_bitmap_range2 :: "gbitmap option \<Rightarrow> u64 \<Rightarrow> u32 \<Rightarrow> u8 list \<Rightarrow> gbitmap result" where
  "ext2fs_set_inode_bitmap_range2 bmap start num inp = ext2fs_set_generic_bmap_range bmap start num inp"

definition ext2fs_get_inode_bitmap_range :: "gbitmap option \<Rightarrow> u32 \<Rightarrow> u32 \<Rightarrow> u8 list result" where
  "ext2fs_get_inode_bitmap_range bmap start num =
     (case as32 bmap of
        Inl _ \<Rightarrow> Inl EXT2_ET_MAGIC_INODE_BITMAP
      | Inr b \<Rightarrow> ext2fs_get_generic_bitmap_range b EXT2_ET_MAGIC_INODE_BITMAP start num)"

definition ext2fs_get_inode_bitmap_range2 :: "gbitmap option \<Rightarrow> u64 \<Rightarrow> u32 \<Rightarrow> u8 list result" where
  "ext2fs_get_inode_bitmap_range2 bmap start num = ext2fs_get_generic_bmap_range bmap start num"

definition ext2fs_set_block_bitmap_range :: "gbitmap option \<Rightarrow> u32 \<Rightarrow> u32 \<Rightarrow> u8 list \<Rightarrow> gbitmap result" where
  "ext2fs_set_block_bitmap_range bmap start num inp =
     (case as32 bmap of
        Inl _ \<Rightarrow> Inl EXT2_ET_MAGIC_BLOCK_BITMAP
      | Inr b \<Rightarrow>
          (case ext2fs_set_generic_bitmap_range b EXT2_ET_MAGIC_BLOCK_BITMAP start num inp of
             Inl e \<Rightarrow> Inl e | Inr b' \<Rightarrow> Inr (B32 b')))"

definition ext2fs_set_block_bitmap_range2 :: "gbitmap option \<Rightarrow> u64 \<Rightarrow> u32 \<Rightarrow> u8 list \<Rightarrow> gbitmap result" where
  "ext2fs_set_block_bitmap_range2 bmap start num inp = ext2fs_set_generic_bmap_range bmap start num inp"

definition ext2fs_get_block_bitmap_range :: "gbitmap option \<Rightarrow> u32 \<Rightarrow> u32 \<Rightarrow> u8 list result" where
  "ext2fs_get_block_bitmap_range bmap start num =
     (case as32 bmap of
        Inl _ \<Rightarrow> Inl EXT2_ET_MAGIC_BLOCK_BITMAP
      | Inr b \<Rightarrow> ext2fs_get_generic_bitmap_range b EXT2_ET_MAGIC_BLOCK_BITMAP start num)"

definition ext2fs_get_block_bitmap_range2 :: "gbitmap option \<Rightarrow> u64 \<Rightarrow> u32 \<Rightarrow> u8 list result" where
  "ext2fs_get_block_bitmap_range2 bmap start num = ext2fs_get_generic_bmap_range bmap start num"

section \<open>Wrappers of bitops\_functions.c\<close>

definition ext2fs_mark_block_bitmap :: "gbitmap \<Rightarrow> u32 \<Rightarrow> u8 \<times> gbitmap" where
  "ext2fs_mark_block_bitmap bitmap n = ext2fs_mark_generic_bitmap bitmap n"

definition ext2fs_mark_block_bitmap2 :: "gbitmap option \<Rightarrow> u64 \<Rightarrow> u8 \<times> gbitmap option" where
  "ext2fs_mark_block_bitmap2 bitmap n = ext2fs_mark_generic_bmap bitmap n"

definition ext2fs_mark_inode_bitmap :: "gbitmap \<Rightarrow> u32 \<Rightarrow> u8 \<times> gbitmap" where
  "ext2fs_mark_inode_bitmap bitmap n = ext2fs_mark_generic_bitmap bitmap n"

definition ext2fs_mark_inode_bitmap2 :: "gbitmap option \<Rightarrow> u32 \<Rightarrow> u8 \<times> gbitmap option" where
  "ext2fs_mark_inode_bitmap2 bitmap n = ext2fs_mark_generic_bmap bitmap (ucast n)"

definition ext2fs_unmark_block_bitmap :: "gbitmap \<Rightarrow> u32 \<Rightarrow> u8 \<times> gbitmap" where
  "ext2fs_unmark_block_bitmap bitmap n = ext2fs_unmark_generic_bitmap bitmap n"

definition ext2fs_unmark_block_bitmap2 :: "gbitmap option \<Rightarrow> u64 \<Rightarrow> u8 \<times> gbitmap option" where
  "ext2fs_unmark_block_bitmap2 bitmap n = ext2fs_unmark_generic_bmap bitmap n"

definition ext2fs_unmark_inode_bitmap :: "gbitmap \<Rightarrow> u32 \<Rightarrow> u8 \<times> gbitmap" where
  "ext2fs_unmark_inode_bitmap bitmap n = ext2fs_unmark_generic_bitmap bitmap n"

definition ext2fs_unmark_inode_bitmap2 :: "gbitmap option \<Rightarrow> u32 \<Rightarrow> u8 \<times> gbitmap option" where
  "ext2fs_unmark_inode_bitmap2 bitmap n = ext2fs_unmark_generic_bmap bitmap (ucast n)"

definition ext2fs_test_block_bitmap :: "gbitmap \<Rightarrow> u32 \<Rightarrow> u8" where
  "ext2fs_test_block_bitmap bitmap n = ext2fs_test_generic_bitmap bitmap n"

definition ext2fs_test_block_bitmap2 :: "gbitmap option \<Rightarrow> u64 \<Rightarrow> u8" where
  "ext2fs_test_block_bitmap2 bitmap n = ext2fs_test_generic_bmap bitmap n"

definition ext2fs_test_inode_bitmap :: "gbitmap \<Rightarrow> u32 \<Rightarrow> u8" where
  "ext2fs_test_inode_bitmap bitmap n = ext2fs_test_generic_bitmap bitmap n"

definition ext2fs_test_inode_bitmap2 :: "gbitmap option \<Rightarrow> u32 \<Rightarrow> u8" where
  "ext2fs_test_inode_bitmap2 bitmap n = ext2fs_test_generic_bmap bitmap (ucast n)"

definition ext2fs_fast_mark_block_bitmap :: "gbitmap \<Rightarrow> u32 \<Rightarrow> gbitmap" where
  "ext2fs_fast_mark_block_bitmap bitmap n = snd (ext2fs_mark_generic_bitmap bitmap n)"

definition ext2fs_fast_mark_block_bitmap2 :: "gbitmap option \<Rightarrow> u64 \<Rightarrow> gbitmap option" where
  "ext2fs_fast_mark_block_bitmap2 bitmap n = snd (ext2fs_mark_generic_bmap bitmap n)"

definition ext2fs_fast_mark_inode_bitmap :: "gbitmap \<Rightarrow> u32 \<Rightarrow> gbitmap" where
  "ext2fs_fast_mark_inode_bitmap bitmap n = snd (ext2fs_mark_generic_bitmap bitmap n)"

definition ext2fs_fast_mark_inode_bitmap2 :: "gbitmap option \<Rightarrow> u32 \<Rightarrow> gbitmap option" where
  "ext2fs_fast_mark_inode_bitmap2 bitmap n = snd (ext2fs_mark_generic_bmap bitmap (ucast n))"

definition ext2fs_fast_unmark_block_bitmap :: "gbitmap \<Rightarrow> u32 \<Rightarrow> gbitmap" where
  "ext2fs_fast_unmark_block_bitmap bitmap n = snd (ext2fs_unmark_generic_bitmap bitmap n)"

definition ext2fs_fast_unmark_block_bitmap2 :: "gbitmap option \<Rightarrow> u64 \<Rightarrow> gbitmap option" where
  "ext2fs_fast_unmark_block_bitmap2 bitmap n = snd (ext2fs_unmark_generic_bmap bitmap n)"

definition ext2fs_fast_unmark_inode_bitmap :: "gbitmap \<Rightarrow> u32 \<Rightarrow> gbitmap" where
  "ext2fs_fast_unmark_inode_bitmap bitmap n = snd (ext2fs_unmark_generic_bitmap bitmap n)"

definition ext2fs_fast_unmark_inode_bitmap2 :: "gbitmap option \<Rightarrow> u32 \<Rightarrow> gbitmap option" where
  "ext2fs_fast_unmark_inode_bitmap2 bitmap n = snd (ext2fs_unmark_generic_bmap bitmap (ucast n))"

definition ext2fs_fast_test_block_bitmap :: "gbitmap \<Rightarrow> u32 \<Rightarrow> u8" where
  "ext2fs_fast_test_block_bitmap bitmap n = ext2fs_test_generic_bitmap bitmap n"

definition ext2fs_fast_test_block_bitmap2 :: "gbitmap option \<Rightarrow> u64 \<Rightarrow> u8" where
  "ext2fs_fast_test_block_bitmap2 bitmap n = ext2fs_test_generic_bmap bitmap n"

definition ext2fs_fast_test_inode_bitmap :: "gbitmap \<Rightarrow> u32 \<Rightarrow> u8" where
  "ext2fs_fast_test_inode_bitmap bitmap n = ext2fs_test_generic_bitmap bitmap n"

definition ext2fs_fast_test_inode_bitmap2 :: "gbitmap option \<Rightarrow> u32 \<Rightarrow> u8" where
  "ext2fs_fast_test_inode_bitmap2 bitmap n = ext2fs_test_generic_bmap bitmap (ucast n)"

definition ext2fs_get_block_bitmap_start :: "gbitmap \<Rightarrow> u32" where
  "ext2fs_get_block_bitmap_start bitmap = ext2fs_get_generic_bitmap_start bitmap"

definition ext2fs_get_block_bitmap_start2 :: "gbitmap option \<Rightarrow> u64 result" where
  "ext2fs_get_block_bitmap_start2 bitmap = ext2fs_get_generic_bmap_start bitmap"

definition ext2fs_get_inode_bitmap_start :: "gbitmap \<Rightarrow> u32" where
  "ext2fs_get_inode_bitmap_start bitmap = ext2fs_get_generic_bitmap_start bitmap"

definition ext2fs_get_inode_bitmap_start2 :: "gbitmap option \<Rightarrow> u32 result" where
  "ext2fs_get_inode_bitmap_start2 bitmap = map_sum id ucast (ext2fs_get_generic_bmap_start bitmap)"

definition ext2fs_get_block_bitmap_end :: "gbitmap \<Rightarrow> u32" where
  "ext2fs_get_block_bitmap_end bitmap = ext2fs_get_generic_bitmap_end bitmap"

definition ext2fs_get_block_bitmap_end2 :: "gbitmap option \<Rightarrow> u64 result" where
  "ext2fs_get_block_bitmap_end2 bitmap = ext2fs_get_generic_bmap_end bitmap"

definition ext2fs_get_inode_bitmap_end :: "gbitmap \<Rightarrow> u32" where
  "ext2fs_get_inode_bitmap_end bitmap = ext2fs_get_generic_bitmap_end bitmap"

definition ext2fs_get_inode_bitmap_end2 :: "gbitmap option \<Rightarrow> u32 result" where
  "ext2fs_get_inode_bitmap_end2 bitmap = map_sum id ucast (ext2fs_get_generic_bmap_end bitmap)"

section \<open>From blocks to clusters\<close>

text \<open>
  The loop of \<open>ext2fs_convert_subcluster_bitmap\<close>, with \<open>n\<close> the number of blocks of
  the current cluster already looked at. The counter has 64 bits, so that the loop could
  wrap; then it does not end, which is \<open>None\<close>. \<open>n\<close> and \<open>ratio\<close> are C \<open>int\<close>s.
\<close>

partial_function (option) convert_loop ::
  "gbitmap \<Rightarrow> int \<Rightarrow> u64 \<Rightarrow> u64 \<Rightarrow> int \<Rightarrow> gbitmap \<Rightarrow> gbitmap option" where
  "convert_loop bmap ratio real_end i n cmap =
     (if i < real_end then
        (if ext2fs_test_block_bitmap2 (Some bmap) i \<noteq> 0
         then convert_loop bmap ratio real_end (i + word_of_int (ratio - n)) 0
                (the (snd (ext2fs_mark_block_bitmap2 (Some cmap) i)))
         else convert_loop bmap ratio real_end (i + 1) (if n + 1 \<ge> ratio then 0 else n + 1) cmap)
      else Some cmap)"

declare convert_loop.simps [code] convert_loop.simps [simp del]

text \<open>
  \<open>bmap->start\<close> and the other members are those of the 64-bit layout: on a 32-bit map the
  conversion is undefined, \<open>None\<close>.
\<close>

definition ext2fs_convert_subcluster_bitmap :: "u8 heap \<Rightarrow> filsys \<Rightarrow> gbitmap \<Rightarrow> gbitmap result option" where
  "ext2fs_convert_subcluster_bitmap h fs bmap =
     (if fs_cluster_ratio_bits fs = ext2fs_get_bitmap_granularity bmap then Some (Inr bmap)
      else
        case ext2fs_allocate_block_bitmap h fs (Some ''converted cluster bitmap'') of
          Inl e \<Rightarrow> Some (Inl e)
        | Inr cmap \<Rightarrow>
            (case (bmap, cmap) of
               (B64 b, B64 c) \<Rightarrow>
                 let ratio = sint (push_bit (fs_cluster_ratio_bits fs) 1 :: u32) in
                 map_option
                   (\<lambda>c'. Inr (case c' of B64 c' \<Rightarrow> B64 (c'\<lparr>b64_end := b64_end c\<rparr>) | B32 c' \<Rightarrow> B32 c'))
                   (convert_loop (B64 (b\<lparr>b64_end := b64_real_end b\<rparr>)) ratio (b64_real_end b)
                      (b64_start b) 0 (B64 (c\<lparr>b64_end := b64_real_end c\<rparr>)))
             | _ \<Rightarrow> None))"

section \<open>Fresh maps\<close>

lemma alloc_generic_bmap_Inr:
  assumes "ext2fs_alloc_generic_bmap h fs cb magic 1 start end1 real_end descr = Inr bm"
    and "EXT2FS_IS_64_BITMAP magic" "start \<le> end1" "end1 \<le> real_end"
    and "unat (real_end - start) div 8 + 1 < 2 ^ 32"
  shows "\<exists>b. bm = B64 b \<and> b64_inv b \<and> b64_elems b = {} \<and> b64_start b = start \<and> b64_end b = end1 \<and>
    b64_real_end b = real_end \<and>
    b64_cluster_bits b = (if magic = EXT2_ET_MAGIC_BLOCK_BITMAP64 then cb else 0)"
proof -
  define b0 where "b0 = \<lparr>b64_magic = magic, b64_fs = fs, b64_start = start, b64_end = end1,
      b64_real_end = real_end,
      b64_cluster_bits = (if magic = EXT2_ET_MAGIC_BLOCK_BITMAP64 then cb else 0),
      b64_description = descr, b64_bitarray = [],
      b64_base_error_code =
        (if magic = EXT2_ET_MAGIC_INODE_BITMAP64 then EXT2_ET_BAD_INODE_MARK
         else if magic = EXT2_ET_MAGIC_BLOCK_BITMAP64 then EXT2_ET_BAD_BLOCK_MARK
         else EXT2_ET_BAD_GENERIC_MARK)\<rparr>"
  obtain b where "bm = B64 b" "ba_new_bmap h b0 = Inr b"
    using assms(1) by (auto simp: ext2fs_alloc_generic_bmap_def b0_def split: sum.splits option.splits)
  then show ?thesis using ba_new [of h b0 b] assms(2-) by (auto simp: b0_def)
qed

text \<open>The end may be moved up to \<open>real_end\<close>, the map stays empty.\<close>

lemma alloc_generic_bmap_end:
  assumes "ext2fs_alloc_generic_bmap h fs cb magic 1 start end1 real_end descr = Inr (B64 b)"
    and "EXT2FS_IS_64_BITMAP magic" "start \<le> real_end" "unat (real_end - start) div 8 + 1 < 2 ^ 32"
  shows "b64_inv (b\<lparr>b64_end := real_end\<rparr>)" "b64_elems (b\<lparr>b64_end := real_end\<rparr>) = {}"
proof -
  have "ext2fs_alloc_generic_bmap h fs cb magic 1 start real_end real_end descr = Inr (B64 (b\<lparr>b64_end := real_end\<rparr>))"
    using assms(1)
    by (auto simp: ext2fs_alloc_generic_bmap_def ba_new_bmap_def ba_alloc_private_data_def
        split: sum.splits option.splits if_splits)
  from alloc_generic_bmap_Inr [OF this assms(2,3) order_refl assms(4)]
  show "b64_inv (b\<lparr>b64_end := real_end\<rparr>)" "b64_elems (b\<lparr>b64_end := real_end\<rparr>) = {}" by auto
qed

lemma make_legacy_Inr:
  assumes "ext2fs_make_generic_bitmap h magic fs (ucast start) (ucast end1) (ucast real_end) descr None = Inr b"
    and "EXT2FS_IS_32_BITMAP magic" "start \<le> end1" "end1 \<le> real_end" "unat (real_end :: u64) < 2 ^ 32"
  shows "gb_inv (B32 b) \<and> gb_elems (B32 b) = {} \<and> (\<forall>n. gb_valid (B32 b) n \<longleftrightarrow> start \<le> n \<and> n \<le> end1)"
proof -
  have u: "unat (ucast start :: u32) = unat start" "unat (ucast end1 :: u32) = unat end1"
      "unat (ucast real_end :: u32) = unat real_end"
    using assms(3-5) by (simp_all add: word_le_nat_alt unat_ucast_u32)
  have le: "(ucast start :: u32) \<le> ucast end1" "(ucast end1 :: u32) \<le> ucast real_end"
    using assms(3,4) u by (simp_all add: word_le_nat_alt)
  note m = make_generic_bitmap_Inr [OF assms(1)]
  have "gb_valid (B32 b) n \<longleftrightarrow> start \<le> n \<and> n \<le> end1" for n
  proof (cases "unat n < 2 ^ 32")
    case True
    then have "unat (ucast n :: u32) = unat n" by (rule unat_ucast_u32)
    then show ?thesis
      using True u by (simp add: gb_valid_def b32_valid_def in_window_def m word_le_nat_alt)
  next
    case False
    then show ?thesis using assms(4,5) by (simp add: gb_valid_def word_le_nat_alt)
  qed
  then show ?thesis
    using make_generic_bitmap_inv [OF assms(1,2) le] make_generic_bitmap_empty [OF assms(1,2) le]
    by (simp add: gb_inv_def gb_elems_def)
qed

lemma b64_covers:
  assumes "\<exists>b. bm = B64 b \<and> b64_inv b \<and> b64_elems b = {} \<and> b64_start b = start \<and> b64_end b = end1 \<and>
      b64_real_end b = real_end \<and> b64_cluster_bits b = 0"
  shows "gb_inv bm \<and> gb_elems bm = {} \<and> (\<forall>n. gb_valid bm n \<longleftrightarrow> start \<le> n \<and> n \<le> end1)"
  using assms by (auto simp: gb_inv_def gb_elems_def gb_valid_def in_window_def)

lemma fresh_inode_bitmap:
  assumes "0 < s_inodes_count (fs_super fs)"
    "unat (s_inodes_count (fs_super fs)) \<le>
       unat (s_inodes_per_group (fs_super fs)) * unat (fs_group_desc_count fs)"
    "unat (s_inodes_per_group (fs_super fs)) * unat (fs_group_desc_count fs) < 2 ^ 32"
    "ext2fs_allocate_inode_bitmap h fs d1 = Inr ibm"
  shows "gb_inv ibm \<and> gb_elems ibm = {} \<and>
      (\<forall>n. gb_valid ibm n \<longleftrightarrow> 1 \<le> n \<and> n \<le> ucast (s_inodes_count (fs_super fs)))"
proof -
  let ?s = "fs_super fs"
  have magic: "fs_magic fs = EXT2_ET_MAGIC_EXT2FS_FILSYS"
    using assms(4) by (auto simp: ext2fs_allocate_inode_bitmap_def split: if_splits)
  note b64 = b64_covers
  define r where "r = s_inodes_per_group ?s * fs_group_desc_count fs"
  have r: "unat r = unat (s_inodes_per_group ?s) * unat (fs_group_desc_count fs)"
    unfolding r_def using assms(3) unat_mult_lem [of "s_inodes_per_group ?s" "fs_group_desc_count fs"] by simp
  have le: "(1 :: u64) \<le> ucast (s_inodes_count ?s)" "(ucast (s_inodes_count ?s) :: u64) \<le> ucast r"
      "unat (ucast r :: u64) < 2 ^ 32"
    using assms(1-3) r by (simp_all add: word_le_nat_alt word_less_nat_alt Suc_le_eq)
  have sz: "unat ((ucast r :: u64) - 1) div 8 + 1 < 2 ^ 32"
    using le(3) le order_trans [OF le(1,2)] by (subst unat_diff) auto
  show ?thesis
  proof (cases "fs_flags fs AND EXT2_FLAG_64BITS = 0")
    case False
    then have "ext2fs_alloc_generic_bmap h (Some 0) (fs_cluster_ratio_bits fs) EXT2_ET_MAGIC_INODE_BITMAP64 1
        1 (ucast (s_inodes_count ?s)) (ucast r) d1 = Inr ibm"
      using assms(4) magic by (simp add: ext2fs_allocate_inode_bitmap_def Let_def r_def)
    from alloc_generic_bmap_Inr [OF this _ le(1,2) sz] show ?thesis
      by (intro b64) (auto simp: EXT2FS_IS_64_BITMAP_def)
  next
    case True
    then obtain b where "ext2fs_make_generic_bitmap h EXT2_ET_MAGIC_INODE_BITMAP (Some 0)
        (ucast (1 :: u64)) (ucast (ucast (s_inodes_count ?s) :: u64)) (ucast (ucast r :: u64)) d1 None = Inr b"
        "ibm = B32 b"
      using assms(4) magic
      by (auto simp: ext2fs_allocate_inode_bitmap_def Let_def r_def split: if_splits sum.splits)
    with make_legacy_Inr [OF this(1) _ le] show ?thesis by (simp add: EXT2FS_IS_32_BITMAP_def)
  qed
qed

text \<open>
  C17. A fresh inode bitmap, in whichever layout the flags of the handle choose, is empty and
  accepts exactly the inode numbers from 1 to \<open>s_inodes_count\<close>, which the groups must have room
  for; a fresh block bitmap of a file system without clusters is empty and accepts exactly the
  blocks from the first data block to the last one. This holds for 64-bit block numbers as well,
  up to \<open>2 ^ 35 - 8\<close> blocks: the bytes of a larger map are more than the 32-bit memory of the target has.
\<close>

theorem fresh_bitmaps_cover:
  assumes "geometry_ok fs" "fs_cluster_ratio_bits fs = 0"
    "s_clusters_per_group (fs_super fs) = s_blocks_per_group (fs_super fs)"
    "unat (s_blocks_per_group (fs_super fs)) * unat (fs_group_desc_count fs) < 2 ^ 35 - 8"
    "0 < s_inodes_count (fs_super fs)"
    "unat (s_inodes_count (fs_super fs)) \<le>
       unat (s_inodes_per_group (fs_super fs)) * unat (fs_group_desc_count fs)"
    "unat (s_inodes_per_group (fs_super fs)) * unat (fs_group_desc_count fs) < 2 ^ 32"
    "ext2fs_allocate_inode_bitmap h fs d1 = Inr ibm" "ext2fs_allocate_block_bitmap h fs d2 = Inr bbm"
  shows "gb_inv ibm \<and> gb_elems ibm = {} \<and>
      (\<forall>n. gb_valid ibm n \<longleftrightarrow> 1 \<le> n \<and> n \<le> ucast (s_inodes_count (fs_super fs))) \<and>
    gb_inv bbm \<and> gb_elems bbm = {} \<and>
      (\<forall>n. gb_valid bbm n \<longleftrightarrow> ucast (s_first_data_block (fs_super fs)) \<le> n \<and> n < ext2fs_blocks_count (fs_super fs))"
proof (intro conjI)
  let ?s = "fs_super fs"
  let ?cov = "\<lambda>bm start end1. gb_inv bm \<and> gb_elems bm = {} \<and> (\<forall>n. gb_valid bm n \<longleftrightarrow> start \<le> n \<and> n \<le> end1)"
  have magic: "fs_magic fs = EXT2_ET_MAGIC_EXT2FS_FILSYS"
    using assms(8) by (auto simp: ext2fs_allocate_inode_bitmap_def split: if_splits)
  note b64 = b64_covers
  have "?cov ibm 1 (ucast (s_inodes_count ?s))"
    using fresh_inode_bitmap [OF assms(5-8)] by blast
  then show "gb_inv ibm" "gb_elems ibm = {}"
    "\<forall>n. gb_valid ibm n \<longleftrightarrow> 1 \<le> n \<and> n \<le> ucast (s_inodes_count ?s)" by blast+
  let ?f = "ucast (s_first_data_block ?s) :: u64" and ?e = "ext2fs_blocks_count ?s - 1"
  have g: "unat ?f < unat (ext2fs_blocks_count ?s)"
      "unat (ext2fs_blocks_count ?s) \<le> unat ?f + unat (s_blocks_per_group ?s) * unat (fs_group_desc_count fs)"
      "0 < unat (s_blocks_per_group ?s) * unat (fs_group_desc_count fs)"
    using assms(1) by (auto simp: geometry_ok_def Let_def mult.commute)
  have e: "unat ?e = unat (ext2fs_blocks_count ?s) - 1" using g(1) by (intro unat_minus_one) auto
  have "?cov bbm ?f ?e"
  proof -
    define r :: u64 where "r = ucast (s_clusters_per_group ?s) * ucast (fs_group_desc_count fs) - 1 + ?f"
    have "unat (ucast (s_clusters_per_group ?s) * ucast (fs_group_desc_count fs) - 1 :: u64) =
        unat (s_blocks_per_group ?s) * unat (fs_group_desc_count fs) - 1"
      using g(3) assms(3) by (subst unat_minus_one) (auto simp: unat_ucast_mult simp flip: unat_gt_0)
    then have r: "unat r = unat (s_blocks_per_group ?s) * unat (fs_group_desc_count fs) - 1 + unat ?f"
      unfolding r_def using assms(4) unat_u32_bound [of "s_first_data_block ?s"] by (subst unat_add_small) auto
    have le: "?f \<le> ?e" "?e \<le> r"
      using g e r by (simp_all add: word_le_nat_alt)
    have sz: "unat (r - ?f) div 8 + 1 < 2 ^ 32"
      using r g(3) assms(4) order_trans [OF le(1,2)] by (subst unat_diff) auto
    show ?thesis
    proof (cases "fs_flags fs AND EXT2_FLAG_64BITS = 0")
      case False
      then have "ext2fs_alloc_generic_bmap h (Some 0) (fs_cluster_ratio_bits fs) EXT2_ET_MAGIC_BLOCK_BITMAP64 1
          ?f ?e r d2 = Inr bbm"
        using assms(2,9) magic by (simp add: ext2fs_allocate_block_bitmap_def Let_def r_def EXT2FS_B2C_def)
      from alloc_generic_bmap_Inr [OF this _ le(1,2) sz] show ?thesis
        using assms(2) by (intro b64) (auto simp: EXT2FS_IS_64_BITMAP_def)
    next
      case True
      then obtain b where b: "ext2fs_make_generic_bitmap h EXT2_ET_MAGIC_BLOCK_BITMAP (Some 0)
          (ucast ?f) (ucast ?e) (ucast r) d2 None = Inr b" "bbm = B32 b" "\<not> r > 0xFFFFFFFF"
        using assms(2,9) magic
        by (auto simp: ext2fs_allocate_block_bitmap_def Let_def r_def EXT2FS_B2C_def split: if_splits sum.splits)
      have "unat r < 2 ^ 32" using b(3) by (simp add: not_less word_le_nat_alt)
      with b make_legacy_Inr [OF b(1) _ le] show ?thesis by (simp add: EXT2FS_IS_32_BITMAP_def)
    qed
  qed
  then show "gb_inv bbm" "gb_elems bbm = {}" by blast+
  show "\<forall>n. gb_valid bbm n \<longleftrightarrow> ?f \<le> n \<and> n < ext2fs_blocks_count ?s"
    using \<open>?cov bbm ?f ?e\<close> e g(1) by (auto simp: word_le_nat_alt word_less_nat_alt)
qed

lemma fresh_bitmaps_cover_witness:
  "\<exists>ibm. ext2fs_allocate_inode_bitmap (roomy 7) fs_sample None = Inr ibm \<and>
    gb_valid ibm 64 \<and> \<not> gb_valid ibm 65 \<and> ext2fs_test_inode_bitmap2 (Some ibm) 5 = 0"
proof -
  have "\<not> isl (ext2fs_allocate_inode_bitmap (roomy 7) fs_sample None)"
    "\<not> isl (ext2fs_allocate_block_bitmap (roomy 7) fs_sample None)" by code_simp+
  then obtain ibm bbm where a: "ext2fs_allocate_inode_bitmap (roomy 7) fs_sample None = Inr ibm"
      "ext2fs_allocate_block_bitmap (roomy 7) fs_sample None = Inr bbm"
    unfolding isl_def by (meson sum.exhaust)
  have "geometry_ok fs_sample" by code_simp
  from fresh_bitmaps_cover [OF this _ _ _ _ _ _ a]
  have f: "gb_inv ibm" "gb_elems ibm = {}" "\<forall>n. gb_valid ibm n \<longleftrightarrow> 1 \<le> n \<and> n \<le> 64"
    by (simp_all add: fs_sample_def sb_sample_def)
  have "ext2fs_test_generic_bmap (Some ibm) 5 = 0" using gb_marks [OF f(1), of 5] f(2) by simp
  then show ?thesis using a f(3) by (auto simp: ext2fs_test_inode_bitmap2_def)
qed

section \<open>What the conversion computes\<close>

text \<open>The blocks below a bound that are marked, and the clusters they lie in.\<close>

definition marked_below :: "gen_bitmap64 \<Rightarrow> u64 \<Rightarrow> u64 set" where
  "marked_below b i = {m \<in> b64_elems b. m < i}"

lemma test64_elem:
  assumes "b64_inv b"
  shows "ext2fs_test_generic_bmap (Some (B64 b)) m \<noteq> 0 \<longleftrightarrow> drop_bit (b64_cluster_bits b) m \<in> b64_elems b"
proof -
  have "EXT2FS_IS_64_BITMAP (b64_magic b)" using assms by (simp add: b64_inv_def)
  then show ?thesis
    using ba_bits(1) [OF assms]
    by (auto simp: ext2fs_test_generic_bmap_def Let_def in_window_def not_less b64_elems_def window_set_def)
qed

lemma unat_drop_bit64: "unat (drop_bit r (m :: u64)) = unat m div 2 ^ r"
proof -
  have "take_bit 64 (unat m) = unat m" using unat_u64_bound [of m] by (simp add: take_bit_nat_eq_self)
  then show ?thesis unfolding unsigned_drop_bit_eq by (simp add: drop_bit_eq_div)
qed

text \<open>Blocks from the middle of a cluster up to its end lie in that cluster.\<close>

lemma same_cluster:
  assumes "n < 2 ^ r" "2 ^ r dvd unat i - n" "n \<le> unat i" "unat i \<le> unat m"
    "unat m < unat i + (2 ^ r - n)"
  shows "drop_bit r m = drop_bit r (i :: u64)"
proof -
  obtain q where q: "unat i - n = 2 ^ r * q" using assms(2) by blast
  have "unat i div 2 ^ r = q" "unat m div 2 ^ r = q"
    using assms q by (auto intro!: div_nat_eqI simp: algebra_simps)
  then show ?thesis by (simp add: word_unat_eq_iff unat_drop_bit64)
qed

lemma convert_loop_clusters:
  assumes "b64_inv b" "b64_cluster_bits b = 0" "r < 31" "unat E + 2 ^ 32 < 2 ^ 64"
    and "\<forall>m \<in> marked_below b E. in_window s0 e0 (drop_bit r m)"
    and "b64_inv c" "b64_cluster_bits c = r" "b64_start c = s0" "b64_end c = e0"
    and "n < 2 ^ r" "n \<le> unat i" "2 ^ r dvd unat i - n" "unat i < unat E + 2 ^ r"
    and "drop_bit r ` marked_below b i \<subseteq> b64_elems c" "b64_elems c \<subseteq> drop_bit r ` marked_below b E"
  shows "\<exists>c'. convert_loop (B64 b) (2 ^ r) E i (int n) (B64 c) = Some (B64 c') \<and> b64_inv c' \<and>
    b64_cluster_bits c' = r \<and> b64_start c' = s0 \<and> b64_end c' = e0 \<and> b64_real_end c' = b64_real_end c \<and>
    b64_elems c' = drop_bit r ` marked_below b E"
  using assms(6-)
proof (induction "unat E - unat i" arbitrary: i n c rule: less_induct)
  case less
  have r32: "(2 :: nat) ^ r < 2 ^ 32" using assms(3) by (intro power_strict_increasing) auto
  show ?case
  proof (cases "i < E")
    case False
    have "marked_below b E \<subseteq> marked_below b i" using False by (auto simp: marked_below_def)
    then have "b64_elems c = drop_bit r ` marked_below b E" using less.prems(9,10) by blast
    then show ?thesis using False less.prems by (subst convert_loop.simps) auto
  next
    case True
    then have lt: "unat i < unat E" by (simp add: word_less_nat_alt)
    show ?thesis
    proof (cases "i \<in> b64_elems b")
      case m: True
      define c' where "c' = snd (ba_mark_bmap c (drop_bit r i))"
      define j where "j = i + of_nat (2 ^ r - n)"
      have mE: "i \<in> marked_below b E" using m True by (simp add: marked_below_def)
      then have win: "in_window (b64_start c) (b64_end c) (drop_bit r i)"
        using assms(5) less.prems(3,4) by simp
      have mark: "the (snd (ext2fs_mark_block_bitmap2 (Some (B64 c)) i)) = B64 c'"
        using win less.prems(1,2)
        by (auto simp: ext2fs_mark_block_bitmap2_def ext2fs_mark_generic_bmap_def b64_inv_def in_window_def
            c'_def Let_def case_prod_beta not_less)
      note p = ba_put(1,2) [OF less.prems(1) win, folded c'_def]
      have same: "b64_cluster_bits c' = b64_cluster_bits c" "b64_start c' = b64_start c"
          "b64_end c' = b64_end c" "b64_real_end c' = b64_real_end c"
        by (simp_all add: c'_def ba_mark_bmap_def case_prod_beta)
      have j: "unat j = unat i + (2 ^ r - n)"
        unfolding j_def using lt assms(4) r32 by (intro unat_plus_of_nat) simp
      have "int (2 ^ r - n) = 2 ^ r - int n" using less.prems(5) by (simp add: of_nat_diff)
      then have "i + word_of_int (2 ^ r - int n) = j" unfolding j_def by (metis of_int_of_nat_eq)
      then have step: "i + (2 ^ r - of_nat n) = j" by simp
      have cover: "drop_bit r ` marked_below b j \<subseteq> insert (drop_bit r i) (b64_elems c)"
      proof
        fix x assume "x \<in> drop_bit r ` marked_below b j"
        then obtain m where x: "x = drop_bit r m" "m \<in> b64_elems b" "unat m < unat j"
          by (auto simp: marked_below_def word_less_nat_alt)
        show "x \<in> insert (drop_bit r i) (b64_elems c)"
        proof (cases "m < i")
          case True
          then show ?thesis using x less.prems(9) by (auto simp: marked_below_def)
        next
          case False
          then have "drop_bit r m = drop_bit r i"
            using x(3) j less.prems(5-7) by (intro same_cluster [of n]) (auto simp: word_less_nat_alt)
          then show ?thesis using x(1) by simp
        qed
      qed
      have dvd: "2 ^ r dvd unat j - 0"
      proof -
        have "unat j = (unat i - n) + 2 ^ r" using j less.prems(5,6) by simp
        then show ?thesis using less.prems(7) by simp
      qed
      have "\<exists>c''. convert_loop (B64 b) (2 ^ r) E j (int 0) (B64 c') = Some (B64 c'') \<and> b64_inv c'' \<and>
          b64_cluster_bits c'' = r \<and> b64_start c'' = s0 \<and> b64_end c'' = e0 \<and>
          b64_real_end c'' = b64_real_end c' \<and> b64_elems c'' = drop_bit r ` marked_below b E"
      proof (rule less.hyps)
        show "unat E - unat j < unat E - unat i" using j lt less.prems(5) by simp
        show "drop_bit r ` marked_below b j \<subseteq> b64_elems c'" using cover p(2) by simp
        show "b64_elems c' \<subseteq> drop_bit r ` marked_below b E" using p(2) less.prems(10) mE by auto
      qed (use p same less.prems dvd j lt in auto)
      then show ?thesis
        using True m mark same(4) test64_elem [OF assms(1), of i] assms(2)
        by (subst convert_loop.simps) (simp add: ext2fs_test_block_bitmap2_def step)
    next
      case m: False
      define n' where "n' = (if n + 1 \<ge> 2 ^ r then 0 else n + 1)"
      have n'_int: "int n' = (if 2 ^ r \<le> int n + 1 then 0 else int n + 1)"
      proof -
        have "2 ^ r \<le> int n + 1 \<longleftrightarrow> 2 ^ r \<le> n + 1" by (metis of_nat_1 of_nat_add of_nat_le_iff of_nat_numeral of_nat_power)
        then show ?thesis by (simp add: n'_def)
      qed
      have j: "unat (i + 1) = unat i + 1" using lt unat_u64_bound [of E] by (subst unat_add_small) auto
      have n': "n' < 2 ^ r" "n' \<le> unat (i + 1)" "2 ^ r dvd unat (i + 1) - n'"
      proof -
        show "n' < 2 ^ r" "n' \<le> unat (i + 1)" using j less.prems(6) by (auto simp: n'_def)
        show "2 ^ r dvd unat (i + 1) - n'"
        proof (cases "n + 1 \<ge> 2 ^ r")
          case True
          then have "n + 1 = 2 ^ r" using less.prems(5) by simp
          then have "unat (i + 1) - n' = (unat i - n) + 2 ^ r" using True j less.prems(6) by (simp add: n'_def)
          then show ?thesis using less.prems(7) by simp
        next
          case False
          then have "unat (i + 1) - n' = unat i - n" using j by (simp add: n'_def)
          then show ?thesis using less.prems(7) by simp
        qed
      qed
      have "marked_below b (i + 1) = marked_below b i"
        using m j by (auto simp: marked_below_def word_less_nat_alt less_Suc_eq simp flip: word_unat_eq_iff)
      then have "\<exists>c''. convert_loop (B64 b) (2 ^ r) E (i + 1) (int n') (B64 c) = Some (B64 c'') \<and> b64_inv c'' \<and>
          b64_cluster_bits c'' = r \<and> b64_start c'' = s0 \<and> b64_end c'' = e0 \<and>
          b64_real_end c'' = b64_real_end c \<and> b64_elems c'' = drop_bit r ` marked_below b E"
        using j lt less.prems n' by (intro less.hyps) auto
      then show ?thesis
        using True m test64_elem [OF assms(1), of i] assms(2)
        by (subst convert_loop.simps) (simp add: ext2fs_test_block_bitmap2_def n'_int)
    qed
  qed
qed

lemma ratio_small: "r < 31 \<Longrightarrow> sint (2 ^ r :: u32) = 2 ^ r"
proof -
  assume "r < 31"
  then have "(2 :: nat) ^ r < 2 ^ 31" by (intro power_strict_increasing) auto
  then have "sint (of_nat (2 ^ r) :: u32) = int (2 ^ r)" by (intro sint_of_nat_small) simp
  then show ?thesis by simp
qed

text \<open>
  A map of the blocks of a file system with clusters, as \<open>ext2fs_allocate_subcluster_bitmap\<close>
  makes it, its first block at the start of a cluster.
\<close>

definition subcluster_map :: "filsys \<Rightarrow> gen_bitmap64 \<Rightarrow> bool" where
  "subcluster_map fs b \<longleftrightarrow>
     (let s = fs_super fs; r = fs_cluster_ratio_bits fs;
          cpg = unat (s_clusters_per_group s); groups = unat (fs_group_desc_count fs);
          first = unat (s_first_data_block s)
      in b64_inv b \<and> b64_cluster_bits b = 0 \<and> 0 < r \<and> r < 31 \<and>
        fs_flags fs AND EXT2_FLAG_64BITS \<noteq> 0 \<and>
        unat (s_blocks_per_group s) = cpg * 2 ^ r \<and> 2 ^ r dvd first \<and> 0 < cpg * groups \<and>
        cpg * groups < 2 ^ 34 \<and>
        unat (b64_start b) = first \<and> unat (b64_real_end b) = first + cpg * groups * 2 ^ r - 1 \<and>
        first + cpg * groups * 2 ^ r + 2 ^ 32 < 2 ^ 64 \<and>
        first < unat (ext2fs_blocks_count s) \<and>
        unat (ext2fs_blocks_count s) - 1 \<le> unat (b64_real_end b))"

lemma converted_window:
  assumes "subcluster_map fs b"
  defines "cs \<equiv> EXT2FS_B2C fs (ucast (s_first_data_block (fs_super fs)))"
    and "ce \<equiv> EXT2FS_B2C fs (ext2fs_blocks_count (fs_super fs) - 1)"
  defines "cr \<equiv> ucast (s_clusters_per_group (fs_super fs)) * ucast (fs_group_desc_count fs) - 1 + cs"
  shows "cs \<le> ce" "ce \<le> cr" "unat (cr - cs) div 8 + 1 < 2 ^ 32"
    "b64_start b \<le> m \<Longrightarrow> m < b64_real_end b \<Longrightarrow> cs \<le> EXT2FS_B2C fs m \<and> EXT2FS_B2C fs m \<le> cr"
proof -
  let ?s = "fs_super fs" and ?r = "fs_cluster_ratio_bits fs"
  let ?N = "unat (s_clusters_per_group ?s) * unat (fs_group_desc_count fs)"
  let ?first = "unat (s_first_data_block ?s)" and ?E = "b64_real_end b"
  have f: "2 ^ ?r dvd ?first" "0 < ?N" "?N < 2 ^ 34" "unat (b64_start b) = ?first"
      "unat ?E = ?first + ?N * 2 ^ ?r - 1" "?first + ?N * 2 ^ ?r + 2 ^ 32 < 2 ^ 64"
      "?first < unat (ext2fs_blocks_count ?s)" "unat (ext2fs_blocks_count ?s) - 1 \<le> unat ?E"
    using assms(1) by (auto simp: subcluster_map_def Let_def)
  obtain q where q: "?first = 2 ^ ?r * q" using f(1) by blast
  have cs: "unat cs = q" by (simp add: cs_def EXT2FS_B2C_def unat_drop_bit64 q)
  have top: "x \<le> unat ?E \<Longrightarrow> x div 2 ^ ?r \<le> ?N - 1 + q" for x
  proof -
    assume "x \<le> unat ?E"
    moreover have "0 < ?N * 2 ^ ?r" using f(2) by simp
    ultimately have "x < ?first + ?N * 2 ^ ?r" using f(5) by linarith
    then have "x < (?N + q) * 2 ^ ?r" unfolding q by (simp add: algebra_simps)
    then have "x div 2 ^ ?r < ?N + q" by (simp add: div_less_iff_less_mult)
    then show ?thesis using f(2) by simp
  qed
  have "unat (ucast (s_clusters_per_group ?s) * ucast (fs_group_desc_count fs) - 1 :: u64) = ?N - 1"
    using f(2) by (subst unat_minus_one) (auto simp: unat_ucast_mult simp flip: unat_gt_0)
  moreover have "q \<le> ?first" unfolding q by simp
  ultimately have cr: "unat cr = ?N - 1 + q"
    unfolding cr_def using cs f(3) unat_u32_bound [of "s_first_data_block ?s"]
    by (subst unat_add_small) auto
  have cnt: "unat (ext2fs_blocks_count ?s - 1) = unat (ext2fs_blocks_count ?s) - 1"
    using f(7) by (intro unat_minus_one) auto
  have ce: "unat ce = (unat (ext2fs_blocks_count ?s) - 1) div 2 ^ ?r"
    by (simp add: ce_def EXT2FS_B2C_def unat_drop_bit64 cnt)
  have "q \<le> unat ce" unfolding ce using f(7) div_le_mono [of ?first "unat (ext2fs_blocks_count ?s) - 1" "2 ^ ?r"] by (simp add: q)
  then show "cs \<le> ce" by (simp add: word_le_nat_alt cs)
  show "ce \<le> cr" using top [OF f(8)] by (simp add: word_le_nat_alt ce cr)
  then have "cs \<le> cr" using \<open>cs \<le> ce\<close> by simp
  then show "unat (cr - cs) div 8 + 1 < 2 ^ 32" using f(3) by (simp add: unat_diff cr cs)
  assume m: "b64_start b \<le> m" "m < ?E"
  then have "q \<le> unat m div 2 ^ ?r"
    using div_le_mono [of ?first "unat m" "2 ^ ?r"] f(4) by (simp add: word_le_nat_alt q)
  then show "cs \<le> EXT2FS_B2C fs m \<and> EXT2FS_B2C fs m \<le> cr"
    using top [of "unat m"] m by (simp add: word_le_nat_alt word_less_nat_alt cs cr EXT2FS_B2C_def unat_drop_bit64)
qed


text \<open>A file system with two blocks per cluster, and a map of its blocks with one of them marked.\<close>

definition cluster_sample :: filsys where
  "cluster_sample = fs_sample\<lparr>fs_cluster_ratio_bits := 1,
     fs_super := sb_sample\<lparr>s_first_data_block := 0, s_clusters_per_group := 8\<rparr>\<rparr>"

definition subcluster_sample :: gen_bitmap64 where
  "subcluster_sample = \<lparr>b64_magic = EXT2_ET_MAGIC_BLOCK_BITMAP64, b64_fs = Some 0, b64_start = 0,
     b64_end = 39, b64_real_end = 47, b64_cluster_bits = 0, b64_description = None,
     b64_bitarray = [0, 0x20, 0, 0, 0, 0], b64_base_error_code = EXT2_ET_BAD_BLOCK_MARK\<rparr>"


end
