(* ===== verification/Icount.thy ===== *)
theory Icount
  imports Bitmaps
begin

text \<open>
  The inode count abstraction (\<open>source/icount.c\<close>): a count for every inode, kept in a bitmap
  of the inodes whose count is one, a sorted list of the others that may be stale or hold
  zeros, and an optional bitmap that says which entries of the list are meant. The variant
  that keeps the counts in a tdb database (\<open>source/tdb.c\<close>, third-party code) is left out,
  so \<open>tdb\<close> is always null and the list always allocated. The lemmas show that every operation
  does to the counts what it does to a plain function from inodes to counts.
\<close>

section \<open>State\<close>

record icount_el =
  el_ino :: u32
  el_count :: u32

text \<open>\<open>last_lookup\<close> points into the list: it is an index.\<close>

record icount =
  ic_magic :: errcode
  ic_single :: gbitmap
  ic_multiple :: "gbitmap option"
  ic_count :: u32
  ic_size :: u32
  ic_num_inodes :: u32
  ic_cursor :: u32
  ic_list :: "icount_el list"
  ic_last_lookup :: "nat option"

definition icount_16_xlate :: "u32 \<Rightarrow> u16" where
  "icount_16_xlate x = (if x > 65500 then 65500 else ucast x)"

section \<open>Creation\<close>

fun num_dirs_loop :: "filsys \<Rightarrow> u32 \<Rightarrow> nat \<Rightarrow> nat \<Rightarrow> u32 \<Rightarrow> u32" where
  "num_dirs_loop fs max_dirs i 0 num_dirs = num_dirs"
| "num_dirs_loop fs max_dirs i (Suc left) num_dirs =
     num_dirs_loop fs max_dirs (i + 1) left
       (if ext2fs_bg_used_dirs_count fs (of_nat i) > max_dirs then num_dirs + max_dirs div 8
        else num_dirs + ext2fs_bg_used_dirs_count fs (of_nat i))"

definition ext2fs_get_num_dirs :: "filsys \<Rightarrow> u32 result" where
  "ext2fs_get_num_dirs fs =
     (if fs_magic fs \<noteq> EXT2_ET_MAGIC_EXT2FS_FILSYS then Inl EXT2_ET_MAGIC_EXT2FS_FILSYS
      else
        let num_dirs = num_dirs_loop fs (s_inodes_per_group (fs_super fs)) 0 (unat (fs_group_desc_count fs)) 0 in
        Inr (if num_dirs > s_inodes_count (fs_super fs) then s_inodes_count (fs_super fs) else num_dirs))"

definition EXT2_ICOUNT_OPT_INCREMENT :: u32 where "EXT2_ICOUNT_OPT_INCREMENT = 0x01"

text \<open>
  \<open>h\<close> is the heap of the bitmaps; the struct, 44 bytes, comes from it too.
\<close>

definition alloc_icount :: "u8 heap \<Rightarrow> filsys \<Rightarrow> u32 \<Rightarrow> icount result" where
  "alloc_icount h fs flags =
     (case ext2fs_get_mem h 44 of
        Inl e \<Rightarrow> Inl e
      | Inr _ \<Rightarrow>
          (case ext2fs_allocate_inode_bitmap h fs None of
             Inl e \<Rightarrow> Inl e
           | Inr single \<Rightarrow>
               (case (if flags AND EXT2_ICOUNT_OPT_INCREMENT \<noteq> 0
                      then map_sum id Some (ext2fs_allocate_inode_bitmap h fs None) else Inr None) of
                  Inl e \<Rightarrow> Inl e
                | Inr multiple \<Rightarrow>
                    Inr \<lparr>ic_magic = EXT2_ET_MAGIC_ICOUNT, ic_single = single, ic_multiple = multiple,
                         ic_count = 0, ic_size = 0, ic_num_inodes = s_inodes_count (fs_super fs),
                         ic_cursor = 0, ic_list = [], ic_last_lookup = None\<rparr>)))"

definition ext2fs_create_icount2 ::
  "u8 heap \<Rightarrow> icount_el heap \<Rightarrow> filsys \<Rightarrow> u32 \<Rightarrow> u32 \<Rightarrow> icount option \<Rightarrow> icount result" where
  "ext2fs_create_icount2 h hl fs flags sz hint =
     (if (case hint of Some i \<Rightarrow> ic_magic i \<noteq> EXT2_ET_MAGIC_ICOUNT | None \<Rightarrow> False) then Inl EXT2_ET_MAGIC_ICOUNT
      else
        let sz = (case hint of Some i \<Rightarrow> if ic_size i > sz then ic_size i else sz | None \<Rightarrow> sz) in
        case alloc_icount h fs flags of
          Inl e \<Rightarrow> Inl e
        | Inr icount \<Rightarrow>
            (case (if sz \<noteq> 0 then Inr sz
                   else (case ext2fs_get_num_dirs fs of
                           Inl e \<Rightarrow> Inl e
                         | Inr n \<Rightarrow> Inr (n + s_inodes_count (fs_super fs) div 50))) of
               Inl e \<Rightarrow> Inl e
             | Inr n \<Rightarrow>
                 (case ext2fs_get_array hl (unat n) 8 of
                    Inl e \<Rightarrow> Inl e
                  | Inr _ \<Rightarrow>
                      let l = replicate (unat n) \<lparr>el_ino = 0, el_count = 0\<rparr>;
                          icount = icount\<lparr>ic_size := n, ic_list := l\<rparr>
                      in
                      Inr (case hint of
                             None \<Rightarrow> icount
                           | Some i \<Rightarrow>
                               icount\<lparr>ic_list :=
                                   map (\<lambda>e. \<lparr>el_ino = el_ino e, el_count = 0\<rparr>) (take (unat (ic_count i)) (ic_list i)) @
                                   drop (unat (ic_count i)) l,
                                 ic_count := ic_count i\<rparr>))))"

definition ext2fs_create_icount :: "u8 heap \<Rightarrow> icount_el heap \<Rightarrow> filsys \<Rightarrow> u32 \<Rightarrow> u32 \<Rightarrow> icount result" where
  "ext2fs_create_icount h hl fs flags sz = ext2fs_create_icount2 h hl fs flags sz None"

text \<open>Released: nothing is left of the object, whatever it was.\<close>

definition ext2fs_free_icount :: "icount option \<Rightarrow> icount option" where
  "ext2fs_free_icount icount = None"

section \<open>The sorted list\<close>

text \<open>
  \<open>scale count num_inodes last\<close> stands for the growth estimate
  \<open>count * ((float) num_inodes / last)\<close>, computed in floating point. The request
  \<open>new_size * sizeof(el)\<close> is taken modulo \<open>2\<^sup>32\<close>, as \<open>size_t\<close> is.
\<close>

definition insert_icount_el ::
  "icount_el heap \<Rightarrow> (u32 \<Rightarrow> u32 \<Rightarrow> u32 \<Rightarrow> u32) \<Rightarrow> icount \<Rightarrow> u32 \<Rightarrow> nat \<Rightarrow> nat option \<times> icount" where
  "insert_icount_el h scale icount ino pos =
     (case (case ic_last_lookup icount of
              Some k \<Rightarrow> if el_ino (ic_list icount ! k) = ino then Some k else None
            | None \<Rightarrow> None) of
        Some k \<Rightarrow> (Some k, icount)
      | None \<Rightarrow>
          (case (if ic_count icount \<ge> ic_size icount then
                   (let new_size = (if ic_count icount \<noteq> 0
                          then scale (ic_count icount) (ic_num_inodes icount)
                                 (el_ino (ic_list icount ! (unat (ic_count icount - 1))))
                          else 0);
                        new_size = (if new_size < ic_size icount + 100 then ic_size icount + 100 else new_size)
                    in
                    case ext2fs_resize_mem h (unat (new_size * 8) div 8) 8 (ic_list icount) of
                      Inl e \<Rightarrow> Inl e
                    | Inr l \<Rightarrow> Inr (icount\<lparr>ic_list := l, ic_size := new_size\<rparr>))
                 else Inr icount) of
             Inl e \<Rightarrow> (None, icount)
           | Inr icount \<Rightarrow>
               if unat (ic_count icount) < pos then (None, icount)
               else
                 let num = unat (ic_count icount) - pos;
                     l = ic_list icount;
                     l = (if num \<noteq> 0 then take (pos + 1) l @ take num (drop pos l) @ drop (pos + 1 + num) l else l)
                 in
                 (Some pos,
                  icount\<lparr>ic_list := l[pos := \<lparr>el_ino = ino, el_count = 0\<rparr>],
                    ic_count := ic_count icount + 1, ic_last_lookup := Some pos\<rparr>)))"

text \<open>The loop of \<open>get_icount_el\<close>: the entry, or the place where it would be.\<close>

function el_search :: "icount_el list \<Rightarrow> u32 \<Rightarrow> int \<Rightarrow> int \<Rightarrow> nat + nat" where
  "el_search l ino low high =
     (if low \<le> high then
        (let mid = (low + high) div 2 in
         if ino = el_ino (l ! nat mid) then Inr (nat mid)
         else if ino < el_ino (l ! nat mid) then el_search l ino low (mid - 1)
         else el_search l ino (mid + 1) high)
      else Inl (nat low))"
  by pat_completeness auto
termination
  by (relation "measure (\<lambda>(l, ino, low, high). nat (high - low + 1))") auto

declare el_search.simps [simp del]

definition get_icount_el ::
  "icount_el heap \<Rightarrow> (u32 \<Rightarrow> u32 \<Rightarrow> u32 \<Rightarrow> u32) \<Rightarrow> icount \<Rightarrow> u32 \<Rightarrow> bool \<Rightarrow> nat option \<times> icount" where
  "get_icount_el h scale icount ino create =
     (let l = ic_list icount; count = unat (ic_count icount) in
      if create \<and> (count = 0 \<or> ino > el_ino (l ! (count - 1))) then insert_icount_el h scale icount ino count
      else if count = 0 then (None, icount)
      else
        let icount = (if ic_cursor icount \<ge> ic_count icount then icount\<lparr>ic_cursor := 0\<rparr> else icount);
            cursor = ic_cursor icount
        in
        if ino = el_ino (l ! unat cursor) then (Some (unat cursor), icount\<lparr>ic_cursor := cursor + 1\<rparr>)
        else
          (case el_search l ino 0 (int count - 1) of
             Inr mid \<Rightarrow> (Some mid, icount\<lparr>ic_cursor := of_nat (mid + 1)\<rparr>)
           | Inl low \<Rightarrow> if create then insert_icount_el h scale icount ino low else (None, icount)))"

definition set_inode_count ::
  "icount_el heap \<Rightarrow> (u32 \<Rightarrow> u32 \<Rightarrow> u32 \<Rightarrow> u32) \<Rightarrow> icount \<Rightarrow> u32 \<Rightarrow> u32 \<Rightarrow> errcode option \<times> icount" where
  "set_inode_count h scale icount ino count =
     (case get_icount_el h scale icount ino True of
        (None, icount) \<Rightarrow> (Some EXT2_ET_NO_MEMORY, icount)
      | (Some k, icount) \<Rightarrow>
          (None, icount\<lparr>ic_list := (ic_list icount)[k := (ic_list icount ! k)\<lparr>el_count := count\<rparr>]\<rparr>))"

text \<open>
  The count, 0 with an error when there is no entry. Its callers ignore the error. Without
  \<open>create\<close> nothing is allocated, so heap and estimate do not matter.
\<close>

definition get_inode_count :: "icount \<Rightarrow> u32 \<Rightarrow> u32 \<times> icount" where
  "get_inode_count icount ino =
     (case get_icount_el \<lparr>grants = \<lambda>_. False, fresh = \<lambda>_. \<lparr>el_ino = 0, el_count = 0\<rparr>\<rparr> (\<lambda>_ _ _. 0) icount ino False of
        (None, icount) \<Rightarrow> (0, icount)
      | (Some k, icount) \<Rightarrow> (el_count (ic_list icount ! k), icount))"

section \<open>Operations\<close>

fun inos_ascend :: "icount_el list \<Rightarrow> bool" where
  "inos_ascend (a # b # l) \<longleftrightarrow> el_ino a < el_ino b \<and> inos_ascend (b # l)"
| "inos_ascend _ \<longleftrightarrow> True"

definition ext2fs_icount_validate :: "icount \<Rightarrow> unit result" where
  "ext2fs_icount_validate icount =
     (if ic_magic icount \<noteq> EXT2_ET_MAGIC_ICOUNT then Inl EXT2_ET_MAGIC_ICOUNT
      else if ic_count icount > ic_size icount then Inl EXT2_ET_INVALID_ARGUMENT
      else if inos_ascend (take (unat (ic_count icount)) (ic_list icount)) then Inr ()
      else Inl EXT2_ET_INVALID_ARGUMENT)"

definition in_single :: "icount \<Rightarrow> u32 \<Rightarrow> bool" where
  "in_single icount ino \<longleftrightarrow> ext2fs_test_inode_bitmap2 (Some (ic_single icount)) ino \<noteq> 0"

definition in_multiple :: "icount \<Rightarrow> u32 \<Rightarrow> bool" where
  "in_multiple icount ino \<longleftrightarrow> ext2fs_test_inode_bitmap2 (ic_multiple icount) ino \<noteq> 0"

definition mark_single :: "icount \<Rightarrow> u32 \<Rightarrow> icount" where
  "mark_single icount ino =
     icount\<lparr>ic_single := the (snd (ext2fs_mark_inode_bitmap2 (Some (ic_single icount)) ino))\<rparr>"

definition unmark_single :: "icount \<Rightarrow> u32 \<Rightarrow> icount" where
  "unmark_single icount ino =
     icount\<lparr>ic_single := the (snd (ext2fs_unmark_inode_bitmap2 (Some (ic_single icount)) ino))\<rparr>"

definition mark_multiple :: "icount \<Rightarrow> u32 \<Rightarrow> icount" where
  "mark_multiple icount ino =
     icount\<lparr>ic_multiple := snd (ext2fs_mark_inode_bitmap2 (ic_multiple icount) ino)\<rparr>"

definition unmark_multiple :: "icount \<Rightarrow> u32 \<Rightarrow> icount" where
  "unmark_multiple icount ino =
     icount\<lparr>ic_multiple := snd (ext2fs_unmark_inode_bitmap2 (ic_multiple icount) ino)\<rparr>"

definition ext2fs_icount_fetch :: "icount \<Rightarrow> u32 \<Rightarrow> u16 result \<times> icount" where
  "ext2fs_icount_fetch icount ino =
     (if ic_magic icount \<noteq> EXT2_ET_MAGIC_ICOUNT then (Inl EXT2_ET_MAGIC_ICOUNT, icount)
      else if ino = 0 \<or> ino > ic_num_inodes icount then (Inl EXT2_ET_INVALID_ARGUMENT, icount)
      else if in_single icount ino then (Inr 1, icount)
      else if ic_multiple icount \<noteq> None \<and> \<not> in_multiple icount ino then (Inr 0, icount)
      else (case get_inode_count icount ino of (val, icount) \<Rightarrow> (Inr (icount_16_xlate val), icount)))"

text \<open>The end that the branches of \<open>ext2fs_icount_increment\<close> share.\<close>

definition increment_done :: "errcode option \<times> icount \<Rightarrow> u32 \<Rightarrow> u32 \<Rightarrow> u16 result \<times> icount" where
  "increment_done r ino curr_value =
     (case r of
        (Some _, icount) \<Rightarrow> (Inl EXT2_ET_NO_MEMORY, icount)
      | (None, icount) \<Rightarrow>
          (Inr (icount_16_xlate curr_value),
           if ic_multiple icount \<noteq> None then mark_multiple icount ino else icount))"

definition ext2fs_icount_increment ::
  "icount_el heap \<Rightarrow> (u32 \<Rightarrow> u32 \<Rightarrow> u32 \<Rightarrow> u32) \<Rightarrow> icount \<Rightarrow> u32 \<Rightarrow> u16 result \<times> icount" where
  "ext2fs_icount_increment h scale icount ino =
     (if ic_magic icount \<noteq> EXT2_ET_MAGIC_ICOUNT then (Inl EXT2_ET_MAGIC_ICOUNT, icount)
      else if ino = 0 \<or> ino > ic_num_inodes icount then (Inl EXT2_ET_INVALID_ARGUMENT, icount)
      else if in_single icount ino then
        (case set_inode_count h scale icount ino 2 of
           (Some _, icount) \<Rightarrow> (Inl EXT2_ET_NO_MEMORY, icount)
         | (None, icount) \<Rightarrow> increment_done (None, unmark_single icount ino) ino 2)
      else if ic_multiple icount \<noteq> None then
        (if in_multiple icount ino then
           (case get_inode_count icount ino of
              (curr_value, icount) \<Rightarrow>
                increment_done (set_inode_count h scale icount ino (curr_value + 1)) ino (curr_value + 1))
         else (Inr 1, mark_single icount ino))
      else
        (case get_inode_count icount ino of
           (curr_value, icount) \<Rightarrow>
             increment_done (set_inode_count h scale icount ino (curr_value + 1)) ino (curr_value + 1)))"

definition ext2fs_icount_decrement ::
  "icount_el heap \<Rightarrow> (u32 \<Rightarrow> u32 \<Rightarrow> u32 \<Rightarrow> u32) \<Rightarrow> icount \<Rightarrow> u32 \<Rightarrow> u16 result \<times> icount" where
  "ext2fs_icount_decrement h scale icount ino =
     (if ino = 0 \<or> ino > ic_num_inodes icount then (Inl EXT2_ET_INVALID_ARGUMENT, icount)
      else if ic_magic icount \<noteq> EXT2_ET_MAGIC_ICOUNT then (Inl EXT2_ET_MAGIC_ICOUNT, icount)
      else if in_single icount ino then
        (let icount = unmark_single icount ino in
         (Inr 0,
          if ic_multiple icount \<noteq> None then unmark_multiple icount ino
          else snd (set_inode_count h scale icount ino 0)))
      else if ic_multiple icount \<noteq> None \<and> \<not> in_multiple icount ino then (Inl EXT2_ET_INVALID_ARGUMENT, icount)
      else
        (case get_inode_count icount ino of
           (curr_value, icount) \<Rightarrow>
             if curr_value = 0 then (Inl EXT2_ET_INVALID_ARGUMENT, icount)
             else
               let curr_value = curr_value - 1 in
               (case set_inode_count h scale icount ino curr_value of
                  (Some _, icount) \<Rightarrow> (Inl EXT2_ET_NO_MEMORY, icount)
                | (None, icount) \<Rightarrow>
                    let icount = (if curr_value = 1 then mark_single icount ino else icount);
                        icount = (if curr_value = 0 \<and> ic_multiple icount \<noteq> None
                                  then unmark_multiple icount ino else icount)
                    in (Inr (icount_16_xlate curr_value), icount))))"

definition ext2fs_icount_store ::
  "icount_el heap \<Rightarrow> (u32 \<Rightarrow> u32 \<Rightarrow> u32 \<Rightarrow> u32) \<Rightarrow> icount \<Rightarrow> u32 \<Rightarrow> u16 \<Rightarrow> unit result \<times> icount" where
  "ext2fs_icount_store h scale icount ino count =
     (if ino = 0 \<or> ino > ic_num_inodes icount then (Inl EXT2_ET_INVALID_ARGUMENT, icount)
      else if ic_magic icount \<noteq> EXT2_ET_MAGIC_ICOUNT then (Inl EXT2_ET_MAGIC_ICOUNT, icount)
      else if count = 1 then
        (let icount = mark_single icount ino in
         (Inr (), if ic_multiple icount \<noteq> None then unmark_multiple icount ino else icount))
      else if count = 0 then
        (let icount = unmark_single icount ino in
         (Inr (), if ic_multiple icount \<noteq> None then unmark_multiple icount ino
                  else snd (set_inode_count h scale icount ino 0)))
      else
        (case set_inode_count h scale icount ino (ucast count) of
           (Some _, icount) \<Rightarrow> (Inl EXT2_ET_NO_MEMORY, icount)
         | (None, icount) \<Rightarrow>
             let icount = unmark_single icount ino in
             (Inr (), if ic_multiple icount \<noteq> None then mark_multiple icount ino else icount)))"

definition ext2fs_get_icount_size :: "icount option \<Rightarrow> u32" where
  "ext2fs_get_icount_size icount =
     (case icount of
        None \<Rightarrow> 0
      | Some ic \<Rightarrow> if ic_magic ic \<noteq> EXT2_ET_MAGIC_ICOUNT then 0 else ic_size ic)"

section \<open>The list as a map\<close>

definition ic_elems :: "icount \<Rightarrow> icount_el list" where
  "ic_elems ic = take (unat (ic_count ic)) (ic_list ic)"

definition el_map :: "icount_el list \<Rightarrow> u32 \<Rightarrow> u32 option" where
  "el_map l = map_of (map (\<lambda>e. (el_ino e, el_count e)) l)"

definition list_val :: "icount \<Rightarrow> u32 \<Rightarrow> u32" where
  "list_val ic ino = (case el_map (ic_elems ic) ino of Some c \<Rightarrow> c | None \<Rightarrow> 0)"

definition il_inv :: "icount \<Rightarrow> bool" where
  "il_inv ic \<longleftrightarrow> length (ic_list ic) = unat (ic_size ic) \<and> ic_count ic \<le> ic_size ic \<and>
     sorted_wrt (<) (map el_ino (ic_elems ic)) \<and>
     (\<forall>e \<in> set (ic_elems ic). 0 < el_ino e \<and> el_ino e \<le> ic_num_inodes ic) \<and>
     unat (ic_num_inodes ic) + 100 < 2 ^ 28 \<and> unat (ic_size ic) < 2 ^ 29 \<and>
     (\<forall>k. ic_last_lookup ic = Some k \<longrightarrow> k < unat (ic_count ic))"

text \<open>
  What the proofs need of the floating-point estimate: with \<open>count \<le> last\<close> it is at most
  twice the number of inodes (exactly it would be at most that number).
\<close>

definition scale_ok :: "(u32 \<Rightarrow> u32 \<Rightarrow> u32 \<Rightarrow> u32) \<Rightarrow> bool" where
  "scale_ok scale \<longleftrightarrow> (\<forall>c n l. 0 < c \<and> c \<le> l \<and> l \<le> n \<longrightarrow> unat (scale c n l) \<le> 2 * unat n)"

lemma el_map_None: "el_map l ino = None \<longleftrightarrow> ino \<notin> el_ino ` set l"
  by (auto simp: el_map_def map_of_eq_None_iff image_iff)

lemma el_map_nth:
  assumes "distinct (map el_ino l)" "k < length l"
  shows "el_map l (el_ino (l ! k)) = Some (el_count (l ! k))"
  unfolding el_map_def using assms
  by (intro map_of_is_SomeI) (auto simp: comp_def)

lemma el_map_update:
  assumes "distinct (map el_ino l)" "k < length l" "el_ino (l ! k) = ino"
  shows "el_map (l[k := (l ! k)\<lparr>el_count := c\<rparr>]) = (el_map l)(ino \<mapsto> c)"
proof -
  have l: "l = take k l @ l ! k # drop (Suc k) l" using assms(2) by (simp add: id_take_nth_drop)
  have d: "distinct (map el_ino (take k l @ l ! k # drop (Suc k) l))" using assms(1) l by simp
  have u: "l[k := (l ! k)\<lparr>el_count := c\<rparr>] = take k l @ (l ! k)\<lparr>el_count := c\<rparr> # drop (Suc k) l"
    using assms(2) by (rule upd_conv_take_nth_drop)
  have n: "el_map (take k l) ino = None" "el_map (drop (Suc k) l) ino = None"
    using d assms(3) unfolding el_map_None by auto
  show ?thesis
    unfolding u by (subst (2) l, rule ext) (use n assms(3) in \<open>auto simp: el_map_def map_add_def split: option.splits\<close>)
qed

lemma el_map_insert:
  assumes "ino \<notin> el_ino ` set l"
  shows "el_map (take p l @ \<lparr>el_ino = ino, el_count = c\<rparr> # drop p l) = (el_map l)(ino \<mapsto> c)"
proof (rule ext)
  fix x
  have "el_map l x = (el_map (take p l) ++ el_map (drop p l)) x \<or> True" by simp
  have l: "el_map l = el_map (drop p l) ++ el_map (take p l)"
    unfolding el_map_def by (metis append_take_drop_id map_append map_of_append)
  have "el_map (take p l) ino = None" "el_map (drop p l) ino = None"
    using assms unfolding el_map_None by (auto dest: in_set_takeD in_set_dropD)
  then show "el_map (take p l @ \<lparr>el_ino = ino, el_count = c\<rparr> # drop p l) x = ((el_map l)(ino \<mapsto> c)) x"
    unfolding l by (auto simp: el_map_def map_add_def split: option.splits)
qed

section \<open>Searching the list\<close>

lemma sorted_inos_iff:
  assumes "sorted_wrt (<) (map el_ino l)" "i < length l" "j < length l"
  shows "el_ino (l ! i) < el_ino (l ! j) \<longleftrightarrow> i < j"
  using strict_sorted_nth_iff [OF assms(1), of i j] assms(2,3) by simp

lemma el_search_spec:
  assumes "sorted_wrt (<) (map el_ino (take n l))" "n \<le> length l"
  shows "0 \<le> low \<Longrightarrow> low \<le> high + 1 \<Longrightarrow> high < int n \<Longrightarrow>
    (\<forall>i. int i < low \<longrightarrow> el_ino (l ! i) < ino) \<Longrightarrow>
    (\<forall>i < n. high < int i \<longrightarrow> ino < el_ino (l ! i)) \<Longrightarrow>
    (case el_search l ino low high of
       Inr mid \<Rightarrow> mid < n \<and> el_ino (l ! mid) = ino
     | Inl p \<Rightarrow> p \<le> n \<and> (\<forall>i < p. el_ino (l ! i) < ino) \<and> (\<forall>i < n. p \<le> i \<longrightarrow> ino < el_ino (l ! i)))"
proof (induction "nat (high - low + 1)" arbitrary: low high rule: less_induct)
  case less
  show ?case
  proof (cases "low \<le> high")
    case False
    then show ?thesis using less.prems by (subst el_search.simps) (auto simp: not_le)
  next
    case True
    define mid where "mid = nat ((low + high) div 2)"
    have mid: "low \<le> int mid" "int mid \<le> high" "mid < n" "(low + high) div 2 = int mid"
      using True less.prems(1,3) by (auto simp: mid_def)
    have before: "el_ino (l ! i) < el_ino (l ! mid)" if "i < mid" for i
      using sorted_inos_iff [OF assms(1), of i mid] that mid(3) assms(2) by simp
    have after: "el_ino (l ! mid) < el_ino (l ! i)" if "mid < i" "i < n" for i
      using sorted_inos_iff [OF assms(1), of mid i] that mid(3) assms(2) by simp
    consider (eq) "ino = el_ino (l ! mid)" | (lt) "ino < el_ino (l ! mid)" | (gt) "el_ino (l ! mid) < ino"
      by (rule linorder_cases)
    then show ?thesis
    proof cases
      case eq
      then show ?thesis using True mid by (subst el_search.simps) (simp add: Let_def)
    next
      case lt
      have "case el_search l ino low (int mid - 1) of
         Inr mid \<Rightarrow> mid < n \<and> el_ino (l ! mid) = ino
       | Inl p \<Rightarrow> p \<le> n \<and> (\<forall>i < p. el_ino (l ! i) < ino) \<and> (\<forall>i < n. p \<le> i \<longrightarrow> ino < el_ino (l ! i))"
      proof (rule less.hyps)
        show "\<forall>i < n. int mid - 1 < int i \<longrightarrow> ino < el_ino (l ! i)"
        proof (intro allI impI)
          fix i assume i: "i < n" "int mid - 1 < int i"
          then have "i = mid \<or> mid < i" by auto
          then show "ino < el_ino (l ! i)" using lt after [of i] i(1) by auto
        qed
      qed (use less.prems mid in auto)
      then show ?thesis using True mid lt by (subst el_search.simps) (simp add: Let_def)
    next
      case gt
      have "case el_search l ino (int mid + 1) high of
         Inr mid \<Rightarrow> mid < n \<and> el_ino (l ! mid) = ino
       | Inl p \<Rightarrow> p \<le> n \<and> (\<forall>i < p. el_ino (l ! i) < ino) \<and> (\<forall>i < n. p \<le> i \<longrightarrow> ino < el_ino (l ! i))"
      proof (rule less.hyps)
        show "\<forall>i. int i < int mid + 1 \<longrightarrow> el_ino (l ! i) < ino"
        proof (intro allI impI)
          fix i assume "int i < int mid + 1"
          then have "i < mid \<or> i = mid" by auto
          then show "el_ino (l ! i) < ino" using gt before [of i] by auto
        qed
      qed (use less.prems mid in auto)
      then show ?thesis using True mid gt by (subst el_search.simps) (simp add: Let_def less_not_sym)
    qed
  qed
qed

section \<open>Entries: found or made\<close>

text \<open>A list with room for one more entry.\<close>

definition il_grown :: "icount_el heap \<Rightarrow> (u32 \<Rightarrow> u32 \<Rightarrow> u32 \<Rightarrow> u32) \<Rightarrow> icount \<Rightarrow> icount result" where
  "il_grown h scale ic =
     (if ic_count ic \<ge> ic_size ic then
        (let new_size = (if ic_count ic \<noteq> 0
               then scale (ic_count ic) (ic_num_inodes ic) (el_ino (ic_list ic ! (unat (ic_count ic - 1)))) else 0);
             new_size = (if new_size < ic_size ic + 100 then ic_size ic + 100 else new_size)
         in
         case ext2fs_resize_mem h (unat (new_size * 8) div 8) 8 (ic_list ic) of
           Inl e \<Rightarrow> Inl e
         | Inr l \<Rightarrow> Inr (ic\<lparr>ic_list := l, ic_size := new_size\<rparr>))
      else Inr ic)"

lemma ic_elems_nth: "i < unat (ic_count ic) \<Longrightarrow> ic_elems ic ! i = ic_list ic ! i"
  by (simp add: ic_elems_def)

lemma il_length: "il_inv ic \<Longrightarrow> length (ic_elems ic) = unat (ic_count ic)"
  by (simp add: il_inv_def ic_elems_def word_le_nat_alt)

text \<open>The entries are numbered from 1 at least: the k-th is at least k.\<close>

lemma il_count_le:
  assumes "il_inv ic" "ic_count ic \<noteq> 0"
  shows "unat (ic_count ic) \<le> unat (el_ino (ic_list ic ! (unat (ic_count ic - 1))))"
    "el_ino (ic_list ic ! (unat (ic_count ic - 1))) \<le> ic_num_inodes ic"
proof -
  let ?n = "unat (ic_count ic)"
  have len: "length (ic_elems ic) = ?n" by (rule il_length [OF assms(1)])
  have srt: "sorted_wrt (<) (map el_ino (ic_elems ic))" using assms(1) by (simp add: il_inv_def)
  have "k < ?n \<Longrightarrow> k < unat (el_ino (ic_elems ic ! k))" for k
  proof (induction k)
    case 0
    then show ?case using assms(1) len by (auto simp: il_inv_def word_less_nat_alt)
  next
    case (Suc k)
    then have "el_ino (ic_elems ic ! k) < el_ino (ic_elems ic ! Suc k)"
      using sorted_inos_iff [OF srt, of k "Suc k"] len by simp
    then show ?case using Suc by (simp add: word_less_nat_alt)
  qed
  moreover have n: "unat (ic_count ic - 1) = ?n - 1" "0 < ?n"
    using assms(2) by (simp_all add: unat_minus_one unat_gt_0)
  ultimately have "?n - 1 < unat (el_ino (ic_elems ic ! (?n - 1)))" by simp
  then show "?n \<le> unat (el_ino (ic_list ic ! (unat (ic_count ic - 1))))"
    using n by (simp add: ic_elems_nth)
  have "ic_elems ic ! (?n - 1) \<in> set (ic_elems ic)" using n len by simp
  then show "el_ino (ic_list ic ! (unat (ic_count ic - 1))) \<le> ic_num_inodes ic"
    using assms(1) n by (simp add: il_inv_def ic_elems_nth)
qed

lemma il_count_bound: "il_inv ic \<Longrightarrow> unat (ic_count ic) \<le> unat (ic_num_inodes ic)"
  using il_count_le [of ic] by (cases "ic_count ic = 0") (auto simp: word_le_nat_alt)

lemma il_grown_Inr:
  assumes inv: "il_inv ic" and sc: "scale_ok scale" and g: "il_grown h scale ic = Inr ic'"
  shows "il_inv ic'" "ic_elems ic' = ic_elems ic" "unat (ic_count ic') < length (ic_list ic')"
    "ic' = ic\<lparr>ic_list := ic_list ic', ic_size := ic_size ic'\<rparr>"
proof -
  have *: "il_inv ic' \<and> ic_elems ic' = ic_elems ic \<and> unat (ic_count ic') < length (ic_list ic') \<and>
    ic' = ic\<lparr>ic_list := ic_list ic', ic_size := ic_size ic'\<rparr>"
  proof (cases "ic_count ic \<ge> ic_size ic")
    case False
    then have "ic' = ic" using g by (simp add: il_grown_def)
    then show ?thesis using False inv by (simp add: il_inv_def word_less_nat_alt not_le)
  next
    case True
    then have full: "ic_size ic = ic_count ic" using inv by (auto simp: il_inv_def)
    define n1 where "n1 = (if ic_count ic \<noteq> 0
        then scale (ic_count ic) (ic_num_inodes ic) (el_ino (ic_list ic ! (unat (ic_count ic - 1)))) else 0)"
    define n2 where "n2 = (if n1 < ic_size ic + 100 then ic_size ic + 100 else n1)"
    have num: "unat (ic_num_inodes ic) + 100 < 2 ^ 28" using inv by (simp add: il_inv_def)
    have "unat n1 \<le> 2 * unat (ic_num_inodes ic)"
    proof (cases "ic_count ic = 0")
      case True
      then show ?thesis by (simp add: n1_def)
    next
      case False
      have "0 < ic_count ic" using False by (simp add: word_gt_0)
      then show ?thesis
        using False il_count_le [OF inv False] sc unfolding scale_ok_def n1_def
        by (simp add: word_le_nat_alt)
    qed
    moreover have s100: "unat (ic_size ic + 100) = unat (ic_size ic) + 100"
      using full il_count_bound [OF inv] num by (subst unat_add_small) auto
    ultimately have n2: "unat n2 < 2 ^ 29" "unat (ic_size ic) < unat n2"
      using full il_count_bound [OF inv] num by (auto simp: n2_def word_less_nat_alt)
    then have bytes: "unat (n2 * 8) = unat n2 * 8" using unat_mult_small [of n2 8] by simp
    obtain l where l: "ext2fs_resize_mem h (unat n2) 8 (ic_list ic) = Inr l"
        and ic': "ic' = ic\<lparr>ic_list := l, ic_size := n2\<rparr>"
      using g True bytes by (auto simp: il_grown_def Let_def n1_def [symmetric] n2_def [symmetric] split: sum.splits)
    have len: "length (ic_list ic) = unat (ic_size ic)" using inv by (simp add: il_inv_def)
    have "length l = unat n2" "take (unat (ic_count ic)) l = take (unat (ic_count ic)) (ic_list ic)"
      using ext2fs_resize_mem_length [OF l] ext2fs_resize_mem_take [OF l] len n2 full by auto
    then show ?thesis
      using inv n2 full by (auto simp: ic' il_inv_def ic_elems_def word_le_nat_alt)
  qed
  then show "il_inv ic'" "ic_elems ic' = ic_elems ic" "unat (ic_count ic') < length (ic_list ic')"
    "ic' = ic\<lparr>ic_list := ic_list ic', ic_size := ic_size ic'\<rparr>" by blast+
qed

lemma take_insert_at:
  assumes "p \<le> n" "n < length l" "num = n - p"
    and "l' = (if num \<noteq> 0 then take (p + 1) l @ take num (drop p l) @ drop (p + 1 + num) l else l)"
  shows "length l' = length l" "take (n + 1) (l'[p := x]) = take p (take n l) @ x # drop p (take n l)"
proof -
  show len: "length l' = length l" using assms by auto
  show "take (n + 1) (l'[p := x]) = take p (take n l) @ x # drop p (take n l)"
  proof (rule nth_equalityI)
    show "length (take (n + 1) (l'[p := x])) = length (take p (take n l) @ x # drop p (take n l))"
      using assms len by simp
    fix i assume "i < length (take (n + 1) (l'[p := x]))"
    then have i: "i < n + 1" by simp
    consider "i < p" | "i = p" | "p < i" by linarith
    then show "take (n + 1) (l'[p := x]) ! i = (take p (take n l) @ x # drop p (take n l)) ! i"
    proof cases
      case 3
      then have "(take p (take n l) @ x # drop p (take n l)) ! i = l ! (i - 1)"
        using i assms(1,2) by (simp add: nth_append nth_Cons' )
      moreover have "l' ! i = l ! (i - 1)"
        using 3 i assms by (auto simp: nth_append)
      ultimately show ?thesis using 3 i by simp
    qed (use i assms len in \<open>auto simp: nth_append\<close>)
  qed
qed

text \<open>The fields the list operations leave alone.\<close>

definition ic_frame :: "icount \<Rightarrow> errcode \<times> gbitmap \<times> gbitmap option \<times> u32" where
  "ic_frame ic = (ic_magic ic, ic_single ic, ic_multiple ic, ic_num_inodes ic)"

lemma insert_icount_el_spec:
  assumes inv: "il_inv ic" and sc: "scale_ok scale"
    and ino: "0 < ino" "ino \<le> ic_num_inodes ic" "ino \<notin> el_ino ` set (ic_elems ic)"
    and pos: "pos \<le> unat (ic_count ic)" "\<forall>i < pos. el_ino (ic_elems ic ! i) < ino"
      "pos < unat (ic_count ic) \<longrightarrow> ino < el_ino (ic_elems ic ! pos)"
    and r: "insert_icount_el h scale ic ino pos = (r, ic')"
  shows "il_inv ic' \<and> ic_frame ic' = ic_frame ic \<and>
    (case r of
       None \<Rightarrow> el_map (ic_elems ic') = el_map (ic_elems ic)
     | Some k \<Rightarrow> k < unat (ic_count ic') \<and> el_ino (ic_list ic' ! k) = ino \<and>
         el_map (ic_elems ic') = (el_map (ic_elems ic))(ino \<mapsto> 0))"
proof -
  have "\<not> (\<exists>k. ic_last_lookup ic = Some k \<and> el_ino (ic_list ic ! k) = ino)"
  proof
    assume "\<exists>k. ic_last_lookup ic = Some k \<and> el_ino (ic_list ic ! k) = ino"
    then obtain k where "ic_last_lookup ic = Some k" "el_ino (ic_list ic ! k) = ino" by blast
    moreover from this have "k < length (ic_elems ic)" using inv il_length [OF inv] by (simp add: il_inv_def)
    ultimately show False using ino(3) il_length [OF inv] nth_mem [of k "ic_elems ic"] by (auto simp: ic_elems_nth)
  qed
  then have look: "(case ic_last_lookup ic of
      Some k \<Rightarrow> if el_ino (ic_list ic ! k) = ino then Some k else None | None \<Rightarrow> None) = None"
    by (auto split: option.splits)
  show ?thesis
  proof (cases "il_grown h scale ic")
    case (Inl e)
    then have "r = None" "ic' = ic"
      using r look by (auto simp: insert_icount_el_def il_grown_def [symmetric])
    then show ?thesis using inv by simp
  next
    case (Inr ic1)
    note g = il_grown_Inr [OF inv sc Inr]
    define num where "num = unat (ic_count ic1) - pos"
    define l' where "l' = (if num \<noteq> 0
      then take (pos + 1) (ic_list ic1) @ take num (drop pos (ic_list ic1)) @ drop (pos + 1 + num) (ic_list ic1)
      else ic_list ic1)"
    let ?x = "\<lparr>el_ino = ino, el_count = 0\<rparr>"
    have cnt: "ic_count ic1 = ic_count ic" by (subst g(4)) simp
    have r': "r = Some pos"
      "ic' = ic1\<lparr>ic_list := l'[pos := ?x], ic_count := ic_count ic1 + 1, ic_last_lookup := Some pos\<rparr>"
      using r look Inr pos(1) cnt
      by (auto simp: insert_icount_el_def il_grown_def [symmetric] Let_def num_def l'_def)
    have p: "pos \<le> unat (ic_count ic1)" using pos(1) cnt by simp
    note t = take_insert_at [OF p g(3) num_def l'_def]
    have "unat (ic_count ic1) < 2 ^ 29" using g(1) by (auto simp: il_inv_def word_le_nat_alt)
    then have c1: "unat (ic_count ic1 + 1) = unat (ic_count ic1) + 1" by (subst unat_add_small) auto
    have el: "ic_elems ic' = take pos (ic_elems ic) @ ?x # drop pos (ic_elems ic)"
    proof -
      have "take (unat (ic_count ic1)) (ic_list ic1) = ic_elems ic" using g(2) by (simp add: ic_elems_def)
      moreover have "ic_elems ic' = take (unat (ic_count ic1) + 1) (l'[pos := ?x])"
        by (simp add: r'(2) ic_elems_def c1)
      ultimately show ?thesis using t(2) [of ?x] by simp
    qed
    have srt: "sorted_wrt (<) (map el_ino (ic_elems ic))" using inv by (simp add: il_inv_def)
    have "sorted_wrt (<) (take pos (map el_ino (ic_elems ic)) @ ino # drop pos (map el_ino (ic_elems ic)))"
      using pos il_length [OF inv] by (intro strict_sorted_insert_at srt) auto
    then have "sorted_wrt (<) (map el_ino (ic_elems ic'))" by (simp add: el take_map drop_map)
    moreover have "\<forall>e \<in> set (ic_elems ic'). 0 < el_ino e \<and> el_ino e \<le> ic_num_inodes ic"
    proof -
      have "set (ic_elems ic') = insert ?x (set (ic_elems ic))" unfolding el by (rule set_insert_at)
      then show ?thesis using inv ino by (auto simp: il_inv_def)
    qed
    moreover have "ic_num_inodes ic' = ic_num_inodes ic" "ic_frame ic' = ic_frame ic"
      unfolding r'(2) by (subst g(4), simp add: ic_frame_def)+
    moreover have "length (ic_list ic') = unat (ic_size ic')" "ic_count ic' \<le> ic_size ic'"
      "unat (ic_size ic') < 2 ^ 29"
      using g(1,3) t(1) c1 by (simp_all add: r'(2) il_inv_def word_le_nat_alt)
    moreover have "k < unat (ic_count ic')" if "ic_last_lookup ic' = Some k" for k
      using that p c1 by (simp add: r'(2))
    moreover have "unat (ic_num_inodes ic) + 100 < 2 ^ 28" using inv by (simp add: il_inv_def)
    ultimately have "il_inv ic' \<and> ic_frame ic' = ic_frame ic" by (simp add: il_inv_def)
    moreover have "pos < unat (ic_count ic')" "el_ino (ic_list ic' ! pos) = ino"
      using p c1 g(3) t(1) by (simp_all add: r'(2))
    ultimately show ?thesis
      using el_map_insert [OF ino(3), of pos 0] by (simp add: r'(1) el)
  qed
qed

lemma ic_last_elem:
  assumes "il_inv ic" "ic_count ic \<noteq> 0" "el_ino (ic_list ic ! (unat (ic_count ic) - 1)) < ino"
    "i < unat (ic_count ic)"
  shows "el_ino (ic_elems ic ! i) < ino"
proof -
  have srt: "sorted_wrt (<) (map el_ino (ic_elems ic))" using assms(1) by (simp add: il_inv_def)
  have "i = unat (ic_count ic) - 1 \<or> i < unat (ic_count ic) - 1" using assms(4) by auto
  then have "el_ino (ic_elems ic ! i) \<le> el_ino (ic_elems ic ! (unat (ic_count ic) - 1))"
    using sorted_inos_iff [OF srt, of i "unat (ic_count ic) - 1"] il_length [OF assms(1)] assms(4) by auto
  then show ?thesis using assms(3,4) by (simp add: ic_elems_nth)
qed

lemma not_in_elems:
  assumes "il_inv ic" "\<forall>i < unat (ic_count ic). el_ino (ic_list ic ! i) \<noteq> ino"
  shows "ino \<notin> el_ino ` set (ic_elems ic)"
proof
  assume "ino \<in> el_ino ` set (ic_elems ic)"
  then obtain i where "i < unat (ic_count ic)" "ino = el_ino (ic_elems ic ! i)"
    using il_length [OF assms(1)] by (auto simp: in_set_conv_nth)
  then show False using assms(2) ic_elems_nth [of i ic] by metis
qed

lemma get_icount_el_spec:
  assumes inv: "il_inv ic" and sc: "create \<Longrightarrow> scale_ok scale"
    and ino: "0 < ino" "ino \<le> ic_num_inodes ic"
    and r: "get_icount_el h scale ic ino create = (r, ic')"
  shows "il_inv ic' \<and> ic_frame ic' = ic_frame ic \<and>
    (case r of
       None \<Rightarrow> el_map (ic_elems ic') = el_map (ic_elems ic) \<and> el_map (ic_elems ic) ino = None
     | Some k \<Rightarrow> k < unat (ic_count ic') \<and> el_ino (ic_list ic' ! k) = ino \<and>
         el_map (ic_elems ic') = (case el_map (ic_elems ic) ino of
            None \<Rightarrow> (el_map (ic_elems ic))(ino \<mapsto> 0) | Some _ \<Rightarrow> el_map (ic_elems ic)))"
    (is "?goal r ic'")
proof -
  let ?n = "unat (ic_count ic)" and ?l = "ic_list ic"
  have len: "?n \<le> length ?l" and small: "?n < 2 ^ 29" using inv by (auto simp: il_inv_def word_le_nat_alt)
  have srt: "sorted_wrt (<) (map el_ino (ic_elems ic))" using inv by (simp add: il_inv_def)
  have ins: "?goal r ic'"
    if "insert_icount_el h scale c ino pos = (r, ic')" "il_inv c" "ic_elems c = ic_elems ic"
      "ic_count c = ic_count ic" "ic_frame c = ic_frame ic" create
      "ino \<notin> el_ino ` set (ic_elems ic)" "pos \<le> ?n" "\<forall>i < pos. el_ino (ic_elems ic ! i) < ino"
      "pos < ?n \<longrightarrow> ino < el_ino (ic_elems ic ! pos)" for c pos
  proof -
    have "ic_num_inodes c = ic_num_inodes ic" using that(5) by (simp add: ic_frame_def)
    moreover have "el_map (ic_elems ic) ino = None" using that(7) by (simp add: el_map_None)
    ultimately show ?thesis
      using insert_icount_el_spec [of c scale ino pos h r ic'] that sc ino by (auto split: option.splits)
  qed
  have found: "?goal (Some k) c"
    if "k < ?n" "el_ino (?l ! k) = ino" "c = ic\<lparr>ic_cursor := x\<rparr>" for k c x
  proof -
    have "el_map (ic_elems ic) (el_ino (ic_elems ic ! k)) = Some (el_count (ic_elems ic ! k))"
      using srt that(1) il_length [OF inv] by (intro el_map_nth) (auto simp: sorted_distinct_strict)
    then have "el_map (ic_elems ic) ino \<noteq> None" using that(1,2) by (simp add: ic_elems_nth)
    then show ?thesis using that inv by (auto simp: il_inv_def ic_elems_def ic_frame_def)
  qed
  show ?thesis
  proof (cases "create \<and> (?n = 0 \<or> ino > el_ino (?l ! (?n - 1)))")
    case True
    have lt: "el_ino (ic_elems ic ! i) < ino" if "i < ?n" for i
      using True that by (intro ic_last_elem [OF inv]) (auto simp: unat_gt_0)
    then have "ino \<notin> el_ino ` set (ic_elems ic)"
      by (intro not_in_elems [OF inv]) (auto simp: ic_elems_nth)
    moreover have "insert_icount_el h scale ic ino ?n = (r, ic')"
      using r True by (simp add: get_icount_el_def Let_def)
    ultimately show ?thesis using lt inv True by (intro ins) auto
  next
    case nlast: False
    show ?thesis
    proof (cases "?n = 0")
      case True
      then have "r = None" "ic' = ic" using r nlast by (auto simp: get_icount_el_def Let_def)
      moreover have "el_map (ic_elems ic) ino = None"
        using True il_length [OF inv] by (simp add: el_map_def)
      ultimately show ?thesis using inv by simp
    next
      case n: False
      define c where "c = (if ic_cursor ic \<ge> ic_count ic then ic\<lparr>ic_cursor := 0\<rparr> else ic)"
      have c: "c = ic\<lparr>ic_cursor := ic_cursor c\<rparr>" by (simp add: c_def)
      have cur: "unat (ic_cursor c) < ?n"
        using n by (auto simp: c_def word_le_nat_alt unat_gt_0)
      have get: "get_icount_el h scale ic ino create =
          (if ino = el_ino (?l ! unat (ic_cursor c)) then (Some (unat (ic_cursor c)), c\<lparr>ic_cursor := ic_cursor c + 1\<rparr>)
           else (case el_search ?l ino 0 (int ?n - 1) of
             Inr mid \<Rightarrow> (Some mid, c\<lparr>ic_cursor := of_nat (mid + 1)\<rparr>)
           | Inl low \<Rightarrow> if create then insert_icount_el h scale c ino low else (None, c)))"
        unfolding get_icount_el_def Let_def if_not_P [OF nlast] if_not_P [OF n] c_def by (rule refl)
      show ?thesis
      proof (cases "ino = el_ino (?l ! unat (ic_cursor c))")
        case True
        then have "r = Some (unat (ic_cursor c))" "ic' = ic\<lparr>ic_cursor := ic_cursor c + 1\<rparr>"
          using r get by (auto simp: c_def)
        then show ?thesis using found [OF cur] True by simp
      next
        case ncur: False
        have search: "case el_search ?l ino 0 (int ?n - 1) of
            Inr mid \<Rightarrow> mid < ?n \<and> el_ino (?l ! mid) = ino
          | Inl p \<Rightarrow> p \<le> ?n \<and> (\<forall>i < p. el_ino (?l ! i) < ino) \<and> (\<forall>i < ?n. p \<le> i \<longrightarrow> ino < el_ino (?l ! i))"
        proof (rule el_search_spec)
          show "\<forall>i < ?n. int ?n - 1 < int i \<longrightarrow> ino < el_ino (?l ! i)"
          proof (intro allI impI)
            fix i assume "i < ?n" "int ?n - 1 < int i"
            then show "ino < el_ino (?l ! i)" by linarith
          qed
        qed (use srt len in \<open>auto simp: ic_elems_def\<close>)
        show ?thesis
        proof (cases "el_search ?l ino 0 (int ?n - 1)")
          case (Inr mid)
          then have "r = Some mid" "ic' = ic\<lparr>ic_cursor := of_nat (mid + 1)\<rparr>"
            using r get ncur by (auto simp: c_def)
          then show ?thesis using found [of mid] search Inr by simp
        next
          case (Inl low)
          have s: "low \<le> ?n" "\<forall>i < low. el_ino (ic_elems ic ! i) < ino"
              "low < ?n \<longrightarrow> ino < el_ino (ic_elems ic ! low)"
            using search Inl by (auto simp: ic_elems_nth)
          have not_in: "ino \<notin> el_ino ` set (ic_elems ic)"
          proof (rule not_in_elems [OF inv], intro allI impI)
            fix i assume "i < ?n"
            then show "el_ino (?l ! i) \<noteq> ino" using search Inl by (cases "i < low") auto
          qed
          have ci: "il_inv c" "ic_elems c = ic_elems ic" "ic_count c = ic_count ic" "ic_frame c = ic_frame ic"
            using inv by (auto simp: c_def il_inv_def ic_elems_def ic_frame_def)
          show ?thesis
          proof (cases create)
            case True
            then show ?thesis using r get ncur Inl ins [OF _ ci True not_in s] by simp
          next
            case False
            then have "r = None" "ic' = c" using r get ncur Inl by auto
            then show ?thesis using ci not_in by (simp add: el_map_None)
          qed
        qed
      qed
    qed
  qed
qed

lemma get_icount_el_same:
  assumes "get_icount_el h scale ic ino False = (r, ic')"
  shows "ic_list ic' = ic_list ic" "ic_count ic' = ic_count ic"
  using assms by (auto simp: get_icount_el_def Let_def split: if_splits sum.splits)

section \<open>The store of counts\<close>

text \<open>
  What the operations rely on: reading a count changes nothing they can see, writing one
  changes that count alone, and a write that fails for lack of memory changes nothing and
  can only happen where there was no count. The frame is what a store leaves alone.
\<close>

locale count_store =
  fixes inv :: "'s \<Rightarrow> bool" and val :: "'s \<Rightarrow> 'k \<Rightarrow> 'v::zero" and frame :: "'s \<Rightarrow> 'f"
    and key :: "'f \<Rightarrow> 'k \<Rightarrow> bool" and env :: "'h \<Rightarrow> bool"
    and get :: "'s \<Rightarrow> 'k \<Rightarrow> 'v \<times> 's" and put :: "'h \<Rightarrow> 's \<Rightarrow> 'k \<Rightarrow> 'v \<Rightarrow> errcode option \<times> 's"
  assumes get: "inv s \<Longrightarrow> key (frame s) k \<Longrightarrow> get s k = (v, s') \<Longrightarrow>
      v = val s k \<and> inv s' \<and> val s' = val s \<and> frame s' = frame s"
    and put: "inv s \<Longrightarrow> env h \<Longrightarrow> key (frame s) k \<Longrightarrow> put h s k v = (e, s') \<Longrightarrow>
      inv s' \<and> frame s' = frame s \<and>
      (case e of None \<Rightarrow> val s' = (val s)(k := v) | Some _ \<Rightarrow> val s' = val s \<and> val s k = 0)"
begin

text \<open>Writing zero may as well fail, the count is zero afterwards.\<close>

lemma write_zero:
  assumes "inv s" "env h" "key (frame s) k"
  shows "inv (snd (put h s k 0)) \<and> frame (snd (put h s k 0)) = frame s \<and>
    val (snd (put h s k 0)) = (val s)(k := 0)"
  using put [OF assms, of 0] by (cases "put h s k 0") (auto split: option.splits)

text \<open>Read, change, put: the count is the changed one or, without memory, untouched.\<close>

lemma read_write:
  assumes "inv s" "env h" "key (frame s) k" "get s k = (v, t)" "put h t k (g v) = (e, s')"
  shows "inv s' \<and> frame s' = frame s \<and> v = val s k \<and>
    (case e of None \<Rightarrow> val s' = (val s)(k := g (val s k)) | Some _ \<Rightarrow> val s' = val s)"
  using get [OF assms(1,3,4)] put [of t h k "g v" e s'] assms(2,3,5) by (auto split: option.splits)

end

definition icount_key :: "errcode \<times> gbitmap \<times> gbitmap option \<times> u32 \<Rightarrow> u32 \<Rightarrow> bool" where
  "icount_key f ino \<longleftrightarrow> 0 < ino \<and> ino \<le> snd (snd (snd f))"

definition set_entry ::
  "icount_el heap \<times> (u32 \<Rightarrow> u32 \<Rightarrow> u32 \<Rightarrow> u32) \<Rightarrow> icount \<Rightarrow> u32 \<Rightarrow> u32 \<Rightarrow> errcode option \<times> icount" where
  "set_entry hs ic ino c = set_inode_count (fst hs) (snd hs) ic ino c"

interpretation il: count_store
  where inv = il_inv and val = list_val and frame = ic_frame and key = icount_key
    and env = "\<lambda>hs. scale_ok (snd hs)" and get = get_inode_count and put = set_entry
proof
  fix s k v s'
  assume a: "il_inv s" "icount_key (ic_frame s) k" "get_inode_count s k = (v, s')"
  then have ino: "0 < k" "k \<le> ic_num_inodes s" by (auto simp: icount_key_def ic_frame_def)
  obtain r where g: "get_icount_el \<lparr>grants = \<lambda>_. False, fresh = \<lambda>_. \<lparr>el_ino = 0, el_count = 0\<rparr>\<rparr>
      (\<lambda>_ _ _. 0) s k False = (r, s')"
    and v: "v = (case r of None \<Rightarrow> 0 | Some i \<Rightarrow> el_count (ic_list s' ! i))"
    using a(3) by (auto simp: get_inode_count_def split: prod.splits option.splits)
  note spec = get_icount_el_spec [OF a(1) _ ino g, simplified]
  have same: "ic_elems s' = ic_elems s" "ic_list s' = ic_list s" "ic_count s' = ic_count s"
    using get_icount_el_same [OF g] by (simp_all add: ic_elems_def)
  have "v = list_val s k"
  proof (cases r)
    case None
    then show ?thesis using v spec by (simp add: list_val_def)
  next
    case (Some i)
    then have i: "i < unat (ic_count s)" "el_ino (ic_elems s ! i) = k"
      using spec same by (auto simp: ic_elems_nth)
    have "el_map (ic_elems s) (el_ino (ic_elems s ! i)) = Some (el_count (ic_elems s ! i))"
      using a(1) i(1) il_length [OF a(1)] by (intro el_map_nth) (auto simp: il_inv_def sorted_distinct_strict)
    then show ?thesis using v Some i same by (simp add: list_val_def ic_elems_nth)
  qed
  moreover have "list_val s' = list_val s" by (rule ext) (simp add: list_val_def same)
  ultimately show "v = list_val s k \<and> il_inv s' \<and> list_val s' = list_val s \<and> ic_frame s' = ic_frame s"
    using spec by blast
next
  fix s h k v e s'
  assume a: "il_inv s" "scale_ok (snd h)" "icount_key (ic_frame s) k" "set_entry h s k v = (e, s')"
  then have ino: "0 < k" "k \<le> ic_num_inodes s" by (auto simp: icount_key_def ic_frame_def)
  show "il_inv s' \<and> ic_frame s' = ic_frame s \<and>
      (case e of None \<Rightarrow> list_val s' = (list_val s)(k := v) | Some _ \<Rightarrow> list_val s' = list_val s \<and> list_val s k = 0)"
  proof -
    obtain r t where g: "get_icount_el (fst h) (snd h) s k True = (r, t)" by fastforce
    note spec = get_icount_el_spec [OF a(1) a(2) ino g]
    show ?thesis
    proof (cases r)
      case None
      then show ?thesis
        using a(4) g spec by (auto simp: set_entry_def set_inode_count_def list_val_def fun_eq_iff)
    next
      case (Some i)
      let ?l = "(ic_list t)[i := (ic_list t ! i)\<lparr>el_count := v\<rparr>]"
      have s': "e = None" "s' = t\<lparr>ic_list := ?l\<rparr>"
        using a(4) g Some by (auto simp: set_entry_def set_inode_count_def)
      have t: "il_inv t" "i < unat (ic_count t)" "el_ino (ic_elems t ! i) = k" "ic_frame t = ic_frame s"
        using spec Some by (auto simp: ic_elems_nth)
      have el: "ic_elems s' = (ic_elems t)[i := (ic_elems t ! i)\<lparr>el_count := v\<rparr>]"
        using t(2) by (simp add: s'(2) ic_elems_def take_update_swap)
      have inos: "map el_ino (ic_elems s') = map el_ino (ic_elems t)"
        unfolding el map_update by (simp add: list_update_same_conv il_length [OF t(1)] t(2))
      then have "el_ino ` set (ic_elems s') = el_ino ` set (ic_elems t)" by (metis set_map)
      then have "\<forall>x \<in> el_ino ` set (ic_elems s'). 0 < x \<and> x \<le> ic_num_inodes t"
        using t(1) by (simp only:) (simp add: il_inv_def)
      then have "\<forall>e \<in> set (ic_elems s'). 0 < el_ino e \<and> el_ino e \<le> ic_num_inodes t" by simp
      then have inv: "il_inv s'" using t(1) inos by (simp add: il_inv_def s'(2))
      have "el_map (ic_elems s') = (el_map (ic_elems t))(k \<mapsto> v)"
        unfolding el using t il_length [OF t(1)]
        by (intro el_map_update) (auto simp: il_inv_def sorted_distinct_strict)
      then have "list_val s' = (list_val s)(k := v)"
        using spec Some by (auto simp: list_val_def fun_eq_iff split: option.splits)
      then show ?thesis using s'(1) inv t(4) by (simp add: s'(2) ic_frame_def)
    qed
  qed
qed

section \<open>The bitmaps of inodes\<close>

definition bm_ok :: "u32 \<Rightarrow> gbitmap \<Rightarrow> bool" where
  "bm_ok num b \<longleftrightarrow> gb_inv b \<and> (\<forall>i. 0 < i \<and> i \<le> num \<longrightarrow> gb_valid b (ucast i))"

definition icount_inv :: "icount \<Rightarrow> bool" where
  "icount_inv ic \<longleftrightarrow> ic_magic ic = EXT2_ET_MAGIC_ICOUNT \<and> il_inv ic \<and> bm_ok (ic_num_inodes ic) (ic_single ic) \<and>
     (\<forall>b. ic_multiple ic = Some b \<longrightarrow> bm_ok (ic_num_inodes ic) b)"

text \<open>The count of an inode.\<close>

definition icount_val :: "icount \<Rightarrow> u32 \<Rightarrow> u32" where
  "icount_val ic ino =
     (if in_single ic ino then 1
      else if ic_multiple ic \<noteq> None \<and> \<not> in_multiple ic ino then 0
      else list_val ic ino)"

lemma snd_mark_generic: "snd (ext2fs_mark_generic_bmap (Some b) n) = Some (gb_mark n b)"
  "snd (ext2fs_unmark_generic_bmap (Some b) n) = Some (gb_unmark n b)"
  by (auto simp: gb_mark_def gb_unmark_def ext2fs_mark_generic_bmap_def ext2fs_unmark_generic_bmap_def Let_def
      case_prod_beta split: gbitmap.splits)

lemma ucast_u32_inj: "(ucast (a :: u32) :: u64) = ucast b \<longleftrightarrow> a = b"
  by (metis unat_ucast_u64 word_unat_eq_iff)

lemma bm_ok_upd:
  assumes "bm_ok num b" "0 < ino" "ino \<le> num"
  shows "bm_ok num (gb_mark (ucast ino) b)" "bm_ok num (gb_unmark (ucast ino) b)"
    "ext2fs_test_inode_bitmap2 (Some (gb_mark (ucast ino) b)) x \<noteq> 0 \<longleftrightarrow>
       x = ino \<or> ext2fs_test_inode_bitmap2 (Some b) x \<noteq> 0"
    "ext2fs_test_inode_bitmap2 (Some (gb_unmark (ucast ino) b)) x \<noteq> 0 \<longleftrightarrow>
       x \<noteq> ino \<and> ext2fs_test_inode_bitmap2 (Some b) x \<noteq> 0"
proof -
  have inv: "gb_inv b" and v: "gb_valid b (ucast ino)" using assms by (auto simp: bm_ok_def)
  note m = gb_marks [OF inv, of "ucast ino"] and t = gb_marks [OF inv, of "ucast x"]
  show "bm_ok num (gb_mark (ucast ino) b)" "bm_ok num (gb_unmark (ucast ino) b)"
    using assms(1) m by (auto simp: bm_ok_def)
  have "gb_inv (gb_mark (ucast ino) b)" "gb_inv (gb_unmark (ucast ino) b)" using m by auto
  note t' = gb_marks [OF this(1), of "ucast x"] gb_marks [OF this(2), of "ucast x"]
  show "ext2fs_test_inode_bitmap2 (Some (gb_mark (ucast ino) b)) x \<noteq> 0 \<longleftrightarrow>
      x = ino \<or> ext2fs_test_inode_bitmap2 (Some b) x \<noteq> 0"
    using m t t' v unfolding ext2fs_test_inode_bitmap2_def by (simp add: ucast_u32_inj)
  show "ext2fs_test_inode_bitmap2 (Some (gb_unmark (ucast ino) b)) x \<noteq> 0 \<longleftrightarrow>
      x \<noteq> ino \<and> ext2fs_test_inode_bitmap2 (Some b) x \<noteq> 0"
    using m t t' unfolding ext2fs_test_inode_bitmap2_def by (simp add: ucast_u32_inj conj_commute)
qed

lemmas ic_marks = mark_single_def unmark_single_def mark_multiple_def unmark_multiple_def
  ext2fs_mark_inode_bitmap2_def ext2fs_unmark_inode_bitmap2_def snd_mark_generic

lemma il_inv_bitmaps [simp]:
  "il_inv (mark_single ic ino) = il_inv ic" "il_inv (unmark_single ic ino) = il_inv ic"
  "il_inv (mark_multiple ic ino) = il_inv ic" "il_inv (unmark_multiple ic ino) = il_inv ic"
  "list_val (mark_single ic ino) = list_val ic" "list_val (unmark_single ic ino) = list_val ic"
  "list_val (mark_multiple ic ino) = list_val ic" "list_val (unmark_multiple ic ino) = list_val ic"
  "ic_num_inodes (mark_single ic ino) = ic_num_inodes ic" "ic_num_inodes (unmark_single ic ino) = ic_num_inodes ic"
  "ic_num_inodes (mark_multiple ic ino) = ic_num_inodes ic" "ic_num_inodes (unmark_multiple ic ino) = ic_num_inodes ic"
  "ic_multiple (mark_single ic ino) = ic_multiple ic" "ic_multiple (unmark_single ic ino) = ic_multiple ic"
  "ic_single (mark_multiple ic ino) = ic_single ic" "ic_single (unmark_multiple ic ino) = ic_single ic"
  "ic_magic (mark_single ic ino) = ic_magic ic" "ic_magic (unmark_single ic ino) = ic_magic ic"
  "ic_magic (mark_multiple ic ino) = ic_magic ic" "ic_magic (unmark_multiple ic ino) = ic_magic ic"
  by (simp_all add: ic_marks il_inv_def ic_elems_def list_val_def fun_eq_iff)

lemma ic_bits:
  assumes "icount_inv ic" "0 < ino" "ino \<le> ic_num_inodes ic"
  shows "icount_inv (mark_single ic ino)" "icount_inv (unmark_single ic ino)"
    "icount_inv (mark_multiple ic ino)" "icount_inv (unmark_multiple ic ino)"
    "in_single (mark_single ic ino) x \<longleftrightarrow> x = ino \<or> in_single ic x"
    "in_single (unmark_single ic ino) x \<longleftrightarrow> x \<noteq> ino \<and> in_single ic x"
    "in_single (mark_multiple ic ino) x = in_single ic x"
    "in_single (unmark_multiple ic ino) x = in_single ic x"
    "in_multiple (mark_single ic ino) x = in_multiple ic x"
    "in_multiple (unmark_single ic ino) x = in_multiple ic x"
    "ic_multiple ic \<noteq> None \<Longrightarrow> in_multiple (mark_multiple ic ino) x \<longleftrightarrow> x = ino \<or> in_multiple ic x"
    "ic_multiple ic \<noteq> None \<Longrightarrow> in_multiple (unmark_multiple ic ino) x \<longleftrightarrow> x \<noteq> ino \<and> in_multiple ic x"
    "ic_multiple (mark_multiple ic ino) = None \<longleftrightarrow> ic_multiple ic = None"
    "ic_multiple (unmark_multiple ic ino) = None \<longleftrightarrow> ic_multiple ic = None"
proof -
  have ok: "bm_ok (ic_num_inodes ic) (ic_single ic)"
    "\<And>b. ic_multiple ic = Some b \<Longrightarrow> bm_ok (ic_num_inodes ic) b" using assms(1) by (auto simp: icount_inv_def)
  note s = bm_ok_upd [OF ok(1) assms(2,3)] and m = bm_ok_upd [OF ok(2) assms(2,3)]
  have none: "snd (ext2fs_mark_generic_bmap None n) = None" "snd (ext2fs_unmark_generic_bmap None n) = None" for n
    by (simp_all add: ext2fs_mark_generic_bmap_def ext2fs_unmark_generic_bmap_def)
  show "icount_inv (mark_single ic ino)" "icount_inv (unmark_single ic ino)"
    using assms(1) s(1,2) by (auto simp: icount_inv_def) (simp_all add: ic_marks)
  show "ic_multiple (mark_multiple ic ino) = None \<longleftrightarrow> ic_multiple ic = None"
    "ic_multiple (unmark_multiple ic ino) = None \<longleftrightarrow> ic_multiple ic = None"
    using none by (cases "ic_multiple ic"; simp add: ic_marks)+
  show "icount_inv (mark_multiple ic ino)" "icount_inv (unmark_multiple ic ino)"
    using assms(1) m(1,2) none by (cases "ic_multiple ic"; auto simp: icount_inv_def; simp add: ic_marks)+
  show "in_single (mark_single ic ino) x \<longleftrightarrow> x = ino \<or> in_single ic x"
    "in_single (unmark_single ic ino) x \<longleftrightarrow> x \<noteq> ino \<and> in_single ic x"
    using s(3,4) by (simp_all add: in_single_def ic_marks)
  show "in_single (mark_multiple ic ino) x = in_single ic x"
    "in_single (unmark_multiple ic ino) x = in_single ic x"
    "in_multiple (mark_single ic ino) x = in_multiple ic x"
    "in_multiple (unmark_single ic ino) x = in_multiple ic x"
    by (simp_all add: in_single_def in_multiple_def)
  have m34: "in_multiple (mark_multiple ic ino) x \<longleftrightarrow> x = ino \<or> in_multiple ic x"
    "in_multiple (unmark_multiple ic ino) x \<longleftrightarrow> x \<noteq> ino \<and> in_multiple ic x" if "ic_multiple ic = Some b" for b
    using m(3,4) [OF that] by (simp_all add: in_multiple_def ic_marks that)
  then show "ic_multiple ic \<noteq> None \<Longrightarrow> in_multiple (mark_multiple ic ino) x \<longleftrightarrow> x = ino \<or> in_multiple ic x"
    "ic_multiple ic \<noteq> None \<Longrightarrow> in_multiple (unmark_multiple ic ino) x \<longleftrightarrow> x \<noteq> ino \<and> in_multiple ic x"
    by blast+
qed

text \<open>A step of the list keeps the bitmaps.\<close>

lemma ic_frame_bits:
  assumes "ic_frame ic' = ic_frame ic"
  shows "in_single ic' x = in_single ic x" "in_multiple ic' x = in_multiple ic x"
    "ic_multiple ic' = ic_multiple ic" "ic_num_inodes ic' = ic_num_inodes ic" "ic_magic ic' = ic_magic ic"
    "icount_inv ic \<Longrightarrow> il_inv ic' \<Longrightarrow> icount_inv ic'"
  using assms by (auto simp: ic_frame_def in_single_def in_multiple_def icount_inv_def)

section \<open>The operations on a function from inodes to counts\<close>

datatype icount_op = Fetch u32 | Increment u32 | Decrement u32 | Store u32 u16

fun icount_step ::
  "icount_el heap \<Rightarrow> (u32 \<Rightarrow> u32 \<Rightarrow> u32 \<Rightarrow> u32) \<Rightarrow> icount \<Rightarrow> icount_op \<Rightarrow> u16 result \<times> icount" where
  "icount_step h scale ic (Fetch ino) = ext2fs_icount_fetch ic ino"
| "icount_step h scale ic (Increment ino) = ext2fs_icount_increment h scale ic ino"
| "icount_step h scale ic (Decrement ino) = ext2fs_icount_decrement h scale ic ino"
| "icount_step h scale ic (Store ino c) = apfst (map_sum id (\<lambda>_. c)) (ext2fs_icount_store h scale ic ino c)"

fun op_ino :: "icount_op \<Rightarrow> u32" where
  "op_ino (Fetch ino) = ino"
| "op_ino (Increment ino) = ino"
| "op_ino (Decrement ino) = ino"
| "op_ino (Store ino c) = ino"

fun counts_step :: "(u32 \<Rightarrow> u32) \<Rightarrow> icount_op \<Rightarrow> u16 result \<times> (u32 \<Rightarrow> u32)" where
  "counts_step v (Fetch ino) = (Inr (icount_16_xlate (v ino)), v)"
| "counts_step v (Increment ino) = (Inr (icount_16_xlate (v ino + 1)), v(ino := v ino + 1))"
| "counts_step v (Decrement ino) =
     (if v ino = 0 then (Inl EXT2_ET_INVALID_ARGUMENT, v)
      else (Inr (icount_16_xlate (v ino - 1)), v(ino := v ino - 1)))"
| "counts_step v (Store ino c) = (Inr c, v(ino := ucast c))"

lemma val_single: "in_single ic ino \<Longrightarrow> icount_val ic ino = 1"
  by (simp add: icount_val_def)

lemma store_step:
  assumes inv: "icount_inv ic" and sc: "scale_ok scale" and ino: "0 < ino" "ino \<le> ic_num_inodes ic"
    and r: "set_inode_count h scale ic ino c = (e, ic')"
  shows "icount_inv ic'" "ic_frame ic' = ic_frame ic"
    "e = None \<Longrightarrow> list_val ic' = (list_val ic)(ino := c)"
    "e \<noteq> None \<Longrightarrow> list_val ic' = list_val ic \<and> list_val ic ino = 0"
proof -
  have il: "il_inv ic" using inv by (simp add: icount_inv_def)
  have k: "icount_key (ic_frame ic) ino" using ino by (simp add: icount_key_def ic_frame_def)
  have "set_entry (h, scale) ic ino c = (e, ic')" using r by (simp add: set_entry_def)
  from il.put [OF il _ k this] sc
  have p: "il_inv ic' \<and> ic_frame ic' = ic_frame ic \<and>
      (case e of None \<Rightarrow> list_val ic' = (list_val ic)(ino := c) | Some _ \<Rightarrow> list_val ic' = list_val ic \<and> list_val ic ino = 0)"
    by simp
  then show "ic_frame ic' = ic_frame ic" "icount_inv ic'" using ic_frame_bits(6) [of ic' ic] inv by auto
  show "e = None \<Longrightarrow> list_val ic' = (list_val ic)(ino := c)"
    "e \<noteq> None \<Longrightarrow> list_val ic' = list_val ic \<and> list_val ic ino = 0"
    using p by (auto split: option.splits)
qed

lemma load_step:
  assumes inv: "icount_inv ic" and ino: "0 < ino" "ino \<le> ic_num_inodes ic"
    and r: "get_inode_count ic ino = (v, ic')"
  shows "icount_inv ic'" "ic_frame ic' = ic_frame ic" "list_val ic' = list_val ic" "v = list_val ic ino"
proof -
  have il: "il_inv ic" using inv by (simp add: icount_inv_def)
  have k: "icount_key (ic_frame ic) ino" using ino by (simp add: icount_key_def ic_frame_def)
  note g = il.get [OF il k r]
  then show "ic_frame ic' = ic_frame ic" "icount_inv ic'" "list_val ic' = list_val ic" "v = list_val ic ino"
    using ic_frame_bits(6) [of ic' ic] inv by auto
qed

lemma fetch_refines:
  assumes inv: "icount_inv ic" and ino: "0 < ino" "ino \<le> ic_num_inodes ic"
    and r: "ext2fs_icount_fetch ic ino = (r, ic')"
  shows "icount_inv ic' \<and> ic_num_inodes ic' = ic_num_inodes ic \<and>
    (r, icount_val ic') = counts_step (icount_val ic) (Fetch ino)"
proof -
  have magic: "ic_magic ic = EXT2_ET_MAGIC_ICOUNT" using inv by (simp add: icount_inv_def)
  have arg: "\<not> (ino = 0 \<or> ino > ic_num_inodes ic)" using ino by auto
  have x: "icount_16_xlate 1 = 1" "icount_16_xlate 0 = 0" by (simp_all add: icount_16_xlate_def)
  consider (single) "in_single ic ino" | (zero) "\<not> in_single ic ino" "ic_multiple ic \<noteq> None" "\<not> in_multiple ic ino"
    | (listed) "\<not> in_single ic ino" "\<not> (ic_multiple ic \<noteq> None \<and> \<not> in_multiple ic ino)" by blast
  then show ?thesis
  proof cases
    case listed
    obtain v t where g: "get_inode_count ic ino = (v, t)" by fastforce
    note l = load_step [OF inv ino g]
    have "r = Inr (icount_16_xlate v)" "ic' = t"
      using r listed magic arg g by (auto simp: ext2fs_icount_fetch_def)
    moreover have "icount_val t = icount_val ic" unfolding icount_val_def ic_frame_bits(1-3) [OF l(2)] l(3) ..
    ultimately show ?thesis
      using l ic_frame_bits(4) [OF l(2)] listed by (auto simp: icount_val_def)
  qed (use r inv magic arg x in \<open>auto simp: ext2fs_icount_fetch_def icount_val_def\<close>)
qed

text \<open>A write of a list entry, seen at the counts, once the bitmaps point to the list.\<close>

lemma val_listed:
  assumes "\<forall>x. in_single ic x \<longleftrightarrow> x \<noteq> ino \<and> in_single ic0 x"
    "ic_multiple ic = None \<longleftrightarrow> ic_multiple ic0 = None"
    "ic_multiple ic0 \<noteq> None \<Longrightarrow> \<forall>x. in_multiple ic x \<longleftrightarrow> x = ino \<or> in_multiple ic0 x"
    "list_val ic = (list_val ic0)(ino := c)"
  shows "icount_val ic = (icount_val ic0)(ino := c)"
  using assms by (cases "ic_multiple ic0 = None") (auto simp: icount_val_def fun_eq_iff)

lemma increment_refines:
  assumes inv: "icount_inv ic" and sc: "scale_ok scale" and ino: "0 < ino" "ino \<le> ic_num_inodes ic"
    and r: "ext2fs_icount_increment h scale ic ino = (r, ic')"
  shows "icount_inv ic' \<and> ic_num_inodes ic' = ic_num_inodes ic \<and>
    ((r, icount_val ic') = counts_step (icount_val ic) (Increment ino) \<or>
     r = Inl EXT2_ET_NO_MEMORY \<and> icount_val ic' = icount_val ic)"
proof -
  have magic: "ic_magic ic = EXT2_ET_MAGIC_ICOUNT" using inv by (simp add: icount_inv_def)
  have arg: "\<not> (ino = 0 \<or> ino > ic_num_inodes ic)" using ino by auto
  have x: "icount_16_xlate 1 = 1" by (simp add: icount_16_xlate_def)
  have keep: "icount_val t = icount_val ic" if "ic_frame t = ic_frame ic" "list_val t = list_val ic" for t
    unfolding icount_val_def ic_frame_bits(1-3) [OF that(1)] that(2) ..
  consider (single) "in_single ic ino"
    | (zero) "\<not> in_single ic ino" "ic_multiple ic \<noteq> None" "\<not> in_multiple ic ino"
    | (listed) "\<not> in_single ic ino" "\<not> (ic_multiple ic \<noteq> None \<and> \<not> in_multiple ic ino)" by blast
  then show ?thesis
  proof cases
    case single
    obtain e t where p: "set_inode_count h scale ic ino 2 = (e, t)" by fastforce
    note s = store_step [OF inv sc ino p] and f = ic_frame_bits [OF store_step(2) [OF inv sc ino p]]
    show ?thesis
    proof (cases e)
      case None
      let ?u = "unmark_single t ino"
      let ?w = "if ic_multiple ?u \<noteq> None then mark_multiple ?u ino else ?u"
      have w: "r = Inr (icount_16_xlate 2)" "ic' = ?w"
        using r single magic arg p None by (auto simp: ext2fs_icount_increment_def increment_done_def)
      have ino': "ino \<le> ic_num_inodes t" "ino \<le> ic_num_inodes ?u" using ino f(4) by simp_all
      note b = ic_bits [OF s(1) ino(1) ino'(1)]
      note b' = ic_bits [OF b(2) ino(1) ino'(2)]
      have "icount_inv ?w" "ic_num_inodes ?w = ic_num_inodes ic" using b b' f(4) by auto
      moreover have "icount_val ?w = (icount_val ic)(ino := 2)"
        using s(3) None b b' f(1-3) by (intro val_listed) auto
      ultimately show ?thesis using w val_single [OF single] by simp
    next
      case (Some e')
      then have "r = Inl EXT2_ET_NO_MEMORY" "ic' = t"
        using r single magic arg p by (auto simp: ext2fs_icount_increment_def)
      then show ?thesis using s f keep [of t] Some by auto
    qed
  next
    case zero
    have "r = Inr 1" "ic' = mark_single ic ino"
      using r zero magic arg by (auto simp: ext2fs_icount_increment_def)
    moreover have "icount_val ic ino = 0" using zero by (simp add: icount_val_def)
    moreover have "icount_val (mark_single ic ino) = (icount_val ic)(ino := 1)"
      using ic_bits [OF inv ino] by (auto simp: icount_val_def fun_eq_iff)
    ultimately show ?thesis using ic_bits [OF inv ino] x by simp
  next
    case listed
    obtain v u where g: "get_inode_count ic ino = (v, u)" by fastforce
    note l = load_step [OF inv ino g] and fu = ic_frame_bits [OF load_step(2) [OF inv ino g]]
    obtain e t where p: "set_inode_count h scale u ino (v + 1) = (e, t)" by fastforce
    have inou: "ino \<le> ic_num_inodes u" using ino fu(4) by simp
    note s = store_step [OF l(1) sc ino(1) inou p] and f = ic_frame_bits [OF store_step(2) [OF l(1) sc ino(1) inou p]]
    have v: "v = icount_val ic ino" using l(4) listed by (auto simp: icount_val_def)
    have inc: "ext2fs_icount_increment h scale ic ino = increment_done (e, t) ino (v + 1)"
      using listed magic arg g p by (auto simp: ext2fs_icount_increment_def)
    show ?thesis
    proof (cases e)
      case None
      let ?w = "if ic_multiple t \<noteq> None then mark_multiple t ino else t"
      have w: "r = Inr (icount_16_xlate (v + 1))" "ic' = ?w"
        using r inc None by (auto simp: increment_done_def)
      have ino': "ino \<le> ic_num_inodes t" using inou f(4) by simp
      note b = ic_bits [OF s(1) ino(1) ino']
      have "icount_inv ?w" "ic_num_inodes ?w = ic_num_inodes ic" using b s(1) f(4) fu(4) by auto
      moreover have "icount_val ?w = (icount_val ic)(ino := v + 1)"
        using s(3) None l(3) b f(1-3) fu(1-3) listed by (intro val_listed) auto
      ultimately show ?thesis using w v by simp
    next
      case (Some e')
      then have "r = Inl EXT2_ET_NO_MEMORY" "ic' = t" using r inc by (auto simp: increment_done_def)
      moreover have "ic_frame t = ic_frame ic" "list_val t = list_val ic" using s l Some by auto
      ultimately show ?thesis using s(1) f(4) fu(4) keep [of t] by simp
    qed
  qed
qed

lemma val_zeroed:
  assumes "\<forall>x. in_single ic x \<longleftrightarrow> x \<noteq> ino \<and> in_single ic0 x"
    "ic_multiple ic = None \<longleftrightarrow> ic_multiple ic0 = None"
    "ic_multiple ic0 \<noteq> None \<Longrightarrow> (\<forall>x. in_multiple ic x \<longleftrightarrow> x \<noteq> ino \<and> in_multiple ic0 x)"
    "\<forall>x. x \<noteq> ino \<longrightarrow> list_val ic x = list_val ic0 x"
    "ic_multiple ic0 = None \<Longrightarrow> list_val ic ino = 0"
  shows "icount_val ic = (icount_val ic0)(ino := 0)"
  using assms by (cases "ic_multiple ic0 = None") (auto simp: icount_val_def fun_eq_iff)

lemma inos_ascend_iff: "inos_ascend l \<longleftrightarrow> sorted_wrt (<) (map el_ino l)"
proof (induction l rule: inos_ascend.induct)
  case (1 a b l)
  then show ?case by (auto dest: less_trans)
qed auto

lemma icount_inv_validate: "icount_inv ic \<Longrightarrow> ext2fs_icount_validate ic = Inr ()"
  by (simp add: ext2fs_icount_validate_def icount_inv_def il_inv_def inos_ascend_iff ic_elems_def not_less)

text \<open>What decrement and store do to bring a count to zero.\<close>

lemma zero_refines:
  assumes inv: "icount_inv ic" and sc: "scale_ok scale" and ino: "0 < ino" "ino \<le> ic_num_inodes ic"
    and w: "w = (if ic_multiple (unmark_single ic ino) \<noteq> None then unmark_multiple (unmark_single ic ino) ino
          else snd (set_inode_count h scale (unmark_single ic ino) ino 0))"
  shows "icount_inv w" "ic_num_inodes w = ic_num_inodes ic" "icount_val w = (icount_val ic)(ino := 0)"
proof -
  let ?u = "unmark_single ic ino"
  have inou: "ino \<le> ic_num_inodes ?u" using ino by simp
  note b = ic_bits [OF inv ino] and b' = ic_bits [OF ic_bits(2) [OF inv ino] ino(1) inou]
  obtain e t where p: "set_inode_count h scale ?u ino 0 = (e, t)" by fastforce
  note s = store_step [OF b(2) sc ino(1) inou p]
  note f = ic_frame_bits [OF s(2)]
  have lv: "list_val t = (list_val ic)(ino := 0)" using s(3,4) by (cases e) (auto simp: fun_eq_iff)
  show "icount_inv w" "ic_num_inodes w = ic_num_inodes ic" using w b' s(1) f(4) p by auto
  show "icount_val w = (icount_val ic)(ino := 0)"
  proof (cases "ic_multiple ic = None")
    case True
    then have "w = t" using w p by simp
    then show ?thesis using True lv b f by (intro val_zeroed) auto
  next
    case False
    then have "w = unmark_multiple ?u ino" using w by simp
    then show ?thesis using False b b' by (intro val_zeroed) auto
  qed
qed

lemma decrement_refines:
  assumes inv: "icount_inv ic" and sc: "scale_ok scale" and ino: "0 < ino" "ino \<le> ic_num_inodes ic"
    and r: "ext2fs_icount_decrement h scale ic ino = (r, ic')"
  shows "icount_inv ic' \<and> ic_num_inodes ic' = ic_num_inodes ic \<and>
    ((r, icount_val ic') = counts_step (icount_val ic) (Decrement ino) \<or>
     r = Inl EXT2_ET_NO_MEMORY \<and> icount_val ic' = icount_val ic)"
proof -
  have magic: "ic_magic ic = EXT2_ET_MAGIC_ICOUNT" using inv by (simp add: icount_inv_def)
  have arg: "\<not> (ino = 0 \<or> ino > ic_num_inodes ic)" using ino by auto
  have x: "icount_16_xlate 0 = 0" by (simp add: icount_16_xlate_def)
  have keep: "icount_val t = icount_val ic" if "ic_frame t = ic_frame ic" "list_val t = list_val ic" for t
    unfolding icount_val_def ic_frame_bits(1-3) [OF that(1)] that(2) ..
  consider (single) "in_single ic ino"
    | (zero) "\<not> in_single ic ino" "ic_multiple ic \<noteq> None" "\<not> in_multiple ic ino"
    | (listed) "\<not> in_single ic ino" "\<not> (ic_multiple ic \<noteq> None \<and> \<not> in_multiple ic ino)" by blast
  then show ?thesis
  proof cases
    case single
    have w: "r = Inr 0" "ic' = (if ic_multiple (unmark_single ic ino) \<noteq> None
        then unmark_multiple (unmark_single ic ino) ino
        else snd (set_inode_count h scale (unmark_single ic ino) ino 0))"
      using r single magic arg by (auto simp: ext2fs_icount_decrement_def Let_def)
    show ?thesis using zero_refines [OF inv sc ino w(2)] w(1) val_single [OF single] x by simp
  next
    case zero
    then have "r = Inl EXT2_ET_INVALID_ARGUMENT" "ic' = ic"
      using r magic arg by (auto simp: ext2fs_icount_decrement_def)
    then show ?thesis using zero inv by (simp add: icount_val_def)
  next
    case listed
    obtain v u where g: "get_inode_count ic ino = (v, u)" by fastforce
    note l = load_step [OF inv ino g]
    note fu = ic_frame_bits [OF l(2)]
    have v: "v = icount_val ic ino" using l(4) listed by (auto simp: icount_val_def)
    show ?thesis
    proof (cases "v = 0")
      case True
      then have "r = Inl EXT2_ET_INVALID_ARGUMENT" "ic' = u"
        using r listed magic arg g by (auto simp: ext2fs_icount_decrement_def)
      then show ?thesis using True v l fu(4) keep [of u] by simp
    next
      case False
      obtain e t where p: "set_inode_count h scale u ino (v - 1) = (e, t)" by fastforce
      have inou: "ino \<le> ic_num_inodes u" using ino fu(4) by simp
      note s = store_step [OF l(1) sc ino(1) inou p]
      note f = ic_frame_bits [OF s(2)]
      show ?thesis
      proof (cases e)
        case None
        let ?a = "if v - 1 = 1 then mark_single t ino else t"
        let ?w = "if v - 1 = 0 \<and> ic_multiple ?a \<noteq> None then unmark_multiple ?a ino else ?a"
        have w: "r = Inr (icount_16_xlate (v - 1))" "ic' = ?w"
          using r listed magic arg g p None False by (auto simp: ext2fs_icount_decrement_def Let_def)
        have inot: "ino \<le> ic_num_inodes t" using inou f(4) by simp
        note b = ic_bits [OF s(1) ino(1) inot]
        have "icount_inv ?w" "ic_num_inodes ?w = ic_num_inodes ic"
          using b s(1) f(4) fu(4) by auto
        moreover have "icount_val ?w = (icount_val ic)(ino := v - 1)"
        proof -
          have lv: "list_val t = (list_val ic)(ino := v - 1)" using s(3) None l(3) by simp
          consider (one) "v - 1 = 1" | (zero) "v - 1 = 0" | (more) "v - 1 \<noteq> 1" "v - 1 \<noteq> 0" by blast
          then show ?thesis
          proof cases
            case one
            have "?w = mark_single t ino" unfolding one by simp
            moreover have "icount_val (mark_single t ino) = (icount_val ic)(ino := 1)"
              using lv b f(1-3) fu(1-3) by (auto simp: icount_val_def fun_eq_iff)
            ultimately show ?thesis by (simp only: one)
          next
            case zero
            have "?w = (if ic_multiple t \<noteq> None then unmark_multiple t ino else t)"
              unfolding zero by simp
            moreover have "icount_val (if ic_multiple t \<noteq> None then unmark_multiple t ino else t) =
                (icount_val ic)(ino := 0)"
              using lv [unfolded zero] b f(1-3) fu(1-3) listed by (intro val_zeroed) auto
            ultimately show ?thesis by (simp only: zero)
          next
            case more
            then have "?w = t" by (simp only: if_False simp_thms)
            moreover have "icount_val t = (icount_val ic)(ino := v - 1)"
              using lv f(1-3) fu(1-3) listed by (intro val_listed) auto
            ultimately show ?thesis by simp
          qed
        qed
        ultimately show ?thesis using w v False by simp
      next
        case (Some e')
        then have "r = Inl EXT2_ET_NO_MEMORY" "ic' = t"
          using r listed magic arg g p False by (auto simp: ext2fs_icount_decrement_def Let_def)
        moreover have "ic_frame t = ic_frame ic" "list_val t = list_val ic" using s l Some by auto
        ultimately show ?thesis using s(1) f(4) fu(4) keep [of t] by simp
      qed
    qed
  qed
qed

lemma store_refines:
  assumes inv: "icount_inv ic" and sc: "scale_ok scale" and ino: "0 < ino" "ino \<le> ic_num_inodes ic"
    and r: "ext2fs_icount_store h scale ic ino c = (r, ic')"
  shows "icount_inv ic' \<and> ic_num_inodes ic' = ic_num_inodes ic \<and>
    (r = Inr () \<and> icount_val ic' = (icount_val ic)(ino := ucast c) \<or>
     r = Inl EXT2_ET_NO_MEMORY \<and> icount_val ic' = icount_val ic)"
proof -
  have magic: "ic_magic ic = EXT2_ET_MAGIC_ICOUNT" using inv by (simp add: icount_inv_def)
  have arg: "\<not> (ino = 0 \<or> ino > ic_num_inodes ic)" using ino by auto
  consider (one) "c = 1" | (zero) "c = 0" | (more) "c \<noteq> 1" "c \<noteq> 0" by blast
  then show ?thesis
  proof cases
    case one
    let ?m = "mark_single ic ino"
    let ?w = "if ic_multiple ?m \<noteq> None then unmark_multiple ?m ino else ?m"
    have w: "r = Inr ()" "ic' = ?w" using r one magic arg by (auto simp: ext2fs_icount_store_def Let_def)
    have ino': "ino \<le> ic_num_inodes ?m" using ino by simp
    note b = ic_bits [OF inv ino]
    note b' = ic_bits [OF b(1) ino(1) ino']
    have "icount_inv ?w" "ic_num_inodes ?w = ic_num_inodes ic" using b b' by auto
    moreover have "icount_val ?w = (icount_val ic)(ino := 1)"
      using b b' by (auto simp: icount_val_def fun_eq_iff)
    ultimately show ?thesis using w one by simp
  next
    case zero
    have w: "r = Inr ()" "ic' = (if ic_multiple (unmark_single ic ino) \<noteq> None
        then unmark_multiple (unmark_single ic ino) ino
        else snd (set_inode_count h scale (unmark_single ic ino) ino 0))"
      using r zero magic arg by (auto simp: ext2fs_icount_store_def Let_def)
    show ?thesis using zero_refines [OF inv sc ino w(2)] w(1) zero by simp
  next
    case more
    obtain e t where p: "set_inode_count h scale ic ino (ucast c) = (e, t)" by fastforce
    note s = store_step [OF inv sc ino p]
    note f = ic_frame_bits [OF s(2)]
    show ?thesis
    proof (cases e)
      case None
      let ?u = "unmark_single t ino"
      let ?w = "if ic_multiple ?u \<noteq> None then mark_multiple ?u ino else ?u"
      have w: "r = Inr ()" "ic' = ?w"
        using r more magic arg p None by (auto simp: ext2fs_icount_store_def Let_def)
      have ino': "ino \<le> ic_num_inodes t" "ino \<le> ic_num_inodes ?u" using ino f(4) by simp_all
      note b = ic_bits [OF s(1) ino(1) ino'(1)]
      note b' = ic_bits [OF b(2) ino(1) ino'(2)]
      have "icount_inv ?w" "ic_num_inodes ?w = ic_num_inodes ic" using b b' f(4) by auto
      moreover have "icount_val ?w = (icount_val ic)(ino := ucast c)"
        using s(3) None b b' f(1-3) by (intro val_listed) auto
      ultimately show ?thesis using w by simp
    next
      case (Some e')
      then have "r = Inl EXT2_ET_NO_MEMORY" "ic' = t"
        using r more magic arg p by (auto simp: ext2fs_icount_store_def Let_def)
      moreover have "icount_val t = icount_val ic"
      proof -
        have lv: "list_val t = list_val ic" using s(4) Some by simp
        show ?thesis unfolding icount_val_def ic_frame_bits(1-3) [OF s(2)] lv ..
      qed
      ultimately show ?thesis using s(1) f(4) by simp
    qed
  qed
qed

text \<open>
  C19. The inode counts of a file system with less than \<open>2 ^ 28 - 100\<close> inodes (so that the size of
  the list fits 32 bits) are a plain function from inodes to counts: fetch, increment, decrement
  and store return and do what they do to that function, for every inode of the file system,
  with and without the second bitmap, however stale the sorted list is; the invariant of
  the representation is kept. The only other outcome is that memory runs out, and then no
  count has changed. An inode number out of range is refused without effect.
\<close>

theorem icount_refines_counts:
  assumes "icount_inv ic" "scale_ok scale" "icount_step h scale ic op = (r, ic')"
  shows "icount_inv ic' \<and> ic_num_inodes ic' = ic_num_inodes ic \<and> ext2fs_icount_validate ic' = Inr () \<and>
    (if op_ino op = 0 \<or> ic_num_inodes ic < op_ino op
     then r = Inl EXT2_ET_INVALID_ARGUMENT \<and> ic' = ic
     else (r, icount_val ic') = counts_step (icount_val ic) op \<or>
       r = Inl EXT2_ET_NO_MEMORY \<and> icount_val ic' = icount_val ic)"
proof -
  have magic: "ic_magic ic = EXT2_ET_MAGIC_ICOUNT" using assms(1) by (simp add: icount_inv_def)
  have "icount_inv ic' \<and> ic_num_inodes ic' = ic_num_inodes ic \<and>
    (if op_ino op = 0 \<or> ic_num_inodes ic < op_ino op
     then r = Inl EXT2_ET_INVALID_ARGUMENT \<and> ic' = ic
     else (r, icount_val ic') = counts_step (icount_val ic) op \<or>
       r = Inl EXT2_ET_NO_MEMORY \<and> icount_val ic' = icount_val ic)"
  proof (cases "op_ino op = 0 \<or> ic_num_inodes ic < op_ino op")
    case True
    then show ?thesis
      using assms(1,3) magic
      by (cases op) (auto simp: ext2fs_icount_fetch_def ext2fs_icount_increment_def
          ext2fs_icount_decrement_def ext2fs_icount_store_def)
  next
    case False
    then have ino: "0 < op_ino op" "op_ino op \<le> ic_num_inodes ic" by (auto simp: word_gt_0)
    show ?thesis
    proof (cases op)
      case (Fetch ino)
      then show ?thesis using fetch_refines [OF assms(1), of ino r ic'] ino False assms(3) by simp
    next
      case (Increment ino)
      then show ?thesis using increment_refines [OF assms(1,2), of ino h r ic'] ino False assms(3) by simp
    next
      case (Decrement ino)
      then show ?thesis
        using decrement_refines [OF assms(1,2), of ino h r ic'] ino False assms(3) by (simp del: counts_step.simps)
    next
      case (Store ino c)
      obtain q t where q: "ext2fs_icount_store h scale ic ino c = (q, t)" by fastforce
      then show ?thesis
        using store_refines [OF assms(1,2), of ino h c q t] ino False assms(3) Store by auto
    qed
  qed
  moreover from this have "ext2fs_icount_validate ic' = Inr ()" using icount_inv_validate by blast
  ultimately show ?thesis by blast
qed

section \<open>Creation establishes the invariant\<close>

text \<open>
  The file system the counts are for: enough inodes in its groups, and few enough for the list
  of counts never to need 4 GiB.
\<close>

definition icount_fs_ok :: "filsys \<Rightarrow> bool" where
  "icount_fs_ok fs \<longleftrightarrow>
     (let s = fs_super fs in 0 < s_inodes_count s \<and>
        unat (s_inodes_count s) \<le> unat (s_inodes_per_group s) * unat (fs_group_desc_count fs) \<and>
        unat (s_inodes_per_group s) * unat (fs_group_desc_count fs) < 2 ^ 32 \<and>
        unat (s_inodes_count s) + 100 < 2 ^ 28)"

lemma fresh_bm_ok:
  assumes "icount_fs_ok fs" "ext2fs_allocate_inode_bitmap h fs d = Inr bm"
  shows "bm_ok (s_inodes_count (fs_super fs)) bm" "ext2fs_test_inode_bitmap2 (Some bm) ino = 0"
proof -
  have f: "gb_inv bm \<and> gb_elems bm = {} \<and>
      (\<forall>n. gb_valid bm n \<longleftrightarrow> 1 \<le> n \<and> n \<le> ucast (s_inodes_count (fs_super fs)))"
    using assms by (intro fresh_inode_bitmap) (auto simp: icount_fs_ok_def Let_def)
  have "gb_valid bm (ucast i)" if "0 < i" "i \<le> s_inodes_count (fs_super fs)" for i
  proof -
    have "(1 :: u64) \<le> ucast i" "(ucast i :: u64) \<le> ucast (s_inodes_count (fs_super fs))"
      using that by (auto simp: word_le_nat_alt word_less_nat_alt)
    then show ?thesis using f by blast
  qed
  then show "bm_ok (s_inodes_count (fs_super fs)) bm" using f by (auto simp: bm_ok_def)
  show "ext2fs_test_inode_bitmap2 (Some bm) ino = 0"
    using gb_marks [of bm "ucast ino"] f by (simp add: ext2fs_test_inode_bitmap2_def)
qed

text \<open>
  C20. A new inode count object has the count zero for every inode, whether it starts empty or
  with the inode numbers of an older object as a hint, and satisfies the invariant on which
  the operations rely, as long as the list fits the address space.
\<close>

theorem create_icount_all_zero:
  assumes "icount_fs_ok fs" "ext2fs_create_icount2 h hl fs flags sz hint = Inr ic" "unat (ic_size ic) < 2 ^ 29"
    and "\<And>i. hint = Some i \<Longrightarrow> icount_inv i \<and> ic_num_inodes i \<le> s_inodes_count (fs_super fs)"
  shows "icount_inv ic \<and> ic_num_inodes ic = s_inodes_count (fs_super fs) \<and> (\<forall>ino. icount_val ic ino = 0)"
proof -
  let ?n = "s_inodes_count (fs_super fs)"
  obtain ic0 where ic0: "alloc_icount h fs flags = Inr ic0"
    and ic: "ic_single ic = ic_single ic0" "ic_multiple ic = ic_multiple ic0" "ic_magic ic = ic_magic ic0"
      "ic_num_inodes ic = ic_num_inodes ic0" "ic_last_lookup ic = None"
      "ic_count ic = (case hint of Some i \<Rightarrow> ic_count i | None \<Rightarrow> 0)"
      "ic_size ic \<ge> (case hint of Some i \<Rightarrow> ic_size i | None \<Rightarrow> 0)"
      "ic_list ic = (let l = replicate (unat (ic_size ic)) \<lparr>el_ino = 0, el_count = 0\<rparr> in
         case hint of None \<Rightarrow> l
         | Some i \<Rightarrow> map (\<lambda>e. \<lparr>el_ino = el_ino e, el_count = 0\<rparr>) (take (unat (ic_count i)) (ic_list i)) @
             drop (unat (ic_count i)) l)"
    using assms(2)
    by (cases hint) (auto simp: ext2fs_create_icount2_def alloc_icount_def Let_def word_gt_0
        split: sum.splits if_splits)
  have parts: "ext2fs_allocate_inode_bitmap h fs None = Inr (ic_single ic0)"
      "\<And>b. ic_multiple ic0 = Some b \<Longrightarrow> ext2fs_allocate_inode_bitmap h fs None = Inr b"
    and rest: "ic_magic ic0 = EXT2_ET_MAGIC_ICOUNT" "ic_num_inodes ic0 = ?n"
    using ic0 by (auto simp: alloc_icount_def split: sum.splits if_splits)
  note single = fresh_bm_ok [OF assms(1) parts(1)] and multiple = fresh_bm_ok [OF assms(1) parts(2)]
  have il: "il_inv ic \<and> (\<forall>ino. list_val ic ino = 0)"
  proof (cases hint)
    case None
    then have "ic_count ic = 0" "length (ic_list ic) = unat (ic_size ic)" using ic by simp_all
    then show ?thesis
      using ic assms(1,3) rest
      by (auto simp: il_inv_def ic_elems_def list_val_def el_map_def icount_fs_ok_def Let_def)
  next
    case (Some i)
    let ?k = "unat (ic_count i)" and ?z = "\<lambda>e. \<lparr>el_ino = el_ino e, el_count = 0\<rparr>"
    have i: "il_inv i" "ic_num_inodes i \<le> ?n" using assms(4) Some by (auto simp: icount_inv_def)
    then have c: "ic_count ic = ic_count i" "ic_count ic \<le> ic_size ic" "?k \<le> unat (ic_size ic)"
      using ic(6,7) Some by (auto simp: il_inv_def word_le_nat_alt)
    have l: "ic_list ic = map ?z (ic_elems i) @ drop ?k (replicate (unat (ic_size ic)) \<lparr>el_ino = 0, el_count = 0\<rparr>)"
      using ic(8) Some by (simp add: ic_elems_def Let_def)
    have el: "ic_elems ic = map ?z (ic_elems i)"
      unfolding ic_elems_def [of ic] l c(1) using il_length [OF i(1)] by simp
    have "length (ic_list ic) = unat (ic_size ic)" unfolding l using il_length [OF i(1)] c(3) by simp
    moreover have "map el_ino (ic_elems ic) = map el_ino (ic_elems i)" by (simp add: el comp_def)
    moreover have "\<forall>e \<in> set (ic_elems ic). 0 < el_ino e \<and> el_ino e \<le> ?n"
      using i by (auto simp: el il_inv_def intro: order_trans)
    moreover have "list_val ic ino = 0" for ino
    proof -
      have "el_map (ic_elems ic) ino = Some c \<Longrightarrow> c = 0" for c
        by (auto simp: el el_map_def dest!: map_of_SomeD)
      then show ?thesis by (auto simp: list_val_def split: option.splits)
    qed
    ultimately show ?thesis
      using i(1) ic c(2) assms(1,3) rest by (simp add: il_inv_def icount_fs_ok_def Let_def)
  qed
  have "icount_inv ic"
    using il single(1) multiple(1) ic rest by (auto simp: icount_inv_def)
  moreover have "icount_val ic ino = 0" for ino
    using single(2) il ic by (simp add: icount_val_def in_single_def)
  ultimately show ?thesis using ic rest by simp
qed

lemma icount_fs_sample: "icount_fs_ok fs_sample"
  by (simp add: icount_fs_ok_def fs_sample_def sb_sample_def)

lemma create_icount_all_zero_witness:
  "\<exists>ic. ext2fs_create_icount2 (roomy 7) (roomy \<lparr>el_ino = 9, el_count = 9\<rparr>) fs_sample 1 2 None = Inr ic \<and>
     icount_val ic 12 = 0"
proof -
  have "\<not> isl (ext2fs_create_icount2 (roomy 7) (roomy \<lparr>el_ino = 9, el_count = 9\<rparr>) fs_sample 1 2 None)"
    by code_simp
  then obtain ic where ic: "ext2fs_create_icount2 (roomy 7) (roomy \<lparr>el_ino = 9, el_count = 9\<rparr>) fs_sample 1 2 None = Inr ic"
    unfolding isl_def by (meson sum.exhaust)
  have "ic_size (projr (ext2fs_create_icount2 (roomy 7) (roomy \<lparr>el_ino = 9, el_count = 9\<rparr>) fs_sample 1 2 None)) = 2"
    by code_simp
  then have "unat (ic_size ic) < 2 ^ 29" using ic by simp
  from create_icount_all_zero [OF icount_fs_sample ic this] ic show ?thesis by blast
qed

definition scale_sample :: "u32 \<Rightarrow> u32 \<Rightarrow> u32 \<Rightarrow> u32" where
  "scale_sample c n l = of_nat (unat c * unat n div unat l)"

lemma scale_sample_ok: "scale_ok scale_sample"
proof -
  have "unat (scale_sample c n l) \<le> 2 * unat n" if "0 < c" "c \<le> l" for c n l
  proof -
    have "unat c * unat n div unat l \<le> unat n"
      using that div_le_mono [of "unat c * unat n" "unat l * unat n" "unat l"]
      by (simp add: word_le_nat_alt word_less_nat_alt)
    then have "unat c * unat n div unat l < 2 ^ 32" using unat_u32_bound [of n] by linarith
    then show ?thesis
      using \<open>unat c * unat n div unat l \<le> unat n\<close> by (simp add: scale_sample_def unat_of_nat_small)
  qed
  then show ?thesis by (simp add: scale_ok_def)
qed

text \<open>Inode 3 has the count one, inode 5 the count four; the entry of inode 3 is stale.\<close>

definition icount_sample :: icount where
  "icount_sample = \<lparr>ic_magic = EXT2_ET_MAGIC_ICOUNT,
     ic_single = B64 \<lparr>b64_magic = EXT2_ET_MAGIC_INODE_BITMAP64, b64_fs = Some 0, b64_start = 1, b64_end = 20,
       b64_real_end = 24, b64_cluster_bits = 0, b64_description = None, b64_bitarray = [4, 0, 0],
       b64_base_error_code = EXT2_ET_BAD_INODE_MARK\<rparr>,
     ic_multiple = None, ic_count = 2, ic_size = 2, ic_num_inodes = 20, ic_cursor = 0,
     ic_list = [\<lparr>el_ino = 3, el_count = 7\<rparr>, \<lparr>el_ino = 5, el_count = 4\<rparr>], ic_last_lookup = Some 1\<rparr>"

lemma icount_sample_inv: "icount_inv icount_sample"
proof -
  have "i \<le> 20 \<Longrightarrow> (ucast i :: u64) \<le> 20" "0 < i \<Longrightarrow> (1 :: u64) \<le> ucast i" for i :: u32
    by (auto simp: word_le_nat_alt word_less_nat_alt)
  then show ?thesis
    by (auto simp: icount_inv_def icount_sample_def il_inv_def ic_elems_def bm_ok_def gb_inv_def b64_inv_def
        EXT2FS_IS_64_BITMAP_def window_ok_def gb_valid_def in_window_def)
qed

text \<open>Raising the count of inode 9 makes a new entry at the end of a full list.\<close>

lemma icount_refines_counts_witness:
  "\<exists>r ic'. icount_step (roomy \<lparr>el_ino = 9, el_count = 9\<rparr>) scale_sample icount_sample (Increment 9) = (r, ic') \<and>
    icount_val icount_sample 9 = 0 \<and> icount_val ic' 9 = 1 \<and> icount_val ic' 5 = 4 \<and> icount_val ic' 3 = 1"
proof -
  obtain r ic' where s: "icount_step (roomy \<lparr>el_ino = 9, el_count = 9\<rparr>) scale_sample icount_sample (Increment 9) = (r, ic')"
    by fastforce
  have "ic_num_inodes icount_sample = 20" by (simp add: icount_sample_def)
  with icount_refines_counts [OF icount_sample_inv scale_sample_ok s]
  have t: "(r, icount_val ic') = counts_step (icount_val icount_sample) (Increment 9) \<or>
      r = Inl EXT2_ET_NO_MEMORY \<and> icount_val ic' = icount_val icount_sample" by simp
  have "\<not> isl (fst (icount_step (roomy \<lparr>el_ino = 9, el_count = 9\<rparr>) scale_sample icount_sample (Increment 9)))"
    by code_simp
  then have "icount_val ic' = (icount_val icount_sample)(9 := icount_val icount_sample 9 + 1)"
    using s t by auto
  moreover have "icount_val icount_sample 9 = 0" "icount_val icount_sample 5 = 4" "icount_val icount_sample 3 = 1"
    by code_simp+
  ultimately show ?thesis using s by auto
qed

end
