(* ===== verification/Checksums.thy ===== *)
theory Checksums
  imports Bitmaps
begin

text \<open>
  The checksums of the block group descriptors: the table-driven CRC-16 of \<open>source/crc16.c\<close>,
  the byte swap of a descriptor (\<open>source/swapfs.c\<close>) and \<open>source/csum.c\<close>, which checks,
  sets and refreshes the descriptor checksums. The lemmas show that the table computes the
  bitwise CRC of the polynomial, that the CRC notices every change of a single byte, and
  what holds of the descriptors after a refresh.
\<close>

section \<open>CRC-16\<close>

definition crc16_table :: "u16 list" where
  "crc16_table =
    [0x0000, 0xC0C1, 0xC181, 0x0140, 0xC301, 0x03C0, 0x0280, 0xC241,
     0xC601, 0x06C0, 0x0780, 0xC741, 0x0500, 0xC5C1, 0xC481, 0x0440,
     0xCC01, 0x0CC0, 0x0D80, 0xCD41, 0x0F00, 0xCFC1, 0xCE81, 0x0E40,
     0x0A00, 0xCAC1, 0xCB81, 0x0B40, 0xC901, 0x09C0, 0x0880, 0xC841,
     0xD801, 0x18C0, 0x1980, 0xD941, 0x1B00, 0xDBC1, 0xDA81, 0x1A40,
     0x1E00, 0xDEC1, 0xDF81, 0x1F40, 0xDD01, 0x1DC0, 0x1C80, 0xDC41,
     0x1400, 0xD4C1, 0xD581, 0x1540, 0xD701, 0x17C0, 0x1680, 0xD641,
     0xD201, 0x12C0, 0x1380, 0xD341, 0x1100, 0xD1C1, 0xD081, 0x1040,
     0xF001, 0x30C0, 0x3180, 0xF141, 0x3300, 0xF3C1, 0xF281, 0x3240,
     0x3600, 0xF6C1, 0xF781, 0x3740, 0xF501, 0x35C0, 0x3480, 0xF441,
     0x3C00, 0xFCC1, 0xFD81, 0x3D40, 0xFF01, 0x3FC0, 0x3E80, 0xFE41,
     0xFA01, 0x3AC0, 0x3B80, 0xFB41, 0x3900, 0xF9C1, 0xF881, 0x3840,
     0x2800, 0xE8C1, 0xE981, 0x2940, 0xEB01, 0x2BC0, 0x2A80, 0xEA41,
     0xEE01, 0x2EC0, 0x2F80, 0xEF41, 0x2D00, 0xEDC1, 0xEC81, 0x2C40,
     0xE401, 0x24C0, 0x2580, 0xE541, 0x2700, 0xE7C1, 0xE681, 0x2640,
     0x2200, 0xE2C1, 0xE381, 0x2340, 0xE101, 0x21C0, 0x2080, 0xE041,
     0xA001, 0x60C0, 0x6180, 0xA141, 0x6300, 0xA3C1, 0xA281, 0x6240,
     0x6600, 0xA6C1, 0xA781, 0x6740, 0xA501, 0x65C0, 0x6480, 0xA441,
     0x6C00, 0xACC1, 0xAD81, 0x6D40, 0xAF01, 0x6FC0, 0x6E80, 0xAE41,
     0xAA01, 0x6AC0, 0x6B80, 0xAB41, 0x6900, 0xA9C1, 0xA881, 0x6840,
     0x7800, 0xB8C1, 0xB981, 0x7940, 0xBB01, 0x7BC0, 0x7A80, 0xBA41,
     0xBE01, 0x7EC0, 0x7F80, 0xBF41, 0x7D00, 0xBDC1, 0xBC81, 0x7C40,
     0xB401, 0x74C0, 0x7580, 0xB541, 0x7700, 0xB7C1, 0xB681, 0x7640,
     0x7200, 0xB2C1, 0xB381, 0x7340, 0xB101, 0x71C0, 0x7080, 0xB041,
     0x5000, 0x90C1, 0x9181, 0x5140, 0x9301, 0x53C0, 0x5280, 0x9241,
     0x9601, 0x56C0, 0x5780, 0x9741, 0x5500, 0x95C1, 0x9481, 0x5440,
     0x9C01, 0x5CC0, 0x5D80, 0x9D41, 0x5F00, 0x9FC1, 0x9E81, 0x5E40,
     0x5A00, 0x9AC1, 0x9B81, 0x5B40, 0x9901, 0x59C0, 0x5880, 0x9841,
     0x8801, 0x48C0, 0x4980, 0x8941, 0x4B00, 0x8BC1, 0x8A81, 0x4A40,
     0x4E00, 0x8EC1, 0x8F81, 0x4F40, 0x8D01, 0x4DC0, 0x4C80, 0x8C41,
     0x4400, 0x84C1, 0x8581, 0x4540, 0x8701, 0x47C0, 0x4680, 0x8641,
     0x8201, 0x42C0, 0x4380, 0x8341, 0x4100, 0x81C1, 0x8081, 0x4040]"

text \<open>
  \<open>crc16_t\<close> is \<open>unsigned int\<close>, of which the low 16 bits are used. The buffer is read
  up to its length.
\<close>

fun ext2fs_crc16 :: "u32 \<Rightarrow> u8 list \<Rightarrow> u32" where
  "ext2fs_crc16 crc [] = crc"
| "ext2fs_crc16 crc (c # cp) =
     ext2fs_crc16
       (((drop_bit 8 crc AND 0xFF) XOR ucast (crc16_table ! unat ((crc XOR ucast c) AND 0xFF))) AND 0xFFFF) cp"

section \<open>The descriptor as bytes\<close>

definition ext2fs_swap_group_desc2 :: "super_block option \<Rightarrow> group_desc \<Rightarrow> group_desc" where
  "ext2fs_swap_group_desc2 super gdp =
     (let gdp = gdp\<lparr>bg_block_bitmap := ext2fs_swab32 (bg_block_bitmap gdp),
            bg_inode_bitmap := ext2fs_swab32 (bg_inode_bitmap gdp),
            bg_inode_table := ext2fs_swab32 (bg_inode_table gdp),
            bg_free_blocks_count := ext2fs_swab16 (bg_free_blocks_count gdp),
            bg_free_inodes_count := ext2fs_swab16 (bg_free_inodes_count gdp),
            bg_used_dirs_count := ext2fs_swab16 (bg_used_dirs_count gdp),
            bg_flags := ext2fs_swab16 (bg_flags gdp),
            bg_exclude_bitmap_lo := ext2fs_swab32 (bg_exclude_bitmap_lo gdp),
            bg_block_bitmap_csum_lo := ext2fs_swab16 (bg_block_bitmap_csum_lo gdp),
            bg_inode_bitmap_csum_lo := ext2fs_swab16 (bg_inode_bitmap_csum_lo gdp),
            bg_itable_unused := ext2fs_swab16 (bg_itable_unused gdp),
            bg_checksum := ext2fs_swab16 (bg_checksum gdp)\<rparr>
      in
      if (case super of None \<Rightarrow> False | Some s \<Rightarrow> s_desc_size s = 0 \<or> s_desc_size s < 64) then gdp
      else
        gdp\<lparr>bg_block_bitmap_hi := ext2fs_swab32 (bg_block_bitmap_hi gdp),
            bg_inode_bitmap_hi := ext2fs_swab32 (bg_inode_bitmap_hi gdp),
            bg_inode_table_hi := ext2fs_swab32 (bg_inode_table_hi gdp),
            bg_free_blocks_count_hi := ext2fs_swab16 (bg_free_blocks_count_hi gdp),
            bg_free_inodes_count_hi := ext2fs_swab16 (bg_free_inodes_count_hi gdp),
            bg_used_dirs_count_hi := ext2fs_swab16 (bg_used_dirs_count_hi gdp),
            bg_itable_unused_hi := ext2fs_swab16 (bg_itable_unused_hi gdp),
            bg_exclude_bitmap_hi := ucast (ext2fs_swab16 (ucast (bg_exclude_bitmap_hi gdp))),
            bg_block_bitmap_csum_hi := ext2fs_swab16 (bg_block_bitmap_csum_hi gdp),
            bg_inode_bitmap_csum_hi := ext2fs_swab16 (bg_inode_bitmap_csum_hi gdp)\<rparr>)"

definition ext2fs_swap_group_desc :: "group_desc \<Rightarrow> group_desc" where
  "ext2fs_swap_group_desc gdp = ext2fs_swap_group_desc2 None gdp"

text \<open>The struct in the memory of the big-endian target, its checksum at offset 30.\<close>

definition desc_mem :: "group_desc \<Rightarrow> u8 list" where
  "desc_mem gd =
     mem_be32 (bg_block_bitmap gd) @ mem_be32 (bg_inode_bitmap gd) @ mem_be32 (bg_inode_table gd) @
     mem_be16 (bg_free_blocks_count gd) @ mem_be16 (bg_free_inodes_count gd) @
     mem_be16 (bg_used_dirs_count gd) @ mem_be16 (bg_flags gd) @ mem_be32 (bg_exclude_bitmap_lo gd) @
     mem_be16 (bg_block_bitmap_csum_lo gd) @ mem_be16 (bg_inode_bitmap_csum_lo gd) @
     mem_be16 (bg_itable_unused gd) @ mem_be16 (bg_checksum gd) @
     mem_be32 (bg_block_bitmap_hi gd) @ mem_be32 (bg_inode_bitmap_hi gd) @ mem_be32 (bg_inode_table_hi gd) @
     mem_be16 (bg_free_blocks_count_hi gd) @ mem_be16 (bg_free_inodes_count_hi gd) @
     mem_be16 (bg_used_dirs_count_hi gd) @ mem_be16 (bg_itable_unused_hi gd) @
     mem_be32 (bg_exclude_bitmap_hi gd) @ mem_be16 (bg_block_bitmap_csum_hi gd) @
     mem_be16 (bg_inode_bitmap_csum_hi gd) @ mem_be32 (bg_reserved gd)"

section \<open>Descriptor checksums\<close>

definition ext2fs_group_desc_csum :: "filsys \<Rightarrow> u32 \<Rightarrow> u16" where
  "ext2fs_group_desc_csum fs grp =
     (let super = fs_super fs;
          sz = unat (s_desc_size super);
          sz = (if sz < 32 then 32 else sz);
          sz = (if sz > 64 then 64 else sz)
      in
      if s_feature_ro_compat super AND EXT4_FEATURE_RO_COMPAT_GDT_CSUM \<noteq> 0 then
        let gd = ext2fs_group_desc fs grp;
            gd = (if 32 < sz \<and> s_desc_size super < 64 then with_tail gd (fs_group_desc fs ! (unat grp + 1)) else gd);
            desc = desc_mem (ext2fs_swap_group_desc2 (Some super) gd);
            crc = ext2fs_crc16 0xFFFFFFFF (s_uuid super);
            crc = ext2fs_crc16 (ucast (ucast crc :: u16)) (mem_be32 (ext2fs_swab32 grp));
            crc = ext2fs_crc16 (ucast (ucast crc :: u16)) (take 30 desc);
            crc = (if 32 < sz then ext2fs_crc16 (ucast (ucast crc :: u16)) (take (sz - 32) (drop 32 desc)) else crc)
        in ucast crc
      else 0)"

definition ext2fs_group_desc_csum_verify :: "filsys \<Rightarrow> u32 \<Rightarrow> bool" where
  "ext2fs_group_desc_csum_verify fs grp =
     (if s_feature_ro_compat (fs_super fs) AND EXT4_FEATURE_RO_COMPAT_GDT_CSUM \<noteq> 0 \<and>
         ext2fs_bg_checksum fs grp \<noteq> ext2fs_group_desc_csum fs grp
      then False else True)"

definition ext2fs_group_desc_csum_set :: "filsys \<Rightarrow> u32 \<Rightarrow> filsys" where
  "ext2fs_group_desc_csum_set fs grp =
     (if s_feature_ro_compat (fs_super fs) AND EXT4_FEATURE_RO_COMPAT_GDT_CSUM = 0 then fs
      else ext2fs_bg_checksum_set fs grp (ext2fs_group_desc_csum fs grp))"

text \<open>\<open>for (i = end_ino; i >= start_ino; i--)\<close>; \<open>start_ino\<close> 0 would make it endless.\<close>

partial_function (option) last_inode_loop :: "gbitmap \<Rightarrow> u32 \<Rightarrow> u32 \<Rightarrow> u32 \<Rightarrow> u32 option" where
  "last_inode_loop bitmap inodes_per_grp start_ino i =
     (if i \<ge> start_ino then
        (if ext2fs_fast_test_inode_bitmap2 (Some bitmap) i \<noteq> 0 then Some (i - start_ino + 1)
         else last_inode_loop bitmap inodes_per_grp start_ino (i - 1))
      else Some inodes_per_grp)"

declare last_inode_loop.simps [code, simp del]

definition find_last_inode_ingrp :: "gbitmap \<Rightarrow> u32 \<Rightarrow> u32 \<Rightarrow> u32 option" where
  "find_last_inode_ingrp bitmap inodes_per_grp grp_no =
     (let start_ino = grp_no * inodes_per_grp + 1;
          end_ino = start_ino + inodes_per_grp - 1
      in last_inode_loop bitmap inodes_per_grp start_ino end_ino)"

definition EXT2_BG_INODE_UNINIT :: u16 where "EXT2_BG_INODE_UNINIT = 0x0001"

text \<open>One round of the loop of \<open>ext2fs_set_gdt_csum\<close>: the new handle and whether it changed.\<close>

definition set_gdt_csum_group :: "gbitmap \<Rightarrow> filsys \<Rightarrow> u32 \<Rightarrow> (filsys \<times> bool) option" where
  "set_gdt_csum_group inode_map fs i =
     (let sb = fs_super fs;
          old_csum = ext2fs_bg_checksum fs i;
          old_unused = ext2fs_bg_itable_unused fs i;
          old_flags = ext2fs_bg_flags fs i;
          old_free_inodes_count = ext2fs_bg_free_inodes_count fs i
      in
      map_option (\<lambda>fs.
          let fs = ext2fs_group_desc_csum_set fs i in
          (fs, old_flags \<noteq> ext2fs_bg_flags fs i \<or> old_unused \<noteq> ext2fs_bg_itable_unused fs i \<or>
               old_csum \<noteq> ext2fs_bg_checksum fs i))
        (if old_free_inodes_count = s_inodes_per_group sb then
           (let fs = ext2fs_bg_flags_set fs i EXT2_BG_INODE_UNINIT in
            Some (ext2fs_bg_itable_unused_set fs i (s_inodes_per_group sb)))
         else
           (case find_last_inode_ingrp inode_map (s_inodes_per_group sb) i of
              None \<Rightarrow> None
            | Some l \<Rightarrow>
                let unused = s_inodes_per_group sb - l;
                    fs = ext2fs_bg_flags_clear fs i EXT2_BG_INODE_UNINIT
                in Some (ext2fs_bg_itable_unused_set fs i unused))))"

fun set_gdt_csum_loop :: "gbitmap \<Rightarrow> nat \<Rightarrow> nat \<Rightarrow> filsys \<Rightarrow> bool \<Rightarrow> (filsys \<times> bool) option" where
  "set_gdt_csum_loop inode_map i 0 fs dirty = Some (fs, dirty)"
| "set_gdt_csum_loop inode_map i (Suc left) fs dirty =
     (case set_gdt_csum_group inode_map fs (of_nat i) of
        None \<Rightarrow> None
      | Some (fs, d) \<Rightarrow> set_gdt_csum_loop inode_map (i + 1) left fs (dirty \<or> d))"

text \<open>\<open>None\<close> when a search does not end.\<close>

definition ext2fs_set_gdt_csum :: "filsys \<Rightarrow> filsys result option" where
  "ext2fs_set_gdt_csum fs =
     (case fs_inode_map fs of
        None \<Rightarrow> Some (Inl EXT2_ET_NO_INODE_BITMAP)
      | Some inode_map \<Rightarrow>
          if s_feature_ro_compat (fs_super fs) AND EXT4_FEATURE_RO_COMPAT_GDT_CSUM = 0 then Some (Inr fs)
          else
            map_option (\<lambda>(fs, dirty). Inr (if dirty then ext2fs_mark_super_dirty fs else fs))
              (set_gdt_csum_loop inode_map 0 (unat (fs_group_desc_count fs)) fs False))"

section \<open>The table against the polynomial\<close>

text \<open>One bit of the reflected CRC of the polynomial 0x8005, and one byte of it.\<close>

definition crc16_shift :: "u16 \<Rightarrow> u16" where
  "crc16_shift c = (if bit c 0 then drop_bit 1 c XOR 0xA001 else drop_bit 1 c)"

definition crc16_byte :: "u16 \<Rightarrow> u8 \<Rightarrow> u16" where
  "crc16_byte c b = (crc16_shift ^^ 8) (c XOR ucast b)"

lemma crc16_shift_xor: "crc16_shift (x XOR y) = crc16_shift x XOR crc16_shift y"
  by (rule bit_word_eqI) (auto simp: crc16_shift_def bit_simps)

lemma crc16_shift_xor_pow: "(crc16_shift ^^ k) (x XOR y) = (crc16_shift ^^ k) x XOR (crc16_shift ^^ k) y"
  by (induction k) (simp_all add: crc16_shift_xor)

lemma crc16_shift_high: "\<forall>n < k. \<not> bit y n \<Longrightarrow> (crc16_shift ^^ k) y = drop_bit k y"
proof (induction k)
  case (Suc k)
  then have "\<not> bit (drop_bit k y) 0" by (simp add: bit_simps)
  then show ?case using Suc by (simp add: crc16_shift_def)
qed simp

text \<open>
  The table of a linear function is made by doubling from its values at the powers of two.
\<close>

definition doubled_table :: "'a::len word list \<Rightarrow> 'a word list" where
  "doubled_table bs = fold (\<lambda>b acc. acc @ map ((XOR) b) acc) bs [0]"

lemma of_nat_pow_plus:
  assumes "j < 2 ^ n"
  shows "(of_nat (2 ^ n + j) :: 'a::len word) = 2 ^ n XOR of_nat j"
proof -
  have d: "(2 ^ n :: 'a word) AND of_nat j = 0"
    using assms by (intro bit_word_eqI) (auto simp: bit_simps bit_nat_def)
  have "(2 ^ n :: 'a word) + of_nat j = 2 ^ n OR of_nat j"
    using d by (rule disjunctive_add_eq_or)
  also have "\<dots> = 2 ^ n XOR of_nat j"
    using d by (rule disjunctive_xor_eq_or [symmetric])
  finally show ?thesis by simp
qed

lemma doubled_table_linear:
  assumes lin: "\<And>x y. F (x XOR y) = F x XOR F (y :: 'a::len word)"
  shows "doubled_table (map (\<lambda>k. F (2 ^ k)) [0..<n]) = map (\<lambda>i. F (of_nat i)) [0..<2 ^ n]"
proof (induction n)
  case 0
  have "F 0 = 0" using lin [of 0 0] by simp
  then show ?case by (simp add: doubled_table_def)
next
  case (Suc n)
  have "[0..<2 ^ Suc n] = [0..<2 ^ n] @ map (\<lambda>j. 2 ^ n + j) [0..<2 ^ n]"
    by (rule nth_equalityI) (auto simp: nth_append)
  moreover have "map (\<lambda>i. F (of_nat i)) (map (\<lambda>j. 2 ^ n + j) [0..<2 ^ n]) =
      map ((XOR) (F (2 ^ n))) (map (\<lambda>i. F (of_nat i)) [0..<2 ^ n])"
    unfolding map_map comp_def
    by (intro map_cong refl) (simp only: of_nat_pow_plus lin atLeastLessThan_iff set_upt)
  ultimately show ?case
    using Suc by (simp add: doubled_table_def)
qed

lemma crc16_table_doubled:
  "crc16_table = doubled_table [0xC0C1, 0xC181, 0xC301, 0xC601, 0xCC01, 0xD801, 0xF001, 0xA001]"
  by (simp add: crc16_table_def doubled_table_def)

lemma crc16_basis:
  "[0xC0C1, 0xC181, 0xC301, 0xC601, 0xCC01, 0xD801, 0xF001, 0xA001] =
     map (\<lambda>k. (crc16_shift ^^ 8) (2 ^ k)) [0..<8]"
  by code_simp

lemma crc16_table_entries: "crc16_table = map (\<lambda>i. (crc16_shift ^^ 8) (of_nat i)) [0..<256]"
  using doubled_table_linear [of "crc16_shift ^^ 8" 8, OF crc16_shift_xor_pow]
  unfolding crc16_table_doubled crc16_basis by simp

lemma crc16_table_nth: "unat x < 256 \<Longrightarrow> crc16_table ! unat x = (crc16_shift ^^ 8) (x :: u16)"
  unfolding crc16_table_entries by simp

lemma crc16_split: "x = (x AND 0xFF) XOR push_bit 8 (drop_bit 8 (x :: u16))"
proof -
  have m: "(0xFF :: u16) = mask 8" by (simp add: mask_eq_exp_minus_1)
  show ?thesis unfolding m by (rule bit_word_eqI) (auto simp: bit_simps)
qed

lemma crc16_shift_byte: "(crc16_shift ^^ 8) x = (crc16_shift ^^ 8) (x AND 0xFF) XOR drop_bit 8 x"
proof -
  have "(crc16_shift ^^ 8) (push_bit 8 (drop_bit 8 x)) = drop_bit 8 (push_bit 8 (drop_bit 8 x))"
    by (intro crc16_shift_high) (simp add: bit_simps)
  also have "\<dots> = drop_bit 8 x" by (rule bit_word_eqI) (auto simp: bit_simps dest: bit_imp_le_length)
  finally show ?thesis
    using crc16_shift_xor_pow [of 8 "x AND 0xFF" "push_bit 8 (drop_bit 8 x)"] crc16_split [of x] by simp
qed

lemma crc16_step:
  "((drop_bit 8 (ucast (c :: u16) :: u32) AND 0xFF) XOR
      ucast (crc16_table ! unat (((ucast c :: u32) XOR ucast b) AND 0xFF))) AND 0xFFFF = ucast (crc16_byte c b)"
proof -
  let ?x = "c XOR ucast b"
  have m: "(0xFF :: u32) = mask 8" "(0xFF :: u16) = mask 8" "(0xFFFF :: u32) = mask 16"
    by (simp_all add: mask_eq_exp_minus_1)
  have i: "((ucast c :: u32) XOR ucast b) AND 0xFF = ucast (?x AND 0xFF)"
    unfolding m by (rule bit_word_eqI) (auto simp: bit_simps)
  have lt: "unat (?x AND 0xFF) < 256"
  proof -
    have "?x AND 0xFF \<le> 0xFF" by (rule word_and_le1)
    then show ?thesis by (simp add: word_le_nat_alt)
  qed
  have "unat (ucast (?x AND 0xFF) :: u32) = unat (?x AND 0xFF)" by (simp add: unsigned_ucast_eq) (rule take_bit_nat_eq_self, use lt in simp)
  then have t: "crc16_table ! unat (((ucast c :: u32) XOR ucast b) AND 0xFF) = (crc16_shift ^^ 8) (?x AND 0xFF)"
    unfolding i using crc16_table_nth [OF lt] by simp
  have "drop_bit 8 ?x = drop_bit 8 c" by (rule bit_word_eqI) (auto simp: bit_simps dest: bit_imp_le_length)
  then have "crc16_byte c b = (crc16_shift ^^ 8) (?x AND 0xFF) XOR drop_bit 8 c"
    unfolding crc16_byte_def using crc16_shift_byte [of ?x] by simp
  then show ?thesis
    unfolding t by (simp add: m) (rule bit_word_eqI, auto simp: bit_simps dest: bit_imp_le_length)
qed

lemma crc16_fold: "ext2fs_crc16 (ucast (c :: u16)) bs = ucast (fold (\<lambda>b c. crc16_byte c b) bs c)"
proof (induction bs arbitrary: c)
  case (Cons b bs)
  show ?case unfolding ext2fs_crc16.simps crc16_step using Cons by simp
qed simp

text \<open>A step is injective in the register and in the byte.\<close>

lemma crc16_shift_inj: "inj crc16_shift"
proof (rule injI)
  fix x y assume e: "crc16_shift x = crc16_shift y"
  have top: "bit (crc16_shift z) 15 = bit z 0" for z
    by (auto simp: crc16_shift_def bit_simps dest: bit_imp_le_length)
  then have low: "bit x 0 = bit y 0" using e by metis
  have "drop_bit 1 x = drop_bit 1 y"
  proof (cases "bit x 0")
    case True
    then have "drop_bit 1 x XOR 0xA001 = drop_bit 1 y XOR 0xA001"
      using e low by (simp add: crc16_shift_def)
    then have "(drop_bit 1 x XOR 0xA001) XOR 0xA001 = (drop_bit 1 y XOR 0xA001) XOR 0xA001"
      by (rule arg_cong)
    then show ?thesis by (simp only: xor.assoc xor_self_eq xor.right_neutral)
  qed (use e low in \<open>simp add: crc16_shift_def\<close>)
  then have "bit x (Suc n) = bit y (Suc n)" for n
    by (metis bit_drop_bit_eq comp_apply plus_1_eq_Suc)
  then show "x = y" using low by (intro bit_word_eqI) (metis not0_implies_Suc)
qed

lemma crc16_byte_inj:
  "crc16_byte c b = crc16_byte c' b \<Longrightarrow> c = c'" "crc16_byte c b = crc16_byte c b' \<Longrightarrow> b = b'"
proof -
  have inj: "inj (crc16_shift ^^ 8)" using crc16_shift_inj by (rule inj_fn)
  { assume "crc16_byte c b = crc16_byte c' b"
    then have "c XOR ucast b = c' XOR ucast b" using injD [OF inj] unfolding crc16_byte_def by blast
    then have "(c XOR ucast b) XOR ucast b = (c' XOR ucast b) XOR ucast b" by simp
    then show "c = c'" by (simp add: xor.assoc) }
  { assume "crc16_byte c b = crc16_byte c b'"
    then have "c XOR ucast b = c XOR ucast b'" using injD [OF inj] unfolding crc16_byte_def by blast
    then have "c XOR (c XOR ucast b) = c XOR (c XOR ucast b')" by simp
    then have e: "(ucast b :: u16) = ucast b'" by (simp add: xor.assoc [symmetric])
    have "b = ucast (ucast b :: u16)" "b' = ucast (ucast b' :: u16)"
      by (rule bit_word_eqI, auto simp: bit_simps)+
    then show "b = b'" using e by simp }
qed


lemma crc16_fold_inj: "fold (\<lambda>b c. crc16_byte c b) bs c = fold (\<lambda>b c. crc16_byte c b) bs c' \<Longrightarrow> c = c'"
  by (induction bs arbitrary: c c') (auto dest: crc16_byte_inj(1))

lemma ext2fs_crc16_append: "ext2fs_crc16 c (xs @ ys) = ext2fs_crc16 (ext2fs_crc16 c xs) ys"
  by (induction xs arbitrary: c) simp_all

section \<open>The checksum of a descriptor\<close>

definition has_gdt_csum :: "filsys \<Rightarrow> bool" where
  "has_gdt_csum fs \<longleftrightarrow> s_feature_ro_compat (fs_super fs) AND EXT4_FEATURE_RO_COMPAT_GDT_CSUM \<noteq> 0"

text \<open>The checksum of a descriptor, from the superblock, the descriptor and the group number.\<close>

definition desc_csum :: "super_block \<Rightarrow> group_desc \<Rightarrow> u32 \<Rightarrow> u16" where
  "desc_csum super gd grp =
     (let sz = min 64 (max 32 (unat (s_desc_size super)));
          desc = desc_mem (ext2fs_swap_group_desc2 (Some super) gd);
          crc16 = \<lambda>crc buf. ext2fs_crc16 (ucast (ucast crc :: u16)) buf;
          crc = crc16 (crc16 (ext2fs_crc16 0xFFFFFFFF (s_uuid super)) (mem_be32 (ext2fs_swab32 grp))) (take 30 desc)
      in
      if s_feature_ro_compat super AND EXT4_FEATURE_RO_COMPAT_GDT_CSUM \<noteq> 0
      then ucast (if 32 < sz then crc16 crc (take (sz - 32) (drop 32 desc)) else crc) else 0)"

lemma length_mem_be [simp]: "length (mem_be32 x) = 4" "length (mem_be16 y) = 2"
  by (simp_all add: mem_be32_def mem_be16_def)

lemma desc_mem_checksum:
  "take 30 (desc_mem (gd\<lparr>bg_checksum := c\<rparr>)) = take 30 (desc_mem gd)"
  "drop 32 (desc_mem (gd\<lparr>bg_checksum := c\<rparr>)) = drop 32 (desc_mem gd)"
  by (simp_all add: desc_mem_def)

lemma swap_desc_checksum:
  "ext2fs_swap_group_desc2 s (gd\<lparr>bg_checksum := c\<rparr>) =
     (ext2fs_swap_group_desc2 s gd)\<lparr>bg_checksum := ext2fs_swab16 c\<rparr>"
  by (simp add: ext2fs_swap_group_desc2_def Let_def)

text \<open>With descriptors apart, only the descriptor itself is read.\<close>

lemma desc_apart_csum:
  assumes "desc_apart (fs_super fs)"
  shows "ext2fs_group_desc_csum fs grp = desc_csum (fs_super fs) (ext2fs_group_desc fs grp) grp"
proof -
  let ?sz = "min 64 (max 32 (unat (s_desc_size (fs_super fs))))"
  have n: "(32 < ?sz \<and> s_desc_size (fs_super fs) < 64) = False"
    using assms by (auto simp: desc_apart_def word_less_nat_alt word_le_nat_alt)
  have sz: "(let sz = unat (s_desc_size (fs_super fs)); sz = (if sz < 32 then 32 else sz) in
      if sz > 64 then 64 else sz) = ?sz" by (simp add: Let_def min_def max_def)
  show ?thesis
    unfolding ext2fs_group_desc_csum_def desc_csum_def Let_def sz [unfolded Let_def] n by simp
qed

lemma group_desc_csum_local:
  "desc_apart (fs_super fs) \<Longrightarrow> fs_super fs' = fs_super fs \<Longrightarrow>
     ext2fs_group_desc fs' g = ext2fs_group_desc fs g \<Longrightarrow>
     ext2fs_group_desc_csum fs' g = ext2fs_group_desc_csum fs g"
  using desc_apart_csum [of fs g] desc_apart_csum [of fs' g] by simp

lemma group_desc_csum_set_same:
  assumes "desc_apart (fs_super fs)" "unat g < length (fs_group_desc fs)"
  shows "ext2fs_group_desc_csum (ext2fs_bg_checksum_set fs g c) g = ext2fs_group_desc_csum fs g"
proof -
  have d: "ext2fs_group_desc (ext2fs_bg_checksum_set fs g c) g = (ext2fs_group_desc fs g)\<lparr>bg_checksum := c\<rparr>"
    using assms by (simp add: ext2fs_bg_checksum_set_def upd_group_desc_same)
  have s: "fs_super (ext2fs_bg_checksum_set fs g c) = fs_super fs" by (simp add: ext2fs_bg_checksum_set_def)
  show ?thesis
    using assms(1) desc_apart_csum [of "ext2fs_bg_checksum_set fs g c" g] desc_apart_csum [of fs g]
    by (simp only: d s desc_csum_def Let_def swap_desc_checksum desc_mem_checksum)
qed

lemma group_desc_verify_local:
  "desc_apart (fs_super fs) \<Longrightarrow> fs_super fs' = fs_super fs \<Longrightarrow>
     ext2fs_group_desc fs' g = ext2fs_group_desc fs g \<Longrightarrow>
     ext2fs_group_desc_csum_verify fs' g = ext2fs_group_desc_csum_verify fs g"
  using group_desc_csum_local [of fs fs' g]
  by (simp add: ext2fs_group_desc_csum_verify_def ext2fs_bg_checksum_def)

lemma group_desc_csum_set_frame:
  "fs_super (ext2fs_group_desc_csum_set fs g) = fs_super fs"
  "length (fs_group_desc (ext2fs_group_desc_csum_set fs g)) = length (fs_group_desc fs)"
  "fs_group_desc_count (ext2fs_group_desc_csum_set fs g) = fs_group_desc_count fs"
  "fs_inode_map (ext2fs_group_desc_csum_set fs g) = fs_inode_map fs"
  "desc_apart (fs_super fs) \<Longrightarrow> h \<noteq> g \<Longrightarrow> ext2fs_group_desc (ext2fs_group_desc_csum_set fs g) h = ext2fs_group_desc fs h"
  by (simp_all add: ext2fs_group_desc_csum_set_def ext2fs_bg_checksum_set_def upd_group_desc_other)
    (simp_all add: upd_group_desc_def Let_def)

lemma group_desc_csum_set_desc:
  "desc_apart (fs_super fs) \<Longrightarrow> unat g < length (fs_group_desc fs) \<Longrightarrow>
     ext2fs_group_desc (ext2fs_group_desc_csum_set fs g) g =
       (if has_gdt_csum fs then (ext2fs_group_desc fs g)\<lparr>bg_checksum := ext2fs_group_desc_csum fs g\<rparr>
        else ext2fs_group_desc fs g)"
  by (simp add: ext2fs_group_desc_csum_set_def has_gdt_csum_def ext2fs_bg_checksum_set_def upd_group_desc_same)

lemma group_desc_csum_set_verifies:
  assumes "desc_apart (fs_super fs)" "unat g < length (fs_group_desc fs)"
  shows "ext2fs_group_desc_csum_verify (ext2fs_group_desc_csum_set fs g) g"
  using assms group_desc_csum_set_same [OF assms]
  by (simp add: ext2fs_group_desc_csum_verify_def ext2fs_group_desc_csum_set_def ext2fs_bg_checksum_def)
    (simp add: ext2fs_bg_checksum_set_def upd_group_desc_same)

section \<open>The last used inode of a group\<close>

lemma last_inode_loop_spec:
  assumes "1 \<le> unat start" "unat start + k \<le> 2 ^ 32"
  shows "\<exists>l. last_inode_loop m n start (start + of_nat k - 1) = Some l \<and>
     ((l = n \<and> (\<forall>j < k. ext2fs_fast_test_inode_bitmap2 (Some m) (start + of_nat j) = 0)) \<or>
      (\<exists>j < k. l = of_nat j + 1 \<and> ext2fs_fast_test_inode_bitmap2 (Some m) (start + of_nat j) \<noteq> 0 \<and>
         (\<forall>j'. j < j' \<and> j' < k \<longrightarrow> ext2fs_fast_test_inode_bitmap2 (Some m) (start + of_nat j') = 0)))"
  using assms(2)
proof (induction k)
  case 0
  have "unat (start - 1) = unat start - 1" using assms(1) by (simp add: unat_sub_if_size)
  then have "(start \<le> start - 1) = False" using assms(1) by (simp add: word_le_nat_alt)
  then have "last_inode_loop m n start (start - 1) = Some n"
    by (subst last_inode_loop.simps) (simp only: if_False)
  then show ?case by simp
next
  case (Suc k)
  let ?i = "start + of_nat k :: u32"
  have i: "start + of_nat (Suc k) - 1 = ?i" by simp
  have "unat ?i = unat start + k" using Suc.prems by (simp add: unat_word_ariths unat_of_nat)
  then have ge: "start \<le> ?i" by (simp add: word_le_nat_alt)
  show ?case
  proof (cases "ext2fs_fast_test_inode_bitmap2 (Some m) ?i = 0")
    case False
    then have "last_inode_loop m n start ?i = Some (of_nat k + 1)"
      using ge by (subst last_inode_loop.simps) simp
    then show ?thesis unfolding i using False by (intro exI [of _ "of_nat k + 1"]) auto
  next
    case True
    then have e: "last_inode_loop m n start ?i = last_inode_loop m n start (start + of_nat k - 1)"
      using ge by (subst last_inode_loop.simps) simp
    have "unat start + k \<le> 2 ^ 32" using Suc.prems by simp
    from Suc.IH [OF this] obtain l where l: "last_inode_loop m n start (start + of_nat k - 1) = Some l"
      and r: "(l = n \<and> (\<forall>j < k. ext2fs_fast_test_inode_bitmap2 (Some m) (start + of_nat j) = 0)) \<or>
        (\<exists>j < k. l = of_nat j + 1 \<and> ext2fs_fast_test_inode_bitmap2 (Some m) (start + of_nat j) \<noteq> 0 \<and>
         (\<forall>j'. j < j' \<and> j' < k \<longrightarrow> ext2fs_fast_test_inode_bitmap2 (Some m) (start + of_nat j') = 0))" by blast
    show ?thesis unfolding i e using l r True by (intro exI [of _ l]) (auto simp: less_Suc_eq)
  qed
qed


definition inode_of_group :: "filsys \<Rightarrow> u32 \<Rightarrow> nat \<Rightarrow> u32" where
  "inode_of_group fs g j = g * s_inodes_per_group (fs_super fs) + 1 + of_nat j"

text \<open>What \<open>ext2fs_set_gdt_csum\<close> establishes for one group.\<close>

definition gdt_group_ok :: "gbitmap \<Rightarrow> filsys \<Rightarrow> u32 \<Rightarrow> bool" where
  "gdt_group_ok m fs g \<longleftrightarrow>
     (let ipg = s_inodes_per_group (fs_super fs); unused = ext2fs_bg_itable_unused fs g;
          used = (\<lambda>j. ext2fs_fast_test_inode_bitmap2 (Some m) (inode_of_group fs g j) \<noteq> 0) in
      ext2fs_group_desc_csum_verify fs g \<and>
      (if ext2fs_bg_free_inodes_count fs g = ipg
       then ext2fs_bg_flags_test fs g EXT2_BG_INODE_UNINIT \<noteq> 0 \<and> unused = ipg
       else ext2fs_bg_flags_test fs g EXT2_BG_INODE_UNINIT = 0 \<and> unused \<le> ipg \<and>
         (if \<exists>j < unat ipg. used j
          then unused < ipg \<and> used (unat ipg - unat unused - 1) \<and>
            (\<forall>j < unat ipg. unat ipg - unat unused \<le> j \<longrightarrow> \<not> used j)
          else unused = 0)))"

definition groups_same :: "filsys \<Rightarrow> filsys \<Rightarrow> u32 \<Rightarrow> bool" where
  "groups_same fs fs' i \<longleftrightarrow>
     fs_super fs' = fs_super fs \<and> length (fs_group_desc fs') = length (fs_group_desc fs) \<and>
     (\<forall>g. g \<noteq> i \<longrightarrow> ext2fs_group_desc fs' g = ext2fs_group_desc fs g) \<and>
     ext2fs_bg_free_inodes_count fs' i = ext2fs_bg_free_inodes_count fs i"

lemma gdt_group_ok_frame:
  assumes "desc_apart (fs_super fs)" "groups_same fs fs' i" "g \<noteq> i"
  shows "gdt_group_ok m fs' g = gdt_group_ok m fs g"
proof -
  have s: "fs_super fs' = fs_super fs" "ext2fs_group_desc fs' g = ext2fs_group_desc fs g"
    using assms by (simp_all add: groups_same_def)
  show ?thesis
    unfolding gdt_group_ok_def group_desc_verify_local [OF assms(1) s] inode_of_group_def
    by (simp add: s ext2fs_bg_itable_unused_def ext2fs_bg_free_inodes_count_def ext2fs_bg_flags_test_def Let_def)
qed

lemma find_last_inode_spec:
  assumes "0 < unat ipg" "(unat g + 1) * unat ipg < 2 ^ 32"
  shows "\<exists>l. find_last_inode_ingrp m ipg g = Some l \<and> 0 < l \<and> l \<le> ipg \<and>
     (\<forall>j < unat ipg. unat l \<le> j \<longrightarrow> ext2fs_fast_test_inode_bitmap2 (Some m) (g * ipg + 1 + of_nat j) = 0) \<and>
     (if \<exists>j < unat ipg. ext2fs_fast_test_inode_bitmap2 (Some m) (g * ipg + 1 + of_nat j) \<noteq> 0
      then ext2fs_fast_test_inode_bitmap2 (Some m) (g * ipg + 1 + of_nat (unat l - 1)) \<noteq> 0 else l = ipg)"
proof -
  let ?s = "g * ipg + 1"
  have lt: "unat g * unat ipg + unat ipg < 2 ^ 32" using assms(2) by (simp add: algebra_simps)
  have us: "unat ?s = unat g * unat ipg + 1"
    using lt assms(1) by (simp add: unat_word_ariths)
  have b: "1 \<le> unat ?s" "unat ?s + unat ipg \<le> 2 ^ 32" using lt by (simp_all add: us)
  have e: "?s + ipg - 1 = ?s + of_nat (unat ipg) - 1" by simp
  obtain l where l: "find_last_inode_ingrp m ipg g = Some l"
    and r: "(l = ipg \<and> (\<forall>j < unat ipg. ext2fs_fast_test_inode_bitmap2 (Some m) (?s + of_nat j) = 0)) \<or>
      (\<exists>j < unat ipg. l = of_nat j + 1 \<and> ext2fs_fast_test_inode_bitmap2 (Some m) (?s + of_nat j) \<noteq> 0 \<and>
         (\<forall>j'. j < j' \<and> j' < unat ipg \<longrightarrow> ext2fs_fast_test_inode_bitmap2 (Some m) (?s + of_nat j') = 0))"
    using last_inode_loop_spec [OF b, of m ipg] unfolding find_last_inode_ingrp_def Let_def e by blast
  from r show ?thesis
  proof (elim disjE exE conjE)
    assume "l = ipg" "\<forall>j < unat ipg. ext2fs_fast_test_inode_bitmap2 (Some m) (?s + of_nat j) = 0"
    then show ?thesis using l assms(1) by (intro exI [of _ l]) (auto simp: word_less_nat_alt)
  next
    fix j assume j: "j < unat ipg" "l = of_nat j + 1"
      and t: "ext2fs_fast_test_inode_bitmap2 (Some m) (?s + of_nat j) \<noteq> 0"
        "\<forall>j'. j < j' \<and> j' < unat ipg \<longrightarrow> ext2fs_fast_test_inode_bitmap2 (Some m) (?s + of_nat j') = 0"
    have "unat ipg < 2 ^ 32" using unsigned_less [of ipg] by simp
    then have ul: "unat l = j + 1"
      using j by (simp add: unat_word_ariths unat_of_nat)
    show ?thesis using l t j(1) ul
      by (intro exI [of _ l]) (auto simp: word_less_nat_alt word_le_nat_alt)
  qed
qed

lemma halves_inj:
  "(ucast (a :: u16) :: u32) OR push_bit 16 (ucast (b :: u16)) = ucast a' OR push_bit 16 (ucast b') \<Longrightarrow> a = a' \<and> b = b'"
proof -
  assume e: "(ucast a :: u32) OR push_bit 16 (ucast b) = ucast a' OR push_bit 16 (ucast b')"
  have lo: "ucast ((ucast a :: u32) OR push_bit 16 (ucast b)) = a" for a b :: u16
    by (rule bit_word_eqI) (auto simp: bit_simps)
  have hi: "ucast (drop_bit 16 ((ucast a :: u32) OR push_bit 16 (ucast b))) = b" for a b :: u16
    by (rule bit_word_eqI) (auto simp: bit_simps dest: bit_imp_le_length)
  show ?thesis using lo [of a b] lo [of a' b'] hi [of a b] hi [of a' b'] e by metis
qed

lemma ucast16_eq: "(ucast (a :: u16) :: u32) = ucast b \<longleftrightarrow> a = b"
  using halves_inj [of a 0 b 0] by auto

text \<open>Both branches of a round: store the flags and the unused count, then the checksum.\<close>

lemma gdt_update:
  assumes apart: "desc_apart (fs_super fs)" and i: "unat i < length (fs_group_desc fs)"
    and f: "\<forall>gd. f gd = gd\<lparr>bg_flags := F (bg_flags gd)\<rparr>"
    and fs'_def: "fs' = ext2fs_group_desc_csum_set (ext2fs_bg_itable_unused_set (upd_group_desc fs i f) i n) i"
  shows "groups_same fs fs' i" "ext2fs_bg_flags fs' i = F (ext2fs_bg_flags fs i)"
    "ext2fs_bg_itable_unused fs' i = count32 (fs_super fs) n"
    "ext2fs_group_desc_csum_verify fs' i"
    "ext2fs_bg_flags fs' i = ext2fs_bg_flags fs i \<Longrightarrow>
     ext2fs_bg_itable_unused fs' i = ext2fs_bg_itable_unused fs i \<Longrightarrow>
     ext2fs_bg_checksum fs' i = ext2fs_bg_checksum fs i \<Longrightarrow>
     ext2fs_group_desc fs' i = ext2fs_group_desc fs i"
proof -
  let ?fs2 = "ext2fs_bg_itable_unused_set (upd_group_desc fs i f) i n"
  have i2: "desc_apart (fs_super ?fs2)" "unat i < length (fs_group_desc ?fs2)"
    using apart i by (simp_all add: ext2fs_bg_itable_unused_set_def)
  have s: "fs_super fs' = fs_super fs"
    by (simp add: fs'_def group_desc_csum_set_frame ext2fs_bg_itable_unused_set_def)
  have d2: "ext2fs_group_desc ?fs2 i =
      (let gd = (ext2fs_group_desc fs i)\<lparr>bg_flags := F (ext2fs_bg_flags fs i), bg_itable_unused := ucast n\<rparr>
       in if has_64bit (fs_super fs) then gd\<lparr>bg_itable_unused_hi := ucast (drop_bit 16 n)\<rparr> else gd)"
    using apart i f by (simp add: ext2fs_bg_itable_unused_set_def upd_group_desc_same Let_def ext2fs_bg_flags_def)
  have d: "ext2fs_group_desc fs' i = ext2fs_group_desc ?fs2 i \<or>
      (\<exists>c. ext2fs_group_desc fs' i = (ext2fs_group_desc ?fs2 i)\<lparr>bg_checksum := c\<rparr>)"
    unfolding fs'_def using group_desc_csum_set_desc [OF i2] by auto
  show "groups_same fs fs' i"
    using apart d s unfolding groups_same_def ext2fs_bg_free_inodes_count_def d2 Let_def
    by (auto simp: fs'_def group_desc_csum_set_frame ext2fs_bg_itable_unused_set_def upd_group_desc_other)
  show "ext2fs_bg_flags fs' i = F (ext2fs_bg_flags fs i)"
    using d unfolding ext2fs_bg_flags_def d2 Let_def by auto
  show "ext2fs_bg_itable_unused fs' i = count32 (fs_super fs) n"
    using d unfolding ext2fs_bg_itable_unused_def d2 Let_def
    by (auto simp: s count32_def split_field)
  show "ext2fs_group_desc_csum_verify fs' i"
    unfolding fs'_def using i2 by (rule group_desc_csum_set_verifies)
  assume "ext2fs_bg_flags fs' i = ext2fs_bg_flags fs i"
    and u: "ext2fs_bg_itable_unused fs' i = ext2fs_bg_itable_unused fs i"
    and "ext2fs_bg_checksum fs' i = ext2fs_bg_checksum fs i"
  moreover have "bg_itable_unused (ext2fs_group_desc fs' i) = bg_itable_unused (ext2fs_group_desc fs i) \<and>
      (has_64bit (fs_super fs) \<longrightarrow>
        bg_itable_unused_hi (ext2fs_group_desc fs' i) = bg_itable_unused_hi (ext2fs_group_desc fs i))"
    using u halves_inj unfolding ext2fs_bg_itable_unused_def s Let_def
    by (cases "has_64bit (fs_super fs)") (auto simp: ucast16_eq)
  ultimately show "ext2fs_group_desc fs' i = ext2fs_group_desc fs i"
    using d unfolding ext2fs_bg_flags_def ext2fs_bg_checksum_def d2 Let_def
    by (cases "has_64bit (fs_super fs)") auto
qed

lemma set_gdt_csum_group_ok:
  assumes apart: "desc_apart (fs_super fs)" and i: "unat i < length (fs_group_desc fs)"
    and ipg: "0 < unat (s_inodes_per_group (fs_super fs))"
      "has_64bit (fs_super fs) \<or> unat (s_inodes_per_group (fs_super fs)) < 2 ^ 16"
      "(unat i + 1) * unat (s_inodes_per_group (fs_super fs)) < 2 ^ 32"
  shows "\<exists>fs' d. set_gdt_csum_group m fs i = Some (fs', d) \<and> groups_same fs fs' i \<and> gdt_group_ok m fs' i \<and>
     (\<not> d \<longrightarrow> ext2fs_group_desc fs' i = ext2fs_group_desc fs i)"
proof -
  let ?ipg = "s_inodes_per_group (fs_super fs)"
  have c: "count32 (fs_super fs) n = n" if "n \<le> ?ipg" for n
    using ipg(2)
  proof
    assume "unat ?ipg < 2 ^ 16"
    then have "unat n < 2 ^ 16" using that by (simp add: word_le_nat_alt)
    then have "take_bit 16 n = n" by (simp add: word_unat_eq_iff unsigned_take_bit_eq take_bit_nat_eq_self)
    then show ?thesis by (simp add: count32_def)
  qed (simp add: count32_def)
  note defs = set_gdt_csum_group_def ext2fs_bg_flags_set_def ext2fs_bg_flags_clear_def
  show ?thesis
  proof (cases "ext2fs_bg_free_inodes_count fs i = ?ipg")
    case True
    let ?f = "\<lambda>gd. gd\<lparr>bg_flags := bg_flags gd OR EXT2_BG_INODE_UNINIT\<rparr>"
    let ?fs' = "ext2fs_group_desc_csum_set (ext2fs_bg_itable_unused_set (upd_group_desc fs i ?f) i ?ipg) i"
    have f: "\<forall>gd. ?f gd = gd\<lparr>bg_flags := (\<lambda>x. x OR EXT2_BG_INODE_UNINIT) (bg_flags gd)\<rparr>" by simp
    note u = gdt_update [OF apart i f refl, of ?ipg]
    have "(x OR EXT2_BG_INODE_UNINIT) AND EXT2_BG_INODE_UNINIT \<noteq> 0" for x
      by (auto simp: EXT2_BG_INODE_UNINIT_def bit_eq_iff bit_simps intro!: exI [of _ 0])
    then have "gdt_group_ok m ?fs' i"
      using u(1-4) True c [of ?ipg]
      by (simp add: gdt_group_ok_def groups_same_def ext2fs_bg_flags_test_def ext2fs_bg_flags_def)
    then show ?thesis using u(1,5) True by (auto simp: defs Let_def)
  next
    case False
    obtain l where l: "find_last_inode_ingrp m ?ipg i = Some l" "0 < l" "l \<le> ?ipg"
      "\<forall>j < unat ?ipg. unat l \<le> j \<longrightarrow> ext2fs_fast_test_inode_bitmap2 (Some m) (i * ?ipg + 1 + of_nat j) = 0"
      "if \<exists>j < unat ?ipg. ext2fs_fast_test_inode_bitmap2 (Some m) (i * ?ipg + 1 + of_nat j) \<noteq> 0
       then ext2fs_fast_test_inode_bitmap2 (Some m) (i * ?ipg + 1 + of_nat (unat l - 1)) \<noteq> 0 else l = ?ipg"
      using find_last_inode_spec [OF ipg(1,3), of m] by blast
    let ?f = "\<lambda>gd. gd\<lparr>bg_flags := bg_flags gd AND NOT EXT2_BG_INODE_UNINIT\<rparr>"
    let ?fs' = "ext2fs_group_desc_csum_set (ext2fs_bg_itable_unused_set (upd_group_desc fs i ?f) i (?ipg - l)) i"
    have f: "\<forall>gd. ?f gd = gd\<lparr>bg_flags := (\<lambda>x. x AND NOT EXT2_BG_INODE_UNINIT) (bg_flags gd)\<rparr>" by simp
    note u = gdt_update [OF apart i f refl, of "?ipg - l"]
    have z: "(x AND NOT EXT2_BG_INODE_UNINIT) AND EXT2_BG_INODE_UNINIT = 0" for x
      by (auto simp: bit_eq_iff bit_simps)
    have n: "unat (?ipg - l) = unat ?ipg - unat l" using l(3) by (rule unat_sub)
    have le: "?ipg - l \<le> ?ipg" using n by (simp add: word_le_nat_alt)
    have ll: "unat ?ipg - (unat ?ipg - unat l) = unat l" using l(3) by (simp add: word_le_nat_alt)
    have lt: "?ipg - l < ?ipg" using n l(2,3) by (simp add: word_less_nat_alt word_le_nat_alt)
    have st: "fs_super ?fs' = fs_super fs" "ext2fs_bg_free_inodes_count ?fs' i = ext2fs_bg_free_inodes_count fs i"
      using u(1) by (simp_all add: groups_same_def)
    have fl: "ext2fs_bg_flags_test ?fs' i EXT2_BG_INODE_UNINIT = 0"
      using u(2) z by (simp add: ext2fs_bg_flags_test_def ext2fs_bg_flags_def)
    have un: "ext2fs_bg_itable_unused ?fs' i = ?ipg - l" using u(3) c [OF le] by simp
    have "gdt_group_ok m ?fs' i"
    proof (cases "\<exists>j < unat ?ipg. ext2fs_fast_test_inode_bitmap2 (Some m) (i * ?ipg + 1 + of_nat j) \<noteq> 0")
      case True
      then show ?thesis
        unfolding gdt_group_ok_def Let_def st fl un n ll inode_of_group_def
        using u(4) False l(4) l(5) [unfolded if_P [OF True]] le lt by simp
    next
      case none: False
      then have "?ipg - l = 0" using l(5) by simp
      then show ?thesis
        unfolding gdt_group_ok_def Let_def st fl un inode_of_group_def
        using u(4) False none by auto
    qed
    then show ?thesis using u(1,5) False l(1) by (auto simp: defs Let_def)
  qed
qed

lemma groups_same_loop:
  assumes "groups_same fs fs' i"
  shows "fs_super fs' = fs_super fs" "length (fs_group_desc fs') = length (fs_group_desc fs)"
    "ext2fs_bg_free_inodes_count fs' g = ext2fs_bg_free_inodes_count fs g"
  using assms unfolding groups_same_def
  by (simp, simp, cases "g = i") (simp_all add: ext2fs_bg_free_inodes_count_def [of _ g] Let_def)

lemma set_gdt_csum_loop_ok:
  assumes "i + n \<le> length (fs_group_desc fs)" "i + n < 2 ^ 32"
    "0 < unat (s_inodes_per_group (fs_super fs))"
    "has_64bit (fs_super fs) \<or> unat (s_inodes_per_group (fs_super fs)) < 2 ^ 16"
    "(i + n) * unat (s_inodes_per_group (fs_super fs)) < 2 ^ 32" "desc_apart (fs_super fs)"
  shows "\<exists>fs' d. set_gdt_csum_loop m i n fs dirty = Some (fs', d) \<and> fs_super fs' = fs_super fs \<and>
     (\<forall>g. ext2fs_bg_free_inodes_count fs' g = ext2fs_bg_free_inodes_count fs g) \<and>
     (\<forall>g. \<not> (i \<le> unat g \<and> unat g < i + n) \<longrightarrow> ext2fs_group_desc fs' g = ext2fs_group_desc fs g) \<and>
     (\<forall>g. \<not> (i \<le> unat g \<and> unat g < i + n) \<longrightarrow> gdt_group_ok m fs' g = gdt_group_ok m fs g) \<and>
     (\<forall>g. i \<le> unat g \<and> unat g < i + n \<longrightarrow> gdt_group_ok m fs' g) \<and>
     (\<not> d \<longrightarrow> \<not> dirty \<and> (\<forall>g. ext2fs_group_desc fs' g = ext2fs_group_desc fs g))"
  using assms
proof (induction n arbitrary: i fs dirty)
  case (Suc n)
  let ?i = "of_nat i :: u32"
  have ui: "unat ?i = i" using Suc.prems(2) by (simp add: unat_of_nat)
  have "(i + 1) * unat (s_inodes_per_group (fs_super fs)) \<le> (i + Suc n) * unat (s_inodes_per_group (fs_super fs))"
    by simp
  then have b: "(unat ?i + 1) * unat (s_inodes_per_group (fs_super fs)) < 2 ^ 32"
    using Suc.prems(5) unfolding ui by linarith
  have i: "unat ?i < length (fs_group_desc fs)" using Suc.prems(1) by (simp add: ui)
  obtain fs1 d1 where g: "set_gdt_csum_group m fs ?i = Some (fs1, d1)" "groups_same fs fs1 ?i"
    "gdt_group_ok m fs1 ?i" "\<not> d1 \<longrightarrow> ext2fs_group_desc fs1 ?i = ext2fs_group_desc fs ?i"
    using set_gdt_csum_group_ok [OF Suc.prems(6) i Suc.prems(3,4) b, of m] by blast
  note s = groups_same_loop [OF g(2)]
  have o: "h \<noteq> ?i \<Longrightarrow> ext2fs_group_desc fs1 h = ext2fs_group_desc fs h" for h
    using g(2) by (simp add: groups_same_def)
  have "i + 1 + n \<le> length (fs_group_desc fs1)" "i + 1 + n < 2 ^ 32"
    "0 < unat (s_inodes_per_group (fs_super fs1))"
    "has_64bit (fs_super fs1) \<or> unat (s_inodes_per_group (fs_super fs1)) < 2 ^ 16"
    "(i + 1 + n) * unat (s_inodes_per_group (fs_super fs1)) < 2 ^ 32" "desc_apart (fs_super fs1)"
    using Suc.prems by (simp_all add: s(1,2))
  from Suc.IH [OF this, of "dirty \<or> d1"] obtain fs' d where l:
    "set_gdt_csum_loop m (i + 1) n fs1 (dirty \<or> d1) = Some (fs', d)" "fs_super fs' = fs_super fs1"
    "\<forall>g. ext2fs_bg_free_inodes_count fs' g = ext2fs_bg_free_inodes_count fs1 g"
    "\<forall>g. \<not> (i + 1 \<le> unat g \<and> unat g < i + 1 + n) \<longrightarrow> ext2fs_group_desc fs' g = ext2fs_group_desc fs1 g"
    "\<forall>g. \<not> (i + 1 \<le> unat g \<and> unat g < i + 1 + n) \<longrightarrow> gdt_group_ok m fs' g = gdt_group_ok m fs1 g"
    "\<forall>g. i + 1 \<le> unat g \<and> unat g < i + 1 + n \<longrightarrow> gdt_group_ok m fs' g"
    "\<not> d \<longrightarrow> \<not> (dirty \<or> d1) \<and> (\<forall>g. ext2fs_group_desc fs' g = ext2fs_group_desc fs1 g)"
    by blast
  have eq: "g = ?i \<longleftrightarrow> unat g = i" for g using ui by (auto simp: word_unat_eq_iff)
  have out: "ext2fs_group_desc fs' g = ext2fs_group_desc fs g \<and> gdt_group_ok m fs' g = gdt_group_ok m fs g"
    if "\<not> (i \<le> unat g \<and> unat g < i + Suc n)" for g
  proof -
    have "g \<noteq> ?i" "\<not> (i + 1 \<le> unat g \<and> unat g < i + 1 + n)" using that by (auto simp: eq)
    then show ?thesis using l(4,5) o gdt_group_ok_frame [OF Suc.prems(6) g(2), of g m] by simp
  qed
  have inn: "gdt_group_ok m fs' g" if "i \<le> unat g \<and> unat g < i + Suc n" for g
  proof (cases "g = ?i")
    case True
    then show ?thesis using l(5) g(3) by (simp add: ui)
  qed (use that l(6) in \<open>simp add: eq\<close>)
  have "ext2fs_group_desc fs' g = ext2fs_group_desc fs g" if "\<not> d" for g
    using that l(7) g(4) o [of g] by (cases "g = ?i") auto
  then show ?case
    using g(1) l(1,2,3,7) out inn
    by (intro exI [of _ fs'] exI [of _ d]) (simp add: s)
qed auto

lemma mark_super_dirty_desc [simp]:
  "ext2fs_group_desc (ext2fs_mark_super_dirty fs) g = ext2fs_group_desc fs g"
  "fs_super (ext2fs_mark_super_dirty fs) = fs_super fs"
  by (simp_all add: ext2fs_mark_super_dirty_def ext2fs_group_desc_def Let_def)

lemma gdt_group_ok_flags:
  assumes "desc_apart (fs_super fs)"
  shows "gdt_group_ok m (ext2fs_mark_super_dirty fs) g = gdt_group_ok m fs g"
    "ext2fs_bg_free_inodes_count (ext2fs_mark_super_dirty fs) g = ext2fs_bg_free_inodes_count fs g"
  using group_desc_verify_local [OF assms, of "ext2fs_mark_super_dirty fs" g]
  by (simp_all add: gdt_group_ok_def inode_of_group_def ext2fs_bg_itable_unused_def
      ext2fs_bg_free_inodes_count_def ext2fs_bg_flags_test_def)

section \<open>Properties\<close>

text \<open>
  C21. The table-driven CRC-16 computes, for a 16-bit register, the bitwise CRC of the reflected
  polynomial 0xA001, and two buffers of which exactly one byte differs never have the same CRC.
\<close>

theorem crc16_table_is_bitwise_crc:
  "ext2fs_crc16 (ucast (c :: u16)) bs = ucast (fold (\<lambda>b c. (crc16_shift ^^ 8) (c XOR ucast b)) bs c) \<and>
   (ext2fs_crc16 (ucast c) (xs @ b # ys) = ext2fs_crc16 (ucast c) (xs @ b' # ys) \<longleftrightarrow> b = b')"
proof
  show "ext2fs_crc16 (ucast c) bs = ucast (fold (\<lambda>b c. (crc16_shift ^^ 8) (c XOR ucast b)) bs c)"
    unfolding crc16_fold by (simp add: crc16_byte_def)
  show "ext2fs_crc16 (ucast c) (xs @ b # ys) = ext2fs_crc16 (ucast c) (xs @ b' # ys) \<longleftrightarrow> b = b'"
    unfolding crc16_fold ucast16_eq by (auto dest!: crc16_fold_inj crc16_byte_inj(2))
qed

text \<open>
  C22. On a file system whose descriptors do not reach into each other (descriptors of 64 bytes, or
  of 32 without the 64BIT feature), storing the checksum of a group makes the group verify, whatever
  checksum was there before, leaves every other group's verification and every other field of the
  descriptor as they were, and a descriptor whose stored checksum is not the computed one does not verify.
\<close>

theorem group_desc_csum_set_then_verify:
  assumes "desc_apart (fs_super fs)" "unat g < length (fs_group_desc fs)"
  shows "ext2fs_group_desc_csum_verify (ext2fs_group_desc_csum_set (ext2fs_bg_checksum_set fs g c) g) g \<and>
    (ext2fs_group_desc_csum_verify (ext2fs_bg_checksum_set fs g c) g \<longleftrightarrow>
       \<not> has_gdt_csum fs \<or> c = ext2fs_group_desc_csum fs g) \<and>
    (\<forall>h. h \<noteq> g \<longrightarrow> ext2fs_group_desc_csum_verify (ext2fs_group_desc_csum_set fs g) h =
       ext2fs_group_desc_csum_verify fs h) \<and>
    (ext2fs_group_desc (ext2fs_group_desc_csum_set fs g) g)\<lparr>bg_checksum := x\<rparr> =
      (ext2fs_group_desc fs g)\<lparr>bg_checksum := x\<rparr>"
proof (intro conjI allI impI)
  have l: "desc_apart (fs_super (ext2fs_bg_checksum_set fs g c))"
    "unat g < length (fs_group_desc (ext2fs_bg_checksum_set fs g c))"
    using assms by (simp_all add: ext2fs_bg_checksum_set_def)
  show "ext2fs_group_desc_csum_verify (ext2fs_group_desc_csum_set (ext2fs_bg_checksum_set fs g c) g) g"
    by (rule group_desc_csum_set_verifies [OF l])
  show "ext2fs_group_desc_csum_verify (ext2fs_bg_checksum_set fs g c) g \<longleftrightarrow>
      \<not> has_gdt_csum fs \<or> c = ext2fs_group_desc_csum fs g"
    using assms
    unfolding ext2fs_group_desc_csum_verify_def group_desc_csum_set_same [OF assms] has_gdt_csum_def
    by (simp add: ext2fs_bg_checksum_def ext2fs_bg_checksum_set_def upd_group_desc_same)
  show "ext2fs_group_desc_csum_verify (ext2fs_group_desc_csum_set fs g) h = ext2fs_group_desc_csum_verify fs h"
    if "h \<noteq> g" for h
    using assms(1) that by (intro group_desc_verify_local group_desc_csum_set_frame)
  show "(ext2fs_group_desc (ext2fs_group_desc_csum_set fs g) g)\<lparr>bg_checksum := x\<rparr> =
      (ext2fs_group_desc fs g)\<lparr>bg_checksum := x\<rparr>"
    unfolding group_desc_csum_set_desc [OF assms] by simp
qed

lemma group_desc_csum_set_then_verify_witness:
  "ext2fs_group_desc_csum_verify (ext2fs_group_desc_csum_set (ext2fs_bg_checksum_set fs_sample 2 7) 2) 2"
proof -
  have "desc_apart (fs_super fs_sample)" "unat (2 :: u32) < length (fs_group_desc fs_sample)"
    by (simp_all add: fs_sample_def sb_sample_def desc_apart_def)
  from group_desc_csum_set_then_verify [OF this, of 7] show ?thesis by blast
qed

definition fs_gdt :: filsys where
  "fs_gdt = fs_sample\<lparr>fs_super := sb_sample\<lparr>s_feature_ro_compat := 0x11\<rparr>,
     fs_inode_map := Some (B64 b64_sample)\<rparr>"

text \<open>
  C23. \<open>ext2fs_set_gdt_csum\<close> always ends with success on a file system with descriptor
  checksums whose inode numbers fit in 32 bits, whose descriptors do not reach into each other, and
  whose inodes per group fit in 16 bits where the file system has no 64BIT feature (then the unused
  count has no high half). Then every group verifies; a group whose inodes are all free is marked
  uninitialised with its whole inode table unused; in any other group in which the bitmap has an
  inode in use, the inodes declared unused are exactly those behind the last one in use, and when the
  bitmap has none (although the free count says otherwise) no inode is declared unused; the handle is
  marked dirty whenever a descriptor changed, and the superblock and the free counts stay.
\<close>

theorem set_gdt_csum_establishes:
  assumes "fs_inode_map fs = Some m" "has_gdt_csum fs"
    and "unat (fs_group_desc_count fs) \<le> length (fs_group_desc fs)"
    and "0 < unat (s_inodes_per_group (fs_super fs))"
    and "has_64bit (fs_super fs) \<or> unat (s_inodes_per_group (fs_super fs)) < 2 ^ 16"
    and "unat (fs_group_desc_count fs) * unat (s_inodes_per_group (fs_super fs)) < 2 ^ 32"
    and "desc_apart (fs_super fs)"
  shows "\<exists>fs'. ext2fs_set_gdt_csum fs = Some (Inr fs') \<and>
    (\<forall>g < fs_group_desc_count fs. gdt_group_ok m fs' g \<and>
       ext2fs_bg_free_inodes_count fs' g = ext2fs_bg_free_inodes_count fs g) \<and>
    fs_super fs' = fs_super fs \<and>
    ((\<exists>g. ext2fs_group_desc fs' g \<noteq> ext2fs_group_desc fs g) \<longrightarrow> fs_flags fs' AND EXT2_FLAG_DIRTY \<noteq> 0)"
proof -
  let ?n = "unat (fs_group_desc_count fs)"
  have n: "0 + ?n < 2 ^ 32" using unsigned_less [of "fs_group_desc_count fs"] by simp
  obtain fs' d where l: "set_gdt_csum_loop m 0 ?n fs False = Some (fs', d)" "fs_super fs' = fs_super fs"
    "\<forall>g. ext2fs_bg_free_inodes_count fs' g = ext2fs_bg_free_inodes_count fs g"
    "\<forall>g. 0 \<le> unat g \<and> unat g < 0 + ?n \<longrightarrow> gdt_group_ok m fs' g"
    "\<not> d \<longrightarrow> \<not> False \<and> (\<forall>g. ext2fs_group_desc fs' g = ext2fs_group_desc fs g)"
    using set_gdt_csum_loop_ok [of 0 ?n fs m False] assms(3-7) n by auto
  have e: "ext2fs_set_gdt_csum fs = Some (Inr (if d then ext2fs_mark_super_dirty fs' else fs'))"
    using assms(1,2) l(1) by (simp add: ext2fs_set_gdt_csum_def has_gdt_csum_def)
  have dirty: "fs_flags (ext2fs_mark_super_dirty fs') AND EXT2_FLAG_DIRTY \<noteq> 0"
    by (auto simp: ext2fs_mark_super_dirty_def EXT2_FLAG_DIRTY_def EXT2_FLAG_CHANGED_def bit_eq_iff bit_simps
        intro!: exI [of _ 2])
  have apart: "desc_apart (fs_super fs')" using assms(7) l(2) by simp
  show ?thesis
    unfolding e using l(2-5) dirty gdt_group_ok_flags [OF apart]
    by (intro exI [of _ "if d then ext2fs_mark_super_dirty fs' else fs'"])
      (auto simp: word_less_nat_alt)
qed

lemma set_gdt_csum_establishes_witness:
  "\<exists>fs'. ext2fs_set_gdt_csum fs_gdt = Some (Inr fs') \<and> gdt_group_ok (B64 b64_sample) fs' 2"
proof -
  have h: "fs_inode_map fs_gdt = Some (B64 b64_sample)" "has_gdt_csum fs_gdt"
    "unat (fs_group_desc_count fs_gdt) \<le> length (fs_group_desc fs_gdt)"
    "0 < unat (s_inodes_per_group (fs_super fs_gdt))"
    "has_64bit (fs_super fs_gdt) \<or> unat (s_inodes_per_group (fs_super fs_gdt)) < 2 ^ 16"
    "unat (fs_group_desc_count fs_gdt) * unat (s_inodes_per_group (fs_super fs_gdt)) < 2 ^ 32"
    "desc_apart (fs_super fs_gdt)"
    by (simp_all add: desc_apart_def fs_gdt_def fs_sample_def sb_sample_def has_gdt_csum_def EXT4_FEATURE_RO_COMPAT_GDT_CSUM_def)
  have "(2 :: u32) < fs_group_desc_count fs_gdt" by (simp add: fs_gdt_def fs_sample_def)
  then show ?thesis using set_gdt_csum_establishes [OF h] by blast
qed

text \<open>
  C24. Byte-swapping a group descriptor twice gives it back, for either descriptor size, exactly
  when the high half of the exclude bitmap's block number, which the routine swaps with the
  16-bit swap although it has 32 bits, fits in 16 bits or is not part of the descriptor.
\<close>

theorem swap_group_desc2_twice:
  "ext2fs_swap_group_desc2 super (ext2fs_swap_group_desc2 super gd) = gd \<longleftrightarrow>
     (\<exists>s. super = Some s \<and> s_desc_size s < 64) \<or> bg_exclude_bitmap_hi gd < 0x10000"
proof -
  have u: "ucast (ucast x :: u16) = x \<longleftrightarrow> x < 0x10000" for x :: u32
  proof -
    have "ucast (ucast x :: u16) = x \<longleftrightarrow> take_bit 16 (unat x) = unat x"
      by (simp add: split_field word_unat_eq_iff unsigned_take_bit_eq)
    also have "\<dots> \<longleftrightarrow> x < 0x10000" by (simp add: take_bit_nat_eq_self_iff word_less_nat_alt)
    finally show ?thesis .
  qed
  show ?thesis
  proof (cases "\<exists>s. super = Some s \<and> s_desc_size s < 64")
    case True
    then show ?thesis
      by (cases gd) (auto simp: ext2fs_swap_group_desc2_def swab16_swab16 swab32_swab32)
  next
    case False
    then have c: "(case super of None \<Rightarrow> False | Some s \<Rightarrow> s_desc_size s = 0 \<or> s_desc_size s < 64) = False"
      by (cases super) auto
    have v: "ucast (ucast (y :: u16) :: u32) = y" for y by (rule bit_word_eqI) (auto simp: bit_simps)
    show ?thesis
      using False unfolding ext2fs_swap_group_desc2_def c Let_def
      by (cases gd) (auto simp: swab16_swab16 swab32_swab32 u v)
  qed
qed

end
