(* ===== verification/Byte_Memory.thy ===== *)
theory Byte_Memory
  imports Bitops
begin

text \<open>
  Loads and stores of the big-endian target on a block of bytes, and \<open>memcpy\<close> into one. Two
  blocks \<open>agree\<close> on a range of offsets when they have the same bytes there: what is read
  within the range is then the same.
\<close>

section \<open>Loads and stores\<close>

definition ld16 :: "u8 list \<Rightarrow> nat \<Rightarrow> u16" where
  "ld16 buf p = push_bit 8 (ucast (buf ! p)) OR ucast (buf ! (p + 1))"

definition ld32 :: "u8 list \<Rightarrow> nat \<Rightarrow> u32" where
  "ld32 buf p = push_bit 16 (ucast (ld16 buf p)) OR ucast (ld16 buf (p + 2))"

definition put_bytes :: "u8 list \<Rightarrow> nat \<Rightarrow> u8 list \<Rightarrow> u8 list" where
  "put_bytes buf p xs = take p buf @ xs @ drop (p + length xs) buf"

definition st16 :: "u8 list \<Rightarrow> nat \<Rightarrow> u16 \<Rightarrow> u8 list" where
  "st16 buf p v = put_bytes buf p (mem_be16 v)"

definition st32 :: "u8 list \<Rightarrow> nat \<Rightarrow> u32 \<Rightarrow> u8 list" where
  "st32 buf p v = put_bytes buf p (mem_be32 v)"

section \<open>Facts\<close>

lemma length_put_bytes [simp]: "p + length xs \<le> length buf \<Longrightarrow> length (put_bytes buf p xs) = length buf"
  by (simp add: put_bytes_def)

lemma nth_put_bytes:
  "p + length xs \<le> length buf \<Longrightarrow>
     put_bytes buf p xs ! i = (if p \<le> i \<and> i < p + length xs then xs ! (i - p) else buf ! i)"
proof (cases "i < p + length xs")
  case False
  assume "p + length xs \<le> length buf"
  moreover have "put_bytes buf p xs = (take p buf @ xs) @ drop (p + length xs) buf"
    by (simp add: put_bytes_def)
  moreover have "length (take p buf @ xs) = p + length xs" using calculation(1) by simp
  ultimately have "put_bytes buf p xs ! i = drop (p + length xs) buf ! (i - (p + length xs))"
    using False by (simp only: nth_append if_False)
  also have "\<dots> = buf ! (p + length xs + (i - (p + length xs)))"
    using \<open>p + length xs \<le> length buf\<close> by (rule nth_drop)
  finally show ?thesis using False by simp
qed (auto simp: put_bytes_def nth_append min_def)

lemma length_st [simp]:
  "p + 2 \<le> length buf \<Longrightarrow> length (st16 buf p v) = length buf"
  "p + 4 \<le> length buf \<Longrightarrow> length (st32 buf p w) = length buf"
  by (simp_all add: st16_def st32_def mem_be16_def mem_be32_def)

lemma nth_st16:
  "p + 2 \<le> length buf \<Longrightarrow>
     st16 buf p v ! i = (if i = p then ucast (drop_bit 8 v) else if i = p + 1 then ucast v else buf ! i)"
  by (auto simp: st16_def mem_be16_def nth_put_bytes nth_Cons' less_Suc_eq)

lemma nth_st32:
  "p + 4 \<le> length buf \<Longrightarrow>
     st32 buf p v ! i = (if i = p then ucast (drop_bit 24 v) else if i = p + 1 then ucast (drop_bit 16 v)
       else if i = p + 2 then ucast (drop_bit 8 v) else if i = p + 3 then ucast v else buf ! i)"
  by (auto simp: st32_def mem_be32_def nth_put_bytes nth_Cons' less_Suc_eq)

lemma ld16_st16: "p + 2 \<le> length buf \<Longrightarrow> ld16 (st16 buf p v) p = v"
  unfolding ld16_def
  by (simp add: nth_st16) (rule bit_word_eqI, auto simp: bit_simps dest: bit_imp_le_length)

lemma ld32_st32: "p + 4 \<le> length buf \<Longrightarrow> ld32 (st32 buf p v) p = v"
proof (rule bit_word_eqI)
  fix n assume "p + 4 \<le> length buf" "n < LENGTH(32)"
  then show "bit (ld32 (st32 buf p v) p) n = bit v n"
    unfolding ld32_def ld16_def
    by (cases "n < 8"; cases "n < 16"; cases "n < 24")
      (simp_all add: nth_st32 bit_simps not_less, auto simp: less_diff_conv2)
qed

lemma ld_bytes:
  "mem_be16 (ld16 buf p) = [buf ! p, buf ! (p + 1)]"
  "mem_be32 (ld32 buf p) = [buf ! p, buf ! (p + 1), buf ! (p + 2), buf ! (p + 3)]"
  unfolding mem_be16_def mem_be32_def ld16_def ld32_def add.assoc list.inject
  by (intro conjI refl bit_word_eqI; auto simp: bit_simps dest: bit_imp_le_length)+

lemma mem_be_swab:
  "mem_be16 (ext2fs_swab16 v) = rev (mem_be16 v)"
  "mem_be32 (ext2fs_swab32 w) = rev (mem_be32 w)"
  by (simp_all only: mem_be16_swab mem_be32_swab) (simp_all add: mem_be16_def mem_be32_def)

text \<open>Two buffers that agree on a range of offsets.\<close>

definition agree :: "u8 list \<Rightarrow> u8 list \<Rightarrow> nat \<Rightarrow> nat \<Rightarrow> bool" where
  "agree A B a b \<longleftrightarrow> length A = length B \<and> (\<forall>i. a \<le> i \<and> i < b \<longrightarrow> A ! i = B ! i)"

lemma agreeD: "agree A B a b \<Longrightarrow> a \<le> i \<Longrightarrow> i < b \<Longrightarrow> A ! i = B ! i"
  by (simp add: agree_def)

lemma agree_refl [simp]: "agree A A a b"
  by (simp add: agree_def)

lemma agree_trans: "agree A B a b \<Longrightarrow> agree B C a b \<Longrightarrow> agree A C a b"
  by (simp add: agree_def)

lemma agree_sym: "agree A B a b \<Longrightarrow> agree B A a b"
  by (simp add: agree_def)

lemma agree_sub: "agree A B a b \<Longrightarrow> a \<le> a' \<Longrightarrow> b' \<le> b \<Longrightarrow> agree A B a' b'"
  by (simp add: agree_def)

lemma agree_all: "agree A B 0 (length A) \<Longrightarrow> A = B"
  by (simp add: agree_def list_eq_iff_nth_eq)

lemma agree_ld:
  "agree A B a b \<Longrightarrow> a \<le> p \<Longrightarrow> p + 2 \<le> b \<Longrightarrow> ld16 A p = ld16 B p"
  "agree A B a b \<Longrightarrow> a \<le> p \<Longrightarrow> p + 4 \<le> b \<Longrightarrow> ld32 A p = ld32 B p"
  by (simp_all add: ld32_def ld16_def agreeD)

lemma agree_stores:
  "p + 2 \<le> length buf \<Longrightarrow> b \<le> p \<or> p + 2 \<le> a \<Longrightarrow> agree (st16 buf p v) buf a b"
  "p + 4 \<le> length buf \<Longrightarrow> b \<le> p \<or> p + 4 \<le> a \<Longrightarrow> agree (st32 buf p w) buf a b"
  "p + length xs \<le> length buf \<Longrightarrow> b \<le> p \<or> p + length xs \<le> a \<Longrightarrow> agree (put_bytes buf p xs) buf a b"
  by (auto simp: agree_def nth_st16 nth_st32 nth_put_bytes)

end
