(* ===== verification/Dir_Block.thy ===== *)
theory Dir_Block
  imports Io_Manager Byte_Memory
begin

text \<open>
  Directory blocks: the record lengths and the walk over the entries of a block
  (\<open>source/dir_iterate.c\<close>), the byte swap of a block on its way from and to the device
  (\<open>source/dirblock.c\<close>), fresh blocks (\<open>source/newdir.c\<close>), and the callbacks of
  \<open>source/lookup.c\<close>, \<open>source/link.c\<close> and \<open>source/unlink.c\<close>. A block is the
  list of its bytes in the memory of the big-endian target; an entry is its offset. The lemmas are
  about blocks that are tiled by well-formed entries: a locale states what a callback has to keep
  so that the walk ends and keeps the block tiled, and the three callbacks interpret it.
\<close>

section \<open>Entries in memory\<close>

text \<open>\<open>struct ext2_dir_entry\<close>: inode at 0, rec_len at 4, name_len at 6, name at 8.\<close>

definition de_inode :: "u8 list \<Rightarrow> nat \<Rightarrow> u32" where "de_inode buf p = ld32 buf p"
definition de_rec_len :: "u8 list \<Rightarrow> nat \<Rightarrow> u16" where "de_rec_len buf p = ld16 buf (p + 4)"
definition de_name_len :: "u8 list \<Rightarrow> nat \<Rightarrow> u16" where "de_name_len buf p = ld16 buf (p + 6)"
definition de_name :: "u8 list \<Rightarrow> nat \<Rightarrow> nat \<Rightarrow> u8 list" where "de_name buf p n = take n (drop (p + 8) buf)"

definition set_de_inode :: "u8 list \<Rightarrow> nat \<Rightarrow> u32 \<Rightarrow> u8 list" where "set_de_inode buf p v = st32 buf p v"
definition set_de_rec_len :: "u8 list \<Rightarrow> nat \<Rightarrow> u16 \<Rightarrow> u8 list" where "set_de_rec_len buf p v = st16 buf (p + 4) v"
definition set_de_name_len :: "u8 list \<Rightarrow> nat \<Rightarrow> u16 \<Rightarrow> u8 list" where "set_de_name_len buf p v = st16 buf (p + 6) v"

definition EXT2_DIR_REC_LEN :: "u32 \<Rightarrow> u32" where
  "EXT2_DIR_REC_LEN name_len = (name_len + 8 + 3) AND NOT 3"

definition DIRENT_CHANGED :: u32 where "DIRENT_CHANGED = 1"
definition DIRENT_ABORT :: u32 where "DIRENT_ABORT = 2"
definition DIRENT_FLAG_INCLUDE_EMPTY :: u32 where "DIRENT_FLAG_INCLUDE_EMPTY = 1"
definition DIRENT_FLAG_INCLUDE_REMOVED :: u32 where "DIRENT_FLAG_INCLUDE_REMOVED = 2"
definition DIRENT_DOT_FILE :: int where "DIRENT_DOT_FILE = 1"
definition DIRENT_OTHER_FILE :: int where "DIRENT_OTHER_FILE = 3"
definition DIRENT_DELETED_FILE :: int where "DIRENT_DELETED_FILE = 4"
definition EXT2_DIRBLOCK_V2_STRUCT :: u32 where "EXT2_DIRBLOCK_V2_STRUCT = 1"
definition EXT2_FEATURE_INCOMPAT_FILETYPE :: u32 where "EXT2_FEATURE_INCOMPAT_FILETYPE = 0x0002"
definition EXT4_MAX_REC_LEN :: u32 where "EXT4_MAX_REC_LEN = 65535"

section \<open>Record lengths\<close>

text \<open>
  \<open>ext2fs_get_rec_len\<close> always returns 0 beside the length, so its callers' error branches
  are dead.
\<close>

definition ext2fs_get_rec_len :: "filsys \<Rightarrow> u8 list \<Rightarrow> nat \<Rightarrow> u32" where
  "ext2fs_get_rec_len fs buf dirent =
     (let len = ucast (de_rec_len buf dirent) :: u32 in
      if fs_blocksize fs < 65536 then len
      else if len = EXT4_MAX_REC_LEN \<or> len = 0 then fs_blocksize fs
      else (len AND 65532) OR push_bit 16 (len AND 3))"

definition ext2fs_set_rec_len :: "filsys \<Rightarrow> u32 \<Rightarrow> u8 list \<Rightarrow> nat \<Rightarrow> u8 list result" where
  "ext2fs_set_rec_len fs len buf dirent =
     (if len > fs_blocksize fs \<or> fs_blocksize fs > 2 ^ 18 \<or> len AND 3 \<noteq> 0 then Inl EINVAL
      else if len < 65536 then Inr (set_de_rec_len buf dirent (ucast len))
      else if len = fs_blocksize fs then
        (if fs_blocksize fs = 65536 then Inr (set_de_rec_len buf dirent (ucast EXT4_MAX_REC_LEN))
         else Inr (set_de_rec_len buf dirent 0))
      else Inr (set_de_rec_len buf dirent (ucast ((len AND 65532) OR (drop_bit 16 len AND 3)))))"

text \<open>The checks of a record that starts at \<open>off\<close>.\<close>

definition bad_rec_len :: "u32 \<Rightarrow> u16 \<Rightarrow> bool" where
  "bad_rec_len rec_len name_len \<longleftrightarrow>
     rec_len < 8 \<or> rec_len mod 4 \<noteq> 0 \<or> (ucast name_len AND 0xFF) + 8 > rec_len"

partial_function (option) ext2fs_validate_entry :: "filsys \<Rightarrow> u8 list \<Rightarrow> u32 \<Rightarrow> u32 \<Rightarrow> bool option" where
  "ext2fs_validate_entry fs buf off final_offset =
     (if off < final_offset \<and> off \<le> fs_blocksize fs - 12 then
        (let rec_len = ext2fs_get_rec_len fs buf (unat off) in
         if bad_rec_len rec_len (de_name_len buf (unat off)) then Some False
         else ext2fs_validate_entry fs buf (off + rec_len) final_offset)
      else Some (off = final_offset))"

declare ext2fs_validate_entry.simps [code, simp del]

section \<open>From and to the device\<close>

text \<open>
  The three header fields of an entry, swapped after reading and before writing; the file type flag
  swaps the length again.
\<close>

definition swap_dirent_in :: "u32 \<Rightarrow> u8 list \<Rightarrow> nat \<Rightarrow> u8 list" where
  "swap_dirent_in flags buf p =
     (let buf = set_de_inode buf p (ext2fs_swab32 (de_inode buf p));
          buf = set_de_rec_len buf p (ext2fs_swab16 (de_rec_len buf p));
          buf = set_de_name_len buf p (ext2fs_swab16 (de_name_len buf p))
      in if flags AND EXT2_DIRBLOCK_V2_STRUCT \<noteq> 0 then set_de_name_len buf p (ext2fs_swab16 (de_name_len buf p))
         else buf)"

definition swap_dirent :: "u32 \<Rightarrow> u8 list \<Rightarrow> nat \<Rightarrow> u8 list" where
  "swap_dirent flags buf p =
     (let buf = set_de_inode buf p (ext2fs_swab32 (de_inode buf p));
          buf = set_de_rec_len buf p (ext2fs_swab16 (de_rec_len buf p));
          buf = set_de_name_len buf p (ext2fs_swab16 (de_name_len buf p))
      in if flags AND EXT2_DIRBLOCK_V2_STRUCT \<noteq> 0 then set_de_name_len buf p (ext2fs_swab16 (de_name_len buf p))
         else buf)"

text \<open>
  The loop of \<open>ext2fs_read_dir_block3\<close>, \<open>while (p < end-8)\<close>, offsets from the buffer. The length used for the
  check of the name is taken before the swap of the file type flag. \<open>retval\<close> is
  overwritten in every round by the result, 0, of \<open>ext2fs_get_rec_len\<close>.
\<close>

function read_swap_loop :: "filsys \<Rightarrow> u32 \<Rightarrow> u8 list \<Rightarrow> nat \<Rightarrow> unit result \<Rightarrow> unit result \<times> u8 list" where
  "read_swap_loop fs flags buf p retval =
     (if p + 8 < unat (fs_blocksize fs) then
        let name_len = ext2fs_swab16 (de_name_len buf p);
            buf = swap_dirent_in flags buf p;
            rec_len = ext2fs_get_rec_len fs buf p
        in
        if rec_len < 8 \<or> rec_len mod 4 \<noteq> 0 then read_swap_loop fs flags buf (p + 8) (Inl EXT2_ET_DIR_CORRUPTED)
        else read_swap_loop fs flags buf (p + unat rec_len)
          (if (ucast name_len AND 0xFF) + 8 > rec_len then Inl EXT2_ET_DIR_CORRUPTED else Inr ())
      else (retval, buf))"
  by pat_completeness auto
termination
  by (relation "measure (\<lambda>(fs, _, _, p, _). unat (fs_blocksize fs) - p)") (auto simp: word_less_nat_alt)

declare read_swap_loop.simps [simp del]

definition ext2fs_read_dir_block3 :: "filsys \<Rightarrow> 'd io_channel \<Rightarrow> u64 \<Rightarrow> u32 \<Rightarrow> u8 list result \<times> 'd io_channel" where
  "ext2fs_read_dir_block3 fs io block flags =
     (case io_channel_read_blk64 io block 1 of
        (Inl e, io) \<Rightarrow> (Inl e, io)
      | (Inr buf, io) \<Rightarrow>
          (case read_swap_loop fs flags buf 0 (Inr ()) of
             (Inl e, buf) \<Rightarrow> (Inl e, io)
           | (Inr _, buf) \<Rightarrow> (Inr buf, io)))"

definition ext2fs_read_dir_block2 :: "filsys \<Rightarrow> 'd io_channel \<Rightarrow> u32 \<Rightarrow> u32 \<Rightarrow> u8 list result \<times> 'd io_channel" where
  "ext2fs_read_dir_block2 fs io block flags = ext2fs_read_dir_block3 fs io (ucast block) flags"

definition ext2fs_read_dir_block :: "filsys \<Rightarrow> 'd io_channel \<Rightarrow> u32 \<Rightarrow> u8 list result \<times> 'd io_channel" where
  "ext2fs_read_dir_block fs io block = ext2fs_read_dir_block3 fs io (ucast block) 0"

function write_swap_loop :: "filsys \<Rightarrow> u32 \<Rightarrow> u8 list \<Rightarrow> nat \<Rightarrow> u8 list result" where
  "write_swap_loop fs flags buf p =
     (if p < unat (fs_blocksize fs) then
        let rec_len = ext2fs_get_rec_len fs buf p in
        if rec_len < 8 \<or> rec_len mod 4 \<noteq> 0 then Inl EXT2_ET_DIR_CORRUPTED
        else write_swap_loop fs flags (swap_dirent flags buf p) (p + unat rec_len)
      else Inr buf)"
  by pat_completeness auto
termination
  by (relation "measure (\<lambda>(fs, _, _, p). unat (fs_blocksize fs) - p)") (auto simp: word_less_nat_alt)

declare write_swap_loop.simps [simp del]

definition ext2fs_write_dir_block3 ::
  "u8 heap \<Rightarrow> filsys \<Rightarrow> 'd io_channel \<Rightarrow> u64 \<Rightarrow> u8 list \<Rightarrow> u32 \<Rightarrow> unit result \<times> 'd io_channel" where
  "ext2fs_write_dir_block3 h fs io block inbuf flags =
     (case ext2fs_get_mem h (unat (fs_blocksize fs)) of
        Inl e \<Rightarrow> (Inl e, io)
      | Inr _ \<Rightarrow>
          (case write_swap_loop fs flags inbuf 0 of
             Inl e \<Rightarrow> (Inl e, io)
           | Inr buf \<Rightarrow> io_channel_write_blk64 io block 1 buf))"

definition ext2fs_write_dir_block2 ::
  "u8 heap \<Rightarrow> filsys \<Rightarrow> 'd io_channel \<Rightarrow> u32 \<Rightarrow> u8 list \<Rightarrow> u32 \<Rightarrow> unit result \<times> 'd io_channel" where
  "ext2fs_write_dir_block2 h fs io block inbuf flags = ext2fs_write_dir_block3 h fs io (ucast block) inbuf flags"

definition ext2fs_write_dir_block ::
  "u8 heap \<Rightarrow> filsys \<Rightarrow> 'd io_channel \<Rightarrow> u32 \<Rightarrow> u8 list \<Rightarrow> unit result \<times> 'd io_channel" where
  "ext2fs_write_dir_block h fs io block inbuf = ext2fs_write_dir_block3 h fs io (ucast block) inbuf 0"


section \<open>The walk over a block\<close>

text \<open>
  What a callback gets: the directory, the kind of the entry, the offset of the entry (its
  address is the buffer plus the offset), the block size and the buffer. It returns its flags, the
  buffer and its private data.
\<close>

type_synonym 's dir_func = "u32 \<Rightarrow> int \<Rightarrow> nat \<Rightarrow> int \<Rightarrow> u8 list \<Rightarrow> 's \<Rightarrow> u32 \<times> u8 list \<times> 's"

record 's dir_context =
  ctx_dir :: u32
  ctx_flags :: u32
  ctx_func :: "'s dir_func"

text \<open>The local variables of \<open>ext2fs_process_dir_block\<close>.\<close>

record 's dir_walk =
  w_buf :: "u8 list"
  w_offset :: u32
  w_next :: u32
  w_entry :: int
  w_changed :: bool
  w_priv :: 's

datatype 's walk_end = Walk_Corrupted "u8 list" 's | Walk_Done "u8 list" bool bool 's

text \<open>\<open>while (offset < final_offset && !ext2fs_validate_entry(...)) offset += 4\<close>.\<close>

partial_function (option) skip_to_valid :: "filsys \<Rightarrow> u8 list \<Rightarrow> u32 \<Rightarrow> u32 \<Rightarrow> u32 option" where
  "skip_to_valid fs buf off final_offset =
     (if off < final_offset then
        (case ext2fs_validate_entry fs buf off final_offset of
           None \<Rightarrow> None
         | Some valid \<Rightarrow> if valid then Some off else skip_to_valid fs buf (off + 4) final_offset)
      else Some off)"

declare skip_to_valid.simps [code, simp del]

text \<open>From the label \<open>next\<close> to the end of the loop body.\<close>

definition dir_walk_next :: "filsys \<Rightarrow> 's dir_context \<Rightarrow> u32 \<Rightarrow> 's dir_walk \<Rightarrow> 's dir_walk option" where
  "dir_walk_next fs ctx rec_len w =
     (let offset = w_offset w;
          w = (if w_next w = offset then w\<lparr>w_next := w_next w + rec_len\<rparr> else w);
          size = ((ucast (de_name_len (w_buf w) (unat offset)) AND 0xFF) + 11) AND NOT 3
      in
      if ctx_flags ctx AND DIRENT_FLAG_INCLUDE_REMOVED \<noteq> 0 \<and> rec_len \<noteq> size then
        map_option (\<lambda>off. w\<lparr>w_offset := off\<rparr>) (skip_to_valid fs (w_buf w) (offset + size) (offset + rec_len))
      else Some (w\<lparr>w_offset := offset + rec_len\<rparr>))"

text \<open>One round: the checks of the record, the callback, the step to the next record.\<close>

definition dir_walk_step :: "filsys \<Rightarrow> 's dir_context \<Rightarrow> 's dir_walk \<Rightarrow> ('s walk_end + 's dir_walk) option" where
  "dir_walk_step fs ctx w =
     (let offset = w_offset w; dirent = unat offset; buf = w_buf w;
          rec_len = ext2fs_get_rec_len fs buf dirent
      in
      if offset + rec_len > fs_blocksize fs \<or> bad_rec_len rec_len (de_name_len buf dirent) then
        Some (Inl (Walk_Corrupted buf (w_priv w)))
      else if de_inode buf dirent = 0 \<and> ctx_flags ctx AND DIRENT_FLAG_INCLUDE_EMPTY = 0 then
        map_option Inr (dir_walk_next fs ctx rec_len w)
      else
        let (ret, buf, priv) =
              ctx_func ctx (ctx_dir ctx) (if w_next w > offset then DIRENT_DELETED_FILE else w_entry w)
                dirent (int (unat (fs_blocksize fs))) buf (w_priv w);
            w = w\<lparr>w_buf := buf, w_priv := priv,
                  w_entry := (if w_entry w < DIRENT_OTHER_FILE then w_entry w + 1 else w_entry w)\<rparr>;
            (rec_len, w) = (if ret AND DIRENT_CHANGED \<noteq> 0
                            then (ext2fs_get_rec_len fs buf dirent, w\<lparr>w_changed := True\<rparr>) else (rec_len, w))
        in
        if ret AND DIRENT_ABORT \<noteq> 0 then Some (Inl (Walk_Done buf (w_changed w) True priv))
        else map_option Inr (dir_walk_next fs ctx rec_len w))"

partial_function (option) dir_walk_loop :: "filsys \<Rightarrow> 's dir_context \<Rightarrow> 's dir_walk \<Rightarrow> 's walk_end option" where
  "dir_walk_loop fs ctx w =
     (if w_offset w < fs_blocksize fs then
        (case dir_walk_step fs ctx w of
           None \<Rightarrow> None
         | Some r \<Rightarrow> (case r of Inl e \<Rightarrow> Some e | Inr w \<Rightarrow> dir_walk_loop fs ctx w))
      else Some (Walk_Done (w_buf w) (w_changed w) False (w_priv w)))"

declare dir_walk_loop.simps [code, simp del]

definition BLOCK_ABORT :: u32 where "BLOCK_ABORT = 2"

text \<open>
  The result: the flags for the block iterator, the error left in the context, the private data
  and the channel; \<open>None\<close> when the walk does not end. \<open>blockcnt\<close> is a signed
  64-bit number.
\<close>

definition ext2fs_process_dir_block ::
  "u8 heap \<Rightarrow> filsys \<Rightarrow> 'd io_channel \<Rightarrow> 's dir_context \<Rightarrow> u64 \<Rightarrow> int \<Rightarrow> errcode option \<Rightarrow> 's
     \<Rightarrow> (u32 \<times> errcode option \<times> 's \<times> 'd io_channel) option" where
  "ext2fs_process_dir_block h fs io ctx blocknr blockcnt errcode s =
     (if blockcnt < 0 then Some (0, errcode, s, io)
      else
        let entry = (if blockcnt \<noteq> 0 then DIRENT_OTHER_FILE else DIRENT_DOT_FILE) in
        case ext2fs_read_dir_block3 fs io blocknr 0 of
          (Inl e, io) \<Rightarrow> Some (BLOCK_ABORT, Some e, s, io)
        | (Inr buf, io) \<Rightarrow>
            (case dir_walk_loop fs ctx \<lparr>w_buf = buf, w_offset = 0, w_next = 0, w_entry = entry,
                    w_changed = False, w_priv = s\<rparr> of
               None \<Rightarrow> None
             | Some (Walk_Corrupted buf s) \<Rightarrow> Some (BLOCK_ABORT, Some EXT2_ET_DIR_CORRUPTED, s, io)
             | Some (Walk_Done buf changed do_abort s) \<Rightarrow>
                 if changed then
                   (case ext2fs_write_dir_block3 h fs io blocknr buf 0 of
                      (Inl e, io) \<Rightarrow> Some (BLOCK_ABORT, Some e, s, io)
                    | (Inr _, io) \<Rightarrow> Some (if do_abort then BLOCK_ABORT else 0, None, s, io))
                 else Some (if do_abort then BLOCK_ABORT else 0, None, s, io)))"

section \<open>Fresh blocks\<close>

definition EXT2_FT_DIR :: u16 where "EXT2_FT_DIR = 2"

definition ext2fs_new_dir_block :: "u8 heap \<Rightarrow> filsys \<Rightarrow> u32 \<Rightarrow> u32 \<Rightarrow> u8 list result" where
  "ext2fs_new_dir_block h fs dir_ino parent_ino =
     (if fs_magic fs \<noteq> EXT2_ET_MAGIC_EXT2FS_FILSYS then Inl EXT2_ET_MAGIC_EXT2FS_FILSYS
      else case ext2fs_get_mem h (unat (fs_blocksize fs)) of
        Inl e \<Rightarrow> Inl e
      | Inr _ \<Rightarrow>
          let buf = replicate (unat (fs_blocksize fs)) 0 in
          case ext2fs_set_rec_len fs (fs_blocksize fs) buf 0 of
            Inl e \<Rightarrow> Inl e
          | Inr buf \<Rightarrow>
              if dir_ino = 0 then Inr buf
              else
                let filetype = (if s_feature_incompat (fs_super fs) AND EXT2_FEATURE_INCOMPAT_FILETYPE \<noteq> 0
                                then push_bit 8 EXT2_FT_DIR else 0);
                    buf = set_de_inode buf 0 dir_ino;
                    buf = set_de_name_len buf 0 (1 OR filetype);
                    buf = put_bytes buf 8 [0x2E];
                    rec_len = fs_blocksize fs - EXT2_DIR_REC_LEN 1;
                    buf = set_de_rec_len buf 0 (ucast (EXT2_DIR_REC_LEN 1));
                    dir = unat (de_rec_len buf 0)
                in
                case ext2fs_set_rec_len fs rec_len buf dir of
                  Inl e \<Rightarrow> Inl e
                | Inr buf \<Rightarrow>
                    let buf = set_de_inode buf dir parent_ino;
                        buf = set_de_name_len buf dir (2 OR filetype);
                        buf = put_bytes buf (dir + 8) [0x2E, 0x2E]
                    in Inr buf)"

section \<open>The callbacks\<close>

text \<open>\<open>strncmp(a, b, n) = 0\<close>: equal up to \<open>n\<close> characters or a common terminator.\<close>

fun strncmp_eq :: "nat \<Rightarrow> u8 list \<Rightarrow> u8 list \<Rightarrow> bool" where
  "strncmp_eq (Suc n) (x # xs) (y # ys) \<longleftrightarrow> x = y \<and> (x = 0 \<or> strncmp_eq n xs ys)"
| "strncmp_eq _ _ _ \<longleftrightarrow> True"

text \<open>\<open>struct lookup_struct\<close>: the name, its length, and where the inode number goes.\<close>

record lookup_struct =
  lk_name :: "u8 list"
  lk_len :: nat
  lk_inode :: u32
  lk_found :: nat

definition lookup_proc :: "lookup_struct dir_func" where
  "lookup_proc dir entry dirent blocksize buf ls =
     (let nl = unat (de_name_len buf dirent AND 0xFF) in
      if lk_len ls \<noteq> nl then (0, buf, ls)
      else if \<not> strncmp_eq nl (lk_name ls) (de_name buf dirent nl) then (0, buf, ls)
      else (DIRENT_ABORT, buf, ls\<lparr>lk_inode := de_inode buf dirent, lk_found := lk_found ls + 1\<rparr>))"

text \<open>\<open>struct link_struct\<close> of link.c; \<open>namelen\<close> is the length of the name.\<close>

record link_struct =
  ln_name :: "u8 list"
  ln_inode :: u32
  ln_flags :: u32
  ln_done :: nat
  ln_err :: "errcode option"

text \<open>Absorb the following entry when it is unused; the current length and whether it changed.\<close>

definition link_absorb :: "filsys \<Rightarrow> nat \<Rightarrow> int \<Rightarrow> u8 list \<Rightarrow> (u32 \<times> bool \<times> u8 list) result" where
  "link_absorb fs dirent blocksize buf =
     (let curr_rec_len = ext2fs_get_rec_len fs buf dirent;
          nxt = dirent + unat curr_rec_len
      in
      if int dirent + sint curr_rec_len < blocksize - 8 \<and> de_inode buf nxt = 0 \<and>
         int dirent + sint curr_rec_len + int (unat (de_rec_len buf nxt)) \<le> blocksize
      then
        let curr_rec_len = curr_rec_len + ucast (de_rec_len buf nxt) in
        case ext2fs_set_rec_len fs curr_rec_len buf dirent of
          Inl e \<Rightarrow> Inl e
        | Inr buf \<Rightarrow> Inr (curr_rec_len, True, buf)
      else Inr (curr_rec_len, False, buf))"

text \<open>Split a used entry when the rest has room for \<open>rec_len\<close> bytes.\<close>

definition link_split :: "filsys \<Rightarrow> nat \<Rightarrow> u32 \<Rightarrow> u32 \<Rightarrow> u8 list \<Rightarrow> unit result \<times> u8 list" where
  "link_split fs dirent curr_rec_len min_rec_len buf =
     (case ext2fs_set_rec_len fs min_rec_len buf dirent of
        Inl e \<Rightarrow> (Inl e, buf)
      | Inr buf \<Rightarrow>
          let nxt = dirent + unat (de_rec_len buf dirent);
              buf = set_de_inode buf nxt 0;
              buf = set_de_name_len buf nxt 0
          in (case ext2fs_set_rec_len fs (curr_rec_len - min_rec_len) buf nxt of
                Inl e \<Rightarrow> (Inl e, buf)
              | Inr buf \<Rightarrow> (Inr (), buf)))"

definition link_proc :: "filsys \<Rightarrow> link_struct dir_func" where
  "link_proc fs dir entry dirent blocksize buf ls =
     (let rec_len = EXT2_DIR_REC_LEN (of_nat (length (ln_name ls))) in
      case link_absorb fs dirent blocksize buf of
        Inl e \<Rightarrow> (DIRENT_ABORT, buf, ls\<lparr>ln_err := Some e\<rparr>)
      | Inr (curr_rec_len, absorbed, buf) \<Rightarrow>
          let ret = (if absorbed then DIRENT_CHANGED else 0);
              ls = ls\<lparr>ln_err := None\<rparr>
          in
          if de_inode buf dirent \<noteq> 0 then
            let min_rec_len = EXT2_DIR_REC_LEN (ucast (de_name_len buf dirent) AND 0xFF) in
            if curr_rec_len < min_rec_len + rec_len then (ret, buf, ls)
            else
              (case link_split fs dirent curr_rec_len min_rec_len buf of
                 (Inl e, buf) \<Rightarrow> (DIRENT_ABORT, buf, ls\<lparr>ln_err := Some e\<rparr>)
               | (Inr _, buf) \<Rightarrow> (DIRENT_CHANGED, buf, ls))
          else if curr_rec_len < rec_len then (ret, buf, ls)
          else
            let buf = set_de_inode buf dirent (ln_inode ls);
                buf = set_de_name_len buf dirent (of_nat (length (ln_name ls)));
                buf = put_bytes buf (dirent + 8) (ln_name ls);
                buf = (if s_feature_incompat (fs_super fs) AND EXT2_FEATURE_INCOMPAT_FILETYPE \<noteq> 0
                       then set_de_name_len buf dirent
                              (de_name_len buf dirent OR push_bit 8 (ucast (ln_flags ls AND 7)))
                       else buf)
            in (DIRENT_ABORT OR DIRENT_CHANGED, buf, ls\<lparr>ln_done := ln_done ls + 1\<rparr>))"

text \<open>\<open>struct link_struct\<close> of unlink.c; a null name is \<open>None\<close>.\<close>

record unlink_struct =
  ul_name :: "u8 list option"
  ul_inode :: u32
  ul_prev :: "nat option"
  ul_done :: nat

definition unlink_proc :: "unlink_struct dir_func" where
  "unlink_proc dir entry dirent blocksize buf ls =
     (let prev = ul_prev ls;
          ls = ls\<lparr>ul_prev := Some dirent\<rparr>;
          nl = unat (de_name_len buf dirent AND 0xFF)
      in
      if (case ul_name ls of None \<Rightarrow> False
          | Some name \<Rightarrow> nl \<noteq> length name \<or> \<not> strncmp_eq nl name (de_name buf dirent nl)) then (0, buf, ls)
      else if (if ul_inode ls \<noteq> 0 then de_inode buf dirent \<noteq> ul_inode ls else de_inode buf dirent = 0) then (0, buf, ls)
      else
        let buf = (if dirent \<noteq> 0 then
                     (case prev of None \<Rightarrow> buf
                      | Some p \<Rightarrow> set_de_rec_len buf p (de_rec_len buf p + de_rec_len buf dirent))
                   else set_de_inode buf dirent 0)
        in (DIRENT_ABORT OR DIRENT_CHANGED, buf, ls\<lparr>ul_done := ul_done ls + 1\<rparr>))"

end
