(* ===== verification/Dir_Ops.thy ===== *)
theory Dir_Ops
  imports Dir_Block
begin

text \<open>
  What the operations on directory blocks do, over the definitions of \<open>Dir_Block\<close>. A block is
  well-formed when its records tile it (\<open>tiles\<close>); its contents are the entries in use
  (\<open>live\<close>). The locale \<open>dir_visitor\<close> proves the walk once, for every callback that
  keeps an invariant of the tiling; lookup, link and unlink interpret it.
\<close>

section \<open>Fields\<close>

lemma agree_fields:
  assumes "agree A B a b" "a \<le> p" "p + 8 \<le> b"
  shows "de_inode A p = de_inode B p" "de_rec_len A p = de_rec_len B p" "de_name_len A p = de_name_len B p"
  using assms agree_ld [OF assms(1)]
  by (auto simp: de_inode_def de_rec_len_def de_name_len_def)

lemma agree_name:
  "agree A B a b \<Longrightarrow> a \<le> p + 8 \<Longrightarrow> p + 8 + n \<le> b \<Longrightarrow> de_name A p n = de_name B p n"
  by (auto simp: de_name_def agree_def list_eq_iff_nth_eq)

lemmas set_de_defs = set_de_inode_def set_de_rec_len_def set_de_name_len_def

lemma length_set_de [simp]:
  "p + 8 \<le> length buf \<Longrightarrow> length (set_de_inode buf p i) = length buf"
  "p + 8 \<le> length buf \<Longrightarrow> length (set_de_rec_len buf p l) = length buf"
  "p + 8 \<le> length buf \<Longrightarrow> length (set_de_name_len buf p l) = length buf"
  by (simp_all add: set_de_defs)

lemma agree_set_de:
  assumes "p + 8 \<le> length buf" "b \<le> p \<or> p + 8 \<le> a"
  shows "agree (set_de_inode buf p i) buf a b" "agree (set_de_rec_len buf p l) buf a b"
    "agree (set_de_name_len buf p l) buf a b"
  using assms by (auto simp: set_de_defs intro!: agree_stores)

lemma set_de_fields [simp]:
  assumes "p + 8 \<le> length buf"
  shows "de_inode (set_de_inode buf p i) p = i" "de_rec_len (set_de_inode buf p i) p = de_rec_len buf p"
    "de_name_len (set_de_inode buf p i) p = de_name_len buf p" "de_name (set_de_inode buf p i) p n = de_name buf p n"
    "de_inode (set_de_rec_len buf p l) p = de_inode buf p" "de_rec_len (set_de_rec_len buf p l) p = l"
    "de_name_len (set_de_rec_len buf p l) p = de_name_len buf p" "de_name (set_de_rec_len buf p l) p n = de_name buf p n"
    "de_inode (set_de_name_len buf p l) p = de_inode buf p" "de_rec_len (set_de_name_len buf p l) p = de_rec_len buf p"
    "de_name_len (set_de_name_len buf p l) p = l" "de_name (set_de_name_len buf p l) p n = de_name buf p n"
proof -
  have n: "agree A buf (p + 8) (length buf) \<Longrightarrow> de_name A p n = de_name buf p n" for A
    by (auto simp: de_name_def agree_def list_eq_iff_nth_eq)
  show "de_name (set_de_inode buf p i) p n = de_name buf p n" "de_name (set_de_rec_len buf p l) p n = de_name buf p n"
    "de_name (set_de_name_len buf p l) p n = de_name buf p n"
    using assms by (auto intro!: n agree_set_de)
  show "de_inode (set_de_inode buf p i) p = i" "de_rec_len (set_de_rec_len buf p l) p = l"
    "de_name_len (set_de_name_len buf p l) p = l"
    using assms
    by (simp_all add: set_de_defs de_inode_def de_rec_len_def de_name_len_def ld32_st32 ld16_st16)
  show "de_rec_len (set_de_inode buf p i) p = de_rec_len buf p"
    "de_name_len (set_de_inode buf p i) p = de_name_len buf p" "de_inode (set_de_rec_len buf p l) p = de_inode buf p"
    "de_name_len (set_de_rec_len buf p l) p = de_name_len buf p" "de_inode (set_de_name_len buf p l) p = de_inode buf p"
    "de_rec_len (set_de_name_len buf p l) p = de_rec_len buf p"
    using assms
    by (simp_all add: set_de_defs de_inode_def de_rec_len_def de_name_len_def ld32_def ld16_def nth_st16 nth_st32)
qed

section \<open>Tilings\<close>

definition rl :: "u8 list \<Rightarrow> nat \<Rightarrow> nat" where "rl buf p = unat (de_rec_len buf p)"
definition nl :: "u8 list \<Rightarrow> nat \<Rightarrow> nat" where "nl buf p = unat (de_name_len buf p AND 0xFF)"

definition ok_rec :: "u8 list \<Rightarrow> nat \<Rightarrow> bool" where
  "ok_rec buf p \<longleftrightarrow> 8 \<le> rl buf p \<and> 4 dvd rl buf p \<and> nl buf p + 8 \<le> rl buf p \<and> p + rl buf p \<le> length buf"

text \<open>The records at the offsets \<open>ps\<close> follow one another from \<open>p\<close> to \<open>q\<close>.\<close>

primrec tiles :: "u8 list \<Rightarrow> nat \<Rightarrow> nat \<Rightarrow> nat list \<Rightarrow> bool" where
  "tiles buf p q [] \<longleftrightarrow> p = q"
| "tiles buf p q (x # xs) \<longleftrightarrow> x = p \<and> ok_rec buf p \<and> tiles buf (p + rl buf p) q xs"

definition entry_at :: "u8 list \<Rightarrow> nat \<Rightarrow> u32 \<times> u16 \<times> u8 list" where
  "entry_at buf p = (de_inode buf p, de_name_len buf p, de_name buf p (nl buf p))"

text \<open>The entries in use: inode number, length and type, name.\<close>

definition live :: "u8 list \<Rightarrow> nat list \<Rightarrow> (u32 \<times> u16 \<times> u8 list) list" where
  "live buf ps = filter (\<lambda>(i, _, _). i \<noteq> 0) (map (entry_at buf) ps)"

lemma tiles_append: "tiles buf p r (xs @ ys) \<longleftrightarrow> (\<exists>q. tiles buf p q xs \<and> tiles buf q r ys)"
  by (induction xs arbitrary: p) auto

lemma tiles_le: "tiles buf p q xs \<Longrightarrow> p \<le> q"
  by (induction xs arbitrary: p) (auto intro: le_trans [OF le_add1])

lemma tiles_mem: "tiles buf p q xs \<Longrightarrow> x \<in> set xs \<Longrightarrow> p \<le> x \<and> ok_rec buf x \<and> x + rl buf x \<le> q"
proof (induction xs arbitrary: p)
  case (Cons y ys)
  then show ?case using tiles_le [of buf "p + rl buf p" q ys] by (cases "x = y") force+
qed simp

lemma ok_rec_bounds: "ok_rec buf p \<Longrightarrow> p + 8 \<le> length buf \<and> p + 8 + nl buf p \<le> p + rl buf p"
  by (auto simp: ok_rec_def)

lemma agree_rec:
  assumes "agree A B a b" "a \<le> p" "p + 8 \<le> b"
  shows "rl A p = rl B p" "nl A p = nl B p" "ok_rec A p = ok_rec B p"
  using agree_fields [OF assms] assms(1) by (simp_all add: rl_def nl_def ok_rec_def agree_def)

lemma tiles_agree: "agree A B p q \<Longrightarrow> tiles A p q xs \<Longrightarrow> tiles B p q xs"
proof (induction xs arbitrary: p)
  case (Cons x xs)
  then have t: "x = p" "ok_rec A p" "tiles A (p + rl A p) q xs" by simp_all
  have "p + 8 \<le> q" using tiles_le [OF t(3)] t(2) by (auto simp: ok_rec_def)
  note r = agree_rec [OF Cons.prems(1) order_refl this]
  have "tiles B (p + rl A p) q xs"
    using t(3) by (intro Cons.IH agree_sub [OF Cons.prems(1)]) auto
  then show ?case using t r by simp
qed simp

lemma entry_agree:
  assumes "agree A B a b" "a \<le> p" "p + rl A p \<le> b" "ok_rec A p"
  shows "entry_at A p = entry_at B p"
proof -
  have b: "p + 8 \<le> b" "p + 8 + nl A p \<le> b" using ok_rec_bounds [OF assms(4)] assms(3) by linarith+
  show ?thesis
    using agree_fields [OF assms(1,2) b(1)] agree_rec [OF assms(1,2) b(1)]
      agree_name [OF assms(1) _ b(2)] assms(2)
    by (simp add: entry_at_def)
qed

lemma live_agree: "agree A B p q \<Longrightarrow> tiles A p q xs \<Longrightarrow> live A xs = live B xs"
proof -
  assume a: "agree A B p q" "tiles A p q xs"
  then have "map (entry_at A) xs = map (entry_at B) xs"
    by (intro map_cong refl entry_agree [OF a(1)]) (auto dest: tiles_mem)
  then show ?thesis by (simp only: live_def)
qed

lemma live_append [simp]: "live buf (xs @ ys) = live buf xs @ live buf ys"
  by (simp add: live_def)

lemma live_Nil [simp]: "live buf [] = []"
  by (simp add: live_def)

lemma live_Cons: "live buf (p # ps) = (if de_inode buf p \<noteq> 0 then entry_at buf p # live buf ps else live buf ps)"
  by (simp add: live_def entry_at_def)

section \<open>The walk over a tiled block\<close>

text \<open>A block below 64 KiB, whose record lengths are stored as they are.\<close>

definition small_block :: "filsys \<Rightarrow> nat \<Rightarrow> bool" where
  "small_block fs bs \<longleftrightarrow> unat (fs_blocksize fs) = bs \<and> bs < 65536"

lemma get_rec_len_small: "small_block fs bs \<Longrightarrow> ext2fs_get_rec_len fs buf p = ucast (de_rec_len buf p)"
  by (simp add: ext2fs_get_rec_len_def small_block_def word_less_nat_alt Let_def)

lemma unat_ucast16: "unat (ucast (x :: u16) :: u32) = unat x"
  by (simp add: unsigned_ucast_eq) (rule take_bit_nat_eq_self, use unat_u16_bound [of x] in simp)

lemma unat_get_rec_len: "small_block fs bs \<Longrightarrow> unat (ext2fs_get_rec_len fs buf p) = rl buf p"
  by (simp add: get_rec_len_small unat_ucast16 rl_def)

lemma and_FF_ucast: "unat ((ucast (x :: u16) :: u32) AND 0xFF) = unat (x AND 0xFF)"
proof -
  have m: "(0xFF :: u32) = mask 8" "(0xFF :: u16) = mask 8" by (simp_all add: mask_eq_exp_minus_1)
  have "(ucast x :: u32) AND 0xFF = ucast (x AND 0xFF)"
    by (rule bit_word_eqI) (auto simp: m bit_simps)
  then show ?thesis by (simp add: unat_ucast16)
qed

lemma nl_bound: "nl buf p < 256"
proof -
  have "de_name_len buf p AND 0xFF \<le> 0xFF" by (rule word_and_le1)
  then show ?thesis by (simp add: nl_def word_le_nat_alt)
qed

lemma rl_bound: "rl buf p < 65536"
  using unat_u16_bound [of "de_rec_len buf p"] by (simp add: rl_def)

lemma bad_rec_len_iff:
  assumes "small_block fs bs"
  shows "bad_rec_len (ext2fs_get_rec_len fs buf p) (de_name_len buf p) \<longleftrightarrow>
     \<not> (8 \<le> rl buf p \<and> 4 dvd rl buf p \<and> nl buf p + 8 \<le> rl buf p)"
proof -
  let ?r = "ext2fs_get_rec_len fs buf p"
  have r: "unat ?r = rl buf p" by (rule unat_get_rec_len [OF assms])
  have "?r mod 4 \<noteq> 0 \<longleftrightarrow> unat (?r mod 4) \<noteq> 0" by (simp add: unat_eq_zero)
  also have "\<dots> \<longleftrightarrow> \<not> 4 dvd rl buf p" by (simp add: unat_mod_distrib r dvd_eq_mod_eq_0)
  finally have m: "?r mod 4 \<noteq> 0 \<longleftrightarrow> \<not> 4 dvd rl buf p" .
  have "unat (((ucast (de_name_len buf p) :: u32) AND 0xFF) + 8) = nl buf p + 8"
    using nl_bound [of buf p] by (subst unat_add_small) (simp_all add: and_FF_ucast nl_def)
  then show ?thesis unfolding bad_rec_len_def m by (auto simp: word_less_nat_alt r)
qed

lemma record_ok_iff:
  assumes "small_block fs bs" "length buf = bs" "unat offset < bs"
  shows "offset + ext2fs_get_rec_len fs buf (unat offset) > fs_blocksize fs \<or>
      bad_rec_len (ext2fs_get_rec_len fs buf (unat offset)) (de_name_len buf (unat offset)) \<longleftrightarrow>
      \<not> ok_rec buf (unat offset)"
proof -
  have "unat (offset + ext2fs_get_rec_len fs buf (unat offset)) = unat offset + rl buf (unat offset)"
    using assms rl_bound [of buf "unat offset"] unat_get_rec_len [OF assms(1), of buf "unat offset"]
    by (subst unat_add_small) (simp_all add: small_block_def)
  then show ?thesis
    using assms(2) unfolding bad_rec_len_iff [OF assms(1)] word_less_nat_alt
    using assms(1) by (auto simp: ok_rec_def small_block_def)
qed

text \<open>What becomes of the block and of the channel once the walk is over.\<close>

definition dir_block_finish :: "u8 heap \<Rightarrow> filsys \<Rightarrow> 'd io_channel \<Rightarrow> u64 \<Rightarrow> u8 list \<Rightarrow> bool \<Rightarrow> bool \<Rightarrow> 's \<Rightarrow>
    u32 \<times> errcode option \<times> 's \<times> 'd io_channel" where
  "dir_block_finish h fs io blk buf ch ab s =
     (let done = (if ab then BLOCK_ABORT else 0) in
      if ch then (case ext2fs_write_dir_block3 h fs io blk buf 0 of
                    (Inl e, io) \<Rightarrow> (BLOCK_ABORT, Some e, s, io)
                  | (Inr _, io) \<Rightarrow> (done, None, s, io))
      else (done, None, s, io))"

text \<open>
  What a callback keeps: it may change the block as long as the record it was called on stays the
  next tile after the visited ones; \<open>Inv\<close> is what holds of the visited and the remaining
  records and of whether any call returned \<open>DIRENT_CHANGED\<close> so far, \<open>Stop\<close> what holds when
  it ends the walk.
\<close>

locale dir_visitor =
  fixes func :: "'s dir_func" and bs :: nat and flags :: u32
    and Inv :: "nat list \<Rightarrow> nat list \<Rightarrow> u8 list \<Rightarrow> bool \<Rightarrow> 's \<Rightarrow> bool" and Stop :: "u8 list \<Rightarrow> bool \<Rightarrow> 's \<Rightarrow> bool"
  assumes no_removed: "flags AND DIRENT_FLAG_INCLUDE_REMOVED = 0"
    and visit: "\<lbrakk>length buf = bs; tiles buf 0 bs (pre @ p # post); Inv pre (p # post) buf c s;
      de_inode buf p \<noteq> 0 \<or> flags AND DIRENT_FLAG_INCLUDE_EMPTY \<noteq> 0;
      func dir entry p (int bs) buf s = (ret, buf', s')\<rbrakk> \<Longrightarrow>
      length buf' = bs \<and> (ret AND DIRENT_CHANGED = 0 \<longrightarrow> buf' = buf) \<and>
      (if ret AND DIRENT_ABORT \<noteq> 0 then Stop buf' (c \<or> ret AND DIRENT_CHANGED \<noteq> 0) s'
       else \<exists>post'. tiles buf' 0 bs (pre @ p # post') \<and> Inv (pre @ [p]) post' buf' (c \<or> ret AND DIRENT_CHANGED \<noteq> 0) s')"
    and skip: "\<lbrakk>length buf = bs; tiles buf 0 bs (pre @ p # post); Inv pre (p # post) buf c s;
      de_inode buf p = 0; flags AND DIRENT_FLAG_INCLUDE_EMPTY = 0\<rbrakk> \<Longrightarrow> Inv (pre @ [p]) post buf c s"
begin

definition ctx :: "u32 \<Rightarrow> 's dir_context" where
  "ctx dir = \<lparr>ctx_dir = dir, ctx_flags = flags, ctx_func = func\<rparr>"

lemma next_step:
  "dir_walk_next fs (ctx dir) rec_len w = Some (w\<lparr>w_next := (if w_next w = w_offset w then w_next w + rec_len else w_next w),
      w_offset := w_offset w + rec_len\<rparr>)"
  by (simp add: dir_walk_next_def ctx_def no_removed Let_def)

definition walk_ok :: "nat list \<Rightarrow> nat list \<Rightarrow> 's dir_walk \<Rightarrow> bool" where
  "walk_ok pre rest w \<longleftrightarrow> length (w_buf w) = bs \<and> tiles (w_buf w) 0 bs (pre @ rest) \<and>
     (case rest of [] \<Rightarrow> unat (w_offset w) = bs | p # _ \<Rightarrow> unat (w_offset w) = p) \<and>
     Inv pre rest (w_buf w) (w_changed w) (w_priv w)"

lemma walk_ok_offset: "walk_ok pre (p # post) w \<Longrightarrow> unat (w_offset w) = p \<and> p < bs \<and> ok_rec (w_buf w) p"
  unfolding walk_ok_def
  by (auto simp: tiles_append ok_rec_def)

lemma offset_step:
  assumes "small_block fs bs" "length buf = bs" "tiles buf 0 bs (pre @ p # post)" "unat offset = p"
  shows "unat (offset + ext2fs_get_rec_len fs buf p) = (case post of [] \<Rightarrow> bs | q # _ \<Rightarrow> q)"
    "p < unat (offset + ext2fs_get_rec_len fs buf p)"
proof -
  obtain q where t: "tiles buf 0 q pre" "q = p" "ok_rec buf p" "tiles buf (p + rl buf p) bs post"
    using assms(3) by (auto simp: tiles_append)
  have "unat (offset + ext2fs_get_rec_len fs buf p) = p + rl buf p"
    using t(3) assms unat_get_rec_len [OF assms(1), of buf p]
    by (subst unat_add_small) (simp_all add: ok_rec_def small_block_def)
  then show "unat (offset + ext2fs_get_rec_len fs buf p) = (case post of [] \<Rightarrow> bs | q # _ \<Rightarrow> q)"
    "p < unat (offset + ext2fs_get_rec_len fs buf p)"
    using t(3,4) by (auto simp: ok_rec_def split: list.split)
qed

lemma step:
  assumes b: "small_block fs bs" and w: "walk_ok pre (p # post) w"
  shows "(\<exists>buf' ch s'. dir_walk_step fs (ctx dir) w = Some (Inl (Walk_Done buf' ch True s')) \<and>
       length buf' = bs \<and> Stop buf' ch s' \<and> (\<not> ch \<longrightarrow> \<not> w_changed w \<and> buf' = w_buf w)) \<or>
    (\<exists>w' post'. dir_walk_step fs (ctx dir) w = Some (Inr w') \<and> walk_ok (pre @ [p]) post' w' \<and>
       p < unat (w_offset w') \<and> (\<not> w_changed w' \<longrightarrow> \<not> w_changed w \<and> w_buf w' = w_buf w))"
proof -
  let ?buf = "w_buf w" and ?rl = "ext2fs_get_rec_len fs (w_buf w) p"
  note o = walk_ok_offset [OF w]
  have inv: "length ?buf = bs" "tiles ?buf 0 bs (pre @ p # post)" "Inv pre (p # post) ?buf (w_changed w) (w_priv w)"
    using w by (auto simp: walk_ok_def)
  have ok: "\<not> (w_offset w + ?rl > fs_blocksize fs \<or> bad_rec_len ?rl (de_name_len ?buf p))"
    using record_ok_iff [OF b inv(1), of "w_offset w"] o by simp
  have ctx: "ctx_func (ctx dir) = func" "ctx_flags (ctx dir) = flags" "ctx_dir (ctx dir) = dir"
    by (simp_all add: ctx_def)
  have bs: "int (unat (fs_blocksize fs)) = int bs" using b by (simp add: small_block_def)
  show ?thesis
  proof (cases "de_inode ?buf p = 0 \<and> flags AND DIRENT_FLAG_INCLUDE_EMPTY = 0")
    case True
    have "Inv (pre @ [p]) post ?buf (w_changed w) (w_priv w)" using skip [OF inv] True by blast
    note iv = this
    let ?w = "w\<lparr>w_next := (if w_next w = w_offset w then w_next w + ?rl else w_next w), w_offset := w_offset w + ?rl\<rparr>"
    note os = offset_step [OF b inv(1,2) conjunct1 [OF o]]
    have "walk_ok (pre @ [p]) post ?w" using iv inv os by (cases post) (simp_all add: walk_ok_def)
    moreover have "dir_walk_step fs (ctx dir) w = Some (Inr ?w)"
      using True ok o by (simp add: dir_walk_step_def ctx next_step Let_def)
    ultimately show ?thesis using os(2) by (intro disjI2 exI [of _ ?w] exI [of _ post]) simp
  next
    case False
    let ?e = "if w_next w > w_offset w then DIRENT_DELETED_FILE else w_entry w"
    obtain ret buf' s' where f: "func dir ?e p (int bs) ?buf (w_priv w) = (ret, buf', s')"
      by (metis prod_cases3)
    note v = visit [OF inv _ f]
    have f': "func dir ?e (unat (w_offset w)) (int (unat (fs_blocksize fs))) ?buf (w_priv w) = (ret, buf', s')"
      using f o bs by simp
    show ?thesis
    proof (cases "ret AND DIRENT_ABORT = 0")
      case ab: False
      then show ?thesis
        using False ok o v f'
        by (intro disjI1) (cases "ret AND DIRENT_CHANGED = 0"; auto simp: dir_walk_step_def ctx Let_def)
    next
      case ab: True
      obtain post' where t: "tiles buf' 0 bs (pre @ p # post')" "Inv (pre @ [p]) post' buf' (w_changed w \<or> ret AND DIRENT_CHANGED \<noteq> 0) s'"
        "length buf' = bs" "ret AND DIRENT_CHANGED = 0 \<longrightarrow> buf' = ?buf"
        using v ab False by auto
      have r: "(if ret AND DIRENT_CHANGED \<noteq> 0 then ext2fs_get_rec_len fs buf' p else ?rl) = ext2fs_get_rec_len fs buf' p"
        using t(4) by auto
      note os = offset_step [OF b t(3,1) conjunct1 [OF o]]
      have "\<exists>w'. dir_walk_step fs (ctx dir) w = Some (Inr w') \<and> w_buf w' = buf' \<and> w_priv w' = s' \<and>
          w_offset w' = w_offset w + ext2fs_get_rec_len fs buf' p \<and> w_changed w' = (w_changed w \<or> ret AND DIRENT_CHANGED \<noteq> 0)"
        using False ok o f' ab t(4)
        by (cases "ret AND DIRENT_CHANGED = 0"; auto simp: dir_walk_step_def ctx Let_def next_step)
      then obtain w' where w': "dir_walk_step fs (ctx dir) w = Some (Inr w')" "w_buf w' = buf'" "w_priv w' = s'"
        "w_offset w' = w_offset w + ext2fs_get_rec_len fs buf' p"
        "w_changed w' = (w_changed w \<or> ret AND DIRENT_CHANGED \<noteq> 0)"
        by blast
      have "walk_ok (pre @ [p]) post' w'"
        using w' t os by (cases post') (simp_all add: walk_ok_def)
      then show ?thesis using w' os(2) t(4) by (intro disjI2 exI [of _ w'] exI [of _ post']) auto
    qed
  qed
qed

theorem walk:
  assumes b: "small_block fs bs"
  shows "walk_ok pre rest w \<Longrightarrow>
    \<exists>buf' ch ab s'. dir_walk_loop fs (ctx dir) w = Some (Walk_Done buf' ch ab s') \<and> length buf' = bs \<and>
      (if ab then Stop buf' ch s' else \<exists>ps. tiles buf' 0 bs ps \<and> Inv ps [] buf' ch s') \<and>
      (\<not> ch \<longrightarrow> \<not> w_changed w \<and> buf' = w_buf w)"
proof (induction "bs - unat (w_offset w)" arbitrary: pre rest w rule: less_induct)
  case less
  show ?case
  proof (cases rest)
    case Nil
    then have "unat (w_offset w) = bs" "tiles (w_buf w) 0 bs pre" "Inv pre [] (w_buf w) (w_changed w) (w_priv w)" "length (w_buf w) = bs"
      using less.prems by (auto simp: walk_ok_def)
    then show ?thesis
      using b by (subst dir_walk_loop.simps) (auto simp: word_less_nat_alt small_block_def)
  next
    case (Cons p post)
    have o: "unat (w_offset w) = p" "p < bs" using walk_ok_offset less.prems Cons by auto
    then have lt: "w_offset w < fs_blocksize fs" using b by (simp add: word_less_nat_alt small_block_def)
    from step [OF b less.prems [unfolded Cons], of dir] show ?thesis
    proof (elim disjE exE conjE)
      fix buf' ch s'
      assume "dir_walk_step fs (ctx dir) w = Some (Inl (Walk_Done buf' ch True s'))"
        "length buf' = bs" "Stop buf' ch s'" "\<not> ch \<longrightarrow> \<not> w_changed w \<and> buf' = w_buf w"
      then show ?thesis using lt by (subst dir_walk_loop.simps) auto
    next
      fix w' post'
      assume s: "dir_walk_step fs (ctx dir) w = Some (Inr w')" "walk_ok (pre @ [p]) post' w'" "p < unat (w_offset w')"
        "\<not> w_changed w' \<longrightarrow> \<not> w_changed w \<and> w_buf w' = w_buf w"
      have "bs - unat (w_offset w') < bs - unat (w_offset w)" using s(3) o by simp
      note ih = less.hyps [OF this s(2)]
      have "dir_walk_loop fs (ctx dir) w = dir_walk_loop fs (ctx dir) w'"
        using lt s(1) by (subst dir_walk_loop.simps) simp
      then show ?thesis using ih s(4) by metis
    qed
  qed
qed

lemma walk_block:
  assumes "small_block fs bs" "length buf = bs" "tiles buf 0 bs ps" "Inv [] ps buf False s" "w_next0 = (0 :: u32)"
  shows "\<exists>buf' ch ab s'. dir_walk_loop fs (ctx dir) \<lparr>w_buf = buf, w_offset = 0, w_next = w_next0, w_entry = entry,
        w_changed = False, w_priv = s\<rparr> = Some (Walk_Done buf' ch ab s') \<and> length buf' = bs \<and>
      (if ab then Stop buf' ch s' else \<exists>ps. tiles buf' 0 bs ps \<and> Inv ps [] buf' ch s') \<and> (\<not> ch \<longrightarrow> buf' = buf)"
proof -
  have "walk_ok [] ps \<lparr>w_buf = buf, w_offset = 0, w_next = w_next0, w_entry = entry, w_changed = False, w_priv = s\<rparr>"
    using assms unfolding walk_ok_def by (cases ps) auto
  from walk [OF assms(1) this, of dir] show ?thesis by simp
qed

lemma process:
  assumes "small_block fs bs" "ext2fs_read_dir_block3 fs io blk 0 = (Inr buf, io')" "0 \<le> cnt"
    "length buf = bs" "tiles buf 0 bs ps" "Inv [] ps buf False s"
  shows "\<exists>buf' ch ab s'. ext2fs_process_dir_block h fs io (ctx dir) blk cnt e s = Some (dir_block_finish h fs io' blk buf' ch ab s') \<and>
      length buf' = bs \<and> (if ab then Stop buf' ch s' else \<exists>ps. tiles buf' 0 bs ps \<and> Inv ps [] buf' ch s') \<and>
      (\<not> ch \<longrightarrow> buf' = buf)"
proof -
  obtain buf' ch ab s' where w: "dir_walk_loop fs (ctx dir) \<lparr>w_buf = buf, w_offset = 0, w_next = 0,
        w_entry = (if cnt \<noteq> 0 then DIRENT_OTHER_FILE else DIRENT_DOT_FILE), w_changed = False, w_priv = s\<rparr> =
      Some (Walk_Done buf' ch ab s')" "length buf' = bs"
    "if ab then Stop buf' ch s' else \<exists>ps. tiles buf' 0 bs ps \<and> Inv ps [] buf' ch s'" "\<not> ch \<longrightarrow> buf' = buf"
    using walk_block [OF assms(1,4,5,6) refl] by blast
  then have "ext2fs_process_dir_block h fs io (ctx dir) blk cnt e s = Some (dir_block_finish h fs io' blk buf' ch ab s')"
    using assms(2,3)
    by (auto simp: ext2fs_process_dir_block_def dir_block_finish_def Let_def split: prod.split sum.split)
  then show ?thesis using w(2-4) by blast
qed

end

section \<open>Replacing a stretch of records\<close>

text \<open>A block as the list of its records: the length and the entry of each, free ones included.\<close>

type_synonym drec = "nat \<times> u32 \<times> u16 \<times> u8 list"

definition recs :: "u8 list \<Rightarrow> nat list \<Rightarrow> drec list" where
  "recs buf ps = map (\<lambda>p. (rl buf p, entry_at buf p)) ps"

lemma recs_simps [simp]:
  "recs buf [] = []" "recs buf (p # ps) = (rl buf p, entry_at buf p) # recs buf ps"
  "recs buf (ps @ qs) = recs buf ps @ recs buf qs"
  by (simp_all add: recs_def)

lemma recs_agree: "agree A B p q \<Longrightarrow> tiles A p q xs \<Longrightarrow> recs A xs = recs B xs"
proof -
  assume a: "agree A B p q" "tiles A p q xs"
  have "rl A x = rl B x \<and> entry_at A x = entry_at B x" if "x \<in> set xs" for x
  proof -
    have x: "p \<le> x" "ok_rec A x" "x + rl A x \<le> q" using tiles_mem [OF a(2) that] by auto
    then have "x + 8 \<le> q" by (simp add: ok_rec_def)
    then show ?thesis using agree_rec(1) [OF a(1) x(1)] entry_agree [OF a(1) x(1,3,2)] by simp
  qed
  then show ?thesis by (simp add: recs_def)
qed

lemma live_recs: "live buf ps = filter (\<lambda>(i, _, _). i \<noteq> 0) (map snd (recs buf ps))"
  by (simp add: live_def recs_def comp_def)

lemma tiles_hd: "tiles buf q bs xs \<Longrightarrow> hd (xs @ [bs]) = q"
  by (cases xs) auto

lemma tiles_unique: "tiles buf p bs xs \<Longrightarrow> tiles buf p bs ys \<Longrightarrow> xs = ys"
proof (induction xs arbitrary: p ys)
  case Nil
  then show ?case using tiles_le by (cases ys) (fastforce simp: ok_rec_def)+
next
  case (Cons x xs)
  then have "p + rl buf p \<le> bs" "8 \<le> rl buf p" using tiles_le by (auto simp: ok_rec_def)
  then show ?case using Cons by (cases ys) auto
qed

lemma tiles_split:
  "tiles buf 0 bs (pre @ p # post) \<longleftrightarrow> tiles buf 0 p pre \<and> ok_rec buf p \<and> tiles buf (p + rl buf p) bs post"
  by (auto simp: tiles_append)

lemma pre_fields:
  assumes "agree buf' buf 0 p" "tiles buf 0 p pre" "q \<in> set pre"
  shows "rl buf' q = rl buf q" "nl buf' q = nl buf q" "de_inode buf' q = de_inode buf q"
proof -
  have "ok_rec buf q" "q + rl buf q \<le> p" using tiles_mem [OF assms(2,3)] by blast+
  then have "q + 8 \<le> p" by (simp add: ok_rec_def)
  then show "rl buf' q = rl buf q" "nl buf' q = nl buf q" "de_inode buf' q = de_inode buf q"
    using agree_rec [OF assms(1), of q] agree_fields [OF assms(1), of q] by simp_all
qed

lemma tiles_replace:
  assumes "agree buf' buf 0 p" "agree buf' buf r bs" "tiles buf 0 p pre" "tiles buf r bs post" "tiles buf' p r mid"
  shows "tiles buf' 0 bs (pre @ mid @ post)" "live buf' (pre @ mid @ post) = live buf pre @ live buf' mid @ live buf post"
    "recs buf' pre = recs buf pre" "recs buf' post = recs buf post"
proof -
  note a = agree_sym [OF assms(1)] agree_sym [OF assms(2)]
  show "tiles buf' 0 bs (pre @ mid @ post)"
    using tiles_agree [OF a(1) assms(3)] tiles_agree [OF a(2) assms(4)] assms(5) by (auto simp: tiles_append)
  show "live buf' (pre @ mid @ post) = live buf pre @ live buf' mid @ live buf post"
    using live_agree [OF a(1) assms(3)] live_agree [OF a(2) assms(4)] by simp
  show "recs buf' pre = recs buf pre" "recs buf' post = recs buf post"
    using recs_agree [OF a(1) assms(3)] recs_agree [OF a(2) assms(4)] by simp_all
qed

section \<open>Lookup\<close>

lemma strncmp_eq_iff:
  "length a = n \<Longrightarrow> length b = n \<Longrightarrow> 0 \<notin> set a \<Longrightarrow> strncmp_eq n a b \<longleftrightarrow> a = b"
proof (induction n arbitrary: a b)
  case (Suc n)
  then obtain x xs y ys where "a = x # xs" "b = y # ys" by (metis length_Suc_conv)
  then show ?case using Suc by auto
qed simp

lemma length_de_name: "ok_rec buf p \<Longrightarrow> length (de_name buf p (nl buf p)) = nl buf p"
  by (auto simp: de_name_def ok_rec_def)

definition names :: "u8 list \<Rightarrow> u32 \<times> u16 \<times> u8 list \<Rightarrow> bool" where
  "names name e \<longleftrightarrow> snd (snd e) = name"

lemma name_test:
  assumes "ok_rec buf p" "0 \<notin> set name"
  shows "(length name = nl buf p \<and> strncmp_eq (nl buf p) name (de_name buf p (nl buf p))) \<longleftrightarrow> names name (entry_at buf p)"
  using strncmp_eq_iff [OF _ length_de_name [OF assms(1)] assms(2)] length_de_name [OF assms(1)]
  by (auto simp: names_def entry_at_def)

definition lookup_inv where
  "lookup_inv buf0 ps0 s0 pre rest buf c s \<longleftrightarrow>
     \<not> c \<and> buf = buf0 \<and> s = s0 \<and> ps0 = pre @ rest \<and> 0 \<notin> set (lk_name s0) \<and> length (lk_name s0) = lk_len s0 \<and>
     find (names (lk_name s0)) (live buf0 pre) = None"

definition lookup_stop where
  "lookup_stop buf0 ps0 s0 buf c s \<longleftrightarrow>
     \<not> c \<and> buf = buf0 \<and> (\<exists>e. find (names (lk_name s0)) (live buf0 ps0) = Some e \<and>
       s = s0\<lparr>lk_inode := fst e, lk_found := lk_found s0 + 1\<rparr>)"

lemma find_append: "find P (xs @ ys) = (case find P xs of None \<Rightarrow> find P ys | Some x \<Rightarrow> Some x)"
  by (induction xs) auto

interpretation lk: dir_visitor lookup_proc bs 0 "lookup_inv buf0 ps0 s0" "lookup_stop buf0 ps0 s0"
  for bs buf0 ps0 s0
proof (unfold_locales, goal_cases)
  case 1 then show ?case by simp
next
  case (2 buf pre p post c s dir entry ret buf' s')
  have ok: "ok_rec buf p" using 2(2) by (simp add: tiles_split)
  have inv: "\<not> c" "buf = buf0" "s = s0" "ps0 = pre @ p # post" "0 \<notin> set (lk_name s0)" "length (lk_name s0) = lk_len s0"
    "find (names (lk_name s0)) (live buf0 pre) = None" using 2(3) by (auto simp: lookup_inv_def)
  have live: "de_inode buf p \<noteq> 0" using 2(4) by (simp add: DIRENT_FLAG_INCLUDE_EMPTY_def)
  note t = name_test [OF ok inv(5)]
  show ?case
  proof (cases "names (lk_name s0) (entry_at buf p)")
    case True
    then have r: "ret = DIRENT_ABORT" "buf' = buf" "s' = s0\<lparr>lk_inode := de_inode buf p, lk_found := lk_found s0 + 1\<rparr>"
      using 2(5) t inv by (auto simp: lookup_proc_def nl_def Let_def)
    have "find (names (lk_name s0)) (live buf0 ps0) = Some (entry_at buf p)"
      using True inv live by (simp add: find_append live_Cons)
    then show ?thesis
      using r inv 2(1) by (simp add: lookup_stop_def DIRENT_ABORT_def DIRENT_CHANGED_def entry_at_def)
  next
    case False
    then have r: "ret = 0" "buf' = buf" "s' = s0"
      using 2(5) t inv by (auto simp: lookup_proc_def nl_def Let_def split: if_splits)
    have "find (names (lk_name s0)) (live buf0 (pre @ [p])) = None"
      using False inv live by (simp add: find_append live_Cons)
    then show ?thesis using r inv 2(1,2) by (auto simp: lookup_inv_def)
  qed
next
  case (3 buf pre p post c s)
  then show ?case by (auto simp: lookup_inv_def live_Cons)
qed

section \<open>Link\<close>

lemma unat_round4: "unat (w AND NOT 3 :: u32) = 4 * (unat w div 4)"
  unfolding unat_and_not3 by (metis minus_mod_eq_mult_div)

text \<open>The size of a record for a name of \<open>n\<close> bytes.\<close>

definition need :: "nat \<Rightarrow> nat" where "need n = 4 * ((n + 11) div 4)"

lemma need_bounds: "n + 8 \<le> need n" "need n \<le> n + 11" "4 dvd need n" "8 \<le> need n"
  unfolding need_def by auto

lemma unat_rec_len: "unat n < 65536 \<Longrightarrow> unat (EXT2_DIR_REC_LEN n) = need (unat n)"
proof -
  assume b: "unat n < 65536"
  have "unat (n + 8 + 3) = unat n + 11"
    using b by (simp add: add.assoc unat_add_small)
  then show ?thesis unfolding EXT2_DIR_REC_LEN_def unat_round4 need_def by simp
qed

lemma set_rec_len_small:
  assumes "small_block fs bs" "unat len \<le> bs" "4 dvd unat len"
  shows "ext2fs_set_rec_len fs len buf p = Inr (set_de_rec_len buf p (ucast len))"
proof -
  have m: "(3 :: u32) = mask 2" by (simp add: mask_eq_exp_minus_1)
  have "unat (len AND 3) = unat len mod 4"
    unfolding m by (simp add: take_bit_eq_mask [symmetric] unsigned_take_bit_eq take_bit_eq_mod unat_mod_distrib)
  then have "len AND 3 = 0" using assms(3) by (simp add: unat_eq_zero [symmetric] dvd_eq_mod_eq_0)
  then show ?thesis
    using assms(1,2) by (auto simp: ext2fs_set_rec_len_def small_block_def word_less_nat_alt)
qed

lemma rl_set_rec_len: "p + 8 \<le> length buf \<Longrightarrow> unat len < 65536 \<Longrightarrow> rl (set_de_rec_len buf p (ucast len)) p = unat len"
  by (simp add: rl_def unsigned_ucast_eq take_bit_nat_eq_self)

lemma sint_small: "unat (x :: u32) < 2 ^ 31 \<Longrightarrow> sint x = int (unat x)"
  using sint_of_nat_small [of "unat x", where ?'a = 32] by simp

lemma tiles_next:
  assumes "tiles buf q bs post" "q < bs"
  obtains post' where "post = q # post'" "ok_rec buf q" "tiles buf (q + rl buf q) bs post'"
  using assms by (cases post) auto

text \<open>
  What linking does to the list of records: a free record that follows the visited one is merged into
  it (unless it is the last eight bytes of the block), a used record with room for the new one is cut
  to its size and the rest becomes a free record, visited next, and a free record with room takes the
  entry. The result: the records, whether any was changed, and whether the entry was added.
\<close>

fun absorb_rec :: "nat \<Rightarrow> nat \<Rightarrow> drec list \<Rightarrow> drec list \<times> bool" where
  "absorb_rec bs off ((l, e) # (l', e') # rs) =
     (if off + l + 8 < bs \<and> fst e' = 0 then ((l + l', e) # rs, True) else ((l, e) # (l', e') # rs, False))"
| "absorb_rec bs off rs = (rs, False)"

definition rec_weight :: "drec list \<Rightarrow> nat" where
  "rec_weight rs = sum_list (map (\<lambda>(_, i, _). if i \<noteq> 0 then 3 else 1) rs)"

lemma absorb_Cons:
  assumes "(rs', c) = absorb_rec bs off (r # rs)"
  shows "rs' = hd rs' # tl rs'" "rec_weight rs' \<le> rec_weight (r # rs)"
  using assms by (induction bs off "r # rs" rule: absorb_rec.induct) (auto simp: rec_weight_def split: if_splits)

lemma absorb_weight:
  assumes "(rs', c) = absorb_rec bs off (r # rs)" "(l, i, e) = hd rs'"
  shows "(if i \<noteq> 0 then 3 else 1) + rec_weight (tl rs') \<le> rec_weight (r # rs)"
proof -
  have "rec_weight rs' = rec_weight ((l, i, e) # tl rs')"
    using absorb_Cons(1) [OF assms(1)] assms(2) by simp
  also have "\<dots> = (if i \<noteq> 0 then 3 else 1) + rec_weight (tl rs')" by (simp add: rec_weight_def)
  finally show ?thesis using absorb_Cons(2) [OF assms(1)] by simp
qed

function link_recs :: "nat \<Rightarrow> nat \<Rightarrow> u32 \<times> u16 \<times> u8 list \<Rightarrow> nat \<Rightarrow> drec list \<Rightarrow> drec list \<times> bool \<times> bool" where
  "link_recs bs k new off [] = ([], False, False)"
| "link_recs bs k new off (r # rs) =
     (let (rs, c) = absorb_rec bs off (r # rs);
          (l, i, n, name) = hd rs;
          rs = tl rs;
          m = need (length name)
      in
      if i \<noteq> 0 \<and> m + k \<le> l then
        let (rs, _, a) = link_recs bs k new (off + m) ((l - m, 0, 0, []) # rs) in ((m, i, n, name) # rs, True, a)
      else if i = 0 \<and> k \<le> l then ((l, new) # rs, True, True)
      else let (rs, c', a) = link_recs bs k new (off + l) rs in ((l, i, n, name) # rs, c \<or> c', a))"
  by pat_completeness auto
termination
proof (relation "measure (\<lambda>(_, _, _, _, rs). rec_weight rs)", goal_cases)
  case (2 bs k new off r rs x rs1 c y l z i w n name rs2 m)
  then show ?case using absorb_weight [of rs1 c bs off r rs l i "(n, name)"] by (simp add: rec_weight_def)
next
  case (3 bs k new off r rs x rs1 c y l z i w n name rs2 m)
  then show ?case using absorb_weight [of rs1 c bs off r rs l i "(n, name)"] by (simp split: if_splits)
qed simp

declare link_recs.simps(2) [simp del]

text \<open>The list is reported as changed exactly when it is another one.\<close>

definition used_recs :: "drec list \<Rightarrow> nat" where
  "used_recs rs = length (filter (\<lambda>(_, i, _). i \<noteq> 0) rs)"

lemma used_recs_simps [simp]:
  "used_recs [] = 0" "used_recs ((l, i, e) # rs) = (if i \<noteq> 0 then Suc (used_recs rs) else used_recs rs)"
  by (simp_all add: used_recs_def)

lemma absorb_facts:
  assumes "absorb_rec bs off (r # rs) = ((l, e) # rs1, c)" "\<forall>y \<in> set (r # rs). 0 < fst y"
  shows "0 < l" "\<forall>y \<in> set rs1. 0 < fst y" "used_recs ((l, e) # rs1) = used_recs (r # rs)"
    "if c then l \<noteq> fst r else (l, e) # rs1 = r # rs"
  using assms by (induction bs off "r # rs" rule: absorb_rec.induct) (force split: if_splits)+

lemma link_recs_fits:
  assumes "k \<le> l"
  shows "\<exists>rs'. link_recs bs k new off ((l, 0, e) # rs) = (rs', True, True)"
proof (cases rs)
  case Nil
  then show ?thesis using assms by (subst link_recs.simps(2)) simp
next
  case (Cons x xs)
  obtain l' i' e' where x: "x = (l', i', e')" by (cases x)
  show ?thesis
  proof (cases "off + l + 8 < bs \<and> i' = 0")
    case True
    then show ?thesis using assms by (subst link_recs.simps(2)) (simp add: Cons x)
  next
    case False
    then have "absorb_rec bs off ((l, 0, e) # (l', i', e') # xs) = ((l, 0, e) # (l', i', e') # xs, False)" by auto
    then show ?thesis using assms by (subst link_recs.simps(2)) (simp add: Cons x)
  qed
qed

lemma link_recs_used:
  assumes "fst new \<noteq> 0" "0 < k" "\<forall>y \<in> set rs. 0 < fst y" "link_recs bs k new off rs = (rs', c, a)"
  shows "(if a then c \<and> used_recs rs' = Suc (used_recs rs) else c \<longleftrightarrow> rs' \<noteq> rs)"
  using assms(3,4)
proof (induction "rec_weight rs" arbitrary: off rs rs' c a rule: less_induct)
  case less
  show ?case
  proof (cases rs)
    case (Cons r xs)
    obtain rs1 c1 where ab: "absorb_rec bs off (r # xs) = (rs1, c1)" by fastforce
    obtain l i n name where hd: "hd rs1 = (l, i, n, name)" by (cases "hd rs1") auto
    let ?ys = "tl rs1" and ?m = "need (length name)"
    have rs1: "rs1 = (l, i, n, name) # ?ys" using absorb_Cons(1) [OF ab [symmetric]] hd by simp
    have w: "(if i \<noteq> 0 then 3 else 1) + rec_weight ?ys \<le> rec_weight rs"
      using absorb_weight [OF ab [symmetric] hd [symmetric]] Cons by simp
    have "absorb_rec bs off (r # xs) = ((l, i, n, name) # ?ys, c1)" using ab rs1 by simp
    note f = absorb_facts [OF this less.prems(1) [unfolded Cons]]
    have "link_recs bs k new off (r # xs) =
      (if i \<noteq> 0 \<and> ?m + k \<le> l then
         (case link_recs bs k new (off + ?m) ((l - ?m, 0, 0, []) # ?ys) of (zs, _, a) \<Rightarrow> ((?m, i, n, name) # zs, True, a))
       else if i = 0 \<and> k \<le> l then ((l, new) # ?ys, True, True)
       else (case link_recs bs k new (off + l) ?ys of (zs, c', a) \<Rightarrow> ((l, i, n, name) # zs, c1 \<or> c', a)))"
      by (subst link_recs.simps(2)) (simp add: ab hd Let_def)
    then have run: "(rs', c, a) =
      (if i \<noteq> 0 \<and> ?m + k \<le> l then
         (case link_recs bs k new (off + ?m) ((l - ?m, 0, 0, []) # ?ys) of (zs, _, a) \<Rightarrow> ((?m, i, n, name) # zs, True, a))
       else if i = 0 \<and> k \<le> l then ((l, new) # ?ys, True, True)
       else (case link_recs bs k new (off + l) ?ys of (zs, c', a) \<Rightarrow> ((l, i, n, name) # zs, c1 \<or> c', a)))"
      using less.prems(2) Cons by simp
    consider (split) "i \<noteq> 0" "?m + k \<le> l" | (place) "i = 0" "k \<le> l" | (stay) "\<not> (i \<noteq> 0 \<and> ?m + k \<le> l)" "\<not> (i = 0 \<and> k \<le> l)"
      by blast
    then show ?thesis
    proof cases
      case split
      have pos: "\<forall>y \<in> set ((l - ?m, 0, 0, []) # ?ys). 0 < fst y" using split f(2) assms(2) by auto
      obtain zs where z: "link_recs bs k new (off + ?m) ((l - ?m, 0, 0, []) # ?ys) = (zs, True, True)"
        using link_recs_fits [of k "l - ?m"] split(2) by fastforce
      have "rec_weight ((l - ?m, 0, 0, []) # ?ys) < rec_weight rs" using w split by (simp add: rec_weight_def)
      from less.hyps [OF this pos z] show ?thesis using run split z f(3) Cons by auto
    next
      case place
      then show ?thesis using run f(3) Cons assms(1) by (cases new) auto
    next
      case stay
      obtain zs c2 where z: "link_recs bs k new (off + l) ?ys = (zs, c2, a)" and r: "rs' = (l, i, n, name) # zs" "c = (c1 \<or> c2)"
        using run stay by (auto split: prod.splits if_splits)
      have "rec_weight ?ys < rec_weight rs" using w by (simp split: if_splits)
      from less.hyps [OF this f(2) z] show ?thesis using r f(3,4) Cons by (auto split: if_splits)
    qed
  qed (use less.prems(2) in simp)
qed

lemma link_recs_changed:
  assumes "fst new \<noteq> 0" "0 < k" "\<forall>y \<in> set rs. 0 < fst y" "link_recs bs k new off rs = (rs', c, a)"
  shows "c \<longleftrightarrow> rs' \<noteq> rs"
  using link_recs_used [OF assms] by (auto split: if_splits)

text \<open>Changing the length of a record without moving its end, or merging it with the next.\<close>

lemma rec_len_only:
  assumes "ok_rec buf p" "p + l \<le> length buf" "rl buf p \<le> l" "4 dvd l" "l < 65536"
  defines "buf' \<equiv> set_de_rec_len buf p (of_nat l)"
  shows "length buf' = length buf" "rl buf' p = l" "ok_rec buf' p" "entry_at buf' p = entry_at buf p"
    "agree buf' buf 0 p" "agree buf' buf (p + l) bs"
proof -
  have b: "p + 8 \<le> length buf" using ok_rec_bounds [OF assms(1)] by simp
  show l: "length buf' = length buf" "rl buf' p = l"
    using b assms(5) by (simp_all add: buf'_def rl_def unat_of_nat_small)
  have n: "nl buf' p = nl buf p" using b by (simp add: buf'_def nl_def)
  show "ok_rec buf' p"
    using assms(1-4) l n by (auto simp: ok_rec_def)
  show "entry_at buf' p = entry_at buf p"
    using b unfolding entry_at_def n by (simp add: buf'_def)
  have "8 \<le> l" using assms(1,3) by (simp add: ok_rec_def)
  then show "agree buf' buf 0 p" "agree buf' buf (p + l) bs"
    using b unfolding buf'_def by (auto intro!: agree_set_de)
qed

lemma absorb_ok:
  assumes b: "small_block fs bs" and l: "length buf = bs" and t: "tiles buf 0 bs (pre @ p # post)"
  shows "\<exists>cur ab buf1 post1. link_absorb fs p (int bs) buf = Inr (cur, ab, buf1) \<and> length buf1 = bs \<and>
    tiles buf1 0 bs (pre @ p # post1) \<and> unat cur = rl buf1 p \<and>
    live buf1 (pre @ p # post1) = live buf (pre @ p # post) \<and> entry_at buf1 p = entry_at buf p \<and>
    agree buf1 buf 0 p \<and> (\<not> ab \<longrightarrow> buf1 = buf) \<and>
    absorb_rec bs p (recs buf (p # post)) = (recs buf1 (p # post1), ab)"
proof -
  let ?cur = "ext2fs_get_rec_len fs buf p" and ?n = "p + rl buf p"
  have t': "tiles buf 0 p pre" "ok_rec buf p" "tiles buf ?n bs post" using t by (simp_all add: tiles_split)
  have bs: "bs < 65536" using b by (simp add: small_block_def)
  have c: "unat ?cur = rl buf p" "sint ?cur = int (rl buf p)"
    using unat_get_rec_len [OF b, of buf p] sint_small [of ?cur] rl_bound [of buf p] by simp_all
  show ?thesis
  proof (cases "int p + int (rl buf p) < int bs - 8 \<and> de_inode buf ?n = 0 \<and>
      int p + int (rl buf p) + int (rl buf ?n) \<le> int bs")
    case False
    then have "link_absorb fs p (int bs) buf = Inr (?cur, False, buf)"
      by (auto simp: link_absorb_def Let_def c rl_def [symmetric])
    moreover have "absorb_rec bs p (recs buf (p # post)) = (recs buf (p # post), False)"
    proof (cases post)
      case (Cons x xs)
      then have "x = ?n" "?n + rl buf ?n \<le> length buf" using t'(3) by (auto simp: ok_rec_def)
      then show ?thesis using False Cons l by (auto simp: entry_at_def)
    qed simp
    ultimately show ?thesis using l t c by (intro exI [of _ ?cur] exI [of _ False] exI [of _ buf] exI [of _ post]) simp
  next
    case True
    then have "?n < bs" by linarith
    then obtain post' where q: "post = ?n # post'" "ok_rec buf ?n" "tiles buf (?n + rl buf ?n) bs post'"
      using tiles_next [OF t'(3)] by metis
    let ?l = "rl buf p + rl buf ?n"
    have le: "p + ?l \<le> length buf" using q(2) by (simp add: ok_rec_def)
    have u: "unat (?cur + ucast (de_rec_len buf ?n)) = ?l"
      using le l bs by (subst unat_add_small) (simp_all add: c unat_ucast16 rl_def [symmetric])
    have d: "4 dvd ?l" using t'(2) q(2) by (simp add: ok_rec_def)
    have e: "(ucast (?cur + ucast (de_rec_len buf ?n)) :: u16) = of_nat ?l"
      unfolding u [symmetric] by (rule of_nat_unat [symmetric])
    let ?b = "set_de_rec_len buf p (of_nat ?l)"
    have "ext2fs_set_rec_len fs (?cur + ucast (de_rec_len buf ?n)) buf p = Inr ?b"
      using set_rec_len_small [OF b, of "?cur + ucast (de_rec_len buf ?n)" buf p] u d le l e by simp
    then have a: "link_absorb fs p (int bs) buf = Inr (?cur + ucast (de_rec_len buf ?n), True, ?b)"
      using True by (auto simp: link_absorb_def Let_def c rl_def [symmetric])
    have "rl buf p \<le> ?l" "?l < 65536" using le l bs by simp_all
    note r = rec_len_only [OF t'(2) le this(1) d this(2)]
    have "tiles ?b p (p + ?l) [p]" using r by simp
    note tr = tiles_replace [OF r(5) _ t'(1) _ this, of bs post']
    have "live buf (pre @ p # post) = live buf pre @ live buf [p] @ live buf post'"
      using True q(1) by (simp add: live_Cons)
    moreover have "live ?b [p] = live buf [p]" using r(4) by (auto simp: live_def)
    moreover have "tiles buf (p + ?l) bs post'" using q(3) by (simp add: add.assoc)
    moreover have "p + rl buf p + 8 < bs" using True by linarith
    then have "absorb_rec bs p (recs buf (p # post)) = ((?l, entry_at buf p) # recs buf post', True)"
      using True q(1) by (simp add: entry_at_def)
    ultimately show ?thesis
      using a r tr u l by (intro exI [of _ "?cur + ucast (de_rec_len buf ?n)"] exI [of _ True] exI [of _ ?b] exI [of _ post']) simp
  qed
qed

lemma split_ok:
  assumes b: "small_block fs bs" and l: "length buf = bs" and t: "tiles buf 0 bs (pre @ p # post)"
    and i: "de_inode buf p \<noteq> 0" and cur: "unat cur = rl buf p" and mn: "unat mn = need (nl buf p)"
    and room: "need (nl buf p) + 8 \<le> rl buf p"
  shows "\<exists>buf' q. link_split fs p cur mn buf = (Inr (), buf') \<and> length buf' = bs \<and>
    tiles buf' 0 bs (pre @ p # q # post) \<and> live buf' (pre @ p # q # post) = live buf (pre @ p # post) \<and>
    agree buf' buf 0 p \<and> rl buf' p = need (nl buf p) \<and> de_inode buf' p \<noteq> 0 \<and> nl buf' p = nl buf p \<and>
    q = p + need (nl buf p) \<and> entry_at buf' p = entry_at buf p \<and>
    recs buf' (q # post) = (rl buf p - need (nl buf p), 0, 0, []) # recs buf post"
proof -
  have t': "tiles buf 0 p pre" "ok_rec buf p" "tiles buf (p + rl buf p) bs post" using t by (simp_all add: tiles_split)
  have bs: "bs < 65536" using b by (simp add: small_block_def)
  have e: "p + rl buf p \<le> bs" "4 dvd rl buf p" using t'(2) l by (auto simp: ok_rec_def)
  let ?m = "need (nl buf p)" and ?q = "p + need (nl buf p)"
  note nb = need_bounds [where n = "nl buf p"]
  have pl: "p + 8 \<le> bs" "?q + 8 \<le> bs" using room e nb by linarith+
  let ?b1 = "set_de_rec_len buf p (ucast mn)"
  have s1: "ext2fs_set_rec_len fs mn buf p = Inr ?b1"
    using room e nb mn by (intro set_rec_len_small [OF b]) simp_all
  have r1: "rl ?b1 p = ?m" "length ?b1 = bs"
    using pl l mn rl_bound [of buf p] room by (simp_all add: rl_set_rec_len)
  have dq: "p + unat (de_rec_len ?b1 p) = ?q" using r1(1) by (simp add: rl_def)
  let ?b2 = "set_de_name_len (set_de_inode ?b1 ?q 0) ?q 0"
  have le: "mn \<le> cur" using room mn cur by (simp add: word_le_nat_alt)
  have u: "unat (cur - mn) = rl buf p - ?m" using unat_diff [OF le] mn cur by simp
  let ?b3 = "set_de_rec_len ?b2 ?q (ucast (cur - mn))"
  have s3: "ext2fs_set_rec_len fs (cur - mn) ?b2 ?q = Inr ?b3"
    using e nb u by (intro set_rec_len_small [OF b]) (simp_all add: dvd_diff_nat)
  have ls: "link_split fs p cur mn buf = (Inr (), ?b3)"
    by (simp add: link_split_def s1 Let_def dq s3)
  have l3: "length ?b3 = bs" using pl l r1 by simp
  have a32: "agree ?b3 ?b1 x y" if "y \<le> ?q \<or> ?q + 8 \<le> x" for x y
    using that pl r1(2) by (intro agree_trans [OF agree_set_de(2) agree_trans [OF agree_set_de(3) agree_set_de(1)]]) simp_all
  have a31: "agree ?b3 buf x y" if "y \<le> ?q \<or> ?q + 8 \<le> x" "y \<le> p \<or> p + 8 \<le> x" for x y
    using that pl l by (intro agree_trans [OF a32 agree_set_de(2)]) simp_all
  have q: "rl ?b3 ?q = rl buf p - ?m" "nl ?b3 ?q = 0" "de_inode ?b3 ?q = 0"
    using pl r1(2) u rl_bound [of buf p] by (simp_all add: rl_set_rec_len nl_def)
  have okq: "ok_rec ?b3 ?q"
    using q l3 e room nb by (auto simp: ok_rec_def dvd_diff_nat)
  have ap: "agree ?b3 ?b1 p ?q" by (rule a32) simp
  have p8: "p + 8 \<le> ?q" using nb by simp
  have pf: "rl ?b3 p = ?m" "nl ?b3 p = nl buf p" "de_inode ?b3 p = de_inode buf p"
    using agree_rec [OF ap order_refl p8] agree_fields [OF ap order_refl p8] pl l r1(1)
    by (simp_all add: nl_def)
  have okp: "ok_rec ?b3 p" using pf l3 e room nb by (auto simp: ok_rec_def)
  have "entry_at ?b3 p = entry_at ?b1 p"
    using entry_agree [OF ap order_refl _ okp] pf(1) by simp
  also have "\<dots> = entry_at buf p" using pl l by (simp add: entry_at_def nl_def)
  finally have ent: "entry_at ?b3 p = entry_at buf p" .
  have mid: "tiles ?b3 p (p + rl buf p) [p, ?q]" using okp okq pf(1) q(1) room by simp
  have ag: "agree ?b3 buf 0 p" "agree ?b3 buf (p + rl buf p) bs"
    using room p8 by (auto intro!: a31)
  note tr = tiles_replace [OF ag t'(1,3) mid]
  have "live ?b3 [p, ?q] = live buf [p]" using q(3) ent pf(3) by (simp add: live_Cons)
  moreover have "live buf (pre @ p # post) = live buf pre @ live buf [p] @ live buf post"
    by (simp add: live_Cons)
  ultimately have lv: "live ?b3 (pre @ p # ?q # post) = live buf (pre @ p # post)"
    using tr(2) by simp
  have ti: "tiles ?b3 0 bs (pre @ p # ?q # post)" using tr(1) by simp
  have ip: "de_inode ?b3 p \<noteq> 0" using pf(3) i by simp
  have "de_name_len ?b3 ?q = 0" using pl r1(2) by simp
  then have "entry_at ?b3 ?q = (0, 0, [])" using q(2,3) by (simp add: entry_at_def de_name_def)
  then have rc: "recs ?b3 (?q # post) = (rl buf p - ?m, 0, 0, []) # recs buf post" using q(1) tr(4) by simp
  show ?thesis
    by (rule exI [of _ ?b3], rule exI [of _ ?q]) (intro conjI ls l3 ti lv ag(1) pf(1) ip pf(2) refl ent rc)
qed

text \<open>The entry a call of \<open>ext2fs_link\<close> makes.\<close>

definition new_entry :: "filsys \<Rightarrow> link_struct \<Rightarrow> u32 \<times> u16 \<times> u8 list" where
  "new_entry fs ls =
     (ln_inode ls,
      of_nat (length (ln_name ls)) OR
        (if s_feature_incompat (fs_super fs) AND EXT2_FEATURE_INCOMPAT_FILETYPE \<noteq> 0
         then push_bit 8 (ucast (ln_flags ls AND 7)) else 0),
      ln_name ls)"

definition link_place :: "filsys \<Rightarrow> link_struct \<Rightarrow> nat \<Rightarrow> u8 list \<Rightarrow> u8 list" where
  "link_place fs ls p buf =
     (let buf = set_de_inode buf p (ln_inode ls);
          buf = set_de_name_len buf p (of_nat (length (ln_name ls)));
          buf = put_bytes buf (p + 8) (ln_name ls)
      in if s_feature_incompat (fs_super fs) AND EXT2_FEATURE_INCOMPAT_FILETYPE \<noteq> 0
         then set_de_name_len buf p (de_name_len buf p OR push_bit 8 (ucast (ln_flags ls AND 7))) else buf)"

lemma name_len_low:
  assumes "n < 256"
  shows "unat ((of_nat n OR push_bit 8 x) AND 0xFF :: u16) = n" "unat (of_nat n AND 0xFF :: u16) = n"
proof -
  have m: "(0xFF :: u16) = mask 8" by (simp add: mask_eq_exp_minus_1)
  have "(of_nat n OR push_bit 8 x) AND 0xFF = (of_nat n AND 0xFF :: u16)"
    unfolding m by (rule bit_word_eqI) (auto simp: bit_simps)
  moreover show "unat (of_nat n AND 0xFF :: u16) = n"
    using assms unfolding m
    by (simp add: take_bit_eq_mask [symmetric] unsigned_take_bit_eq unat_of_nat_small take_bit_nat_eq_self)
  ultimately show "unat ((of_nat n OR push_bit 8 x) AND 0xFF :: u16) = n" by simp
qed

lemma place_ok:
  fixes fs :: filsys
  assumes l: "length buf = bs" and t: "tiles buf 0 bs (pre @ p # post)"
    and n: "length (ln_name ls) \<le> 255" "need (length (ln_name ls)) \<le> rl buf p"
  defines "buf' \<equiv> link_place fs ls p buf"
  shows "length buf' = bs" "tiles buf' 0 bs (pre @ p # post)" "entry_at buf' p = new_entry fs ls"
    "live buf' (pre @ p # post) = live buf pre @ live buf' [p] @ live buf post"
    "recs buf' (pre @ p # post) = recs buf pre @ (rl buf p, new_entry fs ls) # recs buf post"
proof -
  have t': "tiles buf 0 p pre" "ok_rec buf p" "tiles buf (p + rl buf p) bs post" using t by (simp_all add: tiles_split)
  let ?n = "length (ln_name ls)"
  have e: "p + 8 + ?n \<le> p + rl buf p" "p + rl buf p \<le> bs"
    using n(2) need_bounds [where n = ?n] t'(2) l by (auto simp: ok_rec_def)
  let ?b2 = "set_de_name_len (set_de_inode buf p (ln_inode ls)) p (of_nat ?n)"
  let ?b3 = "put_bytes ?b2 (p + 8) (ln_name ls)"
  have l2: "length ?b2 = bs" "length ?b3 = bs" using e l by simp_all
  have a3: "agree ?b3 ?b2 p (p + 8)" using e l2 by (intro agree_stores(3)) simp_all
  note f3 = agree_fields [OF a3 order_refl order_refl]
  have n3: "de_name ?b3 p ?n = ln_name ls"
    using e l2 by (auto simp: de_name_def put_bytes_def)
  have b': "buf' = ?b3 \<or> buf' = set_de_name_len ?b3 p (de_name_len ?b3 p OR push_bit 8 (ucast (ln_flags ls AND 7)))"
    by (auto simp: buf'_def link_place_def Let_def)
  show len: "length buf' = bs" using b' l2 e by auto
  have rest: "agree buf' buf x y" if "y \<le> p \<or> p + rl buf p \<le> x" for x y
  proof -
    have "agree ?b2 buf x y"
      using that e l by (intro agree_trans [OF agree_set_de(3) agree_set_de(1)]) auto
    moreover have "agree ?b3 ?b2 x y" using that e l2 by (intro agree_stores(3)) auto
    moreover have "agree (set_de_name_len ?b3 p v) ?b3 x y" for v
      using that e l2 by (intro agree_set_de(3)) auto
    ultimately show ?thesis using b' by (meson agree_trans)
  qed
  have f: "de_inode buf' p = ln_inode ls" "rl buf' p = rl buf p" "de_name_len buf' p = fst (snd (new_entry fs ls))"
    "de_name buf' p ?n = ln_name ls"
    using f3 n3 e l l2 by (auto simp: buf'_def link_place_def Let_def new_entry_def rl_def)
  have nl': "nl buf' p = ?n"
    using n(1) unfolding nl_def f(3) by (auto simp: new_entry_def name_len_low)
  have ok: "ok_rec buf' p" using t'(2) f(2) nl' e len l by (simp add: ok_rec_def)
  show ent: "entry_at buf' p = new_entry fs ls"
    using f nl' by (simp add: entry_at_def new_entry_def)
  have "tiles buf' p (p + rl buf p) [p]" using ok f(2) by simp
  from tiles_replace [OF rest rest t'(1,3) this]
  show "tiles buf' 0 bs (pre @ p # post)" "live buf' (pre @ p # post) = live buf pre @ live buf' [p] @ live buf post"
    "recs buf' (pre @ p # post) = recs buf pre @ (rl buf p, new_entry fs ls) # recs buf post"
    using ent f(2) by simp_all
qed

text \<open>An entry has room for a record of \<open>k\<close> bytes.\<close>

definition room :: "u8 list \<Rightarrow> nat \<Rightarrow> nat \<Rightarrow> bool" where
  "room buf k p \<longleftrightarrow> (if de_inode buf p \<noteq> 0 then need (nl buf p) + k \<le> rl buf p else k \<le> rl buf p)"

definition link_inv where
  "link_inv fs bs L0 R0 s0 pre rest buf c s \<longleftrightarrow>
     small_block fs bs \<and> ln_inode s0 \<noteq> 0 \<and> length (ln_name s0) \<le> 255 \<and> ln_err s0 = None \<and> s = s0 \<and>
     live buf (pre @ rest) = L0 \<and> (\<forall>q \<in> set pre. \<not> room buf (need (length (ln_name s0))) q) \<and>
     (case link_recs bs (need (length (ln_name s0))) (new_entry fs s0) (hd (rest @ [bs])) (recs buf rest) of
        (r, c', a) \<Rightarrow> R0 = (recs buf pre @ r, c \<or> c', a))"

definition link_stop where
  "link_stop fs bs L0 R0 s0 buf c s \<longleftrightarrow>
     s = s0\<lparr>ln_done := ln_done s0 + 1\<rparr> \<and> c \<and>
     (\<exists>ps xs ys. tiles buf 0 bs ps \<and> live buf ps = xs @ new_entry fs s0 # ys \<and> L0 = xs @ ys \<and> R0 = (recs buf ps, True, True))"

lemma link_recs_step:
  assumes "absorb_rec bs p (recs buf (p # post)) = (recs buf1 (p # post1), ab)" "ok_rec buf1 p"
  shows "link_recs bs k new p (recs buf (p # post)) =
    (if de_inode buf1 p \<noteq> 0 \<and> need (nl buf1 p) + k \<le> rl buf1 p then
       (case link_recs bs k new (p + need (nl buf1 p)) ((rl buf1 p - need (nl buf1 p), 0, 0, []) # recs buf1 post1) of
          (r, _, a) \<Rightarrow> ((need (nl buf1 p), entry_at buf1 p) # r, True, a))
     else if de_inode buf1 p = 0 \<and> k \<le> rl buf1 p then ((rl buf1 p, new) # recs buf1 post1, True, True)
     else (case link_recs bs k new (p + rl buf1 p) (recs buf1 post1) of
             (r, c', a) \<Rightarrow> ((rl buf1 p, entry_at buf1 p) # r, ab \<or> c', a)))"
  using assms(1) length_de_name [OF assms(2)] unfolding recs_simps
  by (subst link_recs.simps(2)) (simp add: entry_at_def Let_def)

lemma link_visit:
  assumes l: "length buf = bs" and t: "tiles buf 0 bs (pre @ p # post)"
    and inv: "link_inv fs bs L0 R0 s0 pre (p # post) buf c s"
    and f: "link_proc fs dir entry p (int bs) buf s = (ret, buf', s')"
  shows "length buf' = bs \<and> (ret AND DIRENT_CHANGED = 0 \<longrightarrow> buf' = buf) \<and>
    (if ret AND DIRENT_ABORT \<noteq> 0 then link_stop fs bs L0 R0 s0 buf' (c \<or> ret AND DIRENT_CHANGED \<noteq> 0) s'
     else \<exists>post'. tiles buf' 0 bs (pre @ p # post') \<and>
       link_inv fs bs L0 R0 s0 (pre @ [p]) post' buf' (c \<or> ret AND DIRENT_CHANGED \<noteq> 0) s')"
proof -
  let ?k = "need (length (ln_name s0))" and ?rec = "EXT2_DIR_REC_LEN (of_nat (length (ln_name s0)))"
    and ?new = "new_entry fs s0"
  have i: "small_block fs bs" "ln_inode s0 \<noteq> 0" "length (ln_name s0) \<le> 255" "ln_err s0 = None" "s = s0"
    "live buf (pre @ p # post) = L0" "\<forall>q \<in> set pre. \<not> room buf ?k q"
    using inv by (simp_all add: link_inv_def)
  have R: "case link_recs bs ?k ?new p (recs buf (p # post)) of (r, c', a) \<Rightarrow> R0 = (recs buf pre @ r, c \<or> c', a)"
    using inv by (simp only: link_inv_def append_Cons list.sel)
  note nk = need_bounds [where n = "length (ln_name s0)"]
  have rec: "unat ?rec = ?k" using i(3) by (subst unat_rec_len) (simp_all add: unat_of_nat_small)
  obtain cur ab buf1 post1 where a: "link_absorb fs p (int bs) buf = Inr (cur, ab, buf1)" "length buf1 = bs"
    "tiles buf1 0 bs (pre @ p # post1)" "unat cur = rl buf1 p"
    "live buf1 (pre @ p # post1) = L0" "entry_at buf1 p = entry_at buf p" "agree buf1 buf 0 p" "\<not> ab \<longrightarrow> buf1 = buf"
    and ar: "absorb_rec bs p (recs buf (p # post)) = (recs buf1 (p # post1), ab)"
    using absorb_ok [OF i(1) l t] unfolding i(6) by blast
  have tp: "tiles buf 0 p pre" "tiles buf1 0 p pre" "ok_rec buf1 p" "tiles buf1 (p + rl buf1 p) bs post1"
    using t a(3) by (simp_all add: tiles_split)
  note step = R [unfolded link_recs_step [OF ar tp(3)]]
  have pre: "\<forall>q \<in> set pre. \<not> room B ?k q" "recs B pre = recs buf pre" if "agree B buf 0 p" for B
  proof -
    have "room B ?k q = room buf ?k q" if "q \<in> set pre" for q
      using pre_fields [OF \<open>agree B buf 0 p\<close> tp(1) that] by (simp add: room_def)
    then show "\<forall>q \<in> set pre. \<not> room B ?k q" using i(7) by blast
    show "recs B pre = recs buf pre" using recs_agree [OF agree_sym [OF that] tp(1)] by simp
  qed
  let ?ret = "if ab then DIRENT_CHANGED else 0"
  let ?mn = "EXT2_DIR_REC_LEN (ucast (de_name_len buf1 p) AND 0xFF)"
  have s0: "s0\<lparr>ln_err := None\<rparr> = s0" using i(4) by simp
  have ch: "?ret AND DIRENT_CHANGED \<noteq> 0 \<longleftrightarrow> ab" by (simp add: DIRENT_CHANGED_def)
  have stay: ?thesis if "(ret, buf', s') = (?ret, buf1, s0)" "\<not> room buf1 ?k p"
  proof -
    have "\<not> (de_inode buf1 p \<noteq> 0 \<and> need (nl buf1 p) + ?k \<le> rl buf1 p)" "\<not> (de_inode buf1 p = 0 \<and> ?k \<le> rl buf1 p)"
      using that(2) by (auto simp: room_def)
    then have "case link_recs bs ?k ?new (p + rl buf1 p) (recs buf1 post1) of
        (r, c', a) \<Rightarrow> R0 = (recs buf1 (pre @ [p]) @ r, (c \<or> ab) \<or> c', a)"
      using step pre(2) [OF a(7)] by (auto split: prod.splits)
    then have "link_inv fs bs L0 R0 s0 (pre @ [p]) post1 buf1 (c \<or> ab) s0"
      using i(1-4) a(5) pre(1) [OF a(7)] that(2) unfolding link_inv_def tiles_hd [OF tp(4)] by auto
    then show ?thesis using that(1) a(2,3,8) ch by (auto simp: DIRENT_CHANGED_def DIRENT_ABORT_def)
  qed
  show ?thesis
  proof (cases "de_inode buf1 p = 0")
    case False
    have mn: "unat ?mn = need (nl buf1 p)"
      using nl_bound [of buf1 p] by (subst unat_rec_len) (simp_all add: and_FF_ucast nl_def)
    have sum: "unat (?mn + ?rec) = need (nl buf1 p) + ?k"
      using mn rec nk i(3) nl_bound [of buf1 p] need_bounds(2) [where n = "nl buf1 p"]
      by (subst unat_add_small) simp_all
    show ?thesis
    proof (cases "cur < ?mn + ?rec")
      case True
      then have "(ret, buf', s') = (?ret, buf1, s0)"
        using f False by (simp add: link_proc_def Let_def i(5) a(1) s0)
      moreover have "\<not> room buf1 ?k p" using True False by (simp add: room_def word_less_nat_alt sum a(4))
      ultimately show ?thesis by (rule stay)
    next
      case c: False
      then have rm: "need (nl buf1 p) + ?k \<le> rl buf1 p" by (simp add: word_less_nat_alt sum a(4))
      then have "need (nl buf1 p) + 8 \<le> rl buf1 p" using nk by simp
      from split_ok [OF i(1) a(2,3) False a(4) mn this] obtain B q where s:
        "link_split fs p cur ?mn buf1 = (Inr (), B)" "length B = bs" "tiles B 0 bs (pre @ p # q # post1)"
        "live B (pre @ p # q # post1) = L0" "agree B buf1 0 p" "rl B p = need (nl buf1 p)"
        "de_inode B p \<noteq> 0" "nl B p = nl buf1 p" "q = p + need (nl buf1 p)" "entry_at B p = entry_at buf1 p"
        "recs B (q # post1) = (rl buf1 p - need (nl buf1 p), 0, 0, []) # recs buf1 post1"
        unfolding a(5) by blast
      have r: "(ret, buf', s') = (DIRENT_CHANGED, B, s0)"
        using f False c by (simp add: link_proc_def Let_def i(5) a(1) s0 s(1))
      have nr: "\<not> room B ?k p" using s nk by (simp add: room_def)
      note pB = pre [OF agree_trans [OF s(5) a(7)]]
      obtain r c' a where lr: "link_recs bs ?k ?new (p + need (nl buf1 p))
          ((rl buf1 p - need (nl buf1 p), 0, 0, []) # recs buf1 post1) = (r, c', a)" by (metis prod_cases3)
      have "link_recs bs ?k ?new q (recs B (q # post1)) = (r, c', a)" unfolding s(11) using lr by (simp only: s(9))
      moreover have "R0 = (recs B (pre @ [p]) @ r, True, a)" using step False rm lr pB(2) s(6,10) by simp
      ultimately have "case link_recs bs ?k ?new q (recs B (q # post1)) of
          (r, c', a) \<Rightarrow> R0 = (recs B (pre @ [p]) @ r, True \<or> c', a)" by (simp only: prod.case simp_thms)
      then have "link_inv fs bs L0 R0 s0 (pre @ [p]) (q # post1) B True s0"
        using i(1-4) s(4) pB(1) nr unfolding link_inv_def by auto
      then show ?thesis using r s(2,3) by (auto simp: DIRENT_CHANGED_def DIRENT_ABORT_def)
    qed
  next
    case True
    show ?thesis
    proof (cases "cur < ?rec")
      case c: True
      then have "(ret, buf', s') = (?ret, buf1, s0)"
        using f True by (simp add: link_proc_def Let_def i(5) a(1) s0)
      moreover have "\<not> room buf1 ?k p" using c True by (simp add: room_def word_less_nat_alt rec a(4))
      ultimately show ?thesis by (rule stay)
    next
      case c: False
      then have le: "?k \<le> rl buf1 p" by (simp add: word_less_nat_alt rec a(4))
      let ?B = "link_place fs s0 p buf1"
      have r: "(ret, buf', s') = (DIRENT_ABORT OR DIRENT_CHANGED, ?B, s0\<lparr>ln_done := ln_done s0 + 1\<rparr>)"
        using f True c by (simp add: link_proc_def link_place_def Let_def i(5) a(1) s0)
      note pl = place_ok [where fs = fs and ls = s0, OF a(2,3) i(3) le]
      have "live ?B [p] = [?new]"
        using pl(3) i(2) by (auto simp: live_def new_entry_def)
      moreover have "L0 = live buf1 pre @ live buf1 post1" using a(5) True by (simp add: live_Cons)
      moreover have "R0 = (recs ?B (pre @ p # post1), True, True)"
        using step True le pl(5) pre(2) [OF a(7)] by simp
      ultimately have "link_stop fs bs L0 R0 s0 ?B True (s0\<lparr>ln_done := ln_done s0 + 1\<rparr>)"
        using pl(2,4) unfolding link_stop_def by fastforce
      then show ?thesis using r pl(1) by (simp add: DIRENT_CHANGED_def DIRENT_ABORT_def)
    qed
  qed
qed

interpretation ln: dir_visitor "link_proc fs" bs DIRENT_FLAG_INCLUDE_EMPTY "link_inv fs bs L0 R0 s0" "link_stop fs bs L0 R0 s0"
  for fs bs L0 R0 s0
proof (unfold_locales, goal_cases)
  case 1 then show ?case by (simp add: DIRENT_FLAG_INCLUDE_EMPTY_def DIRENT_FLAG_INCLUDE_REMOVED_def)
next
  case 2 then show ?case using link_visit by blast
next
  case 3 then show ?case by (simp add: DIRENT_FLAG_INCLUDE_EMPTY_def)
qed

section \<open>Unlink\<close>

definition unlink_match :: "unlink_struct \<Rightarrow> u32 \<times> u16 \<times> u8 list \<Rightarrow> bool" where
  "unlink_match s e \<longleftrightarrow>
     (case ul_name s of None \<Rightarrow> True | Some name \<Rightarrow> names name e) \<and> (ul_inode s \<noteq> 0 \<longrightarrow> fst e = ul_inode s)"

definition unlink_ok :: "unlink_struct \<Rightarrow> bool" where
  "unlink_ok s \<longleftrightarrow> (case ul_name s of None \<Rightarrow> True | Some name \<Rightarrow> 0 \<notin> set name)"

definition unlink_inv where
  "unlink_inv buf0 ps0 s0 bs pre rest buf c s \<longleftrightarrow>
     \<not> c \<and> buf = buf0 \<and> ps0 = pre @ rest \<and> unlink_ok s0 \<and> bs < 65536 \<and>
     s = s0\<lparr>ul_prev := (if pre = [] then ul_prev s0 else Some (last pre))\<rparr> \<and>
     find (unlink_match s0) (live buf0 pre) = None"

definition unlink_stop where
  "unlink_stop buf0 ps0 s0 bs buf c s \<longleftrightarrow>
     c \<and> ul_done s = ul_done s0 + 1 \<and>
     (\<exists>ps xs e ys. tiles buf 0 bs ps \<and> live buf ps = xs @ ys \<and> live buf0 ps0 = xs @ e # ys \<and>
        unlink_match s0 e \<and> find (unlink_match s0) xs = None)"

lemma unlink_call:
  assumes ok: "ok_rec buf p" "unlink_ok s"
  shows "unlink_proc dir entry p b buf s =
    (if de_inode buf p \<noteq> 0 \<and> unlink_match s (entry_at buf p) then
       (DIRENT_ABORT OR DIRENT_CHANGED,
        (if p \<noteq> 0 then (case ul_prev s of None \<Rightarrow> buf
           | Some q \<Rightarrow> set_de_rec_len buf q (de_rec_len buf q + de_rec_len buf p)) else set_de_inode buf p 0),
        s\<lparr>ul_prev := Some p, ul_done := ul_done s + 1\<rparr>)
     else (0, buf, s\<lparr>ul_prev := Some p\<rparr>))"
proof -
  have nt: "(case ul_name s of None \<Rightarrow> False
      | Some name \<Rightarrow> nl buf p \<noteq> length name \<or> \<not> strncmp_eq (nl buf p) name (de_name buf p (nl buf p))) \<longleftrightarrow>
      \<not> (case ul_name s of None \<Rightarrow> True | Some name \<Rightarrow> names name (entry_at buf p))"
  proof (cases "ul_name s")
    case (Some name)
    then have "0 \<notin> set name" using ok(2) by (simp add: unlink_ok_def)
    from name_test [OF ok(1) this] Some show ?thesis by auto
  qed simp
  have fe: "fst (entry_at buf p) = de_inode buf p" by (simp add: entry_at_def)
  show ?thesis
    unfolding unlink_proc_def Let_def nl_def [symmetric] unlink_match_def fe
    using nt by (cases "ul_inode s = 0") auto
qed

lemma unlink_visit:
  assumes l: "length buf = bs" and t: "tiles buf 0 bs (pre @ p # post)"
    and inv: "unlink_inv buf0 ps0 s0 bs pre (p # post) buf c s"
    and f: "unlink_proc dir entry p (int bs) buf s = (ret, buf', s')"
  shows "length buf' = bs \<and> (ret AND DIRENT_CHANGED = 0 \<longrightarrow> buf' = buf) \<and>
    (if ret AND DIRENT_ABORT \<noteq> 0 then unlink_stop buf0 ps0 s0 bs buf' (c \<or> ret AND DIRENT_CHANGED \<noteq> 0) s'
     else \<exists>post'. tiles buf' 0 bs (pre @ p # post') \<and>
       unlink_inv buf0 ps0 s0 bs (pre @ [p]) post' buf' (c \<or> ret AND DIRENT_CHANGED \<noteq> 0) s')"
proof -
  have c: "\<not> c" using inv by (simp add: unlink_inv_def)
  have i: "buf = buf0" "ps0 = pre @ p # post" "unlink_ok s0" "bs < 65536"
    "s = s0\<lparr>ul_prev := (if pre = [] then ul_prev s0 else Some (last pre))\<rparr>"
    "find (unlink_match s0) (live buf0 pre) = None"
    using inv by (simp_all add: unlink_inv_def)
  have t': "tiles buf 0 p pre" "ok_rec buf p" "tiles buf (p + rl buf p) bs post" using t by (simp_all add: tiles_split)
  have m: "unlink_match s = unlink_match s0" "unlink_ok s" "ul_done s = ul_done s0"
    using i(3,5) by (auto simp: unlink_match_def unlink_ok_def fun_eq_iff)
  note call = unlink_call [OF t'(2) m(2), of dir entry "int bs", unfolded m f]
  show ?thesis
  proof (cases "de_inode buf p \<noteq> 0 \<and> unlink_match s0 (entry_at buf p)")
    case False
    then have "find (unlink_match s0) (live buf0 (pre @ [p])) = None"
      using i(1,6) by (auto simp: find_append live_Cons)
    then have "unlink_inv buf0 ps0 s0 bs (pre @ [p]) post buf c s'"
      using c i call False by (auto simp: unlink_inv_def)
    then show ?thesis using False call l t by (auto simp: c)
  next
    case True
    have lv: "live buf0 ps0 = live buf0 pre @ entry_at buf0 p # live buf0 post"
      using i(1,2) True by (simp add: live_Cons)
    have "\<exists>ps. length buf' = bs \<and> tiles buf' 0 bs ps \<and> live buf' ps = live buf0 pre @ live buf0 post"
    proof (cases pre rule: rev_cases)
      case Nil
      then have p0: "p = 0" using t'(1) by simp
      let ?B = "set_de_inode buf p 0"
      have b: "buf' = ?B" using True call p0 by auto
      have p8: "p + 8 \<le> length buf" "p + 8 \<le> p + rl buf p" using t'(2) by (auto simp: ok_rec_def)
      have "ok_rec ?B p" "rl ?B p = rl buf p"
        using t'(2) p8 by (simp_all add: ok_rec_def rl_def nl_def)
      then have "tiles ?B p (p + rl buf p) [p]" by simp
      moreover have "agree ?B buf 0 p" "agree ?B buf (p + rl buf p) bs"
        using p8 by (auto intro!: agree_set_de)
      ultimately have "tiles ?B 0 bs (pre @ [p] @ post)"
        "live ?B (pre @ [p] @ post) = live buf pre @ live ?B [p] @ live buf post"
        using tiles_replace [OF _ _ t'(1,3)] by blast+
      then show ?thesis using b p8 l i(1) by (intro exI [of _ "pre @ [p] @ post"]) (simp add: live_Cons)
    next
      case (snoc pre' q)
      have tq: "tiles buf 0 q pre'" "ok_rec buf q" "q + rl buf q = p"
        using t'(1) snoc by (auto simp: tiles_append)
      have "p \<noteq> 0" using tq by (auto simp: ok_rec_def)
      then have b: "buf' = set_de_rec_len buf q (de_rec_len buf q + de_rec_len buf p)"
        using True call i(5) snoc by auto
      let ?l = "rl buf q + rl buf p"
      have le: "q + ?l \<le> length buf" using tq t'(2) by (simp add: ok_rec_def)
      have "of_nat ?l = de_rec_len buf q + de_rec_len buf p" by (simp add: rl_def)
      then have b': "buf' = set_de_rec_len buf q (of_nat ?l)" using b by simp
      have "rl buf q \<le> ?l" "4 dvd ?l" "?l < 65536" using le l i(4) tq(2) t'(2) by (auto simp: ok_rec_def)
      note r = rec_len_only [OF tq(2) le this, folded b']
      have "tiles buf' q (q + ?l) [q]" using r by simp
      moreover have "tiles buf (q + ?l) bs post" using t'(3) tq(3) by (simp add: add.assoc [symmetric])
      ultimately have "tiles buf' 0 bs (pre' @ [q] @ post)"
        "live buf' (pre' @ [q] @ post) = live buf pre' @ live buf' [q] @ live buf post"
        using tiles_replace [OF r(5,6) tq(1)] by blast+
      moreover have "live buf' [q] = live buf [q]" using r(4) by (auto simp: live_def)
      ultimately show ?thesis using r(1) l i(1) snoc by (intro exI [of _ "pre' @ [q] @ post"]) simp
    qed
    then obtain ps where ps: "length buf' = bs" "tiles buf' 0 bs ps" "live buf' ps = live buf0 pre @ live buf0 post" by blast
    have ret: "ret = DIRENT_ABORT OR DIRENT_CHANGED" using True call by simp
    have "unlink_stop buf0 ps0 s0 bs buf' (c \<or> ret AND DIRENT_CHANGED \<noteq> 0) s'"
      unfolding unlink_stop_def
    proof (intro conjI exI)
      show "c \<or> ret AND DIRENT_CHANGED \<noteq> 0" by (simp add: ret DIRENT_ABORT_def DIRENT_CHANGED_def)
      show "ul_done s' = ul_done s0 + 1" using call True m(3) by auto
      show "unlink_match s0 (entry_at buf0 p)" using True i(1) by simp
    qed (use ps(2,3) lv i(6) in simp_all)
    then show ?thesis
      using ps(1) by (simp add: ret DIRENT_ABORT_def DIRENT_CHANGED_def)
  qed
qed

interpretation ul: dir_visitor unlink_proc bs DIRENT_FLAG_INCLUDE_EMPTY
    "unlink_inv buf0 ps0 s0 bs" "unlink_stop buf0 ps0 s0 bs"
  for bs buf0 ps0 s0
proof (unfold_locales, goal_cases)
  case 1 then show ?case by (simp add: DIRENT_FLAG_INCLUDE_EMPTY_def DIRENT_FLAG_INCLUDE_REMOVED_def)
next
  case 2 then show ?case using unlink_visit by blast
next
  case 3 then show ?case by (simp add: DIRENT_FLAG_INCLUDE_EMPTY_def)
qed

section \<open>The swap on the way to the device\<close>

lemma swap_dirent_in_out: "swap_dirent_in = swap_dirent"
  by (simp add: fun_eq_iff swap_dirent_in_def swap_dirent_def)

lemma swap_dirent_fields:
  assumes "p + 8 \<le> length buf"
  shows "de_inode (swap_dirent 0 buf p) p = ext2fs_swab32 (de_inode buf p)"
    "de_rec_len (swap_dirent 0 buf p) p = ext2fs_swab16 (de_rec_len buf p)"
    "de_name_len (swap_dirent 0 buf p) p = ext2fs_swab16 (de_name_len buf p)"
  using assms by (simp_all add: swap_dirent_def Let_def)

text \<open>Where the bytes of a swapped header come from.\<close>

definition perm8 :: "nat list" where
  "perm8 = [3, 2, 1, 0, 5, 4, 7, 6]"

lemma length_perm8 [simp]: "length perm8 = 8"
  by (simp add: perm8_def)

lemma swap_index: "i < 8 \<Longrightarrow> perm8 ! i < 8" "i < 8 \<Longrightarrow> perm8 ! (perm8 ! i) = i"
  by (auto simp: perm8_def less_Suc_eq numeral_eq_Suc)

lemma swap_dirent_bytes:
  assumes "p + 8 \<le> length buf"
  shows "swap_dirent 0 buf p =
    put_bytes buf p (map (\<lambda>i. buf ! (p + i)) perm8)"
proof -
  have f: "swap_dirent 0 buf p = st16 (st16 (st32 buf p (ext2fs_swab32 (ld32 buf p))) (p + 4)
      (ext2fs_swab16 (ld16 buf (p + 4)))) (p + 6) (ext2fs_swab16 (ld16 buf (p + 6)))"
    using assms
    by (simp add: swap_dirent_def Let_def de_inode_def [symmetric] de_rec_len_def [symmetric] de_name_len_def [symmetric])
      (simp add: set_de_defs)
  show ?thesis
    using assms unfolding f st16_def st32_def mem_be_swab ld_bytes perm8_def
    by (intro nth_equalityI) (auto simp: nth_put_bytes nth_Cons' numeral_eq_Suc less_Suc_eq)
qed

lemma length_swap [simp]: "p + 8 \<le> length buf \<Longrightarrow> length (swap_dirent 0 buf p) = length buf"
  by (simp add: swap_dirent_bytes)

lemma agree_swap: "p + 8 \<le> length buf \<Longrightarrow> b \<le> p \<or> p + 8 \<le> a \<Longrightarrow> agree (swap_dirent 0 buf p) buf a b"
  by (simp add: swap_dirent_bytes agree_stores(3))

lemma nth_swap:
  assumes "p + 8 \<le> length buf"
  shows "swap_dirent 0 buf p ! i =
    (if p \<le> i \<and> i < p + 8 then buf ! (p + perm8 ! (i - p)) else buf ! i)"
  unfolding swap_dirent_bytes [OF assms] using assms
  by (subst nth_put_bytes) auto

lemma swap_swap: "p + 8 \<le> length buf \<Longrightarrow> swap_dirent 0 (swap_dirent 0 buf p) p = buf"
  by (intro nth_equalityI) (auto simp: nth_swap swap_index)

lemma swap_commute:
  assumes "p + 8 \<le> q" "q + 8 \<le> length buf"
  shows "swap_dirent 0 (swap_dirent 0 buf p) q = swap_dirent 0 (swap_dirent 0 buf q) p"
proof (rule nth_equalityI)
  fix i assume "i < length (swap_dirent 0 (swap_dirent 0 buf p) q)"
  have a: "p + perm8 ! (i - p) < q" if "i < p + 8"
    using swap_index(1) [of "i - p"] that assms by linarith
  have b: "p + 8 \<le> q + perm8 ! (i - q)" using assms by simp
  have l: "p + 8 \<le> length (swap_dirent 0 buf q)" "q + 8 \<le> length (swap_dirent 0 buf p)" "p + 8 \<le> length buf"
    using assms by simp_all
  consider "p \<le> i" "i < p + 8" | "q \<le> i" "i < q + 8" | "i < p \<or> p + 8 \<le> i" "i < q \<or> q + 8 \<le> i" by linarith
  then show "swap_dirent 0 (swap_dirent 0 buf p) q ! i = swap_dirent 0 (swap_dirent 0 buf q) p ! i"
    using assms a b by cases (auto simp: nth_swap [OF l(1)] nth_swap [OF l(2)] nth_swap [OF l(3)] nth_swap [OF assms(2)])
qed (use assms in simp)

definition swaps :: "nat list \<Rightarrow> u8 list \<Rightarrow> u8 list" where
  "swaps ps buf = fold (\<lambda>p b. swap_dirent 0 b p) ps buf"

lemma swaps_simps [simp]: "swaps [] buf = buf" "swaps (p # ps) buf = swaps ps (swap_dirent 0 buf p)"
  by (simp_all add: swaps_def)

lemma swaps_props:
  assumes "\<forall>q \<in> set ps. p + 8 \<le> q \<and> q + 8 \<le> length buf"
  shows "length (swaps ps buf) = length buf" "agree (swaps ps buf) buf 0 (p + 8)"
    "swaps ps (swap_dirent 0 buf p) = swap_dirent 0 (swaps ps buf) p"
proof -
  have "length (swaps ps buf) = length buf \<and> agree (swaps ps buf) buf 0 (p + 8) \<and>
      swaps ps (swap_dirent 0 buf p) = swap_dirent 0 (swaps ps buf) p"
    using assms
  proof (induction ps arbitrary: buf)
    case (Cons q ps)
    then have q: "p + 8 \<le> q" "q + 8 \<le> length buf" by simp_all
    have l: "length (swap_dirent 0 buf q) = length buf" using q by simp
    have ih: "length (swaps ps (swap_dirent 0 buf q)) = length buf \<and>
        agree (swaps ps (swap_dirent 0 buf q)) (swap_dirent 0 buf q) 0 (p + 8) \<and>
        swaps ps (swap_dirent 0 (swap_dirent 0 buf q) p) = swap_dirent 0 (swaps ps (swap_dirent 0 buf q)) p"
      using Cons.IH [of "swap_dirent 0 buf q"] Cons.prems l by simp
    moreover have "agree (swap_dirent 0 buf q) buf 0 (p + 8)" using q by (intro agree_swap) auto
    ultimately show ?case using agree_trans swap_commute [OF q] by fastforce
  qed simp
  then show "length (swaps ps buf) = length buf" "agree (swaps ps buf) buf 0 (p + 8)"
    "swaps ps (swap_dirent 0 buf p) = swap_dirent 0 (swaps ps buf) p" by simp_all
qed

lemma tiles_after: "tiles buf p q (x # xs) \<Longrightarrow> y \<in> set xs \<Longrightarrow> p + 8 \<le> y"
  using tiles_mem [of buf "p + rl buf p" q xs y] by (auto simp: ok_rec_def)

lemma swaps_fields:
  assumes "tiles B p bs ps" "length B = bs"
  shows "(\<forall>q \<in> set ps. de_inode (swaps ps B) q = ext2fs_swab32 (de_inode B q) \<and>
      de_rec_len (swaps ps B) q = ext2fs_swab16 (de_rec_len B q) \<and>
      de_name_len (swaps ps B) q = ext2fs_swab16 (de_name_len B q)) \<and>
    (\<forall>i. (\<forall>q \<in> set ps. \<not> (q \<le> i \<and> i < q + 8)) \<longrightarrow> swaps ps B ! i = B ! i)"
  using assms
proof (induction ps arbitrary: p B)
  case (Cons x ps)
  let ?C = "swap_dirent 0 B x"
  have x: "x = p" "ok_rec B x" "tiles B (x + rl B x) bs ps" using Cons.prems(1) by simp_all
  have p8: "x + 8 \<le> length B" "x + 8 \<le> x + rl B x" using x(2) by (auto simp: ok_rec_def)
  have l: "length ?C = bs" using p8 Cons.prems(2) by simp
  have ag: "agree ?C B (x + rl B x) bs" using p8 by (intro agree_swap) auto
  have t: "tiles ?C (x + rl B x) bs ps" by (rule tiles_agree [OF agree_sym [OF ag] x(3)])
  note ih = Cons.IH [OF t l]
  have after: "\<forall>q \<in> set ps. x + rl B x \<le> q \<and> q + 8 \<le> length ?C" using tiles_mem [OF t] ok_rec_bounds by blast
  have first: "agree (swaps ps ?C) ?C 0 (x + 8)" using after p8 by (intro swaps_props(2)) auto
  have "de_inode (swaps ps ?C) q = ext2fs_swab32 (de_inode B q) \<and>
      de_rec_len (swaps ps ?C) q = ext2fs_swab16 (de_rec_len B q) \<and>
      de_name_len (swaps ps ?C) q = ext2fs_swab16 (de_name_len B q)" if "q \<in> set (x # ps)" for q
  proof (cases "q \<in> set ps")
    case True
    then have q: "x + rl B x \<le> q" "q + 8 \<le> bs" using after l by auto
    then show ?thesis using ih True agree_fields [OF ag q] by simp
  next
    case False
    then have q: "q = x" using that by simp
    show ?thesis
      unfolding q using agree_fields [OF first, of x] swap_dirent_fields [OF p8(1)] by simp
  qed
  moreover have "swaps ps ?C ! i = B ! i" if "\<forall>q \<in> set (x # ps). \<not> (q \<le> i \<and> i < q + 8)" for i
  proof -
    have "?C ! i = B ! i" using that nth_swap [OF p8(1), of i] by auto
    then show ?thesis using ih that by auto
  qed
  ultimately show ?case by simp
qed simp

lemma rec_checks:
  assumes "small_block fs bs" "ok_rec B p"
  shows "\<not> (ext2fs_get_rec_len fs B p < 8 \<or> ext2fs_get_rec_len fs B p mod 4 \<noteq> 0)"
    "\<not> (ucast (de_name_len B p) AND 0xFF) + 8 > ext2fs_get_rec_len fs B p"
    "unat (ext2fs_get_rec_len fs B p) = rl B p"
  using bad_rec_len_iff [OF assms(1), of B p] assms(2) unat_get_rec_len [OF assms(1), of B p]
  by (auto simp: bad_rec_len_def ok_rec_def)

lemma write_swap_tiles:
  assumes "small_block fs bs" "length B = bs" "tiles B p bs ps"
  shows "write_swap_loop fs 0 B p = Inr (swaps ps B)"
  using assms(2,3)
proof (induction ps arbitrary: p B)
  case Nil
  then show ?case using assms(1) by (subst write_swap_loop.simps) (simp add: small_block_def)
next
  case (Cons x ps)
  then have x: "x = p" "ok_rec B p" "tiles B (p + rl B p) bs ps" by simp_all
  have p8: "p + 8 \<le> length B" "p < bs" using ok_rec_bounds [OF x(2)] Cons.prems(1) by simp_all
  have a: "agree B (swap_dirent 0 B p) (p + rl B p) bs"
    using x(2) p8 by (intro agree_sym [OF agree_swap]) (auto simp: ok_rec_def)
  have l: "length (swap_dirent 0 B p) = bs" using p8(1) Cons.prems(1) by simp
  have "write_swap_loop fs 0 B p = write_swap_loop fs 0 (swap_dirent 0 B p) (p + rl B p)"
    using rec_checks [OF assms(1) x(2)] p8(2) assms(1)
    by (subst write_swap_loop.simps) (simp add: Let_def small_block_def)
  then show ?case using Cons.IH [OF l tiles_agree [OF a x(3)]] x(1) by simp
qed

lemma read_swap_tiles:
  assumes b: "small_block fs bs" and "length C = bs" "tiles C p bs ps" "p \<le> bs"
  shows "read_swap_loop fs 0 (swaps ps C) p (Inr ()) =
     (Inr (), if 8 \<le> bs \<and> bs - 8 \<in> set ps then swap_dirent 0 C (bs - 8) else C)"
  using assms(2-4)
proof (induction ps arbitrary: p)
  case Nil
  then show ?case using b by (subst read_swap_loop.simps) (simp add: small_block_def)
next
  case (Cons x ps)
  then have x: "x = p" "ok_rec C p" "tiles C (p + rl C p) bs ps" by simp_all
  have p8: "p + 8 \<le> bs" "p + rl C p \<le> bs" "8 \<le> rl C p" using x(2) Cons.prems(1) by (auto simp: ok_rec_def)
  have ps: "\<forall>q \<in> set ps. p + 8 \<le> q \<and> q + 8 \<le> length C"
    using tiles_after [OF Cons.prems(2)] tiles_mem [OF x(3)] ok_rec_bounds by blast
  note sp = swaps_props [OF ps]
  have e: "swaps (x # ps) C = swap_dirent 0 (swaps ps C) p" using sp(3) x(1) by simp
  show ?case
  proof (cases "p + 8 < bs")
    case False
    then have "rl C p = 8" "p = bs - 8" and q: "p + rl C p = bs" using p8 by linarith+
    have "ps = []" using x(3) Cons.prems(1) unfolding q by (cases ps) (auto simp: ok_rec_def)
    then show ?thesis
      using b False p8 x(1) \<open>p = bs - 8\<close> by (subst read_swap_loop.simps) (simp add: small_block_def)
  next
    case True
    have inv: "swap_dirent 0 (swap_dirent 0 (swaps ps C) p) p = swaps ps C"
      using p8 sp(1) Cons.prems(1) by (intro swap_swap) simp
    have f: "rl (swaps ps C) p = rl C p" "ok_rec (swaps ps C) p"
      using agree_rec [OF sp(2), of p] x(2) by simp_all
    have n: "ext2fs_swab16 (de_name_len (swap_dirent 0 (swaps ps C) p) p) = de_name_len (swaps ps C) p"
      using p8 sp(1) Cons.prems(1) by (simp add: swap_dirent_def Let_def swab16_swab16)
    note [simp] = swap_dirent_in_out
    have "read_swap_loop fs 0 (swaps (x # ps) C) p (Inr ()) = read_swap_loop fs 0 (swaps ps C) (p + rl C p) (Inr ())"
      unfolding e using rec_checks [OF b f(2)] True b
      by (subst read_swap_loop.simps) (simp add: Let_def small_block_def inv n f(1))
    moreover have "bs - 8 \<noteq> p" using True by simp
    ultimately show ?thesis using Cons.IH [OF Cons.prems(1) x(3) p8(2)] x(1) by simp
  qed
qed

section \<open>Record lengths of large blocks\<close>

lemma u16_of_u32: "(x :: u32) < 65536 \<Longrightarrow> ucast (ucast x :: u16) = x"
  by (simp add: split_field word_unat_eq_iff unsigned_take_bit_eq take_bit_nat_eq_self word_less_nat_alt)

lemma rec_len_pack:
  assumes "(len :: u32) \<le> 2 ^ 18" "len AND 3 = 0" "len \<noteq> 2 ^ 18"
  defines "e \<equiv> (len AND 65532) OR (drop_bit 16 len AND 3)"
  shows "(e AND 65532) OR push_bit 16 (e AND 3) = len" "e < 65536"
proof -
  have m: "(65532 :: u32) = mask 16 AND NOT (mask 2)" "(3 :: u32) = mask 2"
    by (simp_all add: mask_eq_exp_minus_1)
  have "unat len < 2 ^ 18" using assms(1,3) by (simp add: word_le_nat_alt word_unat_eq_iff)
  then have t: "take_bit 18 len = len"
    by (simp add: word_unat_eq_iff unsigned_take_bit_eq take_bit_nat_eq_self)
  have hi: "\<not> bit len n" if "18 \<le> n" for n
    using arg_cong [OF t, of "\<lambda>x. bit x n"] that by (auto simp: bit_simps)
  have lo: "\<not> bit len n" if "n < 2" for n
    using arg_cong [OF assms(2), of "\<lambda>x. bit x n"] that unfolding m by (auto simp: bit_simps)
  show "(e AND 65532) OR push_bit 16 (e AND 3) = len"
    unfolding e_def m
  proof (rule bit_word_eqI)
    fix n assume "n < LENGTH(32)"
    then show "bit (((len AND (mask 16 AND NOT (mask 2))) OR (drop_bit 16 len AND mask 2)) AND (mask 16 AND NOT (mask 2)) OR
        push_bit 16 ((((len AND (mask 16 AND NOT (mask 2))) OR (drop_bit 16 len AND mask 2))) AND mask 2)) n = bit len n"
      using hi lo by (cases "n < 2"; cases "n < 16"; cases "n < 18") (auto simp: bit_simps not_less)
  qed
  have "e = take_bit 16 e"
    unfolding e_def m by (rule bit_word_eqI) (auto simp: bit_simps)
  then have "unat e < 2 ^ 16" by (metis unsigned_take_bit_eq take_bit_nat_less_exp)
  then show "e < 65536" by (simp add: word_less_nat_alt)
qed

lemma rec_len_plain:
  assumes "(len :: u32) < 65536" "len AND 3 = 0"
  shows "(len AND 65532) OR push_bit 16 (len AND 3) = len"
proof -
  have "len \<le> 2 ^ 18" "len \<noteq> 2 ^ 18" using assms(1) by (auto simp: word_less_nat_alt word_le_nat_alt)
  note p = rec_len_pack(1) [OF this(1) assms(2) this(2)]
  have "drop_bit 16 len = 0"
    using assms(1) by (simp add: word_unat_eq_iff unsigned_drop_bit_eq drop_bit_eq_div word_less_nat_alt unat_div_distrib)
  moreover have "(len AND 65532) AND 65532 = len AND 65532" by (simp add: and.assoc)
  moreover have "(len AND 65532) AND 3 = 0" by (simp add: and.assoc)
  ultimately show ?thesis using assms(2) p by simp
qed

section \<open>Properties\<close>

definition fs_dir :: filsys where
  "fs_dir = fs_sample\<lparr>fs_blocksize := 40\<rparr>"

text \<open>A block with an entry for the name \<open>a\<close> in 12 bytes and one for \<open>bc\<close> in 28.\<close>

definition dir_sample :: "u8 list" where
  "dir_sample = [0, 0, 0, 2, 0, 12, 0, 1, 0x61, 0, 0, 0,
     0, 0, 0, 3, 0, 28, 0, 2, 0x62, 0x63, 0, 0, 0, 0, 0, 0, 0, 0, 0, 0, 0, 0, 0, 0, 0, 0, 0, 0]"

definition io_dir :: "u8 list io_channel" where
  "io_dir = \<lparr>io_magic = EXT2_ET_MAGIC_IO_CHANNEL,
     io_manager = \<lparr>im_set_blksize = (\<lambda>d n. (Inr (), d)), im_read_blk = (\<lambda>d b n. (Inr d, d)),
       im_write_blk = (\<lambda>d b n x. (Inr (), x)), im_flush = (\<lambda>d. (Inr (), d)), im_write_byte = None,
       im_set_option = None, im_read_blk64 = None, im_write_blk64 = None, im_discard = None\<rparr>,
     io_dev = swap_dirent 0 (swap_dirent 0 dir_sample 0) 12\<rparr>"

lemma dir_sample_tiles:
  "small_block fs_dir 40" "length dir_sample = 40" "tiles dir_sample 0 40 [0, 12]"
  "live dir_sample [0, 12] = [(2, 1, [0x61]), (3, 2, [0x62, 0x63])]"
proof -
  have f: "de_rec_len dir_sample 0 = 12" "de_name_len dir_sample 0 = 1" "de_rec_len dir_sample 12 = 28"
    "de_name_len dir_sample 12 = 2" "de_inode dir_sample 0 = 2" "de_inode dir_sample 12 = 3"
    "de_name dir_sample 0 1 = [0x61]" "de_name dir_sample 12 2 = [0x62, 0x63]"
    by code_simp+
  show l: "small_block fs_dir 40" "length dir_sample = 40"
    by (simp_all add: small_block_def fs_dir_def dir_sample_def)
  show "tiles dir_sample 0 40 [0, 12]" by (simp add: ok_rec_def rl_def nl_def f l)
  show "live dir_sample [0, 12] = [(2, 1, [0x61]), (3, 2, [0x62, 0x63])]"
    using f(7,8) by (simp add: live_def entry_at_def nl_def f)
qed

lemma io_dir_read: "ext2fs_read_dir_block3 fs_dir io_dir 5 0 = (Inr dir_sample, io_dir)"
proof -
  have "io_dev io_dir = swaps [0, 12] dir_sample" by (simp add: io_dir_def)
  moreover have "io_channel_read_blk64 io_dir 5 1 = (Inr (io_dev io_dir), io_dir)"
    by (simp add: io_channel_read_blk64_def io_dir_def drop_bit_eq_div)
  ultimately show ?thesis
    using read_swap_tiles [OF dir_sample_tiles(1-3)]
    by (simp add: ext2fs_read_dir_block3_def)
qed

text \<open>
  C25. Looking a name up in a well-formed directory block of less than 64 KiB ends, changes neither the block nor the
  channel, and finds exactly the first entry in use with that name: then the walk stops with its
  inode number, otherwise it goes on with the caller's data untouched.
\<close>

theorem lookup_in_block:
  assumes "small_block fs bs" "ext2fs_read_dir_block3 fs io blk 0 = (Inr buf, io')" "0 \<le> cnt"
    and "length buf = bs" "tiles buf 0 bs ps" "0 \<notin> set (lk_name s)" "lk_len s = length (lk_name s)"
  shows "ext2fs_process_dir_block h fs io \<lparr>ctx_dir = dir, ctx_flags = 0, ctx_func = lookup_proc\<rparr> blk cnt err s =
    Some (case find (\<lambda>(_, _, name). name = lk_name s) (live buf ps) of
            None \<Rightarrow> (0, None, s, io')
          | Some (ino, _, _) \<Rightarrow> (BLOCK_ABORT, None, s\<lparr>lk_inode := ino, lk_found := lk_found s + 1\<rparr>, io'))"
proof -
  have "lookup_inv buf ps s [] ps buf False s" using assms(6,7) by (simp add: lookup_inv_def)
  from lk.process [OF assms(1-5) this, of h dir err] obtain buf' ch ab s' where r:
    "ext2fs_process_dir_block h fs io (lk.ctx dir) blk cnt err s = Some (dir_block_finish h fs io' blk buf' ch ab s')"
    "if ab then lookup_stop buf ps s buf' ch s' else \<exists>qs. tiles buf' 0 bs qs \<and> lookup_inv buf ps s qs [] buf' ch s'"
    by blast
  have n: "(\<lambda>(_, _, name). name = lk_name s) = names (lk_name s)" by (auto simp: names_def)
  show ?thesis
    using r unfolding n
    by (cases ab) (auto simp: lookup_stop_def lookup_inv_def dir_block_finish_def lk.ctx_def)
qed

lemma lookup_in_block_witness:
  "ext2fs_process_dir_block (roomy 0) fs_dir io_dir \<lparr>ctx_dir = 2, ctx_flags = 0, ctx_func = lookup_proc\<rparr> 5 0 None
       \<lparr>lk_name = [0x62, 0x63], lk_len = 2, lk_inode = 0, lk_found = 0\<rparr> =
     Some (BLOCK_ABORT, None, \<lparr>lk_name = [0x62, 0x63], lk_len = 2, lk_inode = 3, lk_found = 1\<rparr>, io_dir)"
proof -
  have "0 \<notin> set (lk_name \<lparr>lk_name = [0x62, 0x63], lk_len = 2, lk_inode = 0, lk_found = 0\<rparr>)"
    "lk_len \<lparr>lk_name = [0x62, 0x63], lk_len = 2, lk_inode = 0, lk_found = 0\<rparr> =
     length (lk_name \<lparr>lk_name = [0x62, 0x63], lk_len = 2, lk_inode = 0, lk_found = 0\<rparr>)" by simp_all
  from lookup_in_block [OF dir_sample_tiles(1) io_dir_read order_refl dir_sample_tiles(2,3) this]
  show ?thesis by (simp add: dir_sample_tiles(4))
qed

text \<open>
  C26. Linking a name of at most 255 bytes into a well-formed directory block (of less than 64 KiB)
  always ends with a well-formed block, whose records are those that \<open>link_recs\<close> makes of the
  records before: going through them in order, a free record right behind the visited one is merged
  into it (one per visit), a used record with room is cut to its size, and the first free record with
  room takes the entry. Either the new entry was added and the entries in use are otherwise the same,
  in the same order, or nothing in use changed and no record of the block has room for the name. The
  block is written exactly when it is another one than the one read.
\<close>

theorem link_into_block:
  assumes "small_block fs bs" "ext2fs_read_dir_block3 fs io blk 0 = (Inr buf, io')" "0 \<le> cnt"
    and "length buf = bs" "tiles buf 0 bs ps" "ln_inode s \<noteq> 0" "length (ln_name s) \<le> 255" "ln_err s = None"
  shows "\<exists>buf' ch ab s' ps'.
    ext2fs_process_dir_block h fs io
      \<lparr>ctx_dir = dir, ctx_flags = DIRENT_FLAG_INCLUDE_EMPTY, ctx_func = link_proc fs\<rparr> blk cnt err s =
      Some (dir_block_finish h fs io' blk buf' ch ab s') \<and>
    length buf' = bs \<and> tiles buf' 0 bs ps' \<and> (ch \<longleftrightarrow> buf' \<noteq> buf) \<and>
    link_recs bs (need (length (ln_name s))) (new_entry fs s) 0 (recs buf ps) = (recs buf' ps', ch, ab) \<and>
    (if ab then s' = s\<lparr>ln_done := ln_done s + 1\<rparr> \<and>
       (\<exists>xs ys. live buf ps = xs @ ys \<and> live buf' ps' = xs @ new_entry fs s # ys)
     else s' = s \<and> live buf' ps' = live buf ps \<and>
       (\<forall>p \<in> set ps'. \<not> room buf' (need (length (ln_name s))) p))"
proof -
  let ?k = "need (length (ln_name s))" and ?new = "new_entry fs s"
  let ?R = "link_recs bs ?k ?new 0 (recs buf ps)"
  have "link_inv fs bs (live buf ps) ?R s [] ps buf False s"
    using assms tiles_hd [OF assms(5)] by (simp add: link_inv_def split: prod.split)
  from ln.process [OF assms(1-5) this, of h dir err] obtain buf' ch ab s' where r:
    "ext2fs_process_dir_block h fs io (ln.ctx fs dir) blk cnt err s = Some (dir_block_finish h fs io' blk buf' ch ab s')"
    "length buf' = bs" "\<not> ch \<longrightarrow> buf' = buf"
    and e: "if ab then link_stop fs bs (live buf ps) ?R s buf' ch s'
     else \<exists>qs. tiles buf' 0 bs qs \<and> link_inv fs bs (live buf ps) ?R s qs [] buf' ch s'"
    by blast
  obtain qs where q: "tiles buf' 0 bs qs" "?R = (recs buf' qs, ch, ab)"
    "if ab then s' = s\<lparr>ln_done := ln_done s + 1\<rparr> \<and>
       (\<exists>xs ys. live buf ps = xs @ ys \<and> live buf' qs = xs @ new_entry fs s # ys)
     else s' = s \<and> live buf' qs = live buf ps \<and> (\<forall>p \<in> set qs. \<not> room buf' ?k p)"
  proof (cases ab)
    case True
    then show ?thesis using e that by (auto simp: link_stop_def)
  next
    case False
    then show ?thesis using e that by (auto simp: link_inv_def)
  qed
  have "fst ?new \<noteq> 0" "0 < ?k" using assms(6) need_bounds(4) [of "length (ln_name s)"] by (simp_all add: new_entry_def)
  moreover have "\<forall>y \<in> set (recs buf ps). 0 < fst y"
    using tiles_mem [OF assms(5)] by (fastforce simp: recs_def ok_rec_def)
  ultimately have "ch \<longleftrightarrow> recs buf' qs \<noteq> recs buf ps" using q(2) by (rule link_recs_changed)
  then have "ch \<longleftrightarrow> buf' \<noteq> buf" using r(3) tiles_unique [OF q(1)] assms(5) by blast
  then show ?thesis using r(1,2) q unfolding ln.ctx_def by blast
qed

definition link_sample :: link_struct where
  "link_sample = \<lparr>ln_name = [0x64], ln_inode = 7, ln_flags = 1, ln_done = 0, ln_err = None\<rparr>"

lemma link_into_block_witness:
  "\<exists>buf' ch ab s' ps'.
    ext2fs_process_dir_block (roomy 0) fs_dir io_dir
      \<lparr>ctx_dir = 2, ctx_flags = DIRENT_FLAG_INCLUDE_EMPTY, ctx_func = link_proc fs_dir\<rparr> 5 0 None link_sample =
      Some (dir_block_finish (roomy 0) fs_dir io_dir 5 buf' ch ab s') \<and> tiles buf' 0 40 ps'"
proof -
  have "ln_inode link_sample \<noteq> 0" "length (ln_name link_sample) \<le> 255" "ln_err link_sample = None"
    by (simp_all add: link_sample_def)
  from link_into_block [OF dir_sample_tiles(1) io_dir_read order_refl dir_sample_tiles(2,3) this, of "roomy 0" 2 None]
  show ?thesis by blast
qed

text \<open>
  C27. Unlinking from a well-formed directory block (of less than 64 KiB) always ends. When an entry
  in use matches the name and the inode number asked for, the walk stops with the count of removed
  entries one higher, and the block that is written back is well-formed and holds the entries in use
  without the first match, all others kept in order; when none matches, the block stays as it is and
  is not written.
\<close>

theorem unlink_from_block:
  assumes "small_block fs bs" "ext2fs_read_dir_block3 fs io blk 0 = (Inr buf, io')" "0 \<le> cnt"
    and "length buf = bs" "tiles buf 0 bs ps" "unlink_ok s"
  shows "\<exists>buf' ch ab s' ps'.
    ext2fs_process_dir_block h fs io
      \<lparr>ctx_dir = dir, ctx_flags = DIRENT_FLAG_INCLUDE_EMPTY, ctx_func = unlink_proc\<rparr> blk cnt err s =
      Some (dir_block_finish h fs io' blk buf' ch ab s') \<and>
    length buf' = bs \<and> tiles buf' 0 bs ps' \<and>
    ch = ab \<and>
    (if ab then ul_done s' = ul_done s + 1 \<and>
       (\<exists>xs e ys. live buf ps = xs @ e # ys \<and> unlink_match s e \<and> find (unlink_match s) xs = None \<and>
          live buf' ps' = xs @ ys)
     else ul_done s' = ul_done s \<and> buf' = buf \<and> find (unlink_match s) (live buf ps) = None)"
proof -
  have "bs < 65536" using assms(1) by (simp add: small_block_def)
  then have "unlink_inv buf ps s bs [] ps buf False s" using assms(6) by (simp add: unlink_inv_def)
  from ul.process [OF assms(1-5) this, of h dir err] obtain buf' ch ab s' where r:
    "ext2fs_process_dir_block h fs io (ul.ctx dir) blk cnt err s = Some (dir_block_finish h fs io' blk buf' ch ab s')"
    "length buf' = bs"
    "if ab then unlink_stop buf ps s bs buf' ch s'
     else \<exists>qs. tiles buf' 0 bs qs \<and> unlink_inv buf ps s bs qs [] buf' ch s'"
    by blast
  show ?thesis
  proof (cases ab)
    case True
    then obtain qs xs e ys where "tiles buf' 0 bs qs" "live buf' qs = xs @ ys" "live buf ps = xs @ e # ys" "ch"
      "ul_done s' = ul_done s + 1" "unlink_match s e" "find (unlink_match s) xs = None"
      using r(3) unfolding unlink_stop_def by auto
    then show ?thesis using r(1,2) True unfolding ul.ctx_def by (metis (no_types, lifting))
  next
    case False
    then obtain qs where "tiles buf' 0 bs qs" "unlink_inv buf ps s bs qs [] buf' ch s'" using r(3) by auto
    then have "buf' = buf" "\<not> ch" "ul_done s' = ul_done s" "find (unlink_match s) (live buf ps) = None"
      "tiles buf' 0 bs ps"
      using assms(5) by (auto simp: unlink_inv_def)
    then show ?thesis using r(1,2) False unfolding ul.ctx_def by (metis (no_types, lifting))
  qed
qed

lemma unlink_from_block_witness:
  "\<exists>buf' ch ab s' ps'.
    ext2fs_process_dir_block (roomy 0) fs_dir io_dir
      \<lparr>ctx_dir = 2, ctx_flags = DIRENT_FLAG_INCLUDE_EMPTY, ctx_func = unlink_proc\<rparr> 5 0 None
      \<lparr>ul_name = Some [0x61], ul_inode = 0, ul_prev = None, ul_done = 0\<rparr> =
      Some (dir_block_finish (roomy 0) fs_dir io_dir 5 buf' ch ab s') \<and> tiles buf' 0 40 ps'"
proof -
  have "unlink_ok \<lparr>ul_name = Some [0x61], ul_inode = 0, ul_prev = None, ul_done = 0\<rparr>"
    by (simp add: unlink_ok_def)
  from unlink_from_block [OF dir_sample_tiles(1) io_dir_read order_refl dir_sample_tiles(2,3) this, of "roomy 0" 2 None]
  show ?thesis by blast
qed

text \<open>
  C28. Writing a well-formed directory block (of less than 64 KiB) byte-swaps the inode number, the
  record length and the name length of every record and nothing else, and reading what was written
  swaps them back: the block comes back as it was, except that a last record of eight bytes,
  which only the write swaps, comes back with its header swapped.
\<close>

theorem dir_block_write_read:
  assumes "small_block fs bs" "length buf = bs" "tiles buf 0 bs ps"
  shows "\<exists>img. write_swap_loop fs 0 buf 0 = Inr img \<and> length img = bs \<and>
    (\<forall>p \<in> set ps. de_inode img p = ext2fs_swab32 (de_inode buf p) \<and>
       de_rec_len img p = ext2fs_swab16 (de_rec_len buf p) \<and>
       de_name_len img p = ext2fs_swab16 (de_name_len buf p)) \<and>
    (\<forall>i. (\<forall>p \<in> set ps. \<not> (p \<le> i \<and> i < p + 8)) \<longrightarrow> img ! i = buf ! i) \<and>
    read_swap_loop fs 0 img 0 (Inr ()) =
      (Inr (), if 8 \<le> bs \<and> bs - 8 \<in> set ps then swap_dirent 0 buf (bs - 8) else buf)"
proof -
  have "\<forall>p \<in> set ps. p + 8 \<le> length buf" using tiles_mem [OF assms(3)] ok_rec_bounds by blast
  then have l: "length (swaps ps buf) = length buf" by (induction ps arbitrary: buf) simp_all
  show ?thesis
    using write_swap_tiles [OF assms] read_swap_tiles [OF assms] assms(2) l swaps_fields [OF assms(3,2)]
    by (intro exI [of _ "swaps ps buf"]) simp
qed

lemma dir_block_write_read_witness:
  "\<exists>img. write_swap_loop fs_dir 0 dir_sample 0 = Inr img \<and>
     read_swap_loop fs_dir 0 img 0 (Inr ()) = (Inr (), dir_sample)"
  using dir_block_write_read [OF dir_sample_tiles(1-3)] by auto

text \<open>
  C29. A record length that \<open>ext2fs_set_rec_len\<close> accepts reads back as stored, for every
  block size up to 256 KiB, except a length of 0 in a block of 64 KiB or more (it means the whole
  block there) and the length 0x3FFFC, whose code 0xFFFF also means the whole block.
\<close>

theorem rec_len_set_get:
  assumes "ext2fs_set_rec_len fs len buf p = Inr buf'" "p + 8 \<le> length buf"
  shows "ext2fs_get_rec_len fs buf' p =
    (if 65536 \<le> fs_blocksize fs \<and> (len = 0 \<or> len = 0x3FFFC) then fs_blocksize fs else len)"
proof -
  let ?bs = "fs_blocksize fs"
  have c: "len \<le> ?bs" "?bs \<le> 2 ^ 18" "len AND 3 = 0"
    using assms(1) by (auto simp: ext2fs_set_rec_len_def not_less split: if_splits)
  have get: "ext2fs_get_rec_len fs (set_de_rec_len buf p (ucast e)) p =
      (if ?bs < 65536 then e else if e = 65535 \<or> e = 0 then ?bs else (e AND 65532) OR push_bit 16 (e AND 3))"
    if "e < 65536" for e
    using assms(2) u16_of_u32 [OF that] by (simp add: ext2fs_get_rec_len_def EXT4_MAX_REC_LEN_def Let_def)
  have and3: "(65535 :: u32) AND 3 = 3" "(65535 :: u32) AND 65532 = 65532" by simp_all
  consider (low) "len < 65536" "buf' = set_de_rec_len buf p (ucast len)"
    | (block) "65536 \<le> len" "len = ?bs" "buf' = set_de_rec_len buf p (ucast (if ?bs = 65536 then 65535 else 0 :: u32))"
    | (packed) "65536 \<le> len" "len \<noteq> ?bs" "buf' = set_de_rec_len buf p (ucast ((len AND 65532) OR (drop_bit 16 len AND 3)))"
    using assms(1) c by (auto simp: ext2fs_set_rec_len_def EXT4_MAX_REC_LEN_def not_less split: if_splits)
  then show ?thesis
  proof cases
    case low
    have "len \<noteq> 65535" using c(3) and3 by auto
    moreover note rec_len_plain [OF low(1) c(3)]
    ultimately show ?thesis
      unfolding low(2) get [OF low(1)] using low(1) by (auto simp: not_less word_less_nat_alt word_le_nat_alt)
  next
    case block
    have "(if ?bs = 65536 then 65535 else 0 :: u32) < 65536" by simp
    from get [OF this] show ?thesis unfolding block(3) using block(1,2) by auto
  next
    case packed
    let ?e = "(len AND 65532) OR (drop_bit 16 len AND 3)"
    have "len \<le> 2 ^ 18" "len \<noteq> 2 ^ 18" using c(1,2) packed(2) by auto
    from rec_len_pack [OF this(1) c(3) this(2)]
    have e: "(?e AND 65532) OR push_bit 16 (?e AND 3) = len" "?e < 65536" by auto
    have z: "?e \<noteq> 0"
    proof
      assume z: "?e = 0"
      show False using e(1) [unfolded z] packed(1) by simp
    qed
    have bs: "65536 \<le> ?bs" using packed(1) c(1) by simp
    have "?e = 65535 \<longleftrightarrow> len = 0x3FFFC"
    proof
      assume z: "?e = 65535"
      show "len = 0x3FFFC" using e(1) [unfolded z] by simp
    qed simp
    then show ?thesis unfolding packed(3) get [OF e(2)] using z bs e(1) by (auto simp: not_less)
  qed
qed

lemma rec_len_set_get_witness:
  "ext2fs_get_rec_len fs_dir (set_de_rec_len dir_sample 12 24) 12 = 24"
proof -
  have "ext2fs_set_rec_len fs_dir 24 dir_sample 12 = Inr (set_de_rec_len dir_sample 12 24)"
    by (simp add: ext2fs_set_rec_len_def fs_dir_def)
  from rec_len_set_get [OF this] show ?thesis by (simp add: dir_sample_tiles fs_dir_def)
qed

end
