(* ===== verification/Block_Device.thy ===== *)
theory Block_Device
  imports Io_Manager Byte_Memory
begin

text \<open>
  The macros of \<open>source/ext2_io.h\<close> that call the manager directly, the routines for indirect
  blocks (\<open>source/ind_block.c\<close>), and what the code above the channel relies on: the locale
  \<open>block_device\<close>, a channel behind which blocks are stored.
\<close>

section \<open>Calls of the manager\<close>

definition io_channel_set_blksize :: "'d io_channel \<Rightarrow> int \<Rightarrow> unit result \<times> 'd io_channel" where
  "io_channel_set_blksize c s =
     (let (r, dev) = im_set_blksize (io_manager c) (io_dev c) s in (r, c\<lparr>io_dev := dev\<rparr>))"

definition io_channel_read_blk :: "'d io_channel \<Rightarrow> u32 \<Rightarrow> int \<Rightarrow> u8 list result \<times> 'd io_channel" where
  "io_channel_read_blk c b n =
     (let (r, dev) = im_read_blk (io_manager c) (io_dev c) b n in (r, c\<lparr>io_dev := dev\<rparr>))"

definition io_channel_write_blk :: "'d io_channel \<Rightarrow> u32 \<Rightarrow> int \<Rightarrow> u8 list \<Rightarrow> unit result \<times> 'd io_channel" where
  "io_channel_write_blk c b n d =
     (let (r, dev) = im_write_blk (io_manager c) (io_dev c) b n d in (r, c\<lparr>io_dev := dev\<rparr>))"

definition io_channel_flush :: "'d io_channel \<Rightarrow> unit result \<times> 'd io_channel" where
  "io_channel_flush c = (let (r, dev) = im_flush (io_manager c) (io_dev c) in (r, c\<lparr>io_dev := dev\<rparr>))"

section \<open>Indirect blocks\<close>

text \<open>The 32-bit words of a block, and a block of words, in the memory of the target.\<close>

definition words_of :: "u8 list \<Rightarrow> u32 list" where
  "words_of buf = map (\<lambda>i. ld32 buf (4 * i)) [0..<length buf div 4]"

definition bytes_of :: "u32 list \<Rightarrow> u8 list" where
  "bytes_of ws = concat (map mem_be32 ws)"

definition EXT2_FLAG_IMAGE_FILE :: u32 where "EXT2_FLAG_IMAGE_FILE = 0x2000"

text \<open>
  The image channel is the channel of the file system, so the branch for an image file on another
  channel is never taken.
\<close>

definition ext2fs_read_ind_block :: "filsys \<Rightarrow> 'd io_channel \<Rightarrow> u32 \<Rightarrow> u32 list result \<times> 'd io_channel" where
  "ext2fs_read_ind_block fs io blk =
     (case io_channel_read_blk io blk 1 of
        (Inl e, io) \<Rightarrow> (Inl e, io)
      | (Inr buf, io) \<Rightarrow> (Inr (map ext2fs_swab32 (words_of buf)), io))"

definition ext2fs_write_ind_block :: "filsys \<Rightarrow> 'd io_channel \<Rightarrow> u32 \<Rightarrow> u32 list \<Rightarrow> unit result \<times> 'd io_channel" where
  "ext2fs_write_ind_block fs io blk buf =
     (if fs_flags fs AND EXT2_FLAG_IMAGE_FILE \<noteq> 0 then (Inr (), io)
      else io_channel_write_blk io blk 1 (bytes_of (map ext2fs_swab32 buf)))"

section \<open>Words and bytes\<close>

lemma length_bytes_of [simp]: "length (bytes_of ws) = 4 * length ws"
  unfolding bytes_of_def by (induction ws) (simp_all add: mem_be32_def)

lemma ld32_append: "ld32 (xs @ ys) (length xs + i) = ld32 ys i"
  by (simp add: ld32_def ld16_def nth_append eval_nat_numeral)

lemma ld32_mem_be32: "ld32 (mem_be32 w @ xs) 0 = w"
proof -
  have l: "length (mem_be32 w @ xs) \<ge> 0 + 4" by (simp add: mem_be32_def)
  have "st32 (mem_be32 w @ xs) 0 w = mem_be32 w @ xs"
    by (simp add: st32_def put_bytes_def mem_be32_def)
  then show ?thesis using ld32_st32 [OF l, of w] by simp
qed

lemma words_of_Cons: "length (mem_be32 w) = 4 \<Longrightarrow> words_of (mem_be32 w @ xs) = w # words_of xs"
proof (rule nth_equalityI)
  assume l: "length (mem_be32 w) = 4"
  then show "length (words_of (mem_be32 w @ xs)) = length (w # words_of xs)" by (simp add: words_of_def)
  fix i assume i: "i < length (words_of (mem_be32 w @ xs))"
  show "words_of (mem_be32 w @ xs) ! i = (w # words_of xs) ! i"
  proof (cases i)
    case 0
    then show ?thesis using i ld32_mem_be32 [of w xs] by (simp add: words_of_def)
  next
    case (Suc j)
    have "j < length xs div 4" using i l Suc by (simp add: words_of_def div_add_self1)
    then show ?thesis using Suc i l ld32_append [of "mem_be32 w" xs "4 * j"] by (simp add: words_of_def)
  qed
qed

lemma words_of_bytes_of [simp]: "words_of (bytes_of ws) = ws"
proof (induction ws)
  case (Cons w ws)
  have "length (mem_be32 w) = 4" by (simp add: mem_be32_def)
  then show ?case using Cons words_of_Cons [of w "bytes_of ws"] by (simp add: bytes_of_def)
qed (simp add: words_of_def bytes_of_def)

lemma length_words_of [simp]: "length (words_of buf) = length buf div 4"
  by (simp add: words_of_def)

section \<open>Channels that store blocks\<close>

text \<open>
  \<open>nb\<close> blocks of \<open>bs\<close> bytes; a channel that is well behaved stays so, a read changes nothing,
  a read may ask for the first bytes of a block only, a write changes one block, and the 32-bit calls are the 64-bit calls.
\<close>

locale block_device =
  fixes io_ok :: "'d io_channel \<Rightarrow> bool" and blk :: "'d io_channel \<Rightarrow> u64 \<Rightarrow> u8 list" and bs nb :: nat
  assumes block_length: "io_ok io \<Longrightarrow> unat b < nb \<Longrightarrow> length (blk io b) = bs"
    and read_block: "io_ok io \<Longrightarrow> unat b < nb \<Longrightarrow>
      \<exists>io'. io_channel_read_blk64 io b 1 = (Inr (blk io b), io') \<and> io_ok io' \<and> blk io' = blk io"
    and read_part: "io_ok io \<Longrightarrow> unat b < nb \<Longrightarrow> 0 < n \<Longrightarrow> n \<le> bs \<Longrightarrow>
      \<exists>io'. io_channel_read_blk64 io b (- int n) = (Inr (take n (blk io b)), io') \<and> io_ok io' \<and> blk io' = blk io"
    and write_block: "io_ok io \<Longrightarrow> unat b < nb \<Longrightarrow> length data = bs \<Longrightarrow>
      \<exists>io'. io_channel_write_blk64 io b 1 data = (Inr (), io') \<and> io_ok io' \<and>
        (\<forall>c. unat c < nb \<longrightarrow> blk io' c = (if c = b then data else blk io c))"
    and calls32: "io_ok io \<Longrightarrow> io_channel_read_blk io c 1 = io_channel_read_blk64 io (ucast c) 1"
      "io_ok io \<Longrightarrow> io_channel_write_blk io c 1 data = io_channel_write_blk64 io (ucast c) 1 data"
begin

definition ind_words :: "'d io_channel \<Rightarrow> u32 \<Rightarrow> u32 list" where
  "ind_words io b = map ext2fs_swab32 (words_of (blk io (ucast b)))"

lemma read_ind_ok:
  assumes "io_ok io" "unat b < nb"
  shows "\<exists>io'. ext2fs_read_ind_block fs io b = (Inr (ind_words io b), io') \<and> io_ok io' \<and> blk io' = blk io"
proof -
  have "unat (ucast b :: u64) < nb" using assms(2) by simp
  from read_block [OF assms(1) this] obtain io' where
    "io_channel_read_blk64 io (ucast b) 1 = (Inr (blk io (ucast b)), io')" "io_ok io'" "blk io' = blk io" by blast
  then show ?thesis using calls32(1) [OF assms(1)] by (simp add: ext2fs_read_ind_block_def ind_words_def)
qed

end

end
