(* ===== verification/Error_Codes.thy ===== *)
theory Error_Codes
  imports Ext2_Prelude
begin

text \<open>
  The codes of \<open>source/ext2_err.h\<close> that are not constructors of \<open>errcode\<close>, by their
  value, and the remaining \<open>errno\<close> values.
\<close>

abbreviation EXT2_ET_MAGIC_INODE_SCAN :: errcode where "EXT2_ET_MAGIC_INODE_SCAN \<equiv> ERR_OTHER 2133571332"
abbreviation EXT2_ET_MAGIC_UNIX_IO_CHANNEL :: errcode where "EXT2_ET_MAGIC_UNIX_IO_CHANNEL \<equiv> ERR_OTHER 2133571334"
abbreviation EXT2_ET_MAGIC_IO_MANAGER :: errcode where "EXT2_ET_MAGIC_IO_MANAGER \<equiv> ERR_OTHER 2133571335"
abbreviation EXT2_ET_MAGIC_TEST_IO_CHANNEL :: errcode where "EXT2_ET_MAGIC_TEST_IO_CHANNEL \<equiv> ERR_OTHER 2133571339"
abbreviation EXT2_ET_MAGIC_PQ_IO_CHANNEL :: errcode where "EXT2_ET_MAGIC_PQ_IO_CHANNEL \<equiv> ERR_OTHER 2133571342"
abbreviation EXT2_ET_MAGIC_EXT2_FILE :: errcode where "EXT2_ET_MAGIC_EXT2_FILE \<equiv> ERR_OTHER 2133571343"
abbreviation EXT2_ET_MAGIC_E2IMAGE :: errcode where "EXT2_ET_MAGIC_E2IMAGE \<equiv> ERR_OTHER 2133571344"
abbreviation EXT2_ET_MAGIC_INODE_IO_CHANNEL :: errcode where "EXT2_ET_MAGIC_INODE_IO_CHANNEL \<equiv> ERR_OTHER 2133571345"
abbreviation EXT2_ET_MAGIC_EXTENT_HANDLE :: errcode where "EXT2_ET_MAGIC_EXTENT_HANDLE \<equiv> ERR_OTHER 2133571346"
abbreviation EXT2_ET_BAD_MAGIC :: errcode where "EXT2_ET_BAD_MAGIC \<equiv> ERR_OTHER 2133571347"
abbreviation EXT2_ET_REV_TOO_HIGH :: errcode where "EXT2_ET_REV_TOO_HIGH \<equiv> ERR_OTHER 2133571348"
abbreviation EXT2_ET_GDESC_READ :: errcode where "EXT2_ET_GDESC_READ \<equiv> ERR_OTHER 2133571350"
abbreviation EXT2_ET_GDESC_WRITE :: errcode where "EXT2_ET_GDESC_WRITE \<equiv> ERR_OTHER 2133571351"
abbreviation EXT2_ET_INODE_BITMAP_WRITE :: errcode where "EXT2_ET_INODE_BITMAP_WRITE \<equiv> ERR_OTHER 2133571355"
abbreviation EXT2_ET_INODE_BITMAP_READ :: errcode where "EXT2_ET_INODE_BITMAP_READ \<equiv> ERR_OTHER 2133571356"
abbreviation EXT2_ET_INODE_TABLE_WRITE :: errcode where "EXT2_ET_INODE_TABLE_WRITE \<equiv> ERR_OTHER 2133571359"
abbreviation EXT2_ET_INODE_TABLE_READ :: errcode where "EXT2_ET_INODE_TABLE_READ \<equiv> ERR_OTHER 2133571360"
abbreviation EXT2_ET_NEXT_INODE_READ :: errcode where "EXT2_ET_NEXT_INODE_READ \<equiv> ERR_OTHER 2133571361"
abbreviation EXT2_ET_UNEXPECTED_BLOCK_SIZE :: errcode where "EXT2_ET_UNEXPECTED_BLOCK_SIZE \<equiv> ERR_OTHER 2133571362"
abbreviation EXT2_ET_BAD_BLOCK_NUM :: errcode where "EXT2_ET_BAD_BLOCK_NUM \<equiv> ERR_OTHER 2133571370"
abbreviation EXT2_ET_EXPAND_DIR_ERR :: errcode where "EXT2_ET_EXPAND_DIR_ERR \<equiv> ERR_OTHER 2133571371"
abbreviation EXT2_ET_TOOSMALL :: errcode where "EXT2_ET_TOOSMALL \<equiv> ERR_OTHER 2133571372"
abbreviation EXT2_ET_BAD_BLOCK_UNMARK :: errcode where "EXT2_ET_BAD_BLOCK_UNMARK \<equiv> ERR_OTHER 2133571374"
abbreviation EXT2_ET_BAD_BLOCK_TEST :: errcode where "EXT2_ET_BAD_BLOCK_TEST \<equiv> ERR_OTHER 2133571375"
abbreviation EXT2_ET_BAD_INODE_UNMARK :: errcode where "EXT2_ET_BAD_INODE_UNMARK \<equiv> ERR_OTHER 2133571377"
abbreviation EXT2_ET_BAD_INODE_TEST :: errcode where "EXT2_ET_BAD_INODE_TEST \<equiv> ERR_OTHER 2133571378"
abbreviation EXT2_ET_BAD_IND_BLOCK :: errcode where "EXT2_ET_BAD_IND_BLOCK \<equiv> ERR_OTHER 2133571381"
abbreviation EXT2_ET_BAD_DIND_BLOCK :: errcode where "EXT2_ET_BAD_DIND_BLOCK \<equiv> ERR_OTHER 2133571382"
abbreviation EXT2_ET_BAD_TIND_BLOCK :: errcode where "EXT2_ET_BAD_TIND_BLOCK \<equiv> ERR_OTHER 2133571383"
abbreviation EXT2_ET_BAD_DEVICE_NAME :: errcode where "EXT2_ET_BAD_DEVICE_NAME \<equiv> ERR_OTHER 2133571386"
abbreviation EXT2_ET_MISSING_INODE_TABLE :: errcode where "EXT2_ET_MISSING_INODE_TABLE \<equiv> ERR_OTHER 2133571387"
abbreviation EXT2_ET_CORRUPT_SUPERBLOCK :: errcode where "EXT2_ET_CORRUPT_SUPERBLOCK \<equiv> ERR_OTHER 2133571388"
abbreviation EXT2_ET_BAD_GENERIC_UNMARK :: errcode where "EXT2_ET_BAD_GENERIC_UNMARK \<equiv> ERR_OTHER 2133571390"
abbreviation EXT2_ET_BAD_GENERIC_TEST :: errcode where "EXT2_ET_BAD_GENERIC_TEST \<equiv> ERR_OTHER 2133571391"
abbreviation EXT2_ET_SYMLINK_LOOP :: errcode where "EXT2_ET_SYMLINK_LOOP \<equiv> ERR_OTHER 2133571392"
abbreviation EXT2_ET_CALLBACK_NOTHANDLED :: errcode where "EXT2_ET_CALLBACK_NOTHANDLED \<equiv> ERR_OTHER 2133571393"
abbreviation EXT2_ET_BAD_BLOCK_IN_INODE_TABLE :: errcode where "EXT2_ET_BAD_BLOCK_IN_INODE_TABLE \<equiv> ERR_OTHER 2133571394"
abbreviation EXT2_ET_UNSUPP_FEATURE :: errcode where "EXT2_ET_UNSUPP_FEATURE \<equiv> ERR_OTHER 2133571395"
abbreviation EXT2_ET_RO_UNSUPP_FEATURE :: errcode where "EXT2_ET_RO_UNSUPP_FEATURE \<equiv> ERR_OTHER 2133571396"
abbreviation EXT2_ET_LLSEEK_FAILED :: errcode where "EXT2_ET_LLSEEK_FAILED \<equiv> ERR_OTHER 2133571397"
abbreviation EXT2_ET_FILE_RO :: errcode where "EXT2_ET_FILE_RO \<equiv> ERR_OTHER 2133571405"
abbreviation EXT2_ET_DIR_EXISTS :: errcode where "EXT2_ET_DIR_EXISTS \<equiv> ERR_OTHER 2133571407"
abbreviation EXT2_ET_CANCEL_REQUESTED :: errcode where "EXT2_ET_CANCEL_REQUESTED \<equiv> ERR_OTHER 2133571409"
abbreviation EXT2_ET_FILE_TOO_BIG :: errcode where "EXT2_ET_FILE_TOO_BIG \<equiv> ERR_OTHER 2133571410"
abbreviation EXT2_ET_JOURNAL_NOT_BLOCK :: errcode where "EXT2_ET_JOURNAL_NOT_BLOCK \<equiv> ERR_OTHER 2133571411"
abbreviation EXT2_ET_NO_JOURNAL_SB :: errcode where "EXT2_ET_NO_JOURNAL_SB \<equiv> ERR_OTHER 2133571412"
abbreviation EXT2_ET_JOURNAL_TOO_SMALL :: errcode where "EXT2_ET_JOURNAL_TOO_SMALL \<equiv> ERR_OTHER 2133571413"
abbreviation EXT2_ET_JOURNAL_UNSUPP_VERSION :: errcode where "EXT2_ET_JOURNAL_UNSUPP_VERSION \<equiv> ERR_OTHER 2133571414"
abbreviation EXT2_ET_LOAD_EXT_JOURNAL :: errcode where "EXT2_ET_LOAD_EXT_JOURNAL \<equiv> ERR_OTHER 2133571415"
abbreviation EXT2_ET_NO_JOURNAL :: errcode where "EXT2_ET_NO_JOURNAL \<equiv> ERR_OTHER 2133571416"
abbreviation EXT2_ET_BAD_EA_BLOCK_NUM :: errcode where "EXT2_ET_BAD_EA_BLOCK_NUM \<equiv> ERR_OTHER 2133571418"
abbreviation EXT2_ET_TOO_MANY_INODES :: errcode where "EXT2_ET_TOO_MANY_INODES \<equiv> ERR_OTHER 2133571419"
abbreviation EXT2_ET_NOT_IMAGE_FILE :: errcode where "EXT2_ET_NOT_IMAGE_FILE \<equiv> ERR_OTHER 2133571420"
abbreviation EXT2_ET_RES_GDT_BLOCKS :: errcode where "EXT2_ET_RES_GDT_BLOCKS \<equiv> ERR_OTHER 2133571421"
abbreviation EXT2_ET_RESIZE_INODE_CORRUPT :: errcode where "EXT2_ET_RESIZE_INODE_CORRUPT \<equiv> ERR_OTHER 2133571422"
abbreviation EXT2_ET_SET_BMAP_NO_IND :: errcode where "EXT2_ET_SET_BMAP_NO_IND \<equiv> ERR_OTHER 2133571423"
abbreviation EXT2_ET_RO_BLOCK_ITERATE :: errcode where "EXT2_ET_RO_BLOCK_ITERATE \<equiv> ERR_OTHER 2133571435"
abbreviation EXT2_ET_MAGIC_EXTENT_PATH :: errcode where "EXT2_ET_MAGIC_EXTENT_PATH \<equiv> ERR_OTHER 2133571436"
abbreviation EXT2_ET_EXTENT_HEADER_BAD :: errcode where "EXT2_ET_EXTENT_HEADER_BAD \<equiv> ERR_OTHER 2133571447"
abbreviation EXT2_ET_EXTENT_INDEX_BAD :: errcode where "EXT2_ET_EXTENT_INDEX_BAD \<equiv> ERR_OTHER 2133571448"
abbreviation EXT2_ET_EXTENT_LEAF_BAD :: errcode where "EXT2_ET_EXTENT_LEAF_BAD \<equiv> ERR_OTHER 2133571449"
abbreviation EXT2_ET_EXTENT_NO_SPACE :: errcode where "EXT2_ET_EXTENT_NO_SPACE \<equiv> ERR_OTHER 2133571450"
abbreviation EXT2_ET_INODE_NOT_EXTENT :: errcode where "EXT2_ET_INODE_NOT_EXTENT \<equiv> ERR_OTHER 2133571451"
abbreviation EXT2_ET_EXTENT_NO_NEXT :: errcode where "EXT2_ET_EXTENT_NO_NEXT \<equiv> ERR_OTHER 2133571452"
abbreviation EXT2_ET_EXTENT_NO_PREV :: errcode where "EXT2_ET_EXTENT_NO_PREV \<equiv> ERR_OTHER 2133571453"
abbreviation EXT2_ET_EXTENT_NO_UP :: errcode where "EXT2_ET_EXTENT_NO_UP \<equiv> ERR_OTHER 2133571454"
abbreviation EXT2_ET_EXTENT_NO_DOWN :: errcode where "EXT2_ET_EXTENT_NO_DOWN \<equiv> ERR_OTHER 2133571455"
abbreviation EXT2_ET_NO_CURRENT_NODE :: errcode where "EXT2_ET_NO_CURRENT_NODE \<equiv> ERR_OTHER 2133571456"
abbreviation EXT2_ET_OP_NOT_SUPPORTED :: errcode where "EXT2_ET_OP_NOT_SUPPORTED \<equiv> ERR_OTHER 2133571457"
abbreviation EXT2_ET_CANT_INSERT_EXTENT :: errcode where "EXT2_ET_CANT_INSERT_EXTENT \<equiv> ERR_OTHER 2133571458"
abbreviation EXT2_ET_CANT_SPLIT_EXTENT :: errcode where "EXT2_ET_CANT_SPLIT_EXTENT \<equiv> ERR_OTHER 2133571459"
abbreviation EXT2_ET_EXTENT_NOT_FOUND :: errcode where "EXT2_ET_EXTENT_NOT_FOUND \<equiv> ERR_OTHER 2133571460"
abbreviation EXT2_ET_EXTENT_NOT_SUPPORTED :: errcode where "EXT2_ET_EXTENT_NOT_SUPPORTED \<equiv> ERR_OTHER 2133571461"
abbreviation EXT2_ET_EXTENT_INVALID_LENGTH :: errcode where "EXT2_ET_EXTENT_INVALID_LENGTH \<equiv> ERR_OTHER 2133571462"
abbreviation EXT2_ET_MMP_MAGIC_INVALID :: errcode where "EXT2_ET_MMP_MAGIC_INVALID \<equiv> ERR_OTHER 2133571466"
abbreviation EXT2_ET_MMP_FAILED :: errcode where "EXT2_ET_MMP_FAILED \<equiv> ERR_OTHER 2133571467"
abbreviation EXT2_ET_MMP_FSCK_ON :: errcode where "EXT2_ET_MMP_FSCK_ON \<equiv> ERR_OTHER 2133571468"
abbreviation EXT2_ET_MMP_BAD_BLOCK :: errcode where "EXT2_ET_MMP_BAD_BLOCK \<equiv> ERR_OTHER 2133571469"
abbreviation EXT2_ET_MMP_UNKNOWN_SEQ :: errcode where "EXT2_ET_MMP_UNKNOWN_SEQ \<equiv> ERR_OTHER 2133571470"
abbreviation EXT2_ET_MMP_CHANGE_ABORT :: errcode where "EXT2_ET_MMP_CHANGE_ABORT \<equiv> ERR_OTHER 2133571471"
abbreviation EXT2_ET_MMP_OPEN_DIRECT :: errcode where "EXT2_ET_MMP_OPEN_DIRECT \<equiv> ERR_OTHER 2133571472"
abbreviation ENOMEM :: errcode where "ENOMEM \<equiv> ERR_OTHER 12"
abbreviation EIO :: errcode where "EIO \<equiv> ERR_OTHER 5"

end
