(* ===== verification/Inode_Mem.thy ===== *)
theory Inode_Mem
  imports Block_Device Error_Codes Groups_Layout
begin

text \<open>
  Inodes in memory and on disk: the layout of \<open>struct ext2_inode\<close> and
  \<open>struct ext2_inode_large\<close> (\<open>source/ext2_fs.h\<close>) on the big-endian target, and the byte
  swaps of \<open>source/swapfs.c\<close> between the two. The lemmas describe a swap as a rearrangement of
  bytes, and show that the swap of a read undoes the swap of a write.
\<close>

section \<open>The layout\<close>

definition mem_of_inode :: "inode \<Rightarrow> u8 list" where
  "mem_of_inode i =
     mem_be16 (i_mode i) @ mem_be16 (i_uid i) @ mem_be32 (i_size i) @ mem_be32 (i_atime i) @ mem_be32 (i_ctime i) @
     mem_be32 (i_mtime i) @ mem_be32 (i_dtime i) @ mem_be16 (i_gid i) @ mem_be16 (i_links_count i) @ mem_be32 (i_blocks i) @
     mem_be32 (i_flags i) @ mem_be32 (l_i_version i) @ bytes_of (i_block i) @ mem_be32 (i_generation i) @
     mem_be32 (i_file_acl i) @ mem_be32 (i_size_high i) @ mem_be32 (i_faddr i) @ mem_be16 (l_i_blocks_hi i) @
     mem_be16 (l_i_file_acl_high i) @ mem_be16 (l_i_uid_high i) @ mem_be16 (l_i_gid_high i) @ mem_be16 (l_i_checksum_lo i) @
     mem_be16 (l_i_reserved i)"

definition inode_of_mem :: "u8 list \<Rightarrow> inode" where
  "inode_of_mem m =
     \<lparr>i_mode = ld16 m 0, i_uid = ld16 m 2, i_size = ld32 m 4, i_atime = ld32 m 8, i_ctime = ld32 m 12, i_mtime = ld32 m 16,
      i_dtime = ld32 m 20, i_gid = ld16 m 24, i_links_count = ld16 m 26, i_blocks = ld32 m 28, i_flags = ld32 m 32,
      l_i_version = ld32 m 36, i_block = map (\<lambda>k. ld32 m (40 + 4 * k)) [0..<15], i_generation = ld32 m 100,
      i_file_acl = ld32 m 104, i_size_high = ld32 m 108, i_faddr = ld32 m 112, l_i_blocks_hi = ld16 m 116,
      l_i_file_acl_high = ld16 m 118, l_i_uid_high = ld16 m 120, l_i_gid_high = ld16 m 122, l_i_checksum_lo = ld16 m 124,
      l_i_reserved = ld16 m 126\<rparr>"

text \<open>\<open>sizeof(struct ext2_inode)\<close> and \<open>sizeof(struct ext2_inode_large)\<close>.\<close>

definition EXT2_GOOD_OLD_INODE_SIZE :: nat where "EXT2_GOOD_OLD_INODE_SIZE = 128"
definition SIZEOF_INODE_LARGE :: nat where "SIZEOF_INODE_LARGE = 156"
definition EXT2_GOOD_OLD_REV :: u32 where "EXT2_GOOD_OLD_REV = 0"
definition EXT4_EXTENTS_FL :: u32 where "EXT4_EXTENTS_FL = 0x00080000"
definition EXT2_OS_LINUX :: u32 where "EXT2_OS_LINUX = 0"
definition EXT2_OS_HURD :: u32 where "EXT2_OS_HURD = 1"
definition EXT2_EXT_ATTR_MAGIC :: u32 where "EXT2_EXT_ATTR_MAGIC = 0xEA020000"

definition EXT2_INODE_SIZE :: "super_block \<Rightarrow> nat" where
  "EXT2_INODE_SIZE s = (if s_rev_level s = EXT2_GOOD_OLD_REV then EXT2_GOOD_OLD_INODE_SIZE else unat (s_inode_size s))"

definition LINUX_S_ISLNK :: "u16 \<Rightarrow> bool" where "LINUX_S_ISLNK m \<longleftrightarrow> m AND 0xF000 = 0xA000"
definition LINUX_S_ISREG :: "u16 \<Rightarrow> bool" where "LINUX_S_ISREG m \<longleftrightarrow> m AND 0xF000 = 0x8000"
definition LINUX_S_ISDIR :: "u16 \<Rightarrow> bool" where "LINUX_S_ISDIR m \<longleftrightarrow> m AND 0xF000 = 0x4000"

definition ext2fs_inode_data_blocks :: "filsys \<Rightarrow> inode \<Rightarrow> u32" where
  "ext2fs_inode_data_blocks fs inode = ucast (ext2fs_inode_data_blocks2 fs inode)"

section \<open>Swaps\<close>

text \<open>
  A swap goes from the block \<open>f\<close> to the block \<open>t\<close>; when the two pointers are the same block,
  \<open>f\<close> is \<open>None\<close>. A field is an offset and a width.
\<close>

type_synonym swap_state = "u8 list \<times> u8 list option"

definition from_mem :: "swap_state \<Rightarrow> u8 list" where
  "from_mem st = (case snd st of None \<Rightarrow> fst st | Some f \<Rightarrow> f)"

definition sw16 :: "nat \<Rightarrow> swap_state \<Rightarrow> swap_state" where
  "sw16 p st = (st16 (fst st) p (ext2fs_swab16 (ld16 (from_mem st) p)), snd st)"

definition sw32 :: "nat \<Rightarrow> swap_state \<Rightarrow> swap_state" where
  "sw32 p st = (st32 (fst st) p (ext2fs_swab32 (ld32 (from_mem st) p)), snd st)"

definition copy_bytes :: "nat \<Rightarrow> nat \<Rightarrow> swap_state \<Rightarrow> swap_state" where
  "copy_bytes p n st = (put_bytes (fst st) p (take n (drop p (from_mem st))), snd st)"

definition sw_field :: "nat \<times> nat \<Rightarrow> swap_state \<Rightarrow> swap_state" where
  "sw_field = (\<lambda>(p, w). if w = 2 then sw16 p else sw32 p)"

section \<open>Extended attributes\<close>

text \<open>\<open>struct ext2_ext_attr_header\<close>: eight 32-bit fields; an entry has 16 bytes and the name.\<close>

definition ext2fs_swap_ext_attr_header :: "nat \<Rightarrow> swap_state \<Rightarrow> swap_state" where
  "ext2fs_swap_ext_attr_header p st = fold sw_field [(p, 4), (p + 4, 4), (p + 8, 4), (p + 12, 4), (p + 16, 4), (p + 20, 4), (p + 24, 4), (p + 28, 4)] st"

definition ext2fs_swap_ext_attr_entry :: "nat \<Rightarrow> swap_state \<Rightarrow> swap_state" where
  "ext2fs_swap_ext_attr_entry p st = fold sw_field [(p + 2, 2), (p + 4, 4), (p + 8, 4), (p + 12, 4)] st"

definition EXT2_EXT_ATTR_LEN :: "u8 \<Rightarrow> nat" where
  "EXT2_EXT_ATTR_LEN name_len = (unat name_len + 3 + 16) div 4 * 4"

function swap_attr_loop :: "nat \<Rightarrow> nat \<Rightarrow> swap_state \<Rightarrow> swap_state" where
  "swap_attr_loop p en st =
     (if p < en \<and> ld32 (from_mem st) p \<noteq> 0 then
        let st = ext2fs_swap_ext_attr_entry p st in
        swap_attr_loop (p + EXT2_EXT_ATTR_LEN (from_mem st ! p)) en st
      else st)"
  by pat_completeness auto
termination
  by (relation "measure (\<lambda>(p, en, _). en - p)") (auto simp: EXT2_EXT_ATTR_LEN_def)

declare swap_attr_loop.simps [simp del]

text \<open>\<open>to\<close> and \<open>from\<close> are at the same offset \<open>p\<close> of the two blocks.\<close>

definition ext2fs_swap_ext_attr :: "nat \<Rightarrow> nat \<Rightarrow> bool \<Rightarrow> swap_state \<Rightarrow> swap_state" where
  "ext2fs_swap_ext_attr p bufsize has_header st =
     (let en = p + bufsize;
          st = (if snd st \<noteq> None then copy_bytes p bufsize st else st)
      in
      if has_header then swap_attr_loop (p + 32) en (ext2fs_swap_ext_attr_header p st)
      else swap_attr_loop p en st)"

section \<open>Inodes\<close>

text \<open>The fields before the block numbers are decided: up to \<open>i_file_acl\<close>.\<close>

definition swap_inode_head :: "swap_state \<Rightarrow> swap_state" where
  "swap_inode_head = fold sw_field [(2, 2), (4, 4), (8, 4), (12, 4), (16, 4), (20, 4), (24, 2), (26, 2), (104, 4)]"

definition swap_osd :: "u32 \<Rightarrow> swap_state \<Rightarrow> swap_state" where
  "swap_osd creator_os st =
     (if creator_os = EXT2_OS_LINUX then
        fold sw_field [(36, 4), (116, 2), (118, 2), (120, 2), (122, 2), (124, 2)] st
      else if creator_os = EXT2_OS_HURD then
        fold sw_field [(118, 2), (120, 2), (122, 2), (124, 4)] (copy_bytes 116 2 (sw32 36 st))
      else st)"

text \<open>The fields of a large inode, as many as \<open>extra_isize\<close> says, and the attributes behind them.\<close>

definition swap_inode_extra :: "super_block \<Rightarrow> bool \<Rightarrow> nat \<Rightarrow> swap_state \<Rightarrow> swap_state" where
  "swap_inode_extra super hostorder bufsize st =
     (if bufsize < 130 then st
      else
        let extra_host = unat (ld16 (from_mem st) 128);
            st = sw16 128 st;
            extra_isize = (if hostorder then extra_host else unat (ld16 (fst st) 128))
        in
        if EXT2_INODE_SIZE super \<ge> 128 \<and> extra_isize > EXT2_INODE_SIZE super - 128 then st
        else
          let st = (if extra_isize \<ge> 4 then sw16 130 st else st);
              st = (if extra_isize \<ge> 8 then sw32 132 st else st);
              st = (if extra_isize \<ge> 12 then sw32 136 st else st);
              st = (if extra_isize \<ge> 16 then sw32 140 st else st);
              st = (if extra_isize \<ge> 20 then sw32 144 st else st);
              st = (if extra_isize \<ge> 24 then sw32 148 st else st);
              st = (if extra_isize \<ge> 28 then sw32 152 st else st);
              at = 128 + extra_isize
          in
          if bufsize < at + 4 then st
          else
            let attr_magic = ld32 (from_mem st) at;
                attr_magic = (if hostorder then attr_magic else ext2fs_swab32 attr_magic)
            in
            if attr_magic \<noteq> EXT2_EXT_ATTR_MAGIC then st
            else ext2fs_swap_ext_attr (at + 4) (bufsize - 128 - extra_isize - 4) False (sw32 at st))"

definition ext2fs_swap_inode_full :: "filsys \<Rightarrow> u8 list \<Rightarrow> u8 list option \<Rightarrow> bool \<Rightarrow> nat \<Rightarrow> u8 list" where
  "ext2fs_swap_inode_full fs t f hostorder bufsize =
     (let st = (t, f);
          lnk_host = LINUX_S_ISLNK (ld16 (from_mem st) 0);
          st = sw16 0 st;
          islnk = (if hostorder then lnk_host else LINUX_S_ISLNK (ld16 (fst st) 0));
          st = swap_inode_head st;
          data_host = ext2fs_inode_data_blocks fs (inode_of_mem (from_mem st)) \<noteq> 0;
          st = sw32 28 st;
          has_data_blocks = (if hostorder then data_host else ext2fs_inode_data_blocks fs (inode_of_mem (fst st)) \<noteq> 0);
          ext_host = ld32 (from_mem st) 32 AND EXT4_EXTENTS_FL \<noteq> 0;
          st = sw32 32 st;
          has_extents = (if hostorder then ext_host else ld32 (fst st) 32 AND EXT4_EXTENTS_FL \<noteq> 0);
          st = sw32 108 st;
          st = (if \<not> has_extents \<and> (\<not> islnk \<or> has_data_blocks) then fold sw_field (map (\<lambda>k. (40 + 4 * k, 4)) [0..<15]) st
                else if f \<noteq> None then copy_bytes 40 60 st else st);
          st = sw32 100 st;
          st = sw32 112 st;
          st = swap_osd (s_creator_os (fs_super fs)) st
      in fst (swap_inode_extra (fs_super fs) hostorder bufsize st))"

definition ext2fs_swap_inode :: "filsys \<Rightarrow> u8 list \<Rightarrow> u8 list option \<Rightarrow> bool \<Rightarrow> u8 list" where
  "ext2fs_swap_inode fs t f hostorder = ext2fs_swap_inode_full fs t f hostorder 128"


section \<open>A swap rearranges bytes\<close>

text \<open>Where the byte \<open>i\<close> of a swapped block comes from, for a list of fields.\<close>

definition in_field :: "nat \<Rightarrow> nat \<times> nat \<Rightarrow> bool" where
  "in_field i = (\<lambda>(p, w). p \<le> i \<and> i < p + w)"

definition mirror :: "nat \<Rightarrow> nat \<times> nat \<Rightarrow> nat" where
  "mirror i = (\<lambda>(p, w). 2 * p + w - 1 - i)"

text \<open>Fields within a block of \<open>n\<close> bytes that do not overlap.\<close>

fun fields_ok :: "nat \<Rightarrow> (nat \<times> nat) list \<Rightarrow> bool" where
  "fields_ok n [] \<longleftrightarrow> True"
| "fields_ok n ((p, w) # fs) \<longleftrightarrow>
     (w = 2 \<or> w = 4) \<and> p + w \<le> n \<and> (\<forall>(q, v) \<in> set fs. p + w \<le> q \<or> q + v \<le> p) \<and> fields_ok n fs"

definition swap_ok :: "nat \<Rightarrow> swap_state \<Rightarrow> bool" where
  "swap_ok n st \<longleftrightarrow> n \<le> length (fst st) \<and> n \<le> length (from_mem st)"

lemma sw_field_nth:
  assumes "w = 2 \<or> w = 4" "p + w \<le> n" "swap_ok n st"
  shows "fst (sw_field (p, w) st) ! i = (if in_field i (p, w) then from_mem st ! mirror i (p, w) else fst st ! i)"
    "length (fst (sw_field (p, w) st)) = length (fst st)" "snd (sw_field (p, w) st) = snd st"
proof -
  have le: "p + w \<le> length (fst st)" using assms(2,3) by (simp add: swap_ok_def)
  consider "w = 2" | "w = 4" using assms(1) by blast
  then show "fst (sw_field (p, w) st) ! i = (if in_field i (p, w) then from_mem st ! mirror i (p, w) else fst st ! i)"
  proof cases
    case 1
    have "fst (sw_field (p, w) st) = put_bytes (fst st) p [from_mem st ! (p + 1), from_mem st ! p]"
      using 1 by (simp add: sw_field_def sw16_def st16_def mem_be_swab ld_bytes)
    moreover have "i = p \<or> i = p + 1 \<or> \<not> (p \<le> i \<and> i < p + 2)" by linarith
    ultimately show ?thesis using le 1 by (auto simp: nth_put_bytes in_field_def mirror_def)
  next
    case 2
    have "fst (sw_field (p, w) st) = put_bytes (fst st) p
        [from_mem st ! (p + 3), from_mem st ! (p + 2), from_mem st ! (p + 1), from_mem st ! p]"
      using 2 by (simp add: sw_field_def sw32_def st32_def mem_be_swab ld_bytes)
    moreover have "i = p \<or> i = p + 1 \<or> i = p + 2 \<or> i = p + 3 \<or> \<not> (p \<le> i \<and> i < p + 4)" by linarith
    ultimately show ?thesis using le 2 by (auto simp: nth_put_bytes in_field_def mirror_def numeral_eq_Suc)
  qed
  show "length (fst (sw_field (p, w) st)) = length (fst st)" "snd (sw_field (p, w) st) = snd st"
    using assms le by (auto simp: sw_field_def sw16_def sw32_def swap_ok_def)
qed

lemma sw_field_ok: "w = 2 \<or> w = 4 \<Longrightarrow> p + w \<le> n \<Longrightarrow> swap_ok n st \<Longrightarrow> swap_ok n (sw_field (p, w) st)"
  using sw_field_nth(2,3) [of w p n st] unfolding swap_ok_def from_mem_def by (auto split: option.splits)

lemma fold_swap:
  assumes "fields_ok n fs" "swap_ok n st"
  shows "swap_ok n (fold sw_field fs st)" "length (fst (fold sw_field fs st)) = length (fst st)"
    "fst (fold sw_field fs st) ! i =
      (case find (in_field i) fs of Some f \<Rightarrow> from_mem st ! mirror i f | None \<Rightarrow> fst st ! i)"
proof -
  have "swap_ok n (fold sw_field fs st) \<and> length (fst (fold sw_field fs st)) = length (fst st) \<and> fst (fold sw_field fs st) ! i =
      (case find (in_field i) fs of Some f \<Rightarrow> from_mem st ! mirror i f | None \<Rightarrow> fst st ! i)"
    using assms
  proof (induction fs arbitrary: st)
    case (Cons f fs)
    obtain p w where f: "f = (p, w)" by (cases f)
    have w: "w = 2 \<or> w = 4" "p + w \<le> n" "fields_ok n fs" and dis: "\<forall>(q, v) \<in> set fs. p + w \<le> q \<or> q + v \<le> p"
      using Cons.prems(1) by (auto simp: f)
    let ?st = "sw_field (p, w) st"
    note nth = sw_field_nth [OF w(1,2) Cons.prems(2)]
    have ih: "swap_ok n (fold sw_field fs ?st)" "length (fst (fold sw_field fs ?st)) = length (fst ?st)"
      "fst (fold sw_field fs ?st) ! i = (case find (in_field i) fs of Some f \<Rightarrow> from_mem ?st ! mirror i f | None \<Rightarrow> fst ?st ! i)"
      using Cons.IH [OF w(3) sw_field_ok [OF w(1,2) Cons.prems(2)]] by blast+
    have from_st: "from_mem ?st ! j = from_mem st ! j" if "\<not> in_field j (p, w)" for j
      using nth that by (simp add: from_mem_def split: option.splits)
    show ?case
    proof (cases "find (in_field i) fs")
      case None
      then show ?thesis using ih nth by (simp add: f)
    next
      case (Some g)
      then obtain q v where g: "g = (q, v)" "g \<in> set fs" "in_field i g" by (cases g) (auto simp: find_Some_iff)
      then have "\<not> in_field i (p, w)" "\<not> in_field (mirror i g) (p, w)"
        using dis by (auto simp: in_field_def mirror_def)
      then show ?thesis using ih nth Some from_st by (simp add: f)
    qed
  qed simp
  then show "swap_ok n (fold sw_field fs st)" "length (fst (fold sw_field fs st)) = length (fst st)"
    "fst (fold sw_field fs st) ! i = (case find (in_field i) fs of Some f \<Rightarrow> from_mem st ! mirror i f | None \<Rightarrow> fst st ! i)" by blast+
qed


section \<open>A swap for reading undoes a swap for writing\<close>

lemma mirror_mirror: "in_field i f \<Longrightarrow> mirror (mirror i f) f = i" "in_field i f \<Longrightarrow> in_field (mirror i f) f"
  by (cases f; auto simp: in_field_def mirror_def)+

lemma find_in_append: "find P (xs @ ys) = (case find P xs of Some x \<Rightarrow> Some x | None \<Rightarrow> find P ys)"
  by (induction xs) auto

lemma find_field:
  "fields_ok n fs \<Longrightarrow> f \<in> set fs \<Longrightarrow> in_field i f \<Longrightarrow> find (in_field i) fs = Some f"
proof (induction fs)
  case (Cons g fs)
  show ?case
  proof (cases "in_field i g")
    case True
    obtain p w where g: "g = (p, w)" by (cases g)
    have "f = g"
    proof (rule ccontr)
      assume "f \<noteq> g"
      then have "f \<in> set fs" using Cons.prems(2) by simp
      moreover obtain q v where "f = (q, v)" by (cases f)
      ultimately show False using Cons.prems(1,3) True by (auto simp: g in_field_def)
    qed
    then show ?thesis using True by simp
  next
    case False
    moreover have "fields_ok n fs" using Cons.prems(1) by (cases g) simp
    ultimately show ?thesis using Cons by auto
  qed
qed simp

text \<open>The fields of the 128 bytes, with the block numbers or without.\<close>

definition inode_fields1 :: "(nat \<times> nat) list" where
  "inode_fields1 = [(0, 2), (2, 2), (4, 4), (8, 4), (12, 4), (16, 4), (20, 4), (24, 2), (26, 2), (104, 4), (28, 4), (32, 4), (108, 4)]"

definition inode_fields2 :: "(nat \<times> nat) list" where
  "inode_fields2 = [(100, 4), (112, 4), (36, 4), (116, 2), (118, 2), (120, 2), (122, 2), (124, 2)]"

definition block_fields :: "(nat \<times> nat) list" where
  "block_fields = [(40, 4), (44, 4), (48, 4), (52, 4), (56, 4), (60, 4), (64, 4), (68, 4), (72, 4), (76, 4), (80, 4), (84, 4),
     (88, 4), (92, 4), (96, 4)]"

definition inode_fields :: "bool \<Rightarrow> (nat \<times> nat) list" where
  "inode_fields blocks = inode_fields1 @ (if blocks then block_fields else []) @ inode_fields2"

lemma fields_ok_mono: "fields_ok n fs \<Longrightarrow> n \<le> m \<Longrightarrow> fields_ok m fs"
  by (induction n fs rule: fields_ok.induct) auto

lemma inode_fields_ok: "fields_ok 128 (inode_fields b)" "fields_ok 128 inode_fields1" "fields_ok 128 inode_fields2"
  "fields_ok 128 block_fields"
  by (simp_all add: inode_fields_def inode_fields1_def inode_fields2_def block_fields_def)

lemma fields_bound: "fields_ok n fs \<Longrightarrow> (p, w) \<in> set fs \<Longrightarrow> p + w \<le> n"
  by (induction n fs rule: fields_ok.induct) auto

lemma fields_in: "(p, w) \<in> set (inode_fields b) \<Longrightarrow> p + w \<le> 128"
  using inode_fields_ok(1) by (rule fields_bound)

lemma inode_fields_rest:
  assumes "i < 128"
  shows "find (in_field i) (inode_fields b) = None \<longleftrightarrow> i = 126 \<or> i = 127 \<or> \<not> b \<and> 40 \<le> i \<and> i < 100"
proof -
  have upt: "[0..<128] = 0 # Suc 0 # [2..<128]" by (simp add: upt_conv_Cons numeral_eq_Suc del: upt_Suc)
  have "list_all (\<lambda>i. (find (in_field i) (inode_fields b) = None) = (i = 126 \<or> i = 127 \<or> \<not> b \<and> 40 \<le> i \<and> i < 100)) [0..<128]"
    unfolding upt inode_fields_def inode_fields1_def inode_fields2_def block_fields_def in_field_def
    by (cases b) (simp_all add: upt_rec_numeral)
  then show ?thesis using assms by (simp add: list_all_iff)
qed

text \<open>Which of the two halves of a block number goes where is decided by four fields.\<close>

definition inode_decision :: "filsys \<Rightarrow> u16 \<Rightarrow> u32 \<Rightarrow> u32 \<Rightarrow> u32 \<Rightarrow> bool" where
  "inode_decision fs mode acl blocks flags \<longleftrightarrow>
     flags AND EXT4_EXTENTS_FL = 0 \<and>
     (\<not> LINUX_S_ISLNK mode \<or> blocks - (if acl \<noteq> 0 then drop_bit 9 (fs_blocksize fs) else 0) \<noteq> 0)"

lemma ucast_add32: "ucast (a + b :: u64) = (ucast a + ucast b :: u32)"
proof -
  have "take_bit 32 (take_bit 64 x + take_bit 64 y) = take_bit 32 (x + y)" for x y :: int
    by (subst (1 2) take_bit_add [symmetric]) simp
  then show ?thesis by transfer simp
qed

lemma data_blocks32:
  "ext2fs_inode_data_blocks fs i = i_blocks i - (if i_file_acl i \<noteq> 0 then drop_bit 9 (fs_blocksize fs) else 0)"
proof -
  have a: "ucast (ucast b OR push_bit 32 c :: u64) = (b :: u32)" for b c
    by (rule bit_word_eqI) (auto simp: bit_simps)
  have c: "ucast (ucast b :: u64) = (b :: u32)" for b
    by (rule bit_word_eqI) (auto simp: bit_simps)
  have b: "ucast (x - y :: u64) = (ucast x - ucast y :: u32)" for x y
    using ucast_add32 [of "x - y" y] by (simp add: eq_diff_eq)
  show ?thesis
    by (simp add: ext2fs_inode_data_blocks_def ext2fs_inode_data_blocks2_def b a c)
qed

lemma snd_sw [simp]: "snd (sw16 p st) = snd st" "snd (sw32 p st) = snd st" "snd (copy_bytes p k st) = snd st"
  by (simp_all add: sw16_def sw32_def copy_bytes_def)

lemma snd_fold [simp]: "snd (fold sw_field fs st) = snd st"
  by (induction fs arbitrary: st) (auto simp: sw_field_def)

lemma ld_swapped:
  "A ! p = B ! (p + 1) \<Longrightarrow> A ! (p + 1) = B ! p \<Longrightarrow> ld16 A p = ext2fs_swab16 (ld16 B p)"
  "A ! p = B ! (p + 3) \<Longrightarrow> A ! (p + 1) = B ! (p + 2) \<Longrightarrow> A ! (p + 2) = B ! (p + 1) \<Longrightarrow> A ! (p + 3) = B ! p \<Longrightarrow>
     ld32 A p = ext2fs_swab32 (ld32 B p)"
proof -
  assume "A ! p = B ! (p + 1)" "A ! (p + 1) = B ! p"
  then have "mem_be16 (ld16 A p) = mem_be16 (ext2fs_swab16 (ld16 B p))" by (simp add: ld_bytes mem_be_swab)
  then have "ld16 (mem_be16 (ld16 A p)) 0 = ld16 (mem_be16 (ext2fs_swab16 (ld16 B p))) 0" by simp
  moreover have "ld16 (mem_be16 v) 0 = v" for v
    using ld16_st16 [of 0 "mem_be16 v" v] by (simp add: mem_be16_def st16_def put_bytes_def)
  ultimately show "ld16 A p = ext2fs_swab16 (ld16 B p)" by simp
next
  assume "A ! p = B ! (p + 3)" "A ! (p + 1) = B ! (p + 2)" "A ! (p + 2) = B ! (p + 1)" "A ! (p + 3) = B ! p"
  then have "mem_be32 (ld32 A p) = mem_be32 (ext2fs_swab32 (ld32 B p))" by (simp add: ld_bytes mem_be_swab)
  then have "ld32 (mem_be32 (ld32 A p)) 0 = ld32 (mem_be32 (ext2fs_swab32 (ld32 B p))) 0" by simp
  then show "ld32 A p = ext2fs_swab32 (ld32 B p)" using ld32_mem_be32 [of _ "[]"] by simp
qed

lemma fold_swap_in:
  assumes "fields_ok n fs" "swap_ok n st" "(p, w) \<in> set fs" "p \<le> i" "i < p + w"
  shows "fst (fold sw_field fs st) ! i = from_mem st ! (2 * p + w - 1 - i)"
  using fold_swap(3) [OF assms(1,2), of i] find_field [OF assms(1,3), of i] assms(4,5)
  by (simp add: in_field_def mirror_def)

lemma fold_swap_ld:
  assumes "fields_ok n fs" "swap_ok n st"
  shows "(p, 2) \<in> set fs \<Longrightarrow> ld16 (fst (fold sw_field fs st)) p = ext2fs_swab16 (ld16 (from_mem st) p)"
    "(p, 4) \<in> set fs \<Longrightarrow> ld32 (fst (fold sw_field fs st)) p = ext2fs_swab32 (ld32 (from_mem st) p)"
  by (rule ld_swapped; simp add: fold_swap_in [OF assms])+

lemma sw_fields: "sw16 p = sw_field (p, 2)" "sw32 p = sw_field (p, 4)"
  by (simp_all add: sw_field_def)

text \<open>The swap of the 128 bytes as one list of fields: in memory, and from another block.\<close>

lemma swap_in_place:
  assumes "s_creator_os (fs_super fs) = EXT2_OS_LINUX" "length t \<ge> 128"
  shows "ext2fs_swap_inode_full fs t None False 128 =
    fst (fold sw_field (inode_fields (inode_decision fs (ext2fs_swab16 (ld16 t 0)) (ext2fs_swab32 (ld32 t 104))
       (ext2fs_swab32 (ld32 t 28)) (ext2fs_swab32 (ld32 t 32)))) (t, None))"
proof -
  have ok: "swap_ok 128 (t, None)" using assms(2) by (simp add: swap_ok_def from_mem_def)
  have f: "fields_ok 128 (take k inode_fields1)" if "k = 1 \<or> k = 11 \<or> k = 12" for k
    using that by (auto simp: inode_fields1_def)
  let ?s = "\<lambda>k. fold sw_field (take k inode_fields1) (t, None)"
  have m: "(0, 2) \<in> set (take 1 inode_fields1)" "(104, 4) \<in> set (take 11 inode_fields1)"
    "(28, 4) \<in> set (take 11 inode_fields1)" "(32, 4) \<in> set (take 12 inode_fields1)"
    by (simp_all add: inode_fields1_def)
  have v: "ld16 (fst (?s 1)) 0 = ext2fs_swab16 (ld16 t 0)" "ld32 (fst (?s 11)) 104 = ext2fs_swab32 (ld32 t 104)"
    "ld32 (fst (?s 11)) 28 = ext2fs_swab32 (ld32 t 28)" "ld32 (fst (?s 12)) 32 = ext2fs_swab32 (ld32 t 32)"
    using fold_swap_ld(1) [OF f ok m(1)] fold_swap_ld(2) [OF f ok m(2)] fold_swap_ld(2) [OF f ok m(3)]
      fold_swap_ld(2) [OF f ok m(4)]
    by (simp_all only: from_mem_def) simp_all
  have s: "sw_field (0, 2) (t, None) = ?s 1" "sw_field (28, 4) (swap_inode_head (?s 1)) = ?s 11"
    "sw_field (32, 4) (?s 11) = ?s 12" "sw_field (108, 4) (?s 12) = fold sw_field inode_fields1 (t, None)"
    by (simp_all add: inode_fields1_def swap_inode_head_def)
  have b: "map (\<lambda>k. (40 + 4 * k, 4)) [0..<15] = block_fields"
    by (simp add: block_fields_def upt_conv_Cons numeral_eq_Suc del: upt_Suc)
  have "ext2fs_swap_inode_full fs t None False 128 =
    fst (swap_osd EXT2_OS_LINUX (sw_field (112, 4) (sw_field (100, 4)
      (if inode_decision fs (ld16 (fst (?s 1)) 0) (ld32 (fst (?s 11)) 104) (ld32 (fst (?s 11)) 28) (ld32 (fst (?s 12)) 32)
       then fold sw_field block_fields (fold sw_field inode_fields1 (t, None)) else fold sw_field inode_fields1 (t, None)))))"
    unfolding ext2fs_swap_inode_full_def swap_inode_extra_def sw_fields Let_def assms(1)
    unfolding s b data_blocks32 inode_decision_def
    by (auto simp: inode_of_mem_def)
  also have "\<dots> = fst (fold sw_field inode_fields2
      (if inode_decision fs (ld16 (fst (?s 1)) 0) (ld32 (fst (?s 11)) 104) (ld32 (fst (?s 11)) 28) (ld32 (fst (?s 12)) 32)
       then fold sw_field block_fields (fold sw_field inode_fields1 (t, None)) else fold sw_field inode_fields1 (t, None)))"
    by (simp add: swap_osd_def inode_fields2_def)
  finally show ?thesis unfolding v by (simp add: inode_fields_def)
qed

lemma swap_from_other:
  assumes "s_creator_os (fs_super fs) = EXT2_OS_LINUX" "length t \<ge> 128" "length M \<ge> 128"
  defines "D \<equiv> inode_decision fs (ld16 M 0) (ld32 M 104) (ld32 M 28) (ld32 M 32)"
  shows "ext2fs_swap_inode_full fs t (Some M) True 128 =
    fst (fold sw_field inode_fields2 (if D then fold sw_field block_fields (fold sw_field inode_fields1 (t, Some M))
      else copy_bytes 40 60 (fold sw_field inode_fields1 (t, Some M))))"
proof -
  have M: "snd st = Some M \<Longrightarrow> from_mem st = M" for st by (simp add: from_mem_def)
  have s: "fold sw_field inode_fields1 (t, Some M) =
      sw_field (108, 4) (sw_field (32, 4) (sw_field (28, 4) (swap_inode_head (sw_field (0, 2) (t, Some M)))))"
    by (simp add: inode_fields1_def swap_inode_head_def)
  have b: "map (\<lambda>k. (40 + 4 * k, 4)) [0..<15] = block_fields"
    by (simp add: block_fields_def upt_conv_Cons numeral_eq_Suc del: upt_Suc)
  have sf: "snd (sw_field g st) = snd st" for g st by (auto simp: sw_field_def split: prod.splits)
  have h: "snd (swap_inode_head st) = snd st" for st by (simp add: swap_inode_head_def sf)
  have "ext2fs_swap_inode_full fs t (Some M) True 128 =
    fst (swap_osd EXT2_OS_LINUX (sw_field (112, 4) (sw_field (100, 4)
      (if D then fold sw_field block_fields (fold sw_field inode_fields1 (t, Some M))
       else copy_bytes 40 60 (fold sw_field inode_fields1 (t, Some M))))))"
    unfolding ext2fs_swap_inode_full_def swap_inode_extra_def sw_fields Let_def assms(1)
    unfolding s b data_blocks32 inode_decision_def D_def
    by (auto simp: inode_of_mem_def M sf h)
  then show ?thesis by (simp add: swap_osd_def inode_fields2_def)
qed

lemma swap_from_other_nth:
  assumes "s_creator_os (fs_super fs) = EXT2_OS_LINUX" "length t \<ge> 128" "length M \<ge> 128"
  defines "D \<equiv> inode_decision fs (ld16 M 0) (ld32 M 104) (ld32 M 28) (ld32 M 32)"
  shows "length (ext2fs_swap_inode_full fs t (Some M) True 128) = length t"
    "ext2fs_swap_inode_full fs t (Some M) True 128 ! i =
      (case find (in_field i) (inode_fields D) of Some f \<Rightarrow> M ! mirror i f
       | None \<Rightarrow> if \<not> D \<and> 40 \<le> i \<and> i < 100 then M ! i else t ! i)"
proof -
  note f = inode_fields_ok(2-4) inode_fields_ok(1) [of D]
  have ok: "swap_ok 128 (t, Some M)" using assms(2,3) by (simp add: swap_ok_def from_mem_def)
  let ?s = "fold sw_field inode_fields1 (t, Some M)"
  note s = fold_swap [OF f(1) ok]
  have c: "swap_ok 128 (copy_bytes 40 60 ?s)" "length (fst (copy_bytes 40 60 ?s)) = length t"
    "fst (copy_bytes 40 60 ?s) ! i = (if 40 \<le> i \<and> i < 100 then M ! i else fst ?s ! i)"
    using s(1,2) assms(2,3) by (auto simp: swap_ok_def copy_bytes_def from_mem_def nth_put_bytes min_def)
  have b: "swap_ok 128 (fold sw_field block_fields ?s)" "length (fst (fold sw_field block_fields ?s)) = length t"
    using fold_swap(1,2) [OF f(3) s(1)] s(2) by simp_all
  show "length (ext2fs_swap_inode_full fs t (Some M) True 128) = length t"
    using swap_from_other [OF assms(1-3)] fold_swap(2) [OF f(2) c(1)] fold_swap(2) [OF f(2) b(1)] c(2) b(2)
    unfolding D_def by simp
  show "ext2fs_swap_inode_full fs t (Some M) True 128 ! i =
      (case find (in_field i) (inode_fields D) of Some f \<Rightarrow> M ! mirror i f
       | None \<Rightarrow> if \<not> D \<and> 40 \<le> i \<and> i < 100 then M ! i else t ! i)"
  proof (cases D)
    case True
    then have "ext2fs_swap_inode_full fs t (Some M) True 128 = fst (fold sw_field (inode_fields D) (t, Some M))"
      using swap_from_other [OF assms(1-3)] unfolding D_def by (simp add: inode_fields_def)
    then show ?thesis using fold_swap(3) [OF f(4) ok, of i] True by (simp add: from_mem_def split: option.splits)
  next
    case False
    have e: "ext2fs_swap_inode_full fs t (Some M) True 128 = fst (fold sw_field inode_fields2 (copy_bytes 40 60 ?s))"
      using swap_from_other [OF assms(1-3)] False unfolding D_def by simp
    have "find (in_field i) (inode_fields D) =
        (case find (in_field i) inode_fields1 of Some g \<Rightarrow> Some g | None \<Rightarrow> find (in_field i) inode_fields2)"
      using False by (simp add: inode_fields_def find_in_append split: option.splits)
    moreover have "find (in_field i) inode_fields1 = None" if "40 \<le> i" "i < 100"
      using that by (simp add: inode_fields1_def in_field_def)
    moreover have "find (in_field i) inode_fields2 = None" if "find (in_field i) inode_fields1 = Some g" for g
      using that by (auto simp: inode_fields1_def inode_fields2_def in_field_def split: if_splits)
    ultimately show ?thesis
      using e fold_swap(3) [OF f(2) c(1), of i] c s(3) [of i] False
      by (auto simp: from_mem_def split: option.splits)
  qed
qed

text \<open>
  Reading back what was written: the swap of the read, in place, after the swap of the write. The
  bytes of \<open>l_i_reserved\<close> are not written.
\<close>

lemma swap_back:
  assumes "s_creator_os (fs_super fs) = EXT2_OS_LINUX" "length M = 128" "n \<ge> 128"
  shows "ext2fs_swap_inode_full fs (take 128 (ext2fs_swap_inode_full fs (replicate n 0) (Some M) True 128)) None False 128 =
    M[126 := 0, 127 := 0]"
proof -
  let ?V = "ext2fs_swap_inode_full fs (replicate n 0) (Some M) True 128"
  let ?W = "take 128 ?V"
  let ?D = "inode_decision fs (ld16 M 0) (ld32 M 104) (ld32 M 28) (ld32 M 32)"
  have len: "length (replicate n (0 :: u8)) \<ge> 128" "length M \<ge> 128" using assms(2,3) by simp_all
  note V = swap_from_other_nth [OF assms(1) len]
  have W: "length ?W = 128" "\<And>i. i < 128 \<Longrightarrow> ?W ! i = (case find (in_field i) (inode_fields ?D) of Some f \<Rightarrow> M ! mirror i f
       | None \<Rightarrow> if \<not> ?D \<and> 40 \<le> i \<and> i < 100 then M ! i else 0)"
    using V assms(3) by (auto split: option.splits)
  have f: "find (in_field i) (inode_fields ?D) = Some g" if "in_field i g" "g \<in> set (inode_fields ?D)" for i g
    using find_field [OF inode_fields_ok(1) that(2,1)] .
  have in_all: "(0, 2) \<in> set (inode_fields b)" "(104, 4) \<in> set (inode_fields b)" "(28, 4) \<in> set (inode_fields b)"
    "(32, 4) \<in> set (inode_fields b)" for b
    by (simp_all add: inode_fields_def inode_fields1_def)
  have Wf: "?W ! i = M ! (2 * p + w - 1 - i)" if "(p, w) \<in> set (inode_fields ?D)" "p \<le> i" "i < p + w" for p w i
    using W(2) [of i] f [of i "(p, w)"] that fields_in [OF that(1)] by (simp add: in_field_def mirror_def)
  have W4: "ld32 ?W p = ext2fs_swab32 (ld32 M p)" if "(p, 4) \<in> set (inode_fields ?D)" for p
    by (rule ld_swapped) (simp_all add: Wf [OF that] del: nth_take)
  have W2: "ld16 ?W p = ext2fs_swab16 (ld16 M p)" if "(p, 2) \<in> set (inode_fields ?D)" for p
    by (rule ld_swapped) (simp_all add: Wf [OF that] del: nth_take)
  have "length ?W \<ge> 128" using W(1) by simp
  from swap_in_place [OF assms(1) this] have e: "ext2fs_swap_inode_full fs ?W None False 128 = fst (fold sw_field (inode_fields ?D) (?W, None))"
    by (simp add: W4 W2 in_all swab16_swab16 swab32_swab32)
  have ok: "swap_ok 128 (?W, None)" using W(1) unfolding swap_ok_def from_mem_def by (simp add: swap_ok_def from_mem_def)
  note R = fold_swap [OF inode_fields_ok(1) ok]
  show ?thesis
  proof (rule nth_equalityI)
    show "length (ext2fs_swap_inode_full fs ?W None False 128) = length (M[126 := 0, 127 := 0])"
      using R(2) W(1) assms(2) by (simp only: e fst_conv length_list_update)
    fix i assume "i < length (ext2fs_swap_inode_full fs ?W None False 128)"
    then have i: "i < 128" using R(2) W(1) by (simp only: e fst_conv)
    show "ext2fs_swap_inode_full fs ?W None False 128 ! i = M[126 := 0, 127 := 0] ! i"
    proof (cases "find (in_field i) (inode_fields ?D)")
      case None
      then show ?thesis using e R(3) [of ?D i] W(2) [of i] inode_fields_rest [OF i, of ?D] i assms(2)
        by (auto simp: from_mem_def)
    next
      case (Some g)
      then have g: "in_field i g" "g \<in> set (inode_fields ?D)" by (auto simp: find_Some_iff)
      have m: "mirror i g < 128"
        using g fields_in [of "fst g" "snd g" ?D] by (cases g) (auto simp: in_field_def mirror_def)
      have "i \<noteq> 126 \<and> i \<noteq> 127" using inode_fields_rest [OF i, of ?D] Some by auto
      then show ?thesis using e R(3) [of ?D i] W(2) [OF m] f [OF mirror_mirror(2) [OF g(1)] g(2)] mirror_mirror(1) [OF g(1)] Some
        by (simp add: from_mem_def)
    qed
  qed
qed

section \<open>Records and their bytes\<close>

lemma join16: "push_bit 8 (ucast (ucast (drop_bit 8 v) :: u8)) OR ucast (ucast v :: u8) = (v :: u16)"
  by (rule bit_word_eqI) (auto simp: bit_simps dest: bit_imp_le_length)

lemma ld16_here: "ld16 (mem_be16 v @ xs) 0 = v"
  by (simp add: ld16_def mem_be16_def join16)

lemma ld_later:
  "k \<ge> 2 \<Longrightarrow> ld16 (mem_be16 v @ xs) k = ld16 xs (k - 2)" "k \<ge> 4 \<Longrightarrow> ld16 (mem_be32 w @ xs) k = ld16 xs (k - 4)"
  "k \<ge> 2 \<Longrightarrow> ld32 (mem_be16 v @ xs) k = ld32 xs (k - 2)" "k \<ge> 4 \<Longrightarrow> ld32 (mem_be32 w @ xs) k = ld32 xs (k - 4)"
proof -
  have n: "(ys @ xs) ! (k + i) = xs ! (k - length ys + i)" if "k \<ge> length ys" for ys :: "u8 list" and k i
    using that by (simp add: nth_append)
  have l: "length (mem_be16 v) = 2" "length (mem_be32 w) = 4" by (simp_all add: mem_be16_def mem_be32_def)
  show "k \<ge> 2 \<Longrightarrow> ld16 (mem_be16 v @ xs) k = ld16 xs (k - 2)" "k \<ge> 4 \<Longrightarrow> ld16 (mem_be32 w @ xs) k = ld16 xs (k - 4)"
    using n [of "mem_be16 v" k 0] n [of "mem_be16 v" k 1] n [of "mem_be32 w" k 0] n [of "mem_be32 w" k 1] l
    by (simp_all add: ld16_def)
  show "k \<ge> 2 \<Longrightarrow> ld32 (mem_be16 v @ xs) k = ld32 xs (k - 2)" "k \<ge> 4 \<Longrightarrow> ld32 (mem_be32 w @ xs) k = ld32 xs (k - 4)"
    using n [of "mem_be16 v" k 0] n [of "mem_be16 v" k 1] n [of "mem_be16 v" k 2] n [of "mem_be16 v" k 3]
      n [of "mem_be32 w" k 0] n [of "mem_be32 w" k 1] n [of "mem_be32 w" k 2] n [of "mem_be32 w" k 3] l
    by (simp_all add: ld32_def ld16_def eval_nat_numeral)
qed

lemma ld_blocks:
  "length ws * 4 \<le> k \<Longrightarrow> ld16 (bytes_of ws @ xs) k = ld16 xs (k - 4 * length ws)"
  "length ws * 4 \<le> k \<Longrightarrow> ld32 (bytes_of ws @ xs) k = ld32 xs (k - 4 * length ws)"
  "j < length ws \<Longrightarrow> ld32 (bytes_of ws @ xs) (4 * j) = ws ! j"
proof (induction ws arbitrary: k j)
  case (Cons w ws)
  { case 1 then show ?case using Cons(1) [of "k - 4"] by (simp add: bytes_of_def ld_later) }
  { case 2 then show ?case using Cons(2) [of "k - 4"] by (simp add: bytes_of_def ld_later) }
  { case 3 then show ?case using Cons(3) [of "k - 1"] by (cases k) (simp_all add: bytes_of_def ld_later ld32_mem_be32) }
qed (simp_all add: bytes_of_def)

lemma length_mem_of_inode [simp]: "length (i_block i) = 15 \<Longrightarrow> length (mem_of_inode i) = 128"
  by (simp add: mem_of_inode_def mem_be16_def mem_be32_def)

lemma inode_of_mem_of_inode: "length (i_block i) = 15 \<Longrightarrow> inode_of_mem (mem_of_inode i) = i"
proof -
  assume l: "length (i_block i) = 15"
  have last: "ld16 (mem_be16 v) 0 = v" for v using ld16_here [of v "[]"] by simp
  have b: "map (\<lambda>k. ld32 (bytes_of (i_block i) @ xs) (4 * k)) [0..<15] = i_block i" for xs
    by (rule nth_equalityI) (simp_all add: l ld_blocks(3))
  show ?thesis
    by (rule inode.equality) (simp_all add: inode_of_mem_def mem_of_inode_def ld_later ld16_here ld32_mem_be32 ld_blocks(1,2) l b last)
qed

lemma inode_of_mem_reserved:
  "length M = 128 \<Longrightarrow> inode_of_mem (M[126 := 0, 127 := 0]) = (inode_of_mem M)\<lparr>l_i_reserved := 0\<rparr>"
  by (rule inode.equality) (simp_all add: inode_of_mem_def ld16_def ld32_def nth_list_update)

lemma inode_swap_back:
  assumes "s_creator_os (fs_super fs) = EXT2_OS_LINUX" "length (i_block i) = 15"
  shows "inode_of_mem (ext2fs_swap_inode fs
      (ext2fs_swap_inode fs (replicate 128 0) (Some (mem_of_inode i)) True) None False) = i\<lparr>l_i_reserved := 0\<rparr>"
  unfolding ext2fs_swap_inode_def
  using swap_back [OF assms(1), of "mem_of_inode i" 128] swap_from_other_nth(1) [OF assms(1), of "replicate 128 0" "mem_of_inode i"]
  by (simp add: assms(2) inode_of_mem_reserved inode_of_mem_of_inode)

end
