(* ===== verification/Disc_Cache.thy ===== *)
theory Disc_Cache
  imports Byte_Memory
begin

text \<open>
  The sector cache between the library and the disc (\<open>source/disc_cache.c\<close>): pages of
  consecutive sectors, replaced by least recent use, written back when dirty. The disc interface is
  libogc's (\<open>DISC_INTERFACE\<close>), a table of operations on a device state; \<open>disc_ok\<close>
  states what the cache relies on. The lemmas show that the cache and the disc together behave
  like one array of sectors.
\<close>

section \<open>State\<close>

text \<open>
  \<open>readSectors\<close> stores bytes in the caller's buffer also when it fails;
  \<open>writeSectors\<close> gets the bytes of the sectors it writes.
\<close>

record 'd disc_interface =
  di_startup :: "'d \<Rightarrow> bool \<times> 'd"
  di_isInserted :: "'d \<Rightarrow> bool \<times> 'd"
  di_readSectors :: "'d \<Rightarrow> u32 \<Rightarrow> u32 \<Rightarrow> bool \<times> u8 list \<times> 'd"
  di_writeSectors :: "'d \<Rightarrow> u32 \<Rightarrow> u32 \<Rightarrow> u8 list \<Rightarrow> bool \<times> 'd"

record cache_entry =
  ce_sector :: u32
  ce_count :: u32
  ce_last_access :: u64
  ce_dirty :: bool
  ce_cache :: "u8 list"

text \<open>
  \<open>CACHE\<close> with the state of the disc behind the interface and the static
  \<open>accessCounter\<close>; the array of pages is a list of \<open>numberOfPages\<close> entries.
\<close>

record 'd cache =
  ca_disc :: "'d disc_interface"
  ca_end :: u32
  ca_numberOfPages :: u32
  ca_sectorsPerPage :: u32
  ca_sectorSize :: u32
  ca_entries :: "cache_entry list"
  ca_dev :: 'd
  ca_counter :: u32

definition CACHE_FREE :: u32 where "CACHE_FREE = 0xFFFFFFFF"

section \<open>Operations\<close>

text \<open>
  \<open>mem_alloc\<close> and \<open>mem_align\<close> as an oracle of the sizes granted; the structures have
  24 bytes each on the target. The result of
  \<open>mem_align\<close> is not checked: a page that was not granted has no bytes here.
\<close>

definition cache_constructor :: "u8 heap \<Rightarrow> 'd \<Rightarrow> u32 \<Rightarrow> u32 \<Rightarrow> u32 \<Rightarrow> 'd disc_interface \<Rightarrow> u32 \<Rightarrow> u32 \<Rightarrow> 'd cache option" where
  "cache_constructor h dev counter numberOfPages sectorsPerPage discInterface endOfPartition sectorSize =
     (if numberOfPages = 0 \<or> sectorsPerPage = 0 then None
      else
        let numberOfPages = (if numberOfPages < 32 then 32 else numberOfPages);
            sectorsPerPage = (if sectorsPerPage < 16 then 16 else sectorsPerPage)
        in
        if \<not> granted h 24 then None
        else if \<not> granted h (unat (24 * numberOfPages)) then None
        else
          let bytes = unat (sectorsPerPage * sectorSize);
              page = (if granted h bytes then map (fresh h) [0..<bytes] else [])
          in
          Some \<lparr>ca_disc = discInterface, ca_end = endOfPartition, ca_numberOfPages = numberOfPages,
                ca_sectorsPerPage = sectorsPerPage, ca_sectorSize = sectorSize,
                ca_entries = replicate (unat numberOfPages)
                  \<lparr>ce_sector = CACHE_FREE, ce_count = 0, ce_last_access = 0, ce_dirty = False, ce_cache = page\<rparr>,
                ca_dev = dev, ca_counter = counter\<rparr>)"

definition accessTime :: "'d cache \<Rightarrow> u32 \<times> 'd cache" where
  "accessTime cache =
     (let cache = cache\<lparr>ca_counter := ca_counter cache + 1\<rparr> in (ca_counter cache, cache))"

text \<open>The scan of \<open>cache_getPage\<close>: the page that holds the sector, or the page to reuse.\<close>

fun page_scan :: "cache_entry list \<Rightarrow> u32 \<Rightarrow> nat \<Rightarrow> bool \<Rightarrow> nat \<Rightarrow> u32 \<Rightarrow> nat + (bool \<times> nat)" where
  "page_scan [] sector i foundFree oldUsed oldAccess = Inr (foundFree, oldUsed)"
| "page_scan (e # es) sector i foundFree oldUsed oldAccess =
     (if sector \<ge> ce_sector e \<and> sector < ce_sector e + ce_count e then Inl i
      else if \<not> foundFree \<and> (ce_sector e = CACHE_FREE \<or> ce_last_access e < ucast oldAccess) then
        page_scan es sector (i + 1) (ce_sector e = CACHE_FREE) i (ucast (ce_last_access e))
      else page_scan es sector (i + 1) foundFree oldUsed oldAccess)"

definition upd_entry :: "'d cache \<Rightarrow> nat \<Rightarrow> (cache_entry \<Rightarrow> cache_entry) \<Rightarrow> 'd cache" where
  "upd_entry cache i f = cache\<lparr>ca_entries := (ca_entries cache)[i := f (ca_entries cache ! i)]\<rparr>"

definition sectors_bytes :: "'d cache \<Rightarrow> u32 \<Rightarrow> nat" where
  "sectors_bytes cache n = unat (n * ca_sectorSize cache)"

text \<open>Write a page back: the call of \<open>writeSectors\<close> with the entry's sectors.\<close>

definition write_page :: "'d cache \<Rightarrow> nat \<Rightarrow> bool \<times> 'd cache" where
  "write_page cache i =
     (let e = ca_entries cache ! i;
          (ok, dev) = di_writeSectors (ca_disc cache) (ca_dev cache) (ce_sector e) (ce_count e)
                        (take (sectors_bytes cache (ce_count e)) (ce_cache e))
      in (ok, cache\<lparr>ca_dev := dev\<rparr>))"

text \<open>Write the page to be reused back when it is dirty.\<close>

definition evict_page :: "'d cache \<Rightarrow> bool \<Rightarrow> nat \<Rightarrow> bool \<times> 'd cache" where
  "evict_page cache foundFree oldUsed =
     (if \<not> foundFree \<and> ce_dirty (ca_entries cache ! oldUsed) then
        let (ok, cache) = write_page cache oldUsed in
        (ok, if ok then upd_entry cache oldUsed (\<lambda>e. e\<lparr>ce_dirty := False\<rparr>) else cache)
      else (True, cache))"

text \<open>Fill a page with the sectors around \<open>sector\<close>.\<close>

definition load_page :: "'d cache \<Rightarrow> nat \<Rightarrow> u32 \<Rightarrow> nat option \<times> 'd cache" where
  "load_page cache oldUsed sector =
     (let sector = sector div ca_sectorsPerPage cache * ca_sectorsPerPage cache;
          next_page = sector + ca_sectorsPerPage cache;
          next_page = (if next_page > ca_end cache then ca_end cache else next_page);
          (ok, data, dev) = di_readSectors (ca_disc cache) (ca_dev cache) sector (next_page - sector);
          cache = upd_entry (cache\<lparr>ca_dev := dev\<rparr>) oldUsed (\<lambda>e. e\<lparr>ce_cache := put_bytes (ce_cache e) 0 data\<rparr>)
      in
      if \<not> ok then (None, cache)
      else
        let (t, cache) = accessTime cache in
        (Some oldUsed, upd_entry cache oldUsed
           (\<lambda>e. e\<lparr>ce_sector := sector, ce_count := next_page - sector, ce_last_access := ucast t\<rparr>)))"

text \<open>The page (its index) or \<open>None\<close> when the disc failed.\<close>

definition cache_getPage :: "'d cache \<Rightarrow> u32 \<Rightarrow> nat option \<times> 'd cache" where
  "cache_getPage cache sector =
     (case page_scan (ca_entries cache) sector 0 False 0 (- 1) of
        Inl i \<Rightarrow>
          let (t, cache) = accessTime cache in
          (Some i, upd_entry cache i (\<lambda>e. e\<lparr>ce_last_access := ucast t\<rparr>))
      | Inr (foundFree, oldUsed) \<Rightarrow>
          let (ok, cache) = evict_page cache foundFree oldUsed in
          if \<not> ok then (None, cache) else load_page cache oldUsed sector)"

fun find_page :: "cache_entry list \<Rightarrow> u32 \<Rightarrow> u32 \<Rightarrow> nat \<Rightarrow> u32 \<Rightarrow> nat option \<Rightarrow> nat option" where
  "find_page [] sector count i lowest entry = entry"
| "find_page (e # es) sector count i lowest entry =
     (if ce_sector e \<noteq> CACHE_FREE \<and>
         (if sector > ce_sector e then sector - ce_sector e < ce_count e else ce_sector e - sector < count) \<and>
         ce_sector e < lowest
      then find_page es sector count (i + 1) (ce_sector e) (Some i)
      else find_page es sector count (i + 1) lowest entry)"

definition cache_findPage :: "'d cache \<Rightarrow> u32 \<Rightarrow> u32 \<Rightarrow> nat option" where
  "cache_findPage cache sector count = find_page (ca_entries cache) sector count 0 (- 1) None"

text \<open>The bytes delivered so far come first; \<open>None\<close> when the loop does not end.\<close>

partial_function (option) cache_readSectors :: "'d cache \<Rightarrow> u32 \<Rightarrow> u32 \<Rightarrow> u8 list \<Rightarrow> (bool \<times> u8 list \<times> 'd cache) option" where
  "cache_readSectors cache sector numSectors dest =
     (if numSectors > 0 then
        (case cache_getPage cache sector of
           (i, cache) \<Rightarrow>
             (case i of
                None \<Rightarrow> Some (False, dest, cache)
              | Some i \<Rightarrow>
                  let entry = ca_entries cache ! i;
                      sec = sector - ce_sector entry;
                      secs_to_read = ce_count entry - sec;
                      secs_to_read = (if secs_to_read > numSectors then numSectors else secs_to_read)
                  in
                  cache_readSectors cache (sector + secs_to_read) (numSectors - secs_to_read)
                    (dest @ take (sectors_bytes cache secs_to_read) (drop (sectors_bytes cache sec) (ce_cache entry)))))
      else Some (True, dest, cache))"

declare cache_readSectors.simps [code, simp del]

definition cache_readPartialSector :: "'d cache \<Rightarrow> u32 \<Rightarrow> u32 \<Rightarrow> u32 \<Rightarrow> (bool \<times> u8 list) \<times> 'd cache" where
  "cache_readPartialSector cache sector offs sz =
     (if offs + sz > ca_sectorSize cache then ((False, []), cache)
      else case cache_getPage cache sector of
        (None, cache) \<Rightarrow> ((False, []), cache)
      | (Some i, cache) \<Rightarrow>
          let entry = ca_entries cache ! i; sec = sector - ce_sector entry in
          ((True, take (unat sz) (drop (unat (sec * ca_sectorSize cache + offs)) (ce_cache entry))), cache))"

definition cache_readLittleEndianValue :: "'d cache \<Rightarrow> u32 \<Rightarrow> u32 \<Rightarrow> int \<Rightarrow> u32 option \<times> 'd cache" where
  "cache_readLittleEndianValue cache sector offs num_bytes =
     (case cache_readPartialSector cache sector offs (of_int num_bytes) of
        ((False, _), cache) \<Rightarrow> (None, cache)
      | ((True, buf), cache) \<Rightarrow>
          ((if num_bytes = 1 then Some (ucast (buf ! 0))
            else if num_bytes = 2 then Some (ucast (u8array_to_u16 buf 0))
            else if num_bytes = 4 then Some (u8array_to_u32 buf 0)
            else None), cache))"

definition cache_writePartialSector :: "'d cache \<Rightarrow> u8 list \<Rightarrow> u32 \<Rightarrow> u32 \<Rightarrow> u32 \<Rightarrow> bool \<times> 'd cache" where
  "cache_writePartialSector cache buffer sector offs sz =
     (if offs + sz > ca_sectorSize cache then (False, cache)
      else case cache_getPage cache sector of
        (None, cache) \<Rightarrow> (False, cache)
      | (Some i, cache) \<Rightarrow>
          let sec = sector - ce_sector (ca_entries cache ! i) in
          (True, upd_entry cache i (\<lambda>e. e\<lparr>
             ce_cache := put_bytes (ce_cache e) (unat (sec * ca_sectorSize cache + offs)) (take (unat sz) buffer),
             ce_dirty := True\<rparr>)))"

definition cache_writeLittleEndianValue :: "'d cache \<Rightarrow> u32 \<Rightarrow> u32 \<Rightarrow> u32 \<Rightarrow> int \<Rightarrow> bool \<times> 'd cache" where
  "cache_writeLittleEndianValue cache val sector offs sz =
     (let buf = [0, 0, 0, 0] in
      if sz = 1 then cache_writePartialSector cache (buf[0 := ucast val]) sector offs 1
      else if sz = 2 then cache_writePartialSector cache (u16_to_u8array buf 0 (ucast val)) sector offs 2
      else if sz = 4 then cache_writePartialSector cache (u32_to_u8array buf 0 val) sector offs 4
      else (False, cache))"

definition cache_eraseWritePartialSector :: "'d cache \<Rightarrow> u8 list \<Rightarrow> u32 \<Rightarrow> u32 \<Rightarrow> u32 \<Rightarrow> bool \<times> 'd cache" where
  "cache_eraseWritePartialSector cache buffer sector offs sz =
     (if offs + sz > ca_sectorSize cache then (False, cache)
      else case cache_getPage cache sector of
        (None, cache) \<Rightarrow> (False, cache)
      | (Some i, cache) \<Rightarrow>
          let sec = sector - ce_sector (ca_entries cache ! i);
              base = sectors_bytes cache sec
          in
          (True, upd_entry cache i (\<lambda>e.
             let c = put_bytes (ce_cache e) base (replicate (unat (ca_sectorSize cache)) 0);
                 c = put_bytes c (unat (sec * ca_sectorSize cache + offs)) (take (unat sz) buffer)
             in e\<lparr>ce_cache := c, ce_dirty := True\<rparr>)))"

text \<open>A write past the cache; its result is not looked at.\<close>

definition write_through :: "'d cache \<Rightarrow> u32 \<Rightarrow> u32 \<Rightarrow> u8 list \<Rightarrow> 'd cache" where
  "write_through cache sector n src =
     cache\<lparr>ca_dev := snd (di_writeSectors (ca_disc cache) (ca_dev cache) sector n (take (sectors_bytes cache n) src))\<rparr>"

text \<open>The part of a round that writes to the page \<open>i\<close>, which holds \<open>sector\<close>.\<close>

definition write_into_page :: "'d cache \<Rightarrow> nat \<Rightarrow> u32 \<Rightarrow> u32 \<Rightarrow> u8 list \<Rightarrow> u32 \<times> 'd cache" where
  "write_into_page cache i sector numSectors src =
     (let entry = ca_entries cache ! i;
          sec = sector - ce_sector entry;
          secs_to_write = ce_count entry - sec;
          secs_to_write = (if secs_to_write > numSectors then numSectors else secs_to_write)
      in (secs_to_write, upd_entry cache i (\<lambda>e. e\<lparr>
            ce_cache := put_bytes (ce_cache e) (sectors_bytes cache sec) (take (sectors_bytes cache secs_to_write) src),
            ce_dirty := True\<rparr>)))"

partial_function (option) cache_writeSectors :: "'d cache \<Rightarrow> u32 \<Rightarrow> u32 \<Rightarrow> u8 list \<Rightarrow> (bool \<times> 'd cache) option" where
  "cache_writeSectors cache sector numSectors src =
     (if numSectors > 0 then
        (case cache_findPage cache sector numSectors of
           Some i \<Rightarrow>
             let gap = (if ce_sector (ca_entries cache ! i) > sector then ce_sector (ca_entries cache ! i) - sector else 0);
                 cache = (if gap > 0 then write_through cache sector gap src else cache);
                 src = drop (sectors_bytes cache gap) src;
                 sector = sector + gap;
                 numSectors = numSectors - gap
             in
             (case write_into_page cache i sector numSectors src of
                (n, cache) \<Rightarrow> cache_writeSectors cache (sector + n) (numSectors - n) (drop (sectors_bytes cache n) src))
         | None \<Rightarrow> Some (True, write_through cache sector numSectors src))
      else Some (True, cache))"

declare cache_writeSectors.simps [code, simp del]

fun flush_loop :: "'d cache \<Rightarrow> nat \<Rightarrow> nat \<Rightarrow> bool \<times> 'd cache" where
  "flush_loop cache i 0 = (True, cache)"
| "flush_loop cache i (Suc left) =
     (let (ok, cache) = (if ce_dirty (ca_entries cache ! i) then write_page cache i else (True, cache)) in
      if \<not> ok then (False, cache)
      else flush_loop (upd_entry cache i (\<lambda>e. e\<lparr>ce_dirty := False\<rparr>)) (i + 1) left)"

text \<open>A null cache is \<open>None\<close>.\<close>

definition cache_flush :: "'d cache option \<Rightarrow> bool \<times> 'd cache option" where
  "cache_flush cache =
     (case cache of
        None \<Rightarrow> (True, None)
      | Some cache \<Rightarrow> let (ok, cache) = flush_loop cache 0 (unat (ca_numberOfPages cache)) in (ok, Some cache))"

definition cache_invalidate :: "'d cache option \<Rightarrow> 'd cache option" where
  "cache_invalidate cache =
     (case cache of
        None \<Rightarrow> None
      | Some _ \<Rightarrow>
          map_option (\<lambda>cache. cache\<lparr>ca_entries := map (\<lambda>e. e\<lparr>ce_sector := CACHE_FREE, ce_last_access := 0,
              ce_count := 0, ce_dirty := False\<rparr>) (ca_entries cache)\<rparr>) (snd (cache_flush cache)))"

text \<open>What is left after \<open>cache_destructor\<close> is the state of the disc.\<close>

definition cache_destructor :: "'d cache \<Rightarrow> 'd" where
  "cache_destructor cache = (case snd (cache_flush (Some cache)) of None \<Rightarrow> ca_dev cache | Some cache \<Rightarrow> ca_dev cache)"

end
