(* ===== verification/Gekko_Io.thy ===== *)
theory Gekko_Io
  imports Io_Manager Disc_Cache
begin

text \<open>
  The I/O manager for discs (\<open>source/gekko_io.c\<close>): byte ranges of the device are read and
  written through whole sectors, from the sector cache when the device has one and from the disc
  otherwise.

  Offsets and counts are \<open>s64\<close> in the code and never leave the range of the type on a real
  device; they are \<open>int\<close> here. The code computes sector numbers with \<open>floor\<close> and
  \<open>ceil\<close> of a quotient of doubles, which is the quotient rounded down or up as long as the
  offset has at most 53 bits and the sector size is a power of two, as it is on these discs.
  \<open>errno\<close> is not modelled.
\<close>

section \<open>State\<close>

text \<open>
  \<open>gekko_fd\<close>. When the device has a cache, the state of the disc is inside it; \<open>gf_dev\<close>
  is the disc of a device without a cache. \<open>gf_counter\<close> is the static \<open>accessCounter\<close>
  of disc_cache.c before the cache is built.
\<close>

record 'd gekko_fd =
  gf_interface :: "'d disc_interface option"
  gf_startSector :: u32
  gf_sectorCount :: u32
  gf_sectorSize :: u16
  gf_offset :: int
  gf_bytes_read :: u64
  gf_bytes_written :: u64
  gf_cache :: "'d cache option"
  gf_cachePageCount :: u32
  gf_cachePageSize :: u32
  gf_dev :: 'd
  gf_counter :: u32

text \<open>
  The fields of the I/O channel that the manager uses; \<open>gk_heap\<close> says what \<open>mem_alloc\<close>
  grants.
\<close>

record 'd gekko =
  gk_magic :: errcode
  gk_block_size :: int
  gk_flags :: u32
  gk_fd :: "'d gekko_fd option"
  gk_heap :: "u8 heap"

definition MAX_SECTOR_SIZE :: nat where "MAX_SECTOR_SIZE = 4096"
definition SUPERBLOCK_OFFSET :: nat where "SUPERBLOCK_OFFSET = 1024"
definition EXT2_SUPER_MAGIC :: u16 where "EXT2_SUPER_MAGIC = 0xEF53"
definition EXT2_FLAG_RW :: u32 where "EXT2_FLAG_RW = 0x01"

abbreviation gekko_fails :: errcode where "gekko_fails \<equiv> ERR_OTHER (- 1)"

section \<open>Sectors\<close>

text \<open>
  The result of a read is the success, the bytes and the device; \<open>None\<close> when the loop of
  the cache does not end.
\<close>

definition device_gekko_io_readsectors :: "'d gekko \<Rightarrow> u32 \<Rightarrow> u32 \<Rightarrow> (bool \<times> u8 list \<times> 'd gekko) option" where
  "device_gekko_io_readsectors dev sector numSectors =
     (case gk_fd dev of
        None \<Rightarrow> Some (False, [], dev)
      | Some fd \<Rightarrow>
          (case gf_cache fd of
             Some cache \<Rightarrow>
               map_option (\<lambda>(ok, data, cache). (ok, data, dev\<lparr>gk_fd := Some (fd\<lparr>gf_cache := Some cache\<rparr>)\<rparr>))
                 (cache_readSectors cache sector numSectors [])
           | None \<Rightarrow>
               let (ok, data, d) = di_readSectors (the (gf_interface fd)) (gf_dev fd) sector numSectors in
               Some (ok, data, dev\<lparr>gk_fd := Some (fd\<lparr>gf_dev := d\<rparr>)\<rparr>)))"

definition device_gekko_io_writesectors :: "'d gekko \<Rightarrow> u32 \<Rightarrow> u32 \<Rightarrow> u8 list \<Rightarrow> (bool \<times> 'd gekko) option" where
  "device_gekko_io_writesectors dev sector numSectors buffer =
     (case gk_fd dev of
        None \<Rightarrow> Some (False, dev)
      | Some fd \<Rightarrow>
          (case gf_cache fd of
             Some cache \<Rightarrow>
               map_option (\<lambda>(ok, cache). (ok, dev\<lparr>gk_fd := Some (fd\<lparr>gf_cache := Some cache\<rparr>)\<rparr>))
                 (cache_writeSectors cache sector numSectors buffer)
           | None \<Rightarrow>
               let (ok, d) = di_writeSectors (the (gf_interface fd)) (gf_dev fd) sector numSectors
                               (take (unat (numSectors * ucast (gf_sectorSize fd))) buffer) in
               Some (ok, dev\<lparr>gk_fd := Some (fd\<lparr>gf_dev := d\<rparr>)\<rparr>)))"

section \<open>Bytes\<close>

text \<open>The first sector and the number of sectors of a range of bytes.\<close>

definition range_sectors :: "'d gekko_fd \<Rightarrow> int \<Rightarrow> int \<Rightarrow> u32 \<times> u32 \<times> u32" where
  "range_sectors fd offset count =
     (let ss = int (unat (gf_sectorSize fd));
          buffer_offset = word_of_int (offset mod ss) :: u32;
          sec_start = gf_startSector fd;
          sec_start = (if offset > 0 then sec_start + word_of_int (offset div ss) else sec_start);
          n = int (unat buffer_offset) + count;
          sec_count = (if n > ss then word_of_int (- ((- n) div ss)) else 1)
      in (buffer_offset, sec_start, sec_count))"

text \<open>Returns the count or -1, the bytes, and the device.\<close>

definition device_gekko_io_readbytes :: "'d gekko \<Rightarrow> int \<Rightarrow> int \<Rightarrow> (int \<times> u8 list \<times> 'd gekko) option" where
  "device_gekko_io_readbytes dev offset count =
     (case gk_fd dev of
        None \<Rightarrow> Some (- 1, [], dev)
      | Some fd \<Rightarrow>
          if gf_interface fd = None then Some (- 1, [], dev)
          else if offset < 0 then Some (- 1, [], dev)
          else if count = 0 then Some (0, [], dev)
          else
            let (buffer_offset, sec_start, sec_count) = range_sectors fd offset count;
                ss = int (unat (gf_sectorSize fd))
            in
            if sec_start + sec_count > gf_startSector fd + gf_sectorCount fd then Some (- 1, [], dev)
            else if buffer_offset = 0 \<and> count mod ss = 0 then
              map_option (\<lambda>(ok, data, dev). if ok then (count, data, dev) else (- 1, data, dev))
                (device_gekko_io_readsectors dev sec_start sec_count)
            else if \<not> granted (gk_heap dev) (unat (sec_count * ucast (gf_sectorSize fd))) then Some (- 1, [], dev)
            else
              map_option (\<lambda>(ok, data, dev).
                  if ok then (count, take (nat count) (drop (unat buffer_offset) data), dev) else (- 1, [], dev))
                (device_gekko_io_readsectors dev sec_start sec_count))"

text \<open>
  A sector at the edge of the range is read into the buffer when the range does not cover it; the
  result says whether that went well.
\<close>

definition read_edge :: "bool \<Rightarrow> u32 \<Rightarrow> nat \<Rightarrow> u8 list \<Rightarrow> 'd gekko \<Rightarrow> (bool \<times> u8 list \<times> 'd gekko) option" where
  "read_edge needed sector at buffer dev =
     (if needed then
        map_option (\<lambda>(ok, data, dev). (ok, if ok then put_bytes buffer at data else buffer, dev))
          (device_gekko_io_readsectors dev sector 1)
      else Some (True, buffer, dev))"

text \<open>The buffered write: edges, data, then all sectors.\<close>

definition write_unaligned :: "'d gekko_fd \<Rightarrow> 'd gekko \<Rightarrow> u32 \<Rightarrow> u32 \<Rightarrow> u32 \<Rightarrow> int \<Rightarrow> u8 list \<Rightarrow> (int \<times> 'd gekko) option" where
  "write_unaligned fd dev buffer_offset sec_start sec_count count buf =
     (let ss = int (unat (gf_sectorSize fd));
          bytes = unat (sec_count * ucast (gf_sectorSize fd))
      in
      if \<not> granted (gk_heap dev) bytes then Some (- 1, dev)
      else
        case read_edge (buffer_offset \<noteq> 0) sec_start 0 (map (fresh (gk_heap dev)) [0..<bytes]) dev of
          None \<Rightarrow> None
        | Some (False, _, dev) \<Rightarrow> Some (- 1, dev)
        | Some (True, buffer, dev) \<Rightarrow>
            (case read_edge ((int (unat buffer_offset) + count) mod ss \<noteq> 0) (sec_start + sec_count - 1)
                    (unat ((sec_count - 1) * ucast (gf_sectorSize fd))) buffer dev of
               None \<Rightarrow> None
             | Some (False, _, dev) \<Rightarrow> Some (- 1, dev)
             | Some (True, buffer, dev) \<Rightarrow>
                 map_option (\<lambda>(ok, dev). (if ok then count else - 1, dev))
                   (device_gekko_io_writesectors dev sec_start sec_count
                      (put_bytes buffer (unat buffer_offset) (take (nat count) buf)))))"

definition device_gekko_io_writebytes :: "'d gekko \<Rightarrow> int \<Rightarrow> int \<Rightarrow> u8 list \<Rightarrow> (int \<times> 'd gekko) option" where
  "device_gekko_io_writebytes dev offset count buf =
     (case gk_fd dev of
        None \<Rightarrow> Some (- 1, dev)
      | Some fd \<Rightarrow>
          if gk_flags dev AND EXT2_FLAG_RW = 0 then Some (- 1, dev)
          else if gf_interface fd = None then Some (- 1, dev)
          else if count < 0 \<or> offset < 0 then Some (- 1, dev)
          else if count = 0 then Some (0, dev)
          else
            let (buffer_offset, sec_start, sec_count) = range_sectors fd offset count;
                ss = int (unat (gf_sectorSize fd))
            in
            if sec_start + sec_count > gf_startSector fd + gf_sectorCount fd then Some (- 1, dev)
            else if buffer_offset = 0 \<and> count mod ss = 0 then
              map_option (\<lambda>(ok, dev). (if ok then count else - 1, dev))
                (device_gekko_io_writesectors dev sec_start sec_count buf)
            else write_unaligned fd dev buffer_offset sec_start sec_count count buf)"

section \<open>Blocks\<close>

text \<open>
  A negative count is a number of bytes. The test for a negative result comes after the test for
  a result other than the size and is never reached.
\<close>

definition device_gekko_io_read64 :: "'d gekko \<Rightarrow> u64 \<Rightarrow> int \<Rightarrow> (u8 list result \<times> 'd gekko) option" where
  "device_gekko_io_read64 dev block count =
     (case gk_fd dev of
        None \<Rightarrow> None
      | Some fd \<Rightarrow>
          let size = (if count < 0 then - count else count * gk_block_size dev);
              fd = fd\<lparr>gf_bytes_read := gf_bytes_read fd + word_of_int size\<rparr>;
              location = sint block * gk_block_size dev + gf_offset fd
          in map_option (\<lambda>(n, data, dev). (if n \<noteq> size then Inl EXT2_ET_SHORT_READ else Inr data, dev))
               (device_gekko_io_readbytes (dev\<lparr>gk_fd := Some fd\<rparr>) location size))"

definition device_gekko_io_read :: "'d gekko \<Rightarrow> u32 \<Rightarrow> int \<Rightarrow> (u8 list result \<times> 'd gekko) option" where
  "device_gekko_io_read dev block count = device_gekko_io_read64 dev (ucast block) count"

definition device_gekko_io_write64 :: "'d gekko \<Rightarrow> u64 \<Rightarrow> int \<Rightarrow> u8 list \<Rightarrow> (unit result \<times> 'd gekko) option" where
  "device_gekko_io_write64 dev block count buf =
     (case gk_fd dev of
        None \<Rightarrow> None
      | Some fd \<Rightarrow>
          let size = (if count < 0 then - count else count * gk_block_size dev);
              fd = fd\<lparr>gf_bytes_written := gf_bytes_written fd + word_of_int size\<rparr>;
              location = sint block * gk_block_size dev + gf_offset fd
          in map_option (\<lambda>(n, dev). (if n \<noteq> size then Inl EXT2_ET_SHORT_WRITE else Inr (), dev))
               (device_gekko_io_writebytes (dev\<lparr>gk_fd := Some fd\<rparr>) location size buf))"

definition device_gekko_io_write :: "'d gekko \<Rightarrow> u32 \<Rightarrow> int \<Rightarrow> u8 list \<Rightarrow> (unit result \<times> 'd gekko) option" where
  "device_gekko_io_write dev block count buf = device_gekko_io_write64 dev (ucast block) count buf"

section \<open>The other operations\<close>

definition device_gekko_io_sync :: "'d gekko \<Rightarrow> unit result \<times> 'd gekko" where
  "device_gekko_io_sync dev =
     (if gk_flags dev AND EXT2_FLAG_RW = 0 then (Inl gekko_fails, dev)
      else case gk_fd dev of
        None \<Rightarrow> (Inr (), dev)
      | Some fd \<Rightarrow>
          (case gf_cache fd of
             None \<Rightarrow> (Inr (), dev)
           | Some cache \<Rightarrow>
               let (ok, cache) = cache_flush (Some cache) in
               (if ok then Inr () else Inl EXT2_ET_BLOCK_BITMAP_WRITE,
                dev\<lparr>gk_fd := Some (fd\<lparr>gf_cache := cache\<rparr>)\<rparr>)))"

definition device_gekko_io_close :: "'d gekko \<Rightarrow> unit result \<times> 'd gekko" where
  "device_gekko_io_close dev =
     (case gk_fd dev of
        None \<Rightarrow> (Inl gekko_fails, dev)
      | Some fd \<Rightarrow>
          if gk_flags dev AND EXT2_FLAG_RW = 0 then (Inr (), dev)
          else case gf_cache fd of
            None \<Rightarrow> (Inr (), dev)
          | Some cache \<Rightarrow>
              (case snd (cache_flush (Some cache)) of
                 None \<Rightarrow> (Inr (), dev)
               | Some cache \<Rightarrow>
                   (Inr (), dev\<lparr>gk_fd := Some (fd\<lparr>gf_cache := None, gf_dev := cache_destructor cache\<rparr>)\<rparr>)))"

definition device_gekko_io_stat :: "'d gekko \<Rightarrow> (u64 \<times> u64) result" where
  "device_gekko_io_stat dev =
     (if gk_magic dev \<noteq> EXT2_ET_MAGIC_IO_CHANNEL then Inl EXT2_ET_MAGIC_IO_CHANNEL
      else Inr (case gk_fd dev of None \<Rightarrow> (0, 0) | Some fd \<Rightarrow> (gf_bytes_read fd, gf_bytes_written fd)))"

definition device_gekko_set_blksize :: "'d gekko \<Rightarrow> int \<Rightarrow> unit result \<times> 'd gekko" where
  "device_gekko_set_blksize dev blksize =
     (if gk_magic dev \<noteq> EXT2_ET_MAGIC_IO_CHANNEL then (Inl EXT2_ET_MAGIC_IO_CHANNEL, dev)
      else if gk_block_size dev \<noteq> blksize then device_gekko_io_sync (dev\<lparr>gk_block_size := blksize\<rparr>)
      else (Inr (), dev))"

text \<open>
  \<open>strtoull\<close> with base argument 0 (base 10, 8 or 16) of a string without blanks and sign: the number and whether
  all characters were used. Numbers that do not fit saturate.
\<close>

definition digit_value :: "char \<Rightarrow> nat" where
  "digit_value c =
     (let n = of_char c :: nat in
      if 48 \<le> n \<and> n \<le> 57 then n - 48 else if 97 \<le> n \<and> n \<le> 122 then n - 87
      else if 65 \<le> n \<and> n \<le> 90 then n - 55 else 36)"

definition strtoull0 :: "string \<Rightarrow> u64 \<times> bool" where
  "strtoull0 s =
     (let (base, digits) =
            (if take 2 s = ''0x'' \<and> drop 2 s \<noteq> [] \<or> take 2 s = ''0X'' \<and> drop 2 s \<noteq> [] then (16, drop 2 s)
             else if take 1 s = ''0'' then (8, s) else (10, s));
          ds = takeWhile (\<lambda>c. digit_value c < base) digits;
          v = foldl (\<lambda>a c. a * base + digit_value c) 0 ds
      in (of_nat (min v (2 ^ 64 - 1)), length ds = length digits \<and> ds \<noteq> [] \<or> s = []))"

definition device_gekko_set_option :: "'d gekko \<Rightarrow> string \<Rightarrow> string option \<Rightarrow> unit result \<times> 'd gekko" where
  "device_gekko_set_option dev opt arg =
     (case gk_fd dev of
        None \<Rightarrow> (Inl gekko_fails, dev)
      | Some fd \<Rightarrow>
          if gk_magic dev \<noteq> EXT2_ET_MAGIC_IO_CHANNEL then (Inl EXT2_ET_MAGIC_IO_CHANNEL, dev)
          else if opt = ''offset'' then
            (case arg of
               None \<Rightarrow> (Inl EXT2_ET_INVALID_ARGUMENT, dev)
             | Some arg \<Rightarrow>
                 let (tmp, all) = strtoull0 arg in
                 if \<not> all then (Inl EXT2_ET_INVALID_ARGUMENT, dev)
                 else
                   let dev = dev\<lparr>gk_fd := Some (fd\<lparr>gf_offset := sint tmp\<rparr>)\<rparr> in
                   (if sint tmp < 0 then Inl EXT2_ET_INVALID_ARGUMENT else Inr (), dev))
          else (Inl EXT2_ET_INVALID_ARGUMENT, dev))"

definition device_gekko_discard :: "'d gekko \<Rightarrow> u64 \<Rightarrow> u64 \<Rightarrow> unit result \<times> 'd gekko" where
  "device_gekko_discard dev block count = (Inr (), dev)"

text \<open>The sector size, guessed from how many bytes of a buffer a read of one sector changes.\<close>

definition readSectorSize :: "u8 heap \<Rightarrow> 'd disc_interface \<Rightarrow> 'd \<Rightarrow> nat \<times> 'd" where
  "readSectorSize h interface dev =
     (if \<not> granted h MAX_SECTOR_SIZE then (512, dev)
      else case di_readSectors interface dev 0 1 of
        (False, _, dev) \<Rightarrow> (512, dev)
      | (True, data, dev) \<Rightarrow>
          let counter1 = length (filter (\<lambda>b. b \<noteq> 0) (put_bytes (replicate MAX_SECTOR_SIZE 0) 0 data)) in
          (case di_readSectors interface dev 0 1 of
             (False, _, dev) \<Rightarrow> (512, dev)
           | (True, data, dev) \<Rightarrow>
               let counter2 = length (filter (\<lambda>b. b \<noteq> 0xFF) (put_bytes (replicate MAX_SECTOR_SIZE 0xFF) 0 data)) in
               (if counter1 \<le> 512 \<and> counter2 \<le> 512 then 512
                else if counter1 \<le> 1024 \<and> counter2 \<le> 1024 then 1024
                else if counter1 \<le> 2048 \<and> counter2 \<le> 2048 then 2048
                else 4096, dev)))"

text \<open>\<open>s_magic\<close> is at byte 56, \<open>s_log_block_size\<close> at 24, \<open>s_blocks_count\<close> at 4.\<close>

definition gekko_block_size :: "u32 \<Rightarrow> int" where
  "gekko_block_size log_block_size =
     (if log_block_size = 1 then 2048 else if log_block_size = 2 then 4096
      else if log_block_size = 3 then 8192 else 1024)"

definition device_gekko_io_open :: "'d gekko \<Rightarrow> unit result \<times> 'd gekko" where
  "device_gekko_io_open dev =
     (case gk_fd dev of
        None \<Rightarrow> (Inl gekko_fails, dev)
      | Some fd \<Rightarrow>
          (case gf_interface fd of
             None \<Rightarrow> (Inl gekko_fails, dev)
           | Some interface \<Rightarrow>
               let put = (\<lambda>d. dev\<lparr>gk_fd := Some (fd\<lparr>gf_dev := d\<rparr>)\<rparr>);
                   (up, d) = di_startup interface (gf_dev fd)
               in
               if \<not> up then (Inl gekko_fails, put d)
               else
                 let (ins, d) = di_isInserted interface d in
                 if \<not> ins then (Inl gekko_fails, put d)
                 else if \<not> granted (gk_heap dev) (4 * MAX_SECTOR_SIZE) then (Inl gekko_fails, put d)
                 else
                   (case di_readSectors interface d (gf_startSector fd) 4 of
                      (False, _, d) \<Rightarrow> (Inl gekko_fails, put d)
                    | (True, data, d) \<Rightarrow>
                        let buffer = put_bytes (map (fresh (gk_heap dev)) [0..<4 * MAX_SECTOR_SIZE]) 0 data in
                        if ext2fs_le16_to_cpu (ld16 buffer (SUPERBLOCK_OFFSET + 56)) \<noteq> EXT2_SUPER_MAGIC then
                          (Inl gekko_fails, put d)
                        else
                          let bs = gekko_block_size (ext2fs_le32_to_cpu (ld32 buffer (SUPERBLOCK_OFFSET + 24)));
                              (ss, d) = readSectorSize (gk_heap dev) interface d;
                              ss = of_nat ss :: u16;
                              count = (ucast (ext2fs_le32_to_cpu (ld32 buffer (SUPERBLOCK_OFFSET + 4))) * word_of_int bs) div ucast ss :: u64;
                              fd = fd\<lparr>gf_sectorSize := ss, gf_offset := 0, gf_sectorCount := ucast count, gf_dev := d\<rparr>;
                              cache = cache_constructor (gk_heap dev) d (gf_counter fd) (gf_cachePageCount fd) (gf_cachePageSize fd)
                                        interface (gf_startSector fd + gf_sectorCount fd) (ucast ss)
                          in (Inr (), dev\<lparr>gk_block_size := bs, gk_fd := Some (fd\<lparr>gf_cache := cache\<rparr>)\<rparr>))))"

text \<open>
  \<open>struct_gekko_io_manager\<close>: there is no \<open>write_byte\<close>. A loop that does not end would
  have no result; \<open>Gekko_Bytes\<close> shows that the loops end.
\<close>

definition gekko_io_manager :: "'d gekko io_manager" where
  "gekko_io_manager =
     \<lparr>im_set_blksize = device_gekko_set_blksize,
      im_read_blk = (\<lambda>dev block count. the (device_gekko_io_read dev block count)),
      im_write_blk = (\<lambda>dev block count data. the (device_gekko_io_write dev block count data)),
      im_flush = device_gekko_io_sync,
      im_write_byte = None,
      im_set_option = Some device_gekko_set_option,
      im_read_blk64 = Some (\<lambda>dev block count. the (device_gekko_io_read64 dev block count)),
      im_write_blk64 = Some (\<lambda>dev block count data. the (device_gekko_io_write64 dev block count data)),
      im_discard = Some device_gekko_discard\<rparr>"

end
