(* ===== verification/Cache_Array.thy ===== *)
theory Cache_Array
  imports Disc_Cache
begin

text \<open>
  The cache of \<open>Disc_Cache\<close> as an array of sectors: \<open>lsec\<close> is the contents of a
  sector, from the page that covers it or else from the disc; \<open>cache_inv\<close> is the invariant
  of the pages. Every operation keeps the invariant and acts on \<open>lsec\<close> as on an array, as
  long as the disc works (\<open>disc_ok\<close>).
\<close>

section \<open>Sectors of a buffer\<close>

definition sect :: "nat \<Rightarrow> nat \<Rightarrow> u8 list \<Rightarrow> u8 list" where
  "sect ss k buf = take ss (drop (k * ss) buf)"

lemma length_sect: "(k + 1) * ss \<le> length buf \<Longrightarrow> length (sect ss k buf) = ss"
  by (simp add: sect_def)

lemma nth_sect: "(k + 1) * ss \<le> length buf \<Longrightarrow> j < ss \<Longrightarrow> sect ss k buf ! j = buf ! (k * ss + j)"
  by (simp add: sect_def)

lemma index_le: "a \<le> k \<Longrightarrow> a * ss \<le> k * ss + j" for a k ss j :: nat
  by (simp add: trans_le_add1)

lemma index_less: "k < b \<Longrightarrow> j < ss \<Longrightarrow> k * ss + j < b * ss" for k b ss j :: nat
proof -
  assume "k < b" "j < ss"
  then have "k * ss + j < (k + 1) * ss" by simp
  also have "\<dots> \<le> b * ss" using \<open>k < b\<close> by (intro mult_le_mono1) simp
  finally show ?thesis .
qed

lemma sect_put_bytes:
  assumes "(a + n) * ss \<le> length buf" "length data = n * ss" "(k + 1) * ss \<le> length buf"
  shows "sect ss k (put_bytes buf (a * ss) data) =
     (if a \<le> k \<and> k < a + n then sect ss (k - a) data else sect ss k buf)"
proof (rule nth_equalityI)
  have le: "a * ss + length data \<le> length buf" using assms(1,2) by (simp add: add_mult_distrib)
  have l: "length (put_bytes buf (a * ss) data) = length buf" using le by simp
  have dl: "(k - a + 1) * ss \<le> length data" if "a \<le> k" "k < a + n"
    unfolding assms(2) using that by (intro mult_le_mono1) simp
  show len: "length (sect ss k (put_bytes buf (a * ss) data)) =
      length (if a \<le> k \<and> k < a + n then sect ss (k - a) data else sect ss k buf)"
    using assms(3) dl l by (simp add: length_sect)
  fix j assume "j < length (sect ss k (put_bytes buf (a * ss) data))"
  then have j: "j < ss" using assms(3) l by (simp add: length_sect)
  have e: "sect ss k (put_bytes buf (a * ss) data) ! j =
      (if a * ss \<le> k * ss + j \<and> k * ss + j < a * ss + n * ss then data ! (k * ss + j - a * ss) else buf ! (k * ss + j))"
    using assms(3) l j le by (subst nth_sect) (simp_all add: nth_put_bytes assms(2))
  consider "a \<le> k" "k < a + n" | "k < a" | "a + n \<le> k" by linarith
  then show "sect ss k (put_bytes buf (a * ss) data) ! j =
      (if a \<le> k \<and> k < a + n then sect ss (k - a) data else sect ss k buf) ! j"
  proof cases
    case 1
    have "k * ss + j - a * ss = (k - a) * ss + j" using 1(1) by (simp add: diff_mult_distrib)
    then show ?thesis
      using 1 e index_le [OF 1(1), of ss j] index_less [OF 1(2) j] dl [OF 1] j
      by (simp add: nth_sect add_mult_distrib)
  next
    case 2
    then show ?thesis using e index_less [OF 2 j] j assms(3) by (simp add: nth_sect)
  next
    case 3
    then show ?thesis using e index_le [OF 3, of ss j] j assms(3) by (simp add: nth_sect add_mult_distrib)
  qed
qed

lemma take_drop_sects:
  "(a + n) * ss \<le> length buf \<Longrightarrow>
     take (n * ss) (drop (a * ss) buf) = concat (map (\<lambda>k. sect ss k buf) [a..<a + n])"
proof (induction n)
  case (Suc n)
  have "take (Suc n * ss) (drop (a * ss) buf) =
      take (n * ss) (drop (a * ss) buf) @ take ss (drop (n * ss) (drop (a * ss) buf))"
    unfolding mult_Suc add.commute [of ss "n * ss"] take_add ..
  also have "drop (n * ss) (drop (a * ss) buf) = drop ((a + n) * ss) buf"
    by (simp add: add_mult_distrib add.commute)
  finally show ?case using Suc by (simp add: sect_def)
qed simp

lemma length_concat_sects:
  "\<forall>k \<in> set ks. length (f k) = ss \<Longrightarrow> length (concat (map f ks)) = length ks * ss"
  by (induction ks) simp_all

lemma sect_concat:
  assumes "\<forall>k. s \<le> k \<and> k < s + n \<longrightarrow> length (f k) = ss" "i < n"
  shows "sect ss i (concat (map f [s..<s + n])) = f (s + i)"
proof -
  have "[s..<s + n] = [s..<s + i] @ (s + i) # [s + i + 1..<s + n]"
    using assms(2) upt_add_eq_append [of s "s + i" "n - i"] upt_conv_Cons [of "s + i" "s + n"] by simp
  moreover have "length (concat (map f [s..<s + i])) = i * ss"
    using length_concat_sects [of "[s..<s + i]" f ss] assms by simp
  ultimately show ?thesis using assms by (simp add: sect_def)
qed

lemma sect_drop: "sect ss k (drop (n * ss) buf) = sect ss (n + k) buf"
  by (simp add: sect_def add_mult_distrib add.commute)

lemma sect_take: "k < n \<Longrightarrow> sect ss k (take (n * ss) buf) = sect ss k buf"
proof -
  assume "k < n"
  then have "(k + 1) * ss \<le> n * ss" by (intro mult_le_mono1) simp
  then have "ss \<le> n * ss - k * ss" by simp
  then show ?thesis by (simp add: sect_def drop_take min_def)
qed

section \<open>The disc and the invariant\<close>

text \<open>
  What the cache relies on: within the partition the disc reads and writes its sectors, a read
  changes none of them, and no call fails.
\<close>

definition disc_ok :: "'d disc_interface \<Rightarrow> ('d \<Rightarrow> nat \<Rightarrow> u8 list) \<Rightarrow> nat \<Rightarrow> nat \<Rightarrow> bool" where
  "disc_ok D dsec en ss \<longleftrightarrow>
     (\<forall>d k. length (dsec d k) = ss) \<and>
     (\<forall>d s n. unat s + unat n \<le> en \<longrightarrow> (\<exists>d'. di_readSectors D d s n =
        (True, concat (map (dsec d) [unat s..<unat s + unat n]), d') \<and> dsec d' = dsec d)) \<and>
     (\<forall>d s n data. unat s + unat n \<le> en \<and> length data = unat n * ss \<longrightarrow> (\<exists>d'. di_writeSectors D d s n data = (True, d') \<and>
        dsec d' = (\<lambda>k. if unat s \<le> k \<and> k < unat s + unat n then sect ss (k - unat s) data else dsec d k)))"

abbreviation ssz :: "'d cache \<Rightarrow> nat" where "ssz c \<equiv> unat (ca_sectorSize c)"
abbreviation spp :: "'d cache \<Rightarrow> nat" where "spp c \<equiv> unat (ca_sectorsPerPage c)"
abbreviation cend :: "'d cache \<Rightarrow> nat" where "cend c \<equiv> unat (ca_end c)"

definition in_use :: "cache_entry \<Rightarrow> bool" where
  "in_use e \<longleftrightarrow> ce_sector e \<noteq> CACHE_FREE"

definition covers :: "cache_entry \<Rightarrow> nat \<Rightarrow> bool" where
  "covers e k \<longleftrightarrow> in_use e \<and> unat (ce_sector e) \<le> k \<and> k < unat (ce_sector e) + unat (ce_count e)"

definition entry_sect :: "nat \<Rightarrow> cache_entry \<Rightarrow> nat \<Rightarrow> u8 list" where
  "entry_sect ss e k = sect ss (k - unat (ce_sector e)) (ce_cache e)"

definition entry_ok :: "'d cache \<Rightarrow> cache_entry \<Rightarrow> bool" where
  "entry_ok c e \<longleftrightarrow> length (ce_cache e) = spp c * ssz c \<and>
     (if in_use e then spp c dvd unat (ce_sector e) \<and> unat (ce_sector e) < cend c \<and>
        unat (ce_count e) = min (spp c) (cend c - unat (ce_sector e))
      else ce_count e = 0 \<and> \<not> ce_dirty e)"

definition clean :: "('d \<Rightarrow> nat \<Rightarrow> u8 list) \<Rightarrow> 'd cache \<Rightarrow> cache_entry \<Rightarrow> bool" where
  "clean dsec c e \<longleftrightarrow> (\<not> ce_dirty e \<longrightarrow> (\<forall>k. covers e k \<longrightarrow> entry_sect (ssz c) e k = dsec (ca_dev c) k))"

definition cache_inv :: "('d \<Rightarrow> nat \<Rightarrow> u8 list) \<Rightarrow> 'd cache \<Rightarrow> bool" where
  "cache_inv dsec c \<longleftrightarrow>
     disc_ok (ca_disc c) dsec (cend c) (ssz c) \<and> 0 < ssz c \<and> 0 < spp c \<and> cend c + spp c < 2 ^ 32 \<and>
     spp c * ssz c < 2 ^ 32 \<and> ca_entries c \<noteq> [] \<and> length (ca_entries c) = unat (ca_numberOfPages c) \<and>
     (\<forall>e \<in> set (ca_entries c). entry_ok c e \<and> clean dsec c e) \<and>
     (\<forall>i j. i < j \<and> j < length (ca_entries c) \<and> in_use (ca_entries c ! i) \<and> in_use (ca_entries c ! j) \<longrightarrow>
        ce_sector (ca_entries c ! i) \<noteq> ce_sector (ca_entries c ! j))"

definition lsec :: "('d \<Rightarrow> nat \<Rightarrow> u8 list) \<Rightarrow> 'd cache \<Rightarrow> nat \<Rightarrow> u8 list" where
  "lsec dsec c k =
     (case find (\<lambda>e. covers e k) (ca_entries c) of
        Some e \<Rightarrow> entry_sect (ssz c) e k
      | None \<Rightarrow> dsec (ca_dev c) k)"

definition same_shape :: "'d cache \<Rightarrow> 'd cache \<Rightarrow> bool" where
  "same_shape c c' \<longleftrightarrow> ca_disc c' = ca_disc c \<and> ca_end c' = ca_end c \<and> ca_numberOfPages c' = ca_numberOfPages c \<and>
     ca_sectorsPerPage c' = ca_sectorsPerPage c \<and> ca_sectorSize c' = ca_sectorSize c \<and>
     length (ca_entries c') = length (ca_entries c)"

lemma same_shape_refl [simp]: "same_shape c c" by (simp add: same_shape_def)

lemma same_shape_trans: "same_shape a b \<Longrightarrow> same_shape b c \<Longrightarrow> same_shape a c"
  by (simp add: same_shape_def)

lemma inv_entry: "cache_inv dsec c \<Longrightarrow> i < length (ca_entries c) \<Longrightarrow> entry_ok c (ca_entries c ! i) \<and> clean dsec c (ca_entries c ! i)"
  by (simp add: cache_inv_def)

lemma entry_base:
  assumes "entry_ok c e" "covers e k" "0 < spp c"
  shows "unat (ce_sector e) = k div spp c * spp c" "unat (ce_count e) \<le> spp c" "k < cend c"
proof -
  have e: "spp c dvd unat (ce_sector e)" "unat (ce_count e) = min (spp c) (cend c - unat (ce_sector e))"
    "unat (ce_sector e) \<le> k" "k < unat (ce_sector e) + unat (ce_count e)"
    using assms(1,2) by (auto simp: entry_ok_def covers_def)
  then show "unat (ce_count e) \<le> spp c" "k < cend c" by linarith+
  obtain q where q: "unat (ce_sector e) = spp c * q" using e(1) by (rule dvdE)
  have "k div spp c = q"
    using e(2-4) q by (intro div_nat_eqI) (simp_all add: mult.commute)
  then show "unat (ce_sector e) = k div spp c * spp c" using q by simp
qed

lemma covers_unique:
  assumes inv: "cache_inv dsec c" and i: "i < length (ca_entries c)" "j < length (ca_entries c)"
    and k: "covers (ca_entries c ! i) k" "covers (ca_entries c ! j) k"
  shows "i = j"
proof (rule ccontr)
  assume "i \<noteq> j"
  have s: "0 < spp c" using inv by (simp add: cache_inv_def)
  have "unat (ce_sector (ca_entries c ! i)) = unat (ce_sector (ca_entries c ! j))"
    using entry_base(1) [OF conjunct1 [OF inv_entry [OF inv i(1)]] k(1) s]
      entry_base(1) [OF conjunct1 [OF inv_entry [OF inv i(2)]] k(2) s] by simp
  then have "ce_sector (ca_entries c ! i) = ce_sector (ca_entries c ! j)" by (simp add: word_unat_eq_iff)
  moreover have "in_use (ca_entries c ! i)" "in_use (ca_entries c ! j)" using k by (auto simp: covers_def)
  ultimately show False
    using inv i \<open>i \<noteq> j\<close> unfolding cache_inv_def by (metis linorder_neqE_nat)
qed

lemma lsec_covered:
  assumes "cache_inv dsec c" "i < length (ca_entries c)" "covers (ca_entries c ! i) k"
  shows "lsec dsec c k = entry_sect (ssz c) (ca_entries c ! i) k"
proof -
  obtain e where "find (\<lambda>e. covers e k) (ca_entries c) = Some e"
    using assms(2,3) by (cases "find (\<lambda>e. covers e k) (ca_entries c)") (auto simp: find_None_iff)
  moreover from this obtain j where "j < length (ca_entries c)" "covers (ca_entries c ! j) k" "e = ca_entries c ! j"
    by (auto simp: find_Some_iff)
  moreover have "j = i" using covers_unique [OF assms(1)] assms(2,3) calculation by blast
  ultimately show ?thesis by (simp add: lsec_def)
qed

lemma lsec_uncovered:
  "\<forall>e \<in> set (ca_entries c). \<not> covers e k \<Longrightarrow> lsec dsec c k = dsec (ca_dev c) k"
  by (simp add: lsec_def find_None_iff [THEN iffD2])

section \<open>Changing one page\<close>

text \<open>The cache with page \<open>i\<close> replaced and another state of the disc.\<close>

definition with_page :: "'d cache \<Rightarrow> nat \<Rightarrow> cache_entry \<Rightarrow> 'd \<Rightarrow> u32 \<Rightarrow> 'd cache" where
  "with_page c i e dev t = c\<lparr>ca_entries := (ca_entries c)[i := e], ca_dev := dev, ca_counter := t\<rparr>"

lemma with_page_simps [simp]:
  "ca_disc (with_page c i e dev t) = ca_disc c" "ca_end (with_page c i e dev t) = ca_end c"
  "ca_sectorsPerPage (with_page c i e dev t) = ca_sectorsPerPage c" "ca_sectorSize (with_page c i e dev t) = ca_sectorSize c"
  "ca_numberOfPages (with_page c i e dev t) = ca_numberOfPages c" "ca_dev (with_page c i e dev t) = dev"
  "ca_entries (with_page c i e dev t) = (ca_entries c)[i := e]" "same_shape c (with_page c i e dev t)"
  "entry_ok (with_page c i e dev t) = entry_ok c"
  by (simp_all add: with_page_def same_shape_def entry_ok_def fun_eq_iff)

lemma with_page_inv:
  assumes inv: "cache_inv dsec c" and i: "i < length (ca_entries c)" and e: "entry_ok c e'"
    and fresh: "in_use e' \<longrightarrow> (\<forall>j < length (ca_entries c). j \<noteq> i \<and> in_use (ca_entries c ! j) \<longrightarrow>
        ce_sector (ca_entries c ! j) \<noteq> ce_sector e')"
    and cl: "\<not> ce_dirty e' \<longrightarrow> (\<forall>k. covers e' k \<longrightarrow> entry_sect (ssz c) e' k = dsec dev' k)"
    and frame: "\<forall>j < length (ca_entries c). j \<noteq> i \<and> \<not> ce_dirty (ca_entries c ! j) \<longrightarrow>
        (\<forall>k. covers (ca_entries c ! j) k \<longrightarrow> dsec dev' k = dsec (ca_dev c) k)"
  shows "cache_inv dsec (with_page c i e' dev' t)"
proof -
  let ?c = "with_page c i e' dev' t"
  have ok: "entry_ok c x \<and> clean dsec ?c x" if x: "x \<in> set (ca_entries ?c)" for x
  proof -
    obtain j where j: "j < length (ca_entries c)" "x = (if j = i then e' else ca_entries c ! j)"
      using x i by (auto simp: in_set_conv_nth nth_list_update)
    show ?thesis
    proof (cases "j = i")
      case True
      then show ?thesis using j e cl by (auto simp: clean_def)
    next
      case False
      then have "entry_ok c x" "clean dsec c x" using inv_entry [OF inv j(1)] j(2) by simp_all
      moreover have "clean dsec ?c x"
        using frame j False \<open>clean dsec c x\<close> by (auto simp: clean_def)
      ultimately show ?thesis by blast
    qed
  qed
  have dist: "ce_sector (ca_entries ?c ! a) \<noteq> ce_sector (ca_entries ?c ! b)"
    if ab: "a < b" "b < length (ca_entries ?c)" "in_use (ca_entries ?c ! a)" "in_use (ca_entries ?c ! b)" for a b
  proof -
    have old: "ce_sector (ca_entries c ! a) \<noteq> ce_sector (ca_entries c ! b)"
      if "in_use (ca_entries c ! a)" "in_use (ca_entries c ! b)"
      using inv that ab(1,2) by (simp add: cache_inv_def)
    consider "a = i" "b \<noteq> i" | "b = i" "a \<noteq> i" | "a \<noteq> i" "b \<noteq> i" using ab(1) by linarith
    then show ?thesis
    proof cases
      case 1
      then have "in_use e'" "in_use (ca_entries c ! b)" "b < length (ca_entries c)"
        using ab i by (simp_all add: nth_list_update)
      then show ?thesis using fresh 1 ab i by (metis nth_list_update_eq nth_list_update_neq with_page_simps(7))
    next
      case 2
      then have "in_use e'" "in_use (ca_entries c ! a)" "a < length (ca_entries c)"
        using ab i by (simp_all add: nth_list_update)
      then show ?thesis using fresh 2 ab i by (metis nth_list_update_eq nth_list_update_neq with_page_simps(7))
    next
      case 3
      then show ?thesis using ab old by (simp add: nth_list_update)
    qed
  qed
  show ?thesis
    using inv ok dist unfolding cache_inv_def by simp
qed

lemma with_page_lsec:
  assumes inv: "cache_inv dsec c" and inv': "cache_inv dsec (with_page c i e' dev' t)"
    and i: "i < length (ca_entries c)"
  shows "covers e' k \<Longrightarrow> lsec dsec (with_page c i e' dev' t) k = entry_sect (ssz c) e' k"
    "j < length (ca_entries c) \<Longrightarrow> j \<noteq> i \<Longrightarrow> covers (ca_entries c ! j) k \<Longrightarrow>
       lsec dsec (with_page c i e' dev' t) k = lsec dsec c k"
    "\<not> covers e' k \<Longrightarrow> \<forall>j < length (ca_entries c). j \<noteq> i \<longrightarrow> \<not> covers (ca_entries c ! j) k \<Longrightarrow>
       lsec dsec (with_page c i e' dev' t) k = dsec dev' k"
proof -
  let ?c = "with_page c i e' dev' t"
  show "covers e' k \<Longrightarrow> lsec dsec ?c k = entry_sect (ssz c) e' k"
    using lsec_covered [OF inv', of i k] i by simp
  show "j < length (ca_entries c) \<Longrightarrow> j \<noteq> i \<Longrightarrow> covers (ca_entries c ! j) k \<Longrightarrow> lsec dsec ?c k = lsec dsec c k"
    using lsec_covered [OF inv', of j k] lsec_covered [OF inv, of j k] by simp
  assume a: "\<not> covers e' k" "\<forall>j < length (ca_entries c). j \<noteq> i \<longrightarrow> \<not> covers (ca_entries c ! j) k"
  have "\<forall>e \<in> set (ca_entries ?c). \<not> covers e k"
  proof
    fix e assume "e \<in> set (ca_entries ?c)"
    then obtain j where "j < length (ca_entries c)" "e = (if j = i then e' else ca_entries c ! j)"
      using i by (auto simp: in_set_conv_nth nth_list_update)
    then show "\<not> covers e k" using a by (cases "j = i") auto
  qed
  then show "lsec dsec ?c k = dsec dev' k" using lsec_uncovered [of ?c k dsec] by simp
qed

text \<open>
  A page that covers the same sectors as before, or covered none that differ from the disc: the
  contents stay.
\<close>

lemma lsec_kept:
  assumes inv: "cache_inv dsec c" and inv': "cache_inv dsec (with_page c i e' dev' t)"
    and i: "i < length (ca_entries c)"
    and same: "\<And>k. covers e' k \<Longrightarrow> entry_sect (ssz c) e' k = lsec dsec c k"
    and gone: "\<And>k. \<not> covers e' k \<Longrightarrow> \<forall>j < length (ca_entries c). j \<noteq> i \<longrightarrow> \<not> covers (ca_entries c ! j) k \<Longrightarrow>
        dsec dev' k = lsec dsec c k"
  shows "lsec dsec (with_page c i e' dev' t) = lsec dsec c"
proof
  fix k
  note w = with_page_lsec [OF inv inv' i]
  show "lsec dsec (with_page c i e' dev' t) k = lsec dsec c k"
  proof (cases "covers e' k")
    case True
    then show ?thesis using w(1) same by simp
  next
    case False
    show ?thesis
    proof (cases "\<exists>j < length (ca_entries c). j \<noteq> i \<and> covers (ca_entries c ! j) k")
      case True
      then show ?thesis using w(2) by blast
    next
      case c: False
      then have "\<forall>j < length (ca_entries c). j \<noteq> i \<longrightarrow> \<not> covers (ca_entries c ! j) k" by blast
      then show ?thesis using w(3) [OF False] gone [OF False] by simp
    qed
  qed
qed

section \<open>Getting a page\<close>

lemma hit_iff:
  assumes "entry_ok c e" "cend c + spp c < 2 ^ 32" "unat sector < cend c"
  shows "sector \<ge> ce_sector e \<and> sector < ce_sector e + ce_count e \<longleftrightarrow> covers e (unat sector)"
proof (cases "in_use e")
  case True
  have "unat (ce_sector e) + unat (ce_count e) < 2 ^ 32"
    using assms(1,2) True by (auto simp: entry_ok_def)
  then have "unat (ce_sector e + ce_count e) = unat (ce_sector e) + unat (ce_count e)"
    by (subst unat_add_small) simp_all
  then show ?thesis using True by (auto simp: covers_def word_le_nat_alt word_less_nat_alt)
next
  case False
  then have "ce_count e = 0" using assms(1) by (simp add: entry_ok_def)
  then show ?thesis using False by (auto simp: covers_def)
qed

lemma page_scan_spec:
  assumes "\<forall>e \<in> set es. entry_ok c e" "cend c + spp c < 2 ^ 32" "unat sector < cend c"
  shows "case page_scan es sector i ff ou oa of
     Inl j \<Rightarrow> i \<le> j \<and> j < i + length es \<and> covers (es ! (j - i)) (unat sector)
   | Inr (ff', ou') \<Rightarrow> (\<forall>e \<in> set es. \<not> covers e (unat sector)) \<and>
       ((ou' = ou \<and> ff' = ff) \<or> (i \<le> ou' \<and> ou' < i + length es \<and> (ff' \<longrightarrow> \<not> in_use (es ! (ou' - i)))))"
  using assms(1)
proof (induction es arbitrary: i ff ou oa)
  case (Cons e es)
  have h: "sector \<ge> ce_sector e \<and> sector < ce_sector e + ce_count e \<longleftrightarrow> covers e (unat sector)"
    using hit_iff [OF _ assms(2,3)] Cons.prems by simp
  show ?case
  proof (cases "covers e (unat sector)")
    case True
    then have "(sector \<ge> ce_sector e \<and> sector < ce_sector e + ce_count e) = True" using h by blast
    then show ?thesis using True by (simp only: page_scan.simps if_True) simp
  next
    case nc: False
    have nh: "(sector \<ge> ce_sector e \<and> sector < ce_sector e + ce_count e) = False" using h nc by blast
    let ?upd = "\<not> ff \<and> (ce_sector e = CACHE_FREE \<or> ce_last_access e < ucast oa)"
    have es: "\<forall>e \<in> set es. entry_ok c e" using Cons.prems by simp
    have shift: "es ! (j - Suc i) = (e # es) ! (j - i)" if "Suc i \<le> j" for j
      using that by (simp add: nth_Cons' Suc_diff_le)
    show ?thesis
    proof (cases ?upd)
      case True
      then have u: "?upd = True" by simp
      have "page_scan (e # es) sector i ff ou oa =
          page_scan es sector (Suc i) (ce_sector e = CACHE_FREE) i (ucast (ce_last_access e))"
        by (simp only: page_scan.simps nh u if_False if_True Suc_eq_plus1)
      then show ?thesis
        using Cons.IH [OF es, where i = "Suc i" and ff = "ce_sector e = CACHE_FREE" and ou = i and oa = "ucast (ce_last_access e)"] nc shift
        by (auto simp: in_use_def split: sum.splits)
    next
      case False
      then have u: "?upd = False" by simp
      have "page_scan (e # es) sector i ff ou oa = page_scan es sector (Suc i) ff ou oa"
        by (simp only: page_scan.simps nh u if_False Suc_eq_plus1)
      then show ?thesis
        using Cons.IH [OF es, where i = "Suc i" and ff = ff and ou = ou and oa = oa] nc shift by (auto split: sum.splits)
    qed
  qed
qed simp

lemma unat_times_small:
  "unat a * unat b < 2 ^ LENGTH('a) \<Longrightarrow> unat (a * b) = unat a * unat (b :: 'a::len word)"
  by (simp add: unat_word_ariths)

lemma sectors_bytes_eq: "unat n * ssz c < 2 ^ 32 \<Longrightarrow> sectors_bytes c n = unat n * ssz c"
  unfolding sectors_bytes_def by (simp add: unat_word_ariths)

lemma inv_params:
  assumes "cache_inv dsec c"
  shows "disc_ok (ca_disc c) dsec (cend c) (ssz c)" "0 < ssz c" "0 < spp c" "cend c + spp c < 2 ^ 32"
    "spp c * ssz c < 2 ^ 32" "\<forall>e \<in> set (ca_entries c). entry_ok c e" "ca_entries c \<noteq> []"
  using assms by (simp_all add: cache_inv_def)

lemma page_bytes:
  assumes "cache_inv dsec c" "k \<le> spp c"
  shows "k * ssz c \<le> spp c * ssz c" "k * ssz c < 2 ^ 32"
proof -
  show "k * ssz c \<le> spp c * ssz c" using assms(2) by (rule mult_le_mono1)
  then show "k * ssz c < 2 ^ 32" using inv_params(5) [OF assms(1)] by linarith
qed

lemma disc_okD:
  assumes "disc_ok D dsec en ss"
  shows "length (dsec d k) = ss"
    "unat s + unat n \<le> en \<Longrightarrow> \<exists>d'. di_readSectors D d s n =
        (True, concat (map (dsec d) [unat s..<unat s + unat n]), d') \<and> dsec d' = dsec d"
    "unat s + unat n \<le> en \<Longrightarrow> length data = unat n * ss \<Longrightarrow> \<exists>d'. di_writeSectors D d s n data = (True, d') \<and>
        dsec d' = (\<lambda>k. if unat s \<le> k \<and> k < unat s + unat n then sect ss (k - unat s) data else dsec d k)"
  using assms unfolding disc_ok_def by blast+

text \<open>A dirty page written back.\<close>

lemma write_page_ok:
  assumes inv: "cache_inv dsec c" and i: "i < length (ca_entries c)" and d: "ce_dirty (ca_entries c ! i)"
  shows "\<exists>dev'. write_page c i = (True, c\<lparr>ca_dev := dev'\<rparr>) \<and>
    cache_inv dsec (with_page c i ((ca_entries c ! i)\<lparr>ce_dirty := False\<rparr>) dev' (ca_counter c)) \<and>
    lsec dsec (with_page c i ((ca_entries c ! i)\<lparr>ce_dirty := False\<rparr>) dev' (ca_counter c)) = lsec dsec c"
proof -
  let ?e = "ca_entries c ! i"
  note pr = inv_params [OF inv]
  have ok: "entry_ok c ?e" using inv_entry [OF inv i] by blast
  have use: "in_use ?e" using ok d by (auto simp: entry_ok_def split: if_split_asm)
  have e: "length (ce_cache ?e) = spp c * ssz c" "unat (ce_sector ?e) + unat (ce_count ?e) \<le> cend c"
    "unat (ce_count ?e) \<le> spp c"
    using ok use by (auto simp: entry_ok_def)
  have b: "sectors_bytes c (ce_count ?e) = unat (ce_count ?e) * ssz c"
    using page_bytes(2) [OF inv e(3)] by (rule sectors_bytes_eq)
  let ?data = "take (unat (ce_count ?e) * ssz c) (ce_cache ?e)"
  have ld: "length ?data = unat (ce_count ?e) * ssz c"
    using page_bytes(1) [OF inv e(3)] e(1) by simp
  obtain dev' where w: "di_writeSectors (ca_disc c) (ca_dev c) (ce_sector ?e) (ce_count ?e) ?data = (True, dev')"
    "dsec dev' = (\<lambda>k. if unat (ce_sector ?e) \<le> k \<and> k < unat (ce_sector ?e) + unat (ce_count ?e)
       then sect (ssz c) (k - unat (ce_sector ?e)) ?data else dsec (ca_dev c) k)"
    using disc_okD(3) [OF pr(1) e(2) ld] by blast
  have dv: "dsec dev' k = (if covers ?e k then entry_sect (ssz c) ?e k else dsec (ca_dev c) k)" for k
    using use unfolding w(2) by (auto simp: covers_def entry_sect_def sect_take)
  let ?e' = "?e\<lparr>ce_dirty := False\<rparr>"
  let ?c' = "with_page c i ?e' dev' (ca_counter c)"
  have same: "covers ?e' = covers ?e" "entry_sect (ssz c) ?e' = entry_sect (ssz c) ?e" "in_use ?e' = in_use ?e"
    by (simp_all add: fun_eq_iff covers_def entry_sect_def in_use_def)
  have inv': "cache_inv dsec ?c'"
  proof (rule with_page_inv [OF inv i])
    show "entry_ok c ?e'" using ok by (simp add: entry_ok_def in_use_def)
    show "in_use ?e' \<longrightarrow> (\<forall>j < length (ca_entries c). j \<noteq> i \<and> in_use (ca_entries c ! j) \<longrightarrow>
        ce_sector (ca_entries c ! j) \<noteq> ce_sector ?e')"
      using inv i use unfolding cache_inv_def by (auto, metis linorder_neqE_nat)
    show "\<not> ce_dirty ?e' \<longrightarrow> (\<forall>k. covers ?e' k \<longrightarrow> entry_sect (ssz c) ?e' k = dsec dev' k)"
      by (simp add: same dv)
    show "\<forall>j < length (ca_entries c). j \<noteq> i \<and> \<not> ce_dirty (ca_entries c ! j) \<longrightarrow>
        (\<forall>k. covers (ca_entries c ! j) k \<longrightarrow> dsec dev' k = dsec (ca_dev c) k)"
      using covers_unique [OF inv] i by (auto simp: dv)
  qed
  have "lsec dsec ?c' = lsec dsec c"
  proof (rule lsec_kept [OF inv inv' i])
    fix k
    show "covers ?e' k \<Longrightarrow> entry_sect (ssz c) ?e' k = lsec dsec c k"
      using lsec_covered [OF inv i] same by simp
    assume n: "\<not> covers ?e' k" "\<forall>j < length (ca_entries c). j \<noteq> i \<longrightarrow> \<not> covers (ca_entries c ! j) k"
    then have "\<forall>e \<in> set (ca_entries c). \<not> covers e k" using same by (metis in_set_conv_nth)
    then show "dsec dev' k = lsec dsec c k" using lsec_uncovered n same dv by fastforce
  qed
  moreover have "write_page c i = (True, c\<lparr>ca_dev := dev'\<rparr>)" by (simp add: write_page_def Let_def b w(1))
  ultimately show ?thesis using inv' by blast
qed

text \<open>A clean page reloaded with the sectors around a sector that no page covers.\<close>

lemma load_page_ok:
  assumes inv: "cache_inv dsec c" and i: "i < length (ca_entries c)" and cl: "\<not> ce_dirty (ca_entries c ! i)"
    and s: "unat sector < cend c" and miss: "\<forall>e \<in> set (ca_entries c). \<not> covers e (unat sector)"
  defines "base \<equiv> sector div ca_sectorsPerPage c * ca_sectorsPerPage c"
  defines "nxt \<equiv> (if base + ca_sectorsPerPage c > ca_end c then ca_end c else base + ca_sectorsPerPage c)"
  shows "\<exists>data dev'. di_readSectors (ca_disc c) (ca_dev c) base (nxt - base) = (True, data, dev') \<and>
    (\<forall>la t. let e' = (ca_entries c ! i)\<lparr>ce_cache := put_bytes (ce_cache (ca_entries c ! i)) 0 data,
        ce_sector := base, ce_count := nxt - base, ce_last_access := la\<rparr> in
      cache_inv dsec (with_page c i e' dev' t) \<and> covers e' (unat sector) \<and>
      lsec dsec (with_page c i e' dev' t) = lsec dsec c)"
proof -
  note pr = inv_params [OF inv]
  let ?e = "ca_entries c ! i"
  have ub: "unat base = unat sector div spp c * spp c"
  proof -
    have "unat sector div spp c * spp c \<le> unat sector" by simp
    then have "unat sector div spp c * spp c < 2 ^ 32" using unat_u32_bound [of sector] by linarith
    then show ?thesis unfolding base_def by (subst unat_times_small) (simp_all add: unat_div_distrib)
  qed
  have le: "unat base \<le> unat sector" "unat sector < unat base + spp c"
    using pr(3) mod_less_divisor [of "spp c" "unat sector"] div_mult_mod_eq [of "unat sector" "spp c"]
    unfolding ub by linarith+
  have un: "unat nxt = min (unat base + spp c) (cend c)"
  proof -
    have "unat (base + ca_sectorsPerPage c) = unat base + spp c"
      using le s pr(4) by (subst unat_add_small) simp_all
    then show ?thesis by (auto simp: nxt_def word_less_nat_alt)
  qed
  have lt: "unat sector < unat nxt" using un le s by simp
  have cnt: "unat (nxt - base) = unat nxt - unat base"
    using lt le by (intro unat_diff) (simp add: word_le_nat_alt)
  have rng: "unat base + unat (nxt - base) \<le> cend c" unfolding cnt using un lt le by simp
  obtain dev' where r: "di_readSectors (ca_disc c) (ca_dev c) base (nxt - base) =
      (True, concat (map (dsec (ca_dev c)) [unat base..<unat base + unat (nxt - base)]), dev')" "dsec dev' = dsec (ca_dev c)"
    using disc_okD(2) [OF pr(1) rng] by blast
  let ?data = "concat (map (dsec (ca_dev c)) [unat base..<unat base + unat (nxt - base)])"
  have ld: "length ?data = unat (nxt - base) * ssz c"
    using length_concat_sects [of "[unat base..<unat base + unat (nxt - base)]" "dsec (ca_dev c)" "ssz c"]
      disc_okD(1) [OF pr(1)] by simp
  have csp: "unat (nxt - base) \<le> spp c" unfolding cnt using un by simp
  have nf: "base \<noteq> CACHE_FREE"
  proof -
    have "unat base < 2 ^ 32 - 1" using le s pr(4) by linarith
    moreover have "unat CACHE_FREE = 2 ^ 32 - 1" by (simp add: CACHE_FREE_def)
    ultimately show ?thesis by auto
  qed
  have all: "cache_inv dsec (with_page c i e' dev' t) \<and> covers e' (unat sector) \<and>
      lsec dsec (with_page c i e' dev' t) = lsec dsec c"
    if e': "e' = ?e\<lparr>ce_cache := put_bytes (ce_cache ?e) 0 ?data, ce_sector := base, ce_count := nxt - base,
      ce_last_access := la\<rparr>" for e' la t
  proof -
    let ?c' = "with_page c i e' dev' t"
    have ok: "entry_ok c ?e" using inv_entry [OF inv i] by blast
    have lc: "length (ce_cache ?e) = spp c * ssz c" using ok by (simp add: entry_ok_def)
    have fit: "0 * ssz c + length ?data \<le> length (ce_cache ?e)"
      using page_bytes(1) [OF inv csp] lc ld by simp
    have use: "in_use e'" using nf by (simp add: e' in_use_def)
    have dv: "spp c dvd unat base" by (simp add: ub)
    have ok': "entry_ok c e'"
      using use dv fit lc le s un by (simp add: entry_ok_def e' cnt)
    have cov: "covers e' k \<longleftrightarrow> unat base \<le> k \<and> k < unat nxt" for k
      using use lt le unfolding covers_def by (simp add: e' cnt)
    have base: "covers (ca_entries c ! j) (unat sector)"
      if "j < length (ca_entries c)" "in_use (ca_entries c ! j)" "unat (ce_sector (ca_entries c ! j)) = unat base" for j
      using inv_entry [OF inv that(1)] that(2,3) lt le un by (auto simp: entry_ok_def covers_def)
    have new: "\<not> covers (ca_entries c ! j) k" if "j < length (ca_entries c)" "covers e' k" for j k
    proof
      assume cj: "covers (ca_entries c ! j) k"
      have "unat (ce_sector (ca_entries c ! j)) = k div spp c * spp c"
        using entry_base(1) [OF conjunct1 [OF inv_entry [OF inv that(1)]] cj pr(3)] .
      also have "k div spp c = unat sector div spp c"
        using that(2) un ub pr(3) unfolding cov by (intro div_nat_eqI) (simp_all add: mult.commute)
      finally have "unat (ce_sector (ca_entries c ! j)) = unat base" using ub by simp
      moreover have "in_use (ca_entries c ! j)" using cj by (simp add: covers_def)
      ultimately show False using base that(1) miss nth_mem by blast
    qed
    have sec: "entry_sect (ssz c) e' k = dsec (ca_dev c) k" if "covers e' k" for k
    proof -
      have k: "k - unat base < unat (nxt - base)" "unat base + (k - unat base) = k"
        using that unfolding cov cnt by linarith+
      have "(k - unat base + 1) * ssz c \<le> spp c * ssz c"
        using k(1) csp by (intro mult_le_mono1) simp
      then have "sect (ssz c) (k - unat base) (put_bytes (ce_cache ?e) (0 * ssz c) ?data) = sect (ssz c) (k - unat base) ?data"
        using k(1) fit ld lc by (subst sect_put_bytes [where n = "unat (nxt - base)"]) simp_all
      also have "\<dots> = dsec (ca_dev c) k"
        using k disc_okD(1) [OF pr(1)] by (subst sect_concat) simp_all
      finally show ?thesis by (simp add: entry_sect_def e')
    qed
    have inv': "cache_inv dsec ?c'"
    proof (rule with_page_inv [OF inv i ok'])
      show "in_use e' \<longrightarrow> (\<forall>j < length (ca_entries c). j \<noteq> i \<and> in_use (ca_entries c ! j) \<longrightarrow>
          ce_sector (ca_entries c ! j) \<noteq> ce_sector e')"
        using base miss nth_mem by (fastforce simp: e')
    qed (use sec r(2) in simp_all)
    have "lsec dsec ?c' = lsec dsec c"
    proof (rule lsec_kept [OF inv inv' i])
      show "entry_sect (ssz c) e' k = lsec dsec c k" if "covers e' k" for k
        using sec [OF that] lsec_uncovered [of c k dsec] new that by (metis in_set_conv_nth)
      show "dsec dev' k = lsec dsec c k"
        if "\<not> covers e' k" "\<forall>j < length (ca_entries c). j \<noteq> i \<longrightarrow> \<not> covers (ca_entries c ! j) k" for k
      proof (cases "covers ?e k")
        case True
        then show ?thesis
          using lsec_covered [OF inv i True] inv_entry [OF inv i] cl r(2) by (simp add: clean_def)
      next
        case False
        then have "\<forall>e \<in> set (ca_entries c). \<not> covers e k" using that(2) by (metis in_set_conv_nth)
        then show ?thesis using lsec_uncovered [of c k dsec] r(2) by simp
      qed
    qed
    moreover have "covers e' (unat sector)" using cov lt le by simp
    ultimately show ?thesis using inv' by blast
  qed
  show ?thesis using r all unfolding Let_def by blast
qed

text \<open>Updates of entries and of the counter, as replaced pages.\<close>

lemma upd_entry_with_page: "upd_entry (c\<lparr>ca_dev := dev\<rparr>) i f = with_page c i (f (ca_entries c ! i)) dev (ca_counter c)"
  by (simp add: upd_entry_def with_page_def)

lemma with_page_twice:
  "i < length (ca_entries c) \<Longrightarrow> with_page (with_page c i e dev t) i e' dev' t' = with_page c i e' dev' t'"
  by (simp add: with_page_def)

lemma last_access_ok:
  assumes inv: "cache_inv dsec c" and i: "i < length (ca_entries c)"
  shows "cache_inv dsec (with_page c i ((ca_entries c ! i)\<lparr>ce_last_access := la\<rparr>) (ca_dev c) t) \<and>
    lsec dsec (with_page c i ((ca_entries c ! i)\<lparr>ce_last_access := la\<rparr>) (ca_dev c) t) = lsec dsec c"
proof -
  let ?e = "ca_entries c ! i" and ?e' = "(ca_entries c ! i)\<lparr>ce_last_access := la\<rparr>"
  have same: "covers ?e' = covers ?e" "entry_sect (ssz c) ?e' = entry_sect (ssz c) ?e" "in_use ?e' = in_use ?e"
    by (simp_all add: fun_eq_iff covers_def entry_sect_def in_use_def)
  have e: "entry_ok c ?e" "clean dsec c ?e" using inv_entry [OF inv i] by blast+
  have inv': "cache_inv dsec (with_page c i ?e' (ca_dev c) t)"
  proof (rule with_page_inv [OF inv i])
    show "entry_ok c ?e'" using e(1) same by (simp add: entry_ok_def)
    show "in_use ?e' \<longrightarrow> (\<forall>j < length (ca_entries c). j \<noteq> i \<and> in_use (ca_entries c ! j) \<longrightarrow>
        ce_sector (ca_entries c ! j) \<noteq> ce_sector ?e')"
      using inv i same(3) unfolding cache_inv_def by (auto, metis linorder_neqE_nat)
    show "\<not> ce_dirty ?e' \<longrightarrow> (\<forall>k. covers ?e' k \<longrightarrow> entry_sect (ssz c) ?e' k = dsec (ca_dev c) k)"
      using e(2) same by (simp add: clean_def)
  qed simp
  have "lsec dsec (with_page c i ?e' (ca_dev c) t) = lsec dsec c"
  proof (rule lsec_kept [OF inv inv' i])
    fix k
    show "covers ?e' k \<Longrightarrow> entry_sect (ssz c) ?e' k = lsec dsec c k"
      using lsec_covered [OF inv i] same by simp
    assume "\<not> covers ?e' k" "\<forall>j < length (ca_entries c). j \<noteq> i \<longrightarrow> \<not> covers (ca_entries c ! j) k"
    then have "\<forall>e \<in> set (ca_entries c). \<not> covers e k" using same by (metis in_set_conv_nth)
    then show "dsec (ca_dev c) k = lsec dsec c k" by (simp add: lsec_uncovered)
  qed
  then show ?thesis using inv' by blast
qed

lemma getPage_ok:
  assumes inv: "cache_inv dsec c" and s: "unat sector < cend c"
  shows "\<exists>i c'. cache_getPage c sector = (Some i, c') \<and> cache_inv dsec c' \<and> lsec dsec c' = lsec dsec c \<and>
    same_shape c c' \<and> i < length (ca_entries c') \<and> covers (ca_entries c' ! i) (unat sector)"
proof (cases "page_scan (ca_entries c) sector 0 False 0 (- 1)")
  note pr = inv_params [OF inv]
  note scan = page_scan_spec [OF pr(6,4) s, where i = 0 and ff = False and ou = 0 and oa = "- 1"]
  case (Inl i)
  then have i: "i < length (ca_entries c)" "covers (ca_entries c ! i) (unat sector)" using scan by simp_all
  let ?t = "ca_counter c + 1"
  let ?c' = "with_page c i ((ca_entries c ! i)\<lparr>ce_last_access := ucast ?t\<rparr>) (ca_dev c) ?t"
  have "cache_getPage c sector = (Some i, ?c')"
    by (simp add: cache_getPage_def Inl accessTime_def upd_entry_def with_page_def Let_def)
  moreover have "covers (ca_entries ?c' ! i) (unat sector)" using i by (simp add: covers_def in_use_def)
  ultimately show ?thesis using last_access_ok [OF inv i(1)] i(1)
    by (intro exI [of _ i] exI [of _ ?c']) simp
next
  note pr = inv_params [OF inv]
  note scan = page_scan_spec [OF pr(6,4) s, where i = 0 and ff = False and ou = 0 and oa = "- 1"]
  case (Inr r)
  obtain ff i where r: "r = (ff, i)" by (cases r)
  have miss: "\<forall>e \<in> set (ca_entries c). \<not> covers e (unat sector)"
    and i: "i < length (ca_entries c)" and ff: "ff \<longrightarrow> \<not> in_use (ca_entries c ! i)"
    using scan pr(7) by (auto simp: Inr r)
  let ?wb = "\<not> ff \<and> ce_dirty (ca_entries c ! i)"
  have "\<exists>c1. evict_page c ff i = (True, c1) \<and>
      cache_inv dsec c1 \<and> lsec dsec c1 = lsec dsec c \<and> same_shape c c1 \<and> \<not> ce_dirty (ca_entries c1 ! i) \<and>
      (\<forall>e \<in> set (ca_entries c1). \<not> covers e (unat sector))"
  proof (cases ?wb)
    case True
    then obtain dev' where w: "write_page c i = (True, c\<lparr>ca_dev := dev'\<rparr>)"
      "cache_inv dsec (with_page c i ((ca_entries c ! i)\<lparr>ce_dirty := False\<rparr>) dev' (ca_counter c))"
      "lsec dsec (with_page c i ((ca_entries c ! i)\<lparr>ce_dirty := False\<rparr>) dev' (ca_counter c)) = lsec dsec c"
      using write_page_ok [OF inv i] by blast
    let ?c1 = "with_page c i ((ca_entries c ! i)\<lparr>ce_dirty := False\<rparr>) dev' (ca_counter c)"
    have "\<forall>e \<in> set (ca_entries ?c1). \<not> covers e (unat sector)"
    proof
      fix e assume "e \<in> set (ca_entries ?c1)"
      then have "e = (ca_entries c ! i)\<lparr>ce_dirty := False\<rparr> \<or> e \<in> set (ca_entries c)"
        using set_update_subset_insert [of "ca_entries c" i] by auto
      then show "\<not> covers e (unat sector)"
        using miss nth_mem [OF i] by (auto simp: covers_def in_use_def)
    qed
    then show ?thesis using w True i by (intro exI [of _ ?c1]) (simp add: evict_page_def upd_entry_with_page)
  next
    case False
    have "\<not> ce_dirty (ca_entries c ! i)"
      using False ff inv_entry [OF inv i] by (auto simp: entry_ok_def)
    then show ?thesis using False inv miss by (intro exI [of _ c]) (auto simp: evict_page_def)
  qed
  then obtain c1 where e1: "evict_page c ff i = (True, c1)"
    and c1: "cache_inv dsec c1" "lsec dsec c1 = lsec dsec c" "same_shape c c1" "\<not> ce_dirty (ca_entries c1 ! i)"
      "\<forall>e \<in> set (ca_entries c1). \<not> covers e (unat sector)" by blast
  have i1: "i < length (ca_entries c1)" "unat sector < cend c1" using c1(3) i s by (simp_all add: same_shape_def)
  let ?base = "sector div ca_sectorsPerPage c1 * ca_sectorsPerPage c1"
  let ?nxt = "if ?base + ca_sectorsPerPage c1 > ca_end c1 then ca_end c1 else ?base + ca_sectorsPerPage c1"
  obtain data dev' where ld: "di_readSectors (ca_disc c1) (ca_dev c1) ?base (?nxt - ?base) = (True, data, dev')"
    "\<forall>la t. let e' = (ca_entries c1 ! i)\<lparr>ce_cache := put_bytes (ce_cache (ca_entries c1 ! i)) 0 data,
        ce_sector := ?base, ce_count := ?nxt - ?base, ce_last_access := la\<rparr> in
      cache_inv dsec (with_page c1 i e' dev' t) \<and> covers e' (unat sector) \<and>
      lsec dsec (with_page c1 i e' dev' t) = lsec dsec c1"
    using load_page_ok [OF c1(1) i1(1) c1(4) i1(2) c1(5)] by blast
  let ?t = "ca_counter c1 + 1"
  let ?e' = "(ca_entries c1 ! i)\<lparr>ce_cache := put_bytes (ce_cache (ca_entries c1 ! i)) 0 data,
        ce_sector := ?base, ce_count := ?nxt - ?base, ce_last_access := ucast ?t\<rparr>"
  let ?c' = "with_page c1 i ?e' dev' ?t"
  have res: "cache_inv dsec ?c'" "covers ?e' (unat sector)" "lsec dsec ?c' = lsec dsec c1"
    using ld(2) by (simp_all add: Let_def)
  have "load_page c1 i sector = (Some i, ?c')"
    unfolding load_page_def Let_def ld(1)
    using i1 by (simp add: accessTime_def upd_entry_def with_page_def Let_def)
  then have "cache_getPage c sector = (Some i, ?c')"
    by (simp add: cache_getPage_def Inr r e1)
  then show ?thesis
    using res c1(2) i1(1) same_shape_trans [OF c1(3) with_page_simps(8)]
    by (intro exI [of _ i] exI [of _ ?c']) simp
qed

section \<open>Reading\<close>

definition seg :: "('d \<Rightarrow> nat \<Rightarrow> u8 list) \<Rightarrow> 'd cache \<Rightarrow> nat \<Rightarrow> nat \<Rightarrow> u8 list" where
  "seg dsec c s n = concat (map (lsec dsec c) [s..<s + n])"

lemma seg_split: "seg dsec c s (m + n) = seg dsec c s m @ seg dsec c (s + m) n"
proof -
  have "[s..<s + m + n] = [s..<s + m] @ [s + m..<s + m + n]" by (rule upt_add_eq_append) simp
  then show ?thesis by (simp add: seg_def add.assoc)
qed

text \<open>The bytes of a page from a sector it covers on.\<close>

lemma page_tail:
  assumes inv: "cache_inv dsec c" and i: "i < length (ca_entries c)" and cov: "covers (ca_entries c ! i) (unat sector)"
    and m: "m \<le> unat (ce_count (ca_entries c ! i)) - (unat sector - unat (ce_sector (ca_entries c ! i)))"
  shows "take (m * ssz c) (drop ((unat sector - unat (ce_sector (ca_entries c ! i))) * ssz c) (ce_cache (ca_entries c ! i)))
     = seg dsec c (unat sector) m"
proof -
  let ?e = "ca_entries c ! i"
  let ?a = "unat sector - unat (ce_sector ?e)"
  have ok: "entry_ok c ?e" using inv_entry [OF inv i] by blast
  have e: "length (ce_cache ?e) = spp c * ssz c" "unat (ce_count ?e) \<le> spp c" "unat (ce_sector ?e) \<le> unat sector"
    "unat sector < unat (ce_sector ?e) + unat (ce_count ?e)"
    using ok cov by (auto simp: entry_ok_def covers_def)
  have "?a + m \<le> spp c" using m e by linarith
  then have "(?a + m) * ssz c \<le> length (ce_cache ?e)" unfolding e(1) by (rule mult_le_mono1)
  from take_drop_sects [OF this]
  have "take (m * ssz c) (drop (?a * ssz c) (ce_cache ?e)) = concat (map (\<lambda>k. sect (ssz c) k (ce_cache ?e)) [?a..<?a + m])" .
  also have "\<dots> = concat (map (lsec dsec c) [unat sector..<unat sector + m])"
  proof (rule arg_cong [where f = concat], rule nth_equalityI)
    fix j assume "j < length (map (\<lambda>k. sect (ssz c) k (ce_cache ?e)) [?a..<?a + m])"
    then have j: "j < m" by simp
    then have "covers ?e (unat sector + j)" using cov m e by (simp add: covers_def)
    from lsec_covered [OF inv i this]
    show "map (\<lambda>k. sect (ssz c) k (ce_cache ?e)) [?a..<?a + m] ! j = map (lsec dsec c) [unat sector..<unat sector + m] ! j"
      using j e(3) by (simp add: entry_sect_def)
  qed simp
  finally show ?thesis by (simp add: seg_def)
qed

text \<open>How many sectors a page gives from a sector it covers on.\<close>

lemma page_count:
  assumes inv: "cache_inv dsec c" and i: "i < length (ca_entries c)" and cov: "covers (ca_entries c ! i) (unat sector)"
    and num: "0 < num"
  defines "sec \<equiv> sector - ce_sector (ca_entries c ! i)"
  defines "m \<equiv> (if ce_count (ca_entries c ! i) - sec > num then num else ce_count (ca_entries c ! i) - sec)"
  shows "unat sec = unat sector - unat (ce_sector (ca_entries c ! i))" "0 < unat m" "unat m \<le> unat num"
    "unat m \<le> unat (ce_count (ca_entries c ! i)) - unat sec" "unat m \<le> spp c" "unat sec \<le> spp c"
proof -
  let ?e = "ca_entries c ! i"
  have ok: "entry_ok c ?e" using inv_entry [OF inv i] by blast
  have e: "unat (ce_count ?e) \<le> spp c" "unat (ce_sector ?e) \<le> unat sector"
    "unat sector < unat (ce_sector ?e) + unat (ce_count ?e)"
    using ok cov by (auto simp: entry_ok_def covers_def)
  show s: "unat sec = unat sector - unat (ce_sector ?e)"
    unfolding sec_def using e(2) by (intro unat_diff) (simp add: word_le_nat_alt)
  have "unat (ce_count ?e - sec) = unat (ce_count ?e) - unat sec"
    using e s by (intro unat_diff) (simp add: word_le_nat_alt)
  then have m: "unat m = min (unat num) (unat (ce_count ?e) - unat sec)"
    by (auto simp: m_def word_less_nat_alt)
  show "0 < unat m" using m num e s by (simp add: word_less_nat_alt)
  show "unat m \<le> unat num" "unat m \<le> unat (ce_count ?e) - unat sec" "unat m \<le> spp c" "unat sec \<le> spp c"
    using m e s by linarith+
qed

lemma readSectors_ok:
  "cache_inv dsec c \<Longrightarrow> unat sector + unat num \<le> cend c \<Longrightarrow>
     \<exists>c'. cache_readSectors c sector num dest = Some (True, dest @ seg dsec c (unat sector) (unat num), c') \<and>
       cache_inv dsec c' \<and> lsec dsec c' = lsec dsec c \<and> same_shape c c'"
proof (induction "unat num" arbitrary: c sector num dest rule: less_induct)
  case less
  show ?case
  proof (cases "num = 0")
    case True
    then show ?thesis using less.prems by (subst cache_readSectors.simps) (simp add: seg_def)
  next
    case False
    then have n: "0 < num" by (simp add: word_neq_0_conv)
    then have "unat sector < cend c" using less.prems(2) by (simp add: word_less_nat_alt)
    from getPage_ok [OF less.prems(1) this] obtain i c1 where g: "cache_getPage c sector = (Some i, c1)"
      "cache_inv dsec c1" "lsec dsec c1 = lsec dsec c" "same_shape c c1" "i < length (ca_entries c1)"
      "covers (ca_entries c1 ! i) (unat sector)" by blast
    let ?e = "ca_entries c1 ! i"
    let ?sec = "sector - ce_sector ?e"
    let ?m = "if ce_count ?e - ?sec > num then num else ce_count ?e - ?sec"
    note pc = page_count [OF g(2,5,6) n]
    have sb: "sectors_bytes c1 ?m = unat ?m * ssz c1" "sectors_bytes c1 ?sec = unat ?sec * ssz c1"
      using page_bytes(2) [OF g(2)] pc(5,6) by (simp_all only: sectors_bytes_eq)
    have tail: "take (unat ?m * ssz c1) (drop (unat ?sec * ssz c1) (ce_cache ?e)) = seg dsec c (unat sector) (unat ?m)"
      using page_tail [OF g(2,5,6), of "unat ?m"] pc(1,4) by (simp only: seg_def g(3))
    have us: "unat (num - ?m) = unat num - unat ?m"
      using pc(3) by (intro unat_diff) (simp add: word_le_nat_alt)
    have ua: "unat (sector + ?m) = unat sector + unat ?m"
      using less.prems(2) pc(3) unat_u32_bound [of "ca_end c"] by (intro unat_add_small) simp
    have dec: "unat (num - ?m) < unat num" using us pc(2,3) by linarith
    have rng: "unat (sector + ?m) + unat (num - ?m) \<le> cend c1"
      using less.prems(2) us ua pc(3) g(4) by (simp add: same_shape_def)
    from less.hyps [OF dec g(2) rng, of "dest @ seg dsec c (unat sector) (unat ?m)"] obtain c' where r:
      "cache_readSectors c1 (sector + ?m) (num - ?m) (dest @ seg dsec c (unat sector) (unat ?m)) =
        Some (True, (dest @ seg dsec c (unat sector) (unat ?m)) @ seg dsec c1 (unat (sector + ?m)) (unat (num - ?m)), c')"
      "cache_inv dsec c'" "lsec dsec c' = lsec dsec c1" "same_shape c1 c'" by blast
    have "seg dsec c (unat sector) (unat ?m) @ seg dsec c1 (unat (sector + ?m)) (unat (num - ?m)) =
        seg dsec c (unat sector) (unat num)"
      unfolding us ua using seg_split [of dsec c "unat sector" "unat ?m" "unat num - unat ?m"] pc(3) g(3)
      by (simp add: seg_def)
    moreover have "cache_readSectors c sector num dest =
        cache_readSectors c1 (sector + ?m) (num - ?m) (dest @ seg dsec c (unat sector) (unat ?m))"
      using n unfolding tail [symmetric] sb [symmetric]
      by (subst cache_readSectors.simps) (simp only: g(1) if_True prod.case option.case Let_def)
    ultimately show ?thesis
      using r g(3) same_shape_trans [OF g(4) r(4)] by (intro exI [of _ c']) simp
  qed
qed

section \<open>Writing\<close>

definition overlaps :: "cache_entry \<Rightarrow> nat \<Rightarrow> nat \<Rightarrow> bool" where
  "overlaps e s n \<longleftrightarrow> in_use e \<and> unat (ce_sector e) < s + n \<and> s < unat (ce_sector e) + unat (ce_count e)"

lemma covers_overlaps: "covers e k \<Longrightarrow> s \<le> k \<Longrightarrow> k < s + n \<Longrightarrow> overlaps e s n"
  by (auto simp: covers_def overlaps_def)

lemma intersect_iff:
  assumes "entry_ok c e" "0 < unat n" "0 < spp c"
  shows "ce_sector e \<noteq> CACHE_FREE \<and>
      (if s > ce_sector e then s - ce_sector e < ce_count e else ce_sector e - s < n) \<longleftrightarrow> overlaps e (unat s) (unat n)"
proof (cases "in_use e")
  case True
  then have cnt: "0 < unat (ce_count e)" using assms(1,3) by (auto simp: entry_ok_def)
  show ?thesis
  proof (cases "s > ce_sector e")
    case gt: True
    then have "unat (s - ce_sector e) = unat s - unat (ce_sector e)" by (intro unat_diff) simp
    then show ?thesis using gt True assms(2) by (auto simp: in_use_def overlaps_def word_less_nat_alt)
  next
    case le: False
    then have "unat (ce_sector e - s) = unat (ce_sector e) - unat s" by (intro unat_diff) simp
    then show ?thesis using le True cnt assms(2) by (auto simp: in_use_def overlaps_def word_less_nat_alt)
  qed
qed (simp add: in_use_def overlaps_def)

lemma find_page_spec:
  assumes "\<forall>e \<in> set es. entry_ok c e" "0 < unat n" "0 < spp c"
  shows "(find_page es s n i low ent = ent \<and> (\<forall>e \<in> set es. overlaps e (unat s) (unat n) \<longrightarrow> low \<le> ce_sector e)) \<or>
    (\<exists>j < length es. find_page es s n i low ent = Some (i + j) \<and> overlaps (es ! j) (unat s) (unat n) \<and>
       ce_sector (es ! j) < low \<and>
       (\<forall>e \<in> set es. overlaps e (unat s) (unat n) \<longrightarrow> ce_sector (es ! j) \<le> ce_sector e))"
  using assms(1)
proof (induction es arbitrary: i low ent)
  case (Cons e es)
  have ok: "entry_ok c e" "\<forall>e \<in> set es. entry_ok c e" using Cons.prems by simp_all
  note int = intersect_iff [OF ok(1) assms(2,3), of s]
  show ?case
  proof (cases "overlaps e (unat s) (unat n) \<and> ce_sector e < low")
    case True
    then have f: "find_page (e # es) s n i low ent = find_page es s n (i + 1) (ce_sector e) (Some i)"
      using int by auto
    from Cons.IH [OF ok(2), of "i + 1" "ce_sector e" "Some i"] show ?thesis
    proof (elim disjE conjE exE)
      assume "find_page es s n (i + 1) (ce_sector e) (Some i) = Some i"
        "\<forall>e' \<in> set es. overlaps e' (unat s) (unat n) \<longrightarrow> ce_sector e \<le> ce_sector e'"
      then show ?thesis unfolding f using True by (intro disjI2 exI [of _ 0]) auto
    next
      fix j assume j: "j < length es" "find_page es s n (i + 1) (ce_sector e) (Some i) = Some (i + 1 + j)"
        "overlaps (es ! j) (unat s) (unat n)" "ce_sector (es ! j) < ce_sector e"
        "\<forall>e' \<in> set es. overlaps e' (unat s) (unat n) \<longrightarrow> ce_sector (es ! j) \<le> ce_sector e'"
      then show ?thesis unfolding f using True by (intro disjI2 exI [of _ "Suc j"]) auto
    qed
  next
    case False
    then have f: "find_page (e # es) s n i low ent = find_page es s n (i + 1) low ent"
      using int by auto
    from Cons.IH [OF ok(2), of "i + 1" low ent] show ?thesis
    proof (elim disjE conjE exE)
      assume "find_page es s n (i + 1) low ent = ent"
        "\<forall>e' \<in> set es. overlaps e' (unat s) (unat n) \<longrightarrow> low \<le> ce_sector e'"
      then show ?thesis unfolding f using False by (intro disjI1) auto
    next
      fix j assume j: "j < length es" "find_page es s n (i + 1) low ent = Some (i + 1 + j)"
        "overlaps (es ! j) (unat s) (unat n)" "ce_sector (es ! j) < low"
        "\<forall>e' \<in> set es. overlaps e' (unat s) (unat n) \<longrightarrow> ce_sector (es ! j) \<le> ce_sector e'"
      then show ?thesis unfolding f using False by (intro disjI2 exI [of _ "Suc j"]) auto
    qed
  qed
qed simp

lemma findPage_spec:
  assumes inv: "cache_inv dsec c" and n: "0 < unat n"
  shows "case cache_findPage c s n of
      None \<Rightarrow> \<forall>e \<in> set (ca_entries c). \<not> overlaps e (unat s) (unat n)
    | Some i \<Rightarrow> i < length (ca_entries c) \<and> overlaps (ca_entries c ! i) (unat s) (unat n) \<and>
        (\<forall>e \<in> set (ca_entries c). overlaps e (unat s) (unat n) \<longrightarrow>
           unat (ce_sector (ca_entries c ! i)) \<le> unat (ce_sector e))"
proof -
  have top: "\<not> (- 1 \<le> ce_sector e)" if "overlaps e a b" for e a b
  proof -
    have "CACHE_FREE = - 1" by (simp add: CACHE_FREE_def)
    then have "ce_sector e \<noteq> - 1" using that unfolding overlaps_def in_use_def by metis
    then show ?thesis by (metis word_order.extremum_uniqueI)
  qed
  show ?thesis
    using find_page_spec [OF inv_params(6) [OF inv] n inv_params(3) [OF inv], of s 0 "- 1" None] top
    unfolding cache_findPage_def by (auto simp: word_le_nat_alt)
qed

lemma write_through_ok:
  assumes inv: "cache_inv dsec c" and r: "unat s + unat n \<le> cend c" "unat n * ssz c < 2 ^ 32" "unat n * ssz c \<le> length src"
    and none: "\<forall>e \<in> set (ca_entries c). \<forall>k. unat s \<le> k \<and> k < unat s + unat n \<longrightarrow> \<not> covers e k"
  shows "cache_inv dsec (write_through c s n src)" "ca_entries (write_through c s n src) = ca_entries c"
    "same_shape c (write_through c s n src)"
    "lsec dsec (write_through c s n src) =
       (\<lambda>k. if unat s \<le> k \<and> k < unat s + unat n then sect (ssz c) (k - unat s) src else lsec dsec c k)"
proof -
  note pr = inv_params [OF inv]
  let ?data = "take (unat n * ssz c) src"
  have "length ?data = unat n * ssz c" using r(3) by simp
  from disc_okD(3) [OF pr(1) r(1) this, of "ca_dev c"] obtain dev' where
    w: "di_writeSectors (ca_disc c) (ca_dev c) s n ?data = (True, dev')"
      "dsec dev' = (\<lambda>k. if unat s \<le> k \<and> k < unat s + unat n then sect (ssz c) (k - unat s) ?data else dsec (ca_dev c) k)"
    by blast
  have wt: "write_through c s n src = c\<lparr>ca_dev := dev'\<rparr>"
    by (simp add: write_through_def sectors_bytes_eq [OF r(2)] w(1))
  have i: "0 < length (ca_entries c)" using pr(7) by simp
  let ?c' = "with_page c 0 (ca_entries c ! 0) dev' (ca_counter c)"
  have c': "write_through c s n src = ?c'" by (simp add: wt with_page_def)
  have dv: "dsec dev' k = dsec (ca_dev c) k" if "covers e k" "e \<in> set (ca_entries c)" for e k
    using none that by (auto simp: w(2))
  have inv': "cache_inv dsec ?c'"
  proof (rule with_page_inv [OF inv i])
    show "entry_ok c (ca_entries c ! 0)" using inv_entry [OF inv i] by blast
    show "in_use (ca_entries c ! 0) \<longrightarrow> (\<forall>j < length (ca_entries c). j \<noteq> 0 \<and> in_use (ca_entries c ! j) \<longrightarrow>
        ce_sector (ca_entries c ! j) \<noteq> ce_sector (ca_entries c ! 0))"
      using inv unfolding cache_inv_def by (metis gr0I)
    show "\<not> ce_dirty (ca_entries c ! 0) \<longrightarrow>
        (\<forall>k. covers (ca_entries c ! 0) k \<longrightarrow> entry_sect (ssz c) (ca_entries c ! 0) k = dsec dev' k)"
      using inv_entry [OF inv i] dv [OF _ nth_mem [OF i]] by (auto simp: clean_def)
  qed (use dv nth_mem in blast)
  then show "cache_inv dsec (write_through c s n src)" unfolding c' .
  show ent: "ca_entries (write_through c s n src) = ca_entries c" "same_shape c (write_through c s n src)"
    by (simp_all add: wt same_shape_def)
  show "lsec dsec (write_through c s n src) =
       (\<lambda>k. if unat s \<le> k \<and> k < unat s + unat n then sect (ssz c) (k - unat s) src else lsec dsec c k)"
  proof
    fix k
    have sz: "ca_sectorSize (write_through c s n src) = ca_sectorSize c" "ca_dev (write_through c s n src) = dev'"
      by (simp_all add: wt)
    show "lsec dsec (write_through c s n src) k =
        (if unat s \<le> k \<and> k < unat s + unat n then sect (ssz c) (k - unat s) src else lsec dsec c k)"
    proof (cases "unat s \<le> k \<and> k < unat s + unat n")
      case True
      then have u: "\<forall>e \<in> set (ca_entries (write_through c s n src)). \<not> covers e k" using none ent by simp
      have "k - unat s < unat n" using True by linarith
      from sect_take [OF this] show ?thesis using True by (simp add: lsec_uncovered [OF u] sz w(2))
    next
      case False
      then have "dsec dev' k = dsec (ca_dev c) k" by (auto simp: w(2))
      then have "lsec dsec (write_through c s n src) k = lsec dsec c k"
        unfolding lsec_def ent sz by (simp only:)
      then show ?thesis using False by (simp only: if_False)
    qed
  qed
qed

text \<open>A page whose bytes were changed: the array changes in the sectors the page covers.\<close>

lemma page_dirtied:
  assumes inv: "cache_inv dsec c" and i: "i < length (ca_entries c)" and use: "in_use (ca_entries c ! i)"
    and b: "length b = length (ce_cache (ca_entries c ! i))"
  defines "c' \<equiv> upd_entry c i (\<lambda>e. e\<lparr>ce_cache := b, ce_dirty := True\<rparr>)"
  shows "cache_inv dsec c'" "same_shape c c'"
    "lsec dsec c' = (\<lambda>k. if covers (ca_entries c ! i) k then sect (ssz c) (k - unat (ce_sector (ca_entries c ! i))) b
       else lsec dsec c k)"
proof -
  let ?e = "ca_entries c ! i"
  let ?e' = "?e\<lparr>ce_cache := b, ce_dirty := True\<rparr>"
  have c': "c' = with_page c i ?e' (ca_dev c) (ca_counter c)"
    by (simp add: c'_def upd_entry_def with_page_def)
  have ok: "entry_ok c ?e" using inv_entry [OF inv i] by blast
  have same: "covers ?e' = covers ?e" "in_use ?e' = in_use ?e"
    by (simp_all add: fun_eq_iff covers_def in_use_def)
  have inv': "cache_inv dsec (with_page c i ?e' (ca_dev c) (ca_counter c))"
  proof (rule with_page_inv [OF inv i])
    show "entry_ok c ?e'" using ok use same b by (simp add: entry_ok_def)
    show "in_use ?e' \<longrightarrow> (\<forall>j < length (ca_entries c). j \<noteq> i \<and> in_use (ca_entries c ! j) \<longrightarrow>
        ce_sector (ca_entries c ! j) \<noteq> ce_sector ?e')"
      using inv i same(2) unfolding cache_inv_def by (auto, metis linorder_neqE_nat)
  qed simp_all
  then show "cache_inv dsec c'" unfolding c' .
  show "same_shape c c'" unfolding c' by simp
  show "lsec dsec c' = (\<lambda>k. if covers ?e k then sect (ssz c) (k - unat (ce_sector ?e)) b else lsec dsec c k)"
  proof
    fix k
    show "lsec dsec c' k = (if covers ?e k then sect (ssz c) (k - unat (ce_sector ?e)) b else lsec dsec c k)"
    proof (cases "covers ?e k")
      case True
      then show ?thesis
        using with_page_lsec(1) [OF inv inv' i] same by (simp add: c' entry_sect_def)
    next
      case False
      show ?thesis
      proof (cases "\<exists>j < length (ca_entries c). j \<noteq> i \<and> covers (ca_entries c ! j) k")
        case True
        then show ?thesis using with_page_lsec(2) [OF inv inv' i] False by (auto simp: c')
      next
        case n: False
        then have "\<forall>e \<in> set (ca_entries c). \<not> covers e k" using False by (metis in_set_conv_nth)
        then have "lsec dsec c k = dsec (ca_dev c) k" by (rule lsec_uncovered)
        moreover have "lsec dsec c' k = dsec (ca_dev c) k"
          unfolding c' using n False same by (intro with_page_lsec(3) [OF inv inv' i]) auto
        ultimately show ?thesis using False by (simp only: if_False)
      qed
    qed
  qed
qed

lemma write_into_page_ok:
  assumes inv: "cache_inv dsec c" and i: "i < length (ca_entries c)" and cov: "covers (ca_entries c ! i) (unat s)"
    and num: "0 < num" and src: "unat num * ssz c \<le> length src"
  shows "\<exists>m c'. write_into_page c i s num src = (m, c') \<and> 0 < unat m \<and> unat m \<le> unat num \<and>
    cache_inv dsec c' \<and> same_shape c c' \<and>
    lsec dsec c' = (\<lambda>k. if unat s \<le> k \<and> k < unat s + unat m then sect (ssz c) (k - unat s) src else lsec dsec c k)"
proof -
  let ?e = "ca_entries c ! i"
  let ?sec = "s - ce_sector ?e"
  let ?m = "if ce_count ?e - ?sec > num then num else ce_count ?e - ?sec"
  note pc = page_count [OF inv i cov num]
  have ok: "entry_ok c ?e" using inv_entry [OF inv i] by blast
  have e: "length (ce_cache ?e) = spp c * ssz c" "unat (ce_count ?e) \<le> spp c" "unat (ce_sector ?e) \<le> unat s"
    using ok cov by (auto simp: entry_ok_def covers_def)
  have sb: "sectors_bytes c ?m = unat ?m * ssz c" "sectors_bytes c ?sec = unat ?sec * ssz c"
    using page_bytes(2) [OF inv] pc(5,6) by (simp_all only: sectors_bytes_eq)
  let ?data = "take (unat ?m * ssz c) src"
  have "unat ?m * ssz c \<le> length src" using src mult_le_mono1 [OF pc(3), of "ssz c"] by linarith
  then have ld: "length ?data = unat ?m * ssz c" by simp
  let ?b = "put_bytes (ce_cache ?e) (unat ?sec * ssz c) ?data"
  let ?c' = "upd_entry c i (\<lambda>e. e\<lparr>ce_cache := ?b, ce_dirty := True\<rparr>)"
  have w: "write_into_page c i s num src = (?m, ?c')"
    by (simp only: write_into_page_def Let_def sb) (simp add: upd_entry_def)
  have secm: "unat ?sec + unat ?m \<le> unat (ce_count ?e)" using pc(2,4) by linarith
  then have "unat ?sec + unat ?m \<le> spp c" using e(2) by linarith
  then have fit: "(unat ?sec + unat ?m) * ssz c \<le> length (ce_cache ?e)" unfolding e(1) by (rule mult_le_mono1)
  have "length ?b = length (ce_cache ?e)"
    using fit ld by (intro length_put_bytes) (simp add: add_mult_distrib)
  note pd = page_dirtied [OF inv i _ this]
  have use: "in_use ?e" using cov by (simp add: covers_def)
  have "lsec dsec ?c' k =
      (if unat s \<le> k \<and> k < unat s + unat ?m then sect (ssz c) (k - unat s) src else lsec dsec c k)" for k
  proof (cases "covers ?e k")
    case True
    then have kk: "unat (ce_sector ?e) \<le> k" "k - unat (ce_sector ?e) < spp c"
      using e(2) by (auto simp: covers_def)
    have "(k - unat (ce_sector ?e) + 1) * ssz c \<le> length (ce_cache ?e)"
      unfolding e(1) using kk(2) by (intro mult_le_mono1) simp
    note sp = sect_put_bytes [OF fit ld this]
    have "unat ?sec \<le> k - unat (ce_sector ?e) \<and> k - unat (ce_sector ?e) < unat ?sec + unat ?m \<longleftrightarrow>
        unat s \<le> k \<and> k < unat s + unat ?m"
      using kk(1) e(3) pc(1) by linarith
    moreover have "k - unat (ce_sector ?e) - unat ?sec = k - unat s" using kk(1) e(3) pc(1) by linarith
    moreover have "lsec dsec c k = sect (ssz c) (k - unat (ce_sector ?e)) (ce_cache ?e)"
      using lsec_covered [OF inv i True] by (simp add: entry_sect_def)
    ultimately show ?thesis using sp True pd(3) use by (auto simp: sect_take)
  next
    case False
    then have "\<not> (unat s \<le> k \<and> k < unat s + unat ?m)"
      using cov secm pc(1) e(3) by (auto simp: covers_def)
    then show ?thesis using False unfolding pd(3) [OF use] by (simp only: if_False)
  qed
  then show ?thesis
    using w pd(1,2) use pc(2,3) by (intro exI conjI) auto
qed

text \<open>One round of the write loop: the sectors before the page that was found, and the page.\<close>

lemma gap_written:
  assumes inv: "cache_inv dsec c" and r: "unat s + unat n \<le> cend c" "unat n * ssz c < 2 ^ 32" "unat n * ssz c \<le> length src"
    and f: "cache_findPage c s n = Some i" and n: "0 < unat n"
  defines "gap \<equiv> (if ce_sector (ca_entries c ! i) > s then ce_sector (ca_entries c ! i) - s else 0)"
  defines "c1 \<equiv> (if gap > 0 then write_through c s gap src else c)"
  shows "cache_inv dsec c1" "same_shape c c1" "ca_entries c1 = ca_entries c" "unat gap < unat n"
    "i < length (ca_entries c)" "covers (ca_entries c ! i) (unat (s + gap))" "unat (s + gap) = unat s + unat gap"
    "lsec dsec c1 = (\<lambda>k. if unat s \<le> k \<and> k < unat s + unat gap then sect (ssz c) (k - unat s) src else lsec dsec c k)"
proof -
  let ?e = "ca_entries c ! i"
  have fp: "i < length (ca_entries c)" "overlaps ?e (unat s) (unat n)"
    "\<forall>e \<in> set (ca_entries c). overlaps e (unat s) (unat n) \<longrightarrow> unat (ce_sector ?e) \<le> unat (ce_sector e)"
    using findPage_spec [OF inv n, of s] f by auto
  show "i < length (ca_entries c)" by (rule fp(1))
  have ov: "in_use ?e" "unat (ce_sector ?e) < unat s + unat n" "unat s < unat (ce_sector ?e) + unat (ce_count ?e)"
    using fp(2) by (simp_all add: overlaps_def)
  have g: "unat gap = unat (ce_sector ?e) - unat s"
  proof (cases "ce_sector ?e > s")
    case True
    then have "unat (ce_sector ?e - s) = unat (ce_sector ?e) - unat s"
      by (intro unat_diff) (simp add: word_le_nat_alt word_less_nat_alt)
    then show ?thesis using True by (simp add: gap_def)
  next
    case False
    then show ?thesis by (simp add: gap_def word_less_nat_alt)
  qed
  show gn: "unat gap < unat n" using g ov(2) n by linarith
  show sg: "unat (s + gap) = unat s + unat gap"
    using r(1) gn unat_u32_bound [of "ca_end c"] by (intro unat_add_small) simp
  have "0 < unat (ce_count ?e)"
    using inv_entry [OF inv fp(1)] ov(1) inv_params(3) [OF inv] by (auto simp: entry_ok_def)
  then have "unat (ce_sector ?e) \<le> unat s + unat gap" "unat s + unat gap < unat (ce_sector ?e) + unat (ce_count ?e)"
    using ov(3) g by linarith+
  then show "covers ?e (unat (s + gap))" using ov(1) by (simp add: sg covers_def)
  have gr: "unat s + unat gap \<le> cend c" "unat gap * ssz c < 2 ^ 32" "unat gap * ssz c \<le> length src"
    using r gn mult_le_mono1 [OF less_imp_le [OF gn], of "ssz c"] by linarith+
  have none: "\<forall>e \<in> set (ca_entries c). \<forall>k. unat s \<le> k \<and> k < unat s + unat gap \<longrightarrow> \<not> covers e k"
  proof (intro ballI allI impI notI)
    fix e k assume e: "e \<in> set (ca_entries c)" and k: "unat s \<le> k \<and> k < unat s + unat gap" and cv: "covers e k"
    have "overlaps e (unat s) (unat n)" using k gn by (intro covers_overlaps [OF cv]) linarith+
    then have "unat (ce_sector ?e) \<le> unat (ce_sector e)" using fp(3) e by blast
    moreover have "unat (ce_sector e) \<le> k" using cv by (simp add: covers_def)
    ultimately show False using k g by linarith
  qed
  note wt = write_through_ok [OF inv gr none]
  show "cache_inv dsec c1" "same_shape c c1" "ca_entries c1 = ca_entries c"
    using inv wt(1-3) by (simp_all add: c1_def)
  show "lsec dsec c1 = (\<lambda>k. if unat s \<le> k \<and> k < unat s + unat gap then sect (ssz c) (k - unat s) src else lsec dsec c k)"
  proof (cases "gap > 0")
    case True
    then show ?thesis using wt(4) by (simp add: c1_def)
  next
    case False
    then have "gap = 0" by (simp add: word_neq_0_conv [symmetric])
    then show ?thesis by (auto simp: c1_def fun_eq_iff)
  qed
qed

lemma writeSectors_ok:
  "cache_inv dsec c \<Longrightarrow> unat s + unat n \<le> cend c \<Longrightarrow> unat n * ssz c < 2 ^ 32 \<Longrightarrow> unat n * ssz c \<le> length src \<Longrightarrow>
     \<exists>c'. cache_writeSectors c s n src = Some (True, c') \<and> cache_inv dsec c' \<and> same_shape c c' \<and>
       lsec dsec c' = (\<lambda>k. if unat s \<le> k \<and> k < unat s + unat n then sect (ssz c) (k - unat s) src else lsec dsec c k)"
proof (induction "unat n" arbitrary: c s n src rule: less_induct)
  case less
  note prem = less.prems
  show ?case
  proof (cases "n = 0")
    case True
    then show ?thesis using prem by (subst cache_writeSectors.simps) (auto simp: fun_eq_iff)
  next
    case False
    then have n: "0 < n" "0 < unat n" by (simp_all add: word_neq_0_conv word_less_nat_alt)
    show ?thesis
    proof (cases "cache_findPage c s n")
      case None
      then have "\<forall>e \<in> set (ca_entries c). \<not> overlaps e (unat s) (unat n)"
        using findPage_spec [OF prem(1) n(2), of s] by simp
      then have none: "\<forall>e \<in> set (ca_entries c). \<forall>k. unat s \<le> k \<and> k < unat s + unat n \<longrightarrow> \<not> covers e k"
        using covers_overlaps by blast
      note wt = write_through_ok [OF prem none]
      show ?thesis
        using n(1) None wt by (subst cache_writeSectors.simps) simp
    next
      case (Some i)
      define gap where "gap = (if ce_sector (ca_entries c ! i) > s then ce_sector (ca_entries c ! i) - s else 0)"
      define c1 where "c1 = (if gap > 0 then write_through c s gap src else c)"
      note gw = gap_written [OF prem Some n(2), folded gap_def, folded c1_def]
      have sz: "ssz c1 = ssz c" "cend c1 = cend c" using gw(2) by (simp_all add: same_shape_def)
      have un: "unat (n - gap) = unat n - unat gap" using gw(4) by (intro unat_diff) (simp add: word_le_nat_alt)
      then have n': "0 < n - gap" using gw(4) by (simp add: word_less_nat_alt)
      have gsz: "unat gap * ssz c + (unat n - unat gap) * ssz c = unat n * ssz c"
        using gw(4) by (simp add: add_mult_distrib [symmetric])
      have sbg: "sectors_bytes c1 gap = unat gap * ssz c"
        using sectors_bytes_eq [of gap c1] gsz prem(3) sz by simp
      define src1 where "src1 = drop (unat gap * ssz c) src"
      have l1: "unat (n - gap) * ssz c1 \<le> length src1"
        using gsz prem(4) un sz by (simp add: src1_def)
      from write_into_page_ok [OF gw(1) _ _ n' l1, of i "s + gap"] gw(3,5,6) obtain m c2 where
        w: "write_into_page c1 i (s + gap) (n - gap) src1 = (m, c2)" "0 < unat m" "unat m \<le> unat (n - gap)"
          "cache_inv dsec c2" "same_shape c1 c2"
          "lsec dsec c2 = (\<lambda>k. if unat (s + gap) \<le> k \<and> k < unat (s + gap) + unat m
             then sect (ssz c1) (k - unat (s + gap)) src1 else lsec dsec c1 k)" by auto
      have sz2: "ssz c2 = ssz c" "cend c2 = cend c" using w(5) sz by (simp_all add: same_shape_def)
      have um: "unat (n - gap - m) = unat n - unat gap - unat m"
        using w(3) un by (subst unat_diff) (simp_all add: word_le_nat_alt)
      have us: "unat (s + gap + m) = unat s + unat gap + unat m"
        using prem(2) gw(4,7) w(3) un unat_u32_bound [of "ca_end c"] by (subst unat_add_small) simp_all
      have gm: "unat gap + unat m \<le> unat n" using w(3) un gw(4) by linarith
      have msz: "unat m * ssz c + (unat n - unat gap - unat m) * ssz c = (unat n - unat gap) * ssz c"
        using w(3) unfolding un add_mult_distrib [symmetric] by (metis le_add_diff_inverse)
      have sbm: "sectors_bytes c2 m = unat m * ssz c"
        using sectors_bytes_eq [of m c2] msz gsz prem(3) sz2 by simp
      define src2 where "src2 = drop (unat m * ssz c) src1"
      have dec: "unat (n - gap - m) < unat n" using um w(2) n(2) by linarith
      have h: "unat (s + gap + m) + unat (n - gap - m) \<le> cend c2" "unat (n - gap - m) * ssz c2 < 2 ^ 32"
        "unat (n - gap - m) * ssz c2 \<le> length src2"
        using prem us um gm msz gsz sz2 by (simp_all add: src2_def src1_def)
      from less.hyps [OF dec w(4) h] obtain c' where r:
        "cache_writeSectors c2 (s + gap + m) (n - gap - m) src2 = Some (True, c')" "cache_inv dsec c'" "same_shape c2 c'"
        "lsec dsec c' = (\<lambda>k. if unat (s + gap + m) \<le> k \<and> k < unat (s + gap + m) + unat (n - gap - m)
           then sect (ssz c2) (k - unat (s + gap + m)) src2 else lsec dsec c2 k)" by blast
      have "cache_writeSectors c s n src = cache_writeSectors c2 (s + gap + m) (n - gap - m) src2"
        using n(1) unfolding src2_def src1_def sbm [symmetric] sbg [symmetric]
        by (subst cache_writeSectors.simps)
          (simp only: Some if_True option.case Let_def gap_def [symmetric] c1_def [symmetric]
            w(1) [unfolded src1_def sbg [symmetric]] prod.case)
      moreover have "lsec dsec c' k = (if unat s \<le> k \<and> k < unat s + unat n then sect (ssz c) (k - unat s) src else lsec dsec c k)" for k
      proof -
        have s1: "sect (ssz c) (k - unat (s + gap)) src1 = sect (ssz c) (k - unat s) src" if "unat (s + gap) \<le> k"
          using that gw(7) by (simp add: src1_def sect_drop)
        have s2: "sect (ssz c) (k - unat (s + gap + m)) src2 = sect (ssz c) (k - unat s) src" if "unat (s + gap + m) \<le> k"
          using that us unfolding src1_def src2_def sect_drop by simp
        consider "k < unat s" | "unat s \<le> k" "k < unat s + unat gap" | "unat (s + gap) \<le> k" "k < unat (s + gap) + unat m"
          | "unat (s + gap + m) \<le> k" "k < unat s + unat n" | "unat s + unat n \<le> k"
          using gw(7) us by linarith
        then show ?thesis
          using s1 s2 gw(7) us um gm unfolding r(4) w(6) gw(8) sz sz2 by cases simp_all
      qed
      ultimately show ?thesis
        using r w(4) same_shape_trans [OF gw(2) same_shape_trans [OF w(5) r(3)]] by (intro exI [of _ c']) (simp add: fun_eq_iff)
    qed
  qed
qed


section \<open>Parts of a sector\<close>

lemma sect_put_part:
  assumes "(k + 1) * ss \<le> length buf" "(a + 1) * ss \<le> length buf" "off + length data \<le> ss"
  shows "sect ss k (put_bytes buf (a * ss + off) data) =
     (if k = a then put_bytes (sect ss a buf) off data else sect ss k buf)"
proof -
  let ?d = "put_bytes (sect ss a buf) off data"
  have l: "length (sect ss a buf) = ss" using assms(2) by (rule length_sect)
  then have ld: "length ?d = 1 * ss" using assms(3) by simp
  have le: "a * ss + off + length data \<le> length buf" using assms(2,3) by simp
  have "put_bytes buf (a * ss + off) data = put_bytes buf (a * ss) ?d"
  proof (rule nth_equalityI)
    have le': "a * ss + length ?d \<le> length buf" using assms(2) ld by simp
    show "length (put_bytes buf (a * ss + off) data) = length (put_bytes buf (a * ss) ?d)"
      using le le' by simp
    fix i assume "i < length (put_bytes buf (a * ss + off) data)"
    have "?d ! (i - a * ss) = (if off \<le> i - a * ss \<and> i - a * ss < off + length data then data ! (i - a * ss - off)
        else sect ss a buf ! (i - a * ss))"
      using assms(3) l by (intro nth_put_bytes) simp
    moreover have "sect ss a buf ! (i - a * ss) = buf ! i" if "a * ss \<le> i" "i < a * ss + ss"
      using that assms(2) by (subst nth_sect) simp_all
    ultimately show "put_bytes buf (a * ss + off) data ! i = put_bytes buf (a * ss) ?d ! i"
      using assms(3) ld by (auto simp: nth_put_bytes [OF le] nth_put_bytes [OF le'])
  qed
  moreover have "sect ss 0 ?d = ?d" using ld by (simp add: sect_def)
  ultimately show ?thesis
    using sect_put_bytes [of a 1 ss buf ?d k] assms(1,2) ld by auto
qed

text \<open>The index of a sector within the page that \<open>cache_getPage\<close> gives, in bytes.\<close>

lemma part_offset:
  assumes inv: "cache_inv dsec c" and i: "i < length (ca_entries c)" and cov: "covers (ca_entries c ! i) (unat sector)"
    and o: "unat offs < ssz c"
  defines "a \<equiv> unat sector - unat (ce_sector (ca_entries c ! i))"
  shows "unat ((sector - ce_sector (ca_entries c ! i)) * ca_sectorSize c + offs) = a * ssz c + unat offs"
    "sectors_bytes c (sector - ce_sector (ca_entries c ! i)) = a * ssz c"
    "(a + 1) * ssz c \<le> length (ce_cache (ca_entries c ! i))"
    "sect (ssz c) a (ce_cache (ca_entries c ! i)) = lsec dsec c (unat sector)"
proof -
  let ?e = "ca_entries c ! i"
  have ok: "entry_ok c ?e" using inv_entry [OF inv i] by blast
  have e: "length (ce_cache ?e) = spp c * ssz c" "unat (ce_count ?e) \<le> spp c" "unat (ce_sector ?e) \<le> unat sector"
    "unat sector < unat (ce_sector ?e) + unat (ce_count ?e)"
    using ok cov by (auto simp: entry_ok_def covers_def)
  have d: "unat (sector - ce_sector ?e) = a"
    unfolding a_def using e(3) by (intro unat_diff) (simp add: word_le_nat_alt)
  have "a + 1 \<le> spp c" using e(2-4) by (simp add: a_def)
  then have le: "(a + 1) * ssz c \<le> spp c * ssz c" by (rule mult_le_mono1)
  then show "(a + 1) * ssz c \<le> length (ce_cache ?e)" by (simp add: e(1))
  have lt: "spp c * ssz c < 2 ^ 32" by (rule inv_params(5) [OF inv])
  then have m: "unat ((sector - ce_sector ?e) * ca_sectorSize c) = a * ssz c"
    using le by (subst unat_times_small) (simp_all add: d)
  then show "unat ((sector - ce_sector ?e) * ca_sectorSize c + offs) = a * ssz c + unat offs"
    using le lt o by (subst unat_add_small) simp_all
  show "sectors_bytes c (sector - ce_sector ?e) = a * ssz c" by (simp add: sectors_bytes_def m)
  show "sect (ssz c) a (ce_cache ?e) = lsec dsec c (unat sector)"
    by (simp add: lsec_covered [OF inv i cov] entry_sect_def a_def)
qed

lemma offs_bound:
  assumes "unat offs + unat sz \<le> ssz c"
  shows "\<not> offs + sz > ca_sectorSize c"
proof -
  have "unat (offs + sz) = unat offs + unat sz"
    using assms unat_u32_bound [of "ca_sectorSize c"] by (intro unat_add_small) simp
  then show ?thesis using assms by (simp add: word_less_nat_alt)
qed

lemma readPartial_ok:
  assumes inv: "cache_inv dsec c" and s: "unat sector < cend c" and o: "unat offs + unat sz \<le> ssz c" "0 < unat sz"
  shows "\<exists>c'. cache_readPartialSector c sector offs sz = ((True, take (unat sz) (drop (unat offs) (lsec dsec c (unat sector)))), c') \<and>
    cache_inv dsec c' \<and> lsec dsec c' = lsec dsec c \<and> same_shape c c'"
proof -
  from getPage_ok [OF inv s] obtain i c1 where g: "cache_getPage c sector = (Some i, c1)"
    "cache_inv dsec c1" "lsec dsec c1 = lsec dsec c" "same_shape c c1" "i < length (ca_entries c1)"
    "covers (ca_entries c1 ! i) (unat sector)" by blast
  have sz: "ssz c1 = ssz c" "ca_sectorSize c1 = ca_sectorSize c" using g(4) by (simp_all add: same_shape_def)
  have "unat offs < ssz c1" using o sz by simp
  note po = part_offset [OF g(2,5,6) this]
  let ?a = "unat sector - unat (ce_sector (ca_entries c1 ! i))" and ?b = "ce_cache (ca_entries c1 ! i)"
  have "take (unat sz) (drop (?a * ssz c + unat offs) ?b) = take (unat sz) (drop (unat offs) (sect (ssz c) ?a ?b))"
    using o(1) by (simp add: sect_def drop_take min_def add.commute)
  also have "\<dots> = take (unat sz) (drop (unat offs) (lsec dsec c (unat sector)))"
    using po(4) sz(1) g(3) by simp
  finally show ?thesis
    using offs_bound [OF o(1)] g po(1) sz by (intro exI [of _ c1]) (simp add: cache_readPartialSector_def Let_def)
qed

text \<open>A page that holds the sector gets other bytes of it.\<close>

lemma part_written:
  assumes inv: "cache_inv dsec c" and i: "i < length (ca_entries c)" and cov: "covers (ca_entries c ! i) (unat sector)"
    and b: "length b = length (ce_cache (ca_entries c ! i))"
    and sb: "\<And>k. (k + 1) * ssz c \<le> length b \<Longrightarrow> sect (ssz c) k b =
      (if k = unat sector - unat (ce_sector (ca_entries c ! i)) then new else sect (ssz c) k (ce_cache (ca_entries c ! i)))"
  shows "lsec dsec (upd_entry c i (\<lambda>e. e\<lparr>ce_cache := b, ce_dirty := True\<rparr>)) = (lsec dsec c)(unat sector := new)"
proof -
  let ?e = "ca_entries c ! i"
  have use: "in_use ?e" using cov by (simp add: covers_def)
  have ok: "entry_ok c ?e" using inv_entry [OF inv i] by blast
  have e: "length (ce_cache ?e) = spp c * ssz c" "unat (ce_count ?e) \<le> spp c" "unat (ce_sector ?e) \<le> unat sector"
    using ok cov by (auto simp: entry_ok_def covers_def)
  have "(if covers ?e k then sect (ssz c) (k - unat (ce_sector ?e)) b else lsec dsec c k) =
      ((lsec dsec c)(unat sector := new)) k" for k
  proof (cases "covers ?e k")
    case True
    then have k: "unat (ce_sector ?e) \<le> k" "k - unat (ce_sector ?e) < spp c"
      using e(2) by (auto simp: covers_def)
    have le: "(k - unat (ce_sector ?e) + 1) * ssz c \<le> length b"
      unfolding b e(1) using k(2) by (intro mult_le_mono1) simp
    have "k - unat (ce_sector ?e) = unat sector - unat (ce_sector ?e) \<longleftrightarrow> k = unat sector"
      using k(1) e(3) by linarith
    then show ?thesis using True sb [OF le] lsec_covered [OF inv i True] by (simp add: entry_sect_def)
  next
    case False
    then have "k \<noteq> unat sector" using cov by blast
    then show ?thesis using False by simp
  qed
  then show ?thesis unfolding page_dirtied(3) [OF inv i use b] by (simp add: fun_eq_iff)
qed

lemma writePartial_ok:
  assumes inv: "cache_inv dsec c" and s: "unat sector < cend c" and o: "unat offs + unat sz \<le> ssz c" "0 < unat sz"
    and buf: "unat sz \<le> length buf"
  shows "\<exists>c'. cache_writePartialSector c buf sector offs sz = (True, c') \<and> cache_inv dsec c' \<and> same_shape c c' \<and>
    lsec dsec c' = (lsec dsec c)(unat sector := put_bytes (lsec dsec c (unat sector)) (unat offs) (take (unat sz) buf))"
proof -
  from getPage_ok [OF inv s] obtain i c1 where g: "cache_getPage c sector = (Some i, c1)"
    "cache_inv dsec c1" "lsec dsec c1 = lsec dsec c" "same_shape c c1" "i < length (ca_entries c1)"
    "covers (ca_entries c1 ! i) (unat sector)" by blast
  have sz: "ssz c1 = ssz c" "ca_sectorSize c1 = ca_sectorSize c" using g(4) by (simp_all add: same_shape_def)
  have "unat offs < ssz c1" using o sz by simp
  note po = part_offset [OF g(2,5,6) this]
  let ?a = "unat sector - unat (ce_sector (ca_entries c1 ! i))" and ?b = "ce_cache (ca_entries c1 ! i)"
  let ?n = "put_bytes ?b (?a * ssz c1 + unat offs) (take (unat sz) buf)"
  let ?c' = "upd_entry c1 i (\<lambda>e. e\<lparr>ce_cache := ?n, ce_dirty := True\<rparr>)"
  have fit: "unat offs + length (take (unat sz) buf) \<le> ssz c1" using o(1) buf sz by simp
  have l: "length ?n = length ?b" using fit po(3) by (intro length_put_bytes) simp
  have use: "in_use (ca_entries c1 ! i)" using g(6) by (simp add: covers_def)
  have "lsec dsec ?c' = (lsec dsec c1)(unat sector := put_bytes (sect (ssz c1) ?a ?b) (unat offs) (take (unat sz) buf))"
    using l sect_put_part [OF _ po(3) fit] by (intro part_written [OF g(2,5,6) l]) simp
  moreover have "cache_writePartialSector c buf sector offs sz = (True, ?c')"
    using offs_bound [OF o(1)] g(1) po(1) sz
    by (simp add: cache_writePartialSector_def upd_entry_def Let_def)
  ultimately show ?thesis
    using page_dirtied(1,2) [OF g(2,5) use l] same_shape_trans [OF g(4)] po(4) g(3)
    by (intro exI [of _ ?c']) simp
qed


lemma eraseWrite_ok:
  assumes inv: "cache_inv dsec c" and s: "unat sector < cend c" and o: "unat offs + unat sz \<le> ssz c" "0 < unat sz"
    and buf: "unat sz \<le> length buf"
  shows "\<exists>c'. cache_eraseWritePartialSector c buf sector offs sz = (True, c') \<and> cache_inv dsec c' \<and> same_shape c c' \<and>
    lsec dsec c' = (lsec dsec c)(unat sector := put_bytes (replicate (ssz c) 0) (unat offs) (take (unat sz) buf))"
proof -
  from getPage_ok [OF inv s] obtain i c1 where g: "cache_getPage c sector = (Some i, c1)"
    "cache_inv dsec c1" "lsec dsec c1 = lsec dsec c" "same_shape c c1" "i < length (ca_entries c1)"
    "covers (ca_entries c1 ! i) (unat sector)" by blast
  have sz: "ssz c1 = ssz c" "ca_sectorSize c1 = ca_sectorSize c" using g(4) by (simp_all add: same_shape_def)
  have "unat offs < ssz c1" using o sz by simp
  note po = part_offset [OF g(2,5,6) this]
  let ?a = "unat sector - unat (ce_sector (ca_entries c1 ! i))" and ?b = "ce_cache (ca_entries c1 ! i)"
  let ?z = "replicate (ssz c1) 0 :: u8 list"
  let ?bz = "put_bytes ?b (?a * ssz c1) ?z"
  let ?n = "put_bytes ?bz (?a * ssz c1 + unat offs) (take (unat sz) buf)"
  let ?c' = "upd_entry c1 i (\<lambda>e. e\<lparr>ce_cache := ?n, ce_dirty := True\<rparr>)"
  have fit: "unat offs + length (take (unat sz) buf) \<le> ssz c1" using o(1) buf sz by simp
  have l0: "length ?bz = length ?b" using po(3) by (subst length_put_bytes) simp_all
  have l: "length ?n = length ?b" using fit po(3) l0 by (subst length_put_bytes) simp_all
  have use: "in_use (ca_entries c1 ! i)" using g(6) by (simp add: covers_def)
  have z: "sect (ssz c1) k ?bz = (if k = ?a then ?z else sect (ssz c1) k ?b)" if "(k + 1) * ssz c1 \<le> length ?b" for k
  proof -
    have "sect (ssz c1) 0 ?z = ?z" by (simp add: sect_def)
    then show ?thesis using sect_put_bytes [of ?a 1 "ssz c1" ?b ?z k] that po(3) by (cases "k = ?a") auto
  qed
  have "lsec dsec ?c' = (lsec dsec c1)(unat sector := put_bytes ?z (unat offs) (take (unat sz) buf))"
  proof (rule part_written [OF g(2,5,6) l])
    fix k assume "(k + 1) * ssz c1 \<le> length ?n"
    then have k: "(k + 1) * ssz c1 \<le> length ?b" using l by simp
    show "sect (ssz c1) k ?n = (if k = ?a then put_bytes ?z (unat offs) (take (unat sz) buf) else sect (ssz c1) k ?b)"
      using sect_put_part [of k "ssz c1" ?bz ?a, OF _ _ fit] k po(3) z [OF k] z [OF po(3)] l0 by simp
  qed
  moreover have "cache_eraseWritePartialSector c buf sector offs sz = (True, ?c')"
    using offs_bound [OF o(1)] g(1) po(1,2) sz
    by (simp add: cache_eraseWritePartialSector_def upd_entry_def Let_def)
  ultimately show ?thesis
    using page_dirtied(1,2) [OF g(2,5) use l] same_shape_trans [OF g(4)] sz g(3)
    by (intro exI [of _ ?c']) simp
qed

section \<open>Flushing\<close>

lemma flush_loop_ok:
  "cache_inv dsec c \<Longrightarrow> i + left = length (ca_entries c) \<Longrightarrow> \<forall>j < i. \<not> ce_dirty (ca_entries c ! j) \<Longrightarrow>
     \<exists>c'. flush_loop c i left = (True, c') \<and> cache_inv dsec c' \<and> lsec dsec c' = lsec dsec c \<and> same_shape c c' \<and>
       (\<forall>e \<in> set (ca_entries c'). \<not> ce_dirty e)"
proof (induction left arbitrary: c i)
  case 0
  then show ?case by (auto simp: in_set_conv_nth)
next
  case (Suc left)
  have i: "i < length (ca_entries c)" using Suc.prems(2) by simp
  let ?e = "(ca_entries c ! i)\<lparr>ce_dirty := False\<rparr>"
  have "\<exists>dev'. (if ce_dirty (ca_entries c ! i) then write_page c i else (True, c)) = (True, c\<lparr>ca_dev := dev'\<rparr>) \<and>
      cache_inv dsec (with_page c i ?e dev' (ca_counter c)) \<and> lsec dsec (with_page c i ?e dev' (ca_counter c)) = lsec dsec c"
  proof (cases "ce_dirty (ca_entries c ! i)")
    case True
    then show ?thesis using write_page_ok [OF Suc.prems(1) i] by simp
  next
    case False
    then have "?e = ca_entries c ! i" by simp
    then have "with_page c i ?e (ca_dev c) (ca_counter c) = c" by (simp only: with_page_def list_update_id) simp
    then show ?thesis using False Suc.prems(1) by (intro exI [of _ "ca_dev c"]) simp
  qed
  then obtain dev' where w: "(if ce_dirty (ca_entries c ! i) then write_page c i else (True, c)) = (True, c\<lparr>ca_dev := dev'\<rparr>)"
    "cache_inv dsec (with_page c i ?e dev' (ca_counter c))" "lsec dsec (with_page c i ?e dev' (ca_counter c)) = lsec dsec c"
    by blast
  let ?c1 = "with_page c i ?e dev' (ca_counter c)"
  have "\<forall>j < i + 1. \<not> ce_dirty (ca_entries ?c1 ! j)"
    using Suc.prems(3) i by (auto simp: nth_list_update less_Suc_eq)
  then obtain c' where "flush_loop ?c1 (i + 1) left = (True, c')" "cache_inv dsec c'" "lsec dsec c' = lsec dsec ?c1"
    "same_shape ?c1 c'" "\<forall>e \<in> set (ca_entries c'). \<not> ce_dirty e"
    using Suc.IH [of ?c1 "i + 1"] w(2) Suc.prems(2) by auto
  then show ?case
    using w(1,3) same_shape_trans [OF with_page_simps(8)]
    by (intro exI [of _ c']) (simp add: upd_entry_with_page)
qed

lemma flush_ok:
  assumes "cache_inv dsec c"
  shows "\<exists>c'. cache_flush (Some c) = (True, Some c') \<and> cache_inv dsec c' \<and> lsec dsec c' = lsec dsec c \<and> same_shape c c' \<and>
    (\<forall>e \<in> set (ca_entries c'). \<not> ce_dirty e)"
  using flush_loop_ok [OF assms, of 0 "unat (ca_numberOfPages c)"] assms
  by (auto simp: cache_flush_def cache_inv_def)

text \<open>When no page is dirty, the disc holds the whole array.\<close>

lemma clean_disc:
  assumes "cache_inv dsec c" "\<forall>e \<in> set (ca_entries c). \<not> ce_dirty e"
  shows "dsec (ca_dev c) = lsec dsec c"
proof
  fix k
  show "dsec (ca_dev c) k = lsec dsec c k"
  proof (cases "\<exists>i < length (ca_entries c). covers (ca_entries c ! i) k")
    case True
    then obtain i where i: "i < length (ca_entries c)" "covers (ca_entries c ! i) k" by blast
    then show ?thesis
      using lsec_covered [OF assms(1) i] inv_entry [OF assms(1) i(1)] assms(2) nth_mem [OF i(1)]
      by (simp add: clean_def)
  next
    case False
    then show ?thesis by (subst lsec_uncovered) (auto simp: in_set_conv_nth)
  qed
qed

lemma invalidate_ok:
  assumes inv: "cache_inv dsec c"
  shows "\<exists>c'. cache_invalidate (Some c) = Some c' \<and> cache_inv dsec c' \<and> lsec dsec c' = lsec dsec c \<and> same_shape c c' \<and>
    (\<forall>e \<in> set (ca_entries c'). \<not> in_use e)"
proof -
  from flush_ok [OF inv] obtain c1 where f: "cache_flush (Some c) = (True, Some c1)" "cache_inv dsec c1"
    "lsec dsec c1 = lsec dsec c" "same_shape c c1" "\<forall>e \<in> set (ca_entries c1). \<not> ce_dirty e" by blast
  let ?g = "\<lambda>e. e\<lparr>ce_sector := CACHE_FREE, ce_last_access := 0, ce_count := 0, ce_dirty := False\<rparr>"
  let ?c' = "c1\<lparr>ca_entries := map ?g (ca_entries c1)\<rparr>"
  have free: "\<forall>e \<in> set (ca_entries ?c'). \<not> in_use e" by (auto simp: in_use_def)
  have "\<not> covers e k" if "e \<in> set (ca_entries ?c')" for e k using bspec [OF free that] by (simp add: covers_def)
  moreover have "entry_ok ?c' e" if "e \<in> set (ca_entries ?c')" for e
    using that f(2) by (auto simp: cache_inv_def entry_ok_def in_use_def)
  moreover have "\<not> in_use (ca_entries ?c' ! i)" if "i < length (ca_entries ?c')" for i using free nth_mem [OF that] by blast
  ultimately have "cache_inv dsec ?c'"
    using f(2) free unfolding cache_inv_def clean_def by auto
  moreover have "lsec dsec ?c' = lsec dsec c"
    using clean_disc [OF f(2,5)] f(3) lsec_uncovered [of ?c' _ dsec] \<open>\<And>e k. e \<in> set (ca_entries ?c') \<Longrightarrow> \<not> covers e k\<close>
    by (simp add: fun_eq_iff)
  moreover have "cache_invalidate (Some c) = Some ?c'" by (simp add: cache_invalidate_def f(1))
  moreover have "same_shape c ?c'" using f(4) by (simp add: same_shape_def)
  ultimately show ?thesis using free by blast
qed

text \<open>A new cache holds no page: the array is the disc.\<close>

lemma constructor_ok:
  assumes d: "disc_ok D dsec (unat en) (unat ss)" and n: "0 < np" "0 < sp" "0 < ss"
    and b: "unat (max sp 16) * unat ss < 2 ^ 32" "unat en + unat (max sp 16) < 2 ^ 32"
    and g: "granted h 24" "granted h (unat (24 * max np 32))" "granted h (unat (max sp 16) * unat ss)"
  shows "\<exists>c. cache_constructor h dev t np sp D en ss = Some c \<and> cache_inv dsec c \<and> lsec dsec c = dsec dev \<and>
    ca_dev c = dev \<and> ca_end c = en \<and> ca_sectorSize c = ss \<and> ca_disc c = D"
proof -
  let ?np = "max np 32" and ?sp = "max sp 16"
  have mx: "(if np < 32 then 32 else np) = ?np" "(if sp < 16 then 16 else sp) = ?sp" by (auto simp: max_def)
  have pos: "0 < unat ?np" "0 < unat ?sp" using n by (simp_all add: unat_gt_0 max_def word_neq_0_conv)
  have by1: "unat (?sp * ss) = unat ?sp * unat ss" using unat_times_small [of ?sp ss] b(1) by simp
  let ?pg = "map (fresh h) [0..<unat ?sp * unat ss]"
  let ?e = "\<lparr>ce_sector = CACHE_FREE, ce_count = 0, ce_last_access = 0, ce_dirty = False, ce_cache = ?pg\<rparr>"
  let ?c = "\<lparr>ca_disc = D, ca_end = en, ca_numberOfPages = ?np, ca_sectorsPerPage = ?sp, ca_sectorSize = ss,
      ca_entries = replicate (unat ?np) ?e, ca_dev = dev, ca_counter = t\<rparr>"
  have "np \<noteq> 0" "sp \<noteq> 0" using n by (simp_all add: word_neq_0_conv)
  then have "cache_constructor h dev t np sp D en ss = Some ?c"
    using g by (simp add: cache_constructor_def Let_def mx by1)
  moreover have free: "\<not> in_use ?e" by (simp add: in_use_def)
  then have "cache_inv dsec ?c"
    using d n pos b by (auto simp: cache_inv_def entry_ok_def clean_def covers_def word_less_nat_alt)
  moreover have "lsec dsec ?c = dsec dev"
    using free by (simp add: lsec_def fun_eq_iff find_None_iff [THEN iffD2] covers_def)
  ultimately show ?thesis by auto
qed

end
