(* ===== verification/Cache_Store.thy ===== *)
theory Cache_Store
  imports Cache_Array
begin

text \<open>
  Runs of cache operations against an array of sectors: what a client of the cache can observe.
\<close>

section \<open>Operations and their effect on an array of sectors\<close>

datatype cache_op =
    Read_sectors u32 u32
  | Write_sectors u32 u32 "u8 list"
  | Read_part u32 u32 u32
  | Write_part "u8 list" u32 u32 u32
  | Erase_write_part "u8 list" u32 u32 u32
  | Flush
  | Invalidate

text \<open>The call of the cache: whether it succeeded, the bytes read, the cache after it.\<close>

fun run_op :: "cache_op \<Rightarrow> 'd cache \<Rightarrow> (bool \<times> u8 list \<times> 'd cache) option" where
  "run_op (Read_sectors s n) c = cache_readSectors c s n []"
| "run_op (Write_sectors s n data) c = map_option (\<lambda>(ok, c). (ok, [], c)) (cache_writeSectors c s n data)"
| "run_op (Read_part s off sz) c = (case cache_readPartialSector c s off sz of ((ok, data), c) \<Rightarrow> Some (ok, data, c))"
| "run_op (Write_part data s off sz) c = (case cache_writePartialSector c data s off sz of (ok, c) \<Rightarrow> Some (ok, [], c))"
| "run_op (Erase_write_part data s off sz) c = (case cache_eraseWritePartialSector c data s off sz of (ok, c) \<Rightarrow> Some (ok, [], c))"
| "run_op Flush c = (case cache_flush (Some c) of (ok, c') \<Rightarrow> map_option (\<lambda>c. (ok, [], c)) c')"
| "run_op Invalidate c = map_option (\<lambda>c. (True, [], c)) (cache_invalidate (Some c))"

fun run_ops :: "cache_op list \<Rightarrow> 'd cache \<Rightarrow> (u8 list list \<times> 'd cache) option" where
  "run_ops [] c = Some ([], c)"
| "run_ops (op # ops) c =
     (case run_op op c of
        Some (True, data, c) \<Rightarrow> map_option (\<lambda>(datas, c). (data # datas, c)) (run_ops ops c)
      | _ \<Rightarrow> None)"

fun array_op :: "nat \<Rightarrow> cache_op \<Rightarrow> (nat \<Rightarrow> u8 list) \<Rightarrow> u8 list \<times> (nat \<Rightarrow> u8 list)" where
  "array_op ss (Read_sectors s n) a = (concat (map a [unat s..<unat s + unat n]), a)"
| "array_op ss (Write_sectors s n data) a =
     ([], \<lambda>k. if unat s \<le> k \<and> k < unat s + unat n then sect ss (k - unat s) data else a k)"
| "array_op ss (Read_part s off sz) a = (take (unat sz) (drop (unat off) (a (unat s))), a)"
| "array_op ss (Write_part data s off sz) a =
     ([], a(unat s := put_bytes (a (unat s)) (unat off) (take (unat sz) data)))"
| "array_op ss (Erase_write_part data s off sz) a =
     ([], a(unat s := put_bytes (replicate ss 0) (unat off) (take (unat sz) data)))"
| "array_op ss Flush a = ([], a)"
| "array_op ss Invalidate a = ([], a)"

fun array_ops :: "nat \<Rightarrow> cache_op list \<Rightarrow> (nat \<Rightarrow> u8 list) \<Rightarrow> u8 list list \<times> (nat \<Rightarrow> u8 list)" where
  "array_ops ss [] a = ([], a)"
| "array_ops ss (op # ops) a =
     (let (data, a) = array_op ss op a; (datas, a) = array_ops ss ops a in (data # datas, a))"

text \<open>The sectors lie on the partition, the parts within one sector, and the buffers hold the data.\<close>

fun op_fits :: "nat \<Rightarrow> nat \<Rightarrow> cache_op \<Rightarrow> bool" where
  "op_fits en ss (Read_sectors s n) \<longleftrightarrow> unat s + unat n \<le> en"
| "op_fits en ss (Write_sectors s n data) \<longleftrightarrow>
     unat s + unat n \<le> en \<and> unat n * ss < 2 ^ 32 \<and> unat n * ss \<le> length data"
| "op_fits en ss (Read_part s off sz) \<longleftrightarrow> unat s < en \<and> unat off + unat sz \<le> ss \<and> 0 < unat sz"
| "op_fits en ss (Write_part data s off sz) \<longleftrightarrow>
     unat s < en \<and> unat off + unat sz \<le> ss \<and> 0 < unat sz \<and> unat sz \<le> length data"
| "op_fits en ss (Erase_write_part data s off sz) \<longleftrightarrow>
     unat s < en \<and> unat off + unat sz \<le> ss \<and> 0 < unat sz \<and> unat sz \<le> length data"
| "op_fits en ss Flush \<longleftrightarrow> True"
| "op_fits en ss Invalidate \<longleftrightarrow> True"

lemma run_op_refines:
  assumes inv: "cache_inv dsec c" and fits: "op_fits (cend c) (ssz c) op"
  shows "\<exists>data c'. run_op op c = Some (True, data, c') \<and> array_op (ssz c) op (lsec dsec c) = (data, lsec dsec c') \<and>
    cache_inv dsec c' \<and> same_shape c c'"
proof (cases op)
  case (Read_sectors s n)
  then show ?thesis using readSectors_ok [OF inv, of s n "[]"] fits by (auto simp: seg_def)
next
  case (Write_sectors s n data)
  then show ?thesis using writeSectors_ok [OF inv, of s n data] fits by auto
next
  case (Read_part s off sz)
  then show ?thesis using readPartial_ok [OF inv, of s off sz] fits by fastforce
next
  case (Write_part data s off sz)
  then show ?thesis using writePartial_ok [OF inv, of s off sz data] fits by fastforce
next
  case (Erase_write_part data s off sz)
  then show ?thesis using eraseWrite_ok [OF inv, of s off sz data] fits by fastforce
next
  case Flush
  then show ?thesis using flush_ok [OF inv] by auto
next
  case Invalidate
  then show ?thesis using invalidate_ok [OF inv] by auto
qed

lemma run_ops_refines:
  "cache_inv dsec c \<Longrightarrow> \<forall>op \<in> set ops. op_fits (cend c) (ssz c) op \<Longrightarrow>
     \<exists>datas c'. run_ops ops c = Some (datas, c') \<and> array_ops (ssz c) ops (lsec dsec c) = (datas, lsec dsec c') \<and>
       cache_inv dsec c' \<and> same_shape c c'"
proof (induction ops arbitrary: c)
  case (Cons op ops)
  from run_op_refines [OF Cons.prems(1), of op] Cons.prems(2) obtain data c1 where
    op: "run_op op c = Some (True, data, c1)" "array_op (ssz c) op (lsec dsec c) = (data, lsec dsec c1)"
      "cache_inv dsec c1" "same_shape c c1" by auto
  then have sz: "ssz c1 = ssz c" "cend c1 = cend c" by (simp_all add: same_shape_def)
  from Cons.IH [OF op(3)] Cons.prems(2) sz obtain datas c' where
    "run_ops ops c1 = Some (datas, c')" "array_ops (ssz c) ops (lsec dsec c1) = (datas, lsec dsec c')"
    "cache_inv dsec c'" "same_shape c1 c'" by auto
  then show ?case using op same_shape_trans [OF op(4)] by auto
qed simp

lemma destructor_disc:
  assumes "cache_inv dsec c"
  shows "dsec (cache_destructor c) = lsec dsec c"
proof -
  from flush_ok [OF assms] obtain c' where f: "cache_flush (Some c) = (True, Some c')" "cache_inv dsec c'"
    "lsec dsec c' = lsec dsec c" "\<forall>e \<in> set (ca_entries c'). \<not> ce_dirty e" by blast
  then show ?thesis using clean_disc [OF f(2,4)] by (simp add: cache_destructor_def)
qed

section \<open>Properties\<close>

text \<open>
  C30. A cache built over a disc whose accesses within the partition all succeed, on a target that
  has the memory for its pages, behaves like an array of sectors: every run of reads, writes,
  writes of parts of a sector, flushes and invalidations that stays on the partition succeeds,
  reads exactly the bytes the array would give, whatever pages were replaced in between, and when
  the cache is destroyed the disc holds what the array holds.
\<close>

theorem cache_refines_sector_array:
  assumes "disc_ok D dsec (unat en) (unat ss)" "0 < np" "0 < sp" "0 < ss"
    and "unat (max sp 16) * unat ss < 2 ^ 32" "unat en + unat (max sp 16) < 2 ^ 32"
    and "granted h 24" "granted h (unat (24 * max np 32))" "granted h (unat (max sp 16) * unat ss)"
    and "\<forall>op \<in> set ops. op_fits (unat en) (unat ss) op"
  shows "\<exists>c datas c'. cache_constructor h dev t np sp D en ss = Some c \<and> run_ops ops c = Some (datas, c') \<and>
    array_ops (unat ss) ops (dsec dev) = (datas, dsec (cache_destructor c'))"
proof -
  from constructor_ok [OF assms(1-9)] obtain c where c: "cache_constructor h dev t np sp D en ss = Some c"
    "cache_inv dsec c" "lsec dsec c = dsec dev" "ca_end c = en" "ca_sectorSize c = ss" by blast
  from run_ops_refines [OF c(2), of ops] assms(10) c(4,5) obtain datas c' where
    "run_ops ops c = Some (datas, c')" "array_ops (ssz c) ops (lsec dsec c) = (datas, lsec dsec c')" "cache_inv dsec c'"
    by auto
  then show ?thesis using c destructor_disc by metis
qed

text \<open>A disc of 4-byte sectors, as a function from addresses to bytes.\<close>

definition mem_sect :: "(nat \<Rightarrow> u8) \<Rightarrow> nat \<Rightarrow> u8 list" where
  "mem_sect d k = map d [k * 4..<k * 4 + 4]"

definition mem_disc :: "(nat \<Rightarrow> u8) disc_interface" where
  "mem_disc = \<lparr>di_startup = \<lambda>d. (True, d), di_isInserted = \<lambda>d. (True, d),
     di_readSectors = \<lambda>d s n. (True, concat (map (mem_sect d) [unat s..<unat s + unat n]), d),
     di_writeSectors = \<lambda>d s n data. (True,
       \<lambda>p. if unat s * 4 \<le> p \<and> p < (unat s + unat n) * 4 then data ! (p - unat s * 4) else d p)\<rparr>"

lemma mem_disc_ok: "disc_ok mem_disc mem_sect en 4"
proof -
  have "mem_sect (\<lambda>p. if unat s * 4 \<le> p \<and> p < (unat s + unat n) * 4 then data ! (p - unat s * 4) else d p) k =
      (if unat s \<le> k \<and> k < unat s + unat n then sect 4 (k - unat s) data else mem_sect d k)"
    if l: "length data = unat n * 4" for d :: "nat \<Rightarrow> u8" and s n :: u32 and data k
  proof (cases "unat s \<le> k \<and> k < unat s + unat n")
    case True
    then have le: "(k - unat s + 1) * 4 \<le> length data" unfolding l by (intro mult_le_mono1) linarith
    have a: "k * 4 + i - unat s * 4 = (k - unat s) * 4 + i" for i
      using True by (simp add: diff_mult_distrib)
    show ?thesis
    proof (rule nth_equalityI)
      show "length (mem_sect (\<lambda>p. if unat s * 4 \<le> p \<and> p < (unat s + unat n) * 4 then data ! (p - unat s * 4) else d p) k) =
          length (if unat s \<le> k \<and> k < unat s + unat n then sect 4 (k - unat s) data else mem_sect d k)"
        using True length_sect [OF le] by (simp add: mem_sect_def)
    next
      fix i assume "i < length (mem_sect (\<lambda>p. if unat s * 4 \<le> p \<and> p < (unat s + unat n) * 4 then data ! (p - unat s * 4) else d p) k)"
      then have i: "i < 4" by (simp add: mem_sect_def)
      have "unat s * 4 \<le> k * 4 + i" "k * 4 + i < (unat s + unat n) * 4"
        using True i by (auto intro: index_le index_less)
      then show "mem_sect (\<lambda>p. if unat s * 4 \<le> p \<and> p < (unat s + unat n) * 4 then data ! (p - unat s * 4) else d p) k ! i =
          (if unat s \<le> k \<and> k < unat s + unat n then sect 4 (k - unat s) data else mem_sect d k) ! i"
        using True i by (simp add: mem_sect_def nth_sect [OF le] a)
    qed
  next
    case False
    have "\<not> (unat s * 4 \<le> p \<and> p < (unat s + unat n) * 4)" if "k * 4 \<le> p" "p < k * 4 + 4" for p
      using False that by auto
    then show ?thesis using False by (auto simp: mem_sect_def)
  qed
  then have w: "\<exists>d'. di_writeSectors mem_disc d s n data = (True, d') \<and>
      mem_sect d' = (\<lambda>k. if unat s \<le> k \<and> k < unat s + unat n then sect 4 (k - unat s) data else mem_sect d k)"
    if "length data = unat n * 4" for d s n data
    unfolding mem_disc_def disc_interface.simps using that
    by (intro exI) (rule conjI, rule refl, simp add: fun_eq_iff del: add_mult_distrib distrib_right_numeral)
  have r: "\<exists>d'. di_readSectors mem_disc d s n = (True, concat (map (mem_sect d) [unat s..<unat s + unat n]), d') \<and>
      mem_sect d' = mem_sect d" for d s n
    by (simp add: mem_disc_def)
  show ?thesis
    unfolding disc_ok_def by (intro conjI allI impI r w) (simp_all add: mem_sect_def)
qed

lemma cache_refines_sector_array_witness:
  "\<exists>c c'. cache_constructor (roomy 0) (\<lambda>_. 0) 0 1 1 mem_disc 1000 4 = Some c \<and>
     run_ops [Write_sectors 15 2 [1, 2, 3, 4, 5, 6, 7, 8], Write_part [9, 10] 16 1 2, Flush, Read_sectors 14 3] c =
       Some ([[], [], [], [0, 0, 0, 0, 1, 2, 3, 4, 5, 9, 10, 8]], c') \<and>
     mem_sect (cache_destructor c') 16 = [5, 9, 10, 8]"
proof -
  have m: "max (1 :: u32) 16 = 16" "max (1 :: u32) 32 = 32" by (simp_all add: max_def)
  have "\<exists>c datas c'. cache_constructor (roomy 0) (\<lambda>_. 0) 0 1 1 mem_disc 1000 4 = Some c \<and>
     run_ops [Write_sectors 15 2 [1, 2, 3, 4, 5, 6, 7, 8], Write_part [9, 10] 16 1 2, Flush, Read_sectors 14 3] c = Some (datas, c') \<and>
     array_ops (unat (4 :: u32)) [Write_sectors 15 2 [1, 2, 3, 4, 5, 6, 7, 8], Write_part [9, 10] 16 1 2, Flush, Read_sectors 14 3]
       (mem_sect (\<lambda>_. 0)) = (datas, mem_sect (cache_destructor c'))"
    by (rule cache_refines_sector_array) (simp_all add: mem_disc_ok m roomy_def granted_def)
  moreover have "array_ops (unat (4 :: u32)) [Write_sectors 15 2 [1, 2, 3, 4, 5, 6, 7, 8], Write_part [9, 10] 16 1 2, Flush, Read_sectors 14 3]
       (mem_sect (\<lambda>_. 0)) = ([[], [], [], [0, 0, 0, 0, 1, 2, 3, 4, 5, 9, 10, 8]], a)
     \<Longrightarrow> a 16 = [5, 9, 10, 8]" for a
    by (auto simp: sect_def put_bytes_def)
  moreover have "fst (array_ops (unat (4 :: u32)) [Write_sectors 15 2 [1, 2, 3, 4, 5, 6, 7, 8], Write_part [9, 10] 16 1 2, Flush, Read_sectors 14 3]
       (mem_sect (\<lambda>_. 0))) = [[], [], [], [0, 0, 0, 0, 1, 2, 3, 4, 5, 9, 10, 8]]"
    by (simp add: sect_def put_bytes_def upt_rec mem_sect_def)
  ultimately show ?thesis by fastforce
qed

end
