(* ===== verification/Gekko_Bytes.thy ===== *)
theory Gekko_Bytes
  imports Gekko_Io Cache_Store
begin

text \<open>
  The device as an array of bytes. The locale says what reading and writing whole sectors does;
  under it byte ranges are read and written exactly, the edges of partly covered sectors included.
  It holds of a device with a cache and of a device without one.
\<close>

section \<open>The sectors of a range\<close>

lemma ceil_div: "0 < s \<Longrightarrow> - ((- int a) div int s) = int ((a + s - 1) div s)"
proof -
  assume s: "0 < s"
  let ?q = "(a + s - 1) div s"
  have e: "a + s - 1 = ?q * s + (a + s - 1) mod s" by simp
  have "(a + s - 1) mod s < s" using s by simp
  then have b: "a \<le> ?q * s" "?q * s < a + s" using e s by linarith+
  have "(- int a) div int s = - int ?q"
  proof (rule int_div_pos_eq)
    show "- int a = int s * (- int ?q) + int (?q * s - a)" using b(1) by (simp add: of_nat_diff mult.commute)
    show "0 \<le> int (?q * s - a)" "int (?q * s - a) < int s" using b s by linarith+
  qed
  then show ?thesis by simp
qed

lemma ceil_bounds:
  "0 < s \<Longrightarrow> 0 < a \<Longrightarrow> a \<le> (a + s - 1) div s * s \<and> (a + s - 1) div s * s < a + s \<and> 0 < (a + s - 1) div (s :: nat)"
proof -
  assume s: "0 < s" "0 < a"
  have e: "a + s - 1 = (a + s - 1) div s * s + (a + s - 1) mod s" by simp
  have "(a + s - 1) mod s < s" using s by simp
  then have "a \<le> (a + s - 1) div s * s" "(a + s - 1) div s * s < a + s" using e s by linarith+
  then show ?thesis using s(2) by (metis gr0I linorder_not_le mult_0)
qed

text \<open>The geometry of a range within a partition of \<open>tot\<close> sectors that start at \<open>start\<close>.\<close>

lemma range_sectors_eq:
  assumes ss: "unat (gf_sectorSize fd) = ss" "0 < ss" and st: "unat (gf_startSector fd) = start"
    and lim: "start + tot < 2 ^ 32" and fit: "off + cnt \<le> tot * ss" and cnt: "0 < cnt"
  defines "q \<equiv> off div ss" and "n \<equiv> (off mod ss + cnt + ss - 1) div ss"
  shows "\<exists>bo s c. range_sectors fd (int off) (int cnt) = (bo, s, c) \<and> unat bo = off mod ss \<and> unat s = start + q \<and>
      unat c = n"
    "q + n \<le> tot" "0 < n" "off mod ss + cnt \<le> n * ss" "n * ss < off mod ss + cnt + ss" "off = q * ss + off mod ss"
proof -
  have c: "off mod ss + cnt \<le> n * ss" "n * ss < off mod ss + cnt + ss" "0 < n"
    using ceil_bounds [of ss "off mod ss + cnt"] ss(2) cnt by (auto simp: n_def)
  then show "0 < n" "off mod ss + cnt \<le> n * ss" "n * ss < off mod ss + cnt + ss" by blast+
  show off: "off = q * ss + off mod ss" by (simp add: q_def)
  have "(q + n) * ss < tot * ss + ss" using c(2) off fit by (simp add: add_mult_distrib)
  then have "(q + n) * ss < (tot + 1) * ss" by (simp add: add_mult_distrib)
  then show qn: "q + n \<le> tot" by (metis Suc_eq_plus1 less_Suc_eq_le mult_less_cancel2)
  have small: "q < 2 ^ 32" "n < 2 ^ 32" "start + q < 2 ^ 32" using qn lim by linarith+
  have "ss < 2 ^ 16" using ss(1) unat_u16_bound by metis
  moreover have "off mod ss < ss" using ss(2) by simp
  ultimately have bo: "off mod ss < 2 ^ 32" by simp
  let ?bo = "word_of_int (int off mod int ss) :: u32"
  have ubo: "unat ?bo = off mod ss"
    using unat_of_nat_small [of "off mod ss", where ?'a = 32] bo by (simp add: zmod_int [symmetric])
  have uq: "unat (gf_startSector fd + word_of_int (int off div int ss)) = start + q"
    using unat_plus_of_nat [of "gf_startSector fd" q] st small(3) by (simp add: zdiv_int [symmetric] q_def)
  let ?s = "if int off > 0 then gf_startSector fd + word_of_int (int off div int ss) else gf_startSector fd"
  have us: "unat ?s = start + q" using uq st by (auto simp: q_def)
  let ?m = "int (unat ?bo) + int cnt"
  let ?c = "if ?m > int ss then word_of_int (- ((- ?m) div int ss)) else 1 :: u32"
  have m: "?m = int (off mod ss + cnt)" using ubo by simp
  have uc: "unat ?c = n"
  proof (cases "?m > int ss")
    case True
    have "- ((- ?m) div int ss) = int n" unfolding m ceil_div [OF ss(2)] n_def ..
    then show ?thesis using True unat_of_nat_small [of n, where ?'a = 32] small(2) by simp
  next
    case False
    then have "off mod ss + cnt \<le> ss" using m by linarith
    then have "n * ss < 2 * ss" using c(2) by linarith
    then have "n = 1" using c(3) by simp
    then show ?thesis using False by simp
  qed
  have "range_sectors fd (int off) (int cnt) = (?bo, ?s, ?c)"
    by (simp only: range_sectors_def Let_def ss(1))
  then show "\<exists>bo s c. range_sectors fd (int off) (int cnt) = (bo, s, c) \<and> unat bo = off mod ss \<and> unat s = start + q \<and> unat c = n"
    using ubo us uc by blast
qed

lemma unat_ucast_u16: "unat (ucast (x :: u16) :: u32) = unat x"
proof -
  have "unat x < 2 ^ 32" using unat_u16_bound [of x] by simp
  then show ?thesis using unat_of_nat_small [of "unat x", where ?'a = 32] by simp
qed

section \<open>Lists of sectors\<close>

lemma eq_by_sects:
  assumes "length xs = n * ss" "length ys = n * ss" "\<And>k. k < n \<Longrightarrow> sect ss k xs = sect ss k ys"
  shows "xs = ys"
proof -
  have "xs = concat (map (\<lambda>k. sect ss k xs) [0..<n])" "ys = concat (map (\<lambda>k. sect ss k ys) [0..<n])"
    using take_drop_sects [of 0 n ss xs] take_drop_sects [of 0 n ss ys] assms(1,2) by simp_all
  moreover have "map (\<lambda>k. sect ss k xs) [0..<n] = map (\<lambda>k. sect ss k ys) [0..<n]" using assms(3) by simp
  ultimately show ?thesis by metis
qed

text \<open>The bytes of \<open>tot\<close> sectors from \<open>start\<close> on.\<close>

definition flat :: "(nat \<Rightarrow> u8 list) \<Rightarrow> nat \<Rightarrow> nat \<Rightarrow> u8 list" where
  "flat a start tot = concat (map a [start..<start + tot])"

lemma length_flat: "\<forall>k. length (a k) = ss \<Longrightarrow> length (flat a start tot) = tot * ss"
  unfolding flat_def using length_concat_sects [of "[start..<start + tot]" a ss] by simp

lemma sect_flat: "\<forall>k. length (a k) = ss \<Longrightarrow> k < tot \<Longrightarrow> sect ss k (flat a start tot) = a (start + k)"
  unfolding flat_def by (rule sect_concat) simp_all

lemma flat_part:
  assumes "\<forall>k. length (a k) = ss" "q + n \<le> tot"
  shows "concat (map a [start + q..<start + q + n]) = take (n * ss) (drop (q * ss) (flat a start tot))"
proof -
  have "(q + n) * ss \<le> length (flat a start tot)"
    unfolding length_flat [OF assms(1)] using assms(2) by (rule mult_le_mono1)
  then have "take (n * ss) (drop (q * ss) (flat a start tot)) =
      concat (map (\<lambda>k. sect ss k (flat a start tot)) [q..<q + n])" by (rule take_drop_sects)
  also have "map (\<lambda>k. sect ss k (flat a start tot)) [q..<q + n] = map a [start + q..<start + q + n]"
    using sect_flat [OF assms(1)] assms(2) by (intro nth_equalityI) (simp_all add: add.assoc)
  finally show ?thesis ..
qed

lemma flat_update:
  assumes a: "\<forall>k. length (a k) = ss" and q: "q + n \<le> tot" and d: "n * ss \<le> length data"
  shows "flat (\<lambda>k. if start + q \<le> k \<and> k < start + q + n then sect ss (k - (start + q)) data else a k) start tot =
     put_bytes (flat a start tot) (q * ss) (take (n * ss) data)"
proof (rule eq_by_sects [where n = tot and ss = ss])
  let ?a' = "\<lambda>k. if start + q \<le> k \<and> k < start + q + n then sect ss (k - (start + q)) data else a k"
  have le: "(i + 1) * ss \<le> length data" if "i < n" for i
    using d mult_le_mono1 [of "i + 1" n ss] that by linarith
  have a': "\<forall>k. length (?a' k) = ss" using a le by (auto simp: length_sect)
  have fit: "(q + n) * ss \<le> length (flat a start tot)"
    unfolding length_flat [OF a] using q by (rule mult_le_mono1)
  show "length (flat ?a' start tot) = tot * ss" by (rule length_flat [OF a'])
  have ld: "length (take (n * ss) data) = n * ss" using d by simp
  show "length (put_bytes (flat a start tot) (q * ss) (take (n * ss) data)) = tot * ss"
    using fit ld length_flat [OF a] by (subst length_put_bytes) (simp_all add: add_mult_distrib)
  fix k assume k: "k < tot"
  then have kk: "(k + 1) * ss \<le> length (flat a start tot)"
    unfolding length_flat [OF a] by (intro mult_le_mono1) simp
  show "sect ss k (flat ?a' start tot) = sect ss k (put_bytes (flat a start tot) (q * ss) (take (n * ss) data))"
    unfolding sect_put_bytes [OF fit ld kk] sect_flat [OF a' k] sect_flat [OF a k] by (auto simp: sect_take)
qed

text \<open>Writing an aligned piece that differs from what is there only within a smaller range.\<close>

lemma put_within:
  assumes "p \<le> off" "off + length data \<le> p + length b" "p + length b \<le> length xs"
    and "\<And>i. i < length b \<Longrightarrow> b ! i = (if off \<le> p + i \<and> p + i < off + length data then data ! (p + i - off) else xs ! (p + i))"
  shows "put_bytes xs p b = put_bytes xs off data"
proof (rule nth_equalityI)
  show "length (put_bytes xs p b) = length (put_bytes xs off data)" using assms(1-3) by simp
  have le: "off + length data \<le> length xs" using assms(2,3) by linarith
  fix i assume "i < length (put_bytes xs p b)"
  show "put_bytes xs p b ! i = put_bytes xs off data ! i"
    unfolding nth_put_bytes [OF assms(3)] nth_put_bytes [OF le]
    using assms(1,2) assms(4) [of "i - p"] by auto
qed


section \<open>Devices that store sectors\<close>

definition same_dev :: "'d gekko \<Rightarrow> 'd gekko \<Rightarrow> bool" where
  "same_dev dev dev' \<longleftrightarrow>
     gk_magic dev' = gk_magic dev \<and> gk_block_size dev' = gk_block_size dev \<and> gk_flags dev' = gk_flags dev \<and>
     gk_heap dev' = gk_heap dev \<and>
     (\<exists>fd fd'. gk_fd dev = Some fd \<and> gk_fd dev' = Some fd' \<and> gf_interface fd' = gf_interface fd \<and>
        gf_startSector fd' = gf_startSector fd \<and> gf_sectorCount fd' = gf_sectorCount fd \<and>
        gf_sectorSize fd' = gf_sectorSize fd \<and> gf_offset fd' = gf_offset fd)"

lemma same_dev_trans: "same_dev a b \<Longrightarrow> same_dev b c \<Longrightarrow> same_dev a c"
  unfolding same_dev_def by auto

text \<open>The partition: \<open>tot\<close> sectors of \<open>ss\<close> bytes from \<open>start\<close> on.\<close>

definition on_partition :: "nat \<Rightarrow> nat \<Rightarrow> nat \<Rightarrow> 'd gekko \<Rightarrow> bool" where
  "on_partition start tot ss dev \<longleftrightarrow>
     (\<exists>fd. gk_fd dev = Some fd \<and> gf_interface fd \<noteq> None \<and> unat (gf_startSector fd) = start \<and>
        unat (gf_sectorCount fd) = tot \<and> unat (gf_sectorSize fd) = ss) \<and> 0 < ss \<and> start + tot < 2 ^ 32"

lemma on_partition_same: "on_partition start tot ss dev \<Longrightarrow> same_dev dev dev' \<Longrightarrow> on_partition start tot ss dev'"
  unfolding on_partition_def same_dev_def by auto

locale sector_device =
  fixes dev_ok :: "'d gekko \<Rightarrow> bool" and arr :: "'d gekko \<Rightarrow> nat \<Rightarrow> u8 list" and start tot ss :: nat
  assumes partition: "dev_ok dev \<Longrightarrow> on_partition start tot ss dev"
    and arr_length: "dev_ok dev \<Longrightarrow> length (arr dev k) = ss"
    and read_sectors: "dev_ok dev \<Longrightarrow> unat s + unat n \<le> start + tot \<Longrightarrow>
      \<exists>dev'. device_gekko_io_readsectors dev s n = Some (True, concat (map (arr dev) [unat s..<unat s + unat n]), dev') \<and>
        dev_ok dev' \<and> arr dev' = arr dev \<and> same_dev dev dev'"
    and write_sectors: "dev_ok dev \<Longrightarrow> unat s + unat n \<le> start + tot \<Longrightarrow> unat n * ss < 2 ^ 32 \<Longrightarrow> unat n * ss \<le> length data \<Longrightarrow>
      \<exists>dev'. device_gekko_io_writesectors dev s n data = Some (True, dev') \<and> dev_ok dev' \<and> same_dev dev dev' \<and>
        arr dev' = (\<lambda>k. if unat s \<le> k \<and> k < unat s + unat n then sect ss (k - unat s) data else arr dev k)"
begin

abbreviation bytes :: "'d gekko \<Rightarrow> u8 list" where "bytes dev \<equiv> flat (arr dev) start tot"

lemma bytes_length: "dev_ok dev \<Longrightarrow> length (bytes dev) = tot * ss"
  by (rule length_flat) (simp add: arr_length)

text \<open>The sectors of a range that lies on the partition.\<close>

lemma geometry:
  assumes ok: "dev_ok dev" and fit: "off + cnt \<le> tot * ss" and cnt: "0 < cnt" and fd: "gk_fd dev = Some fd"
  obtains bo s c where "range_sectors fd (int off) (int cnt) = (bo, s, c)" "unat bo = off mod ss"
    "unat s = start + off div ss" "unat c = (off mod ss + cnt + ss - 1) div ss" "\<not> s + c > gf_startSector fd + gf_sectorCount fd"
    "unat s + unat c \<le> start + tot"
proof -
  have p: "gf_interface fd \<noteq> None" "unat (gf_startSector fd) = start" "unat (gf_sectorCount fd) = tot"
    "unat (gf_sectorSize fd) = ss" "0 < ss" "start + tot < 2 ^ 32"
    using partition [OF ok] fd by (auto simp: on_partition_def)
  note r = range_sectors_eq [OF p(4,5,2,6) fit cnt]
  from r(1) obtain bo s c where bsc: "range_sectors fd (int off) (int cnt) = (bo, s, c)" "unat bo = off mod ss"
    "unat s = start + off div ss" "unat c = (off mod ss + cnt + ss - 1) div ss" by blast
  have sum: "unat s + unat c \<le> start + tot" using bsc(3,4) r(2) by linarith
  have "unat (s + c) = unat s + unat c" using sum p(6) by (intro unat_add_small) simp
  moreover have "unat (gf_startSector fd + gf_sectorCount fd) = start + tot" using p by (subst unat_add_small) simp_all
  ultimately have "\<not> s + c > gf_startSector fd + gf_sectorCount fd" using sum by (simp add: word_less_nat_alt)
  then show ?thesis using bsc sum that by blast
qed

lemma sectors_are_bytes:
  assumes "dev_ok dev" "q + n \<le> tot"
  shows "concat (map (arr dev) [start + q..<start + q + n]) = take (n * ss) (drop (q * ss) (bytes dev))"
  using assms by (intro flat_part) (simp_all add: arr_length)

lemma readbytes_ok:
  assumes ok: "dev_ok dev" and fit: "off + cnt \<le> tot * ss" and small: "cnt + 2 * ss < 2 ^ 32"
    and heap: "\<And>b. b < 2 ^ 32 \<Longrightarrow> granted (gk_heap dev) b"
  shows "\<exists>dev'. device_gekko_io_readbytes dev (int off) (int cnt) = Some (int cnt, take cnt (drop off (bytes dev)), dev') \<and>
    dev_ok dev' \<and> bytes dev' = bytes dev \<and> same_dev dev dev'"
proof -
  obtain fd where fd: "gk_fd dev = Some fd" using partition [OF ok] by (auto simp: on_partition_def)
  have p: "gf_interface fd \<noteq> None" "unat (gf_startSector fd) = start" "unat (gf_sectorSize fd) = ss" "0 < ss" "start + tot < 2 ^ 32"
    using partition [OF ok] fd by (auto simp: on_partition_def)
  show ?thesis
  proof (cases "cnt = 0")
    case True
    then show ?thesis using ok fd p(1) by (intro exI [of _ dev]) (auto simp: device_gekko_io_readbytes_def same_dev_def)
  next
    case False
    then have cnt: "0 < cnt" by simp
    note rg = range_sectors_eq [OF p(3,4,2,5) fit cnt]
    obtain bo s c where g: "range_sectors fd (int off) (int cnt) = (bo, s, c)" "unat bo = off mod ss"
      "unat s = start + off div ss" "unat c = (off mod ss + cnt + ss - 1) div ss" "\<not> s + c > gf_startSector fd + gf_sectorCount fd"
      "unat s + unat c \<le> start + tot" using geometry [OF ok fit cnt fd] .
    define q n where "q = off div ss" and "n = (off mod ss + cnt + ss - 1) div ss"
    note rg = rg [folded q_def n_def]
    have gn: "unat s = start + q" "unat c = n" using g(3,4) by (simp_all add: q_def n_def)
    from read_sectors [OF ok g(6)] obtain dev' where r:
      "device_gekko_io_readsectors dev s c = Some (True, concat (map (arr dev) [unat s..<unat s + unat c]), dev')"
      "dev_ok dev'" "arr dev' = arr dev" "same_dev dev dev'" by blast
    have data: "concat (map (arr dev) [unat s..<unat s + unat c]) = take (n * ss) (drop (q * ss) (bytes dev))"
      unfolding gn using rg(2) by (rule sectors_are_bytes [OF ok])
    have part: "take cnt (drop (unat bo) (take (n * ss) (drop (q * ss) (bytes dev)))) = take cnt (drop off (bytes dev))"
    proof -
      have "cnt \<le> n * ss - off mod ss" using rg(4) by linarith
      moreover have "off mod ss + q * ss = off" using rg(6) by linarith
      ultimately show ?thesis unfolding g(2) drop_take by (simp add: min_def)
    qed
    show ?thesis
    proof (cases "bo = 0 \<and> int cnt mod int ss = 0")
      case True
      then have z: "off mod ss = 0" "cnt mod ss = 0" using g(2) by (simp_all add: zmod_int [symmetric])
      then obtain m where m: "cnt = m * ss" by (metis mod_0_imp_dvd dvd_def mult.commute)
      have "n * ss = cnt"
      proof -
        have "m * ss \<le> n * ss" "n * ss < (m + 1) * ss" using rg(4,5) z(1) m by (simp_all add: add_mult_distrib)
        then have "m \<le> n" "n < m + 1" by (simp_all only: mult_less_cancel2 mult_le_cancel2 p(4))
        then show ?thesis using m by simp
      qed
      then have "take (n * ss) (drop (q * ss) (bytes dev)) = take cnt (drop off (bytes dev))" using rg(6) z(1) by simp
      moreover have "device_gekko_io_readbytes dev (int off) (int cnt) =
          Some (int cnt, take (n * ss) (drop (q * ss) (bytes dev)), dev')"
        using fd p(1,3) cnt g(1,5) True r(1) by (simp add: device_gekko_io_readbytes_def data)
      ultimately show ?thesis using r by (intro exI [of _ dev']) simp
    next
      case False
      have "n * ss < 2 ^ 32" using rg(5) small mod_less_divisor [OF p(4), of off] by linarith
      then have "unat (c * ucast (gf_sectorSize fd)) = n * ss"
        using unat_times_small [of c "ucast (gf_sectorSize fd)"] gn(2) p(3) by (simp add: unat_ucast_u16)
      then have gr: "granted (gk_heap dev) (unat (c * ucast (gf_sectorSize fd)))" using heap \<open>n * ss < 2 ^ 32\<close> by simp
      have "device_gekko_io_readbytes dev (int off) (int cnt) = Some (int cnt, take cnt (drop off (bytes dev)), dev')"
        using fd p(1,3) cnt g(1,5) False gr r(1) part unfolding device_gekko_io_readbytes_def by (auto simp: data Let_def)
      then show ?thesis using r by (intro exI [of _ dev']) simp
    qed
  qed
qed

text \<open>The buffered write: what the edges put into the buffer is what the device has there.\<close>

lemma read_edge_ok:
  assumes ok: "dev_ok dev" and k: "k < tot" "unat sector = start + k" and at: "at + ss \<le> length buffer"
  shows "\<exists>buffer' dev'. read_edge needed sector at buffer dev = Some (True, buffer', dev') \<and> length buffer' = length buffer \<and>
    dev_ok dev' \<and> bytes dev' = bytes dev \<and> arr dev' = arr dev \<and> same_dev dev dev' \<and>
    (\<forall>i < length buffer. buffer' ! i = (if needed \<and> at \<le> i \<and> i < at + ss then bytes dev ! (k * ss + i - at) else buffer ! i))"
proof (cases needed)
  case True
  have "unat sector + unat (1 :: u32) \<le> start + tot" using k by simp
  from read_sectors [OF ok this] obtain dev' where r:
    "device_gekko_io_readsectors dev sector 1 = Some (True, concat (map (arr dev) [start + k..<start + k + 1]), dev')"
    "dev_ok dev'" "arr dev' = arr dev" "same_dev dev dev'" using k(2) by auto
  have d: "concat (map (arr dev) [start + k..<start + k + 1]) = take (1 * ss) (drop (k * ss) (bytes dev))"
    using sectors_are_bytes [OF ok, of k 1] k(1) by simp
  let ?d = "take (1 * ss) (drop (k * ss) (bytes dev))"
  have le: "(k + 1) * ss \<le> length (bytes dev)" unfolding bytes_length [OF ok] using k(1) by (intro mult_le_mono1) simp
  then have ld: "length ?d = ss" by simp
  have nth: "?d ! (i - at) = bytes dev ! (k * ss + i - at)" if "at \<le> i" "i < at + ss" for i
    using that le by simp
  have fitd: "at + length ?d \<le> length buffer" using ld at by simp
  have "read_edge needed sector at buffer dev = Some (True, put_bytes buffer at ?d, dev')"
    using True r(1) unfolding d by (simp add: read_edge_def)
  moreover have "put_bytes buffer at ?d ! i = (if needed \<and> at \<le> i \<and> i < at + ss then bytes dev ! (k * ss + i - at) else buffer ! i)" for i
    unfolding nth_put_bytes [OF fitd] ld using nth True by (auto simp del: nth_take)
  ultimately show ?thesis
    using r length_put_bytes [OF fitd] by (intro exI [of _ "put_bytes buffer at ?d"] exI [of _ dev']) simp
next
  case False
  have "same_dev dev dev" using partition [OF ok] by (auto simp: on_partition_def same_dev_def)
  then show ?thesis using False ok by (simp add: read_edge_def)
qed

lemma write_unaligned_ok:
  assumes ok: "dev_ok dev" and fd: "gk_fd dev = Some fd" and fit: "off + cnt \<le> tot * ss" and cnt: "0 < cnt"
    and small: "cnt + 2 * ss < 2 ^ 32" and heap: "\<And>b. b < 2 ^ 32 \<Longrightarrow> granted (gk_heap dev) b" and buf: "cnt \<le> length buf"
    and g: "unat bo = off mod ss" "unat s = start + off div ss" "unat c = (off mod ss + cnt + ss - 1) div ss"
  shows "\<exists>dev'. write_unaligned fd dev bo s c (int cnt) buf = Some (int cnt, dev') \<and>
    dev_ok dev' \<and> bytes dev' = put_bytes (bytes dev) off (take cnt buf) \<and> same_dev dev dev'"
proof -
  have p: "unat (gf_startSector fd) = start" "unat (gf_sectorSize fd) = ss" "0 < ss" "start + tot < 2 ^ 32"
    using partition [OF ok] fd by (auto simp: on_partition_def)
  note rg = range_sectors_eq [OF p(2,3,1,4) fit cnt]
  define q n where "q = off div ss" and "n = (off mod ss + cnt + ss - 1) div ss"
  note rg = rg [folded q_def n_def]
  note gn = g [folded q_def n_def]
  have us: "unat (ucast (gf_sectorSize fd) :: u32) = ss" using p(2) by (simp add: unat_ucast_u16)
  have modlt: "off mod ss < ss" using p(3) by simp
  have nsm: "n * ss < 2 ^ 32" using rg(5) small modlt by linarith
  have bytes: "unat (c * ucast (gf_sectorSize fd)) = n * ss"
    using unat_times_small [of c "ucast (gf_sectorSize fd)"] gn(3) us nsm by simp
  let ?b0 = "map (fresh (gk_heap dev)) [0..<n * ss]"
  have l0: "length ?b0 = n * ss" by simp
  have "0 + ss \<le> length ?b0" using mult_le_mono1 [of 1 n ss] rg(3) by simp
  from read_edge_ok [OF ok _ gn(2) this, where needed = "bo \<noteq> 0"] obtain b1 dev1 where e1:
    "read_edge (bo \<noteq> 0) s 0 ?b0 dev = Some (True, b1, dev1)" "length b1 = n * ss" "dev_ok dev1" "bytes dev1 = bytes dev"
    "arr dev1 = arr dev" "same_dev dev dev1"
    "\<forall>i < n * ss. b1 ! i = (if bo \<noteq> 0 \<and> i < ss then bytes dev ! (q * ss + i) else ?b0 ! i)"
    using rg(2,3) by auto
  have uc1: "unat (c - 1) = n - 1" using gn(3) rg(3) by (subst unat_minus_one) auto
  have nss: "(n - 1) * ss + ss = n * ss" using rg(3) by (cases n) simp_all
  have at: "unat ((c - 1) * ucast (gf_sectorSize fd)) = (n - 1) * ss"
    using unat_times_small [of "c - 1" "ucast (gf_sectorSize fd)"] uc1 us nsm nss by simp
  have usc: "unat (s + c - 1) = start + (q + (n - 1))"
  proof -
    have "unat (s + c) = start + q + n" using gn(2,3) rg(2) p(4) by (subst unat_add_small) simp_all
    then show ?thesis using rg(3) by (subst unat_minus_one) auto
  qed
  have "(n - 1) * ss + ss \<le> length b1" using e1(2) nss by simp
  moreover have "q + (n - 1) < tot" using rg(2,3) by linarith
  ultimately have "\<exists>b2 dev2. read_edge ((int (unat bo) + int cnt) mod int ss \<noteq> 0) (s + c - 1) ((n - 1) * ss) b1 dev1 = Some (True, b2, dev2) \<and>
      length b2 = length b1 \<and> dev_ok dev2 \<and> bytes dev2 = bytes dev1 \<and> arr dev2 = arr dev1 \<and> same_dev dev1 dev2 \<and>
      (\<forall>i < length b1. b2 ! i = (if (int (unat bo) + int cnt) mod int ss \<noteq> 0 \<and> (n - 1) * ss \<le> i \<and> i < (n - 1) * ss + ss
        then bytes dev1 ! ((q + (n - 1)) * ss + i - (n - 1) * ss) else b1 ! i))"
    by (intro read_edge_ok [OF e1(3) _ usc])
  then obtain b2 dev2 where e2:
    "read_edge ((int (unat bo) + int cnt) mod int ss \<noteq> 0) (s + c - 1) ((n - 1) * ss) b1 dev1 = Some (True, b2, dev2)"
    "length b2 = n * ss" "dev_ok dev2" "bytes dev2 = bytes dev" "arr dev2 = arr dev" "same_dev dev1 dev2"
    "\<forall>i < n * ss. b2 ! i = (if (int (unat bo) + int cnt) mod int ss \<noteq> 0 \<and> (n - 1) * ss \<le> i \<and> i < n * ss
        then bytes dev ! ((q + (n - 1)) * ss + i - (n - 1) * ss) else b1 ! i)"
    unfolding e1(2,4,5) nss by blast
  let ?d = "take cnt buf"
  let ?b3 = "put_bytes b2 (unat bo) ?d"
  have ld: "length ?d = cnt" using buf by simp
  have fitb: "unat bo + length ?d \<le> length b2" using ld gn(1) e2(2) rg(4) by simp
  have l3: "length ?b3 = n * ss" using fitb e2(2) by simp
  have "unat s + unat c \<le> start + tot" using gn rg(2) by linarith
  moreover have "unat c * ss < 2 ^ 32" "unat c * ss \<le> length ?b3" using gn(3) nsm l3 by simp_all
  ultimately obtain dev3 where w: "device_gekko_io_writesectors dev2 s c ?b3 = Some (True, dev3)" "dev_ok dev3" "same_dev dev2 dev3"
    "arr dev3 = (\<lambda>k. if unat s \<le> k \<and> k < unat s + unat c then sect ss (k - unat s) ?b3 else arr dev2 k)"
    using write_sectors [OF e2(3)] by blast
  have "bytes dev3 = put_bytes (bytes dev2) (q * ss) (take (n * ss) ?b3)"
    using flat_update [of "arr dev2" ss q n tot ?b3 start] arr_length [OF e2(3)] rg(2) l3 unfolding w(4) gn by simp
  also have "take (n * ss) ?b3 = ?b3" using l3 by simp
  also have "put_bytes (bytes dev2) (q * ss) ?b3 = put_bytes (bytes dev) off ?d"
    unfolding e2(4)
  proof (rule put_within)
    show "q * ss \<le> off" "off + length ?d \<le> q * ss + length ?b3" using rg(4,6) ld l3 by linarith+
    have "(q + n) * ss \<le> tot * ss" using rg(2) by (rule mult_le_mono1)
    then show "q * ss + length ?b3 \<le> length (bytes dev)" using l3 bytes_length [OF ok] by (simp add: add_mult_distrib)
    fix i assume "i < length ?b3"
    then have i: "i < n * ss" using l3 by simp
    have b3: "?b3 ! i = (if off mod ss \<le> i \<and> i < off mod ss + cnt then ?d ! (i - off mod ss) else b2 ! i)"
      using nth_put_bytes [OF fitb, of i] unfolding gn(1) ld .
    have in1: "(off mod ss \<le> i) = (off \<le> q * ss + i)" "(i < off mod ss + cnt) = (q * ss + i < off + cnt)"
      "i - off mod ss = q * ss + i - off" using rg(6) by linarith+
    have "b2 ! i = bytes dev ! (q * ss + i)" if out: "i < off mod ss \<or> off mod ss + cnt \<le> i"
    proof (cases "off mod ss + cnt \<le> i")
      case True
      have last: "(n - 1) * ss \<le> i" using True rg(5) nss by linarith
      have "(off mod ss + cnt) mod ss \<noteq> 0"
      proof
        assume "(off mod ss + cnt) mod ss = 0"
        then obtain m where m: "off mod ss + cnt = m * ss" by (metis mod_0_imp_dvd dvd_def mult.commute)
        then have "m * ss < n * ss" using True i by linarith
        then have "m < n" by (simp only: mult_less_cancel2)
        then have "(m + 1) * ss \<le> n * ss" by (intro mult_le_mono1) simp
        then show False using m rg(5) by (simp add: add_mult_distrib)
      qed
      then have "(int (unat bo) + int cnt) mod int ss \<noteq> 0"
        unfolding gn(1) by (simp add: zmod_int [symmetric] of_nat_add [symmetric] del: of_nat_add)
      moreover have "(q + (n - 1)) * ss + i - (n - 1) * ss = q * ss + i" using last by (simp add: add_mult_distrib)
      ultimately show ?thesis using e2(7) i last by simp
    next
      case False
      then have lo: "i < off mod ss" using out by simp
      then have b: "bo \<noteq> 0" "i < ss" using gn(1) modlt by auto
      have "b1 ! i = bytes dev ! (q * ss + i)" using e1(7) i b by simp
      moreover have "(q + (n - 1)) * ss + i - (n - 1) * ss = q * ss + i" if "(n - 1) * ss \<le> i"
        using that by (simp add: add_mult_distrib)
      ultimately show ?thesis using e2(7) i by auto
    qed
    then show "?b3 ! i = (if off \<le> q * ss + i \<and> q * ss + i < off + length ?d then ?d ! (q * ss + i - off) else bytes dev ! (q * ss + i))"
      unfolding b3 ld in1 [symmetric] by auto
  qed
  finally have "bytes dev3 = put_bytes (bytes dev) off ?d" .
  moreover have "write_unaligned fd dev bo s c (int cnt) buf = Some (int cnt, dev3)"
    using heap [OF nsm] w(1)
    unfolding write_unaligned_def Let_def bytes at e1(1) p(2) option.case prod.case bool.case e2(1) by simp
  ultimately show ?thesis
    using w(2) same_dev_trans [OF e1(6) same_dev_trans [OF e2(6) w(3)]] by blast
qed

lemma writebytes_ok:
  assumes ok: "dev_ok dev" and fit: "off + cnt \<le> tot * ss" and small: "cnt + 2 * ss < 2 ^ 32"
    and heap: "\<And>b. b < 2 ^ 32 \<Longrightarrow> granted (gk_heap dev) b" and buf: "cnt \<le> length buf"
    and rw: "gk_flags dev AND EXT2_FLAG_RW \<noteq> 0"
  shows "\<exists>dev'. device_gekko_io_writebytes dev (int off) (int cnt) buf = Some (int cnt, dev') \<and>
    dev_ok dev' \<and> bytes dev' = put_bytes (bytes dev) off (take cnt buf) \<and> same_dev dev dev'"
proof -
  obtain fd where fd: "gk_fd dev = Some fd" using partition [OF ok] by (auto simp: on_partition_def)
  have p: "gf_interface fd \<noteq> None" "unat (gf_startSector fd) = start" "unat (gf_sectorSize fd) = ss" "0 < ss" "start + tot < 2 ^ 32"
    using partition [OF ok] fd by (auto simp: on_partition_def)
  have same: "same_dev dev dev" using fd by (simp add: same_dev_def)
  show ?thesis
  proof (cases "cnt = 0")
    case True
    have "put_bytes (bytes dev) off [] = bytes dev" by (simp add: put_bytes_def)
    then show ?thesis using True ok fd p(1) rw same by (intro exI [of _ dev]) (simp add: device_gekko_io_writebytes_def)
  next
    case False
    then have cnt: "0 < cnt" by simp
    note rg = range_sectors_eq [OF p(3,4,2,5) fit cnt]
    obtain bo s c where g: "range_sectors fd (int off) (int cnt) = (bo, s, c)" "unat bo = off mod ss"
      "unat s = start + off div ss" "unat c = (off mod ss + cnt + ss - 1) div ss" "\<not> s + c > gf_startSector fd + gf_sectorCount fd"
      "unat s + unat c \<le> start + tot" using geometry [OF ok fit cnt fd] .
    define q n where "q = off div ss" and "n = (off mod ss + cnt + ss - 1) div ss"
    note rg = rg [folded q_def n_def]
    have gn: "unat s = start + q" "unat c = n" using g(3,4) by (simp_all add: q_def n_def)
    show ?thesis
    proof (cases "bo = 0 \<and> int cnt mod int ss = 0")
      case True
      then have z: "off mod ss = 0" "cnt mod ss = 0" using g(2) by (simp_all add: zmod_int [symmetric])
      then obtain m where m: "cnt = m * ss" by (metis mod_0_imp_dvd dvd_def mult.commute)
      have nc: "n * ss = cnt"
      proof -
        have "m * ss \<le> n * ss" "n * ss < (m + 1) * ss" using rg(4,5) z(1) m by (simp_all add: add_mult_distrib)
        then have "m \<le> n" "n < m + 1" by (simp_all only: mult_less_cancel2 mult_le_cancel2 p(4))
        then show ?thesis using m by simp
      qed
      have sz: "unat c * ss < 2 ^ 32" "unat c * ss \<le> length buf" using nc gn(2) small buf by simp_all
      from write_sectors [OF ok g(6) sz] obtain dev' where w:
        "device_gekko_io_writesectors dev s c buf = Some (True, dev')" "dev_ok dev'" "same_dev dev dev'"
        "arr dev' = (\<lambda>k. if unat s \<le> k \<and> k < unat s + unat c then sect ss (k - unat s) buf else arr dev k)" by blast
      have "bytes dev' = put_bytes (bytes dev) (q * ss) (take (n * ss) buf)"
        using flat_update [of "arr dev" ss q n tot buf start] arr_length [OF ok] rg(2) sz(2) unfolding w(4) gn by simp
      then have "bytes dev' = put_bytes (bytes dev) off (take cnt buf)" using nc rg(6) z(1) by simp
      moreover have "device_gekko_io_writebytes dev (int off) (int cnt) buf = Some (int cnt, dev')"
        using fd p(1,3) cnt g(1,5) True w(1) rw by (simp add: device_gekko_io_writebytes_def)
      ultimately show ?thesis using w by blast
    next
      case False
      have "device_gekko_io_writebytes dev (int off) (int cnt) buf = write_unaligned fd dev bo s c (int cnt) buf"
        using fd p(1,3) cnt g(1,5) False rw unfolding device_gekko_io_writebytes_def by (auto simp: Let_def)
      then show ?thesis
        using write_unaligned_ok [OF ok fd fit cnt small heap buf g(2-4)] by simp
    qed
  qed
qed

end

text \<open>
  A device whose counters may change freely: blocks, through \<open>read64\<close> and
  \<open>write64\<close> with a count of blocks that is not negative.
\<close>

locale block_store = sector_device +
  assumes stats: "dev_ok dev \<Longrightarrow> gk_fd dev = Some fd \<Longrightarrow>
      dev_ok (dev\<lparr>gk_fd := Some (fd\<lparr>gf_bytes_read := r, gf_bytes_written := w\<rparr>)\<rparr>) \<and>
      arr (dev\<lparr>gk_fd := Some (fd\<lparr>gf_bytes_read := r, gf_bytes_written := w\<rparr>)\<rparr>) = arr dev"
begin

lemma read64_len:
  assumes ok: "dev_ok dev" and bs: "gk_block_size dev = int bs" and fd: "gk_fd dev = Some fd" "gf_offset fd = int off"
    and b: "unat block < 2 ^ 63" and size: "(if count < 0 then - count else count * int bs) = int len"
    and fit: "off + unat block * bs + len \<le> tot * ss" and small: "len + 2 * ss < 2 ^ 32"
    and heap: "\<And>b. b < 2 ^ 32 \<Longrightarrow> granted (gk_heap dev) b"
  shows "\<exists>dev'. device_gekko_io_read64 dev block count =
      Some (Inr (take len (drop (off + unat block * bs) (bytes dev))), dev') \<and>
    dev_ok dev' \<and> bytes dev' = bytes dev \<and> same_dev dev dev'"
proof -
  let ?fd = "fd\<lparr>gf_bytes_read := gf_bytes_read fd + word_of_int (int len)\<rparr>"
  let ?dev = "dev\<lparr>gk_fd := Some ?fd\<rparr>"
  have e: "?fd = fd\<lparr>gf_bytes_read := gf_bytes_read ?fd, gf_bytes_written := gf_bytes_written fd\<rparr>" by simp
  have st: "dev_ok ?dev" "arr ?dev = arr dev" using stats [OF ok fd(1)] e by metis+
  have loc: "sint block * int bs + gf_offset fd = int (off + unat block * bs)"
  proof -
    have "sint block = int (unat block)"
      using sint_of_nat_small [of "unat block", where ?'a = 64] b by simp
    then show ?thesis using fd(2) by simp
  qed
  have heap': "\<And>b. b < 2 ^ 32 \<Longrightarrow> granted (gk_heap ?dev) b" using heap by simp
  from readbytes_ok [OF st(1) fit small heap'] obtain dev' where r:
    "device_gekko_io_readbytes ?dev (int (off + unat block * bs)) (int len) =
       Some (int len, take len (drop (off + unat block * bs) (bytes ?dev)), dev')"
    "dev_ok dev'" "bytes dev' = bytes ?dev" "same_dev ?dev dev'" by blast
  have same: "same_dev dev ?dev" using fd(1) by (simp add: same_dev_def)
  have "device_gekko_io_read64 dev block count =
      Some (Inr (take len (drop (off + unat block * bs) (bytes ?dev))), dev')"
    using fd(1) loc r(1) unfolding device_gekko_io_read64_def bs size by (simp add: Let_def)
  then show ?thesis using r(2,3) st(2) same_dev_trans [OF same r(4)] by auto
qed

lemma read64_ok:
  assumes ok: "dev_ok dev" and bs: "gk_block_size dev = int bs" and fd: "gk_fd dev = Some fd" "gf_offset fd = int off"
    and b: "unat block < 2 ^ 63" and fit: "off + unat block * bs + m * bs \<le> tot * ss" and small: "m * bs + 2 * ss < 2 ^ 32"
    and heap: "\<And>b. b < 2 ^ 32 \<Longrightarrow> granted (gk_heap dev) b"
  shows "\<exists>dev'. device_gekko_io_read64 dev block (int m) =
      Some (Inr (take (m * bs) (drop (off + unat block * bs) (bytes dev))), dev') \<and>
    dev_ok dev' \<and> bytes dev' = bytes dev \<and> same_dev dev dev'"
  by (rule read64_len [OF ok bs fd b _ fit small heap]) simp_all

lemma write64_ok:
  assumes ok: "dev_ok dev" and bs: "gk_block_size dev = int bs" and fd: "gk_fd dev = Some fd" "gf_offset fd = int off"
    and b: "unat block < 2 ^ 63" and fit: "off + unat block * bs + m * bs \<le> tot * ss" and small: "m * bs + 2 * ss < 2 ^ 32"
    and heap: "\<And>b. b < 2 ^ 32 \<Longrightarrow> granted (gk_heap dev) b" and buf: "m * bs \<le> length buf"
    and rw: "gk_flags dev AND EXT2_FLAG_RW \<noteq> 0"
  shows "\<exists>dev'. device_gekko_io_write64 dev block (int m) buf = Some (Inr (), dev') \<and> dev_ok dev' \<and>
    bytes dev' = put_bytes (bytes dev) (off + unat block * bs) (take (m * bs) buf) \<and> same_dev dev dev'"
proof -
  let ?fd = "fd\<lparr>gf_bytes_written := gf_bytes_written fd + word_of_int (int m * int bs)\<rparr>"
  let ?dev = "dev\<lparr>gk_fd := Some ?fd\<rparr>"
  have e: "?fd = fd\<lparr>gf_bytes_read := gf_bytes_read fd, gf_bytes_written := gf_bytes_written ?fd\<rparr>" by simp
  have st: "dev_ok ?dev" "arr ?dev = arr dev" using stats [OF ok fd(1)] e by metis+
  have loc: "sint block * int bs + gf_offset fd = int (off + unat block * bs)"
  proof -
    have "sint block = int (unat block)"
      using sint_of_nat_small [of "unat block", where ?'a = 64] b by simp
    then show ?thesis using fd(2) by simp
  qed
  have heap': "\<And>b. b < 2 ^ 32 \<Longrightarrow> granted (gk_heap ?dev) b" and rw': "gk_flags ?dev AND EXT2_FLAG_RW \<noteq> 0"
    using heap rw by simp_all
  from writebytes_ok [OF st(1) fit small heap' buf rw'] obtain dev' where r:
    "device_gekko_io_writebytes ?dev (int (off + unat block * bs)) (int (m * bs)) buf = Some (int (m * bs), dev')"
    "dev_ok dev'" "bytes dev' = put_bytes (bytes ?dev) (off + unat block * bs) (take (m * bs) buf)" "same_dev ?dev dev'" by blast
  have same: "same_dev dev ?dev" using fd(1) by (simp add: same_dev_def)
  have "device_gekko_io_write64 dev block (int m) buf = Some (Inr (), dev')"
    using fd(1) bs loc r(1) by (simp add: device_gekko_io_write64_def)
  then show ?thesis using r(2,3) st(2) same_dev_trans [OF same r(4)] by auto
qed

end

section \<open>With and without a cache\<close>

definition cached_ok :: "('d \<Rightarrow> nat \<Rightarrow> u8 list) \<Rightarrow> nat \<Rightarrow> nat \<Rightarrow> nat \<Rightarrow> 'd gekko \<Rightarrow> bool" where
  "cached_ok dsec start tot ss dev \<longleftrightarrow> on_partition start tot ss dev \<and>
     (\<exists>fd c. gk_fd dev = Some fd \<and> gf_cache fd = Some c \<and> cache_inv dsec c \<and> cend c = start + tot \<and> ssz c = ss)"

definition cached_arr :: "('d \<Rightarrow> nat \<Rightarrow> u8 list) \<Rightarrow> 'd gekko \<Rightarrow> nat \<Rightarrow> u8 list" where
  "cached_arr dsec dev = (case gk_fd dev of Some fd \<Rightarrow> (case gf_cache fd of Some c \<Rightarrow> lsec dsec c | None \<Rightarrow> \<lambda>_. []) | None \<Rightarrow> \<lambda>_. [])"

definition plain_ok :: "('d \<Rightarrow> nat \<Rightarrow> u8 list) \<Rightarrow> nat \<Rightarrow> nat \<Rightarrow> nat \<Rightarrow> 'd gekko \<Rightarrow> bool" where
  "plain_ok dsec start tot ss dev \<longleftrightarrow> on_partition start tot ss dev \<and>
     (\<exists>fd D. gk_fd dev = Some fd \<and> gf_cache fd = None \<and> gf_interface fd = Some D \<and> disc_ok D dsec (start + tot) ss)"

definition plain_arr :: "('d \<Rightarrow> nat \<Rightarrow> u8 list) \<Rightarrow> 'd gekko \<Rightarrow> nat \<Rightarrow> u8 list" where
  "plain_arr dsec dev = (case gk_fd dev of Some fd \<Rightarrow> dsec (gf_dev fd) | None \<Rightarrow> \<lambda>_. [])"

lemma lsec_length:
  assumes "cache_inv dsec c"
  shows "length (lsec dsec c k) = ssz c"
proof (cases "\<exists>i < length (ca_entries c). covers (ca_entries c ! i) k")
  case True
  then obtain i where i: "i < length (ca_entries c)" "covers (ca_entries c ! i) k" by blast
  have ok: "entry_ok c (ca_entries c ! i)" using inv_entry [OF assms i(1)] by blast
  then have "k - unat (ce_sector (ca_entries c ! i)) + 1 \<le> spp c" "length (ce_cache (ca_entries c ! i)) = spp c * ssz c"
    using i(2) by (auto simp: entry_ok_def covers_def)
  then have "(k - unat (ce_sector (ca_entries c ! i)) + 1) * ssz c \<le> length (ce_cache (ca_entries c ! i))"
    using mult_le_mono1 by metis
  then show ?thesis by (simp add: lsec_covered [OF assms i] entry_sect_def length_sect)
next
  case False
  then have "lsec dsec c k = dsec (ca_dev c) k" by (intro lsec_uncovered) (auto simp: in_set_conv_nth)
  then show ?thesis using assms by (simp add: cache_inv_def disc_ok_def)
qed

interpretation cached: block_store "cached_ok dsec start tot ss" "cached_arr dsec" start tot ss
proof
  fix dev :: "'a gekko" and k
  assume ok: "cached_ok dsec start tot ss dev"
  then obtain fd c where fc: "gk_fd dev = Some fd" "gf_cache fd = Some c" "cache_inv dsec c" "cend c = start + tot" "ssz c = ss"
    and part: "on_partition start tot ss dev" by (auto simp: cached_ok_def)
  then have arr: "cached_arr dsec dev = lsec dsec c" by (simp add: cached_arr_def)
  show "on_partition start tot ss dev" by (rule part)
  show "length (cached_arr dsec dev k) = ss" using lsec_length [OF fc(3)] fc(5) by (simp add: arr)
  { fix s n :: u32
    assume "unat s + unat n \<le> start + tot"
    then have "unat s + unat n \<le> cend c" using fc(4) by simp
    from readSectors_ok [OF fc(3) this, of "[]"] obtain c' where r:
      "cache_readSectors c s n [] = Some (True, seg dsec c (unat s) (unat n), c')" "cache_inv dsec c'"
      "lsec dsec c' = lsec dsec c" "same_shape c c'" by auto
    let ?dev = "dev\<lparr>gk_fd := Some (fd\<lparr>gf_cache := Some c'\<rparr>)\<rparr>"
    have "same_dev dev ?dev" using fc(1) by (simp add: same_dev_def)
    moreover have "cached_ok dsec start tot ss ?dev"
      using on_partition_same [OF part calculation] r fc by (auto simp: cached_ok_def same_shape_def)
    moreover have "cached_arr dsec ?dev = cached_arr dsec dev" using r(3) arr by (simp add: cached_arr_def)
    ultimately show "\<exists>dev'. device_gekko_io_readsectors dev s n =
        Some (True, concat (map (cached_arr dsec dev) [unat s..<unat s + unat n]), dev') \<and>
        cached_ok dsec start tot ss dev' \<and> cached_arr dsec dev' = cached_arr dsec dev \<and> same_dev dev dev'"
      using fc r(1) arr by (intro exI [of _ ?dev]) (simp add: device_gekko_io_readsectors_def seg_def) }
  { fix s n :: u32 and data :: "u8 list"
    assume "unat s + unat n \<le> start + tot" "unat n * ss < 2 ^ 32" "unat n * ss \<le> length data"
    then have "unat s + unat n \<le> cend c" "unat n * ssz c < 2 ^ 32" "unat n * ssz c \<le> length data" using fc by simp_all
    from writeSectors_ok [OF fc(3) this] obtain c' where r:
      "cache_writeSectors c s n data = Some (True, c')" "cache_inv dsec c'" "same_shape c c'"
      "lsec dsec c' = (\<lambda>k. if unat s \<le> k \<and> k < unat s + unat n then sect (ssz c) (k - unat s) data else lsec dsec c k)"
      by blast
    let ?dev = "dev\<lparr>gk_fd := Some (fd\<lparr>gf_cache := Some c'\<rparr>)\<rparr>"
    have "same_dev dev ?dev" using fc(1) by (simp add: same_dev_def)
    moreover have "cached_ok dsec start tot ss ?dev"
      using on_partition_same [OF part calculation] r fc by (auto simp: cached_ok_def same_shape_def)
    moreover have "cached_arr dsec ?dev =
        (\<lambda>k. if unat s \<le> k \<and> k < unat s + unat n then sect ss (k - unat s) data else cached_arr dsec dev k)"
      unfolding arr using r(4) [unfolded fc(5)] by (simp add: cached_arr_def)
    ultimately show "\<exists>dev'. device_gekko_io_writesectors dev s n data = Some (True, dev') \<and>
        cached_ok dsec start tot ss dev' \<and> same_dev dev dev' \<and>
        cached_arr dsec dev' = (\<lambda>k. if unat s \<le> k \<and> k < unat s + unat n then sect ss (k - unat s) data else cached_arr dsec dev k)"
      using fc r(1) by (intro exI [of _ ?dev]) (simp add: device_gekko_io_writesectors_def) }
  fix fd' r w
  assume "gk_fd dev = Some fd'"
  then show "cached_ok dsec start tot ss (dev\<lparr>gk_fd := Some (fd'\<lparr>gf_bytes_read := r, gf_bytes_written := w\<rparr>)\<rparr>) \<and>
      cached_arr dsec (dev\<lparr>gk_fd := Some (fd'\<lparr>gf_bytes_read := r, gf_bytes_written := w\<rparr>)\<rparr>) = cached_arr dsec dev"
    using fc part by (auto simp: cached_ok_def cached_arr_def on_partition_def)
qed

interpretation plain: block_store "plain_ok dsec start tot ss" "plain_arr dsec" start tot ss
proof
  fix dev :: "'a gekko" and k
  assume ok: "plain_ok dsec start tot ss dev"
  then obtain fd D where fc: "gk_fd dev = Some fd" "gf_cache fd = None" "gf_interface fd = Some D" "disc_ok D dsec (start + tot) ss"
    and part: "on_partition start tot ss dev" by (auto simp: plain_ok_def)
  then have arr: "plain_arr dsec dev = dsec (gf_dev fd)" by (simp add: plain_arr_def)
  have ss: "unat (gf_sectorSize fd) = ss" using part fc(1) by (auto simp: on_partition_def)
  show "on_partition start tot ss dev" by (rule part)
  show "length (plain_arr dsec dev k) = ss" using disc_okD(1) [OF fc(4)] arr by simp
  { fix s n :: u32
    assume "unat s + unat n \<le> start + tot"
    from disc_okD(2) [OF fc(4) this, of "gf_dev fd"] obtain d' where r:
      "di_readSectors D (gf_dev fd) s n = (True, concat (map (dsec (gf_dev fd)) [unat s..<unat s + unat n]), d')"
      "dsec d' = dsec (gf_dev fd)" by blast
    let ?dev = "dev\<lparr>gk_fd := Some (fd\<lparr>gf_dev := d'\<rparr>)\<rparr>"
    have "same_dev dev ?dev" using fc(1) by (simp add: same_dev_def)
    moreover have "plain_ok dsec start tot ss ?dev"
      using on_partition_same [OF part calculation] fc by (auto simp: plain_ok_def)
    moreover have "plain_arr dsec ?dev = plain_arr dsec dev" using r(2) arr by (simp add: plain_arr_def)
    ultimately show "\<exists>dev'. device_gekko_io_readsectors dev s n =
        Some (True, concat (map (plain_arr dsec dev) [unat s..<unat s + unat n]), dev') \<and>
        plain_ok dsec start tot ss dev' \<and> plain_arr dsec dev' = plain_arr dsec dev \<and> same_dev dev dev'"
      using fc r(1) arr by (intro exI [of _ ?dev]) (simp add: device_gekko_io_readsectors_def) }
  { fix s n :: u32 and data :: "u8 list"
    assume h: "unat s + unat n \<le> start + tot" "unat n * ss < 2 ^ 32" "unat n * ss \<le> length data"
    have b: "unat (n * ucast (gf_sectorSize fd)) = unat n * ss"
      using unat_times_small [of n "ucast (gf_sectorSize fd)"] h(2) ss by (simp add: unat_ucast_u16)
    have "length (take (unat n * ss) data) = unat n * ss" using h(3) by simp
    from disc_okD(3) [OF fc(4) h(1) this, of "gf_dev fd"] obtain d' where r:
      "di_writeSectors D (gf_dev fd) s n (take (unat n * ss) data) = (True, d')"
      "dsec d' = (\<lambda>k. if unat s \<le> k \<and> k < unat s + unat n then sect ss (k - unat s) (take (unat n * ss) data) else dsec (gf_dev fd) k)"
      by blast
    let ?dev = "dev\<lparr>gk_fd := Some (fd\<lparr>gf_dev := d'\<rparr>)\<rparr>"
    have "same_dev dev ?dev" using fc(1) by (simp add: same_dev_def)
    moreover have "plain_ok dsec start tot ss ?dev"
      using on_partition_same [OF part calculation] fc by (auto simp: plain_ok_def)
    moreover have "plain_arr dsec ?dev =
        (\<lambda>k. if unat s \<le> k \<and> k < unat s + unat n then sect ss (k - unat s) data else plain_arr dsec dev k)"
      using r(2) arr by (auto simp: plain_arr_def fun_eq_iff sect_take)
    ultimately show "\<exists>dev'. device_gekko_io_writesectors dev s n data = Some (True, dev') \<and>
        plain_ok dsec start tot ss dev' \<and> same_dev dev dev' \<and>
        plain_arr dsec dev' = (\<lambda>k. if unat s \<le> k \<and> k < unat s + unat n then sect ss (k - unat s) data else plain_arr dsec dev k)"
      using fc r(1) b by (intro exI [of _ ?dev]) (simp add: device_gekko_io_writesectors_def) }
  fix fd' r w
  assume "gk_fd dev = Some fd'"
  then show "plain_ok dsec start tot ss (dev\<lparr>gk_fd := Some (fd'\<lparr>gf_bytes_read := r, gf_bytes_written := w\<rparr>)\<rparr>) \<and>
      plain_arr dsec (dev\<lparr>gk_fd := Some (fd'\<lparr>gf_bytes_read := r, gf_bytes_written := w\<rparr>)\<rparr>) = plain_arr dsec dev"
    using fc part by (auto simp: plain_ok_def plain_arr_def on_partition_def)
qed

section \<open>The device behind an I/O channel\<close>

lemma io_channel_gekko:
  assumes "io_magic io = EXT2_ET_MAGIC_IO_CHANNEL" "io_manager io = gekko_io_manager"
  shows "io_channel_read_blk64 io b n =
      (let (r, dev) = the (device_gekko_io_read64 (io_dev io) b n) in (r, io\<lparr>io_dev := dev\<rparr>))"
    "io_channel_write_blk64 io b n data =
      (let (r, dev) = the (device_gekko_io_write64 (io_dev io) b n data) in (r, io\<lparr>io_dev := dev\<rparr>))"
  using assms by (simp_all add: io_channel_read_blk64_def io_channel_write_blk64_def gekko_io_manager_def)

lemma cached_close:
  assumes "cached_ok dsec start tot ss dev" "gk_flags dev AND EXT2_FLAG_RW \<noteq> 0"
  shows "\<exists>dev' fd'. device_gekko_io_close dev = (Inr (), dev') \<and> gk_fd dev' = Some fd' \<and> gf_cache fd' = None \<and>
    dsec (gf_dev fd') = cached_arr dsec dev"
proof -
  obtain fd c where fc: "gk_fd dev = Some fd" "gf_cache fd = Some c" "cache_inv dsec c" using assms(1) by (auto simp: cached_ok_def)
  from flush_ok [OF fc(3)] obtain c' where f: "cache_flush (Some c) = (True, Some c')" "cache_inv dsec c'" "lsec dsec c' = lsec dsec c"
    by blast
  then show ?thesis
    using fc assms(2) destructor_disc [OF f(2)] by (simp add: device_gekko_io_close_def cached_arr_def)
qed

section \<open>Properties\<close>


text \<open>A disc of 1000 sectors of four bytes with a partition from sector 10 on, blocks of six bytes.\<close>

definition small_gekko :: "(nat \<Rightarrow> u8) cache \<Rightarrow> (nat \<Rightarrow> u8) gekko" where
  "small_gekko c = \<lparr>gk_magic = EXT2_ET_MAGIC_IO_CHANNEL, gk_block_size = 6, gk_flags = EXT2_FLAG_RW,
     gk_fd = Some \<lparr>gf_interface = Some mem_disc, gf_startSector = 10, gf_sectorCount = 90, gf_sectorSize = 4, gf_offset = 2,
       gf_bytes_read = 0, gf_bytes_written = 0, gf_cache = Some c, gf_cachePageCount = 1, gf_cachePageSize = 1,
       gf_dev = (\<lambda>_. 0), gf_counter = 0\<rparr>, gk_heap = roomy 0\<rparr>"


end
