(* ===== verification/Gekko_Device.thy ===== *)
theory Gekko_Device
  imports Gekko_Bytes Block_Device
begin

text \<open>
  The disc I/O manager provides the interface \<open>block_device\<close>: the code that works on whole
  blocks of a channel may be used on a disc with a sector cache.
\<close>

definition chan_ok :: "('d \<Rightarrow> nat \<Rightarrow> u8 list) \<Rightarrow> nat \<Rightarrow> nat \<Rightarrow> nat \<Rightarrow> nat \<Rightarrow> nat \<Rightarrow> nat \<Rightarrow> 'd gekko io_channel \<Rightarrow> bool" where
  "chan_ok dsec start tot ss off bs nb io \<longleftrightarrow>
     io_magic io = EXT2_ET_MAGIC_IO_CHANNEL \<and> io_manager io = gekko_io_manager \<and>
     cached_ok dsec start tot ss (io_dev io) \<and> gk_flags (io_dev io) AND EXT2_FLAG_RW \<noteq> 0 \<and>
     (\<forall>b. b < 2 ^ 32 \<longrightarrow> granted (gk_heap (io_dev io)) b) \<and> gk_block_size (io_dev io) = int bs \<and>
     (\<exists>fd. gk_fd (io_dev io) = Some fd \<and> gf_offset fd = int off) \<and>
     off + nb * bs \<le> tot * ss \<and> nb \<le> 2 ^ 63 \<and> bs + 2 * ss < 2 ^ 32"

definition chan_blk :: "('d \<Rightarrow> nat \<Rightarrow> u8 list) \<Rightarrow> nat \<Rightarrow> nat \<Rightarrow> nat \<Rightarrow> nat \<Rightarrow> 'd gekko io_channel \<Rightarrow> u64 \<Rightarrow> u8 list" where
  "chan_blk dsec start tot off bs io b =
     take bs (drop (off + unat b * bs) (flat (cached_arr dsec (io_dev io)) start tot))"

lemma chan_ok_step:
  assumes "chan_ok dsec start tot ss off bs nb io" "cached_ok dsec start tot ss dev'" "same_dev (io_dev io) dev'"
  shows "chan_ok dsec start tot ss off bs nb (io\<lparr>io_dev := dev'\<rparr>)"
  using assms unfolding chan_ok_def same_dev_def by auto

lemma block_slices:
  assumes "off + nb * bs \<le> length xs" "a < nb" "c < nb" "length data = bs"
  shows "take bs (drop (off + c * bs) (put_bytes xs (off + a * bs) data)) =
    (if c = a then data else take bs (drop (off + c * bs) xs))"
proof -
  have a: "(a + 1) * bs \<le> nb * bs" and c: "(c + 1) * bs \<le> nb * bs" using assms(2,3) by (intro mult_le_mono1; simp)+
  have fit: "off + a * bs + length data \<le> length xs" using a assms(1,4) by simp
  show ?thesis
  proof (rule nth_equalityI)
    show "length (take bs (drop (off + c * bs) (put_bytes xs (off + a * bs) data))) =
        length (if c = a then data else take bs (drop (off + c * bs) xs))"
      using fit c assms(1,4) by simp
    fix i assume "i < length (take bs (drop (off + c * bs) (put_bytes xs (off + a * bs) data)))"
    then have i: "i < bs" by simp
    have "off + a * bs \<le> off + c * bs + i \<and> off + c * bs + i < off + a * bs + bs \<longleftrightarrow> c = a"
    proof
      assume "off + a * bs \<le> off + c * bs + i \<and> off + c * bs + i < off + a * bs + bs"
      then have "a * bs \<le> c * bs + i" "c * bs + i < a * bs + bs" by linarith+
      then have "a * bs < (c + 1) * bs" "c * bs < (a + 1) * bs" using i by (simp_all add: add_mult_distrib)
      then have "a < c + 1" "c < a + 1" by (metis mult_less_cancel2)+
      then show "c = a" by simp
    qed (use i in simp)
    then show "take bs (drop (off + c * bs) (put_bytes xs (off + a * bs) data)) ! i =
        (if c = a then data else take bs (drop (off + c * bs) xs)) ! i"
      using i fit c assms(1,4) nth_put_bytes [OF fit, of "off + c * bs + i"] by auto
  qed
qed

interpretation gekko: block_device "chan_ok dsec start tot ss off bs nb" "chan_blk dsec start tot off bs" bs nb
proof
  fix io :: "'a gekko io_channel"
  assume ok: "chan_ok dsec start tot ss off bs nb io"
  then have p: "io_magic io = EXT2_ET_MAGIC_IO_CHANNEL" "io_manager io = gekko_io_manager"
    "cached_ok dsec start tot ss (io_dev io)" "gk_flags (io_dev io) AND EXT2_FLAG_RW \<noteq> 0"
    "\<And>b. b < 2 ^ 32 \<Longrightarrow> granted (gk_heap (io_dev io)) b" "gk_block_size (io_dev io) = int bs"
    "off + nb * bs \<le> tot * ss" "nb \<le> 2 ^ 63" "bs + 2 * ss < 2 ^ 32"
    by (auto simp: chan_ok_def)
  obtain fd where fd: "gk_fd (io_dev io) = Some fd" "gf_offset fd = int off" using ok by (auto simp: chan_ok_def)
  let ?B = "flat (cached_arr dsec (io_dev io)) start tot"
  have len: "length ?B = tot * ss" using cached.bytes_length [OF p(3)] .
  have le: "off + unat b * bs + bs \<le> tot * ss" if "unat b < nb" for b :: u64
    using mult_le_mono1 [of "unat b + 1" nb bs] that p(7) by simp
  show "length (chan_blk dsec start tot off bs io b) = bs" if "unat b < nb" for b
    using le [OF that] len by (simp add: chan_blk_def)
  show "\<exists>io'. io_channel_read_blk64 io b 1 = (Inr (chan_blk dsec start tot off bs io b), io') \<and>
      chan_ok dsec start tot ss off bs nb io' \<and> chan_blk dsec start tot off bs io' = chan_blk dsec start tot off bs io"
    if b: "unat b < nb" for b
  proof -
    have "unat b < 2 ^ 63" "off + unat b * bs + 1 * bs \<le> tot * ss" "1 * bs + 2 * ss < 2 ^ 32"
      using b p(8,9) le [OF b] by simp_all
    from cached.read64_ok [OF p(3,6) fd this p(5)] obtain dev' where r:
      "device_gekko_io_read64 (io_dev io) b (int 1) = Some (Inr (take (1 * bs) (drop (off + unat b * bs) ?B)), dev')"
      "cached_ok dsec start tot ss dev'" "flat (cached_arr dsec dev') start tot = ?B" "same_dev (io_dev io) dev'" by blast
    have "io_channel_read_blk64 io b 1 = (Inr (chan_blk dsec start tot off bs io b), io\<lparr>io_dev := dev'\<rparr>)"
      using r(1) by (simp add: io_channel_gekko [OF p(1,2)] chan_blk_def)
    then show ?thesis
      using chan_ok_step [OF ok r(2,4)] r(3) by (intro exI [of _ "io\<lparr>io_dev := dev'\<rparr>"]) (simp add: chan_blk_def fun_eq_iff)
  qed
  show "\<exists>io'. io_channel_read_blk64 io b (- int n) = (Inr (take n (chan_blk dsec start tot off bs io b)), io') \<and>
      chan_ok dsec start tot ss off bs nb io' \<and> chan_blk dsec start tot off bs io' = chan_blk dsec start tot off bs io"
    if b: "unat b < nb" and n: "0 < n" "n \<le> bs" for b n
  proof -
    have "unat b < 2 ^ 63" "(if - int n < 0 then - (- int n) else - int n * int bs) = int n"
        "off + unat b * bs + n \<le> tot * ss" "n + 2 * ss < 2 ^ 32"
      using b p(8,9) le [OF b] n by simp_all
    from cached.read64_len [OF p(3,6) fd this p(5)] obtain dev' where r:
      "device_gekko_io_read64 (io_dev io) b (- int n) = Some (Inr (take n (drop (off + unat b * bs) ?B)), dev')"
      "cached_ok dsec start tot ss dev'" "flat (cached_arr dsec dev') start tot = ?B" "same_dev (io_dev io) dev'" by blast
    have "io_channel_read_blk64 io b (- int n) = (Inr (take n (chan_blk dsec start tot off bs io b)), io\<lparr>io_dev := dev'\<rparr>)"
      using r(1) n(2) by (simp add: io_channel_gekko [OF p(1,2)] chan_blk_def min_absorb1)
    then show ?thesis
      using chan_ok_step [OF ok r(2,4)] r(3) by (intro exI [of _ "io\<lparr>io_dev := dev'\<rparr>"]) (simp add: chan_blk_def fun_eq_iff)
  qed
  show "\<exists>io'. io_channel_write_blk64 io b 1 data = (Inr (), io') \<and> chan_ok dsec start tot ss off bs nb io' \<and>
      (\<forall>c. unat c < nb \<longrightarrow> chan_blk dsec start tot off bs io' c = (if c = b then data else chan_blk dsec start tot off bs io c))"
    if b: "unat b < nb" and data: "length data = bs" for b data
  proof -
    have "unat b < 2 ^ 63" "off + unat b * bs + 1 * bs \<le> tot * ss" "1 * bs + 2 * ss < 2 ^ 32" "1 * bs \<le> length data"
      using b p(8,9) le [OF b] data by simp_all
    from cached.write64_ok [OF p(3,6) fd this(1-3) p(5) this(4) p(4)] obtain dev' where r:
      "device_gekko_io_write64 (io_dev io) b (int 1) data = Some (Inr (), dev')" "cached_ok dsec start tot ss dev'"
      "flat (cached_arr dsec dev') start tot = put_bytes ?B (off + unat b * bs) (take (1 * bs) data)" "same_dev (io_dev io) dev'"
      by blast
    have "io_channel_write_blk64 io b 1 data = (Inr (), io\<lparr>io_dev := dev'\<rparr>)"
      using r(1) by (simp add: io_channel_gekko [OF p(1,2)])
    moreover have "chan_blk dsec start tot off bs (io\<lparr>io_dev := dev'\<rparr>) c =
        (if c = b then data else chan_blk dsec start tot off bs io c)" if "unat c < nb" for c
      using block_slices [of off nb bs ?B "unat b" "unat c" data] p(7) len b that data r(3)
      by (simp add: chan_blk_def word_unat_eq_iff)
    ultimately show ?thesis using chan_ok_step [OF ok r(2,4)] by blast
  qed
  show "io_channel_read_blk io c 1 = io_channel_read_blk64 io (ucast c) 1" for c
    by (simp add: io_channel_gekko [OF p(1,2)] io_channel_read_blk_def p(2))
      (simp add: gekko_io_manager_def device_gekko_io_read_def)
  show "io_channel_write_blk io c 1 data = io_channel_write_blk64 io (ucast c) 1 data" for c data
    by (simp add: io_channel_gekko [OF p(1,2)] io_channel_write_blk_def p(2))
      (simp add: gekko_io_manager_def device_gekko_io_write_def)
qed

section \<open>A sample\<close>

text \<open>A disc of 10240 sectors of four bytes behind a channel of 40 blocks of 1024 bytes.\<close>

definition block_gekko :: "(nat \<Rightarrow> u8) cache \<Rightarrow> (nat \<Rightarrow> u8) gekko" where
  "block_gekko c = (small_gekko c)\<lparr>gk_block_size := 1024,
     gk_fd := map_option (\<lambda>fd. fd\<lparr>gf_startSector := 0, gf_sectorCount := 10240, gf_offset := 0\<rparr>) (gk_fd (small_gekko c))\<rparr>"

definition block_channel :: "(nat \<Rightarrow> u8) cache \<Rightarrow> (nat \<Rightarrow> u8) gekko io_channel" where
  "block_channel c = \<lparr>io_magic = EXT2_ET_MAGIC_IO_CHANNEL, io_manager = gekko_io_manager, io_dev = block_gekko c\<rparr>"

lemma block_channel_ok:
  "\<exists>c. cache_constructor (roomy 0) (\<lambda>_. 0) 0 1 1 mem_disc 10240 4 = Some c \<and> chan_ok mem_sect 0 10240 4 0 1024 40 (block_channel c)"
proof -
  have m: "max (1 :: u32) 16 = 16" "max (1 :: u32) 32 = 32" by (simp_all add: max_def)
  have "\<exists>c. cache_constructor (roomy 0) (\<lambda>_. 0) 0 1 1 mem_disc 10240 4 = Some c \<and> cache_inv mem_sect c \<and>
      lsec mem_sect c = mem_sect (\<lambda>_. 0) \<and> ca_dev c = (\<lambda>_. 0) \<and> ca_end c = 10240 \<and> ca_sectorSize c = 4 \<and> ca_disc c = mem_disc"
    by (rule constructor_ok) (simp_all add: mem_disc_ok m roomy_def granted_def)
  then obtain c where c: "cache_constructor (roomy 0) (\<lambda>_. 0) 0 1 1 mem_disc 10240 4 = Some c" "cache_inv mem_sect c"
    "ca_end c = 10240" "ca_sectorSize c = 4" by blast
  have "cached_ok mem_sect 0 10240 4 (block_gekko c)"
    using c by (simp add: cached_ok_def on_partition_def block_gekko_def small_gekko_def)
  then have "chan_ok mem_sect 0 10240 4 0 1024 40 (block_channel c)"
    by (simp add: chan_ok_def block_channel_def) (simp add: block_gekko_def small_gekko_def EXT2_FLAG_RW_def roomy_def granted_def)
  then show ?thesis using c(1) by blast
qed

end
