(* ===== verification/Inode_Io.thy ===== *)
theory Inode_Io
  imports Inode_Mem Gekko_Device
begin

text \<open>
  Reading and writing single inodes (\<open>source/inode.c\<close>): the inode cache of the handle, the
  block of the inode table it holds, and the transfers through the channel. The lemmas show that an
  inode that is read after it was written is the inode that was written.
\<close>

section \<open>Calls that do not return\<close>

text \<open>
  A loop of the code that may spin for ever on a damaged structure is given a bound; a call that
  reaches it has the value \<open>NO_RETURN\<close>, which no code of the library has.
\<close>

definition NO_RETURN :: errcode where "NO_RETURN = ERR_OTHER (- 1)"

text \<open>\<open>EXT2_BLOCK_SIZE_BITS\<close>.\<close>

definition EXT2_BLOCK_SIZE_BITS :: "super_block \<Rightarrow> nat" where
  "EXT2_BLOCK_SIZE_BITS s = unat (s_log_block_size s + 10)"

section \<open>The cache\<close>

definition ext2fs_flush_icache :: "filsys \<Rightarrow> filsys" where
  "ext2fs_flush_icache fs =
     (case fs_icache fs of
        None \<Rightarrow> fs
      | Some ic \<Rightarrow>
          fs\<lparr>fs_icache := Some (ic\<lparr>ica_cache := map (\<lambda>e. e\<lparr>icent_ino := 0\<rparr>) (take (ica_cache_size ic) (ica_cache ic)) @
                                            drop (ica_cache_size ic) (ica_cache ic),
                               ica_buffer_blk := 0\<rparr>)\<rparr>)"

text \<open>The structure has 24 bytes, an entry 132: the number and an inode.\<close>

definition create_icache :: "u8 heap \<Rightarrow> filsys \<Rightarrow> unit result \<times> filsys" where
  "create_icache h fs =
     (case fs_icache fs of
        Some _ \<Rightarrow> (Inr (), fs)
      | None \<Rightarrow>
          (case ext2fs_get_mem h 24 of
             Inl e \<Rightarrow> (Inl e, fs)
           | Inr _ \<Rightarrow>
               (case ext2fs_get_mem h (unat (fs_blocksize fs)) of
                  Inl e \<Rightarrow> (Inl e, fs)
                | Inr _ \<Rightarrow>
                    (case ext2fs_get_array h 4 132 of
                       Inl e \<Rightarrow> (Inl e, fs)
                     | Inr _ \<Rightarrow>
                         let ents = map (\<lambda>k. \<lparr>icent_ino = 0, icent_inode = inode_of_mem (map (fresh h) [132 * k + 4..<132 * k + 132])\<rparr>) [0..<4];
                             ic = \<lparr>ica_buffer = map (fresh h) [0..<unat (fs_blocksize fs)], ica_buffer_blk = 0,
                                   ica_cache_last = -1, ica_cache_size = 4, ica_refcount = 1, ica_cache = ents\<rparr>
                         in (Inr (), ext2fs_flush_icache (fs\<lparr>fs_icache := Some ic\<rparr>))))))"

definition the_icache :: "filsys \<Rightarrow> inode_cache" where
  "the_icache fs = the (fs_icache fs)"

text \<open>The first entry for an inode.\<close>

definition icache_find :: "inode_cache \<Rightarrow> u32 \<Rightarrow> inode_cache_ent option" where
  "icache_find ic ino = find (\<lambda>e. icent_ino e = ino) (take (ica_cache_size ic) (ica_cache ic))"

definition icache_add :: "inode_cache \<Rightarrow> u32 \<Rightarrow> inode \<Rightarrow> inode_cache" where
  "icache_add ic ino i =
     (let last = (ica_cache_last ic + 1) mod int (ica_cache_size ic)
      in ic\<lparr>ica_cache_last := last, ica_cache := (ica_cache ic)[nat last := \<lparr>icent_ino = ino, icent_inode = i\<rparr>]\<rparr>)"

fun icache_update_ents :: "inode_cache_ent list \<Rightarrow> u32 \<Rightarrow> inode \<Rightarrow> inode_cache_ent list" where
  "icache_update_ents [] ino i = []"
| "icache_update_ents (e # es) ino i =
     (if icent_ino e = ino then e\<lparr>icent_inode := i\<rparr> # es else e # icache_update_ents es ino i)"

definition icache_update :: "inode_cache \<Rightarrow> u32 \<Rightarrow> inode \<Rightarrow> inode_cache" where
  "icache_update ic ino i = ic\<lparr>ica_cache := icache_update_ents (ica_cache ic) ino i\<rparr>"

section \<open>The block buffer\<close>

text \<open>The block of the table the cache holds; the number is kept in 32 bits.\<close>

definition icache_load :: "filsys \<Rightarrow> 'd io_channel \<Rightarrow> u64 \<Rightarrow> unit result \<times> filsys \<times> 'd io_channel" where
  "icache_load fs io block_nr =
     (let ic = the_icache fs in
      if block_nr \<noteq> ucast (ica_buffer_blk ic) then
        (case io_channel_read_blk64 io block_nr 1 of
           (Inl e, io) \<Rightarrow> (Inl e, fs, io)
         | (Inr data, io) \<Rightarrow>
             (Inr (), fs\<lparr>fs_icache := Some (ic\<lparr>ica_buffer := data, ica_buffer_blk := ucast block_nr\<rparr>)\<rparr>, io))
      else (Inr (), fs, io))"

text \<open>The bytes of the next piece: up to the end of the block.\<close>

definition piece_len :: "filsys \<Rightarrow> u32 \<Rightarrow> nat \<Rightarrow> nat" where
  "piece_len fs offset len =
     (if offset + of_nat len > fs_blocksize fs then unat (fs_blocksize fs - offset) else len)"

text \<open>
  The loop of a read: \<open>ptr\<close> is the offset in the caller's buffer. A piece has no bytes only
  when the block size of the handle is not that of the superblock.
\<close>

function read_inode_loop :: "filsys \<Rightarrow> 'd io_channel \<Rightarrow> u8 list \<Rightarrow> nat \<Rightarrow> u64 \<Rightarrow> u32 \<Rightarrow> nat \<Rightarrow>
    u8 list result \<times> filsys \<times> 'd io_channel" where
  "read_inode_loop fs io buf ptr block_nr offset len =
     (if len = 0 then (Inr buf, fs, io)
      else
        let clen = piece_len fs offset len in
        case icache_load fs io block_nr of
          (Inl e, fs, io) \<Rightarrow> (Inl e, fs, io)
        | (Inr _, fs, io) \<Rightarrow>
            let buf = put_bytes buf ptr (take clen (drop (unat offset) (ica_buffer (the_icache fs)))) in
            if clen = 0 then (Inl NO_RETURN, fs, io)
            else read_inode_loop fs io buf (ptr + clen) (block_nr + 1) 0 (len - clen))"
  by pat_completeness auto
termination by (relation "measure (\<lambda>(_, _, _, _, _, _, len). len)") auto

declare read_inode_loop.simps [simp del]

text \<open>Where an inode is stored: the block, and the offset before it is reduced to the block.\<close>

definition inode_place :: "filsys \<Rightarrow> u32 \<Rightarrow> u64 \<times> u32" where
  "inode_place fs ino =
     (let g = (ino - 1) div s_inodes_per_group (fs_super fs);
          offset = ((ino - 1) mod s_inodes_per_group (fs_super fs)) * of_nat (EXT2_INODE_SIZE (fs_super fs));
          block = drop_bit (EXT2_BLOCK_SIZE_BITS (fs_super fs)) offset
      in (ext2fs_inode_table_loc fs g + ucast block, offset))"

section \<open>Reading\<close>

text \<open>
  The caller's buffer comes with its contents, \<open>bufsize\<close> is its length. The result is the
  buffer after the call; when the call fails the buffer is lost.
\<close>

definition ext2fs_read_inode_full :: "u8 heap \<Rightarrow> filsys \<Rightarrow> 'd io_channel \<Rightarrow> u32 \<Rightarrow> u8 list \<Rightarrow>
    u8 list result \<times> filsys \<times> 'd io_channel" where
  "ext2fs_read_inode_full h fs io ino buf =
     (if fs_magic fs \<noteq> EXT2_ET_MAGIC_EXT2FS_FILSYS then (Inl EXT2_ET_MAGIC_EXT2FS_FILSYS, fs, io)
      else if ino = 0 \<or> ino > s_inodes_count (fs_super fs) then (Inl EXT2_ET_BAD_INODE_NUM, fs, io)
      else
        case create_icache h fs of
          (Inl e, fs) \<Rightarrow> (Inl e, fs, io)
        | (Inr _, fs) \<Rightarrow>
            (case (if length buf = 128 then icache_find (the_icache fs) ino else None) of
               Some ent \<Rightarrow> (Inr (mem_of_inode (icent_inode ent)), fs, io)
             | None \<Rightarrow>
                 let super = fs_super fs;
                     isize = EXT2_INODE_SIZE super;
                     place =
                       (if fs_flags fs AND EXT2_FLAG_IMAGE_FILE \<noteq> 0 then
                          let inodes_per_block = fs_blocksize fs div of_nat isize;
                              start = (case fs_image_header fs of Some hdr \<Rightarrow> offset_inode hdr | None \<Rightarrow> 0) div fs_blocksize fs
                          in Inr (ucast start + ucast ((ino - 1) div inodes_per_block),
                                  ((ino - 1) mod inodes_per_block) * of_nat isize)
                        else
                          let g = (ino - 1) div s_inodes_per_group super in
                          if g > fs_group_desc_count fs then Inl EXT2_ET_BAD_INODE_NUM
                          else if ext2fs_inode_table_loc fs g = 0 then Inl EXT2_ET_MISSING_INODE_TABLE
                          else Inr (inode_place fs ino))
                 in
                 case place of
                   Inl e \<Rightarrow> (Inl e, fs, io)
                 | Inr (block_nr, offset) \<Rightarrow>
                     (case read_inode_loop fs io buf 0 block_nr (offset AND (EXT2_BLOCK_SIZE super - 1)) (min isize (length buf)) of
                        (Inl e, fs, io) \<Rightarrow> (Inl e, fs, io)
                      | (Inr buf, fs, io) \<Rightarrow>
                          let buf = ext2fs_swap_inode_full fs buf None False (length buf)
                          in (Inr buf, fs\<lparr>fs_icache := Some (icache_add (the_icache fs) ino (inode_of_mem buf))\<rparr>, io))))"

definition ext2fs_read_inode :: "u8 heap \<Rightarrow> filsys \<Rightarrow> 'd io_channel \<Rightarrow> u32 \<Rightarrow> inode result \<times> filsys \<times> 'd io_channel" where
  "ext2fs_read_inode h fs io ino =
     (case ext2fs_read_inode_full h fs io ino (map (fresh h) [0..<128]) of
        (Inl e, fs, io) \<Rightarrow> (Inl e, fs, io)
      | (Inr buf, fs, io) \<Rightarrow> (Inr (inode_of_mem buf), fs, io))"

section \<open>Writing\<close>

function write_inode_loop :: "filsys \<Rightarrow> 'd io_channel \<Rightarrow> u8 list \<Rightarrow> nat \<Rightarrow> u64 \<Rightarrow> u32 \<Rightarrow> nat \<Rightarrow>
    unit result \<times> filsys \<times> 'd io_channel" where
  "write_inode_loop fs io w_inode ptr block_nr offset len =
     (if len = 0 then (Inr (), fs, io)
      else
        let clen = piece_len fs offset len in
        case icache_load fs io block_nr of
          (Inl e, fs, io) \<Rightarrow> (Inl e, fs, io)
        | (Inr _, fs, io) \<Rightarrow>
            let ic = the_icache fs;
                data = put_bytes (ica_buffer ic) (unat offset) (take clen (drop ptr w_inode));
                fs = fs\<lparr>fs_icache := Some (ic\<lparr>ica_buffer := data\<rparr>)\<rparr>
            in
            case io_channel_write_blk64 io block_nr 1 data of
              (Inl e, io) \<Rightarrow> (Inl e, fs, io)
            | (Inr _, io) \<Rightarrow>
                if clen = 0 then (Inl NO_RETURN, fs, io)
                else write_inode_loop fs io w_inode (ptr + clen) (block_nr + 1) 0 (len - clen))"
  by pat_completeness auto
termination by (relation "measure (\<lambda>(_, _, _, _, _, _, len). len)") auto

declare write_inode_loop.simps [simp del]

definition ext2fs_write_inode_full :: "u8 heap \<Rightarrow> filsys \<Rightarrow> 'd io_channel \<Rightarrow> u32 \<Rightarrow> u8 list \<Rightarrow>
    unit result \<times> filsys \<times> 'd io_channel" where
  "ext2fs_write_inode_full h fs io ino buf =
     (if fs_magic fs \<noteq> EXT2_ET_MAGIC_EXT2FS_FILSYS then (Inl EXT2_ET_MAGIC_EXT2FS_FILSYS, fs, io)
      else
        case (case fs_icache fs of
                Some ic \<Rightarrow> (Inr (), fs\<lparr>fs_icache := Some (icache_update ic ino (inode_of_mem buf))\<rparr>)
              | None \<Rightarrow> create_icache h fs) of
          (Inl e, fs) \<Rightarrow> (Inl e, fs, io)
        | (Inr _, fs) \<Rightarrow>
            if fs_flags fs AND EXT2_FLAG_RW = 0 then (Inl EXT2_ET_RO_FILSYS, fs, io)
            else if ino = 0 \<or> ino > s_inodes_count (fs_super fs) then (Inl EXT2_ET_BAD_INODE_NUM, fs, io)
            else
              let super = fs_super fs;
                  isize = EXT2_INODE_SIZE super;
                  len = max (length buf) isize
              in
              if len > SIZEOF_INODE_LARGE \<and> \<not> granted h len then (Inl ENOMEM, fs, io)
              else
                let w_inode = ext2fs_swap_inode_full fs (replicate len 0) (Some buf) True (length buf);
                    g = (ino - 1) div s_inodes_per_group super
                in
                if ext2fs_inode_table_loc fs g = 0 then (Inl EXT2_ET_MISSING_INODE_TABLE, fs, io)
                else
                  let (block_nr, offset) = inode_place fs ino in
                  case write_inode_loop fs io w_inode 0 block_nr (offset AND (EXT2_BLOCK_SIZE super - 1)) (min isize (length buf)) of
                    (Inl e, fs, io) \<Rightarrow> (Inl e, fs, io)
                  | (Inr _, fs, io) \<Rightarrow> (Inr (), fs\<lparr>fs_flags := fs_flags fs OR EXT2_FLAG_CHANGED\<rparr>, io))"

definition ext2fs_write_inode :: "u8 heap \<Rightarrow> filsys \<Rightarrow> 'd io_channel \<Rightarrow> u32 \<Rightarrow> inode \<Rightarrow> unit result \<times> filsys \<times> 'd io_channel" where
  "ext2fs_write_inode h fs io ino i = ext2fs_write_inode_full h fs io ino (mem_of_inode i)"

text \<open>\<open>clock\<close> is what \<open>time\<close> gives; the caller's inode gets the times that were zero.\<close>

definition ext2fs_write_new_inode :: "u8 heap \<Rightarrow> u32 \<Rightarrow> filsys \<Rightarrow> 'd io_channel \<Rightarrow> u32 \<Rightarrow> inode \<Rightarrow>
    unit result \<times> inode \<times> filsys \<times> 'd io_channel" where
  "ext2fs_write_new_inode h clock fs io ino i =
     (let size = EXT2_INODE_SIZE (fs_super fs);
          t = (if fs_now fs \<noteq> 0 then fs_now fs else clock);
          i = (if i_ctime i = 0 then i\<lparr>i_ctime := t\<rparr> else i);
          i = (if i_mtime i = 0 then i\<lparr>i_mtime := t\<rparr> else i);
          i = (if i_atime i = 0 then i\<lparr>i_atime := t\<rparr> else i)
      in
      if size = 128 then
        let (r, fs, io) = ext2fs_write_inode_full h fs io ino (mem_of_inode i) in (r, i, fs, io)
      else if \<not> granted h size then (Inl ENOMEM, i, fs, io)
      else
        let buf = put_bytes (replicate size 0) 0 (mem_of_inode i);
            buf = st16 buf 128 (of_nat (SIZEOF_INODE_LARGE - EXT2_GOOD_OLD_INODE_SIZE));
            buf = (if ld32 buf 144 = 0 then st32 buf 144 t else buf);
            (r, fs, io) = ext2fs_write_inode_full h fs io ino buf
        in (r, i, fs, io))"

section \<open>Uses\<close>

definition ext2fs_get_blocks :: "u8 heap \<Rightarrow> filsys \<Rightarrow> 'd io_channel \<Rightarrow> u32 \<Rightarrow> u32 list result \<times> filsys \<times> 'd io_channel" where
  "ext2fs_get_blocks h fs io ino =
     (if fs_magic fs \<noteq> EXT2_ET_MAGIC_EXT2FS_FILSYS then (Inl EXT2_ET_MAGIC_EXT2FS_FILSYS, fs, io)
      else if ino > s_inodes_count (fs_super fs) then (Inl EXT2_ET_BAD_INODE_NUM, fs, io)
      else case ext2fs_read_inode h fs io ino of
        (Inl e, fs, io) \<Rightarrow> (Inl e, fs, io)
      | (Inr i, fs, io) \<Rightarrow> (Inr (take 15 (i_block i)), fs, io))"

definition ext2fs_check_directory :: "u8 heap \<Rightarrow> filsys \<Rightarrow> 'd io_channel \<Rightarrow> u32 \<Rightarrow> unit result \<times> filsys \<times> 'd io_channel" where
  "ext2fs_check_directory h fs io ino =
     (if fs_magic fs \<noteq> EXT2_ET_MAGIC_EXT2FS_FILSYS then (Inl EXT2_ET_MAGIC_EXT2FS_FILSYS, fs, io)
      else if ino > s_inodes_count (fs_super fs) then (Inl EXT2_ET_BAD_INODE_NUM, fs, io)
      else case ext2fs_read_inode h fs io ino of
        (Inl e, fs, io) \<Rightarrow> (Inl e, fs, io)
      | (Inr i, fs, io) \<Rightarrow> (if LINUX_S_ISDIR (i_mode i) then Inr () else Inl EXT2_ET_NO_DIRECTORY, fs, io))"

section \<open>Where inodes are stored\<close>

definition erase :: "inode \<Rightarrow> inode" where "erase i = i\<lparr>l_i_reserved := 0\<rparr>"

text \<open>The offset of an inode on the device.\<close>

definition inode_pos :: "filsys \<Rightarrow> u32 \<Rightarrow> nat" where
  "inode_pos fs ino =
     unat (ext2fs_inode_table_loc fs ((ino - 1) div s_inodes_per_group (fs_super fs))) * unat (fs_blocksize fs) +
     unat ((ino - 1) mod s_inodes_per_group (fs_super fs)) * EXT2_INODE_SIZE (fs_super fs)"

definition valid_ino :: "filsys \<Rightarrow> u32 \<Rightarrow> bool" where
  "valid_ino fs ino \<longleftrightarrow> ino \<noteq> 0 \<and> ino \<le> s_inodes_count (fs_super fs)"

text \<open>
  A handle whose inode tables are within the \<open>nb\<close> blocks of the device, and apart: the places
  of two inodes do not overlap, and none is in the first block. The block numbers have 32 bits, the
  width of the number the cache keeps.
\<close>

definition itable_ok :: "filsys \<Rightarrow> nat \<Rightarrow> nat \<Rightarrow> bool" where
  "itable_ok fs bs nb \<longleftrightarrow>
     fs_magic fs = EXT2_ET_MAGIC_EXT2FS_FILSYS \<and> fs_flags fs AND EXT2_FLAG_IMAGE_FILE = 0 \<and>
     s_creator_os (fs_super fs) = EXT2_OS_LINUX \<and> s_log_block_size (fs_super fs) \<le> 6 \<and>
     fs_blocksize fs = EXT2_BLOCK_SIZE (fs_super fs) \<and> unat (fs_blocksize fs) = bs \<and> nb \<le> 2 ^ 32 \<and>
     128 \<le> EXT2_INODE_SIZE (fs_super fs) \<and> EXT2_INODE_SIZE (fs_super fs) dvd bs \<and>
     (\<forall>ino. valid_ino fs ino \<longrightarrow>
        (ino - 1) div s_inodes_per_group (fs_super fs) \<le> fs_group_desc_count fs \<and>
        ext2fs_inode_table_loc fs ((ino - 1) div s_inodes_per_group (fs_super fs)) \<noteq> 0 \<and>
        unat ((ino - 1) mod s_inodes_per_group (fs_super fs)) * EXT2_INODE_SIZE (fs_super fs) < 2 ^ 32 \<and>
        inode_pos fs ino + EXT2_INODE_SIZE (fs_super fs) \<le> nb * bs) \<and>
     (\<forall>i j. valid_ino fs i \<longrightarrow> valid_ino fs j \<longrightarrow> i \<noteq> j \<longrightarrow>
        inode_pos fs i + EXT2_INODE_SIZE (fs_super fs) \<le> inode_pos fs j \<or>
        inode_pos fs j + EXT2_INODE_SIZE (fs_super fs) \<le> inode_pos fs i)"

text \<open>The cache does not enter the layout.\<close>

lemma itable_cong:
  assumes "fs_super fs' = fs_super fs" "fs_group_desc fs' = fs_group_desc fs" "fs_blocksize fs' = fs_blocksize fs"
  shows "inode_pos fs' = inode_pos fs" "valid_ino fs' = valid_ino fs" "ext2fs_inode_table_loc fs' = ext2fs_inode_table_loc fs"
proof -
  show loc: "ext2fs_inode_table_loc fs' = ext2fs_inode_table_loc fs"
    by (rule ext) (simp add: ext2fs_inode_table_loc_def ext2fs_group_desc_def assms(1,2))
  show "inode_pos fs' = inode_pos fs" "valid_ino fs' = valid_ino fs"
    by (simp_all add: inode_pos_def valid_ino_def fun_eq_iff loc assms)
qed

lemma inode_place_pos:
  assumes "itable_ok fs bs nb" "valid_ino fs ino" "inode_place fs ino = (b, off)"
  shows "unat b = inode_pos fs ino div bs" "unat (off AND (EXT2_BLOCK_SIZE (fs_super fs) - 1)) = inode_pos fs ino mod bs"
    "inode_pos fs ino mod bs + EXT2_INODE_SIZE (fs_super fs) \<le> bs" "unat b < nb" "b \<noteq> 0" "0 < bs"
proof -
  let ?is = "EXT2_INODE_SIZE (fs_super fs)" and ?k = "unat (s_log_block_size (fs_super fs)) + 10"
  let ?idx = "(ino - 1) mod s_inodes_per_group (fs_super fs)"
  let ?loc = "ext2fs_inode_table_loc fs ((ino - 1) div s_inodes_per_group (fs_super fs))"
  have ok: "s_log_block_size (fs_super fs) \<le> 6" "fs_blocksize fs = EXT2_BLOCK_SIZE (fs_super fs)" "unat (fs_blocksize fs) = bs"
    "?is dvd bs" "128 \<le> ?is" "?loc \<noteq> 0" "unat ?idx * ?is < 2 ^ 32" "inode_pos fs ino + ?is \<le> nb * bs" "nb \<le> 2 ^ 32"
    using assms(1,2) unfolding itable_ok_def by blast+
  have log: "unat (s_log_block_size (fs_super fs)) \<le> 6" using ok(1) by (simp add: word_le_nat_alt)
  have b1: "EXT2_BLOCK_SIZE (fs_super fs) = push_bit ?k 1"
    using push_bit_push_bit [of "unat (s_log_block_size (fs_super fs))" 10 "1 :: u32"]
    by (simp add: EXT2_BLOCK_SIZE_def push_bit_eq_mult)
  have k: "?k < 32" using log by simp
  have bs: "bs = 2 ^ ?k"
  proof -
    have "bs = take_bit 32 (push_bit ?k 1)"
      using ok(2,3) unsigned_push_bit_eq [of ?k "1 :: u32", where ?'a = nat] by (simp only: b1) simp
    moreover have "(2 :: nat) ^ ?k < 2 ^ 32" using k by (intro power_strict_increasing) simp_all
    ultimately show ?thesis by (simp only: push_bit_of_1 take_bit_nat_eq_self)
  qed
  have "?is \<le> bs" using ok(4) bs by (intro dvd_imp_le) simp_all
  moreover have "bs \<le> 2 ^ 16" unfolding bs using log by (intro power_increasing) simp_all
  ultimately have isz: "?is < 2 ^ 32" by simp
  let ?p = "unat ?idx * ?is"
  have p: "unat (?idx * of_nat ?is) = ?p"
    using ok(7) isz by (simp add: unat_mult_lem [THEN iffD1] unat_of_nat_small)
  have pos: "inode_pos fs ino = unat ?loc * bs + ?p" by (simp add: inode_pos_def ok(3))
  have bs0: "0 < bs" by (simp add: bs)
  show "0 < bs" by (rule bs0)
  have d: "inode_pos fs ino div bs = unat ?loc + ?p div bs" and m: "inode_pos fs ino mod bs = ?p mod bs"
    using bs0 by (simp_all add: pos)
  have "inode_pos fs ino < nb * bs" using ok(5,8) by linarith
  then have dn: "inode_pos fs ino div bs < nb" by (simp add: less_mult_imp_div_less)
  have bits: "EXT2_BLOCK_SIZE_BITS (fs_super fs) = ?k"
    using log unat_add_small [of "s_log_block_size (fs_super fs)" 10] by (simp add: EXT2_BLOCK_SIZE_BITS_def)
  have e: "b = ?loc + ucast (drop_bit ?k (?idx * of_nat ?is))" "off = ?idx * of_nat ?is"
    using assms(3) unfolding inode_place_def Let_def bits by auto
  have dv: "unat (drop_bit ?k (?idx * of_nat ?is)) = ?p div bs"
    by (simp only: unat_drop_bit_eq p bs) (rule drop_bit_eq_div)
  have "unat ?loc + ?p div bs < 2 ^ 64" using dn d ok(9) by simp
  moreover from this have "take_bit 64 (?p div bs) = ?p div bs" by (intro take_bit_nat_eq_self) simp
  ultimately show b: "unat b = inode_pos fs ino div bs"
    unfolding d e(1) by (subst unat_add_small) (simp_all only: unsigned_ucast_eq dv, simp_all)
  show "unat b < nb" using b dn by simp
  show "b \<noteq> 0" using b d ok(6) by (simp add: unat_eq_0 [symmetric])
  have mask: "off AND (EXT2_BLOCK_SIZE (fs_super fs) - 1) = take_bit ?k off"
    unfolding b1 take_bit_eq_mask mask_eq_decr_exp push_bit_of_1 ..
  show "unat (off AND (EXT2_BLOCK_SIZE (fs_super fs) - 1)) = inode_pos fs ino mod bs"
    unfolding mask unfolding m e(2) by (simp only: unsigned_take_bit_eq p bs) (rule take_bit_eq_mod)
  have "?is dvd ?p mod bs" using ok(4) by (simp add: dvd_mod_iff)
  then obtain q where q: "?p mod bs = ?is * q" ..
  obtain r where r: "bs = ?is * r" using ok(4) ..
  have "?p mod bs < bs" using bs0 by simp
  then have "q < r" unfolding q by (subst (asm) r) simp
  then have "?is * (q + 1) \<le> ?is * r" by (intro mult_le_mono2) simp
  then show "inode_pos fs ino mod bs + ?is \<le> bs" unfolding m q using r by (simp add: algebra_simps)
qed

section \<open>One piece\<close>

text \<open>An inode of 128 bytes within a block is transferred in one piece.\<close>

lemma piece_len_whole:
  assumes "unat off + n \<le> unat (fs_blocksize fs)"
  shows "piece_len fs off n = n"
proof -
  have b: "unat (fs_blocksize fs) < 2 ^ 32" by (rule unat_u32_bound)
  then have "unat (off + of_nat n) = unat off + n" using assms by (intro unat_plus_of_nat) simp
  then show ?thesis using assms by (simp add: piece_len_def word_less_nat_alt)
qed

lemma read_inode_loop_one:
  assumes "0 < n" "unat off + n \<le> unat (fs_blocksize fs)"
  shows "read_inode_loop fs io buf 0 b off n =
    (case icache_load fs io b of
       (Inl e, fs, io) \<Rightarrow> (Inl e, fs, io)
     | (Inr _, fs, io) \<Rightarrow> (Inr (put_bytes buf 0 (take n (drop (unat off) (ica_buffer (the_icache fs))))), fs, io))"
  using assms by (subst read_inode_loop.simps)
    (auto simp: piece_len_whole Let_def read_inode_loop.simps [of _ _ _ _ _ _ 0] split: prod.splits sum.splits)

lemma write_inode_loop_one:
  assumes "0 < n" "unat off + n \<le> unat (fs_blocksize fs)"
  shows "write_inode_loop fs io w 0 b off n =
    (case icache_load fs io b of
       (Inl e, fs, io) \<Rightarrow> (Inl e, fs, io)
     | (Inr _, fs, io) \<Rightarrow>
         let ic = the_icache fs;
             data = put_bytes (ica_buffer ic) (unat off) (take n w);
             fs = fs\<lparr>fs_icache := Some (ic\<lparr>ica_buffer := data\<rparr>)\<rparr>
         in case io_channel_write_blk64 io b 1 data of
              (Inl e, io) \<Rightarrow> (Inl e, fs, io)
            | (Inr _, io) \<Rightarrow> (Inr (), fs, io))"
  using assms by (subst write_inode_loop.simps)
    (auto simp: piece_len_whole Let_def write_inode_loop.simps [of _ _ _ _ _ _ 0] split: prod.splits sum.splits)

lemma slice_put_bytes:
  assumes "p + length xs \<le> length B" "q + n \<le> length B"
  shows "q + n \<le> p \<or> p + length xs \<le> q \<Longrightarrow> take n (drop q (put_bytes B p xs)) = take n (drop q B)"
    "take (length xs) (drop p (put_bytes B p xs)) = xs"
  using assms by (auto intro!: nth_equalityI simp: nth_put_bytes)

section \<open>The stored inodes\<close>

text \<open>An inode as the blocks hold it; \<open>l_i_reserved\<close> is left out.\<close>

definition inode_on :: "filsys \<Rightarrow> (u64 \<Rightarrow> u8 list) \<Rightarrow> u32 \<Rightarrow> inode" where
  "inode_on fs B ino =
     (let p = inode_pos fs ino; bs = unat (fs_blocksize fs)
      in erase (inode_of_mem (ext2fs_swap_inode_full fs (take 128 (drop (p mod bs) (B (of_nat (p div bs))))) None False 128)))"

text \<open>
  The cache holds what is stored: the block in its buffer, and the inodes of its entries, each at most
  once.
\<close>

definition icache_ok :: "filsys \<Rightarrow> (u64 \<Rightarrow> u8 list) \<Rightarrow> nat \<Rightarrow> bool" where
  "icache_ok fs B nb \<longleftrightarrow>
     (case fs_icache fs of
        None \<Rightarrow> True
      | Some ic \<Rightarrow>
          ica_cache_size ic = 4 \<and> length (ica_cache ic) = 4 \<and> -1 \<le> ica_cache_last ic \<and> ica_cache_last ic < 4 \<and>
          (ica_buffer_blk ic \<noteq> 0 \<longrightarrow> unat (ica_buffer_blk ic) < nb \<and> ica_buffer ic = B (ucast (ica_buffer_blk ic))) \<and>
          (\<forall>ent \<in> set (ica_cache ic). valid_ino fs (icent_ino ent) \<longrightarrow>
             length (i_block (icent_inode ent)) = 15 \<and> erase (icent_inode ent) = inode_on fs B (icent_ino ent)) \<and>
          (\<forall>a b. a < b \<longrightarrow> b < 4 \<longrightarrow> valid_ino fs (icent_ino (ica_cache ic ! a)) \<longrightarrow>
             icent_ino (ica_cache ic ! a) \<noteq> icent_ino (ica_cache ic ! b)))"

lemma swap_inode_cong:
  assumes "fs_super fs' = fs_super fs" "fs_blocksize fs' = fs_blocksize fs"
  shows "ext2fs_swap_inode_full fs' = ext2fs_swap_inode_full fs"
proof -
  have "ext2fs_inode_data_blocks fs' = ext2fs_inode_data_blocks fs" by (simp add: fun_eq_iff data_blocks32 assms)
  then show ?thesis by (simp only: ext2fs_swap_inode_full_def [abs_def] assms)
qed

lemma inode_on_cong:
  assumes "fs_super fs' = fs_super fs" "fs_group_desc fs' = fs_group_desc fs" "fs_blocksize fs' = fs_blocksize fs"
  shows "inode_on fs' = inode_on fs"
  by (simp add: fun_eq_iff inode_on_def itable_cong(1) [OF assms] swap_inode_cong [OF assms(1,3)] assms(3))

lemma inode_on_icache [simp]: "inode_on (fs\<lparr>fs_icache := x\<rparr>) = inode_on fs" "inode_on (fs\<lparr>fs_flags := y\<rparr>) = inode_on fs"
  by (rule inode_on_cong; simp)+

lemma length_inode_of_mem [simp]: "length (i_block (inode_of_mem m)) = 15"
  by (simp add: inode_of_mem_def)

lemma valid_icache [simp]: "valid_ino (fs\<lparr>fs_icache := x\<rparr>) = valid_ino fs" "valid_ino (fs\<lparr>fs_flags := y\<rparr>) = valid_ino fs"
  by (simp_all add: fun_eq_iff valid_ino_def)

lemma create_icache_ok:
  assumes "\<forall>b. b < 2 ^ 32 \<longrightarrow> granted h b" "icache_ok fs B nb"
  shows "\<exists>ic. create_icache h fs = (Inr (), fs\<lparr>fs_icache := Some ic\<rparr>) \<and> icache_ok (fs\<lparr>fs_icache := Some ic\<rparr>) B nb \<and>
    (fs_icache fs = None \<longrightarrow> (\<forall>ent \<in> set (ica_cache ic). icent_ino ent = 0))"
proof (cases "fs_icache fs")
  case (Some ic)
  then show ?thesis using assms(2) by (intro exI [of _ ic]) (simp add: create_icache_def icache_ok_def)
next
  case None
  have "granted h 24" "granted h (unat (fs_blocksize fs))" "granted h 528"
    using assms(1) unat_u32_bound [of "fs_blocksize fs"] by simp_all
  then have "create_icache h fs = (Inr (), fs\<lparr>fs_icache := Some \<lparr>ica_buffer = map (fresh h) [0..<unat (fs_blocksize fs)],
      ica_buffer_blk = 0, ica_cache_last = -1, ica_cache_size = 4, ica_refcount = 1,
      ica_cache = map (\<lambda>k. \<lparr>icent_ino = 0, icent_inode = inode_of_mem (map (fresh h) [132 * k + 4..<132 * k + 132])\<rparr>) [0..<4]\<rparr>\<rparr>)"
    using None by (simp add: create_icache_def ext2fs_get_mem_def ext2fs_get_array_def ext2fs_flush_icache_def comp_def)
  then show ?thesis by (rule ssubst) (rule exI, rule conjI [OF refl], auto simp: icache_ok_def valid_ino_def None)
qed

section \<open>The table on a device\<close>

context block_device
begin

lemma icache_load_ok:
  assumes "io_ok io" "fs_icache fs = Some ic" "unat b < nb" "b \<noteq> 0" "nb \<le> 2 ^ 32"
    "ica_buffer_blk ic \<noteq> 0 \<longrightarrow> ica_buffer ic = blk io (ucast (ica_buffer_blk ic))"
  shows "\<exists>io'. icache_load fs io b =
      (Inr (), fs\<lparr>fs_icache := Some (ic\<lparr>ica_buffer := blk io b, ica_buffer_blk := ucast b\<rparr>)\<rparr>, io') \<and> io_ok io' \<and> blk io' = blk io"
proof (cases "b = ucast (ica_buffer_blk ic)")
  case True
  have "ucast b = ica_buffer_blk ic" unfolding True by (rule bit_word_eqI) (auto simp: bit_simps)
  moreover have "ica_buffer ic = blk io b" using assms(4,6) True by auto
  ultimately have "ic\<lparr>ica_buffer := blk io b, ica_buffer_blk := ucast b\<rparr> = ic" "fs\<lparr>fs_icache := Some ic\<rparr> = fs"
    using assms(2) by simp_all
  then show ?thesis using assms(1,2) True by (simp add: icache_load_def the_icache_def Let_def)
next
  case False
  from read_block [OF assms(1,3)] obtain io' where "io_channel_read_blk64 io b 1 = (Inr (blk io b), io')" "io_ok io'" "blk io' = blk io" by blast
  then show ?thesis using False assms(2) by (auto simp: icache_load_def the_icache_def Let_def)
qed

lemma inode_slice:
  assumes "io_ok io" "itable_ok fs bs nb" "valid_ino fs ino" "inode_place fs ino = (b, off)"
  defines "p \<equiv> unat (off AND (EXT2_BLOCK_SIZE (fs_super fs) - 1))"
  shows "inode_on fs (blk io) ino = erase (inode_of_mem (ext2fs_swap_inode_full fs (take 128 (drop p (blk io b))) None False 128))"
    "p + 128 \<le> bs" "length (blk io b) = bs"
proof -
  note pl = inode_place_pos [OF assms(2-4)]
  have ok: "unat (fs_blocksize fs) = bs" "128 \<le> EXT2_INODE_SIZE (fs_super fs)" using assms(2) unfolding itable_ok_def by blast+
  have "of_nat (inode_pos fs ino div bs) = b" using pl(1) by (simp flip: pl(1))
  then show "inode_on fs (blk io) ino = erase (inode_of_mem (ext2fs_swap_inode_full fs (take 128 (drop p (blk io b))) None False 128))"
    using pl(2) by (simp add: inode_on_def ok p_def)
  show "p + 128 \<le> bs" using pl(2,3) ok(2) by (simp add: p_def)
  show "length (blk io b) = bs" by (rule block_length [OF assms(1) pl(4)])
qed

lemma icache_buffer_ok:
  assumes "icache_ok fs B nb" "fs_icache fs = Some ic" "unat b < nb" "nb \<le> 2 ^ 32"
  shows "icache_ok (fs\<lparr>fs_icache := Some (ic\<lparr>ica_buffer := B b, ica_buffer_blk := ucast b\<rparr>)\<rparr>) B nb"
proof -
  have "unat (ucast b :: u32) = unat b" using assms(3,4) by (simp add: unsigned_ucast_eq take_bit_nat_eq_self)
  then have "unat (ucast b :: u32) < nb" "ucast (ucast b :: u32) = b"
    using assms(3) by (auto simp: word_unat_eq_iff unsigned_ucast_eq unsigned_take_bit_eq take_bit_nat_eq_self)
  then show ?thesis using assms(1,2) by (simp add: icache_ok_def)
qed

lemma icache_add_ok:
  assumes "icache_ok fs B nb" "fs_icache fs = Some ic" "length (i_block i) = 15" "erase i = inode_on fs B ino"
    "\<forall>e \<in> set (ica_cache ic). icent_ino e \<noteq> ino"
  shows "icache_ok (fs\<lparr>fs_icache := Some (icache_add ic ino i)\<rparr>) B nb"
proof -
  let ?k = "nat ((ica_cache_last ic + 1) mod 4)"
  have k: "?k < 4" by (simp add: nat_less_iff)
  have p: "ica_cache_size ic = 4" "length (ica_cache ic) = 4" using assms(1,2) by (simp_all add: icache_ok_def)
  have "icent_ino (ica_cache ic ! a) \<noteq> ino" if "a < 4" for a using assms(5) p(2) that by simp
  then show ?thesis
    using assms(1-4) k p by (auto simp: icache_ok_def icache_add_def Let_def nth_list_update dest!: set_update_subset_insert [THEN subsetD]
        intro: order.trans [OF _ pos_mod_sign])
qed

lemma read_inode_ok:
  assumes ok: "io_ok io" "itable_ok fs bs nb" "icache_ok fs (blk io) nb" "valid_ino fs ino"
    and mem: "\<forall>b. b < 2 ^ 32 \<longrightarrow> granted h b"
  shows "\<exists>i x io'. ext2fs_read_inode h fs io ino = (Inr i, fs\<lparr>fs_icache := x\<rparr>, io') \<and> erase i = inode_on fs (blk io) ino \<and>
    length (i_block i) = 15 \<and> icache_ok (fs\<lparr>fs_icache := x\<rparr>) (blk io) nb \<and> io_ok io' \<and> blk io' = blk io"
proof -
  obtain ic where ic: "create_icache h fs = (Inr (), fs\<lparr>fs_icache := Some ic\<rparr>)" "icache_ok (fs\<lparr>fs_icache := Some ic\<rparr>) (blk io) nb"
    using create_icache_ok [OF mem ok(3)] by blast
  have g: "fs_magic fs = EXT2_ET_MAGIC_EXT2FS_FILSYS" "\<not> (ino = 0 \<or> ino > s_inodes_count (fs_super fs))"
    "fs_flags fs AND EXT2_FLAG_IMAGE_FILE = 0" "\<not> (ino - 1) div s_inodes_per_group (fs_super fs) > fs_group_desc_count fs"
    "ext2fs_inode_table_loc fs ((ino - 1) div s_inodes_per_group (fs_super fs)) \<noteq> 0" "unat (fs_blocksize fs) = bs"
    "128 \<le> EXT2_INODE_SIZE (fs_super fs)" "nb \<le> 2 ^ 32" "s_creator_os (fs_super fs) = EXT2_OS_LINUX"
    using ok(2,4) unfolding itable_ok_def valid_ino_def by (auto simp: not_less)
  show ?thesis
  proof (cases "icache_find ic ino")
    case (Some ent)
    then have ent: "ent \<in> set (ica_cache ic)" "icent_ino ent = ino"
      by (auto simp: icache_find_def find_Some_iff in_set_conv_nth)
    then have e: "length (i_block (icent_inode ent)) = 15" "erase (icent_inode ent) = inode_on fs (blk io) ino"
      using ic(2) ok(4) by (auto simp: icache_ok_def)
    have "ext2fs_read_inode h fs io ino = (Inr (icent_inode ent), fs\<lparr>fs_icache := Some ic\<rparr>, io)"
      using g(1,2) Some by (simp add: ext2fs_read_inode_def ext2fs_read_inode_full_def ic(1) the_icache_def inode_of_mem_of_inode e(1))
    then show ?thesis using e ic(2) ok(1) by blast
  next
    case None
    obtain b off where bo: "inode_place fs ino = (b, off)" by fastforce
    let ?fs = "fs\<lparr>fs_icache := Some ic\<rparr>"
    let ?p = "off AND (EXT2_BLOCK_SIZE (fs_super fs) - 1)"
    note pl = inode_place_pos [OF ok(2,4) bo] and sl = inode_slice [OF ok(1,2,4) bo]
    have load: "fs_icache ?fs = Some ic" "ica_buffer_blk ic \<noteq> 0 \<longrightarrow> ica_buffer ic = blk io (ucast (ica_buffer_blk ic))"
      using ic(2) by (auto simp: icache_ok_def)
    from icache_load_ok [OF ok(1) load(1) pl(4,5) g(8) load(2)] obtain io' where io':
      "icache_load ?fs io b = (Inr (), ?fs\<lparr>fs_icache := Some (ic\<lparr>ica_buffer := blk io b, ica_buffer_blk := ucast b\<rparr>)\<rparr>, io')"
      "io_ok io'" "blk io' = blk io" by blast
    let ?ic = "ic\<lparr>ica_buffer := blk io b, ica_buffer_blk := ucast b\<rparr>"
    let ?buf = "ext2fs_swap_inode_full fs (take 128 (drop (unat ?p) (blk io b))) None False 128"
    have loop: "read_inode_loop ?fs io buf 0 b ?p 128 = (Inr (take 128 (drop (unat ?p) (blk io b))), fs\<lparr>fs_icache := Some ?ic\<rparr>, io')"
      if "length buf = 128" for buf
      using that sl(2,3) g(6) by (simp add: read_inode_loop_one io'(1) the_icache_def put_bytes_def)
    have pf: "inode_place ?fs ino = (b, off)" using bo by (simp add: inode_place_def itable_cong(3) [of ?fs fs])
    have fresh_ino: "\<forall>e \<in> set (ica_cache ?ic). icent_ino e \<noteq> ino"
      using None ic(2) by (auto simp: icache_find_def find_None_iff icache_ok_def)
    have m: "min (bs - unat ?p) 128 = 128" "min (EXT2_INODE_SIZE (fs_super fs)) 128 = 128" using sl(2) g(7) by simp_all
    have "ext2fs_read_inode h fs io ino = (Inr (inode_of_mem ?buf), fs\<lparr>fs_icache := Some (icache_add ?ic ino (inode_of_mem ?buf))\<rparr>, io')"
      using g None pf m by (simp add: ext2fs_read_inode_def ext2fs_read_inode_full_def ic(1) the_icache_def Let_def
          itable_cong(3) [of ?fs fs] loop sl(3) swap_inode_cong [of "fs\<lparr>fs_icache := Some ?ic\<rparr>" fs])
    moreover have "icache_ok (fs\<lparr>fs_icache := Some ?ic\<rparr>) (blk io) nb"
      using icache_buffer_ok [OF ic(2) _ pl(4) g(8)] by simp
    moreover have "erase (inode_of_mem ?buf) = inode_on fs (blk io) ino" using sl(1) by simp
    ultimately show ?thesis
      using icache_add_ok [of "fs\<lparr>fs_icache := Some ?ic\<rparr>" "blk io" ?ic "inode_of_mem ?buf" ino] io'(2,3) fresh_ino by fastforce
  qed
qed

lemma icache_update_nth:
  "k < length es \<Longrightarrow> icache_update_ents es ino i ! k =
     (if icent_ino (es ! k) = ino \<and> (\<forall>l < k. icent_ino (es ! l) \<noteq> ino) then (es ! k)\<lparr>icent_inode := i\<rparr> else es ! k)"
  "length (icache_update_ents es ino i) = length es"
proof (induction es arbitrary: k)
  case (Cons e es)
  { case 1 then show ?case using Cons(1) [of "k - 1"] by (cases k) (auto simp: less_Suc_eq_0_disj) }
  { case 2 then show ?case using Cons(2) by simp }
qed simp_all

text \<open>The cache when a write starts its transfer: the entry of the inode is up to date already.\<close>

lemma write_cache:
  assumes "icache_ok fs B nb" "\<forall>b. b < 2 ^ 32 \<longrightarrow> granted h b" "length (i_block i) = 15"
  shows "\<exists>ic. (case fs_icache fs of Some ic \<Rightarrow> (Inr (), fs\<lparr>fs_icache := Some (icache_update ic ino i)\<rparr>)
      | None \<Rightarrow> create_icache h fs) = (Inr (), fs\<lparr>fs_icache := Some ic\<rparr>) \<and>
      ica_cache_size ic = 4 \<and> length (ica_cache ic) = 4 \<and> -1 \<le> ica_cache_last ic \<and> ica_cache_last ic < 4 \<and>
      (ica_buffer_blk ic \<noteq> 0 \<longrightarrow> ica_buffer ic = B (ucast (ica_buffer_blk ic))) \<and>
      (\<forall>ent \<in> set (ica_cache ic). valid_ino fs (icent_ino ent) \<longrightarrow> length (i_block (icent_inode ent)) = 15 \<and>
         erase (icent_inode ent) = (if icent_ino ent = ino then erase i else inode_on fs B (icent_ino ent))) \<and>
      (\<forall>a b. a < b \<longrightarrow> b < 4 \<longrightarrow> valid_ino fs (icent_ino (ica_cache ic ! a)) \<longrightarrow>
         icent_ino (ica_cache ic ! a) \<noteq> icent_ino (ica_cache ic ! b))"
proof (cases "fs_icache fs")
  case None
  obtain ic where ic: "create_icache h fs = (Inr (), fs\<lparr>fs_icache := Some ic\<rparr>)" "icache_ok (fs\<lparr>fs_icache := Some ic\<rparr>) B nb"
    "\<forall>ent \<in> set (ica_cache ic). icent_ino ent = 0"
    using create_icache_ok [OF assms(2,1)] None by blast
  have "ica_cache_size ic = 4" "length (ica_cache ic) = 4" "-1 \<le> ica_cache_last ic" "ica_cache_last ic < 4"
    "ica_buffer_blk ic \<noteq> 0 \<longrightarrow> ica_buffer ic = B (ucast (ica_buffer_blk ic))"
    using ic(2) by (auto simp: icache_ok_def)
  moreover have "\<not> valid_ino fs (icent_ino (ica_cache ic ! a))" if "a < b" "b < 4" for a b
    using ic(3) calculation(2) that by (simp add: valid_ino_def)
  ultimately show ?thesis using ic(1,3) None by (intro exI [of _ ic]) (simp add: valid_ino_def)
next
  case (Some ic)
  let ?es = "ica_cache ic" and ?es' = "icache_update_ents (ica_cache ic) ino i"
  have ok: "length ?es = 4" "\<forall>a b. a < b \<longrightarrow> b < 4 \<longrightarrow> valid_ino fs (icent_ino (?es ! a)) \<longrightarrow> icent_ino (?es ! a) \<noteq> icent_ino (?es ! b)"
    "\<And>k. k < 4 \<Longrightarrow> valid_ino fs (icent_ino (?es ! k)) \<Longrightarrow> length (i_block (icent_inode (?es ! k))) = 15 \<and>
       erase (icent_inode (?es ! k)) = inode_on fs B (icent_ino (?es ! k))"
    using assms(1) Some by (auto simp: icache_ok_def)
  have n: "icent_ino (?es' ! k) = icent_ino (?es ! k)" if "k < 4" for k using that ok(1) by (simp add: icache_update_nth)
  have "length (i_block (icent_inode (?es' ! k))) = 15 \<and>
      erase (icent_inode (?es' ! k)) = (if icent_ino (?es ! k) = ino then erase i else inode_on fs B (icent_ino (?es ! k)))"
    if k: "k < 4" "valid_ino fs (icent_ino (?es ! k))" for k
  proof (cases "icent_ino (?es ! k) = ino")
    case True
    have "\<forall>l < k. icent_ino (?es ! l) \<noteq> ino" using ok(2) k True by metis
    then show ?thesis using True k ok(1) assms(3) by (simp add: icache_update_nth)
  next
    case False
    then show ?thesis using k ok by (simp add: icache_update_nth)
  qed
  then have "\<forall>ent \<in> set ?es'. valid_ino fs (icent_ino ent) \<longrightarrow> length (i_block (icent_inode ent)) = 15 \<and>
         erase (icent_inode ent) = (if icent_ino ent = ino then erase i else inode_on fs B (icent_ino ent))"
    using n ok(1) unfolding all_set_conv_all_nth icache_update_nth(2) by simp
  moreover have "\<forall>a b. a < b \<longrightarrow> b < 4 \<longrightarrow> valid_ino fs (icent_ino (?es' ! a)) \<longrightarrow> icent_ino (?es' ! a) \<noteq> icent_ino (?es' ! b)"
    using n ok(2) by simp
  moreover have "ica_cache_size ic = 4" "-1 \<le> ica_cache_last ic" "ica_cache_last ic < 4"
    "ica_buffer_blk ic \<noteq> 0 \<longrightarrow> ica_buffer ic = B (ucast (ica_buffer_blk ic))"
    using Some assms(1) by (auto simp: icache_ok_def)
  ultimately show ?thesis
    using Some ok(1) by (intro exI [of _ "icache_update ic ino i"]) (simp add: icache_update_def icache_update_nth(2))
qed

lemma write_inode_ok:
  assumes ok: "io_ok io" "itable_ok fs bs nb" "icache_ok fs (blk io) nb" "valid_ino fs ino" "length (i_block i) = 15"
    and rw: "fs_flags fs AND EXT2_FLAG_RW \<noteq> 0" and mem: "\<forall>b. b < 2 ^ 32 \<longrightarrow> granted h b"
  shows "\<exists>x io'. ext2fs_write_inode h fs io ino i = (Inr (), fs\<lparr>fs_icache := x, fs_flags := fs_flags fs OR EXT2_FLAG_CHANGED\<rparr>, io') \<and>
    (\<forall>j. valid_ino fs j \<longrightarrow> inode_on fs (blk io') j = (if j = ino then erase i else inode_on fs (blk io) j)) \<and>
    icache_ok (fs\<lparr>fs_icache := x, fs_flags := fs_flags fs OR EXT2_FLAG_CHANGED\<rparr>) (blk io') nb \<and> io_ok io'"
proof -
  let ?M = "mem_of_inode i"
  have M: "length ?M = 128" using ok(5) by simp
  have g: "fs_magic fs = EXT2_ET_MAGIC_EXT2FS_FILSYS" "\<not> (ino = 0 \<or> ino > s_inodes_count (fs_super fs))"
    "ext2fs_inode_table_loc fs ((ino - 1) div s_inodes_per_group (fs_super fs)) \<noteq> 0" "unat (fs_blocksize fs) = bs"
    "128 \<le> EXT2_INODE_SIZE (fs_super fs)" "nb \<le> 2 ^ 32" "s_creator_os (fs_super fs) = EXT2_OS_LINUX"
    "EXT2_INODE_SIZE (fs_super fs) dvd bs"
    using ok(2,4) unfolding itable_ok_def valid_ino_def by (auto simp: not_less)
  obtain b off where bo: "inode_place fs ino = (b, off)" by fastforce
  let ?p = "off AND (EXT2_BLOCK_SIZE (fs_super fs) - 1)"
  note pl = inode_place_pos [OF ok(2,4) bo] and sl = inode_slice [OF ok(1,2,4) bo]
  \<comment> \<open>the cache at the start of the transfer\<close>
  obtain ic where ic: "(case fs_icache fs of Some ic \<Rightarrow> (Inr (), fs\<lparr>fs_icache := Some (icache_update ic ino i)\<rparr>)
      | None \<Rightarrow> create_icache h fs) = (Inr (), fs\<lparr>fs_icache := Some ic\<rparr>)"
    and ic_ok: "ica_cache_size ic = 4" "length (ica_cache ic) = 4" "-1 \<le> ica_cache_last ic" "ica_cache_last ic < 4"
      "ica_buffer_blk ic \<noteq> 0 \<longrightarrow> ica_buffer ic = blk io (ucast (ica_buffer_blk ic))"
      "\<forall>ent \<in> set (ica_cache ic). valid_ino fs (icent_ino ent) \<longrightarrow> length (i_block (icent_inode ent)) = 15 \<and>
         erase (icent_inode ent) = (if icent_ino ent = ino then erase i else inode_on fs (blk io) (icent_ino ent))"
      "\<forall>a b. a < b \<longrightarrow> b < 4 \<longrightarrow> valid_ino fs (icent_ino (ica_cache ic ! a)) \<longrightarrow>
         icent_ino (ica_cache ic ! a) \<noteq> icent_ino (ica_cache ic ! b)"
    using write_cache [OF ok(3) mem ok(5), of ino] by blast
  let ?W = "ext2fs_swap_inode_full fs (replicate (EXT2_INODE_SIZE (fs_super fs)) 0) (Some ?M) True 128"
  have W: "length ?W \<ge> 128" using swap_from_other_nth(1) [OF g(7)] M g(5) by simp
  let ?data = "put_bytes (blk io b) (unat ?p) (take 128 ?W)"
  have data: "length ?data = bs" using sl(2,3) W by (simp add: min_def)
  let ?fs = "fs\<lparr>fs_icache := Some ic\<rparr>"
  from icache_load_ok [OF ok(1) _ pl(4,5) g(6) ic_ok(5), of ?fs] obtain io1 where io1:
    "icache_load ?fs io b = (Inr (), ?fs\<lparr>fs_icache := Some (ic\<lparr>ica_buffer := blk io b, ica_buffer_blk := ucast b\<rparr>)\<rparr>, io1)"
    "io_ok io1" "blk io1 = blk io" by auto
  from write_block [OF io1(2) pl(4) data] obtain io' where io': "io_channel_write_blk64 io1 b 1 ?data = (Inr (), io')" "io_ok io'"
    "\<And>c. unat c < nb \<Longrightarrow> blk io' c = (if c = b then ?data else blk io c)" using io1(3) by auto
  let ?ic = "ic\<lparr>ica_buffer := ?data, ica_buffer_blk := ucast b\<rparr>"
  have pf: "inode_place ?fs ino = (b, off)" using bo by (simp add: inode_place_def itable_cong(3) [of ?fs fs])
  have run: "ext2fs_write_inode h fs io ino i =
      (Inr (), fs\<lparr>fs_icache := Some ?ic, fs_flags := fs_flags fs OR EXT2_FLAG_CHANGED\<rparr>, io')"
  proof -
    have mx: "max 128 (EXT2_INODE_SIZE (fs_super fs)) = EXT2_INODE_SIZE (fs_super fs)"
      "granted h (EXT2_INODE_SIZE (fs_super fs))" "min (EXT2_INODE_SIZE (fs_super fs)) 128 = 128"
      using mem dvd_imp_le [OF g(8)] pl(6) unat_u32_bound [of "fs_blocksize fs"] g(4,5) by auto
    have loop: "write_inode_loop ?fs io ?W 0 b ?p 128 = (Inr (), fs\<lparr>fs_icache := Some ?ic\<rparr>, io')"
      using sl(2) g(4) by (simp add: write_inode_loop_one io1(1) the_icache_def io'(1))
    show ?thesis
      using g(1,2,3) rw mx ic pf unfolding ext2fs_write_inode_def ext2fs_write_inode_full_def M inode_of_mem_of_inode [OF ok(5)]
      by (simp add: swap_inode_cong [of ?fs fs] itable_cong(3) [of ?fs fs] loop Let_def)
  qed
  \<comment> \<open>what is stored now\<close>
  have on: "inode_on fs (blk io') j = (if j = ino then erase i else inode_on fs (blk io) j)" if j: "valid_ino fs j" for j
  proof -
    obtain bj offj where bj: "inode_place fs j = (bj, offj)" by fastforce
    note plj = inode_place_pos [OF ok(2) j bj] and slj = inode_slice [OF ok(1,2) j bj] inode_slice [OF io'(2) ok(2) j bj]
    have slice: "take 128 (drop pj (blk io' bj)) = (if j = ino then take 128 ?W else take 128 (drop pj (blk io bj)))"
      if "pj = unat (offj AND (EXT2_BLOCK_SIZE (fs_super fs) - 1))" for pj
    proof (cases "j = ino")
      case True
      then have "bj = b" "pj = unat ?p" using bo bj that by simp_all
      then show ?thesis
        using slice_put_bytes(2) [of "unat ?p" "take 128 ?W" "blk io b"] io'(3) [OF pl(4)] sl(2,3) W True by (simp add: min_absorb2)
    next
      case False
      show ?thesis
      proof (cases "bj = b")
        case True
        have "inode_pos fs ino + EXT2_INODE_SIZE (fs_super fs) \<le> inode_pos fs j \<or>
            inode_pos fs j + EXT2_INODE_SIZE (fs_super fs) \<le> inode_pos fs ino"
          using ok(2,4) j False unfolding itable_ok_def by blast
        moreover have "inode_pos fs ino div bs = inode_pos fs j div bs" using pl(1) plj(1) True by simp
        then have "inode_pos fs ino = inode_pos fs j div bs * bs + inode_pos fs ino mod bs" by (metis div_mult_mod_eq)
        moreover have "inode_pos fs j = inode_pos fs j div bs * bs + inode_pos fs j mod bs" by simp
        ultimately have "inode_pos fs ino mod bs + 128 \<le> inode_pos fs j mod bs \<or> inode_pos fs j mod bs + 128 \<le> inode_pos fs ino mod bs"
          using g(5) by linarith
        then show ?thesis
          using slice_put_bytes(1) [of "unat ?p" "take 128 ?W" "blk io b" pj 128] io'(3) [OF pl(4)] sl(2,3) slj(2) W True False pl(2) plj(2)
          by (auto simp: that min_absorb2)
      next
        case False
        then show ?thesis using io'(3) [OF plj(4)] bo bj by auto
      qed
    qed
    have "inode_of_mem (ext2fs_swap_inode_full fs (take 128 ?W) None False 128) = erase i"
      using swap_back [OF g(7) M g(5)] by (simp add: inode_of_mem_reserved [OF M] inode_of_mem_of_inode ok(5) erase_def)
    then show ?thesis unfolding slj(1) slj(4) slice [OF refl] by (simp add: erase_def)
  qed
  have buffer: "unat (ucast b :: u32) < nb" "ucast (ucast b :: u32) = b"
    using pl(4) g(6) by (auto simp: word_unat_eq_iff unsigned_ucast_eq unsigned_take_bit_eq take_bit_nat_eq_self)
  have "icache_ok (fs\<lparr>fs_icache := Some ?ic, fs_flags := fs_flags fs OR EXT2_FLAG_CHANGED\<rparr>) (blk io') nb"
    using ic_ok on pl(4) g(6) io'(3) [OF pl(4)] buffer by (auto simp: icache_ok_def)
  then show ?thesis using run on io'(2) by blast
qed

end

section \<open>Properties\<close>

lemma itable_ok_cache [simp]:
  "itable_ok (fs\<lparr>fs_icache := x, fs_flags := fs_flags fs OR EXT2_FLAG_CHANGED\<rparr>) = itable_ok fs"
proof -
  let ?fs = "fs\<lparr>fs_icache := x, fs_flags := fs_flags fs OR EXT2_FLAG_CHANGED\<rparr>"
  note c = itable_cong [of ?fs fs, simplified]
  have "(y OR EXT2_FLAG_CHANGED) AND EXT2_FLAG_IMAGE_FILE = y AND EXT2_FLAG_IMAGE_FILE" for y
    by (simp add: EXT2_FLAG_CHANGED_def EXT2_FLAG_IMAGE_FILE_def bit.conj_disj_distrib2)
  then show ?thesis by (simp add: fun_eq_iff itable_ok_def c)
qed


text \<open>Two groups of 32 inodes, the tables at the blocks 5 and 25.\<close>

definition itable_sample :: filsys where
  "itable_sample = fs_sample\<lparr>fs_flags := 0x20001, fs_group_desc := [gd_sample, gd_sample\<lparr>bg_inode_table := 25\<rparr>]\<rparr>"

lemma itable_sample_ok: "itable_ok itable_sample 1024 40"
proof -
  have d: "unat ((i - 1) div 32) = (unat i - 1) div 32" "unat ((i - 1) mod 32) = (unat i - 1) mod 32" if "i \<noteq> 0" for i :: u32
    using that by (simp_all add: unat_div_distrib unat_mod_distrib unat_minus_one)
  have loc: "unat (ext2fs_inode_table_loc itable_sample ((i - 1) div 32)) = (if unat i \<le> 32 then 5 else 25)"
    if "i \<noteq> 0" "i \<le> 64" for i
  proof -
    have u: "0 < unat i" "unat i \<le> 64" using that by (simp_all add: word_le_nat_alt unat_gt_0)
    then have "(unat i - 1) div 32 = (if unat i \<le> 32 then 0 else 1)" by (auto simp: div_eq_0_iff intro: div_nat_eqI)
    then show ?thesis
      by (simp add: ext2fs_inode_table_loc_def ext2fs_group_desc_def desc_overlap_def d [OF that(1)] itable_sample_def fs_sample_def sb_sample_def
          gd_sample_def has_64bit_def)
  qed
  have s: "s_inodes_per_group (fs_super itable_sample) = 32" "s_inodes_count (fs_super itable_sample) = 64"
    "EXT2_INODE_SIZE (fs_super itable_sample) = 128" "fs_blocksize itable_sample = 1024"
    by (simp_all add: itable_sample_def fs_sample_def sb_sample_def EXT2_INODE_SIZE_def EXT2_GOOD_OLD_REV_def)
  have pos: "inode_pos itable_sample i = (if unat i \<le> 32 then 5120 + (unat i - 1) * 128 else 25600 + (unat i - 33) * 128)"
    if "i \<noteq> 0" "i \<le> 64" for i
  proof -
    have u: "0 < unat i" "unat i \<le> 64" using that by (simp_all add: word_le_nat_alt unat_gt_0)
    have "(unat i - 1) mod 32 = (if unat i \<le> 32 then unat i - 1 else unat i - 33)"
      using u by (auto simp: mod_if)
    then show ?thesis by (simp add: inode_pos_def s loc [OF that] d [OF that(1)])
  qed
  have v: "valid_ino itable_sample i \<longleftrightarrow> 0 < unat i \<and> unat i \<le> 64" for i
    by (simp add: valid_ino_def s word_le_nat_alt unat_gt_0)
  have vi: "i \<noteq> 0" "i \<le> 64" if "0 < unat i" "unat i \<le> 64" for i :: u32
    using that by (auto simp: word_le_nat_alt)
  have one: "(i - 1) div 32 \<le> fs_group_desc_count itable_sample \<and> ext2fs_inode_table_loc itable_sample ((i - 1) div 32) \<noteq> 0 \<and>
      unat ((i - 1) mod 32) * 128 < 2 ^ 32 \<and> inode_pos itable_sample i + 128 \<le> 40 * 1024"
    if u: "0 < unat i" "unat i \<le> 64" for i
  proof -
    have "unat (ext2fs_inode_table_loc itable_sample ((i - 1) div 32)) \<noteq> 0" using loc [OF vi [OF u]] by simp
    moreover have "(unat i - 1) div 32 \<le> 3" "(unat i - 1) mod 32 < 32" using u by simp_all
    ultimately show ?thesis
      using u d [OF vi(1) [OF u]] pos [OF vi [OF u]]
      by (auto simp: word_le_nat_alt itable_sample_def fs_sample_def simp del: unat_eq_0)
  qed
  have two: "inode_pos itable_sample i + 128 \<le> inode_pos itable_sample j \<or> inode_pos itable_sample j + 128 \<le> inode_pos itable_sample i"
    if u: "0 < unat i" "unat i \<le> 64" "0 < unat j" "unat j \<le> 64" "i \<noteq> j" for i j
  proof -
    have "unat i \<noteq> unat j" using u(5) by (simp add: word_unat_eq_iff)
    then show ?thesis using u pos [OF vi [OF u(1,2)]] pos [OF vi [OF u(3,4)]] by (simp split: if_splits; linarith)
  qed
  have "fs_magic itable_sample = EXT2_ET_MAGIC_EXT2FS_FILSYS" "fs_flags itable_sample AND EXT2_FLAG_IMAGE_FILE = 0"
    "s_creator_os (fs_super itable_sample) = EXT2_OS_LINUX" "s_log_block_size (fs_super itable_sample) \<le> 6"
    "fs_blocksize itable_sample = EXT2_BLOCK_SIZE (fs_super itable_sample)"
    by (simp_all add: itable_sample_def fs_sample_def sb_sample_def EXT2_FLAG_IMAGE_FILE_def EXT2_OS_LINUX_def EXT2_BLOCK_SIZE_def)
  then show ?thesis using one two unfolding itable_ok_def v s by simp
qed

definition inode_sample :: inode where
  "inode_sample = (inode_of_mem (replicate 128 0))\<lparr>i_mode := 0x81A4, i_size := 5000, i_links_count := 1, i_blocks := 10,
     i_block := [30, 31, 0, 33, 34] @ replicate 10 0\<rparr>"


end
