(* ===== verification/Rw_Bitmaps.thy ===== *)
theory Rw_Bitmaps
  imports Inode_Io Checksums
begin

text \<open>
  Reading and writing the block and inode bitmaps of a file system (\<open>source/rw_bitmaps.c\<close>):
  group by group, between the maps of the handle and the bitmap blocks the group descriptors name.
  The lemmas show that maps that are written are the maps that are read back.
\<close>

section \<open>Writing\<close>

definition EXT2_BG_BLOCK_UNINIT :: u16 where "EXT2_BG_BLOCK_UNINIT = 0x0002"

text \<open>\<open>memalign\<close> sets \<open>errno\<close> to \<open>ENOMEM\<close> when it fails.\<close>

definition ext2fs_get_memalign :: "u8 heap \<Rightarrow> nat \<Rightarrow> unit result" where
  "ext2fs_get_memalign h n = (if granted h n then Inr () else Inl ENOMEM)"

text \<open>The bits past the last block are set in the bitmap of the last group.\<close>

definition pad_last_group :: "filsys \<Rightarrow> u8 list \<Rightarrow> u8 list" where
  "pad_last_group fs buf =
     (let sb = fs_super fs;
          nbits = ucast (EXT2FS_B2C fs
            ((ext2fs_blocks_count sb - ucast (s_first_data_block sb)) mod ucast (s_blocks_per_group sb)
              + (EXT2FS_CLUSTER_RATIO fs - 1))) :: u32
      in
      if nbits \<noteq> 0 then
        foldl (\<lambda>buf j. snd (ext2fs_set_bit (of_nat j) buf)) buf [unat nbits..<unat (fs_blocksize fs * 8)]
      else buf)"

text \<open>One group: a bitmap with the location 0 is not written.\<close>

definition write_block_group :: "filsys \<Rightarrow> 'd io_channel \<Rightarrow> u32 \<Rightarrow> u64 \<Rightarrow> u32 \<Rightarrow> u8 list \<Rightarrow>
    u8 list result \<times> 'd io_channel" where
  "write_block_group fs io i blk_itr nbits buf =
     (if has_gdt_csum fs \<and> ext2fs_bg_flags_test fs i EXT2_BG_BLOCK_UNINIT \<noteq> 0 then (Inr buf, io)
      else
        case ext2fs_get_block_bitmap_range2 (fs_block_map fs) blk_itr nbits of
          Inl e \<Rightarrow> (Inl e, io)
        | Inr bytes \<Rightarrow>
            let buf = put_bytes buf 0 bytes;
                buf = (if i = fs_group_desc_count fs - 1 then pad_last_group fs buf else buf);
                blk = ext2fs_block_bitmap_loc fs i
            in
            if blk \<noteq> 0 then
              (case io_channel_write_blk64 io blk 1 buf of
                 (Inl _, io) \<Rightarrow> (Inl EXT2_ET_BLOCK_BITMAP_WRITE, io)
               | (Inr _, io) \<Rightarrow> (Inr buf, io))
            else (Inr buf, io))"

definition write_inode_group :: "filsys \<Rightarrow> 'd io_channel \<Rightarrow> u32 \<Rightarrow> u32 \<Rightarrow> u32 \<Rightarrow> u8 list \<Rightarrow>
    u8 list result \<times> 'd io_channel" where
  "write_inode_group fs io i ino_itr nbits buf =
     (if has_gdt_csum fs \<and> ext2fs_bg_flags_test fs i EXT2_BG_INODE_UNINIT \<noteq> 0 then (Inr buf, io)
      else
        case ext2fs_get_inode_bitmap_range2 (fs_inode_map fs) (ucast ino_itr) nbits of
          Inl e \<Rightarrow> (Inl e, io)
        | Inr bytes \<Rightarrow>
            let buf = put_bytes buf 0 bytes;
                blk = ext2fs_inode_bitmap_loc fs i
            in
            if blk \<noteq> 0 then
              (case io_channel_write_blk64 io blk 1 buf of
                 (Inl _, io) \<Rightarrow> (Inl EXT2_ET_INODE_BITMAP_WRITE, io)
               | (Inr _, io) \<Rightarrow> (Inr buf, io))
            else (Inr buf, io))"

text \<open>
  The loop over \<open>n\<close> groups from group \<open>i\<close> on. A buffer is \<open>None\<close> when its kind of map
  is not written; \<open>block_bits\<close> and \<open>inode_bits\<close> are the numbers of bits of a group.
\<close>

fun write_groups :: "nat \<Rightarrow> filsys \<Rightarrow> 'd io_channel \<Rightarrow> u32 \<Rightarrow> u64 \<Rightarrow> u32 \<Rightarrow> u8 list option \<Rightarrow> u32 \<Rightarrow> u32 \<Rightarrow>
    u8 list option \<Rightarrow> unit result \<times> 'd io_channel" where
  "write_groups 0 fs io i blk_itr block_bits block_buf ino_itr inode_bits inode_buf = (Inr (), io)"
| "write_groups (Suc n) fs io i blk_itr block_bits block_buf ino_itr inode_bits inode_buf =
     (case (case block_buf of
              None \<Rightarrow> (Inr None, io)
            | Some buf \<Rightarrow>
                (case write_block_group fs io i blk_itr block_bits buf of
                   (Inl e, io) \<Rightarrow> (Inl e, io) | (Inr buf, io) \<Rightarrow> (Inr (Some buf), io))) of
        (Inl e, io) \<Rightarrow> (Inl e, io)
      | (Inr block_buf, io) \<Rightarrow>
          (case (case inode_buf of
                   None \<Rightarrow> (Inr None, io)
                 | Some buf \<Rightarrow>
                     (case write_inode_group fs io i ino_itr inode_bits buf of
                        (Inl e, io) \<Rightarrow> (Inl e, io) | (Inr buf, io) \<Rightarrow> (Inr (Some buf), io))) of
             (Inl e, io) \<Rightarrow> (Inl e, io)
           | (Inr inode_buf, io) \<Rightarrow>
               write_groups n fs io (i + 1) (blk_itr + ucast block_bits) block_bits block_buf
                 (ino_itr + inode_bits) inode_bits inode_buf))"

definition write_bitmaps :: "u8 heap \<Rightarrow> filsys \<Rightarrow> 'd io_channel \<Rightarrow> bool \<Rightarrow> bool \<Rightarrow>
    unit result \<times> filsys \<times> 'd io_channel" where
  "write_bitmaps h fs io do_inode do_block =
     (if fs_magic fs \<noteq> EXT2_ET_MAGIC_EXT2FS_FILSYS then (Inl EXT2_ET_MAGIC_EXT2FS_FILSYS, fs, io)
      else if fs_flags fs AND EXT2_FLAG_RW = 0 then (Inl EXT2_ET_RO_FILSYS, fs, io)
      else
        let sb = fs_super fs;
            bs = unat (fs_blocksize fs);
            block_nbytes = s_clusters_per_group sb div 8;
            inode_nbytes = (s_inodes_per_group sb + 7) div 8
        in
        case (if do_block then ext2fs_get_memalign h bs else Inr ()) of
          Inl e \<Rightarrow> (Inl e, fs, io)
        | Inr _ \<Rightarrow>
            (case (if do_inode then ext2fs_get_memalign h bs else Inr ()) of
               Inl e \<Rightarrow> (Inl e, fs, io)
             | Inr _ \<Rightarrow>
                 let buf = replicate bs 0xFF in
                 (case write_groups (unat (fs_group_desc_count fs)) fs io 0
                         (EXT2FS_B2C fs (ucast (s_first_data_block sb)))
                         (push_bit 3 block_nbytes) (if do_block then Some buf else None)
                         1 (push_bit 3 inode_nbytes) (if do_inode then Some buf else None) of
                    (Inl e, io) \<Rightarrow> (Inl e, fs, io)
                  | (Inr _, io) \<Rightarrow>
                      let fs = (if do_block then fs\<lparr>fs_flags := fs_flags fs AND NOT EXT2_FLAG_BB_DIRTY\<rparr> else fs);
                          fs = (if do_inode then fs\<lparr>fs_flags := fs_flags fs AND NOT EXT2_FLAG_IB_DIRTY\<rparr> else fs)
                      in (Inr (), fs, io))))"

section \<open>Reading\<close>

text \<open>
  The maps in an image file follow each other without gaps. A loop takes one turn per block, so
  with a block size of at least one byte it takes at most as many turns as the map has bytes.
\<close>

fun image_inode_loop :: "nat \<Rightarrow> filsys \<Rightarrow> 'd io_channel \<Rightarrow> u64 \<Rightarrow> u32 \<Rightarrow> u32 \<Rightarrow> int \<Rightarrow>
    unit result \<times> filsys \<times> 'd io_channel" where
  "image_inode_loop n fs io blk ino_itr ino_cnt nbytes =
     (if nbytes \<le> 0 then (Inr (), fs, io)
      else case n of 0 \<Rightarrow> (Inl NO_RETURN, fs, io) | Suc n \<Rightarrow>
        (case io_channel_read_blk64 io blk 1 of
           (Inl e, io) \<Rightarrow> (Inl e, fs, io)
         | (Inr data, io) \<Rightarrow>
             let bits = push_bit 3 (fs_blocksize fs) in
             (case ext2fs_set_inode_bitmap_range2 (fs_inode_map fs) (ucast ino_itr) (min bits ino_cnt) data of
                Inl e \<Rightarrow> (Inl e, fs, io)
              | Inr m \<Rightarrow>
                  image_inode_loop n (fs\<lparr>fs_inode_map := Some m\<rparr>) io (blk + 1) (ino_itr + bits) (ino_cnt - bits)
                    (nbytes - uint (fs_blocksize fs)))))"

fun image_block_loop :: "nat \<Rightarrow> filsys \<Rightarrow> 'd io_channel \<Rightarrow> u64 \<Rightarrow> u64 \<Rightarrow> u64 \<Rightarrow> int \<Rightarrow>
    unit result \<times> filsys \<times> 'd io_channel" where
  "image_block_loop n fs io blk blk_itr blk_cnt nbytes =
     (if nbytes \<le> 0 then (Inr (), fs, io)
      else case n of 0 \<Rightarrow> (Inl NO_RETURN, fs, io) | Suc n \<Rightarrow>
        (case io_channel_read_blk64 io blk 1 of
           (Inl e, io) \<Rightarrow> (Inl e, fs, io)
         | (Inr data, io) \<Rightarrow>
             let bits = push_bit 3 (fs_blocksize fs);
                 cnt = (if ucast bits > blk_cnt then ucast blk_cnt else bits)
             in
             (case ext2fs_set_block_bitmap_range2 (fs_block_map fs) blk_itr cnt data of
                Inl e \<Rightarrow> (Inl e, fs, io)
              | Inr m \<Rightarrow>
                  image_block_loop n (fs\<lparr>fs_block_map := Some m\<rparr>) io (blk + 1) (blk_itr + ucast bits)
                    (blk_cnt - ucast bits) (nbytes - uint (fs_blocksize fs)))))"

definition read_image_bitmaps :: "filsys \<Rightarrow> 'd io_channel \<Rightarrow> int \<Rightarrow> int \<Rightarrow> unit result \<times> filsys \<times> 'd io_channel" where
  "read_image_bitmaps fs io inode_nbytes block_nbytes =
     (let sb = fs_super fs;
          inodemap = (case fs_image_header fs of Some hdr \<Rightarrow> offset_inodemap hdr | None \<Rightarrow> 0);
          blockmap = (case fs_image_header fs of Some hdr \<Rightarrow> offset_blockmap hdr | None \<Rightarrow> 0)
      in
      case image_inode_loop (nat inode_nbytes) fs io (ucast (inodemap div fs_blocksize fs)) 1 (s_inodes_count sb) inode_nbytes of
        (Inl e, fs, io) \<Rightarrow> (Inl e, fs, io)
      | (Inr _, fs, io) \<Rightarrow>
          image_block_loop (nat block_nbytes) fs io (ucast (blockmap div fs_blocksize fs))
            (EXT2FS_B2C fs (ucast (s_first_data_block sb)))
            (ucast (s_clusters_per_group sb) * ucast (fs_group_desc_count fs)) block_nbytes)"

text \<open>One group: the bits of a group whose bitmap is not on the disk are cleared.\<close>

definition read_block_group :: "filsys \<Rightarrow> 'd io_channel \<Rightarrow> u32 \<Rightarrow> u64 \<Rightarrow> u32 \<Rightarrow> unit result \<times> filsys \<times> 'd io_channel" where
  "read_block_group fs io i blk_itr nbytes =
     (let blk = ext2fs_block_bitmap_loc fs i;
          blk = (if has_gdt_csum fs \<and> ext2fs_bg_flags_test fs i EXT2_BG_BLOCK_UNINIT \<noteq> 0 \<and>
                    ext2fs_group_desc_csum_verify fs i then 0 else blk)
      in
      case (if blk \<noteq> 0 then
              (case io_channel_read_blk64 io blk (- uint nbytes) of
                 (Inl _, io) \<Rightarrow> (Inl EXT2_ET_BLOCK_BITMAP_READ, io) | (Inr data, io) \<Rightarrow> (Inr data, io))
            else (Inr (replicate (unat nbytes) 0), io)) of
        (Inl e, io) \<Rightarrow> (Inl e, fs, io)
      | (Inr data, io) \<Rightarrow>
          (case ext2fs_set_block_bitmap_range2 (fs_block_map fs) blk_itr (push_bit 3 nbytes) data of
             Inl e \<Rightarrow> (Inl e, fs, io)
           | Inr m \<Rightarrow> (Inr (), fs\<lparr>fs_block_map := Some m\<rparr>, io)))"

definition read_inode_group :: "filsys \<Rightarrow> 'd io_channel \<Rightarrow> u32 \<Rightarrow> u32 \<Rightarrow> u32 \<Rightarrow> unit result \<times> filsys \<times> 'd io_channel" where
  "read_inode_group fs io i ino_itr nbytes =
     (let blk = ext2fs_inode_bitmap_loc fs i;
          blk = (if has_gdt_csum fs \<and> ext2fs_bg_flags_test fs i EXT2_BG_INODE_UNINIT \<noteq> 0 \<and>
                    ext2fs_group_desc_csum_verify fs i then 0 else blk)
      in
      case (if blk \<noteq> 0 then
              (case io_channel_read_blk64 io blk (- uint nbytes) of
                 (Inl _, io) \<Rightarrow> (Inl EXT2_ET_INODE_BITMAP_READ, io) | (Inr data, io) \<Rightarrow> (Inr data, io))
            else (Inr (replicate (unat nbytes) 0), io)) of
        (Inl e, io) \<Rightarrow> (Inl e, fs, io)
      | (Inr data, io) \<Rightarrow>
          (case ext2fs_set_inode_bitmap_range2 (fs_inode_map fs) (ucast ino_itr) (push_bit 3 nbytes) data of
             Inl e \<Rightarrow> (Inl e, fs, io)
           | Inr m \<Rightarrow> (Inr (), fs\<lparr>fs_inode_map := Some m\<rparr>, io)))"

fun read_groups :: "nat \<Rightarrow> filsys \<Rightarrow> 'd io_channel \<Rightarrow> u32 \<Rightarrow> u64 \<Rightarrow> u32 option \<Rightarrow> u32 \<Rightarrow> u32 option \<Rightarrow>
    unit result \<times> filsys \<times> 'd io_channel" where
  "read_groups 0 fs io i blk_itr block_nbytes ino_itr inode_nbytes = (Inr (), fs, io)"
| "read_groups (Suc n) fs io i blk_itr block_nbytes ino_itr inode_nbytes =
     (case (case block_nbytes of None \<Rightarrow> (Inr (), fs, io) | Some nb \<Rightarrow> read_block_group fs io i blk_itr nb) of
        (Inl e, fs, io) \<Rightarrow> (Inl e, fs, io)
      | (Inr _, fs, io) \<Rightarrow>
          (case (case inode_nbytes of None \<Rightarrow> (Inr (), fs, io) | Some nb \<Rightarrow> read_inode_group fs io i ino_itr nb) of
             (Inl e, fs, io) \<Rightarrow> (Inl e, fs, io)
           | (Inr _, fs, io) \<Rightarrow>
               read_groups n fs io (i + 1)
                 (case block_nbytes of None \<Rightarrow> blk_itr | Some nb \<Rightarrow> blk_itr + ucast (push_bit 3 nb)) block_nbytes
                 (case inode_nbytes of None \<Rightarrow> ino_itr | Some nb \<Rightarrow> ino_itr + push_bit 3 nb) inode_nbytes))"

text \<open>
  \<open>device_name\<close> is the name of the device, which the description of a map is made of. A failed
  call leaves the maps that were asked for null.
\<close>

definition read_bitmaps :: "u8 heap \<Rightarrow> string \<Rightarrow> filsys \<Rightarrow> 'd io_channel \<Rightarrow> bool \<Rightarrow> bool \<Rightarrow>
    unit result \<times> filsys \<times> 'd io_channel" where
  "read_bitmaps h device_name fs io do_inode do_block =
     (if fs_magic fs \<noteq> EXT2_ET_MAGIC_EXT2FS_FILSYS then (Inl EXT2_ET_MAGIC_EXT2FS_FILSYS, fs, io)
      else
        let sb = fs_super fs;
            do_image = (fs_flags fs AND EXT2_FLAG_IMAGE_FILE \<noteq> 0);
            block_nbytes = s_clusters_per_group sb div 8;
            inode_nbytes = s_inodes_per_group sb div 8;
            cleanup = (\<lambda>fs. let fs = (if do_block then fs\<lparr>fs_block_map := None\<rparr> else fs)
                            in if do_inode then fs\<lparr>fs_inode_map := None\<rparr> else fs)
        in
        case ext2fs_get_mem h (length device_name + 80) of
          Inl e \<Rightarrow> (Inl e, fs, io)
        | Inr _ \<Rightarrow>
            (case (if do_block then
                     (case ext2fs_allocate_block_bitmap h fs (Some (''block bitmap for '' @ device_name)) of
                        Inl e \<Rightarrow> Inl e
                      | Inr m \<Rightarrow>
                          (case (if do_image then ext2fs_get_mem h (unat (fs_blocksize fs))
                                 else ext2fs_get_memalign h (unat block_nbytes)) of
                             Inl e \<Rightarrow> Inl e | Inr _ \<Rightarrow> Inr (fs\<lparr>fs_block_map := Some m\<rparr>)))
                   else Inr fs) of
               Inl e \<Rightarrow> (Inl e, cleanup fs, io)
             | Inr fs \<Rightarrow>
                 (case (if do_inode then
                          (case ext2fs_allocate_inode_bitmap h fs (Some (''inode bitmap for '' @ device_name)) of
                             Inl e \<Rightarrow> Inl e
                           | Inr m \<Rightarrow>
                               (case ext2fs_get_mem h (if do_image then unat (fs_blocksize fs) else unat inode_nbytes) of
                                  Inl e \<Rightarrow> Inl e | Inr _ \<Rightarrow> Inr (fs\<lparr>fs_inode_map := Some m\<rparr>)))
                        else Inr fs) of
                    Inl e \<Rightarrow> (Inl e, cleanup fs, io)
                  | Inr fs \<Rightarrow>
                      (case (if do_image then
                               read_image_bitmaps fs io (if do_inode then uint inode_nbytes else 0)
                                 (if do_block then uint block_nbytes else 0)
                             else
                               read_groups (unat (fs_group_desc_count fs)) fs io 0
                                 (EXT2FS_B2C fs (ucast (s_first_data_block sb))) (if do_block then Some block_nbytes else None)
                                 1 (if do_inode then Some inode_nbytes else None)) of
                         (Inl e, fs, io) \<Rightarrow> (Inl e, cleanup fs, io)
                       | (Inr _, fs, io) \<Rightarrow> (Inr (), fs, io)))))"

section \<open>The calls of the library\<close>

definition ext2fs_read_inode_bitmap :: "u8 heap \<Rightarrow> string \<Rightarrow> filsys \<Rightarrow> 'd io_channel \<Rightarrow> unit result \<times> filsys \<times> 'd io_channel" where
  "ext2fs_read_inode_bitmap h name fs io = read_bitmaps h name fs io True False"

definition ext2fs_read_block_bitmap :: "u8 heap \<Rightarrow> string \<Rightarrow> filsys \<Rightarrow> 'd io_channel \<Rightarrow> unit result \<times> filsys \<times> 'd io_channel" where
  "ext2fs_read_block_bitmap h name fs io = read_bitmaps h name fs io False True"

definition ext2fs_write_inode_bitmap :: "u8 heap \<Rightarrow> filsys \<Rightarrow> 'd io_channel \<Rightarrow> unit result \<times> filsys \<times> 'd io_channel" where
  "ext2fs_write_inode_bitmap h fs io = write_bitmaps h fs io True False"

definition ext2fs_write_block_bitmap :: "u8 heap \<Rightarrow> filsys \<Rightarrow> 'd io_channel \<Rightarrow> unit result \<times> filsys \<times> 'd io_channel" where
  "ext2fs_write_block_bitmap h fs io = write_bitmaps h fs io False True"

definition ext2fs_read_bitmaps :: "u8 heap \<Rightarrow> string \<Rightarrow> filsys \<Rightarrow> 'd io_channel \<Rightarrow> unit result \<times> filsys \<times> 'd io_channel" where
  "ext2fs_read_bitmaps h name fs io =
     (if fs_inode_map fs \<noteq> None \<and> fs_block_map fs \<noteq> None then (Inr (), fs, io)
      else read_bitmaps h name fs io (fs_inode_map fs = None) (fs_block_map fs = None))"

definition ext2fs_write_bitmaps :: "u8 heap \<Rightarrow> filsys \<Rightarrow> 'd io_channel \<Rightarrow> unit result \<times> filsys \<times> 'd io_channel" where
  "ext2fs_write_bitmaps h fs io =
     (let do_inode = (fs_inode_map fs \<noteq> None \<and> ext2fs_test_ib_dirty fs \<noteq> 0);
          do_block = (fs_block_map fs \<noteq> None \<and> ext2fs_test_bb_dirty fs \<noteq> 0)
      in if \<not> do_inode \<and> \<not> do_block then (Inr (), fs, io) else write_bitmaps h fs io do_inode do_block)"

section \<open>Maps as arrays of bytes\<close>

definition gb_arr :: "gbitmap \<Rightarrow> u8 list" where
  "gb_arr m = (case m of B32 b \<Rightarrow> b32_bitmap b | B64 b \<Rightarrow> b64_bitarray b)"

definition gb_with :: "gbitmap \<Rightarrow> u8 list \<Rightarrow> gbitmap" where
  "gb_with m A = (case m of B32 b \<Rightarrow> B32 (b\<lparr>b32_bitmap := A\<rparr>) | B64 b \<Rightarrow> B64 (b\<lparr>b64_bitarray := A\<rparr>))"

text \<open>A map from \<open>s\<close> to \<open>e\<close> with at least \<open>n\<close> bytes of bits, in the layout the flags of the handle choose.\<close>

definition map_shape :: "filsys \<Rightarrow> nat \<Rightarrow> nat \<Rightarrow> nat \<Rightarrow> gbitmap \<Rightarrow> bool" where
  "map_shape fs s e n m \<longleftrightarrow> n \<le> length (gb_arr m) \<and> s < 8 \<and> s + 8 * n < 2 ^ 32 \<and>
     (case m of
        B32 b \<Rightarrow> fs_flags fs AND EXT2_FLAG_64BITS = 0 \<and> EXT2FS_IS_32_BITMAP (b32_magic b) \<and>
          unat (b32_start b) = s \<and> unat (b32_end b) = e \<and> unat (b32_real_end b) + 1 = s + 8 * n
      | B64 b \<Rightarrow> fs_flags fs AND EXT2_FLAG_64BITS \<noteq> 0 \<and> EXT2FS_IS_64_BITMAP (b64_magic b) \<and>
          unat (b64_start b) = s \<and> unat (b64_end b) = e)"

lemma gb_arr_with [simp]: "gb_arr (gb_with m A) = A" "gb_with (gb_with m A) B = gb_with m B" "gb_with m (gb_arr m) = m"
  by (simp_all add: gb_arr_def gb_with_def split: gbitmap.splits)

lemma map_shape_with:
  "map_shape fs s e n m \<Longrightarrow> length A = length (gb_arr m) \<Longrightarrow> map_shape fs s e n (gb_with m A)"
  by (auto simp: map_shape_def gb_with_def gb_arr_def split: gbitmap.splits)

lemma map_shape_cong: "fs_flags fs' = fs_flags fs \<Longrightarrow> map_shape fs' = map_shape fs"
  by (intro ext) (simp add: map_shape_def split: gbitmap.split)

lemma group_range_words:
  assumes "s < 8" "s + 8 * (p + nb) < 2 ^ 32" "0 < nb"
  shows "unat (of_nat (s + 8 * p) :: u64) = s + 8 * p" "unat (drop_bit 3 (of_nat (s + 8 * p) :: u64)) = p"
    "unat (of_nat (8 * nb) :: u32) = 8 * nb" "unat (drop_bit 3 (of_nat (8 * nb) + 7 :: u32)) = nb"
    "unat (of_nat (s + 8 * p) + ucast (of_nat (8 * nb) :: u32) - 1 :: u64) = s + 8 * (p + nb) - 1"
proof -
  show 1: "unat (of_nat (s + 8 * p) :: u64) = s + 8 * p" using assms by (intro unat_of_nat_small) simp
  show "unat (drop_bit 3 (of_nat (s + 8 * p) :: u64)) = p"
    using assms(1) by (simp only: unat_drop_bit_eq 1) (simp add: drop_bit_eq_div)
  show 2: "unat (of_nat (8 * nb) :: u32) = 8 * nb" using assms by (intro unat_of_nat_small) simp
  have "8 * nb < 8 * 2 ^ 29" using assms by simp
  then have "8 * nb + 7 < 2 ^ 32" by simp
  then have "unat (of_nat (8 * nb) + 7 :: u32) = 8 * nb + 7"
    by (subst unat_add_small) (simp_all only: 2, simp_all)
  then show "unat (drop_bit 3 (of_nat (8 * nb) + 7 :: u32)) = nb"
    by (simp only: unat_drop_bit_eq) (simp add: drop_bit_eq_div)
  have "unat (of_nat (s + 8 * p) + ucast (of_nat (8 * nb) :: u32) :: u64) = s + 8 * (p + nb)"
    using assms 1 2 by (subst unat_add_small) simp_all
  then show "unat (of_nat (s + 8 * p) + ucast (of_nat (8 * nb) :: u32) - 1 :: u64) = s + 8 * (p + nb) - 1"
    using assms(3) by (subst unat_minus_one) auto
qed

lemma range_checks32:
  assumes "s < 8" "s + 8 * (p + nb) < 2 ^ 32" "0 < nb"
  shows "(of_nat (s + 8 * p) + ucast (of_nat (8 * nb) :: u32) - 1 :: u64) AND NOT 0xFFFFFFFF = 0"
    "unat (ucast (of_nat (s + 8 * p) :: u64) :: u32) = s + 8 * p"
    "unat (drop_bit 3 (ucast (of_nat (s + 8 * p) :: u64) :: u32)) = p"
    "unat (ucast (of_nat (s + 8 * p) :: u64) + of_nat (8 * nb) - 1 :: u32) = s + 8 * (p + nb) - 1"
proof -
  note w = group_range_words [OF assms]
  show "(of_nat (s + 8 * p) + ucast (of_nat (8 * nb) :: u32) - 1 :: u64) AND NOT 0xFFFFFFFF = 0"
    unfolding high_bits_zero w(5) using assms by simp
  show 1: "unat (ucast (of_nat (s + 8 * p) :: u64) :: u32) = s + 8 * p"
    using w(1) assms by (subst unat_ucast_u32) simp_all
  show "unat (drop_bit 3 (ucast (of_nat (s + 8 * p) :: u64) :: u32)) = p"
    using assms(1) by (simp only: unat_drop_bit_eq 1) (simp add: drop_bit_eq_div)
  have "unat (ucast (of_nat (s + 8 * p) :: u64) + of_nat (8 * nb) :: u32) = s + 8 * (p + nb)"
    using assms 1 w(3) by (subst unat_add_small) simp_all
  then show "unat (ucast (of_nat (s + 8 * p) :: u64) + of_nat (8 * nb) - 1 :: u32) = s + 8 * (p + nb) - 1"
    using assms(3) by (subst unat_minus_one) auto
qed

lemma map_range:
  assumes m: "map_shape fs s e n m" and p: "p + nb \<le> n" "0 < nb"
  shows "ext2fs_get_generic_bmap_range (Some m) (of_nat (s + 8 * p)) (of_nat (8 * nb)) =
      Inr (take nb (drop p (gb_arr m)))"
    "length data = nb \<Longrightarrow> ext2fs_set_generic_bmap_range (Some m) (of_nat (s + 8 * p)) (of_nat (8 * nb)) data =
      Inr (gb_with m (put_bytes (gb_arr m) p data))"
proof -
  have b: "s < 8" "s + 8 * (p + nb) < 2 ^ 32" using m p by (auto simp: map_shape_def)
  note w = group_range_words [OF b p(2)] and c = range_checks32 [OF b p(2)]
  have in32: "\<not> (ucast (of_nat (s + 8 * p) :: u64) < b32_start x \<or>
      ucast (of_nat (s + 8 * p) :: u64) + of_nat (8 * nb) - 1 > b32_real_end x)" if "m = B32 x" for x
    using m p that by (auto simp: map_shape_def word_less_nat_alt c simp del: of_nat_add of_nat_mult)
  show "ext2fs_get_generic_bmap_range (Some m) (of_nat (s + 8 * p)) (of_nat (8 * nb)) = Inr (take nb (drop p (gb_arr m)))"
    using m in32 unfolding map_shape_def ext2fs_get_generic_bmap_range_def ext2fs_get_generic_bitmap_range_def ba_get_bmap_range_def
    by (simp only: c w Let_def) (auto simp: gb_arr_def split: gbitmap.splits)
  assume "length data = nb"
  then show "ext2fs_set_generic_bmap_range (Some m) (of_nat (s + 8 * p)) (of_nat (8 * nb)) data =
      Inr (gb_with m (put_bytes (gb_arr m) p data))"
    using m in32 unfolding map_shape_def ext2fs_set_generic_bmap_range_def ext2fs_set_generic_bitmap_range_def ba_set_bmap_range_def
    by (simp only: c w Let_def) (auto simp: gb_arr_def gb_with_def put_bytes_def split: gbitmap.splits)
qed

section \<open>Where the bitmaps are stored\<close>

text \<open>
  A file system without clusters, with \<open>nbb\<close> bytes of block bitmap and \<open>nib\<close> bytes of inode
  bitmap in a group; every group has both, in blocks of their own, and none is marked uninitialised.
\<close>

definition bitmaps_ok :: "filsys \<Rightarrow> nat \<Rightarrow> nat \<Rightarrow> nat \<Rightarrow> nat \<Rightarrow> bool" where
  "bitmaps_ok fs bs nb nbb nib \<longleftrightarrow>
     fs_magic fs = EXT2_ET_MAGIC_EXT2FS_FILSYS \<and> fs_flags fs AND EXT2_FLAG_IMAGE_FILE = 0 \<and>
     geometry_ok fs \<and> fs_cluster_ratio_bits fs = 0 \<and> unat (fs_blocksize fs) = bs \<and> 8 * bs < 2 ^ 32 \<and>
     s_clusters_per_group (fs_super fs) = s_blocks_per_group (fs_super fs) \<and>
     unat (s_blocks_per_group (fs_super fs)) = 8 * nbb \<and> 0 < nbb \<and> nbb \<le> bs \<and>
     unat (s_inodes_per_group (fs_super fs)) = 8 * nib \<and> 0 < nib \<and> nib \<le> bs \<and>
     unat (s_first_data_block (fs_super fs)) < 8 \<and>
     unat (s_first_data_block (fs_super fs)) + 8 * (nbb * unat (fs_group_desc_count fs)) < 2 ^ 32 \<and>
     1 + 8 * (nib * unat (fs_group_desc_count fs)) < 2 ^ 32 \<and>
     s_inodes_count (fs_super fs) \<noteq> 0 \<and>
     unat (s_inodes_count (fs_super fs)) \<le> 8 * (nib * unat (fs_group_desc_count fs)) \<and>
     (\<forall>g. g < fs_group_desc_count fs \<longrightarrow>
        ext2fs_block_bitmap_loc fs g \<noteq> 0 \<and> unat (ext2fs_block_bitmap_loc fs g) < nb \<and>
        ext2fs_inode_bitmap_loc fs g \<noteq> 0 \<and> unat (ext2fs_inode_bitmap_loc fs g) < nb \<and>
        (has_gdt_csum fs \<longrightarrow> bg_flags (ext2fs_group_desc fs g) AND (EXT2_BG_BLOCK_UNINIT OR EXT2_BG_INODE_UNINIT) = 0)) \<and>
     (\<forall>g g'. g < fs_group_desc_count fs \<longrightarrow> g' < fs_group_desc_count fs \<longrightarrow>
        ext2fs_block_bitmap_loc fs g \<noteq> ext2fs_inode_bitmap_loc fs g' \<and>
        (g \<noteq> g' \<longrightarrow> ext2fs_block_bitmap_loc fs g \<noteq> ext2fs_block_bitmap_loc fs g' \<and>
                   ext2fs_inode_bitmap_loc fs g \<noteq> ext2fs_inode_bitmap_loc fs g'))"

text \<open>The maps do not enter it.\<close>

lemma bitmap_locs_cong:
  assumes "fs_super fs' = fs_super fs" "fs_group_desc fs' = fs_group_desc fs"
  shows "ext2fs_block_bitmap_loc fs' = ext2fs_block_bitmap_loc fs" "ext2fs_inode_bitmap_loc fs' = ext2fs_inode_bitmap_loc fs"
    "has_gdt_csum fs' = has_gdt_csum fs" "ext2fs_group_desc fs' = ext2fs_group_desc fs"
  by (simp_all add: fun_eq_iff ext2fs_block_bitmap_loc_def ext2fs_inode_bitmap_loc_def has_gdt_csum_def ext2fs_group_desc_def assms)

lemma bitmaps_ok_maps [simp]:
  "bitmaps_ok (fs\<lparr>fs_block_map := a\<rparr>) = bitmaps_ok fs" "bitmaps_ok (fs\<lparr>fs_inode_map := c\<rparr>) = bitmaps_ok fs"
  by (simp_all add: fun_eq_iff bitmaps_ok_def geometry_ok_def bitmap_locs_cong [of "fs\<lparr>fs_block_map := a\<rparr>" fs]
      bitmap_locs_cong [of "fs\<lparr>fs_inode_map := c\<rparr>" fs])

text \<open>A block that carries the bits of group \<open>j\<close>, as far as there are \<open>lim\<close> of them.\<close>

definition carries :: "nat \<Rightarrow> nat \<Rightarrow> u8 list \<Rightarrow> nat \<Rightarrow> u8 list \<Rightarrow> bool" where
  "carries n lim A j D \<longleftrightarrow> (\<forall>k. k < 8 * n \<longrightarrow> 8 * (n * j) + k < lim \<longrightarrow> bit_at D k = bit_at A (8 * (n * j) + k))"

lemma bit_at_slice:
  assumes "k < 8 * n" "8 * (p + n) \<le> 8 * length A"
  shows "bit_at (take n (drop p A)) k = bit_at A (8 * p + k)"
proof -
  have "k div 8 < n" using assms(1) by (simp add: less_mult_imp_div_less mult.commute)
  then show ?thesis using assms(2) by (simp add: bit_at_def)
qed

lemma bit_at_put_bytes:
  assumes "p + length data \<le> length A"
  shows "bit_at (put_bytes A p data) k =
    (if 8 * p \<le> k \<and> k < 8 * (p + length data) then bit_at data (k - 8 * p) else bit_at A k)"
proof -
  have "8 * p \<le> k \<longleftrightarrow> p \<le> k div 8" "k < 8 * (p + length data) \<longleftrightarrow> k div 8 < p + length data"
    by (simp_all add: div_less_iff_less_mult less_eq_div_iff_mult_less_eq mult.commute)
  moreover have "(k - 8 * p) div 8 = k div 8 - p" "(k - 8 * p) mod 8 = k mod 8" if "p \<le> k div 8"
  proof -
    have "8 * p \<le> k" using that by linarith
    then obtain r where "k = 8 * p + r" by (rule le_Suc_ex [THEN exE])
    then show "(k - 8 * p) div 8 = k div 8 - p" "(k - 8 * p) mod 8 = k mod 8" by simp_all
  qed
  ultimately show ?thesis using nth_put_bytes [OF assms, of "k div 8"] by (simp add: bit_at_def)
qed

lemma foldl_put_bits:
  "length (foldl (\<lambda>A j. put_bit True (f j) A) A js) = length A"
  "(\<And>j. j \<in> set js \<Longrightarrow> f j \<noteq> k) \<Longrightarrow> bit_at (foldl (\<lambda>A j. put_bit True (f j) A) A js) k = bit_at A k"
proof (induction js arbitrary: A)
  case (Cons j js)
  {
    case 1 show ?case using Cons.IH(1) by simp
  next
    case 2
    have "bit_at (put_bit True (f j) A) k = bit_at A k"
    proof (cases "f j div 8 < length A")
      case True then show ?thesis using 2 [of j] by (subst bit_at_put_bit) auto
    next
      case False then show ?thesis by (simp add: put_bit_def bit_at_def list_update_beyond)
    qed
    then show ?case using Cons.IH(2) [of "put_bit True (f j) A"] 2 by simp
  }
qed simp_all

lemma pad_last_group_bits:
  assumes fs: "bitmaps_ok fs bs nb nbb nib" and k: "k < 8 * nbb"
    "8 * (nbb * (unat (fs_group_desc_count fs) - 1)) + k <
       unat (ext2fs_blocks_count (fs_super fs)) - unat (s_first_data_block (fs_super fs))"
  shows "bit_at (pad_last_group fs buf) k = bit_at buf k"
proof -
  let ?c = "ext2fs_blocks_count (fs_super fs)" and ?f = "s_first_data_block (fs_super fs)"
  let ?b = "s_blocks_per_group (fs_super fs)" and ?G = "unat (fs_group_desc_count fs)"
  let ?n = "ucast ((?c - ucast ?f) mod ucast ?b) :: u32"
  have g: "unat ?b = 8 * nbb" "0 < nbb" "unat ?f < unat ?c" "unat ?f + (?G - 1) * unat ?b < unat ?c" "unat ?c \<le> unat ?f + ?G * unat ?b"
      "0 < ?G" "fs_cluster_ratio_bits fs = 0" "8 * bs < 2 ^ 32" "unat (fs_blocksize fs) = bs"
    using fs by (auto simp: bitmaps_ok_def geometry_ok_def Let_def)
  have d: "unat (?c - ucast ?f) = unat ?c - unat ?f" using g(3) by (subst unat_diff) (simp_all add: word_le_nat_alt)
  then have "unat ((?c - ucast ?f) mod ucast ?b) = (unat ?c - unat ?f) mod (8 * nbb)" using g(1) by (simp add: unat_mod_distrib)
  moreover have "(unat ?c - unat ?f) mod (8 * nbb) < 2 ^ 32"
    using g(1,2) unat_u32_bound [of ?b] mod_less_divisor [of "8 * nbb" "unat ?c - unat ?f"] by linarith
  ultimately have n: "unat ?n = (unat ?c - unat ?f) mod (8 * nbb)" by (simp only: unat_ucast_u32)
  have lim: "k < unat ?n" if "?n \<noteq> 0"
  proof -
    let ?r = "unat ?c - unat ?f - (?G - 1) * (8 * nbb)"
    have r: "unat ?c - unat ?f = ?r + (?G - 1) * (8 * nbb)" using g(4) unfolding g(1) by linarith
    have "?G * (8 * nbb) = (?G - 1) * (8 * nbb) + 8 * nbb" using g(6) by (cases ?G) (simp_all add: algebra_simps)
    then have rle: "?r \<le> 8 * nbb" using g(5) unfolding g(1) by linarith
    have "(unat ?c - unat ?f) mod (8 * nbb) = ?r mod (8 * nbb)" by (subst r) simp
    moreover have "unat ?n \<noteq> 0" using that by (simp add: unat_eq_0)
    ultimately have "?r \<noteq> 8 * nbb" "?r mod (8 * nbb) = ?r" using n rle by (auto simp: le_less)
    then have "unat ?n = ?r" using n \<open>(unat ?c - unat ?f) mod (8 * nbb) = ?r mod (8 * nbb)\<close> by simp
    moreover have "8 * (nbb * (?G - 1)) = (?G - 1) * (8 * nbb)" by simp
    ultimately show ?thesis using k(2) by linarith
  qed
  have nb: "unat (fs_blocksize fs * 8) = 8 * bs"
    using g(8,9) unat_mult_lem [of "fs_blocksize fs" 8] by (simp add: mult.commute)
  have "bit_at (foldl (\<lambda>A j. put_bit True (unat (of_nat j :: u32)) A) buf [unat ?n..<8 * bs]) k = bit_at buf k" if "?n \<noteq> 0"
    using lim [OF that] g(8) by (intro foldl_put_bits(2)) (auto simp: unat_of_nat_small)
  moreover have "pad_last_group fs buf =
      (if ?n \<noteq> 0 then foldl (\<lambda>A j. put_bit True (unat (of_nat j :: u32)) A) buf [unat ?n..<8 * bs] else buf)"
    unfolding pad_last_group_def Let_def bit_fun_at using nb g(7) by (simp add: EXT2FS_CLUSTER_RATIO_def EXT2FS_B2C_def)
  ultimately show ?thesis by simp
qed

lemma length_pad_last_group [simp]: "length (pad_last_group fs buf) = length buf"
  unfolding pad_last_group_def Let_def bit_fun_at by (simp add: foldl_put_bits(1) [where f = "\<lambda>j. unat (of_nat j :: u32)"])

section \<open>The loops\<close>

lemma next_group:
  assumes "unat (i :: u32) < unat (G :: u32)" "8 * nb < 2 ^ 32"
  shows "unat (i + 1) = unat i + 1"
    "(of_nat (s + 8 * (nb * unat i)) :: u64) + ucast (of_nat (8 * nb) :: u32) = of_nat (s + 8 * (nb * (unat i + 1)))"
    "(of_nat (s + 8 * (nb * unat i)) :: u32) + of_nat (8 * nb) = of_nat (s + 8 * (nb * (unat i + 1)))"
proof -
  have "unat i + 1 < 2 ^ 32" using assms(1) unat_u32_bound [of G] by linarith
  then show "unat (i + 1) = unat i + 1" by (subst unat_add_small) simp_all
  have "unat (of_nat (8 * nb) :: u32) = 8 * nb" using assms(2) by (intro unat_of_nat_small) simp
  then have "ucast (of_nat (8 * nb) :: u32) = (of_nat (8 * nb) :: u64)"
    by (metis of_nat_unat)
  then show "(of_nat (s + 8 * (nb * unat i)) :: u64) + ucast (of_nat (8 * nb) :: u32) = of_nat (s + 8 * (nb * (unat i + 1)))"
    "(of_nat (s + 8 * (nb * unat i)) :: u32) + of_nat (8 * nb) = of_nat (s + 8 * (nb * (unat i + 1)))"
    by (simp_all add: algebra_simps)
qed

lemma group_window:
  assumes "i < G"
  shows "n * i + n \<le> n * (G :: nat)"
proof -
  have "n * (i + 1) \<le> n * G" using assms by (intro mult_le_mono2) simp
  then show ?thesis by (simp add: algebra_simps)
qed

text \<open>\<open>loaded N n loc D i A B\<close>: \<open>A\<close>, of which \<open>N\<close> bytes are used, with the bits of the groups from \<open>i\<close> on taken from the blocks at \<open>loc\<close>.\<close>

definition loaded :: "nat \<Rightarrow> nat \<Rightarrow> (u32 \<Rightarrow> u64) \<Rightarrow> (u64 \<Rightarrow> u8 list) \<Rightarrow> nat \<Rightarrow> u8 list \<Rightarrow> u8 list \<Rightarrow> bool" where
  "loaded N n loc D i A B \<longleftrightarrow> length B = length A \<and>
     (\<forall>k. k < 8 * N \<longrightarrow>
        bit_at B k = (if k < 8 * (n * i) then bit_at A k else bit_at (D (loc (of_nat (k div (8 * n))))) (k mod (8 * n))))"

lemma loaded_step:
  assumes "loaded N n loc D (unat (i :: u32) + 1) (put_bytes A (n * unat i) (take n (D (loc i)))) B"
    and "n * unat i + n \<le> length A" "0 < n" "n \<le> length (D (loc i))"
  shows "loaded N n loc D (unat i) A B"
proof -
  let ?T = "take n (D (loc i))"
  have lT: "length ?T = n" using assms(4) by simp
  have fit: "n * unat i + length ?T \<le> length A" using assms(2) lT by simp
  have "bit_at B k = (if k < 8 * (n * unat i) then bit_at A k else bit_at (D (loc (of_nat (k div (8 * n))))) (k mod (8 * n)))"
    if k: "k < 8 * N" for k
  proof (cases "k < 8 * (n * (unat i + 1))")
    case False
    then have "\<not> k < 8 * (n * unat i)" by (simp add: algebra_simps)
    then show ?thesis using assms(1) k False fit by (simp add: loaded_def)
  next
    case True
    then have B: "bit_at B k = bit_at (put_bytes A (n * unat i) ?T) k" using assms(1) k fit by (simp add: loaded_def)
    show ?thesis
    proof (cases "k < 8 * (n * unat i)")
      case True
      then show ?thesis using B bit_at_put_bytes [OF fit, of k] by simp
    next
      case False
      let ?r = "k - 8 * (n * unat i)"
      have r: "k = unat i * (8 * n) + ?r" "?r < 8 * n" using False True by (simp_all add: algebra_simps)
      have dm: "k div (8 * n) = unat i" "k mod (8 * n) = ?r"
        using r(2) assms(3) by (subst r(1), simp)+
      have "bit_at B k = bit_at ?T ?r" using B bit_at_put_bytes [OF fit, of k] False True lT by (simp add: algebra_simps)
      also have "\<dots> = bit_at (D (loc i)) ?r" using bit_at_slice [OF r(2), of 0 "D (loc i)"] assms(4) by simp
      finally show ?thesis using False dm by simp
    qed
  qed
  then show ?thesis using assms(1) fit by (simp add: loaded_def)
qed

context block_device begin

lemma write_block_group_ok:
  assumes io: "io_ok io" and fs: "bitmaps_ok fs bs nb nbb nib" and i: "i < fs_group_desc_count fs"
    and m: "fs_block_map fs = Some m" "map_shape fs s e (nbb * unat (fs_group_desc_count fs)) m"
    and s: "s = unat (s_first_data_block (fs_super fs))" and buf: "length buf = bs"
    and lim: "lim \<le> unat (ext2fs_blocks_count (fs_super fs)) - s"
  shows "\<exists>io' D. write_block_group fs io i (of_nat (s + 8 * (nbb * unat i))) (of_nat (8 * nbb)) buf = (Inr D, io') \<and> io_ok io' \<and>
    length D = bs \<and> carries nbb lim (gb_arr m) (unat i) D \<and>
    (\<forall>c. unat c < nb \<longrightarrow> blk io' c = (if c = ext2fs_block_bitmap_loc fs i then D else blk io c))"
proof -
  let ?G = "unat (fs_group_desc_count fs)" and ?loc = "ext2fs_block_bitmap_loc fs i"
  have p: "?loc \<noteq> 0" "unat ?loc < nb" "has_gdt_csum fs \<longrightarrow> bg_flags (ext2fs_group_desc fs i) AND (EXT2_BG_BLOCK_UNINIT OR EXT2_BG_INODE_UNINIT) = 0"
      "0 < nbb" "nbb \<le> bs" "0 < ?G"
    using fs i by (auto simp: bitmaps_ok_def geometry_ok_def Let_def)
  have un: "\<not> (has_gdt_csum fs \<and> ext2fs_bg_flags_test fs i EXT2_BG_BLOCK_UNINIT \<noteq> 0)"
    using p(3) by (auto simp: ext2fs_bg_flags_test_def bit.conj_disj_distrib or_eq_0_iff)
  have w: "nbb * unat i + nbb \<le> nbb * ?G" using i by (intro group_window) (simp add: word_less_nat_alt)
  have len: "nbb * ?G \<le> length (gb_arr m)" using m(2) by (simp add: map_shape_def)
  let ?S = "take nbb (drop (nbb * unat i) (gb_arr m))"
  let ?E = "put_bytes buf 0 ?S"
  let ?D = "if i = fs_group_desc_count fs - 1 then pad_last_group fs ?E else ?E"
  have lS: "length ?S = nbb" using w len by simp
  have lD: "length ?D = bs" using p(5) buf lS by simp
  have bits: "bit_at ?E k = bit_at (gb_arr m) (8 * (nbb * unat i) + k)" if "k < 8 * nbb" for k
    using that lS w len p(5) buf bit_at_put_bytes [of 0 ?S buf k] bit_at_slice [OF that, of "nbb * unat i" "gb_arr m"] by simp
  have "carries nbb lim (gb_arr m) (unat i) ?D"
    unfolding carries_def
  proof (intro allI impI)
    fix k assume k: "k < 8 * nbb" "8 * (nbb * unat i) + k < lim"
    show "bit_at ?D k = bit_at (gb_arr m) (8 * (nbb * unat i) + k)"
    proof (cases "i = fs_group_desc_count fs - 1")
      case True
      then have "unat i = ?G - 1" using p(6) unat_minus_one [of "fs_group_desc_count fs"] by force
      then have "8 * (nbb * (?G - 1)) + k < unat (ext2fs_blocks_count (fs_super fs)) - unat (s_first_data_block (fs_super fs))"
        using k lim s by simp
      then have "bit_at (pad_last_group fs ?E) k = bit_at ?E k" by (rule pad_last_group_bits [OF fs k(1)])
      then show ?thesis unfolding if_P [OF True] using bits [OF k(1)] by (simp only:)
    next
      case False
      then show ?thesis using bits [OF k(1)] by simp
    qed
  qed
  moreover from write_block [OF io p(2) lD] obtain io' where
    "io_channel_write_blk64 io ?loc 1 ?D = (Inr (), io')" "io_ok io'"
    "\<forall>c. unat c < nb \<longrightarrow> blk io' c = (if c = ?loc then ?D else blk io c)" by blast
  moreover from this(1) have "write_block_group fs io i (of_nat (s + 8 * (nbb * unat i))) (of_nat (8 * nbb)) buf = (Inr ?D, io')"
    unfolding write_block_group_def ext2fs_get_block_bitmap_range2_def m(1) map_range(1) [OF m(2) w p(4)]
    by (simp only: un p(1) if_False if_True sum.case Let_def prod.case not_False_eq_True)
  ultimately show ?thesis using lD by blast
qed

lemma write_inode_group_ok:
  assumes io: "io_ok io" and fs: "bitmaps_ok fs bs nb nbb nib" and i: "i < fs_group_desc_count fs"
    and m: "fs_inode_map fs = Some m" "map_shape fs 1 e (nib * unat (fs_group_desc_count fs)) m" and buf: "length buf = bs"
  shows "\<exists>io' D. write_inode_group fs io i (of_nat (1 + 8 * (nib * unat i))) (of_nat (8 * nib)) buf = (Inr D, io') \<and> io_ok io' \<and>
    length D = bs \<and> carries nib lim (gb_arr m) (unat i) D \<and>
    (\<forall>c. unat c < nb \<longrightarrow> blk io' c = (if c = ext2fs_inode_bitmap_loc fs i then D else blk io c))"
proof -
  let ?G = "unat (fs_group_desc_count fs)" and ?loc = "ext2fs_inode_bitmap_loc fs i"
  have p: "?loc \<noteq> 0" "unat ?loc < nb" "has_gdt_csum fs \<longrightarrow> bg_flags (ext2fs_group_desc fs i) AND (EXT2_BG_BLOCK_UNINIT OR EXT2_BG_INODE_UNINIT) = 0"
      "0 < nib" "nib \<le> bs" "0 < ?G" "1 + 8 * (nib * ?G) < 2 ^ 32"
    using fs i by (auto simp: bitmaps_ok_def geometry_ok_def Let_def)
  have un: "\<not> (has_gdt_csum fs \<and> ext2fs_bg_flags_test fs i EXT2_BG_INODE_UNINIT \<noteq> 0)"
    using p(3) by (auto simp: ext2fs_bg_flags_test_def bit.conj_disj_distrib or_eq_0_iff)
  have w: "nib * unat i + nib \<le> nib * ?G" using i by (intro group_window) (simp add: word_less_nat_alt)
  have len: "nib * ?G \<le> length (gb_arr m)" using m(2) by (simp add: map_shape_def)
  have itr: "ucast (of_nat (1 + 8 * (nib * unat i)) :: u32) = (of_nat (1 + 8 * (nib * unat i)) :: u64)"
  proof -
    have "unat (of_nat (1 + 8 * (nib * unat i)) :: u32) = 1 + 8 * (nib * unat i)" using w p(7) by (intro unat_of_nat_small) simp
    then show ?thesis by (metis of_nat_unat)
  qed
  let ?S = "take nib (drop (nib * unat i) (gb_arr m))"
  let ?D = "put_bytes buf 0 ?S"
  have lS: "length ?S = nib" using w len by simp
  have lD: "length ?D = bs" using p(5) buf lS by simp
  have "carries nib lim (gb_arr m) (unat i) ?D"
    unfolding carries_def
    using lS w len p(5) buf bit_at_put_bytes [of 0 ?S buf] bit_at_slice [of _ nib "nib * unat i" "gb_arr m"] by simp
  moreover from write_block [OF io p(2) lD] obtain io' where
    "io_channel_write_blk64 io ?loc 1 ?D = (Inr (), io')" "io_ok io'"
    "\<forall>c. unat c < nb \<longrightarrow> blk io' c = (if c = ?loc then ?D else blk io c)" by blast
  moreover from this(1) have "write_inode_group fs io i (of_nat (1 + 8 * (nib * unat i))) (of_nat (8 * nib)) buf = (Inr ?D, io')"
    unfolding write_inode_group_def ext2fs_get_inode_bitmap_range2_def m(1) itr map_range(1) [OF m(2) w p(4)]
    by (simp only: un p(1) if_False if_True sum.case Let_def prod.case not_False_eq_True)
  ultimately show ?thesis using lD by blast
qed

text \<open>The block a group is written to is none of a later group.\<close>

lemma write_groups_ok:
  assumes fs: "bitmaps_ok fs bs nb nbb nib" and n: "n + unat i = unat (fs_group_desc_count fs)" and io: "io_ok io"
    and m: "fs_block_map fs = Some m" "map_shape fs s e (nbb * unat (fs_group_desc_count fs)) m"
      "s = unat (s_first_data_block (fs_super fs))" "lim \<le> unat (ext2fs_blocks_count (fs_super fs)) - s"
    and m': "fs_inode_map fs = Some m'" "map_shape fs 1 e' (nib * unat (fs_group_desc_count fs)) m'"
    and buf: "length buf = bs" "length buf' = bs"
  shows "\<exists>io'. write_groups n fs io i (of_nat (s + 8 * (nbb * unat i))) (of_nat (8 * nbb)) (Some buf)
      (of_nat (1 + 8 * (nib * unat i))) (of_nat (8 * nib)) (Some buf') = (Inr (), io') \<and> io_ok io' \<and>
    (\<forall>j. j < fs_group_desc_count fs \<longrightarrow> i \<le> j \<longrightarrow>
       carries nbb lim (gb_arr m) (unat j) (blk io' (ext2fs_block_bitmap_loc fs j)) \<and>
       carries nib lim' (gb_arr m') (unat j) (blk io' (ext2fs_inode_bitmap_loc fs j))) \<and>
    (\<forall>c. unat c < nb \<longrightarrow> (\<forall>j. j < fs_group_desc_count fs \<longrightarrow> i \<le> j \<longrightarrow>
         c \<noteq> ext2fs_block_bitmap_loc fs j \<and> c \<noteq> ext2fs_inode_bitmap_loc fs j) \<longrightarrow> blk io' c = blk io c)"
  using n io buf
proof (induction n arbitrary: i io buf buf')
  case 0
  then have "\<not> (j < fs_group_desc_count fs \<and> i \<le> j)" for j by (simp add: word_less_nat_alt word_le_nat_alt)
  then show ?case using 0 by auto
next
  case (Suc n)
  let ?G = "fs_group_desc_count fs" and ?b = "ext2fs_block_bitmap_loc fs" and ?i = "ext2fs_inode_bitmap_loc fs"
  have i: "i < ?G" using Suc.prems(1) by (simp add: word_less_nat_alt)
  have loc: "\<And>g. g < ?G \<Longrightarrow> unat (?b g) < nb \<and> unat (?i g) < nb"
    "\<And>g g'. g < ?G \<Longrightarrow> g' < ?G \<Longrightarrow> ?b g \<noteq> ?i g' \<and> (g \<noteq> g' \<longrightarrow> ?b g \<noteq> ?b g' \<and> ?i g \<noteq> ?i g')"
    "8 * nbb < 2 ^ 32" "8 * nib < 2 ^ 32"
    using fs unfolding bitmaps_ok_def by (blast, blast, linarith+)
  from write_block_group_ok [OF Suc.prems(2) fs i m(1,2,3) Suc.prems(3) m(4)] obtain io1 D where w1:
    "write_block_group fs io i (of_nat (s + 8 * (nbb * unat i))) (of_nat (8 * nbb)) buf = (Inr D, io1)" "io_ok io1" "length D = bs"
    "carries nbb lim (gb_arr m) (unat i) D" "\<And>c. unat c < nb \<Longrightarrow> blk io1 c = (if c = ?b i then D else blk io c)" by blast
  from write_inode_group_ok [OF w1(2) fs i m' Suc.prems(4), of lim'] obtain io2 D' where w2:
    "write_inode_group fs io1 i (of_nat (1 + 8 * (nib * unat i))) (of_nat (8 * nib)) buf' = (Inr D', io2)" "io_ok io2" "length D' = bs"
    "carries nib lim' (gb_arr m') (unat i) D'" "\<And>c. unat c < nb \<Longrightarrow> blk io2 c = (if c = ?i i then D' else blk io1 c)" by blast
  have u: "unat i < unat ?G" using i by (simp add: word_less_nat_alt)
  note nx = next_group [OF u loc(3)] next_group(3) [OF u loc(4)]
  have "n + unat (i + 1) = unat ?G" using Suc.prems(1) nx(1) by simp
  from Suc.IH [OF this w2(2) w1(3) w2(3)] obtain io' where r:
    "write_groups n fs io2 (i + 1) (of_nat (s + 8 * (nbb * unat (i + 1)))) (of_nat (8 * nbb)) (Some D)
      (of_nat (1 + 8 * (nib * unat (i + 1)))) (of_nat (8 * nib)) (Some D') = (Inr (), io')" "io_ok io'"
    "\<And>j. j < ?G \<Longrightarrow> i + 1 \<le> j \<Longrightarrow> carries nbb lim (gb_arr m) (unat j) (blk io' (?b j)) \<and> carries nib lim' (gb_arr m') (unat j) (blk io' (?i j))"
    "\<And>c. unat c < nb \<Longrightarrow> \<forall>j. j < ?G \<longrightarrow> i + 1 \<le> j \<longrightarrow> c \<noteq> ?b j \<and> c \<noteq> ?i j \<Longrightarrow> blk io' c = blk io2 c" by blast
  have later: "i + 1 \<le> j \<longleftrightarrow> i \<le> j \<and> j \<noteq> i" for j
    using nx(1) by (auto simp: word_le_nat_alt word_unat_eq_iff)
  have apart: "\<forall>j. j < ?G \<longrightarrow> i + 1 \<le> j \<longrightarrow> ?b i \<noteq> ?b j \<and> ?b i \<noteq> ?i j" "\<forall>j. j < ?G \<longrightarrow> i + 1 \<le> j \<longrightarrow> ?i i \<noteq> ?b j \<and> ?i i \<noteq> ?i j"
    using loc(2) [OF i] loc(2) [OF _ i] unfolding later by metis+
  have "blk io' (?b i) = D" "blk io' (?i i) = D'"
    using r(4) [OF _ apart(1)] r(4) [OF _ apart(2)] loc(1) [OF i] loc(2) [OF i i] w1(5) w2(5) by simp_all
  then have now: "carries nbb lim (gb_arr m) (unat j) (blk io' (?b j)) \<and> carries nib lim' (gb_arr m') (unat j) (blk io' (?i j))"
    if "j < ?G" "i \<le> j" for j
    using w1(4) w2(4) r(3) [OF that(1)] that(2) later by (cases "j = i") auto
  have "blk io' c = blk io c" if "unat c < nb" "\<forall>j. j < ?G \<longrightarrow> i \<le> j \<longrightarrow> c \<noteq> ?b j \<and> c \<noteq> ?i j" for c
    using r(4) [OF that(1)] w1(5) [OF that(1)] w2(5) [OF that(1)] that(2) i later by auto
  moreover have "write_groups (Suc n) fs io i (of_nat (s + 8 * (nbb * unat i))) (of_nat (8 * nbb)) (Some buf)
      (of_nat (1 + 8 * (nib * unat i))) (of_nat (8 * nib)) (Some buf') = (Inr (), io')"
    using r(1) unfolding write_groups.simps option.case w1(1) prod.case sum.case w2(1) nx(2,4) by (simp only: nx(1))
  ultimately show ?case using r(2) now by blast
qed

lemma read_block_group_ok:
  assumes io: "io_ok io" and fs: "bitmaps_ok fs bs nb nbb nib" and i: "i < fs_group_desc_count fs"
    and m: "fs_block_map fs = Some m" "map_shape fs s e (nbb * unat (fs_group_desc_count fs)) m"
  shows "\<exists>io'. read_block_group fs io i (of_nat (s + 8 * (nbb * unat i))) (of_nat nbb) =
      (Inr (), fs\<lparr>fs_block_map := Some (gb_with m (put_bytes (gb_arr m) (nbb * unat i) (take nbb (blk io (ext2fs_block_bitmap_loc fs i)))))\<rparr>, io') \<and>
    io_ok io' \<and> blk io' = blk io"
proof -
  let ?G = "unat (fs_group_desc_count fs)" and ?loc = "ext2fs_block_bitmap_loc fs i"
  have p: "?loc \<noteq> 0" "unat ?loc < nb" "has_gdt_csum fs \<longrightarrow> bg_flags (ext2fs_group_desc fs i) AND (EXT2_BG_BLOCK_UNINIT OR EXT2_BG_INODE_UNINIT) = 0"
      "0 < nbb" "nbb \<le> bs" "8 * bs < 2 ^ 32"
    using fs i by (auto simp: bitmaps_ok_def)
  have un: "\<not> (has_gdt_csum fs \<and> ext2fs_bg_flags_test fs i EXT2_BG_BLOCK_UNINIT \<noteq> 0 \<and> ext2fs_group_desc_csum_verify fs i)"
    using p(3) by (auto simp: ext2fs_bg_flags_test_def bit.conj_disj_distrib or_eq_0_iff)
  have w: "nbb * unat i + nbb \<le> nbb * ?G" using i by (intro group_window) (simp add: word_less_nat_alt)
  from read_part [OF io p(2,4,5)] obtain io' where
    r: "io_channel_read_blk64 io ?loc (- int nbb) = (Inr (take nbb (blk io ?loc)), io')" "io_ok io'" "blk io' = blk io" by blast
  have lD: "length (take nbb (blk io ?loc)) = nbb" using block_length [OF io p(2)] p(5) by simp
  have "unat (of_nat nbb :: u32) = nbb" using p(5,6) by (intro unat_of_nat_small) simp
  then have u: "uint (of_nat nbb :: u32) = int nbb" by (simp add: uint_nat)
  have push: "push_bit 3 (of_nat nbb :: u32) = of_nat (8 * nbb)" by (simp add: push_bit_eq_mult mult.commute)
  show ?thesis
    unfolding read_block_group_def if_not_P [OF un] Let_def u r(1) push ext2fs_set_block_bitmap_range2_def m(1)
      sum.case prod.case if_P [OF p(1)] map_range(2) [OF m(2) w p(4) lD]
    using r(2,3) by blast
qed

lemma read_inode_group_ok:
  assumes io: "io_ok io" and fs: "bitmaps_ok fs bs nb nbb nib" and i: "i < fs_group_desc_count fs"
    and m: "fs_inode_map fs = Some m" "map_shape fs 1 e (nib * unat (fs_group_desc_count fs)) m"
  shows "\<exists>io'. read_inode_group fs io i (of_nat (1 + 8 * (nib * unat i))) (of_nat nib) =
      (Inr (), fs\<lparr>fs_inode_map := Some (gb_with m (put_bytes (gb_arr m) (nib * unat i) (take nib (blk io (ext2fs_inode_bitmap_loc fs i)))))\<rparr>, io') \<and>
    io_ok io' \<and> blk io' = blk io"
proof -
  let ?G = "unat (fs_group_desc_count fs)" and ?loc = "ext2fs_inode_bitmap_loc fs i"
  have p: "?loc \<noteq> 0" "unat ?loc < nb" "has_gdt_csum fs \<longrightarrow> bg_flags (ext2fs_group_desc fs i) AND (EXT2_BG_BLOCK_UNINIT OR EXT2_BG_INODE_UNINIT) = 0"
      "0 < nib" "nib \<le> bs" "8 * bs < 2 ^ 32" "1 + 8 * (nib * ?G) < 2 ^ 32"
    using fs i by (auto simp: bitmaps_ok_def)
  have un: "\<not> (has_gdt_csum fs \<and> ext2fs_bg_flags_test fs i EXT2_BG_INODE_UNINIT \<noteq> 0 \<and> ext2fs_group_desc_csum_verify fs i)"
    using p(3) by (auto simp: ext2fs_bg_flags_test_def bit.conj_disj_distrib or_eq_0_iff)
  have w: "nib * unat i + nib \<le> nib * ?G" using i by (intro group_window) (simp add: word_less_nat_alt)
  have itr: "ucast (of_nat (1 + 8 * (nib * unat i)) :: u32) = (of_nat (1 + 8 * (nib * unat i)) :: u64)"
  proof -
    have "unat (of_nat (1 + 8 * (nib * unat i)) :: u32) = 1 + 8 * (nib * unat i)" using w p(7) by (intro unat_of_nat_small) simp
    then show ?thesis by (metis of_nat_unat)
  qed
  from read_part [OF io p(2,4,5)] obtain io' where
    r: "io_channel_read_blk64 io ?loc (- int nib) = (Inr (take nib (blk io ?loc)), io')" "io_ok io'" "blk io' = blk io" by blast
  have lD: "length (take nib (blk io ?loc)) = nib" using block_length [OF io p(2)] p(5) by simp
  have "unat (of_nat nib :: u32) = nib" using p(5,6) by (intro unat_of_nat_small) simp
  then have u: "uint (of_nat nib :: u32) = int nib" by (simp add: uint_nat)
  have push: "push_bit 3 (of_nat nib :: u32) = of_nat (8 * nib)" by (simp add: push_bit_eq_mult mult.commute)
  show ?thesis
    unfolding read_inode_group_def if_not_P [OF un] Let_def u r(1) push ext2fs_set_inode_bitmap_range2_def m(1) itr
      sum.case prod.case if_P [OF p(1)] map_range(2) [OF m(2) w p(4) lD]
    using r(2,3) by blast
qed

lemma read_groups_ok:
  assumes n: "n + unat i = unat (fs_group_desc_count fs)" and io: "io_ok io" and fs: "bitmaps_ok fs bs nb nbb nib"
    and m: "fs_block_map fs = Some m" "map_shape fs s e (nbb * unat (fs_group_desc_count fs)) m"
    and m': "fs_inode_map fs = Some m'" "map_shape fs 1 e' (nib * unat (fs_group_desc_count fs)) m'"
  shows "\<exists>io' B B'. read_groups n fs io i (of_nat (s + 8 * (nbb * unat i))) (Some (of_nat nbb))
      (of_nat (1 + 8 * (nib * unat i))) (Some (of_nat nib)) =
        (Inr (), fs\<lparr>fs_block_map := Some (gb_with m B), fs_inode_map := Some (gb_with m' B')\<rparr>, io') \<and>
    io_ok io' \<and> blk io' = blk io \<and>
    loaded (nbb * unat (fs_group_desc_count fs)) nbb (ext2fs_block_bitmap_loc fs) (blk io) (unat i) (gb_arr m) B \<and>
    loaded (nib * unat (fs_group_desc_count fs)) nib (ext2fs_inode_bitmap_loc fs) (blk io) (unat i) (gb_arr m') B'"
  using assms
proof (induction n arbitrary: i io fs m m')
  case 0
  have "fs = fs\<lparr>fs_block_map := Some (gb_with m (gb_arr m)), fs_inode_map := Some (gb_with m' (gb_arr m'))\<rparr>"
    using 0 by simp
  moreover have "loaded (nbb * unat (fs_group_desc_count fs)) nbb (ext2fs_block_bitmap_loc fs) (blk io) (unat i) (gb_arr m) (gb_arr m)"
    "loaded (nib * unat (fs_group_desc_count fs)) nib (ext2fs_inode_bitmap_loc fs) (blk io) (unat i) (gb_arr m') (gb_arr m')"
    using 0 by (simp_all add: loaded_def map_shape_def)
  ultimately show ?case using 0(2) unfolding read_groups.simps by metis
next
  case (Suc n)
  let ?G = "fs_group_desc_count fs" and ?b = "ext2fs_block_bitmap_loc fs" and ?i = "ext2fs_inode_bitmap_loc fs"
  have i: "i < ?G" using Suc.prems(1) by (simp add: word_less_nat_alt)
  have p: "unat (?b i) < nb" "unat (?i i) < nb" "8 * nbb < 2 ^ 32" "8 * nib < 2 ^ 32" "0 < nbb" "0 < nib" "nbb \<le> bs" "nib \<le> bs"
    using Suc.prems(3) i unfolding bitmaps_ok_def by (blast, blast, linarith+)
  let ?A = "put_bytes (gb_arr m) (nbb * unat i) (take nbb (blk io (?b i)))"
    and ?A' = "put_bytes (gb_arr m') (nib * unat i) (take nib (blk io (?i i)))"
  let ?fs1 = "fs\<lparr>fs_block_map := Some (gb_with m ?A)\<rparr>"
  let ?fs2 = "?fs1\<lparr>fs_inode_map := Some (gb_with m' ?A')\<rparr>"
  from read_block_group_ok [OF Suc.prems(2,3) i Suc.prems(4,5)] obtain io1 where r1:
    "read_block_group fs io i (of_nat (s + 8 * (nbb * unat i))) (of_nat nbb) = (Inr (), ?fs1, io1)" "io_ok io1" "blk io1 = blk io" by blast
  note c1 = bitmap_locs_cong [of ?fs1 fs, simplified] and c2 = bitmap_locs_cong [of ?fs2 fs, simplified]
  have fs1: "bitmaps_ok ?fs1 bs nb nbb nib" "i < fs_group_desc_count ?fs1" "fs_inode_map ?fs1 = Some m'"
      "map_shape ?fs1 1 e' (nib * unat (fs_group_desc_count ?fs1)) m'"
    using Suc.prems(3,6,7) i map_shape_cong [of ?fs1 fs] by simp_all
  from read_inode_group_ok [OF r1(2) fs1] obtain io2 where r2:
    "read_inode_group ?fs1 io1 i (of_nat (1 + 8 * (nib * unat i))) (of_nat nib) = (Inr (), ?fs2, io2)" "io_ok io2" "blk io2 = blk io"
    unfolding c1 r1(3) by blast
  have u: "unat i < unat ?G" using i by (simp add: word_less_nat_alt)
  note nx = next_group [OF u p(3)] next_group(3) [OF u p(4)]
  have w: "nbb * unat i + nbb \<le> length (gb_arr m)" "nib * unat i + nib \<le> length (gb_arr m')"
    using group_window [OF u, of nbb] group_window [OF u, of nib] Suc.prems(5,7) unfolding map_shape_def by linarith+
  have l: "length ?A = length (gb_arr m)" "length ?A' = length (gb_arr m')"
      "length (blk io (?b i)) = bs" "length (blk io (?i i)) = bs"
    using w block_length [OF Suc.prems(2)] p by (simp_all add: min_absorb2)
  have sh: "map_shape ?fs2 s e (nbb * unat (fs_group_desc_count ?fs2)) (gb_with m ?A)"
      "map_shape ?fs2 1 e' (nib * unat (fs_group_desc_count ?fs2)) (gb_with m' ?A')"
    using map_shape_with [OF Suc.prems(5), of ?A] map_shape_with [OF Suc.prems(7), of ?A'] l Suc.prems(5,7) map_shape_cong [of ?fs2 fs]
    by (simp_all add: map_shape_def)
  have "n + unat (i + 1) = unat (fs_group_desc_count ?fs2)" "bitmaps_ok ?fs2 bs nb nbb nib"
    "fs_block_map ?fs2 = Some (gb_with m ?A)" "fs_inode_map ?fs2 = Some (gb_with m' ?A')"
    using Suc.prems(1,3) nx(1) by simp_all
  note ih = Suc.IH [OF this(1) r2(2) this(2,3) sh(1) this(4) sh(2)]
  have gc: "fs_group_desc_count ?fs2 = ?G" by simp
  from ih [unfolded gc c2 r2(3) gb_arr_with] obtain io' B B' where r:
    "read_groups n ?fs2 io2 (i + 1) (of_nat (s + 8 * (nbb * unat (i + 1)))) (Some (of_nat nbb))
      (of_nat (1 + 8 * (nib * unat (i + 1)))) (Some (of_nat nib)) =
        (Inr (), ?fs2\<lparr>fs_block_map := Some (gb_with m B), fs_inode_map := Some (gb_with m' B')\<rparr>, io')"
    "io_ok io'" "blk io' = blk io" "loaded (nbb * unat (fs_group_desc_count fs)) nbb ?b (blk io) (unat (i + 1)) ?A B" "loaded (nib * unat (fs_group_desc_count fs)) nib ?i (blk io) (unat (i + 1)) ?A' B'"
    by blast
  have "loaded (nbb * unat (fs_group_desc_count fs)) nbb ?b (blk io) (unat i) (gb_arr m) B" "loaded (nib * unat (fs_group_desc_count fs)) nib ?i (blk io) (unat i) (gb_arr m') B'"
    using loaded_step [OF r(4) [unfolded nx(1)] w(1) p(5)] loaded_step [OF r(5) [unfolded nx(1)] w(2) p(6)] l p by simp_all
  moreover have push: "push_bit 3 (of_nat k :: u32) = of_nat (8 * k)" for k by (simp add: push_bit_eq_mult mult.commute)
  have "read_groups (Suc n) fs io i (of_nat (s + 8 * (nbb * unat i))) (Some (of_nat nbb))
      (of_nat (1 + 8 * (nib * unat i))) (Some (of_nat nib)) =
        (Inr (), ?fs2\<lparr>fs_block_map := Some (gb_with m B), fs_inode_map := Some (gb_with m' B')\<rparr>, io')"
    using r(1) unfolding read_groups.simps option.case r1(1) prod.case sum.case r2(1) push nx(2,4) by (simp only: nx(1))
  ultimately show ?case using r(2,3) by (intro exI [of _ io'] exI [of _ B] exI [of _ B']) simp
qed

end

section \<open>Fresh maps\<close>

lemma fresh_map:
  assumes mem: "\<forall>b. b < 2 ^ 32 \<longrightarrow> granted h b" and d: "length d + 1 < 2 ^ 32"
    and s: "unat start = s" "s < 8" "unat real_end + 1 = s + 8 * n" "s + 8 * n < 2 ^ 32" "0 < n"
    and mg: "EXT2FS_IS_64_BITMAP m64" "EXT2FS_IS_32_BITMAP m32" and e: "end1 \<le> real_end"
  shows "fs_flags fs AND EXT2_FLAG_64BITS \<noteq> 0 \<Longrightarrow>
      \<exists>m. ext2fs_alloc_generic_bmap h (Some 0) cb m64 1 start end1 real_end (Some d) = Inr m \<and> map_shape fs s (unat end1) n m"
    "fs_flags fs AND EXT2_FLAG_64BITS = 0 \<Longrightarrow>
      \<exists>b. ext2fs_make_generic_bitmap h m32 (Some 0) (ucast start) (ucast end1) (ucast real_end) (Some d) None = Inr b \<and>
        map_shape fs s (unat end1) n (B32 b)"
proof -
  have sub: "unat (real_end - start) = 8 * n - 1"
    using s by (subst unat_diff) (simp_all add: word_le_nat_alt)
  have dv: "(8 * n - 1) div 8 + 1 = n" using s(5) by (cases n) simp_all
  have sz: "ba_size start real_end = n" using s sub dv by (subst ba_size_eq) simp_all
  have g: "granted h 72" "granted h (length d + 1)" "granted h n" "granted h 4" "granted h 64"
    using mem d s by simp_all
  show "fs_flags fs AND EXT2_FLAG_64BITS \<noteq> 0 \<Longrightarrow>
      \<exists>m. ext2fs_alloc_generic_bmap h (Some 0) cb m64 1 start end1 real_end (Some d) = Inr m \<and> map_shape fs s (unat end1) n m"
    using g sz mg(1) s by (auto simp: ext2fs_alloc_generic_bmap_def ba_new_bmap_def ba_alloc_private_data_def alloc_bytes_def
        ext2fs_get_mem_def memset_at_def map_shape_def gb_arr_def)
  have u: "unat (ucast start :: u32) = s" "unat (ucast end1 :: u32) = unat end1" "unat (ucast real_end :: u32) = unat real_end"
    using s e by (simp_all add: word_le_nat_alt unat_ucast_u32)
  have "unat ((ucast real_end :: u32) - ucast start) = 8 * n - 1"
    using s u by (subst unat_diff) (simp_all add: word_le_nat_alt)
  then have b: "unat (bitmap_size32 (ucast start) (ucast real_end)) \<ge> n"
    using bitmap_size32_bounds [of "ucast real_end" "ucast start"] dv by simp
  have "granted h (unat (bitmap_size32 (ucast start) (ucast real_end)))" using mem unat_u32_bound by simp
  then show "fs_flags fs AND EXT2_FLAG_64BITS = 0 \<Longrightarrow>
      \<exists>b. ext2fs_make_generic_bitmap h m32 (Some 0) (ucast start) (ucast end1) (ucast real_end) (Some d) None = Inr b \<and>
        map_shape fs s (unat end1) n (B32 b)"
    using g u b mg(2) s by (auto simp: ext2fs_make_generic_bitmap_def alloc_bytes_def ext2fs_get_mem_def map_shape_def gb_arr_def)
qed

lemma fresh_maps:
  assumes fs: "bitmaps_ok fs bs nb nbb nib" and mem: "\<forall>b. b < 2 ^ 32 \<longrightarrow> granted h b" and d: "length d + 1 < 2 ^ 32"
  shows "\<exists>m. ext2fs_allocate_block_bitmap h fs (Some d) = Inr m \<and>
      map_shape fs (unat (s_first_data_block (fs_super fs))) (unat (ext2fs_blocks_count (fs_super fs)) - 1)
        (nbb * unat (fs_group_desc_count fs)) m"
    "\<exists>m. ext2fs_allocate_inode_bitmap h fs (Some d) = Inr m \<and>
      map_shape fs 1 (unat (s_inodes_count (fs_super fs))) (nib * unat (fs_group_desc_count fs)) m"
proof -
  let ?s = "fs_super fs" and ?G = "unat (fs_group_desc_count fs)"
  have p: "fs_magic fs = EXT2_ET_MAGIC_EXT2FS_FILSYS" "fs_cluster_ratio_bits fs = 0" "s_clusters_per_group ?s = s_blocks_per_group ?s"
      "unat (s_blocks_per_group ?s) = 8 * nbb" "0 < nbb" "unat (s_inodes_per_group ?s) = 8 * nib" "0 < nib" "0 < ?G"
      "unat (s_first_data_block ?s) < 8" "unat (s_first_data_block ?s) + 8 * (nbb * ?G) < 2 ^ 32" "1 + 8 * (nib * ?G) < 2 ^ 32"
      "s_inodes_count ?s \<noteq> 0" "unat (s_inodes_count ?s) \<le> 8 * (nib * ?G)"
      "unat (s_first_data_block ?s) < unat (ext2fs_blocks_count ?s)"
      "unat (ext2fs_blocks_count ?s) \<le> unat (s_first_data_block ?s) + ?G * unat (s_blocks_per_group ?s)"
    using fs by (auto simp: bitmaps_ok_def geometry_ok_def Let_def)
  have mg: "EXT2FS_IS_64_BITMAP EXT2_ET_MAGIC_BLOCK_BITMAP64" "EXT2FS_IS_32_BITMAP EXT2_ET_MAGIC_BLOCK_BITMAP"
      "EXT2FS_IS_64_BITMAP EXT2_ET_MAGIC_INODE_BITMAP64" "EXT2FS_IS_32_BITMAP EXT2_ET_MAGIC_INODE_BITMAP"
    by (simp_all add: EXT2FS_IS_64_BITMAP_def EXT2FS_IS_32_BITMAP_def)
  let ?f = "ucast (s_first_data_block ?s) :: u64" and ?e = "ext2fs_blocks_count ?s - 1"
  let ?r = "ucast (s_blocks_per_group ?s) * ucast (fs_group_desc_count fs) - 1 + ?f"
  have mul: "unat (ucast (s_blocks_per_group ?s) * ucast (fs_group_desc_count fs) :: u64) = 8 * (nbb * ?G)"
    using p(4) by (simp add: unat_ucast_mult)
  have "unat (ucast (s_blocks_per_group ?s) * ucast (fs_group_desc_count fs) - 1 :: u64) = 8 * (nbb * ?G) - 1"
    using mul p(5,8) by (subst unat_minus_one) auto
  then have r: "unat ?r + 1 = unat (s_first_data_block ?s) + 8 * (nbb * ?G)"
    using p(5,8,10) by (subst unat_add_small) simp_all
  have e: "unat ?e = unat (ext2fs_blocks_count ?s) - 1" using p(14) by (intro unat_minus_one) auto
  have le: "?e \<le> ?r" using p(4,15) r e by (simp add: word_le_nat_alt algebra_simps)
  have big: "\<not> (?e > 0xFFFFFFFF \<or> ?r > 0xFFFFFFFF)" using r le p(10) by (simp add: word_le_nat_alt word_less_nat_alt)
  have c2: "EXT2FS_B2C fs b = b" for b by (simp add: EXT2FS_B2C_def p(2))
  have f: "unat ?f = unat (s_first_data_block ?s)" "0 < nbb * ?G" using p by simp_all
  note A = fresh_map [OF mem d f(1) p(9) r p(10) f(2) mg(1,2) le, of fs]
  show "\<exists>m. ext2fs_allocate_block_bitmap h fs (Some d) = Inr m \<and>
      map_shape fs (unat (s_first_data_block ?s)) (unat (ext2fs_blocks_count ?s) - 1) (nbb * ?G) m"
  proof (cases "fs_flags fs AND EXT2_FLAG_64BITS = 0")
    case False
    then show ?thesis using A(1) [of "fs_cluster_ratio_bits fs"] p(1)
      by (simp add: ext2fs_allocate_block_bitmap_def c2 p(3) e Let_def)
  next
    case True
    from A(2) [OF this] obtain b where
      "ext2fs_make_generic_bitmap h EXT2_ET_MAGIC_BLOCK_BITMAP (Some 0) (ucast ?f) (ucast ?e) (ucast ?r) (Some d) None = Inr b"
      "map_shape fs (unat (s_first_data_block ?s)) (unat ?e) (nbb * ?G) (B32 b)" by blast
    then show ?thesis using p(1) True
      unfolding ext2fs_allocate_block_bitmap_def Let_def c2 p(3) if_not_P [OF big] e [symmetric] by simp
  qed
  let ?e = "ucast (s_inodes_count ?s) :: u64" and ?r = "ucast (s_inodes_per_group ?s * fs_group_desc_count fs) :: u64"
  have r: "unat ?r + 1 = 1 + 8 * (nib * ?G)"
    using p(6,11) unat_mult_lem [of "s_inodes_per_group ?s" "fs_group_desc_count fs"] by simp
  have le: "?e \<le> ?r" using r p(13) by (simp add: word_le_nat_alt)
  have big: "\<not> (?e > 0xFFFFFFFF \<or> ?r > 0xFFFFFFFF)" using r le p(11) by (simp add: word_le_nat_alt word_less_nat_alt)
  have f: "unat (1 :: u64) = 1" "0 < nib * ?G" "(1::nat) < 8" using p by simp_all
  note A = fresh_map [OF mem d f(1,3) r p(11) f(2) mg(3,4) le, of fs]
  show "\<exists>m. ext2fs_allocate_inode_bitmap h fs (Some d) = Inr m \<and> map_shape fs 1 (unat (s_inodes_count ?s)) (nib * ?G) m"
  proof (cases "fs_flags fs AND EXT2_FLAG_64BITS = 0")
    case False
    then show ?thesis using A(1) [of "fs_cluster_ratio_bits fs"] p(1)
      by (simp add: ext2fs_allocate_inode_bitmap_def Let_def)
  next
    case True
    from A(2) [OF this] obtain b where
      "ext2fs_make_generic_bitmap h EXT2_ET_MAGIC_INODE_BITMAP (Some 0) (ucast (1 :: u64)) (ucast ?e) (ucast ?r) (Some d) None = Inr b"
      "map_shape fs 1 (unat ?e) (nib * ?G) (B32 b)" by blast
    then show ?thesis using p(1) True
      unfolding ext2fs_allocate_inode_bitmap_def Let_def if_not_P [OF big] by simp
  qed
qed

text \<open>Two maps of the same shape that agree on the bits in use have the same elements.\<close>

lemma map_elems:
  assumes "map_shape fs s e n m" "map_shape fs s e n m'" "s \<le> e" "e + 1 \<le> s + 8 * n"
    and "\<And>k. k < e + 1 - s \<Longrightarrow> bit_at (gb_arr m') k = bit_at (gb_arr m) k"
  shows "gb_elems m' = gb_elems m"
proof -
  have w: "window_set st en A = window_set st' en' A'"
    if "unat st = s" "unat en = e" "st = st'" "en = en'" "\<And>k. k < e + 1 - s \<Longrightarrow> bit_at A k = bit_at A' k" for st en st' en' :: "'a::len word" and A A'
  proof -
    have "unat (n - st) < e + 1 - s" if "in_window st en n" for n
      using that \<open>unat st = s\<close> \<open>unat en = e\<close> assms(3) by (subst unat_diff) (auto simp: in_window_def word_le_nat_alt)
    then show ?thesis using that by (auto simp: window_set_def)
  qed
  show ?thesis
  proof (cases m)
    case (B32 b)
    then obtain b' where b': "m' = B32 b'" using assms(1,2) by (cases m') (auto simp: map_shape_def)
    have "b32_elems b' = b32_elems b" unfolding b32_elems_def
      using assms B32 b' by (intro w) (auto simp: map_shape_def gb_arr_def word_unat_eq_iff)
    then show ?thesis by (simp add: gb_elems_def B32 b')
  next
    case (B64 b)
    then obtain b' where b': "m' = B64 b'" using assms(1,2) by (cases m') (auto simp: map_shape_def)
    have "b64_elems b' = b64_elems b" unfolding b64_elems_def
      using assms B64 b' by (intro w) (auto simp: map_shape_def gb_arr_def word_unat_eq_iff)
    then show ?thesis by (simp add: gb_elems_def B64 b')
  qed
qed

lemma carried_loaded:
  assumes "loaded (n * G) n loc D 0 A B" "0 < n" "lim \<le> 8 * (n * G)" "G \<le> 2 ^ 32 - 1" "k < lim"
    and "\<And>j :: u32. unat j < G \<Longrightarrow> carries n lim M (unat j) (D (loc j))"
  shows "bit_at B k = bit_at M k"
proof -
  let ?j = "k div (8 * n)" and ?r = "k mod (8 * n)"
  have "k < G * (8 * n)" using assms(3,5) by (simp add: algebra_simps)
  then have j: "?j < G" by (rule less_mult_imp_div_less)
  then have uj: "unat (of_nat ?j :: u32) = ?j" using assms(4) by (intro unat_of_nat_small) simp
  have k: "8 * (n * ?j) + ?r = k" using div_mult_mod_eq [of k "8 * n"] by (simp add: algebra_simps)
  have "bit_at B k = bit_at (D (loc (of_nat ?j))) ?r" using assms(1,3,5) by (simp add: loaded_def)
  also have "\<dots> = bit_at M (8 * (n * ?j) + ?r)"
    using assms(6) [of "of_nat ?j"] uj j k assms(2,5) by (simp add: carries_def)
  finally show ?thesis by (simp only: k)
qed

section \<open>Maps that are written are read back\<close>

lemma clear_dirty_flags:
  "(x AND NOT EXT2_FLAG_BB_DIRTY AND NOT EXT2_FLAG_IB_DIRTY) AND EXT2_FLAG_IMAGE_FILE = x AND EXT2_FLAG_IMAGE_FILE"
  "(x AND NOT EXT2_FLAG_BB_DIRTY AND NOT EXT2_FLAG_IB_DIRTY) AND EXT2_FLAG_64BITS = x AND EXT2_FLAG_64BITS"
  by (simp_all add: EXT2_FLAG_BB_DIRTY_def EXT2_FLAG_IB_DIRTY_def EXT2_FLAG_IMAGE_FILE_def EXT2_FLAG_64BITS_def and.assoc)

lemma bitmaps_ok_flags:
  assumes "x AND EXT2_FLAG_IMAGE_FILE = fs_flags fs AND EXT2_FLAG_IMAGE_FILE"
  shows "bitmaps_ok (fs\<lparr>fs_flags := x\<rparr>) = bitmaps_ok fs"
  by (simp add: fun_eq_iff bitmaps_ok_def geometry_ok_def bitmap_locs_cong [of "fs\<lparr>fs_flags := x\<rparr>" fs] assms)

lemma bitmaps_ok_params:
  assumes fs: "bitmaps_ok fs bs nb nbb nib"
  shows "s_clusters_per_group (fs_super fs) div 8 = of_nat nbb" "s_inodes_per_group (fs_super fs) div 8 = of_nat nib"
    "(s_inodes_per_group (fs_super fs) + 7) div 8 = of_nat nib"
    "push_bit 3 (of_nat nbb :: u32) = of_nat (8 * nbb)" "push_bit 3 (of_nat nib :: u32) = of_nat (8 * nib)"
    "EXT2FS_B2C fs (ucast (s_first_data_block (fs_super fs))) = of_nat (unat (s_first_data_block (fs_super fs)))"
proof -
  have p: "unat (s_clusters_per_group (fs_super fs)) = 8 * nbb" "unat (s_inodes_per_group (fs_super fs)) = 8 * nib" "fs_cluster_ratio_bits fs = 0"
      "8 * bs < 2 ^ 32" "nbb \<le> bs" "nib \<le> bs"
    using fs by (auto simp: bitmaps_ok_def)
  have u: "unat (of_nat nbb :: u32) = nbb" "unat (of_nat nib :: u32) = nib" using p by (intro unat_of_nat_small; simp)+
  show "s_clusters_per_group (fs_super fs) div 8 = of_nat nbb" "s_inodes_per_group (fs_super fs) div 8 = of_nat nib"
    using p u by (simp_all add: word_unat_eq_iff unat_div_distrib)
  have "8 * nib < 8 * 2 ^ 29" using p by simp
  then have "8 * nib + 7 < 2 ^ 32" by simp
  then have "unat (s_inodes_per_group (fs_super fs) + 7) = 8 * nib + 7" using p by (subst unat_add_small) simp_all
  then show "(s_inodes_per_group (fs_super fs) + 7) div 8 = of_nat nib" using u by (simp add: word_unat_eq_iff unat_div_distrib)
  show "push_bit 3 (of_nat nbb :: u32) = of_nat (8 * nbb)" "push_bit 3 (of_nat nib :: u32) = of_nat (8 * nib)"
    by (simp_all add: push_bit_eq_mult mult.commute)
  show "EXT2FS_B2C fs (ucast (s_first_data_block (fs_super fs))) = of_nat (unat (s_first_data_block (fs_super fs)))"
    by (simp add: EXT2FS_B2C_def p(3))
qed

context block_device begin

lemma write_bitmaps_ok:
  assumes io: "io_ok io" and fs: "bitmaps_ok fs bs nb nbb nib" and rw: "fs_flags fs AND EXT2_FLAG_RW \<noteq> 0"
    and mem: "\<forall>b. b < 2 ^ 32 \<longrightarrow> granted h b"
    and m: "fs_block_map fs = Some m" "map_shape fs (unat (s_first_data_block (fs_super fs))) e (nbb * unat (fs_group_desc_count fs)) m"
      "lim \<le> unat (ext2fs_blocks_count (fs_super fs)) - unat (s_first_data_block (fs_super fs))"
    and m': "fs_inode_map fs = Some m'" "map_shape fs 1 e' (nib * unat (fs_group_desc_count fs)) m'"
  shows "\<exists>io'. write_bitmaps h fs io True True =
      (Inr (), fs\<lparr>fs_flags := fs_flags fs AND NOT EXT2_FLAG_BB_DIRTY AND NOT EXT2_FLAG_IB_DIRTY\<rparr>, io') \<and> io_ok io' \<and>
    (\<forall>j. j < fs_group_desc_count fs \<longrightarrow>
       carries nbb lim (gb_arr m) (unat j) (blk io' (ext2fs_block_bitmap_loc fs j)) \<and>
       carries nib lim' (gb_arr m') (unat j) (blk io' (ext2fs_inode_bitmap_loc fs j))) \<and>
    (\<forall>c. unat c < nb \<longrightarrow> (\<forall>j. j < fs_group_desc_count fs \<longrightarrow>
         c \<noteq> ext2fs_block_bitmap_loc fs j \<and> c \<noteq> ext2fs_inode_bitmap_loc fs j) \<longrightarrow> blk io' c = blk io c)"
proof -
  let ?G = "unat (fs_group_desc_count fs)" and ?s = "unat (s_first_data_block (fs_super fs))"
  note par = bitmaps_ok_params [OF fs]
  have p: "fs_magic fs = EXT2_ET_MAGIC_EXT2FS_FILSYS" "unat (fs_blocksize fs) = bs" "8 * bs < 2 ^ 32"
    using fs by (auto simp: bitmaps_ok_def)
  have z: "?G + unat (0 :: u32) = ?G" "of_nat (?s + 8 * (nbb * unat (0 :: u32))) = (of_nat ?s :: u64)"
      "of_nat (1 + 8 * (nib * unat (0 :: u32))) = (1 :: u32)" by simp_all
  from write_groups_ok [OF fs z(1) io m(1,2) refl m(3) m', of "replicate bs 0xFF" "replicate bs 0xFF" lim'] obtain io' where w:
    "write_groups ?G fs io 0 (of_nat ?s) (of_nat (8 * nbb)) (Some (replicate bs 0xFF)) 1 (of_nat (8 * nib)) (Some (replicate bs 0xFF)) = (Inr (), io')"
    "io_ok io'" "\<forall>j. j < fs_group_desc_count fs \<longrightarrow> carries nbb lim (gb_arr m) (unat j) (blk io' (ext2fs_block_bitmap_loc fs j)) \<and>
       carries nib lim' (gb_arr m') (unat j) (blk io' (ext2fs_inode_bitmap_loc fs j))"
    "\<forall>c. unat c < nb \<longrightarrow> (\<forall>j. j < fs_group_desc_count fs \<longrightarrow>
         c \<noteq> ext2fs_block_bitmap_loc fs j \<and> c \<noteq> ext2fs_inode_bitmap_loc fs j) \<longrightarrow> blk io' c = blk io c"
    unfolding z by auto
  have "ext2fs_get_memalign h bs = Inr ()" using mem p(3) by (simp add: ext2fs_get_memalign_def)
  then have "write_bitmaps h fs io True True =
      (Inr (), fs\<lparr>fs_flags := fs_flags fs AND NOT EXT2_FLAG_BB_DIRTY AND NOT EXT2_FLAG_IB_DIRTY\<rparr>, io')"
    using w(1) rw p(1) unfolding write_bitmaps_def Let_def p(2) par by (simp add: and.assoc)
  then show ?thesis using w(2-4) by blast
qed

lemma read_bitmaps_ok:
  assumes io: "io_ok io" and fs: "bitmaps_ok fs bs nb nbb nib"
    and mem: "\<forall>b. b < 2 ^ 32 \<longrightarrow> granted h b" and name: "length name < 2 ^ 31"
  shows "\<exists>fs' io' m m' M M'. read_bitmaps h name fs io True True = (Inr (), fs', io') \<and> io_ok io' \<and> blk io' = blk io \<and>
    fs_block_map fs' = Some m \<and> fs_inode_map fs' = Some m' \<and>
    map_shape fs (unat (s_first_data_block (fs_super fs))) (unat (ext2fs_blocks_count (fs_super fs)) - 1) (nbb * unat (fs_group_desc_count fs)) m \<and>
    map_shape fs 1 (unat (s_inodes_count (fs_super fs))) (nib * unat (fs_group_desc_count fs)) m' \<and>
    loaded (nbb * unat (fs_group_desc_count fs)) nbb (ext2fs_block_bitmap_loc fs) (blk io) 0 M (gb_arr m) \<and>
    loaded (nib * unat (fs_group_desc_count fs)) nib (ext2fs_inode_bitmap_loc fs) (blk io) 0 M' (gb_arr m')"
proof -
  let ?G = "unat (fs_group_desc_count fs)" and ?s = "unat (s_first_data_block (fs_super fs))"
  note par = bitmaps_ok_params [OF fs]
  have p: "fs_magic fs = EXT2_ET_MAGIC_EXT2FS_FILSYS" "8 * bs < 2 ^ 32" "nbb \<le> bs" "nib \<le> bs"
      "\<not> fs_flags fs AND EXT2_FLAG_IMAGE_FILE \<noteq> 0"
    using fs by (auto simp: bitmaps_ok_def)
  have d: "length (''block bitmap for '' @ name) + 1 < 2 ^ 32" "length (''inode bitmap for '' @ name) + 1 < 2 ^ 32"
    using name by simp_all
  from fresh_maps(1) [OF fs mem d(1)] obtain n where n: "ext2fs_allocate_block_bitmap h fs (Some (''block bitmap for '' @ name)) = Inr n"
    "map_shape fs ?s (unat (ext2fs_blocks_count (fs_super fs)) - 1) (nbb * ?G) n" by blast
  let ?fs1 = "fs\<lparr>fs_block_map := Some n\<rparr>"
  have fs1: "bitmaps_ok ?fs1 bs nb nbb nib" using fs by simp
  from fresh_maps(2) [OF fs1 mem d(2)] obtain n' where n':
    "ext2fs_allocate_inode_bitmap h ?fs1 (Some (''inode bitmap for '' @ name)) = Inr n'"
    "map_shape fs 1 (unat (s_inodes_count (fs_super fs))) (nib * ?G) n'" using map_shape_cong [of ?fs1 fs] by auto
  let ?fs2 = "?fs1\<lparr>fs_inode_map := Some n'\<rparr>"
  have c2: "fs_group_desc_count ?fs2 = fs_group_desc_count fs" "map_shape ?fs2 = map_shape fs"
      "ext2fs_block_bitmap_loc ?fs2 = ext2fs_block_bitmap_loc fs" "ext2fs_inode_bitmap_loc ?fs2 = ext2fs_inode_bitmap_loc fs"
      "fs_block_map ?fs2 = Some n" "fs_inode_map ?fs2 = Some n'"
    using map_shape_cong [of ?fs2 fs] bitmap_locs_cong [of ?fs2 fs] by simp_all
  have z: "?G + unat (0 :: u32) = ?G" "of_nat (?s + 8 * (nbb * unat (0 :: u32))) = (of_nat ?s :: u64)"
      "of_nat (1 + 8 * (nib * unat (0 :: u32))) = (1 :: u32)" "unat (0 :: u32) = 0" by simp_all
  have fs2: "bitmaps_ok ?fs2 bs nb nbb nib" using fs by simp
  have "\<exists>io' B B'. read_groups ?G ?fs2 io 0 (of_nat ?s) (Some (of_nat nbb)) 1 (Some (of_nat nib)) =
        (Inr (), ?fs2\<lparr>fs_block_map := Some (gb_with n B), fs_inode_map := Some (gb_with n' B')\<rparr>, io') \<and> io_ok io' \<and> blk io' = blk io \<and>
      loaded (nbb * ?G) nbb (ext2fs_block_bitmap_loc fs) (blk io) 0 (gb_arr n) B \<and>
      loaded (nib * ?G) nib (ext2fs_inode_bitmap_loc fs) (blk io) 0 (gb_arr n') B'"
    using read_groups_ok [of ?G 0 ?fs2 io nbb nib n ?s _ n', unfolded c2 z, OF add_0_right io fs2 refl n(2) refl n'(2)] by simp
  then obtain io' B B' where r:
    "read_groups ?G ?fs2 io 0 (of_nat ?s) (Some (of_nat nbb)) 1 (Some (of_nat nib)) =
        (Inr (), ?fs2\<lparr>fs_block_map := Some (gb_with n B), fs_inode_map := Some (gb_with n' B')\<rparr>, io')"
    "io_ok io'" "blk io' = blk io"
    "loaded (nbb * ?G) nbb (ext2fs_block_bitmap_loc fs) (blk io) 0 (gb_arr n) B"
    "loaded (nib * ?G) nib (ext2fs_inode_bitmap_loc fs) (blk io) 0 (gb_arr n') B'" by blast
  have u: "unat (of_nat nbb :: u32) = nbb" "unat (of_nat nib :: u32) = nib" using p by (intro unat_of_nat_small; simp)+
  have b2c: "EXT2FS_B2C ?fs2 (ucast (s_first_data_block (fs_super fs))) = ucast (s_first_data_block (fs_super fs))"
    using par(6) by (simp add: EXT2FS_B2C_def)
  have g: "ext2fs_get_memalign h nbb = Inr ()" "ext2fs_get_mem h nib = Inr ()" "ext2fs_get_mem h (length name + 80) = Inr ()"
    using mem p name by (simp_all add: ext2fs_get_memalign_def ext2fs_get_mem_def)
  have "read_bitmaps h name fs io True True = (Inr (), ?fs2\<lparr>fs_block_map := Some (gb_with n B), fs_inode_map := Some (gb_with n' B')\<rparr>, io')"
    unfolding read_bitmaps_def Let_def par g sum.case if_True n(1) n'(1) if_not_P [OF p(5)] u
    using p(1) r(1) b2c by simp
  moreover have "map_shape fs ?s (unat (ext2fs_blocks_count (fs_super fs)) - 1) (nbb * ?G) (gb_with n B)"
    "map_shape fs 1 (unat (s_inodes_count (fs_super fs))) (nib * ?G) (gb_with n' B')"
    using map_shape_with n(2) n'(2) r(4,5) unfolding loaded_def by blast+
  ultimately show ?thesis using r(2-5) gb_arr_with(1) by auto
qed

end


text \<open>Three groups of 16 blocks and 32 inodes.\<close>

definition bitmaps_sample :: filsys where
  "bitmaps_sample = fs_sample\<lparr>fs_flags := 0x20031,
     fs_group_desc := [gd_sample, gd_sample\<lparr>bg_block_bitmap := 19, bg_inode_bitmap := 20\<rparr>, gd_sample\<lparr>bg_block_bitmap := 35, bg_inode_bitmap := 36\<rparr>],
     fs_block_map := Some (B64 \<lparr>b64_magic = EXT2_ET_MAGIC_BLOCK_BITMAP64, b64_fs = Some 0, b64_start = 1, b64_end = 39, b64_real_end = 48,
       b64_cluster_bits = 0, b64_description = None, b64_bitarray = [0xFF, 1, 0x1F, 0, 0x7F, 0], b64_base_error_code = EXT2_ET_BAD_BLOCK_MARK\<rparr>),
     fs_inode_map := Some (B64 \<lparr>b64_magic = EXT2_ET_MAGIC_INODE_BITMAP64, b64_fs = Some 0, b64_start = 1, b64_end = 64, b64_real_end = 96,
       b64_cluster_bits = 0, b64_description = None, b64_bitarray = [0xFF, 3, 0, 0, 1, 0, 0, 0, 0, 0, 0, 0], b64_base_error_code = EXT2_ET_BAD_INODE_MARK\<rparr>)\<rparr>"

lemma bitmaps_sample_ok: "bitmaps_ok bitmaps_sample 1024 40 2 4"
proof -
  have g: "g < 3 \<longleftrightarrow> g = 0 \<or> g = 1 \<or> g = 2" for g :: u32
  proof -
    have "unat g < 3 \<longleftrightarrow> unat g = 0 \<or> unat g = 1 \<or> unat g = 2" by auto
    then show ?thesis by (simp add: word_less_nat_alt word_unat_eq_iff)
  qed
  have n: "fs_group_desc_count bitmaps_sample = 3" by (simp add: bitmaps_sample_def fs_sample_def)
  have loc: "ext2fs_block_bitmap_loc bitmaps_sample 0 = 3" "ext2fs_block_bitmap_loc bitmaps_sample 1 = 19" "ext2fs_block_bitmap_loc bitmaps_sample 2 = 35"
      "ext2fs_inode_bitmap_loc bitmaps_sample 0 = 4" "ext2fs_inode_bitmap_loc bitmaps_sample 1 = 20" "ext2fs_inode_bitmap_loc bitmaps_sample 2 = 36"
    by (simp_all add: ext2fs_block_bitmap_loc_def ext2fs_inode_bitmap_loc_def ext2fs_group_desc_def desc_overlap_def bitmaps_sample_def fs_sample_def
        sb_sample_def gd_sample_def has_64bit_def)
  have "\<not> has_gdt_csum bitmaps_sample"
    by (simp add: has_gdt_csum_def bitmaps_sample_def fs_sample_def sb_sample_def EXT4_FEATURE_RO_COMPAT_GDT_CSUM_def)
  moreover have "geometry_ok bitmaps_sample"
    by (simp add: geometry_ok_def Let_def bitmaps_sample_def fs_sample_def sb_sample_def ext2fs_blocks_count_def has_64bit_def)
  moreover have "fs_magic bitmaps_sample = EXT2_ET_MAGIC_EXT2FS_FILSYS" "fs_flags bitmaps_sample AND EXT2_FLAG_IMAGE_FILE = 0"
    "fs_cluster_ratio_bits bitmaps_sample = 0" "unat (fs_blocksize bitmaps_sample) = 1024"
    "s_clusters_per_group (fs_super bitmaps_sample) = s_blocks_per_group (fs_super bitmaps_sample)"
    "unat (s_blocks_per_group (fs_super bitmaps_sample)) = 8 * 2" "unat (s_inodes_per_group (fs_super bitmaps_sample)) = 8 * 4"
    "unat (s_first_data_block (fs_super bitmaps_sample)) = 1" "s_inodes_count (fs_super bitmaps_sample) = 64"
    by (simp_all add: bitmaps_sample_def fs_sample_def sb_sample_def EXT2_FLAG_IMAGE_FILE_def)
  ultimately show ?thesis unfolding bitmaps_ok_def n g by (auto simp: loc)
qed


end
