(* ===== verification/Alloc.thy ===== *)
theory Alloc
  imports Rw_Bitmaps
begin

text \<open>
  Allocation: the search for free inodes and blocks (\<open>source/alloc.c\<close>), the counts kept with the
  bitmaps (\<open>source/alloc_stats.c\<close>), the blocks a group reserves (\<open>source/alloc_sb.c\<close>), the
  tables of a fresh file system (\<open>source/alloc_tables.c\<close>), the check of the group descriptors
  (\<open>source/check_desc.c\<close>) and the question whether an inode has blocks (\<open>source/valid_blk.c\<close>).
  The lemmas show that the search for a block ends, and finds a free block when there is one.
\<close>

section \<open>The map that is searched\<close>

text \<open>
  A pointer to a map is either that of the handle, so that the handle sees every change, or that of
  another map. A null pointer stands for the map of the handle.
\<close>

datatype map_ref = Own | Given gbitmap

fun block_at :: "filsys \<Rightarrow> map_ref \<Rightarrow> gbitmap option" where
  "block_at fs Own = fs_block_map fs"
| "block_at fs (Given m) = Some m"

fun set_block_at :: "filsys \<Rightarrow> map_ref \<Rightarrow> gbitmap option \<Rightarrow> filsys \<times> map_ref" where
  "set_block_at fs Own m = (fs\<lparr>fs_block_map := m\<rparr>, Own)"
| "set_block_at fs (Given _) m = (fs, Given (the m))"

fun inode_at :: "filsys \<Rightarrow> map_ref \<Rightarrow> gbitmap option" where
  "inode_at fs Own = fs_inode_map fs"
| "inode_at fs (Given m) = Some m"

fun set_inode_at :: "filsys \<Rightarrow> map_ref \<Rightarrow> gbitmap option \<Rightarrow> filsys \<times> map_ref" where
  "set_inode_at fs Own m = (fs\<lparr>fs_inode_map := m\<rparr>, Own)"
| "set_inode_at fs (Given _) m = (fs, Given (the m))"

definition EXT4_FEATURE_INCOMPAT_FLEX_BG :: u32 where "EXT4_FEATURE_INCOMPAT_FLEX_BG = 0x0200"

definition EXT2_FIRST_INODE :: "super_block \<Rightarrow> u32" where
  "EXT2_FIRST_INODE s = (if s_rev_level s = EXT2_GOOD_OLD_REV then 11 else s_first_ino s)"

text \<open>The number of descriptor blocks behind the superblock, an \<open>int\<close> that is widened.\<close>

definition old_desc_blocks :: "filsys \<Rightarrow> u32" where
  "old_desc_blocks fs =
     (if s_feature_incompat (fs_super fs) AND EXT2_FEATURE_INCOMPAT_META_BG \<noteq> 0 then s_first_meta_bg (fs_super fs)
      else fs_desc_blocks fs + ucast (s_reserved_gdt_blocks (fs_super fs)))"

section \<open>Groups without a bitmap on the disk\<close>

definition check_block_uninit :: "filsys \<Rightarrow> map_ref \<Rightarrow> u32 \<Rightarrow> filsys \<times> map_ref" where
  "check_block_uninit fs r g =
     (if \<not> has_gdt_csum fs \<or> ext2fs_bg_flags_test fs g EXT2_BG_BLOCK_UNINIT = 0 then (fs, r)
      else
        let sb = fs_super fs;
            bpg = unat (s_blocks_per_group sb);
            blk = ucast (g * s_blocks_per_group sb + s_first_data_block sb) :: u64;
            (super_blk, old_desc_blk, new_desc_blk, _) = ext2fs_super_and_bgd_loc2 fs g;
            odb = old_desc_blocks fs;
            taken = (\<lambda>blk :: u64. blk = super_blk \<or>
              old_desc_blk \<noteq> 0 \<and> odb \<noteq> 0 \<and> blk \<ge> old_desc_blk \<and> blk < old_desc_blk + scast odb \<or>
              new_desc_blk \<noteq> 0 \<and> blk = new_desc_blk \<or>
              blk = ext2fs_block_bitmap_loc fs g \<or> blk = ext2fs_inode_bitmap_loc fs g \<or>
              blk \<ge> ext2fs_inode_table_loc fs g \<and> blk < ext2fs_inode_table_loc fs g + ucast (fs_inode_blocks_per_group fs));
            m = foldl (\<lambda>m i. ext2fs_fast_unmark_block_bitmap2 m (blk + of_nat i)) (block_at fs r) [0..<bpg];
            m = foldl (\<lambda>m i. if taken (blk + of_nat i) then ext2fs_fast_mark_block_bitmap2 m (blk + of_nat i) else m) m [0..<bpg];
            (fs, r) = set_block_at fs r m
        in (ext2fs_group_desc_csum_set (ext2fs_bg_flags_clear fs g EXT2_BG_BLOCK_UNINIT) g, r))"

definition check_inode_uninit :: "filsys \<Rightarrow> map_ref \<Rightarrow> u32 \<Rightarrow> filsys \<times> map_ref" where
  "check_inode_uninit fs r g =
     (if \<not> has_gdt_csum fs \<or> ext2fs_bg_flags_test fs g EXT2_BG_INODE_UNINIT = 0 then (fs, r)
      else
        let ipg = s_inodes_per_group (fs_super fs);
            ino = g * ipg + 1;
            m = foldl (\<lambda>m i. ext2fs_fast_unmark_inode_bitmap2 m (ino + of_nat i)) (inode_at fs r) [0..<unat ipg];
            (fs, r) = set_inode_at fs r m;
            fs = ext2fs_bg_flags_clear fs g EXT2_BG_INODE_UNINIT
        in (fst (check_block_uninit fs Own g), r))"

section \<open>Searching\<close>

text \<open>
  The search for an inode goes round all numbers once; the bound is one more than the largest
  number.
\<close>

fun new_inode_loop :: "nat \<Rightarrow> filsys \<Rightarrow> map_ref \<Rightarrow> u32 \<Rightarrow> u32 \<Rightarrow> u32 result \<times> filsys \<times> map_ref" where
  "new_inode_loop 0 fs r start_inode i = (Inl NO_RETURN, fs, r)"
| "new_inode_loop (Suc n) fs r start_inode i =
     (let ipg = s_inodes_per_group (fs_super fs);
          (fs, r) = (if (i - 1) mod ipg = 0 then check_inode_uninit fs r ((i - 1) div ipg) else (fs, r))
      in
      if ext2fs_fast_test_inode_bitmap2 (inode_at fs r) i = 0 then (Inr i, fs, r)
      else
        let i = i + 1;
            i = (if i > s_inodes_count (fs_super fs) then EXT2_FIRST_INODE (fs_super fs) else i)
        in if i \<noteq> start_inode then new_inode_loop n fs r start_inode i else (Inr i, fs, r))"

definition ext2fs_new_inode :: "filsys \<Rightarrow> u32 \<Rightarrow> map_ref \<Rightarrow> u32 result \<times> filsys \<times> map_ref" where
  "ext2fs_new_inode fs dir r =
     (if fs_magic fs \<noteq> EXT2_ET_MAGIC_EXT2FS_FILSYS then (Inl EXT2_ET_MAGIC_EXT2FS_FILSYS, fs, r)
      else if inode_at fs r = None then (Inl EXT2_ET_NO_INODE_BITMAP, fs, r)
      else
        let sb = fs_super fs;
            dir_group = (if dir > 0 then (dir - 1) div s_inodes_per_group sb else 0);
            start_inode = dir_group * s_inodes_per_group sb + 1;
            start_inode = (if start_inode < EXT2_FIRST_INODE sb then EXT2_FIRST_INODE sb else start_inode)
        in
        if start_inode > s_inodes_count sb then (Inl EXT2_ET_INODE_ALLOC_FAIL, fs, r)
        else
          case new_inode_loop (Suc (unat (s_inodes_count sb))) fs r start_inode start_inode of
            (Inl e, fs, r) \<Rightarrow> (Inl e, fs, r)
          | (Inr i, fs, r) \<Rightarrow>
              if ext2fs_test_inode_bitmap2 (inode_at fs r) i \<noteq> 0 then (Inl EXT2_ET_INODE_ALLOC_FAIL, fs, r)
              else (Inr i, fs, r))"

text \<open>
  The search for a block; a turn is taken for every cluster. When the goal is no number the search
  passes, it goes round for ever: the bound covers two rounds over all blocks.
\<close>

fun new_block_loop :: "nat \<Rightarrow> filsys \<Rightarrow> map_ref \<Rightarrow> u64 \<Rightarrow> u64 \<Rightarrow> u64 \<Rightarrow> u64 result \<times> filsys \<times> map_ref" where
  "new_block_loop 0 fs r c_ratio goal i = (Inl NO_RETURN, fs, r)"
| "new_block_loop (Suc n) fs r c_ratio goal i =
     (let first = ucast (s_first_data_block (fs_super fs)); bpg = ucast (s_blocks_per_group (fs_super fs));
          (fs, r) = (if (i - first) mod bpg = 0 then check_block_uninit fs r (ucast ((i - first) div bpg)) else (fs, r))
      in
      if ext2fs_fast_test_block_bitmap2 (block_at fs r) i = 0 then (Inr i, fs, r)
      else
        let i = (i + c_ratio) AND NOT (c_ratio - 1);
            i = (if i \<ge> ext2fs_blocks_count (fs_super fs) then first else i)
        in if i \<noteq> goal then new_block_loop n fs r c_ratio goal i else (Inl EXT2_ET_BLOCK_ALLOC_FAIL, fs, r))"

definition ext2fs_new_block2 :: "filsys \<Rightarrow> u64 \<Rightarrow> map_ref \<Rightarrow> u64 result \<times> filsys \<times> map_ref" where
  "ext2fs_new_block2 fs goal r =
     (if fs_magic fs \<noteq> EXT2_ET_MAGIC_EXT2FS_FILSYS then (Inl EXT2_ET_MAGIC_EXT2FS_FILSYS, fs, r)
      else
        case block_at fs r of
          None \<Rightarrow> (Inl EXT2_ET_NO_BLOCK_BITMAP, fs, r)
        | Some m \<Rightarrow>
            let sb = fs_super fs;
                first = ucast (s_first_data_block sb);
                goal = (if goal = 0 \<or> goal \<ge> ext2fs_blocks_count sb then first else goal);
                i = goal;
                c_ratio = ucast (push_bit (ext2fs_get_bitmap_granularity m) 1 :: u32) :: u64;
                goal = (if c_ratio > 1 then goal AND NOT (EXT2FS_CLUSTER_RATIO fs - 1) else goal);
                (fs, r) = check_block_uninit fs r (ucast ((i - first) div ucast (s_blocks_per_group sb)))
            in new_block_loop (2 * unat (ext2fs_blocks_count sb) + 2) fs r c_ratio goal i)"

definition ext2fs_new_block :: "filsys \<Rightarrow> u32 \<Rightarrow> map_ref \<Rightarrow> u32 result \<times> filsys \<times> map_ref" where
  "ext2fs_new_block fs goal r =
     (case ext2fs_new_block2 fs (ucast goal) r of
        (Inl e, fs, r) \<Rightarrow> (Inl e, fs, r) | (Inr val, fs, r) \<Rightarrow> (Inr (ucast val), fs, r))"

text \<open>The result of the range test is an \<open>int\<close>: an error code counts as free.\<close>

fun free_blocks_loop :: "nat \<Rightarrow> super_block \<Rightarrow> gbitmap option \<Rightarrow> u64 \<Rightarrow> u64 \<Rightarrow> int \<Rightarrow> u64 \<Rightarrow> u64 result" where
  "free_blocks_loop 0 sb m c_ratio finish num b = Inl NO_RETURN"
| "free_blocks_loop (Suc n) sb m c_ratio finish num b =
     (let b = (if b + word_of_int num - 1 > ext2fs_blocks_count sb then ucast (s_first_data_block sb) else b) in
      if ext2fs_test_block_bitmap_range2 m b (word_of_int num) \<noteq> Inr False then Inr b
      else
        let b = b + c_ratio in
        if b \<noteq> finish then free_blocks_loop n sb m c_ratio finish num b else Inl EXT2_ET_BLOCK_ALLOC_FAIL)"

definition ext2fs_get_free_blocks2 :: "filsys \<Rightarrow> u64 \<Rightarrow> u64 \<Rightarrow> int \<Rightarrow> map_ref \<Rightarrow> u64 result" where
  "ext2fs_get_free_blocks2 fs start finish num r =
     (if fs_magic fs \<noteq> EXT2_ET_MAGIC_EXT2FS_FILSYS then Inl EXT2_ET_MAGIC_EXT2FS_FILSYS
      else
        case block_at fs r of
          None \<Rightarrow> Inl EXT2_ET_NO_BLOCK_BITMAP
        | Some m \<Rightarrow>
            let sb = fs_super fs;
                b = (if start = 0 then ucast (s_first_data_block sb) else start);
                finish = (if finish = 0 then start else finish);
                num = (if num = 0 then 1 else num);
                c_ratio = ucast (push_bit (ext2fs_get_bitmap_granularity m) 1 :: u32) :: u64;
                b = b AND NOT (c_ratio - 1);
                finish = finish AND NOT (c_ratio - 1)
            in free_blocks_loop (2 * unat (ext2fs_blocks_count sb) + 2) sb (Some m) c_ratio finish num b)"

definition ext2fs_get_free_blocks :: "filsys \<Rightarrow> u32 \<Rightarrow> u32 \<Rightarrow> int \<Rightarrow> map_ref \<Rightarrow> u32 result" where
  "ext2fs_get_free_blocks fs start finish num r =
     (case ext2fs_get_free_blocks2 fs (ucast start) (ucast finish) num r of Inl e \<Rightarrow> Inl e | Inr val \<Rightarrow> Inr (ucast val))"

section \<open>Statistics\<close>

text \<open>
  As compiled, without the messages of \<open>com_err\<close> and the range checks that come with them.
  \<open>inuse\<close> is 1 or -1.
\<close>

definition ext2fs_inode_alloc_stats2 :: "filsys \<Rightarrow> u32 \<Rightarrow> int \<Rightarrow> bool \<Rightarrow> filsys" where
  "ext2fs_inode_alloc_stats2 fs ino inuse isdir =
     (let g = ext2fs_group_of_ino fs ino;
          fs = (if inuse > 0 then fs\<lparr>fs_inode_map := snd (ext2fs_mark_inode_bitmap2 (fs_inode_map fs) ino)\<rparr>
                else fs\<lparr>fs_inode_map := snd (ext2fs_unmark_inode_bitmap2 (fs_inode_map fs) ino)\<rparr>);
          fs = ext2fs_bg_free_inodes_count_set fs g (ext2fs_bg_free_inodes_count fs g - word_of_int inuse);
          fs = (if isdir then ext2fs_bg_used_dirs_count_set fs g (ext2fs_bg_used_dirs_count fs g + word_of_int inuse) else fs);
          fs = ext2fs_bg_flags_clear fs g EXT2_BG_INODE_UNINIT;
          ipg = s_inodes_per_group (fs_super fs);
          fs = (if has_gdt_csum fs then
                  let first_unused_inode = ipg - ext2fs_bg_itable_unused fs g + g * ipg + 1;
                      fs = (if ino \<ge> first_unused_inode then ext2fs_bg_itable_unused_set fs g (g * ipg + ipg - ino) else fs)
                  in ext2fs_group_desc_csum_set fs g
                else fs);
          sb = fs_super fs;
          fs = fs\<lparr>fs_super := sb\<lparr>s_free_inodes_count := s_free_inodes_count sb - word_of_int inuse\<rparr>\<rparr>
      in ext2fs_mark_ib_dirty (ext2fs_mark_super_dirty fs))"

definition ext2fs_inode_alloc_stats :: "filsys \<Rightarrow> u32 \<Rightarrow> int \<Rightarrow> filsys" where
  "ext2fs_inode_alloc_stats fs ino inuse = ext2fs_inode_alloc_stats2 fs ino inuse False"

definition ext2fs_block_alloc_stats2 :: "filsys \<Rightarrow> u64 \<Rightarrow> int \<Rightarrow> filsys" where
  "ext2fs_block_alloc_stats2 fs blk inuse =
     (let g = ext2fs_group_of_blk2 fs blk;
          fs = (if inuse > 0 then fs\<lparr>fs_block_map := snd (ext2fs_mark_block_bitmap2 (fs_block_map fs) blk)\<rparr>
                else fs\<lparr>fs_block_map := snd (ext2fs_unmark_block_bitmap2 (fs_block_map fs) blk)\<rparr>);
          fs = ext2fs_bg_free_blocks_count_set fs g (ext2fs_bg_free_blocks_count fs g - word_of_int inuse);
          fs = ext2fs_bg_flags_clear fs g EXT2_BG_BLOCK_UNINIT;
          fs = ext2fs_group_desc_csum_set fs g;
          fs = fs\<lparr>fs_super := ext2fs_free_blocks_count_add (fs_super fs) (word_of_int (- inuse) * EXT2FS_CLUSTER_RATIO fs)\<rparr>
      in ext2fs_mark_bb_dirty (ext2fs_mark_super_dirty fs))"

definition ext2fs_block_alloc_stats :: "filsys \<Rightarrow> u32 \<Rightarrow> int \<Rightarrow> filsys" where
  "ext2fs_block_alloc_stats fs blk inuse = ext2fs_block_alloc_stats2 fs (ucast blk) inuse"

section \<open>Allocating a block\<close>

text \<open>
  \<open>block_buf\<close> tells whether the caller passes a buffer; it is filled with zeros either way.
\<close>

definition ext2fs_alloc_block2 :: "u8 heap \<Rightarrow> string \<Rightarrow> filsys \<Rightarrow> 'd io_channel \<Rightarrow> u64 \<Rightarrow> bool \<Rightarrow>
    u64 result \<times> filsys \<times> 'd io_channel" where
  "ext2fs_alloc_block2 h name fs io goal block_buf =
     (case (if block_buf then Inr () else ext2fs_get_mem h (unat (fs_blocksize fs))) of
        Inl e \<Rightarrow> (Inl e, fs, io)
      | Inr _ \<Rightarrow>
          (case (if fs_block_map fs = None then ext2fs_read_block_bitmap h name fs io else (Inr (), fs, io)) of
             (Inl e, fs, io) \<Rightarrow> (Inl e, fs, io)
           | (Inr _, fs, io) \<Rightarrow>
               (case ext2fs_new_block2 fs goal Own of
                  (Inl e, fs, _) \<Rightarrow> (Inl e, fs, io)
                | (Inr block, fs, _) \<Rightarrow>
                    (case io_channel_write_blk64 io block 1 (replicate (unat (fs_blocksize fs)) 0) of
                       (Inl e, io) \<Rightarrow> (Inl e, fs, io)
                     | (Inr _, io) \<Rightarrow> (Inr block, ext2fs_block_alloc_stats2 fs block 1, io)))))"

definition ext2fs_alloc_block :: "u8 heap \<Rightarrow> string \<Rightarrow> filsys \<Rightarrow> 'd io_channel \<Rightarrow> u32 \<Rightarrow> bool \<Rightarrow>
    u32 result \<times> filsys \<times> 'd io_channel" where
  "ext2fs_alloc_block h name fs io goal block_buf =
     (case ext2fs_alloc_block2 h name fs io (ucast goal) block_buf of
        (Inl e, fs, io) \<Rightarrow> (Inl e, fs, io) | (Inr val, fs, io) \<Rightarrow> (Inr (ucast val), fs, io))"

section \<open>Reserved blocks and the check of the descriptors\<close>

text \<open>The number of blocks left in the group is an \<open>int\<close>.\<close>

definition ext2fs_reserve_super_and_bgd :: "filsys \<Rightarrow> u32 \<Rightarrow> map_ref \<Rightarrow> int \<times> filsys \<times> map_ref" where
  "ext2fs_reserve_super_and_bgd fs g r =
     (let (super_blk, old_desc_blk, new_desc_blk, used_blks) = ext2fs_super_and_bgd_loc2 fs g;
          m = block_at fs r;
          m = (if super_blk \<noteq> 0 \<or> g = 0 then snd (ext2fs_mark_block_bitmap2 m super_blk) else m);
          m = (if g = 0 \<and> fs_blocksize fs = 1024 \<and> EXT2FS_CLUSTER_RATIO fs > 1 then snd (ext2fs_mark_block_bitmap2 m 0) else m);
          m = (if old_desc_blk \<noteq> 0 then
                 foldl (\<lambda>m j. if old_desc_blk + of_nat j < ext2fs_blocks_count (fs_super fs)
                              then snd (ext2fs_mark_block_bitmap2 m (old_desc_blk + of_nat j)) else m)
                   m [0..<nat (sint (old_desc_blocks fs))]
               else m);
          m = (if new_desc_blk \<noteq> 0 then snd (ext2fs_mark_block_bitmap2 m new_desc_blk) else m);
          (fs, r) = set_block_at fs r m;
          fs = (if old_desc_blk \<noteq> 0 \<and> s_reserved_gdt_blocks (fs_super fs) \<noteq> 0 \<and> r = Own
                then ext2fs_bg_flags_clear fs g EXT2_BG_BLOCK_UNINIT else fs)
      in (sint (ext2fs_group_blocks_count fs g - (2 + fs_inode_blocks_per_group fs + used_blks)), fs, r))"

fun reserve_groups :: "filsys \<Rightarrow> nat list \<Rightarrow> map_ref \<Rightarrow> map_ref" where
  "reserve_groups fs [] r = r"
| "reserve_groups fs (g # gs) r = (case ext2fs_reserve_super_and_bgd fs (of_nat g) r of (_, _, r) \<Rightarrow> reserve_groups fs gs r)"

text \<open>One block of a table: it must be free, and is taken.\<close>

definition claim_block :: "errcode \<Rightarrow> gbitmap \<Rightarrow> u64 \<Rightarrow> gbitmap result" where
  "claim_block e m blk =
     (if ext2fs_test_block_bitmap2 (Some m) blk \<noteq> 0 then Inl e else Inr (the (snd (ext2fs_mark_block_bitmap2 (Some m) blk))))"

fun claim_blocks :: "errcode \<Rightarrow> gbitmap \<Rightarrow> u64 \<Rightarrow> nat \<Rightarrow> gbitmap result" where
  "claim_blocks e m blk 0 = Inr m"
| "claim_blocks e m blk (Suc n) = (case claim_block e m blk of Inl e \<Rightarrow> Inl e | Inr m \<Rightarrow> claim_blocks e m (blk + 1) n)"

fun check_desc_loop :: "filsys \<Rightarrow> nat list \<Rightarrow> u64 \<Rightarrow> u64 \<Rightarrow> gbitmap \<Rightarrow> unit result" where
  "check_desc_loop fs [] first_block last_block m = Inr ()"
| "check_desc_loop fs (g # gs) first_block last_block m =
     (let i = of_nat g :: u32;
          flex = (s_feature_incompat (fs_super fs) AND EXT4_FEATURE_INCOMPAT_FLEX_BG \<noteq> 0);
          first_block = (if flex then first_block else ext2fs_group_first_block2 fs i);
          last_block = (if flex then last_block else ext2fs_group_last_block2 fs i);
          blk = ext2fs_block_bitmap_loc fs i
      in
      if blk < first_block \<or> blk > last_block then Inl EXT2_ET_GDESC_BAD_BLOCK_MAP
      else case claim_block EXT2_ET_GDESC_BAD_BLOCK_MAP m blk of
        Inl e \<Rightarrow> Inl e
      | Inr m \<Rightarrow>
          let blk = ext2fs_inode_bitmap_loc fs i in
          if blk < first_block \<or> blk > last_block then Inl EXT2_ET_GDESC_BAD_INODE_MAP
          else case claim_block EXT2_ET_GDESC_BAD_INODE_MAP m blk of
            Inl e \<Rightarrow> Inl e
          | Inr m \<Rightarrow>
              let blk = ext2fs_inode_table_loc fs i in
              if blk < first_block \<or> blk + ucast (fs_inode_blocks_per_group fs) - 1 > last_block then Inl EXT2_ET_GDESC_BAD_INODE_TABLE
              else case claim_blocks EXT2_ET_GDESC_BAD_INODE_TABLE m blk (unat (fs_inode_blocks_per_group fs)) of
                Inl e \<Rightarrow> Inl e
              | Inr m \<Rightarrow> check_desc_loop fs gs first_block last_block m)"

definition ext2fs_check_desc :: "u8 heap \<Rightarrow> filsys \<Rightarrow> unit result" where
  "ext2fs_check_desc h fs =
     (if fs_magic fs \<noteq> EXT2_ET_MAGIC_EXT2FS_FILSYS then Inl EXT2_ET_MAGIC_EXT2FS_FILSYS
      else case ext2fs_allocate_subcluster_bitmap h fs (Some ''check_desc map'') of
        Inl e \<Rightarrow> Inl e
      | Inr m \<Rightarrow>
          let groups = [0..<unat (fs_group_desc_count fs)];
              first_block = ucast (s_first_data_block (fs_super fs));
              last_block = ext2fs_blocks_count (fs_super fs) - 1
          in check_desc_loop fs groups first_block last_block (the (block_at fs (reserve_groups fs groups (Given m)))))"

section \<open>Whether an inode has blocks\<close>

definition ext2fs_inode_has_valid_blocks2 :: "filsys option \<Rightarrow> inode \<Rightarrow> bool" where
  "ext2fs_inode_has_valid_blocks2 fs inode =
     (if \<not> LINUX_S_ISDIR (i_mode inode) \<and> \<not> LINUX_S_ISREG (i_mode inode) \<and> \<not> LINUX_S_ISLNK (i_mode inode) then False
      else if LINUX_S_ISLNK (i_mode inode) then
        (if ext2fs_file_acl_block fs inode = 0 then i_blocks inode \<noteq> 0
         else if i_size inode \<ge> 60 then True
         else i_size inode > 4 \<and> i_block inode ! 1 = 0)
      else True)"

definition ext2fs_inode_has_valid_blocks :: "inode \<Rightarrow> bool" where
  "ext2fs_inode_has_valid_blocks inode = ext2fs_inode_has_valid_blocks2 None inode"

section \<open>The search for a block\<close>

declare new_inode_loop.simps [simp del] new_block_loop.simps [simp del] free_blocks_loop.simps [simp del]

text \<open>The number of turns from \<open>i\<close> to \<open>x\<close> when the numbers from \<open>f\<close> to below \<open>c\<close> are passed in a circle.\<close>

definition turns :: "nat \<Rightarrow> nat \<Rightarrow> nat \<Rightarrow> nat \<Rightarrow> nat" where
  "turns f c i x = (if i \<le> x then x - i else (c - i) + (x - f))"

definition next_in :: "nat \<Rightarrow> nat \<Rightarrow> nat \<Rightarrow> nat" where
  "next_in f c i = (if i + 1 \<ge> c then f else i + 1)"

lemma turns_next:
  assumes "f \<le> i" "i < c" "f \<le> x" "x < c" "x \<noteq> i"
  shows "turns f c i x = turns f c (next_in f c i) x + 1"
  using assms by (auto simp: turns_def next_in_def)

lemma turns_less: "f \<le> i \<Longrightarrow> i < c \<Longrightarrow> f \<le> x \<Longrightarrow> x < c \<Longrightarrow> turns f c i x < c - f"
  by (auto simp: turns_def)

lemma turns_inj:
  assumes "f \<le> i" "i < c" "f \<le> x" "x < c" "f \<le> y" "y < c" "turns f c i x = turns f c i y"
  shows "x = y"
  using assms by (auto simp: turns_def split: if_splits)

text \<open>No group needs its bitmap made up.\<close>

definition all_init :: "filsys \<Rightarrow> bool" where
  "all_init fs \<longleftrightarrow> (has_gdt_csum fs \<longrightarrow> (\<forall>g. ext2fs_bg_flags_test fs g EXT2_BG_BLOCK_UNINIT = 0))"

lemma check_block_uninit_init: "all_init fs \<Longrightarrow> check_block_uninit fs r g = (fs, r)"
  by (auto simp: all_init_def check_block_uninit_def)

text \<open>A map of the blocks of the file system.\<close>

definition covers_blocks :: "filsys \<Rightarrow> gbitmap \<Rightarrow> bool" where
  "covers_blocks fs m \<longleftrightarrow> gb_inv m \<and> fs_cluster_ratio_bits fs = 0 \<and>
     ucast (s_first_data_block (fs_super fs)) < ext2fs_blocks_count (fs_super fs) \<and>
     gb_valid m = (\<lambda>n. ucast (s_first_data_block (fs_super fs)) \<le> n \<and> n < ext2fs_blocks_count (fs_super fs))"

lemma covers_granularity: "covers_blocks fs m \<Longrightarrow> ext2fs_get_bitmap_granularity m = 0"
  by (auto simp: covers_blocks_def gb_inv_def ext2fs_get_bitmap_granularity_def split: gbitmap.splits)

lemma new_block_loop_ok:
  assumes m: "covers_blocks fs m" "block_at fs r = Some m" and init: "all_init fs"
    and i: "gb_valid m i" and goal: "gb_valid m goal"
    and d: "d = (if i = goal then c - f else turns f c (unat i) (unat goal))" and n: "d \<le> n"
    and fc: "f = unat (s_first_data_block (fs_super fs))" "c = unat (ext2fs_blocks_count (fs_super fs))"
  shows "(\<exists>b. gb_valid m b \<and> b \<notin> gb_elems m \<and> turns f c (unat i) (unat b) < d \<and>
        (\<forall>x. gb_valid m x \<longrightarrow> turns f c (unat i) (unat x) < turns f c (unat i) (unat b) \<longrightarrow> x \<in> gb_elems m) \<and>
        new_block_loop n fs r 1 goal i = (Inr b, fs, r)) \<or>
    (\<forall>x. gb_valid m x \<longrightarrow> turns f c (unat i) (unat x) < d \<longrightarrow> x \<in> gb_elems m) \<and>
      new_block_loop n fs r 1 goal i = (Inl EXT2_ET_BLOCK_ALLOC_FAIL, fs, r)"
  using i d n
proof (induction n arbitrary: i d)
  case 0
  have "f \<le> unat goal" "unat goal < c" "f \<le> unat i" "unat i < c"
    using goal 0 m(1) by (auto simp: covers_blocks_def fc word_le_nat_alt word_less_nat_alt)
  then show ?case using 0 by (auto simp: turns_def word_unat_eq_iff split: if_splits)
next
  case (Suc n)
  have valid: "gb_valid m x \<longleftrightarrow> f \<le> unat x \<and> unat x < c" for x
    using m(1) by (simp add: covers_blocks_def fc word_le_nat_alt word_less_nat_alt)
  have r: "f \<le> unat i" "unat i < c" "f \<le> unat goal" "unat goal < c" using Suc.prems(1) goal valid by auto
  let ?t = "turns f c (unat i)"
  have zero: "?t (unat x) = 0 \<longleftrightarrow> x = i" if "gb_valid m x" for x
    using that r valid by (auto simp: turns_def word_unat_eq_iff)
  have dpos: "0 < d" using Suc.prems(2) r zero [OF goal] by (auto split: if_splits)
  have mem: "ext2fs_fast_test_block_bitmap2 (block_at fs r) i \<noteq> 0 \<longleftrightarrow> i \<in> gb_elems m"
    using gb_marks [of m i] m by (simp add: ext2fs_fast_test_block_bitmap2_def covers_blocks_def)
  let ?i1 = "(i + 1) AND NOT (1 - 1) :: u64"
  let ?i = "if ?i1 \<ge> ext2fs_blocks_count (fs_super fs) then ucast (s_first_data_block (fs_super fs)) else ?i1"
  have u1: "unat ?i1 = unat i + 1"
  proof -
    have "unat i + 1 < 2 ^ 64" using r(2) fc(2) unsigned_less [of "ext2fs_blocks_count (fs_super fs)", where ?'a = nat] by simp
    then show ?thesis by (simp add: unat_add_small)
  qed
  have ui: "unat ?i = next_in f c (unat i)" using u1 by (auto simp: next_in_def fc word_le_nat_alt)
  have vi: "gb_valid m ?i" using ui r valid by (auto simp: next_in_def)
  have step: "new_block_loop (Suc n) fs r 1 goal i =
    (if i \<notin> gb_elems m then (Inr i, fs, r)
     else if ?i \<noteq> goal then new_block_loop n fs r 1 goal ?i else (Inl EXT2_ET_BLOCK_ALLOC_FAIL, fs, r))"
    using mem unfolding new_block_loop.simps Let_def check_block_uninit_init [OF init] by (auto simp del: new_block_loop.simps)
  show ?case
  proof (cases "i \<in> gb_elems m")
    case False
    then show ?thesis using step Suc.prems(1) zero [OF Suc.prems(1)] dpos by (intro disjI1 exI [of _ i]) simp
  next
    case used: True
    have tn: "?t (unat x) = turns f c (unat ?i) (unat x) + 1" if "gb_valid m x" "x \<noteq> i" for x
      unfolding ui using that r valid by (intro turns_next) (auto simp: word_unat_eq_iff)
    show ?thesis
    proof (cases "?i = goal")
      case True
      have "d = 1"
      proof (cases "i = goal")
        case e: True
        then have "next_in f c (unat i) = unat i" using True ui by simp
        then have "c - f = 1" using r by (auto simp: next_in_def split: if_splits)
        then show ?thesis using e Suc.prems(2) by simp
      next
        case False
        then show ?thesis using tn [OF goal] True Suc.prems(2) by (simp add: turns_def)
      qed
      then have "\<forall>x. gb_valid m x \<longrightarrow> ?t (unat x) < d \<longrightarrow> x \<in> gb_elems m" using zero used by auto
      then show ?thesis using step used True by simp
    next
      case False
      let ?d = "turns f c (unat ?i) (unat goal)"
      have dd: "d = ?d + 1"
      proof (cases "i = goal")
        case e: True
        have "unat ?i \<noteq> unat goal" using False by (simp add: word_unat_eq_iff)
        then have "unat ?i \<noteq> unat i" using e by simp
        then show ?thesis using e Suc.prems(2) r ui by (auto simp: turns_def next_in_def split: if_splits)
      next
        case ne: False
        then show ?thesis using tn [OF goal] Suc.prems(2) by simp
      qed
      then have le: "?d \<le> n" using Suc.prems(3) by simp
      have deq: "?d = (if ?i = goal then c - f else turns f c (unat ?i) (unat goal))" using False by simp
      have lt: "turns f c (unat ?i) (unat x) < k \<longleftrightarrow> ?t (unat x) < k + 1" if "gb_valid m x" "x \<noteq> i" for x k
        using tn [OF that] by simp
      have new: "new_block_loop (Suc n) fs r 1 goal i = new_block_loop n fs r 1 goal ?i" using step used False by simp
      from Suc.IH [OF vi deq le] show ?thesis
      proof
        assume "\<exists>b. gb_valid m b \<and> b \<notin> gb_elems m \<and> turns f c (unat ?i) (unat b) < ?d \<and>
          (\<forall>x. gb_valid m x \<longrightarrow> turns f c (unat ?i) (unat x) < turns f c (unat ?i) (unat b) \<longrightarrow> x \<in> gb_elems m) \<and>
          new_block_loop n fs r 1 goal ?i = (Inr b, fs, r)"
        then obtain b where b: "gb_valid m b" "b \<notin> gb_elems m" "turns f c (unat ?i) (unat b) < ?d"
          "\<And>x. gb_valid m x \<Longrightarrow> turns f c (unat ?i) (unat x) < turns f c (unat ?i) (unat b) \<Longrightarrow> x \<in> gb_elems m"
          "new_block_loop n fs r 1 goal ?i = (Inr b, fs, r)" by blast
        have bi: "b \<noteq> i" using b(2) used by auto
        have "x \<in> gb_elems m" if "gb_valid m x" "?t (unat x) < ?t (unat b)" for x
          using b(4) [OF that(1)] that tn [OF b(1) bi] tn [OF that(1)] used by (cases "x = i") auto
        then show ?thesis using b(1,2,3,5) new tn [OF b(1) bi] dd by (intro disjI1 exI [of _ b]) auto
      next
        assume "(\<forall>x. gb_valid m x \<longrightarrow> turns f c (unat ?i) (unat x) < ?d \<longrightarrow> x \<in> gb_elems m) \<and>
          new_block_loop n fs r 1 goal ?i = (Inl EXT2_ET_BLOCK_ALLOC_FAIL, fs, r)"
        then show ?thesis using new used dd lt by (intro disjI2) (metis Suc_eq_plus1)
      qed
    qed
  qed
qed

section \<open>A block is taken\<close>

lemma upd_group_desc_beyond:
  "desc_apart (fs_super fs) \<Longrightarrow> \<not> unat g < length (fs_group_desc fs) \<Longrightarrow> upd_group_desc fs g f = fs"
  by (simp add: upd_group_desc_def list_update_beyond desc_apart_overlap Let_def)

lemma free_blocks_count_desc_upd:
  "desc_apart (fs_super fs) \<Longrightarrow>
     ext2fs_bg_free_blocks_count (ext2fs_bg_flags_clear fs g x) g' = ext2fs_bg_free_blocks_count fs g'"
  "desc_apart (fs_super fs) \<Longrightarrow>
     ext2fs_bg_free_blocks_count (ext2fs_group_desc_csum_set fs g) g' = ext2fs_bg_free_blocks_count fs g'"
  by (cases "g' = g"; cases "unat g < length (fs_group_desc fs)";
      simp add: ext2fs_bg_free_blocks_count_def ext2fs_bg_flags_clear_def ext2fs_group_desc_csum_set_def ext2fs_bg_checksum_set_def
        upd_group_desc_same upd_group_desc_other upd_group_desc_beyond Let_def)+

lemma desc_upd_keeps:
  "fs_block_map (ext2fs_bg_flags_clear fs g x) = fs_block_map fs" "fs_super (ext2fs_bg_flags_clear fs g x) = fs_super fs"
  "fs_block_map (ext2fs_group_desc_csum_set fs g) = fs_block_map fs" "fs_super (ext2fs_group_desc_csum_set fs g) = fs_super fs"
  "fs_block_map (ext2fs_bg_free_blocks_count_set fs g n) = fs_block_map fs" "fs_super (ext2fs_bg_free_blocks_count_set fs g n) = fs_super fs"
  "fs_cluster_ratio_bits (ext2fs_bg_flags_clear fs g x) = fs_cluster_ratio_bits fs"
  "fs_cluster_ratio_bits (ext2fs_group_desc_csum_set fs g) = fs_cluster_ratio_bits fs"
  "fs_cluster_ratio_bits (ext2fs_bg_free_blocks_count_set fs g n) = fs_cluster_ratio_bits fs"
  by (simp_all add: ext2fs_bg_flags_clear_def ext2fs_group_desc_csum_set_def ext2fs_bg_checksum_set_def
      ext2fs_bg_free_blocks_count_set_def upd_group_desc_def Let_def)

lemma free_blocks_count_add_layout:
  "desc_overlap (ext2fs_free_blocks_count_add s d) = desc_overlap s"
  "has_64bit (ext2fs_free_blocks_count_add s d) = has_64bit s"
  by (simp_all add: desc_overlap_def has_64bit_def ext2fs_free_blocks_count_add_def ext2fs_free_blocks_count_set_def Let_def)

lemma free_blocks_count_add_keeps:
  "ext2fs_bg_free_blocks_count (fs\<lparr>fs_super := ext2fs_free_blocks_count_add (fs_super fs) d\<rparr>) g = ext2fs_bg_free_blocks_count fs g"
  by (simp add: ext2fs_bg_free_blocks_count_def ext2fs_group_desc_def free_blocks_count_add_layout)

lemma mark_block_dirty_keeps:
  "fs_block_map (ext2fs_mark_bb_dirty (ext2fs_mark_super_dirty fs)) = fs_block_map fs"
  "fs_super (ext2fs_mark_bb_dirty (ext2fs_mark_super_dirty fs)) = fs_super fs"
  "ext2fs_bg_free_blocks_count (ext2fs_mark_bb_dirty (ext2fs_mark_super_dirty fs)) g = ext2fs_bg_free_blocks_count fs g"
  by (simp_all add: ext2fs_mark_bb_dirty_def ext2fs_mark_super_dirty_def ext2fs_bg_free_blocks_count_def ext2fs_group_desc_def)

lemma block_alloc_stats_take:
  assumes m: "covers_blocks fs m" "fs_block_map fs = Some m" and geom: "geometry_ok fs"
    and apart: "desc_apart (fs_super fs)" and desc: "unat (fs_group_desc_count fs) \<le> length (fs_group_desc fs)" and b: "gb_valid m b"
  shows "fs_block_map (ext2fs_block_alloc_stats2 fs b 1) = Some (gb_mark b m)"
    "ext2fs_bg_free_blocks_count (ext2fs_block_alloc_stats2 fs b 1) (ext2fs_group_of_blk2 fs b) =
       count32 (fs_super fs) (ext2fs_bg_free_blocks_count fs (ext2fs_group_of_blk2 fs b) - 1)"
    "ext2fs_free_blocks_count (fs_super (ext2fs_block_alloc_stats2 fs b 1)) =
       count64 (fs_super fs) (ext2fs_free_blocks_count (fs_super fs) - 1)"
proof -
  let ?g = "ext2fs_group_of_blk2 fs b"
  have v: "ucast (s_first_data_block (fs_super fs)) \<le> b" "b < ext2fs_blocks_count (fs_super fs)"
    using m(1) b by (auto simp: covers_blocks_def)
  then have "unat ?g < unat (fs_group_desc_count fs)"
    using group_of_blk_nat(2) [OF geom] by (simp add: word_le_nat_alt)
  then have g: "unat ?g < length (fs_group_desc fs)" using desc by simp
  have mk: "snd (ext2fs_mark_block_bitmap2 (Some m) b) = Some (gb_mark b m)"
    unfolding gb_mark_def ext2fs_mark_block_bitmap2_def
    by (auto simp: ext2fs_mark_generic_bmap_def Let_def split: gbitmap.splits prod.splits if_splits)
  let ?fs1 = "fs\<lparr>fs_block_map := Some (gb_mark b m)\<rparr>"
  let ?fs2 = "ext2fs_bg_free_blocks_count_set ?fs1 ?g (ext2fs_bg_free_blocks_count ?fs1 ?g - 1)"
  let ?fs3 = "ext2fs_group_desc_csum_set (ext2fs_bg_flags_clear ?fs2 ?g EXT2_BG_BLOCK_UNINIT) ?g"
  have f3: "fs_block_map ?fs3 = Some (gb_mark b m)" "fs_super ?fs3 = fs_super fs" "fs_cluster_ratio_bits ?fs3 = 0"
    using m(1) by (simp_all add: desc_upd_keeps covers_blocks_def)
  have ratio: "EXT2FS_CLUSTER_RATIO ?fs3 = 1" by (simp add: EXT2FS_CLUSTER_RATIO_def f3(3))
  have st: "ext2fs_block_alloc_stats2 fs b 1 =
      ext2fs_mark_bb_dirty (ext2fs_mark_super_dirty (?fs3\<lparr>fs_super := ext2fs_free_blocks_count_add (fs_super fs) (- 1)\<rparr>))"
    unfolding ext2fs_block_alloc_stats2_def Let_def m(2) by (simp add: mk ratio f3(2))
  show "fs_block_map (ext2fs_block_alloc_stats2 fs b 1) = Some (gb_mark b m)"
    unfolding st mark_block_dirty_keeps using f3(1) by simp
  have "ext2fs_bg_free_blocks_count (?fs3\<lparr>fs_super := ext2fs_free_blocks_count_add (fs_super fs) (- 1)\<rparr>) ?g =
      ext2fs_bg_free_blocks_count ?fs3 ?g"
    by (rule free_blocks_count_add_keeps [of ?fs3, unfolded f3(2)])
  also have "\<dots> = ext2fs_bg_free_blocks_count ?fs2 ?g" 
    by (simp add: free_blocks_count_desc_upd desc_upd_keeps apart)
  also have "\<dots> = count32 (fs_super fs) (ext2fs_bg_free_blocks_count ?fs1 ?g - 1)"
    using group_fields_set(4) [of ?fs1 ?g] g apart by simp
  finally have taken: "ext2fs_bg_free_blocks_count (?fs3\<lparr>fs_super := ext2fs_free_blocks_count_add (fs_super fs) (- 1)\<rparr>) ?g =
      count32 (fs_super fs) (ext2fs_bg_free_blocks_count ?fs1 ?g - 1)" .
  have same: "ext2fs_bg_free_blocks_count ?fs1 ?g = ext2fs_bg_free_blocks_count fs ?g"
    by (simp add: ext2fs_bg_free_blocks_count_def ext2fs_group_desc_def)
  show "ext2fs_bg_free_blocks_count (ext2fs_block_alloc_stats2 fs b 1) ?g =
      count32 (fs_super fs) (ext2fs_bg_free_blocks_count fs ?g - 1)"
    unfolding st mark_block_dirty_keeps using taken by (simp only: same)
  show "ext2fs_free_blocks_count (fs_super (ext2fs_block_alloc_stats2 fs b 1)) =
       count64 (fs_super fs) (ext2fs_free_blocks_count (fs_super fs) - 1)"
    unfolding st mark_block_dirty_keeps by (simp add: ext2fs_free_blocks_count_add_def block_counts_set)
qed

text \<open>The goal the search starts from.\<close>

definition start_goal :: "filsys \<Rightarrow> u64 \<Rightarrow> u64" where
  "start_goal fs goal = (if goal = 0 \<or> goal \<ge> ext2fs_blocks_count (fs_super fs) then ucast (s_first_data_block (fs_super fs)) else goal)"

lemma new_block2_ok:
  assumes m: "covers_blocks fs m" "block_at fs r = Some m" and init: "all_init fs"
    and magic: "fs_magic fs = EXT2_ET_MAGIC_EXT2FS_FILSYS" and goal: "gb_valid m (start_goal fs goal)"
  shows "(\<exists>b. ext2fs_new_block2 fs goal r = (Inr b, fs, r) \<and> gb_valid m b \<and> b \<notin> gb_elems m \<and>
      (\<forall>x. gb_valid m x \<longrightarrow> x \<notin> gb_elems m \<longrightarrow> start_goal fs goal \<le> x \<longrightarrow> start_goal fs goal \<le> b \<and> b \<le> x)) \<or>
    (\<forall>x. gb_valid m x \<longrightarrow> x \<in> gb_elems m) \<and> ext2fs_new_block2 fs goal r = (Inl EXT2_ET_BLOCK_ALLOC_FAIL, fs, r)"
proof -
  let ?c = "unat (ext2fs_blocks_count (fs_super fs))" and ?f = "unat (s_first_data_block (fs_super fs))"
  let ?g = "start_goal fs goal"
  have valid: "gb_valid m x \<longleftrightarrow> ?f \<le> unat x \<and> unat x < ?c" for x
    using m(1) by (simp add: covers_blocks_def word_le_nat_alt word_less_nat_alt)
  have run: "ext2fs_new_block2 fs goal r = new_block_loop (2 * ?c + 2) fs r 1 ?g ?g"
    unfolding ext2fs_new_block2_def Let_def m(2) option.case covers_granularity [OF m(1)] check_block_uninit_init [OF init]
    using magic by (simp add: start_goal_def)
  have n: "(if ?g = ?g then ?c - ?f else turns ?f ?c (unat ?g) (unat ?g)) \<le> 2 * ?c + 2" by simp
  have all: "turns ?f ?c (unat ?g) (unat x) < (if ?g = ?g then ?c - ?f else turns ?f ?c (unat ?g) (unat ?g))" if "gb_valid m x" for x
    using that goal valid by (simp add: turns_less)
  from new_block_loop_ok [OF m init goal goal refl n refl refl] show ?thesis
  proof
    assume "\<exists>b. gb_valid m b \<and> b \<notin> gb_elems m \<and> turns ?f ?c (unat ?g) (unat b) < (if ?g = ?g then ?c - ?f else turns ?f ?c (unat ?g) (unat ?g)) \<and>
        (\<forall>x. gb_valid m x \<longrightarrow> turns ?f ?c (unat ?g) (unat x) < turns ?f ?c (unat ?g) (unat b) \<longrightarrow> x \<in> gb_elems m) \<and>
        new_block_loop (2 * ?c + 2) fs r 1 ?g ?g = (Inr b, fs, r)"
    then obtain b where b: "gb_valid m b" "b \<notin> gb_elems m"
      "\<And>x. gb_valid m x \<Longrightarrow> turns ?f ?c (unat ?g) (unat x) < turns ?f ?c (unat ?g) (unat b) \<Longrightarrow> x \<in> gb_elems m"
      "new_block_loop (2 * ?c + 2) fs r 1 ?g ?g = (Inr b, fs, r)" by blast
    have "?g \<le> b \<and> b \<le> x" if "gb_valid m x" "x \<notin> gb_elems m" "?g \<le> x" for x
    proof -
      have "\<not> turns ?f ?c (unat ?g) (unat x) < turns ?f ?c (unat ?g) (unat b)" using b(3) that(1,2) by blast
      moreover have "turns ?f ?c (unat ?g) (unat x) = unat x - unat ?g" using that(3) by (simp add: turns_def word_le_nat_alt)
      moreover have "unat ?g < ?c" "?f \<le> unat b" "unat b < ?c" "?f \<le> unat ?g" "unat x < ?c" "?f \<le> unat x" using goal b(1) that(1) valid by auto
      ultimately show ?thesis using that(3) unfolding turns_def word_le_nat_alt by (simp split: if_splits; linarith)
    qed
    then show ?thesis using b(1,2) run [unfolded b(4)] by blast
  next
    assume "(\<forall>x. gb_valid m x \<longrightarrow> turns ?f ?c (unat ?g) (unat x) < (if ?g = ?g then ?c - ?f else turns ?f ?c (unat ?g) (unat ?g)) \<longrightarrow> x \<in> gb_elems m) \<and>
      new_block_loop (2 * ?c + 2) fs r 1 ?g ?g = (Inl EXT2_ET_BLOCK_ALLOC_FAIL, fs, r)"
    then show ?thesis using all run by metis
  qed
qed

text \<open>
  C35. On a file system without clusters whose descriptors do not reach into each other and whose
  block groups are all initialised, allocating a block ends, and succeeds as long as one block is free: it takes the first free
  block at or after the goal (which is not before the first data block), or one before the goal when there is none, fills it with zeros on the
  device and changes no other block, marks it in the map and charges it to the free counts of its
  group and of the superblock. When every block is in use the call fails and changes nothing.
\<close>

theorem alloc_block_takes_free_block:
  assumes dev: "chan_ok dsec start tot ss off bs nb io" and m: "covers_blocks fs m" "fs_block_map fs = Some m"
    and init: "all_init fs" and magic: "fs_magic fs = EXT2_ET_MAGIC_EXT2FS_FILSYS" and geom: "geometry_ok fs"
    and apart: "desc_apart (fs_super fs)" and desc: "unat (fs_group_desc_count fs) \<le> length (fs_group_desc fs)"
    and size: "unat (fs_blocksize fs) = bs" "unat (ext2fs_blocks_count (fs_super fs)) \<le> nb"
    and goal: "gb_valid m (start_goal fs goal)" and mem: "\<forall>b. b < 2 ^ 32 \<longrightarrow> granted h b"
  shows "if \<exists>x. gb_valid m x \<and> x \<notin> gb_elems m then
      \<exists>b fs' io'. ext2fs_alloc_block2 h name fs io goal buf = (Inr b, fs', io') \<and> gb_valid m b \<and> b \<notin> gb_elems m \<and>
        (\<forall>x. gb_valid m x \<longrightarrow> x \<notin> gb_elems m \<longrightarrow> start_goal fs goal \<le> x \<longrightarrow> start_goal fs goal \<le> b \<and> b \<le> x) \<and>
        fs_block_map fs' = Some (gb_mark b m) \<and> gb_elems (gb_mark b m) = insert b (gb_elems m) \<and>
        ext2fs_bg_free_blocks_count fs' (ext2fs_group_of_blk2 fs b) =
          count32 (fs_super fs) (ext2fs_bg_free_blocks_count fs (ext2fs_group_of_blk2 fs b) - 1) \<and>
        ext2fs_free_blocks_count (fs_super fs') = count64 (fs_super fs) (ext2fs_free_blocks_count (fs_super fs) - 1) \<and>
        chan_ok dsec start tot ss off bs nb io' \<and>
        (\<forall>c. unat c < nb \<longrightarrow> chan_blk dsec start tot off bs io' c = (if c = b then replicate bs 0 else chan_blk dsec start tot off bs io c))
    else ext2fs_alloc_block2 h name fs io goal buf = (Inl EXT2_ET_BLOCK_ALLOC_FAIL, fs, io)"
proof -
  have at: "block_at fs Own = Some m" using m(2) by simp
  have pre: "(if buf then Inr () else ext2fs_get_mem h (unat (fs_blocksize fs))) = Inr ()"
    using mem unat_u32_bound [of "fs_blocksize fs"] by (simp add: ext2fs_get_mem_def)
  have run: "ext2fs_alloc_block2 h name fs io goal buf =
      (case ext2fs_new_block2 fs goal Own of
         (Inl e, fs, _) \<Rightarrow> (Inl e, fs, io)
       | (Inr block, fs, _) \<Rightarrow>
           (case io_channel_write_blk64 io block 1 (replicate (unat (fs_blocksize fs)) 0) of
              (Inl e, io) \<Rightarrow> (Inl e, fs, io)
            | (Inr _, io) \<Rightarrow> (Inr block, ext2fs_block_alloc_stats2 fs block 1, io)))"
    unfolding ext2fs_alloc_block2_def pre using m(2) by simp
  from new_block2_ok [OF m(1) at init magic goal] show ?thesis
  proof
    assume "\<exists>b. ext2fs_new_block2 fs goal Own = (Inr b, fs, Own) \<and> gb_valid m b \<and> b \<notin> gb_elems m \<and>
      (\<forall>x. gb_valid m x \<longrightarrow> x \<notin> gb_elems m \<longrightarrow> start_goal fs goal \<le> x \<longrightarrow> start_goal fs goal \<le> b \<and> b \<le> x)"
    then obtain b where b: "ext2fs_new_block2 fs goal Own = (Inr b, fs, Own)" "gb_valid m b" "b \<notin> gb_elems m"
      "\<forall>x. gb_valid m x \<longrightarrow> x \<notin> gb_elems m \<longrightarrow> start_goal fs goal \<le> x \<longrightarrow> start_goal fs goal \<le> b \<and> b \<le> x" by blast
    have nb: "unat b < nb" using b(2) m(1) size(2) by (auto simp: covers_blocks_def word_less_nat_alt)
    have l: "length (replicate bs (0 :: u8)) = bs" by simp
    from gekko.write_block [OF dev nb l] obtain io' where w: "io_channel_write_blk64 io b 1 (replicate bs 0) = (Inr (), io')"
      "chan_ok dsec start tot ss off bs nb io'"
      "\<forall>c. unat c < nb \<longrightarrow> chan_blk dsec start tot off bs io' c = (if c = b then replicate bs 0 else chan_blk dsec start tot off bs io c)" by blast
    have "gb_elems (gb_mark b m) = insert b (gb_elems m)" using gb_marks [of m b] m(1) b(2) by (simp add: covers_blocks_def)
    moreover have "ext2fs_alloc_block2 h name fs io goal buf = (Inr b, ext2fs_block_alloc_stats2 fs b 1, io')"
      unfolding run b(1) using w(1) size(1) by simp
    ultimately have "\<exists>b fs' io'. ext2fs_alloc_block2 h name fs io goal buf = (Inr b, fs', io') \<and> gb_valid m b \<and> b \<notin> gb_elems m \<and>
        (\<forall>x. gb_valid m x \<longrightarrow> x \<notin> gb_elems m \<longrightarrow> start_goal fs goal \<le> x \<longrightarrow> start_goal fs goal \<le> b \<and> b \<le> x) \<and>
        fs_block_map fs' = Some (gb_mark b m) \<and> gb_elems (gb_mark b m) = insert b (gb_elems m) \<and>
        ext2fs_bg_free_blocks_count fs' (ext2fs_group_of_blk2 fs b) =
          count32 (fs_super fs) (ext2fs_bg_free_blocks_count fs (ext2fs_group_of_blk2 fs b) - 1) \<and>
        ext2fs_free_blocks_count (fs_super fs') = count64 (fs_super fs) (ext2fs_free_blocks_count (fs_super fs) - 1) \<and>
        chan_ok dsec start tot ss off bs nb io' \<and>
        (\<forall>c. unat c < nb \<longrightarrow> chan_blk dsec start tot off bs io' c = (if c = b then replicate bs 0 else chan_blk dsec start tot off bs io c))"
      using b(2-4) w(2,3) block_alloc_stats_take [OF m geom apart desc b(2)] by blast
    moreover have "\<exists>x. gb_valid m x \<and> x \<notin> gb_elems m" using b(2,3) by blast
    ultimately show ?thesis by simp
  next
    assume "(\<forall>x. gb_valid m x \<longrightarrow> x \<in> gb_elems m) \<and> ext2fs_new_block2 fs goal Own = (Inl EXT2_ET_BLOCK_ALLOC_FAIL, fs, Own)"
    then show ?thesis using run by auto
  qed
qed

lemma alloc_block_takes_free_block_witness:
  "\<exists>c fs' io'. cache_constructor (roomy 0) (\<lambda>_. 0) 0 1 1 mem_disc 10240 4 = Some c \<and>
     ext2fs_alloc_block2 (roomy 0) ''sd'' bitmaps_sample (block_channel c) 5 False = (Inr 10, fs', io')"
proof -
  obtain c where c: "cache_constructor (roomy 0) (\<lambda>_. 0) 0 1 1 mem_disc 10240 4 = Some c"
    "chan_ok mem_sect 0 10240 4 0 1024 40 (block_channel c)" using block_channel_ok by blast
  let ?m = "the (fs_block_map bitmaps_sample)"
  have s: "s_first_data_block (fs_super bitmaps_sample) = 1" "ext2fs_blocks_count (fs_super bitmaps_sample) = 40"
      "fs_cluster_ratio_bits bitmaps_sample = 0"
    by (simp_all add: bitmaps_sample_def fs_sample_def sb_sample_def ext2fs_blocks_count_def has_64bit_def)
  have m: "fs_block_map bitmaps_sample = Some ?m" by (simp add: bitmaps_sample_def)
  have apart: "desc_apart (fs_super bitmaps_sample)" by (simp add: desc_apart_def bitmaps_sample_def fs_sample_def sb_sample_def)
  have inv: "gb_inv ?m" by (simp add: gb_inv_def b64_inv_def window_ok_def EXT2FS_IS_64_BITMAP_def bitmaps_sample_def)
  have "gb_valid ?m = (\<lambda>n. 1 \<le> n \<and> n \<le> 39)" by (simp add: gb_valid_def bitmaps_sample_def in_window_def fun_eq_iff)
  moreover have "n \<le> 39 \<longleftrightarrow> n < 40" for n :: u64 by (simp add: word_le_nat_alt word_less_nat_alt) linarith
  ultimately have v: "gb_valid ?m = (\<lambda>n. 1 \<le> n \<and> n < 40)" by simp
  have cov: "covers_blocks bitmaps_sample ?m" using inv v by (simp add: covers_blocks_def s)
  have mem: "x \<in> gb_elems ?m \<longleftrightarrow> 1 \<le> x \<and> x \<le> 39 \<and> bit_at [0xFF, 1, 0x1F, 0, 0x7F, 0] (unat (x - 1))" for x
    by (simp add: gb_elems_def b64_elems_def window_set_def in_window_def bitmaps_sample_def)
  have "10 \<notin> gb_elems ?m" "5 \<in> gb_elems ?m" "6 \<in> gb_elems ?m" "7 \<in> gb_elems ?m" "8 \<in> gb_elems ?m" "9 \<in> gb_elems ?m"
    unfolding mem by (simp_all add: bit_at_def)
  moreover have init: "all_init bitmaps_sample"
    by (simp add: all_init_def has_gdt_csum_def bitmaps_sample_def fs_sample_def sb_sample_def EXT4_FEATURE_RO_COMPAT_GDT_CSUM_def)
  moreover have geom: "geometry_ok bitmaps_sample" using bitmaps_sample_ok by (simp add: bitmaps_ok_def)
  moreover have f: "fs_magic bitmaps_sample = EXT2_ET_MAGIC_EXT2FS_FILSYS" "unat (fs_group_desc_count bitmaps_sample) \<le> length (fs_group_desc bitmaps_sample)"
      "unat (fs_blocksize bitmaps_sample) = 1024" by (simp_all add: bitmaps_sample_def fs_sample_def)
  moreover have g: "start_goal bitmaps_sample 5 = 5" by (simp add: start_goal_def s)
  moreover have "\<forall>b. b < 2 ^ 32 \<longrightarrow> granted (roomy (0 :: u8)) b" by (simp add: roomy_def granted_def)
  moreover have ten: "b = 10" if "5 \<le> b" "b \<le> 10" "b \<notin> gb_elems ?m" for b :: u64
  proof -
    have "unat b = 5 \<or> unat b = 6 \<or> unat b = 7 \<or> unat b = 8 \<or> unat b = 9 \<or> unat b = 10" using that(1,2) by (simp add: word_le_nat_alt) linarith
    then have "b = 5 \<or> b = 6 \<or> b = 7 \<or> b = 8 \<or> b = 9 \<or> b = 10" by (simp add: word_unat_eq_iff)
    then show ?thesis using that(3) calculation by auto
  qed
  moreover have "gb_valid ?m 10" "gb_valid ?m 5" by (simp_all add: v)
  ultimately show ?thesis
    using alloc_block_takes_free_block [OF c(2) cov m init f(1) geom apart f(2,3), of 5 "roomy 0" "''sd''" False] c(1)
    by (auto simp: s split: if_splits)
qed

end
