(* ===== verification/Alloc_Tables.thy ===== *)
theory Alloc_Tables
  imports Alloc
begin

text \<open>
  The bitmaps and inode tables of the groups of a fresh file system (\<open>source/alloc_tables.c\<close>),
  packed together for the groups of a flexible block group. The progress messages are left out.
\<close>

section \<open>A place in a flexible block group\<close>

text \<open>
  The first free place for the tables of the groups that are left, 0 when there is none. The search
  has no other failures than those of a search that does not return.
\<close>

definition flexbg_offset :: "filsys \<Rightarrow> u32 \<Rightarrow> u64 \<Rightarrow> map_ref \<Rightarrow> int \<Rightarrow> int \<Rightarrow> u64 result" where
  "flexbg_offset fs g start_blk r rem_grp elem_size =
     (let flexbg_size = push_bit (unat (s_log_groups_per_flex (fs_super fs))) 1 :: u32;
          flexbg = g div flexbg_size;
          size = rem_grp * elem_size;
          eighth = sint (s_blocks_per_group (fs_super fs) div 8);
          size = (if size > eighth then sint (s_blocks_per_group (fs_super fs)) sdiv 8 else size)
      in
      if start_blk \<noteq> 0 \<and> ext2fs_test_block_bitmap_range2 (block_at fs r) start_blk (word_of_int elem_size) \<noteq> Inr False
      then Inr start_blk
      else
        let start_blk = ext2fs_group_first_block2 fs (flexbg_size * flexbg);
            last_grp = g OR (flexbg_size - 1);
            last_grp = (if last_grp > fs_group_desc_count fs - 1 then fs_group_desc_count fs - 1 else last_grp);
            last_blk = ext2fs_group_last_block2 fs last_grp
        in
        case ext2fs_get_free_blocks2 fs start_blk last_blk size r of
          Inr b \<Rightarrow> Inr b
        | Inl e \<Rightarrow> if e = NO_RETURN then Inl e else
            (case ext2fs_get_free_blocks2 fs start_blk last_blk elem_size r of
               Inr b \<Rightarrow> Inr b
             | Inl e \<Rightarrow> if e = NO_RETURN then Inl e else
                 (case ext2fs_get_free_blocks2 fs 0 last_blk elem_size r of
                    Inr b \<Rightarrow> Inr b
                  | Inl e \<Rightarrow> if e = NO_RETURN then Inl e else Inr 0)))"

section \<open>The tables of one group\<close>

text \<open>A block taken for a group of a flexible block group may lie in another group.\<close>

definition charge_block :: "filsys \<Rightarrow> u64 \<Rightarrow> filsys" where
  "charge_block fs blk =
     (let gr = ext2fs_group_of_blk2 fs blk;
          fs = ext2fs_bg_free_blocks_count_set fs gr (ext2fs_bg_free_blocks_count fs gr - 1);
          fs = fs\<lparr>fs_super := ext2fs_free_blocks_count_add (fs_super fs) (- 1)\<rparr>;
          fs = ext2fs_bg_flags_clear fs gr EXT2_BG_BLOCK_UNINIT
      in ext2fs_group_desc_csum_set fs gr)"

definition mark_at :: "filsys \<Rightarrow> map_ref \<Rightarrow> u64 \<Rightarrow> filsys \<times> map_ref" where
  "mark_at fs r blk = set_block_at fs r (snd (ext2fs_mark_block_bitmap2 (block_at fs r) blk))"

text \<open>One of the two bitmaps; \<open>set_loc\<close> stores the location.\<close>

definition place_bitmap :: "filsys \<Rightarrow> map_ref \<Rightarrow> bool \<Rightarrow> u64 \<Rightarrow> u64 \<Rightarrow> u64 \<Rightarrow> (filsys \<Rightarrow> u64 \<Rightarrow> filsys) \<Rightarrow>
    unit result \<times> filsys \<times> map_ref" where
  "place_bitmap fs r flexbg start_blk group_blk last_blk set_loc =
     (case (case ext2fs_get_free_blocks2 fs start_blk last_blk 1 r of
              Inl e \<Rightarrow> if e = EXT2_ET_BLOCK_ALLOC_FAIL then ext2fs_get_free_blocks2 fs group_blk last_blk 1 r else Inl e
            | Inr b \<Rightarrow> Inr b) of
        Inl e \<Rightarrow> (Inl e, fs, r)
      | Inr new_blk \<Rightarrow>
          let (fs, r) = mark_at fs r new_blk;
              fs = set_loc fs new_blk;
              fs = (if flexbg then charge_block fs new_blk else fs)
          in (Inr (), fs, r))"

fun place_table :: "filsys \<Rightarrow> map_ref \<Rightarrow> bool \<Rightarrow> u64 \<Rightarrow> nat \<Rightarrow> filsys \<times> map_ref" where
  "place_table fs r flexbg blk 0 = (fs, r)"
| "place_table fs r flexbg blk (Suc n) =
     (let (fs, r) = mark_at fs r blk;
          fs = (if flexbg then charge_block fs blk else fs)
      in place_table fs r flexbg (blk + 1) n)"

definition ext2fs_allocate_group_table :: "filsys \<Rightarrow> u32 \<Rightarrow> map_ref \<Rightarrow> unit result \<times> filsys \<times> map_ref" where
  "ext2fs_allocate_group_table fs g r =
     (let sb = fs_super fs;
          group_blk = ext2fs_group_first_block2 fs g;
          last_blk = ext2fs_group_last_block2 fs g;
          flexbg = (s_feature_incompat sb AND EXT4_FEATURE_INCOMPAT_FLEX_BG \<noteq> 0 \<and> s_log_groups_per_flex sb \<noteq> 0);
          flexbg_size = push_bit (unat (s_log_groups_per_flex sb)) 1 :: u32;
          last_grp = g OR (flexbg_size - 1);
          last_grp = (if last_grp > fs_group_desc_count fs - 1 then fs_group_desc_count fs - 1 else last_grp);
          rem_grps = sint (last_grp - g + 1);
          flex_last = ext2fs_group_last_block2 fs last_grp
      in
      case (if fs_stride fs \<noteq> 0 then
              (case ext2fs_get_free_blocks2 fs group_blk last_blk 1 r of
                 Inl e \<Rightarrow> Inl e
               | Inr start_blk \<Rightarrow>
                   let start_blk = start_blk + ucast (fs_inode_blocks_per_group fs);
                       start_blk = start_blk + ucast (fs_stride fs * g) mod (last_blk - start_blk + 1)
                   in Inr (if start_blk \<ge> last_blk then group_blk else start_blk))
            else Inr group_blk) of
        Inl e \<Rightarrow> (Inl e, fs, r)
      | Inr start_blk \<Rightarrow>
          (case (if flexbg then
                   map_sum id (\<lambda>b. (b, flex_last))
                     (flexbg_offset fs g (if g mod flexbg_size \<noteq> 0 then ext2fs_block_bitmap_loc fs (g - 1) + 1 else 0) r rem_grps 1)
                 else Inr (start_blk, last_blk)) of
             Inl e \<Rightarrow> (Inl e, fs, r)
           | Inr (start_blk, last_blk) \<Rightarrow>
               (case (if ext2fs_block_bitmap_loc fs g = 0 then
                        place_bitmap fs r flexbg start_blk group_blk last_blk (\<lambda>fs. ext2fs_block_bitmap_loc_set fs g)
                      else (Inr (), fs, r)) of
                  (Inl e, fs, r) \<Rightarrow> (Inl e, fs, r)
                | (Inr _, fs, r) \<Rightarrow>
                    (case (if flexbg then
                             map_sum id (\<lambda>b. (b, flex_last))
                               (flexbg_offset fs g
                                 (if g mod flexbg_size \<noteq> 0 then ext2fs_inode_bitmap_loc fs (g - 1) + 1
                                  else ext2fs_block_bitmap_loc fs g + scast flexbg_size) r rem_grps 1)
                           else Inr (start_blk, last_blk)) of
                       Inl e \<Rightarrow> (Inl e, fs, r)
                     | Inr (start_blk, last_blk) \<Rightarrow>
                         (case (if ext2fs_inode_bitmap_loc fs g = 0 then
                                  place_bitmap fs r flexbg start_blk group_blk last_blk (\<lambda>fs. ext2fs_inode_bitmap_loc_set fs g)
                                else (Inr (), fs, r)) of
                            (Inl e, fs, r) \<Rightarrow> (Inl e, fs, r)
                          | (Inr _, fs, r) \<Rightarrow>
                              (case (if flexbg then
                                       map_sum id (\<lambda>b. (b, flex_last))
                                         (flexbg_offset fs g
                                           (if g mod flexbg_size \<noteq> 0
                                            then ext2fs_inode_table_loc fs (g - 1) + ucast (fs_inode_blocks_per_group fs)
                                            else ext2fs_inode_bitmap_loc fs g + scast flexbg_size)
                                           r rem_grps (sint (fs_inode_blocks_per_group fs)))
                                     else Inr (group_blk, last_blk)) of
                                 Inl e \<Rightarrow> (Inl e, fs, r)
                               | Inr (group_blk, last_blk) \<Rightarrow>
                                   if ext2fs_inode_table_loc fs g = 0 then
                                     (case ext2fs_get_free_blocks2 fs group_blk last_blk (sint (fs_inode_blocks_per_group fs)) r of
                                        Inl e \<Rightarrow> (Inl e, fs, r)
                                      | Inr new_blk \<Rightarrow>
                                          let (fs, r) = place_table fs r flexbg new_blk (unat (fs_inode_blocks_per_group fs));
                                              fs = ext2fs_inode_table_loc_set fs g new_blk
                                          in (Inr (), ext2fs_group_desc_csum_set fs g, r))
                                   else (Inr (), ext2fs_group_desc_csum_set fs g, r)))))))"

fun allocate_groups :: "filsys \<Rightarrow> nat list \<Rightarrow> unit result \<times> filsys" where
  "allocate_groups fs [] = (Inr (), fs)"
| "allocate_groups fs (g # gs) =
     (case ext2fs_allocate_group_table fs (of_nat g) Own of
        (Inl e, fs, _) \<Rightarrow> (Inl e, fs) | (Inr _, fs, _) \<Rightarrow> allocate_groups fs gs)"

definition ext2fs_allocate_tables :: "filsys \<Rightarrow> unit result \<times> filsys" where
  "ext2fs_allocate_tables fs = allocate_groups fs [0..<unat (fs_group_desc_count fs)]"

end
