(* ===== verification/Extent.thy ===== *)
theory Extent
  imports Alloc
begin

text \<open>
  The tree of extents of an inode (\<open>source/extent.c\<close>, \<open>source/ext3_extents.h\<close>): a handle
  walks over it with one node of every level in memory, and its operations change the node they are
  at. A node is a block of bytes, the root the 60 bytes of \<open>i_block\<close>. The handles of the
  model are those \<open>ext2fs_extent_open2\<close> gives, so the checks of their magic number and of a null
  \<open>path\<close> are left out. The part compiled for \<open>DEBUG\<close> only is left out as well.
\<close>

section \<open>Nodes\<close>

text \<open>
  An access outside of a node has no defined behaviour; a call that makes one has the value
  \<open>UNDEFINED\<close>, which no code of the library has.
\<close>

definition UNDEFINED :: errcode where "UNDEFINED = ERR_OTHER (- 2)"

definition le16 :: "u8 list \<Rightarrow> nat \<Rightarrow> u16" where "le16 buf p = ext2fs_swab16 (ld16 buf p)"
definition le32 :: "u8 list \<Rightarrow> nat \<Rightarrow> u32" where "le32 buf p = ext2fs_swab32 (ld32 buf p)"
definition put_le16 :: "u8 list \<Rightarrow> nat \<Rightarrow> u16 \<Rightarrow> u8 list" where "put_le16 buf p v = st16 buf p (ext2fs_swab16 v)"
definition put_le32 :: "u8 list \<Rightarrow> nat \<Rightarrow> u32 \<Rightarrow> u8 list" where "put_le32 buf p v = st32 buf p (ext2fs_swab32 v)"

definition EXT3_EXT_MAGIC :: u16 where "EXT3_EXT_MAGIC = 0xf30a"
definition EXT_INIT_MAX_LEN :: u32 where "EXT_INIT_MAX_LEN = 0x8000"
definition EXT_UNINIT_MAX_LEN :: u32 where "EXT_UNINIT_MAX_LEN = EXT_INIT_MAX_LEN - 1"

text \<open>\<open>struct ext3_extent_header\<close>.\<close>

definition eh_magic :: "u8 list \<Rightarrow> u16" where "eh_magic buf = le16 buf 0"
definition eh_entries :: "u8 list \<Rightarrow> u16" where "eh_entries buf = le16 buf 2"
definition eh_max :: "u8 list \<Rightarrow> u16" where "eh_max buf = le16 buf 4"
definition eh_depth :: "u8 list \<Rightarrow> u16" where "eh_depth buf = le16 buf 6"

text \<open>
  \<open>struct ext3_extent\<close> and \<open>struct ext3_extent_idx\<close> have 12 bytes, as the header has;
  a pointer to one is its number in the node.
\<close>

definition entry_off :: "int \<Rightarrow> nat" where "entry_off i = nat (12 + 12 * i)"

definition entry_in :: "u8 list \<Rightarrow> int \<Rightarrow> int \<Rightarrow> bool" where
  "entry_in buf i n \<longleftrightarrow> 0 \<le> 12 + 12 * i \<and> 12 + 12 * (i + n) \<le> int (length buf)"

definition ei_block :: "u8 list \<Rightarrow> int \<Rightarrow> u32" where "ei_block buf i = le32 buf (entry_off i)"

definition ei_leaf :: "u8 list \<Rightarrow> int \<Rightarrow> u64" where
  "ei_leaf buf i = ucast (le32 buf (entry_off i + 4)) + push_bit 32 (ucast (le16 buf (entry_off i + 8)))"

definition ee_block :: "u8 list \<Rightarrow> int \<Rightarrow> u32" where "ee_block buf i = le32 buf (entry_off i)"
definition ee_len :: "u8 list \<Rightarrow> int \<Rightarrow> u16" where "ee_len buf i = le16 buf (entry_off i + 4)"

definition ee_start :: "u8 list \<Rightarrow> int \<Rightarrow> u64" where
  "ee_start buf i = ucast (le32 buf (entry_off i + 8)) + push_bit 32 (ucast (le16 buf (entry_off i + 6)))"

text \<open>\<open>EXT_LAST_EXTENT\<close> and \<open>EXT_LAST_INDEX\<close>, which take the field without a swap.\<close>

definition EXT_LAST_EXTENT :: "u8 list \<Rightarrow> int" where
  "EXT_LAST_EXTENT buf = int (unat (ld16 buf 2)) - 1"

definition ext2fs_extent_header_verify :: "u8 list \<Rightarrow> nat \<Rightarrow> unit result" where
  "ext2fs_extent_header_verify buf sz =
     (if eh_magic buf \<noteq> EXT3_EXT_MAGIC then Inl EXT2_ET_EXTENT_HEADER_BAD
      else if eh_entries buf > eh_max buf then Inl EXT2_ET_EXTENT_HEADER_BAD
      else
        let emax = int ((sz - 12) div 12) in
        if uint (eh_max buf) > emax \<or> uint (eh_max buf) < emax - 2 then Inl EXT2_ET_EXTENT_HEADER_BAD
        else Inr ())"

section \<open>The handle\<close>

text \<open>
  \<open>curr\<close> is the number of an entry in the node of the same level. The node of the root is in
  the inode of the handle, so the buffer of level 0 is not used.
\<close>

record extent_path =
  ep_buf :: "u8 list option"
  ep_entries :: int
  ep_max_entries :: int
  ep_left :: int
  ep_visit_num :: int
  ep_end_blk :: u64
  ep_curr :: "int option"

definition no_path :: extent_path where
  "no_path = \<lparr>ep_buf = None, ep_entries = 0, ep_max_entries = 0, ep_left = 0, ep_visit_num = 0, ep_end_blk = 0, ep_curr = None\<rparr>"

text \<open>
  \<open>xh_heap\<close> says what \<open>malloc\<close> grants, \<open>xh_name\<close> is the name of the device, the
  channel is beside the handle of the file system. The inode is the caller's or that of the handle.
\<close>

record 'd extent_handle =
  xh_heap :: "u8 heap"
  xh_name :: string
  xh_fs :: filsys
  xh_io :: "'d io_channel"
  xh_ino :: u32
  xh_inode :: inode
  xh_type :: u16
  xh_level :: nat
  xh_max_depth :: nat
  xh_path :: "extent_path list"

record ext2fs_extent =
  e_pblk :: u64
  e_lblk :: u64
  e_len :: u32
  e_flags :: u32

definition EXT2_EXTENT_FLAGS_LEAF :: u32 where "EXT2_EXTENT_FLAGS_LEAF = 1"
definition EXT2_EXTENT_FLAGS_UNINIT :: u32 where "EXT2_EXTENT_FLAGS_UNINIT = 2"
definition EXT2_EXTENT_FLAGS_SECOND_VISIT :: u32 where "EXT2_EXTENT_FLAGS_SECOND_VISIT = 4"

definition EXT2_EXTENT_CURRENT :: u32 where "EXT2_EXTENT_CURRENT = 0"
definition EXT2_EXTENT_ROOT :: u32 where "EXT2_EXTENT_ROOT = 1"
definition EXT2_EXTENT_LAST_LEAF :: u32 where "EXT2_EXTENT_LAST_LEAF = 2"
definition EXT2_EXTENT_FIRST_SIB :: u32 where "EXT2_EXTENT_FIRST_SIB = 3"
definition EXT2_EXTENT_LAST_SIB :: u32 where "EXT2_EXTENT_LAST_SIB = 4"
definition EXT2_EXTENT_NEXT_SIB :: u32 where "EXT2_EXTENT_NEXT_SIB = 5"
definition EXT2_EXTENT_PREV_SIB :: u32 where "EXT2_EXTENT_PREV_SIB = 6"
definition EXT2_EXTENT_NEXT_LEAF :: u32 where "EXT2_EXTENT_NEXT_LEAF = 7"
definition EXT2_EXTENT_PREV_LEAF :: u32 where "EXT2_EXTENT_PREV_LEAF = 8"
definition EXT2_EXTENT_NEXT :: u32 where "EXT2_EXTENT_NEXT = 9"
definition EXT2_EXTENT_PREV :: u32 where "EXT2_EXTENT_PREV = 0xA"
definition EXT2_EXTENT_UP :: u32 where "EXT2_EXTENT_UP = 0xB"
definition EXT2_EXTENT_DOWN :: u32 where "EXT2_EXTENT_DOWN = 0xC"
definition EXT2_EXTENT_DOWN_AND_LAST :: u32 where "EXT2_EXTENT_DOWN_AND_LAST = 0xD"
definition EXT2_EXTENT_MOVE_MASK :: u32 where "EXT2_EXTENT_MOVE_MASK = 0xF"
definition EXT2_EXTENT_INSERT_AFTER :: u32 where "EXT2_EXTENT_INSERT_AFTER = 1"
definition EXT2_EXTENT_INSERT_NOSPLIT :: u32 where "EXT2_EXTENT_INSERT_NOSPLIT = 2"
definition EXT2_EXTENT_DELETE_KEEP_EMPTY :: u32 where "EXT2_EXTENT_DELETE_KEEP_EMPTY = 1"
definition EXT2_EXTENT_SET_BMAP_UNINIT :: u32 where "EXT2_EXTENT_SET_BMAP_UNINIT = 1"

lemmas extent_ops =
  EXT2_EXTENT_CURRENT_def EXT2_EXTENT_ROOT_def EXT2_EXTENT_LAST_LEAF_def EXT2_EXTENT_FIRST_SIB_def
  EXT2_EXTENT_LAST_SIB_def EXT2_EXTENT_NEXT_SIB_def EXT2_EXTENT_PREV_SIB_def EXT2_EXTENT_NEXT_LEAF_def
  EXT2_EXTENT_PREV_LEAF_def EXT2_EXTENT_NEXT_def EXT2_EXTENT_PREV_def EXT2_EXTENT_UP_def EXT2_EXTENT_DOWN_def
  EXT2_EXTENT_DOWN_AND_LAST_def EXT2_EXTENT_MOVE_MASK_def

definition EXT2_I_SIZE :: "inode \<Rightarrow> u64" where
  "EXT2_I_SIZE i = ucast (i_size i) OR push_bit 32 (ucast (i_size_high i))"

text \<open>The path of a level, and the node it points to.\<close>

definition cur_path :: "'d extent_handle \<Rightarrow> extent_path" where
  "cur_path x = xh_path x ! xh_level x"

definition upd_path :: "(extent_path \<Rightarrow> extent_path) \<Rightarrow> 'd extent_handle \<Rightarrow> 'd extent_handle" where
  "upd_path f x = x\<lparr>xh_path := (xh_path x)[xh_level x := f (cur_path x)]\<rparr>"

definition node_at :: "'d extent_handle \<Rightarrow> nat \<Rightarrow> u8 list" where
  "node_at x k = (if k = 0 then bytes_of (i_block (xh_inode x)) else the (ep_buf (xh_path x ! k)))"

definition cur_node :: "'d extent_handle \<Rightarrow> u8 list" where "cur_node x = node_at x (xh_level x)"

definition set_node :: "u8 list \<Rightarrow> 'd extent_handle \<Rightarrow> 'd extent_handle" where
  "set_node buf x =
     (if xh_level x = 0 then x\<lparr>xh_inode := (xh_inode x)\<lparr>i_block := words_of buf\<rparr>\<rparr>
      else upd_path (\<lambda>p. p\<lparr>ep_buf := Some buf\<rparr>) x)"

section \<open>Opening\<close>

text \<open>
  The handle has 208 bytes, a path 40. The memory of the paths is cleared before the result of the
  request for it is looked at; when it is refused the behaviour is not defined.
\<close>

definition ext2fs_extent_open2 :: "u8 heap \<Rightarrow> string \<Rightarrow> filsys \<Rightarrow> 'd io_channel \<Rightarrow> u32 \<Rightarrow> inode option \<Rightarrow>
    'd extent_handle result \<times> filsys \<times> 'd io_channel" where
  "ext2fs_extent_open2 h name fs io ino inode =
     (if fs_magic fs \<noteq> EXT2_ET_MAGIC_EXT2FS_FILSYS then (Inl EXT2_ET_MAGIC_EXT2FS_FILSYS, fs, io)
      else if inode = None \<and> (ino = 0 \<or> ino > s_inodes_count (fs_super fs)) then (Inl EXT2_ET_BAD_INODE_NUM, fs, io)
      else case ext2fs_get_mem h 208 of Inl e \<Rightarrow> (Inl e, fs, io) | Inr _ \<Rightarrow>
        (case (case inode of Some i \<Rightarrow> (Inr i, fs, io) | None \<Rightarrow> ext2fs_read_inode h fs io ino) of
           (Inl e, fs, io) \<Rightarrow> (Inl e, fs, io)
         | (Inr i, fs, io) \<Rightarrow>
             let i = (if \<forall>b \<in> set (take 15 (i_block i)). b = 0 then
                        let buf = bytes_of (i_block i);
                            buf = put_le16 (st16 (st16 (put_le16 buf 0 EXT3_EXT_MAGIC) 6 0) 2 0) 4 4
                        in i\<lparr>i_block := words_of buf, i_flags := i_flags i OR EXT4_EXTENTS_FL\<rparr>
                      else i);
                 buf = bytes_of (i_block i)
             in
             if i_flags i AND EXT4_EXTENTS_FL = 0 then (Inl EXT2_ET_INODE_NOT_EXTENT, fs, io)
             else case ext2fs_extent_header_verify buf 60 of
               Inl e \<Rightarrow> (Inl e, fs, io)
             | Inr _ \<Rightarrow>
                 let depth = unat (eh_depth buf) in
                 if \<not> granted h ((depth + 1) * 40) then (Inl UNDEFINED, fs, io)
                 else
                   let root = no_path\<lparr>ep_left := uint (eh_entries buf), ep_entries := uint (eh_entries buf),
                                ep_max_entries := uint (eh_max buf),
                                ep_end_blk := drop_bit (EXT2_BLOCK_SIZE_BITS (fs_super fs)) (EXT2_I_SIZE i + ucast (fs_blocksize fs) - 1),
                                ep_visit_num := 1\<rparr>
                   in (Inr \<lparr>xh_heap = h, xh_name = name, xh_fs = fs, xh_io = io, xh_ino = ino, xh_inode = i,
                            xh_type = eh_magic buf, xh_level = 0, xh_max_depth = depth,
                            xh_path = root # replicate depth no_path\<rparr>, fs, io)))"

definition ext2fs_extent_open :: "u8 heap \<Rightarrow> string \<Rightarrow> filsys \<Rightarrow> 'd io_channel \<Rightarrow> u32 \<Rightarrow>
    'd extent_handle result \<times> filsys \<times> 'd io_channel" where
  "ext2fs_extent_open h name fs io ino = ext2fs_extent_open2 h name fs io ino None"

section \<open>Walking\<close>

text \<open>The move that a request stands for at the place the handle is at.\<close>

definition choose_op :: "u32 \<Rightarrow> 'd extent_handle \<Rightarrow> u32 result \<times> 'd extent_handle" where
  "choose_op orig x =
     (let p = cur_path x; interior = xh_level x < xh_max_depth x in
      if orig = EXT2_EXTENT_NEXT \<or> orig = EXT2_EXTENT_NEXT_LEAF then
        if interior \<and> ep_visit_num p = 0 then
          (Inr EXT2_EXTENT_DOWN, upd_path (\<lambda>p. p\<lparr>ep_visit_num := ep_visit_num p + 1\<rparr>) x)
        else if ep_left p > 0 then (Inr EXT2_EXTENT_NEXT_SIB, x)
        else if xh_level x > 0 then (Inr EXT2_EXTENT_UP, x)
        else (Inl EXT2_ET_EXTENT_NO_NEXT, x)
      else if orig = EXT2_EXTENT_PREV \<or> orig = EXT2_EXTENT_PREV_LEAF then
        if interior \<and> ep_visit_num p > 0 then (Inr EXT2_EXTENT_DOWN_AND_LAST, x)
        else if ep_left p < ep_entries p - 1 then (Inr EXT2_EXTENT_PREV_SIB, x)
        else if xh_level x > 0 then (Inr EXT2_EXTENT_UP, x)
        else (Inl EXT2_ET_EXTENT_NO_PREV, x)
      else if orig = EXT2_EXTENT_LAST_LEAF then
        if interior \<and> ep_left p = 0 then (Inr EXT2_EXTENT_DOWN, x) else (Inr EXT2_EXTENT_LAST_SIB, x)
      else (Inr orig, x))"

definition next_sib :: "'d extent_handle \<Rightarrow> int option result \<times> 'd extent_handle" where
  "next_sib x =
     (let p = cur_path x in
      if ep_left p \<le> 0 then (Inl EXT2_ET_EXTENT_NO_NEXT, x)
      else
        let ix = (case ep_curr p of Some i \<Rightarrow> i + 1 | None \<Rightarrow> 0)
        in (Inr (Some ix), upd_path (\<lambda>p. p\<lparr>ep_left := ep_left p - 1, ep_curr := Some ix, ep_visit_num := 0\<rparr>) x))"

text \<open>
  Down to the node the current entry points to. The memory of the node is requested once. When the
  block cannot be read the node keeps its contents.
\<close>

definition go_down :: "bool \<Rightarrow> 'd extent_handle \<Rightarrow> int option result \<times> 'd extent_handle" where
  "go_down at_end x =
     (let p = cur_path x; lev = xh_level x; buf = cur_node x in
      case ep_curr p of
        None \<Rightarrow> (Inl EXT2_ET_EXTENT_NO_DOWN, x)
      | Some ix \<Rightarrow>
          if lev \<ge> xh_max_depth x then (Inl EXT2_ET_EXTENT_NO_DOWN, x)
          else
            let bs = unat (fs_blocksize (xh_fs x)); np = xh_path x ! (lev + 1) in
            case (case ep_buf np of Some b \<Rightarrow> Inr b
                  | None \<Rightarrow> (case ext2fs_get_mem (xh_heap x) bs of Inl e \<Rightarrow> Inl e | Inr _ \<Rightarrow> Inr (map (fresh (xh_heap x)) [0..<bs]))) of
              Inl e \<Rightarrow> (Inl e, x)
            | Inr nbuf \<Rightarrow>
                if \<not> entry_in buf ix 1 then (Inl UNDEFINED, x)
                else
                  case io_channel_read_blk64 (xh_io x) (ei_leaf buf ix) 1 of
                    (Inl e, io) \<Rightarrow> (Inl e, x\<lparr>xh_io := io, xh_path := (xh_path x)[lev + 1 := np\<lparr>ep_buf := Some nbuf\<rparr>]\<rparr>)
                  | (Inr data, io) \<Rightarrow>
                      let x = x\<lparr>xh_io := io, xh_path := (xh_path x)[lev + 1 := np\<lparr>ep_buf := Some data\<rparr>]\<rparr> in
                      case ext2fs_extent_header_verify data bs of
                        Inl e \<Rightarrow> (Inl e, x)
                      | Inr _ \<Rightarrow>
                          if ep_left p > 0 \<and> \<not> entry_in buf (ix + 1) 1 then (Inl UNDEFINED, x)
                          else
                            let en = uint (eh_entries data);
                                np = np\<lparr>ep_buf := Some data, ep_entries := en, ep_max_entries := uint (eh_max data),
                                       ep_end_blk := (if ep_left p > 0 then ucast (ei_block buf (ix + 1)) else ep_end_blk p)\<rparr>;
                                ix = (if at_end then EXT_LAST_EXTENT data else 0);
                                np = (if \<not> at_end then np\<lparr>ep_curr := Some ix, ep_left := en - 1, ep_visit_num := 0\<rparr>
                                      else np\<lparr>ep_curr := Some ix, ep_left := 0,
                                              ep_visit_num := (if lev + 1 < xh_max_depth x then 1 else ep_visit_num np)\<rparr>)
                            in (Inr (Some ix), x\<lparr>xh_level := lev + 1, xh_path := (xh_path x)[lev + 1 := np]\<rparr>))"

definition extent_move :: "u32 \<Rightarrow> u32 \<Rightarrow> 'd extent_handle \<Rightarrow> int option result \<times> 'd extent_handle" where
  "extent_move orig op x =
     (if op = EXT2_EXTENT_CURRENT then (Inr (ep_curr (cur_path x)), x)
      else if op = EXT2_EXTENT_ROOT \<or> op = EXT2_EXTENT_FIRST_SIB then
        next_sib (upd_path (\<lambda>p. p\<lparr>ep_left := ep_entries p, ep_curr := None\<rparr>)
                    (if op = EXT2_EXTENT_ROOT then x\<lparr>xh_level := 0\<rparr> else x))
      else if op = EXT2_EXTENT_NEXT_SIB then next_sib x
      else if op = EXT2_EXTENT_PREV_SIB then
        let p = cur_path x in
        (case ep_curr p of
           None \<Rightarrow> (Inl EXT2_ET_EXTENT_NO_PREV, x)
         | Some i \<Rightarrow>
             if ep_left p + 1 \<ge> ep_entries p then (Inl EXT2_ET_EXTENT_NO_PREV, x)
             else (Inr (Some (i - 1)),
                   upd_path (\<lambda>p. p\<lparr>ep_curr := Some (i - 1), ep_left := ep_left p + 1,
                                   ep_visit_num := (if xh_level x < xh_max_depth x then 1 else ep_visit_num p)\<rparr>) x))
      else if op = EXT2_EXTENT_LAST_SIB then
        let ix = EXT_LAST_EXTENT (cur_node x)
        in (Inr (Some ix), upd_path (\<lambda>p. p\<lparr>ep_curr := Some ix, ep_left := 0, ep_visit_num := 0\<rparr>) x)
      else if op = EXT2_EXTENT_UP then
        if xh_level x = 0 then (Inl EXT2_ET_EXTENT_NO_UP, x)
        else
          let x = x\<lparr>xh_level := xh_level x - 1\<rparr>;
              ix = ep_curr (cur_path x)
          in (Inr ix, if orig = EXT2_EXTENT_PREV \<or> orig = EXT2_EXTENT_PREV_LEAF
                      then upd_path (\<lambda>p. p\<lparr>ep_visit_num := 0\<rparr>) x else x)
      else if op = EXT2_EXTENT_DOWN then go_down False x
      else if op = EXT2_EXTENT_DOWN_AND_LAST then go_down True x
      else (Inl EXT2_ET_OP_NOT_SUPPORTED, x))"

text \<open>What the caller gets of the entry \<open>ix\<close> of the current node.\<close>

definition extent_at :: "'d extent_handle \<Rightarrow> int \<Rightarrow> ext2fs_extent result" where
  "extent_at x ix =
     (let buf = cur_node x; p = cur_path x;
          second = (if ep_visit_num p \<noteq> 0 then EXT2_EXTENT_FLAGS_SECOND_VISIT else 0)
      in
      if \<not> entry_in buf ix 1 then Inl UNDEFINED
      else if xh_level x = xh_max_depth x then
        let len = ucast (ee_len buf ix) :: u32;
            uninit = len > EXT_INIT_MAX_LEN
        in Inr \<lparr>e_pblk = ee_start buf ix, e_lblk = ucast (ee_block buf ix),
                e_len = (if uninit then len - EXT_INIT_MAX_LEN else len),
                e_flags = EXT2_EXTENT_FLAGS_LEAF OR (if uninit then EXT2_EXTENT_FLAGS_UNINIT else 0) OR second\<rparr>
      else if ep_left p > 0 \<and> \<not> entry_in buf (ix + 1) 1 then Inl UNDEFINED
      else
        let end_blk = (if ep_left p > 0 then ucast (ei_block buf (ix + 1)) else ep_end_blk p) :: u64
        in Inr \<lparr>e_pblk = ei_leaf buf ix, e_lblk = ucast (ei_block buf ix),
                e_len = ucast (end_blk - ucast (ei_block buf ix)), e_flags = second\<rparr>)"

definition move_again :: "u32 \<Rightarrow> 'd extent_handle \<Rightarrow> bool" where
  "move_again orig x \<longleftrightarrow>
     (orig = EXT2_EXTENT_NEXT_LEAF \<or> orig = EXT2_EXTENT_PREV_LEAF) \<and> xh_level x \<noteq> xh_max_depth x \<or>
     orig = EXT2_EXTENT_LAST_LEAF \<and> (xh_level x \<noteq> xh_max_depth x \<or> ep_left (cur_path x) \<noteq> 0)"

text \<open>One turn: the result of the call, or the handle for the next turn.\<close>

definition extent_turn :: "u32 \<Rightarrow> 'd extent_handle \<Rightarrow> (ext2fs_extent result \<times> 'd extent_handle) + 'd extent_handle" where
  "extent_turn orig x =
     (case choose_op orig x of
        (Inl e, x) \<Rightarrow> Inl (Inl e, x)
      | (Inr op, x) \<Rightarrow>
          (case extent_move orig op x of
             (Inl e, x) \<Rightarrow> Inl (Inl e, x)
           | (Inr None, x) \<Rightarrow> Inl (Inl EXT2_ET_NO_CURRENT_NODE, x)
           | (Inr (Some ix), x) \<Rightarrow>
               (case extent_at x ix of
                  Inl e \<Rightarrow> Inl (Inl e, x)
                | Inr ext \<Rightarrow> if move_again orig x then Inr x else Inl (Inr ext, x))))"

text \<open>Turns until the request is met, at most \<open>n\<close> of them.\<close>

fun extent_walk :: "nat \<Rightarrow> u32 \<Rightarrow> 'd extent_handle \<Rightarrow> ext2fs_extent result \<times> 'd extent_handle" where
  "extent_walk 0 orig x = (Inl NO_RETURN, x)"
| "extent_walk (Suc n) orig x = (case extent_turn orig x of Inl r \<Rightarrow> r | Inr x \<Rightarrow> extent_walk n orig x)"

definition ext2fs_extent_get :: "u32 \<Rightarrow> 'd extent_handle \<Rightarrow> ext2fs_extent result \<times> 'd extent_handle" where
  "ext2fs_extent_get flags x = extent_walk (2 * xh_max_depth x + 4) (flags AND EXT2_EXTENT_MOVE_MASK) x"

end
