(* ===== verification/Extent_Ops.thy ===== *)
theory Extent_Ops
  imports Extent
begin

text \<open>
  The operations of \<open>source/extent.c\<close> over the walk of \<open>Extent\<close>: going to a logical
  block, replacing, inserting and deleting an entry, splitting a node, and mapping a logical block.
\<close>

section \<open>Going to a block\<close>

text \<open>
  The loop of \<open>extent_goto\<close>. A node has at most 65535 entries and a level is entered once, so
  \<open>65537\<close> turns for every level are enough.
\<close>

function goto_loop :: "nat \<Rightarrow> nat \<Rightarrow> u64 \<Rightarrow> ext2fs_extent \<Rightarrow> 'd extent_handle \<Rightarrow> unit result \<times> 'd extent_handle" where
  "goto_loop n leaf_level blk extent x =
     (if n = 0 then (Inl NO_RETURN, x)
      else if int (xh_max_depth x) - int (xh_level x) = int leaf_level then
        if blk \<ge> e_lblk extent \<and> blk < e_lblk extent + ucast (e_len extent) then (Inr (), x)
        else if blk < e_lblk extent then
          (Inl EXT2_ET_EXTENT_NOT_FOUND, snd (ext2fs_extent_get EXT2_EXTENT_PREV_SIB x))
        else
          (case ext2fs_extent_get EXT2_EXTENT_NEXT_SIB x of
             (Inl e, x) \<Rightarrow> (Inl (if e = EXT2_ET_EXTENT_NO_NEXT then EXT2_ET_EXTENT_NOT_FOUND else e), x)
           | (Inr extent, x) \<Rightarrow> goto_loop (n - 1) leaf_level blk extent x)
      else
        let down = (\<lambda>x. case ext2fs_extent_get EXT2_EXTENT_DOWN x of
                          (Inl e, x) \<Rightarrow> (Inl e, x)
                        | (Inr extent, x) \<Rightarrow> goto_loop (n - 1) leaf_level blk extent x)
        in
        (case ext2fs_extent_get EXT2_EXTENT_NEXT_SIB x of
           (Inl e, x) \<Rightarrow> if e = EXT2_ET_EXTENT_NO_NEXT then down x else (Inl e, x)
         | (Inr extent, x) \<Rightarrow>
             if blk = e_lblk extent then down x
             else if blk > e_lblk extent then goto_loop (n - 1) leaf_level blk extent x
             else
               (case ext2fs_extent_get EXT2_EXTENT_PREV_SIB x of
                  (Inl e, x) \<Rightarrow> (Inl e, x)
                | (Inr _, x) \<Rightarrow> down x)))"
  by pat_completeness auto
termination by (relation "measure fst") auto

declare goto_loop.simps [simp del]

definition extent_goto :: "int \<Rightarrow> u64 \<Rightarrow> 'd extent_handle \<Rightarrow> unit result \<times> 'd extent_handle" where
  "extent_goto leaf_level blk x =
     (case ext2fs_extent_get EXT2_EXTENT_ROOT x of
        (Inl e, x) \<Rightarrow> (Inl (if e = EXT2_ET_EXTENT_NO_NEXT then EXT2_ET_EXTENT_NOT_FOUND else e), x)
      | (Inr extent, x) \<Rightarrow>
          if leaf_level > int (xh_max_depth x) then (Inl EXT2_ET_OP_NOT_SUPPORTED, x)
          else goto_loop ((xh_max_depth x + 1) * 65537) (nat leaf_level) blk extent x)"

definition ext2fs_extent_goto :: "u64 \<Rightarrow> 'd extent_handle \<Rightarrow> unit result \<times> 'd extent_handle" where
  "ext2fs_extent_goto blk x = extent_goto 0 blk x"

record ext2_extent_info =
  xi_curr_entry :: int
  xi_curr_level :: int
  xi_num_entries :: int
  xi_max_entries :: int
  xi_max_depth :: int
  xi_bytes_avail :: int
  xi_max_lblk :: u64
  xi_max_pblk :: u64
  xi_max_len :: u32
  xi_max_uninit_len :: u32

definition ext2fs_extent_get_info :: "'d extent_handle \<Rightarrow> ext2_extent_info" where
  "ext2fs_extent_get_info x =
     (let p = cur_path x in
      \<lparr>xi_curr_entry = (case ep_curr p of Some i \<Rightarrow> (12 + 12 * i) div 12 | None \<Rightarrow> 0), xi_curr_level = int (xh_level x),
       xi_num_entries = ep_entries p, xi_max_entries = ep_max_entries p, xi_max_depth = int (xh_max_depth x),
       xi_bytes_avail = (ep_max_entries p - ep_entries p) * 12, xi_max_lblk = 0xFFFFFFFF, xi_max_pblk = 0xFFFFFFFFFFFF,
       xi_max_len = 0x8000, xi_max_uninit_len = 0x7FFF\<rparr>)"

section \<open>Writing a node\<close>

definition write_handle_inode :: "'d extent_handle \<Rightarrow> unit result \<times> 'd extent_handle" where
  "write_handle_inode x =
     (case ext2fs_write_inode (xh_heap x) (xh_fs x) (xh_io x) (xh_ino x) (xh_inode x) of
        (r, fs, io) \<Rightarrow> (r, x\<lparr>xh_fs := fs, xh_io := io\<rparr>))"

definition update_path :: "'d extent_handle \<Rightarrow> unit result \<times> 'd extent_handle" where
  "update_path x =
     (if xh_level x = 0 then write_handle_inode x
      else
        let parent = node_at x (xh_level x - 1) in
        case ep_curr (xh_path x ! (xh_level x - 1)) of
          None \<Rightarrow> (Inl UNDEFINED, x)
        | Some ix \<Rightarrow>
            if \<not> entry_in parent ix 1 then (Inl UNDEFINED, x)
            else case io_channel_write_blk64 (xh_io x) (ei_leaf parent ix) 1 (cur_node x) of
              (r, io) \<Rightarrow> (r, x\<lparr>xh_io := io\<rparr>))"

text \<open>The stores of a replacement; the length of a leaf is checked after the other fields are stored.\<close>

definition store_leaf :: "u8 list \<Rightarrow> int \<Rightarrow> ext2fs_extent \<Rightarrow> unit result \<times> u8 list" where
  "store_leaf buf ix extent =
     (let off = entry_off ix;
          buf = put_le32 buf off (ucast (e_lblk extent));
          buf = put_le32 buf (off + 8) (ucast (e_pblk extent AND 0xFFFFFFFF));
          buf = put_le16 buf (off + 6) (ucast (drop_bit 32 (e_pblk extent)))
      in
      if e_flags extent AND EXT2_EXTENT_FLAGS_UNINIT \<noteq> 0 then
        if e_len extent > EXT_UNINIT_MAX_LEN then (Inl EXT2_ET_EXTENT_INVALID_LENGTH, buf)
        else (Inr (), put_le16 buf (off + 4) (ucast (e_len extent + EXT_INIT_MAX_LEN)))
      else if e_len extent > EXT_INIT_MAX_LEN then (Inl EXT2_ET_EXTENT_INVALID_LENGTH, buf)
      else (Inr (), put_le16 buf (off + 4) (ucast (e_len extent))))"

definition store_index :: "u8 list \<Rightarrow> int \<Rightarrow> ext2fs_extent \<Rightarrow> u8 list" where
  "store_index buf ix extent =
     (let off = entry_off ix;
          buf = put_le32 buf (off + 4) (ucast (e_pblk extent AND 0xFFFFFFFF));
          buf = put_le16 buf (off + 8) (ucast (drop_bit 32 (e_pblk extent)));
          buf = put_le32 buf off (ucast (e_lblk extent))
      in st16 buf (off + 10) 0)"

text \<open>The result of the write is not looked at.\<close>

definition ext2fs_extent_replace :: "ext2fs_extent \<Rightarrow> 'd extent_handle \<Rightarrow> unit result \<times> 'd extent_handle" where
  "ext2fs_extent_replace extent x =
     (if fs_flags (xh_fs x) AND EXT2_FLAG_RW = 0 then (Inl EXT2_ET_RO_FILSYS, x)
      else case ep_curr (cur_path x) of
        None \<Rightarrow> (Inl EXT2_ET_NO_CURRENT_NODE, x)
      | Some ix \<Rightarrow>
          if \<not> entry_in (cur_node x) ix 1 then (Inl UNDEFINED, x)
          else if xh_level x = xh_max_depth x then
            (case store_leaf (cur_node x) ix extent of
               (Inl e, buf) \<Rightarrow> (Inl e, set_node buf x)
             | (Inr _, buf) \<Rightarrow> (Inr (), snd (update_path (set_node buf x))))
          else (Inr (), snd (update_path (set_node (store_index (cur_node x) ix extent) x))))"

section \<open>Deleting\<close>

text \<open>\<open>memmove\<close> of \<open>n\<close> entries from \<open>i\<close> to \<open>j\<close>.\<close>

definition move_entries :: "u8 list \<Rightarrow> int \<Rightarrow> int \<Rightarrow> int \<Rightarrow> u8 list" where
  "move_entries buf j i n = put_bytes buf (entry_off j) (take (nat (12 * n)) (drop (entry_off i) buf))"

text \<open>
  A node that is left without entries is taken out of its parent, one level up; \<open>n\<close> bounds the
  levels.
\<close>

fun extent_delete_up :: "nat \<Rightarrow> u32 \<Rightarrow> 'd extent_handle \<Rightarrow> unit result \<times> 'd extent_handle" where
  "extent_delete_up 0 flags x = (Inl NO_RETURN, x)"
| "extent_delete_up (Suc n) flags x =
     (if fs_flags (xh_fs x) AND EXT2_FLAG_RW = 0 then (Inl EXT2_ET_RO_FILSYS, x)
      else let p = cur_path x in
      case ep_curr p of
        None \<Rightarrow> (Inl EXT2_ET_NO_CURRENT_NODE, x)
      | Some ix \<Rightarrow>
          if ep_left p \<noteq> 0 \<and> \<not> (0 < ep_left p \<and> entry_in (cur_node x) ix (ep_left p + 1)) then (Inl UNDEFINED, x)
          else
            let x = (if ep_left p \<noteq> 0 then
                       upd_path (\<lambda>p. p\<lparr>ep_left := ep_left p - 1\<rparr>) (set_node (move_entries (cur_node x) ix (ix + 1) (ep_left p)) x)
                     else upd_path (\<lambda>p. p\<lparr>ep_curr := Some (ix - 1)\<rparr>) x);
                entries = ep_entries p - 1;
                x = upd_path (\<lambda>p. p\<lparr>ep_entries := entries, ep_curr := (if entries = 0 then None else ep_curr p)\<rparr>) x
            in
            if entries = 0 \<and> xh_level x \<noteq> 0 then
              if flags AND EXT2_EXTENT_DELETE_KEEP_EMPTY = 0 then
                (case ext2fs_extent_get EXT2_EXTENT_UP x of
                   (Inl e, x) \<Rightarrow> (Inl e, x)
                 | (Inr extent, x) \<Rightarrow>
                     let x = snd (extent_delete_up n flags x);
                         x = x\<lparr>xh_inode := (xh_inode x)\<lparr>i_blocks := i_blocks (xh_inode x) - fs_blocksize (xh_fs x) div 512\<rparr>\<rparr>;
                         (r, x) = write_handle_inode x
                     in (r, x\<lparr>xh_fs := ext2fs_block_alloc_stats2 (xh_fs x) (e_pblk extent) (- 1)\<rparr>))
              else (Inr (), x)
            else
              let buf = put_le16 (cur_node x) 2 (word_of_int entries);
                  root = (entries = 0 \<and> xh_level x = 0);
                  x = set_node (if root then st16 buf 6 0 else buf) x
              in update_path (if root then x\<lparr>xh_max_depth := 0\<rparr> else x))"

definition ext2fs_extent_delete :: "u32 \<Rightarrow> 'd extent_handle \<Rightarrow> unit result \<times> 'd extent_handle" where
  "ext2fs_extent_delete flags x = extent_delete_up (xh_level x + 1) flags x"

section \<open>Splitting and inserting\<close>

text \<open>The goal for the block of a new node, computed in 32 bits.\<close>

definition node_goal :: "'d extent_handle \<Rightarrow> u64" where
  "node_goal x =
     (let fs = xh_fs x;
          g = ext2fs_group_of_ino fs (xh_ino x);
          log_flex = unat (s_log_groups_per_flex (fs_super fs));
          g = (if log_flex \<noteq> 0 then g AND NOT (push_bit log_flex 1 - 1) else g)
      in ucast (g * s_blocks_per_group (fs_super fs) + s_first_data_block (fs_super fs)))"

text \<open>
  The block of the new node: the header of the old node with the number of its entries and of those
  that fit, and the last \<open>n\<close> entries of the old node.
\<close>

definition split_off :: "u8 list \<Rightarrow> nat \<Rightarrow> nat \<Rightarrow> u8 list" where
  "split_off buf bs n =
     (let new = put_bytes (replicate bs 0) 0 (take 12 buf);
          new = put_le16 new 2 (of_nat n);
          new = put_le16 new 4 (of_nat ((bs - 12) div 12))
      in put_bytes new 12 (take (12 * n) (drop (12 + 12 * (unat (eh_entries buf) - n)) buf)))"

text \<open>The old node after \<open>n\<close> entries have left it; the root keeps one and becomes a level higher.\<close>

definition shrink_node :: "nat \<Rightarrow> 'd extent_handle \<Rightarrow> 'd extent_handle" where
  "shrink_node n x =
     (if xh_level x = 0 then
        let x = upd_path (\<lambda>p. p\<lparr>ep_entries := 1, ep_left := ep_max_entries p - 1\<rparr>) (x\<lparr>xh_path := take (xh_max_depth x + 1) (xh_path x) @ [no_path]\<rparr>);
            x = x\<lparr>xh_max_depth := xh_max_depth x + 1\<rparr>;
            buf = put_le16 (cur_node x) 6 (of_nat (xh_max_depth x))
        in set_node (put_le16 buf 2 1) x
      else
        let x = upd_path (\<lambda>p. p\<lparr>ep_entries := ep_entries p - int n, ep_left := ep_left p - int n\<rparr>) x
        in set_node (put_le16 (cur_node x) 2 (word_of_int (ep_entries (cur_path x)))) x)"

text \<open>Room for one more entry at the current place.\<close>

definition open_gap :: "u32 \<Rightarrow> 'd extent_handle \<Rightarrow> unit result \<times> 'd extent_handle" where
  "open_gap flags x =
     (let p = cur_path x;
          after = flags AND EXT2_EXTENT_INSERT_AFTER \<noteq> 0;
          (ix, left) = (case ep_curr p of
                          Some i \<Rightarrow> if after then (i + 1, ep_left p - 1) else (i, ep_left p)
                        | None \<Rightarrow> (0, ep_left p))
      in
      if 0 \<le> left \<and> \<not> entry_in (cur_node x) ix (left + 2) then (Inl UNDEFINED, x)
      else
        let buf = (if 0 \<le> left then move_entries (cur_node x) (ix + 1) ix (left + 1) else cur_node x);
            entries = ep_entries p + 1;
            x = upd_path (\<lambda>p. p\<lparr>ep_curr := Some ix, ep_left := left + 1, ep_entries := entries\<rparr>) x
        in (Inr (), set_node (put_le16 buf 2 (word_of_int entries)) x))"

text \<open>Inserting; \<open>split\<close> is the function that splits a full node.\<close>

definition extent_insert_with :: "('d extent_handle \<Rightarrow> unit result \<times> 'd extent_handle) \<Rightarrow> u32 \<Rightarrow> ext2fs_extent \<Rightarrow>
    'd extent_handle \<Rightarrow> unit result \<times> 'd extent_handle" where
  "extent_insert_with split flags extent x =
     (if fs_flags (xh_fs x) AND EXT2_FLAG_RW = 0 then (Inl EXT2_ET_RO_FILSYS, x)
      else
        case (if ep_entries (cur_path x) \<ge> ep_max_entries (cur_path x) then
                if flags AND EXT2_EXTENT_INSERT_NOSPLIT \<noteq> 0 then (Inl EXT2_ET_CANT_INSERT_EXTENT, x)
                else split x
              else (Inr (), x)) of
          (Inl e, x) \<Rightarrow> (Inl e, x)
        | (Inr _, x) \<Rightarrow>
            (case open_gap flags x of
               (Inl e, x) \<Rightarrow> (Inl e, x)
             | (Inr _, x) \<Rightarrow>
                 (case (case ext2fs_extent_replace extent x of
                          (Inl e, x) \<Rightarrow> (Inl e, x)
                        | (Inr _, x) \<Rightarrow> update_path x) of
                    (Inl e, x) \<Rightarrow> (Inl e, snd (ext2fs_extent_delete 0 x))
                  | (Inr _, x) \<Rightarrow> (Inr (), x))))"

text \<open>
  Half of the entries of a node, all of those of the root, go to a new node, for which an index is
  inserted one level up. \<open>n\<close> bounds the depth of these calls.
\<close>

fun extent_node_split :: "nat \<Rightarrow> 'd extent_handle \<Rightarrow> unit result \<times> 'd extent_handle" where
  "extent_node_split 0 x = (Inl NO_RETURN, x)"
| "extent_node_split (Suc n) x =
     (if fs_flags (xh_fs x) AND EXT2_FLAG_RW = 0 then (Inl EXT2_ET_RO_FILSYS, x)
      else case ext2fs_extent_get EXT2_EXTENT_CURRENT x of
        (Inl e, x) \<Rightarrow> (Inl e, x)
      | (Inr extent, x) \<Rightarrow>
          let orig_height = int (xh_max_depth x) - int (xh_level x);
              orig_lblk = e_lblk extent;
              parent = xh_path x ! (xh_level x - 1)
          in
          case (if xh_level x \<noteq> 0 \<and> ep_entries parent \<ge> ep_max_entries parent then
                  (case ext2fs_extent_get EXT2_EXTENT_UP x of
                     (Inl e, x) \<Rightarrow> (Inl e, x)
                   | (Inr extent, x) \<Rightarrow>
                       (case extent_node_split n x of
                          (Inl e, x) \<Rightarrow> (Inl e, x)
                        | (Inr _, x) \<Rightarrow>
                            (case extent_goto orig_height orig_lblk x of
                               (Inl e, x) \<Rightarrow> (Inl e, x)
                             | (Inr _, x) \<Rightarrow> (Inr (e_pblk extent), x))))
                else (Inr 0, x)) of
            (Inl e, x) \<Rightarrow> (Inl e, x)
          | (Inr goal_blk, x) \<Rightarrow>
              if ep_curr (cur_path x) = None then (Inl EXT2_ET_NO_CURRENT_NODE, x)
              else
                let buf = cur_node x; bs = unat (fs_blocksize (xh_fs x));
                    new_root = (xh_level x = 0);
                    tocopy = (if new_root then unat (eh_entries buf) else unat (eh_entries buf) div 2)
                in
                if new_root \<and> \<not> granted (xh_heap x) ((xh_max_depth x + 2) * 40) then (Inl EXT2_ET_NO_MEMORY, x)
                else if tocopy = 0 then (Inl EXT2_ET_CANT_SPLIT_EXTENT, x)
                else if \<not> granted (xh_heap x) bs then (Inl ENOMEM, x)
                else
                  (case ext2fs_alloc_block2 (xh_heap x) (xh_name x) (xh_fs x) (xh_io x)
                          (if goal_blk = 0 then node_goal x else goal_blk) True of
                     (Inl e, fs, io) \<Rightarrow> (Inl e, x\<lparr>xh_fs := fs, xh_io := io\<rparr>)
                   | (Inr new_node_pblk, fs, io) \<Rightarrow>
                       let x = x\<lparr>xh_fs := fs, xh_io := io\<rparr> in
                       if \<not> (12 + 12 * unat (eh_entries buf) \<le> length buf \<and> 12 + 12 * tocopy \<le> bs) then (Inl UNDEFINED, x)
                       else
                         let new = split_off buf bs tocopy;
                             new_node_start = ei_block new 0
                         in
                         (case io_channel_write_blk64 io new_node_pblk 1 new of
                            (Inl e, io) \<Rightarrow> (Inl e, x\<lparr>xh_io := io\<rparr>)
                          | (Inr _, io) \<Rightarrow>
                              (case update_path (shrink_node tocopy (x\<lparr>xh_io := io\<rparr>)) of
                                 (Inl e, x) \<Rightarrow> (Inl e, x)
                               | (Inr _, x) \<Rightarrow>
                                   (case (if new_root then
                                            (case ext2fs_extent_get EXT2_EXTENT_FIRST_SIB x of
                                               (Inl e, x) \<Rightarrow> (Inl e, x)
                                             | (Inr extent, x) \<Rightarrow>
                                                 ext2fs_extent_replace
                                                   (extent\<lparr>e_lblk := ucast new_node_start, e_pblk := new_node_pblk,
                                                           e_len := ucast (ep_end_blk (xh_path x ! 0) - ucast new_node_start)\<rparr>) x)
                                          else
                                            let (r, x) = ext2fs_extent_get EXT2_EXTENT_UP x;
                                                extent = (case r of Inr ex \<Rightarrow> ex | Inl _ \<Rightarrow> extent);
                                                new_node_length = new_node_start - ucast (e_lblk extent);
                                                extent = extent\<lparr>e_len := e_len extent - new_node_length\<rparr>
                                            in
                                            (case ext2fs_extent_replace extent x of
                                               (Inl e, x) \<Rightarrow> (Inl e, x)
                                             | (Inr _, x) \<Rightarrow>
                                                 extent_insert_with (extent_node_split n) EXT2_EXTENT_INSERT_AFTER
                                                   (extent\<lparr>e_lblk := ucast new_node_start, e_pblk := new_node_pblk,
                                                           e_len := new_node_length\<rparr>) x)) of
                                      (Inl e, x) \<Rightarrow> (Inl e, x)
                                    | (Inr _, x) \<Rightarrow>
                                        (case extent_goto orig_height orig_lblk x of
                                           (Inl e, x) \<Rightarrow> (Inl e, x)
                                         | (Inr _, x) \<Rightarrow>
                                             write_handle_inode
                                               (x\<lparr>xh_inode := (xh_inode x)\<lparr>i_blocks := i_blocks (xh_inode x) + fs_blocksize (xh_fs x) div 512\<rparr>\<rparr>)))))))"
declare extent_node_split.simps [simp del]

definition ext2fs_extent_insert :: "u32 \<Rightarrow> ext2fs_extent \<Rightarrow> 'd extent_handle \<Rightarrow> unit result \<times> 'd extent_handle" where
  "ext2fs_extent_insert flags extent x = extent_insert_with (extent_node_split (2 * xh_max_depth x + 8)) flags extent x"

section \<open>Keeping the parents right\<close>

text \<open>The start of the first entry of a node is the start in its parent.\<close>

fun fix_parents_loop :: "nat \<Rightarrow> u64 \<Rightarrow> 'd extent_handle \<Rightarrow> unit result \<times> 'd extent_handle" where
  "fix_parents_loop 0 start x = (Inl NO_RETURN, x)"
| "fix_parents_loop (Suc n) start x =
     (if xh_level x > 0 \<and> ep_left (cur_path x) = ep_entries (cur_path x) - 1 then
        (case ext2fs_extent_get EXT2_EXTENT_UP x of
           (Inl e, x) \<Rightarrow> (Inl e, x)
         | (Inr extent, x) \<Rightarrow>
             if e_lblk extent = start then (Inr (), x)
             else
               (case ext2fs_extent_replace
                       (extent\<lparr>e_len := e_len extent + ucast (e_lblk extent - start), e_lblk := start\<rparr>) x of
                  (Inl e, x) \<Rightarrow> (Inl e, x)
                | (Inr _, x) \<Rightarrow> fix_parents_loop n start (snd (update_path x))))
      else (Inr (), x))"

definition ext2fs_extent_fix_parents :: "'d extent_handle \<Rightarrow> unit result \<times> 'd extent_handle" where
  "ext2fs_extent_fix_parents x =
     (if fs_flags (xh_fs x) AND EXT2_FLAG_RW = 0 then (Inl EXT2_ET_RO_FILSYS, x)
      else if ep_curr (cur_path x) = None then (Inl EXT2_ET_NO_CURRENT_NODE, x)
      else case ext2fs_extent_get EXT2_EXTENT_CURRENT x of
        (Inl e, x) \<Rightarrow> (Inl e, x)
      | (Inr extent, x) \<Rightarrow>
          (case fix_parents_loop (xh_level x + 1) (e_lblk extent) x of
             (Inl e, x) \<Rightarrow> (Inl e, x)
           | (Inr _, x) \<Rightarrow> ext2fs_extent_goto (e_lblk extent) x))"

end
