(* ===== verification/Extent_Bmap.thy ===== *)
theory Extent_Bmap
  imports Extent_Ops
begin

text \<open>
  \<open>ext2fs_extent_set_bmap\<close> of \<open>source/extent.c\<close>: maps, remaps or unmaps a logical block. Every
  way out after the place of the handle was saved goes back to that place.
\<close>

section \<open>What is around the block\<close>

definition is_uninit :: "ext2fs_extent \<Rightarrow> bool" where
  "is_uninit extent \<longleftrightarrow> e_flags extent AND EXT2_EXTENT_FLAGS_UNINIT \<noteq> 0"

text \<open>A neighbour: \<open>none\<close> is the code that says that there is none.\<close>

definition neighbour :: "u32 \<Rightarrow> errcode \<Rightarrow> 'd extent_handle \<Rightarrow> ext2fs_extent option result \<times> 'd extent_handle" where
  "neighbour op none x =
     (case ext2fs_extent_get op x of
        (Inl e, x) \<Rightarrow> (if e = none then Inr None else Inl e, x)
      | (Inr extent, x) \<Rightarrow> (Inr (Some extent), x))"

text \<open>A block one past the extent, or one before it, that extends it; \<open>max_len\<close> is an \<open>int\<close>.\<close>

definition follows :: "u64 \<Rightarrow> u64 \<Rightarrow> bool \<Rightarrow> ext2fs_extent \<Rightarrow> bool" where
  "follows logical physical uninit extent \<longleftrightarrow>
     logical = e_lblk extent + ucast (e_len extent) \<and> physical = e_pblk extent + ucast (e_len extent) \<and>
     uninit = is_uninit extent"

definition precedes :: "u64 \<Rightarrow> u64 \<Rightarrow> bool \<Rightarrow> ext2fs_extent \<Rightarrow> bool" where
  "precedes logical physical uninit extent \<longleftrightarrow>
     logical = e_lblk extent - 1 \<and> physical = e_pblk extent - 1 \<and> uninit = is_uninit extent"

definition has_room :: "int \<Rightarrow> ext2fs_extent \<Rightarrow> bool" where
  "has_room max_len extent \<longleftrightarrow> sint (e_len extent) < max_len - 1"

definition grow_left :: "ext2fs_extent \<Rightarrow> ext2fs_extent" where
  "grow_left e = e\<lparr>e_len := e_len e + 1, e_lblk := e_lblk e - 1, e_pblk := e_pblk e - 1\<rparr>"

definition grow_right :: "ext2fs_extent \<Rightarrow> ext2fs_extent" where
  "grow_right e = e\<lparr>e_len := e_len e + 1\<rparr>"

text \<open>Replaces a neighbour after going to it.\<close>

definition replace_at :: "u32 \<Rightarrow> (ext2fs_extent \<Rightarrow> ext2fs_extent) \<Rightarrow> 'd extent_handle \<Rightarrow> unit result \<times> 'd extent_handle" where
  "replace_at op f x =
     (case ext2fs_extent_get op x of
        (Inl e, x) \<Rightarrow> (Inl e, x) | (Inr extent, x) \<Rightarrow> ext2fs_extent_replace (f extent) x)"

section \<open>The cases\<close>

definition map_unmapped :: "u64 \<Rightarrow> u64 \<Rightarrow> bool \<Rightarrow> int \<Rightarrow> ext2fs_extent \<Rightarrow> ext2fs_extent option \<Rightarrow> ext2fs_extent \<Rightarrow>
    'd extent_handle \<Rightarrow> unit result \<times> 'd extent_handle" where
  "map_unmapped logical physical new_uninit max_len extent next newextent x =
     (case (if follows logical physical new_uninit extent \<and> has_room max_len extent then
              ext2fs_extent_replace (grow_right extent) x
            else if precedes logical physical new_uninit extent \<and> has_room max_len extent then
              ext2fs_extent_replace (grow_left extent) x
            else if (case next of Some nx \<Rightarrow> precedes logical physical new_uninit nx \<and> has_room max_len nx | None \<Rightarrow> False) then
              replace_at EXT2_EXTENT_NEXT_LEAF grow_left x
            else if logical < e_lblk extent then ext2fs_extent_insert 0 newextent x
            else ext2fs_extent_insert EXT2_EXTENT_INSERT_AFTER newextent x) of
        (Inl e, x) \<Rightarrow> (Inl e, x)
      | (Inr _, x) \<Rightarrow> ext2fs_extent_fix_parents x)"

definition map_only :: "u64 \<Rightarrow> ext2fs_extent \<Rightarrow> 'd extent_handle \<Rightarrow> unit result \<times> 'd extent_handle" where
  "map_only physical newextent x =
     (if physical \<noteq> 0 then ext2fs_extent_replace newextent x
      else case ext2fs_extent_delete 0 x of
        (Inl e, x) \<Rightarrow> (Inl e, x)
      | (Inr _, x) \<Rightarrow>
          (case ext2fs_extent_fix_parents x of
             (Inl e, x) \<Rightarrow> (if e = EXT2_ET_NO_CURRENT_NODE then Inr () else Inl e, x)
           | (Inr _, x) \<Rightarrow> (Inr (), x)))"

definition map_last :: "u64 \<Rightarrow> u64 \<Rightarrow> bool \<Rightarrow> int \<Rightarrow> ext2fs_extent \<Rightarrow> ext2fs_extent option \<Rightarrow> ext2fs_extent \<Rightarrow>
    'd extent_handle \<Rightarrow> unit result \<times> 'd extent_handle" where
  "map_last logical physical new_uninit max_len extent next newextent x =
     (case (if physical = 0 then (Inr extent, x)
            else
              case (if (case next of Some nx \<Rightarrow> precedes logical physical new_uninit nx \<and> has_room max_len nx | None \<Rightarrow> False)
                    then replace_at EXT2_EXTENT_NEXT_LEAF grow_left x
                    else ext2fs_extent_insert EXT2_EXTENT_INSERT_AFTER newextent x) of
                (Inl e, x) \<Rightarrow> (Inl e, x)
              | (Inr _, x) \<Rightarrow> ext2fs_extent_get EXT2_EXTENT_PREV_LEAF x) of
        (Inl e, x) \<Rightarrow> (Inl e, x)
      | (Inr extent, x) \<Rightarrow> ext2fs_extent_replace (extent\<lparr>e_len := e_len extent - 1\<rparr>) x)"

definition map_first :: "u64 \<Rightarrow> u64 \<Rightarrow> bool \<Rightarrow> int \<Rightarrow> ext2fs_extent \<Rightarrow> ext2fs_extent option \<Rightarrow> ext2fs_extent \<Rightarrow>
    'd extent_handle \<Rightarrow> unit result \<times> 'd extent_handle" where
  "map_first logical physical new_uninit max_len extent prev newextent x =
     (case (if physical = 0 then (Inr extent, x)
            else
              case (if (case prev of Some pv \<Rightarrow> follows logical physical new_uninit pv \<and> has_room max_len pv | None \<Rightarrow> False)
                    then replace_at EXT2_EXTENT_PREV_LEAF grow_right x
                    else ext2fs_extent_insert 0 newextent x) of
                (Inl e, x) \<Rightarrow> (Inl e, x)
              | (Inr _, x) \<Rightarrow> ext2fs_extent_get EXT2_EXTENT_NEXT_LEAF x) of
        (Inl e, x) \<Rightarrow> (Inl e, x)
      | (Inr extent, x) \<Rightarrow>
          ext2fs_extent_replace
            (extent\<lparr>e_pblk := e_pblk extent + 1, e_lblk := e_lblk extent + 1, e_len := e_len extent - 1\<rparr>) x)"

definition map_middle :: "u64 \<Rightarrow> u64 \<Rightarrow> ext2fs_extent \<Rightarrow> ext2fs_extent \<Rightarrow> 'd extent_handle \<Rightarrow> unit result \<times> 'd extent_handle" where
  "map_middle logical physical extent newextent x =
     (let orig_length = e_len extent;
          extent = extent\<lparr>e_len := ucast (logical - e_lblk extent)\<rparr>
      in
      case ext2fs_extent_replace extent x of
        (Inl e, x) \<Rightarrow> (Inl e, x)
      | (Inr _, x) \<Rightarrow>
          (case (if physical \<noteq> 0 then ext2fs_extent_insert EXT2_EXTENT_INSERT_AFTER newextent x else (Inr (), x)) of
             (Inl e, x) \<Rightarrow> (Inl e, x)
           | (Inr _, x) \<Rightarrow>
               let skip = e_len extent + 1 in
               ext2fs_extent_insert EXT2_EXTENT_INSERT_AFTER
                 (extent\<lparr>e_pblk := e_pblk extent + ucast skip, e_lblk := e_lblk extent + ucast skip,
                         e_len := orig_length - e_len extent - 1\<rparr>) x))"

section \<open>Mapping a block\<close>

text \<open>
  \<open>newextent\<close> is a local variable that is only filled when a block is mapped; \<open>junk\<close> is what
  the stack holds there. The comparison with the extent at the block uses the \<open>retval\<close> of the last
  \<open>ext2fs_extent_goto\<close>.
\<close>

definition set_bmap_at :: "u64 \<Rightarrow> u64 \<Rightarrow> bool \<Rightarrow> ext2fs_extent \<Rightarrow> 'd extent_handle \<Rightarrow> unit result \<times> 'd extent_handle" where
  "set_bmap_at logical physical new_uninit newextent x =
     (let max_len = (if new_uninit then 0x7FFF else 0x8000) in
      case ext2fs_extent_goto logical x of (r, x) \<Rightarrow>
      if r \<noteq> Inr () \<and> r \<noteq> Inl EXT2_ET_EXTENT_NOT_FOUND then (r, x)
      else let mapped = (r = Inr ()) in
      if \<not> mapped \<and> physical = 0 then (Inr (), x)
      else case ext2fs_extent_get EXT2_EXTENT_CURRENT x of
        (Inl e, x) \<Rightarrow> (Inl e, x)
      | (Inr extent, x) \<Rightarrow>
        (case neighbour EXT2_EXTENT_NEXT_LEAF EXT2_ET_EXTENT_NO_NEXT x of
           (Inl e, x) \<Rightarrow> (Inl e, x)
         | (Inr next, x) \<Rightarrow>
        (case ext2fs_extent_goto logical x of (r, x) \<Rightarrow>
           if r \<noteq> Inr () \<and> r \<noteq> Inl EXT2_ET_EXTENT_NOT_FOUND then (r, x)
           else
        (case neighbour EXT2_EXTENT_PREV_LEAF EXT2_ET_EXTENT_NO_PREV x of
           (Inl e, x) \<Rightarrow> (Inl e, x)
         | (Inr prev, x) \<Rightarrow>
        (case ext2fs_extent_goto logical x of (r, x) \<Rightarrow>
           if r \<noteq> Inr () \<and> r \<noteq> Inl EXT2_ET_EXTENT_NOT_FOUND then (r, x)
           else if mapped \<and> new_uninit = is_uninit extent \<and> e_pblk extent + (logical - e_lblk extent) = physical then (r, x)
           else if \<not> mapped then map_unmapped logical physical new_uninit max_len extent next newextent x
           else if logical = e_lblk extent \<and> e_len extent = 1 then map_only physical newextent x
           else if logical = e_lblk extent + ucast (e_len extent) - 1 then
             map_last logical physical new_uninit max_len extent next newextent x
           else if logical = e_lblk extent then
             map_first logical physical new_uninit max_len extent prev newextent x
           else map_middle logical physical extent newextent x)))))"

definition ext2fs_extent_set_bmap :: "ext2fs_extent \<Rightarrow> u64 \<Rightarrow> u64 \<Rightarrow> u32 \<Rightarrow> 'd extent_handle \<Rightarrow> unit result \<times> 'd extent_handle" where
  "ext2fs_extent_set_bmap junk logical physical flags x =
     (if fs_flags (xh_fs x) AND EXT2_FLAG_RW = 0 then (Inl EXT2_ET_RO_FILSYS, x)
      else
        let new_uninit = (flags AND EXT2_EXTENT_SET_BMAP_UNINIT \<noteq> 0);
            newextent = (if physical \<noteq> 0 then
                           \<lparr>e_pblk = physical, e_lblk = logical, e_len = 1,
                            e_flags = EXT2_EXTENT_FLAGS_LEAF OR (if new_uninit then EXT2_EXTENT_FLAGS_UNINIT else 0)\<rparr>
                         else junk)
        in
        if xh_max_depth x = 0 \<and> ep_entries (cur_path x) = 0 then ext2fs_extent_insert 0 newextent x
        else
          case (case ext2fs_extent_get EXT2_EXTENT_CURRENT x of
                  (Inl e, x) \<Rightarrow> (if e = EXT2_ET_NO_CURRENT_NODE then Inr 0 else Inl e, x)
                | (Inr extent, x) \<Rightarrow> (Inr (e_lblk extent), x)) of
            (Inl e, x) \<Rightarrow> (Inl e, x)
          | (Inr orig_lblk, x) \<Rightarrow>
              let orig_height = int (xh_max_depth x) - int (xh_level x);
                  (r, x) = set_bmap_at logical physical new_uninit newextent x;
                  orig_height = min orig_height (int (xh_max_depth x))
              in (r, snd (extent_goto orig_height orig_lblk x)))"

end
