(* ===== verification/Extent_Leaf.thy ===== *)
theory Extent_Leaf
  imports Extent_Bmap
begin

text \<open>
  The entries of a leaf as extents over the natural numbers, and what the stores of
  \<open>Extent_Ops\<close> do to them.
\<close>

section \<open>Fields of a node\<close>

lemma le_put_same:
  "p + 2 \<le> length buf \<Longrightarrow> le16 (put_le16 buf p v) p = v"
  "p + 4 \<le> length buf \<Longrightarrow> le32 (put_le32 buf p w) p = w"
  by (simp_all add: le16_def put_le16_def le32_def put_le32_def ld16_st16 ld32_st32 swab16_swab16 swab32_swab32)

lemma length_put_le [simp]:
  "p + 2 \<le> length buf \<Longrightarrow> length (put_le16 buf p v) = length buf"
  "p + 4 \<le> length buf \<Longrightarrow> length (put_le32 buf p w) = length buf"
  by (simp_all add: put_le16_def put_le32_def)

lemma le_agree:
  "agree A B a b \<Longrightarrow> a \<le> p \<Longrightarrow> p + 2 \<le> b \<Longrightarrow> le16 A p = le16 B p"
  "agree A B a b \<Longrightarrow> a \<le> p \<Longrightarrow> p + 4 \<le> b \<Longrightarrow> le32 A p = le32 B p"
  by (simp_all add: le16_def le32_def agree_ld)

lemma agree_put_le:
  "p + 2 \<le> length buf \<Longrightarrow> b \<le> p \<or> p + 2 \<le> a \<Longrightarrow> agree (put_le16 buf p v) buf a b"
  "p + 4 \<le> length buf \<Longrightarrow> b \<le> p \<or> p + 4 \<le> a \<Longrightarrow> agree (put_le32 buf p w) buf a b"
  by (simp_all add: put_le16_def put_le32_def agree_stores)

lemma le_put_other:
  assumes "p + 2 \<le> q \<or> q + 2 \<le> p" "q + 2 \<le> length buf"
  shows "le16 (put_le16 buf q v) p = le16 buf p"
  by (rule le_agree(1) [where a = p and b = "p + 2", OF agree_put_le(1)]) (use assms in auto)

lemma le16_put32: "p + 2 \<le> q \<or> q + 4 \<le> p \<Longrightarrow> q + 4 \<le> length buf \<Longrightarrow> le16 (put_le32 buf q w) p = le16 buf p"
  by (rule le_agree(1) [where a = p and b = "p + 2", OF agree_put_le(2)]) auto

lemma le32_put16: "p + 4 \<le> q \<or> q + 2 \<le> p \<Longrightarrow> q + 2 \<le> length buf \<Longrightarrow> le32 (put_le16 buf q v) p = le32 buf p"
  by (rule le_agree(2) [where a = p and b = "p + 4", OF agree_put_le(1)]) auto

lemma le32_put32: "p + 4 \<le> q \<or> q + 4 \<le> p \<Longrightarrow> q + 4 \<le> length buf \<Longrightarrow> le32 (put_le32 buf q w) p = le32 buf p"
  by (rule le_agree(2) [where a = p and b = "p + 4", OF agree_put_le(2)]) auto

lemmas le_put = le_put_same le_put_other le16_put32 le32_put16 le32_put32

lemma bytes_of_words_of: "length buf mod 4 = 0 \<Longrightarrow> bytes_of (words_of buf) = buf"
proof (induction "length buf div 4" arbitrary: buf)
  case 0
  then have "buf = []" by auto
  then show ?case by (simp add: words_of_def bytes_of_def)
next
  case (Suc n)
  then have "4 \<le> length buf" by linarith
  then obtain a b c d xs where b: "buf = a # b # c # d # xs"
    by (metis (no_types, lifting) Suc_le_length_iff numeral_eq_Suc pred_numeral_simps(2,3) eval_nat_numeral(2) le0 semiring_norm(26,27))
  have w: "mem_be32 (ld32 buf 0) = [a, b, c, d]" by (simp add: ld_bytes b)
  then have "buf = mem_be32 (ld32 buf 0) @ xs" by (simp add: b)
  then have "words_of buf = ld32 buf 0 # words_of xs" using words_of_Cons [of "ld32 buf 0" xs] w by simp
  moreover have "n = length xs div 4" "length xs mod 4 = 0" using Suc(2,3) b by auto
  then have "bytes_of (words_of xs) = xs" by (rule Suc(1))
  ultimately show ?case by (simp add: bytes_of_def w) (simp add: b)
qed

section \<open>Extents\<close>

text \<open>First logical block, number of blocks, first physical block, whether it is not initialized.\<close>

type_synonym ext = "nat \<times> nat \<times> nat \<times> bool"

definition ext_len :: "u16 \<Rightarrow> nat" where "ext_len l = (if unat l > 0x8000 then unat l - 0x8000 else unat l)"

definition leaf_at :: "u8 list \<Rightarrow> nat \<Rightarrow> ext" where
  "leaf_at buf i =
     (unat (ee_block buf (int i)), ext_len (ee_len buf (int i)), unat (ee_start buf (int i)), unat (ee_len buf (int i)) > 0x8000)"

definition leaves :: "u8 list \<Rightarrow> nat \<Rightarrow> ext list" where "leaves buf n = map (leaf_at buf) [0..<n]"

text \<open>What the caller sees, whether the entry was visited before left aside.\<close>

definition is_ext :: "ext2fs_extent \<Rightarrow> ext \<Rightarrow> bool" where
  "is_ext e = (\<lambda>(b, n, s, u). unat (e_lblk e) = b \<and> unat (e_len e) = n \<and> unat (e_pblk e) = s \<and> is_uninit e = u)"

text \<open>An extent that can be stored, and does not start at the block 0, which stands for no block.\<close>

definition ext_ok :: "ext \<Rightarrow> bool" where
  "ext_ok = (\<lambda>(b, n, s, u). 0 < n \<and> 0 < s \<and> n \<le> (if u then 0x7FFF else 0x8000) \<and> b + n \<le> 2 ^ 32 \<and> s + n \<le> 2 ^ 48)"

lemma entry_off_nat [simp]: "entry_off (int i) = 12 + 12 * i"
  by (simp add: entry_off_def)

lemma entry_in_nat: "entry_in buf (int i) (int n) \<longleftrightarrow> 12 + 12 * (i + n) \<le> length buf"
  by (simp add: entry_in_def) linarith

lemma leaf_at_cong:
  assumes "\<And>j. j < 12 \<Longrightarrow> A ! (12 + 12 * i + j) = B ! (12 + 12 * k + j)"
  shows "leaf_at A i = leaf_at B k"
proof -
  have "le32 A (12 + 12 * i) = le32 B (12 + 12 * k)"
    using assms [of 0] assms [of 1] assms [of 2] assms [of 3] by (simp add: le32_def ld32_def ld16_def add.assoc)
  moreover have "le32 A (12 + 12 * i + 8) = le32 B (12 + 12 * k + 8)"
    using assms [of 8] assms [of 9] assms [of 10] assms [of 11] by (simp add: le32_def ld32_def ld16_def add.assoc)
  moreover have "le16 A (12 + 12 * i + 4) = le16 B (12 + 12 * k + 4)" "le16 A (12 + 12 * i + 6) = le16 B (12 + 12 * k + 6)"
    using assms [of 4] assms [of 5] assms [of 6] assms [of 7] by (simp_all add: le16_def ld16_def add.assoc)
  ultimately show ?thesis by (simp add: leaf_at_def ee_block_def ee_len_def ee_start_def)
qed

lemma leaf_at_agree: "agree A B (12 + 12 * i) (24 + 12 * i) \<Longrightarrow> leaf_at A i = leaf_at B i"
  by (rule leaf_at_cong) (simp add: agree_def)

section \<open>Storing an extent\<close>

lemma unat_ucast_mod: "unat (ucast (x :: 'a :: len word) :: 'b :: len word) = unat x mod 2 ^ LENGTH('b)"
  by (rule trans [OF unsigned_ucast_eq]) (rule take_bit_eq_mod)

lemma split_start:
  fixes p :: u64 assumes "unat p < 2 ^ 48"
  shows "ucast (ucast (p AND 0xFFFFFFFF) :: u32) + push_bit 32 (ucast (ucast (drop_bit 32 p) :: u16)) = p"
proof -
  have m: "p AND 0xFFFFFFFF = take_bit 32 p" by (simp add: take_bit_eq_mask mask_eq_exp_minus_1)
  have lo: "unat (ucast (ucast (p AND 0xFFFFFFFF) :: u32) :: u64) = unat p mod 2 ^ 32"
    unfolding m unat_ucast_mod unsigned_take_bit_eq by (simp add: take_bit_eq_mod)
  have d: "unat p div 2 ^ 32 < 2 ^ 16" using assms by (simp add: less_mult_imp_div_less)
  have hi: "unat (ucast (ucast (drop_bit 32 p) :: u16) :: u64) = unat p div 2 ^ 32"
  proof -
    have q: "unat (drop_bit 32 p) = unat p div 2 ^ 32" by (simp add: drop_bit_eq_div unat_div)
    then show ?thesis unfolding unat_ucast_mod q using d by simp
  qed
  have "unat (push_bit 32 (ucast (ucast (drop_bit 32 p) :: u16) :: u64)) = unat p div 2 ^ 32 * 2 ^ 32"
    using d unfolding push_bit_eq_mult by (subst unat_mult_lem [THEN iffD1]) (simp_all only: hi, simp_all)
  then have "unat (ucast (ucast (p AND 0xFFFFFFFF) :: u32) + push_bit 32 (ucast (ucast (drop_bit 32 p) :: u16)) :: u64) =
      unat p mod 2 ^ 32 + unat p div 2 ^ 32 * 2 ^ 32"
    using assms lo by (subst unat_add_lem [THEN iffD1]) simp_all
  then show ?thesis by (simp add: word_unat_eq_iff)
qed

lemma store_leaf_ok:
  assumes e: "is_ext e X" "ext_ok X" and i: "24 + 12 * i \<le> length buf"
  shows "\<exists>buf'. store_leaf buf (int i) e = (Inr (), buf') \<and> length buf' = length buf \<and> leaf_at buf' i = X \<and>
    (\<forall>k. k \<noteq> i \<longrightarrow> 24 + 12 * k \<le> length buf \<longrightarrow> leaf_at buf' k = leaf_at buf k) \<and> agree buf' buf 0 12"
proof -
  obtain b n s u where X: "X = (b, n, s, u)" by (cases X)
  define l where "l = (if u then e_len e + EXT_INIT_MAX_LEN else e_len e)"
  define buf1 where "buf1 = put_le32 buf (12 + 12 * i) (ucast (e_lblk e))"
  define buf2 where "buf2 = put_le32 buf1 (12 + 12 * i + 8) (ucast (e_pblk e AND 0xFFFFFFFF))"
  define buf3 where "buf3 = put_le16 buf2 (12 + 12 * i + 6) (ucast (drop_bit 32 (e_pblk e)))"
  define buf4 where "buf4 = put_le16 buf3 (12 + 12 * i + 4) (ucast l)"
  note defs = buf4_def buf3_def buf2_def buf1_def
  have ex: "unat (e_lblk e) = b" "unat (e_len e) = n" "unat (e_pblk e) = s" "(e_flags e AND EXT2_EXTENT_FLAGS_UNINIT \<noteq> 0) = u"
    using e(1) by (simp_all add: is_ext_def X is_uninit_def)
  have ok: "0 < n" "n \<le> (if u then 0x7FFF else 0x8000)" "b + n \<le> 2 ^ 32" "s + n \<le> 2 ^ 48" using e(2) by (simp_all add: ext_ok_def X)
  have run: "store_leaf buf (int i) e = (Inr (), buf4)"
    using ok(2) ex(2) unfolding store_leaf_def Let_def entry_off_nat ex(4)
    by (cases u) (simp_all add: defs l_def word_less_nat_alt EXT_UNINIT_MAX_LEN_def EXT_INIT_MAX_LEN_def)
  have len: "length buf1 = length buf" "length buf2 = length buf" "length buf3 = length buf" "length buf4 = length buf"
    using i by (simp_all add: defs)
  have frame: "agree buf4 buf a c" if "c \<le> 12 + 12 * i \<or> 24 + 12 * i \<le> a" for a c
  proof -
    have "agree buf1 buf a c" "agree buf2 buf1 a c" "agree buf3 buf2 a c" "agree buf4 buf3 a c"
      unfolding defs using i that by (auto intro!: agree_put_le)
    then show ?thesis by (blast intro: agree_trans)
  qed
  have l: "unat (ucast l :: u16) = unat l" "ext_len (ucast l) = n" "(unat l > 0x8000) = u"
  proof -
    have "unat l = (if u then n + 0x8000 else n)"
      using ok(2) ex(2) unfolding l_def by (auto simp: EXT_INIT_MAX_LEN_def unat_word_ariths)
    then show "unat (ucast l :: u16) = unat l" "ext_len (ucast l) = n" "(unat l > 0x8000) = u"
      using ok(1,2) by (auto simp: unat_ucast_mod ext_len_def split: if_splits)
  qed
  have f: "le32 buf4 (12 + 12 * i) = ucast (e_lblk e)" "le16 buf4 (12 + 12 * i + 4) = ucast l"
    "le16 buf4 (12 + 12 * i + 6) = ucast (drop_bit 32 (e_pblk e))" "le32 buf4 (12 + 12 * i + 8) = ucast (e_pblk e AND 0xFFFFFFFF)"
    using i len by (simp_all add: defs le_put)
  have "leaf_at buf4 i = X"
  proof -
    have "unat (ucast (e_lblk e) :: u32) = b" using ok(1,3) ex(1) by (simp add: unat_ucast_mod)
    moreover have "ee_start buf4 (int i) = e_pblk e"
      using split_start [of "e_pblk e"] ok(1,4) ex(3) by (simp only: ee_start_def entry_off_nat f)
    ultimately show ?thesis using ex l unfolding leaf_at_def ee_block_def ee_len_def entry_off_nat f X by simp
  qed
  moreover have "leaf_at buf4 k = leaf_at buf k" if "k \<noteq> i" for k
    by (rule leaf_at_agree, rule frame) (use that in linarith)
  moreover have "agree buf4 buf 0 12" by (rule frame) simp
  ultimately show ?thesis using run len(4) by blast
qed

text \<open>Room before the entry \<open>i\<close>, and the entry taken out.\<close>

lemma move_entries_nth:
  assumes "12 + 12 * (i + m) \<le> length buf" "12 + 12 * (j + m) \<le> length buf"
  shows "length (move_entries buf (int j) (int i) (int m)) = length buf"
    "move_entries buf (int j) (int i) (int m) ! q =
       (if 12 + 12 * j \<le> q \<and> q < 12 + 12 * (j + m) then buf ! (q + 12 * i - 12 * j) else buf ! q)"
proof -
  have n: "nat (12 * int m) = 12 * m" by simp
  have l: "length (take (12 * m) (drop (12 + 12 * i) buf)) = 12 * m" using assms(1) by simp
  show "length (move_entries buf (int j) (int i) (int m)) = length buf"
    using assms(2) l by (simp add: move_entries_def n)
  show "move_entries buf (int j) (int i) (int m) ! q =
       (if 12 + 12 * j \<le> q \<and> q < 12 + 12 * (j + m) then buf ! (q + 12 * i - 12 * j) else buf ! q)"
    using assms l unfolding move_entries_def n entry_off_nat by (subst nth_put_bytes) (auto simp: algebra_simps)
qed

lemma leaf_at_gap:
  assumes "12 + 12 * (i + m + 1) \<le> length buf"
  shows "leaf_at (move_entries buf (int i + 1) (int i) (int m)) k =
    (if i < k \<and> k \<le> i + m then leaf_at buf (k - 1) else leaf_at buf k)"
proof -
  have e: "int i + 1 = int (i + 1)" by simp
  note nth = move_entries_nth(2) [of i m buf "i + 1", folded e]
  show ?thesis
  proof (cases "i < k \<and> k \<le> i + m")
    case True
    then have "leaf_at (move_entries buf (int i + 1) (int i) (int m)) k = leaf_at buf (k - 1)"
      by (intro leaf_at_cong) (subst nth, use assms in \<open>auto simp: algebra_simps intro: arg_cong [where f = "(!) buf"]\<close>)
    then show ?thesis using True by simp
  next
    case False
    then have "leaf_at (move_entries buf (int i + 1) (int i) (int m)) k = leaf_at buf k"
      by (intro leaf_at_cong) (subst nth, use assms in auto)
    then show ?thesis unfolding if_not_P [OF False] .
  qed
qed

lemma leaf_at_close:
  assumes "12 + 12 * (i + m + 1) \<le> length buf"
  shows "leaf_at (move_entries buf (int i) (int i + 1) (int m)) k =
    (if i \<le> k \<and> k < i + m then leaf_at buf (k + 1) else leaf_at buf k)"
proof -
  have e: "int i + 1 = int (i + 1)" by simp
  note nth = move_entries_nth(2) [of "i + 1" m buf i, folded e]
  show ?thesis
  proof (cases "i \<le> k \<and> k < i + m")
    case True
    then have "leaf_at (move_entries buf (int i) (int i + 1) (int m)) k = leaf_at buf (k + 1)"
      by (intro leaf_at_cong) (subst nth, use assms in \<open>auto simp: algebra_simps intro: arg_cong [where f = "(!) buf"]\<close>)
    then show ?thesis using True by simp
  next
    case False
    then have "leaf_at (move_entries buf (int i) (int i + 1) (int m)) k = leaf_at buf k"
      by (intro leaf_at_cong) (subst nth, use assms in auto)
    then show ?thesis unfolding if_not_P [OF False] .
  qed
qed

end
