(* ===== verification/Extent_Root.thy ===== *)
theory Extent_Root
  imports Extent_Leaf
begin

text \<open>
  A tree that is only a root: the extents are in the inode. The operations of the handle are those
  of a list with a place in it.
\<close>

section \<open>The handle as a list with a place\<close>

definition root_list :: "'d extent_handle \<Rightarrow> ext list \<Rightarrow> bool" where
  "root_list x es \<longleftrightarrow>
     xh_level x = 0 \<and> xh_max_depth x = 0 \<and> xh_path x \<noteq> [] \<and> ep_entries (cur_path x) = int (length es) \<and>
     ep_max_entries (cur_path x) = 4 \<and> length es \<le> 4 \<and> length (i_block (xh_inode x)) = 15 \<and>
     leaves (cur_node x) (length es) = es \<and> (\<forall>e \<in> set es. ext_ok e)"

text \<open>The current entry, if any, is one of the list.\<close>

definition root_some :: "'d extent_handle \<Rightarrow> ext list \<Rightarrow> bool" where
  "root_some x es \<longleftrightarrow> root_list x es \<and>
     (case ep_curr (cur_path x) of None \<Rightarrow> ep_left (cur_path x) = int (length es) | Some i \<Rightarrow> 0 \<le> i \<and> i < int (length es))"

definition root_at :: "'d extent_handle \<Rightarrow> ext list \<Rightarrow> nat \<Rightarrow> bool" where
  "root_at x es i \<longleftrightarrow> root_list x es \<and> i < length es \<and> ep_curr (cur_path x) = Some (int i) \<and>
     ep_left (cur_path x) = int (length es) - 1 - int i"

text \<open>What a walk over the root may change.\<close>

definition moved :: "'d extent_handle \<Rightarrow> 'd extent_handle \<Rightarrow> bool" where
  "moved x y \<longleftrightarrow> (\<exists>ps. y = x\<lparr>xh_path := ps\<rparr>)"

lemma moved_refl [simp]: "moved x x" by (auto simp: moved_def intro: exI [of _ "xh_path x"])

lemma movedD:
  assumes "moved x y"
  shows "xh_heap y = xh_heap x" "xh_name y = xh_name x" "xh_fs y = xh_fs x" "xh_io y = xh_io x" "xh_ino y = xh_ino x"
    "xh_inode y = xh_inode x" "xh_level y = xh_level x" "xh_max_depth y = xh_max_depth x"
proof -
  obtain ps where y: "y = x\<lparr>xh_path := ps\<rparr>" using assms by (auto simp: moved_def)
  show "xh_heap y = xh_heap x" "xh_name y = xh_name x" "xh_fs y = xh_fs x" "xh_io y = xh_io x" "xh_ino y = xh_ino x"
    "xh_inode y = xh_inode x" "xh_level y = xh_level x" "xh_max_depth y = xh_max_depth x" by (simp_all add: y)
qed

lemma moved_trans: "moved x y \<Longrightarrow> moved y z \<Longrightarrow> moved x z"
  by (auto simp: moved_def)

lemma moved_upd [simp]: "moved x (upd_path f x)" by (auto simp: moved_def upd_path_def)

lemma root_at_some: "root_at x es i \<Longrightarrow> root_some x es"
  by (auto simp: root_at_def root_some_def)

lemma root_some_list: "root_some x es \<Longrightarrow> root_list x es"
  by (simp add: root_some_def)

lemma cur_upd [simp]:
  "xh_level x < length (xh_path x) \<Longrightarrow> cur_path (upd_path f x) = f (cur_path x)"
  "xh_level (upd_path f x) = xh_level x" "xh_max_depth (upd_path f x) = xh_max_depth x"
  "xh_inode (upd_path f x) = xh_inode x" "length (xh_path (upd_path f x)) = length (xh_path x)"
  "xh_path (upd_path f x) = [] \<longleftrightarrow> xh_path x = []"
  by (simp_all add: cur_path_def upd_path_def)

lemma root_cur_node: "xh_level x = 0 \<Longrightarrow> cur_node x = bytes_of (i_block (xh_inode x))"
  by (simp add: cur_node_def node_at_def)

lemma root_upd:
  assumes "root_list x es" "\<And>p. ep_entries (f p) = ep_entries p" "\<And>p. ep_max_entries (f p) = ep_max_entries p"
  shows "root_list (upd_path f x) es"
  using assms unfolding root_list_def by (auto simp: root_cur_node)

section \<open>One move\<close>

lemma root_extent_at:
  assumes r: "root_list x es" and i: "i < length es"
  shows "\<exists>e. extent_at x (int i) = Inr e \<and> is_ext e (es ! i)"
proof -
  have l: "length (cur_node x) = 60" "length es \<le> 4" "xh_level x = xh_max_depth x" "leaves (cur_node x) (length es) = es"
    using r by (auto simp: root_list_def root_cur_node)
  let ?l = "ee_len (cur_node x) (int i)" and ?s = "if ep_visit_num (cur_path x) \<noteq> 0 then EXT2_EXTENT_FLAGS_SECOND_VISIT else 0"
  have en: "entry_in (cur_node x) (int i) 1" using entry_in_nat [of "cur_node x" i 1] i l by simp
  have e: "es ! i = leaf_at (cur_node x) i" using i l(4) by (metis add_0 diff_zero leaves_def length_upt nth_map nth_upt)
  have b: "unat ?l < 2 ^ 16" using unsigned_less [of ?l, where 'a = nat] by simp
  have u: "unat (ucast ?l :: u32) = unat ?l" using b by (simp add: unat_ucast_mod)
  have big: "(ucast ?l :: u32) > EXT_INIT_MAX_LEN \<longleftrightarrow> unat ?l > 0x8000" by (simp add: word_less_nat_alt EXT_INIT_MAX_LEN_def u)
  have sub: "unat (ucast ?l - EXT_INIT_MAX_LEN :: u32) = unat ?l - 0x8000" if "unat ?l > 0x8000"
    using that by (subst unat_sub) (simp_all add: word_le_nat_alt EXT_INIT_MAX_LEN_def u)
  have f: "is_uninit \<lparr>e_pblk = a, e_lblk = c, e_len = d, e_flags = EXT2_EXTENT_FLAGS_LEAF OR (if v then EXT2_EXTENT_FLAGS_UNINIT else 0) OR ?s\<rparr> = v"
    for a c d v
    by (auto simp: is_uninit_def bit.conj_disj_distrib2 EXT2_EXTENT_FLAGS_LEAF_def EXT2_EXTENT_FLAGS_UNINIT_def EXT2_EXTENT_FLAGS_SECOND_VISIT_def)
  show ?thesis
    using en l(3) by (simp add: extent_at_def Let_def is_ext_def leaf_at_def ext_len_def big e f u sub)
qed

lemma extent_get_once:
  "ext2fs_extent_get op x =
     (case choose_op (op AND EXT2_EXTENT_MOVE_MASK) x of
        (Inl e, y) \<Rightarrow> (Inl e, y)
      | (Inr mv, y) \<Rightarrow>
          (case extent_move (op AND EXT2_EXTENT_MOVE_MASK) mv y of
             (Inl e, z) \<Rightarrow> (Inl e, z)
           | (Inr None, z) \<Rightarrow> (Inl EXT2_ET_NO_CURRENT_NODE, z)
           | (Inr (Some ix), z) \<Rightarrow>
               (case extent_at z ix of
                  Inl e \<Rightarrow> (Inl e, z)
                | Inr ext \<Rightarrow>
                    if move_again (op AND EXT2_EXTENT_MOVE_MASK) z
                    then extent_walk (2 * xh_max_depth x + 3) (op AND EXT2_EXTENT_MOVE_MASK) z else (Inr ext, z))))"
proof -
  have n: "2 * xh_max_depth x + 4 = Suc (2 * xh_max_depth x + 3)" by simp
  show ?thesis unfolding ext2fs_extent_get_def n extent_walk.simps extent_turn_def
    by (auto split: prod.splits sum.splits option.splits)
qed

text \<open>A move that ends at the entry \<open>ix\<close> of a leaf.\<close>

lemma extent_get_at:
  assumes "choose_op (op AND EXT2_EXTENT_MOVE_MASK) x = (Inr mv, x)"
    "extent_move (op AND EXT2_EXTENT_MOVE_MASK) mv x = (Inr (Some (int j)), y)" "root_list y es" "j < length es"
    "op AND EXT2_EXTENT_MOVE_MASK \<noteq> EXT2_EXTENT_LAST_LEAF"
  shows "\<exists>e. ext2fs_extent_get op x = (Inr e, y) \<and> is_ext e (es ! j)"
proof -
  obtain e where "extent_at y (int j) = Inr e" "is_ext e (es ! j)" using root_extent_at [OF assms(3,4)] by blast
  moreover have "\<not> move_again (op AND EXT2_EXTENT_MOVE_MASK) y" using assms(3,5) by (simp add: move_again_def root_list_def)
  ultimately show ?thesis unfolding extent_get_once assms(1,2) by (simp add: assms(2))
qed

lemma op_masks [simp]:
  "EXT2_EXTENT_CURRENT AND EXT2_EXTENT_MOVE_MASK = EXT2_EXTENT_CURRENT"
  "EXT2_EXTENT_ROOT AND EXT2_EXTENT_MOVE_MASK = EXT2_EXTENT_ROOT"
  "EXT2_EXTENT_NEXT_SIB AND EXT2_EXTENT_MOVE_MASK = EXT2_EXTENT_NEXT_SIB"
  "EXT2_EXTENT_PREV_SIB AND EXT2_EXTENT_MOVE_MASK = EXT2_EXTENT_PREV_SIB"
  "EXT2_EXTENT_NEXT_LEAF AND EXT2_EXTENT_MOVE_MASK = EXT2_EXTENT_NEXT_LEAF"
  "EXT2_EXTENT_PREV_LEAF AND EXT2_EXTENT_MOVE_MASK = EXT2_EXTENT_PREV_LEAF"
  "EXT2_EXTENT_LAST_SIB AND EXT2_EXTENT_MOVE_MASK = EXT2_EXTENT_LAST_SIB"
  by (simp_all add: extent_ops)

lemma choose_plain:
  assumes "op \<in> {EXT2_EXTENT_CURRENT, EXT2_EXTENT_ROOT, EXT2_EXTENT_NEXT_SIB, EXT2_EXTENT_PREV_SIB, EXT2_EXTENT_LAST_SIB}"
  shows "choose_op op x = (Inr op, x)"
  using assms by (auto simp: choose_op_def extent_ops)

lemma root_current:
  assumes "root_list x es" "ep_curr (cur_path x) = Some (int i)" "i < length es"
  shows "\<exists>e. ext2fs_extent_get EXT2_EXTENT_CURRENT x = (Inr e, x) \<and> is_ext e (es ! i)"
  by (rule extent_get_at [where mv = EXT2_EXTENT_CURRENT])
    (use assms in \<open>simp_all add: choose_plain extent_move_def\<close>, simp add: extent_ops)

lemma root_current_none:
  "ep_curr (cur_path x) = None \<Longrightarrow> ext2fs_extent_get EXT2_EXTENT_CURRENT x = (Inl EXT2_ET_NO_CURRENT_NODE, x)"
  by (simp add: extent_get_once choose_plain extent_move_def)

lemma root_level: "root_list x es \<Longrightarrow> xh_level x < length (xh_path x)" "root_list x es \<Longrightarrow> xh_level x = 0"
    "root_list x es \<Longrightarrow> xh_max_depth x = 0"
  by (simp_all add: root_list_def)

lemma next_sib_root:
  assumes "root_at x es i"
  shows "if i + 1 < length es then \<exists>y. next_sib x = (Inr (Some (int (i + 1))), y) \<and> root_at y es (i + 1) \<and> moved x y
    else next_sib x = (Inl EXT2_ET_EXTENT_NO_NEXT, x)"
  using assms root_level [of x es] root_upd [of x es] unfolding next_sib_def root_at_def
  by (auto simp: Let_def)

lemma root_next:
  assumes r: "root_at x es i" and op: "op = EXT2_EXTENT_NEXT_SIB \<or> op = EXT2_EXTENT_NEXT_LEAF"
  shows "if i + 1 < length es
    then \<exists>e y. ext2fs_extent_get op x = (Inr e, y) \<and> is_ext e (es ! (i + 1)) \<and> root_at y es (i + 1) \<and> moved x y
    else ext2fs_extent_get op x = (Inl EXT2_ET_EXTENT_NO_NEXT, x)"
proof -
  have left: "ep_left (cur_path x) > 0 \<longleftrightarrow> i + 1 < length es" "xh_level x = 0" "xh_max_depth x = 0"
    using r by (auto simp: root_at_def root_list_def)
  have c: "choose_op (op AND EXT2_EXTENT_MOVE_MASK) x =
      (if i + 1 < length es \<or> op = EXT2_EXTENT_NEXT_SIB then Inr EXT2_EXTENT_NEXT_SIB else Inl EXT2_ET_EXTENT_NO_NEXT, x)"
    using op left by (auto simp: choose_op_def extent_ops)
  have m: "extent_move orig EXT2_EXTENT_NEXT_SIB x = next_sib x" for orig
    by (simp add: extent_move_def extent_ops)
  show ?thesis
  proof (cases "i + 1 < length es")
    case True
    obtain y where y: "next_sib x = (Inr (Some (int (i + 1))), y)" "root_at y es (i + 1)" "moved x y"
      using next_sib_root [OF r] True by auto
    have "\<exists>e. ext2fs_extent_get op x = (Inr e, y) \<and> is_ext e (es ! (i + 1))"
    proof (rule extent_get_at [where mv = EXT2_EXTENT_NEXT_SIB])
      show "choose_op (op AND EXT2_EXTENT_MOVE_MASK) x = (Inr EXT2_EXTENT_NEXT_SIB, x)" using c True by simp
    qed (use m y op True in \<open>auto simp: root_at_def extent_ops\<close>)
    then show ?thesis using True y by auto
  next
    case False
    then have "next_sib x = (Inl EXT2_ET_EXTENT_NO_NEXT, x)" using next_sib_root [OF r] by auto
    then show ?thesis using False unfolding extent_get_once c by (simp add: m)
  qed
qed

lemma root_prev:
  assumes r: "root_at x es i" and op: "op = EXT2_EXTENT_PREV_SIB \<or> op = EXT2_EXTENT_PREV_LEAF"
  shows "if 0 < i
    then \<exists>e y. ext2fs_extent_get op x = (Inr e, y) \<and> is_ext e (es ! (i - 1)) \<and> root_at y es (i - 1) \<and> moved x y
    else ext2fs_extent_get op x = (Inl EXT2_ET_EXTENT_NO_PREV, x)"
proof -
  have left: "ep_left (cur_path x) < ep_entries (cur_path x) - 1 \<longleftrightarrow> 0 < i" "xh_level x = 0" "xh_max_depth x = 0"
    "ep_curr (cur_path x) = Some (int i)" "ep_left (cur_path x) + 1 \<ge> ep_entries (cur_path x) \<longleftrightarrow> i = 0"
    using r by (auto simp: root_at_def root_list_def)
  have c: "choose_op (op AND EXT2_EXTENT_MOVE_MASK) x =
      (if 0 < i \<or> op = EXT2_EXTENT_PREV_SIB then Inr EXT2_EXTENT_PREV_SIB else Inl EXT2_ET_EXTENT_NO_PREV, x)"
    using op left(1-3) by (auto simp: choose_op_def extent_ops)
  let ?y = "upd_path (\<lambda>p. p\<lparr>ep_curr := Some (int (i - 1)), ep_left := ep_left p + 1, ep_visit_num := ep_visit_num p\<rparr>) x"
  have m: "extent_move orig EXT2_EXTENT_PREV_SIB x =
      (if 0 < i then (Inr (Some (int (i - 1))), ?y) else (Inl EXT2_ET_EXTENT_NO_PREV, x))" for orig
    using left(2-5) unfolding extent_move_def by (simp add: extent_ops Let_def of_nat_diff)
  have y: "root_at ?y es (i - 1)" if "0 < i"
    using r that root_level [of x es] root_upd [of x es] unfolding root_at_def by (auto simp: of_nat_diff)
  show ?thesis
  proof (cases "0 < i")
    case True
    have "\<exists>e. ext2fs_extent_get op x = (Inr e, ?y) \<and> is_ext e (es ! (i - 1))"
    proof (rule extent_get_at [where mv = EXT2_EXTENT_PREV_SIB])
      show "choose_op (op AND EXT2_EXTENT_MOVE_MASK) x = (Inr EXT2_EXTENT_PREV_SIB, x)" using c True by simp
      show "extent_move (op AND EXT2_EXTENT_MOVE_MASK) EXT2_EXTENT_PREV_SIB x = (Inr (Some (int (i - 1))), ?y)" using m True by simp
    qed (use y op True in \<open>auto simp: root_at_def extent_ops\<close>)
    then show ?thesis using True y by auto
  next
    case False
    then show ?thesis unfolding extent_get_once c by (simp add: m)
  qed
qed

lemma root_first:
  assumes r: "root_list x es"
  shows "\<exists>y. moved x y \<and> root_list y es \<and>
    (if es = [] then ext2fs_extent_get EXT2_EXTENT_ROOT x = (Inl EXT2_ET_EXTENT_NO_NEXT, y) \<and> root_some y []
     else root_at y es 0 \<and> (\<exists>e. ext2fs_extent_get EXT2_EXTENT_ROOT x = (Inr e, y) \<and> is_ext e (es ! 0)))"
proof -
  let ?x = "upd_path (\<lambda>p. p\<lparr>ep_left := ep_entries p, ep_curr := None\<rparr>) x"
  have x0: "x\<lparr>xh_level := 0\<rparr> = x" using root_level(2) [OF r] by simp
  have m: "extent_move orig EXT2_EXTENT_ROOT x = next_sib ?x" for orig
    unfolding extent_move_def by (simp add: extent_ops x0)
  have c: "choose_op (EXT2_EXTENT_ROOT AND EXT2_EXTENT_MOVE_MASK) x = (Inr EXT2_EXTENT_ROOT, x)" by (simp add: choose_plain)
  have rx: "root_list ?x es" by (rule root_upd [OF r]) simp_all
  have n: "ep_entries (cur_path x) = int (length es)" using r by (simp add: root_list_def)
  show ?thesis
  proof (cases "es = []")
    case True
    then have "next_sib ?x = (Inl EXT2_ET_EXTENT_NO_NEXT, ?x)" using n root_level(1) [OF r] by (simp add: next_sib_def)
    then have "ext2fs_extent_get EXT2_EXTENT_ROOT x = (Inl EXT2_ET_EXTENT_NO_NEXT, ?x)" unfolding extent_get_once c by (simp add: m)
    then show ?thesis using True rx n root_level(1) [OF r] by (intro exI [of _ ?x]) (simp add: root_some_def)
  next
    case False
    let ?y = "upd_path (\<lambda>p. p\<lparr>ep_left := ep_left p - 1, ep_curr := Some 0, ep_visit_num := 0\<rparr>) ?x"
    have s: "next_sib ?x = (Inr (Some (int 0)), ?y)" using n False root_level(1) [OF r] by (simp add: next_sib_def)
    have y: "root_at ?y es 0" using rx root_upd [OF rx] False n root_level(1) [OF r] unfolding root_at_def by simp
    have "\<exists>e. ext2fs_extent_get EXT2_EXTENT_ROOT x = (Inr e, ?y) \<and> is_ext e (es ! 0)"
      by (rule extent_get_at [where mv = EXT2_EXTENT_ROOT]) (use m s c y False in \<open>auto simp: root_at_def extent_ops\<close>)
    moreover have "moved x ?y" by (rule moved_trans [where y = ?x]) simp_all
    ultimately show ?thesis using False y by (intro exI [of _ ?y]) (auto simp: root_at_def)
  qed
qed

section \<open>Going to a block\<close>

definition ext_end :: "ext \<Rightarrow> nat" where "ext_end e = fst e + fst (snd e)"

definition has_blk :: "ext \<Rightarrow> nat \<Rightarrow> bool" where "has_blk e k \<longleftrightarrow> fst e \<le> k \<and> k < ext_end e"

definition apart :: "ext list \<Rightarrow> bool" where
  "apart es \<longleftrightarrow> sorted_wrt (\<lambda>e f. ext_end e \<le> fst f) es \<and> (\<forall>e \<in> set es. ext_ok e)"

text \<open>The place of a block: the last extent that does not start behind it, or the first one.\<close>

definition place_ok :: "ext list \<Rightarrow> nat \<Rightarrow> nat \<Rightarrow> bool" where
  "place_ok es k i \<longleftrightarrow> i < length es \<and> (i = 0 \<or> fst (es ! i) \<le> k) \<and> (i + 1 < length es \<longrightarrow> k < fst (es ! (i + 1)))"

lemma apart_nth: "apart es \<Longrightarrow> i < j \<Longrightarrow> j < length es \<Longrightarrow> ext_end (es ! i) \<le> fst (es ! j)"
  by (simp add: apart_def sorted_wrt_iff_nth_less)

lemma apart_ok: "apart es \<Longrightarrow> i < length es \<Longrightarrow> ext_ok (es ! i) \<and> fst (es ! i) < ext_end (es ! i)"
proof -
  assume "apart es" "i < length es"
  then have "ext_ok (es ! i)" by (simp add: apart_def)
  moreover obtain b n s u where "es ! i = (b, n, s, u)" by (metis prod.exhaust)
  ultimately show ?thesis by (simp add: ext_ok_def ext_end_def)
qed

lemma place_unique:
  assumes a: "apart es" and p: "place_ok es k i" "place_ok es k j"
  shows "i = j"
proof -
  have "\<not> i < j" if "place_ok es k i" "place_ok es k j" for i j
  proof
    assume ij: "i < j"
    have s: "fst (es ! (i + 1)) \<le> fst (es ! j)"
      using that(2) ij apart_nth [OF a, of "i + 1" j] apart_ok [OF a, of "i + 1"]
      by (cases "i + 1 = j") (auto simp: place_ok_def)
    then show False using that ij unfolding place_ok_def by auto
  qed
  then show ?thesis using p by (meson linorder_neqE_nat)
qed

lemma place_covers:
  assumes a: "apart es" and p: "place_ok es k i" and j: "j < length es" "has_blk (es ! j) k"
  shows "j = i"
proof -
  have "place_ok es k j"
    using j apart_nth [OF a, of j "j + 1"] by (auto simp: place_ok_def has_blk_def)
  then show ?thesis using place_unique [OF a] p by blast
qed

lemma is_ext_le:
  assumes "is_ext e X" "ext_ok X" "unat (k :: u64) < 2 ^ 32"
  shows "k \<ge> e_lblk e \<and> k < e_lblk e + ucast (e_len e) \<longleftrightarrow> has_blk X (unat k)" "k < e_lblk e \<longleftrightarrow> unat k < fst X"
proof -
  obtain b n s u where X: "X = (b, n, s, u)" by (cases X)
  have l: "unat (e_lblk e) = b" "unat (e_len e) = n" "b + n \<le> 2 ^ 32" using assms(1,2) by (auto simp: is_ext_def ext_ok_def X)
  have "unat (ucast (e_len e) :: u64) = n" using l(2) by simp
  then have "unat (e_lblk e + ucast (e_len e)) = b + n" using l by (subst unat_add_lem [THEN iffD1]) simp_all
  then show "k \<ge> e_lblk e \<and> k < e_lblk e + ucast (e_len e) \<longleftrightarrow> has_blk X (unat k)" "k < e_lblk e \<longleftrightarrow> unat k < fst X"
    using l by (simp_all add: has_blk_def ext_end_def X word_le_nat_alt word_less_nat_alt)
qed

lemma root_goto_loop:
  assumes "root_at x es i" "apart es" "unat k < 2 ^ 32" "is_ext e (es ! i)" "\<forall>j < i. ext_end (es ! j) \<le> unat k" "length es - i < n"
  shows "\<exists>y j. moved x y \<and> root_at y es j \<and> place_ok es (unat k) j \<and>
    goto_loop n 0 k e x = (if has_blk (es ! j) (unat k) then Inr () else Inl EXT2_ET_EXTENT_NOT_FOUND, y)"
  using assms
proof (induction "length es - i" arbitrary: x i e n)
  case 0
  then show ?case by (simp add: root_at_def)
next
  case (Suc m)
  have i: "i < length es" "xh_level x = 0" "xh_max_depth x = 0" using Suc(3) by (auto simp: root_at_def root_list_def)
  have X: "ext_ok (es ! i)" "fst (es ! i) < ext_end (es ! i)" using apart_ok [OF Suc(4) i(1)] by auto
  note cmp = is_ext_le [OF Suc(6) X(1) Suc(5)]
  have n: "n \<noteq> 0" using Suc(8) by simp
  have run: "goto_loop n 0 k e x =
     (if has_blk (es ! i) (unat k) then (Inr (), x)
      else if unat k < fst (es ! i) then (Inl EXT2_ET_EXTENT_NOT_FOUND, snd (ext2fs_extent_get EXT2_EXTENT_PREV_SIB x))
      else case ext2fs_extent_get EXT2_EXTENT_NEXT_SIB x of
             (Inl e, x) \<Rightarrow> (Inl (if e = EXT2_ET_EXTENT_NO_NEXT then EXT2_ET_EXTENT_NOT_FOUND else e), x)
           | (Inr extent, x) \<Rightarrow> goto_loop (n - 1) 0 k extent x)"
    by (subst goto_loop.simps) (simp only: if_not_P [OF n] i cmp, simp)
  consider (in_here) "has_blk (es ! i) (unat k)" | (before) "\<not> has_blk (es ! i) (unat k)" "unat k < fst (es ! i)"
    | (after) "ext_end (es ! i) \<le> unat k" "\<not> has_blk (es ! i) (unat k)" "\<not> unat k < fst (es ! i)"
    by (cases "fst (es ! i) \<le> unat k"; cases "unat k < ext_end (es ! i)") (auto simp: has_blk_def)
  then show ?case
  proof cases
    case in_here
    have "place_ok es (unat k) i"
      using in_here i(1) apart_nth [OF Suc(4), of i "i + 1"] by (auto simp: place_ok_def has_blk_def)
    then show ?thesis using run in_here Suc(3) by (intro exI [of _ x] exI [of _ i]) simp
  next
    case before
    show ?thesis
    proof (cases "i = 0")
      case True
      then have "ext2fs_extent_get EXT2_EXTENT_PREV_SIB x = (Inl EXT2_ET_EXTENT_NO_PREV, x)" using root_prev [OF Suc(3), of EXT2_EXTENT_PREV_SIB] by simp
      moreover have "place_ok es (unat k) 0"
        using before True i(1) apart_nth [OF Suc(4), of 0 1] X by (auto simp: place_ok_def)
      ultimately show ?thesis using run before True Suc(3) by (intro exI [of _ x] exI [of _ 0]) simp
    next
      case False
      then obtain f y where y: "ext2fs_extent_get EXT2_EXTENT_PREV_SIB x = (Inr f, y)" "root_at y es (i - 1)" "moved x y"
        using root_prev [OF Suc(3), of EXT2_EXTENT_PREV_SIB] by auto
      have e: "ext_end (es ! (i - 1)) \<le> unat k" using False Suc(7) by simp
      then have "place_ok es (unat k) (i - 1)" "\<not> has_blk (es ! (i - 1)) (unat k)"
        using before False i(1) apart_ok [OF Suc(4) less_imp_diff_less [OF i(1)], of 1] by (auto simp: place_ok_def has_blk_def)
      then show ?thesis using run before y by (intro exI [of _ y] exI [of _ "i - 1"]) simp
    qed
  next
    case after
    show ?thesis
    proof (cases "i + 1 < length es")
      case True
      then obtain f y where y: "ext2fs_extent_get EXT2_EXTENT_NEXT_SIB x = (Inr f, y)" "is_ext f (es ! (i + 1))" "root_at y es (i + 1)" "moved x y"
        using root_next [OF Suc(3), of EXT2_EXTENT_NEXT_SIB] by auto
      have "\<exists>z j. moved y z \<and> root_at z es j \<and> place_ok es (unat k) j \<and>
          goto_loop (n - 1) 0 k f y = (if has_blk (es ! j) (unat k) then Inr () else Inl EXT2_ET_EXTENT_NOT_FOUND, z)"
        by (rule Suc(1) [OF _ y(3) Suc(4,5) y(2)]) (use Suc(2,7,8) after(1) in \<open>auto simp: less_Suc_eq\<close>)
      moreover have "goto_loop n 0 k e x = goto_loop (n - 1) 0 k f y" using run after(2,3) y(1) by simp
      ultimately show ?thesis using moved_trans [OF y(4)] by metis
    next
      case False
      then have "ext2fs_extent_get EXT2_EXTENT_NEXT_SIB x = (Inl EXT2_ET_EXTENT_NO_NEXT, x)"
        using root_next [OF Suc(3), of EXT2_EXTENT_NEXT_SIB] by auto
      moreover have "place_ok es (unat k) i" using False after i(1) by (auto simp: place_ok_def)
      ultimately show ?thesis using run after Suc(3) by (intro exI [of _ x] exI [of _ i]) simp
    qed
  qed
qed

lemma root_goto:
  assumes r: "root_list x es" "apart es" "es \<noteq> []" "unat k < 2 ^ 32"
  shows "\<exists>y j. moved x y \<and> root_at y es j \<and> place_ok es (unat k) j \<and>
    ext2fs_extent_goto k x = (if has_blk (es ! j) (unat k) then Inr () else Inl EXT2_ET_EXTENT_NOT_FOUND, y)"
proof -
  obtain e y where y: "moved x y" "root_at y es 0" "ext2fs_extent_get EXT2_EXTENT_ROOT x = (Inr e, y)" "is_ext e (es ! 0)"
    using root_first [OF r(1)] r(3) by auto
  have d: "xh_max_depth y = 0" "length es \<le> 4" using y(2) by (auto simp: root_at_def root_list_def)
  have "ext2fs_extent_goto k x = goto_loop 65537 0 k e y"
    by (simp add: ext2fs_extent_goto_def extent_goto_def y(3) d)
  moreover have "\<exists>z j. moved y z \<and> root_at z es j \<and> place_ok es (unat k) j \<and>
      goto_loop 65537 0 k e y = (if has_blk (es ! j) (unat k) then Inr () else Inl EXT2_ET_EXTENT_NOT_FOUND, z)"
    by (rule root_goto_loop [OF y(2) r(2,4) y(4)]) (use d in auto)
  ultimately show ?thesis using moved_trans [OF y(1)] by metis
qed

end
