(* ===== verification/Extent_Write.thy ===== *)
theory Extent_Write
  imports Extent_Root
begin

text \<open>
  Changes of a tree that is only a root: each stores the inode in the table of the device. Under the
  interface \<open>block_device\<close> replacing, inserting and deleting an extent are those of a list.
\<close>

section \<open>The handle and the device\<close>

definition handle_dev :: "('d io_channel \<Rightarrow> bool) \<Rightarrow> ('d io_channel \<Rightarrow> u64 \<Rightarrow> u8 list) \<Rightarrow> nat \<Rightarrow> nat \<Rightarrow> 'd extent_handle \<Rightarrow> bool" where
  "handle_dev io_ok blk bs nb x \<longleftrightarrow>
     io_ok (xh_io x) \<and> itable_ok (xh_fs x) bs nb \<and> icache_ok (xh_fs x) (blk (xh_io x)) nb \<and> valid_ino (xh_fs x) (xh_ino x) \<and>
     fs_flags (xh_fs x) AND EXT2_FLAG_RW \<noteq> 0 \<and> (\<forall>b. b < 2 ^ 32 \<longrightarrow> granted (xh_heap x) b)"

text \<open>The table has the inode of the handle.\<close>

definition stored :: "('d io_channel \<Rightarrow> u64 \<Rightarrow> u8 list) \<Rightarrow> 'd extent_handle \<Rightarrow> bool" where
  "stored blk x \<longleftrightarrow> inode_on (xh_fs x) (blk (xh_io x)) (xh_ino x) = erase (xh_inode x)"

text \<open>What no operation changes: all but the blocks of the inode, and every other inode of the table.\<close>

definition kept :: "('d io_channel \<Rightarrow> u64 \<Rightarrow> u8 list) \<Rightarrow> 'd extent_handle \<Rightarrow> 'd extent_handle \<Rightarrow> bool" where
  "kept blk x y \<longleftrightarrow>
     xh_ino y = xh_ino x \<and> xh_heap y = xh_heap x \<and> (\<exists>ws. xh_inode y = (xh_inode x)\<lparr>i_block := ws\<rparr>) \<and>
     valid_ino (xh_fs y) = valid_ino (xh_fs x) \<and>
     (\<forall>j. valid_ino (xh_fs x) j \<longrightarrow> j \<noteq> xh_ino x \<longrightarrow> inode_on (xh_fs y) (blk (xh_io y)) j = inode_on (xh_fs x) (blk (xh_io x)) j)"

lemma kept_trans: "kept blk x y \<Longrightarrow> kept blk y z \<Longrightarrow> kept blk x z"
  by (auto simp: kept_def)

lemma kept_moved:
  assumes "moved x y"
  shows "kept blk x y" "handle_dev io_ok blk bs nb y = handle_dev io_ok blk bs nb x" "stored blk y = stored blk x"
  using movedD [OF assms] by (auto simp: kept_def handle_dev_def stored_def intro: exI [of _ "i_block (xh_inode x)"])

lemma root_set_node:
  assumes "xh_level x = 0" "length buf = 60"
  shows "xh_inode (set_node buf x) = (xh_inode x)\<lparr>i_block := words_of buf\<rparr>" "cur_node (set_node buf x) = buf"
    "set_node buf x = x\<lparr>xh_inode := (xh_inode x)\<lparr>i_block := words_of buf\<rparr>\<rparr>"
  using assms bytes_of_words_of [of buf] by (simp_all add: set_node_def cur_node_def node_at_def)

lemma cur_fs_io [simp]:
  "cur_path (x\<lparr>xh_fs := f, xh_io := i\<rparr>) = cur_path x" "cur_node (x\<lparr>xh_fs := f, xh_io := i\<rparr>) = cur_node x"
  by (simp_all add: cur_path_def cur_node_def node_at_def)

lemma root_fs_io [simp]:
  "root_list (x\<lparr>xh_fs := f, xh_io := i\<rparr>) = root_list x" "root_at (x\<lparr>xh_fs := f, xh_io := i\<rparr>) = root_at x"
  "root_some (x\<lparr>xh_fs := f, xh_io := i\<rparr>) = root_some x"
proof -
  show l: "root_list (x\<lparr>xh_fs := f, xh_io := i\<rparr>) = root_list x" by (rule ext) (simp add: root_list_def)
  show "root_at (x\<lparr>xh_fs := f, xh_io := i\<rparr>) = root_at x" by (intro ext) (simp add: root_at_def l)
  show "root_some (x\<lparr>xh_fs := f, xh_io := i\<rparr>) = root_some x" by (rule ext) (simp only: root_some_def cur_fs_io l)
qed

definition root_shape :: "'d extent_handle \<Rightarrow> bool" where
  "root_shape x \<longleftrightarrow> xh_level x = 0 \<and> xh_max_depth x = 0 \<and> xh_path x \<noteq> [] \<and> ep_max_entries (cur_path x) = 4 \<and>
     length (i_block (xh_inode x)) = 15"

lemma leaves_eq: "leaves buf (length es) = es \<longleftrightarrow> (\<forall>k < length es. leaf_at buf k = es ! k)"
  unfolding leaves_def by (subst list_eq_iff_nth_eq) simp

lemma root_list_shape:
  "root_list x es \<longleftrightarrow> root_shape x \<and> ep_entries (cur_path x) = int (length es) \<and> length es \<le> 4 \<and>
     (\<forall>k < length es. leaf_at (cur_node x) k = es ! k) \<and> (\<forall>e \<in> set es. ext_ok e)"
  by (auto simp only: root_list_def root_shape_def leaves_eq)

lemma root_node_length: "root_shape x \<Longrightarrow> length (cur_node x) = 60"
  by (simp add: root_shape_def root_cur_node)

context block_device
begin

lemma write_handle_ok:
  assumes d: "handle_dev io_ok blk bs nb x" and l: "length (i_block (xh_inode x)) = 15"
  shows "\<exists>fs io. write_handle_inode x = (Inr (), x\<lparr>xh_fs := fs, xh_io := io\<rparr>) \<and>
    handle_dev io_ok blk bs nb (x\<lparr>xh_fs := fs, xh_io := io\<rparr>) \<and> stored blk (x\<lparr>xh_fs := fs, xh_io := io\<rparr>) \<and>
    kept blk x (x\<lparr>xh_fs := fs, xh_io := io\<rparr>)"
proof -
  let ?f = "xh_fs x"
  have ok: "io_ok (xh_io x)" "itable_ok ?f bs nb" "icache_ok ?f (blk (xh_io x)) nb" "valid_ino ?f (xh_ino x)"
      "fs_flags ?f AND EXT2_FLAG_RW \<noteq> 0" "\<forall>b. b < 2 ^ 32 \<longrightarrow> granted (xh_heap x) b"
    using d by (simp_all add: handle_dev_def)
  from write_inode_ok [OF ok(1-4) l ok(5,6)] obtain ic io' where w:
    "ext2fs_write_inode (xh_heap x) ?f (xh_io x) (xh_ino x) (xh_inode x) =
       (Inr (), ?f\<lparr>fs_icache := ic, fs_flags := fs_flags ?f OR EXT2_FLAG_CHANGED\<rparr>, io')"
    "\<forall>j. valid_ino ?f j \<longrightarrow> inode_on ?f (blk io') j = (if j = xh_ino x then erase (xh_inode x) else inode_on ?f (blk (xh_io x)) j)"
    "icache_ok (?f\<lparr>fs_icache := ic, fs_flags := fs_flags ?f OR EXT2_FLAG_CHANGED\<rparr>) (blk io') nb" "io_ok io'" by blast
  let ?g = "?f\<lparr>fs_icache := ic, fs_flags := fs_flags ?f OR EXT2_FLAG_CHANGED\<rparr>"
  have v: "valid_ino ?g = valid_ino ?f" "inode_on ?g = inode_on ?f"
    by (simp add: fun_eq_iff valid_ino_def, rule inode_on_cong, simp_all)
  let ?y = "x\<lparr>xh_fs := ?g, xh_io := io'\<rparr>"
  have "fs_flags ?g AND EXT2_FLAG_RW \<noteq> 0" using ok(5) by (simp add: bit.conj_disj_distrib2 or_eq_0_iff)
  then have "handle_dev io_ok blk bs nb ?y" unfolding handle_dev_def using w(3,4) ok(2,4,6) v(1) by simp
  moreover have "write_handle_inode x = (Inr (), ?y)" unfolding write_handle_inode_def w(1) by simp
  moreover have "stored blk ?y" using w(2) ok(4) by (simp add: stored_def v)
  moreover have "kept blk x ?y" unfolding kept_def by (intro conjI exI [of _ "i_block (xh_inode x)"]) (use w(2) in \<open>simp_all add: v\<close>)
  ultimately show ?thesis by blast
qed

lemma root_update:
  assumes d: "handle_dev io_ok blk bs nb x" and r: "root_shape x" and buf: "length buf = 60"
  shows "\<exists>y. update_path (set_node buf x) = (Inr (), y) \<and> handle_dev io_ok blk bs nb y \<and> stored blk y \<and> kept blk x y \<and>
    xh_path y = xh_path x \<and> root_shape y \<and> cur_path y = cur_path x \<and> cur_node y = buf"
proof -
  let ?x = "set_node buf x"
  have l: "xh_level x = 0" using r by (simp add: root_shape_def)
  note sn = root_set_node [OF l buf]
  have kx: "kept blk x ?x" "handle_dev io_ok blk bs nb ?x" "length (i_block (xh_inode ?x)) = 15" "root_shape ?x" "xh_level ?x = 0"
      "cur_path ?x = cur_path x" "xh_path ?x = xh_path x"
    using d r buf by (auto simp: sn(3) kept_def handle_dev_def root_shape_def cur_path_def)
  obtain fs io where w: "write_handle_inode ?x = (Inr (), ?x\<lparr>xh_fs := fs, xh_io := io\<rparr>)"
    "handle_dev io_ok blk bs nb (?x\<lparr>xh_fs := fs, xh_io := io\<rparr>)" "stored blk (?x\<lparr>xh_fs := fs, xh_io := io\<rparr>)"
    "kept blk ?x (?x\<lparr>xh_fs := fs, xh_io := io\<rparr>)" using write_handle_ok [OF kx(2,3)] by blast
  have "root_shape (?x\<lparr>xh_fs := fs, xh_io := io\<rparr>)" using kx(4) by (simp add: root_shape_def)
  then show ?thesis
    using w kx(5-7) kept_trans [OF kx(1) w(4)] sn(2) by (intro exI [of _ "?x\<lparr>xh_fs := fs, xh_io := io\<rparr>"]) (simp add: update_path_def)
qed

lemma root_replace:
  assumes d: "handle_dev io_ok blk bs nb x" and r: "root_shape x" and c: "ep_curr (cur_path x) = Some (int i)" "i < 4"
    and e: "is_ext e X" "ext_ok X"
  shows "\<exists>y. ext2fs_extent_replace e x = (Inr (), y) \<and> handle_dev io_ok blk bs nb y \<and> stored blk y \<and> kept blk x y \<and>
    xh_path y = xh_path x \<and> root_shape y \<and> cur_path y = cur_path x \<and>
    (\<forall>k < 4. leaf_at (cur_node y) k = (if k = i then X else leaf_at (cur_node x) k))"
proof -
  have len: "length (cur_node x) = 60" by (rule root_node_length [OF r])
  obtain buf where b: "store_leaf (cur_node x) (int i) e = (Inr (), buf)" "length buf = 60" "leaf_at buf i = X"
    "\<forall>k. k \<noteq> i \<longrightarrow> 24 + 12 * k \<le> length (cur_node x) \<longrightarrow> leaf_at buf k = leaf_at (cur_node x) k"
    using store_leaf_ok [OF e, of i "cur_node x"] len c(2) by auto
  from root_update [OF d r b(2)] obtain y where y: "update_path (set_node buf x) = (Inr (), y)" "handle_dev io_ok blk bs nb y"
    "stored blk y" "kept blk x y" "xh_path y = xh_path x" "root_shape y" "cur_path y = cur_path x" "cur_node y = buf" by blast
  have "entry_in (cur_node x) (int i) 1" using entry_in_nat [of "cur_node x" i 1] len c(2) by simp
  then have "ext2fs_extent_replace e x = (Inr (), y)"
    using d r c b(1) y(1) by (simp add: ext2fs_extent_replace_def handle_dev_def root_shape_def)
  then show ?thesis using y b len by auto
qed

text \<open>In a list: the current extent is replaced.\<close>

lemma list_replace:
  assumes d: "handle_dev io_ok blk bs nb x" and r: "root_at x es i" and e: "is_ext e X" "ext_ok X"
  shows "\<exists>y. ext2fs_extent_replace e x = (Inr (), y) \<and> handle_dev io_ok blk bs nb y \<and> stored blk y \<and> kept blk x y \<and>
    root_at y (es[i := X]) i"
proof -
  have s: "root_shape x" "ep_curr (cur_path x) = Some (int i)" "i < 4" "i < length es" "length es \<le> 4"
    using r by (auto simp: root_at_def root_list_shape)
  from root_replace [OF d s(1-3) e] obtain y where y: "ext2fs_extent_replace e x = (Inr (), y)" "handle_dev io_ok blk bs nb y"
    "stored blk y" "kept blk x y" "root_shape y" "cur_path y = cur_path x"
    "\<forall>k < 4. leaf_at (cur_node y) k = (if k = i then X else leaf_at (cur_node x) k)" by blast
  have "\<forall>f \<in> set (es[i := X]). ext_ok f" using r e(2) by (auto simp: root_at_def root_list_shape dest: set_update_subset_insert [THEN subsetD])
  then have "root_at y (es[i := X]) i"
    using r s y by (auto simp: root_at_def root_list_shape nth_list_update)
  then show ?thesis using y by blast
qed

lemma open_gap_ok:
  assumes d: "handle_dev io_ok blk bs nb x" and r: "root_shape x" and n: "ep_entries (cur_path x) = int n" "n < 4" "ix \<le> n"
    and g: "(case ep_curr (cur_path x) of
        Some i \<Rightarrow> if flags AND EXT2_EXTENT_INSERT_AFTER \<noteq> 0 then (i + 1, ep_left (cur_path x) - 1) else (i, ep_left (cur_path x))
      | None \<Rightarrow> (0, ep_left (cur_path x))) = (int ix, l)" "l = int n - 1 - int ix \<or> n = 0 \<and> l = 0"
  shows "\<exists>y. open_gap flags x = (Inr (), y) \<and> handle_dev io_ok blk bs nb y \<and> kept blk x y \<and> root_shape y \<and>
    ep_entries (cur_path y) = int (n + 1) \<and> ep_curr (cur_path y) = Some (int ix) \<and> ep_left (cur_path y) = l + 1 \<and>
    (\<forall>k \<le> n. k \<noteq> ix \<longrightarrow> leaf_at (cur_node y) k = leaf_at (cur_node x) (if k < ix then k else k - 1))"
proof -
  have len: "length (cur_node x) = 60" by (rule root_node_length [OF r])
  have lev: "xh_level x = 0" "xh_path x \<noteq> []" "length (i_block (xh_inode x)) = 15" using r by (auto simp: root_shape_def)
  define m where "m = (if 0 \<le> l then nat (l + 1) else 0)"
  have m: "0 \<le> l \<Longrightarrow> l + 1 = int m" "0 \<le> l \<Longrightarrow> l + 2 = int (m + 1)" "ix + m \<le> 3" "\<not> 0 \<le> l \<Longrightarrow> ix = n"
    "n \<noteq> 0 \<Longrightarrow> ix + m = n" using g(2) n(2,3) by (auto simp: m_def)
  define b1 where "b1 = (if 0 \<le> l then move_entries (cur_node x) (int ix + 1) (int ix) (l + 1) else cur_node x)"
  define b2 where "b2 = put_le16 b1 2 (word_of_int (int n + 1))"
  let ?x = "upd_path (\<lambda>p. p\<lparr>ep_curr := Some (int ix), ep_left := l + 1, ep_entries := int n + 1\<rparr>) x"
  have in_node: "12 + 12 * (ix + (m + 1)) \<le> length (cur_node x)" using len m(3) by simp
  have gap: "open_gap flags x = (Inr (), set_node b2 ?x)"
  proof -
    have "0 \<le> l \<longrightarrow> entry_in (cur_node x) (int ix) (l + 2)" using in_node m(2) entry_in_nat [of "cur_node x" ix "m + 1"] by metis
    then show ?thesis unfolding open_gap_def Let_def using g(1) n(1) by (auto simp: b2_def b1_def split: option.splits)
  qed
  have e1: "int ix + 1 = int (ix + 1)" by simp
  have b1: "length b1 = 60"
    using len move_entries_nth(1) [of ix m "cur_node x" "ix + 1", folded e1] in_node m(1) by (auto simp: b1_def)
  have b2: "length b2 = 60" using b1 by (simp add: b2_def)
  have leaf: "leaf_at b2 k = leaf_at (cur_node x) (if k < ix then k else k - 1)" if "k \<le> n" "k \<noteq> ix" for k
  proof -
    have "leaf_at b2 k = leaf_at b1 k" unfolding b2_def by (rule leaf_at_agree, rule agree_put_le(1)) (use b1 in simp_all)
    also have "\<dots> = leaf_at (cur_node x) (if k < ix then k else k - 1)"
    proof (cases "0 \<le> l")
      case True
      have "leaf_at b1 k = (if ix < k \<and> k \<le> ix + m then leaf_at (cur_node x) (k - 1) else leaf_at (cur_node x) k)"
        using True m(1) leaf_at_gap [of ix m "cur_node x" k] in_node by (simp add: b1_def)
      then show ?thesis using that m(5) n(3) by (cases "n = 0") auto
    next
      case False
      then show ?thesis using that m(4) by (simp add: b1_def)
    qed
    finally show ?thesis .
  qed
  let ?y = "set_node b2 ?x"
  note sn = root_set_node [of ?x b2, simplified, OF lev(1) b2]
  have c: "cur_path ?y = (cur_path x)\<lparr>ep_curr := Some (int ix), ep_left := l + 1, ep_entries := int n + 1\<rparr>"
    using lev by (simp add: sn(3)) (simp add: cur_path_def upd_path_def)
  have y: "?y = x\<lparr>xh_path := xh_path ?x, xh_inode := (xh_inode x)\<lparr>i_block := words_of b2\<rparr>\<rparr>" 
    unfolding sn(3) by (simp add: upd_path_def)
  have "root_shape ?y" using r b2 c by (auto simp: root_shape_def sn(3))
  moreover have "handle_dev io_ok blk bs nb ?y" using d by (subst y) (simp add: handle_dev_def)
  moreover have "kept blk x ?y" by (subst y) (auto simp: kept_def)
  ultimately show ?thesis using gap c leaf sn(2) by (intro exI [of _ ?y]) simp
qed

lemma root_update_again:
  assumes d: "handle_dev io_ok blk bs nb x" and r: "root_shape x"
  shows "\<exists>y. update_path x = (Inr (), y) \<and> handle_dev io_ok blk bs nb y \<and> stored blk y \<and> kept blk x y \<and>
    xh_path y = xh_path x \<and> root_shape y \<and> cur_path y = cur_path x \<and> cur_node y = cur_node x"
proof -
  have "set_node (cur_node x) x = x" using r by (simp add: set_node_def root_shape_def root_cur_node)
  then show ?thesis using root_update [OF d r root_node_length [OF r]] by simp
qed

text \<open>In a list: the new extent at \<open>ix\<close>.\<close>

lemma root_insert:
  assumes d: "handle_dev io_ok blk bs nb x" and r: "root_list x es" and n: "length es < 4" "ix \<le> length es"
    and e: "is_ext e X" "ext_ok X"
    and g: "(case ep_curr (cur_path x) of
        Some i \<Rightarrow> if flags AND EXT2_EXTENT_INSERT_AFTER \<noteq> 0 then (i + 1, ep_left (cur_path x) - 1) else (i, ep_left (cur_path x))
      | None \<Rightarrow> (0, ep_left (cur_path x))) = (int ix, l)" "l = int (length es) - 1 - int ix \<or> length es = 0 \<and> l = 0"
  shows "\<exists>y. ext2fs_extent_insert flags e x = (Inr (), y) \<and> handle_dev io_ok blk bs nb y \<and> stored blk y \<and> kept blk x y \<and>
    root_list y (take ix es @ X # drop ix es) \<and> ep_curr (cur_path y) = Some (int ix) \<and> ep_left (cur_path y) = l + 1"
proof -
  have s: "root_shape x" "ep_entries (cur_path x) = int (length es)" "\<forall>k < length es. leaf_at (cur_node x) k = es ! k" "xh_max_depth x = 0"
    "ep_max_entries (cur_path x) = 4"
    using r by (auto simp: root_list_shape root_shape_def)
  from open_gap_ok [OF d s(1,2) n g] obtain y where y: "open_gap flags x = (Inr (), y)" "handle_dev io_ok blk bs nb y" "kept blk x y"
    "root_shape y" "ep_entries (cur_path y) = int (length es + 1)" "ep_curr (cur_path y) = Some (int ix)" "ep_left (cur_path y) = l + 1"
    "\<forall>k \<le> length es. k \<noteq> ix \<longrightarrow> leaf_at (cur_node y) k = leaf_at (cur_node x) (if k < ix then k else k - 1)" by blast
  have ix: "ix < 4" using n by simp
  from root_replace [OF y(2,4,6) ix e] obtain z where z: "ext2fs_extent_replace e y = (Inr (), z)" "handle_dev io_ok blk bs nb z"
    "stored blk z" "kept blk y z" "root_shape z" "cur_path z = cur_path y"
    "\<forall>k < 4. leaf_at (cur_node z) k = (if k = ix then X else leaf_at (cur_node y) k)" by blast
  from root_update_again [OF z(2,5)] obtain w where w: "update_path z = (Inr (), w)" "handle_dev io_ok blk bs nb w" "stored blk w"
    "kept blk z w" "root_shape w" "cur_path w = cur_path z" "cur_node w = cur_node z" by blast
  have "fs_flags (xh_fs x) AND EXT2_FLAG_RW \<noteq> 0" using d by (simp add: handle_dev_def)
  then have run: "ext2fs_extent_insert flags e x = (Inr (), w)"
    using s(2,5) n(1) y(1) z(1) w(1) by (simp add: ext2fs_extent_insert_def extent_insert_with_def)
  let ?es = "take ix es @ X # drop ix es"
  have "leaf_at (cur_node w) k = ?es ! k" if "k < length ?es" for k
  proof -
    have "leaf_at (cur_node w) k = (if k = ix then X else leaf_at (cur_node x) (if k < ix then k else k - 1))"
      using that z(7) y(8) w(7) n by simp
    also have "\<dots> = ?es ! k" using that s(3) n(2) by (auto simp: nth_append nth_Cons' less_diff_conv2)
    finally show ?thesis .
  qed
  moreover have "\<forall>f \<in> set ?es. ext_ok f" using r e(2) by (auto simp: root_list_shape dest: in_set_takeD in_set_dropD)
  moreover have "length ?es = length es + 1" using n(2) by simp
  ultimately have "root_list w ?es" unfolding root_list_shape using w(5,6) z(6) y(5) n(1) by simp
  moreover have "kept blk x w" using kept_trans [OF y(3) kept_trans [OF z(4) w(4)]] .
  moreover have "ep_curr (cur_path w) = Some (int ix)" "ep_left (cur_path w) = l + 1" using w(6) z(6) y(6,7) by simp_all
  ultimately show ?thesis using run w(2,3) by blast
qed

lemma list_insert_after:
  assumes "handle_dev io_ok blk bs nb x" "root_at x es i" "length es < 4" "is_ext e X" "ext_ok X"
  shows "\<exists>y. ext2fs_extent_insert EXT2_EXTENT_INSERT_AFTER e x = (Inr (), y) \<and> handle_dev io_ok blk bs nb y \<and> stored blk y \<and>
    kept blk x y \<and> root_at y (take (i + 1) es @ X # drop (i + 1) es) (i + 1)"
  using root_insert [OF assms(1) _ assms(3) _ assms(4,5), of "i + 1" EXT2_EXTENT_INSERT_AFTER "int (length es) - 1 - int (i + 1)"] assms(2)
  by (auto simp: root_at_def EXT2_EXTENT_INSERT_AFTER_def)

lemma list_insert_before:
  assumes "handle_dev io_ok blk bs nb x" "root_at x es i" "length es < 4" "is_ext e X" "ext_ok X"
  shows "\<exists>y. ext2fs_extent_insert 0 e x = (Inr (), y) \<and> handle_dev io_ok blk bs nb y \<and> stored blk y \<and>
    kept blk x y \<and> root_at y (take i es @ X # drop i es) i"
  using root_insert [OF assms(1) _ assms(3) _ assms(4,5), of i 0 "int (length es) - 1 - int i"] assms(2)
  by (auto simp: root_at_def)

lemma list_insert_empty:
  assumes "handle_dev io_ok blk bs nb x" "root_some x []" "is_ext e X" "ext_ok X"
  shows "\<exists>y. ext2fs_extent_insert 0 e x = (Inr (), y) \<and> handle_dev io_ok blk bs nb y \<and> stored blk y \<and> kept blk x y \<and> root_some y [X]"
proof -
  have c: "ep_curr (cur_path x) = None" "ep_left (cur_path x) = 0" "root_list x []"
    using assms(2) by (auto simp: root_some_def split: option.splits)
  show ?thesis
    using root_insert [OF assms(1) c(3) _ _ assms(3,4), of 0 0 0] c by (auto simp: root_some_def)
qed

text \<open>In a list: the current extent is taken out.\<close>

lemma set_node_depth: "xh_max_depth x = 0 \<Longrightarrow> (set_node buf x)\<lparr>xh_max_depth := 0\<rparr> = set_node buf x"
  by (cases x) (auto simp: set_node_def upd_path_def)

lemma handle_upd:
  assumes "root_shape x" "\<And>p. ep_max_entries (f p) = ep_max_entries p"
  shows "root_shape (upd_path f x)" "cur_path (upd_path f x) = f (cur_path x)" "cur_node (upd_path f x) = cur_node x"
    "handle_dev io_ok blk bs nb (upd_path f x) = handle_dev io_ok blk bs nb x" "kept blk x (upd_path f x)"
  using assms by (auto simp: root_shape_def root_cur_node) (auto simp: handle_dev_def kept_def upd_path_def intro: exI [of _ "i_block (xh_inode x)"])

lemma handle_set_node:
  assumes "root_shape x" "length buf = 60"
  shows "root_shape (set_node buf x)" "cur_path (set_node buf x) = cur_path x" "cur_node (set_node buf x) = buf"
    "handle_dev io_ok blk bs nb (set_node buf x) = handle_dev io_ok blk bs nb x" "kept blk x (set_node buf x)"
proof -
  have l: "xh_level x = 0" using assms(1) by (simp add: root_shape_def)
  note sn = root_set_node [OF l assms(2)]
  show "cur_node (set_node buf x) = buf" by (rule sn(2))
  show "root_shape (set_node buf x)" "cur_path (set_node buf x) = cur_path x" "kept blk x (set_node buf x)"
    "handle_dev io_ok blk bs nb (set_node buf x) = handle_dev io_ok blk bs nb x"
    unfolding sn(3) using assms by (auto simp: root_shape_def cur_path_def kept_def handle_dev_def)
qed

lemma list_delete:
  assumes d: "handle_dev io_ok blk bs nb x" and r: "root_at x es i"
  shows "\<exists>y. ext2fs_extent_delete 0 x = (Inr (), y) \<and> handle_dev io_ok blk bs nb y \<and> stored blk y \<and> kept blk x y \<and>
    (if length es = 1 then root_some y [] else \<exists>j. root_at y (take i es @ drop (i + 1) es) j)"
proof -
  define n where "n = length es"
  have s: "root_shape x" "ep_entries (cur_path x) = int n" "\<forall>k < n. leaf_at (cur_node x) k = es ! k" "xh_level x = 0"
    "xh_max_depth x = 0" "ep_curr (cur_path x) = Some (int i)" "i < n" "n \<le> 4" "ep_left (cur_path x) = int n - 1 - int i"
    using r by (auto simp: root_at_def root_list_shape root_shape_def n_def)
  have len: "length (cur_node x) = 60" by (rule root_node_length [OF s(1)])
  define m where "m = n - 1 - i"
  have m: "ep_left (cur_path x) = int m" "i + m + 1 = n" using s(7,9) by (auto simp: m_def)
  let ?es = "take i es @ drop (i + 1) es"
  let ?b1 = "if m \<noteq> 0 then move_entries (cur_node x) (int i) (int i + 1) (int m) else cur_node x"
  let ?x1 = "if m \<noteq> 0 then upd_path (\<lambda>p. p\<lparr>ep_left := ep_left p - 1\<rparr>) (set_node ?b1 x)
     else upd_path (\<lambda>p. p\<lparr>ep_curr := Some (int i - 1)\<rparr>) x"
  let ?x2 = "upd_path (\<lambda>p. p\<lparr>ep_entries := int n - 1, ep_curr := (if int n - 1 = 0 then None else ep_curr p)\<rparr>) ?x1"
  let ?b2 = "put_le16 ?b1 2 (word_of_int (int n - 1))"
  let ?b3 = "if n = 1 then st16 ?b2 6 0 else ?b2"
  have e1: "int i + 1 = int (i + 1)" by simp
  have bound: "12 + 12 * (i + m + 1) \<le> length (cur_node x)" using len m(2) s(8) by simp
  have b1: "length ?b1 = 60" using move_entries_nth(1) [of "i + 1" m "cur_node x" i, folded e1] bound len by auto
  have b3: "length ?b3 = 60" using b1 by simp
  have leaf: "leaf_at ?b3 k = ?es ! k" if k: "k < n - 1" for k
  proof -
    have "leaf_at ?b3 k = leaf_at ?b1 k"
    proof -
      have "agree ?b2 ?b1 (12 + 12 * k) (24 + 12 * k)" by (rule agree_put_le(1)) (use b1 in simp_all)
      moreover have "agree (st16 ?b2 6 0) ?b2 (12 + 12 * k) (24 + 12 * k)" by (rule agree_stores(1)) (use b1 in simp_all)
      ultimately have "agree ?b3 ?b1 (12 + 12 * k) (24 + 12 * k)" by (auto intro: agree_trans)
      then show ?thesis by (rule leaf_at_agree)
    qed
    also have "\<dots> = (if i \<le> k then es ! (k + 1) else es ! k)"
    proof (cases "m \<noteq> 0")
      case True
      then have "leaf_at ?b1 k = (if i \<le> k \<and> k < i + m then leaf_at (cur_node x) (k + 1) else leaf_at (cur_node x) k)"
        using leaf_at_close [of i m "cur_node x" k] bound by simp
      then show ?thesis using s(3) k m(2) by auto
    next
      case False
      then show ?thesis using s(3) k m(2) by auto
    qed
    also have "\<dots> = ?es ! k" using k s(7) by (auto simp: nth_append n_def)
    finally show ?thesis .
  qed
  note h1 = handle_set_node [OF s(1) b1]
  have x1: "root_shape ?x1" "handle_dev io_ok blk bs nb ?x1" "kept blk x ?x1" "cur_node ?x1 = ?b1"
    "cur_path ?x1 = (if m \<noteq> 0 then (cur_path x)\<lparr>ep_left := ep_left (cur_path x) - 1\<rparr> else (cur_path x)\<lparr>ep_curr := Some (int i - 1)\<rparr>)"
    using h1 d handle_upd [of "set_node ?b1 x" "\<lambda>p. p\<lparr>ep_left := ep_left p - 1\<rparr>"] kept_trans [OF h1(5)]
      handle_upd [OF s(1), of "\<lambda>p. p\<lparr>ep_curr := Some (int i - 1)\<rparr>"] by auto
  note h2 = handle_upd [OF x1(1), of "\<lambda>p. p\<lparr>ep_entries := int n - 1, ep_curr := (if int n - 1 = 0 then None else ep_curr p)\<rparr>", simplified]
  have x2: "xh_level ?x2 = 0" "xh_max_depth ?x2 = 0" "cur_node ?x2 = ?b1" "handle_dev io_ok blk bs nb ?x2" "kept blk x ?x2"
    using h2 x1 kept_trans [OF x1(3)] by (auto simp: root_shape_def)
  from root_update [OF x2(4) _ b3] h2(1) obtain y where y: "update_path (set_node ?b3 ?x2) = (Inr (), y)" "handle_dev io_ok blk bs nb y"
    "stored blk y" "kept blk ?x2 y" "root_shape y" "cur_path y = cur_path ?x2" "cur_node y = ?b3" by auto
  have left: "ep_left (cur_path x) \<noteq> 0 \<longleftrightarrow> m \<noteq> 0" "entry_in (cur_node x) (int i) (int m + 1)"
    using m entry_in_nat [of "cur_node x" i "m + 1"] bound by (simp_all add: add.commute)
  have rw: "fs_flags (xh_fs x) AND EXT2_FLAG_RW \<noteq> 0" using d by (simp add: handle_dev_def)
  consider (inner) "m \<noteq> 0" "n \<noteq> 1" | (tail) "m = 0" "n \<noteq> 1" | (only) "m = 0" "n = 1" using m(2) by fastforce
  then have run: "ext2fs_extent_delete 0 x = (Inr (), y)"
  proof cases
    case inner
    then show ?thesis using s(2,4,6) m(1) rw left(2) y(1) x2(1,3) set_node_depth [OF x2(2)]
      unfolding ext2fs_extent_delete_def by (simp add: Let_def)
  next
    case tail
    then show ?thesis using s(2,4,6) m(1) rw y(1) x2(1,3) set_node_depth [OF x2(2)]
      unfolding ext2fs_extent_delete_def by (simp add: Let_def)
  next
    case only
    then show ?thesis using s(2,4,6) m(1) rw y(1) x2(1,3) set_node_depth [OF x2(2)]
      unfolding ext2fs_extent_delete_def by (simp add: Let_def)
  qed
  have kept: "kept blk x y" by (rule kept_trans [OF x2(5) y(4)])
  have path: "ep_entries (cur_path y) = int (length ?es)" "length ?es = n - 1"
    using y(6) h2(2) s(7) by (simp_all add: n_def of_nat_diff)
  have "root_list y ?es"
    unfolding root_list_shape using y(5,7) path leaf s(8) r
    by (auto simp: root_at_def root_list_shape dest: in_set_takeD in_set_dropD)
  moreover have "ep_curr (cur_path y) = (if n = 1 then None else if m \<noteq> 0 then Some (int i) else Some (int i - 1))"
    "ep_left (cur_path y) = (if m \<noteq> 0 then int m - 1 else 0)"
    using y(6) h2(2) x1(5) m(1) s(6,7) by (auto simp: of_nat_diff)
  moreover have "?es = []" if "n = 1" using path(2) that by (simp only: length_0_conv [symmetric])
  moreover have "int i - 1 = int (i - 1)" "i - 1 < n - 1" if "n \<noteq> 1" "m = 0" using that m(2) by auto
  ultimately have "if n = 1 then root_some y [] else root_at y ?es (if m \<noteq> 0 then i else i - 1)"
    using m(2) path(2) unfolding root_some_def root_at_def by auto
  then show ?thesis using run y(2,3) kept unfolding n_def by (auto split: if_splits)
qed

end

end
