(* ===== verification/Extent_Map.thy ===== *)
theory Extent_Map
  imports Extent_Write
begin

text \<open>
  What \<open>ext2fs_extent_set_bmap\<close> does for a tree that is only a root: the map from logical to
  physical blocks is changed at the one block, and the extents stay apart and in order.
\<close>

section \<open>The map of a list of extents\<close>

definition ext_map :: "ext \<Rightarrow> nat \<Rightarrow> (nat \<times> bool) option" where
  "ext_map = (\<lambda>(b, n, s, u) k. if b \<le> k \<and> k < b + n then Some (s + (k - b), u) else None)"

primrec emap :: "ext list \<Rightarrow> nat \<Rightarrow> (nat \<times> bool) option" where
  "emap [] k = None"
| "emap (e # es) k = (case ext_map e k of None \<Rightarrow> emap es k | Some v \<Rightarrow> Some v)"

lemma emap_append: "emap (as @ bs) k = (case emap as k of None \<Rightarrow> emap bs k | Some v \<Rightarrow> Some v)"
  by (induction as) (auto split: option.splits)

lemma ext_map_None: "ext_map e k = None \<longleftrightarrow> \<not> has_blk e k"
  by (auto simp: ext_map_def has_blk_def ext_end_def split: prod.splits)

lemma emap_None: "(\<And>e. e \<in> set es \<Longrightarrow> \<not> has_blk e k) \<Longrightarrow> emap es k = None"
proof (induction es)
  case (Cons e es)
  have "ext_map e k = None" using Cons(2) [of e] by (simp only: ext_map_None) simp
  then show ?case using Cons by simp
qed simp

text \<open>Some extents are exchanged for others that lie in the same hole and differ at one block.\<close>

lemma exchange:
  assumes a: "apart (as @ qs @ bs)" and ps: "apart ps" "\<forall>p \<in> set ps. lo \<le> fst p \<and> ext_end p \<le> hi"
    and hole: "\<forall>e \<in> set as. ext_end e \<le> lo" "\<forall>e \<in> set bs. hi \<le> fst e" and l: "lo \<le> l" "l < hi"
    and m: "\<And>k. k \<noteq> l \<Longrightarrow> emap ps k = emap qs k" "emap ps l = v"
  shows "apart (as @ ps @ bs) \<and> emap (as @ ps @ bs) = (emap (as @ qs @ bs))(l := v)"
proof -
  have out: "emap as l = None" "emap bs l = None" using hole l by (auto intro!: emap_None simp: has_blk_def)
  have "sorted_wrt (\<lambda>e f. ext_end e \<le> fst f) (as @ ps @ bs)"
  proof -
    have "ext_end f \<le> fst g" if "f \<in> set as" "g \<in> set ps \<union> set bs" for f g
      using that a ps(2) hole(1) by (auto simp: apart_def sorted_wrt_append intro: order_trans)
    moreover have "ext_end f \<le> fst g" if "f \<in> set ps" "g \<in> set bs" for f g
      using that ps(2) hole(2) by (meson order_trans)
    ultimately show ?thesis using a ps(1) by (auto simp: apart_def sorted_wrt_append)
  qed
  then have "apart (as @ ps @ bs)" using a ps(1) by (auto simp: apart_def)
  moreover have "emap (as @ ps @ bs) k = ((emap (as @ qs @ bs))(l := v)) k" for k
    using out m by (cases "k = l") (auto simp: emap_append split: option.splits)
  ultimately show ?thesis by blast
qed

lemma apart_parts:
  assumes "apart (as @ e # bs)"
  shows "\<forall>f \<in> set as. ext_end f \<le> fst e" "\<forall>f \<in> set bs. ext_end e \<le> fst f" "ext_ok e" "fst e < ext_end e"
    "\<forall>f \<in> set (as @ bs). ext_ok f"
proof -
  show p: "\<forall>f \<in> set as. ext_end f \<le> fst e" "\<forall>f \<in> set bs. ext_end e \<le> fst f" "ext_ok e" "\<forall>f \<in> set (as @ bs). ext_ok f"
    using assms by (auto simp: apart_def sorted_wrt_append)
  then show "fst e < ext_end e" using apart_ok [OF assms, of "length as"] by simp
qed

section \<open>The comparisons of the code\<close>

lemma is_ext_word:
  assumes "is_ext e (b, n, s, u)"
  shows "unat (e_lblk e) = b" "unat (e_len e) = n" "unat (e_pblk e) = s" "is_uninit e = u"
  using assms by (auto simp: is_ext_def)

lemma follows_nat:
  assumes e: "is_ext e (b, n, s, u)" "ext_ok (b, n, s, u)"
  shows "follows l p un e \<longleftrightarrow> unat l = b + n \<and> unat p = s + n \<and> un = u"
proof -
  note w = is_ext_word [OF e(1)]
  have "unat (e_lblk e + ucast (e_len e)) = b + n" "unat (e_pblk e + ucast (e_len e)) = s + n"
    using w e(2) by (subst unat_add_lem [THEN iffD1]; simp add: ext_ok_def)+
  then show ?thesis using w(4) by (auto simp: follows_def word_unat_eq_iff)
qed

lemma precedes_nat:
  assumes e: "is_ext e (b, n, s, u)" "ext_ok (b, n, s, u)" and l: "unat l < 2 ^ 32" "unat p < 2 ^ 48"
  shows "precedes l p un e \<longleftrightarrow> unat l + 1 = b \<and> unat p + 1 = s \<and> un = u"
proof -
  have pred: "x = y - 1 \<longleftrightarrow> unat x + 1 = unat y" if "unat x < 2 ^ 48" for x y :: u64
  proof -
    have "x = y - 1 \<longleftrightarrow> x + 1 = y" by (simp add: eq_diff_eq)
    moreover have "unat (x + 1) = unat x + 1" using that by (subst unat_add_lem [THEN iffD1]) simp_all
    ultimately show ?thesis by (simp add: word_unat_eq_iff)
  qed
  show ?thesis
    using is_ext_word [OF e(1)] pred [of l "e_lblk e"] pred [OF l(2), of "e_pblk e"] l(1) by (auto simp: precedes_def)
qed

lemma has_room_nat: "is_ext e (b, n, s, u) \<Longrightarrow> ext_ok (b, n, s, u) \<Longrightarrow> has_room mx e \<longleftrightarrow> int n < mx - 1"
proof -
  assume e: "is_ext e (b, n, s, u)" "ext_ok (b, n, s, u)"
  have "n < 2 ^ 31" using e(2) by (auto simp: ext_ok_def split: if_splits)
  then have "sint (e_len e) = int n" using is_ext_word(2) [OF e(1)]
    by (simp add: sint_uint signed_take_bit_int_eq_self uint_nat)
  then show ?thesis by (simp add: has_room_def)
qed

lemma is_ext_grow:
  assumes e: "is_ext e (b, n, s, u)" "ext_ok (b, n, s, u)"
  shows "is_ext (grow_right e) (b, n + 1, s, u)" "0 < b \<Longrightarrow> 0 < s \<Longrightarrow> is_ext (grow_left e) (b - 1, n + 1, s - 1, u)"
proof -
  note w = is_ext_word [OF e(1)]
  have n: "unat (e_len e + 1) = n + 1" using w e(2) by (subst unat_add_lem [THEN iffD1]) (auto simp: ext_ok_def split: if_splits)
  show "is_ext (grow_right e) (b, n + 1, s, u)" using w n by (simp add: is_ext_def grow_right_def is_uninit_def)
  assume "0 < b" "0 < s"
  then have "unat (e_lblk e - 1) = b - 1" "unat (e_pblk e - 1) = s - 1"
    using w by (subst unat_sub; simp add: word_le_nat_alt)+
  then show "is_ext (grow_left e) (b - 1, n + 1, s - 1, u)" using w n by (simp add: is_ext_def grow_left_def is_uninit_def)
qed

lemma is_ext_shrink:
  assumes e: "is_ext e (b, n, s, u)" "ext_ok (b, n, s, u)"
  shows "is_ext (e\<lparr>e_len := e_len e - 1\<rparr>) (b, n - 1, s, u)"
    "is_ext (e\<lparr>e_pblk := e_pblk e + 1, e_lblk := e_lblk e + 1, e_len := e_len e - 1\<rparr>) (b + 1, n - 1, s + 1, u)"
proof -
  note w = is_ext_word [OF e(1)]
  have "unat (e_len e - 1) = n - 1" using w e(2) by (subst unat_sub) (auto simp: word_le_nat_alt ext_ok_def)
  moreover have "unat (e_lblk e + 1) = b + 1" "unat (e_pblk e + 1) = s + 1"
    using w e(2) by (subst unat_add_lem [THEN iffD1]; auto simp: ext_ok_def)+
  ultimately show "is_ext (e\<lparr>e_len := e_len e - 1\<rparr>) (b, n - 1, s, u)"
    "is_ext (e\<lparr>e_pblk := e_pblk e + 1, e_lblk := e_lblk e + 1, e_len := e_len e - 1\<rparr>) (b + 1, n - 1, s + 1, u)"
    using w by (simp_all add: is_ext_def is_uninit_def)
qed

lemma ext_map_simp [simp]: "ext_map (b, n, s, u) k = (if b \<le> k \<and> k < b + n then Some (s + (k - b), u) else None)"
  by (simp add: ext_map_def)

lemma apart_small [simp]:
  "apart []" "apart [e] \<longleftrightarrow> ext_ok e" "apart [e, f] \<longleftrightarrow> ext_ok e \<and> ext_ok f \<and> ext_end e \<le> fst f"
  "apart [e, f, g] \<longleftrightarrow> ext_ok e \<and> ext_ok f \<and> ext_ok g \<and> ext_end e \<le> fst f \<and> ext_end e \<le> fst g \<and> ext_end f \<le> fst g"
  by (auto simp: apart_def)

lemma ext_end_simp [simp]: "ext_end (b, n, s, u) = b + n" by (simp add: ext_end_def)

section \<open>Mapping a block\<close>

text \<open>The block \<open>l\<close> is mapped to \<open>v\<close>, and the table has the inode.\<close>

definition mapped_ok :: "('d io_channel \<Rightarrow> bool) \<Rightarrow> ('d io_channel \<Rightarrow> u64 \<Rightarrow> u8 list) \<Rightarrow> nat \<Rightarrow> nat \<Rightarrow> ext list \<Rightarrow> nat \<Rightarrow>
    (nat \<times> bool) option \<Rightarrow> 'd extent_handle \<Rightarrow> 'd extent_handle \<Rightarrow> bool" where
  "mapped_ok io_ok blk bs nb es l v x y \<longleftrightarrow>
     handle_dev io_ok blk bs nb y \<and> stored blk y \<and> kept blk x y \<and>
     (\<exists>fs. root_some y fs \<and> apart fs \<and> emap fs = (emap es)(l := v))"

lemma mapped_moved:
  assumes "mapped_ok io_ok blk bs nb es l v x y" "kept blk w x"
  shows "mapped_ok io_ok blk bs nb es l v w y"
  using assms kept_trans unfolding mapped_ok_def by blast

lemma fix_parents_root:
  assumes d: "handle_dev io_ok blk bs nb x" and r: "root_at x es i" and a: "apart es"
  shows "\<exists>y. ext2fs_extent_fix_parents x = (Inr (), y) \<and> moved x y \<and> root_at y es i"
proof -
  have s: "root_list x es" "ep_curr (cur_path x) = Some (int i)" "i < length es" "xh_level x = 0"
    using r by (auto simp: root_at_def root_list_def)
  obtain e where e: "ext2fs_extent_get EXT2_EXTENT_CURRENT x = (Inr e, x)" "is_ext e (es ! i)" using root_current [OF s(1-3)] by blast
  have ok: "ext_ok (es ! i)" "fst (es ! i) < ext_end (es ! i)" using apart_ok [OF a s(3)] by auto
  have k: "unat (e_lblk e) = fst (es ! i)" "unat (e_lblk e) < 2 ^ 32"
    using e(2) ok(1) by (cases "es ! i"; auto simp: is_ext_def ext_ok_def)+
  have ne: "es \<noteq> []" using s(3) by auto
  obtain y j where y: "moved x y" "root_at y es j" "place_ok es (unat (e_lblk e)) j"
    "ext2fs_extent_goto (e_lblk e) x = (if has_blk (es ! j) (unat (e_lblk e)) then Inr () else Inl EXT2_ET_EXTENT_NOT_FOUND, y)"
    using root_goto [OF s(1) a ne k(2)] by blast
  have b: "has_blk (es ! i) (unat (e_lblk e))" using k(1) ok(2) by (simp add: has_blk_def)
  then have "j = i" using place_covers [OF a y(3) s(3)] by simp
  then show ?thesis
    using y b d s(2,4) e(1) by (intro exI [of _ y]) (simp add: ext2fs_extent_fix_parents_def handle_dev_def)
qed

text \<open>The neighbours of the current extent.\<close>

lemma neighbour_next:
  assumes "root_at x es i"
  shows "\<exists>y nx. neighbour EXT2_EXTENT_NEXT_LEAF EXT2_ET_EXTENT_NO_NEXT x = (Inr nx, y) \<and> moved x y \<and>
    (case nx of Some e \<Rightarrow> i + 1 < length es \<and> is_ext e (es ! (i + 1)) \<and> root_at y es (i + 1) | None \<Rightarrow> i + 1 = length es \<and> y = x)"
proof -
  have "i < length es" using assms by (simp add: root_at_def)
  then show ?thesis
    using root_next [OF assms, of EXT2_EXTENT_NEXT_LEAF] by (cases "i + 1 < length es") (auto simp: neighbour_def split: prod.splits)
qed

lemma neighbour_prev:
  assumes "root_at x es i"
  shows "\<exists>y pv. neighbour EXT2_EXTENT_PREV_LEAF EXT2_ET_EXTENT_NO_PREV x = (Inr pv, y) \<and> moved x y \<and>
    (case pv of Some e \<Rightarrow> 0 < i \<and> is_ext e (es ! (i - 1)) \<and> root_at y es (i - 1) | None \<Rightarrow> i = 0 \<and> y = x)"
  using root_prev [OF assms, of EXT2_EXTENT_PREV_LEAF] by (cases "0 < i") (auto simp: neighbour_def split: prod.splits)

text \<open>What the cases have in common: the extent at the place, and the new one.\<close>

definition map_case :: "('d io_channel \<Rightarrow> bool) \<Rightarrow> ('d io_channel \<Rightarrow> u64 \<Rightarrow> u8 list) \<Rightarrow> nat \<Rightarrow> nat \<Rightarrow> 'd extent_handle \<Rightarrow>
    ext list \<Rightarrow> nat \<Rightarrow> u64 \<Rightarrow> u64 \<Rightarrow> bool \<Rightarrow> ext2fs_extent \<Rightarrow> ext2fs_extent \<Rightarrow> bool" where
  "map_case io_ok blk bs nb x es j l p un e newe \<longleftrightarrow>
     handle_dev io_ok blk bs nb x \<and> root_at x es j \<and> apart es \<and> length es \<le> 2 \<and> unat l < 2 ^ 32 \<and> unat p < 2 ^ 48 \<and>
     is_ext e (es ! j) \<and> place_ok es (unat l) j \<and> (p \<noteq> 0 \<longrightarrow> is_ext newe (unat l, 1, unat p, un))"

definition next_is :: "ext list \<Rightarrow> nat \<Rightarrow> ext2fs_extent option \<Rightarrow> bool" where
  "next_is es j nx \<longleftrightarrow> (case nx of Some e \<Rightarrow> j + 1 < length es \<and> is_ext e (es ! (j + 1)) | None \<Rightarrow> j + 1 = length es)"

definition prev_is :: "ext list \<Rightarrow> nat \<Rightarrow> ext2fs_extent option \<Rightarrow> bool" where
  "prev_is es j pv \<longleftrightarrow> (case pv of Some e \<Rightarrow> 0 < j \<and> is_ext e (es ! (j - 1)) | None \<Rightarrow> j = 0)"

definition map_to :: "u64 \<Rightarrow> bool \<Rightarrow> (nat \<times> bool) option" where
  "map_to p un = (if p = 0 then None else Some (unat p, un))"

lemma new_ok: "unat (l :: u64) < 2 ^ 32 \<Longrightarrow> p \<noteq> 0 \<Longrightarrow> unat (p :: u64) < 2 ^ 48 \<Longrightarrow> ext_ok (unat l, 1, unat p, un)"
  by (simp add: ext_ok_def unat_gt_0)

lemma map_caseE:
  assumes "map_case io_ok blk bs nb x es j l p un e newe"
  obtains as bs' b n s u where "handle_dev io_ok blk bs nb x" "es = as @ (b, n, s, u) # bs'" "j = length as" "root_at x es j"
    "apart es" "length as + length bs' \<le> 1" "unat l < 2 ^ 32" "unat p < 2 ^ 48" "is_ext e (b, n, s, u)"
    "ext_ok (b, n, s, u)" "\<forall>f \<in> set as. ext_end f \<le> b" "\<forall>f \<in> set bs'. b + n \<le> fst f" "0 < n" "as = [] \<or> b \<le> unat l"
    "bs' \<noteq> [] \<longrightarrow> unat l < fst (hd bs')" "p \<noteq> 0 \<longrightarrow> is_ext newe (unat l, 1, unat p, un)"
proof -
  have j: "j < length es" using assms by (simp add: map_case_def root_at_def)
  obtain b n s u where e: "es ! j = (b, n, s, u)" by (metis prod.exhaust)
  let ?as = "take j es" and ?bs = "drop (j + 1) es"
  have es: "es = ?as @ (b, n, s, u) # ?bs" using id_take_nth_drop [OF j] e by simp
  have a: "apart (?as @ (b, n, s, u) # ?bs)" using assms es by (simp add: map_case_def)
  have lj: "j = length ?as" using j by simp
  have h: "?bs \<noteq> [] \<Longrightarrow> unat l < fst (hd ?bs)"
    using assms by (auto simp: map_case_def place_ok_def hd_drop_conv_nth)
  have n: "0 < n" using apart_parts(3) [OF a] by (simp add: ext_ok_def)
  show ?thesis
  proof (rule that [OF _ es lj])
    show "length ?as + length ?bs \<le> 1" using assms j by (auto simp: map_case_def)
    show "?as = [] \<or> b \<le> unat l" using assms e by (auto simp: map_case_def place_ok_def)
    show "?bs \<noteq> [] \<longrightarrow> unat l < fst (hd ?bs)" using h by blast
    show "\<forall>f \<in> set ?as. ext_end f \<le> b" "\<forall>f \<in> set ?bs. b + n \<le> fst f" "ext_ok (b, n, s, u)"
      using apart_parts(1-3) [OF a] by simp_all
  qed (use assms e n in \<open>auto simp: map_case_def\<close>)
qed

lemma bounds_hd:
  "apart es \<Longrightarrow> es = as @ e # bs \<Longrightarrow> (bs \<noteq> [] \<longrightarrow> k < fst (hd bs)) \<Longrightarrow> \<forall>f \<in> set bs. k + 1 \<le> fst f"
  by (cases bs) (auto simp: apart_def sorted_wrt_append ext_ok_def ext_end_def dest!: bspec split: prod.splits)

context block_device
begin

lemma mapped_root:
  assumes "handle_dev io_ok blk bs nb y" "stored blk y" "kept blk x y" "root_at y fs i" "apart fs \<and> emap fs = (emap es)(l := v)"
  shows "mapped_ok io_ok blk bs nb es l v x y"
  using assms root_at_some unfolding mapped_ok_def by blast

lemma mapped_fix:
  assumes "handle_dev io_ok blk bs nb y" "stored blk y" "kept blk x y" "root_at y fs i" "apart fs \<and> emap fs = (emap es)(l := v)"
  shows "\<exists>z. ext2fs_extent_fix_parents y = (Inr (), z) \<and> mapped_ok io_ok blk bs nb es l v x z"
proof -
  obtain z where z: "ext2fs_extent_fix_parents y = (Inr (), z)" "moved y z" "root_at z fs i"
    using fix_parents_root [OF assms(1,4)] assms(5) by blast
  have "mapped_ok io_ok blk bs nb es l v x z"
    by (rule mapped_root [OF _ _ _ z(3) assms(5)])
      (use assms(1-3) kept_moved [OF z(2)] kept_trans [OF assms(3)] in auto)
  then show ?thesis using z(1) by blast
qed

lemma map_unmapped_ok:
  assumes c: "map_case io_ok blk bs nb x es j l p un e newe" and p: "p \<noteq> 0" and out: "\<not> has_blk (es ! j) (unat l)"
    and nx: "next_is es j nx" and mx: "mx = (if un then 0x7FFF else 0x8000)"
  shows "\<exists>y. map_unmapped l p un mx e nx newe x = (Inr (), y) \<and> mapped_ok io_ok blk bs nb es (unat l) (Some (unat p, un)) x y"
proof -
  from c obtain as bs' b n s u where d: "handle_dev io_ok blk bs nb x" and es: "es = as @ (b, n, s, u) # bs'" and j: "j = length as"
    and r: "root_at x es j" and a: "apart es" and len: "length as + length bs' \<le> 1" and l: "unat l < 2 ^ 32" "unat p < 2 ^ 48"
    and e: "is_ext e (b, n, s, u)" "ext_ok (b, n, s, u)" and hole: "\<forall>f \<in> set as. ext_end f \<le> b" "\<forall>f \<in> set bs'. b + n \<le> fst f" "0 < n"
      "as = [] \<or> b \<le> unat l" and hd: "bs' \<noteq> [] \<longrightarrow> unat l < fst (hd bs')" and new: "p \<noteq> 0 \<longrightarrow> is_ext newe (unat l, 1, unat p, un)"
    by (rule map_caseE)
  note N = new [rule_format, OF p]
  have ej: "es ! j = (b, n, s, u)" using es j by simp
  have out': "unat l < b \<or> b + n \<le> unat l" using out by (auto simp: ej has_blk_def)
  have bs_l: "\<forall>f \<in> set bs'. unat l + 1 \<le> fst f" by (rule bounds_hd [OF a es hd])
  have p0: "p \<noteq> 0 \<longrightarrow> 0 < unat p" by (simp add: unat_gt_0)
  have lt: "length es < 4" using es len by simp
  have es1: "es = as @ [(b, n, s, u)] @ bs'" "es = (as @ [(b, n, s, u)]) @ [] @ bs'" "es = as @ [] @ (b, n, s, u) # bs'"
    using es by simp_all
  let ?M = "(emap es)(unat l := Some (unat p, un))"
  let ?g1 = "follows l p un e \<and> has_room mx e" and ?g2 = "precedes l p un e \<and> has_room mx e"
  let ?g3 = "case nx of Some m \<Rightarrow> precedes l p un m \<and> has_room mx m | None \<Rightarrow> False"
  have fixd: "\<exists>y. map_unmapped l p un mx e nx newe x = (Inr (), y) \<and> mapped_ok io_ok blk bs nb es (unat l) (Some (unat p, un)) x y"
    if "handle_dev io_ok blk bs nb y" "stored blk y" "kept blk x y" "root_at y fs i" "apart fs \<and> emap fs = ?M"
      "(if ?g1 then ext2fs_extent_replace (grow_right e) x else if ?g2 then ext2fs_extent_replace (grow_left e) x
        else if ?g3 then replace_at EXT2_EXTENT_NEXT_LEAF grow_left x
        else if l < e_lblk e then ext2fs_extent_insert 0 newe x else ext2fs_extent_insert EXT2_EXTENT_INSERT_AFTER newe x) = (Inr (), y)"
    for y fs i
    using mapped_fix [OF that(1-5)] that(6) unfolding map_unmapped_def by simp
  consider (right) ?g1 | (left) "\<not> ?g1" ?g2 | (nxt) "\<not> ?g1" "\<not> ?g2" ?g3
    | (before) "\<not> ?g1" "\<not> ?g2" "\<not> ?g3" "l < e_lblk e" | (after) "\<not> ?g1" "\<not> ?g2" "\<not> ?g3" "\<not> l < e_lblk e" by blast
  then show ?thesis
  proof cases
    case right
    then have g: "unat l = b + n" "unat p = s + n" "un = u" "n + 1 \<le> (if u then 0x7FFF else 0x8000)"
      using follows_nat [OF e] has_room_nat [OF e] mx by (auto split: if_splits)
    have ok: "ext_ok (b, n + 1, s, u)" using e(2) g l by (auto simp: ext_ok_def split: if_splits)
    obtain y where y: "ext2fs_extent_replace (grow_right e) x = (Inr (), y)" "handle_dev io_ok blk bs nb y" "stored blk y"
      "kept blk x y" "root_at y (es[j := (b, n + 1, s, u)]) j" using list_replace [OF d r is_ext_grow(1) [OF e] ok] by blast
    have L: "es[j := (b, n + 1, s, u)] = as @ [(b, n + 1, s, u)] @ bs'" using es j by simp
    have ex: "apart (es[j := (b, n + 1, s, u)]) \<and> emap (es[j := (b, n + 1, s, u)]) = ?M"
      unfolding L by (subst es1(1), rule exchange [where lo = b and hi = "unat l + 1"])
        (use a es1(1) ok hole bs_l g in \<open>auto simp: less_Suc_eq\<close>)
    show ?thesis by (rule fixd [OF y(2-5) ex]) (use y(1) right in simp)
  next
    case left
    then have g: "unat l + 1 = b" "unat p + 1 = s" "un = u" "n + 1 \<le> (if u then 0x7FFF else 0x8000)"
      using precedes_nat [OF e l] has_room_nat [OF e] mx by (auto split: if_splits)
    have as: "as = []" using hole(4) g(1) by simp
    have ok: "ext_ok (b - 1, n + 1, s - 1, u)" using e(2) g l p0 p by (auto simp: ext_ok_def split: if_splits)
    have E: "is_ext (grow_left e) (b - 1, n + 1, s - 1, u)" by (rule is_ext_grow(2) [OF e]) (use g in auto)
    obtain y where y: "ext2fs_extent_replace (grow_left e) x = (Inr (), y)" "handle_dev io_ok blk bs nb y" "stored blk y"
      "kept blk x y" "root_at y (es[j := (b - 1, n + 1, s - 1, u)]) j" using list_replace [OF d r E ok] by blast
    have L: "es[j := (b - 1, n + 1, s - 1, u)] = as @ [(b - 1, n + 1, s - 1, u)] @ bs'" using es j by simp
    have ex: "apart (es[j := (b - 1, n + 1, s - 1, u)]) \<and> emap (es[j := (b - 1, n + 1, s - 1, u)]) = ?M"
      unfolding L by (subst es1(1), rule exchange [where lo = "unat l" and hi = "b + n"])
        (use a es1(1) ok hole g as in \<open>auto simp: less_Suc_eq\<close>)
    show ?thesis by (rule fixd [OF y(2-5) ex]) (use y(1) left in simp)
  next
    case nxt
    then obtain m where m: "nx = Some m" "precedes l p un m" "has_room mx m" by (auto split: option.splits)
    obtain b2 n2 s2 u2 cs where bs': "bs' = (b2, n2, s2, u2) # cs" "is_ext m (b2, n2, s2, u2)"
      using nx m(1) es j by (cases bs') (auto simp: next_is_def nth_append)
    have ok2: "ext_ok (b2, n2, s2, u2)" using a by (simp add: es bs'(1) apart_def)
    have g: "unat l + 1 = b2" "unat p + 1 = s2" "un = u2" "n2 + 1 \<le> (if u2 then 0x7FFF else 0x8000)"
      using m(2,3) precedes_nat [OF bs'(2) ok2 l] has_room_nat [OF bs'(2) ok2] mx by (auto split: if_splits)
    have bn: "b + n \<le> unat l" using out' hole(2,3) g(1) bs'(1) by auto
    have ok: "ext_ok (b2 - 1, n2 + 1, s2 - 1, u2)" using ok2 g l p0 p by (auto simp: ext_ok_def split: if_splits)
    obtain f x1 where x1: "ext2fs_extent_get EXT2_EXTENT_NEXT_LEAF x = (Inr f, x1)" "is_ext f (es ! (j + 1))" "root_at x1 es (j + 1)" "moved x x1"
      using root_next [OF r, of EXT2_EXTENT_NEXT_LEAF] es j bs'(1) by auto
    have F: "is_ext f (b2, n2, s2, u2)" using x1(2) es j bs'(1) by (simp add: nth_append)
    have E: "is_ext (grow_left f) (b2 - 1, n2 + 1, s2 - 1, u2)" by (rule is_ext_grow(2) [OF F ok2]) (use g in auto)
    have d1: "handle_dev io_ok blk bs nb x1" using kept_moved(2) [OF x1(4)] d by blast
    obtain y where y: "ext2fs_extent_replace (grow_left f) x1 = (Inr (), y)" "handle_dev io_ok blk bs nb y" "stored blk y"
      "kept blk x1 y" "root_at y (es[j + 1 := (b2 - 1, n2 + 1, s2 - 1, u2)]) (j + 1)" using list_replace [OF d1 x1(3) E ok] by blast
    have k: "kept blk x y" using kept_trans [OF kept_moved(1) [OF x1(4)] y(4)] .
    let ?as = "as @ [(b, n, s, u)]"
    have L: "es[j + 1 := (b2 - 1, n2 + 1, s2 - 1, u2)] = ?as @ [(b2 - 1, n2 + 1, s2 - 1, u2)] @ cs"
      using es j bs'(1) by (simp add: list_update_append)
    have e3: "es = ?as @ [(b2, n2, s2, u2)] @ cs" using es bs'(1) by simp
    have ex: "apart (es[j + 1 := (b2 - 1, n2 + 1, s2 - 1, u2)]) \<and> emap (es[j + 1 := (b2 - 1, n2 + 1, s2 - 1, u2)]) = ?M"
      unfolding L by (subst e3, rule exchange [where lo = "unat l" and hi = "b2 + n2"])
        (use a e3 ok hole g bn apart_parts(2) [of ?as "(b2, n2, s2, u2)" cs] in \<open>auto simp: less_Suc_eq intro: order_trans\<close>)
    show ?thesis by (rule fixd [OF y(2,3) k y(5) ex])
      (simp only: nxt simp_thms if_False if_True replace_at_def x1(1) prod.case sum.case y(1))
  next
    case before
    have lb: "unat l < b" using before(4) is_ext_word(1) [OF e(1)] by (simp add: word_less_nat_alt)
    have as: "as = []" using hole(4) lb by simp
    obtain y where y: "ext2fs_extent_insert 0 newe x = (Inr (), y)" "handle_dev io_ok blk bs nb y" "stored blk y"
      "kept blk x y" "root_at y (take j es @ (unat l, 1, unat p, un) # drop j es) j" using list_insert_before [OF d r lt N new_ok [OF l(1) p l(2)]] by blast
    have L: "take j es @ (unat l, 1, unat p, un) # drop j es = as @ [(unat l, 1, unat p, un)] @ (b, n, s, u) # bs'" using es j by simp
    have ex: "apart (take j es @ (unat l, 1, unat p, un) # drop j es) \<and> emap (take j es @ (unat l, 1, unat p, un) # drop j es) = ?M"
      unfolding L by (subst es1(3), rule exchange [where lo = "unat l" and hi = "unat l + 1"])
        (use a es1(3) new_ok [OF l(1) p l(2)] hole lb as in \<open>auto simp: less_Suc_eq\<close>)
    show ?thesis by (rule fixd [OF y(2-5) ex]) (simp only: before simp_thms if_False if_True y(1))
  next
    case after
    have lb: "b + n \<le> unat l" using after(4) is_ext_word(1) [OF e(1)] out' by (simp add: word_less_nat_alt)
    obtain y where y: "ext2fs_extent_insert EXT2_EXTENT_INSERT_AFTER newe x = (Inr (), y)" "handle_dev io_ok blk bs nb y" "stored blk y"
      "kept blk x y" "root_at y (take (j + 1) es @ (unat l, 1, unat p, un) # drop (j + 1) es) (j + 1)"
      using list_insert_after [OF d r lt N new_ok [OF l(1) p l(2)]] by blast
    let ?as = "as @ [(b, n, s, u)]"
    have L: "take (j + 1) es @ (unat l, 1, unat p, un) # drop (j + 1) es = ?as @ [(unat l, 1, unat p, un)] @ bs'" using es j by simp
    have ex: "apart (take (j + 1) es @ (unat l, 1, unat p, un) # drop (j + 1) es) \<and> emap (take (j + 1) es @ (unat l, 1, unat p, un) # drop (j + 1) es) = ?M"
      unfolding L by (subst es1(2), rule exchange [where lo = "unat l" and hi = "unat l + 1"])
        (use a es1(2) new_ok [OF l(1) p l(2)] hole lb bs_l in \<open>auto simp: less_Suc_eq\<close>)
    show ?thesis by (rule fixd [OF y(2-5) ex]) (simp only: after simp_thms if_False if_True y(1))
  qed
qed

lemma map_only_ok:
  assumes c: "map_case io_ok blk bs nb x es j l p un e newe" and at: "fst (es ! j) = unat l" "ext_end (es ! j) = unat l + 1"
  shows "\<exists>y. map_only p newe x = (Inr (), y) \<and> mapped_ok io_ok blk bs nb es (unat l) (map_to p un) x y"
proof -
  from c obtain as bs' b n s u where d: "handle_dev io_ok blk bs nb x" and es: "es = as @ (b, n, s, u) # bs'" and j: "j = length as"
    and r: "root_at x es j" and a: "apart es" and len: "length as + length bs' \<le> 1" and l: "unat l < 2 ^ 32" "unat p < 2 ^ 48"
    and e: "is_ext e (b, n, s, u)" "ext_ok (b, n, s, u)" and hole: "\<forall>f \<in> set as. ext_end f \<le> b" "\<forall>f \<in> set bs'. b + n \<le> fst f" "0 < n"
      "as = [] \<or> b \<le> unat l" and hd: "bs' \<noteq> [] \<longrightarrow> unat l < fst (hd bs')" and new: "p \<noteq> 0 \<longrightarrow> is_ext newe (unat l, 1, unat p, un)"
    by (rule map_caseE)
  have lt: "length es < 4" using es len by simp
  have es1: "es = as @ [(b, n, s, u)] @ bs'" using es by simp
  let ?M = "(emap es)(unat l := map_to p un)"
  have g: "b = unat l" "n = 1" using at es j by auto
  show ?thesis
  proof (cases "p = 0")
    case False
    obtain y where y: "ext2fs_extent_replace newe x = (Inr (), y)" "handle_dev io_ok blk bs nb y" "stored blk y"
      "kept blk x y" "root_at y (es[j := (unat l, 1, unat p, un)]) j" using list_replace [OF d r new [rule_format, OF False] new_ok [OF l(1) False l(2)]] by blast
    have L: "es[j := (unat l, 1, unat p, un)] = as @ [(unat l, 1, unat p, un)] @ bs'" using es j by simp
    have ex: "apart (es[j := (unat l, 1, unat p, un)]) \<and> emap (es[j := (unat l, 1, unat p, un)]) = ?M"
      unfolding L by (subst es1, rule exchange [where lo = "unat l" and hi = "unat l + 1"])
        (use a es1 new_ok [OF l(1) False l(2)] hole g False in \<open>auto simp: map_to_def\<close>)
    show ?thesis using mapped_root [OF y(2-5) ex] y(1) False by (auto simp: map_only_def)
  next
    case True
    obtain y where y: "ext2fs_extent_delete 0 x = (Inr (), y)" "handle_dev io_ok blk bs nb y" "stored blk y" "kept blk x y"
      "if length es = 1 then root_some y [] else \<exists>k. root_at y (take j es @ drop (j + 1) es) k" using list_delete [OF d r] by blast
    have L: "take j es @ drop (j + 1) es = as @ [] @ bs'" using es j by simp
    have ex: "apart (take j es @ drop (j + 1) es) \<and> emap (take j es @ drop (j + 1) es) = ?M"
      unfolding L by (subst es1, rule exchange [where lo = "unat l" and hi = "unat l + 1"])
        (use a es1 hole g True in \<open>auto simp: map_to_def\<close>)
    show ?thesis
    proof (cases "length es = 1")
      case one: True
      then have nil: "take j es @ drop (j + 1) es = []" using es j by simp
      have "root_some y []" using y(5) one by simp
      then have "ep_curr (cur_path y) = None" by (auto simp: root_some_def split: option.splits)
      then have "ext2fs_extent_fix_parents y = (Inl EXT2_ET_NO_CURRENT_NODE, y)"
        using y(2) by (simp add: ext2fs_extent_fix_parents_def handle_dev_def)
      then have "map_only p newe x = (Inr (), y)" using True y(1) by (simp add: map_only_def)
      moreover have "mapped_ok io_ok blk bs nb es (unat l) (map_to p un) x y"
        unfolding mapped_ok_def using y(2-4) \<open>root_some y []\<close> ex [unfolded nil] by blast
      ultimately show ?thesis by blast
    next
      case False
      then obtain k where k: "root_at y (take j es @ drop (j + 1) es) k" using y(5) by auto
      obtain z where "ext2fs_extent_fix_parents y = (Inr (), z)" "mapped_ok io_ok blk bs nb es (unat l) (map_to p un) x z"
        using mapped_fix [OF y(2-4) k ex] by blast
      then show ?thesis using True y(1) by (auto simp: map_only_def)
    qed
  qed
qed

lemma map_last_ok:
  assumes c: "map_case io_ok blk bs nb x es j l p un e newe" and at: "fst (es ! j) < unat l" "ext_end (es ! j) = unat l + 1"
    and nx: "next_is es j nx" and mx: "mx = (if un then 0x7FFF else 0x8000)"
  shows "\<exists>y. map_last l p un mx e nx newe x = (Inr (), y) \<and> mapped_ok io_ok blk bs nb es (unat l) (map_to p un) x y"
proof -
  from c obtain as bs' b n s u where d: "handle_dev io_ok blk bs nb x" and es: "es = as @ (b, n, s, u) # bs'" and j: "j = length as"
    and r: "root_at x es j" and a: "apart es" and len: "length as + length bs' \<le> 1" and l: "unat l < 2 ^ 32" "unat p < 2 ^ 48"
    and e: "is_ext e (b, n, s, u)" "ext_ok (b, n, s, u)" and hole: "\<forall>f \<in> set as. ext_end f \<le> b" "\<forall>f \<in> set bs'. b + n \<le> fst f" "0 < n"
      "as = [] \<or> b \<le> unat l" and hd: "bs' \<noteq> [] \<longrightarrow> unat l < fst (hd bs')" and new: "p \<noteq> 0 \<longrightarrow> is_ext newe (unat l, 1, unat p, un)"
    by (rule map_caseE)
  have p0: "p \<noteq> 0 \<longrightarrow> 0 < unat p" by (simp add: unat_gt_0)
  have lt: "length es < 4" using es len by simp
  have es1: "es = as @ [(b, n, s, u)] @ bs'" using es by simp
  let ?M = "(emap es)(unat l := map_to p un)"
  have g: "b < unat l" "b + n = unat l + 1" using at es j by auto
  have ok1: "ext_ok (b, n - 1, s, u)" using e(2) g by (auto simp: ext_ok_def split: if_splits)
  have fin: "\<exists>y. map_last l p un mx e nx newe x = (Inr (), y) \<and> mapped_ok io_ok blk bs nb es (unat l) (map_to p un) x y"
    if H: "(if p = 0 then (Inr e, x) else case (if (case nx of Some m \<Rightarrow> precedes l p un m \<and> has_room mx m | None \<Rightarrow> False)
           then replace_at EXT2_EXTENT_NEXT_LEAF grow_left x else ext2fs_extent_insert EXT2_EXTENT_INSERT_AFTER newe x) of
          (Inl e, x) \<Rightarrow> (Inl e, x) | (Inr _, x) \<Rightarrow> ext2fs_extent_get EXT2_EXTENT_PREV_LEAF x) = (Inr f, y)"
      "is_ext f (b, n, s, u)" "handle_dev io_ok blk bs nb y" "kept blk x y" "root_at y fs j"
      "apart (fs[j := (b, n - 1, s, u)]) \<and> emap (fs[j := (b, n - 1, s, u)]) = ?M" for f y fs
  proof -
    obtain z where z: "ext2fs_extent_replace (f\<lparr>e_len := e_len f - 1\<rparr>) y = (Inr (), z)" "handle_dev io_ok blk bs nb z" "stored blk z"
      "kept blk y z" "root_at z (fs[j := (b, n - 1, s, u)]) j"
      using list_replace [OF H(3,5) is_ext_shrink(1) [OF H(2) e(2)] ok1] by blast
    have "mapped_ok io_ok blk bs nb es (unat l) (map_to p un) x z"
      by (rule mapped_root [OF z(2,3) kept_trans [OF H(4) z(4)] z(5) H(6)])
    then show ?thesis using H(1) z(1) by (auto simp: map_last_def)
  qed
  consider (unmap) "p = 0" | (nxt) m where "p \<noteq> 0" "nx = Some m" "precedes l p un m" "has_room mx m"
    | (new) "p \<noteq> 0" "\<not> (case nx of Some m \<Rightarrow> precedes l p un m \<and> has_room mx m | None \<Rightarrow> False)"
    by (cases nx) auto
  then show ?thesis
  proof cases
    case unmap
    have L: "es[j := (b, n - 1, s, u)] = as @ [(b, n - 1, s, u)] @ bs'" using es j by simp
    have ex: "apart (es[j := (b, n - 1, s, u)]) \<and> emap (es[j := (b, n - 1, s, u)]) = ?M"
      unfolding L by (subst es1, rule exchange [where lo = b and hi = "b + n"])
        (use a es1 ok1 hole g unmap in \<open>auto simp: map_to_def\<close>)
    show ?thesis by (rule fin [OF _ e(1) d _ r ex]) (use unmap kept_moved(1) [OF moved_refl] in auto)
  next
    case nxt
    obtain b2 n2 s2 u2 cs where bs': "bs' = (b2, n2, s2, u2) # cs" "is_ext m (b2, n2, s2, u2)"
      using nx nxt(2) es j by (cases bs') (auto simp: next_is_def nth_append)
    have ok2: "ext_ok (b2, n2, s2, u2)" using a by (simp add: es bs'(1) apart_def)
    have g2: "unat l + 1 = b2" "unat p + 1 = s2" "un = u2" "n2 + 1 \<le> (if u2 then 0x7FFF else 0x8000)"
      using nxt(3,4) precedes_nat [OF bs'(2) ok2 l] has_room_nat [OF bs'(2) ok2] mx by (auto split: if_splits)
    have ok3: "ext_ok (b2 - 1, n2 + 1, s2 - 1, u2)" using ok2 g2 l p0 nxt(1) by (auto simp: ext_ok_def split: if_splits)
    obtain f x1 where x1: "ext2fs_extent_get EXT2_EXTENT_NEXT_LEAF x = (Inr f, x1)" "is_ext f (es ! (j + 1))" "root_at x1 es (j + 1)" "moved x x1"
      using root_next [OF r, of EXT2_EXTENT_NEXT_LEAF] es j bs'(1) by auto
    have F: "is_ext f (b2, n2, s2, u2)" using x1(2) es j bs'(1) by (simp add: nth_append)
    have E: "is_ext (grow_left f) (b2 - 1, n2 + 1, s2 - 1, u2)" by (rule is_ext_grow(2) [OF F ok2]) (use g2 in auto)
    have d1: "handle_dev io_ok blk bs nb x1" using kept_moved(2) [OF x1(4)] d by blast
    let ?fs = "es[j + 1 := (b2 - 1, n2 + 1, s2 - 1, u2)]"
    obtain y where y: "ext2fs_extent_replace (grow_left f) x1 = (Inr (), y)" "handle_dev io_ok blk bs nb y" "stored blk y"
      "kept blk x1 y" "root_at y ?fs (j + 1)" using list_replace [OF d1 x1(3) E ok3] by blast
    obtain k z where z: "ext2fs_extent_get EXT2_EXTENT_PREV_LEAF y = (Inr k, z)" "is_ext k (?fs ! j)" "root_at z ?fs j" "moved y z"
      using root_prev [OF y(5), of EXT2_EXTENT_PREV_LEAF] by auto
    have k: "is_ext k (b, n, s, u)" using z(2) es j by (simp add: nth_append)
    have kz: "kept blk x z" using kept_trans [OF kept_moved(1) [OF x1(4)] kept_trans [OF y(4) kept_moved(1) [OF z(4)]]] .
    have L: "?fs[j := (b, n - 1, s, u)] = as @ [(b, n - 1, s, u), (b2 - 1, n2 + 1, s2 - 1, u2)] @ cs"
      using es j bs'(1) by (simp add: list_update_append)
    have e3: "es = as @ [(b, n, s, u), (b2, n2, s2, u2)] @ cs" using es bs'(1) by simp
    have ex: "apart (?fs[j := (b, n - 1, s, u)]) \<and> emap (?fs[j := (b, n - 1, s, u)]) = ?M"
      unfolding L by (subst e3, rule exchange [where lo = b and hi = "b2 + n2"])
        (use a e3 ok1 ok3 hole g g2 nxt(1) apart_parts(2) [of "as @ [(b, n, s, u)]" "(b2, n2, s2, u2)" cs]
          in \<open>auto simp: map_to_def\<close>)
    show ?thesis
      by (rule fin [OF _ k _ kz z(3) ex])
        (use nxt x1(1) y(1,2) z(1) kept_moved(2) [OF z(4)] in \<open>auto simp: replace_at_def\<close>)
  next
    case new
    let ?N = "(unat l, 1, unat p, un)" and ?fs = "take (j + 1) es @ (unat l, 1, unat p, un) # drop (j + 1) es"
    obtain y where y: "ext2fs_extent_insert EXT2_EXTENT_INSERT_AFTER newe x = (Inr (), y)" "handle_dev io_ok blk bs nb y" "stored blk y"
      "kept blk x y" "root_at y ?fs (j + 1)"
      using list_insert_after [OF d r lt _ new_ok [OF l(1) new(1) l(2)]] \<open>p \<noteq> 0 \<longrightarrow> is_ext newe (unat l, 1, unat p, un)\<close> new(1) by blast
    have fs: "?fs = as @ [(b, n, s, u), ?N] @ bs'" using es j by simp
    obtain k z where z: "ext2fs_extent_get EXT2_EXTENT_PREV_LEAF y = (Inr k, z)" "is_ext k (?fs ! j)" "root_at z ?fs j" "moved y z"
      using root_prev [OF y(5), of EXT2_EXTENT_PREV_LEAF] by auto
    have k: "is_ext k (b, n, s, u)" using z(2) j unfolding fs by simp
    have kz: "kept blk x z" using kept_trans [OF y(4) kept_moved(1) [OF z(4)]] .
    have L: "?fs[j := (b, n - 1, s, u)] = as @ [(b, n - 1, s, u), ?N] @ bs'" unfolding fs using j by simp
    have ex: "apart (?fs[j := (b, n - 1, s, u)]) \<and> emap (?fs[j := (b, n - 1, s, u)]) = ?M"
      unfolding L by (subst es1, rule exchange [where lo = b and hi = "b + n"])
        (use a es1 ok1 new_ok [OF l(1) new(1) l(2)] hole g new(1) in \<open>auto simp: map_to_def\<close>)
    show ?thesis
      by (rule fin [OF _ k _ kz z(3) ex]) (use new y(1,2) z(1) kept_moved(2) [OF z(4)] in auto)
  qed
qed

lemma map_first_ok:
  assumes c: "map_case io_ok blk bs nb x es j l p un e newe" and at: "fst (es ! j) = unat l" "unat l + 1 < ext_end (es ! j)"
    and pv: "prev_is es j pv" and mx: "mx = (if un then 0x7FFF else 0x8000)"
  shows "\<exists>y. map_first l p un mx e pv newe x = (Inr (), y) \<and> mapped_ok io_ok blk bs nb es (unat l) (map_to p un) x y"
proof -
  from c obtain as bs' b n s u where d: "handle_dev io_ok blk bs nb x" and es: "es = as @ (b, n, s, u) # bs'" and j: "j = length as"
    and r: "root_at x es j" and a: "apart es" and len: "length as + length bs' \<le> 1" and l: "unat l < 2 ^ 32" "unat p < 2 ^ 48"
    and e: "is_ext e (b, n, s, u)" "ext_ok (b, n, s, u)" and hole: "\<forall>f \<in> set as. ext_end f \<le> b" "\<forall>f \<in> set bs'. b + n \<le> fst f" "0 < n"
      "as = [] \<or> b \<le> unat l" and hd: "bs' \<noteq> [] \<longrightarrow> unat l < fst (hd bs')" and new: "p \<noteq> 0 \<longrightarrow> is_ext newe (unat l, 1, unat p, un)"
    by (rule map_caseE)
  have lt: "length es < 4" using es len by simp
  have es1: "es = as @ [(b, n, s, u)] @ bs'" using es by simp
  let ?M = "(emap es)(unat l := map_to p un)"
  have g: "b = unat l" "1 < n" using at es j by auto
  let ?X = "(b + 1, n - 1, s + 1, u)"
  have ok1: "ext_ok ?X" using e(2) g by (auto simp: ext_ok_def split: if_splits)
  have fin: "\<exists>y. map_first l p un mx e pv newe x = (Inr (), y) \<and> mapped_ok io_ok blk bs nb es (unat l) (map_to p un) x y"
    if H: "(if p = 0 then (Inr e, x) else case (if (case pv of Some m \<Rightarrow> follows l p un m \<and> has_room mx m | None \<Rightarrow> False)
           then replace_at EXT2_EXTENT_PREV_LEAF grow_right x else ext2fs_extent_insert 0 newe x) of
          (Inl e, x) \<Rightarrow> (Inl e, x) | (Inr _, x) \<Rightarrow> ext2fs_extent_get EXT2_EXTENT_NEXT_LEAF x) = (Inr f, y)"
      "is_ext f (b, n, s, u)" "handle_dev io_ok blk bs nb y" "kept blk x y" "root_at y fs i"
      "apart (fs[i := ?X]) \<and> emap (fs[i := ?X]) = ?M" for f y fs i
  proof -
    obtain z where z: "ext2fs_extent_replace (f\<lparr>e_pblk := e_pblk f + 1, e_lblk := e_lblk f + 1, e_len := e_len f - 1\<rparr>) y = (Inr (), z)"
      "handle_dev io_ok blk bs nb z" "stored blk z" "kept blk y z" "root_at z (fs[i := ?X]) i"
      using list_replace [OF H(3,5) is_ext_shrink(2) [OF H(2) e(2)] ok1] by blast
    have "mapped_ok io_ok blk bs nb es (unat l) (map_to p un) x z"
      by (rule mapped_root [OF z(2,3) kept_trans [OF H(4) z(4)] z(5) H(6)])
    then show ?thesis using H(1) z(1) by (auto simp: map_first_def)
  qed
  consider (unmap) "p = 0" | (prv) m where "p \<noteq> 0" "pv = Some m" "follows l p un m" "has_room mx m"
    | (new) "p \<noteq> 0" "\<not> (case pv of Some m \<Rightarrow> follows l p un m \<and> has_room mx m | None \<Rightarrow> False)"
    by (cases pv) auto
  then show ?thesis
  proof cases
    case unmap
    have L: "es[j := ?X] = as @ [?X] @ bs'" using es j by simp
    have ex: "apart (es[j := ?X]) \<and> emap (es[j := ?X]) = ?M"
      unfolding L by (subst es1, rule exchange [where lo = b and hi = "b + n"])
        (use a es1 ok1 hole g unmap in \<open>auto simp: map_to_def\<close>)
    show ?thesis by (rule fin [OF _ e(1) d _ r ex]) (use unmap kept_moved(1) [OF moved_refl] in auto)
  next
    case prv
    obtain b2 n2 s2 u2 cs where as: "as = cs @ [(b2, n2, s2, u2)]" "is_ext m (b2, n2, s2, u2)"
      using pv prv(2) es j by (cases as rule: rev_cases) (auto simp: prev_is_def nth_append)
    have ok2: "ext_ok (b2, n2, s2, u2)" using a by (simp add: es as(1) apart_def)
    have g2: "unat l = b2 + n2" "unat p = s2 + n2" "un = u2" "n2 + 1 \<le> (if u2 then 0x7FFF else 0x8000)"
      using prv(3,4) follows_nat [OF as(2) ok2] has_room_nat [OF as(2) ok2] mx by (auto split: if_splits)
    let ?P = "(b2, n2 + 1, s2, u2)"
    have ok3: "ext_ok ?P" using ok2 g2 l by (auto simp: ext_ok_def split: if_splits)
    have j0: "0 < j" "j - 1 = length cs" using j as(1) by auto
    obtain f x1 where x1: "ext2fs_extent_get EXT2_EXTENT_PREV_LEAF x = (Inr f, x1)" "is_ext f (es ! (j - 1))" "root_at x1 es (j - 1)" "moved x x1"
      using root_prev [OF r, of EXT2_EXTENT_PREV_LEAF] j0(1) by auto
    have F: "is_ext f (b2, n2, s2, u2)" using x1(2) es as(1) j0(2) by (simp add: nth_append)
    have d1: "handle_dev io_ok blk bs nb x1" using kept_moved(2) [OF x1(4)] d by blast
    let ?fs = "es[j - 1 := ?P]"
    obtain y where y: "ext2fs_extent_replace (grow_right f) x1 = (Inr (), y)" "handle_dev io_ok blk bs nb y" "stored blk y"
      "kept blk x1 y" "root_at y ?fs (j - 1)" using list_replace [OF d1 x1(3) is_ext_grow(1) [OF F ok2] ok3] by blast
    have j1: "j - 1 + 1 = j" "j < length ?fs" using as(1) es j by simp_all
    obtain k z where z: "ext2fs_extent_get EXT2_EXTENT_NEXT_LEAF y = (Inr k, z)" "is_ext k (?fs ! j)" "root_at z ?fs j" "moved y z"
      using root_next [OF y(5), of EXT2_EXTENT_NEXT_LEAF] unfolding j1(1) using j1(2) by auto
    have fs: "?fs = cs @ [?P, (b, n, s, u)] @ bs'" using es as(1) j0(2) by (simp add: list_update_append)
    have jl: "j = length (cs @ [?P])" using j as(1) by simp
    have k: "is_ext k (b, n, s, u)" using z(2) [unfolded fs] jl by (simp add: nth_append)
    have kz: "kept blk x z" using kept_trans [OF kept_moved(1) [OF x1(4)] kept_trans [OF y(4) kept_moved(1) [OF z(4)]]] .
    have L: "?fs[j := ?X] = cs @ [?P, ?X] @ bs'" unfolding fs by (simp add: jl list_update_append)
    have e3: "es = cs @ [(b2, n2, s2, u2), (b, n, s, u)] @ bs'" using es as(1) by simp
    have ex: "apart (?fs[j := ?X]) \<and> emap (?fs[j := ?X]) = ?M"
      unfolding L by (subst e3, rule exchange [where lo = b2 and hi = "b + n"])
        (use a e3 ok1 ok3 hole g g2 prv(1) apart_parts(1) [of cs "(b2, n2, s2, u2)" "(b, n, s, u) # bs'"]
          in \<open>auto simp: map_to_def\<close>)
    show ?thesis
      by (rule fin [OF _ k _ kz z(3) ex])
        (use prv x1(1) y(1,2) z(1) kept_moved(2) [OF z(4)] in \<open>auto simp: replace_at_def\<close>)
  next
    case new
    let ?N = "(unat l, 1, unat p, un)" and ?fs = "take j es @ (unat l, 1, unat p, un) # drop j es"
    obtain y where y: "ext2fs_extent_insert 0 newe x = (Inr (), y)" "handle_dev io_ok blk bs nb y" "stored blk y"
      "kept blk x y" "root_at y ?fs j"
      using list_insert_before [OF d r lt _ new_ok [OF l(1) new(1) l(2)]] \<open>p \<noteq> 0 \<longrightarrow> is_ext newe (unat l, 1, unat p, un)\<close> new(1) by blast
    have fs: "?fs = as @ [?N, (b, n, s, u)] @ bs'" using es j by simp
    have j1: "j + 1 < length ?fs" unfolding fs using j by simp
    obtain k z where z: "ext2fs_extent_get EXT2_EXTENT_NEXT_LEAF y = (Inr k, z)" "is_ext k (?fs ! (j + 1))" "root_at z ?fs (j + 1)" "moved y z"
      using root_next [OF y(5), of EXT2_EXTENT_NEXT_LEAF] unfolding if_P [OF j1] by blast
    have k: "is_ext k (b, n, s, u)" using z(2) j unfolding fs by (simp add: nth_append)
    have kz: "kept blk x z" using kept_trans [OF y(4) kept_moved(1) [OF z(4)]] .
    have L: "?fs[j + 1 := ?X] = as @ [?N, ?X] @ bs'" unfolding fs using j by (simp add: list_update_append)
    have ex: "apart (?fs[j + 1 := ?X]) \<and> emap (?fs[j + 1 := ?X]) = ?M"
      unfolding L by (subst es1, rule exchange [where lo = b and hi = "b + n"])
        (use a es1 ok1 new_ok [OF l(1) new(1) l(2)] hole g new(1) in \<open>auto simp: map_to_def\<close>)
    show ?thesis
      by (rule fin [OF _ k _ kz z(3) ex]) (use new y(1,2) z(1) kept_moved(2) [OF z(4)] in auto)
  qed
qed

lemma map_middle_ok:
  assumes c: "map_case io_ok blk bs nb x es j l p un e newe" and at: "fst (es ! j) < unat l" "unat l + 1 < ext_end (es ! j)"
  shows "\<exists>y. map_middle l p e newe x = (Inr (), y) \<and> mapped_ok io_ok blk bs nb es (unat l) (map_to p un) x y"
proof -
  from c obtain as bs' b n s u where d: "handle_dev io_ok blk bs nb x" and es: "es = as @ (b, n, s, u) # bs'" and j: "j = length as"
    and r: "root_at x es j" and a: "apart es" and len: "length as + length bs' \<le> 1" and l: "unat l < 2 ^ 32" "unat p < 2 ^ 48"
    and e: "is_ext e (b, n, s, u)" "ext_ok (b, n, s, u)" and hole: "\<forall>f \<in> set as. ext_end f \<le> b" "\<forall>f \<in> set bs'. b + n \<le> fst f" "0 < n"
      "as = [] \<or> b \<le> unat l" and hd: "bs' \<noteq> [] \<longrightarrow> unat l < fst (hd bs')" and new: "p \<noteq> 0 \<longrightarrow> is_ext newe (unat l, 1, unat p, un)"
    by (rule map_caseE)
  have lt: "length es < 4" using es len by simp
  have es1: "es = as @ [(b, n, s, u)] @ bs'" using es by simp
  let ?M = "(emap es)(unat l := map_to p un)"
  have g: "b < unat l" "unat l + 1 < b + n" using at es j by auto
  note w = is_ext_word [OF e(1)]
  let ?A = "(b, unat l - b, s, u)" and ?Z = "(unat l + 1, b + n - unat l - 1, s + (unat l - b) + 1, u)" and ?N = "(unat l, 1, unat p, un)"
  define e1 where "e1 = e\<lparr>e_len := ucast (l - e_lblk e)\<rparr>"
  define e2 where "e2 = e1\<lparr>e_pblk := e_pblk e1 + ucast (e_len e1 + 1), e_lblk := e_lblk e1 + ucast (e_len e1 + 1), e_len := e_len e - e_len e1 - 1\<rparr>"
  have okA: "ext_ok ?A" "ext_ok ?Z" using e(2) g by (auto simp: ext_ok_def split: if_splits)
  have le: "unat (e_len e1) = unat l - b"
  proof -
    have "unat (l - e_lblk e) = unat l - b" using w g by (subst unat_sub) (simp_all add: word_le_nat_alt)
    then show ?thesis using l by (simp add: e1_def unat_ucast_mod)
  qed
  have E1: "is_ext e1 ?A" using le w by (simp add: is_ext_def e1_def is_uninit_def)
  have sk: "unat (ucast (e_len e1 + 1) :: u64) = unat l - b + 1"
  proof -
    have "unat (e_len e1 + 1) = unat l - b + 1" using le l g e(2) by (subst unat_add_lem [THEN iffD1]) (auto simp: ext_ok_def)
    then show ?thesis by simp
  qed
  have E2: "is_ext e2 ?Z"
  proof -
    have "unat (e_lblk e1 + ucast (e_len e1 + 1)) = unat l + 1"
      using sk w(1) g l by (subst unat_add_lem [THEN iffD1]) (simp_all add: e1_def)
    moreover have "unat (e_pblk e1 + ucast (e_len e1 + 1)) = s + (unat l - b) + 1"
      using sk w(3) g e(2) by (subst unat_add_lem [THEN iffD1]) (auto simp: e1_def ext_ok_def)
    moreover have "unat (e_len e - e_len e1 - 1) = b + n - unat l - 1"
    proof -
      have s1: "unat (e_len e - e_len e1) = b + n - unat l" using le w(2) g by (subst unat_sub) (simp_all add: word_le_nat_alt)
      show ?thesis using s1 g by (subst unat_sub) (simp_all add: word_le_nat_alt)
    qed
    ultimately show ?thesis using w(4) by (simp add: is_ext_def e2_def is_uninit_def) (simp add: e1_def)
  qed
  obtain y where y: "ext2fs_extent_replace e1 x = (Inr (), y)" "handle_dev io_ok blk bs nb y" "stored blk y" "kept blk x y"
    "root_at y (es[j := ?A]) j" using list_replace [OF d r E1 okA(1)] by blast
  have f1: "es[j := ?A] = as @ [?A] @ bs'" using es j by simp
  obtain z i where z: "(if p \<noteq> 0 then ext2fs_extent_insert EXT2_EXTENT_INSERT_AFTER newe y else (Inr (), y)) = (Inr (), z)"
    "handle_dev io_ok blk bs nb z" "kept blk x z"
    "root_at z (as @ [?A] @ (if p \<noteq> 0 then [?N] else []) @ bs') i" "i = j + (if p \<noteq> 0 then 1 else 0)"
  proof (cases "p = 0")
    case True
    then show thesis using that [of y j] y f1 by simp
  next
    case False
    obtain v where v: "ext2fs_extent_insert EXT2_EXTENT_INSERT_AFTER newe y = (Inr (), v)" "handle_dev io_ok blk bs nb v" "kept blk y v"
      "root_at v (take (j + 1) (es[j := ?A]) @ ?N # drop (j + 1) (es[j := ?A])) (j + 1)"
      using list_insert_after [OF y(2,5) _ _ new_ok [OF l(1) False l(2)]] new [rule_format, OF False] lt by (metis length_list_update)
    have "take (j + 1) (es[j := ?A]) @ ?N # drop (j + 1) (es[j := ?A]) = as @ [?A] @ [?N] @ bs'" unfolding f1 using j by simp
    then show thesis using that [of v "j + 1"] v False kept_trans [OF y(4) v(3)] by simp
  qed
  let ?ps = "(if p \<noteq> 0 then [?N] else [])" and ?fs = "as @ [?A] @ (if p \<noteq> 0 then [?N] else []) @ bs'"
  have lf: "length ?fs < 4" using len by simp
  obtain q where q: "ext2fs_extent_insert EXT2_EXTENT_INSERT_AFTER e2 z = (Inr (), q)" "handle_dev io_ok blk bs nb q" "stored blk q"
    "kept blk z q" "root_at q (take (i + 1) ?fs @ ?Z # drop (i + 1) ?fs) (i + 1)"
    using list_insert_after [OF z(2,4) lf E2 okA(2)] by blast
  have L: "take (i + 1) ?fs @ ?Z # drop (i + 1) ?fs = as @ ([?A] @ ?ps @ [?Z]) @ bs'" using z(5) j by simp
  have ps: "apart ([?A] @ ?ps @ [?Z])" using okA new_ok [OF l(1) _ l(2)] g by simp
  have ex: "apart (take (i + 1) ?fs @ ?Z # drop (i + 1) ?fs) \<and> emap (take (i + 1) ?fs @ ?Z # drop (i + 1) ?fs) = ?M"
    unfolding L by (subst es1, rule exchange [where lo = b and hi = "b + n", OF _ ps])
      (use a es1 hole g in \<open>auto simp: map_to_def split: if_splits\<close>)
  have "mapped_ok io_ok blk bs nb es (unat l) (map_to p un) x q"
    by (rule mapped_root [OF q(2,3) kept_trans [OF z(3) q(4)] q(5) ex])
  moreover have "map_middle l p e newe x = (Inr (), q)"
    using y(1) z(1) q(1) unfolding map_middle_def Let_def e1_def [symmetric] by (simp add: e2_def)
  ultimately show ?thesis by blast
qed

lemma set_bmap_at_ok:
  assumes d: "handle_dev io_ok blk bs nb x" and r: "root_list x es" and a: "apart es" and ne: "es \<noteq> []" and len: "length es \<le> 2"
    and l: "unat l < 2 ^ 32" "unat p < 2 ^ 48" and new: "p \<noteq> 0 \<longrightarrow> is_ext newe (unat l, 1, unat p, un)"
  shows "\<exists>y. set_bmap_at l p un newe x = (Inr (), y) \<and>
    (mapped_ok io_ok blk bs nb es (unat l) (map_to p un) x y \<or>
     emap es (unat l) = map_to p un \<and> moved x y \<and> root_some y es)"
proof -
  obtain x1 j where x1: "moved x x1" "root_at x1 es j" "place_ok es (unat l) j"
    "ext2fs_extent_goto l x = (if has_blk (es ! j) (unat l) then Inr () else Inl EXT2_ET_EXTENT_NOT_FOUND, x1)"
    using root_goto [OF r a ne l(1)] by blast
  have j: "j < length es" "root_list x1 es" "ep_curr (cur_path x1) = Some (int j)" using x1(2) by (auto simp: root_at_def)
  obtain e where e: "ext2fs_extent_get EXT2_EXTENT_CURRENT x1 = (Inr e, x1)" "is_ext e (es ! j)" using root_current [OF j(2,3,1)] by blast
  obtain x2 nx where x2: "neighbour EXT2_EXTENT_NEXT_LEAF EXT2_ET_EXTENT_NO_NEXT x1 = (Inr nx, x2)" "moved x1 x2"
    "case nx of Some e \<Rightarrow> j + 1 < length es \<and> is_ext e (es ! (j + 1)) \<and> root_at x2 es (j + 1) | None \<Rightarrow> j + 1 = length es \<and> x2 = x1"
    using neighbour_next [OF x1(2)] by blast
  have l2: "root_list x2 es" using x2(3) j(2) by (auto simp: root_at_def split: option.splits)
  obtain x3 j3 where x3: "moved x2 x3" "root_at x3 es j3" "place_ok es (unat l) j3"
    "ext2fs_extent_goto l x2 = (if has_blk (es ! j3) (unat l) then Inr () else Inl EXT2_ET_EXTENT_NOT_FOUND, x3)"
    using root_goto [OF l2 a ne l(1)] by blast
  have j3: "j3 = j" by (rule place_unique [OF a x3(3) x1(3)])
  obtain x4 pv where x4: "neighbour EXT2_EXTENT_PREV_LEAF EXT2_ET_EXTENT_NO_PREV x3 = (Inr pv, x4)" "moved x3 x4"
    "case pv of Some e \<Rightarrow> 0 < j \<and> is_ext e (es ! (j - 1)) \<and> root_at x4 es (j - 1) | None \<Rightarrow> j = 0 \<and> x4 = x3"
    using neighbour_prev [OF x3(2)] unfolding j3 by blast
  have l4: "root_list x4 es" using x4(3) x3(2) by (auto simp: root_at_def split: option.splits)
  obtain x5 j5 where x5: "moved x4 x5" "root_at x5 es j5" "place_ok es (unat l) j5"
    "ext2fs_extent_goto l x4 = (if has_blk (es ! j5) (unat l) then Inr () else Inl EXT2_ET_EXTENT_NOT_FOUND, x5)"
    using root_goto [OF l4 a ne l(1)] by blast
  have j5: "j5 = j" by (rule place_unique [OF a x5(3) x1(3)])
  have m5: "moved x x5" using moved_trans [OF x1(1) moved_trans [OF x2(2) moved_trans [OF x3(1) moved_trans [OF x4(2) x5(1)]]]] .
  have d5: "handle_dev io_ok blk bs nb x5" using kept_moved(2) [OF m5] d by blast
  have c: "map_case io_ok blk bs nb x5 es j l p un e newe"
    using d5 x5(2) a len l e(2) x1(3) new by (simp add: map_case_def j5)
  have nxt: "next_is es j nx" "prev_is es j pv" using x2(3) x4(3) by (auto simp: next_is_def prev_is_def split: option.splits)
  have none: "emap es (unat l) = None" if "\<not> has_blk (es ! j) (unat l)"
  proof (rule emap_None)
    fix f assume "f \<in> set es"
    then obtain i where "i < length es" "f = es ! i" by (metis in_set_conv_nth)
    then show "\<not> has_blk f (unat l)" using place_covers [OF a x1(3)] that by metis
  qed
  have bk: "mapped_ok io_ok blk bs nb es (unat l) v x y" if "mapped_ok io_ok blk bs nb es (unat l) v x5 y" for v y
    by (rule mapped_moved [OF that kept_moved(1) [OF m5]])
  let ?mx = "if un then 0x7FFF else 0x8000 :: int"
  show ?thesis
  proof (cases "has_blk (es ! j) (unat l)")
    case False
    show ?thesis
    proof (cases "p = 0")
      case True
      have "set_bmap_at l p un newe x = (Inr (), x1)" using False True x1(4) by (simp add: set_bmap_at_def)
      then show ?thesis using none [OF False] x1(1) root_at_some [OF x1(2)] True by (auto simp: map_to_def)
    next
      case p: False
      obtain y where y: "map_unmapped l p un ?mx e nx newe x5 = (Inr (), y)" "mapped_ok io_ok blk bs nb es (unat l) (Some (unat p, un)) x5 y"
        using map_unmapped_ok [OF c p False nxt(1) refl] by blast
      have "set_bmap_at l p un newe x = (Inr (), y)"
        using False p x1(4) e(1) x2(1) x3(4) x4(1) x5(4) y(1) by (simp add: set_bmap_at_def j3 j5)
      then show ?thesis using bk [OF y(2)] p by (auto simp: map_to_def)
    qed
  next
    case True
    obtain b n s u where ej: "es ! j = (b, n, s, u)" by (metis prod.exhaust)
    have in_e: "b \<le> unat l" "unat l < b + n" using True by (auto simp: ej has_blk_def)
    have ok: "ext_ok (b, n, s, u)" using apart_ok [OF a j(1)] ej by simp
    note w = is_ext_word [OF e(2) [unfolded ej]]
    have dl: "unat (l - e_lblk e) = unat l - b" using w(1) in_e by (subst unat_sub) (simp_all add: word_le_nat_alt)
    have "unat (e_pblk e + (l - e_lblk e)) = s + (unat l - b)"
      using w(3) dl ok in_e by (subst unat_add_lem [THEN iffD1]) (auto simp: ext_ok_def)
    then have same: "e_pblk e + (l - e_lblk e) = p \<longleftrightarrow> s + (unat l - b) = unat p" by (simp add: word_unat_eq_iff)
    have last: "l = e_lblk e + ucast (e_len e) - 1 \<longleftrightarrow> b + n = unat l + 1"
    proof -
      have "unat (e_lblk e + ucast (e_len e)) = b + n" using w ok by (subst unat_add_lem [THEN iffD1]) (auto simp: ext_ok_def)
      moreover have "unat (l + 1) = unat l + 1" using l by (subst unat_add_lem [THEN iffD1]) simp_all
      moreover have "l = e_lblk e + ucast (e_len e) - 1 \<longleftrightarrow> l + 1 = e_lblk e + ucast (e_len e)" by (simp add: eq_diff_eq)
      ultimately show ?thesis by (simp add: word_unat_eq_iff) linarith
    qed
    have first: "l = e_lblk e \<longleftrightarrow> b = unat l" "e_len e = 1 \<longleftrightarrow> n = 1" using w by (auto simp: word_unat_eq_iff)
    have run: "set_bmap_at l p un newe x =
      (if un = u \<and> s + (unat l - b) = unat p then (Inr (), x5)
       else if b = unat l \<and> n = 1 then map_only p newe x5
       else if b + n = unat l + 1 then map_last l p un ?mx e nx newe x5
       else if b = unat l then map_first l p un ?mx e pv newe x5
       else map_middle l p e newe x5)"
      using True x1(4) e(1) x2(1) x3(4) x4(1) x5(4) w(4) by (simp add: set_bmap_at_def j3 j5 same last first)
    consider (same) "un = u" "s + (unat l - b) = unat p" | (only) "\<not> (un = u \<and> s + (unat l - b) = unat p)" "b = unat l" "n = 1"
      | (last) "\<not> (un = u \<and> s + (unat l - b) = unat p)" "\<not> (b = unat l \<and> n = 1)" "b + n = unat l + 1"
      | (first) "\<not> (un = u \<and> s + (unat l - b) = unat p)" "b = unat l" "n \<noteq> 1" "b + n \<noteq> unat l + 1"
      | (middle) "\<not> (un = u \<and> s + (unat l - b) = unat p)" "b \<noteq> unat l" "b + n \<noteq> unat l + 1" by blast
    then show ?thesis
    proof cases
      case same
      have p: "p \<noteq> 0" using same(2) ok by (auto simp: ext_ok_def)
      have es: "es = take j es @ (b, n, s, u) # drop (j + 1) es" using id_take_nth_drop [OF j(1)] ej by simp
      have "\<not> has_blk f (unat l)" if "f \<in> set (take j es)" for f
        using apart_parts(1) [of "take j es" "(b, n, s, u)" "drop (j + 1) es"] a es that in_e by (fastforce simp: has_blk_def)
      then have "emap (take j es) (unat l) = None" by (rule emap_None)
      then have "emap es (unat l) = Some (s + (unat l - b), u)"
        using in_e by (subst es) (simp add: emap_append)
      then show ?thesis using run same p m5 root_at_some [OF x5(2)] by (auto simp: map_to_def)
    next
      case only
      show ?thesis using map_only_ok [OF c] run only bk by (auto simp: ej)
    next
      case last
      show ?thesis using map_last_ok [OF c _ _ nxt(1) refl] run last bk in_e by (auto simp: ej)
    next
      case first
      show ?thesis using map_first_ok [OF c _ _ nxt(2) refl] run first bk in_e by (auto simp: ej)
    next
      case middle
      show ?thesis using map_middle_ok [OF c] run middle bk in_e by (auto simp: ej)
    qed
  qed
qed

lemma go_back:
  assumes d: "handle_dev io_ok blk bs nb y" and r: "root_some y fs" "apart fs" and k: "unat k < 2 ^ 32"
  shows "\<exists>z. snd (extent_goto 0 k y) = z \<and> moved y z \<and> root_some z fs"
proof (cases "fs = []")
  case True
  obtain z where z: "moved y z" "ext2fs_extent_get EXT2_EXTENT_ROOT y = (Inl EXT2_ET_EXTENT_NO_NEXT, z)" "root_some z []"
    using root_first [OF root_some_list [OF r(1)]] True by auto
  then show ?thesis using True by (simp add: extent_goto_def)
next
  case False
  obtain z j where z: "moved y z" "root_at z fs j"
    "ext2fs_extent_goto k y = (if has_blk (fs ! j) (unat k) then Inr () else Inl EXT2_ET_EXTENT_NOT_FOUND, z)"
    using root_goto [OF root_some_list [OF r(1)] r(2) False k] by blast
  then show ?thesis using root_at_some [OF z(2)] by (simp add: ext2fs_extent_goto_def)
qed

lemma set_bmap_ok:
  assumes d: "handle_dev io_ok blk bs nb x" and r: "root_some x es" and a: "apart es" and len: "length es \<le> 2"
    and ne: "es \<noteq> [] \<or> p \<noteq> 0" and l: "unat l < 2 ^ 32" "unat p < 2 ^ 48"
    and un: "un = (flags AND EXT2_EXTENT_SET_BMAP_UNINIT \<noteq> 0)"
  shows "\<exists>y fs. ext2fs_extent_set_bmap junk l p flags x = (Inr (), y) \<and> handle_dev io_ok blk bs nb y \<and> kept blk x y \<and>
    root_some y fs \<and> apart fs \<and> emap fs = (emap es)(unat l := map_to p un) \<and>
    (stored blk x \<or> emap es (unat l) \<noteq> map_to p un \<longrightarrow> stored blk y)"
proof -
  let ?new = "if p \<noteq> 0 then \<lparr>e_pblk = p, e_lblk = l, e_len = 1,
    e_flags = EXT2_EXTENT_FLAGS_LEAF OR (if un then EXT2_EXTENT_FLAGS_UNINIT else 0)\<rparr> else junk"
  have new: "p \<noteq> 0 \<longrightarrow> is_ext ?new (unat l, 1, unat p, un)"
    by (auto simp: is_ext_def is_uninit_def EXT2_EXTENT_FLAGS_LEAF_def EXT2_EXTENT_FLAGS_UNINIT_def)
  have s: "xh_max_depth x = 0" "xh_level x = 0" "ep_entries (cur_path x) = int (length es)" "root_list x es"
    using r by (auto simp: root_some_def root_list_def)
  have rw: "fs_flags (xh_fs x) AND EXT2_FLAG_RW \<noteq> 0" using d by (simp add: handle_dev_def)
  show ?thesis
  proof (cases "es = []")
    case True
    then have p: "p \<noteq> 0" using ne by simp
    obtain y where y: "ext2fs_extent_insert 0 ?new x = (Inr (), y)" "handle_dev io_ok blk bs nb y" "stored blk y" "kept blk x y"
      "root_some y [(unat l, 1, unat p, un)]"
      using list_insert_empty [OF d r [unfolded True] new [rule_format, OF p] new_ok [OF l(1) p l(2)]] by blast
    have "ext2fs_extent_set_bmap junk l p flags x = (Inr (), y)"
      using y(1) s rw True un p by (simp add: ext2fs_extent_set_bmap_def)
    moreover have "emap [(unat l, 1, unat p, un)] = (emap es)(unat l := map_to p un)"
      using True p by (auto simp: fun_eq_iff map_to_def)
    ultimately show ?thesis using y new_ok [OF l(1) p l(2)] by (intro exI [of _ y] exI [of _ "[(unat l, 1, unat p, un)]"]) simp
  next
    case False
    obtain k where k: "(case ext2fs_extent_get EXT2_EXTENT_CURRENT x of
          (Inl e, x) \<Rightarrow> (if e = EXT2_ET_NO_CURRENT_NODE then Inr 0 else Inl e, x)
        | (Inr extent, x) \<Rightarrow> (Inr (e_lblk extent), x)) = (Inr k, x)" "unat k < 2 ^ 32"
    proof (cases "ep_curr (cur_path x)")
      case None
      then show ?thesis using that [of 0] root_current_none [OF None] by simp
    next
      case (Some i)
      then have i: "0 \<le> i" "i < int (length es)" using r by (auto simp: root_some_def)
      then have n: "ep_curr (cur_path x) = Some (int (nat i))" "nat i < length es" using Some by auto
      obtain e where e: "ext2fs_extent_get EXT2_EXTENT_CURRENT x = (Inr e, x)" "is_ext e (es ! nat i)" using root_current [OF s(4) n] by blast
      have "unat (e_lblk e) < 2 ^ 32" using e(2) apart_ok [OF a n(2)] by (cases "es ! nat i") (auto simp: is_ext_def ext_ok_def)
      then show ?thesis using that [of "e_lblk e"] e(1) by simp
    qed
    obtain y where y: "set_bmap_at l p un ?new x = (Inr (), y)"
      "mapped_ok io_ok blk bs nb es (unat l) (map_to p un) x y \<or> emap es (unat l) = map_to p un \<and> moved x y \<and> root_some y es"
      using set_bmap_at_ok [OF d s(4) a False len l new] by blast
    have y': "\<exists>fs. handle_dev io_ok blk bs nb y \<and> kept blk x y \<and> root_some y fs \<and> apart fs \<and>
        emap fs = (emap es)(unat l := map_to p un) \<and> (stored blk x \<or> emap es (unat l) \<noteq> map_to p un \<longrightarrow> stored blk y)"
      using y(2)
    proof
      assume "mapped_ok io_ok blk bs nb es (unat l) (map_to p un) x y"
      then show ?thesis unfolding mapped_ok_def by blast
    next
      assume n: "emap es (unat l) = map_to p un \<and> moved x y \<and> root_some y es"
      then have "(emap es)(unat l := map_to p un) = emap es" by auto
      then show ?thesis using n kept_moved(1) [of x y] kept_moved(2) [of x y] kept_moved(3) [of x y blk] d a by (intro exI [of _ es]) auto
    qed
    then obtain fs where fs: "handle_dev io_ok blk bs nb y" "kept blk x y" "root_some y fs" "apart fs"
      "emap fs = (emap es)(unat l := map_to p un)" "stored blk x \<or> emap es (unat l) \<noteq> map_to p un \<longrightarrow> stored blk y" by blast
    obtain z where z: "snd (extent_goto 0 k y) = z" "moved y z" "root_some z fs" using go_back [OF fs(1,3,4) k(2)] by blast
    have dy: "xh_max_depth y = 0" using fs(3) by (simp add: root_some_def root_list_def)
    have ne0: "\<not> (xh_max_depth x = 0 \<and> ep_entries (cur_path x) = 0)" using s(3) False by simp
    have "ext2fs_extent_set_bmap junk l p flags x = (Inr (), z)"
      unfolding ext2fs_extent_set_bmap_def Let_def if_not_P [OF rw] if_not_P [OF ne0] un [symmetric] k(1)
      using y(1) z(1) dy s(1,2) by simp
    moreover have "kept blk x z" using kept_trans [OF fs(2) kept_moved(1) [OF z(2)]] .
    moreover have "handle_dev io_ok blk bs nb z" "stored blk z = stored blk y" using kept_moved(2,3) [OF z(2)] fs(1) by blast+
    ultimately show ?thesis using fs(4-6) z(3) by blast
  qed
qed

end

section \<open>On a disc\<close>


text \<open>The inode 40 of \<open>itable_sample\<close> with an empty tree.\<close>

definition root_sample :: "'d io_channel \<Rightarrow> 'd extent_handle" where
  "root_sample io = \<lparr>xh_heap = roomy 0, xh_name = ''sd'', xh_fs = itable_sample, xh_io = io, xh_ino = 40,
     xh_inode = inode_sample\<lparr>i_block := [0x0AF30000, 0x04000000] @ replicate 13 0, i_flags := EXT4_EXTENTS_FL\<rparr>,
     xh_type = 0xF30A, xh_level = 0, xh_max_depth = 0,
     xh_path = [no_path\<lparr>ep_max_entries := 4, ep_visit_num := 1, ep_end_blk := 5\<rparr>]\<rparr>"


text \<open>
  C37. On the big-endian target the request for the last sibling leaves the node: the macro takes the
  number of entries without swapping its bytes. In every tree that is only a root and is not empty, the
  entry it points to lies outside of the inode.
\<close>

theorem last_sibling_outside:
  assumes "root_list x es" "es \<noteq> []" "eh_entries (cur_node x) = of_nat (length es)"
  shows "fst (ext2fs_extent_get EXT2_EXTENT_LAST_SIB x) = Inl UNDEFINED"
proof -
  have n: "0 < length es" "length es \<le> 4" "xh_level x = 0" "xh_max_depth x = 0" "length (cur_node x) = 60"
    using assms(1,2) by (auto simp: root_list_def root_cur_node)
  have raw: "ld16 (cur_node x) 2 = ext2fs_swab16 (of_nat (length es))"
    using assms(3) swab16_swab16 [of "ld16 (cur_node x) 2"] by (simp add: eh_entries_def le16_def)
  have "unat (ld16 (cur_node x) 2) \<ge> 256"
  proof -
    have "length es = 1 \<or> length es = 2 \<or> length es = 3 \<or> length es = 4" using n(1,2) by linarith
    then show ?thesis by (elim disjE) (simp_all add: raw ext2fs_swab16_def)
  qed
  moreover have "\<not> 12 + 12 * (int m - 1 + 1) \<le> int 60" if "256 \<le> m" for m using that by simp
  ultimately have "\<not> 12 + 12 * (int (unat (ld16 (cur_node x) 2)) - 1 + 1) \<le> int 60" by blast
  then have out: "\<not> entry_in (cur_node x) (EXT_LAST_EXTENT (cur_node x)) 1"
    unfolding entry_in_def EXT_LAST_EXTENT_def n(5) by blast
  let ?y = "upd_path (\<lambda>p. p\<lparr>ep_curr := Some (EXT_LAST_EXTENT (cur_node x)), ep_left := 0, ep_visit_num := 0\<rparr>) x"
  have "cur_node ?y = cur_node x" using n(3) by (simp add: root_cur_node)
  then have "extent_at ?y (EXT_LAST_EXTENT (cur_node x)) = Inl UNDEFINED" using out by (simp add: extent_at_def)
  moreover have "extent_move orig EXT2_EXTENT_LAST_SIB x = (Inr (Some (EXT_LAST_EXTENT (cur_node x))), ?y)" for orig
    by (simp add: extent_move_def extent_ops Let_def)
  ultimately show ?thesis by (simp add: extent_get_once choose_plain)
qed

definition one_sample :: "'d io_channel \<Rightarrow> 'd extent_handle" where
  "one_sample io = (root_sample io)\<lparr>
     xh_inode := inode_sample\<lparr>i_block := [0x0AF30100, 0x04000000, 0, 0, 0x01000000, 0x01000000] @ replicate 9 0\<rparr>,
     xh_path := [no_path\<lparr>ep_entries := 1, ep_max_entries := 4, ep_left := 1\<rparr>]\<rparr>"

lemma last_sibling_outside_witness:
  "\<exists>io. leaves (cur_node (one_sample io)) 1 = [(0, 1, 1, False)] \<and>
     fst (ext2fs_extent_get EXT2_EXTENT_LAST_SIB (one_sample (io :: (nat \<Rightarrow> u8) gekko io_channel))) = Inl UNDEFINED"
proof -
  fix io :: "(nat \<Rightarrow> u8) gekko io_channel"
  let ?x = "one_sample io"
  have n: "cur_node ?x = [0x0A, 0xF3, 1, 0, 4, 0, 0, 0, 0, 0, 0, 0, 0, 0, 0, 0, 1, 0, 0, 0, 1, 0, 0, 0] @ replicate 36 0"
    by (simp add: root_cur_node one_sample_def root_sample_def, code_simp)
  have l: "leaves (cur_node ?x) 1 = [(0, 1, 1, False)]" "eh_entries (cur_node ?x) = 1"
    unfolding n leaves_def leaf_at_def ee_block_def ee_len_def ee_start_def ext_len_def eh_entries_def le16_def le32_def ld16_def ld32_def
    by (simp_all add: ext2fs_swab16_def ext2fs_swab32_def entry_off_def)
  have r: "root_list ?x [(0, 1, 1, False)]" using l(1)
    by (simp add: root_list_def ext_ok_def) (simp add: one_sample_def root_sample_def no_path_def cur_path_def)
  have "fst (ext2fs_extent_get EXT2_EXTENT_LAST_SIB ?x) = Inl UNDEFINED" by (rule last_sibling_outside [OF r]) (use l in simp_all)
  then show ?thesis using l(1) by blast
qed

end
