(* ===== verification/Extent_Walk.thy ===== *)
theory Extent_Walk
  imports Extent_Map
begin

text \<open>
  The walk over a tree of extents returns: the bound on the moves of one request is never what ends
  it. A request for the next or the previous leaf goes up, to a sibling, and down; every move brings
  it closer, whatever the blocks of the device hold.
\<close>

section \<open>What a move changes\<close>

definition walk_ok :: "'d extent_handle \<Rightarrow> bool" where
  "walk_ok x \<longleftrightarrow> xh_level x \<le> xh_max_depth x \<and> xh_max_depth x < length (xh_path x)"

definition same_tree :: "'d extent_handle \<Rightarrow> 'd extent_handle \<Rightarrow> bool" where
  "same_tree x z \<longleftrightarrow> xh_max_depth z = xh_max_depth x \<and> length (xh_path z) = length (xh_path x)"

lemma upd_level [simp]:
  "xh_level (upd_path f x) = xh_level x" "xh_max_depth (upd_path f x) = xh_max_depth x"
  "length (xh_path (upd_path f x)) = length (xh_path x)"
  "xh_level x < length (xh_path x) \<Longrightarrow> cur_path (upd_path f x) = f (cur_path x)"
  by (simp_all add: upd_path_def cur_path_def)

lemma next_sib_moves:
  assumes "next_sib x = (Inr ix, z)" "walk_ok x"
  shows "same_tree x z" "xh_level z = xh_level x" "ep_visit_num (cur_path z) = 0"
  using assms by (auto simp: next_sib_def Let_def same_tree_def walk_ok_def split: if_splits)

lemma go_down_moves:
  assumes "go_down b x = (Inr ix, z)" "walk_ok x"
  shows "same_tree x z" "xh_level z = xh_level x + 1" "xh_level x < xh_max_depth x"
    "ep_visit_num (cur_path z) = 0 \<and> \<not> b \<or> b \<and> (xh_level z < xh_max_depth z \<longrightarrow> ep_visit_num (cur_path z) = 1)"
  using assms
  by (auto simp: go_down_def Let_def same_tree_def walk_ok_def cur_path_def split: if_splits option.splits sum.splits prod.splits)

section \<open>What is left of a request\<close>

definition walk_left :: "u32 \<Rightarrow> 'd extent_handle \<Rightarrow> nat" where
  "walk_left orig x =
     (let interior = xh_level x < xh_max_depth x; v = ep_visit_num (cur_path x) in
      if orig = EXT2_EXTENT_NEXT_LEAF then
        if interior \<and> v = 0 then xh_max_depth x - xh_level x else xh_level x + 1 + xh_max_depth x
      else if orig = EXT2_EXTENT_PREV_LEAF then
        if interior \<and> v > 0 then xh_max_depth x - xh_level x else xh_level x + 1 + xh_max_depth x
      else if orig = EXT2_EXTENT_LAST_LEAF then
        2 * (xh_max_depth x - xh_level x) + (if ep_left (cur_path x) = 0 then 0 else 1) + 1
      else 0)"

lemma extent_move_ops:
  "extent_move orig EXT2_EXTENT_NEXT_SIB x = next_sib x" "extent_move orig EXT2_EXTENT_DOWN x = go_down False x"
  "extent_move orig EXT2_EXTENT_DOWN_AND_LAST x = go_down True x"
  by (simp_all add: extent_move_def extent_ops)

lemma up_moves:
  assumes "extent_move orig EXT2_EXTENT_UP x = (Inr ix, z)" "walk_ok x"
  shows "same_tree x z" "xh_level z + 1 = xh_level x" "walk_ok z"
    "orig = EXT2_EXTENT_PREV_LEAF \<Longrightarrow> ep_visit_num (cur_path z) = 0"
  using assms by (auto simp: extent_move_def extent_ops Let_def same_tree_def walk_ok_def split: if_splits)

lemma prev_sib_moves:
  assumes "extent_move orig EXT2_EXTENT_PREV_SIB x = (Inr ix, z)" "walk_ok x"
  shows "same_tree x z" "xh_level z = xh_level x" "xh_level x < xh_max_depth x \<Longrightarrow> ep_visit_num (cur_path z) = 1"
  using assms by (auto simp: extent_move_def extent_ops Let_def same_tree_def walk_ok_def split: if_splits option.splits)

lemma last_sib_moves:
  assumes "extent_move orig EXT2_EXTENT_LAST_SIB x = (Inr ix, z)" "walk_ok x"
  shows "same_tree x z" "xh_level z = xh_level x" "ep_left (cur_path z) = 0"
  using assms by (auto simp: extent_move_def extent_ops Let_def same_tree_def walk_ok_def split: if_splits)

lemma walk_ok_same: "walk_ok x \<Longrightarrow> same_tree x z \<Longrightarrow> xh_level z \<le> xh_max_depth x \<Longrightarrow> walk_ok z"
  by (simp add: walk_ok_def same_tree_def)

lemma leaf_ops [simp]:
  "EXT2_EXTENT_NEXT_LEAF \<noteq> EXT2_EXTENT_PREV_LEAF" "EXT2_EXTENT_NEXT_LEAF \<noteq> EXT2_EXTENT_LAST_LEAF"
  "EXT2_EXTENT_PREV_LEAF \<noteq> EXT2_EXTENT_NEXT_LEAF" "EXT2_EXTENT_PREV_LEAF \<noteq> EXT2_EXTENT_LAST_LEAF"
  "EXT2_EXTENT_LAST_LEAF \<noteq> EXT2_EXTENT_NEXT_LEAF" "EXT2_EXTENT_LAST_LEAF \<noteq> EXT2_EXTENT_PREV_LEAF"
  "EXT2_EXTENT_NEXT_LEAF \<noteq> EXT2_EXTENT_PREV" "EXT2_EXTENT_PREV_LEAF \<noteq> EXT2_EXTENT_NEXT"
  "EXT2_EXTENT_LAST_LEAF \<noteq> EXT2_EXTENT_NEXT" "EXT2_EXTENT_LAST_LEAF \<noteq> EXT2_EXTENT_PREV"
  by (simp_all add: extent_ops)

lemma walk_step:
  assumes c: "choose_op orig x = (Inr mv, y)" and m: "extent_move orig mv y = (Inr (Some ix), z)" and ok: "walk_ok x"
    and again: "move_again orig z"
  shows "walk_ok z \<and> same_tree x z \<and> walk_left orig z < walk_left orig x"
proof -
  have lev: "xh_level x < length (xh_path x)" using ok by (simp add: walk_ok_def)
  have orig: "orig = EXT2_EXTENT_NEXT_LEAF \<or> orig = EXT2_EXTENT_PREV_LEAF \<or> orig = EXT2_EXTENT_LAST_LEAF"
    using again by (auto simp: move_again_def)
  then show ?thesis
  proof (elim disjE)
    assume o: "orig = EXT2_EXTENT_NEXT_LEAF"
    have zl: "xh_level z \<noteq> xh_max_depth z" using again o by (simp add: move_again_def)
    consider (down) "xh_level x < xh_max_depth x" "ep_visit_num (cur_path x) = 0" "mv = EXT2_EXTENT_DOWN"
        "y = upd_path (\<lambda>p. p\<lparr>ep_visit_num := ep_visit_num p + 1\<rparr>) x"
      | (sib) "mv = EXT2_EXTENT_NEXT_SIB" "y = x" "\<not> (xh_level x < xh_max_depth x \<and> ep_visit_num (cur_path x) = 0)"
      | (up) "mv = EXT2_EXTENT_UP" "y = x" "\<not> (xh_level x < xh_max_depth x \<and> ep_visit_num (cur_path x) = 0)"
      using c o by (auto simp: choose_op_def Let_def split: if_splits)
    then show ?thesis
    proof cases
      case down
      have y: "walk_ok y" using ok down(4) by (simp add: walk_ok_def)
      note g = go_down_moves [OF m [unfolded down(3) extent_move_ops] y]
      have st: "same_tree x z" using g(1) down(4) by (simp add: same_tree_def)
      have lz: "xh_level z = xh_level x + 1" using g(2) down(4) by simp
      have "walk_ok z" using walk_ok_same [OF ok st] lz down(1) by simp
      moreover have "ep_visit_num (cur_path z) = 0" using g(4) by simp
      ultimately show ?thesis
        using st lz zl o down(1,2) by (auto simp: walk_left_def Let_def same_tree_def walk_ok_def)
    next
      case sib
      note g = next_sib_moves [OF m [unfolded sib(1,2) extent_move_ops] ok]
      have "walk_ok z" using walk_ok_same [OF ok g(1)] g(2) ok by (simp add: walk_ok_def)
      then show ?thesis using g zl o sib(3) by (auto simp: walk_left_def Let_def same_tree_def walk_ok_def)
    next
      case up
      note g = up_moves [OF m [unfolded up(1,2)] ok]
      show ?thesis using g(1-3) up(3) o by (auto simp: walk_left_def Let_def same_tree_def)
    qed
  next
    assume o: "orig = EXT2_EXTENT_PREV_LEAF"
    have zl: "xh_level z \<noteq> xh_max_depth z" using again o by (simp add: move_again_def)
    have y: "y = x" using c o by (auto simp: choose_op_def Let_def split: if_splits)
    consider (down) "xh_level x < xh_max_depth x" "ep_visit_num (cur_path x) > 0" "mv = EXT2_EXTENT_DOWN_AND_LAST"
      | (sib) "mv = EXT2_EXTENT_PREV_SIB" "\<not> (xh_level x < xh_max_depth x \<and> ep_visit_num (cur_path x) > 0)"
      | (up) "mv = EXT2_EXTENT_UP" "\<not> (xh_level x < xh_max_depth x \<and> ep_visit_num (cur_path x) > 0)"
      using c o by (auto simp: choose_op_def Let_def split: if_splits)
    then show ?thesis
    proof cases
      case down
      note g = go_down_moves [OF m [unfolded down(3) y extent_move_ops] ok]
      have "walk_ok z" using walk_ok_same [OF ok g(1)] g(2) down(1) by simp
      moreover have "ep_visit_num (cur_path z) = 1" using g(4) zl calculation by (simp add: walk_ok_def)
      ultimately show ?thesis
        using g(1,2) zl o down(1,2) by (auto simp: walk_left_def Let_def same_tree_def walk_ok_def)
    next
      case sib
      note g = prev_sib_moves [OF m [unfolded sib(1) y] ok]
      have "walk_ok z" using walk_ok_same [OF ok g(1)] g(2) ok by (simp add: walk_ok_def)
      then show ?thesis using g zl o sib(2) by (auto simp: walk_left_def Let_def same_tree_def walk_ok_def)
    next
      case up
      note g = up_moves [OF m [unfolded up(1) y] ok]
      show ?thesis using g(1-4) up(2) o by (auto simp: walk_left_def Let_def same_tree_def)
    qed
  next
    assume o: "orig = EXT2_EXTENT_LAST_LEAF"
    have y: "y = x" using c o by (auto simp: choose_op_def Let_def split: if_splits)
    have zl: "xh_level z \<noteq> xh_max_depth z \<or> ep_left (cur_path z) \<noteq> 0" using again o by (simp add: move_again_def)
    consider (down) "xh_level x < xh_max_depth x" "ep_left (cur_path x) = 0" "mv = EXT2_EXTENT_DOWN"
      | (sib) "mv = EXT2_EXTENT_LAST_SIB" "\<not> (xh_level x < xh_max_depth x \<and> ep_left (cur_path x) = 0)"
      using c o by (auto simp: choose_op_def Let_def split: if_splits)
    then show ?thesis
    proof cases
      case down
      note g = go_down_moves [OF m [unfolded down(3) y extent_move_ops] ok]
      have "walk_ok z" using walk_ok_same [OF ok g(1)] g(2) down(1) by simp
      then show ?thesis using g(1,2) o down(1,2) by (auto simp: walk_left_def Let_def same_tree_def walk_ok_def)
    next
      case sib
      note g = last_sib_moves [OF m [unfolded sib(1) y] ok]
      have w: "walk_ok z" using walk_ok_same [OF ok g(1)] g(2) ok by (simp add: walk_ok_def)
      have "xh_level x < xh_max_depth x" using zl g w by (auto simp: walk_ok_def same_tree_def)
      then show ?thesis using w g o sib(2) by (auto simp: walk_left_def Let_def same_tree_def)
    qed
  qed
qed

lemma turn_step:
  assumes "extent_turn orig x = Inr z" "walk_ok x"
  shows "walk_ok z" "xh_max_depth z = xh_max_depth x" "walk_left orig z < walk_left orig x"
proof -
  obtain mv y ix where "choose_op orig x = (Inr mv, y)" "extent_move orig mv y = (Inr (Some ix), z)" "move_again orig z"
    using assms(1) by (auto simp: extent_turn_def split: prod.splits sum.splits option.splits if_splits)
  then show "walk_ok z" "xh_max_depth z = xh_max_depth x" "walk_left orig z < walk_left orig x"
    using walk_step [OF _ _ assms(2)] by (auto simp: same_tree_def)
qed

text \<open>The handle after \<open>n\<close> turns, when none of them was the last.\<close>

primrec turns :: "nat \<Rightarrow> u32 \<Rightarrow> 'd extent_handle \<Rightarrow> 'd extent_handle option" where
  "turns 0 orig x = Some x"
| "turns (Suc n) orig x = (case extent_turn orig x of Inl _ \<Rightarrow> None | Inr z \<Rightarrow> turns n orig z)"

lemma turns_end: "walk_ok x \<Longrightarrow> walk_left orig x < n \<Longrightarrow> turns n orig x = None"
proof (induction n arbitrary: x)
  case (Suc n)
  then show ?case using turn_step [OF _ Suc(2)] by (auto split: sum.splits) (metis less_trans_Suc not_less_eq)
qed simp

lemma walk_enough: "turns n orig x = None \<Longrightarrow> extent_walk (n + k) orig x = extent_walk n orig x"
  by (induction n arbitrary: x) (auto split: sum.splits)

lemma walk_left_bound: "walk_ok x \<Longrightarrow> walk_left orig x < 2 * xh_max_depth x + 4"
  by (auto simp: walk_left_def Let_def walk_ok_def)

text \<open>
  C38. Asking an extent handle for an entry returns, for every request and whatever the nodes on the
  device hold: twice the depth of the tree and four turns of the loop are never all of them turns that
  go on, so the bound of the model is not reached, and a larger one gives the same result and handle.
\<close>

theorem extent_walk_returns:
  assumes "xh_level x \<le> xh_max_depth x" "xh_max_depth x < length (xh_path x)"
  shows "turns (2 * xh_max_depth x + 4) (flags AND EXT2_EXTENT_MOVE_MASK) x = None \<and>
    (\<forall>k. extent_walk (2 * xh_max_depth x + 4 + k) (flags AND EXT2_EXTENT_MOVE_MASK) x = ext2fs_extent_get flags x)"
proof -
  have "walk_ok x" using assms by (simp add: walk_ok_def)
  then have "turns (2 * xh_max_depth x + 4) (flags AND EXT2_EXTENT_MOVE_MASK) x = None"
    using turns_end walk_left_bound by blast
  then show ?thesis unfolding ext2fs_extent_get_def using walk_enough by blast
qed

lemma extent_walk_returns_witness:
  "\<forall>c. turns 4 EXT2_EXTENT_NEXT_LEAF (root_sample (block_channel c)) = None"
proof
  fix c
  have "turns (2 * xh_max_depth (root_sample (block_channel c)) + 4) (EXT2_EXTENT_NEXT_LEAF AND EXT2_EXTENT_MOVE_MASK) (root_sample (block_channel c)) = None"
    using extent_walk_returns [of "root_sample (block_channel c)" EXT2_EXTENT_NEXT_LEAF] by (simp add: root_sample_def)
  then show "turns 4 EXT2_EXTENT_NEXT_LEAF (root_sample (block_channel c)) = None"
    by (simp add: root_sample_def extent_ops)
qed

end
