(* ===== verification/Block_Iter.thy ===== *)
theory Block_Iter
  imports Extent_Bmap Dir_Ops
begin

text \<open>
  The walk over all blocks of an inode (\<open>source/block.c\<close>): a callback sees every block, may
  change its number and may end the walk. The indirect blocks are read, and written back when the
  callback changed an entry; an inode with extents is walked with a handle of \<open>Extent\<close>.
\<close>

section \<open>Callbacks and the state of a walk\<close>

definition BLOCK_CHANGED :: u32 where "BLOCK_CHANGED = 1"
definition BLOCK_ERROR :: u32 where "BLOCK_ERROR = 4"
definition BLOCK_FLAG_APPEND :: u32 where "BLOCK_FLAG_APPEND = 1"
definition BLOCK_FLAG_DEPTH_TRAVERSE :: u32 where "BLOCK_FLAG_DEPTH_TRAVERSE = 2"
definition BLOCK_FLAG_DATA_ONLY :: u32 where "BLOCK_FLAG_DATA_ONLY = 4"
definition BLOCK_FLAG_READ_ONLY :: u32 where "BLOCK_FLAG_READ_ONLY = 8"
definition BLOCK_FLAG_NO_LARGE :: u32 where "BLOCK_FLAG_NO_LARGE = 0x1000"
definition BLOCK_COUNT_IND :: int where "BLOCK_COUNT_IND = -1"
definition BLOCK_COUNT_DIND :: int where "BLOCK_COUNT_DIND = -2"
definition BLOCK_COUNT_TIND :: int where "BLOCK_COUNT_TIND = -3"
definition BLOCK_COUNT_TRANSLATOR :: int where "BLOCK_COUNT_TRANSLATOR = -4"
definition EXT2_IND_BLOCK :: nat where "EXT2_IND_BLOCK = 12"
definition EXT2_DIND_BLOCK :: nat where "EXT2_DIND_BLOCK = 13"
definition EXT2_TIND_BLOCK :: nat where "EXT2_TIND_BLOCK = 14"

text \<open>
  A callback gets the handle of the file system, the number of the block, its place in the file (or
  one of the negative numbers above), the block that refers to it, the offset there, its private data
  and the channel. It returns its flags, the number, the private data, the handle and the channel.
\<close>

type_synonym ('s, 'd) block_func =
  "filsys \<Rightarrow> u64 \<Rightarrow> int \<Rightarrow> u64 \<Rightarrow> int \<Rightarrow> 's \<Rightarrow> 'd io_channel \<Rightarrow> u32 \<times> u64 \<times> 's \<times> filsys \<times> 'd io_channel"

record ('s, 'd) block_context =
  bc_fs :: filsys
  bc_io :: "'d io_channel"
  bc_func :: "('s, 'd) block_func"
  bc_bcount :: int
  bc_flags :: u32
  bc_errcode :: "errcode option"
  bc_priv :: 's

definition bc_limit :: "('s, 'd) block_context \<Rightarrow> u32" where
  "bc_limit ctx = drop_bit 2 (fs_blocksize (bc_fs ctx))"

definition bc_has :: "('s, 'd) block_context \<Rightarrow> u32 \<Rightarrow> bool" where
  "bc_has ctx flag \<longleftrightarrow> bc_flags ctx AND flag \<noteq> 0"

text \<open>The callback on a 32-bit entry, widened for the call and cut off afterwards.\<close>

definition bc_call :: "u32 \<Rightarrow> int \<Rightarrow> u32 \<Rightarrow> int \<Rightarrow> ('s, 'd) block_context \<Rightarrow> u32 \<times> u32 \<times> ('s, 'd) block_context" where
  "bc_call blk cnt ref off ctx =
     (let (ret, blk64, s, fs, io) = bc_func ctx (bc_fs ctx) (ucast blk) cnt (ucast ref) off (bc_priv ctx) (bc_io ctx)
      in (ret, ucast blk64, ctx\<lparr>bc_priv := s, bc_fs := fs, bc_io := io\<rparr>))"

definition ro_violation :: "('s, 'd) block_context \<Rightarrow> u32 \<Rightarrow> bool" where
  "ro_violation ctx ret \<longleftrightarrow> bc_has ctx BLOCK_FLAG_READ_ONLY \<and> ret AND BLOCK_CHANGED \<noteq> 0"

definition ro_result :: "u32 \<Rightarrow> u32" where "ro_result ret = ret OR BLOCK_ABORT OR BLOCK_ERROR"

section \<open>Indirect blocks\<close>

text \<open>
  The entries of a block of block numbers. The result is the flags of all calls, what of them the
  caller passes on, and the entries.
\<close>

fun ind_entries :: "u32 \<Rightarrow> int \<Rightarrow> u32 list \<Rightarrow> ('s, 'd) block_context \<Rightarrow> u32 \<times> u32 \<times> u32 list \<times> ('s, 'd) block_context" where
  "ind_entries ref off [] ctx = (0, 0, [], ctx)"
| "ind_entries ref off (b # bs) ctx =
     (if b = 0 \<and> \<not> bc_has ctx BLOCK_FLAG_APPEND then
        let (changed, ret, bs, ctx) = ind_entries ref (off + 4) bs (ctx\<lparr>bc_bcount := bc_bcount ctx + 1\<rparr>)
        in (changed, ret, b # bs, ctx)
      else
        let (flags, b, ctx) = bc_call b (bc_bcount ctx) ref off ctx in
        if flags AND BLOCK_ABORT \<noteq> 0 then (flags, BLOCK_ABORT, b # bs, ctx)
        else
          let (changed, ret, bs, ctx) = ind_entries ref (off + 4) bs (ctx\<lparr>bc_bcount := bc_bcount ctx + 1\<rparr>)
          in (flags OR changed, ret, b # bs, ctx))"

text \<open>The entries of a block of higher order; the offset does not move over a hole.\<close>

fun node_entries :: "(u32 \<Rightarrow> u32 \<Rightarrow> int \<Rightarrow> ('s, 'd) block_context \<Rightarrow> u32 \<times> u32 \<times> ('s, 'd) block_context) \<Rightarrow> int \<Rightarrow>
    u32 \<Rightarrow> int \<Rightarrow> u32 list \<Rightarrow> ('s, 'd) block_context \<Rightarrow> u32 \<times> u32 \<times> u32 list \<times> ('s, 'd) block_context" where
  "node_entries child skip ref off [] ctx = (0, 0, [], ctx)"
| "node_entries child skip ref off (b # bs) ctx =
     (if b = 0 \<and> \<not> bc_has ctx BLOCK_FLAG_APPEND then
        let (changed, ret, bs, ctx) = node_entries child skip ref off bs (ctx\<lparr>bc_bcount := bc_bcount ctx + skip\<rparr>)
        in (changed, ret, b # bs, ctx)
      else
        let (flags, b, ctx) = child b ref off ctx in
        if flags AND (BLOCK_ABORT OR BLOCK_ERROR) \<noteq> 0 then (flags, flags AND (BLOCK_ABORT OR BLOCK_ERROR), b # bs, ctx)
        else
          let (changed, ret, bs, ctx) = node_entries child skip ref (off + 4) bs ctx
          in (flags OR changed, ret, b # bs, ctx))"

text \<open>
  What the three routines share: the visit of the block before or after its entries, the checks of
  its number, reading it and writing it back. The error of the context is that of the last read or
  write.
\<close>

definition iterate_node :: "int \<Rightarrow> int \<Rightarrow> errcode \<Rightarrow>
    (u32 \<Rightarrow> u32 list \<Rightarrow> ('s, 'd) block_context \<Rightarrow> u32 \<times> u32 \<times> u32 list \<times> ('s, 'd) block_context) \<Rightarrow>
    u32 \<Rightarrow> u32 \<Rightarrow> int \<Rightarrow> ('s, 'd) block_context \<Rightarrow> u32 \<times> u32 \<times> ('s, 'd) block_context" where
  "iterate_node cnt skip bad entries blk ref off ctx =
     (let (ret, blk, ctx) =
        (if \<not> bc_has ctx BLOCK_FLAG_DEPTH_TRAVERSE \<and> \<not> bc_has ctx BLOCK_FLAG_DATA_ONLY
         then bc_call blk cnt ref off ctx else (0, blk, ctx))
      in
      if ro_violation ctx ret then (ro_result ret, blk, ctx\<lparr>bc_errcode := Some EXT2_ET_RO_BLOCK_ITERATE\<rparr>)
      else if blk = 0 \<or> ret AND BLOCK_ABORT \<noteq> 0 then (ret, blk, ctx\<lparr>bc_bcount := bc_bcount ctx + skip\<rparr>)
      else if ucast blk \<ge> ext2fs_blocks_count (fs_super (bc_fs ctx)) \<or> blk < s_first_data_block (fs_super (bc_fs ctx)) then
        (ret OR BLOCK_ERROR, blk, ctx\<lparr>bc_errcode := Some bad\<rparr>)
      else
        case ext2fs_read_ind_block (bc_fs ctx) (bc_io ctx) blk of
          (Inl e, io) \<Rightarrow> (ret OR BLOCK_ERROR, blk, ctx\<lparr>bc_io := io, bc_errcode := Some e\<rparr>)
        | (Inr buf, io) \<Rightarrow>
            let (changed, ret', buf, ctx) = entries blk buf (ctx\<lparr>bc_io := io, bc_errcode := None\<rparr>);
                ret = ret OR ret'
            in
            if ro_violation ctx changed then
              (ro_result changed, blk, ctx\<lparr>bc_errcode := Some EXT2_ET_RO_BLOCK_ITERATE\<rparr>)
            else
              let (ret, ctx) =
                    (if changed AND BLOCK_CHANGED \<noteq> 0 then
                       (case ext2fs_write_ind_block (bc_fs ctx) (bc_io ctx) blk buf of
                          (Inl e, io) \<Rightarrow> (ret OR BLOCK_ERROR OR BLOCK_ABORT, ctx\<lparr>bc_io := io, bc_errcode := Some e\<rparr>)
                        | (Inr _, io) \<Rightarrow> (ret, ctx\<lparr>bc_io := io, bc_errcode := None\<rparr>))
                     else (ret, ctx));
                  (ret, blk, ctx) =
                    (if bc_has ctx BLOCK_FLAG_DEPTH_TRAVERSE \<and> \<not> bc_has ctx BLOCK_FLAG_DATA_ONLY \<and> ret AND BLOCK_ABORT = 0
                     then let (r, blk, ctx) = bc_call blk cnt ref off ctx in (ret OR r, blk, ctx)
                     else (ret, blk, ctx))
              in
              if ro_violation ctx ret then (ro_result ret, blk, ctx\<lparr>bc_errcode := Some EXT2_ET_RO_BLOCK_ITERATE\<rparr>)
              else (ret, blk, ctx))"

text \<open>The products of \<open>limit\<close> are taken in an \<open>int\<close>.\<close>

definition block_iterate_ind :: "u32 \<Rightarrow> u32 \<Rightarrow> int \<Rightarrow> ('s, 'd) block_context \<Rightarrow> u32 \<times> u32 \<times> ('s, 'd) block_context" where
  "block_iterate_ind ind_block ref_block ref_offset ctx =
     iterate_node BLOCK_COUNT_IND (sint (bc_limit ctx)) EXT2_ET_BAD_IND_BLOCK (\<lambda>blk. ind_entries blk 0)
       ind_block ref_block ref_offset ctx"

definition block_iterate_dind :: "u32 \<Rightarrow> u32 \<Rightarrow> int \<Rightarrow> ('s, 'd) block_context \<Rightarrow> u32 \<times> u32 \<times> ('s, 'd) block_context" where
  "block_iterate_dind dind_block ref_block ref_offset ctx =
     (let limit = bc_limit ctx in
      iterate_node BLOCK_COUNT_DIND (sint (limit * limit)) EXT2_ET_BAD_DIND_BLOCK
        (\<lambda>blk. node_entries block_iterate_ind (sint limit) blk 0) dind_block ref_block ref_offset ctx)"

definition block_iterate_tind :: "u32 \<Rightarrow> u32 \<Rightarrow> int \<Rightarrow> ('s, 'd) block_context \<Rightarrow> u32 \<times> u32 \<times> ('s, 'd) block_context" where
  "block_iterate_tind tind_block ref_block ref_offset ctx =
     (let limit = bc_limit ctx in
      iterate_node BLOCK_COUNT_TIND (sint (limit * limit * limit)) EXT2_ET_BAD_TIND_BLOCK
        (\<lambda>blk. node_entries block_iterate_dind (sint (limit * limit)) blk 0) tind_block ref_block ref_offset ctx)"

section \<open>Extents\<close>

text \<open>
  The local variables of the branch for extents. \<open>h\<close> also says what a variable holds that is
  not set.
\<close>

record ('s, 'd) extent_iter =
  xi_handle :: "'d extent_handle"
  xi_priv :: 's
  xi_ret :: u32
  xi_blockcnt :: u64
  xi_op :: u32
  xi_err :: "errcode option"

definition junk_extent :: "u8 heap \<Rightarrow> ext2fs_extent" where
  "junk_extent h =
     (let b = map (fresh h) [0..<24] in
      \<lparr>e_pblk = word_cat (ld32 b 0) (ld32 b 4), e_lblk = word_cat (ld32 b 8) (ld32 b 12),
       e_len = ld32 b 16, e_flags = ld32 b 20\<rparr>)"

definition xi_call :: "('s, 'd) block_func \<Rightarrow> u64 \<Rightarrow> int \<Rightarrow> ('s, 'd) extent_iter \<Rightarrow> u32 \<times> u64 \<times> ('s, 'd) extent_iter" where
  "xi_call func blk cnt st =
     (let x = xi_handle st;
          (r, blk, s, fs, io) = func (xh_fs x) blk cnt 0 0 (xi_priv st) (xh_io x)
      in (r, blk, st\<lparr>xi_handle := x\<lparr>xh_fs := fs, xh_io := io\<rparr>, xi_priv := s, xi_ret := xi_ret st OR r\<rparr>))"

definition xi_ro_violation :: "u32 \<Rightarrow> ('s, 'd) extent_iter \<Rightarrow> bool" where
  "xi_ro_violation flags st \<longleftrightarrow> flags AND BLOCK_FLAG_READ_ONLY \<noteq> 0 \<and> xi_ret st AND BLOCK_CHANGED \<noteq> 0"

definition xi_set_bmap :: "u64 \<Rightarrow> u32 \<Rightarrow> ('s, 'd) extent_iter \<Rightarrow> ('s, 'd) extent_iter" where
  "xi_set_bmap blk uninit st =
     (let (r, x) = ext2fs_extent_set_bmap (junk_extent (xh_heap (xi_handle st))) (xi_blockcnt st) blk uninit (xi_handle st)
      in st\<lparr>xi_handle := x, xi_err := (case r of Inl e \<Rightarrow> Some e | Inr _ \<Rightarrow> None)\<rparr>)"

text \<open>Behind the last extent: \<open>Inl\<close> when the walk is over, \<open>Inr\<close> for the next block.\<close>

definition append_step :: "('s, 'd) block_func \<Rightarrow> u32 \<Rightarrow> ('s, 'd) extent_iter \<Rightarrow> ('s, 'd) extent_iter + ('s, 'd) extent_iter" where
  "append_step func flags st =
     (let (r, blk, st) = xi_call func 0 (sint (xi_blockcnt st)) st in
      if xi_ro_violation flags st then Inl (st\<lparr>xi_err := Some EXT2_ET_RO_BLOCK_ITERATE\<rparr>)
      else if r AND BLOCK_CHANGED = 0 then Inl st
      else
        let st = xi_set_bmap blk 0 st;
            st = st\<lparr>xi_blockcnt := xi_blockcnt st + 1\<rparr>
        in
        if xi_err st \<noteq> None \<or> xi_ret st AND BLOCK_ABORT \<noteq> 0 then Inl st
        else if blk \<noteq> 0 then Inr st else Inl st)"

partial_function (option) append_loop :: "('s, 'd) block_func \<Rightarrow> u32 \<Rightarrow> ('s, 'd) extent_iter \<Rightarrow> ('s, 'd) extent_iter option" where
  "append_loop func flags st =
     (case append_step func flags st of Inl st \<Rightarrow> Some st | Inr st \<Rightarrow> append_loop func flags st)"

declare append_loop.simps [code, simp del]

text \<open>The blocks of one extent; the result is \<open>True\<close> when the whole walk is over.\<close>

fun extent_blocks :: "nat \<Rightarrow> ('s, 'd) block_func \<Rightarrow> u32 \<Rightarrow> u32 \<Rightarrow> u64 \<Rightarrow> ('s, 'd) extent_iter \<Rightarrow> bool \<times> ('s, 'd) extent_iter" where
  "extent_blocks 0 func flags uninit blk st = (False, st)"
| "extent_blocks (Suc n) func flags uninit blk st =
     (let (r, new_blk, st) = xi_call func blk (sint (xi_blockcnt st)) st in
      if xi_ro_violation flags st then (True, st\<lparr>xi_err := Some EXT2_ET_RO_BLOCK_ITERATE\<rparr>)
      else
        let st = (if r AND BLOCK_CHANGED \<noteq> 0 then xi_set_bmap new_blk uninit st else st) in
        if r AND BLOCK_CHANGED \<noteq> 0 \<and> xi_err st \<noteq> None then (True, st)
        else if xi_ret st AND BLOCK_ABORT \<noteq> 0 then (False, st)
        else extent_blocks n func flags uninit (blk + 1) (st\<lparr>xi_blockcnt := xi_blockcnt st + 1\<rparr>))"

text \<open>An entry of an index node.\<close>

definition visit_index :: "('s, 'd) block_func \<Rightarrow> u32 \<Rightarrow> ext2fs_extent \<Rightarrow> ('s, 'd) extent_iter \<Rightarrow> bool \<times> ('s, 'd) extent_iter" where
  "visit_index func flags extent st =
     (let second = (e_flags extent AND EXT2_EXTENT_FLAGS_SECOND_VISIT \<noteq> 0);
          depth = (flags AND BLOCK_FLAG_DEPTH_TRAVERSE \<noteq> 0)
      in
      if flags AND BLOCK_FLAG_DATA_ONLY \<noteq> 0 then (False, st)
      else if (\<not> second \<and> \<not> depth) \<or> (second \<and> depth) then
        let (r, blk, st) = xi_call func (e_pblk extent) (-1) st in
        if xi_ret st AND BLOCK_CHANGED \<noteq> 0 then
          let (r, x) = ext2fs_extent_replace (extent\<lparr>e_pblk := blk\<rparr>) (xi_handle st);
              st = st\<lparr>xi_handle := x, xi_err := (case r of Inl e \<Rightarrow> Some e | Inr _ \<Rightarrow> None)\<rparr>
          in (xi_err st \<noteq> None, st)
        else (False, st)
      else (False, st))"

text \<open>
  An extent in a leaf. When it overlaps the blocks before it the walk over its blocks starts again at
  its first logical block, but with a physical block that lies behind the first.
\<close>

definition visit_leaf :: "('s, 'd) block_func \<Rightarrow> u32 \<Rightarrow> ext2fs_extent \<Rightarrow> ('s, 'd) extent_iter \<Rightarrow> bool \<times> ('s, 'd) extent_iter" where
  "visit_leaf func flags extent st =
     (let uninit = (if e_flags extent AND EXT2_EXTENT_FLAGS_UNINIT \<noteq> 0 then EXT2_EXTENT_SET_BMAP_UNINIT else 0) in
      if e_lblk extent + ucast (e_len extent) \<le> xi_blockcnt st then (False, st)
      else
        let blockcnt = max (xi_blockcnt st) (e_lblk extent);
            j = ucast (blockcnt - e_lblk extent) :: u32
        in extent_blocks (unat (e_len extent)) func flags uninit (e_pblk extent + ucast j)
             (st\<lparr>xi_blockcnt := e_lblk extent\<rparr>))"

text \<open>One turn of the loop: \<open>Inl\<close> when the walk is over.\<close>

definition extent_iter_step :: "('s, 'd) block_func \<Rightarrow> u32 \<Rightarrow> ('s, 'd) extent_iter \<Rightarrow>
    (('s, 'd) extent_iter + ('s, 'd) extent_iter) option" where
  "extent_iter_step func flags st =
     (case ext2fs_extent_get (xi_op st) (xi_handle st) of
        (Inl e, x) \<Rightarrow>
          let st = st\<lparr>xi_handle := x, xi_err := Some e\<rparr> in
          if e \<noteq> EXT2_ET_EXTENT_NO_NEXT then Some (Inl st)
          else
            let st = st\<lparr>xi_err := None\<rparr> in
            if flags AND BLOCK_FLAG_APPEND = 0 then Some (Inl st)
            else map_option Inl (append_loop func flags st)
      | (Inr extent, x) \<Rightarrow>
          let st = st\<lparr>xi_handle := x, xi_err := None, xi_op := EXT2_EXTENT_NEXT\<rparr>;
              (over, st) = (if e_flags extent AND EXT2_EXTENT_FLAGS_LEAF = 0 then visit_index func flags extent st
                            else visit_leaf func flags extent st)
          in Some (if over then Inl st else Inr st))"

partial_function (option) extent_iter_loop :: "('s, 'd) block_func \<Rightarrow> u32 \<Rightarrow> ('s, 'd) extent_iter \<Rightarrow> ('s, 'd) extent_iter option" where
  "extent_iter_loop func flags st =
     (case extent_iter_step func flags st of
        None \<Rightarrow> None
      | Some r \<Rightarrow> (case r of Inl st \<Rightarrow> Some st | Inr st \<Rightarrow> extent_iter_loop func flags st))"

declare extent_iter_loop.simps [code, simp del]

section \<open>All blocks of an inode\<close>

text \<open>The direct blocks; the result is \<open>True\<close> when the walk is aborted.\<close>

fun direct_blocks :: "nat \<Rightarrow> nat \<Rightarrow> u32 \<Rightarrow> u32 list \<Rightarrow> ('s, 'd) block_context \<Rightarrow> bool \<times> u32 \<times> u32 list \<times> ('s, 'd) block_context" where
  "direct_blocks 0 i ret bs ctx = (False, ret, bs, ctx)"
| "direct_blocks (Suc n) i ret bs ctx =
     (if bs ! i \<noteq> 0 \<or> bc_has ctx BLOCK_FLAG_APPEND then
        let (r, b, ctx) = bc_call (bs ! i) (bc_bcount ctx) 0 (int i) ctx;
            ret = ret OR r; bs = bs[i := b]
        in
        if ret AND BLOCK_ABORT \<noteq> 0 then (True, ret, bs, ctx)
        else direct_blocks n (i + 1) ret bs (ctx\<lparr>bc_bcount := bc_bcount ctx + 1\<rparr>)
      else direct_blocks n (i + 1) ret bs (ctx\<lparr>bc_bcount := bc_bcount ctx + 1\<rparr>))"

text \<open>One of the three trees of the inode.\<close>

definition top_tree :: "(u32 \<Rightarrow> u32 \<Rightarrow> int \<Rightarrow> ('s, 'd) block_context \<Rightarrow> u32 \<times> u32 \<times> ('s, 'd) block_context) \<Rightarrow> int \<Rightarrow> nat \<Rightarrow>
    u32 \<Rightarrow> u32 list \<Rightarrow> ('s, 'd) block_context \<Rightarrow> bool \<times> u32 \<times> u32 list \<times> ('s, 'd) block_context" where
  "top_tree iter skip i ret bs ctx =
     (if bs ! i \<noteq> 0 \<or> bc_has ctx BLOCK_FLAG_APPEND then
        let (r, b, ctx) = iter (bs ! i) 0 (int i) ctx; ret = ret OR r
        in (ret AND BLOCK_ABORT \<noteq> 0, ret, bs[i := b], ctx)
      else (False, ret, bs, ctx\<lparr>bc_bcount := bc_bcount ctx + skip\<rparr>))"

definition mapped_blocks :: "u32 \<Rightarrow> u32 list \<Rightarrow> ('s, 'd) block_context \<Rightarrow> u32 \<times> u32 list \<times> ('s, 'd) block_context" where
  "mapped_blocks ret bs ctx =
     (let limit = bc_limit ctx;
          (stop, ret, bs, ctx) = direct_blocks 12 0 ret bs ctx
      in
      if stop then (ret, bs, ctx)
      else if ro_violation ctx ret then (ro_result ret, bs, ctx\<lparr>bc_errcode := Some EXT2_ET_RO_BLOCK_ITERATE\<rparr>)
      else
        let (stop, ret, bs, ctx) = top_tree block_iterate_ind (sint limit) EXT2_IND_BLOCK ret bs ctx in
        if stop then (ret, bs, ctx)
        else
          let (stop, ret, bs, ctx) = top_tree block_iterate_dind (sint (limit * limit)) EXT2_DIND_BLOCK ret bs ctx in
          if stop then (ret, bs, ctx)
          else
            let (stop, ret, bs, ctx) = top_tree block_iterate_tind 0 EXT2_TIND_BLOCK ret bs ctx in (ret, bs, ctx))"

text \<open>From the label \<open>abort_exit\<close> on.\<close>

definition finish_iterate :: "u8 heap \<Rightarrow> u32 \<Rightarrow> u32 \<Rightarrow> inode \<Rightarrow> ('s, 'd) block_context \<Rightarrow> unit result \<times> 's \<times> filsys \<times> 'd io_channel" where
  "finish_iterate h ino ret inode ctx =
     (let (ret, err, fs, io) =
        (if ret AND BLOCK_CHANGED \<noteq> 0 then
           (case ext2fs_write_inode h (bc_fs ctx) (bc_io ctx) ino inode of
              (Inl e, fs, io) \<Rightarrow> (ret OR BLOCK_ERROR, Some e, fs, io)
            | (Inr _, fs, io) \<Rightarrow> (ret, bc_errcode ctx, fs, io))
         else (ret, bc_errcode ctx, bc_fs ctx, bc_io ctx))
      in (if ret AND BLOCK_ERROR \<noteq> 0 then (case err of Some e \<Rightarrow> Inl e | None \<Rightarrow> Inr ()) else Inr (), bc_priv ctx, fs, io))"

text \<open>A call that did not return, or has no defined behaviour, cannot be ignored.\<close>

definition stuck :: "errcode \<Rightarrow> bool" where "stuck e \<longleftrightarrow> e = NO_RETURN \<or> e = UNDEFINED"

text \<open>
  \<open>block_buf\<close> tells whether the caller passes a buffer. A walk over extents that does not end
  has the value \<open>NO_RETURN\<close>.
\<close>

definition extents_of_inode :: "u8 heap \<Rightarrow> string \<Rightarrow> u32 \<Rightarrow> u32 \<Rightarrow> u32 \<Rightarrow> inode \<Rightarrow> ('s, 'd) block_context \<Rightarrow>
    unit result \<times> 's \<times> filsys \<times> 'd io_channel" where
  "extents_of_inode h name ino flags ret inode ctx =
     (case ext2fs_extent_open2 h name (bc_fs ctx) (bc_io ctx) ino (Some inode) of
        (Inl e, fs, io) \<Rightarrow>
          if stuck e then (Inl e, bc_priv ctx, fs, io)
          else finish_iterate h ino ret inode (ctx\<lparr>bc_errcode := Some e, bc_fs := fs, bc_io := io\<rparr>)
      | (Inr x, fs, io) \<Rightarrow>
          (case extent_iter_loop (bc_func ctx) flags
                  \<lparr>xi_handle = x, xi_priv = bc_priv ctx, xi_ret = ret, xi_blockcnt = 0, xi_op = EXT2_EXTENT_ROOT, xi_err = None\<rparr> of
             None \<Rightarrow> (Inl NO_RETURN, bc_priv ctx, fs, io)
           | Some st \<Rightarrow>
               (case xi_err st of Some e \<Rightarrow> Inl e | None \<Rightarrow> Inr (), xi_priv st, xh_fs (xi_handle st), xh_io (xi_handle st))))"

definition ext2fs_block_iterate3 :: "u8 heap \<Rightarrow> string \<Rightarrow> filsys \<Rightarrow> 'd io_channel \<Rightarrow> u32 \<Rightarrow> u32 \<Rightarrow> bool \<Rightarrow>
    ('s, 'd) block_func \<Rightarrow> 's \<Rightarrow> unit result \<times> 's \<times> filsys \<times> 'd io_channel" where
  "ext2fs_block_iterate3 h name fs io ino flags block_buf func s =
     (if fs_magic fs \<noteq> EXT2_ET_MAGIC_EXT2FS_FILSYS then (Inl EXT2_ET_MAGIC_EXT2FS_FILSYS, s, fs, io)
      else case ext2fs_read_inode h fs io ino of
        (Inl e, fs, io) \<Rightarrow> (Inl e, s, fs, io)
      | (Inr inode, fs, io) \<Rightarrow>
          if flags AND BLOCK_FLAG_NO_LARGE \<noteq> 0 \<and> \<not> LINUX_S_ISDIR (i_mode inode) \<and> i_size_high inode \<noteq> 0 then
            (Inl EXT2_ET_FILE_TOO_BIG, s, fs, io)
          else
            case (if block_buf then Inr () else map_sum id (\<lambda>_. ()) (ext2fs_get_array h 3 (unat (fs_blocksize fs)))) of
              Inl e \<Rightarrow> (Inl e, s, fs, io)
            | Inr _ \<Rightarrow>
                let ctx = \<lparr>bc_fs = fs, bc_io = io, bc_func = func, bc_bcount = 0, bc_flags = flags, bc_errcode = None, bc_priv = s\<rparr>;
                    translator = (s_creator_os (fs_super fs) = EXT2_OS_HURD \<and> \<not> bc_has ctx BLOCK_FLAG_DATA_ONLY \<and> l_i_version inode \<noteq> 0);
                    (ret, inode, ctx) =
                      (if translator then
                         let (r, b, ctx) = bc_call (l_i_version inode) BLOCK_COUNT_TRANSLATOR 0 0 ctx
                         in (r, inode\<lparr>l_i_version := b\<rparr>, ctx)
                       else (0, inode, ctx))
                in
                if ret AND BLOCK_ABORT \<noteq> 0 then finish_iterate h ino ret inode ctx
                else if translator \<and> ro_violation ctx ret then
                  finish_iterate h ino (ro_result ret) inode (ctx\<lparr>bc_errcode := Some EXT2_ET_RO_BLOCK_ITERATE\<rparr>)
                else if i_flags inode AND EXT4_EXTENTS_FL \<noteq> 0 then extents_of_inode h name ino flags ret inode ctx
                else
                  let (ret, bs, ctx) = mapped_blocks ret (i_block inode) ctx
                  in finish_iterate h ino ret (inode\<lparr>i_block := bs\<rparr>) ctx)"

section \<open>The older interfaces\<close>

type_synonym ('s, 'd) block_func32 =
  "filsys \<Rightarrow> u32 \<Rightarrow> int \<Rightarrow> u32 \<Rightarrow> int \<Rightarrow> 's \<Rightarrow> 'd io_channel \<Rightarrow> u32 \<times> u32 \<times> 's \<times> filsys \<times> 'd io_channel"

definition xlate64_func :: "('s, 'd) block_func32 \<Rightarrow> ('s, 'd) block_func" where
  "xlate64_func func fs blocknr blockcnt ref_blk ref_offset s io =
     (let (ret, block32, s, fs, io) = func fs (ucast blocknr) blockcnt (ucast ref_blk) ref_offset s io
      in (ret, ucast block32, s, fs, io))"

definition ext2fs_block_iterate2 :: "u8 heap \<Rightarrow> string \<Rightarrow> filsys \<Rightarrow> 'd io_channel \<Rightarrow> u32 \<Rightarrow> u32 \<Rightarrow> bool \<Rightarrow>
    ('s, 'd) block_func32 \<Rightarrow> 's \<Rightarrow> unit result \<times> 's \<times> filsys \<times> 'd io_channel" where
  "ext2fs_block_iterate2 h name fs io ino flags block_buf func s =
     ext2fs_block_iterate3 h name fs io ino flags block_buf (xlate64_func func) s"

text \<open>The place in the file is an \<open>int\<close> here.\<close>

definition xlate_func :: "(filsys \<Rightarrow> u32 \<Rightarrow> int \<Rightarrow> 's \<Rightarrow> 'd io_channel \<Rightarrow> u32 \<times> u32 \<times> 's \<times> filsys \<times> 'd io_channel) \<Rightarrow>
    ('s, 'd) block_func32" where
  "xlate_func func fs blocknr blockcnt ref_block ref_offset s io =
     func fs blocknr (sint (word_of_int blockcnt :: u32)) s io"

definition ext2fs_block_iterate :: "u8 heap \<Rightarrow> string \<Rightarrow> filsys \<Rightarrow> 'd io_channel \<Rightarrow> u32 \<Rightarrow> u32 \<Rightarrow> bool \<Rightarrow>
    (filsys \<Rightarrow> u32 \<Rightarrow> int \<Rightarrow> 's \<Rightarrow> 'd io_channel \<Rightarrow> u32 \<times> u32 \<times> 's \<times> filsys \<times> 'd io_channel) \<Rightarrow> 's \<Rightarrow>
    unit result \<times> 's \<times> filsys \<times> 'd io_channel" where
  "ext2fs_block_iterate h name fs io ino flags block_buf func s =
     ext2fs_block_iterate2 h name fs io ino (BLOCK_FLAG_NO_LARGE OR flags) block_buf (xlate_func func) s"

section \<open>Directories\<close>

text \<open>
  The context of a walk over the blocks of a directory: the error and the private data of the
  callback. A walk over a block that does not end leaves \<open>NO_RETURN\<close>, which stays.
\<close>

definition dir_block_func :: "u8 heap \<Rightarrow> 's dir_context \<Rightarrow> (errcode option \<times> 's, 'd) block_func" where
  "dir_block_func h ctx fs blocknr blockcnt ref_block ref_offset st io =
     (if fst st = Some NO_RETURN then (BLOCK_ABORT, blocknr, st, fs, io)
      else case ext2fs_process_dir_block h fs io ctx blocknr blockcnt (fst st) (snd st) of
        None \<Rightarrow> (BLOCK_ABORT, blocknr, (Some NO_RETURN, snd st), fs, io)
      | Some (ret, err, s, io) \<Rightarrow> (ret, blocknr, (err, s), fs, io))"

definition ext2fs_dir_iterate2 :: "u8 heap \<Rightarrow> string \<Rightarrow> filsys \<Rightarrow> 'd io_channel \<Rightarrow> u32 \<Rightarrow> u32 \<Rightarrow> bool \<Rightarrow>
    's dir_func \<Rightarrow> 's \<Rightarrow> unit result \<times> 's \<times> filsys \<times> 'd io_channel" where
  "ext2fs_dir_iterate2 h name fs io dir flags block_buf func s =
     (if fs_magic fs \<noteq> EXT2_ET_MAGIC_EXT2FS_FILSYS then (Inl EXT2_ET_MAGIC_EXT2FS_FILSYS, s, fs, io)
      else case ext2fs_check_directory h fs io dir of
        (Inl e, fs, io) \<Rightarrow> (Inl e, s, fs, io)
      | (Inr _, fs, io) \<Rightarrow>
          (case (if block_buf then Inr () else ext2fs_get_mem h (unat (fs_blocksize fs))) of
             Inl e \<Rightarrow> (Inl e, s, fs, io)
           | Inr _ \<Rightarrow>
               let (r, (err, s), fs, io) =
                     ext2fs_block_iterate3 h name fs io dir BLOCK_FLAG_READ_ONLY False
                       (dir_block_func h \<lparr>ctx_dir = dir, ctx_flags = flags, ctx_func = func\<rparr>) (None, s)
               in (case r of Inl e \<Rightarrow> Inl e | Inr _ \<Rightarrow> (case err of Some e \<Rightarrow> Inl e | None \<Rightarrow> Inr ()), s, fs, io)))"

definition xlate_dir_func :: "(nat \<Rightarrow> int \<Rightarrow> u8 list \<Rightarrow> 's \<Rightarrow> u32 \<times> u8 list \<times> 's) \<Rightarrow> 's dir_func" where
  "xlate_dir_func func dir entry dirent blocksize buf s = func dirent blocksize buf s"

definition ext2fs_dir_iterate :: "u8 heap \<Rightarrow> string \<Rightarrow> filsys \<Rightarrow> 'd io_channel \<Rightarrow> u32 \<Rightarrow> u32 \<Rightarrow> bool \<Rightarrow>
    (nat \<Rightarrow> int \<Rightarrow> u8 list \<Rightarrow> 's \<Rightarrow> u32 \<times> u8 list \<times> 's) \<Rightarrow> 's \<Rightarrow> unit result \<times> 's \<times> filsys \<times> 'd io_channel" where
  "ext2fs_dir_iterate h name fs io dir flags block_buf func s =
     ext2fs_dir_iterate2 h name fs io dir flags block_buf (xlate_dir_func func) s"

end
