(* ===== verification/Bmap.thy ===== *)
theory Bmap
  imports Block_Iter
begin

text \<open>
  The map from the blocks of a file to the blocks of the device (\<open>source/bmap.c\<close>): looking a
  block up, setting it, and allocating it and the indirect blocks on the way.
\<close>

definition BMAP_ALLOC :: u32 where "BMAP_ALLOC = 1"
definition BMAP_SET :: u32 where "BMAP_SET = 2"
definition BMAP_RET_UNINIT :: u32 where "BMAP_RET_UNINIT = 1"

definition EXT2FS_CLUSTER_MASK :: "filsys \<Rightarrow> u64" where
  "EXT2FS_CLUSTER_MASK fs = ucast (push_bit (fs_cluster_ratio_bits fs) 1 - 1 :: u32)"

section \<open>Indirect blocks\<close>

text \<open>
  The result is the block, the number of blocks that were allocated, the handle and the channel.
  The words of the block are those of the target's memory, so an entry is swapped when it is read; the
  goal of an allocation is not.
\<close>

definition block_ind_bmap :: "u8 heap \<Rightarrow> string \<Rightarrow> filsys \<Rightarrow> 'd io_channel \<Rightarrow> u32 \<Rightarrow> u32 \<Rightarrow> u32 \<Rightarrow> u32 \<Rightarrow>
    u32 result \<times> nat \<times> filsys \<times> 'd io_channel" where
  "block_ind_bmap h name fs io flags ind nr ret_blk =
     (if ind = 0 then (if flags AND BMAP_SET \<noteq> 0 then Inl EXT2_ET_SET_BMAP_NO_IND else Inr 0, 0, fs, io)
      else case io_channel_read_blk io ind 1 of
        (Inl e, io) \<Rightarrow> (Inl e, 0, fs, io)
      | (Inr buf, io) \<Rightarrow>
          let ws = words_of buf in
          if flags AND BMAP_SET \<noteq> 0 then
            (case io_channel_write_blk io ind 1 (bytes_of (ws[unat nr := ext2fs_swab32 ret_blk])) of
               (Inl e, io) \<Rightarrow> (Inl e, 0, fs, io) | (Inr _, io) \<Rightarrow> (Inr ret_blk, 0, fs, io))
          else
            let b = ext2fs_swab32 (ws ! unat nr) in
            if b = 0 \<and> flags AND BMAP_ALLOC \<noteq> 0 then
              (case ext2fs_alloc_block h name fs io (if nr \<noteq> 0 then ws ! unat (nr - 1) else 0) True of
                 (Inl e, fs, io) \<Rightarrow> (Inl e, 0, fs, io)
               | (Inr b, fs, io) \<Rightarrow>
                   (case io_channel_write_blk io ind 1 (bytes_of (ws[unat nr := ext2fs_swab32 b])) of
                      (Inl e, io) \<Rightarrow> (Inl e, 0, fs, io) | (Inr _, io) \<Rightarrow> (Inr b, 1, fs, io)))
            else (Inr b, 0, fs, io))"

definition block_dind_bmap :: "u8 heap \<Rightarrow> string \<Rightarrow> filsys \<Rightarrow> 'd io_channel \<Rightarrow> u32 \<Rightarrow> u32 \<Rightarrow> u32 \<Rightarrow> u32 \<Rightarrow>
    u32 result \<times> nat \<times> filsys \<times> 'd io_channel" where
  "block_dind_bmap h name fs io flags dind nr ret_blk =
     (let addr_per_block = drop_bit 2 (fs_blocksize fs) in
      case block_ind_bmap h name fs io (flags AND NOT BMAP_SET) dind (nr div addr_per_block) 0 of
        (Inl e, n, fs, io) \<Rightarrow> (Inl e, n, fs, io)
      | (Inr b, n, fs, io) \<Rightarrow>
          (case block_ind_bmap h name fs io flags b (nr mod addr_per_block) ret_blk of
             (r, m, fs, io) \<Rightarrow> (r, n + m, fs, io)))"

definition block_tind_bmap :: "u8 heap \<Rightarrow> string \<Rightarrow> filsys \<Rightarrow> 'd io_channel \<Rightarrow> u32 \<Rightarrow> u32 \<Rightarrow> u32 \<Rightarrow> u32 \<Rightarrow>
    u32 result \<times> nat \<times> filsys \<times> 'd io_channel" where
  "block_tind_bmap h name fs io flags tind nr ret_blk =
     (let addr_per_block = drop_bit 2 (fs_blocksize fs) in
      case block_dind_bmap h name fs io (flags AND NOT BMAP_SET) tind (nr div addr_per_block) 0 of
        (Inl e, n, fs, io) \<Rightarrow> (Inl e, n, fs, io)
      | (Inr b, n, fs, io) \<Rightarrow>
          (case block_ind_bmap h name fs io flags b (nr mod addr_per_block) ret_blk of
             (r, m, fs, io) \<Rightarrow> (r, n + m, fs, io)))"

section \<open>Extents\<close>

text \<open>
  Looking a block up, without changing the tree: the block (\<open>phys_blk\<close> when the tree does not
  have it) and the flags to return. \<open>offset\<close> is compared with the length inclusively.
\<close>

definition extent_bmap_find :: "u64 \<Rightarrow> u64 \<Rightarrow> 'd extent_handle \<Rightarrow> (u64 \<times> u32) result \<times> 'd extent_handle" where
  "extent_bmap_find block phys_blk x =
     (case ext2fs_extent_goto block x of
        (Inl e, x) \<Rightarrow> (if e = EXT2_ET_EXTENT_NOT_FOUND then Inr (phys_blk, 0) else Inl e, x)
      | (Inr _, x) \<Rightarrow>
          (case ext2fs_extent_get EXT2_EXTENT_CURRENT x of
             (Inl e, x) \<Rightarrow> (Inl e, x)
           | (Inr extent, x) \<Rightarrow>
               let offset = ucast (block - e_lblk extent) :: u32 in
               if block \<ge> e_lblk extent \<and> offset \<le> e_len extent then
                 (Inr (e_pblk extent + ucast offset,
                       if e_flags extent AND EXT2_EXTENT_FLAGS_UNINIT \<noteq> 0 then BMAP_RET_UNINIT else 0), x)
               else (Inr (phys_blk, 0), x)))"

text \<open>
  The blocks of the cluster, from the first on: a block that is mapped and its place, if there is one.
  Errors of the single calls are ignored.
\<close>

fun cluster_scan :: "nat \<Rightarrow> u64 \<Rightarrow> u64 \<Rightarrow> 'd extent_handle \<Rightarrow> (u64 \<times> u64) option result \<times> 'd extent_handle" where
  "cluster_scan 0 base_block i x = (Inr None, x)"
| "cluster_scan (Suc n) base_block i x =
     (case extent_bmap_find (base_block + i) 0 x of
        (Inl e, x) \<Rightarrow> if stuck e then (Inl e, x) else cluster_scan n base_block (i + 1) x
      | (Inr (pblock, _), x) \<Rightarrow> if pblock \<noteq> 0 then (Inr (Some (pblock, i)), x) else cluster_scan n base_block (i + 1) x)"

definition EXT4_FEATURE_RO_COMPAT_BIGALLOC :: u32 where "EXT4_FEATURE_RO_COMPAT_BIGALLOC = 0x0200"

text \<open>The block, 0 when there is none.\<close>

definition implied_cluster_alloc :: "u64 \<Rightarrow> 'd extent_handle \<Rightarrow> u64 result \<times> 'd extent_handle" where
  "implied_cluster_alloc block x =
     (let fs = xh_fs x; base_block = block AND NOT (EXT2FS_CLUSTER_MASK fs) in
      if s_feature_ro_compat (fs_super fs) AND EXT4_FEATURE_RO_COMPAT_BIGALLOC = 0 then (Inr 0, x)
      else if block = base_block then (Inr 0, x)
      else case cluster_scan (unat (EXT2FS_CLUSTER_RATIO fs)) base_block 0 x of
        (Inl e, x) \<Rightarrow> (Inl e, x)
      | (Inr None, x) \<Rightarrow> (Inr 0, x)
      | (Inr (Some (pblock, i)), x) \<Rightarrow> (Inr (pblock - i + (block - base_block)), x))"

text \<open>Mapping a block that is not mapped; the inode is read again from the table.\<close>

definition extent_map_new :: "u64 \<Rightarrow> u64 \<Rightarrow> nat \<Rightarrow> 'd extent_handle \<Rightarrow> u64 result \<times> nat \<times> 'd extent_handle" where
  "extent_map_new block blk64 alloc x =
     (case ext2fs_extent_set_bmap (junk_extent (xh_heap x)) block blk64 0 x of
        (Inl e, x) \<Rightarrow> (Inl e, 0, x)
      | (Inr _, x) \<Rightarrow>
          (case ext2fs_read_inode (xh_heap x) (xh_fs x) (xh_io x) (xh_ino x) of
             (Inl e, fs, io) \<Rightarrow> (Inl e, 0, x\<lparr>xh_fs := fs, xh_io := io\<rparr>)
           | (Inr i, fs, io) \<Rightarrow> (Inr blk64, alloc, x\<lparr>xh_fs := fs, xh_io := io, xh_inode := i\<rparr>)))"

definition extent_alloc :: "u64 \<Rightarrow> 'd extent_handle \<Rightarrow> u64 result \<times> nat \<times> 'd extent_handle" where
  "extent_alloc block x =
     (case implied_cluster_alloc block x of
        (Inl e, x) \<Rightarrow> (Inl e, 0, x)
      | (Inr blk64, x) \<Rightarrow>
          if blk64 \<noteq> 0 then extent_map_new block blk64 0 x
          else
            let (r, x) = extent_bmap_find (block - 1) 0 x in
            case (case r of Inl e \<Rightarrow> if stuck e then Inl e else Inr 0 | Inr (goal, _) \<Rightarrow> Inr goal) of
              Inl e \<Rightarrow> (Inl e, 0, x)
            | Inr goal \<Rightarrow>
                (case ext2fs_alloc_block2 (xh_heap x) (xh_name x) (xh_fs x) (xh_io x) goal True of
                   (Inl e, fs, io) \<Rightarrow> (Inl e, 0, x\<lparr>xh_fs := fs, xh_io := io\<rparr>)
                 | (Inr blk64, fs, io) \<Rightarrow>
                     let mask = EXT2FS_CLUSTER_MASK fs
                     in extent_map_new block ((blk64 AND NOT mask) + (mask AND block)) 1 (x\<lparr>xh_fs := fs, xh_io := io\<rparr>)))"

text \<open>The block, the flags to return, the number of blocks allocated, and the handle.\<close>

definition extent_bmap :: "u32 \<Rightarrow> u64 \<Rightarrow> u64 \<Rightarrow> 'd extent_handle \<Rightarrow> (u64 \<times> u32) result \<times> nat \<times> 'd extent_handle" where
  "extent_bmap bmap_flags block phys_blk x =
     (if bmap_flags AND BMAP_SET \<noteq> 0 then
        let (r, x) = ext2fs_extent_set_bmap (junk_extent (xh_heap x)) block phys_blk 0 x
        in (map_sum id (\<lambda>_. (phys_blk, 0)) r, 0, x)
      else case extent_bmap_find block phys_blk x of
        (Inl e, x) \<Rightarrow> (Inl e, 0, x)
      | (Inr (phys, fl), x) \<Rightarrow>
          if phys = 0 \<and> bmap_flags AND BMAP_ALLOC \<noteq> 0 then
            (case extent_alloc block x of
               (Inl e, n, x) \<Rightarrow> (Inl e, n, x) | (Inr phys, n, x) \<Rightarrow> (Inr (phys, fl), n, x))
          else (Inr (phys, fl), 0, x))"

section \<open>Any block\<close>

text \<open>
  One of the three indirect blocks of the inode: it is allocated when it is missing, with the entry
  before it as the goal.
\<close>

definition through_indirect :: "u8 heap \<Rightarrow> string \<Rightarrow> filsys \<Rightarrow> 'd io_channel \<Rightarrow> inode \<Rightarrow> u32 \<Rightarrow> u64 \<Rightarrow> nat \<Rightarrow>
    (filsys \<Rightarrow> 'd io_channel \<Rightarrow> u32 \<Rightarrow> u32 result \<times> nat \<times> filsys \<times> 'd io_channel) \<Rightarrow>
    u64 result \<times> nat \<times> inode \<times> filsys \<times> 'd io_channel" where
  "through_indirect h name fs io inode bmap_flags phys_blk k look =
     (let b = i_block inode ! k in
      if b = 0 \<and> bmap_flags AND BMAP_ALLOC = 0 then
        (if bmap_flags AND BMAP_SET \<noteq> 0 then Inl EXT2_ET_SET_BMAP_NO_IND else Inr phys_blk, 0, inode, fs, io)
      else
        case (if b = 0 then
                (case ext2fs_alloc_block h name fs io (i_block inode ! (k - 1)) True of
                   (Inl e, fs, io) \<Rightarrow> (Inl e, 0, inode, fs, io)
                 | (Inr b, fs, io) \<Rightarrow> (Inr b, 1, inode\<lparr>i_block := (i_block inode)[k := b]\<rparr>, fs, io))
              else (Inr b, 0, inode, fs, io)) of
          (Inl e, n, inode, fs, io) \<Rightarrow> (Inl e, n, inode, fs, io)
        | (Inr b, n, inode, fs, io) \<Rightarrow>
            (case look fs io b of (r, m, fs, io) \<Rightarrow> (map_sum id ucast r, n + m, inode, fs, io)))"

text \<open>
  A block of a file without extents: the result, the number of blocks allocated, whether the inode
  was changed otherwise.
\<close>

definition mapped_bmap :: "u8 heap \<Rightarrow> string \<Rightarrow> filsys \<Rightarrow> 'd io_channel \<Rightarrow> inode \<Rightarrow> u32 \<Rightarrow> u64 \<Rightarrow> u64 \<Rightarrow>
    u64 result \<times> nat \<times> bool \<times> inode \<times> filsys \<times> 'd io_channel" where
  "mapped_bmap h name fs io inode bmap_flags block phys_blk =
     (let addr_per_block = drop_bit 2 (fs_blocksize fs);
          blk32 = ucast phys_blk :: u32;
          indirect = (\<lambda>k look. case through_indirect h name fs io inode bmap_flags phys_blk k look of
                        (r, n, inode, fs, io) \<Rightarrow> (r, n, False, inode, fs, io))
      in
      if block < 12 then
        let k = unat block in
        if bmap_flags AND BMAP_SET \<noteq> 0 then
          (Inr phys_blk, 0, True, inode\<lparr>i_block := (i_block inode)[k := blk32]\<rparr>, fs, io)
        else
          let phys = i_block inode ! k; b = (if block \<noteq> 0 then i_block inode ! (k - 1) else 0) in
          if phys = 0 \<and> bmap_flags AND BMAP_ALLOC \<noteq> 0 then
            (case ext2fs_alloc_block h name fs io b True of
               (Inl e, fs, io) \<Rightarrow> (Inl e, 0, False, inode, fs, io)
             | (Inr b, fs, io) \<Rightarrow> (Inr (ucast b), 1, False, inode\<lparr>i_block := (i_block inode)[k := b]\<rparr>, fs, io))
          else (Inr (ucast phys), 0, False, inode, fs, io)
      else
        let block = block - 12 in
        if block < ucast addr_per_block then
          indirect EXT2_IND_BLOCK (\<lambda>fs io b. block_ind_bmap h name fs io bmap_flags b (ucast block) blk32)
        else
          let block = block - ucast addr_per_block in
          if block < ucast (addr_per_block * addr_per_block) then
            indirect EXT2_DIND_BLOCK (\<lambda>fs io b. block_dind_bmap h name fs io bmap_flags b (ucast block) blk32)
          else
            let block = block - ucast (addr_per_block * addr_per_block) in
            indirect EXT2_TIND_BLOCK (\<lambda>fs io b. block_tind_bmap h name fs io bmap_flags b (ucast block) blk32))"

text \<open>From the label \<open>done\<close> on: an overflow of the count of blocks is not noticed.\<close>

definition bmap_done :: "u8 heap \<Rightarrow> u32 \<Rightarrow> (u64 \<times> u32) result \<Rightarrow> nat \<Rightarrow> bool \<Rightarrow> inode \<Rightarrow> filsys \<Rightarrow> 'd io_channel \<Rightarrow>
    (u64 \<times> u32) result \<times> inode \<times> filsys \<times> 'd io_channel" where
  "bmap_done h ino r blocks_alloc inode_dirty inode fs io =
     (case r of
        Inl e \<Rightarrow> (Inl e, inode, fs, io)
      | Inr v \<Rightarrow>
          if blocks_alloc \<noteq> 0 \<or> inode_dirty then
            let inode = (case ext2fs_iblk_add_blocks fs inode (of_nat blocks_alloc) of Inl _ \<Rightarrow> inode | Inr i \<Rightarrow> i);
                (w, fs, io) = ext2fs_write_inode h fs io ino inode
            in (map_sum id (\<lambda>_. v) w, inode, fs, io)
          else (Inr v, inode, fs, io))"

text \<open>
  \<open>phys\<close> is what the caller's variable holds, which counts when the block is set; the result is
  the block and the flags. \<open>inode\<close> is the caller's inode, if it passes one, and is returned.
\<close>

definition ext2fs_bmap2 :: "u8 heap \<Rightarrow> string \<Rightarrow> filsys \<Rightarrow> 'd io_channel \<Rightarrow> u32 \<Rightarrow> inode option \<Rightarrow> bool \<Rightarrow> u32 \<Rightarrow> u64 \<Rightarrow> u64 \<Rightarrow>
    (u64 \<times> u32) result \<times> inode option \<times> filsys \<times> 'd io_channel" where
  "ext2fs_bmap2 h name fs io ino inode block_buf bmap_flags block phys =
     (let phys_blk = (if bmap_flags AND BMAP_SET \<noteq> 0 then phys else 0) in
      case (case inode of Some i \<Rightarrow> (Inr i, fs, io) | None \<Rightarrow> ext2fs_read_inode h fs io ino) of
        (Inl e, fs, io) \<Rightarrow> (Inl e, inode, fs, io)
      | (Inr i, fs, io) \<Rightarrow>
          case (if block_buf then Inr () else map_sum id (\<lambda>_. ()) (ext2fs_get_array h 2 (unat (fs_blocksize fs)))) of
            Inl e \<Rightarrow> (Inl e, inode, fs, io)
          | Inr _ \<Rightarrow>
              let (r, i, fs, io) =
                (if i_flags i AND EXT4_EXTENTS_FL \<noteq> 0 then
                   (case ext2fs_extent_open2 h name fs io ino (Some i) of
                      (Inl e, fs, io) \<Rightarrow> (Inl e, i, fs, io)
                    | (Inr x, fs, io) \<Rightarrow>
                        (case extent_bmap bmap_flags block phys_blk x of
                           (r, n, x) \<Rightarrow> bmap_done h ino r n False (xh_inode x) (xh_fs x) (xh_io x)))
                 else
                   (case mapped_bmap h name fs io i bmap_flags block phys_blk of
                      (r, n, dirty, i, fs, io) \<Rightarrow> bmap_done h ino (map_sum id (\<lambda>b. (b, 0)) r) n dirty i fs io))
              in (r, map_option (\<lambda>_. i) inode, fs, io))"

definition ext2fs_bmap :: "u8 heap \<Rightarrow> string \<Rightarrow> filsys \<Rightarrow> 'd io_channel \<Rightarrow> u32 \<Rightarrow> inode option \<Rightarrow> bool \<Rightarrow> u32 \<Rightarrow> u32 \<Rightarrow> u32 \<Rightarrow>
    u32 result \<times> inode option \<times> filsys \<times> 'd io_channel" where
  "ext2fs_bmap h name fs io ino inode block_buf bmap_flags block phys =
     (case ext2fs_bmap2 h name fs io ino inode block_buf bmap_flags (ucast block) (ucast phys) of
        (Inl e, inode, fs, io) \<Rightarrow> (Inl e, inode, fs, io)
      | (Inr (ret_blk, _), inode, fs, io) \<Rightarrow>
          (if ret_blk \<ge> 2 ^ 32 then Inl EOVERFLOW else Inr (ucast ret_blk), inode, fs, io))"

end
