(* ===== verification/Dir_Tree.thy ===== *)
theory Dir_Tree
  imports Bmap
begin

text \<open>
  Names in directories and paths through them: looking a name up, linking and unlinking it in a
  directory inode (\<open>source/lookup.c\<close>, \<open>source/link.c\<close>, \<open>source/unlink.c\<close>), resolving a path with its
  symbolic links (\<open>source/namei.c\<close>), the path of a directory (\<open>source/get_pathname.c\<close>), another block
  for a directory (\<open>source/expanddir.c\<close>) and a new directory (\<open>source/mkdir.c\<close>). \<open>dev\<close> is the name of
  the device in the handle.
\<close>

section \<open>Names in a directory\<close>

definition EXT2_INDEX_FL :: u32 where "EXT2_INDEX_FL = 0x1000"
definition EXT2_ROOT_INO :: u32 where "EXT2_ROOT_INO = 2"

text \<open>The name comes with what follows it in memory; \<open>buf\<close> tells whether the caller passes a buffer.\<close>

definition ext2fs_lookup :: "u8 heap \<Rightarrow> string \<Rightarrow> filsys \<Rightarrow> 'd io_channel \<Rightarrow> u32 \<Rightarrow> u8 list \<Rightarrow> nat \<Rightarrow> bool \<Rightarrow>
    u32 result \<times> filsys \<times> 'd io_channel" where
  "ext2fs_lookup h dev fs io dir name namelen buf =
     (if fs_magic fs \<noteq> EXT2_ET_MAGIC_EXT2FS_FILSYS then (Inl EXT2_ET_MAGIC_EXT2FS_FILSYS, fs, io)
      else case ext2fs_dir_iterate2 h dev fs io dir 0 buf lookup_proc
             \<lparr>lk_name = name, lk_len = namelen, lk_inode = 0, lk_found = 0\<rparr> of
        (Inl e, ls, fs, io) \<Rightarrow> (Inl e, fs, io)
      | (Inr _, ls, fs, io) \<Rightarrow> (if lk_found ls \<noteq> 0 then Inr (lk_inode ls) else Inl EXT2_ET_FILE_NOT_FOUND, fs, io))"

definition ext2fs_link :: "u8 heap \<Rightarrow> string \<Rightarrow> filsys \<Rightarrow> 'd io_channel \<Rightarrow> u32 \<Rightarrow> u8 list \<Rightarrow> u32 \<Rightarrow> u32 \<Rightarrow>
    unit result \<times> filsys \<times> 'd io_channel" where
  "ext2fs_link h dev fs io dir name ino flags =
     (if fs_magic fs \<noteq> EXT2_ET_MAGIC_EXT2FS_FILSYS then (Inl EXT2_ET_MAGIC_EXT2FS_FILSYS, fs, io)
      else if fs_flags fs AND EXT2_FLAG_RW = 0 then (Inl EXT2_ET_RO_FILSYS, fs, io)
      else case ext2fs_dir_iterate2 h dev fs io dir DIRENT_FLAG_INCLUDE_EMPTY False (link_proc fs)
             \<lparr>ln_name = name, ln_inode = ino, ln_flags = flags, ln_done = 0, ln_err = None\<rparr> of
        (Inl e, ls, fs, io) \<Rightarrow> (Inl e, fs, io)
      | (Inr _, ls, fs, io) \<Rightarrow>
          (case ln_err ls of
             Some e \<Rightarrow> (Inl e, fs, io)
           | None \<Rightarrow>
               if ln_done ls = 0 then (Inl EXT2_ET_DIR_NO_SPACE, fs, io)
               else case ext2fs_read_inode h fs io dir of
                 (Inl e, fs, io) \<Rightarrow> (Inl e, fs, io)
               | (Inr inode, fs, io) \<Rightarrow>
                   if i_flags inode AND EXT2_INDEX_FL \<noteq> 0 then
                     ext2fs_write_inode h fs io dir (inode\<lparr>i_flags := i_flags inode AND NOT EXT2_INDEX_FL\<rparr>)
                   else (Inr (), fs, io)))"

definition ext2fs_unlink :: "u8 heap \<Rightarrow> string \<Rightarrow> filsys \<Rightarrow> 'd io_channel \<Rightarrow> u32 \<Rightarrow> u8 list option \<Rightarrow> u32 \<Rightarrow>
    unit result \<times> filsys \<times> 'd io_channel" where
  "ext2fs_unlink h dev fs io dir name ino =
     (if fs_magic fs \<noteq> EXT2_ET_MAGIC_EXT2FS_FILSYS then (Inl EXT2_ET_MAGIC_EXT2FS_FILSYS, fs, io)
      else if name = None \<and> ino = 0 then (Inl EXT2_ET_INVALID_ARGUMENT, fs, io)
      else if fs_flags fs AND EXT2_FLAG_RW = 0 then (Inl EXT2_ET_RO_FILSYS, fs, io)
      else case ext2fs_dir_iterate2 h dev fs io dir DIRENT_FLAG_INCLUDE_EMPTY False unlink_proc
             \<lparr>ul_name = name, ul_inode = ino, ul_prev = None, ul_done = 0\<rparr> of
        (Inl e, ls, fs, io) \<Rightarrow> (Inl e, fs, io)
      | (Inr _, ls, fs, io) \<Rightarrow> (if ul_done ls \<noteq> 0 then Inr () else Inl EXT2_ET_DIR_NO_SPACE, fs, io))"

section \<open>Paths\<close>

definition EXT2FS_MAX_NESTED_LINKS :: nat where "EXT2FS_MAX_NESTED_LINKS = 8"

text \<open>
  One component of a path in memory: its length, what follows it, and the length that is left, which
  is negative at the end. \<open>None\<close> when the path is read behind the end of the memory.
\<close>

fun scan_name :: "u8 list \<Rightarrow> int \<Rightarrow> nat \<Rightarrow> (nat \<times> u8 list \<times> int) option" where
  "scan_name [] pathlen len = (if pathlen \<le> 0 then Some (len, [], pathlen - 1) else None)"
| "scan_name (c # cs) pathlen len =
     (if pathlen \<le> 0 then Some (len, c # cs, pathlen - 1)
      else if c = 0x2F then Some (len, cs, pathlen - 1)
      else scan_name cs (pathlen - 1) (len + 1))"

lemma scan_name_shorter: "scan_name path pathlen len = Some (n, rest, pl) \<Longrightarrow> 0 \<le> pl \<Longrightarrow> length rest < length path"
  by (induction path pathlen len rule: scan_name.induct) (fastforce split: if_splits)+

text \<open>The function that follows a symbolic link is an argument: it is called one level deeper.\<close>

type_synonym 'd follow = "filsys \<Rightarrow> 'd io_channel \<Rightarrow> u32 \<Rightarrow> u32 \<Rightarrow> u32 result \<times> filsys \<times> 'd io_channel"

function dir_namei_loop :: "u8 heap \<Rightarrow> string \<Rightarrow> 'd follow \<Rightarrow> filsys \<Rightarrow> 'd io_channel \<Rightarrow> u32 \<Rightarrow> u8 list \<Rightarrow> int \<Rightarrow>
    (u8 list \<times> nat \<times> u32) result \<times> filsys \<times> 'd io_channel" where
  "dir_namei_loop h dev follow fs io dir path pathlen =
     (case scan_name path pathlen 0 of
        None \<Rightarrow> (Inl UNDEFINED, fs, io)
      | Some (len, rest, left) \<Rightarrow>
          if left < 0 then (Inr (path, len, dir), fs, io)
          else case ext2fs_lookup h dev fs io dir path len True of
            (Inl e, fs, io) \<Rightarrow> (Inl e, fs, io)
          | (Inr inode, fs, io) \<Rightarrow>
              (case follow fs io dir inode of
                 (Inl e, fs, io) \<Rightarrow> (Inl e, fs, io)
               | (Inr dir, fs, io) \<Rightarrow> dir_namei_loop h dev follow fs io dir rest left))"
  by pat_completeness auto
termination
  by (relation "measure (\<lambda>(_, _, _, _, _, _, path, _). length path)") (auto dest: scan_name_shorter)

declare dir_namei_loop.simps [simp del]

text \<open>The directory, the last component of the path and its length.\<close>

definition dir_namei :: "u8 heap \<Rightarrow> string \<Rightarrow> 'd follow \<Rightarrow> filsys \<Rightarrow> 'd io_channel \<Rightarrow> u32 \<Rightarrow> u32 \<Rightarrow> u8 list \<Rightarrow> int \<Rightarrow>
    (u8 list \<times> nat \<times> u32) result \<times> filsys \<times> 'd io_channel" where
  "dir_namei h dev follow fs io root dir path pathlen =
     (case path of
        [] \<Rightarrow> (Inl UNDEFINED, fs, io)
      | c # cs \<Rightarrow>
          if c = 0x2F then dir_namei_loop h dev follow fs io root cs (pathlen - 1)
          else dir_namei_loop h dev follow fs io dir path pathlen)"

text \<open>The length of the path is a \<open>size_t\<close> here and an \<open>int\<close> in \<open>dir_namei\<close>.\<close>

definition open_namei :: "u8 heap \<Rightarrow> string \<Rightarrow> 'd follow \<Rightarrow> filsys \<Rightarrow> 'd io_channel \<Rightarrow> u32 \<Rightarrow> u32 \<Rightarrow> u8 list \<Rightarrow> u32 \<Rightarrow> bool \<Rightarrow>
    u32 result \<times> filsys \<times> 'd io_channel" where
  "open_namei h dev follow_link fs io root base path pathlen follow =
     (case dir_namei h dev follow_link fs io root base path (sint pathlen) of
        (Inl e, fs, io) \<Rightarrow> (Inl e, fs, io)
      | (Inr (base_name, namelen, dir), fs, io) \<Rightarrow>
          if namelen = 0 then (Inr dir, fs, io)
          else case ext2fs_lookup h dev fs io dir base_name namelen True of
            (Inl e, fs, io) \<Rightarrow> (Inl e, fs, io)
          | (Inr inode, fs, io) \<Rightarrow> if follow then follow_link fs io dir inode else (Inr inode, fs, io))"

text \<open>
  \<open>n\<close> is the number of links that may still be followed, \<open>EXT2FS_MAX_NESTED_LINKS\<close> less
  \<open>link_count\<close>. A short target is in the inode, another in its first block.
\<close>

fun follow_link :: "nat \<Rightarrow> u8 heap \<Rightarrow> string \<Rightarrow> u32 \<Rightarrow> filsys \<Rightarrow> 'd io_channel \<Rightarrow> u32 \<Rightarrow> u32 \<Rightarrow>
    u32 result \<times> filsys \<times> 'd io_channel" where
  "follow_link n h dev root fs io dir inode =
     (case ext2fs_read_inode h fs io inode of
        (Inl e, fs, io) \<Rightarrow> (Inl e, fs, io)
      | (Inr ei, fs, io) \<Rightarrow>
          if \<not> LINUX_S_ISLNK (i_mode ei) then (Inr inode, fs, io)
          else case n of
            0 \<Rightarrow> (Inl EXT2_ET_SYMLINK_LOOP, fs, io)
          | Suc m \<Rightarrow>
              (case (if ext2fs_inode_data_blocks fs ei \<noteq> 0 then
                       (case ext2fs_get_mem h (unat (fs_blocksize fs)) of
                          Inl e \<Rightarrow> (Inl e, io)
                        | Inr _ \<Rightarrow> io_channel_read_blk io (i_block ei ! 0) 1)
                     else (Inr (bytes_of (i_block ei)), io)) of
                 (Inl e, io) \<Rightarrow> (Inl e, fs, io)
               | (Inr path, io) \<Rightarrow>
                   open_namei h dev (\<lambda>fs io dir inode. follow_link m h dev root fs io dir inode)
                     fs io root dir path (i_size ei) True))"

declare follow_link.simps [simp del]

text \<open>A path given as a string ends with a zero byte.\<close>

definition namei_string :: "u8 heap \<Rightarrow> string \<Rightarrow> filsys \<Rightarrow> 'd io_channel \<Rightarrow> u32 \<Rightarrow> u32 \<Rightarrow> u8 list \<Rightarrow> bool \<Rightarrow>
    u32 result \<times> filsys \<times> 'd io_channel" where
  "namei_string h dev fs io root cwd name follow =
     (if fs_magic fs \<noteq> EXT2_ET_MAGIC_EXT2FS_FILSYS then (Inl EXT2_ET_MAGIC_EXT2FS_FILSYS, fs, io)
      else case ext2fs_get_mem h (unat (fs_blocksize fs)) of
        Inl e \<Rightarrow> (Inl e, fs, io)
      | Inr _ \<Rightarrow> open_namei h dev (follow_link EXT2FS_MAX_NESTED_LINKS h dev root) fs io root cwd (name @ [0])
                   (of_nat (length name)) follow)"

definition ext2fs_namei :: "u8 heap \<Rightarrow> string \<Rightarrow> filsys \<Rightarrow> 'd io_channel \<Rightarrow> u32 \<Rightarrow> u32 \<Rightarrow> u8 list \<Rightarrow>
    u32 result \<times> filsys \<times> 'd io_channel" where
  "ext2fs_namei h dev fs io root cwd name = namei_string h dev fs io root cwd name False"

definition ext2fs_namei_follow :: "u8 heap \<Rightarrow> string \<Rightarrow> filsys \<Rightarrow> 'd io_channel \<Rightarrow> u32 \<Rightarrow> u32 \<Rightarrow> u8 list \<Rightarrow>
    u32 result \<times> filsys \<times> 'd io_channel" where
  "ext2fs_namei_follow h dev fs io root cwd name = namei_string h dev fs io root cwd name True"

definition ext2fs_follow_link :: "u8 heap \<Rightarrow> string \<Rightarrow> filsys \<Rightarrow> 'd io_channel \<Rightarrow> u32 \<Rightarrow> u32 \<Rightarrow> u32 \<Rightarrow>
    u32 result \<times> filsys \<times> 'd io_channel" where
  "ext2fs_follow_link h dev fs io root cwd inode =
     (if fs_magic fs \<noteq> EXT2_ET_MAGIC_EXT2FS_FILSYS then (Inl EXT2_ET_MAGIC_EXT2FS_FILSYS, fs, io)
      else case ext2fs_get_mem h (unat (fs_blocksize fs)) of
        Inl e \<Rightarrow> (Inl e, fs, io)
      | Inr _ \<Rightarrow> follow_link EXT2FS_MAX_NESTED_LINKS h dev root fs io cwd inode)"

section \<open>The path of a directory\<close>

record get_pathname_struct =
  gp_search_ino :: u32
  gp_parent :: u32
  gp_name :: "u8 list option"
  gp_errcode :: "errcode option"

definition get_pathname_proc :: "u8 heap \<Rightarrow> get_pathname_struct dir_func" where
  "get_pathname_proc h dir entry dirent blocksize buf gp =
     (let nl = unat (de_name_len buf dirent AND 0xFF);
          gp = (if nl = 2 \<and> strncmp_eq 2 (de_name buf dirent nl) [0x2E, 0x2E] then gp\<lparr>gp_parent := de_inode buf dirent\<rparr> else gp)
      in
      if de_inode buf dirent = gp_search_ino gp then
        (case ext2fs_get_mem h (nl + 1) of
           Inl e \<Rightarrow> (DIRENT_ABORT, buf, gp\<lparr>gp_errcode := Some e\<rparr>)
         | Inr _ \<Rightarrow> (DIRENT_ABORT, buf, gp\<lparr>gp_name := Some (takeWhile (\<lambda>c. c \<noteq> 0) (de_name buf dirent nl))\<rparr>))
      else (0, buf, gp))"

text \<open>\<open>n\<close> is \<open>maxdepth + 1\<close>. The path of a parent that is one character long is left out.\<close>

fun ext2fs_get_pathname_int :: "nat \<Rightarrow> u8 heap \<Rightarrow> string \<Rightarrow> filsys \<Rightarrow> 'd io_channel \<Rightarrow> u32 \<Rightarrow> u32 \<Rightarrow>
    u8 list result \<times> filsys \<times> 'd io_channel" where
  "ext2fs_get_pathname_int n h dev fs io dir ino =
     (if dir = ino then
        (map_sum id (\<lambda>_. if dir = EXT2_ROOT_INO then [0x2F] else [0x2E]) (ext2fs_get_mem h 2), fs, io)
      else if dir = 0 \<or> n = 0 then (map_sum id (\<lambda>_. [0x2E, 0x2E, 0x2E]) (ext2fs_get_mem h 4), fs, io)
      else
          (case ext2fs_dir_iterate2 h dev fs io dir 0 True (get_pathname_proc h)
                  \<lparr>gp_search_ino = ino, gp_parent = 0, gp_name = None, gp_errcode = None\<rparr> of
             (Inl e, gp, fs, io) \<Rightarrow> (Inl e, fs, io)
           | (Inr _, gp, fs, io) \<Rightarrow>
               (case gp_errcode gp of
                  Some e \<Rightarrow> (Inl e, fs, io)
                | None \<Rightarrow>
                    (case ext2fs_get_pathname_int (n - 1) h dev fs io (gp_parent gp) dir of
                       (Inl e, fs, io) \<Rightarrow> (Inl e, fs, io)
                     | (Inr parent_name, fs, io) \<Rightarrow>
                         if ino = 0 then (Inr parent_name, fs, io)
                         else
                           let len = length parent_name + (case gp_name gp of Some nm \<Rightarrow> length nm + 2 | None \<Rightarrow> 5) in
                           (map_sum id (\<lambda>_. (if length parent_name > 1 then parent_name else []) @ [0x2F] @
                              (case gp_name gp of Some nm \<Rightarrow> nm | None \<Rightarrow> [0x3F, 0x3F, 0x3F])) (ext2fs_get_mem h len), fs, io)))))"

declare ext2fs_get_pathname_int.simps [simp del]

definition ext2fs_get_pathname :: "u8 heap \<Rightarrow> string \<Rightarrow> filsys \<Rightarrow> 'd io_channel \<Rightarrow> u32 \<Rightarrow> u32 \<Rightarrow>
    u8 list result \<times> filsys \<times> 'd io_channel" where
  "ext2fs_get_pathname h dev fs io dir ino =
     (if fs_magic fs \<noteq> EXT2_ET_MAGIC_EXT2FS_FILSYS then (Inl EXT2_ET_MAGIC_EXT2FS_FILSYS, fs, io)
      else case ext2fs_get_mem h (unat (fs_blocksize fs)) of
        Inl e \<Rightarrow> (Inl e, fs, io)
      | Inr _ \<Rightarrow> ext2fs_get_pathname_int 33 h dev fs io dir (if dir = ino then 0 else ino))"

section \<open>Another block for a directory\<close>

record expand_dir_struct =
  ed_done :: bool
  ed_newblocks :: nat
  ed_goal :: u64
  ed_err :: "errcode option"

text \<open>A fresh block: a directory block, or a cleared one for the first block and for indirect ones.\<close>

definition fill_dir_block :: "u8 heap \<Rightarrow> filsys \<Rightarrow> 'd io_channel \<Rightarrow> u64 \<Rightarrow> int \<Rightarrow> expand_dir_struct \<Rightarrow>
    unit result result \<times> expand_dir_struct \<times> 'd io_channel" where
  "fill_dir_block h fs io new_blk blockcnt es =
     (if blockcnt > 0 then
        (case ext2fs_new_dir_block h fs 0 0 of
           Inl e \<Rightarrow> (Inl e, es, io)
         | Inr block \<Rightarrow>
             (case ext2fs_write_dir_block h fs io (ucast new_blk) block of
                (r, io) \<Rightarrow> (Inr r, es\<lparr>ed_done := True\<rparr>, io)))
      else
        (case ext2fs_get_mem h (unat (fs_blocksize fs)) of
           Inl e \<Rightarrow> (Inl e, es, io)
         | Inr _ \<Rightarrow>
             (case io_channel_write_blk64 io new_blk 1 (replicate (unat (fs_blocksize fs)) 0) of
                (r, io) \<Rightarrow> (Inr r, es, io))))"

definition expand_dir_proc :: "u8 heap \<Rightarrow> (expand_dir_struct, 'd) block_func" where
  "expand_dir_proc h fs blocknr blockcnt ref_block ref_offset es io =
     (if blocknr \<noteq> 0 then (0, blocknr, if blockcnt \<ge> 0 then es\<lparr>ed_goal := blocknr\<rparr> else es, fs, io)
      else
        case (if blockcnt \<noteq> 0 \<and> EXT2FS_B2C fs (ed_goal es) = EXT2FS_B2C fs (ed_goal es + 1) then
                (Inr (ed_goal es + 1), es, fs)
              else
                let es = es\<lparr>ed_goal := ed_goal es AND NOT (EXT2FS_CLUSTER_MASK fs)\<rparr> in
                (case ext2fs_new_block2 fs (ed_goal es) Own of
                   (Inl e, fs, _) \<Rightarrow> (Inl e, es, fs)
                 | (Inr b, fs, _) \<Rightarrow> (Inr b, es\<lparr>ed_newblocks := ed_newblocks es + 1\<rparr>, fs))) of
          (Inl e, es, fs) \<Rightarrow> (BLOCK_ABORT, blocknr, es\<lparr>ed_err := Some e\<rparr>, fs, io)
        | (Inr new_blk, es, fs) \<Rightarrow>
            (case fill_dir_block h fs io new_blk blockcnt es of
               (Inl e, es, io) \<Rightarrow> (BLOCK_ABORT, blocknr, es\<lparr>ed_err := Some e\<rparr>, fs, io)
             | (Inr r, es, io) \<Rightarrow>
                 let es = (if blockcnt \<ge> 0 then es\<lparr>ed_goal := new_blk\<rparr> else es) in
                 (case r of
                    Inl e \<Rightarrow> (BLOCK_ABORT, blocknr, es\<lparr>ed_err := Some e\<rparr>, fs, io)
                  | Inr _ \<Rightarrow> (if ed_done es then BLOCK_CHANGED OR BLOCK_ABORT else BLOCK_CHANGED, new_blk, es,
                              ext2fs_block_alloc_stats2 fs new_blk 1, io))))"

text \<open>The result of the walk is not looked at.\<close>

definition ext2fs_expand_dir :: "u8 heap \<Rightarrow> string \<Rightarrow> filsys \<Rightarrow> 'd io_channel \<Rightarrow> u32 \<Rightarrow> unit result \<times> filsys \<times> 'd io_channel" where
  "ext2fs_expand_dir h dev fs io dir =
     (if fs_magic fs \<noteq> EXT2_ET_MAGIC_EXT2FS_FILSYS then (Inl EXT2_ET_MAGIC_EXT2FS_FILSYS, fs, io)
      else if fs_flags fs AND EXT2_FLAG_RW = 0 then (Inl EXT2_ET_RO_FILSYS, fs, io)
      else if fs_block_map fs = None then (Inl EXT2_ET_NO_BLOCK_BITMAP, fs, io)
      else case ext2fs_check_directory h fs io dir of
        (Inl e, fs, io) \<Rightarrow> (Inl e, fs, io)
      | (Inr _, fs, io) \<Rightarrow>
          let (r, es, fs, io) = ext2fs_block_iterate3 h dev fs io dir BLOCK_FLAG_APPEND False (expand_dir_proc h)
                \<lparr>ed_done = False, ed_newblocks = 0, ed_goal = 0, ed_err = None\<rparr>
          in
          case (case r of Inl e \<Rightarrow> if stuck e then Some e else ed_err es | Inr _ \<Rightarrow> ed_err es) of
            Some e \<Rightarrow> (Inl e, fs, io)
          | None \<Rightarrow>
              if \<not> ed_done es then (Inl EXT2_ET_EXPAND_DIR_ERR, fs, io)
              else case ext2fs_read_inode h fs io dir of
                (Inl e, fs, io) \<Rightarrow> (Inl e, fs, io)
              | (Inr inode, fs, io) \<Rightarrow>
                  let inode = inode\<lparr>i_size := i_size inode + fs_blocksize fs\<rparr>;
                      inode = (case ext2fs_iblk_add_blocks fs inode (of_nat (ed_newblocks es)) of Inl _ \<Rightarrow> inode | Inr i \<Rightarrow> i)
                  in ext2fs_write_inode h fs io dir inode)"

section \<open>New directories\<close>

definition EXT3_FEATURE_INCOMPAT_EXTENTS :: u32 where "EXT3_FEATURE_INCOMPAT_EXTENTS = 0x40"
definition LINUX_S_IFDIR :: u16 where "LINUX_S_IFDIR = 0x4000"

definition mkdir_inode :: "filsys \<Rightarrow> u64 \<Rightarrow> inode" where
  "mkdir_inode fs blk =
     (let inode = (inode_of_mem (replicate 128 0))\<lparr>i_mode := LINUX_S_IFDIR OR (0x1FF AND NOT (ucast (fs_umask fs)))\<rparr>;
          inode = snd (ext2fs_iblk_set fs inode 1);
          inode = (if s_feature_incompat (fs_super fs) AND EXT3_FEATURE_INCOMPAT_EXTENTS \<noteq> 0
                   then inode\<lparr>i_flags := i_flags inode OR EXT4_EXTENTS_FL\<rparr>
                   else inode\<lparr>i_block := (i_block inode)[0 := ucast blk]\<rparr>)
      in inode\<lparr>i_links_count := 2, i_size := fs_blocksize fs\<rparr>)"

text \<open>The block, the inode and, when the file system has extents, the mapping of the block.\<close>

definition mkdir_write :: "u8 heap \<Rightarrow> u32 \<Rightarrow> string \<Rightarrow> filsys \<Rightarrow> 'd io_channel \<Rightarrow> u32 \<Rightarrow> u64 \<Rightarrow> u8 list \<Rightarrow>
    unit result \<times> filsys \<times> 'd io_channel" where
  "mkdir_write h clock dev fs io ino blk block =
     (let inode = mkdir_inode fs blk in
      case ext2fs_write_dir_block h fs io (ucast blk) block of
        (Inl e, io) \<Rightarrow> (Inl e, fs, io)
      | (Inr _, io) \<Rightarrow>
          (case ext2fs_write_new_inode h clock fs io ino inode of
             (Inl e, inode, fs, io) \<Rightarrow> (Inl e, fs, io)
           | (Inr _, inode, fs, io) \<Rightarrow>
               if s_feature_incompat (fs_super fs) AND EXT3_FEATURE_INCOMPAT_EXTENTS = 0 then (Inr (), fs, io)
               else case ext2fs_extent_open2 h dev fs io ino (Some inode) of
                 (Inl e, fs, io) \<Rightarrow> (Inl e, fs, io)
               | (Inr x, fs, io) \<Rightarrow>
                   (case ext2fs_extent_set_bmap (junk_extent h) 0 blk 0 x of
                      (r, x) \<Rightarrow> (r, xh_fs x, xh_io x))))"

definition mkdir_link :: "u8 heap \<Rightarrow> string \<Rightarrow> filsys \<Rightarrow> 'd io_channel \<Rightarrow> u32 \<Rightarrow> u32 \<Rightarrow> u8 list option \<Rightarrow>
    unit result \<times> filsys \<times> 'd io_channel" where
  "mkdir_link h dev fs io parent ino name =
     (case name of
        None \<Rightarrow> (Inr (), fs, io)
      | Some nm \<Rightarrow>
          (case ext2fs_lookup h dev fs io parent nm (length nm) False of
             (Inr _, fs, io) \<Rightarrow> (Inl EXT2_ET_DIR_EXISTS, fs, io)
           | (Inl e, fs, io) \<Rightarrow>
               if e \<noteq> EXT2_ET_FILE_NOT_FOUND then (Inl e, fs, io)
               else ext2fs_link h dev fs io parent nm ino (ucast EXT2_FT_DIR)))"

text \<open>The inode of the parent is read before the link is made and written back after it.\<close>

definition ext2fs_mkdir :: "u8 heap \<Rightarrow> u32 \<Rightarrow> string \<Rightarrow> filsys \<Rightarrow> 'd io_channel \<Rightarrow> u32 \<Rightarrow> u32 \<Rightarrow> u8 list option \<Rightarrow>
    unit result \<times> filsys \<times> 'd io_channel" where
  "ext2fs_mkdir h clock dev fs io parent inum name =
     (if fs_magic fs \<noteq> EXT2_ET_MAGIC_EXT2FS_FILSYS then (Inl EXT2_ET_MAGIC_EXT2FS_FILSYS, fs, io)
      else case (if inum = 0 then (case ext2fs_new_inode fs parent Own of (r, fs, _) \<Rightarrow> (r, fs)) else (Inr inum, fs)) of
        (Inl e, fs) \<Rightarrow> (Inl e, fs, io)
      | (Inr ino, fs) \<Rightarrow>
          (case ext2fs_new_block2 fs 0 Own of
             (Inl e, fs, _) \<Rightarrow> (Inl e, fs, io)
           | (Inr blk, fs, _) \<Rightarrow>
               (case ext2fs_new_dir_block h fs ino parent of
                  Inl e \<Rightarrow> (Inl e, fs, io)
                | Inr block \<Rightarrow>
                    (case (if parent \<noteq> ino then ext2fs_read_inode h fs io parent else (Inr (inode_of_mem (replicate 128 0)), fs, io)) of
                       (Inl e, fs, io) \<Rightarrow> (Inl e, fs, io)
                     | (Inr parent_inode, fs, io) \<Rightarrow>
                         (case mkdir_write h clock dev fs io ino blk block of
                            (Inl e, fs, io) \<Rightarrow> (Inl e, fs, io)
                          | (Inr _, fs, io) \<Rightarrow>
                              (case mkdir_link h dev fs io parent ino name of
                                 (Inl e, fs, io) \<Rightarrow> (Inl e, fs, io)
                               | (Inr _, fs, io) \<Rightarrow>
                                   (case (if parent \<noteq> ino then
                                            ext2fs_write_inode h fs io parent
                                              (parent_inode\<lparr>i_links_count := i_links_count parent_inode + 1\<rparr>)
                                          else (Inr (), fs, io)) of
                                      (Inl e, fs, io) \<Rightarrow> (Inl e, fs, io)
                                    | (Inr _, fs, io) \<Rightarrow>
                                        (Inr (), ext2fs_inode_alloc_stats2 (ext2fs_block_alloc_stats2 fs blk 1) ino 1 True, io))))))))"

end
