(* ===== verification/Dblist.thy ===== *)
theory Dblist
  imports Bmap "HOL-Library.Multiset"
begin

text \<open>
  The list of the directory blocks of a file system (\<open>source/dblist.c\<close>) and the walk over the entries
  of those blocks (\<open>source/dblist_dir.c\<close>).
\<close>

section \<open>The list\<close>

text \<open>\<open>struct ext2_db_entry2\<close>, of 24 bytes, and the older \<open>struct ext2_db_entry\<close>.\<close>

record ext2_db_entry2 =
  db_ino :: u32
  db_blk :: u64
  db_blockcnt :: int

record ext2_db_entry =
  db32_ino :: u32
  db32_blk :: u32
  db32_blockcnt :: int

definition DBLIST_ABORT :: u32 where "DBLIST_ABORT = 1"

text \<open>\<open>struct ext2_struct_dblist\<close>: the entries in use, and the number the array is meant to hold.\<close>

record dblist =
  dbl_magic :: errcode
  dbl_size :: u64
  dbl_sorted :: bool
  dbl_list :: "ext2_db_entry2 list"

fun num_dirs_loop :: "filsys \<Rightarrow> u32 list \<Rightarrow> u32 \<Rightarrow> u32" where
  "num_dirs_loop fs [] num_dirs = num_dirs"
| "num_dirs_loop fs (i # gs) num_dirs =
     (let max_dirs = s_inodes_per_group (fs_super fs) in
      num_dirs_loop fs gs
        (num_dirs + (if ext2fs_bg_used_dirs_count fs i > max_dirs then max_dirs div 8 else ext2fs_bg_used_dirs_count fs i)))"

definition ext2fs_get_num_dirs :: "filsys \<Rightarrow> u32 result" where
  "ext2fs_get_num_dirs fs =
     (if fs_magic fs \<noteq> EXT2_ET_MAGIC_EXT2FS_FILSYS then Inl EXT2_ET_MAGIC_EXT2FS_FILSYS
      else
        let num_dirs = num_dirs_loop fs (map of_nat [0..<unat (fs_group_desc_count fs)]) 0
        in Inr (min num_dirs (s_inodes_count (fs_super fs))))"

text \<open>The handle has 32 bytes. The list starts with the first \<open>count\<close> entries of \<open>list\<close>.\<close>

definition make_dblist :: "u8 heap \<Rightarrow> filsys \<Rightarrow> u32 \<Rightarrow> ext2_db_entry2 list \<Rightarrow> dblist result" where
  "make_dblist h fs sz list =
     (if fs_magic fs \<noteq> EXT2_ET_MAGIC_EXT2FS_FILSYS then Inl EXT2_ET_MAGIC_EXT2FS_FILSYS
      else case ext2fs_get_mem h 32 of Inl e \<Rightarrow> Inl e | Inr _ \<Rightarrow>
        (case (if sz \<noteq> 0 then Inr (ucast sz :: u64) else map_sum id (\<lambda>n. ucast (n * 2 + 12)) (ext2fs_get_num_dirs fs)) of
           Inl e \<Rightarrow> Inl e
         | Inr n \<Rightarrow>
             (case ext2fs_get_array h (unat (ucast n :: u32)) 24 of
                Inl e \<Rightarrow> Inl e
              | Inr _ \<Rightarrow> Inr \<lparr>dbl_magic = EXT2_ET_MAGIC_DBLIST, dbl_size = n, dbl_sorted = False, dbl_list = list\<rparr>)))"

definition ext2fs_init_dblist :: "u8 heap \<Rightarrow> filsys \<Rightarrow> dblist result" where
  "ext2fs_init_dblist h fs = map_sum id (\<lambda>d. d\<lparr>dbl_sorted := True\<rparr>) (make_dblist h fs 0 [])"

definition ext2fs_copy_dblist :: "u8 heap \<Rightarrow> filsys \<Rightarrow> dblist \<Rightarrow> dblist result" where
  "ext2fs_copy_dblist h fs src =
     map_sum id (\<lambda>d. d\<lparr>dbl_sorted := dbl_sorted src\<rparr>) (make_dblist h fs (ucast (dbl_size src)) (dbl_list src))"

text \<open>
  The number of bytes of a larger array is computed in 32 bits. When that wraps, the array may be too
  small for the entry, and the call has the value \<open>UNDEFINED\<close>.
\<close>

definition ext2fs_add_dir_block2 :: "u8 heap \<Rightarrow> dblist \<Rightarrow> u32 \<Rightarrow> u64 \<Rightarrow> int \<Rightarrow> unit result \<times> dblist" where
  "ext2fs_add_dir_block2 h dbl ino blk blockcnt =
     (if dbl_magic dbl \<noteq> EXT2_ET_MAGIC_DBLIST then (Inl EXT2_ET_MAGIC_DBLIST, dbl)
      else
        let count = length (dbl_list dbl);
            added = dbl\<lparr>dbl_list := dbl_list dbl @ [\<lparr>db_ino = ino, db_blk = blk, db_blockcnt = blockcnt\<rparr>], dbl_sorted := False\<rparr>
        in
        if count \<ge> unat (dbl_size dbl) then
          let old_size = ucast (dbl_size dbl * 24) :: u32;
              new_size = dbl_size dbl + (if dbl_size dbl > 200 then dbl_size dbl div 2 else 100);
              bytes = ucast new_size * 24 :: u32
          in
          if \<not> granted h (unat bytes) then (Inl EXT2_ET_NO_MEMORY, dbl\<lparr>dbl_size := ucast (old_size div 24)\<rparr>)
          else if unat bytes < 24 * (count + 1) then (Inl UNDEFINED, dbl)
          else (Inr (), added\<lparr>dbl_size := new_size\<rparr>)
        else (Inr (), added))"

fun set_dir_block_loop :: "u32 \<Rightarrow> u64 \<Rightarrow> int \<Rightarrow> ext2_db_entry2 list \<Rightarrow> ext2_db_entry2 list option" where
  "set_dir_block_loop ino blk blockcnt [] = None"
| "set_dir_block_loop ino blk blockcnt (d # ds) =
     (if db_ino d \<noteq> ino \<or> db_blockcnt d \<noteq> blockcnt then map_option ((#) d) (set_dir_block_loop ino blk blockcnt ds)
      else Some (d\<lparr>db_blk := blk\<rparr> # ds))"

definition ext2fs_set_dir_block2 :: "dblist \<Rightarrow> u32 \<Rightarrow> u64 \<Rightarrow> int \<Rightarrow> unit result \<times> dblist" where
  "ext2fs_set_dir_block2 dbl ino blk blockcnt =
     (if dbl_magic dbl \<noteq> EXT2_ET_MAGIC_DBLIST then (Inl EXT2_ET_MAGIC_DBLIST, dbl)
      else case set_dir_block_loop ino blk blockcnt (dbl_list dbl) of
        None \<Rightarrow> (Inl EXT2_ET_DB_NOT_FOUND, dbl)
      | Some ds \<Rightarrow> (Inr (), dbl\<lparr>dbl_list := ds, dbl_sorted := False\<rparr>))"

section \<open>Sorting\<close>

text \<open>\<open>qsort\<close> as an insertion: of the orders the C library may choose, the stable one.\<close>

fun insert_by :: "('a \<Rightarrow> 'a \<Rightarrow> int) \<Rightarrow> 'a \<Rightarrow> 'a list \<Rightarrow> 'a list" where
  "insert_by cmp x [] = [x]"
| "insert_by cmp x (y # ys) = (if cmp x y \<le> 0 then x # y # ys else y # insert_by cmp x ys)"

definition qsort :: "('a \<Rightarrow> 'a \<Rightarrow> int) \<Rightarrow> 'a list \<Rightarrow> 'a list" where
  "qsort cmp xs = foldr (insert_by cmp) xs []"

text \<open>The differences are cut off to an \<open>int\<close>.\<close>

definition dir_block_cmp2 :: "ext2_db_entry2 \<Rightarrow> ext2_db_entry2 \<Rightarrow> int" where
  "dir_block_cmp2 a b =
     (if db_blk a \<noteq> db_blk b then sint (ucast (db_blk a - db_blk b) :: u32)
      else if db_ino a \<noteq> db_ino b then sint (db_ino a - db_ino b)
      else sint (word_of_int (db_blockcnt a - db_blockcnt b) :: u32))"

definition db_entry32 :: "ext2_db_entry2 \<Rightarrow> ext2_db_entry" where
  "db_entry32 e = \<lparr>db32_ino = db_ino e, db32_blk = ucast (db_blk e), db32_blockcnt = sint (word_of_int (db_blockcnt e) :: u32)\<rparr>"

definition dir_block_cmp :: "(ext2_db_entry \<Rightarrow> ext2_db_entry \<Rightarrow> int) \<Rightarrow> ext2_db_entry2 \<Rightarrow> ext2_db_entry2 \<Rightarrow> int" where
  "dir_block_cmp sortfunc32 a b = sortfunc32 (db_entry32 a) (db_entry32 b)"

definition ext2fs_dblist_sort2 :: "(ext2_db_entry2 \<Rightarrow> ext2_db_entry2 \<Rightarrow> int) option \<Rightarrow> dblist \<Rightarrow> dblist" where
  "ext2fs_dblist_sort2 sortfunc dbl =
     dbl\<lparr>dbl_list := qsort (case sortfunc of None \<Rightarrow> dir_block_cmp2 | Some f \<Rightarrow> f) (dbl_list dbl), dbl_sorted := True\<rparr>"

definition ext2fs_dblist_sort :: "(ext2_db_entry \<Rightarrow> ext2_db_entry \<Rightarrow> int) option \<Rightarrow> dblist \<Rightarrow> dblist" where
  "ext2fs_dblist_sort sortfunc dbl =
     dbl\<lparr>dbl_list := qsort (case sortfunc of None \<Rightarrow> dir_block_cmp2 | Some f \<Rightarrow> dir_block_cmp f) (dbl_list dbl), dbl_sorted := True\<rparr>"

section \<open>Iteration\<close>

text \<open>The callback may change an entry; \<open>w\<close> is everything else it works on.\<close>

type_synonym 'w db_func = "ext2_db_entry2 \<Rightarrow> 'w \<Rightarrow> u32 \<times> ext2_db_entry2 \<times> 'w"

fun dblist_loop :: "'w db_func \<Rightarrow> ext2_db_entry2 list \<Rightarrow> 'w \<Rightarrow> ext2_db_entry2 list \<times> 'w" where
  "dblist_loop func [] w = ([], w)"
| "dblist_loop func (d # ds) w =
     (let (ret, d, w) = func d w in
      if ret AND DBLIST_ABORT \<noteq> 0 then (d # ds, w)
      else let (ds, w) = dblist_loop func ds w in (d # ds, w))"

definition ext2fs_dblist_iterate2 :: "dblist \<Rightarrow> 'w db_func \<Rightarrow> 'w \<Rightarrow> unit result \<times> dblist \<times> 'w" where
  "ext2fs_dblist_iterate2 dbl func w =
     (if dbl_magic dbl \<noteq> EXT2_ET_MAGIC_DBLIST then (Inl EXT2_ET_MAGIC_DBLIST, dbl, w)
      else
        let dbl = (if dbl_sorted dbl then dbl else ext2fs_dblist_sort2 None dbl);
            (ds, w) = dblist_loop func (dbl_list dbl) w
        in (Inr (), dbl\<lparr>dbl_list := ds\<rparr>, w))"

definition passthrough_func :: "(ext2_db_entry \<Rightarrow> 'w \<Rightarrow> u32 \<times> ext2_db_entry \<times> 'w) \<Rightarrow> 'w db_func" where
  "passthrough_func func db_info w =
     (let (ret, db, w) = func (db_entry32 db_info) w
      in (ret, \<lparr>db_ino = db32_ino db, db_blk = ucast (db32_blk db), db_blockcnt = db32_blockcnt db\<rparr>, w))"

definition ext2fs_dblist_iterate :: "dblist \<Rightarrow> (ext2_db_entry \<Rightarrow> 'w \<Rightarrow> u32 \<times> ext2_db_entry \<times> 'w) \<Rightarrow> 'w \<Rightarrow>
    unit result \<times> dblist \<times> 'w" where
  "ext2fs_dblist_iterate dbl func w =
     (if dbl_magic dbl \<noteq> EXT2_ET_MAGIC_DBLIST then (Inl EXT2_ET_MAGIC_DBLIST, dbl, w)
      else ext2fs_dblist_iterate2 dbl (passthrough_func func) w)"

section \<open>Single entries\<close>

definition ext2fs_dblist_count2 :: "dblist \<Rightarrow> u64" where
  "ext2fs_dblist_count2 dbl = of_nat (length (dbl_list dbl))"

definition ext2fs_dblist_count :: "dblist \<Rightarrow> int" where
  "ext2fs_dblist_count dbl = sint (of_nat (length (dbl_list dbl)) :: u32)"

definition ext2fs_dblist_get_last2 :: "dblist \<Rightarrow> ext2_db_entry2 result" where
  "ext2fs_dblist_get_last2 dbl =
     (if dbl_magic dbl \<noteq> EXT2_ET_MAGIC_DBLIST then Inl EXT2_ET_MAGIC_DBLIST
      else if dbl_list dbl = [] then Inl EXT2_ET_DBLIST_EMPTY else Inr (last (dbl_list dbl)))"

definition ext2fs_dblist_get_last :: "dblist \<Rightarrow> ext2_db_entry result" where
  "ext2fs_dblist_get_last dbl = map_sum id db_entry32 (ext2fs_dblist_get_last2 dbl)"

definition ext2fs_dblist_drop_last :: "dblist \<Rightarrow> unit result \<times> dblist" where
  "ext2fs_dblist_drop_last dbl =
     (if dbl_magic dbl \<noteq> EXT2_ET_MAGIC_DBLIST then (Inl EXT2_ET_MAGIC_DBLIST, dbl)
      else if dbl_list dbl = [] then (Inl EXT2_ET_DBLIST_EMPTY, dbl)
      else (Inr (), dbl\<lparr>dbl_list := butlast (dbl_list dbl)\<rparr>))"

definition ext2fs_add_dir_block :: "u8 heap \<Rightarrow> dblist \<Rightarrow> u32 \<Rightarrow> u32 \<Rightarrow> int \<Rightarrow> unit result \<times> dblist" where
  "ext2fs_add_dir_block h dbl ino blk blockcnt = ext2fs_add_dir_block2 h dbl ino (ucast blk) blockcnt"

definition ext2fs_set_dir_block :: "dblist \<Rightarrow> u32 \<Rightarrow> u32 \<Rightarrow> int \<Rightarrow> unit result \<times> dblist" where
  "ext2fs_set_dir_block dbl ino blk blockcnt = ext2fs_set_dir_block2 dbl ino (ucast blk) blockcnt"

section \<open>The entries of all blocks\<close>

text \<open>
  The error of the context is cleared for every block, so the error that is left is that of the last.
  A block whose walk does not end leaves \<open>NO_RETURN\<close>, which stays.
\<close>

definition db_dir_proc :: "u8 heap \<Rightarrow> filsys \<Rightarrow> u32 \<Rightarrow> 's dir_func \<Rightarrow> (errcode option \<times> 's \<times> 'd io_channel) db_func" where
  "db_dir_proc h fs flags func db_info w =
     (case w of (err, s, io) \<Rightarrow>
        if err = Some NO_RETURN then (DBLIST_ABORT, db_info, w)
        else case ext2fs_process_dir_block h fs io \<lparr>ctx_dir = db_ino db_info, ctx_flags = flags, ctx_func = func\<rparr>
               (db_blk db_info) (db_blockcnt db_info) None s of
          None \<Rightarrow> (DBLIST_ABORT, db_info, (Some NO_RETURN, s, io))
        | Some (ret, err, s, io) \<Rightarrow>
            (if ret AND BLOCK_ABORT \<noteq> 0 \<and> err = None then DBLIST_ABORT else 0, db_info, (err, s, io)))"

definition ext2fs_dblist_dir_iterate :: "u8 heap \<Rightarrow> filsys \<Rightarrow> 'd io_channel \<Rightarrow> dblist \<Rightarrow> u32 \<Rightarrow> bool \<Rightarrow> 's dir_func \<Rightarrow> 's \<Rightarrow>
    unit result \<times> dblist \<times> 's \<times> 'd io_channel" where
  "ext2fs_dblist_dir_iterate h fs io dbl flags block_buf func s =
     (if dbl_magic dbl \<noteq> EXT2_ET_MAGIC_DBLIST then (Inl EXT2_ET_MAGIC_DBLIST, dbl, s, io)
      else case (if block_buf then Inr () else ext2fs_get_mem h (unat (fs_blocksize fs))) of
        Inl e \<Rightarrow> (Inl e, dbl, s, io)
      | Inr _ \<Rightarrow>
          let (r, dbl, (err, s, io)) = ext2fs_dblist_iterate2 dbl (db_dir_proc h fs flags func) (None, s, io)
          in (case r of Inl e \<Rightarrow> Inl e | Inr _ \<Rightarrow> (case err of Some e \<Rightarrow> Inl e | None \<Rightarrow> Inr ()), dbl, s, io))"

section \<open>The order of a walk\<close>

definition db_before :: "ext2_db_entry2 \<Rightarrow> ext2_db_entry2 \<Rightarrow> bool" where
  "db_before a b \<longleftrightarrow> db_blk a < db_blk b \<or> db_blk a = db_blk b \<and>
     (db_ino a < db_ino b \<or> db_ino a = db_ino b \<and> db_blockcnt a \<le> db_blockcnt b)"

definition db_small :: "ext2_db_entry2 \<Rightarrow> bool" where
  "db_small a \<longleftrightarrow> db_blk a < 2 ^ 31 \<and> db_ino a < 2 ^ 31 \<and> 0 \<le> db_blockcnt a \<and> db_blockcnt a < 2 ^ 31"

lemma sint_word_of_int_small: "- (2 ^ 31) \<le> k \<Longrightarrow> k < 2 ^ 31 \<Longrightarrow> sint (word_of_int k :: u32) = k"
  by (simp add: sint_sbintrunc' signed_take_bit_int_eq_self)

lemma uint_below: "x < 2 ^ 31 \<Longrightarrow> uint (x :: u32) < 2 ^ 31" "y < 2 ^ 31 \<Longrightarrow> uint (y :: u64) < 2 ^ 31"
  by (simp_all add: word_less_def)

lemma sint_diff32:
  fixes x y :: u32
  assumes "x < 2 ^ 31" "y < 2 ^ 31"
  shows "sint (x - y) = uint x - uint y"
proof -
  have "sint (word_of_int (uint x - uint y) :: u32) = uint x - uint y"
    using assms [THEN uint_below(1)] uint_ge_0 [of x] uint_ge_0 [of y] by (intro sint_word_of_int_small) linarith+
  then show ?thesis by simp
qed

lemma ucast_diff: "(ucast (x - y :: u64) :: u32) = word_of_int (uint x - uint y)"
proof transfer
  fix x y :: int
  have "take_bit 32 (take_bit 64 x - take_bit 64 y) = take_bit 32 (take_bit 32 (take_bit 64 x) - take_bit 32 (take_bit 64 y))"
    by (rule take_bit_diff [symmetric])
  then show "take_bit LENGTH(32) (take_bit LENGTH(64) (x - y)) = take_bit LENGTH(32) (take_bit LENGTH(64) x - take_bit LENGTH(64) y)"
    by (simp add: take_bit_take_bit take_bit_diff)
qed

lemma sint_diff64:
  fixes x y :: u64
  assumes "x < 2 ^ 31" "y < 2 ^ 31"
  shows "sint (ucast (x - y) :: u32) = uint x - uint y"
  unfolding ucast_diff
  using assms [THEN uint_below(2)] uint_ge_0 [of x] uint_ge_0 [of y] by (intro sint_word_of_int_small) linarith+

lemma cmp2_small:
  assumes "db_small a" "db_small b"
  shows "dir_block_cmp2 a b \<le> 0 \<longleftrightarrow> db_before a b"
proof -
  have c: "sint (word_of_int (db_blockcnt a - db_blockcnt b) :: u32) = db_blockcnt a - db_blockcnt b"
    using assms by (intro sint_word_of_int_small) (auto simp: db_small_def)
  have d: "sint (ucast (db_blk a - db_blk b) :: u32) = uint (db_blk a) - uint (db_blk b)"
    "sint (db_ino a - db_ino b) = uint (db_ino a) - uint (db_ino b)"
    using assms by (auto simp: db_small_def intro!: sint_diff64 sint_diff32)
  show ?thesis
    unfolding dir_block_cmp2_def c d db_before_def word_less_def word_uint_eq_iff by auto
qed

lemma db_before_linear: "db_before a b \<or> db_before b a"
  by (auto simp: db_before_def)

lemma db_before_trans: "db_before a b \<Longrightarrow> db_before b c \<Longrightarrow> db_before a c"
  by (auto simp: db_before_def)

lemma insert_by_mset: "mset (insert_by cmp x ys) = add_mset x (mset ys)"
  by (induction ys) auto

lemma qsort_mset: "mset (qsort cmp xs) = mset xs"
  by (induction xs) (auto simp: qsort_def insert_by_mset)

lemma insert_by_set: "set (insert_by cmp x ys) = insert x (set ys)"
  by (induction ys) auto

lemma insert_by_sorted:
  "sorted_wrt db_before ys \<Longrightarrow> \<forall>y \<in> insert x (set ys). db_small y \<Longrightarrow> sorted_wrt db_before (insert_by dir_block_cmp2 x ys)"
proof (induction ys)
  case (Cons y ys)
  then show ?case
    using db_before_linear [of x y] by (auto simp: cmp2_small insert_by_set intro: db_before_trans)
qed simp

lemma qsort_sorted: "\<forall>y \<in> set xs. db_small y \<Longrightarrow> sorted_wrt db_before (qsort dir_block_cmp2 xs)"
proof (induction xs)
  case (Cons x xs)
  have "set (qsort dir_block_cmp2 xs) = set xs" using qsort_mset by (metis set_mset_mset)
  then show ?case using Cons by (auto simp: qsort_def intro!: insert_by_sorted)
qed (simp add: qsort_def)

text \<open>A callback that takes note of what it is shown.\<close>

definition note_entry :: "ext2_db_entry2 list db_func" where
  "note_entry d w = (0, d, w @ [d])"

lemma note_loop: "dblist_loop note_entry ds w = (ds, w @ ds)"
  by (induction ds arbitrary: w) (auto simp: note_entry_def)

text \<open>
  C39. The walk over a list of directory blocks that was added to shows every entry exactly once, in the
  order of the blocks, then of the directories, then of the places in them, and leaves the list in that
  order. This holds for block and inode numbers below 2^31: the comparison cuts the difference of two
  block numbers off to an int, and beyond that bound it puts a larger number before a smaller one.
\<close>

theorem dblist_visits_in_order:
  assumes "dbl_magic dbl = EXT2_ET_MAGIC_DBLIST" "\<not> dbl_sorted dbl" "\<forall>d \<in> set (dbl_list dbl). db_small d"
  shows "(\<exists>ds. ext2fs_dblist_iterate2 dbl note_entry [] = (Inr (), dbl\<lparr>dbl_list := ds, dbl_sorted := True\<rparr>, ds) \<and>
      mset ds = mset (dbl_list dbl) \<and> sorted_wrt db_before ds) \<and>
    (\<exists>a b. \<not> db_before b a \<and> dir_block_cmp2 b a < 0)"
proof (rule conjI)
  show "\<exists>ds. ext2fs_dblist_iterate2 dbl note_entry [] = (Inr (), dbl\<lparr>dbl_list := ds, dbl_sorted := True\<rparr>, ds) \<and>
      mset ds = mset (dbl_list dbl) \<and> sorted_wrt db_before ds"
    using assms qsort_mset qsort_sorted [OF assms(3)]
    by (auto simp: ext2fs_dblist_iterate2_def ext2fs_dblist_sort2_def note_loop)
  show "\<exists>a b. \<not> db_before b a \<and> dir_block_cmp2 b a < 0"
    by (rule exI [of _ "\<lparr>db_ino = 0, db_blk = 0, db_blockcnt = 0\<rparr>"],
        rule exI [of _ "\<lparr>db_ino = 0, db_blk = 0x80000000, db_blockcnt = 0\<rparr>"]) (simp add: db_before_def dir_block_cmp2_def)
qed

lemma dblist_visits_in_order_witness:
  "\<exists>ds. fst (ext2fs_dblist_iterate2 \<lparr>dbl_magic = EXT2_ET_MAGIC_DBLIST, dbl_size = 12, dbl_sorted = False,
      dbl_list = [\<lparr>db_ino = 2, db_blk = 9, db_blockcnt = 1\<rparr>, \<lparr>db_ino = 2, db_blk = 5, db_blockcnt = 0\<rparr>]\<rparr> note_entry []) = Inr () \<and>
    sorted_wrt db_before ds \<and> length ds = 2"
proof -
  let ?d = "\<lparr>dbl_magic = EXT2_ET_MAGIC_DBLIST, dbl_size = 12, dbl_sorted = False,
      dbl_list = [\<lparr>db_ino = 2, db_blk = 9, db_blockcnt = 1\<rparr>, \<lparr>db_ino = 2, db_blk = 5, db_blockcnt = 0\<rparr>]\<rparr>"
  obtain ds where "ext2fs_dblist_iterate2 ?d note_entry [] = (Inr (), ?d\<lparr>dbl_list := ds, dbl_sorted := True\<rparr>, ds)"
    "mset ds = mset (dbl_list ?d)" "sorted_wrt db_before ds"
    using dblist_visits_in_order [of ?d] by (auto simp: db_small_def)
  moreover from this(2) have "length ds = 2" by (metis dblist.select_convs(4) length_Cons list.size(3) numeral_2_eq_2 size_mset)
  ultimately show ?thesis by auto
qed

end
