(* ===== verification/Dirhash.thy ===== *)
theory Dirhash
  imports Ext2_Prelude
begin

text \<open>
  The hashes of the names of an indexed directory (\<open>source/dirhash.c\<close>): the legacy hash, half an MD4
  and a block cipher, each over characters that are signed or not.
\<close>

unbundle bit_operations_syntax

section \<open>The transforms\<close>

definition DELTA :: u32 where "DELTA = 0x9E3779B9"

fun tea_rounds :: "nat \<Rightarrow> u32 list \<Rightarrow> u32 \<Rightarrow> u32 \<Rightarrow> u32 \<Rightarrow> u32 \<times> u32" where
  "tea_rounds 0 ws acc b0 b1 = (b0, b1)"
| "tea_rounds (Suc n) ws acc b0 b1 =
     (let acc = acc + DELTA;
          b0 = b0 + ((push_bit 4 b1 + ws ! 0) XOR (b1 + acc) XOR (drop_bit 5 b1 + ws ! 1));
          b1 = b1 + ((push_bit 4 b0 + ws ! 2) XOR (b0 + acc) XOR (drop_bit 5 b0 + ws ! 3))
      in tea_rounds n ws acc b0 b1)"

definition TEA_transform :: "u32 list \<Rightarrow> u32 list \<Rightarrow> u32 list" where
  "TEA_transform buf ws =
     (let (b0, b1) = tea_rounds 16 ws 0 (buf ! 0) (buf ! 1)
      in buf[0 := buf ! 0 + b0, 1 := buf ! 1 + b1])"

definition md4_F :: "u32 \<Rightarrow> u32 \<Rightarrow> u32 \<Rightarrow> u32" where "md4_F x y z = z XOR (x AND (y XOR z))"
definition md4_G :: "u32 \<Rightarrow> u32 \<Rightarrow> u32 \<Rightarrow> u32" where "md4_G x y z = (x AND y) + ((x XOR y) AND z)"
definition md4_H :: "u32 \<Rightarrow> u32 \<Rightarrow> u32 \<Rightarrow> u32" where "md4_H x y z = x XOR y XOR z"
definition md4_K2 :: u32 where "md4_K2 = 0x5A827999"
definition md4_K3 :: u32 where "md4_K3 = 0x6ED9EBA1"

definition md4_ROUND :: "(u32 \<Rightarrow> u32 \<Rightarrow> u32 \<Rightarrow> u32) \<Rightarrow> u32 \<Rightarrow> u32 \<Rightarrow> u32 \<Rightarrow> u32 \<Rightarrow> u32 \<Rightarrow> nat \<Rightarrow> u32" where
  "md4_ROUND f a b c d x s = (let a = a + f b c d + x in push_bit s a OR drop_bit (32 - s) a)"

text \<open>Four rounds, on words of the input and with four shifts.\<close>

definition md4_four :: "(u32 \<Rightarrow> u32 \<Rightarrow> u32 \<Rightarrow> u32) \<Rightarrow> u32 \<Rightarrow> nat \<times> nat \<times> nat \<times> nat \<Rightarrow> u32 \<Rightarrow> u32 \<Rightarrow> u32 \<Rightarrow> u32 \<Rightarrow>
    u32 \<times> u32 \<times> u32 \<times> u32 \<Rightarrow> u32 \<times> u32 \<times> u32 \<times> u32" where
  "md4_four f k shifts w x y z regs =
     (let (s1, s2, s3, s4) = shifts; (a, b, c, d) = regs;
          a = md4_ROUND f a b c d (w + k) s1;
          d = md4_ROUND f d a b c (x + k) s2;
          c = md4_ROUND f c d a b (y + k) s3;
          b = md4_ROUND f b c d a (z + k) s4
      in (a, b, c, d))"

definition halfMD4Transform :: "u32 list \<Rightarrow> u32 list \<Rightarrow> u32 list" where
  "halfMD4Transform buf ws =
     (let i = (\<lambda>n. ws ! n);
          r = (buf ! 0, buf ! 1, buf ! 2, buf ! 3);
          r = md4_four md4_F 0 (3, 7, 11, 19) (i 0) (i 1) (i 2) (i 3) r;
          r = md4_four md4_F 0 (3, 7, 11, 19) (i 4) (i 5) (i 6) (i 7) r;
          r = md4_four md4_G md4_K2 (3, 5, 9, 13) (i 1) (i 3) (i 5) (i 7) r;
          r = md4_four md4_G md4_K2 (3, 5, 9, 13) (i 0) (i 2) (i 4) (i 6) r;
          r = md4_four md4_H md4_K3 (3, 9, 11, 15) (i 3) (i 7) (i 2) (i 6) r;
          (a, b, c, d) = md4_four md4_H md4_K3 (3, 9, 11, 15) (i 1) (i 5) (i 0) (i 4) r
      in [buf ! 0 + a, buf ! 1 + b, buf ! 2 + c, buf ! 3 + d])"

section \<open>Names\<close>

text \<open>A character as an \<open>int\<close>. The length of a name is the length of its list.\<close>

definition hash_char :: "bool \<Rightarrow> u8 \<Rightarrow> u32" where
  "hash_char unsigned_flag c = (if unsigned_flag then ucast c else scast c)"

fun hack_hash_loop :: "bool \<Rightarrow> u8 list \<Rightarrow> u32 \<Rightarrow> u32 \<Rightarrow> u32" where
  "hack_hash_loop unsigned_flag [] hash0 hash1 = push_bit 1 hash0"
| "hack_hash_loop unsigned_flag (c # cs) hash0 hash1 =
     (let hash = hash1 + (hash0 XOR (hash_char unsigned_flag c * 7152373));
          hash = (if hash AND 0x80000000 \<noteq> 0 then hash - 0x7fffffff else hash)
      in hack_hash_loop unsigned_flag cs hash hash0)"

definition dx_hack_hash :: "u8 list \<Rightarrow> bool \<Rightarrow> u32" where
  "dx_hack_hash name unsigned_flag = hack_hash_loop unsigned_flag name 0x12a3fe2d 0x37abe8f9"

text \<open>The full words of a message, and the last, partial one.\<close>

fun hash_words :: "bool \<Rightarrow> u32 \<Rightarrow> nat \<Rightarrow> u32 \<Rightarrow> u8 list \<Rightarrow> u32 list \<times> u32" where
  "hash_words unsigned_flag pad i val [] = ([], val)"
| "hash_words unsigned_flag pad i val (c # cs) =
     (let val = (if i mod 4 = 0 then pad else val);
          val = hash_char unsigned_flag c + push_bit 8 val
      in
      if i mod 4 = 3 then
        let (ws, rest) = hash_words unsigned_flag pad (i + 1) pad cs in (val # ws, rest)
      else hash_words unsigned_flag pad (i + 1) val cs)"

definition str2hashbuf :: "u8 list \<Rightarrow> nat \<Rightarrow> bool \<Rightarrow> u32 list" where
  "str2hashbuf msg num unsigned_flag =
     (let len = of_nat (length msg) :: u32;
          pad = len OR push_bit 8 len;
          pad = pad OR push_bit 16 pad;
          (ws, val) = hash_words unsigned_flag pad 0 pad (take (num * 4) msg)
      in take num (ws @ val # replicate num pad))"

text \<open>A name in pieces of \<open>4 * num\<close> bytes; the transform changes the buffer.\<close>

function hash_pieces :: "(u32 list \<Rightarrow> u32 list \<Rightarrow> u32 list) \<Rightarrow> nat \<Rightarrow> bool \<Rightarrow> u8 list \<Rightarrow> u32 list \<Rightarrow> u32 list" where
  "hash_pieces transform num unsigned_flag p buf =
     (if p = [] \<or> num = 0 then buf
      else hash_pieces transform num unsigned_flag (drop (num * 4) p) (transform buf (str2hashbuf p num unsigned_flag)))"
  by pat_completeness auto
termination
  by (relation "measure (\<lambda>(_, _, _, p, _). length p)") auto

declare hash_pieces.simps [simp del]

definition EXT2_HASH_LEGACY :: int where "EXT2_HASH_LEGACY = 0"
definition EXT2_HASH_HALF_MD4 :: int where "EXT2_HASH_HALF_MD4 = 1"
definition EXT2_HASH_TEA :: int where "EXT2_HASH_TEA = 2"
definition EXT2_HASH_LEGACY_UNSIGNED :: int where "EXT2_HASH_LEGACY_UNSIGNED = 3"
definition EXT2_HASH_HALF_MD4_UNSIGNED :: int where "EXT2_HASH_HALF_MD4_UNSIGNED = 4"
definition EXT2_HASH_TEA_UNSIGNED :: int where "EXT2_HASH_TEA_UNSIGNED = 5"

text \<open>The hash and the minor hash.\<close>

definition ext2fs_dirhash :: "int \<Rightarrow> u8 list \<Rightarrow> u32 list option \<Rightarrow> (u32 \<times> u32) result" where
  "ext2fs_dirhash version name seed =
     (let buf = [0x67452301, 0xefcdab89, 0x98badcfe, 0x10325476];
          buf = (case seed of None \<Rightarrow> buf | Some s \<Rightarrow> if \<exists>w \<in> set (take 4 s). w \<noteq> 0 then take 4 s else buf);
          evn = (\<lambda>hash. hash AND NOT 1)
      in
      if version = EXT2_HASH_LEGACY \<or> version = EXT2_HASH_LEGACY_UNSIGNED then
        Inr (evn (dx_hack_hash name (version = EXT2_HASH_LEGACY_UNSIGNED)), 0)
      else if version = EXT2_HASH_HALF_MD4 \<or> version = EXT2_HASH_HALF_MD4_UNSIGNED then
        let buf = hash_pieces halfMD4Transform 8 (version = EXT2_HASH_HALF_MD4_UNSIGNED) name buf
        in Inr (evn (buf ! 1), buf ! 2)
      else if version = EXT2_HASH_TEA \<or> version = EXT2_HASH_TEA_UNSIGNED then
        let buf = hash_pieces TEA_transform 4 (version = EXT2_HASH_TEA_UNSIGNED) name buf
        in Inr (evn (buf ! 0), buf ! 1)
      else Inl EXT2_ET_DIRHASH_UNSUPP)"

section \<open>Signed and unsigned characters\<close>

lemma hash_char_ascii:
  assumes "c < 0x80"
  shows "hash_char False c = hash_char True c"
proof -
  have "uint c < 128" using assms by (simp add: word_less_def)
  moreover have "- 128 \<le> uint c" using uint_ge_0 [of c] by linarith
  ultimately have "sint c = uint c" by (simp add: sint_uint signed_take_bit_int_eq_self_iff)
  then show ?thesis by (simp only: hash_char_def if_True if_False scast_eq ucast_eq)
qed

lemma hack_hash_ascii: "\<forall>c \<in> set cs. c < 0x80 \<Longrightarrow> hack_hash_loop False cs a b = hack_hash_loop True cs a b"
  by (induction cs arbitrary: a b) (simp_all add: hash_char_ascii Let_def)

lemma hash_words_ascii: "\<forall>c \<in> set cs. c < 0x80 \<Longrightarrow> hash_words False pad i v cs = hash_words True pad i v cs"
  by (induction cs arbitrary: i v) (simp_all add: hash_char_ascii Let_def)

lemma str2hashbuf_ascii: "\<forall>c \<in> set msg. c < 0x80 \<Longrightarrow> str2hashbuf msg num False = str2hashbuf msg num True"
  unfolding str2hashbuf_def by (subst hash_words_ascii) (auto dest: in_set_takeD)

lemma hash_pieces_ascii:
  "\<forall>c \<in> set p. c < 0x80 \<Longrightarrow> hash_pieces t num False p buf = hash_pieces t num True p buf"
proof (induction t num False p buf rule: hash_pieces.induct)
  case (1 t num p buf)
  then show ?case
    using set_drop_subset [of "num * 4" p] str2hashbuf_ascii [of p num]
    by (subst (1 2) hash_pieces.simps) auto
qed

lemma hash_differs:
  "ext2fs_dirhash EXT2_HASH_LEGACY [0x80] None \<noteq> ext2fs_dirhash EXT2_HASH_LEGACY_UNSIGNED [0x80] None"
  "ext2fs_dirhash EXT2_HASH_TEA [0x80] None \<noteq> ext2fs_dirhash EXT2_HASH_TEA_UNSIGNED [0x80] None"
  subgoal by code_simp
  subgoal by code_simp
  done

text \<open>
  The hash of a name does not depend on whether characters are signed, in any of the three
  versions and for any seed, as long as the name is ASCII. It does depend on it for the single byte
  128 in the legacy hash and in the cipher, which is why a file system has to say which of the two its
  index was built with. The hash is always even.
\<close>

lemma dirhash_signedness:
  assumes "\<forall>c \<in> set name. c < 0x80" "(v, u) \<in> {(EXT2_HASH_LEGACY, EXT2_HASH_LEGACY_UNSIGNED),
    (EXT2_HASH_HALF_MD4, EXT2_HASH_HALF_MD4_UNSIGNED), (EXT2_HASH_TEA, EXT2_HASH_TEA_UNSIGNED)}"
  shows "ext2fs_dirhash v name seed = ext2fs_dirhash u name seed \<and>
    (v \<noteq> EXT2_HASH_HALF_MD4 \<longrightarrow> ext2fs_dirhash v [0x80] None \<noteq> ext2fs_dirhash u [0x80] None) \<and>
    (\<exists>h m. ext2fs_dirhash v name seed = Inr (h, m) \<and> h AND 1 = 0)"
proof (intro conjI)
  show "ext2fs_dirhash v name seed = ext2fs_dirhash u name seed"
    using assms by (auto simp: ext2fs_dirhash_def Let_def dx_hack_hash_def hack_hash_ascii hash_pieces_ascii
        EXT2_HASH_LEGACY_def EXT2_HASH_LEGACY_UNSIGNED_def EXT2_HASH_HALF_MD4_def EXT2_HASH_HALF_MD4_UNSIGNED_def
        EXT2_HASH_TEA_def EXT2_HASH_TEA_UNSIGNED_def)
  show "v \<noteq> EXT2_HASH_HALF_MD4 \<longrightarrow> ext2fs_dirhash v [0x80] None \<noteq> ext2fs_dirhash u [0x80] None"
    using assms(2) hash_differs by auto
  show "\<exists>h m. ext2fs_dirhash v name seed = Inr (h, m) \<and> h AND 1 = 0"
    using assms(2) by (auto simp: ext2fs_dirhash_def Let_def and.assoc)
qed

lemma dirhash_signedness_witness:
  "ext2fs_dirhash EXT2_HASH_TEA [0x61, 0x62] None = ext2fs_dirhash EXT2_HASH_TEA_UNSIGNED [0x61, 0x62] None"
  using dirhash_signedness [of "[0x61, 0x62]" EXT2_HASH_TEA EXT2_HASH_TEA_UNSIGNED None] by simp

end
