(* ===== verification/Relocation.thy ===== *)
theory Relocation
  imports Extent
begin

text \<open>
  The tables that say where blocks and inodes go when a file system is rearranged, kept in memory
  (\<open>source/brel_ma.c\<close>, \<open>source/irel_ma.c\<close>, \<open>source/brel.h\<close>, \<open>source/irel.h\<close>). The functions are
  reached through the pointers in the tables, which have no other values than these.
\<close>

section \<open>Blocks\<close>

text \<open>\<open>struct ext2_block_relocate_entry\<close>, of 12 bytes; the owner is a block or an inode.\<close>

record block_relocate_entry =
  br_new :: u32
  br_offset :: u16
  br_flags :: u16
  br_owner :: u32

definition no_block_entry :: block_relocate_entry where
  "no_block_entry = \<lparr>br_new = 0, br_offset = 0, br_flags = 0, br_owner = 0\<rparr>"

text \<open>\<open>struct ext2_block_relocation_table\<close>, of 44 bytes, and its \<open>struct brel_ma\<close>, of 12.\<close>

record brel =
  bma_name :: string
  bma_current :: u32
  bma_max_block :: u32
  bma_entries :: "block_relocate_entry list"

text \<open>
  With the largest number the array has no entries, and every use of the table lies outside of it: the
  creation has the value \<open>UNDEFINED\<close> then.
\<close>

definition ext2fs_brel_memarray_create :: "u8 heap \<Rightarrow> string \<Rightarrow> u32 \<Rightarrow> brel result" where
  "ext2fs_brel_memarray_create h name max_block =
     (if \<not> granted h 44 \<or> \<not> granted h (length name + 1) \<or> \<not> granted h 12 then Inl EXT2_ET_NO_MEMORY
      else if max_block + 1 = 0 then Inl UNDEFINED
      else case ext2fs_get_array h (unat (max_block + 1)) 12 of
        Inl e \<Rightarrow> Inl e
      | Inr _ \<Rightarrow> Inr \<lparr>bma_name = name, bma_current = 0, bma_max_block = max_block,
                      bma_entries = replicate (unat (max_block + 1)) no_block_entry\<rparr>)"

definition bma_put :: "brel \<Rightarrow> u32 \<Rightarrow> block_relocate_entry \<Rightarrow> unit result \<times> brel" where
  "bma_put b old ent =
     (if old > bma_max_block b then (Inl EXT2_ET_INVALID_ARGUMENT, b)
      else (Inr (), b\<lparr>bma_entries := (bma_entries b)[unat old := ent]\<rparr>))"

definition bma_get :: "brel \<Rightarrow> u32 \<Rightarrow> block_relocate_entry result" where
  "bma_get b old =
     (if old > bma_max_block b then Inl EXT2_ET_INVALID_ARGUMENT
      else if br_new (bma_entries b ! unat old) = 0 then Inl ENOENT
      else Inr (bma_entries b ! unat old))"

definition bma_start_iter :: "brel \<Rightarrow> brel" where
  "bma_start_iter b = b\<lparr>bma_current := 0\<rparr>"

lemma scan_next:
  fixes c m :: u32
  assumes "c < m"
  shows "unat m - unat (c + 1) < unat m - unat c"
proof -
  have "unat c + 1 < 2 ^ 32" using assms unsigned_less [where 'a=nat, of m] by (simp add: word_less_nat_alt)
  then have "unat (c + 1) = unat c + 1" by (simp add: unat_word_ariths)
  then show ?thesis using assms by (simp add: word_less_nat_alt)
qed

text \<open>From \<open>current\<close> on, which was advanced: the place of the next entry, or where the search ended.\<close>

function bma_scan :: "block_relocate_entry list \<Rightarrow> u32 \<Rightarrow> u32 \<Rightarrow> bool \<times> u32" where
  "bma_scan entries max_block current =
     (if current < max_block then
        (if br_new (entries ! unat current) = 0 then bma_scan entries max_block (current + 1) else (True, current))
      else (False, current))"
  by pat_completeness auto
termination
  by (relation "measure (\<lambda>(_, m, c). unat m - unat c)") (auto simp: scan_next)

declare bma_scan.simps [simp del]

text \<open>The number and the entry; 0 when there is none. The entry \<open>max_block\<close> is never visited.\<close>

definition bma_next :: "brel \<Rightarrow> (u32 \<times> block_relocate_entry option) \<times> brel" where
  "bma_next b =
     (let (found, c) = bma_scan (bma_entries b) (bma_max_block b) (bma_current b + 1)
      in (if found then (c, Some (bma_entries b ! unat c)) else (0, None), b\<lparr>bma_current := c\<rparr>))"

definition bma_clear :: "brel \<Rightarrow> u32 \<Rightarrow> brel" where
  "bma_clear b old = b\<lparr>bma_entries := (bma_entries b)[unat old := (bma_entries b ! unat old)\<lparr>br_new := 0\<rparr>]\<rparr>"

definition bma_move :: "brel \<Rightarrow> u32 \<Rightarrow> u32 \<Rightarrow> unit result \<times> brel" where
  "bma_move b old new =
     (if old > bma_max_block b \<or> new > bma_max_block b then (Inl EXT2_ET_INVALID_ARGUMENT, b)
      else if br_new (bma_entries b ! unat old) = 0 then (Inl ENOENT, b)
      else (Inr (), bma_clear (b\<lparr>bma_entries := (bma_entries b)[unat new := bma_entries b ! unat old]\<rparr>) old))"

definition bma_delete :: "brel \<Rightarrow> u32 \<Rightarrow> unit result \<times> brel" where
  "bma_delete b old =
     (if old > bma_max_block b then (Inl EXT2_ET_INVALID_ARGUMENT, b)
      else if br_new (bma_entries b ! unat old) = 0 then (Inl ENOENT, b)
      else (Inr (), bma_clear b old))"

section \<open>Inodes\<close>

text \<open>References have 8 bytes, entries 12, and the array of references of an inode 8.\<close>

text \<open>\<open>struct ext2_inode_relocation_table\<close> has 60 bytes, \<open>struct irel_ma\<close> 28.\<close>

record inode_reference =
  rf_block :: u32
  rf_offset :: u16

record inode_relocate_entry =
  ir_new :: u32
  ir_orig :: u32
  ir_flags :: u16
  ir_max_refs :: u16

record inode_reference_entry =
  re_num :: u16
  re_refs :: "inode_reference list option"

record irel =
  ima_name :: string
  ima_current :: u32
  ima_max_inode :: u32
  ima_ref_current :: u32
  ima_ref_iter :: nat
  ima_orig_map :: "u32 list"
  ima_entries :: "inode_relocate_entry list"
  ima_ref_entries :: "inode_reference_entry list"

definition ext2fs_irel_memarray_create :: "u8 heap \<Rightarrow> string \<Rightarrow> u32 \<Rightarrow> irel result" where
  "ext2fs_irel_memarray_create h name max_inode =
     (let n = unat (max_inode + 1) in
      if \<not> granted h 60 \<or> \<not> granted h (length name + 1) \<or> \<not> granted h 28 then Inl EXT2_ET_NO_MEMORY
      else if n = 0 then Inl UNDEFINED
      else case ext2fs_get_array h n 4 of Inl e \<Rightarrow> Inl e | Inr _ \<Rightarrow>
        (case ext2fs_get_array h n 12 of Inl e \<Rightarrow> Inl e | Inr _ \<Rightarrow>
          (let bytes = unat (8 * (max_inode + 1)) in
           if \<not> granted h bytes then Inl EXT2_ET_NO_MEMORY
           else if bytes < 8 * n then Inl UNDEFINED
           else Inr \<lparr>ima_name = name, ima_current = 0, ima_max_inode = max_inode, ima_ref_current = 0, ima_ref_iter = 0,
                  ima_orig_map = replicate n 0,
                  ima_entries = replicate n \<lparr>ir_new = 0, ir_orig = 0, ir_flags = 0, ir_max_refs = 0\<rparr>,
                  ima_ref_entries = replicate n \<lparr>re_num = 0, re_refs = None\<rparr>\<rparr>)))"

definition ima_entry :: "irel \<Rightarrow> u32 \<Rightarrow> inode_relocate_entry" where "ima_entry r ino = ima_entries r ! unat ino"
definition ima_refs :: "irel \<Rightarrow> u32 \<Rightarrow> inode_reference_entry" where "ima_refs r ino = ima_ref_entries r ! unat ino"

definition set_ima_entry :: "u32 \<Rightarrow> inode_relocate_entry \<Rightarrow> irel \<Rightarrow> irel" where
  "set_ima_entry ino e r = r\<lparr>ima_entries := (ima_entries r)[unat ino := e]\<rparr>"

definition set_ima_refs :: "u32 \<Rightarrow> inode_reference_entry \<Rightarrow> irel \<Rightarrow> irel" where
  "set_ima_refs ino e r = r\<lparr>ima_ref_entries := (ima_ref_entries r)[unat ino := e]\<rparr>"

definition set_ima_orig :: "u32 \<Rightarrow> u32 \<Rightarrow> irel \<Rightarrow> irel" where
  "set_ima_orig orig ino r = r\<lparr>ima_orig_map := (ima_orig_map r)[unat orig := ino]\<rparr>"

text \<open>The entry of the caller gets the original number and is returned.\<close>

definition ima_put :: "inode_reference heap \<Rightarrow> irel \<Rightarrow> u32 \<Rightarrow> inode_relocate_entry \<Rightarrow>
    unit result \<times> inode_relocate_entry \<times> irel" where
  "ima_put h r old ent =
     (if old > ima_max_inode r then (Inl EXT2_ET_INVALID_ARGUMENT, ent, r)
      else
        let cur = ima_entry r old;
            ent = ent\<lparr>ir_orig := (if ir_new cur = 0 then old else ir_orig cur)\<rparr>;
            refs = ima_refs r old;
            resized = (case re_refs refs of
                         None \<Rightarrow> Inr None
                       | Some xs \<Rightarrow> if ir_max_refs ent \<noteq> ir_max_refs cur
                                    then map_sum id Some (ext2fs_resize_mem h (unat (ir_max_refs ent)) 8 xs) else Inr (Some xs))
        in
        case resized of
          Inl e \<Rightarrow> (Inl e, ent, r)
        | Inr xs \<Rightarrow> (Inr (), ent, set_ima_orig (ir_orig ent) old (set_ima_entry old ent (set_ima_refs old (refs\<lparr>re_refs := xs\<rparr>) r))))"

definition ima_get :: "irel \<Rightarrow> u32 \<Rightarrow> inode_relocate_entry result" where
  "ima_get r old =
     (if old > ima_max_inode r then Inl EXT2_ET_INVALID_ARGUMENT
      else if ir_new (ima_entry r old) = 0 then Inl ENOENT else Inr (ima_entry r old))"

definition ima_get_by_orig :: "irel \<Rightarrow> u32 \<Rightarrow> (u32 \<times> inode_relocate_entry) result" where
  "ima_get_by_orig r orig =
     (if orig > ima_max_inode r then Inl EXT2_ET_INVALID_ARGUMENT
      else let ino = ima_orig_map r ! unat orig in if ino = 0 then Inl ENOENT else Inr (ino, ima_entry r ino))"

definition ima_start_iter :: "irel \<Rightarrow> irel" where
  "ima_start_iter r = r\<lparr>ima_current := 0\<rparr>"

function ima_scan :: "inode_relocate_entry list \<Rightarrow> u32 \<Rightarrow> u32 \<Rightarrow> bool \<times> u32" where
  "ima_scan entries max_inode current =
     (if current < max_inode then
        (if ir_new (entries ! unat current) = 0 then ima_scan entries max_inode (current + 1) else (True, current))
      else (False, current))"
  by pat_completeness auto
termination
  by (relation "measure (\<lambda>(_, m, c). unat m - unat c)") (auto simp: scan_next)

declare ima_scan.simps [simp del]

definition ima_next :: "irel \<Rightarrow> (u32 \<times> inode_relocate_entry option) \<times> irel" where
  "ima_next r =
     (let (found, c) = ima_scan (ima_entries r) (ima_max_inode r) (ima_current r + 1)
      in (if found then (c, Some (ima_entry r c)) else (0, None), r\<lparr>ima_current := c\<rparr>))"

definition ima_add_ref :: "inode_reference heap \<Rightarrow> irel \<Rightarrow> u32 \<Rightarrow> inode_reference \<Rightarrow> unit result \<times> irel" where
  "ima_add_ref h r ino ref =
     (if ino > ima_max_inode r then (Inl EXT2_ET_INVALID_ARGUMENT, r)
      else
        let max_refs = ir_max_refs (ima_entry r ino); re = ima_refs r ino in
        case (case re_refs re of
                Some xs \<Rightarrow> Inr re
              | None \<Rightarrow> map_sum id (\<lambda>_. \<lparr>re_num = 0, re_refs = Some (replicate (unat max_refs) \<lparr>rf_block = 0, rf_offset = 0\<rparr>)\<rparr>)
                           (ext2fs_get_array h (unat max_refs) 8)) of
          Inl e \<Rightarrow> (Inl e, r)
        | Inr re \<Rightarrow>
            if re_num re \<ge> max_refs then (Inl EXT2_ET_TOO_MANY_REFS, set_ima_refs ino re r)
            else (Inr (), set_ima_refs ino
                    (re\<lparr>re_num := re_num re + 1, re_refs := map_option (\<lambda>xs. xs[unat (re_num re) := ref]) (re_refs re)\<rparr>) r))"

definition ima_start_iter_ref :: "irel \<Rightarrow> u32 \<Rightarrow> unit result \<times> irel" where
  "ima_start_iter_ref r ino =
     (if ino > ima_max_inode r then (Inl EXT2_ET_INVALID_ARGUMENT, r)
      else if ir_new (ima_entry r ino) = 0 then (Inl ENOENT, r)
      else (Inr (), r\<lparr>ima_ref_current := ino, ima_ref_iter := 0\<rparr>))"

text \<open>
  The next reference, or one with block 0 behind the last. When the array was made smaller than the
  number of references in it, a reference behind it is read: the value is \<open>UNDEFINED\<close>.
\<close>

definition ima_next_ref :: "irel \<Rightarrow> inode_reference result \<times> irel" where
  "ima_next_ref r =
     (let re = ima_refs r (ima_ref_current r) in
      case re_refs re of
        None \<Rightarrow> (Inr \<lparr>rf_block = 0, rf_offset = 0\<rparr>, r)
      | Some xs \<Rightarrow>
          if ima_ref_iter r \<ge> unat (re_num re) then (Inr \<lparr>rf_block = 0, rf_offset = 0\<rparr>, r)
          else if ima_ref_iter r \<ge> length xs then (Inl UNDEFINED, r)
          else (Inr (xs ! ima_ref_iter r), r\<lparr>ima_ref_iter := ima_ref_iter r + 1\<rparr>))"

definition ima_move :: "irel \<Rightarrow> u32 \<Rightarrow> u32 \<Rightarrow> unit result \<times> irel" where
  "ima_move r old new =
     (if old > ima_max_inode r \<or> new > ima_max_inode r then (Inl EXT2_ET_INVALID_ARGUMENT, r)
      else if ir_new (ima_entry r old) = 0 then (Inl ENOENT, r)
      else
        let r = set_ima_entry new (ima_entry r old) r;
            r = set_ima_refs new ((ima_refs r new)\<lparr>re_refs := None\<rparr>) r;
            r = set_ima_refs new (ima_refs r old) r;
            r = set_ima_entry old ((ima_entry r old)\<lparr>ir_new := 0\<rparr>) r;
            r = set_ima_refs old \<lparr>re_num = 0, re_refs = None\<rparr> r
        in (Inr (), set_ima_orig (ir_orig (ima_entry r new)) new r))"

definition ima_delete :: "irel \<Rightarrow> u32 \<Rightarrow> unit result \<times> irel" where
  "ima_delete r old =
     (if old > ima_max_inode r then (Inl EXT2_ET_INVALID_ARGUMENT, r)
      else if ir_new (ima_entry r old) = 0 then (Inl ENOENT, r)
      else
        let r = set_ima_entry old ((ima_entry r old)\<lparr>ir_new := 0\<rparr>) r;
            r = set_ima_orig (ir_orig (ima_entry r old)) 0 r
        in (Inr (), set_ima_refs old \<lparr>re_num = 0, re_refs = None\<rparr> r))"

end
