(* ===== verification/Files.thy ===== *)
theory Files
  imports Bmap
begin

text \<open>
  Open files (\<open>source/fileio.c\<close>): reading and writing at a position through a buffer of one block;
  and freeing the blocks of a range of a file (\<open>source/punch.c\<close>).
\<close>

section \<open>Freeing blocks of a file without extents\<close>

text \<open>
  The result of the routines: the error, the entries, the number of blocks freed so far, and the state.
  \<open>child\<close> is what is done to the block of an entry before it is freed, and says whether it is.
\<close>

type_synonym 'd punch_state = "inode \<times> filsys \<times> 'd io_channel"

fun punch_entries :: "(u32 \<Rightarrow> u32 \<Rightarrow> 'd punch_state \<Rightarrow> bool result \<times> 'd punch_state) \<Rightarrow> u32 \<Rightarrow> u32 \<Rightarrow> u32 \<Rightarrow>
    u32 \<Rightarrow> u32 list \<Rightarrow> nat \<Rightarrow> 'd punch_state \<Rightarrow> unit result \<times> u32 list \<times> nat \<times> 'd punch_state" where
  "punch_entries child incr start count offset [] freed s = (Inr (), [], freed, s)"
| "punch_entries child incr start count offset (b # bs) freed s =
     (if offset > count then (Inr (), b # bs, freed, s)
      else if b = 0 \<or> offset + incr \<le> start then
        let (r, bs, freed, s) = punch_entries child incr start count (offset + incr) bs freed s in (r, b # bs, freed, s)
      else
        case child b offset s of
          (Inl e, s) \<Rightarrow> (Inl e, b # bs, freed, s)
        | (Inr False, s) \<Rightarrow>
            (let (r, bs, freed, s) = punch_entries child incr start count (offset + incr) bs freed s in (r, b # bs, freed, s))
        | (Inr True, (inode, fs, io)) \<Rightarrow>
            (let (r, bs, freed, s) = punch_entries child incr start count (offset + incr) bs (freed + 1)
                   (inode, ext2fs_block_alloc_stats fs b (- 1), io)
             in (r, 0 # bs, freed, s)))"

text \<open>The blocks freed are taken from the count of the inode when the entries are done.\<close>

definition punch_counted :: "unit result \<times> u32 list \<times> nat \<times> 'd punch_state \<Rightarrow> unit result \<times> u32 list \<times> 'd punch_state" where
  "punch_counted res =
     (case res of
        (Inl e, bs, freed, s) \<Rightarrow> (Inl e, bs, s)
      | (Inr _, bs, freed, (inode, fs, io)) \<Rightarrow>
          (case ext2fs_iblk_sub_blocks fs inode (of_nat freed) of
             Inl e \<Rightarrow> (Inl e, bs, (inode, fs, io)) | Inr inode \<Rightarrow> (Inr (), bs, (inode, fs, io))))"

fun ind_punch :: "nat \<Rightarrow> u32 list \<Rightarrow> u32 \<Rightarrow> u32 \<Rightarrow> 'd punch_state \<Rightarrow> unit result \<times> u32 list \<times> 'd punch_state" where
  "ind_punch 0 p start count s =
     punch_counted (punch_entries (\<lambda>b offset s. (Inr True, s)) 1 start count 0 p 0 s)"
| "ind_punch (Suc level) p start count s =
     (let incr = push_bit ((EXT2_BLOCK_SIZE_BITS (fs_super (fst (snd s))) - 2) * Suc level) 1;
          child = (\<lambda>b offset (inode, fs, io).
            (case ext2fs_read_ind_block fs io b of
               (Inl e, io) \<Rightarrow> (Inl e, (inode, fs, io))
             | (Inr buf, io) \<Rightarrow>
                 (case ind_punch level buf (if start > offset then start - offset else 0) (count - offset) (inode, fs, io) of
                    (Inl e, buf, s) \<Rightarrow> (Inl e, s)
                  | (Inr _, buf, (inode, fs, io)) \<Rightarrow>
                      (case ext2fs_write_ind_block fs io b buf of
                         (Inl e, io) \<Rightarrow> (Inl e, (inode, fs, io))
                       | (Inr _, io) \<Rightarrow> (Inr (\<forall>w \<in> set buf. w = 0), (inode, fs, io))))))
      in punch_counted (punch_entries child incr start count 0 p 0 s))"

text \<open>
  The levels from the direct blocks to the triply indirect block; \<open>bp\<close> is the place in the inode,
  \<open>num\<close> the number of its entries there, and \<open>mx\<close> the number of blocks behind them.
\<close>

fun punch_levels :: "nat \<Rightarrow> nat \<Rightarrow> nat \<Rightarrow> nat \<Rightarrow> u32 \<Rightarrow> u32 \<Rightarrow> u32 \<Rightarrow> 'd punch_state \<Rightarrow> unit result \<times> 'd punch_state" where
  "punch_levels 0 level bp num mx start count s = (Inr (), s)"
| "punch_levels (Suc n) level bp num mx start count s =
     (let addr_per_block = drop_bit 2 (fs_blocksize (fst (snd s)));
          onward = (\<lambda>start count s.
            punch_levels n (level + 1) (bp + num) (if level = 0 then 1 else num)
              ((if level = 0 then 1 else mx) * addr_per_block) start count s)
      in
      if start < mx then
        (case ind_punch level (take num (drop bp (i_block (fst s)))) start count s of
           (r, bs, (inode, fs, io)) \<Rightarrow>
             let s = (inode\<lparr>i_block := take bp (i_block inode) @ bs @ drop (bp + num) (i_block inode)\<rparr>, fs, io) in
             (case r of
                Inl e \<Rightarrow> (Inl e, s)
              | Inr _ \<Rightarrow> if count > mx then onward 0 (count - (mx - start)) s else (Inr (), s)))
      else onward (start - mx) count s)"

definition ext2fs_punch_ind :: "u8 heap \<Rightarrow> bool \<Rightarrow> u32 \<Rightarrow> u32 \<Rightarrow> 'd punch_state \<Rightarrow> unit result \<times> 'd punch_state" where
  "ext2fs_punch_ind h block_buf start count s =
     (case (if block_buf then Inr () else map_sum id (\<lambda>_. ()) (ext2fs_get_array h 3 (unat (fs_blocksize (fst (snd s)))))) of
        Inl e \<Rightarrow> (Inl e, s)
      | Inr _ \<Rightarrow> punch_levels 4 0 0 12 12 start count s)"

section \<open>Freeing blocks of a file with extents\<close>

fun free_run :: "nat \<Rightarrow> u64 \<Rightarrow> filsys \<Rightarrow> filsys" where
  "free_run 0 blk fs = fs"
| "free_run (Suc n) blk fs = free_run n (blk + 1) (ext2fs_block_alloc_stats fs (ucast blk) (- 1))"

text \<open>
  What is left of an extent, which blocks go, and the extent behind a hole in its middle. \<open>Inl\<close> ends
  the walk (\<open>True\<close>) or goes to the next extent.
\<close>

record punch_plan =
  pp_extent :: ext2fs_extent
  pp_free_start :: u64
  pp_free_count :: u32
  pp_newex :: "ext2fs_extent option"

definition plan_punch :: "u64 \<Rightarrow> u64 \<Rightarrow> ext2fs_extent \<Rightarrow> bool + punch_plan" where
  "plan_punch start end1 extent =
     (let nxt = e_lblk extent + ucast (e_len extent) in
      if start \<le> e_lblk extent then
        (if end1 < e_lblk extent then Inl False
         else
           let free_count = (if nxt > end1 then ucast (end1 - e_lblk extent + 1) else e_len extent)
           in Inr \<lparr>pp_extent = extent\<lparr>e_len := e_len extent - free_count, e_lblk := e_lblk extent + ucast free_count,
                      e_pblk := e_pblk extent + ucast free_count\<rparr>,
                   pp_free_start = e_pblk extent, pp_free_count = free_count, pp_newex = None\<rparr>)
      else if end1 \<ge> nxt - 1 then
        (if start \<ge> nxt then Inl True
         else
           let newlen = ucast (start - e_lblk extent) :: u32
           in Inr \<lparr>pp_extent = extent\<lparr>e_len := newlen\<rparr>, pp_free_start = e_pblk extent + ucast newlen,
                   pp_free_count = e_len extent - newlen, pp_newex = None\<rparr>)
      else
        let len = ucast (start - e_lblk extent) :: u32
        in Inr \<lparr>pp_extent = extent\<lparr>e_len := len\<rparr>, pp_free_start = e_pblk extent + ucast len,
                pp_free_count = ucast (end1 - start + 1),
                pp_newex = Some \<lparr>e_pblk = e_pblk extent + (end1 + 1 - e_lblk extent), e_lblk = end1 + 1,
                                 e_len = ucast (nxt - end1 - 1), e_flags = e_flags extent\<rparr>\<rparr>)"

definition apply_punch :: "punch_plan \<Rightarrow> 'd extent_handle \<Rightarrow> unit result \<times> 'd extent_handle" where
  "apply_punch p x =
     (case (case pp_newex p of
              None \<Rightarrow> (Inr (), x)
            | Some newex \<Rightarrow>
                (case ext2fs_extent_insert EXT2_EXTENT_INSERT_AFTER newex x of
                   (Inl e, x) \<Rightarrow> (Inl e, x)
                 | (Inr _, x) \<Rightarrow> (case ext2fs_extent_get EXT2_EXTENT_PREV_LEAF x of (r, x) \<Rightarrow> (map_sum id (\<lambda>_. ()) r, x)))) of
        (Inl e, x) \<Rightarrow> (Inl e, x)
      | (Inr _, x) \<Rightarrow>
          (if e_len (pp_extent p) \<noteq> 0 then ext2fs_extent_replace (pp_extent p) x else ext2fs_extent_delete 0 x))"

text \<open>One turn: \<open>Inl\<close> with the result when the walk is over.\<close>

definition punch_extent_step :: "u64 \<Rightarrow> u64 \<Rightarrow> ext2fs_extent \<times> nat \<times> 'd extent_handle \<Rightarrow>
    (unit result \<times> nat \<times> 'd extent_handle) + (ext2fs_extent \<times> nat \<times> 'd extent_handle)" where
  "punch_extent_step start end1 s =
     (let (extent, freed, x) = s;
          go_on = (\<lambda>freed x.
            case ext2fs_extent_get EXT2_EXTENT_NEXT_LEAF x of
              (Inl e, x) \<Rightarrow> Inl (if e = EXT2_ET_EXTENT_NO_NEXT then Inr () else Inl e, freed, x)
            | (Inr extent, x) \<Rightarrow> Inr (extent, freed, x))
      in
      case plan_punch start end1 extent of
        Inl True \<Rightarrow> Inl (Inr (), freed, x)
      | Inl False \<Rightarrow> go_on freed x
      | Inr p \<Rightarrow>
          (case apply_punch p x of
             (Inl e, x) \<Rightarrow> Inl (Inl e, freed, x)
           | (Inr _, x) \<Rightarrow>
               let n = unat (pp_free_count p)
               in go_on (freed + n) (x\<lparr>xh_fs := free_run n (pp_free_start p) (xh_fs x)\<rparr>)))"

partial_function (option) punch_extent_loop :: "u64 \<Rightarrow> u64 \<Rightarrow> ext2fs_extent \<times> nat \<times> 'd extent_handle \<Rightarrow>
    (unit result \<times> nat \<times> 'd extent_handle) option" where
  "punch_extent_loop start end1 s =
     (case punch_extent_step start end1 s of Inl r \<Rightarrow> Some r | Inr s \<Rightarrow> punch_extent_loop start end1 s)"

declare punch_extent_loop.simps [code, simp del]

definition ext2fs_punch_extent :: "u8 heap \<Rightarrow> string \<Rightarrow> u32 \<Rightarrow> u64 \<Rightarrow> u64 \<Rightarrow> 'd punch_state \<Rightarrow> unit result \<times> 'd punch_state" where
  "ext2fs_punch_extent h dev ino start end1 s =
     (let (inode, fs, io) = s in
      case ext2fs_extent_open2 h dev fs io ino (Some inode) of
        (Inl e, fs, io) \<Rightarrow> (Inl e, (inode, fs, io))
      | (Inr x, fs, io) \<Rightarrow>
          let (g, x) = ext2fs_extent_goto start x; left = (\<lambda>x. (xh_inode x, xh_fs x, xh_io x)) in
          case (case g of Inl e \<Rightarrow> if stuck e then (Inl e, x) else ext2fs_extent_get EXT2_EXTENT_CURRENT x
                | Inr _ \<Rightarrow> ext2fs_extent_get EXT2_EXTENT_CURRENT x) of
            (Inl e, x) \<Rightarrow> (Inl e, left x)
          | (Inr extent, x) \<Rightarrow>
              (case punch_extent_loop start end1 (extent, 0, x) of
                 None \<Rightarrow> (Inl NO_RETURN, left x)
               | Some (Inl e, freed, x) \<Rightarrow> (Inl e, left x)
               | Some (Inr _, freed, x) \<Rightarrow>
                   (case ext2fs_iblk_sub_blocks (xh_fs x) (xh_inode x) (of_nat freed) of
                      Inl e \<Rightarrow> (Inl e, left x)
                    | Inr i \<Rightarrow> (Inr (), (i, xh_fs x, xh_io x)))))"

text \<open>
  \<open>inode\<close> is the caller's inode, if there is one, and is returned. A range of one block is left
  alone.
\<close>

definition ext2fs_punch :: "u8 heap \<Rightarrow> string \<Rightarrow> filsys \<Rightarrow> 'd io_channel \<Rightarrow> u32 \<Rightarrow> inode option \<Rightarrow> bool \<Rightarrow> u64 \<Rightarrow> u64 \<Rightarrow>
    unit result \<times> inode option \<times> filsys \<times> 'd io_channel" where
  "ext2fs_punch h dev fs io ino inode block_buf start end1 =
     (if start > end1 then (Inl EINVAL, inode, fs, io)
      else if start = end1 then (Inr (), inode, fs, io)
      else case (case inode of Some i \<Rightarrow> (Inr i, fs, io) | None \<Rightarrow> ext2fs_read_inode h fs io ino) of
        (Inl e, fs, io) \<Rightarrow> (Inl e, inode, fs, io)
      | (Inr i, fs, io) \<Rightarrow>
          if i_flags i AND EXT4_EXTENTS_FL = 0 \<and> start > 0xFFFFFFFF then (Inr (), inode, fs, io)
          else
            let (r, (i, fs, io)) =
                  (if i_flags i AND EXT4_EXTENTS_FL \<noteq> 0 then ext2fs_punch_extent h dev ino start end1 (i, fs, io)
                   else ext2fs_punch_ind h block_buf (ucast start)
                          (if end1 - start < 0xFFFFFFFF then ucast (end1 - start) else 0xFFFFFFFF) (i, fs, io));
                (r, fs, io) = (case r of Inl e \<Rightarrow> (Inl e, fs, io) | Inr _ \<Rightarrow> ext2fs_write_inode h fs io ino i)
            in (r, map_option (\<lambda>_. i) inode, fs, io))"

section \<open>Open files\<close>

definition EXT2_FILE_WRITE :: u32 where "EXT2_FILE_WRITE = 1"
definition EXT2_FILE_CREATE :: u32 where "EXT2_FILE_CREATE = 2"
definition EXT2_FILE_MASK :: u32 where "EXT2_FILE_MASK = 0xFF"
definition EXT2_FILE_BUF_DIRTY :: u32 where "EXT2_FILE_BUF_DIRTY = 0x4000"
definition EXT2_FILE_BUF_VALID :: u32 where "EXT2_FILE_BUF_VALID = 0x2000"

text \<open>
  \<open>struct ext2_file\<close>, of 56 bytes. The inode is that of the caller, which the file changes; the
  handle of the file system and the channel are passed along with the file.
\<close>

record ext2_file =
  fi_magic :: errcode
  fi_ino :: u32
  fi_inode :: inode
  fi_flags :: u32
  fi_pos :: u64
  fi_blockno :: u64
  fi_physblock :: u64
  fi_buf :: "u8 list"

definition fi_has :: "ext2_file \<Rightarrow> u32 \<Rightarrow> bool" where "fi_has f flag \<longleftrightarrow> fi_flags f AND flag \<noteq> 0"

text \<open>
  Without an inode no file is opened, but the result is that of the last allocation: success.
\<close>

definition ext2fs_file_open2 :: "u8 heap \<Rightarrow> filsys \<Rightarrow> u32 \<Rightarrow> inode option \<Rightarrow> u32 \<Rightarrow> ext2_file option result" where
  "ext2fs_file_open2 h fs ino inode flags =
     (if flags AND (EXT2_FILE_WRITE OR EXT2_FILE_CREATE) \<noteq> 0 \<and> fs_flags fs AND EXT2_FLAG_RW = 0 then Inl EXT2_ET_RO_FILSYS
      else case ext2fs_get_mem h 56 of
        Inl e \<Rightarrow> Inl e
      | Inr _ \<Rightarrow>
          (case inode of
             None \<Rightarrow> Inr None
           | Some i \<Rightarrow>
               (case ext2fs_get_array h 3 (unat (fs_blocksize fs)) of
                  Inl e \<Rightarrow> Inl e
                | Inr _ \<Rightarrow> Inr (Some \<lparr>fi_magic = EXT2_ET_MAGIC_EXT2_FILE, fi_ino = ino, fi_inode = i,
                             fi_flags = flags AND EXT2_FILE_MASK, fi_pos = 0, fi_blockno = 0, fi_physblock = 0,
                             fi_buf = map (fresh h) [0..<unat (fs_blocksize fs)]\<rparr>))))"

definition ext2fs_file_open :: "u8 heap \<Rightarrow> filsys \<Rightarrow> u32 \<Rightarrow> u32 \<Rightarrow> ext2_file option result" where
  "ext2fs_file_open h fs ino flags = ext2fs_file_open2 h fs ino None flags"

definition ext2fs_file_get_inode :: "ext2_file \<Rightarrow> inode option" where
  "ext2fs_file_get_inode file = (if fi_magic file \<noteq> EXT2_ET_MAGIC_EXT2_FILE then None else Some (fi_inode file))"

type_synonym 'd file_state = "ext2_file \<times> filsys \<times> 'd io_channel"

text \<open>The mapping of the current block; the inode of the file is changed with it.\<close>

definition file_bmap :: "u8 heap \<Rightarrow> string \<Rightarrow> u32 \<Rightarrow> 'd file_state \<Rightarrow> unit result \<times> 'd file_state" where
  "file_bmap h dev flags s =
     (let (file, fs, io) = s;
          (r, i, fs, io) = ext2fs_bmap2 h dev fs io (fi_ino file) (Some (fi_inode file)) True flags (fi_blockno file) 0;
          file = file\<lparr>fi_inode := the i\<rparr>
      in (map_sum id (\<lambda>_. ()) r, (file\<lparr>fi_physblock := (case r of Inl _ \<Rightarrow> 0 | Inr (phys, _) \<Rightarrow> phys)\<rparr>, fs, io)))"

definition ext2fs_file_flush :: "u8 heap \<Rightarrow> string \<Rightarrow> 'd file_state \<Rightarrow> unit result \<times> 'd file_state" where
  "ext2fs_file_flush h dev s =
     (let (file, fs, io) = s in
      if fi_magic file \<noteq> EXT2_ET_MAGIC_EXT2_FILE then (Inl EXT2_ET_MAGIC_EXT2_FILE, s)
      else if \<not> fi_has file EXT2_FILE_BUF_VALID \<or> \<not> fi_has file EXT2_FILE_BUF_DIRTY then (Inr (), s)
      else case (if fi_physblock file = 0 then file_bmap h dev (if fi_ino file \<noteq> 0 then BMAP_ALLOC else 0) s else (Inr (), s)) of
        (Inl e, s) \<Rightarrow> (Inl e, s)
      | (Inr _, (file, fs, io)) \<Rightarrow>
          (case io_channel_write_blk io (ucast (fi_physblock file)) 1 (fi_buf file) of
             (Inl e, io) \<Rightarrow> (Inl e, (file, fs, io))
           | (Inr _, io) \<Rightarrow> (Inr (), (file\<lparr>fi_flags := fi_flags file AND NOT EXT2_FILE_BUF_DIRTY\<rparr>, fs, io))))"

text \<open>The number of the block has 32 bits here.\<close>

definition sync_buffer_position :: "u8 heap \<Rightarrow> string \<Rightarrow> 'd file_state \<Rightarrow> unit result \<times> 'd file_state" where
  "sync_buffer_position h dev s =
     (let (file, fs, io) = s; b = ucast (ucast (fi_pos file div ucast (fs_blocksize fs)) :: u32) :: u64 in
      if b \<noteq> fi_blockno file then
        (case ext2fs_file_flush h dev s of
           (Inl e, s) \<Rightarrow> (Inl e, s)
         | (Inr _, (file, fs, io)) \<Rightarrow>
             (Inr (), (file\<lparr>fi_flags := fi_flags file AND NOT EXT2_FILE_BUF_VALID, fi_blockno := b\<rparr>, fs, io)))
      else (Inr (), s))"

definition load_buffer :: "u8 heap \<Rightarrow> string \<Rightarrow> bool \<Rightarrow> 'd file_state \<Rightarrow> unit result \<times> 'd file_state" where
  "load_buffer h dev dontfill s =
     (let valid = (\<lambda>file. file\<lparr>fi_flags := fi_flags file OR EXT2_FILE_BUF_VALID\<rparr>) in
      if fi_has (fst s) EXT2_FILE_BUF_VALID then (Inr (), s)
      else case file_bmap h dev 0 s of
        (Inl e, s) \<Rightarrow> (Inl e, s)
      | (Inr _, (file, fs, io)) \<Rightarrow>
          if dontfill then (Inr (), (valid file, fs, io))
          else if fi_physblock file = 0 then
            (Inr (), (valid (file\<lparr>fi_buf := replicate (unat (fs_blocksize fs)) 0\<rparr>), fs, io))
          else
            (case io_channel_read_blk io (ucast (fi_physblock file)) 1 of
               (Inl e, io) \<Rightarrow> (Inl e, (file, fs, io))
             | (Inr buf, io) \<Rightarrow> (Inr (), (valid (file\<lparr>fi_buf := buf\<rparr>), fs, io))))"

definition ext2fs_file_close :: "u8 heap \<Rightarrow> string \<Rightarrow> 'd file_state \<Rightarrow> unit result \<times> 'd file_state" where
  "ext2fs_file_close h dev s = ext2fs_file_flush h dev s"

section \<open>Reading and writing\<close>

lemma less_left: "\<not> (c = 0 \<or> w < c) \<Longrightarrow> unat (w - c :: u32) < unat w"
proof -
  assume "\<not> (c = 0 \<or> w < c)"
  then have "0 < unat c" "unat c \<le> unat w" by (simp_all add: word_le_nat_alt not_less unat_gt_0)
  then show ?thesis by (simp add: unat_sub word_le_nat_alt)
qed

text \<open>
  The bytes up to the end of the block, of the request and of the file. A block size of 0 would make
  the loop spin. Even when the call fails, the bytes that were read before are there.
\<close>

function read_loop :: "u8 heap \<Rightarrow> string \<Rightarrow> u32 \<Rightarrow> u8 list \<Rightarrow> 'd file_state \<Rightarrow> unit result \<times> u8 list \<times> 'd file_state" where
  "read_loop h dev wanted out s =
     (if fi_pos (fst s) < EXT2_I_SIZE (fi_inode (fst s)) \<and> wanted > 0 then
        (case sync_buffer_position h dev s of
           (Inl e, s) \<Rightarrow> (Inl e, out, s)
         | (Inr _, s) \<Rightarrow>
             (case load_buffer h dev False s of
                (Inl e, s) \<Rightarrow> (Inl e, out, s)
              | (Inr _, (file, fs, io)) \<Rightarrow>
                  let start = ucast (fi_pos file mod ucast (fs_blocksize fs)) :: u32;
                      c = min (fs_blocksize fs - start) wanted;
                      left = EXT2_I_SIZE (fi_inode file) - fi_pos file;
                      c = (if ucast c > left then ucast left else c)
                  in
                  if c = 0 \<or> c > wanted then (Inl NO_RETURN, out, (file, fs, io))
                  else read_loop h dev (wanted - c) (out @ take (unat c) (drop (unat start) (fi_buf file)))
                         (file\<lparr>fi_pos := fi_pos file + ucast c\<rparr>, fs, io)))
      else (Inr (), out, s))"
  by pat_completeness auto
termination
  apply (relation "measure (\<lambda>(h, dev, wanted, out, s). unat wanted)")
   apply (rule wf_measure)
  apply (simp only: in_measure split_conv)
  apply (erule less_left)
  done

declare read_loop.simps [simp del]

definition ext2fs_file_read :: "u8 heap \<Rightarrow> string \<Rightarrow> u32 \<Rightarrow> 'd file_state \<Rightarrow> unit result \<times> u8 list \<times> 'd file_state" where
  "ext2fs_file_read h dev wanted s =
     (if fi_magic (fst s) \<noteq> EXT2_ET_MAGIC_EXT2_FILE then (Inl EXT2_ET_MAGIC_EXT2_FILE, [], s)
      else read_loop h dev wanted [] s)"

text \<open>The number of bytes written is returned with the error.\<close>

function write_loop :: "u8 heap \<Rightarrow> string \<Rightarrow> u8 list \<Rightarrow> nat \<Rightarrow> 'd file_state \<Rightarrow> unit result \<times> nat \<times> 'd file_state" where
  "write_loop h dev data count s =
     (if data \<noteq> [] then
        (case sync_buffer_position h dev s of
           (Inl e, s) \<Rightarrow> (Inl e, count, s)
         | (Inr _, s) \<Rightarrow>
             let (file, fs, io) = s;
                 start = unat (fi_pos file mod ucast (fs_blocksize fs));
                 c = min (unat (fs_blocksize fs) - start) (length data)
             in
             (case load_buffer h dev (c = unat (fs_blocksize fs)) s of
                (Inl e, s) \<Rightarrow> (Inl e, count, s)
              | (Inr _, (file, fs, io)) \<Rightarrow>
                  if c = 0 then (Inl NO_RETURN, count, (file, fs, io))
                  else write_loop h dev (drop c data) (count + c)
                         (file\<lparr>fi_flags := fi_flags file OR EXT2_FILE_BUF_DIRTY,
                               fi_buf := put_bytes (fi_buf file) start (take c data),
                               fi_pos := fi_pos file + of_nat c\<rparr>, fs, io)))
      else (Inr (), count, s))"
  by pat_completeness auto
termination
  by (relation "measure (\<lambda>(h, dev, data, count, s). length data)") auto

declare write_loop.simps [simp del]

definition set_file_size :: "u64 \<Rightarrow> inode \<Rightarrow> inode" where
  "set_file_size sz i = i\<lparr>i_size := ucast (sz AND 0xFFFFFFFF), i_size_high := ucast (drop_bit 32 sz)\<rparr>"

text \<open>A larger size is stored in the inode in memory only, and only when nothing failed.\<close>

definition ext2fs_file_write :: "u8 heap \<Rightarrow> string \<Rightarrow> u8 list \<Rightarrow> 'd file_state \<Rightarrow> unit result \<times> nat \<times> 'd file_state" where
  "ext2fs_file_write h dev data s =
     (if fi_magic (fst s) \<noteq> EXT2_ET_MAGIC_EXT2_FILE then (Inl EXT2_ET_MAGIC_EXT2_FILE, 0, s)
      else if \<not> fi_has (fst s) EXT2_FILE_WRITE then (Inl EXT2_ET_FILE_RO, 0, s)
      else case write_loop h dev data 0 s of
        (Inl e, count, s) \<Rightarrow> (Inl e, count, s)
      | (Inr _, count, (file, fs, io)) \<Rightarrow>
          (Inr (), count, (if EXT2_I_SIZE (fi_inode file) < fi_pos file
                           then file\<lparr>fi_inode := set_file_size (fi_pos file) (fi_inode file)\<rparr> else file, fs, io)))"

section \<open>Position and size\<close>

definition EXT2_SEEK_SET :: int where "EXT2_SEEK_SET = 0"
definition EXT2_SEEK_CUR :: int where "EXT2_SEEK_CUR = 1"
definition EXT2_SEEK_END :: int where "EXT2_SEEK_END = 2"

definition ext2fs_file_llseek :: "ext2_file \<Rightarrow> u64 \<Rightarrow> int \<Rightarrow> u64 result \<times> ext2_file" where
  "ext2fs_file_llseek file offset whence =
     (let pos = (if whence = EXT2_SEEK_SET then Some offset
                 else if whence = EXT2_SEEK_CUR then Some (fi_pos file + offset)
                 else if whence = EXT2_SEEK_END then Some (EXT2_I_SIZE (fi_inode file) + offset) else None)
      in
      if fi_magic file \<noteq> EXT2_ET_MAGIC_EXT2_FILE then (Inl EXT2_ET_MAGIC_EXT2_FILE, file)
      else case pos of None \<Rightarrow> (Inl EXT2_ET_INVALID_ARGUMENT, file) | Some p \<Rightarrow> (Inr p, file\<lparr>fi_pos := p\<rparr>))"

text \<open>The offset is unsigned and has 32 bits.\<close>

definition ext2fs_file_lseek :: "ext2_file \<Rightarrow> u32 \<Rightarrow> int \<Rightarrow> u32 result \<times> ext2_file" where
  "ext2fs_file_lseek file offset whence =
     (let (r, file) = ext2fs_file_llseek file (ucast offset) whence in (map_sum id ucast r, file))"

definition ext2fs_file_get_lsize :: "ext2_file \<Rightarrow> u64 result" where
  "ext2fs_file_get_lsize file =
     (if fi_magic file \<noteq> EXT2_ET_MAGIC_EXT2_FILE then Inl EXT2_ET_MAGIC_EXT2_FILE else Inr (EXT2_I_SIZE (fi_inode file)))"

definition ext2fs_file_get_size :: "ext2_file \<Rightarrow> u32" where
  "ext2fs_file_get_size file =
     (case ext2fs_file_get_lsize file of Inl _ \<Rightarrow> 0 | Inr sz \<Rightarrow> if drop_bit 32 sz \<noteq> 0 then 0 else ucast sz)"

text \<open>Blocks are freed when the file gets larger.\<close>

definition ext2fs_file_set_size2 :: "u8 heap \<Rightarrow> string \<Rightarrow> u64 \<Rightarrow> 'd file_state \<Rightarrow> unit result \<times> 'd file_state" where
  "ext2fs_file_set_size2 h dev sz s =
     (let (file, fs, io) = s;
          blocks = (\<lambda>n. drop_bit (EXT2_BLOCK_SIZE_BITS (fs_super fs)) (n + ucast (fs_blocksize fs) - 1) + 1);
          truncate_block = blocks sz; old_truncate = blocks (EXT2_I_SIZE (fi_inode file));
          file' = file\<lparr>fi_inode := set_file_size sz (fi_inode file)\<rparr>
      in
      if fi_magic file \<noteq> EXT2_ET_MAGIC_EXT2_FILE then (Inl EXT2_ET_MAGIC_EXT2_FILE, s)
      else case (if fi_ino file \<noteq> 0 then ext2fs_write_inode h fs io (fi_ino file) (fi_inode file') else (Inr (), fs, io)) of
        (Inl e, fs, io) \<Rightarrow> (Inl e, (file', fs, io))
      | (Inr _, fs, io) \<Rightarrow>
          if truncate_block \<le> old_truncate then (Inr (), (file', fs, io))
          else
            let (r, i, fs, io) = ext2fs_punch h dev fs io (fi_ino file) (Some (fi_inode file')) False truncate_block (- 1)
            in (r, (file'\<lparr>fi_inode := the i\<rparr>, fs, io)))"

definition ext2fs_file_set_size :: "u8 heap \<Rightarrow> string \<Rightarrow> u32 \<Rightarrow> 'd file_state \<Rightarrow> unit result \<times> 'd file_state" where
  "ext2fs_file_set_size h dev sz s = ext2fs_file_set_size2 h dev (ucast sz) s"

section \<open>Which blocks are freed\<close>

text \<open>The entries with their places, and those in use among the places from \<open>start\<close> to \<open>count\<close>.\<close>

definition punched :: "u32 \<Rightarrow> u32 \<Rightarrow> nat \<Rightarrow> bool" where
  "punched start count i \<longleftrightarrow> unat start \<le> i \<and> i \<le> unat count"

definition gone :: "u32 \<Rightarrow> u32 \<Rightarrow> nat \<Rightarrow> u32 list \<Rightarrow> u32 list" where
  "gone start count k bs = map snd (filter (\<lambda>(i, b). punched start count i \<and> b \<noteq> 0) (enumerate k bs))"

definition kept :: "u32 \<Rightarrow> u32 \<Rightarrow> nat \<Rightarrow> u32 list \<Rightarrow> u32 list" where
  "kept start count k bs = map (\<lambda>(i, b). if punched start count i then 0 else b) (enumerate k bs)"

definition free_all :: "u32 list \<Rightarrow> filsys \<Rightarrow> filsys" where
  "free_all bs fs = foldl (\<lambda>fs b. ext2fs_block_alloc_stats fs b (- 1)) fs bs"

lemma behind_range: "unat count < k \<Longrightarrow> gone start count k bs = [] \<and> kept start count k bs = bs"
  by (induction bs arbitrary: k) (auto simp: gone_def kept_def punched_def)

lemma gone_Cons: "gone start count k (b # bs) = (if punched start count k \<and> b \<noteq> 0 then [b] else []) @ gone start count (Suc k) bs"
  and kept_Cons: "kept start count k (b # bs) = (if punched start count k then 0 else b) # kept start count (Suc k) bs"
  and range_Nil: "gone start count k [] = []" "kept start count k [] = []"
  by (simp_all add: gone_def kept_def)

lemma punch_entries_range:
  assumes "k + length bs < 2 ^ 32"
  shows "punch_entries (\<lambda>b offset s. (Inr True, s)) 1 start count (of_nat k) bs freed (inode, fs, io) =
    (Inr (), kept start count k bs, freed + length (gone start count k bs), (inode, free_all (gone start count k bs) fs, io))"
  using assms
proof (induction bs arbitrary: k freed fs)
  case (Cons b bs)
  have nxt: "(of_nat k + 1 :: u32) = of_nat (Suc k)" by (simp add: add.commute)
  have "unat (of_nat k :: u32) = k" by (rule unat_of_nat_small) (use Cons.prems in simp)
  moreover have "unat (of_nat (Suc k) :: u32) = Suc k" by (rule unat_of_nat_small) (use Cons.prems in simp)
  ultimately have k: "unat (of_nat k :: u32) = k" "unat (of_nat k + 1 :: u32) = k + 1" unfolding nxt by simp_all
  show ?case
  proof (cases "unat count < k")
    case True
    then show ?thesis using behind_range [of count k start "b # bs"] k by (simp add: word_less_nat_alt free_all_def)
  next
    case False
    then have "\<not> of_nat k > count" using k by (simp add: word_less_nat_alt)
    moreover have "(of_nat k + 1 \<le> start) = (k < unat start)" using k by (simp add: word_le_nat_alt Suc_le_eq)
    ultimately show ?thesis
      using Cons.IH [of "Suc k"] Cons.prems False
      by (auto simp: nxt gone_Cons kept_Cons punched_def free_all_def simp del: of_nat_Suc)
  qed
qed (simp add: range_Nil free_all_def)



end
