(* ===== verification/Crc32c_Tables_Be.thy ===== *)
theory Crc32c_Tables_Be
  imports Crc32c_Tables_Le
begin

text \<open>The tables of \<open>source/crc32c_table.h\<close> for the CRC whose bits come highest first.\<close>

definition tobe :: "u32 \<Rightarrow> u32" where "tobe x = x"

definition t0_be :: "u32 list" where
  "t0_be = map tobe
    [0x00000000, 0x1EDC6F41, 0x3DB8DE82, 0x2364B1C3, 0x7B71BD04, 0x65ADD245, 0x46C96386, 0x58150CC7,
     0xF6E37A08, 0xE83F1549, 0xCB5BA48A, 0xD587CBCB, 0x8D92C70C, 0x934EA84D, 0xB02A198E, 0xAEF676CF,
     0xF31A9B51, 0xEDC6F410, 0xCEA245D3, 0xD07E2A92, 0x886B2655, 0x96B74914, 0xB5D3F8D7, 0xAB0F9796,
     0x05F9E159, 0x1B258E18, 0x38413FDB, 0x269D509A, 0x7E885C5D, 0x6054331C, 0x433082DF, 0x5DECED9E,
     0xF8E959E3, 0xE63536A2, 0xC5518761, 0xDB8DE820, 0x8398E4E7, 0x9D448BA6, 0xBE203A65, 0xA0FC5524,
     0x0E0A23EB, 0x10D64CAA, 0x33B2FD69, 0x2D6E9228, 0x757B9EEF, 0x6BA7F1AE, 0x48C3406D, 0x561F2F2C,
     0x0BF3C2B2, 0x152FADF3, 0x364B1C30, 0x28977371, 0x70827FB6, 0x6E5E10F7, 0x4D3AA134, 0x53E6CE75,
     0xFD10B8BA, 0xE3CCD7FB, 0xC0A86638, 0xDE740979, 0x866105BE, 0x98BD6AFF, 0xBBD9DB3C, 0xA505B47D,
     0xEF0EDC87, 0xF1D2B3C6, 0xD2B60205, 0xCC6A6D44, 0x947F6183, 0x8AA30EC2, 0xA9C7BF01, 0xB71BD040,
     0x19EDA68F, 0x0731C9CE, 0x2455780D, 0x3A89174C, 0x629C1B8B, 0x7C4074CA, 0x5F24C509, 0x41F8AA48,
     0x1C1447D6, 0x02C82897, 0x21AC9954, 0x3F70F615, 0x6765FAD2, 0x79B99593, 0x5ADD2450, 0x44014B11,
     0xEAF73DDE, 0xF42B529F, 0xD74FE35C, 0xC9938C1D, 0x918680DA, 0x8F5AEF9B, 0xAC3E5E58, 0xB2E23119,
     0x17E78564, 0x093BEA25, 0x2A5F5BE6, 0x348334A7, 0x6C963860, 0x724A5721, 0x512EE6E2, 0x4FF289A3,
     0xE104FF6C, 0xFFD8902D, 0xDCBC21EE, 0xC2604EAF, 0x9A754268, 0x84A92D29, 0xA7CD9CEA, 0xB911F3AB,
     0xE4FD1E35, 0xFA217174, 0xD945C0B7, 0xC799AFF6, 0x9F8CA331, 0x8150CC70, 0xA2347DB3, 0xBCE812F2,
     0x121E643D, 0x0CC20B7C, 0x2FA6BABF, 0x317AD5FE, 0x696FD939, 0x77B3B678, 0x54D707BB, 0x4A0B68FA,
     0xC0C1D64F, 0xDE1DB90E, 0xFD7908CD, 0xE3A5678C, 0xBBB06B4B, 0xA56C040A, 0x8608B5C9, 0x98D4DA88,
     0x3622AC47, 0x28FEC306, 0x0B9A72C5, 0x15461D84, 0x4D531143, 0x538F7E02, 0x70EBCFC1, 0x6E37A080,
     0x33DB4D1E, 0x2D07225F, 0x0E63939C, 0x10BFFCDD, 0x48AAF01A, 0x56769F5B, 0x75122E98, 0x6BCE41D9,
     0xC5383716, 0xDBE45857, 0xF880E994, 0xE65C86D5, 0xBE498A12, 0xA095E553, 0x83F15490, 0x9D2D3BD1,
     0x38288FAC, 0x26F4E0ED, 0x0590512E, 0x1B4C3E6F, 0x435932A8, 0x5D855DE9, 0x7EE1EC2A, 0x603D836B,
     0xCECBF5A4, 0xD0179AE5, 0xF3732B26, 0xEDAF4467, 0xB5BA48A0, 0xAB6627E1, 0x88029622, 0x96DEF963,
     0xCB3214FD, 0xD5EE7BBC, 0xF68ACA7F, 0xE856A53E, 0xB043A9F9, 0xAE9FC6B8, 0x8DFB777B, 0x9327183A,
     0x3DD16EF5, 0x230D01B4, 0x0069B077, 0x1EB5DF36, 0x46A0D3F1, 0x587CBCB0, 0x7B180D73, 0x65C46232,
     0x2FCF0AC8, 0x31136589, 0x1277D44A, 0x0CABBB0B, 0x54BEB7CC, 0x4A62D88D, 0x6906694E, 0x77DA060F,
     0xD92C70C0, 0xC7F01F81, 0xE494AE42, 0xFA48C103, 0xA25DCDC4, 0xBC81A285, 0x9FE51346, 0x81397C07,
     0xDCD59199, 0xC209FED8, 0xE16D4F1B, 0xFFB1205A, 0xA7A42C9D, 0xB97843DC, 0x9A1CF21F, 0x84C09D5E,
     0x2A36EB91, 0x34EA84D0, 0x178E3513, 0x09525A52, 0x51475695, 0x4F9B39D4, 0x6CFF8817, 0x7223E756,
     0xD726532B, 0xC9FA3C6A, 0xEA9E8DA9, 0xF442E2E8, 0xAC57EE2F, 0xB28B816E, 0x91EF30AD, 0x8F335FEC,
     0x21C52923, 0x3F194662, 0x1C7DF7A1, 0x02A198E0, 0x5AB49427, 0x4468FB66, 0x670C4AA5, 0x79D025E4,
     0x243CC87A, 0x3AE0A73B, 0x198416F8, 0x075879B9, 0x5F4D757E, 0x41911A3F, 0x62F5ABFC, 0x7C29C4BD,
     0xD2DFB272, 0xCC03DD33, 0xEF676CF0, 0xF1BB03B1, 0xA9AE0F76, 0xB7726037, 0x9416D1F4, 0x8ACABEB5]"

definition t1_be :: "u32 list" where
  "t1_be = map tobe
    [0x00000000, 0x9F5FC3DF, 0x2063E8FF, 0xBF3C2B20, 0x40C7D1FE, 0xDF981221, 0x60A43901, 0xFFFBFADE,
     0x818FA3FC, 0x1ED06023, 0xA1EC4B03, 0x3EB388DC, 0xC1487202, 0x5E17B1DD, 0xE12B9AFD, 0x7E745922,
     0x1DC328B9, 0x829CEB66, 0x3DA0C046, 0xA2FF0399, 0x5D04F947, 0xC25B3A98, 0x7D6711B8, 0xE238D267,
     0x9C4C8B45, 0x0313489A, 0xBC2F63BA, 0x2370A065, 0xDC8B5ABB, 0x43D49964, 0xFCE8B244, 0x63B7719B,
     0x3B865172, 0xA4D992AD, 0x1BE5B98D, 0x84BA7A52, 0x7B41808C, 0xE41E4353, 0x5B226873, 0xC47DABAC,
     0xBA09F28E, 0x25563151, 0x9A6A1A71, 0x0535D9AE, 0xFACE2370, 0x6591E0AF, 0xDAADCB8F, 0x45F20850,
     0x264579CB, 0xB91ABA14, 0x06269134, 0x997952EB, 0x6682A835, 0xF9DD6BEA, 0x46E140CA, 0xD9BE8315,
     0xA7CADA37, 0x389519E8, 0x87A932C8, 0x18F6F117, 0xE70D0BC9, 0x7852C816, 0xC76EE336, 0x583120E9,
     0x770CA2E4, 0xE853613B, 0x576F4A1B, 0xC83089C4, 0x37CB731A, 0xA894B0C5, 0x17A89BE5, 0x88F7583A,
     0xF6830118, 0x69DCC2C7, 0xD6E0E9E7, 0x49BF2A38, 0xB644D0E6, 0x291B1339, 0x96273819, 0x0978FBC6,
     0x6ACF8A5D, 0xF5904982, 0x4AAC62A2, 0xD5F3A17D, 0x2A085BA3, 0xB557987C, 0x0A6BB35C, 0x95347083,
     0xEB4029A1, 0x741FEA7E, 0xCB23C15E, 0x547C0281, 0xAB87F85F, 0x34D83B80, 0x8BE410A0, 0x14BBD37F,
     0x4C8AF396, 0xD3D53049, 0x6CE91B69, 0xF3B6D8B6, 0x0C4D2268, 0x9312E1B7, 0x2C2ECA97, 0xB3710948,
     0xCD05506A, 0x525A93B5, 0xED66B895, 0x72397B4A, 0x8DC28194, 0x129D424B, 0xADA1696B, 0x32FEAAB4,
     0x5149DB2F, 0xCE1618F0, 0x712A33D0, 0xEE75F00F, 0x118E0AD1, 0x8ED1C90E, 0x31EDE22E, 0xAEB221F1,
     0xD0C678D3, 0x4F99BB0C, 0xF0A5902C, 0x6FFA53F3, 0x9001A92D, 0x0F5E6AF2, 0xB06241D2, 0x2F3D820D,
     0xEE1945C8, 0x71468617, 0xCE7AAD37, 0x51256EE8, 0xAEDE9436, 0x318157E9, 0x8EBD7CC9, 0x11E2BF16,
     0x6F96E634, 0xF0C925EB, 0x4FF50ECB, 0xD0AACD14, 0x2F5137CA, 0xB00EF415, 0x0F32DF35, 0x906D1CEA,
     0xF3DA6D71, 0x6C85AEAE, 0xD3B9858E, 0x4CE64651, 0xB31DBC8F, 0x2C427F50, 0x937E5470, 0x0C2197AF,
     0x7255CE8D, 0xED0A0D52, 0x52362672, 0xCD69E5AD, 0x32921F73, 0xADCDDCAC, 0x12F1F78C, 0x8DAE3453,
     0xD59F14BA, 0x4AC0D765, 0xF5FCFC45, 0x6AA33F9A, 0x9558C544, 0x0A07069B, 0xB53B2DBB, 0x2A64EE64,
     0x5410B746, 0xCB4F7499, 0x74735FB9, 0xEB2C9C66, 0x14D766B8, 0x8B88A567, 0x34B48E47, 0xABEB4D98,
     0xC85C3C03, 0x5703FFDC, 0xE83FD4FC, 0x77601723, 0x889BEDFD, 0x17C42E22, 0xA8F80502, 0x37A7C6DD,
     0x49D39FFF, 0xD68C5C20, 0x69B07700, 0xF6EFB4DF, 0x09144E01, 0x964B8DDE, 0x2977A6FE, 0xB6286521,
     0x9915E72C, 0x064A24F3, 0xB9760FD3, 0x2629CC0C, 0xD9D236D2, 0x468DF50D, 0xF9B1DE2D, 0x66EE1DF2,
     0x189A44D0, 0x87C5870F, 0x38F9AC2F, 0xA7A66FF0, 0x585D952E, 0xC70256F1, 0x783E7DD1, 0xE761BE0E,
     0x84D6CF95, 0x1B890C4A, 0xA4B5276A, 0x3BEAE4B5, 0xC4111E6B, 0x5B4EDDB4, 0xE472F694, 0x7B2D354B,
     0x05596C69, 0x9A06AFB6, 0x253A8496, 0xBA654749, 0x459EBD97, 0xDAC17E48, 0x65FD5568, 0xFAA296B7,
     0xA293B65E, 0x3DCC7581, 0x82F05EA1, 0x1DAF9D7E, 0xE25467A0, 0x7D0BA47F, 0xC2378F5F, 0x5D684C80,
     0x231C15A2, 0xBC43D67D, 0x037FFD5D, 0x9C203E82, 0x63DBC45C, 0xFC840783, 0x43B82CA3, 0xDCE7EF7C,
     0xBF509EE7, 0x200F5D38, 0x9F337618, 0x006CB5C7, 0xFF974F19, 0x60C88CC6, 0xDFF4A7E6, 0x40AB6439,
     0x3EDF3D1B, 0xA180FEC4, 0x1EBCD5E4, 0x81E3163B, 0x7E18ECE5, 0xE1472F3A, 0x5E7B041A, 0xC124C7C5]"

definition t2_be :: "u32 list" where
  "t2_be = map tobe
    [0x00000000, 0xC2EEE4D1, 0x9B01A6E3, 0x59EF4232, 0x28DF2287, 0xEA31C656, 0xB3DE8464, 0x713060B5,
     0x51BE450E, 0x9350A1DF, 0xCABFE3ED, 0x0851073C, 0x79616789, 0xBB8F8358, 0xE260C16A, 0x208E25BB,
     0xA37C8A1C, 0x61926ECD, 0x387D2CFF, 0xFA93C82E, 0x8BA3A89B, 0x494D4C4A, 0x10A20E78, 0xD24CEAA9,
     0xF2C2CF12, 0x302C2BC3, 0x69C369F1, 0xAB2D8D20, 0xDA1DED95, 0x18F30944, 0x411C4B76, 0x83F2AFA7,
     0x58257B79, 0x9ACB9FA8, 0xC324DD9A, 0x01CA394B, 0x70FA59FE, 0xB214BD2F, 0xEBFBFF1D, 0x29151BCC,
     0x099B3E77, 0xCB75DAA6, 0x929A9894, 0x50747C45, 0x21441CF0, 0xE3AAF821, 0xBA45BA13, 0x78AB5EC2,
     0xFB59F165, 0x39B715B4, 0x60585786, 0xA2B6B357, 0xD386D3E2, 0x11683733, 0x48877501, 0x8A6991D0,
     0xAAE7B46B, 0x680950BA, 0x31E61288, 0xF308F659, 0x823896EC, 0x40D6723D, 0x1939300F, 0xDBD7D4DE,
     0xB04AF6F2, 0x72A41223, 0x2B4B5011, 0xE9A5B4C0, 0x9895D475, 0x5A7B30A4, 0x03947296, 0xC17A9647,
     0xE1F4B3FC, 0x231A572D, 0x7AF5151F, 0xB81BF1CE, 0xC92B917B, 0x0BC575AA, 0x522A3798, 0x90C4D349,
     0x13367CEE, 0xD1D8983F, 0x8837DA0D, 0x4AD93EDC, 0x3BE95E69, 0xF907BAB8, 0xA0E8F88A, 0x62061C5B,
     0x428839E0, 0x8066DD31, 0xD9899F03, 0x1B677BD2, 0x6A571B67, 0xA8B9FFB6, 0xF156BD84, 0x33B85955,
     0xE86F8D8B, 0x2A81695A, 0x736E2B68, 0xB180CFB9, 0xC0B0AF0C, 0x025E4BDD, 0x5BB109EF, 0x995FED3E,
     0xB9D1C885, 0x7B3F2C54, 0x22D06E66, 0xE03E8AB7, 0x910EEA02, 0x53E00ED3, 0x0A0F4CE1, 0xC8E1A830,
     0x4B130797, 0x89FDE346, 0xD012A174, 0x12FC45A5, 0x63CC2510, 0xA122C1C1, 0xF8CD83F3, 0x3A236722,
     0x1AAD4299, 0xD843A648, 0x81ACE47A, 0x434200AB, 0x3272601E, 0xF09C84CF, 0xA973C6FD, 0x6B9D222C,
     0x7E4982A5, 0xBCA76674, 0xE5482446, 0x27A6C097, 0x5696A022, 0x947844F3, 0xCD9706C1, 0x0F79E210,
     0x2FF7C7AB, 0xED19237A, 0xB4F66148, 0x76188599, 0x0728E52C, 0xC5C601FD, 0x9C2943CF, 0x5EC7A71E,
     0xDD3508B9, 0x1FDBEC68, 0x4634AE5A, 0x84DA4A8B, 0xF5EA2A3E, 0x3704CEEF, 0x6EEB8CDD, 0xAC05680C,
     0x8C8B4DB7, 0x4E65A966, 0x178AEB54, 0xD5640F85, 0xA4546F30, 0x66BA8BE1, 0x3F55C9D3, 0xFDBB2D02,
     0x266CF9DC, 0xE4821D0D, 0xBD6D5F3F, 0x7F83BBEE, 0x0EB3DB5B, 0xCC5D3F8A, 0x95B27DB8, 0x575C9969,
     0x77D2BCD2, 0xB53C5803, 0xECD31A31, 0x2E3DFEE0, 0x5F0D9E55, 0x9DE37A84, 0xC40C38B6, 0x06E2DC67,
     0x851073C0, 0x47FE9711, 0x1E11D523, 0xDCFF31F2, 0xADCF5147, 0x6F21B596, 0x36CEF7A4, 0xF4201375,
     0xD4AE36CE, 0x1640D21F, 0x4FAF902D, 0x8D4174FC, 0xFC711449, 0x3E9FF098, 0x6770B2AA, 0xA59E567B,
     0xCE037457, 0x0CED9086, 0x5502D2B4, 0x97EC3665, 0xE6DC56D0, 0x2432B201, 0x7DDDF033, 0xBF3314E2,
     0x9FBD3159, 0x5D53D588, 0x04BC97BA, 0xC652736B, 0xB76213DE, 0x758CF70F, 0x2C63B53D, 0xEE8D51EC,
     0x6D7FFE4B, 0xAF911A9A, 0xF67E58A8, 0x3490BC79, 0x45A0DCCC, 0x874E381D, 0xDEA17A2F, 0x1C4F9EFE,
     0x3CC1BB45, 0xFE2F5F94, 0xA7C01DA6, 0x652EF977, 0x141E99C2, 0xD6F07D13, 0x8F1F3F21, 0x4DF1DBF0,
     0x96260F2E, 0x54C8EBFF, 0x0D27A9CD, 0xCFC94D1C, 0xBEF92DA9, 0x7C17C978, 0x25F88B4A, 0xE7166F9B,
     0xC7984A20, 0x0576AEF1, 0x5C99ECC3, 0x9E770812, 0xEF4768A7, 0x2DA98C76, 0x7446CE44, 0xB6A82A95,
     0x355A8532, 0xF7B461E3, 0xAE5B23D1, 0x6CB5C700, 0x1D85A7B5, 0xDF6B4364, 0x86840156, 0x446AE587,
     0x64E4C03C, 0xA60A24ED, 0xFFE566DF, 0x3D0B820E, 0x4C3BE2BB, 0x8ED5066A, 0xD73A4458, 0x15D4A089]"

definition t3_be :: "u32 list" where
  "t3_be = map tobe
    [0x00000000, 0xFC93054A, 0xE7FA65D5, 0x1B69609F, 0xD128A4EB, 0x2DBBA1A1, 0x36D2C13E, 0xCA41C474,
     0xBC8D2697, 0x401E23DD, 0x5B774342, 0xA7E44608, 0x6DA5827C, 0x91368736, 0x8A5FE7A9, 0x76CCE2E3,
     0x67C6226F, 0x9B552725, 0x803C47BA, 0x7CAF42F0, 0xB6EE8684, 0x4A7D83CE, 0x5114E351, 0xAD87E61B,
     0xDB4B04F8, 0x27D801B2, 0x3CB1612D, 0xC0226467, 0x0A63A013, 0xF6F0A559, 0xED99C5C6, 0x110AC08C,
     0xCF8C44DE, 0x331F4194, 0x2876210B, 0xD4E52441, 0x1EA4E035, 0xE237E57F, 0xF95E85E0, 0x05CD80AA,
     0x73016249, 0x8F926703, 0x94FB079C, 0x686802D6, 0xA229C6A2, 0x5EBAC3E8, 0x45D3A377, 0xB940A63D,
     0xA84A66B1, 0x54D963FB, 0x4FB00364, 0xB323062E, 0x7962C25A, 0x85F1C710, 0x9E98A78F, 0x620BA2C5,
     0x14C74026, 0xE854456C, 0xF33D25F3, 0x0FAE20B9, 0xC5EFE4CD, 0x397CE187, 0x22158118, 0xDE868452,
     0x81C4E6FD, 0x7D57E3B7, 0x663E8328, 0x9AAD8662, 0x50EC4216, 0xAC7F475C, 0xB71627C3, 0x4B852289,
     0x3D49C06A, 0xC1DAC520, 0xDAB3A5BF, 0x2620A0F5, 0xEC616481, 0x10F261CB, 0x0B9B0154, 0xF708041E,
     0xE602C492, 0x1A91C1D8, 0x01F8A147, 0xFD6BA40D, 0x372A6079, 0xCBB96533, 0xD0D005AC, 0x2C4300E6,
     0x5A8FE205, 0xA61CE74F, 0xBD7587D0, 0x41E6829A, 0x8BA746EE, 0x773443A4, 0x6C5D233B, 0x90CE2671,
     0x4E48A223, 0xB2DBA769, 0xA9B2C7F6, 0x5521C2BC, 0x9F6006C8, 0x63F30382, 0x789A631D, 0x84096657,
     0xF2C584B4, 0x0E5681FE, 0x153FE161, 0xE9ACE42B, 0x23ED205F, 0xDF7E2515, 0xC417458A, 0x388440C0,
     0x298E804C, 0xD51D8506, 0xCE74E599, 0x32E7E0D3, 0xF8A624A7, 0x043521ED, 0x1F5C4172, 0xE3CF4438,
     0x9503A6DB, 0x6990A391, 0x72F9C30E, 0x8E6AC644, 0x442B0230, 0xB8B8077A, 0xA3D167E5, 0x5F4262AF,
     0x1D55A2BB, 0xE1C6A7F1, 0xFAAFC76E, 0x063CC224, 0xCC7D0650, 0x30EE031A, 0x2B876385, 0xD71466CF,
     0xA1D8842C, 0x5D4B8166, 0x4622E1F9, 0xBAB1E4B3, 0x70F020C7, 0x8C63258D, 0x970A4512, 0x6B994058,
     0x7A9380D4, 0x8600859E, 0x9D69E501, 0x61FAE04B, 0xABBB243F, 0x57282175, 0x4C4141EA, 0xB0D244A0,
     0xC61EA643, 0x3A8DA309, 0x21E4C396, 0xDD77C6DC, 0x173602A8, 0xEBA507E2, 0xF0CC677D, 0x0C5F6237,
     0xD2D9E665, 0x2E4AE32F, 0x352383B0, 0xC9B086FA, 0x03F1428E, 0xFF6247C4, 0xE40B275B, 0x18982211,
     0x6E54C0F2, 0x92C7C5B8, 0x89AEA527, 0x753DA06D, 0xBF7C6419, 0x43EF6153, 0x588601CC, 0xA4150486,
     0xB51FC40A, 0x498CC140, 0x52E5A1DF, 0xAE76A495, 0x643760E1, 0x98A465AB, 0x83CD0534, 0x7F5E007E,
     0x0992E29D, 0xF501E7D7, 0xEE688748, 0x12FB8202, 0xD8BA4676, 0x2429433C, 0x3F4023A3, 0xC3D326E9,
     0x9C914446, 0x6002410C, 0x7B6B2193, 0x87F824D9, 0x4DB9E0AD, 0xB12AE5E7, 0xAA438578, 0x56D08032,
     0x201C62D1, 0xDC8F679B, 0xC7E60704, 0x3B75024E, 0xF134C63A, 0x0DA7C370, 0x16CEA3EF, 0xEA5DA6A5,
     0xFB576629, 0x07C46363, 0x1CAD03FC, 0xE03E06B6, 0x2A7FC2C2, 0xD6ECC788, 0xCD85A717, 0x3116A25D,
     0x47DA40BE, 0xBB4945F4, 0xA020256B, 0x5CB32021, 0x96F2E455, 0x6A61E11F, 0x71088180, 0x8D9B84CA,
     0x531D0098, 0xAF8E05D2, 0xB4E7654D, 0x48746007, 0x8235A473, 0x7EA6A139, 0x65CFC1A6, 0x995CC4EC,
     0xEF90260F, 0x13032345, 0x086A43DA, 0xF4F94690, 0x3EB882E4, 0xC22B87AE, 0xD942E731, 0x25D1E27B,
     0x34DB22F7, 0xC84827BD, 0xD3214722, 0x2FB24268, 0xE5F3861C, 0x19608356, 0x0209E3C9, 0xFE9AE683,
     0x88560460, 0x74C5012A, 0x6FAC61B5, 0x933F64FF, 0x597EA08B, 0xA5EDA5C1, 0xBE84C55E, 0x4217C014]"

definition t4_be :: "u32 list" where
  "t4_be = map tobe
    [0x00000000, 0x3AAB4576, 0x75568AEC, 0x4FFDCF9A, 0xEAAD15D8, 0xD00650AE, 0x9FFB9F34, 0xA550DA42,
     0xCB8644F1, 0xF12D0187, 0xBED0CE1D, 0x847B8B6B, 0x212B5129, 0x1B80145F, 0x547DDBC5, 0x6ED69EB3,
     0x89D0E6A3, 0xB37BA3D5, 0xFC866C4F, 0xC62D2939, 0x637DF37B, 0x59D6B60D, 0x162B7997, 0x2C803CE1,
     0x4256A252, 0x78FDE724, 0x370028BE, 0x0DAB6DC8, 0xA8FBB78A, 0x9250F2FC, 0xDDAD3D66, 0xE7067810,
     0x0D7DA207, 0x37D6E771, 0x782B28EB, 0x42806D9D, 0xE7D0B7DF, 0xDD7BF2A9, 0x92863D33, 0xA82D7845,
     0xC6FBE6F6, 0xFC50A380, 0xB3AD6C1A, 0x8906296C, 0x2C56F32E, 0x16FDB658, 0x590079C2, 0x63AB3CB4,
     0x84AD44A4, 0xBE0601D2, 0xF1FBCE48, 0xCB508B3E, 0x6E00517C, 0x54AB140A, 0x1B56DB90, 0x21FD9EE6,
     0x4F2B0055, 0x75804523, 0x3A7D8AB9, 0x00D6CFCF, 0xA586158D, 0x9F2D50FB, 0xD0D09F61, 0xEA7BDA17,
     0x1AFB440E, 0x20500178, 0x6FADCEE2, 0x55068B94, 0xF05651D6, 0xCAFD14A0, 0x8500DB3A, 0xBFAB9E4C,
     0xD17D00FF, 0xEBD64589, 0xA42B8A13, 0x9E80CF65, 0x3BD01527, 0x017B5051, 0x4E869FCB, 0x742DDABD,
     0x932BA2AD, 0xA980E7DB, 0xE67D2841, 0xDCD66D37, 0x7986B775, 0x432DF203, 0x0CD03D99, 0x367B78EF,
     0x58ADE65C, 0x6206A32A, 0x2DFB6CB0, 0x175029C6, 0xB200F384, 0x88ABB6F2, 0xC7567968, 0xFDFD3C1E,
     0x1786E609, 0x2D2DA37F, 0x62D06CE5, 0x587B2993, 0xFD2BF3D1, 0xC780B6A7, 0x887D793D, 0xB2D63C4B,
     0xDC00A2F8, 0xE6ABE78E, 0xA9562814, 0x93FD6D62, 0x36ADB720, 0x0C06F256, 0x43FB3DCC, 0x795078BA,
     0x9E5600AA, 0xA4FD45DC, 0xEB008A46, 0xD1ABCF30, 0x74FB1572, 0x4E505004, 0x01AD9F9E, 0x3B06DAE8,
     0x55D0445B, 0x6F7B012D, 0x2086CEB7, 0x1A2D8BC1, 0xBF7D5183, 0x85D614F5, 0xCA2BDB6F, 0xF0809E19,
     0x35F6881C, 0x0F5DCD6A, 0x40A002F0, 0x7A0B4786, 0xDF5B9DC4, 0xE5F0D8B2, 0xAA0D1728, 0x90A6525E,
     0xFE70CCED, 0xC4DB899B, 0x8B264601, 0xB18D0377, 0x14DDD935, 0x2E769C43, 0x618B53D9, 0x5B2016AF,
     0xBC266EBF, 0x868D2BC9, 0xC970E453, 0xF3DBA125, 0x568B7B67, 0x6C203E11, 0x23DDF18B, 0x1976B4FD,
     0x77A02A4E, 0x4D0B6F38, 0x02F6A0A2, 0x385DE5D4, 0x9D0D3F96, 0xA7A67AE0, 0xE85BB57A, 0xD2F0F00C,
     0x388B2A1B, 0x02206F6D, 0x4DDDA0F7, 0x7776E581, 0xD2263FC3, 0xE88D7AB5, 0xA770B52F, 0x9DDBF059,
     0xF30D6EEA, 0xC9A62B9C, 0x865BE406, 0xBCF0A170, 0x19A07B32, 0x230B3E44, 0x6CF6F1DE, 0x565DB4A8,
     0xB15BCCB8, 0x8BF089CE, 0xC40D4654, 0xFEA60322, 0x5BF6D960, 0x615D9C16, 0x2EA0538C, 0x140B16FA,
     0x7ADD8849, 0x4076CD3F, 0x0F8B02A5, 0x352047D3, 0x90709D91, 0xAADBD8E7, 0xE526177D, 0xDF8D520B,
     0x2F0DCC12, 0x15A68964, 0x5A5B46FE, 0x60F00388, 0xC5A0D9CA, 0xFF0B9CBC, 0xB0F65326, 0x8A5D1650,
     0xE48B88E3, 0xDE20CD95, 0x91DD020F, 0xAB764779, 0x0E269D3B, 0x348DD84D, 0x7B7017D7, 0x41DB52A1,
     0xA6DD2AB1, 0x9C766FC7, 0xD38BA05D, 0xE920E52B, 0x4C703F69, 0x76DB7A1F, 0x3926B585, 0x038DF0F3,
     0x6D5B6E40, 0x57F02B36, 0x180DE4AC, 0x22A6A1DA, 0x87F67B98, 0xBD5D3EEE, 0xF2A0F174, 0xC80BB402,
     0x22706E15, 0x18DB2B63, 0x5726E4F9, 0x6D8DA18F, 0xC8DD7BCD, 0xF2763EBB, 0xBD8BF121, 0x8720B457,
     0xE9F62AE4, 0xD35D6F92, 0x9CA0A008, 0xA60BE57E, 0x035B3F3C, 0x39F07A4A, 0x760DB5D0, 0x4CA6F0A6,
     0xABA088B6, 0x910BCDC0, 0xDEF6025A, 0xE45D472C, 0x410D9D6E, 0x7BA6D818, 0x345B1782, 0x0EF052F4,
     0x6026CC47, 0x5A8D8931, 0x157046AB, 0x2FDB03DD, 0x8A8BD99F, 0xB0209CE9, 0xFFDD5373, 0xC5761605]"

definition t5_be :: "u32 list" where
  "t5_be = map tobe
    [0x00000000, 0x6BED1038, 0xD7DA2070, 0xBC373048, 0xB1682FA1, 0xDA853F99, 0x66B20FD1, 0x0D5F1FE9,
     0x7C0C3003, 0x17E1203B, 0xABD61073, 0xC03B004B, 0xCD641FA2, 0xA6890F9A, 0x1ABE3FD2, 0x71532FEA,
     0xF8186006, 0x93F5703E, 0x2FC24076, 0x442F504E, 0x49704FA7, 0x229D5F9F, 0x9EAA6FD7, 0xF5477FEF,
     0x84145005, 0xEFF9403D, 0x53CE7075, 0x3823604D, 0x357C7FA4, 0x5E916F9C, 0xE2A65FD4, 0x894B4FEC,
     0xEEECAF4D, 0x8501BF75, 0x39368F3D, 0x52DB9F05, 0x5F8480EC, 0x346990D4, 0x885EA09C, 0xE3B3B0A4,
     0x92E09F4E, 0xF90D8F76, 0x453ABF3E, 0x2ED7AF06, 0x2388B0EF, 0x4865A0D7, 0xF452909F, 0x9FBF80A7,
     0x16F4CF4B, 0x7D19DF73, 0xC12EEF3B, 0xAAC3FF03, 0xA79CE0EA, 0xCC71F0D2, 0x7046C09A, 0x1BABD0A2,
     0x6AF8FF48, 0x0115EF70, 0xBD22DF38, 0xD6CFCF00, 0xDB90D0E9, 0xB07DC0D1, 0x0C4AF099, 0x67A7E0A1,
     0xC30531DB, 0xA8E821E3, 0x14DF11AB, 0x7F320193, 0x726D1E7A, 0x19800E42, 0xA5B73E0A, 0xCE5A2E32,
     0xBF0901D8, 0xD4E411E0, 0x68D321A8, 0x033E3190, 0x0E612E79, 0x658C3E41, 0xD9BB0E09, 0xB2561E31,
     0x3B1D51DD, 0x50F041E5, 0xECC771AD, 0x872A6195, 0x8A757E7C, 0xE1986E44, 0x5DAF5E0C, 0x36424E34,
     0x471161DE, 0x2CFC71E6, 0x90CB41AE, 0xFB265196, 0xF6794E7F, 0x9D945E47, 0x21A36E0F, 0x4A4E7E37,
     0x2DE99E96, 0x46048EAE, 0xFA33BEE6, 0x91DEAEDE, 0x9C81B137, 0xF76CA10F, 0x4B5B9147, 0x20B6817F,
     0x51E5AE95, 0x3A08BEAD, 0x863F8EE5, 0xEDD29EDD, 0xE08D8134, 0x8B60910C, 0x3757A144, 0x5CBAB17C,
     0xD5F1FE90, 0xBE1CEEA8, 0x022BDEE0, 0x69C6CED8, 0x6499D131, 0x0F74C109, 0xB343F141, 0xD8AEE179,
     0xA9FDCE93, 0xC210DEAB, 0x7E27EEE3, 0x15CAFEDB, 0x1895E132, 0x7378F10A, 0xCF4FC142, 0xA4A2D17A,
     0x98D60CF7, 0xF33B1CCF, 0x4F0C2C87, 0x24E13CBF, 0x29BE2356, 0x4253336E, 0xFE640326, 0x9589131E,
     0xE4DA3CF4, 0x8F372CCC, 0x33001C84, 0x58ED0CBC, 0x55B21355, 0x3E5F036D, 0x82683325, 0xE985231D,
     0x60CE6CF1, 0x0B237CC9, 0xB7144C81, 0xDCF95CB9, 0xD1A64350, 0xBA4B5368, 0x067C6320, 0x6D917318,
     0x1CC25CF2, 0x772F4CCA, 0xCB187C82, 0xA0F56CBA, 0xADAA7353, 0xC647636B, 0x7A705323, 0x119D431B,
     0x763AA3BA, 0x1DD7B382, 0xA1E083CA, 0xCA0D93F2, 0xC7528C1B, 0xACBF9C23, 0x1088AC6B, 0x7B65BC53,
     0x0A3693B9, 0x61DB8381, 0xDDECB3C9, 0xB601A3F1, 0xBB5EBC18, 0xD0B3AC20, 0x6C849C68, 0x07698C50,
     0x8E22C3BC, 0xE5CFD384, 0x59F8E3CC, 0x3215F3F4, 0x3F4AEC1D, 0x54A7FC25, 0xE890CC6D, 0x837DDC55,
     0xF22EF3BF, 0x99C3E387, 0x25F4D3CF, 0x4E19C3F7, 0x4346DC1E, 0x28ABCC26, 0x949CFC6E, 0xFF71EC56,
     0x5BD33D2C, 0x303E2D14, 0x8C091D5C, 0xE7E40D64, 0xEABB128D, 0x815602B5, 0x3D6132FD, 0x568C22C5,
     0x27DF0D2F, 0x4C321D17, 0xF0052D5F, 0x9BE83D67, 0x96B7228E, 0xFD5A32B6, 0x416D02FE, 0x2A8012C6,
     0xA3CB5D2A, 0xC8264D12, 0x74117D5A, 0x1FFC6D62, 0x12A3728B, 0x794E62B3, 0xC57952FB, 0xAE9442C3,
     0xDFC76D29, 0xB42A7D11, 0x081D4D59, 0x63F05D61, 0x6EAF4288, 0x054252B0, 0xB97562F8, 0xD29872C0,
     0xB53F9261, 0xDED28259, 0x62E5B211, 0x0908A229, 0x0457BDC0, 0x6FBAADF8, 0xD38D9DB0, 0xB8608D88,
     0xC933A262, 0xA2DEB25A, 0x1EE98212, 0x7504922A, 0x785B8DC3, 0x13B69DFB, 0xAF81ADB3, 0xC46CBD8B,
     0x4D27F267, 0x26CAE25F, 0x9AFDD217, 0xF110C22F, 0xFC4FDDC6, 0x97A2CDFE, 0x2B95FDB6, 0x4078ED8E,
     0x312BC264, 0x5AC6D25C, 0xE6F1E214, 0x8D1CF22C, 0x8043EDC5, 0xEBAEFDFD, 0x5799CDB5, 0x3C74DD8D]"

definition t6_be :: "u32 list" where
  "t6_be = map tobe
    [0x00000000, 0x2F7076AF, 0x5EE0ED5E, 0x71909BF1, 0xBDC1DABC, 0x92B1AC13, 0xE32137E2, 0xCC51414D,
     0x655FDA39, 0x4A2FAC96, 0x3BBF3767, 0x14CF41C8, 0xD89E0085, 0xF7EE762A, 0x867EEDDB, 0xA90E9B74,
     0xCABFB472, 0xE5CFC2DD, 0x945F592C, 0xBB2F2F83, 0x777E6ECE, 0x580E1861, 0x299E8390, 0x06EEF53F,
     0xAFE06E4B, 0x809018E4, 0xF1008315, 0xDE70F5BA, 0x1221B4F7, 0x3D51C258, 0x4CC159A9, 0x63B12F06,
     0x8BA307A5, 0xA4D3710A, 0xD543EAFB, 0xFA339C54, 0x3662DD19, 0x1912ABB6, 0x68823047, 0x47F246E8,
     0xEEFCDD9C, 0xC18CAB33, 0xB01C30C2, 0x9F6C466D, 0x533D0720, 0x7C4D718F, 0x0DDDEA7E, 0x22AD9CD1,
     0x411CB3D7, 0x6E6CC578, 0x1FFC5E89, 0x308C2826, 0xFCDD696B, 0xD3AD1FC4, 0xA23D8435, 0x8D4DF29A,
     0x244369EE, 0x0B331F41, 0x7AA384B0, 0x55D3F21F, 0x9982B352, 0xB6F2C5FD, 0xC7625E0C, 0xE81228A3,
     0x099A600B, 0x26EA16A4, 0x577A8D55, 0x780AFBFA, 0xB45BBAB7, 0x9B2BCC18, 0xEABB57E9, 0xC5CB2146,
     0x6CC5BA32, 0x43B5CC9D, 0x3225576C, 0x1D5521C3, 0xD104608E, 0xFE741621, 0x8FE48DD0, 0xA094FB7F,
     0xC325D479, 0xEC55A2D6, 0x9DC53927, 0xB2B54F88, 0x7EE40EC5, 0x5194786A, 0x2004E39B, 0x0F749534,
     0xA67A0E40, 0x890A78EF, 0xF89AE31E, 0xD7EA95B1, 0x1BBBD4FC, 0x34CBA253, 0x455B39A2, 0x6A2B4F0D,
     0x823967AE, 0xAD491101, 0xDCD98AF0, 0xF3A9FC5F, 0x3FF8BD12, 0x1088CBBD, 0x6118504C, 0x4E6826E3,
     0xE766BD97, 0xC816CB38, 0xB98650C9, 0x96F62666, 0x5AA7672B, 0x75D71184, 0x04478A75, 0x2B37FCDA,
     0x4886D3DC, 0x67F6A573, 0x16663E82, 0x3916482D, 0xF5470960, 0xDA377FCF, 0xABA7E43E, 0x84D79291,
     0x2DD909E5, 0x02A97F4A, 0x7339E4BB, 0x5C499214, 0x9018D359, 0xBF68A5F6, 0xCEF83E07, 0xE18848A8,
     0x1334C016, 0x3C44B6B9, 0x4DD42D48, 0x62A45BE7, 0xAEF51AAA, 0x81856C05, 0xF015F7F4, 0xDF65815B,
     0x766B1A2F, 0x591B6C80, 0x288BF771, 0x07FB81DE, 0xCBAAC093, 0xE4DAB63C, 0x954A2DCD, 0xBA3A5B62,
     0xD98B7464, 0xF6FB02CB, 0x876B993A, 0xA81BEF95, 0x644AAED8, 0x4B3AD877, 0x3AAA4386, 0x15DA3529,
     0xBCD4AE5D, 0x93A4D8F2, 0xE2344303, 0xCD4435AC, 0x011574E1, 0x2E65024E, 0x5FF599BF, 0x7085EF10,
     0x9897C7B3, 0xB7E7B11C, 0xC6772AED, 0xE9075C42, 0x25561D0F, 0x0A266BA0, 0x7BB6F051, 0x54C686FE,
     0xFDC81D8A, 0xD2B86B25, 0xA328F0D4, 0x8C58867B, 0x4009C736, 0x6F79B199, 0x1EE92A68, 0x31995CC7,
     0x522873C1, 0x7D58056E, 0x0CC89E9F, 0x23B8E830, 0xEFE9A97D, 0xC099DFD2, 0xB1094423, 0x9E79328C,
     0x3777A9F8, 0x1807DF57, 0x699744A6, 0x46E73209, 0x8AB67344, 0xA5C605EB, 0xD4569E1A, 0xFB26E8B5,
     0x1AAEA01D, 0x35DED6B2, 0x444E4D43, 0x6B3E3BEC, 0xA76F7AA1, 0x881F0C0E, 0xF98F97FF, 0xD6FFE150,
     0x7FF17A24, 0x50810C8B, 0x2111977A, 0x0E61E1D5, 0xC230A098, 0xED40D637, 0x9CD04DC6, 0xB3A03B69,
     0xD011146F, 0xFF6162C0, 0x8EF1F931, 0xA1818F9E, 0x6DD0CED3, 0x42A0B87C, 0x3330238D, 0x1C405522,
     0xB54ECE56, 0x9A3EB8F9, 0xEBAE2308, 0xC4DE55A7, 0x088F14EA, 0x27FF6245, 0x566FF9B4, 0x791F8F1B,
     0x910DA7B8, 0xBE7DD117, 0xCFED4AE6, 0xE09D3C49, 0x2CCC7D04, 0x03BC0BAB, 0x722C905A, 0x5D5CE6F5,
     0xF4527D81, 0xDB220B2E, 0xAAB290DF, 0x85C2E670, 0x4993A73D, 0x66E3D192, 0x17734A63, 0x38033CCC,
     0x5BB213CA, 0x74C26565, 0x0552FE94, 0x2A22883B, 0xE673C976, 0xC903BFD9, 0xB8932428, 0x97E35287,
     0x3EEDC9F3, 0x119DBF5C, 0x600D24AD, 0x4F7D5202, 0x832C134F, 0xAC5C65E0, 0xDDCCFE11, 0xF2BC88BE]"

definition t7_be :: "u32 list" where
  "t7_be = map tobe
    [0x00000000, 0x2669802C, 0x4CD30058, 0x6ABA8074, 0x99A600B0, 0xBFCF809C, 0xD57500E8, 0xF31C80C4,
     0x2D906E21, 0x0BF9EE0D, 0x61436E79, 0x472AEE55, 0xB4366E91, 0x925FEEBD, 0xF8E56EC9, 0xDE8CEEE5,
     0x5B20DC42, 0x7D495C6E, 0x17F3DC1A, 0x319A5C36, 0xC286DCF2, 0xE4EF5CDE, 0x8E55DCAA, 0xA83C5C86,
     0x76B0B263, 0x50D9324F, 0x3A63B23B, 0x1C0A3217, 0xEF16B2D3, 0xC97F32FF, 0xA3C5B28B, 0x85AC32A7,
     0xB641B884, 0x902838A8, 0xFA92B8DC, 0xDCFB38F0, 0x2FE7B834, 0x098E3818, 0x6334B86C, 0x455D3840,
     0x9BD1D6A5, 0xBDB85689, 0xD702D6FD, 0xF16B56D1, 0x0277D615, 0x241E5639, 0x4EA4D64D, 0x68CD5661,
     0xED6164C6, 0xCB08E4EA, 0xA1B2649E, 0x87DBE4B2, 0x74C76476, 0x52AEE45A, 0x3814642E, 0x1E7DE402,
     0xC0F10AE7, 0xE6988ACB, 0x8C220ABF, 0xAA4B8A93, 0x59570A57, 0x7F3E8A7B, 0x15840A0F, 0x33ED8A23,
     0x725F1E49, 0x54369E65, 0x3E8C1E11, 0x18E59E3D, 0xEBF91EF9, 0xCD909ED5, 0xA72A1EA1, 0x81439E8D,
     0x5FCF7068, 0x79A6F044, 0x131C7030, 0x3575F01C, 0xC66970D8, 0xE000F0F4, 0x8ABA7080, 0xACD3F0AC,
     0x297FC20B, 0x0F164227, 0x65ACC253, 0x43C5427F, 0xB0D9C2BB, 0x96B04297, 0xFC0AC2E3, 0xDA6342CF,
     0x04EFAC2A, 0x22862C06, 0x483CAC72, 0x6E552C5E, 0x9D49AC9A, 0xBB202CB6, 0xD19AACC2, 0xF7F32CEE,
     0xC41EA6CD, 0xE27726E1, 0x88CDA695, 0xAEA426B9, 0x5DB8A67D, 0x7BD12651, 0x116BA625, 0x37022609,
     0xE98EC8EC, 0xCFE748C0, 0xA55DC8B4, 0x83344898, 0x7028C85C, 0x56414870, 0x3CFBC804, 0x1A924828,
     0x9F3E7A8F, 0xB957FAA3, 0xD3ED7AD7, 0xF584FAFB, 0x06987A3F, 0x20F1FA13, 0x4A4B7A67, 0x6C22FA4B,
     0xB2AE14AE, 0x94C79482, 0xFE7D14F6, 0xD81494DA, 0x2B08141E, 0x0D619432, 0x67DB1446, 0x41B2946A,
     0xE4BE3C92, 0xC2D7BCBE, 0xA86D3CCA, 0x8E04BCE6, 0x7D183C22, 0x5B71BC0E, 0x31CB3C7A, 0x17A2BC56,
     0xC92E52B3, 0xEF47D29F, 0x85FD52EB, 0xA394D2C7, 0x50885203, 0x76E1D22F, 0x1C5B525B, 0x3A32D277,
     0xBF9EE0D0, 0x99F760FC, 0xF34DE088, 0xD52460A4, 0x2638E060, 0x0051604C, 0x6AEBE038, 0x4C826014,
     0x920E8EF1, 0xB4670EDD, 0xDEDD8EA9, 0xF8B40E85, 0x0BA88E41, 0x2DC10E6D, 0x477B8E19, 0x61120E35,
     0x52FF8416, 0x7496043A, 0x1E2C844E, 0x38450462, 0xCB5984A6, 0xED30048A, 0x878A84FE, 0xA1E304D2,
     0x7F6FEA37, 0x59066A1B, 0x33BCEA6F, 0x15D56A43, 0xE6C9EA87, 0xC0A06AAB, 0xAA1AEADF, 0x8C736AF3,
     0x09DF5854, 0x2FB6D878, 0x450C580C, 0x6365D820, 0x907958E4, 0xB610D8C8, 0xDCAA58BC, 0xFAC3D890,
     0x244F3675, 0x0226B659, 0x689C362D, 0x4EF5B601, 0xBDE936C5, 0x9B80B6E9, 0xF13A369D, 0xD753B6B1,
     0x96E122DB, 0xB088A2F7, 0xDA322283, 0xFC5BA2AF, 0x0F47226B, 0x292EA247, 0x43942233, 0x65FDA21F,
     0xBB714CFA, 0x9D18CCD6, 0xF7A24CA2, 0xD1CBCC8E, 0x22D74C4A, 0x04BECC66, 0x6E044C12, 0x486DCC3E,
     0xCDC1FE99, 0xEBA87EB5, 0x8112FEC1, 0xA77B7EED, 0x5467FE29, 0x720E7E05, 0x18B4FE71, 0x3EDD7E5D,
     0xE05190B8, 0xC6381094, 0xAC8290E0, 0x8AEB10CC, 0x79F79008, 0x5F9E1024, 0x35249050, 0x134D107C,
     0x20A09A5F, 0x06C91A73, 0x6C739A07, 0x4A1A1A2B, 0xB9069AEF, 0x9F6F1AC3, 0xF5D59AB7, 0xD3BC1A9B,
     0x0D30F47E, 0x2B597452, 0x41E3F426, 0x678A740A, 0x9496F4CE, 0xB2FF74E2, 0xD845F496, 0xFE2C74BA,
     0x7B80461D, 0x5DE9C631, 0x37534645, 0x113AC669, 0xE22646AD, 0xC44FC681, 0xAEF546F5, 0x889CC6D9,
     0x5610283C, 0x7079A810, 0x1AC32864, 0x3CAAA848, 0xCFB6288C, 0xE9DFA8A0, 0x836528D4, 0xA50CA8F8]"

text \<open>Each table doubles from eight values; those of a table are the next eight bits of the table before.\<close>

definition CRCPOLY_BE :: u32 where "CRCPOLY_BE = 0x1EDC6F41"

text \<open>One bit of the register, as the variant of the code for \<open>CRC_BE_BITS = 1\<close> computes it.\<close>

definition crc32_shift_be :: "u32 \<Rightarrow> u32" where
  "crc32_shift_be crc = push_bit 1 crc XOR (if crc AND 0x80000000 \<noteq> 0 then CRCPOLY_BE else 0)"

lemma crc32_shift_be_bit: "crc32_shift_be c = (if bit c 31 then push_bit 1 c XOR 0x1EDC6F41 else push_bit 1 c)"
proof -
  have "c AND 0x80000000 \<noteq> 0 \<longleftrightarrow> bit c 31"
    using bit_iff_and_push_bit_not_eq_0 [of c 31] by simp
  then show ?thesis by (simp add: crc32_shift_be_def CRCPOLY_BE_def)
qed

lemma crc32_shift_be_xor: "crc32_shift_be (x XOR y) = crc32_shift_be x XOR crc32_shift_be y"
  unfolding crc32_shift_be_bit by (rule bit_word_eqI) (auto simp: bit_simps)

lemma crc32_shift_be_pow_xor: "(crc32_shift_be ^^ k) (x XOR y) = (crc32_shift_be ^^ k) x XOR (crc32_shift_be ^^ k) y"
  by (induction k) (simp_all add: crc32_shift_be_xor)

text \<open>The register after each of 64 bits, started with one bit set.\<close>

definition crc32_chain_be :: "u32 list" where
  "crc32_chain_be =
    [0x80000000, 0x1EDC6F41, 0x3DB8DE82, 0x7B71BD04, 0xF6E37A08, 0xF31A9B51, 0xF8E959E3, 0xEF0EDC87,
     0xC0C1D64F, 0x9F5FC3DF, 0x2063E8FF, 0x40C7D1FE, 0x818FA3FC, 0x1DC328B9, 0x3B865172, 0x770CA2E4,
     0xEE1945C8, 0xC2EEE4D1, 0x9B01A6E3, 0x28DF2287, 0x51BE450E, 0xA37C8A1C, 0x58257B79, 0xB04AF6F2,
     0x7E4982A5, 0xFC93054A, 0xE7FA65D5, 0xD128A4EB, 0xBC8D2697, 0x67C6226F, 0xCF8C44DE, 0x81C4E6FD,
     0x1D55A2BB, 0x3AAB4576, 0x75568AEC, 0xEAAD15D8, 0xCB8644F1, 0x89D0E6A3, 0x0D7DA207, 0x1AFB440E,
     0x35F6881C, 0x6BED1038, 0xD7DA2070, 0xB1682FA1, 0x7C0C3003, 0xF8186006, 0xEEECAF4D, 0xC30531DB,
     0x98D60CF7, 0x2F7076AF, 0x5EE0ED5E, 0xBDC1DABC, 0x655FDA39, 0xCABFB472, 0x8BA307A5, 0x099A600B,
     0x1334C016, 0x2669802C, 0x4CD30058, 0x99A600B0, 0x2D906E21, 0x5B20DC42, 0xB641B884, 0x725F1E49,
     0xE4BE3C92]"

lemma chain_steps_be: "map crc32_shift_be (take 64 crc32_chain_be) = tl crc32_chain_be"
  by (simp add: crc32_chain_be_def crc32_shift_be_bit)

lemma chain_be: "n \<le> 64 \<Longrightarrow> (crc32_shift_be ^^ n) 0x80000000 = crc32_chain_be ! n"
proof (induction n)
  case (Suc n)
  have len: "length crc32_chain_be = 65" by (simp add: crc32_chain_be_def)
  have "map crc32_shift_be (take 64 crc32_chain_be) ! n = tl crc32_chain_be ! n" by (simp only: chain_steps_be)
  then show ?case using Suc len by (simp add: nth_tl)
qed (simp add: crc32_chain_be_def)

lemma crc32_shift_be_high: "k < 32 \<Longrightarrow> (crc32_shift_be ^^ k) (2 ^ (31 - k)) = 0x80000000"
proof (induction k)
  case (Suc k)
  obtain n where n: "31 - k = Suc n" "31 - Suc k = n" "n < 31" using Suc.prems by (cases "31 - k") auto
  have "crc32_shift_be (2 ^ n) = 2 ^ Suc n"
    using n(3) by (simp add: crc32_shift_be_bit bit_simps push_bit_eq_mult)
  then have "crc32_shift_be (2 ^ (31 - Suc k)) = 2 ^ (31 - k)" by (simp only: n)
  then show ?case using Suc by (simp only: funpow_Suc_right comp_apply Suc_lessD)
qed simp

text \<open>The entries of the table \<open>k\<close>: the register after \<open>8 * (k + 1)\<close> bits, the byte at the top.\<close>

lemma chain_table_be:
  assumes "k < 8"
  shows "doubled_table (map (\<lambda>j. crc32_chain_be ! (8 * k + 1 + j)) [0..<8]) =
    map (\<lambda>i. (crc32_shift_be ^^ (8 * k + 8)) (push_bit 24 (of_nat i))) [0..<256]"
proof -
  have "crc32_chain_be ! (8 * k + 1 + j) = (crc32_shift_be ^^ (8 * k + 8)) (push_bit 24 (2 ^ j))" if "j < 8" for j
  proof -
    have "8 * k + 8 = (8 * k + 1 + j) + (7 - j)" "push_bit 24 (2 ^ j) = (2 :: u32) ^ (31 - (7 - j))"
      using that by (simp, simp only: push_bit_push_bit flip: push_bit_of_1) simp
    then have "(crc32_shift_be ^^ (8 * k + 8)) (push_bit 24 (2 ^ j)) =
        (crc32_shift_be ^^ (8 * k + 1 + j)) ((crc32_shift_be ^^ (7 - j)) (2 ^ (31 - (7 - j))))"
      by (metis comp_apply funpow_add)
    then show ?thesis using chain_be [of "8 * k + 1 + j"] crc32_shift_be_high [of "7 - j"] assms that by simp
  qed
  then have eq: "map (\<lambda>j. crc32_chain_be ! (8 * k + 1 + j)) [0..<8] = map (\<lambda>j. (crc32_shift_be ^^ (8 * k + 8)) (push_bit 24 (2 ^ j))) [0..<8]" by simp
  have "(crc32_shift_be ^^ (8 * k + 8)) (push_bit 24 (x XOR y)) =
      (crc32_shift_be ^^ (8 * k + 8)) (push_bit 24 x) XOR (crc32_shift_be ^^ (8 * k + 8)) (push_bit 24 y)" for x y :: u32
    by (simp only: push_bit_xor crc32_shift_be_pow_xor)
  then show ?thesis unfolding eq
    using doubled_table_linear [of "\<lambda>x. (crc32_shift_be ^^ (8 * k + 8)) (push_bit 24 x)" 8] by simp
qed

lemma t0_be_entries: "t0_be = map (\<lambda>i. tobe ((crc32_shift_be ^^ (8 * 0 + 8)) (push_bit 24 (of_nat i)))) [0..<256]"
proof -
  have "t0_be = map tobe (doubled_table [0x1EDC6F41, 0x3DB8DE82, 0x7B71BD04, 0xF6E37A08, 0xF31A9B51, 0xF8E959E3, 0xEF0EDC87, 0xC0C1D64F])"
    by (simp only: t0_be_def) (simp add: doubled_table_def)
  also have "[0x1EDC6F41, 0x3DB8DE82, 0x7B71BD04, 0xF6E37A08, 0xF31A9B51, 0xF8E959E3, 0xEF0EDC87, 0xC0C1D64F] = map (\<lambda>j. crc32_chain_be ! (8 * 0 + 1 + j)) [0..<8]"
    by (simp add: crc32_chain_be_def upt_conv_Cons)
  finally show ?thesis by (simp only: chain_table_be [OF k_lt(1)] map_map comp_def)
qed

lemma t1_be_entries: "t1_be = map (\<lambda>i. tobe ((crc32_shift_be ^^ (8 * 1 + 8)) (push_bit 24 (of_nat i)))) [0..<256]"
proof -
  have "t1_be = map tobe (doubled_table [0x9F5FC3DF, 0x2063E8FF, 0x40C7D1FE, 0x818FA3FC, 0x1DC328B9, 0x3B865172, 0x770CA2E4, 0xEE1945C8])"
    by (simp only: t1_be_def) (simp add: doubled_table_def)
  also have "[0x9F5FC3DF, 0x2063E8FF, 0x40C7D1FE, 0x818FA3FC, 0x1DC328B9, 0x3B865172, 0x770CA2E4, 0xEE1945C8] = map (\<lambda>j. crc32_chain_be ! (8 * 1 + 1 + j)) [0..<8]"
    by (simp add: crc32_chain_be_def upt_conv_Cons)
  finally show ?thesis by (simp only: chain_table_be [OF k_lt(2)] map_map comp_def)
qed

lemma t2_be_entries: "t2_be = map (\<lambda>i. tobe ((crc32_shift_be ^^ (8 * 2 + 8)) (push_bit 24 (of_nat i)))) [0..<256]"
proof -
  have "t2_be = map tobe (doubled_table [0xC2EEE4D1, 0x9B01A6E3, 0x28DF2287, 0x51BE450E, 0xA37C8A1C, 0x58257B79, 0xB04AF6F2, 0x7E4982A5])"
    by (simp only: t2_be_def) (simp add: doubled_table_def)
  also have "[0xC2EEE4D1, 0x9B01A6E3, 0x28DF2287, 0x51BE450E, 0xA37C8A1C, 0x58257B79, 0xB04AF6F2, 0x7E4982A5] = map (\<lambda>j. crc32_chain_be ! (8 * 2 + 1 + j)) [0..<8]"
    by (simp add: crc32_chain_be_def upt_conv_Cons)
  finally show ?thesis by (simp only: chain_table_be [OF k_lt(3)] map_map comp_def)
qed

lemma t3_be_entries: "t3_be = map (\<lambda>i. tobe ((crc32_shift_be ^^ (8 * 3 + 8)) (push_bit 24 (of_nat i)))) [0..<256]"
proof -
  have "t3_be = map tobe (doubled_table [0xFC93054A, 0xE7FA65D5, 0xD128A4EB, 0xBC8D2697, 0x67C6226F, 0xCF8C44DE, 0x81C4E6FD, 0x1D55A2BB])"
    by (simp only: t3_be_def) (simp add: doubled_table_def)
  also have "[0xFC93054A, 0xE7FA65D5, 0xD128A4EB, 0xBC8D2697, 0x67C6226F, 0xCF8C44DE, 0x81C4E6FD, 0x1D55A2BB] = map (\<lambda>j. crc32_chain_be ! (8 * 3 + 1 + j)) [0..<8]"
    by (simp add: crc32_chain_be_def upt_conv_Cons)
  finally show ?thesis by (simp only: chain_table_be [OF k_lt(4)] map_map comp_def)
qed

lemma t4_be_entries: "t4_be = map (\<lambda>i. tobe ((crc32_shift_be ^^ (8 * 4 + 8)) (push_bit 24 (of_nat i)))) [0..<256]"
proof -
  have "t4_be = map tobe (doubled_table [0x3AAB4576, 0x75568AEC, 0xEAAD15D8, 0xCB8644F1, 0x89D0E6A3, 0x0D7DA207, 0x1AFB440E, 0x35F6881C])"
    by (simp only: t4_be_def) (simp add: doubled_table_def)
  also have "[0x3AAB4576, 0x75568AEC, 0xEAAD15D8, 0xCB8644F1, 0x89D0E6A3, 0x0D7DA207, 0x1AFB440E, 0x35F6881C] = map (\<lambda>j. crc32_chain_be ! (8 * 4 + 1 + j)) [0..<8]"
    by (simp add: crc32_chain_be_def upt_conv_Cons)
  finally show ?thesis by (simp only: chain_table_be [OF k_lt(5)] map_map comp_def)
qed

lemma t5_be_entries: "t5_be = map (\<lambda>i. tobe ((crc32_shift_be ^^ (8 * 5 + 8)) (push_bit 24 (of_nat i)))) [0..<256]"
proof -
  have "t5_be = map tobe (doubled_table [0x6BED1038, 0xD7DA2070, 0xB1682FA1, 0x7C0C3003, 0xF8186006, 0xEEECAF4D, 0xC30531DB, 0x98D60CF7])"
    by (simp only: t5_be_def) (simp add: doubled_table_def)
  also have "[0x6BED1038, 0xD7DA2070, 0xB1682FA1, 0x7C0C3003, 0xF8186006, 0xEEECAF4D, 0xC30531DB, 0x98D60CF7] = map (\<lambda>j. crc32_chain_be ! (8 * 5 + 1 + j)) [0..<8]"
    by (simp add: crc32_chain_be_def upt_conv_Cons)
  finally show ?thesis by (simp only: chain_table_be [OF k_lt(6)] map_map comp_def)
qed

lemma t6_be_entries: "t6_be = map (\<lambda>i. tobe ((crc32_shift_be ^^ (8 * 6 + 8)) (push_bit 24 (of_nat i)))) [0..<256]"
proof -
  have "t6_be = map tobe (doubled_table [0x2F7076AF, 0x5EE0ED5E, 0xBDC1DABC, 0x655FDA39, 0xCABFB472, 0x8BA307A5, 0x099A600B, 0x1334C016])"
    by (simp only: t6_be_def) (simp add: doubled_table_def)
  also have "[0x2F7076AF, 0x5EE0ED5E, 0xBDC1DABC, 0x655FDA39, 0xCABFB472, 0x8BA307A5, 0x099A600B, 0x1334C016] = map (\<lambda>j. crc32_chain_be ! (8 * 6 + 1 + j)) [0..<8]"
    by (simp add: crc32_chain_be_def upt_conv_Cons)
  finally show ?thesis by (simp only: chain_table_be [OF k_lt(7)] map_map comp_def)
qed

lemma t7_be_entries: "t7_be = map (\<lambda>i. tobe ((crc32_shift_be ^^ (8 * 7 + 8)) (push_bit 24 (of_nat i)))) [0..<256]"
proof -
  have "t7_be = map tobe (doubled_table [0x2669802C, 0x4CD30058, 0x99A600B0, 0x2D906E21, 0x5B20DC42, 0xB641B884, 0x725F1E49, 0xE4BE3C92])"
    by (simp only: t7_be_def) (simp add: doubled_table_def)
  also have "[0x2669802C, 0x4CD30058, 0x99A600B0, 0x2D906E21, 0x5B20DC42, 0xB641B884, 0x725F1E49, 0xE4BE3C92] = map (\<lambda>j. crc32_chain_be ! (8 * 7 + 1 + j)) [0..<8]"
    by (simp add: crc32_chain_be_def upt_conv_Cons)
  finally show ?thesis by (simp only: chain_table_be [OF k_lt(8)] map_map comp_def)
qed

end
