(* ===== verification/Crc32c.thy ===== *)
theory Crc32c
  imports Crc32c_Tables_Be Byte_Memory
begin

text \<open>
  The CRC-32C of \<open>source/crc32c.c\<close> by slices of eight bytes, as it is compiled for the
  big-endian target. The lemmas show that it computes the checksum bit by bit, wherever the data
  lies in memory.
\<close>

section \<open>The code\<close>

text \<open>
  The bytes before the first address that is a multiple of eight, in the 32-bit address space.
\<close>

definition crc_init_bytes :: "u32 \<Rightarrow> nat \<Rightarrow> nat" where
  "crc_init_bytes addr len = min (unat (((addr + 7) AND NOT 7) - addr)) len"

definition crc32c_le_byte :: "u32 \<Rightarrow> u8 \<Rightarrow> u32" where
  "crc32c_le_byte crc p8 =
     (let i0 = p8 XOR ucast (drop_bit 24 crc) in t0_le ! unat i0 XOR push_bit 8 crc)"

text \<open>Two words, \<open>p\<close> and then \<open>p'\<close>.\<close>

definition crc32c_le_words :: "u32 \<Rightarrow> u32 \<Rightarrow> u32 \<Rightarrow> u32" where
  "crc32c_le_words crc p p' =
     (let q = p XOR crc;
          i3 = ucast (drop_bit 24 q) :: u8; i2 = ucast (drop_bit 16 q) :: u8; i1 = ucast (drop_bit 8 q) :: u8; i0 = ucast q :: u8;
          crc = t7_le ! unat i3 XOR t6_le ! unat i2 XOR t5_le ! unat i1 XOR t4_le ! unat i0;
          q = p';
          i3 = ucast (drop_bit 24 q) :: u8; i2 = ucast (drop_bit 16 q) :: u8; i1 = ucast (drop_bit 8 q) :: u8; i0 = ucast q :: u8
      in crc XOR (t3_le ! unat i3 XOR t2_le ! unat i2 XOR t1_le ! unat i1 XOR t0_le ! unat i0))"

fun crc32c_le_loop :: "nat \<Rightarrow> u32 \<Rightarrow> u8 list \<Rightarrow> u32" where
  "crc32c_le_loop 0 crc buf = crc"
| "crc32c_le_loop (Suc n) crc buf = crc32c_le_loop n (crc32c_le_words crc (ld32 buf 0) (ld32 buf 4)) (drop 8 buf)"

definition crc32c_le_body :: "u32 \<Rightarrow> u32 \<Rightarrow> u8 list \<Rightarrow> u32" where
  "crc32c_le_body addr crc buf =
     (let crc = ext2fs_swab32 crc;
          init_bytes = crc_init_bytes addr (length buf);
          words = (length buf - init_bytes) div 8;
          end_bytes = (length buf - init_bytes) mod 8;
          crc = fold (\<lambda>b crc. crc32c_le_byte crc b) (take init_bytes buf) crc;
          crc = crc32c_le_loop words crc (drop init_bytes buf);
          crc = fold (\<lambda>b crc. crc32c_le_byte crc b) (take end_bytes (drop (init_bytes + 8 * words) buf)) crc
      in ext2fs_swab32 crc)"

definition crc32c_be_byte :: "u32 \<Rightarrow> u8 \<Rightarrow> u32" where
  "crc32c_be_byte crc p8 =
     (let i0 = p8 XOR ucast (drop_bit 24 crc) in t0_be ! unat i0 XOR push_bit 8 crc)"

definition crc32c_be_words :: "u32 \<Rightarrow> u32 \<Rightarrow> u32 \<Rightarrow> u32" where
  "crc32c_be_words crc p p' =
     (let q = p XOR crc;
          i3 = ucast (drop_bit 24 q) :: u8; i2 = ucast (drop_bit 16 q) :: u8; i1 = ucast (drop_bit 8 q) :: u8; i0 = ucast q :: u8;
          crc = t7_be ! unat i3 XOR t6_be ! unat i2 XOR t5_be ! unat i1 XOR t4_be ! unat i0;
          q = p';
          i3 = ucast (drop_bit 24 q) :: u8; i2 = ucast (drop_bit 16 q) :: u8; i1 = ucast (drop_bit 8 q) :: u8; i0 = ucast q :: u8
      in crc XOR (t3_be ! unat i3 XOR t2_be ! unat i2 XOR t1_be ! unat i1 XOR t0_be ! unat i0))"

fun crc32c_be_loop :: "nat \<Rightarrow> u32 \<Rightarrow> u8 list \<Rightarrow> u32" where
  "crc32c_be_loop 0 crc buf = crc"
| "crc32c_be_loop (Suc n) crc buf = crc32c_be_loop n (crc32c_be_words crc (ld32 buf 0) (ld32 buf 4)) (drop 8 buf)"

definition crc32c_be_body :: "u32 \<Rightarrow> u32 \<Rightarrow> u8 list \<Rightarrow> u32" where
  "crc32c_be_body addr crc buf =
     (let init_bytes = crc_init_bytes addr (length buf);
          words = (length buf - init_bytes) div 8;
          end_bytes = (length buf - init_bytes) mod 8;
          crc = fold (\<lambda>b crc. crc32c_be_byte crc b) (take init_bytes buf) crc;
          crc = crc32c_be_loop words crc (drop init_bytes buf)
      in fold (\<lambda>b crc. crc32c_be_byte crc b) (take end_bytes (drop (init_bytes + 8 * words) buf)) crc)"

definition ext2fs_crc32c_le :: "u32 \<Rightarrow> u32 \<Rightarrow> u8 list \<Rightarrow> u32" where
  "ext2fs_crc32c_le addr crc p = crc32c_le_body addr crc p"

definition ext2fs_crc32c_be :: "u32 \<Rightarrow> u32 \<Rightarrow> u8 list \<Rightarrow> u32" where
  "ext2fs_crc32c_be addr crc p = crc32c_be_body addr crc p"

text \<open>The variants that take the data bit by bit, which the code has for \<open>CRC_LE_BITS = 1\<close> and \<open>CRC_BE_BITS = 1\<close>.\<close>

definition crc32c_le_bits :: "u32 \<Rightarrow> u8 list \<Rightarrow> u32" where
  "crc32c_le_bits crc p = fold (\<lambda>b crc. (crc32_shift_le ^^ 8) (crc XOR ucast b)) p crc"

definition crc32c_be_bits :: "u32 \<Rightarrow> u8 list \<Rightarrow> u32" where
  "crc32c_be_bits crc p = fold (\<lambda>b crc. (crc32_shift_be ^^ 8) (crc XOR push_bit 24 (ucast b))) p crc"

section \<open>Slices of a linear register\<close>

text \<open>
  What the tables rest on: a register that is linear, shifts out eight bits in eight steps while its
  highest eight bits are clear, and whose value after \<open>8 * (k + 1)\<close> steps, started with a byte at
  the top, is in the table \<open>k\<close>.
\<close>

locale sliced_register =
  fixes step :: "u32 \<Rightarrow> u32" and tab :: "nat \<Rightarrow> u32 list"
  assumes linear: "step (x XOR y) = step x XOR step y"
    and shift_out: "drop_bit 24 x = 0 \<Longrightarrow> (step ^^ 8) x = push_bit 8 x"
    and entries: "k < 8 \<Longrightarrow> i < 256 \<Longrightarrow> tab k ! i = (step ^^ (8 * k + 8)) (push_bit 24 (of_nat i))"
begin

lemma linear_pow: "(step ^^ n) (x XOR y) = (step ^^ n) x XOR (step ^^ n) y"
  by (induction n) (simp_all add: linear)

definition byte_step :: "u32 \<Rightarrow> u8 \<Rightarrow> u32" where
  "byte_step x b = (step ^^ 8) (x XOR push_bit 24 (ucast b))"

lemma tab_byte: "k < 8 \<Longrightarrow> tab k ! unat (b :: u8) = (step ^^ (8 * k + 8)) (push_bit 24 (ucast b))"
proof -
  have "unat b < 256" using unsigned_less [of b, where ?'a = nat] by simp
  moreover have "(of_nat (unat b) :: u32) = ucast b" by (simp add: unsigned_def)
  ultimately show "k < 8 \<Longrightarrow> ?thesis" using entries [of k "unat b"] by simp
qed

lemma table_step: "tab 0 ! unat (b XOR ucast (drop_bit 24 x)) XOR push_bit 8 x = byte_step x b"
proof -
  have s: "x XOR push_bit 24 (ucast b) = push_bit 24 (ucast (b XOR ucast (drop_bit 24 x))) XOR take_bit 24 x"
    by (rule bit_word_eqI) (auto simp: bit_simps)
  have "drop_bit 24 (take_bit 24 x) = 0" by (rule bit_word_eqI) (auto simp: bit_simps)
  moreover have "push_bit 8 (take_bit 24 x) = push_bit 8 x" by (rule bit_word_eqI) (auto simp: bit_simps)
  ultimately show ?thesis
    unfolding byte_step_def s linear_pow using tab_byte [of 0 "b XOR ucast (drop_bit 24 x)"] shift_out [of "take_bit 24 x"] by simp
qed

text \<open>Eight steps move a byte that is not at the top up by eight bits.\<close>

lemma move_up: "(step ^^ 8) (push_bit 16 (ucast (b :: u8))) = push_bit 24 (ucast b)"
  "(step ^^ 16) (push_bit 8 (ucast b)) = push_bit 24 (ucast b)" "(step ^^ 24) (ucast b) = push_bit 24 (ucast b)"
proof -
  have top: "drop_bit 24 (push_bit 16 (ucast b :: u32)) = 0" "drop_bit 24 (push_bit 8 (ucast b :: u32)) = 0"
    "drop_bit 24 (ucast b :: u32) = 0"
    by (rule bit_word_eqI; auto simp: bit_simps dest: bit_imp_le_length)+
  show one: "(step ^^ 8) (push_bit 16 (ucast b)) = push_bit 24 (ucast b)" using shift_out [OF top(1)] by simp
  have "(step ^^ (8 + 8)) (push_bit 8 (ucast b)) = push_bit 24 (ucast b)"
    using shift_out [OF top(2)] one by (simp only: funpow_add comp_apply) simp
  then show two: "(step ^^ 16) (push_bit 8 (ucast b)) = push_bit 24 (ucast b)" by simp
  have "(step ^^ (16 + 8)) (ucast b) = push_bit 24 (ucast b)"
    using shift_out [OF top(3)] two by (simp only: funpow_add comp_apply)
  then show "(step ^^ 24) (ucast b) = push_bit 24 (ucast b)" by simp
qed

lemma four_bytes:
  "fold (\<lambda>b x. byte_step x b) [b0, b1, b2, b3] x =
     (step ^^ 32) (x XOR (push_bit 24 (ucast b0) XOR push_bit 16 (ucast b1) XOR push_bit 8 (ucast b2) XOR ucast b3))"
proof -
  have c: "(step ^^ 8) ((step ^^ n) y) = (step ^^ (8 + n)) y" for n y by (simp add: funpow_add)
  have "fold (\<lambda>b x. byte_step x b) [b0, b1, b2, b3] x =
    (step ^^ 8) ((step ^^ 8) ((step ^^ 8) ((step ^^ 8) (x XOR push_bit 24 (ucast b0)) XOR (step ^^ 8) (push_bit 16 (ucast b1)))
       XOR (step ^^ 16) (push_bit 8 (ucast b2))) XOR (step ^^ 24) (ucast b3))"
    by (simp add: byte_step_def move_up)
  also have "\<dots> = (step ^^ 32) (x XOR push_bit 24 (ucast b0) XOR push_bit 16 (ucast b1) XOR push_bit 8 (ucast b2) XOR ucast b3)"
    by (simp only: c linear_pow) (simp add: xor.assoc)
  finally show ?thesis by (simp add: xor.assoc)
qed

lemma ld32_xor:
  "ld32 buf p = push_bit 24 (ucast (buf ! p)) XOR push_bit 16 (ucast (buf ! (p + 1))) XOR push_bit 8 (ucast (buf ! (p + 2))) XOR ucast (buf ! (p + 3))"
proof (rule bit_word_eqI)
  fix n assume "n < LENGTH(32)"
  then show "bit (ld32 buf p) n = bit (push_bit 24 (ucast (buf ! p)) XOR push_bit 16 (ucast (buf ! (p + 1))) XOR
      push_bit 8 (ucast (buf ! (p + 2))) XOR (ucast (buf ! (p + 3)) :: u32)) n"
    unfolding ld32_def ld16_def
    by (cases "n < 8"; cases "n < 16"; cases "n < 24")
      (simp_all add: bit_simps not_less numeral_2_eq_2 numeral_3_eq_3, auto simp: less_diff_conv2 dest: bit_imp_le_length)
qed

lemma word_bytes:
  "q = push_bit 24 (ucast (ucast (drop_bit 24 q) :: u8)) XOR push_bit 16 (ucast (ucast (drop_bit 16 q) :: u8)) XOR
     push_bit 8 (ucast (ucast (drop_bit 8 q) :: u8)) XOR ucast (ucast q :: u8)" for q :: u32
proof (rule bit_word_eqI)
  fix n assume "n < LENGTH(32)"
  then show "bit q n = bit (push_bit 24 (ucast (ucast (drop_bit 24 q) :: u8)) XOR push_bit 16 (ucast (ucast (drop_bit 16 q) :: u8)) XOR
     push_bit 8 (ucast (ucast (drop_bit 8 q) :: u8)) XOR (ucast (ucast q :: u8) :: u32)) n"
    by (cases "n < 8"; cases "n < 16"; cases "n < 24") (auto simp: bit_simps not_less less_diff_conv2)
qed

lemma sliced_word:
  assumes "k = 0 \<or> k = 4"
  shows "(step ^^ (8 * k + 32)) q = tab (k + 3) ! unat (ucast (drop_bit 24 q) :: u8) XOR tab (k + 2) ! unat (ucast (drop_bit 16 q) :: u8) XOR
     tab (k + 1) ! unat (ucast (drop_bit 8 q) :: u8) XOR tab k ! unat (ucast q :: u8)"
proof -
  have c: "(step ^^ (8 * k + 32)) y = (step ^^ (8 * k + 24)) ((step ^^ 8) y)" "(step ^^ (8 * k + 32)) y = (step ^^ (8 * k + 16)) ((step ^^ 16) y)"
    "(step ^^ (8 * k + 32)) y = (step ^^ (8 * k + 8)) ((step ^^ 24) y)" for y
    by (simp_all add: add.commute flip: funpow_add comp_apply [of "step ^^ m" "step ^^ n" for m n])
  have "(step ^^ (8 * k + 32)) q = (step ^^ (8 * k + 32)) (push_bit 24 (ucast (ucast (drop_bit 24 q) :: u8))) XOR
     (step ^^ (8 * k + 32)) (push_bit 16 (ucast (ucast (drop_bit 16 q) :: u8))) XOR
     (step ^^ (8 * k + 32)) (push_bit 8 (ucast (ucast (drop_bit 8 q) :: u8))) XOR (step ^^ (8 * k + 32)) (ucast (ucast q :: u8))"
    by (subst (1) word_bytes [of q]) (simp only: linear_pow)
  also have "\<dots> = (step ^^ (8 * k + 32)) (push_bit 24 (ucast (ucast (drop_bit 24 q) :: u8))) XOR
     (step ^^ (8 * k + 24)) (push_bit 24 (ucast (ucast (drop_bit 16 q) :: u8))) XOR
     (step ^^ (8 * k + 16)) (push_bit 24 (ucast (ucast (drop_bit 8 q) :: u8))) XOR (step ^^ (8 * k + 8)) (push_bit 24 (ucast (ucast q :: u8)))"
    by (simp only: c(1) [of "push_bit 16 _"] c(2) [of "push_bit 8 _"] c(3) [of "ucast _"] move_up)
  finally show ?thesis using assms tab_byte [of "k + 3"] tab_byte [of "k + 2"] tab_byte [of "k + 1"] tab_byte [of k]
    by (elim disjE) (simp_all add: algebra_simps)
qed

text \<open>The step of a slice, as both variants of the code compute it.\<close>

lemma slice:
  "(let q = ld32 buf 0 XOR x;
        i3 = ucast (drop_bit 24 q) :: u8; i2 = ucast (drop_bit 16 q) :: u8; i1 = ucast (drop_bit 8 q) :: u8; i0 = ucast q :: u8;
        crc = tab 7 ! unat i3 XOR tab 6 ! unat i2 XOR tab 5 ! unat i1 XOR tab 4 ! unat i0;
        q = ld32 buf 4;
        i3 = ucast (drop_bit 24 q) :: u8; i2 = ucast (drop_bit 16 q) :: u8; i1 = ucast (drop_bit 8 q) :: u8; i0 = ucast q :: u8
    in crc XOR (tab 3 ! unat i3 XOR tab 2 ! unat i2 XOR tab 1 ! unat i1 XOR tab 0 ! unat i0)) =
   fold (\<lambda>b x. byte_step x b) (map ((!) buf) [0, 1, 2, 3, 4, 5, 6, 7]) x"
proof -
  have "fold (\<lambda>b x. byte_step x b) (map ((!) buf) [0, 1, 2, 3, 4, 5, 6, 7]) x =
    fold (\<lambda>b x. byte_step x b) [buf ! 4, buf ! 5, buf ! 6, buf ! 7] (fold (\<lambda>b x. byte_step x b) [buf ! 0, buf ! 1, buf ! 2, buf ! 3] x)"
    by simp
  also have "\<dots> = (step ^^ 32) ((step ^^ 32) (x XOR ld32 buf 0) XOR ld32 buf 4)"
    unfolding four_bytes by (simp add: ld32_xor numeral_2_eq_2)
  also have "\<dots> = (step ^^ (32 + 32)) (x XOR ld32 buf 0) XOR (step ^^ 32) (ld32 buf 4)"
    by (simp only: linear_pow funpow_add comp_apply)
  finally show ?thesis
    using sliced_word [of 4 "ld32 buf 0 XOR x"] sliced_word [of 0 "ld32 buf 4"]
    by (simp add: Let_def xor.commute [of x] numeral_2_eq_2)
qed

lemma eight_bytes:
  assumes "8 \<le> length buf"
  shows "fold f buf x = fold f (drop 8 buf) (fold f (map ((!) buf) [0, 1, 2, 3, 4, 5, 6, 7]) x)"
proof -
  have "take 8 buf = map ((!) buf) [0..<8]" using assms by (intro nth_equalityI) simp_all
  then have "take 8 buf = map ((!) buf) [0, 1, 2, 3, 4, 5, 6, 7]" by (simp add: upt_conv_Cons numeral_eq_Suc)
  moreover have "fold f buf x = fold f (drop 8 buf) (fold f (take 8 buf) x)" by (metis append_take_drop_id fold_append comp_apply)
  ultimately show ?thesis by simp
qed


text \<open>The loop over slices, and the three parts of the data.\<close>

lemma slices:
  assumes "\<And>crc buf. loop 0 crc buf = crc"
    "\<And>n crc buf. loop (Suc n) crc buf = loop n (fold (\<lambda>b x. byte_step x b) (map ((!) buf) [0, 1, 2, 3, 4, 5, 6, 7]) crc) (drop 8 buf)"
  shows "8 * n \<le> length buf \<Longrightarrow> loop n x buf = fold (\<lambda>b x. byte_step x b) (take (8 * n) buf) x"
proof (induction n arbitrary: x buf)
  case (Suc n)
  have l: "8 \<le> length buf" "8 * n \<le> length (drop 8 buf)" using Suc.prems by simp_all
  have "take (8 * Suc n) buf = take 8 buf @ take (8 * n) (drop 8 buf)" by (simp add: take_add)
  moreover have "fold (\<lambda>b x. byte_step x b) (take 8 buf) x = fold (\<lambda>b x. byte_step x b) (map ((!) buf) [0, 1, 2, 3, 4, 5, 6, 7]) x"
    using eight_bytes [of "take 8 buf" "\<lambda>b x. byte_step x b" x] l by simp
  ultimately show ?case using Suc.IH [OF l(2)] by (simp add: assms(2))
qed (simp add: assms(1))

end

lemma three_parts:
  assumes "init \<le> length buf"
  defines "words \<equiv> (length buf - init) div 8"
  shows "8 * words \<le> length (drop init buf)"
    "fold f (take ((length buf - init) mod 8) (drop (init + 8 * words) buf)) (fold f (take (8 * words) (drop init buf)) (fold f (take init buf) x)) = fold f buf x"
proof -
  show "8 * words \<le> length (drop init buf)" by (simp add: words_def)
  have "init + 8 * words + (length buf - init) mod 8 = length buf" using assms(1) by (simp add: words_def)
  then have "take ((length buf - init) mod 8) (drop (init + 8 * words) buf) = drop (init + 8 * words) buf" by simp
  moreover have "fold f buf x = fold f (drop (init + 8 * words) buf) (fold f (take (init + 8 * words) buf) x)"
    by (metis append_take_drop_id fold_append comp_apply)
  ultimately show "fold f (take ((length buf - init) mod 8) (drop (init + 8 * words) buf)) (fold f (take (8 * words) (drop init buf)) (fold f (take init buf) x)) = fold f buf x"
    by (simp add: take_add)
qed

section \<open>The two registers\<close>

lemma tole_swab: "tole = ext2fs_swab32"
proof
  have m: "(0xFF :: u32) = mask 8" "(0xFF00 :: u32) = push_bit 8 (mask 8)" "(0xFF0000 :: u32) = push_bit 16 (mask 8)"
    "(0xFF000000 :: u32) = push_bit 24 (mask 8)"
    by (simp_all add: mask_eq_exp_minus_1 push_bit_eq_mult)
  fix x show "tole x = ext2fs_swab32 x"
  proof (rule bit_word_eqI)
    fix n assume "n < LENGTH(32)"
    then show "bit (tole x) n = bit (ext2fs_swab32 x) n"
      unfolding tole_def constant_swab32_def ext2fs_swab32_def m
      by (cases "n < 8"; cases "n < 16"; cases "n < 24") (auto simp: bit_simps not_less less_diff_conv2 dest: bit_imp_le_length)
  qed
qed

lemma word_eq_bytes:
  fixes x y :: u32
  assumes "\<And>r. r < 8 \<Longrightarrow> bit x r = bit y r" "\<And>r. r < 8 \<Longrightarrow> bit x (8 + r) = bit y (8 + r)"
    "\<And>r. r < 8 \<Longrightarrow> bit x (16 + r) = bit y (16 + r)" "\<And>r. r < 8 \<Longrightarrow> bit x (24 + r) = bit y (24 + r)"
  shows "x = y"
proof (rule bit_word_eqI)
  fix n assume n: "n < LENGTH(32)"
  consider "n < 8" | "8 \<le> n" "n < 16" | "16 \<le> n" "n < 24" | "24 \<le> n" by linarith
  then show "bit x n = bit y n"
    using assms(1) [of n] assms(2) [of "n - 8"] assms(3) [of "n - 16"] assms(4) [of "n - 24"] n by cases simp_all
qed

lemma bits_swab32:
  assumes "r < 8"
  shows "bit (ext2fs_swab32 v) r = bit v (24 + r)" "bit (ext2fs_swab32 v) (8 + r) = bit v (16 + r)"
    "bit (ext2fs_swab32 v) (16 + r) = bit v (8 + r)" "bit (ext2fs_swab32 v) (24 + r) = bit v r"
  using bit_swab32 [of 0 r v] bit_swab32 [of 1 r v] bit_swab32 [of 2 r v] bit_swab32 [of 3 r v] assms by simp_all

lemma swab32_xor: "ext2fs_swab32 (x XOR y) = ext2fs_swab32 x XOR ext2fs_swab32 y"
  by (rule word_eq_bytes) (simp_all add: bits_swab32 bit_xor_iff)

text \<open>The register of the code on a big-endian host is the swapped one.\<close>

definition swapped_shift :: "u32 \<Rightarrow> u32" where
  "swapped_shift x = ext2fs_swab32 (crc32_shift_le (ext2fs_swab32 x))"

lemma swapped_pow: "(swapped_shift ^^ n) x = ext2fs_swab32 ((crc32_shift_le ^^ n) (ext2fs_swab32 x))"
  by (induction n) (simp_all add: swapped_shift_def swab32_swab32)

lemma shift_le_out: "\<forall>n < k. \<not> bit y n \<Longrightarrow> (crc32_shift_le ^^ k) y = drop_bit k y"
proof (induction k)
  case (Suc k)
  then have "\<not> bit (drop_bit k y) 0" by (simp add: bit_simps)
  then show ?case using Suc by (simp add: crc32_shift_le_bit)
qed simp

lemma shift_be_out: "\<forall>n < k. \<not> bit y (31 - n) \<Longrightarrow> (crc32_shift_be ^^ k) y = push_bit k y"
proof (induction k)
  case (Suc k)
  then have "\<not> bit (push_bit k y) 31" by (cases "k \<le> 31") (simp_all add: bit_simps)
  then show ?case using Suc by (simp add: crc32_shift_be_bit)
qed simp

lemma swab32_byte: "ext2fs_swab32 (push_bit 24 (ucast (b :: u8))) = ucast b"
  by (rule word_eq_bytes) (auto simp: bits_swab32 bit_simps dest: bit_imp_le_length)

lemma swab32_drop: "drop_bit 24 x = 0 \<Longrightarrow> ext2fs_swab32 (drop_bit 8 (ext2fs_swab32 x)) = push_bit 8 x"
proof -
  assume z: "drop_bit 24 x = 0"
  have "\<not> bit x (24 + k)" for k using arg_cong [OF z, of "\<lambda>w. bit w k"] by (simp add: bit_simps)
  then show "ext2fs_swab32 (drop_bit 8 (ext2fs_swab32 x)) = push_bit 8 x"
    by (intro word_eq_bytes) (auto simp: bit_simps bits_swab32 dest: bit_imp_le_length)
qed

definition tables_le :: "nat \<Rightarrow> u32 list" where
  "tables_le k = [t0_le, t1_le, t2_le, t3_le, t4_le, t5_le, t6_le, t7_le] ! k"

definition tables_be :: "nat \<Rightarrow> u32 list" where
  "tables_be k = [t0_be, t1_be, t2_be, t3_be, t4_be, t5_be, t6_be, t7_be] ! k"

lemma less_8: "(k :: nat) < 8 \<longleftrightarrow> k = 0 \<or> k = 1 \<or> k = 2 \<or> k = 3 \<or> k = 4 \<or> k = 5 \<or> k = 6 \<or> k = 7"
  by auto

lemma of_nat_byte: "i < 256 \<Longrightarrow> (of_nat i :: u32) = ucast (of_nat i :: u8)"
  by (simp add: word_unat_eq_iff unsigned_ucast_eq unat_of_nat take_bit_nat_eq_self)

lemma tables_le_entries:
  "k < 8 \<Longrightarrow> i < 256 \<Longrightarrow> tables_le k ! i = (swapped_shift ^^ (8 * k + 8)) (push_bit 24 (of_nat i))"
  unfolding swapped_pow less_8 using swab32_byte [of "of_nat i"]
  by (elim disjE) (simp_all add: tables_le_def of_nat_byte tole_swab t0_le_entries t1_le_entries t2_le_entries t3_le_entries
      t4_le_entries t5_le_entries t6_le_entries t7_le_entries)

lemma tables_be_entries:
  "k < 8 \<Longrightarrow> i < 256 \<Longrightarrow> tables_be k ! i = (crc32_shift_be ^^ (8 * k + 8)) (push_bit 24 (of_nat i))"
  unfolding less_8
  by (elim disjE) (simp_all add: tables_be_def tobe_def t0_be_entries t1_be_entries t2_be_entries t3_be_entries
      t4_be_entries t5_be_entries t6_be_entries t7_be_entries)

interpretation le: sliced_register swapped_shift tables_le
proof
  show "swapped_shift (x XOR y) = swapped_shift x XOR swapped_shift y" for x y
    by (simp add: swapped_shift_def swab32_xor crc32_shift_le_xor)
  show "(swapped_shift ^^ 8) x = push_bit 8 x" if z: "drop_bit 24 x = 0" for x
  proof -
    have "\<not> bit x (24 + k)" for k using arg_cong [OF z, of "\<lambda>w. bit w k"] by (simp add: bit_simps)
    then have "\<forall>n < 8. \<not> bit (ext2fs_swab32 x) n" by (simp add: bits_swab32)
    then show ?thesis unfolding swapped_pow shift_le_out using swab32_drop [OF z] by (simp add: shift_le_out)
  qed
qed (rule tables_le_entries)

interpretation be: sliced_register crc32_shift_be tables_be
proof
  show "crc32_shift_be (x XOR y) = crc32_shift_be x XOR crc32_shift_be y" for x y by (rule crc32_shift_be_xor)
  show "(crc32_shift_be ^^ 8) x = push_bit 8 x" if z: "drop_bit 24 x = 0" for x
  proof (rule shift_be_out, intro allI impI)
    fix n :: nat assume "n < 8"
    then have e: "31 - n = 24 + (7 - n)" by simp
    show "\<not> bit x (31 - n)" unfolding e using arg_cong [OF z, of "\<lambda>w. bit w (7 - n)"] by (simp add: bit_simps)
  qed
qed (rule tables_be_entries)

section \<open>The code computes the checksums\<close>

lemma le_byte: "crc32c_le_byte x b = le.byte_step x b"
  using le.table_step [of b x] by (simp add: crc32c_le_byte_def tables_le_def)

lemma be_byte: "crc32c_be_byte x b = be.byte_step x b"
  using be.table_step [of b x] by (simp add: crc32c_be_byte_def tables_be_def)

lemma le_words: "crc32c_le_words x (ld32 buf 0) (ld32 buf 4) = fold (\<lambda>b x. le.byte_step x b) (map ((!) buf) [0, 1, 2, 3, 4, 5, 6, 7]) x"
  using le.slice [of buf x] by (simp only: crc32c_le_words_def tables_le_def) simp

lemma be_words: "crc32c_be_words x (ld32 buf 0) (ld32 buf 4) = fold (\<lambda>b x. be.byte_step x b) (map ((!) buf) [0, 1, 2, 3, 4, 5, 6, 7]) x"
  using be.slice [of buf x] by (simp only: crc32c_be_words_def tables_be_def) simp

lemma init_le: "crc_init_bytes addr n \<le> n" by (simp add: crc_init_bytes_def)

lemma le_body: "crc32c_le_body addr crc buf = ext2fs_swab32 (fold (\<lambda>b x. le.byte_step x b) buf (ext2fs_swab32 crc))"
proof -
  have loop: "8 * n \<le> length xs \<Longrightarrow> crc32c_le_loop n x xs = fold (\<lambda>b x. le.byte_step x b) (take (8 * n) xs) x" for n x xs
    by (rule le.slices) (simp_all add: le_words)
  note p = three_parts [OF init_le [of addr "length buf"]]
  show ?thesis unfolding crc32c_le_body_def Let_def le_byte loop [OF p(1)] p(2) ..
qed

lemma be_body: "crc32c_be_body addr crc buf = fold (\<lambda>b x. be.byte_step x b) buf crc"
proof -
  have loop: "8 * n \<le> length xs \<Longrightarrow> crc32c_be_loop n x xs = fold (\<lambda>b x. be.byte_step x b) (take (8 * n) xs) x" for n x xs
    by (rule be.slices) (simp_all add: be_words)
  note p = three_parts [OF init_le [of addr "length buf"]]
  show ?thesis unfolding crc32c_be_body_def Let_def be_byte loop [OF p(1)] p(2) ..
qed

lemma le_fold: "ext2fs_swab32 (fold (\<lambda>b x. le.byte_step x b) buf (ext2fs_swab32 crc)) = crc32c_le_bits crc buf"
proof (induction buf arbitrary: crc)
  case Nil
  then show ?case by (simp add: crc32c_le_bits_def swab32_swab32)
next
  case (Cons b buf)
  have "le.byte_step (ext2fs_swab32 crc) b = ext2fs_swab32 ((crc32_shift_le ^^ 8) (crc XOR ucast b))"
    by (simp add: le.byte_step_def swapped_pow swab32_xor swab32_byte swab32_swab32)
  then show ?case using Cons by (simp add: crc32c_le_bits_def)
qed

text \<open>
  C33. The sliced CRC-32C is the bit-by-bit one. Wherever the data lies in memory, the code that
  takes eight bytes at a time through eight tables of 256 words returns what the variants that
  shift the register by one bit compute, for both bit orders and every start value; so checksums
  may be continued over pieces of data.
\<close>

theorem crc32c_sliced_is_bitwise:
  "ext2fs_crc32c_le addr crc p = crc32c_le_bits crc p \<and> ext2fs_crc32c_be addr crc p = crc32c_be_bits crc p \<and>
   ext2fs_crc32c_le addr crc (p @ q) = ext2fs_crc32c_le addr' (ext2fs_crc32c_le addr crc p) q \<and>
   ext2fs_crc32c_be addr crc (p @ q) = ext2fs_crc32c_be addr' (ext2fs_crc32c_be addr crc p) q"
proof -
  have le: "ext2fs_crc32c_le a c d = crc32c_le_bits c d" for a c d
    unfolding ext2fs_crc32c_le_def le_body le_fold ..
  have be: "ext2fs_crc32c_be a c d = crc32c_be_bits c d" for a c d
    by (simp add: ext2fs_crc32c_be_def be_body crc32c_be_bits_def be.byte_step_def)
  show ?thesis unfolding le be by (simp add: crc32c_le_bits_def crc32c_be_bits_def)
qed

end
