(* ===== verification/Spec2Isabelle.thy ===== *)
theory Spec2Isabelle
  imports Badblocks Icount Checksums Dir_Ops Alloc_Tables Extent_Walk Dir_Tree Dblist Dirhash Relocation Files Crc32c
begin

text \<open>
  A verification library for libext2fs, the user-space ext2/3/4 library of this repository, in the form
  it has on its target: a big-endian machine with 32-bit \<open>long\<close> and \<open>size_t\<close>, a disc behind a sector
  cache, one thread. All paths below are under \<open>src/source\<close>.

  \<^bold>\<open>How the program is put together.\<close> A \<open>struct struct_ext2_filsys\<close> holds the superblock, the group
  descriptors, the block and inode bitmaps and a small inode cache in memory, and an I/O channel to the
  device. Everything else works on this handle: the allocators search and mark the bitmaps and charge
  the counts of the groups, the inode code reads and writes the inode tables through the channel, the
  indirect blocks and the extent trees map the blocks of a file, directories are such files whose
  blocks hold lists of records. The channel dispatches to a manager; the one of the target reads and
  writes ranges of bytes of a disc through a cache of pages of sectors.

  \<^bold>\<open>How the model corresponds to the code.\<close> Integers are words of the width of the C type, so that
  wrap-around, truncation and shifts are those of the code. A struct is a record whose fields have the
  names of the C members behind a short prefix. A function that returns an error code has the result
  type \<open>'a result = errcode + 'a\<close>; the codes are the constants of \<open>Error_Codes\<close>. State is passed
  explicitly: a function that changes the handle, the channel or a buffer returns the changed one.
  Memory that is allocated is not addressed, but every allocation asks a parameter \<open>h\<close> of type
  \<open>'a heap\<close> whether it is granted, so that the path of each \<open>EXT2_ET_NO_MEMORY\<close> is a branch of the
  model. Pointers to static or private data are the data. The raw disc is a record of functions over an
  unknown state (\<open>disc\<close> in \<open>Disc_Cache\<close>); the cache, the manager and the channel are the code.

  \<^bold>\<open>Parts.\<close>
  \<^item> \<open>Ext2_Prelude\<close>, \<open>Error_Codes\<close>, \<open>Byte_Memory\<close>: types, allocation, loads and stores of the target
    (\<open>ext2fs.h\<close>, \<open>functions.c\<close>, \<open>ext2_err.h\<close>).
  \<^item> \<open>Block_Set\<close>: the locale of containers of numbers; \<open>Badblocks\<close> (\<open>badblocks.c\<close>), \<open>Bitmap32\<close>
    (\<open>gen_bitmap.c\<close>) and \<open>Bitmap64\<close> (\<open>gen_bitmap64.c\<close>, \<open>blkmap64_ba.c\<close>) provide it, so that every run
    of operations on each of them is a run on a set. \<open>Bitops\<close> and \<open>Bitmap_Bits\<close> are the bit arrays
    below them (\<open>bitops.c\<close>, \<open>bitops.h\<close>), \<open>Bitmaps\<close> the maps of a file system (\<open>bitmaps.c\<close>),
    \<open>Icount\<close> the inode counts that use them (\<open>icount.c\<close>).
  \<^item> \<open>Filsys\<close>: superblock, descriptors, inode, handle (\<open>ext2_fs.h\<close>, \<open>ext2fs.h\<close>) and the fields that are
    split in halves (\<open>blknum.c\<close>), with what becomes of the next group where the descriptors overlap
    (\<open>desc_apart\<close> says that they do not); \<open>Groups_Layout\<close>: the arithmetic of groups, backup superblocks and block
    counts (\<open>blknum.c\<close>, \<open>closefs.c\<close>, \<open>sparse.c\<close>, \<open>i_block.c\<close>).
  \<^item> \<open>Checksums\<close>: CRC-16 and the checksums of the descriptors (\<open>crc16.c\<close>, \<open>csum.c\<close>, \<open>swapfs.c\<close>);
    \<open>Crc32c_Tables_Le\<close>, \<open>Crc32c_Tables_Be\<close>, \<open>Crc32c\<close>: the sliced CRC-32C (\<open>crc32c.c\<close>).
  \<^item> \<open>Io_Manager\<close> (\<open>io_manager.c\<close>), \<open>Disc_Cache\<close> (\<open>disc_cache.c\<close>), \<open>Gekko_Io\<close> (\<open>gekko_io.c\<close>): the
    device. \<open>Cache_Array\<close> and \<open>Cache_Store\<close> show that the cache is an array of sectors,
    \<open>Gekko_Bytes\<close> that the manager is an array of bytes over anything that satisfies the locale there.
    \<open>Block_Device\<close> has the macros of \<open>ext2_io.h\<close>, \<open>ind_block.c\<close> and the locale \<open>block_device\<close> of the code
    that works on blocks; \<open>Gekko_Device\<close> interprets it on the manager.
  \<^item> \<open>Dir_Block\<close>, \<open>Dir_Ops\<close>: the records of a directory block, and what lookup, link and unlink do to one
    (\<open>dir_iterate.c\<close>, \<open>dirblock.c\<close>, \<open>newdir.c\<close>, \<open>lookup.c\<close>, \<open>link.c\<close>, \<open>unlink.c\<close>, \<open>swapfs.c\<close>). A block
    in bytes is related to the list of its records (\<open>recs\<close>), on which \<open>link_recs\<close> says what linking does.
  \<^item> \<open>Inode_Mem\<close>, \<open>Inode_Io\<close>: an inode as bytes, the inode cache, reading and writing the inode tables
    (\<open>inode.c\<close>, \<open>swapfs.c\<close>).
  \<^item> \<open>Rw_Bitmaps\<close> (\<open>rw_bitmaps.c\<close>, \<open>inline.c\<close>), \<open>Alloc\<close> (\<open>alloc.c\<close>, \<open>alloc_stats.c\<close>, \<open>alloc_sb.c\<close>,
    \<open>valid_blk.c\<close>, \<open>check_desc.c\<close>), \<open>Alloc_Tables\<close> (\<open>alloc_tables.c\<close>).
  \<^item> \<open>Extent\<close>, \<open>Extent_Ops\<close>, \<open>Extent_Bmap\<close>: the handle on a tree of extents, its moves and its changes
    (\<open>extent.c\<close>, \<open>ext3_extents.h\<close>); \<open>Extent_Leaf\<close>, \<open>Extent_Root\<close>, \<open>Extent_Write\<close>, \<open>Extent_Map\<close> show that a
    tree in the inode is a list of extents and \<open>ext2fs_extent_set_bmap\<close> an update of a function;
    \<open>Extent_Walk\<close> that a walk over a tree ends.
  \<^item> \<open>Block_Iter\<close>: the walk over the blocks of an inode and over a directory (\<open>block.c\<close>,
    \<open>dir_iterate.c\<close>); \<open>Bmap\<close>: from the blocks of a file to those of the device (\<open>bmap.c\<close>).
  \<^item> \<open>Dir_Tree\<close>: what works on whole directories and paths (\<open>lookup.c\<close>, \<open>link.c\<close>, \<open>unlink.c\<close>, \<open>namei.c\<close>,
    \<open>get_pathname.c\<close>, \<open>expanddir.c\<close>, \<open>mkdir.c\<close>); \<open>Dblist\<close>: lists of directory blocks (\<open>dblist.c\<close>,
    \<open>dblist_dir.c\<close>); \<open>Dirhash\<close>: the hashes of names (\<open>dirhash.c\<close>).
  \<^item> \<open>Files\<close>: open files and the freeing of ranges of blocks (\<open>fileio.c\<close>, \<open>punch.c\<close>); \<open>Relocation\<close>: the
    tables of moved blocks and inodes (\<open>brel_ma.c\<close>, \<open>irel_ma.c\<close>).

  \<^bold>\<open>Bounds.\<close> Loops whose end is evident are recursions with a measure. A loop of the code that may spin
  for ever on damaged data has a bound, and a call that reaches the bound has the value \<open>NO_RETURN\<close>
  (\<open>Inode_Io\<close>) or \<open>None\<close>, which no code returns; an access outside of an object has the value
  \<open>UNDEFINED\<close> (\<open>Extent\<close>). The bounds: a walk over a tree of depth \<open>d\<close> is given \<open>2 * d + 4\<close> turns, which
  \<open>Extent_Walk\<close> proves to be enough; going to a block 65537 turns for each level, a node having at most
  65535 entries; splitting a node \<open>2 * d + 8\<close> nested calls, each of which is a level higher or in a
  tree that has grown by one; deletion and the correction of parents one call for each level.

  \<^bold>\<open>Not modelled.\<close> Null callbacks and null handles, which no caller passes; the image file, which
  is the channel of the file system itself; messages (\<open>com_err.c\<close>), which the target leaves out; the
  contents of a buffer after a read that failed; opening, creating and closing a file system
  (\<open>openfs.c\<close>, \<open>initialize.c\<close>, most of \<open>closefs.c\<close>), the scan over all inodes of \<open>inode.c\<close>, the journal
  (\<open>mkjournal.c\<close>), attribute blocks (\<open>ext_attr.c\<close>), multi-mount protection (\<open>mmp.c\<close>). \<open>tdb.c\<close> is another project's database, the
  \<open>ext2*.c\<close> files are the interface to the console's own library, whose headers are not here.
\<close>

end
